(* ===== verification/Inc_Prelude.thy ===== *)
theory Inc_Prelude
  imports Main "HOL-Library.Multiset"
begin

text \<open>
  The prelude of the development: the result type of Go code that may return an error or panic,
  slice expressions, the bounded loops of the source as monadic folds,
  Go maps as association lists, the small helpers of \<^verbatim>\<open>src/common\<close>, and the generic lemmas that the
  component theories share. Slices are modelled with a capacity equal to their length: an index
  beyond the length is out of range.
\<close>

section \<open>Results of Go code\<close>

text \<open>
  A Go function that returns an error value, or that may panic (index out of range, division by
  zero, nil dereference, explicit \<^verbatim>\<open>panic\<close>), returns \<open>Inl\<close>; \<open>GoErr\<close> carries the constant part of
  the error message of the source.
\<close>

datatype go_err = GoPanic | GoErr string

type_synonym 'a go = "go_err + 'a"

definition go_bind :: "'a go \<Rightarrow> ('a \<Rightarrow> 'b go) \<Rightarrow> 'b go" where
  "go_bind m f = (case m of Inl e \<Rightarrow> Inl e | Inr x \<Rightarrow> f x)"

definition go_ok :: "'a go \<Rightarrow> bool" where
  "go_ok m = (case m of Inl _ \<Rightarrow> False | Inr _ \<Rightarrow> True)"

fun go_foldl :: "('s \<Rightarrow> 'a \<Rightarrow> 's go) \<Rightarrow> 's \<Rightarrow> 'a list \<Rightarrow> 's go" where
  "go_foldl f s [] = Inr s"
| "go_foldl f s (x # xs) = go_bind (f s x) (\<lambda>s'. go_foldl f s' xs)"

fun go_map :: "('a \<Rightarrow> 'b go) \<Rightarrow> 'a list \<Rightarrow> 'b list go" where
  "go_map f [] = Inr []"
| "go_map f (x # xs) = go_bind (f x) (\<lambda>y. go_bind (go_map f xs) (\<lambda>ys. Inr (y # ys)))"

definition go_assert :: "bool \<Rightarrow> string \<Rightarrow> unit go" where
  "go_assert b msg = (if b then Inr () else Inl (GoErr msg))"

named_theorems go_elims "inversion rules for successful results"

lemma go_bind_simps [simp]:
  "go_bind (Inl e) f = Inl e"
  "go_bind (Inr x) f = f x"
  by (simp_all add: go_bind_def)

lemma go_bind_eq_Inr [simp]: "go_bind m f = Inr y \<longleftrightarrow> (\<exists>x. m = Inr x \<and> f x = Inr y)"
  by (cases m) auto

lemma go_bind_assoc: "go_bind (go_bind m f) g = go_bind m (\<lambda>x. go_bind (f x) g)"
  by (cases m) auto

lemma go_bind_if_Inr: "go_bind (if b then Inr x else m) f = (if b then f x else go_bind m f)"
  by simp

lemma go_ok_simps [simp]: "go_ok (Inr x)" "\<not> go_ok (Inl e)"
  by (simp_all add: go_ok_def)

lemma go_ok_iff: "go_ok m \<longleftrightarrow> (\<exists>x. m = Inr x)"
  by (cases m) auto

lemma go_assert_eq_Inr [simp]: "go_assert b msg = Inr u \<longleftrightarrow> b"
  by (simp add: go_assert_def)

lemma go_assert_simps [simp]:
  "go_assert True msg = Inr ()"
  "go_assert False msg = Inl (GoErr msg)"
  by (simp_all add: go_assert_def)

text \<open>A caller that handles an error; a panic is passed on.\<close>

definition go_catch :: "'a go \<Rightarrow> 'b go \<Rightarrow> ('a \<Rightarrow> 'b go) \<Rightarrow> 'b go" where
  "go_catch m on_err f = (case m of Inl GoPanic \<Rightarrow> Inl GoPanic | Inl (GoErr _) \<Rightarrow> on_err | Inr x \<Rightarrow> f x)"

lemma go_catch_simps [simp]:
  "go_catch (Inr x) e f = f x" "go_catch (Inl (GoErr msg)) e f = e" "go_catch (Inl GoPanic) e f = Inl GoPanic"
  by (simp_all add: go_catch_def)

lemma go_catch_eq_Inr: "go_catch m e f = Inr y \<longleftrightarrow> (\<exists>x. m = Inr x \<and> f x = Inr y) \<or> (\<exists>msg. m = Inl (GoErr msg)) \<and> e = Inr y"
  by (cases m) (auto simp: go_catch_def split: go_err.splits)

text \<open>A loop that succeeds keeps every invariant its body keeps.\<close>

lemma go_foldl_invariant:
  assumes "go_foldl f s xs = Inr s'" and "P s"
    and "\<And>s x s'. x \<in> set xs \<Longrightarrow> P s \<Longrightarrow> f s x = Inr s' \<Longrightarrow> P s'"
  shows "P s'"
  using assms
proof (induction xs arbitrary: s)
  case Nil
  then show ?case by simp
next
  case (Cons x xs)
  from Cons.prems(1) obtain s1 where s1: "f s x = Inr s1" and rest: "go_foldl f s1 xs = Inr s'"
    by auto
  have "P s1" using Cons.prems(3) [OF _ Cons.prems(2) s1] by simp
  then show ?case using Cons.IH [OF rest] Cons.prems(3) by auto
qed

lemma go_foldl_append:
  "go_foldl f s (xs @ ys) = go_bind (go_foldl f s xs) (\<lambda>s'. go_foldl f s' ys)"
proof (induction xs arbitrary: s)
  case Nil
  then show ?case by simp
next
  case (Cons x xs)
  then show ?case by (cases "f s x") auto
qed

text \<open>A loop whose body never fails does not fail.\<close>

lemma go_foldl_total:
  assumes "\<And>s x. x \<in> set xs \<Longrightarrow> go_ok (f s x)"
  shows "go_ok (go_foldl f s xs)"
  using assms
proof (induction xs arbitrary: s)
  case Nil
  then show ?case by simp
next
  case (Cons x xs)
  from Cons.prems [of x s] obtain s1 where "f s x = Inr s1" by (auto simp: go_ok_iff)
  with Cons.IH [of s1] Cons.prems show ?case by simp
qed

lemma go_ok_bind [simp]: "go_ok (go_bind m f) \<longleftrightarrow> (\<exists>x. m = Inr x \<and> go_ok (f x))"
  by (cases m) auto

lemma go_map_length: "go_map f xs = Inr ys \<Longrightarrow> length ys = length xs"
  by (induction xs arbitrary: ys) auto

lemma go_map_set:
  assumes "go_map f xs = Inr ys" and "y \<in> set ys"
  shows "\<exists>x \<in> set xs. f x = Inr y"
  using assms by (induction xs arbitrary: ys) auto

lemma go_map_ok: "\<forall>x \<in> set xs. f x = Inr (g x) \<Longrightarrow> go_map f xs = Inr (map g xs)"
  by (induction xs) auto

section \<open>Slices\<close>

definition slice_to :: "'a list \<Rightarrow> int \<Rightarrow> 'a list go" where
  "slice_to xs n = (if 0 \<le> n \<and> n \<le> int (length xs) then Inr (take (nat n) xs) else Inl GoPanic)"

definition slice_from :: "'a list \<Rightarrow> int \<Rightarrow> 'a list go" where
  "slice_from xs n = (if 0 \<le> n \<and> n \<le> int (length xs) then Inr (drop (nat n) xs) else Inl GoPanic)"

definition go_slice :: "'a list \<Rightarrow> int \<Rightarrow> int \<Rightarrow> 'a list go" where
  "go_slice xs i j = (if 0 \<le> i \<and> i \<le> j \<and> j \<le> int (length xs)
     then Inr (take (nat (j - i)) (drop (nat i) xs)) else Inl GoPanic)"

definition go_index :: "'a list \<Rightarrow> int \<Rightarrow> 'a go" where
  "go_index xs i = (if 0 \<le> i \<and> i < int (length xs) then Inr (xs ! nat i) else Inl GoPanic)"

lemma slice_to_eq_Inr [simp]:
  "slice_to xs n = Inr ys \<longleftrightarrow> 0 \<le> n \<and> n \<le> int (length xs) \<and> ys = take (nat n) xs"
  by (auto simp: slice_to_def)

lemma slice_from_eq_Inr [simp]:
  "slice_from xs n = Inr ys \<longleftrightarrow> 0 \<le> n \<and> n \<le> int (length xs) \<and> ys = drop (nat n) xs"
  by (auto simp: slice_from_def)

lemma go_slice_eq_Inr [simp]:
  "go_slice xs i j = Inr ys \<longleftrightarrow>
     0 \<le> i \<and> i \<le> j \<and> j \<le> int (length xs) \<and> ys = take (nat (j - i)) (drop (nat i) xs)"
  by (auto simp: go_slice_def)

lemma go_index_eq_Inr [simp]:
  "go_index xs i = Inr y \<longleftrightarrow> 0 \<le> i \<and> i < int (length xs) \<and> y = xs ! nat i"
  by (auto simp: go_index_def)

lemma mset_take_drop: "mset (take n xs) + mset (drop n xs) = mset xs"
  by (metis append_take_drop_id mset_append)

lemma mset_take_drop_mid:
  "i \<le> j \<Longrightarrow> mset (take i xs) + mset (take (j - i) (drop i xs)) + mset (drop j xs) = mset xs"
proof -
  assume "i \<le> j"
  then have "drop j xs = drop (j - i) (drop i xs)" by simp
  then have "mset (take (j - i) (drop i xs)) + mset (drop j xs) = mset (drop i xs)"
    by (metis mset_take_drop)
  then show ?thesis by (metis mset_take_drop add.assoc)
qed

section \<open>Integer division\<close>

text \<open>Go's integer division truncates towards zero; a zero divisor panics (no divisor of the model is zero).\<close>

definition go_div :: "int \<Rightarrow> int \<Rightarrow> int" where
  "go_div a b = (if (a < 0) = (b < 0) then \<bar>a\<bar> div \<bar>b\<bar> else - (\<bar>a\<bar> div \<bar>b\<bar>))"

lemma go_div_nonneg [simp]: "0 \<le> a \<Longrightarrow> 0 < b \<Longrightarrow> go_div a b = a div b"
  by (simp add: go_div_def)

section \<open>Helpers of src/common\<close>

text \<open>\<^verbatim>\<open>common.IndexOfStr\<close> and \<^verbatim>\<open>common.IndexOfInt\<close>: the first position of an item, or -1.\<close>

fun index_of_from :: "int \<Rightarrow> 'a \<Rightarrow> 'a list \<Rightarrow> int" where
  "index_of_from k x [] = -1"
| "index_of_from k x (v # vs) = (if x = v then k else index_of_from (k + 1) x vs)"

definition IndexOfStr :: "'a \<Rightarrow> 'a list \<Rightarrow> int" where
  "IndexOfStr x xs = index_of_from 0 x xs"

definition IndexOfInt :: "'a \<Rightarrow> 'a list \<Rightarrow> int" where
  "IndexOfInt x xs = index_of_from 0 x xs"

lemma index_of_from_notin: "x \<notin> set xs \<Longrightarrow> index_of_from k x xs = -1"
  by (induction xs arbitrary: k) auto

lemma index_of_from_bounds:
  "x \<in> set xs \<Longrightarrow> k \<le> index_of_from k x xs \<and> index_of_from k x xs < k + int (length xs)"
proof (induction xs arbitrary: k)
  case Nil
  then show ?case by simp
next
  case (Cons v vs)
  show ?case
  proof (cases "x = v")
    case True
    then show ?thesis by simp
  next
    case False
    with Cons.prems have "x \<in> set vs" by simp
    from Cons.IH [OF this, of "k + 1"] False show ?thesis by simp
  qed
qed

lemma index_of_from_nth:
  "x \<in> set xs \<Longrightarrow> xs ! nat (index_of_from k x xs - k) = x"
proof (induction xs arbitrary: k)
  case Nil
  then show ?case by simp
next
  case (Cons v vs)
  show ?case
  proof (cases "x = v")
    case True
    then show ?thesis by simp
  next
    case False
    with Cons.prems have x: "x \<in> set vs" by simp
    from index_of_from_bounds [OF x, of "k + 1"] have le: "k + 1 \<le> index_of_from (k + 1) x vs" by simp
    then have "nat (index_of_from (k + 1) x vs - k) = Suc (nat (index_of_from (k + 1) x vs - (k + 1)))"
      by simp
    with Cons.IH [OF x, of "k + 1"] False show ?thesis by simp
  qed
qed

lemma IndexOfStr_eq_minus_one [simp]: "IndexOfStr x xs = -1 \<longleftrightarrow> x \<notin> set xs"
  using index_of_from_notin [of x xs 0] index_of_from_bounds [of x xs 0]
  by (fastforce simp: IndexOfStr_def)

lemma IndexOfInt_eq_minus_one [simp]: "IndexOfInt x xs = -1 \<longleftrightarrow> x \<notin> set xs"
  using index_of_from_notin [of x xs 0] index_of_from_bounds [of x xs 0]
  by (fastforce simp: IndexOfInt_def)

lemma IndexOfStr_mem:
  assumes "x \<in> set xs"
  shows "0 \<le> IndexOfStr x xs" and "IndexOfStr x xs < int (length xs)"
    and "xs ! nat (IndexOfStr x xs) = x"
  using index_of_from_bounds [OF assms, of 0] index_of_from_nth [OF assms, of 0]
  by (simp_all add: IndexOfStr_def)

section \<open>Maps as association lists\<close>

text \<open>Association lists as Go maps: reading is \<open>map_of\<close>.\<close>

definition al_put :: "'a \<Rightarrow> 'b \<Rightarrow> ('a \<times> 'b) list \<Rightarrow> ('a \<times> 'b) list" where
  "al_put k v m = (if k \<in> fst ` set m then map (\<lambda>(k', w). (k', if k' = k then v else w)) m else m @ [(k, v)])"

definition al_del :: "'a \<Rightarrow> ('a \<times> 'b) list \<Rightarrow> ('a \<times> 'b) list" where
  "al_del k m = filter (\<lambda>(k', _). k' \<noteq> k) m"

definition al_upd :: "'a \<Rightarrow> ('b \<Rightarrow> 'b) \<Rightarrow> ('a \<times> 'b) list \<Rightarrow> ('a \<times> 'b) list" where
  "al_upd k f m = map (\<lambda>(k', w). (k', if k' = k then f w else w)) m"

lemma map_of_overwrite:
  "map_of (map (\<lambda>(k', w). (k', if k' = k then v else w)) m) x = (if x = k then map_option (\<lambda>_. v) (map_of m x) else map_of m x)"
  by (induction m) auto

lemma map_of_al_put [simp]: "map_of (al_put k v m) = (map_of m)(k \<mapsto> v)"
proof (cases "k \<in> fst ` set m")
  case True
  then have "map_of m k \<noteq> None" by (simp add: map_of_eq_None_iff)
  then show ?thesis using True by (auto simp: al_put_def map_of_overwrite fun_eq_iff)
next
  case False
  then have "map_of m k = None" by (simp add: map_of_eq_None_iff)
  then show ?thesis using False by (auto simp: al_put_def map_add_def fun_eq_iff split: option.splits)
qed

lemma map_of_al_del [simp]: "map_of (al_del k m) = (map_of m)(k := None)"
  by (induction m) (auto simp: al_del_def fun_eq_iff)

lemma map_of_al_upd [simp]: "map_of (al_upd k f m) = (\<lambda>x. if x = k then map_option f (map_of m x) else map_of m x)"
  by (induction m) (auto simp: al_upd_def fun_eq_iff)

lemma keys_al_upd [simp]: "map fst (al_upd k f m) = map fst m"
  by (simp add: al_upd_def case_prod_unfold comp_def)

lemma keys_al_put: "map fst (al_put k v m) = (if k \<in> fst ` set m then map fst m else map fst m @ [k])"
  by (auto simp: al_put_def case_prod_unfold comp_def)

lemma keys_al_del: "map fst (al_del k m) = removeAll k (map fst m)"
  by (induction m) (auto simp: al_del_def)

lemma keys_grow: "fst ` set m \<subseteq> fst ` set (al_put k v m)"
proof -
  have "set (map fst m) \<subseteq> set (map fst (al_put k v m))" unfolding keys_al_put by auto
  then show ?thesis by simp
qed

lemma distinct_al [simp]:
  "distinct (map fst m) \<Longrightarrow> distinct (map fst (al_put k v m))"
  "distinct (map fst m) \<Longrightarrow> distinct (map fst (al_del k m))"
  unfolding keys_al_put keys_al_del by (auto simp: distinct_removeAll)

lemma keys_al_put_set: "fst ` set (al_put c v m) = insert c (fst ` set m)"
proof -
  have "set (map fst (al_put c v m)) = insert c (set (map fst m))" unfolding keys_al_put by auto
  then show ?thesis by simp
qed

lemma al_put_same: "distinct (map fst m) \<Longrightarrow> map_of m k = Some v \<Longrightarrow> al_put k v m = m"
proof -
  assume d: "distinct (map fst m)" and k: "map_of m k = Some v"
  have "(case x of (k', w) \<Rightarrow> (k', if k' = k then v else w)) = x" if "x \<in> set m" for x
    using that k map_of_is_SomeI [OF d, of "fst x" "snd x"] by (auto split: prod.splits)
  then have "map (\<lambda>(k', w). (k', if k' = k then v else w)) m = m" by (intro map_idI)
  moreover have "k \<in> fst ` set m" using map_of_SomeD [OF k] by force
  ultimately show ?thesis by (simp add: al_put_def)
qed

lemma al_put_put [simp]: "al_put k v (al_put k w m) = al_put k v m"
  by (auto simp: al_put_def image_Un image_image case_prod_unfold comp_def image_iff intro!: map_cong map_idI)

lemma set_al_put: "distinct (map fst m) \<Longrightarrow> set (al_put k v m) = insert (k, v) {x \<in> set m. fst x \<noteq> k}"
proof -
  assume d: "distinct (map fst m)"
  then have "distinct (map fst (al_put k v m))" by simp
  then have "(a, b) \<in> set (al_put k v m) \<longleftrightarrow> map_of (al_put k v m) a = Some b" for a b
    by (rule map_of_eq_Some_iff [symmetric])
  then show ?thesis using d by (auto split: if_splits)
qed

text \<open>Sums over the entries of a map.\<close>

definition al_sum :: "('a \<times> 'b \<Rightarrow> int) \<Rightarrow> ('a \<times> 'b) list \<Rightarrow> int" where
  "al_sum f m = sum_list (map f m)"

lemma al_sum_put:
  assumes "distinct (map fst m)"
  shows "al_sum f (al_put k v m) = al_sum f m + f (k, v) - (case map_of m k of None \<Rightarrow> 0 | Some w \<Rightarrow> f (k, w))"
proof (cases "k \<in> fst ` set m")
  case True
  then obtain w where w: "(k, w) \<in> set m" by force
  then have k: "map_of m k = Some w" using assms by simp
  obtain xs ys where m: "m = xs @ (k, w) # ys" using w by (meson split_list)
  then have "k \<notin> fst ` set xs" "k \<notin> fst ` set ys" using assms by (auto simp: image_iff)
  then have id: "map (\<lambda>(k', w). (k', if k' = k then v else w)) xs = xs" "map (\<lambda>(k', w). (k', if k' = k then v else w)) ys = ys"
    by (auto intro!: map_idI simp: image_iff split: prod.splits)
  have "al_put k v m = xs @ (k, v) # ys" using True by (simp only: al_put_def if_True) (simp add: m id)
  then show ?thesis using k by (simp add: m al_sum_def)
next
  case False
  then have "map_of m k = None" by (simp add: map_of_eq_None_iff)
  then show ?thesis using False by (simp add: al_put_def al_sum_def)
qed

lemma al_sum_nonneg: "(\<And>x. x \<in> set m \<Longrightarrow> 0 \<le> f x) \<Longrightarrow> 0 \<le> al_sum f m"
  unfolding al_sum_def by (intro sum_list_nonneg) auto

lemma al_sum_member:
  assumes "\<And>x. x \<in> set m \<Longrightarrow> 0 \<le> f x" and "x \<in> set m"
  shows "f x \<le> al_sum f m"
proof -
  have "f x \<in> set (map f m)" using assms(2) by simp
  then show ?thesis unfolding al_sum_def using assms(1) by (intro member_le_sum_list) auto
qed

lemma al_sum_cong: "(\<And>x. x \<in> set m \<Longrightarrow> f x = g x) \<Longrightarrow> al_sum f m = al_sum g m"
  by (simp add: al_sum_def cong: map_cong)

lemma al_sum_add: "al_sum (\<lambda>x. f x + g x) m = al_sum f m + al_sum g m"
  by (simp add: al_sum_def sum_list_addf)

lemma al_sum_cmult: "al_sum (\<lambda>x. c * f x) m = c * al_sum f m"
  by (simp add: al_sum_def sum_list_const_mult)

lemma al_sum_Nil [simp]: "al_sum f [] = 0"
  by (simp add: al_sum_def)

section \<open>Runs of a component\<close>

text \<open>
  The contract of a component whose operations keep an invariant as long as a resource (a counter
  that must not wrap, for instance) lasts: every operation has a cost, and the invariant knows how
  much was spent. Components without such a resource use the cost 0.
\<close>

locale budgeted_runs =
  fixes step :: "'s \<Rightarrow> 'o \<Rightarrow> 's"
    and cost :: "'o \<Rightarrow> nat"
    and inv :: "nat \<Rightarrow> 's \<Rightarrow> bool"
    and limit :: nat
  assumes step_inv: "inv n s \<Longrightarrow> n + cost x < limit \<Longrightarrow> inv (n + cost x) (step s x)"
begin

lemma run_inv:
  assumes "inv n s" and "n + sum_list (map cost xs) < limit"
  shows "inv (n + sum_list (map cost xs)) (foldl step s xs)"
  using assms
proof (induction xs arbitrary: n s)
  case Nil
  then show ?case by simp
next
  case (Cons x xs)
  then have "inv (n + cost x) (step s x)" by (simp add: step_inv)
  from Cons.IH [OF this] Cons.prems(2) show ?case by (simp add: add.assoc)
qed

end

text \<open>
  A component that receives and pays amounts: \<open>owed\<close> is what it owes, scaled by \<open>scale\<close>. If no operation makes it owe
  more than it received and did not pay, it never pays more than it received.
\<close>

fun run_ops :: "('o \<Rightarrow> 's \<Rightarrow> 's) \<Rightarrow> 'o list \<Rightarrow> 's \<Rightarrow> 's" where
  "run_ops step [] s = s"
| "run_ops step (op # ops) s = run_ops step ops (step op s)"

fun run_sum :: "('o \<Rightarrow> 's \<Rightarrow> 's) \<Rightarrow> ('o \<Rightarrow> 's \<Rightarrow> int) \<Rightarrow> 'o list \<Rightarrow> 's \<Rightarrow> int" where
  "run_sum step f [] s = 0"
| "run_sum step f (op # ops) s = f op s + run_sum step f ops (step op s)"

locale solvent_runs =
  fixes step :: "'o \<Rightarrow> 's \<Rightarrow> 's" and ok :: "'s \<Rightarrow> bool" and allowed :: "'o \<Rightarrow> bool"
    and owed :: "'t \<Rightarrow> 's \<Rightarrow> int" and received :: "'t \<Rightarrow> 'o \<Rightarrow> 's \<Rightarrow> int" and paid :: "'t \<Rightarrow> 'o \<Rightarrow> 's \<Rightarrow> int" and scale :: int
  assumes scale_pos: "0 < scale"
    and step_ok: "ok s \<Longrightarrow> allowed op \<Longrightarrow> ok (step op s)"
    and owed_nonneg: "ok s \<Longrightarrow> 0 \<le> owed t s"
    and step_owed: "ok s \<Longrightarrow> allowed op \<Longrightarrow> owed t (step op s) + scale * paid t op s \<le> owed t s + scale * received t op s"
begin

lemma run_owed:
  assumes "ok s" and "\<forall>op \<in> set ops. allowed op"
  shows "ok (run_ops step ops s) \<and>
    owed t (run_ops step ops s) + scale * run_sum step (paid t) ops s \<le> owed t s + scale * run_sum step (received t) ops s"
  using assms
proof (induction ops arbitrary: s)
  case (Cons op ops)
  have "ok (step op s)" using Cons.prems step_ok by simp
  then show ?case using Cons.IH [of "step op s"] Cons.prems step_owed [of s op t] by (simp add: distrib_left)
qed simp

lemma run_solvent:
  assumes "ok s" and "\<forall>op \<in> set ops. allowed op" and "owed t s = 0"
  shows "run_sum step (paid t) ops s \<le> run_sum step (received t) ops s"
proof -
  have "scale * run_sum step (paid t) ops s \<le> scale * run_sum step (received t) ops s"
    using run_owed [OF assms(1,2), of t] owed_nonneg [of "run_ops step ops s" t] assms(3) by linarith
  then show ?thesis using scale_pos by simp
qed

end

end
