(* ===== verification/Go_Strings.thy ===== *)
theory Go_Strings
  imports Inc_Prelude
begin

text \<open>
  The parts of Go's \<^verbatim>\<open>strings\<close> and \<^verbatim>\<open>strconv\<close> packages that the instruction codecs use:
  \<^verbatim>\<open>strings.Split\<close> and \<^verbatim>\<open>strings.Join\<close> with a one-character separator, and base-10 \<^verbatim>\<open>Itoa\<close>,
  \<^verbatim>\<open>FormatInt\<close>, \<^verbatim>\<open>Atoi\<close>, \<^verbatim>\<open>ParseInt\<close> and \<^verbatim>\<open>ParseUint\<close> at 64 bits, with the value that Go returns
  beside an error. The lemmas are their round trips.
\<close>

section \<open>strings.Split and strings.Join\<close>

fun go_split :: "char \<Rightarrow> string \<Rightarrow> string list" where
  "go_split c [] = [[]]"
| "go_split c (x # xs) =
     (if x = c then [] # go_split c xs
      else (case go_split c xs of [] \<Rightarrow> [[x]] | y # ys \<Rightarrow> (x # y) # ys))"

fun go_join :: "char \<Rightarrow> string list \<Rightarrow> string" where
  "go_join c [] = []"
| "go_join c [x] = x"
| "go_join c (x # y # ys) = x @ c # go_join c (y # ys)"

lemma go_split_not_Nil [simp]: "go_split c s \<noteq> []"
  by (induction s) (auto split: list.split)

lemma go_split_no_sep: "c \<notin> set s \<Longrightarrow> go_split c s = [s]"
  by (induction s) auto

lemma go_split_append_sep: "c \<notin> set s \<Longrightarrow> go_split c (s @ c # t) = s # go_split c t"
  by (induction s) auto

lemma go_split_join:
  assumes "xs \<noteq> []" and "\<forall>x \<in> set xs. c \<notin> set x"
  shows "go_split c (go_join c xs) = xs"
  using assms
proof (induction c xs rule: go_join.induct)
  case (1 c)
  then show ?case by simp
next
  case (2 c x)
  then show ?case by (simp add: go_split_no_sep)
next
  case (3 c x y ys)
  then show ?case by (simp add: go_split_append_sep)
qed

lemma go_join_split: "go_join c (go_split c s) = s"
proof (induction s)
  case Nil
  then show ?case by simp
next
  case (Cons x xs)
  obtain y ys where yys: "go_split c xs = y # ys"
    using go_split_not_Nil by (metis list.exhaust)
  with Cons show ?case by (cases ys) auto
qed

lemma go_split_no_sep_in: "x \<in> set (go_split c s) \<Longrightarrow> c \<notin> set x"
  by (induction s arbitrary: x) (auto split: if_splits list.splits)

lemma go_join_eq_Nil:
  "go_join c xs = [] \<longleftrightarrow> xs = [] \<or> xs = [[]]"
  by (induction c xs rule: go_join.induct) auto

section \<open>Base-10 integers\<close>

definition digit_char :: "nat \<Rightarrow> char" where
  "digit_char d = char_of (48 + d)"

definition char_digit :: "char \<Rightarrow> nat option" where
  "char_digit c = (if 48 \<le> (of_char c :: nat) \<and> (of_char c :: nat) \<le> 57
     then Some (of_char c - 48) else None)"

fun format_nat :: "nat \<Rightarrow> string" where
  "format_nat n = (if n < 10 then [digit_char n] else format_nat (n div 10) @ [digit_char (n mod 10)])"

declare format_nat.simps [simp del]

definition go_itoa :: "int \<Rightarrow> string" where
  "go_itoa i = (if i < 0 then CHR ''-'' # format_nat (nat (- i)) else format_nat (nat i))"

datatype num_err = ErrSyntax | ErrRange

abbreviation max_uint64 :: nat where
  "max_uint64 \<equiv> 18446744073709551615"

abbreviation int64_cutoff :: nat where
  "int64_cutoff \<equiv> 9223372036854775808"

text \<open>
  The digit loop of \<^verbatim>\<open>ParseUint\<close>: a non-digit is a syntax error with value 0, an overflow is a
  range error with the largest value, whichever comes first.
\<close>

fun parse_digits :: "nat \<Rightarrow> string \<Rightarrow> nat \<times> num_err option" where
  "parse_digits n [] = (n, None)"
| "parse_digits n (c # cs) =
     (case char_digit c of
        None \<Rightarrow> (0, Some ErrSyntax)
      | Some d \<Rightarrow>
          if n * 10 + d > max_uint64 then (max_uint64, Some ErrRange)
          else parse_digits (n * 10 + d) cs)"

definition go_parse_uint :: "string \<Rightarrow> nat \<times> num_err option" where
  "go_parse_uint s = (if s = [] then (0, Some ErrSyntax) else parse_digits 0 s)"

definition parse_signed :: "bool \<Rightarrow> string \<Rightarrow> int \<times> num_err option" where
  "parse_signed neg s =
     (case go_parse_uint s of
        (_, Some ErrSyntax) \<Rightarrow> (0, Some ErrSyntax)
      | (un, _) \<Rightarrow>
          if \<not> neg \<and> un \<ge> int64_cutoff then (int int64_cutoff - 1, Some ErrRange)
          else if neg \<and> un > int64_cutoff then (- int int64_cutoff, Some ErrRange)
          else (if neg then - int un else int un, None))"

definition go_parse_int :: "string \<Rightarrow> int \<times> num_err option" where
  "go_parse_int s =
     (case s of
        [] \<Rightarrow> (0, Some ErrSyntax)
      | c # cs \<Rightarrow>
          if c = CHR ''+'' then parse_signed False cs
          else if c = CHR ''-'' then parse_signed True cs
          else parse_signed False s)"

definition go_atoi :: "string \<Rightarrow> int \<times> num_err option" where
  "go_atoi s = go_parse_int s"

definition is_int64 :: "int \<Rightarrow> bool" where
  "is_int64 i \<longleftrightarrow> - int int64_cutoff \<le> i \<and> i < int int64_cutoff"

lemma char_digit_digit_char: "d < 10 \<Longrightarrow> char_digit (digit_char d) = Some d"
  by (simp add: char_digit_def digit_char_def)

lemma format_nat_not_Nil [simp]: "format_nat n \<noteq> []"
  by (subst format_nat.simps) simp

lemma of_char_digit_char: "d < 10 \<Longrightarrow> (of_char (digit_char d) :: nat) = 48 + d"
  by (simp add: digit_char_def)

lemma format_nat_digits: "c \<in> set (format_nat n) \<Longrightarrow> \<exists>d < 10. c = digit_char d"
proof (induction n rule: format_nat.induct)
  case (1 n)
  show ?case
  proof (cases "n < 10")
    case True
    with "1.prems" show ?thesis by (subst (asm) format_nat.simps) auto
  next
    case False
    with "1.prems" have "c \<in> set (format_nat (n div 10)) \<or> c = digit_char (n mod 10)"
      by (subst (asm) format_nat.simps) auto
    with False "1.IH" show ?thesis by (metis mod_less_divisor zero_less_numeral)
  qed
qed

lemma digit_char_neq:
  assumes "d < 10"
  shows "digit_char d \<noteq> CHR '',''" "digit_char d \<noteq> CHR ''-''" "digit_char d \<noteq> CHR ''+''"
proof -
  have "(of_char (digit_char d) :: nat) = 48 + d" using assms by (rule of_char_digit_char)
  moreover have "(of_char (CHR '','') :: nat) = 44" "(of_char (CHR ''-'') :: nat) = 45"
    "(of_char (CHR ''+'') :: nat) = 43" by simp_all
  ultimately show "digit_char d \<noteq> CHR '',''" "digit_char d \<noteq> CHR ''-''" "digit_char d \<noteq> CHR ''+''"
    by auto
qed

lemma parse_digits_append:
  "parse_digits n xs = (m, None) \<Longrightarrow> parse_digits n (xs @ ys) = parse_digits m ys"
  by (induction n xs rule: parse_digits.induct) (auto split: option.splits if_splits)

lemma parse_format_nat: "n \<le> max_uint64 \<Longrightarrow> parse_digits 0 (format_nat n) = (n, None)"
proof (induction n rule: format_nat.induct)
  case (1 n)
  show ?case
  proof (cases "n < 10")
    case True
    then show ?thesis by (subst format_nat.simps) (simp add: char_digit_digit_char)
  next
    case False
    with "1.prems" have "n div 10 \<le> max_uint64" by simp
    with False "1.IH" have "parse_digits 0 (format_nat (n div 10)) = (n div 10, None)" by simp
    then have "parse_digits 0 (format_nat n) = parse_digits (n div 10) [digit_char (n mod 10)]"
      using False by (subst format_nat.simps) (simp add: parse_digits_append)
    then show ?thesis using "1.prems" by (simp add: char_digit_digit_char)
  qed
qed

lemma go_parse_uint_format: "n \<le> max_uint64 \<Longrightarrow> go_parse_uint (format_nat n) = (n, None)"
  by (simp add: go_parse_uint_def parse_format_nat)

lemma format_nat_hd:
  obtains c cs where "format_nat n = c # cs" "c \<noteq> CHR ''-''" "c \<noteq> CHR ''+''"
proof -
  obtain c cs where c: "format_nat n = c # cs" by (cases "format_nat n") auto
  then obtain d where "d < 10" "c = digit_char d" using format_nat_digits [of c n] by auto
  then show ?thesis using that c digit_char_neq by blast
qed

lemma go_parse_int_itoa: "is_int64 i \<Longrightarrow> go_parse_int (go_itoa i) = (i, None)"
proof (cases "i < 0")
  case True
  assume i: "is_int64 i"
  then have "nat (- i) \<le> int64_cutoff" by (auto simp: is_int64_def nat_le_iff)
  moreover then have "go_parse_uint (format_nat (nat (- i))) = (nat (- i), None)"
    by (intro go_parse_uint_format) simp
  ultimately show ?thesis using True by (simp add: go_parse_int_def go_itoa_def parse_signed_def)
next
  case False
  assume i: "is_int64 i"
  obtain c cs where c: "format_nat (nat i) = c # cs" "c \<noteq> CHR ''-''" "c \<noteq> CHR ''+''"
    by (rule format_nat_hd)
  have lt: "nat i < int64_cutoff" using i False by (simp add: is_int64_def)
  then have "go_parse_uint (format_nat (nat i)) = (nat i, None)" by (intro go_parse_uint_format) simp
  with lt False have "parse_signed False (format_nat (nat i)) = (i, None)"
    by (simp add: parse_signed_def)
  then show ?thesis using False c by (simp add: go_parse_int_def go_itoa_def)
qed

lemma go_atoi_itoa [simp]: "is_int64 i \<Longrightarrow> go_atoi (go_itoa i) = (i, None)"
  by (simp add: go_atoi_def go_parse_int_itoa)

lemma go_parse_uint_itoa: "is_int64 i \<Longrightarrow> 0 \<le> i \<Longrightarrow> go_parse_uint (go_itoa i) = (nat i, None)"
  by (simp add: go_itoa_def is_int64_def go_parse_uint_format)

lemma go_parse_uint_itoa_neg: "i < 0 \<Longrightarrow> go_parse_uint (go_itoa i) = (0, Some ErrSyntax)"
  by (simp add: go_itoa_def go_parse_uint_def char_digit_def)

lemma go_itoa_no_comma: "CHR '','' \<notin> set (go_itoa i)"
  using format_nat_digits digit_char_neq(1)
  by (auto simp: go_itoa_def split: if_splits) metis+

lemma go_itoa_not_Nil [simp]: "go_itoa i \<noteq> []"
  by (simp add: go_itoa_def)

lemma go_atoi_range: "go_atoi s = (i, None) \<Longrightarrow> is_int64 i"
  by (auto simp: go_atoi_def go_parse_int_def parse_signed_def is_int64_def
      split: list.splits prod.splits option.splits num_err.splits if_splits)

end
