(* ===== verification/Instructions.thy ===== *)
theory Instructions
  imports Go_Strings
begin

text \<open>
  The consensus instructions of \<^verbatim>\<open>src/instruction\<close>: their data, \<^verbatim>\<open>ToString\<close>, sanity validation and
  import, one record per Go struct and one definition per function, and the dispatcher of
  \<^verbatim>\<open>instruction.go\<close>. An instruction travels in a beacon block as a list of strings. Three decoders
  are parameters of the model, collected in the record \<open>codec\<close>: the committee key decoder
  (\<^verbatim>\<open>CommitteePublicKey.FromString\<close>, base58check and JSON), the transaction hash decoder
  (\<^verbatim>\<open>Hash.NewHashFromStr\<close>) and the payment address decoder (\<^verbatim>\<open>wallet.Base58CheckDeserialize\<close>);
  \<open>None\<close> is the error result. A pointer that may be nil is an option.
\<close>

record ('k, 'h, 'p) codec =
  FromString :: "string \<Rightarrow> 'k option"
  NewHashFromStr :: "string \<Rightarrow> 'h option"
  Base58CheckDeserialize :: "string \<Rightarrow> 'p option"

abbreviation (input) SPLITTER :: char where "SPLITTER \<equiv> CHR '',''"

abbreviation split_list :: "string \<Rightarrow> string list" where "split_list \<equiv> go_split SPLITTER"

abbreviation join_list :: "string list \<Rightarrow> string" where "join_list \<equiv> go_join SPLITTER"

abbreviation (input) SWAP_SHARD_ACTION :: string where "SWAP_SHARD_ACTION \<equiv> ''swapshard''"
abbreviation (input) SWAP_ACTION :: string where "SWAP_ACTION \<equiv> ''swap''"
abbreviation (input) RANDOM_ACTION :: string where "RANDOM_ACTION \<equiv> ''random''"
abbreviation (input) RE_DELEGATE :: string where "RE_DELEGATE \<equiv> ''redelegate''"
abbreviation (input) STAKE_ACTION :: string where "STAKE_ACTION \<equiv> ''stake''"
abbreviation (input) BEACON_STAKE_ACTION :: string where "BEACON_STAKE_ACTION \<equiv> ''bstake''"
abbreviation (input) ASSIGN_ACTION :: string where "ASSIGN_ACTION \<equiv> ''assign''"
abbreviation (input) STOP_AUTO_STAKE_ACTION :: string where "STOP_AUTO_STAKE_ACTION \<equiv> ''stopautostake''"
abbreviation (input) SET_ACTION :: string where "SET_ACTION \<equiv> ''set''"
abbreviation (input) RETURN_ACTION :: string where "RETURN_ACTION \<equiv> ''return''"
abbreviation (input) UNSTAKE_ACTION :: string where "UNSTAKE_ACTION \<equiv> ''unstake''"
abbreviation (input) ADD_STAKING_ACTION :: string where "ADD_STAKING_ACTION \<equiv> ''addstake''"
abbreviation (input) RETURN_BEACON_ACTION :: string where "RETURN_BEACON_ACTION \<equiv> ''returnb''"
abbreviation (input) SHARD_INST :: string where "SHARD_INST \<equiv> ''shard''"
abbreviation (input) BEACON_INST :: string where "BEACON_INST \<equiv> ''beacon''"
abbreviation (input) FINISH_SYNC_ACTION :: string where "FINISH_SYNC_ACTION \<equiv> ''finishsync''"
abbreviation (input) REQ_DREWARD_ACTION :: string where "REQ_DREWARD_ACTION \<equiv> ''reqdreward''"
abbreviation (input) MINT_DREWARD_ACTION :: string where "MINT_DREWARD_ACTION \<equiv> ''mintdreward''"
abbreviation (input) ENABLE_FEATURE :: string where "ENABLE_FEATURE \<equiv> ''enablefeature''"
abbreviation (input) ACCEPT_BLOCK_REWARD_V3_ACTION :: string
  where "ACCEPT_BLOCK_REWARD_V3_ACTION \<equiv> ''acceptblockrewardv3''"
abbreviation (input) SHARD_RECEIVE_REWARD_V3_ACTION :: string
  where "SHARD_RECEIVE_REWARD_V3_ACTION \<equiv> ''shardreceiverewardv3''"
abbreviation (input) BEACON_CHAIN_ID :: int where "BEACON_CHAIN_ID \<equiv> -1"
abbreviation (input) SWAP_BY_END_EPOCH :: int where "SWAP_BY_END_EPOCH \<equiv> 0"

section \<open>Key lists\<close>

text \<open>
  \<^verbatim>\<open>incognitokey.CommitteeBase58KeyListToStruct\<close>: the empty list and the list of one empty string
  decode to no key; the cache of the source holds results of \<^verbatim>\<open>FromString\<close> and is left out.
\<close>

definition decode_key :: "('k, 'h, 'p) codec \<Rightarrow> string \<Rightarrow> 'k go" where
  "decode_key cdc s = (case FromString cdc s of None \<Rightarrow> Inl (GoErr ''FromString'') | Some k \<Rightarrow> Inr k)"

definition CommitteeBase58KeyListToStruct :: "('k, 'h, 'p) codec \<Rightarrow> string list \<Rightarrow> 'k list go" where
  "CommitteeBase58KeyListToStruct cdc ks =
     (if ks = [] then Inr [] else if ks = [[]] then Inr [] else go_map (decode_key cdc) ks)"

definition or_panic :: "'a go \<Rightarrow> 'a go" where
  "or_panic m = (case m of Inl _ \<Rightarrow> Inl GoPanic | Inr x \<Rightarrow> Inr x)"

definition ptr_of :: "'a go \<Rightarrow> 'a option" where
  "ptr_of m = (case m of Inl _ \<Rightarrow> None | Inr x \<Rightarrow> Some x)"

definition hashes_of :: "('k, 'h, 'p) codec \<Rightarrow> string list \<Rightarrow> 'h list go" where
  "hashes_of cdc = go_map (\<lambda>s. case NewHashFromStr cdc s of None \<Rightarrow> Inl (GoErr ''NewHashFromStr'') | Some h \<Rightarrow> Inr h)"

definition receivers_of :: "('k, 'h, 'p) codec \<Rightarrow> string list \<Rightarrow> 'p list go" where
  "receivers_of cdc = go_map (\<lambda>s. case Base58CheckDeserialize cdc s of
     None \<Rightarrow> Inl (GoErr ''Base58CheckDeserialize'') | Some p \<Rightarrow> Inr p)"

text \<open>A list of strings that the wire format can carry: not empty, no separator in an item.\<close>

definition wire_list :: "string list \<Rightarrow> bool" where
  "wire_list xs \<longleftrightarrow> (\<forall>x \<in> set xs. x \<noteq> [] \<and> SPLITTER \<notin> set x)"

definition key_list :: "('k, 'h, 'p) codec \<Rightarrow> string list \<Rightarrow> bool" where
  "key_list cdc ks \<longleftrightarrow> wire_list ks \<and> (\<forall>k \<in> set ks. FromString cdc k \<noteq> None)"

definition keys_of :: "('k, 'h, 'p) codec \<Rightarrow> string list \<Rightarrow> 'k list" where
  "keys_of cdc ks = map (\<lambda>k. the (FromString cdc k)) ks"

named_theorems codec_simps "decoding of well-formed lists"

lemma or_panic_simps [simp]: "or_panic (Inr x) = Inr x" "or_panic (Inl e) = Inl GoPanic"
  by (simp_all add: or_panic_def)

lemma or_panic_eq_Inr [simp]: "or_panic m = Inr x \<longleftrightarrow> m = Inr x"
  by (cases m) auto

lemma ptr_of_simps [simp]: "ptr_of (Inr x) = Some x" "ptr_of (Inl e) = None"
  by (simp_all add: ptr_of_def)

lemma split_join_wire: "xs \<noteq> [] \<Longrightarrow> wire_list xs \<Longrightarrow> split_list (join_list xs) = xs"
  by (rule go_split_join) (auto simp: wire_list_def)

lemma join_wire_Nil: "wire_list xs \<Longrightarrow> join_list xs = [] \<longleftrightarrow> xs = []"
  by (auto simp: go_join_eq_Nil wire_list_def)

lemma key_list_wire [simp]: "key_list cdc ks \<Longrightarrow> wire_list ks"
  by (simp add: key_list_def)

lemma key_list_append [simp]:
  "key_list cdc (xs @ ys) \<longleftrightarrow> key_list cdc xs \<and> key_list cdc ys"
  by (auto simp: key_list_def wire_list_def)

lemma key_list_Nil [simp]: "key_list cdc []"
  by (simp add: key_list_def wire_list_def)

lemma KeyListToStruct_ok [codec_simps]:
  assumes "key_list cdc ks"
  shows "CommitteeBase58KeyListToStruct cdc ks = Inr (keys_of cdc ks)"
proof -
  have "\<forall>k \<in> set ks. decode_key cdc k = Inr (the (FromString cdc k))"
    using assms by (auto simp: key_list_def decode_key_def)
  then have "go_map (decode_key cdc) ks = Inr (keys_of cdc ks)"
    unfolding keys_of_def by (rule go_map_ok)
  then show ?thesis
    using assms by (auto simp: CommitteeBase58KeyListToStruct_def keys_of_def key_list_def wire_list_def)
qed

lemma KeyListToStruct_join [codec_simps]:
  assumes "key_list cdc ks"
  shows "CommitteeBase58KeyListToStruct cdc (split_list (join_list ks)) = Inr (keys_of cdc ks)"
proof (cases "ks = []")
  case True
  then show ?thesis by (simp add: CommitteeBase58KeyListToStruct_def keys_of_def)
next
  case False
  with assms show ?thesis by (simp add: split_join_wire KeyListToStruct_ok)
qed

section \<open>Random instruction (instruction_random.go)\<close>

record RandomInstruction =
  randomNumber :: int

definition RandomInstruction_ToString :: "RandomInstruction \<Rightarrow> string list" where
  "RandomInstruction_ToString s = [RANDOM_ACTION, go_itoa (randomNumber s), [], [], []]"

definition ValidateRandomInstructionSanity :: "string list \<Rightarrow> unit go" where
  "ValidateRandomInstructionSanity inst =
     (if length inst < 2 then Inl (GoErr ''invalid length'')
      else if inst ! 0 \<noteq> RANDOM_ACTION then Inl (GoErr ''invalid random action'')
      else if snd (go_parse_int (inst ! 1)) \<noteq> None then Inl (GoErr ''invalid btc nonce value'')
      else Inr ())"

definition ImportRandomInstructionFromString :: "string list \<Rightarrow> RandomInstruction go" where
  "ImportRandomInstructionFromString inst =
     go_bind (go_index inst 1) (\<lambda>s. Inr \<lparr>randomNumber = fst (go_parse_int s)\<rparr>)"

definition ValidateAndImportRandomInstructionFromString :: "string list \<Rightarrow> RandomInstruction go" where
  "ValidateAndImportRandomInstructionFromString inst =
     go_bind (ValidateRandomInstructionSanity inst) (\<lambda>_. ImportRandomInstructionFromString inst)"

section \<open>Stop auto stake instruction (instruction_stopautostake.go)\<close>

record 'k StopAutoStakeInstruction =
  sas_CommitteePublicKeys :: "string list"
  sas_CommitteePublicKeysStruct :: "'k list"

definition NewStopAutoStakeInstruction :: "'k StopAutoStakeInstruction" where
  "NewStopAutoStakeInstruction =
     \<lparr>sas_CommitteePublicKeys = [], sas_CommitteePublicKeysStruct = []\<rparr>"

definition StopAutoStake_SetPublicKeys ::
    "('k, 'h, 'p) codec \<Rightarrow> string list \<Rightarrow> 'k StopAutoStakeInstruction \<Rightarrow> 'k StopAutoStakeInstruction go" where
  "StopAutoStake_SetPublicKeys cdc ks s =
     go_bind (CommitteeBase58KeyListToStruct cdc ks)
       (\<lambda>st. Inr (s\<lparr>sas_CommitteePublicKeys := ks, sas_CommitteePublicKeysStruct := st\<rparr>))"

definition StopAutoStake_ToString :: "'k StopAutoStakeInstruction \<Rightarrow> string list" where
  "StopAutoStake_ToString s = [STOP_AUTO_STAKE_ACTION, join_list (sas_CommitteePublicKeys s)]"

definition ValidateStopAutoStakeInstructionSanity :: "('k, 'h, 'p) codec \<Rightarrow> string list \<Rightarrow> unit go" where
  "ValidateStopAutoStakeInstructionSanity cdc inst =
     (if length inst \<noteq> 2 then Inl (GoErr ''invalid length'')
      else if inst ! 0 \<noteq> STOP_AUTO_STAKE_ACTION then Inl (GoErr ''invalid stop auto stake action'')
      else go_bind (CommitteeBase58KeyListToStruct cdc (split_list (inst ! 1))) (\<lambda>_. Inr ()))"

definition ImportStopAutoStakeInstructionFromString ::
    "('k, 'h, 'p) codec \<Rightarrow> string list \<Rightarrow> 'k StopAutoStakeInstruction option go" where
  "ImportStopAutoStakeInstructionFromString cdc inst =
     go_bind (go_index inst 1) (\<lambda>s.
       if length s > 0
       then Inr (ptr_of (StopAutoStake_SetPublicKeys cdc (split_list s) NewStopAutoStakeInstruction))
       else Inr (Some NewStopAutoStakeInstruction))"

definition ValidateAndImportStopAutoStakeInstructionFromString ::
    "('k, 'h, 'p) codec \<Rightarrow> string list \<Rightarrow> 'k StopAutoStakeInstruction option go" where
  "ValidateAndImportStopAutoStakeInstructionFromString cdc inst =
     go_bind (ValidateStopAutoStakeInstructionSanity cdc inst)
       (\<lambda>_. ImportStopAutoStakeInstructionFromString cdc inst)"

section \<open>Unstake instruction (instruction_unstake.go)\<close>

record 'k UnstakeInstruction =
  us_CommitteePublicKeys :: "string list"
  us_CommitteePublicKeysStruct :: "'k list"

definition NewUnstakeInstruction :: "'k UnstakeInstruction" where
  "NewUnstakeInstruction = \<lparr>us_CommitteePublicKeys = [], us_CommitteePublicKeysStruct = []\<rparr>"

definition Unstake_ToString :: "'k UnstakeInstruction \<Rightarrow> string list" where
  "Unstake_ToString s = [UNSTAKE_ACTION, join_list (us_CommitteePublicKeys s)]"

definition ValidateUnstakeInstructionSanity :: "('k, 'h, 'p) codec \<Rightarrow> string list \<Rightarrow> unit go" where
  "ValidateUnstakeInstructionSanity cdc inst =
     (if length inst \<noteq> 2 then Inl (GoErr ''invalid length'')
      else if inst ! 0 \<noteq> UNSTAKE_ACTION then Inl (GoErr ''invalid stop auto stake action'')
      else go_bind (CommitteeBase58KeyListToStruct cdc (split_list (inst ! 1))) (\<lambda>_. Inr ()))"

definition ImportUnstakeInstructionFromString ::
    "('k, 'h, 'p) codec \<Rightarrow> string list \<Rightarrow> 'k UnstakeInstruction" where
  "ImportUnstakeInstructionFromString cdc inst =
     (if length inst > 1 \<and> length (inst ! 1) > 0
      then (let ks = split_list (inst ! 1) in
        \<lparr>us_CommitteePublicKeys = ks,
         us_CommitteePublicKeysStruct =
           (case CommitteeBase58KeyListToStruct cdc ks of Inl _ \<Rightarrow> [] | Inr st \<Rightarrow> st)\<rparr>)
      else NewUnstakeInstruction)"

definition ValidateAndImportUnstakeInstructionFromString ::
    "('k, 'h, 'p) codec \<Rightarrow> string list \<Rightarrow> 'k UnstakeInstruction go" where
  "ValidateAndImportUnstakeInstructionFromString cdc inst =
     go_bind (ValidateUnstakeInstructionSanity cdc inst)
       (\<lambda>_. Inr (ImportUnstakeInstructionFromString cdc inst))"

section \<open>Swap shard instruction (instruction_swap_shard.go)\<close>

record 'k SwapShardInstruction =
  ss_InPublicKeys :: "string list"
  ss_InPublicKeyStructs :: "'k list"
  ss_OutPublicKeys :: "string list"
  ss_OutPublicKeyStructs :: "'k list"
  ss_ChainID :: int
  ss_Type :: int

definition NewSwapShardInstructionWithShardID :: "int \<Rightarrow> 'k SwapShardInstruction" where
  "NewSwapShardInstructionWithShardID chainID =
     \<lparr>ss_InPublicKeys = [], ss_InPublicKeyStructs = [], ss_OutPublicKeys = [],
      ss_OutPublicKeyStructs = [], ss_ChainID = chainID, ss_Type = 0\<rparr>"

definition NewSwapShardInstruction :: "'k SwapShardInstruction" where
  "NewSwapShardInstruction = NewSwapShardInstructionWithShardID 0"

definition SwapShard_SetInPublicKeys ::
    "('k, 'h, 'p) codec \<Rightarrow> string list \<Rightarrow> 'k SwapShardInstruction \<Rightarrow> 'k SwapShardInstruction go" where
  "SwapShard_SetInPublicKeys cdc ks s =
     go_bind (CommitteeBase58KeyListToStruct cdc ks)
       (\<lambda>st. Inr (s\<lparr>ss_InPublicKeys := ks, ss_InPublicKeyStructs := st\<rparr>))"

definition SwapShard_SetOutPublicKeys ::
    "('k, 'h, 'p) codec \<Rightarrow> string list \<Rightarrow> 'k SwapShardInstruction \<Rightarrow> 'k SwapShardInstruction go" where
  "SwapShard_SetOutPublicKeys cdc ks s =
     go_bind (CommitteeBase58KeyListToStruct cdc ks)
       (\<lambda>st. Inr (s\<lparr>ss_OutPublicKeys := ks, ss_OutPublicKeyStructs := st\<rparr>))"

text \<open>
  A failing first setter leaves a nil pointer that the second setter writes through (a panic); a
  failing second setter makes the constructor return nil.
\<close>

definition NewSwapShardInstructionWithValue ::
    "('k, 'h, 'p) codec \<Rightarrow> string list \<Rightarrow> string list \<Rightarrow> int \<Rightarrow> int \<Rightarrow> 'k SwapShardInstruction option go" where
  "NewSwapShardInstructionWithValue cdc ins outs chainID typeIns =
     go_bind (or_panic (SwapShard_SetInPublicKeys cdc ins
         ((NewSwapShardInstructionWithShardID chainID)\<lparr>ss_Type := typeIns\<rparr>)))
       (\<lambda>s. Inr (ptr_of (SwapShard_SetOutPublicKeys cdc outs s)))"

definition SwapShard_ToString :: "'k SwapShardInstruction \<Rightarrow> string list" where
  "SwapShard_ToString s =
     [SWAP_SHARD_ACTION, join_list (ss_InPublicKeys s), join_list (ss_OutPublicKeys s),
      go_itoa (ss_ChainID s), go_itoa (ss_Type s)]"

definition SwapShard_IsEmpty :: "'k SwapShardInstruction \<Rightarrow> bool" where
  "SwapShard_IsEmpty s \<longleftrightarrow>
     length (ss_OutPublicKeyStructs s) = 0 \<and> length (ss_OutPublicKeys s) = 0 \<and>
     length (ss_InPublicKeyStructs s) = 0 \<and> length (ss_InPublicKeys s) = 0"

definition ValidateSwapShardInstructionSanity :: "('k, 'h, 'p) codec \<Rightarrow> string list \<Rightarrow> unit go" where
  "ValidateSwapShardInstructionSanity cdc inst =
     (if length inst \<noteq> 5 then Inl (GoErr ''invalid instruction length'')
      else if inst ! 0 \<noteq> SWAP_SHARD_ACTION then Inl (GoErr ''invalid SwapShard action'')
      else if \<not> go_ok (CommitteeBase58KeyListToStruct cdc (split_list (inst ! 1)))
        then Inl (GoErr ''invalid SwapShard in public key type'')
      else if \<not> go_ok (CommitteeBase58KeyListToStruct cdc (split_list (inst ! 2)))
        then Inl (GoErr ''invalid SwapShard out public key type'')
      else if snd (go_parse_uint (inst ! 3)) \<noteq> None then Inl (GoErr ''invalid SwapShard chainID'')
      else if snd (go_parse_int (inst ! 4)) \<noteq> None then Inl (GoErr ''invalid RequestShardSwap type'')
      else Inr ())"

definition ImportSwapShardInstructionFromString ::
    "('k, 'h, 'p) codec \<Rightarrow> string list \<Rightarrow> 'k SwapShardInstruction go" where
  "ImportSwapShardInstructionFromString cdc inst =
     go_bind (go_index inst 1) (\<lambda>i1.
     go_bind (or_panic (SwapShard_SetInPublicKeys cdc (if length i1 > 0 then split_list i1 else [])
       NewSwapShardInstruction)) (\<lambda>s1.
     go_bind (go_index inst 2) (\<lambda>i2.
     go_bind (or_panic (SwapShard_SetOutPublicKeys cdc (if length i2 > 0 then split_list i2 else []) s1)) (\<lambda>s2.
     go_bind (go_index inst 3) (\<lambda>i3.
     go_bind (go_index inst 4) (\<lambda>i4.
       Inr (s2\<lparr>ss_ChainID := fst (go_atoi i3), ss_Type := fst (go_atoi i4)\<rparr>)))))))"

definition ValidateAndImportSwapShardInstructionFromString ::
    "('k, 'h, 'p) codec \<Rightarrow> string list \<Rightarrow> 'k SwapShardInstruction go" where
  "ValidateAndImportSwapShardInstructionFromString cdc inst =
     go_bind (ValidateSwapShardInstructionSanity cdc inst)
       (\<lambda>_. ImportSwapShardInstructionFromString cdc inst)"

section \<open>Finish sync instruction (instruction_finish_sync.go)\<close>

record 'k FinishSyncInstruction =
  fs_ChainID :: int
  fs_PublicKeys :: "string list"
  fs_PublicKeysStruct :: "'k list"

definition FinishSync_ToString :: "'k FinishSyncInstruction \<Rightarrow> string list" where
  "FinishSync_ToString f = [FINISH_SYNC_ACTION, go_itoa (fs_ChainID f), join_list (fs_PublicKeys f)]"

definition FinishSync_IsEmpty :: "'k FinishSyncInstruction \<Rightarrow> bool" where
  "FinishSync_IsEmpty f \<longleftrightarrow> length (fs_PublicKeys f) = 0 \<and> length (fs_PublicKeysStruct f) = 0"

definition ValidateFinishSyncInstructionSanity :: "string list \<Rightarrow> unit go" where
  "ValidateFinishSyncInstructionSanity inst =
     (if length inst \<noteq> 3 then Inl (GoErr ''invalid length'')
      else if inst ! 0 \<noteq> FINISH_SYNC_ACTION then Inl (GoErr ''invalid finish sync action'')
      else if snd (go_atoi (inst ! 1)) \<noteq> None then Inl (GoErr ''invalid finish sync shard ID'')
      else Inr ())"

definition ImportFinishSyncInstructionFromString ::
    "('k, 'h, 'p) codec \<Rightarrow> string list \<Rightarrow> 'k FinishSyncInstruction go" where
  "ImportFinishSyncInstructionFromString cdc inst =
     go_bind (go_index inst 1) (\<lambda>i1.
     go_bind (go_index inst 2) (\<lambda>i2.
     go_bind (CommitteeBase58KeyListToStruct cdc (split_list i2)) (\<lambda>st.
       Inr \<lparr>fs_ChainID = fst (go_atoi i1), fs_PublicKeys = split_list i2, fs_PublicKeysStruct = st\<rparr>)))"

definition ValidateAndImportFinishSyncInstructionFromString ::
    "('k, 'h, 'p) codec \<Rightarrow> string list \<Rightarrow> 'k FinishSyncInstruction go" where
  "ValidateAndImportFinishSyncInstructionFromString cdc inst =
     go_bind (ValidateFinishSyncInstructionSanity inst)
       (\<lambda>_. ImportFinishSyncInstructionFromString cdc inst)"

section \<open>Assign instruction (instruction_assign.go)\<close>

record 'k AssignInstruction =
  as_ChainID :: int
  as_ShardCandidates :: "string list"
  as_ShardCandidatesStruct :: "'k list"

definition Assign_ToString :: "'k AssignInstruction \<Rightarrow> string list" where
  "Assign_ToString a =
     [ASSIGN_ACTION, join_list (as_ShardCandidates a), ''shard'', go_itoa (as_ChainID a)]"

definition ValidateAssignInstructionSanity :: "string list \<Rightarrow> unit go" where
  "ValidateAssignInstructionSanity inst =
     (if length inst \<noteq> 4 then Inl (GoErr ''invalid length'')
      else if inst ! 0 \<noteq> ASSIGN_ACTION then Inl (GoErr ''invalid assign action'')
      else if inst ! 2 \<noteq> SHARD_INST then Inl (GoErr ''invalid assign chain ID'')
      else if snd (go_atoi (inst ! 3)) \<noteq> None then Inl (GoErr ''invalid assign shard ID'')
      else Inr ())"

definition ImportAssignInstructionFromString ::
    "('k, 'h, 'p) codec \<Rightarrow> string list \<Rightarrow> 'k AssignInstruction go" where
  "ImportAssignInstructionFromString cdc inst =
     go_bind (go_index inst 3) (\<lambda>i3.
     go_bind (go_index inst 1) (\<lambda>i1.
     go_bind (CommitteeBase58KeyListToStruct cdc (split_list i1)) (\<lambda>st.
       Inr \<lparr>as_ChainID = fst (go_atoi i3), as_ShardCandidates = split_list i1,
            as_ShardCandidatesStruct = st\<rparr>)))"

definition ValidateAndImportAssignInstructionFromString ::
    "('k, 'h, 'p) codec \<Rightarrow> string list \<Rightarrow> 'k AssignInstruction go" where
  "ValidateAndImportAssignInstructionFromString cdc inst =
     go_bind (ValidateAssignInstructionSanity inst) (\<lambda>_. ImportAssignInstructionFromString cdc inst)"

section \<open>Enable feature instruction (instruction_enable_feature.go)\<close>

record EnableFeatureInstruction =
  Features :: "string list"

definition EnableFeature_ToString :: "EnableFeatureInstruction \<Rightarrow> string list" where
  "EnableFeature_ToString f = [ENABLE_FEATURE, join_list (Features f)]"

definition ValidateEnableFeatureInstructionSanity :: "string list \<Rightarrow> unit go" where
  "ValidateEnableFeatureInstructionSanity inst =
     (if length inst \<noteq> 2 then Inl (GoErr ''invalid length'')
      else if inst ! 0 \<noteq> ENABLE_FEATURE then Inl (GoErr ''invalid enable feature action'')
      else Inr ())"

definition ImportEnableFeatureInstructionFromString :: "string list \<Rightarrow> EnableFeatureInstruction go" where
  "ImportEnableFeatureInstructionFromString inst =
     go_bind (go_index inst 1) (\<lambda>i1. Inr \<lparr>Features = split_list i1\<rparr>)"

definition ValidateAndImportEnableFeatureInstructionFromString ::
    "string list \<Rightarrow> EnableFeatureInstruction go" where
  "ValidateAndImportEnableFeatureInstructionFromString inst =
     go_bind (ValidateEnableFeatureInstructionSanity inst)
       (\<lambda>_. ImportEnableFeatureInstructionFromString inst)"

section \<open>Add staking instruction (instruction_addstake.go)\<close>

record 'k AddStakingInstruction =
  ad_CommitteePublicKeys :: "string list"
  ad_StakingAmount :: "nat list"
  ad_StakingTxIDs :: "string list"
  ad_CommitteePublicKeysStruct :: "'k list"

definition NewAddStakingInstruction :: "'k AddStakingInstruction" where
  "NewAddStakingInstruction =
     \<lparr>ad_CommitteePublicKeys = [], ad_StakingAmount = [], ad_StakingTxIDs = [],
      ad_CommitteePublicKeysStruct = []\<rparr>"

definition AddStaking_SetPublicKeys ::
    "('k, 'h, 'p) codec \<Rightarrow> string list \<Rightarrow> 'k AddStakingInstruction \<Rightarrow> 'k AddStakingInstruction go" where
  "AddStaking_SetPublicKeys cdc ks s =
     go_bind (CommitteeBase58KeyListToStruct cdc ks)
       (\<lambda>st. Inr (s\<lparr>ad_CommitteePublicKeys := ks, ad_CommitteePublicKeysStruct := st\<rparr>))"

definition AddStaking_ToString :: "'k AddStakingInstruction \<Rightarrow> string list" where
  "AddStaking_ToString s =
     [ADD_STAKING_ACTION, join_list (ad_CommitteePublicKeys s),
      join_list (map format_nat (ad_StakingAmount s)), join_list (ad_StakingTxIDs s)]"

definition ValidateAddStakingInstructionSanity :: "('k, 'h, 'p) codec \<Rightarrow> string list \<Rightarrow> unit go" where
  "ValidateAddStakingInstructionSanity cdc inst =
     (if length inst \<noteq> 4 then Inl (GoErr ''invalid length'')
      else if inst ! 0 \<noteq> ADD_STAKING_ACTION then Inl (GoErr ''invalid stop auto stake action'')
      else go_bind (CommitteeBase58KeyListToStruct cdc (split_list (inst ! 1))) (\<lambda>_. Inr ()))"

definition parse_amounts :: "string list \<Rightarrow> nat list go" where
  "parse_amounts = go_map (\<lambda>v. case go_parse_uint v of (n, None) \<Rightarrow> Inr n | (_, Some _) \<Rightarrow> Inl (GoErr ''ParseUint''))"

text \<open>\<open>Inr None\<close>: the import returns the nil pointer (and its caller returns it with a nil error).\<close>

definition ImportAddStakingInstructionFromString ::
    "('k, 'h, 'p) codec \<Rightarrow> string list \<Rightarrow> 'k AddStakingInstruction option go" where
  "ImportAddStakingInstructionFromString cdc inst =
     go_bind (go_index inst 1) (\<lambda>i1.
     let p0 = (if length i1 > 0 then ptr_of (AddStaking_SetPublicKeys cdc (split_list i1) NewAddStakingInstruction)
               else Some NewAddStakingInstruction) in
     go_bind (go_index inst 2) (\<lambda>i2.
     case parse_amounts (split_list i2) of
       Inl _ \<Rightarrow> Inr None
     | Inr amounts \<Rightarrow>
         (case p0 of
            None \<Rightarrow> Inl GoPanic
          | Some s \<Rightarrow>
              go_bind (go_index inst 3) (\<lambda>i3.
                Inr (Some (if length i3 > 0
                  then s\<lparr>ad_StakingAmount := amounts, ad_StakingTxIDs := split_list i3\<rparr>
                  else s\<lparr>ad_StakingAmount := amounts\<rparr>))))))"

definition ValidateAndImportAddStakingInstructionFromString ::
    "('k, 'h, 'p) codec \<Rightarrow> string list \<Rightarrow> 'k AddStakingInstruction option go" where
  "ValidateAndImportAddStakingInstructionFromString cdc inst =
     go_bind (ValidateAddStakingInstructionSanity cdc inst)
       (\<lambda>_. ImportAddStakingInstructionFromString cdc inst)"

section \<open>Swap instruction (instruction_swap.go)\<close>

record ('k, 'p) SwapInstruction =
  sw_InPublicKeys :: "string list"
  sw_InPublicKeyStructs :: "'k list"
  sw_OutPublicKeys :: "string list"
  sw_OutPublicKeyStructs :: "'k list"
  sw_ChainID :: int
  sw_PunishedPublicKeys :: string
  sw_NewRewardReceivers :: "string list"
  sw_NewRewardReceiverStructs :: "'p list"
  sw_IsReplace :: bool

definition NewSwapInstruction :: "('k, 'p) SwapInstruction" where
  "NewSwapInstruction =
     \<lparr>sw_InPublicKeys = [], sw_InPublicKeyStructs = [], sw_OutPublicKeys = [], sw_OutPublicKeyStructs = [],
      sw_ChainID = 0, sw_PunishedPublicKeys = [], sw_NewRewardReceivers = [],
      sw_NewRewardReceiverStructs = [], sw_IsReplace = False\<rparr>"

text \<open>\<^verbatim>\<open>NewSwapInstructionWithValue\<close>: the JSON of an empty Go map is \<^verbatim>\<open>{}\<close>.\<close>

definition NewSwapInstructionWithValue ::
    "string list \<Rightarrow> string list \<Rightarrow> int \<Rightarrow> ('k, 'p) SwapInstruction" where
  "NewSwapInstructionWithValue ins outs chainID =
     NewSwapInstruction\<lparr>sw_InPublicKeys := ins, sw_OutPublicKeys := outs, sw_ChainID := chainID,
       sw_PunishedPublicKeys := ''{}''\<rparr>"

definition Swap_ToString :: "('k, 'p) SwapInstruction \<Rightarrow> string list" where
  "Swap_ToString s =
     [SWAP_ACTION, join_list (sw_InPublicKeys s), join_list (sw_OutPublicKeys s)] @
     (if sw_ChainID s = BEACON_CHAIN_ID
      then [BEACON_INST] @ (if length (sw_NewRewardReceivers s) > 0 then [[]] else [])
      else [SHARD_INST, go_itoa (sw_ChainID s)]) @
     [sw_PunishedPublicKeys s] @
     (if length (sw_NewRewardReceivers s) > 0 then [join_list (sw_NewRewardReceivers s)] else [])"

definition ValidateSwapInstructionSanity :: "('k, 'h, 'p) codec \<Rightarrow> string list \<Rightarrow> unit go" where
  "ValidateSwapInstructionSanity cdc inst =
     (if length inst \<noteq> 5 \<and> length inst \<noteq> 6 \<and> length inst \<noteq> 7 then Inl (GoErr ''invalid instruction length'')
      else if inst ! 0 \<noteq> SWAP_ACTION then Inl (GoErr ''invalid swap action'')
      else if length inst = 5 \<and> inst ! 3 \<noteq> BEACON_INST then Inl (GoErr ''invalid swap beacon instruction'')
      else if length inst = 6 \<and> inst ! 3 \<noteq> SHARD_INST then Inl (GoErr ''invalid swap shard instruction'')
      else if length inst = 6 \<and> snd (go_atoi (inst ! 4)) \<noteq> None then Inl (GoErr ''invalid swap shard id'')
      else if length inst = 7 \<and> \<not> go_ok (receivers_of cdc (split_list (inst ! 6)))
        then Inl (GoErr ''invalid privacy payment address'')
      else if \<not> go_ok (CommitteeBase58KeyListToStruct cdc (split_list (inst ! 1)))
        then Inl (GoErr ''invalid swap in public key type'')
      else if \<not> go_ok (CommitteeBase58KeyListToStruct cdc (split_list (inst ! 2)))
        then Inl (GoErr ''invalid swap out public key type'')
      else Inr ())"

definition ImportSwapInstructionFromString ::
    "('k, 'h, 'p) codec \<Rightarrow> string list \<Rightarrow> ('k, 'p) SwapInstruction go" where
  "ImportSwapInstructionFromString cdc inst =
     go_bind (go_index inst 1) (\<lambda>i1.
     let ins = (if length i1 > 0 then split_list i1 else []) in
     go_bind (or_panic (CommitteeBase58KeyListToStruct cdc ins)) (\<lambda>inSt.
     go_bind (go_index inst 2) (\<lambda>i2.
     let outs = (if length i2 > 0 then split_list i2 else []) in
     go_bind (or_panic (CommitteeBase58KeyListToStruct cdc outs)) (\<lambda>outSt.
     let receivers = (if length inst = 7 then split_list (inst ! 6) else []) in
     go_bind (or_panic (receivers_of cdc receivers)) (\<lambda>recSt.
     go_bind (go_index inst 3) (\<lambda>chain.
     go_bind (go_index inst 4) (\<lambda>i4.
     let s = NewSwapInstruction\<lparr>sw_InPublicKeys := ins, sw_InPublicKeyStructs := inSt,
               sw_OutPublicKeys := outs, sw_OutPublicKeyStructs := outSt,
               sw_IsReplace := (length inst = 7),
               sw_NewRewardReceivers := receivers, sw_NewRewardReceiverStructs := recSt\<rparr> in
     if chain = BEACON_INST
     then Inr (s\<lparr>sw_ChainID := BEACON_CHAIN_ID,
                 sw_PunishedPublicKeys := (if length i4 > 0 then i4 else sw_PunishedPublicKeys s)\<rparr>)
     else go_bind (go_index inst 5) (\<lambda>i5.
       Inr (s\<lparr>sw_ChainID := fst (go_atoi i4),
              sw_PunishedPublicKeys := (if length i5 > 0 then i5 else sw_PunishedPublicKeys s)\<rparr>)))))))))"

definition ValidateAndImportSwapInstructionFromString ::
    "('k, 'h, 'p) codec \<Rightarrow> string list \<Rightarrow> ('k, 'p) SwapInstruction go" where
  "ValidateAndImportSwapInstructionFromString cdc inst =
     go_bind (ValidateSwapInstructionSanity cdc inst) (\<lambda>_. ImportSwapInstructionFromString cdc inst)"

end
