(* ===== verification/Staking_Instructions.thy ===== *)
theory Staking_Instructions
  imports Instructions
begin

text \<open>
  The instructions that carry staking data: stake, return stake, return beacon stake and
  re-delegate, with the accumulator operation \<^verbatim>\<open>AddNewRequest\<close>; and the dispatcher of
  \<^verbatim>\<open>src/instruction/instruction.go\<close> over all consensus instructions. Unsigned Go integers are
  natural numbers; the conversions \<^verbatim>\<open>uint(x)\<close> and \<^verbatim>\<open>int(v)\<close> wrap at 64 bits.
\<close>

definition uint_of_int :: "int \<Rightarrow> nat" where
  "uint_of_int i = nat (i mod 2 ^ 64)"

definition int_of_uint :: "nat \<Rightarrow> int" where
  "int_of_uint n = (if n < 2 ^ 63 then int n else int n - 2 ^ 64)"

definition parse_ints :: "string \<Rightarrow> string list \<Rightarrow> int list go" where
  "parse_ints msg = go_map (\<lambda>v. case go_atoi v of (i, None) \<Rightarrow> Inr i | (_, Some _) \<Rightarrow> Inl (GoErr msg))"

definition parse_uints :: "string \<Rightarrow> string list \<Rightarrow> nat list go" where
  "parse_uints msg vs = go_bind (parse_ints msg vs) (\<lambda>is. Inr (map uint_of_int is))"

section \<open>Stake instruction (instruction_stake.go)\<close>

record ('k, 'h, 'p) StakeInstruction =
  st_PublicKeys :: "string list"
  st_PublicKeyStructs :: "'k list"
  st_Chain :: string
  st_TxStakes :: "string list"
  st_TxStakeHashes :: "'h list"
  st_RewardReceivers :: "string list"
  st_RewardReceiverStructs :: "'p list"
  st_AutoStakingFlag :: "bool list"

definition flag_str :: "bool \<Rightarrow> string" where
  "flag_str v = (if v then ''true'' else ''false'')"

definition Stake_ToString :: "('k, 'h, 'p) StakeInstruction \<Rightarrow> string list" where
  "Stake_ToString s =
     [STAKE_ACTION, join_list (st_PublicKeys s), st_Chain s, join_list (st_TxStakes s),
      join_list (st_RewardReceivers s), join_list (map flag_str (st_AutoStakingFlag s))]"

text \<open>The chain field is read before the length is checked.\<close>

definition ValidateStakeInstructionSanity :: "('k, 'h, 'p) codec \<Rightarrow> string list \<Rightarrow> unit go" where
  "ValidateStakeInstructionSanity cdc inst =
     go_bind (go_index inst 2) (\<lambda>chain.
     if chain \<noteq> SHARD_INST then Inl (GoErr ''invalid chain id'')
     else if length inst \<noteq> 6 then Inl (GoErr ''invalid length'')
     else if inst ! 0 \<noteq> STAKE_ACTION then Inl (GoErr ''invalid stake action'')
     else (let publicKeys = split_list (inst ! 1); txStakes = split_list (inst ! 3);
               rewardReceivers = split_list (inst ! 4); autoStakes = split_list (inst ! 5) in
       if \<not> go_ok (hashes_of cdc txStakes) then Inl (GoErr ''invalid tx stake'')
       else if \<not> go_ok (receivers_of cdc rewardReceivers) then Inl (GoErr ''invalid privacy payment address'')
       else if \<not> go_ok (CommitteeBase58KeyListToStruct cdc publicKeys) then Inl (GoErr ''invalid public key type'')
       else if length publicKeys \<noteq> length txStakes then Inl (GoErr ''invalid public key & tx stake length'')
       else if length rewardReceivers \<noteq> length txStakes
         then Inl (GoErr ''invalid reward receivers & tx stake length'')
       else if length rewardReceivers \<noteq> length autoStakes
         then Inl (GoErr ''invalid reward receivers & tx auto staking length'')
       else Inr ()))"

definition ImportStakeInstructionFromString ::
    "('k, 'h, 'p) codec \<Rightarrow> string list \<Rightarrow> ('k, 'h, 'p) StakeInstruction go" where
  "ImportStakeInstructionFromString cdc inst =
     go_bind (go_index inst 1) (\<lambda>i1.
     go_bind (or_panic (CommitteeBase58KeyListToStruct cdc (split_list i1))) (\<lambda>keySt.
     go_bind (go_index inst 3) (\<lambda>i3.
     go_bind (or_panic (hashes_of cdc (split_list i3))) (\<lambda>txSt.
     go_bind (go_index inst 4) (\<lambda>i4.
     go_bind (or_panic (receivers_of cdc (split_list i4))) (\<lambda>recSt.
     go_bind (go_index inst 5) (\<lambda>i5.
     go_bind (go_index inst 2) (\<lambda>i2.
       Inr \<lparr>st_PublicKeys = split_list i1, st_PublicKeyStructs = keySt, st_Chain = i2,
            st_TxStakes = split_list i3, st_TxStakeHashes = txSt,
            st_RewardReceivers = split_list i4, st_RewardReceiverStructs = recSt,
            st_AutoStakingFlag = map (\<lambda>v. v = ''true'') (split_list i5)\<rparr>))))))))"

definition ValidateAndImportStakeInstructionFromString ::
    "('k, 'h, 'p) codec \<Rightarrow> string list \<Rightarrow> ('k, 'h, 'p) StakeInstruction go" where
  "ValidateAndImportStakeInstructionFromString cdc inst =
     go_bind (ValidateStakeInstructionSanity cdc inst) (\<lambda>_. ImportStakeInstructionFromString cdc inst)"

section \<open>Return staking instruction (instruction_returnstaking.go)\<close>

record ('k, 'h) ReturnStakeInstruction =
  rs_PublicKeys :: "string list"
  rs_PublicKeysStruct :: "'k list"
  rs_StakingTXIDs :: "string list"
  rs_StakingTxHashes :: "'h list"
  rs_PercentReturns :: "nat list"

definition NewReturnStakeIns :: "('k, 'h) ReturnStakeInstruction" where
  "NewReturnStakeIns =
     \<lparr>rs_PublicKeys = [], rs_PublicKeysStruct = [], rs_StakingTXIDs = [], rs_StakingTxHashes = [],
      rs_PercentReturns = []\<rparr>"

definition ReturnStake_IsEmpty :: "('k, 'h) ReturnStakeInstruction \<Rightarrow> bool" where
  "ReturnStake_IsEmpty r \<longleftrightarrow> length (rs_PublicKeysStruct r) = 0 \<and> length (rs_PublicKeys r) = 0"

definition ReturnStake_ToString :: "('k, 'h) ReturnStakeInstruction \<Rightarrow> string list" where
  "ReturnStake_ToString r =
     [RETURN_ACTION, join_list (rs_PublicKeys r), join_list (rs_StakingTXIDs r),
      join_list (map (\<lambda>v. go_itoa (int_of_uint v)) (rs_PercentReturns r))]"

text \<open>
  \<^verbatim>\<open>AddNewRequest\<close> ignores both decoding errors and then reads the first key and dereferences the
  hash: an undecodable key or transaction id panics.
\<close>

definition ReturnStake_AddNewRequest ::
    "('k, 'h, 'p) codec \<Rightarrow> ('k, 'h) ReturnStakeInstruction \<Rightarrow> string \<Rightarrow> string \<Rightarrow>
     ('k, 'h) ReturnStakeInstruction go" where
  "ReturnStake_AddNewRequest cdc r publicKey stakingTx =
     go_bind (or_panic (CommitteeBase58KeyListToStruct cdc [publicKey])) (\<lambda>ks.
     go_bind (go_index ks 0) (\<lambda>k.
     case NewHashFromStr cdc stakingTx of
       None \<Rightarrow> Inl GoPanic
     | Some h \<Rightarrow>
       Inr (r\<lparr>rs_PublicKeys := rs_PublicKeys r @ [publicKey],
              rs_PublicKeysStruct := rs_PublicKeysStruct r @ [k],
              rs_StakingTXIDs := rs_StakingTXIDs r @ [stakingTx],
              rs_StakingTxHashes := rs_StakingTxHashes r @ [h],
              rs_PercentReturns := rs_PercentReturns r @ [100]\<rparr>)))"

definition ValidateReturnStakingInstructionSanity :: "('k, 'h, 'p) codec \<Rightarrow> string list \<Rightarrow> unit go" where
  "ValidateReturnStakingInstructionSanity cdc inst =
     (if length inst \<noteq> 4 then Inl (GoErr ''invalid length'')
      else if inst ! 0 \<noteq> RETURN_ACTION then Inl (GoErr ''invalid return staking action'')
      else (let publicKeys = split_list (inst ! 1); txStakings = split_list (inst ! 2) in
        go_bind (CommitteeBase58KeyListToStruct cdc publicKeys) (\<lambda>_.
        if \<not> go_ok (hashes_of cdc txStakings) then Inl (GoErr ''invalid tx return staking'')
        else go_bind (parse_uints ''invalid percent return'' (split_list (inst ! 3))) (\<lambda>percentReturns.
          if length publicKeys \<noteq> length txStakings
            then Inl (GoErr ''invalid public key & tx staking txs length'')
          else if length percentReturns \<noteq> length txStakings
            then Inl (GoErr ''invalid reward percentReturns & tx stakings length'')
          else if length percentReturns \<noteq> length publicKeys
            then Inl (GoErr ''invalid reward percentReturns & public Keys length'')
          else Inr ()))))"

definition ImportReturnStakingInstructionFromString ::
    "('k, 'h, 'p) codec \<Rightarrow> string list \<Rightarrow> ('k, 'h) ReturnStakeInstruction go" where
  "ImportReturnStakingInstructionFromString cdc inst =
     go_bind (go_index inst 1) (\<lambda>i1.
     go_bind (CommitteeBase58KeyListToStruct cdc (split_list i1)) (\<lambda>keySt.
     go_bind (go_index inst 2) (\<lambda>i2.
     go_bind (hashes_of cdc (split_list i2)) (\<lambda>txSt.
     go_bind (go_index inst 3) (\<lambda>i3.
     go_bind (parse_uints ''Atoi'' (split_list i3)) (\<lambda>percents.
       Inr \<lparr>rs_PublicKeys = split_list i1, rs_PublicKeysStruct = keySt,
            rs_StakingTXIDs = split_list i2, rs_StakingTxHashes = txSt,
            rs_PercentReturns = percents\<rparr>))))))"

definition ValidateAndImportReturnStakingInstructionFromString ::
    "('k, 'h, 'p) codec \<Rightarrow> string list \<Rightarrow> ('k, 'h) ReturnStakeInstruction go" where
  "ValidateAndImportReturnStakingInstructionFromString cdc inst =
     go_bind (ValidateReturnStakingInstructionSanity cdc inst)
       (\<lambda>_. ImportReturnStakingInstructionFromString cdc inst)"

section \<open>Return beacon staking instruction (instruction_returnbeaconstake.go)\<close>

record 'k ReturnBeaconStakeInstruction =
  rb_PublicKeys :: "string list"
  rb_PublicKeysStruct :: "'k list"
  rb_ReturnAmounts :: "nat list"
  rb_PercentReturns :: "nat list"
  rb_Reasons :: "int list"

definition NewReturnBeaconStakeIns :: "'k ReturnBeaconStakeInstruction" where
  "NewReturnBeaconStakeIns =
     \<lparr>rb_PublicKeys = [], rb_PublicKeysStruct = [], rb_ReturnAmounts = [], rb_PercentReturns = [],
      rb_Reasons = []\<rparr>"

definition ReturnBeacon_ToString :: "'k ReturnBeaconStakeInstruction \<Rightarrow> string list" where
  "ReturnBeacon_ToString r =
     [RETURN_BEACON_ACTION, join_list (rb_PublicKeys r),
      join_list (map (\<lambda>v. go_itoa (int_of_uint v)) (rb_PercentReturns r))] @
     (if length (rb_Reasons r) \<noteq> 0 then [join_list (map go_itoa (rb_Reasons r))] else []) @
     (if length (rb_ReturnAmounts r) \<noteq> 0 then [join_list (map format_nat (rb_ReturnAmounts r))] else [])"

definition ReturnBeacon_AddNewRequest ::
    "('k, 'h, 'p) codec \<Rightarrow> 'k ReturnBeaconStakeInstruction \<Rightarrow> string \<Rightarrow> nat \<Rightarrow>
     'k ReturnBeaconStakeInstruction go" where
  "ReturnBeacon_AddNewRequest cdc r publicKey amount =
     go_bind (or_panic (CommitteeBase58KeyListToStruct cdc [publicKey])) (\<lambda>ks.
     go_bind (go_index ks 0) (\<lambda>k.
       Inr (r\<lparr>rb_PublicKeys := rb_PublicKeys r @ [publicKey],
              rb_PublicKeysStruct := rb_PublicKeysStruct r @ [k],
              rb_ReturnAmounts := rb_ReturnAmounts r @ [amount],
              rb_PercentReturns := rb_PercentReturns r @ [100]\<rparr>)))"

definition ValidateReturnBeaconStakingInstructionSanity ::
    "('k, 'h, 'p) codec \<Rightarrow> string list \<Rightarrow> unit go" where
  "ValidateReturnBeaconStakingInstructionSanity cdc inst =
     (if length inst \<noteq> 5 then Inl (GoErr ''invalid length'')
      else if inst ! 0 \<noteq> RETURN_BEACON_ACTION then Inl (GoErr ''invalid return staking action'')
      else (let publicKeys = split_list (inst ! 1) in
        go_bind (CommitteeBase58KeyListToStruct cdc publicKeys) (\<lambda>_.
        go_bind (parse_uints ''invalid percent return'' (split_list (inst ! 2))) (\<lambda>percentReturns.
          if length percentReturns \<noteq> length publicKeys
            then Inl (GoErr ''invalid reward percentReturns & public Keys length'')
          else Inr ()))))"

definition ImportReturnBeaconStakingInstructionFromString ::
    "('k, 'h, 'p) codec \<Rightarrow> string list \<Rightarrow> 'k ReturnBeaconStakeInstruction go" where
  "ImportReturnBeaconStakingInstructionFromString cdc inst =
     go_bind (go_index inst 1) (\<lambda>i1.
     go_bind (CommitteeBase58KeyListToStruct cdc (split_list i1)) (\<lambda>keySt.
     go_bind (go_index inst 2) (\<lambda>i2.
     go_bind (parse_uints ''Atoi'' (split_list i2)) (\<lambda>percents.
     go_bind (go_index inst 3) (\<lambda>i3.
     go_bind (parse_ints ''Atoi'' (split_list i3)) (\<lambda>reasons.
     go_bind (go_index inst 4) (\<lambda>i4.
     go_bind (parse_amounts (split_list i4)) (\<lambda>amounts.
       Inr \<lparr>rb_PublicKeys = split_list i1, rb_PublicKeysStruct = keySt, rb_ReturnAmounts = amounts,
            rb_PercentReturns = percents, rb_Reasons = reasons\<rparr>))))))))"

definition ValidateAndImportReturnBeaconStakingInstructionFromString ::
    "('k, 'h, 'p) codec \<Rightarrow> string list \<Rightarrow> 'k ReturnBeaconStakeInstruction go" where
  "ValidateAndImportReturnBeaconStakingInstructionFromString cdc inst =
     go_bind (ValidateReturnBeaconStakingInstructionSanity cdc inst)
       (\<lambda>_. ImportReturnBeaconStakingInstructionFromString cdc inst)"

section \<open>Re-delegate instruction (instruction_redelegate.go)\<close>

record 'k ReDelegateInstruction =
  rd_CommitteePublicKeys :: "string list"
  rd_CommitteePublicKeysStruct :: "'k list"
  rd_DelegateList :: "string list"
  rd_DelegateListStruct :: "'k list"
  rd_DelegateUIDList :: "string list"

definition NewReDelegateInstruction :: "'k ReDelegateInstruction" where
  "NewReDelegateInstruction =
     \<lparr>rd_CommitteePublicKeys = [], rd_CommitteePublicKeysStruct = [], rd_DelegateList = [],
      rd_DelegateListStruct = [], rd_DelegateUIDList = []\<rparr>"

definition ReDelegate_ToString :: "'k ReDelegateInstruction \<Rightarrow> string list" where
  "ReDelegate_ToString s =
     [RE_DELEGATE, join_list (rd_CommitteePublicKeys s), join_list (rd_DelegateList s),
      join_list (rd_DelegateUIDList s)]"

definition ValidateReDelegateInstructionSanity :: "('k, 'h, 'p) codec \<Rightarrow> string list \<Rightarrow> unit go" where
  "ValidateReDelegateInstructionSanity cdc inst =
     (if length inst \<noteq> 4 then Inl (GoErr ''invalid length'')
      else if inst ! 0 \<noteq> RE_DELEGATE then Inl (GoErr ''invalid re delegate action'')
      else go_bind (CommitteeBase58KeyListToStruct cdc (split_list (inst ! 1))) (\<lambda>_.
        go_bind (CommitteeBase58KeyListToStruct cdc (split_list (inst ! 2))) (\<lambda>_.
        go_bind (hashes_of cdc (split_list (inst ! 3))) (\<lambda>_. Inr ()))))"

text \<open>The setters return nil on a decoding error; a later setter through nil panics.\<close>

definition ReDelegate_SetPublicKeys ::
    "('k, 'h, 'p) codec \<Rightarrow> string list \<Rightarrow> 'k ReDelegateInstruction \<Rightarrow> 'k ReDelegateInstruction go" where
  "ReDelegate_SetPublicKeys cdc ks s =
     go_bind (CommitteeBase58KeyListToStruct cdc ks)
       (\<lambda>st. Inr (s\<lparr>rd_CommitteePublicKeys := ks, rd_CommitteePublicKeysStruct := st\<rparr>))"

definition ReDelegate_SetDelegateList ::
    "('k, 'h, 'p) codec \<Rightarrow> string list \<Rightarrow> 'k ReDelegateInstruction \<Rightarrow> 'k ReDelegateInstruction go" where
  "ReDelegate_SetDelegateList cdc ks s =
     go_bind (CommitteeBase58KeyListToStruct cdc ks)
       (\<lambda>st. Inr (s\<lparr>rd_DelegateList := ks, rd_DelegateListStruct := st\<rparr>))"

definition through_ptr :: "('a \<Rightarrow> 'a go) \<Rightarrow> 'a option \<Rightarrow> 'a option go" where
  "through_ptr f p = (case p of None \<Rightarrow> Inl GoPanic | Some s \<Rightarrow> Inr (ptr_of (f s)))"

definition ImportReDelegateInstructionFromString ::
    "('k, 'h, 'p) codec \<Rightarrow> string list \<Rightarrow> 'k ReDelegateInstruction option go" where
  "ImportReDelegateInstructionFromString cdc inst =
     go_bind (go_index inst 1) (\<lambda>i1.
     go_bind (if length i1 > 0 then through_ptr (ReDelegate_SetPublicKeys cdc (split_list i1)) (Some NewReDelegateInstruction)
              else Inr (Some NewReDelegateInstruction)) (\<lambda>p1.
     go_bind (go_index inst 2) (\<lambda>i2.
     go_bind (if length i2 > 0 then through_ptr (ReDelegate_SetDelegateList cdc (split_list i2)) p1 else Inr p1) (\<lambda>p2.
     go_bind (go_index inst 3) (\<lambda>i3.
     if length i3 > 0
     then through_ptr (\<lambda>s. Inr (s\<lparr>rd_DelegateUIDList := split_list i3\<rparr>)) p2
     else Inr p2)))))"

definition BuildReDelegateInstructionFromString ::
    "('k, 'h, 'p) codec \<Rightarrow> string list \<Rightarrow> 'k ReDelegateInstruction option go" where
  "BuildReDelegateInstructionFromString cdc inst =
     go_bind (ValidateReDelegateInstructionSanity cdc inst)
       (\<lambda>_. ImportReDelegateInstructionFromString cdc inst)"

section \<open>The dispatcher (instruction.go)\<close>

definition IsConsensusInstruction :: "string \<Rightarrow> bool" where
  "IsConsensusInstruction action \<longleftrightarrow>
     action = RANDOM_ACTION \<or> action = SWAP_ACTION \<or> action = STAKE_ACTION \<or>
     action = BEACON_STAKE_ACTION \<or> action = ASSIGN_ACTION \<or> action = STOP_AUTO_STAKE_ACTION \<or>
     action = SET_ACTION \<or> action = SWAP_SHARD_ACTION \<or> action = UNSTAKE_ACTION \<or>
     action = ACCEPT_BLOCK_REWARD_V3_ACTION \<or> action = SHARD_RECEIVE_REWARD_V3_ACTION \<or>
     action = FINISH_SYNC_ACTION \<or> action = SHARD_INST \<or> action = BEACON_INST \<or>
     action = RETURN_ACTION \<or> action = RETURN_BEACON_ACTION \<or> action = ADD_STAKING_ACTION \<or>
     action = RE_DELEGATE \<or> action = REQ_DREWARD_ACTION \<or> action = MINT_DREWARD_ACTION"

datatype ('k, 'h, 'p) Instruction =
    StakeI "('k, 'h, 'p) StakeInstruction"
  | RandomI RandomInstruction
  | StopAutoStakeI "'k StopAutoStakeInstruction option"
  | SwapI "('k, 'p) SwapInstruction"
  | SwapShardI "'k SwapShardInstruction"
  | FinishSyncI "'k FinishSyncInstruction"
  | UnstakeI "'k UnstakeInstruction"
  | AddStakingI "'k AddStakingInstruction option"
  | ReturnStakingI "('k, 'h) ReturnStakeInstruction"
  | ReturnBeaconStakingI "'k ReturnBeaconStakeInstruction"
  | ReDelegateI "'k ReDelegateInstruction option"

definition go_lift :: "('a \<Rightarrow> 'b) \<Rightarrow> 'a go \<Rightarrow> 'b go" where
  "go_lift f m = go_bind m (\<lambda>x. Inr (f x))"

text \<open>
  The \<^verbatim>\<open>Build...\<close> functions are the validate-and-import functions above. The actions that count as
  consensus instructions but have no builder reach the \<^verbatim>\<open>default\<close> branch, which panics. A builder's
  error is returned with the prefix SKIP; its panics stay panics.
\<close>

definition ValidateAndImportInstructionFromString ::
    "('k, 'h, 'p) codec \<Rightarrow> string list \<Rightarrow> ('k, 'h, 'p) Instruction go" where
  "ValidateAndImportInstructionFromString cdc inst =
     go_bind (go_index inst 0) (\<lambda>action.
     if \<not> IsConsensusInstruction action then Inl (GoErr ''not Consensus instruction'')
     else
       (case (if action = STAKE_ACTION then go_lift StakeI (ValidateAndImportStakeInstructionFromString cdc inst)
        else if action = RANDOM_ACTION then go_lift RandomI (ValidateAndImportRandomInstructionFromString inst)
        else if action = STOP_AUTO_STAKE_ACTION
          then go_lift StopAutoStakeI (ValidateAndImportStopAutoStakeInstructionFromString cdc inst)
        else if action = SWAP_ACTION then go_lift SwapI (ValidateAndImportSwapInstructionFromString cdc inst)
        else if action = SWAP_SHARD_ACTION
          then go_lift SwapShardI (ValidateAndImportSwapShardInstructionFromString cdc inst)
        else if action = FINISH_SYNC_ACTION
          then go_lift FinishSyncI (ValidateAndImportFinishSyncInstructionFromString cdc inst)
        else if action = UNSTAKE_ACTION
          then go_lift UnstakeI (ValidateAndImportUnstakeInstructionFromString cdc inst)
        else if action = ADD_STAKING_ACTION
          then go_lift AddStakingI (ValidateAndImportAddStakingInstructionFromString cdc inst)
        else if action = RETURN_ACTION
          then go_lift ReturnStakingI (ValidateAndImportReturnStakingInstructionFromString cdc inst)
        else if action = RETURN_BEACON_ACTION
          then go_lift ReturnBeaconStakingI (ValidateAndImportReturnBeaconStakingInstructionFromString cdc inst)
        else if action = RE_DELEGATE then go_lift ReDelegateI (BuildReDelegateInstructionFromString cdc inst)
        else Inl GoPanic) of
        Inl (GoErr _) \<Rightarrow> Inl (GoErr ''SKIP'')
      | Inl GoPanic \<Rightarrow> Inl GoPanic
      | Inr i \<Rightarrow> Inr i))"

text \<open>The list import logs and skips every instruction that returns an error.\<close>

fun ValidateAndImportConsensusInstructionFromListString ::
    "('k, 'h, 'p) codec \<Rightarrow> string list list \<Rightarrow> ('k, 'h, 'p) Instruction list go" where
  "ValidateAndImportConsensusInstructionFromListString cdc [] = Inr []"
| "ValidateAndImportConsensusInstructionFromListString cdc (i # is) =
     (case ValidateAndImportInstructionFromString cdc i of
        Inl GoPanic \<Rightarrow> Inl GoPanic
      | Inl (GoErr _) \<Rightarrow> ValidateAndImportConsensusInstructionFromListString cdc is
      | Inr x \<Rightarrow> go_bind (ValidateAndImportConsensusInstructionFromListString cdc is) (\<lambda>xs. Inr (x # xs)))"

end
