(* ===== verification/Signature_Counter.thy ===== *)
theory Signature_Counter
  imports Inc_Prelude "HOL-Library.Word"
begin

text \<open>
  The missing-signature counter of \<^verbatim>\<open>src/blockchain/signaturecounter/missingsignaturecounter.go\<close>,
  which the beacon chain uses to slash validators: per validator, how many blocks it had to sign
  and how many of these it missed, both Go \<^verbatim>\<open>uint\<close> values (64-bit words that wrap). Decoding the
  validation data of a block (a JSON library call) and the base58 form of a committee key are
  parameters. The lemmas show that \<open>Missing \<le> ActualTotal\<close> is kept by every operation, when a
  validator is slashed, and that late votes are credited exactly.
\<close>

section \<open>Data\<close>

type_synonym uint = "64 word"

record Penalty =
  MinPercent :: uint
  Time :: int
  ForceUnstake :: bool

record MissingSignature =
  ActualTotal :: uint
  Missing :: uint

definition NewMissingSignature :: MissingSignature where
  "NewMissingSignature = \<lparr>ActualTotal = 0, Missing = 0\<rparr>"

definition defaultRule :: "Penalty list" where
  "defaultRule = [\<lparr>MinPercent = 50, Time = 0, ForceUnstake = True\<rparr>]"

definition NewPenalty :: Penalty where
  "NewPenalty = \<lparr>MinPercent = 0, Time = 0, ForceUnstake = False\<rparr>"

definition Penalty_IsEmpty :: "Penalty \<Rightarrow> bool" where
  "Penalty_IsEmpty p \<longleftrightarrow> p = NewPenalty"

record MissingSignatureCounter =
  missingSignature :: "string \<rightharpoonup> MissingSignature"
  penalties :: "Penalty list"
  lastShardStateValidatorCommittee :: "int \<rightharpoonup> string list"
  lastShardStateValidatorIndex :: "int \<rightharpoonup> int list"

text \<open>Reading a missing key of a Go map of slices gives the nil (empty) slice.\<close>

definition map_slice :: "('k \<rightharpoonup> 'a list) \<Rightarrow> 'k \<Rightarrow> 'a list" where
  "map_slice m k = (case m k of None \<Rightarrow> [] | Some xs \<Rightarrow> xs)"

section \<open>Operations\<close>

fun zero_counters :: "string list \<Rightarrow> string \<rightharpoonup> MissingSignature" where
  "zero_counters [] = Map.empty"
| "zero_counters (v # vs) = (zero_counters vs)(v \<mapsto> NewMissingSignature)"

definition NewDefaultSignatureCounter :: "string list \<Rightarrow> MissingSignatureCounter" where
  "NewDefaultSignatureCounter committees =
     \<lparr>missingSignature = zero_counters committees, penalties = defaultRule,
      lastShardStateValidatorCommittee = Map.empty, lastShardStateValidatorIndex = Map.empty\<rparr>"

text \<open>\<^verbatim>\<open>incognitokey.CommitteeKeyListToString\<close>: the first key without a base58 form is an error.\<close>

definition CommitteeKeyListToString :: "('k \<Rightarrow> string option) \<Rightarrow> 'k list \<Rightarrow> string list go" where
  "CommitteeKeyListToString ToBase58 ks =
     go_map (\<lambda>k. case ToBase58 k of None \<Rightarrow> Inl (GoErr ''ToBase58'') | Some s \<Rightarrow> Inr s) ks"

text \<open>The loop over the indices of the signers: an index beyond the committee is an error, a
  negative one an index-out-of-range panic.\<close>

definition signer_step :: "string list \<Rightarrow> string set \<Rightarrow> int \<Rightarrow> string set go" where
  "signer_step committee signedCommittees idx =
     (if idx \<ge> int (length committee) then Inl (GoErr ''Idx greater than len(toBeSignedCommittees)'')
      else go_bind (go_index committee idx) (\<lambda>c. Inr (insert c signedCommittees)))"

definition count_step :: "string set \<Rightarrow> (string \<rightharpoonup> MissingSignature) \<Rightarrow> string \<Rightarrow> string \<rightharpoonup> MissingSignature" where
  "count_step signedCommittees m c =
     (case m c of None \<Rightarrow> m
      | Some ms \<Rightarrow>
          let ms1 = ms\<lparr>ActualTotal := ActualTotal ms + 1\<rparr>;
              ms2 = (if c \<notin> signedCommittees then ms1\<lparr>Missing := Missing ms1 + 1\<rparr> else ms1)
          in m(c \<mapsto> ms2))"

definition AddMissingSignature ::
    "(string \<Rightarrow> int list option) \<Rightarrow> ('k \<Rightarrow> string option) \<Rightarrow> MissingSignatureCounter \<Rightarrow> string \<Rightarrow> int \<Rightarrow>
     'k list \<Rightarrow> MissingSignatureCounter go" where
  "AddMissingSignature DecodeValidationData ToBase58 s data shardID toBeSignedCommittees =
     (case DecodeValidationData data of
        None \<Rightarrow> Inl (GoErr ''DecodeValidationData'')
      | Some validatorsIdx \<Rightarrow>
          let committee = (case CommitteeKeyListToString ToBase58 toBeSignedCommittees of
                             Inl _ \<Rightarrow> [] | Inr ks \<Rightarrow> ks) in
          go_bind (go_foldl (signer_step committee) {} validatorsIdx) (\<lambda>signedCommittees.
            Inr (s\<lparr>missingSignature := foldl (count_step signedCommittees) (missingSignature s) committee,
                   lastShardStateValidatorCommittee := (lastShardStateValidatorCommittee s)(shardID \<mapsto> committee),
                   lastShardStateValidatorIndex := (lastShardStateValidatorIndex s)(shardID \<mapsto> validatorsIdx)\<rparr>)))"

definition uncount_step :: "string list \<Rightarrow> int list \<Rightarrow> string set \<Rightarrow> int \<Rightarrow> string set go" where
  "uncount_step committee counted uncount idx =
     (if idx \<ge> int (length committee) then Inl (GoErr ''Idx greater than len(toBeSignedCommittees)'')
      else if IndexOfInt idx counted = -1
        then go_bind (go_index committee idx) (\<lambda>c. Inr (insert c uncount))
      else Inr uncount)"

definition revert_step :: "string set \<Rightarrow> (string \<rightharpoonup> MissingSignature) \<Rightarrow> string \<Rightarrow> string \<rightharpoonup> MissingSignature" where
  "revert_step uncount m c =
     (case m c of None \<Rightarrow> m
      | Some ms \<Rightarrow>
          m(c \<mapsto> (if c \<in> uncount \<and> Missing ms > 0 then ms\<lparr>Missing := Missing ms - 1\<rparr> else ms)))"

definition AddPreviousMissignSignature ::
    "(string \<Rightarrow> int list option) \<Rightarrow> MissingSignatureCounter \<Rightarrow> string \<Rightarrow> int \<Rightarrow> MissingSignatureCounter go" where
  "AddPreviousMissignSignature DecodeValidationData s data shardID =
     (let committee = map_slice (lastShardStateValidatorCommittee s) shardID;
          counted = map_slice (lastShardStateValidatorIndex s) shardID in
      if length counted = 0 \<or> length committee = 0 then Inr s
      else case DecodeValidationData data of
        None \<Rightarrow> Inl (GoErr ''DecodeValidationData'')
      | Some validatorsIdx \<Rightarrow>
          if length validatorsIdx \<le> length counted then Inr s
          else go_bind (go_foldl (uncount_step committee counted) {} validatorsIdx) (\<lambda>uncount.
            Inr (s\<lparr>missingSignature := foldl (revert_step uncount) (missingSignature s) committee\<rparr>)))"

definition getSlashingPenalty :: "uint \<Rightarrow> uint \<Rightarrow> Penalty list \<Rightarrow> Penalty" where
  "getSlashingPenalty numberOfMissingSig totalBlocks ps =
     (if totalBlocks = 0 then NewPenalty
      else let missedPercent = numberOfMissingSig * 100 div totalBlocks in
        foldl (\<lambda>penalty level. if missedPercent \<ge> MinPercent level then level else penalty) NewPenalty ps)"

definition keep_penalty :: "Penalty \<Rightarrow> Penalty option" where
  "keep_penalty p = (if Penalty_IsEmpty p then None else Some p)"

definition GetAllSlashingPenaltyWithActualTotalBlock :: "MissingSignatureCounter \<Rightarrow> string \<rightharpoonup> Penalty" where
  "GetAllSlashingPenaltyWithActualTotalBlock s = (\<lambda>key.
     case missingSignature s key of None \<Rightarrow> None
     | Some ms \<Rightarrow> keep_penalty (getSlashingPenalty (Missing ms) (ActualTotal ms) (penalties s)))"

definition GetAllSlashingPenaltyWithExpectedTotalBlock ::
    "MissingSignatureCounter \<Rightarrow> (string \<rightharpoonup> uint) \<Rightarrow> string \<rightharpoonup> Penalty" where
  "GetAllSlashingPenaltyWithExpectedTotalBlock s expectedTotalBlocks = (\<lambda>key.
     case expectedTotalBlocks key of None \<Rightarrow> None
     | Some expected \<Rightarrow> keep_penalty
         (case missingSignature s key of
            None \<Rightarrow> getSlashingPenalty expected expected (penalties s)
          | Some ms \<Rightarrow>
              let signedBlock = ActualTotal ms - Missing ms;
                  missingBlock = (if signedBlock > expected then 0 else expected - signedBlock)
              in getSlashingPenalty missingBlock expected (penalties s)))"

definition Counter_Reset :: "MissingSignatureCounter \<Rightarrow> string list \<Rightarrow> MissingSignatureCounter" where
  "Counter_Reset s committees =
     s\<lparr>missingSignature := zero_counters committees,
       lastShardStateValidatorCommittee := Map.empty, lastShardStateValidatorIndex := Map.empty\<rparr>"

fun carry_counters :: "(string \<rightharpoonup> MissingSignature) \<Rightarrow> string list \<Rightarrow> string \<rightharpoonup> MissingSignature" where
  "carry_counters old [] = Map.empty"
| "carry_counters old (v # vs) = (carry_counters old vs)
     (v \<mapsto> (case old v of None \<Rightarrow> NewMissingSignature | Some res \<Rightarrow> res))"

definition Counter_CommitteeChange :: "MissingSignatureCounter \<Rightarrow> string list \<Rightarrow> MissingSignatureCounter" where
  "Counter_CommitteeChange s newCommittees =
     s\<lparr>missingSignature := carry_counters (missingSignature s) newCommittees\<rparr>"

section \<open>Runs of the counter\<close>

text \<open>The operations of the counter as events; an operation that returns an error leaves the state
  as it is (both error returns come before the first write).\<close>

datatype 'k counter_op =
    OpAdd string int "'k list"
  | OpAddPrevious string int
  | OpReset "string list"
  | OpCommitteeChange "string list"

definition keep_on_error :: "'s \<Rightarrow> 's go \<Rightarrow> 's" where
  "keep_on_error s r = (case r of Inl _ \<Rightarrow> s | Inr s' \<Rightarrow> s')"

fun counter_step ::
    "(string \<Rightarrow> int list option) \<Rightarrow> ('k \<Rightarrow> string option) \<Rightarrow> MissingSignatureCounter \<Rightarrow> 'k counter_op \<Rightarrow>
     MissingSignatureCounter" where
  "counter_step dec b58 s (OpAdd data shardID ks) = keep_on_error s (AddMissingSignature dec b58 s data shardID ks)"
| "counter_step dec b58 s (OpAddPrevious data shardID) = keep_on_error s (AddPreviousMissignSignature dec s data shardID)"
| "counter_step dec b58 s (OpReset ks) = Counter_Reset s ks"
| "counter_step dec b58 s (OpCommitteeChange ks) = Counter_CommitteeChange s ks"

fun op_cost :: "'k counter_op \<Rightarrow> nat" where
  "op_cost (OpAdd data shardID ks) = length ks"
| "op_cost _ = 0"

section \<open>The invariant\<close>

text \<open>Every counter stays below \<open>n\<close>, the number of countings so far, and misses at most what it counts.\<close>

definition counters_ok :: "nat \<Rightarrow> (string \<rightharpoonup> MissingSignature) \<Rightarrow> bool" where
  "counters_ok n m \<longleftrightarrow>
     (\<forall>ms \<in> ran m. unat (Missing ms) \<le> unat (ActualTotal ms) \<and> unat (ActualTotal ms) \<le> n)"

lemma counters_okI:
  assumes "\<And>k ms. m k = Some ms \<Longrightarrow> unat (Missing ms) \<le> unat (ActualTotal ms) \<and> unat (ActualTotal ms) \<le> n"
  shows "counters_ok n m"
  using assms by (auto simp: counters_ok_def ran_def)

lemma counters_okD:
  assumes "counters_ok n m" and "m k = Some ms"
  shows "unat (Missing ms) \<le> unat (ActualTotal ms)" and "unat (ActualTotal ms) \<le> n"
  using assms by (auto simp: counters_ok_def ran_def)

lemma counters_ok_mono: "counters_ok n m \<Longrightarrow> n \<le> n' \<Longrightarrow> counters_ok n' m"
  by (fastforce simp: counters_ok_def)

lemma unat_plus_one_64: "unat (x :: uint) < 2 ^ 64 - 1 \<Longrightarrow> unat (x + 1) = unat x + 1"
  by (simp add: unat_word_ariths(1))

lemma unat_minus_one_64: "(x :: uint) > 0 \<Longrightarrow> unat (x - 1) = unat x - 1"
  by (simp add: unat_minus_one word_greater_zero_iff)

lemma zero_counters_lookup: "zero_counters vs k = (if k \<in> set vs then Some NewMissingSignature else None)"
  by (induction vs) auto

lemma carry_counters_lookup:
  "carry_counters old vs k =
     (if k \<in> set vs then Some (case old k of None \<Rightarrow> NewMissingSignature | Some r \<Rightarrow> r) else None)"
  by (induction vs) auto

lemma count_step_ok:
  assumes "counters_ok n m" and "n < 2 ^ 64 - 1"
  shows "counters_ok (Suc n) (count_step S m c)"
proof (rule counters_okI)
  fix k ms assume *: "count_step S m c k = Some ms"
  show "unat (Missing ms) \<le> unat (ActualTotal ms) \<and> unat (ActualTotal ms) \<le> Suc n"
  proof (cases "k = c \<and> m c \<noteq> None")
    case True
    then obtain r where r: "m c = Some r" and k: "k = c" by auto
    note b = counters_okD [OF assms(1) r]
    have "unat (ActualTotal r) < 2 ^ 64 - 1" "unat (Missing r) < 2 ^ 64 - 1" using b assms(2) by linarith+
    then show ?thesis using * b
      by (auto simp: count_step_def r k Let_def unat_plus_one_64 split: if_splits)
  next
    case False
    then have "m k = Some ms" using * by (auto simp: count_step_def Let_def split: option.splits if_splits)
    from counters_okD [OF assms(1) this] show ?thesis by auto
  qed
qed

lemma count_foldl_ok:
  assumes "counters_ok n m" and "n + length cs < 2 ^ 64"
  shows "counters_ok (n + length cs) (foldl (count_step S) m cs)"
  using assms
proof (induction cs arbitrary: n m)
  case Nil
  then show ?case by simp
next
  case (Cons c cs)
  then have "counters_ok (Suc n) (count_step S m c)" by (intro count_step_ok) auto
  from Cons.IH [OF this] Cons.prems show ?case by simp
qed

lemma revert_step_ok:
  assumes "counters_ok n m"
  shows "counters_ok n (revert_step U m c)"
proof (rule counters_okI)
  fix k ms assume "revert_step U m c k = Some ms"
  then show "unat (Missing ms) \<le> unat (ActualTotal ms) \<and> unat (ActualTotal ms) \<le> n"
    using counters_okD [OF assms, of k] counters_okD [OF assms, of c]
    by (auto simp: revert_step_def unat_minus_one_64 split: option.splits if_splits)
qed

lemma revert_foldl_ok: "counters_ok n m \<Longrightarrow> counters_ok n (foldl (revert_step U) m cs)"
  by (induction cs arbitrary: m) (auto simp: revert_step_ok)

lemma AddMissingSignature_ok:
  assumes "AddMissingSignature dec b58 s data shardID ks = Inr s'"
    and "counters_ok n (missingSignature s)" and "n + length ks < 2 ^ 64"
  shows "counters_ok (n + length ks) (missingSignature s')"
proof -
  define c where "c = (case CommitteeKeyListToString b58 ks of Inl _ \<Rightarrow> [] | Inr cs \<Rightarrow> cs)"
  have len: "length c \<le> length ks"
    unfolding c_def by (cases "CommitteeKeyListToString b58 ks")
      (auto simp: CommitteeKeyListToString_def dest: go_map_length)
  from assms(1) obtain S where "missingSignature s' = foldl (count_step S) (missingSignature s) c"
    by (auto simp: AddMissingSignature_def c_def Let_def split: option.splits)
  moreover have "counters_ok (n + length c) (foldl (count_step S) (missingSignature s) c)"
    using count_foldl_ok [OF assms(2)] len assms(3) by simp
  ultimately show ?thesis using len counters_ok_mono by fastforce
qed

lemma AddPrevious_ok:
  assumes "AddPreviousMissignSignature dec s data shardID = Inr s'"
    and "counters_ok n (missingSignature s)"
  shows "counters_ok n (missingSignature s')"
  using assms by (auto simp: AddPreviousMissignSignature_def Let_def revert_foldl_ok split: option.splits if_splits)

lemma counter_step_ok:
  assumes "counters_ok n (missingSignature s)" and "n + op_cost x < 2 ^ 64"
  shows "counters_ok (n + op_cost x) (missingSignature (counter_step dec b58 s x))"
proof (cases x)
  case (OpAdd data shardID ks)
  with assms AddMissingSignature_ok [of dec b58 s data shardID ks] counters_ok_mono [OF assms(1)]
  show ?thesis by (auto simp: keep_on_error_def split: sum.splits)
next
  case (OpAddPrevious data shardID)
  with assms AddPrevious_ok [of dec s data shardID]
  show ?thesis by (auto simp: keep_on_error_def split: sum.splits)
next
  case (OpReset ks)
  then show ?thesis
    by (auto simp: Counter_Reset_def NewMissingSignature_def zero_counters_lookup intro!: counters_okI split: if_splits)
next
  case (OpCommitteeChange ks)
  then show ?thesis using counters_okD [OF assms(1)]
    by (auto simp: Counter_CommitteeChange_def NewMissingSignature_def carry_counters_lookup
        intro!: counters_okI split: if_splits option.splits)
qed

interpretation counter: budgeted_runs "counter_step dec b58" op_cost
  "\<lambda>n s. counters_ok n (missingSignature s)" "2 ^ 64" for dec b58
  by unfold_locales (rule counter_step_ok)

lemma NewDefaultSignatureCounter_ok: "counters_ok 0 (missingSignature (NewDefaultSignatureCounter cs))"
  by (auto simp: NewDefaultSignatureCounter_def NewMissingSignature_def zero_counters_lookup
      intro!: counters_okI split: if_splits)

text \<open>After any sequence of operations on a fresh counter (errors included) no validator misses more
  blocks than it was counted for, as long as fewer than \<open>2 ^ 64\<close> committee members were counted.\<close>

theorem missing_le_actual:
  assumes "sum_list (map op_cost ops) < 2 ^ 64"
    and "missingSignature (foldl (counter_step dec b58) (NewDefaultSignatureCounter cs) ops) k = Some ms"
  shows "Missing ms \<le> ActualTotal ms \<and> unat (ActualTotal ms) \<le> sum_list (map op_cost ops)"
proof -
  have "counters_ok (sum_list (map op_cost ops))
      (missingSignature (foldl (counter_step dec b58) (NewDefaultSignatureCounter cs) ops))"
    using counter.run_inv [OF NewDefaultSignatureCounter_ok, of ops dec b58 cs] assms(1) by simp
  from counters_okD [OF this, of k ms] assms(2) show ?thesis by (simp add: word_le_nat_alt)
qed

definition toy_decode :: "string \<Rightarrow> int list option" where
  "toy_decode s = (if s = ''d0'' then Some [0] else if s = ''d01'' then Some [0, 1] else None)"

definition toy_counter :: MissingSignatureCounter where
  "toy_counter = NewDefaultSignatureCounter [''a'', ''b'', ''c'']"

lemmas toy_counter_simps = toy_counter_def toy_decode_def NewDefaultSignatureCounter_def keep_on_error_def
  AddMissingSignature_def AddPreviousMissignSignature_def CommitteeKeyListToString_def signer_step_def
  count_step_def uncount_step_def revert_step_def map_slice_def NewMissingSignature_def IndexOfInt_def
  go_index_def Let_def

definition toy_ops :: "string counter_op list" where
  "toy_ops = [OpAdd ''d01'' 0 [''a'', ''b'', ''c''], OpAdd ''d0'' 0 [''a'', ''b'', ''x'']]"

theorem missing_le_actual_witness:
  "missingSignature (foldl (counter_step toy_decode Some) toy_counter toy_ops) ''b'' =
     Some \<lparr>ActualTotal = 2, Missing = 1\<rparr> \<and> (1 :: uint) \<le> 2"
proof -
  have *: "missingSignature (foldl (counter_step toy_decode Some) toy_counter toy_ops) ''b'' =
     Some \<lparr>ActualTotal = 2, Missing = 1\<rparr>"
    by (simp add: toy_counter_simps toy_ops_def)
  with missing_le_actual [of toy_ops toy_decode Some "[''a'', ''b'', ''c'']" "''b''"]
  show ?thesis by (simp add: toy_counter_def toy_ops_def)
qed

section \<open>Late votes\<close>

definition bump :: "string set \<Rightarrow> string \<Rightarrow> MissingSignature \<Rightarrow> MissingSignature" where
  "bump S k ms = \<lparr>ActualTotal = ActualTotal ms + 1, Missing = Missing ms + (if k \<in> S then 0 else 1)\<rparr>"

definition credit :: "string set \<Rightarrow> string \<Rightarrow> MissingSignature \<Rightarrow> MissingSignature" where
  "credit U k ms = (if k \<in> U \<and> Missing ms > 0 then ms\<lparr>Missing := Missing ms - 1\<rparr> else ms)"

lemma count_step_eq: "count_step S m c = m(c := map_option (bump S c) (m c))"
  by (cases "m c") (auto simp: count_step_def bump_def Let_def)

lemma revert_step_eq: "revert_step U m c = m(c := map_option (credit U c) (m c))"
  by (cases "m c") (auto simp: revert_step_def credit_def)

lemma foldl_pointwise:
  assumes "distinct cs"
  shows "foldl (\<lambda>m c. m(c := map_option (f c) (m c))) m cs k =
    (if k \<in> set cs then map_option (f k) (m k) else m k)"
  using assms by (induction cs arbitrary: m) auto

lemma signer_foldl:
  "go_foldl (signer_step c) A idxs = Inr S \<Longrightarrow>
     S = A \<union> (\<lambda>i. c ! nat i) ` set idxs \<and> (\<forall>i \<in> set idxs. 0 \<le> i \<and> i < int (length c))"
  by (induction idxs arbitrary: A) (auto simp: signer_step_def split: if_splits)

lemma uncount_foldl:
  "go_foldl (uncount_step c counted) A idxs = Inr U \<Longrightarrow>
     U = A \<union> (\<lambda>i. c ! nat i) ` (set idxs - set counted)"
  by (induction idxs arbitrary: A) (auto simp: uncount_step_def split: if_splits)

lemma nth_image_diff:
  assumes "distinct c" and "\<forall>i \<in> A \<union> B. 0 \<le> i \<and> i < int (length c)"
  shows "(\<lambda>i. c ! nat i) ` (A - B) = (\<lambda>i. c ! nat i) ` A - (\<lambda>i. c ! nat i) ` B"
proof -
  have "inj_on (\<lambda>i. c ! nat i) (A \<union> B)"
    using assms by (intro inj_onI) (metis eq_nat_nat_iff nat_less_iff nth_eq_iff_index_eq)
  then show ?thesis by (rule inj_on_image_set_diff) auto
qed

lemma credit_bump:
  assumes "S1 \<subseteq> S2" and "unat (Missing ms) < 2 ^ 64 - 1"
  shows "credit (S2 - S1) k (bump S1 k ms) = bump S2 k ms"
proof -
  have "Missing ms + 1 > 0" using unat_plus_one_64 [OF assms(2)] by (simp add: word_less_nat_alt)
  then show ?thesis using assms(1) by (auto simp: credit_def bump_def)
qed

text \<open>C37. Late votes are credited exactly: counting a block with the votes \<open>i1\<close> it was first seen with and then
  adding the votes \<open>i2\<close> its successor carries gives the counters of counting it once with \<open>i2\<close>
  (for a committee without duplicates and votes that only grow).\<close>

theorem late_votes_credited:
  assumes "AddMissingSignature dec b58 s d1 shardID ks = Inr s1"
    and "AddPreviousMissignSignature dec s1 d2 shardID = Inr s2"
    and "AddMissingSignature dec b58 s d2 shardID ks = Inr s3"
    and "dec d1 = Some i1" and "dec d2 = Some i2"
    and "CommitteeKeyListToString b58 ks = Inr c" and "distinct c"
    and "i1 \<noteq> []" and "set i1 \<subseteq> set i2" and "length i1 < length i2"
    and "counters_ok n (missingSignature s)" and "n < 2 ^ 64 - 1"
  shows "missingSignature s2 = missingSignature s3"
proof -
  let ?at = "\<lambda>i. c ! nat i" and ?m = "missingSignature s"
  from assms(1,4,6) obtain S1 where S1: "go_foldl (signer_step c) {} i1 = Inr S1"
    and m1: "missingSignature s1 = foldl (count_step S1) ?m c"
    and last: "lastShardStateValidatorCommittee s1 shardID = Some c" "lastShardStateValidatorIndex s1 shardID = Some i1"
    by (auto simp: AddMissingSignature_def Let_def)
  from assms(3,5,6) obtain S2 where S2: "go_foldl (signer_step c) {} i2 = Inr S2"
    and m3: "missingSignature s3 = foldl (count_step S2) ?m c"
    by (auto simp: AddMissingSignature_def Let_def)
  note bounds = signer_foldl [OF S1] signer_foldl [OF S2]
  have "c \<noteq> []" using bounds(1) assms(8) by (cases i1) auto
  with assms(2,5,8,10) last obtain U where U: "go_foldl (uncount_step c i1) {} i2 = Inr U"
    and m2: "missingSignature s2 = foldl (revert_step U) (missingSignature s1) c"
    by (auto simp: AddPreviousMissignSignature_def map_slice_def Let_def)
  have "?at ` (set i2 - set i1) = ?at ` set i2 - ?at ` set i1"
    using bounds assms(7) by (intro nth_image_diff) auto
  then have US: "U = S2 - S1" using uncount_foldl [OF U] bounds by simp
  have sub: "S1 \<subseteq> S2" using bounds assms(9) by auto
  show ?thesis
  proof
    fix k
    show "missingSignature s2 k = missingSignature s3 k"
    proof (cases "?m k")
      case None
      then show ?thesis unfolding m1 m2 m3 revert_step_eq count_step_eq
        by (simp add: foldl_pointwise [OF assms(7)])
    next
      case (Some ms)
      then have "unat (Missing ms) < 2 ^ 64 - 1" using counters_okD [OF assms(11) Some] assms(12) by linarith
      from credit_bump [OF sub this] Some show ?thesis unfolding m1 m2 m3 revert_step_eq count_step_eq US
        by (simp add: foldl_pointwise [OF assms(7)])
    qed
  qed
qed

definition toy_counter_after :: "string \<Rightarrow> MissingSignatureCounter" where
  "toy_counter_after d = keep_on_error toy_counter (AddMissingSignature toy_decode Some toy_counter d 0 [''a'', ''b'', ''c''])"

theorem late_votes_credited_witness:
  "\<exists>s2. AddPreviousMissignSignature toy_decode (toy_counter_after ''d0'') ''d01'' 0 = Inr s2 \<and>
     missingSignature s2 = missingSignature (toy_counter_after ''d01'')"
proof -
  have 1: "AddMissingSignature toy_decode Some toy_counter ''d0'' 0 [''a'', ''b'', ''c''] = Inr (toy_counter_after ''d0'')"
    by (simp add: toy_counter_simps toy_counter_after_def)
  have 3: "AddMissingSignature toy_decode Some toy_counter ''d01'' 0 [''a'', ''b'', ''c''] = Inr (toy_counter_after ''d01'')"
    by (simp add: toy_counter_simps toy_counter_after_def)
  obtain s2 where 2: "AddPreviousMissignSignature toy_decode (toy_counter_after ''d0'') ''d01'' 0 = Inr s2"
    by (simp add: toy_counter_simps toy_counter_after_def)
  have "counters_ok 0 (missingSignature toy_counter)" by (simp add: toy_counter_def NewDefaultSignatureCounter_ok)
  then have "missingSignature s2 = missingSignature (toy_counter_after ''d01'')"
    using late_votes_credited [OF 1 2 3, of "[0]" "[0, 1]" "[''a'', ''b'', ''c'']" 0]
    by (simp add: toy_decode_def CommitteeKeyListToString_def)
  with 2 show ?thesis by simp
qed

section \<open>When a validator is slashed\<close>

lemma getSlashingPenalty_default:
  assumes "unat m * 100 < 2 ^ 64"
  shows "keep_penalty (getSlashingPenalty m t defaultRule) \<noteq> None \<longleftrightarrow> t \<noteq> 0 \<and> unat t \<le> 2 * unat m"
proof (cases "t = 0")
  case True
  then show ?thesis by (simp add: getSlashingPenalty_def keep_penalty_def Penalty_IsEmpty_def)
next
  case False
  then have pos: "0 < unat t" by (simp add: unat_gt_0)
  have "unat (m * 100) = unat m * 100" using assms by (simp add: unat_word_ariths(2))
  then have "unat (m * 100 div t) = unat m * 100 div unat t" by (simp add: unat_div)
  then have "(50 \<le> m * 100 div t) \<longleftrightarrow> 50 \<le> unat m * 100 div unat t" by (simp add: word_le_nat_alt)
  also have "\<dots> \<longleftrightarrow> 50 * unat t \<le> unat m * 100" using pos by (simp add: less_eq_div_iff_mult_less_eq)
  also have "\<dots> \<longleftrightarrow> unat t \<le> 2 * unat m" by linarith
  finally show ?thesis using False
    by (auto simp: getSlashingPenalty_def keep_penalty_def Penalty_IsEmpty_def defaultRule_def NewPenalty_def Let_def)
qed

text \<open>With the default rule, a validator of the counter is slashed on its actual total exactly when it was
  counted at all and missed at least half of the blocks.\<close>

theorem slashed_iff_missed_half:
  assumes "counters_ok n (missingSignature s)" and "n * 100 < 2 ^ 64" and "penalties s = defaultRule"
  shows "k \<in> dom (GetAllSlashingPenaltyWithActualTotalBlock s) \<longleftrightarrow>
    (\<exists>ms. missingSignature s k = Some ms \<and> ActualTotal ms \<noteq> 0 \<and> unat (ActualTotal ms) \<le> 2 * unat (Missing ms))"
proof (cases "missingSignature s k")
  case None
  then show ?thesis by (simp add: GetAllSlashingPenaltyWithActualTotalBlock_def domIff)
next
  case (Some ms)
  from counters_okD [OF assms(1) this] have "unat (Missing ms) * 100 < 2 ^ 64" using assms(2) by linarith
  from getSlashingPenalty_default [OF this, of "ActualTotal ms"] Some assms(3) show ?thesis
    by (simp add: GetAllSlashingPenaltyWithActualTotalBlock_def domIff)
qed

theorem slashed_iff_missed_half_witness:
  "''b'' \<in> dom (GetAllSlashingPenaltyWithActualTotalBlock (foldl (counter_step toy_decode Some) toy_counter toy_ops))"
proof -
  let ?s = "foldl (counter_step toy_decode Some) toy_counter toy_ops"
  have "sum_list (map op_cost toy_ops) = 6" by (simp add: toy_ops_def)
  then have "counters_ok 6 (missingSignature ?s)"
    using counter.run_inv [OF NewDefaultSignatureCounter_ok, of toy_ops toy_decode Some "[''a'', ''b'', ''c'']"]
    by (simp add: toy_counter_def)
  moreover have "penalties ?s = defaultRule" by (simp add: toy_counter_simps toy_ops_def)
  moreover have "missingSignature ?s ''b'' = Some \<lparr>ActualTotal = 2, Missing = 1\<rparr>"
    by (simp add: toy_counter_simps toy_ops_def)
  ultimately show ?thesis using slashed_iff_missed_half [of 6 ?s "''b''"] by simp
qed

text \<open>Against an expected number of blocks, a validator is slashed exactly when it signed at most half of the
  expected blocks; a validator the counter does not know signed none.\<close>

theorem slashed_iff_signed_half:
  assumes "counters_ok n (missingSignature s)" and "penalties s = defaultRule"
    and "expected k = Some e" and "unat e * 100 < 2 ^ 64"
  shows "k \<in> dom (GetAllSlashingPenaltyWithExpectedTotalBlock s expected) \<longleftrightarrow>
    e \<noteq> 0 \<and> 2 * (case missingSignature s k of None \<Rightarrow> 0 | Some ms \<Rightarrow> unat (ActualTotal ms) - unat (Missing ms)) \<le> unat e"
proof (cases "missingSignature s k")
  case None
  then show ?thesis using getSlashingPenalty_default [OF assms(4), of e] assms(2,3)
    by (auto simp: GetAllSlashingPenaltyWithExpectedTotalBlock_def domIff)
next
  case (Some ms)
  from counters_okD [OF assms(1) this] have "Missing ms \<le> ActualTotal ms" by (simp add: word_le_nat_alt)
  then have sb: "unat (ActualTotal ms - Missing ms) = unat (ActualTotal ms) - unat (Missing ms)" by (rule unat_sub)
  let ?sb = "ActualTotal ms - Missing ms"
  define mb where "mb = (if ?sb > e then 0 else e - ?sb)"
  have mb: "unat mb = unat e - unat ?sb" by (auto simp: mb_def unat_sub word_less_nat_alt word_le_nat_alt)
  then have "unat mb * 100 < 2 ^ 64" using assms(4) by linarith
  from getSlashingPenalty_default [OF this, of e] have
    "k \<in> dom (GetAllSlashingPenaltyWithExpectedTotalBlock s expected) \<longleftrightarrow> e \<noteq> 0 \<and> unat e \<le> 2 * unat mb"
    using Some assms(2,3) by (simp add: GetAllSlashingPenaltyWithExpectedTotalBlock_def domIff mb_def Let_def)
  moreover have "e \<noteq> 0 \<Longrightarrow> unat e > 0" by (simp add: unat_gt_0)
  ultimately show ?thesis using Some sb mb by auto
qed

theorem slashed_iff_signed_half_witness:
  "''z'' \<in> dom (GetAllSlashingPenaltyWithExpectedTotalBlock toy_counter [''z'' \<mapsto> 10])"
  using slashed_iff_signed_half [of 0 toy_counter "[''z'' \<mapsto> 10]" "''z''" 10]
    NewDefaultSignatureCounter_ok [of "[''a'', ''b'', ''c'']"]
  by (simp add: toy_counter_simps)

end
