(* ===== verification/Swap_Rules.thy ===== *)
theory Swap_Rules
  imports Instructions Signature_Counter
begin

text \<open>
  The swap rules of \<^verbatim>\<open>src/blockchain/committeestate/consensus_swap_rule*.go\<close>: at the end of an
  epoch a rule decides which validators leave a shard committee (slashed or by rotation) and which
  substitutes enter. The contract of a rule is the locale \<open>swap_rule\<close>; it is interpreted for the
  slashing rule (\<^verbatim>\<open>swapRuleV2\<close>) and the dynamic-committee-size rule (\<^verbatim>\<open>swapRuleV3\<close>). The rule of the
  first protocol version (\<^verbatim>\<open>SwapValidator\<close>) is modelled with the same properties.
  Committee sizes are Go \<^verbatim>\<open>int\<close> values far from the 64-bit limit and modelled as \<open>int\<close>.
\<close>

section \<open>Constants (constants.go)\<close>

definition MAX_SWAP_OR_ASSIGN_PERCENT_V2 :: int where "MAX_SWAP_OR_ASSIGN_PERCENT_V2 = 6"
definition MAX_SLASH_PERCENT_V3 :: int where "MAX_SLASH_PERCENT_V3 = 3"
definition MAX_SWAP_OUT_PERCENT_V3 :: int where "MAX_SWAP_OUT_PERCENT_V3 = 8"
definition MAX_SWAP_IN_PERCENT_V3 :: int where "MAX_SWAP_IN_PERCENT_V3 = 8"
definition MAX_ASSIGN_PERCENT_V3 :: int where "MAX_ASSIGN_PERCENT_V3 = 8"

lemmas swap_constants = MAX_SWAP_OR_ASSIGN_PERCENT_V2_def MAX_SLASH_PERCENT_V3_def
  MAX_SWAP_OUT_PERCENT_V3_def MAX_SWAP_IN_PERCENT_V3_def MAX_ASSIGN_PERCENT_V3_def

section \<open>List helpers (utils.go)\<close>

definition DifferentElementStrings :: "string list \<Rightarrow> string list \<Rightarrow> string list" where
  "DifferentElementStrings src1 src2 =
     (let (lSrc, sSrc) = (if length src1 \<ge> length src2 then (src1, src2) else (src2, src1))
      in filter (\<lambda>v. v \<notin> set sSrc) lSrc)"

definition insertValueToSliceByIndex :: "string list \<Rightarrow> string \<Rightarrow> int \<Rightarrow> string list go" where
  "insertValueToSliceByIndex lst v index =
     (if index > int (length lst) \<or> index < 0 then Inl GoPanic
      else if int (length lst) = index then Inr (lst @ [v])
      else Inr (take (nat index) lst @ [v] @ drop (nat index) lst))"

text \<open>The loop that both rules run over the flexible part of the committee: punished validators
  leave as long as the offset lasts.\<close>

fun slash_loop :: "(string \<rightharpoonup> Penalty) \<Rightarrow> int \<Rightarrow> string list \<Rightarrow> string list \<times> string list \<times> int" where
  "slash_loop penalty off [] = ([], [], off)"
| "slash_loop penalty off (c # cs) =
     (if penalty c \<noteq> None \<and> off > 0
      then (case slash_loop penalty (off - 1) cs of (sl, rest, off') \<Rightarrow> (c # sl, rest, off'))
      else (case slash_loop penalty off cs of (sl, rest, off') \<Rightarrow> (sl, c # rest, off')))"

type_synonym 'k swap_result =
  "'k SwapShardInstruction option \<times> string list \<times> string list \<times> string list \<times> string list"

section \<open>swapRuleV2 (consensus_swap_rule_v2.go)\<close>

text \<open>The loop of \<^verbatim>\<open>getSwapOutOffset\<close>: returns the remaining and the no-replace offset.\<close>

function shrink_loop :: "int \<Rightarrow> int \<Rightarrow> int \<Rightarrow> int \<Rightarrow> int \<times> int" where
  "shrink_loop swapOffset noReplaceOffset numberOfCommittees minCommitteeSize =
     (if swapOffset > 0 \<and> numberOfCommittees > minCommitteeSize
      then shrink_loop (swapOffset - 1) (noReplaceOffset + 1) (numberOfCommittees - 1) minCommitteeSize
      else (swapOffset, noReplaceOffset))"
  by pat_completeness auto
termination by (relation "measure (\<lambda>(swapOffset, _). nat swapOffset)") auto

declare shrink_loop.simps [simp del]

definition V2_getSwapOutOffset :: "int \<Rightarrow> int \<Rightarrow> int \<Rightarrow> int \<Rightarrow> int" where
  "V2_getSwapOutOffset numberOfSubstitutes numberOfCommittees numberOfFixedValidator minCommitteeSize =
     (let swapOffset = go_div numberOfCommittees MAX_SWAP_OR_ASSIGN_PERCENT_V2 in
      if swapOffset = 0 then 0
      else let
        swapOffset = (if swapOffset > numberOfCommittees - numberOfFixedValidator
                      then numberOfCommittees - numberOfFixedValidator else swapOffset);
        (swapOffset, noReplaceOffset) = shrink_loop swapOffset 0 numberOfCommittees minCommitteeSize;
        replaceSwapOffset = (if numberOfSubstitutes < swapOffset then numberOfSubstitutes else swapOffset)
      in noReplaceOffset + replaceSwapOffset)"

definition V2_slashingSwapOut ::
    "string list \<Rightarrow> string list \<Rightarrow> (string \<rightharpoonup> Penalty) \<Rightarrow> int \<Rightarrow> int \<Rightarrow> (string list \<times> string list \<times> string list) go" where
  "V2_slashingSwapOut committees substitutes penalty minCommitteeSize numberOfFixedValidator =
     (if int (length committees) = numberOfFixedValidator then Inr (committees, [], [])
      else
        go_bind (slice_to committees numberOfFixedValidator) (\<lambda>fixedCommittees.
        go_bind (slice_from committees numberOfFixedValidator) (\<lambda>flexCommittees.
        let swapOutOffset = V2_getSwapOutOffset (int (length substitutes)) (int (length committees))
              numberOfFixedValidator minCommitteeSize;
            (slashingCommittees, flexAfter, swapOutOffset) = slash_loop penalty swapOutOffset flexCommittees in
        go_bind (slice_to flexAfter swapOutOffset) (\<lambda>normalSwapOutCommittees.
        go_bind (slice_from flexAfter swapOutOffset) (\<lambda>flexRest.
          Inr (fixedCommittees @ flexRest, slashingCommittees, normalSwapOutCommittees))))))"

definition V2_swapInAfterSwapOut ::
    "string list \<Rightarrow> string list \<Rightarrow> int \<Rightarrow> (string list \<times> string list \<times> string list) go" where
  "V2_swapInAfterSwapOut committees substitutes maxCommitteeSize =
     (let vacantSlot = maxCommitteeSize - int (length committees);
          vacantSlot = (if vacantSlot > int (length substitutes) then int (length substitutes) else vacantSlot) in
      go_bind (slice_to substitutes vacantSlot) (\<lambda>newCommittees.
      go_bind (slice_from substitutes vacantSlot) (\<lambda>newSubstitutes.
        Inr (committees @ newCommittees, newSubstitutes, newCommittees))))"

definition V2_Process ::
    "('k, 'h, 'p) codec \<Rightarrow> nat \<Rightarrow> string list \<Rightarrow> string list \<Rightarrow> int \<Rightarrow> int \<Rightarrow> int \<Rightarrow> int \<Rightarrow> (string \<rightharpoonup> Penalty) \<Rightarrow>
     'k swap_result go" where
  "V2_Process cdc shardID committees substitutes minCommitteeSize maxCommitteeSize typeIns
       numberOfFixedValidators penalty =
     go_bind (V2_slashingSwapOut committees substitutes penalty minCommitteeSize numberOfFixedValidators)
       (\<lambda>(committees1, slashingCommittees, normalSwapCommittees).
     let swappedOutCommittees = slashingCommittees @ normalSwapCommittees in
     go_bind (V2_swapInAfterSwapOut committees1 substitutes maxCommitteeSize)
       (\<lambda>(newCommittees, newSubstitutes, swapInCommittees).
     if length swapInCommittees = 0 \<and> length swappedOutCommittees = 0
     then Inr (Some NewSwapShardInstruction, newCommittees, newSubstitutes, slashingCommittees, normalSwapCommittees)
     else go_bind (NewSwapShardInstructionWithValue cdc swapInCommittees swappedOutCommittees (int shardID) typeIns)
       (\<lambda>ins. Inr (ins, newCommittees, newSubstitutes, slashingCommittees, normalSwapCommittees))))"

definition V2_CalculateAssignOffset :: "int \<Rightarrow> int \<Rightarrow> int \<Rightarrow> int \<Rightarrow> int" where
  "V2_CalculateAssignOffset lenShardSubstitute lenCommittees numberOfFixedValidators minCommitteeSize =
     (let assignPerShard = V2_getSwapOutOffset lenShardSubstitute lenCommittees numberOfFixedValidators minCommitteeSize in
      if assignPerShard = 0 \<and>
         (lenCommittees < MAX_SWAP_OR_ASSIGN_PERCENT_V2 \<or> lenCommittees - numberOfFixedValidators = 0)
      then 1 else assignPerShard)"

section \<open>swapRuleV3 (consensus_swap_rule_v3.go)\<close>

definition V3_getMaxSlashingOffset :: "int \<Rightarrow> int \<Rightarrow> int" where
  "V3_getMaxSlashingOffset lenCommittees numberOfFixedValidators =
     (if lenCommittees = numberOfFixedValidators then 0
      else let offset = go_div lenCommittees MAX_SLASH_PERCENT_V3 in
        if offset > lenCommittees - numberOfFixedValidators
        then lenCommittees - numberOfFixedValidators else offset)"

definition V3_slashingSwapOut ::
    "string list \<Rightarrow> (string \<rightharpoonup> Penalty) \<Rightarrow> int \<Rightarrow> (string list \<times> string list) go" where
  "V3_slashingSwapOut committees penalty minNumberOfValidators =
     go_bind (slice_to committees minNumberOfValidators) (\<lambda>fixedCommittees.
     go_bind (slice_from committees minNumberOfValidators) (\<lambda>flexCommittees.
     let maxSlashingOffset = V3_getMaxSlashingOffset (int (length committees)) minNumberOfValidators;
         (slashingCommittees, flexAfter, _) = slash_loop penalty maxSlashingOffset flexCommittees
     in Inr (fixedCommittees @ flexAfter, slashingCommittees)))"

definition V3_getNormalSwapOutOffset :: "int \<Rightarrow> int \<Rightarrow> int \<Rightarrow> int \<Rightarrow> int \<Rightarrow> int" where
  "V3_getNormalSwapOutOffset lenCommitteesBeforeSlash lenSubstitutes lenSlashedCommittees
       numberOfFixedValidators maxCommitteeSize =
     (if lenSubstitutes = 0 then 0
      else if maxCommitteeSize \<noteq> lenCommitteesBeforeSlash then 0
      else if lenSlashedCommittees = V3_getMaxSlashingOffset lenCommitteesBeforeSlash numberOfFixedValidators then 0
      else let
        maxNormal = go_div lenCommitteesBeforeSlash MAX_SWAP_OUT_PERCENT_V3;
        maxNormal = (if maxNormal > lenCommitteesBeforeSlash - numberOfFixedValidators
                     then lenCommitteesBeforeSlash - numberOfFixedValidators else maxNormal) in
      if lenSlashedCommittees \<ge> maxNormal then 0
      else let
        offset = maxNormal - lenSlashedCommittees;
        offset = (if offset > lenSubstitutes then lenSubstitutes else offset);
        lenAfterSlash = lenCommitteesBeforeSlash - lenSlashedCommittees
      in if offset > lenAfterSlash - numberOfFixedValidators then lenAfterSlash - numberOfFixedValidators else offset)"

definition V3_normalSwapOut ::
    "string list \<Rightarrow> string list \<Rightarrow> int \<Rightarrow> int \<Rightarrow> int \<Rightarrow> int \<Rightarrow> (string list \<times> string list) go" where
  "V3_normalSwapOut committeesAfterSlashing substitutes lenCommitteesBeforeSlash lenSlashedCommittees
       minNumberOfValidators maxCommitteeSize =
     (let off = V3_getNormalSwapOutOffset lenCommitteesBeforeSlash (int (length substitutes)) lenSlashedCommittees
            minNumberOfValidators maxCommitteeSize in
      go_bind (slice_to committeesAfterSlashing minNumberOfValidators) (\<lambda>front.
      go_bind (slice_from committeesAfterSlashing (minNumberOfValidators + off)) (\<lambda>back.
      go_bind (go_slice committeesAfterSlashing minNumberOfValidators (minNumberOfValidators + off)) (\<lambda>out.
        Inr (front @ back, out)))))"

definition V3_getSwapInOffset :: "int \<Rightarrow> int \<Rightarrow> int \<Rightarrow> int \<Rightarrow> int \<Rightarrow> int" where
  "V3_getSwapInOffset lenCommitteesAfterSwapOut lenSubstitutes maxCommitteeSize numberOfSlashingValidators
       lenCommitteesBeforeSwapOut =
     (let offset = (if numberOfSlashingValidators = 0 \<and> lenCommitteesBeforeSwapOut = maxCommitteeSize
                    then go_div lenCommitteesBeforeSwapOut MAX_SWAP_IN_PERCENT_V3
                    else go_div lenCommitteesAfterSwapOut MAX_SWAP_IN_PERCENT_V3);
          offset = (if offset = 0 \<and> lenCommitteesAfterSwapOut < MAX_SWAP_IN_PERCENT_V3 then 1 else offset);
          offset = (if lenSubstitutes < offset then lenSubstitutes else offset)
      in if lenCommitteesAfterSwapOut + offset > maxCommitteeSize
         then maxCommitteeSize - lenCommitteesAfterSwapOut else offset)"

definition V3_swapInAfterSwapOut ::
    "string list \<Rightarrow> string list \<Rightarrow> int \<Rightarrow> int \<Rightarrow> int \<Rightarrow> (string list \<times> string list \<times> string list) go" where
  "V3_swapInAfterSwapOut committeesAfterSwapOut substitutes maxCommitteeSize numberOfSlashingValidators
       lenCommitteesBeforeSwapOut =
     (let swapInOffset = V3_getSwapInOffset (int (length committeesAfterSwapOut)) (int (length substitutes))
            maxCommitteeSize numberOfSlashingValidators lenCommitteesBeforeSwapOut in
      go_bind (slice_to substitutes swapInOffset) (\<lambda>swapInCommittees.
      go_bind (slice_from substitutes swapInOffset) (\<lambda>newSubstitutes.
        Inr (committeesAfterSwapOut @ swapInCommittees, newSubstitutes, swapInCommittees))))"

definition V3_Process ::
    "('k, 'h, 'p) codec \<Rightarrow> nat \<Rightarrow> string list \<Rightarrow> string list \<Rightarrow> int \<Rightarrow> int \<Rightarrow> int \<Rightarrow> int \<Rightarrow> (string \<rightharpoonup> Penalty) \<Rightarrow>
     'k swap_result go" where
  "V3_Process cdc shardID committees substitutes minCommitteeSize maxCommitteeSize typeIns
       numberOfFixedValidators penalty =
     (let minNumberOfValidators =
        (if numberOfFixedValidators < minCommitteeSize then minCommitteeSize else numberOfFixedValidators) in
     go_bind (V3_slashingSwapOut committees penalty minNumberOfValidators) (\<lambda>(committees1, slashingCommittees).
     go_bind (V3_normalSwapOut committees1 substitutes (int (length committees)) (int (length slashingCommittees))
       minNumberOfValidators maxCommitteeSize) (\<lambda>(committees2, normalSwapOutCommittees).
     let swappedOutCommittees = slashingCommittees @ normalSwapOutCommittees in
     go_bind (V3_swapInAfterSwapOut committees2 substitutes maxCommitteeSize (int (length slashingCommittees))
       (int (length committees))) (\<lambda>(newCommittees, newSubstitutes, swapInCommittees).
     if length swapInCommittees = 0 \<and> length swappedOutCommittees = 0
     then Inr (Some (NewSwapShardInstructionWithShardID (int shardID)), newCommittees, newSubstitutes,
       slashingCommittees, normalSwapOutCommittees)
     else go_bind (NewSwapShardInstructionWithValue cdc swapInCommittees swappedOutCommittees (int shardID) typeIns)
       (\<lambda>ins. Inr (ins, newCommittees, newSubstitutes, slashingCommittees, normalSwapOutCommittees))))))"

definition V3_CalculateAssignOffset :: "int \<Rightarrow> int \<Rightarrow> int \<Rightarrow> int \<Rightarrow> int" where
  "V3_CalculateAssignOffset lenShardSubstitute lenCommittees numberOfFixedValidators minCommitteeSize =
     (let assignOffset = go_div lenCommittees MAX_ASSIGN_PERCENT_V3 in
      if assignOffset = 0 \<and> lenCommittees < MAX_ASSIGN_PERCENT_V3 then 1 else assignOffset)"

section \<open>The SwapRuleProcessor interface (consensus_swap_rule.go)\<close>

datatype SwapRuleProcessor = swapRuleV2 | swapRuleV3

definition GetSwapRuleVersion :: "nat \<Rightarrow> nat \<Rightarrow> SwapRuleProcessor" where
  "GetSwapRuleVersion beaconHeight stakingFlowV3Height =
     (if beaconHeight \<ge> stakingFlowV3Height then swapRuleV3 else swapRuleV2)"

fun SwapRule_Process ::
    "SwapRuleProcessor \<Rightarrow> ('k, 'h, 'p) codec \<Rightarrow> nat \<Rightarrow> string list \<Rightarrow> string list \<Rightarrow> int \<Rightarrow> int \<Rightarrow> int \<Rightarrow> int \<Rightarrow>
     (string \<rightharpoonup> Penalty) \<Rightarrow> 'k swap_result go" where
  "SwapRule_Process swapRuleV2 = V2_Process"
| "SwapRule_Process swapRuleV3 = V3_Process"

fun SwapRule_CalculateAssignOffset :: "SwapRuleProcessor \<Rightarrow> int \<Rightarrow> int \<Rightarrow> int \<Rightarrow> int \<Rightarrow> int" where
  "SwapRule_CalculateAssignOffset swapRuleV2 = V2_CalculateAssignOffset"
| "SwapRule_CalculateAssignOffset swapRuleV3 = V3_CalculateAssignOffset"

fun SwapRule_Version :: "SwapRuleProcessor \<Rightarrow> int" where
  "SwapRule_Version swapRuleV2 = 2"
| "SwapRule_Version swapRuleV3 = 3"

section \<open>Facts about the offsets and the slashing loop\<close>

lemma slash_loop_props:
  assumes "slash_loop penalty off cs = (sl, rest, off')"
  shows "mset sl + mset rest = mset cs" and "off' = off - int (length sl)"
    and "0 \<le> off \<Longrightarrow> 0 \<le> off'" and "set sl \<subseteq> dom penalty"
    and "off' > 0 \<Longrightarrow> set rest \<inter> dom penalty = {}"
proof -
  have "mset sl + mset rest = mset cs \<and> off' = off - int (length sl) \<and> (0 \<le> off \<longrightarrow> 0 \<le> off') \<and>
      set sl \<subseteq> dom penalty \<and> (off' > 0 \<longrightarrow> set rest \<inter> dom penalty = {}) \<and> off' \<le> off"
    using assms
  proof (induction penalty off cs arbitrary: sl rest off' rule: slash_loop.induct)
    case (1 penalty off)
    then show ?case by auto
  next
    case (2 penalty off c cs)
    show ?case
    proof (cases "penalty c \<noteq> None \<and> off > 0")
      case True
      then obtain sl0 where l: "slash_loop penalty (off - 1) cs = (sl0, rest, off')" and sl: "sl = c # sl0"
        using "2.prems" by (auto split: prod.splits)
      from "2.IH"(1) [OF True l] True show ?thesis by (auto simp: sl)
    next
      case False
      then obtain r0 where l: "slash_loop penalty off cs = (sl, r0, off')" and r: "rest = c # r0"
        using "2.prems" by (auto split: prod.splits)
      from "2.IH"(2) [OF False l] False show ?thesis by (auto simp: r)
    qed
  qed
  then show "mset sl + mset rest = mset cs" and "off' = off - int (length sl)"
    and "0 \<le> off \<Longrightarrow> 0 \<le> off'" and "set sl \<subseteq> dom penalty"
    and "off' > 0 \<Longrightarrow> set rest \<inter> dom penalty = {}" by auto
qed

lemma shrink_loop_eq:
  assumes "0 \<le> s"
  shows "shrink_loop s r n m = (s - min s (max 0 (n - m)), r + min s (max 0 (n - m)))"
  using assms
proof (induction s r n m rule: shrink_loop.induct)
  case (1 s r n m)
  show ?case
  proof (cases "s > 0 \<and> n > m")
    case True
    then have "min s (max 0 (n - m)) = min (s - 1) (max 0 (n - 1 - m)) + 1" by auto
    with 1 True show ?thesis by (simp add: shrink_loop.simps [of s r n m])
  next
    case False
    with 1 show ?thesis by (auto simp: shrink_loop.simps [of s r n m])
  qed
qed

text \<open>The closed form of the swap-out offset of \<^verbatim>\<open>swapRuleV2\<close>.\<close>

definition v2_offset :: "int \<Rightarrow> int \<Rightarrow> int \<Rightarrow> int \<Rightarrow> int" where
  "v2_offset subs n fixed mn =
     (let out = min (n div 6) (n - fixed); free = min out (max 0 (n - mn)) in free + min (out - free) subs)"

lemma V2_getSwapOutOffset_eq:
  assumes "0 \<le> fixed" and "fixed \<le> n" and "0 \<le> subs"
  shows "V2_getSwapOutOffset subs n fixed mn = v2_offset subs n fixed mn"
proof (cases "n div 6 = 0")
  case True
  then show ?thesis using assms by (simp add: V2_getSwapOutOffset_def v2_offset_def swap_constants Let_def)
next
  case False
  moreover have "0 \<le> min (n div 6) (n - fixed)" using assms by simp
  moreover have "(if n div 6 > n - fixed then n - fixed else n div 6) = min (n div 6) (n - fixed)" by auto
  ultimately show ?thesis using assms
    by (simp add: V2_getSwapOutOffset_def v2_offset_def swap_constants shrink_loop_eq Let_def min.commute min_def [of subs])
qed

lemma v2_offset_bounds:
  assumes "0 \<le> fixed" and "fixed \<le> n" and "0 \<le> subs"
  shows "0 \<le> v2_offset subs n fixed mn" and "v2_offset subs n fixed mn \<le> n - fixed"
    and "v2_offset subs n fixed mn \<le> n div 6"
    and "n - v2_offset subs n fixed mn + min subs (v2_offset subs n fixed mn) \<ge> min mn n"
proof -
  define out where "out = min (n div 6) (n - fixed)"
  define free where "free = min out (max 0 (n - mn))"
  define repl where "repl = min (out - free) subs"
  have v: "v2_offset subs n fixed mn = free + repl"
    by (simp add: v2_offset_def Let_def out_def free_def repl_def)
  have out: "0 \<le> out" "out \<le> n div 6" "out \<le> n - fixed" using assms by (auto simp: out_def)
  have free: "0 \<le> free" "free \<le> out" "free \<le> max 0 (n - mn)" using out by (auto simp: free_def)
  have repl: "0 \<le> repl" "repl \<le> out - free" "repl \<le> subs" using free assms by (auto simp: repl_def)
  show "0 \<le> v2_offset subs n fixed mn" and "v2_offset subs n fixed mn \<le> n - fixed"
    and "v2_offset subs n fixed mn \<le> n div 6" using v out free repl by linarith+
  have "repl \<le> min subs (v2_offset subs n fixed mn)" using v free repl by simp
  moreover have "n - free \<ge> min mn n" using free by linarith
  ultimately show "n - v2_offset subs n fixed mn + min subs (v2_offset subs n fixed mn) \<ge> min mn n"
    using v by linarith
qed

lemma V3_getMaxSlashingOffset_bounds:
  assumes "0 \<le> fixed" and "fixed \<le> n"
  shows "0 \<le> V3_getMaxSlashingOffset n fixed" and "V3_getMaxSlashingOffset n fixed \<le> n - fixed"
    and "V3_getMaxSlashingOffset n fixed \<le> n div 3"
  using assms by (auto simp: V3_getMaxSlashingOffset_def swap_constants Let_def)

lemma V3_getNormalSwapOutOffset_bounds:
  assumes "0 \<le> fixed" and "fixed + sl \<le> n" and "0 \<le> sl" and "0 \<le> subs"
  shows "0 \<le> V3_getNormalSwapOutOffset n subs sl fixed mx"
    and "V3_getNormalSwapOutOffset n subs sl fixed mx \<le> n - sl - fixed"
    and "V3_getNormalSwapOutOffset n subs sl fixed mx \<le> n div 8"
    and "V3_getNormalSwapOutOffset n subs sl fixed mx \<le> subs"
  using assms by (auto simp: V3_getNormalSwapOutOffset_def swap_constants Let_def)

lemma V3_getSwapInOffset_bounds:
  assumes "0 \<le> n" and "n \<le> mx" and "0 \<le> subs"
  shows "0 \<le> V3_getSwapInOffset n subs mx sl n0" and "V3_getSwapInOffset n subs mx sl n0 \<le> subs"
    and "n + V3_getSwapInOffset n subs mx sl n0 \<le> mx"
  using assms by (auto simp: V3_getSwapInOffset_def swap_constants Let_def)

section \<open>The contract of a swap rule\<close>

definition decodable :: "('k, 'h, 'p) codec \<Rightarrow> string list \<Rightarrow> bool" where
  "decodable cdc ks \<longleftrightarrow> (\<forall>k \<in> set ks. k \<noteq> [] \<and> FromString cdc k \<noteq> None)"

text \<open>The sizes for which the beacon chain calls a rule: the fixed validators and the minimal
  committee are part of the committee, which does not exceed its maximal size.\<close>

definition swap_sizes_ok :: "string list \<Rightarrow> int \<Rightarrow> int \<Rightarrow> int \<Rightarrow> bool" where
  "swap_sizes_ok committees mn mx fixed \<longleftrightarrow>
     0 \<le> fixed \<and> fixed \<le> int (length committees) \<and> 0 \<le> mn \<and> mn \<le> int (length committees) \<and>
     int (length committees) \<le> mx"

text \<open>What a rule promises of its result: the substitutes that enter are taken from the front of the
  queue, the committee is split without loss, only punished validators are slashed, the fixed
  validators keep their places, and the instruction announces exactly this change.\<close>

definition swap_split ::
    "string list \<Rightarrow> string list \<Rightarrow> int \<Rightarrow> (string \<rightharpoonup> Penalty) \<Rightarrow> 'k swap_result \<Rightarrow> bool" where
  "swap_split committees substitutes fixed penalty r =
     (case r of (ins, newC, newS, sl, no) \<Rightarrow>
        \<exists>kept entered. newC = kept @ entered \<and> substitutes = entered @ newS \<and>
          mset kept + mset sl + mset no = mset committees \<and>
          set sl \<subseteq> dom penalty \<and> take (nat fixed) newC = take (nat fixed) committees \<and>
          (\<forall>i. ins = Some i \<longrightarrow> ss_InPublicKeys i = entered \<and> ss_OutPublicKeys i = sl @ no))"

locale swap_rule =
  fixes process :: "('k, 'h, 'p) codec \<Rightarrow> nat \<Rightarrow> string list \<Rightarrow> string list \<Rightarrow> int \<Rightarrow> int \<Rightarrow> int \<Rightarrow> int \<Rightarrow>
      (string \<rightharpoonup> Penalty) \<Rightarrow> 'k swap_result go"
  assumes total: "swap_sizes_ok cs mn mx fixed \<Longrightarrow> decodable cdc (cs @ subs) \<Longrightarrow>
      \<exists>i newC newS sl no. process cdc sid cs subs mn mx t fixed penalty = Inr (Some i, newC, newS, sl, no)"
    and split: "process cdc sid cs subs mn mx t fixed penalty = Inr r \<Longrightarrow>
      swap_split cs subs fixed penalty r"
    and size: "swap_sizes_ok cs mn mx fixed \<Longrightarrow>
      process cdc sid cs subs mn mx t fixed penalty = Inr (ins, newC, newS, sl, no) \<Longrightarrow>
      mn \<le> int (length newC) \<and> int (length newC) \<le> mx"
begin

lemma conserves:
  assumes "process cdc sid cs subs mn mx t fixed penalty = Inr (ins, newC, newS, sl, no)"
  shows "mset newC + mset newS + mset sl + mset no = mset cs + mset subs"
  using split [OF assms] by (auto simp: swap_split_def ac_simps)

lemma keeps_distinct:
  assumes "process cdc sid cs subs mn mx t fixed penalty = Inr (ins, newC, newS, sl, no)"
    and "distinct (cs @ subs)"
  shows "distinct (newC @ newS @ sl @ no)"
proof -
  have "mset (newC @ newS @ sl @ no) = mset (cs @ subs)" using conserves [OF assms(1)] by (simp add: ac_simps)
  with assms(2) show ?thesis by (metis mset_eq_imp_distinct_iff)
qed

lemma fixed_not_out:
  assumes "process cdc sid cs subs mn mx t fixed penalty = Inr (ins, newC, newS, sl, no)"
    and "distinct (cs @ subs)"
  shows "set (take (nat fixed) cs) \<inter> set (sl @ no) = {}"
proof -
  have "set (take (nat fixed) cs) \<subseteq> set newC"
    using split [OF assms(1)] by (auto simp: swap_split_def) (metis in_set_takeD set_append Un_iff)
  with keeps_distinct [OF assms] show ?thesis by auto
qed

end

lemma KeyListToStruct_decodable:
  assumes "decodable cdc ks"
  shows "go_ok (CommitteeBase58KeyListToStruct cdc ks)"
proof -
  have "go_map (decode_key cdc) ks = Inr (map (\<lambda>k. the (FromString cdc k)) ks)"
    using assms by (intro go_map_ok) (auto simp: decodable_def decode_key_def)
  then show ?thesis by (auto simp: CommitteeBase58KeyListToStruct_def)
qed

lemma NewSwapShardInstructionWithValue_decodable:
  assumes "decodable cdc ins" and "decodable cdc outs"
  shows "\<exists>i. NewSwapShardInstructionWithValue cdc ins outs chainID t = Inr (Some i)"
  using KeyListToStruct_decodable [OF assms(1)] KeyListToStruct_decodable [OF assms(2)]
  by (auto simp: NewSwapShardInstructionWithValue_def SwapShard_SetInPublicKeys_def
      SwapShard_SetOutPublicKeys_def or_panic_def ptr_of_def go_ok_iff)

lemma NewSwapShardInstructionWithValue_keys:
  assumes "NewSwapShardInstructionWithValue cdc ins outs chainID t = Inr (Some i)"
  shows "ss_InPublicKeys i = ins" and "ss_OutPublicKeys i = outs"
  using assms
  by (auto simp: NewSwapShardInstructionWithValue_def SwapShard_SetInPublicKeys_def
      SwapShard_SetOutPublicKeys_def or_panic_def ptr_of_def split: sum.splits)

lemma decodable_append [simp]: "decodable cdc (xs @ ys) \<longleftrightarrow> decodable cdc xs \<and> decodable cdc ys"
  by (auto simp: decodable_def)

lemma decodable_subset: "decodable cdc xs \<Longrightarrow> set ys \<subseteq> set xs \<Longrightarrow> decodable cdc ys"
  by (auto simp: decodable_def)

lemma empty_swap_instruction_keys [simp]:
  "ss_InPublicKeys (NewSwapShardInstructionWithShardID i) = []"
  "ss_OutPublicKeys (NewSwapShardInstructionWithShardID i) = []"
  "ss_InPublicKeys NewSwapShardInstruction = []"
  "ss_OutPublicKeys NewSwapShardInstruction = []"
  by (simp_all add: NewSwapShardInstructionWithShardID_def NewSwapShardInstruction_def)

section \<open>swapRuleV2 meets the contract\<close>

lemma V2_slashingSwapOut_spec:
  assumes "0 \<le> fixed" and "fixed \<le> int (length cs)"
  shows "\<exists>rest sl no. V2_slashingSwapOut cs subs penalty mn fixed = Inr (take (nat fixed) cs @ rest, sl, no) \<and>
    mset rest + mset sl + mset no = mset (drop (nat fixed) cs) \<and> set sl \<subseteq> dom penalty \<and>
    int (length sl + length no) = v2_offset (int (length subs)) (int (length cs)) fixed mn"
proof (cases "int (length cs) = fixed")
  case True
  have "v2_offset (int (length subs)) fixed fixed mn = 0"
    using assms v2_offset_bounds(1,2) [of fixed fixed "int (length subs)" mn] by simp
  with True show ?thesis by (auto simp: V2_slashingSwapOut_def)
next
  case False
  let ?off = "v2_offset (int (length subs)) (int (length cs)) fixed mn"
  note b = v2_offset_bounds [OF assms, of "int (length subs)" mn, simplified]
  obtain sl rest off' where l: "slash_loop penalty ?off (drop (nat fixed) cs) = (sl, rest, off')"
    by (metis prod_cases3)
  note p = slash_loop_props [OF l]
  have "length sl + length rest = length cs - nat fixed"
    using arg_cong [OF p(1), of size] by simp
  then have r: "0 \<le> off'" "off' \<le> int (length rest)" using p(2,3) b assms by linarith+
  have eq: "V2_slashingSwapOut cs subs penalty mn fixed =
      Inr (take (nat fixed) cs @ drop (nat off') rest, sl, take (nat off') rest)"
    using False assms l r
    by (simp add: V2_slashingSwapOut_def V2_getSwapOutOffset_eq slice_to_def slice_from_def)
  have "mset (drop (nat off') rest) + mset sl + mset (take (nat off') rest) = mset (drop (nat fixed) cs)"
    using p(1) mset_take_drop [of "nat off'" rest] by (simp add: ac_simps)
  moreover have "int (length sl + length (take (nat off') rest)) = ?off" using p(2) r by simp
  ultimately show ?thesis using eq p(4) by blast
qed

lemma V2_slashingSwapOut_range:
  assumes "V2_slashingSwapOut cs subs penalty mn fixed = Inr x"
  shows "0 \<le> fixed \<and> fixed \<le> int (length cs)"
  using assms by (auto simp: V2_slashingSwapOut_def split: if_splits)

lemma V2_swapInAfterSwapOut_spec:
  assumes "int (length cs) \<le> mx"
  shows "V2_swapInAfterSwapOut cs subs mx =
    (let v = nat (min (mx - int (length cs)) (int (length subs)))
     in Inr (cs @ take v subs, drop v subs, take v subs))"
  using assms by (simp add: V2_swapInAfterSwapOut_def slice_to_def slice_from_def min_def Let_def)

lemma V2_swapInAfterSwapOut_range:
  assumes "V2_swapInAfterSwapOut cs subs mx = Inr x"
  shows "int (length cs) \<le> mx"
  using assms by (auto simp: V2_swapInAfterSwapOut_def Let_def split: if_splits)

text \<open>How both rules end: the instruction is the empty one when nothing changes.\<close>

definition announce :: "('k, 'h, 'p) codec \<Rightarrow> 'k SwapShardInstruction \<Rightarrow> string list \<Rightarrow> string list \<Rightarrow> int \<Rightarrow> int \<Rightarrow>
    'k SwapShardInstruction option go" where
  "announce cdc blank entered outs chainID t =
     (if length entered = 0 \<and> length outs = 0 then Inr (Some blank)
      else NewSwapShardInstructionWithValue cdc entered outs chainID t)"

lemma announce_keys:
  assumes "announce cdc blank entered outs chainID t = Inr (Some i)"
    and "ss_InPublicKeys blank = []" and "ss_OutPublicKeys blank = []"
  shows "ss_InPublicKeys i = entered \<and> ss_OutPublicKeys i = outs"
  using assms NewSwapShardInstructionWithValue_keys
  by (auto simp: announce_def split: if_splits)

lemma announce_decodable:
  assumes "decodable cdc entered" and "decodable cdc outs"
  shows "\<exists>i. announce cdc blank entered outs chainID t = Inr (Some i)"
  using NewSwapShardInstructionWithValue_decodable [OF assms] by (simp add: announce_def)

lemma V2_Process_eq:
  "V2_Process cdc sid cs subs mn mx t fixed penalty =
     go_bind (V2_slashingSwapOut cs subs penalty mn fixed) (\<lambda>(cs1, sl, no).
     go_bind (V2_swapInAfterSwapOut cs1 subs mx) (\<lambda>(newC, newS, entered).
     go_bind (announce cdc NewSwapShardInstruction entered (sl @ no) (int sid) t) (\<lambda>ins.
       Inr (ins, newC, newS, sl, no))))"
  by (simp add: V2_Process_def announce_def Let_def go_bind_if_Inr)

lemma V2_Process_split:
  assumes "V2_Process cdc sid cs subs mn mx t fixed penalty = Inr r"
  shows "swap_split cs subs fixed penalty r"
proof -
  from assms obtain cs1 sl no newC newS entered ins where
    1: "V2_slashingSwapOut cs subs penalty mn fixed = Inr (cs1, sl, no)" and
    2: "V2_swapInAfterSwapOut cs1 subs mx = Inr (newC, newS, entered)" and
    3: "announce cdc NewSwapShardInstruction entered (sl @ no) (int sid) t = Inr ins" and
    r: "r = (ins, newC, newS, sl, no)"
    by (auto simp: V2_Process_eq)
  note range = V2_slashingSwapOut_range [OF 1]
  with V2_slashingSwapOut_spec [of fixed cs subs penalty mn] 1 obtain rest where
    cs1: "cs1 = take (nat fixed) cs @ rest" and
    ms: "mset rest + mset sl + mset no = mset (drop (nat fixed) cs)" and sl: "set sl \<subseteq> dom penalty"
    by auto
  from 2 V2_swapInAfterSwapOut_spec [OF V2_swapInAfterSwapOut_range [OF 2]] have
    e: "newC = cs1 @ entered" "subs = entered @ newS" by (auto simp: Let_def)
  have "mset cs1 + mset sl + mset no = mset cs"
    using ms mset_take_drop [of "nat fixed" cs] by (simp add: cs1 add.assoc)
  moreover have "nat fixed \<le> length cs" using range by linarith
  then have "take (nat fixed) newC = take (nat fixed) cs" by (simp add: e cs1 min_def)
  ultimately show ?thesis using e sl announce_keys [of cdc NewSwapShardInstruction] 3
    by (auto simp: swap_split_def r)
qed

lemma V2_Process_size:
  assumes "swap_sizes_ok cs mn mx fixed"
    and "V2_Process cdc sid cs subs mn mx t fixed penalty = Inr (ins, newC, newS, sl, no)"
  shows "mn \<le> int (length newC) \<and> int (length newC) \<le> mx"
    and "int (length sl + length no) \<le> int (length cs) div 6"
proof -
  let ?n = "int (length cs)" and ?subs = "int (length subs)"
  from assms(2) obtain cs1 entered where
    1: "V2_slashingSwapOut cs subs penalty mn fixed = Inr (cs1, sl, no)" and
    2: "V2_swapInAfterSwapOut cs1 subs mx = Inr (newC, newS, entered)"
    by (auto simp: V2_Process_eq)
  note range = V2_slashingSwapOut_range [OF 1]
  with V2_slashingSwapOut_spec [of fixed cs subs penalty mn] 1 obtain rest where
    cs1: "cs1 = take (nat fixed) cs @ rest" and
    ms: "mset rest + mset sl + mset no = mset (drop (nat fixed) cs)" and
    off: "int (length sl + length no) = v2_offset ?subs ?n fixed mn"
    by auto
  have "length rest + length sl + length no = length cs - nat fixed" using arg_cong [OF ms, of size] by simp
  then have "int (length rest) + int (length sl + length no) = ?n - fixed" using range by linarith
  then have len: "int (length cs1) = ?n - int (length sl + length no)" using range by (auto simp: cs1)
  have new: "int (length newC) = int (length cs1) + min (mx - int (length cs1)) ?subs"
    using 2 V2_swapInAfterSwapOut_spec [OF V2_swapInAfterSwapOut_range [OF 2]] V2_swapInAfterSwapOut_range [OF 2]
    by (auto simp: Let_def)
  note b = v2_offset_bounds [of fixed ?n ?subs mn]
  have sizes: "0 \<le> fixed" "fixed \<le> ?n" "mn \<le> ?n" "?n \<le> mx" using assms(1) by (auto simp: swap_sizes_ok_def)
  then show "mn \<le> int (length newC) \<and> int (length newC) \<le> mx"
    using b off len new by (auto simp: min_def split: if_splits)
  show "int (length sl + length no) \<le> ?n div 6" using b sizes off by simp
qed

lemma V2_Process_total:
  assumes "swap_sizes_ok cs mn mx fixed" and "decodable cdc (cs @ subs)"
  shows "\<exists>i newC newS sl no. V2_Process cdc sid cs subs mn mx t fixed penalty = Inr (Some i, newC, newS, sl, no)"
proof -
  have range: "0 \<le> fixed" "fixed \<le> int (length cs)" "int (length cs) \<le> mx"
    using assms(1) by (auto simp: swap_sizes_ok_def)
  from V2_slashingSwapOut_spec [OF range(1,2), of subs penalty mn] obtain cs1 rest sl no where
    1: "V2_slashingSwapOut cs subs penalty mn fixed = Inr (cs1, sl, no)" and
    cs1: "cs1 = take (nat fixed) cs @ rest" and
    ms: "mset rest + mset sl + mset no = mset (drop (nat fixed) cs)"
    by auto
  have "length rest \<le> length cs - nat fixed" using arg_cong [OF ms, of size] by simp
  then have 2: "int (length cs1) \<le> mx" using range by (auto simp: cs1)
  have "set (sl @ no) \<subseteq> set cs"
    using arg_cong [OF ms, of set_mset] set_drop_subset [of "nat fixed" cs] by auto
  then have d: "decodable cdc (sl @ no)" using assms(2) decodable_subset by fastforce
  define v where "v = nat (min (mx - int (length cs1)) (int (length subs)))"
  have "decodable cdc (take v subs)" using assms(2) by (auto intro: decodable_subset dest: in_set_takeD)
  from announce_decodable [OF this d] obtain i where
    "announce cdc NewSwapShardInstruction (take v subs) (sl @ no) (int sid) t = Inr (Some i)" by blast
  then show ?thesis using 1 V2_swapInAfterSwapOut_spec [OF 2, of subs, folded v_def]
    by (simp add: V2_Process_eq)
qed

interpretation v2: swap_rule V2_Process
  by unfold_locales (fact V2_Process_total, fact V2_Process_split, fact V2_Process_size(1))

section \<open>swapRuleV3 meets the contract\<close>

lemma V3_slashingSwapOut_spec:
  assumes "0 \<le> m" and "m \<le> int (length cs)"
  shows "\<exists>rest sl. V3_slashingSwapOut cs penalty m = Inr (take (nat m) cs @ rest, sl) \<and>
    mset rest + mset sl = mset (drop (nat m) cs) \<and> set sl \<subseteq> dom penalty \<and>
    int (length sl) \<le> V3_getMaxSlashingOffset (int (length cs)) m"
proof -
  let ?off = "V3_getMaxSlashingOffset (int (length cs)) m"
  obtain sl rest off' where l: "slash_loop penalty ?off (drop (nat m) cs) = (sl, rest, off')"
    by (metis prod_cases3)
  note p = slash_loop_props [OF l]
  have "V3_slashingSwapOut cs penalty m = Inr (take (nat m) cs @ rest, sl)"
    using assms l by (simp add: V3_slashingSwapOut_def slice_to_def slice_from_def)
  moreover have "int (length sl) \<le> ?off" using p(2,3) V3_getMaxSlashingOffset_bounds [OF assms] by linarith
  ultimately show ?thesis using p(1,4) by (auto simp: ac_simps)
qed

lemma V3_slashingSwapOut_range:
  assumes "V3_slashingSwapOut cs penalty m = Inr x"
  shows "0 \<le> m \<and> m \<le> int (length cs)"
  using assms by (auto simp: V3_slashingSwapOut_def)

lemma V3_normalSwapOut_spec:
  assumes "m = int (length front)" and "int (length (front @ rest)) = n - sl" and "0 \<le> sl"
  shows "\<exists>off. V3_normalSwapOut (front @ rest) subs n sl m mx = Inr (front @ drop off rest, take off rest) \<and>
    off \<le> length rest \<and> int off \<le> n div 8 \<and> off \<le> length subs"
proof -
  define k where "k = V3_getNormalSwapOutOffset n (int (length subs)) sl m mx"
  have k: "0 \<le> k" "k \<le> n - sl - m" "k \<le> n div 8" "k \<le> int (length subs)"
    using V3_getNormalSwapOutOffset_bounds [of m sl n "int (length subs)" mx] assms by (auto simp: k_def)
  then have kr: "k \<le> int (length rest)" using assms by auto
  have "nat (m + k) = length front + nat k" using k assms(1) by (simp add: nat_add_distrib)
  then have "V3_normalSwapOut (front @ rest) subs n sl m mx = Inr (front @ drop (nat k) rest, take (nat k) rest)"
    unfolding V3_normalSwapOut_def k_def [symmetric] Let_def using assms(1) k kr
    by (simp add: slice_to_def slice_from_def go_slice_def)
  then show ?thesis using k kr by (intro exI [of _ "nat k"]) auto
qed

lemma V3_swapInAfterSwapOut_spec:
  assumes "int (length cs) \<le> mx"
  shows "\<exists>v. V3_swapInAfterSwapOut cs subs mx sl n0 = Inr (cs @ take v subs, drop v subs, take v subs) \<and>
    int (length cs) + int (length (take v subs)) \<le> mx"
proof -
  define k where "k = V3_getSwapInOffset (int (length cs)) (int (length subs)) mx sl n0"
  have k: "0 \<le> k" "k \<le> int (length subs)" "int (length cs) + k \<le> mx"
    using V3_getSwapInOffset_bounds [of "int (length cs)" mx "int (length subs)" sl n0] assms by (auto simp: k_def)
  then have "V3_swapInAfterSwapOut cs subs mx sl n0 = Inr (cs @ take (nat k) subs, drop (nat k) subs, take (nat k) subs)"
    by (simp add: V3_swapInAfterSwapOut_def k_def [symmetric] slice_to_def slice_from_def Let_def)
  then show ?thesis using k by (intro exI [of _ "nat k"]) auto
qed

lemma V3_swapInAfterSwapOut_lists:
  assumes "V3_swapInAfterSwapOut cs subs mx sl n0 = Inr (newC, newS, entered)"
  shows "newC = cs @ entered \<and> subs = entered @ newS"
  using assms by (auto simp: V3_swapInAfterSwapOut_def Let_def)

definition v3_min :: "int \<Rightarrow> int \<Rightarrow> int" where
  "v3_min fixed mn = (if fixed < mn then mn else fixed)"

lemma V3_Process_eq:
  "V3_Process cdc sid cs subs mn mx t fixed penalty =
     go_bind (V3_slashingSwapOut cs penalty (v3_min fixed mn)) (\<lambda>(cs1, sl).
     go_bind (V3_normalSwapOut cs1 subs (int (length cs)) (int (length sl)) (v3_min fixed mn) mx) (\<lambda>(cs2, no).
     go_bind (V3_swapInAfterSwapOut cs2 subs mx (int (length sl)) (int (length cs))) (\<lambda>(newC, newS, entered).
     go_bind (announce cdc (NewSwapShardInstructionWithShardID (int sid)) entered (sl @ no) (int sid) t) (\<lambda>ins.
       Inr (ins, newC, newS, sl, no)))))"
  by (simp add: V3_Process_def announce_def v3_min_def Let_def go_bind_if_Inr)

text \<open>The two swap-out steps together, from the success of the first.\<close>

lemma V3_swap_out_spec:
  assumes "0 \<le> m" and "m \<le> int (length cs)"
  shows "\<exists>rest sl no. V3_slashingSwapOut cs penalty m = Inr (take (nat m) cs @ no @ rest, sl) \<and>
    V3_normalSwapOut (take (nat m) cs @ no @ rest) subs (int (length cs)) (int (length sl)) m mx =
      Inr (take (nat m) cs @ rest, no) \<and>
    mset rest + mset sl + mset no = mset (drop (nat m) cs) \<and> set sl \<subseteq> dom penalty \<and>
    int (length sl) \<le> int (length cs) div 3 \<and> int (length no) \<le> int (length cs) div 8"
proof -
  from V3_slashingSwapOut_spec [OF assms, of penalty] obtain flex sl where
    1: "V3_slashingSwapOut cs penalty m = Inr (take (nat m) cs @ flex, sl)" and
    ms: "mset flex + mset sl = mset (drop (nat m) cs)" and
    sl: "set sl \<subseteq> dom penalty" "int (length sl) \<le> V3_getMaxSlashingOffset (int (length cs)) m"
    by auto
  have m: "m = int (length (take (nat m) cs))" using assms by simp
  have "length flex + length sl = length cs - nat m" using arg_cong [OF ms, of size] by simp
  then have len: "int (length (take (nat m) cs @ flex)) = int (length cs) - int (length sl)"
    using assms by auto
  from V3_normalSwapOut_spec [OF m len, of subs mx] obtain off where
    2: "V3_normalSwapOut (take (nat m) cs @ flex) subs (int (length cs)) (int (length sl)) m mx =
      Inr (take (nat m) cs @ drop off flex, take off flex)" and
    off: "off \<le> length flex" "int off \<le> int (length cs) div 8"
    by auto
  have "mset (drop off flex) + mset sl + mset (take off flex) = mset (drop (nat m) cs)"
    using ms mset_take_drop [of off flex] by (simp add: ac_simps)
  then show ?thesis using 1 2 sl off V3_getMaxSlashingOffset_bounds(3) [OF assms]
    by (intro exI [of _ "drop off flex"] exI [of _ sl] exI [of _ "take off flex"]) auto
qed

lemma V3_Process_cases:
  assumes "V3_Process cdc sid cs subs mn mx t fixed penalty = Inr (ins, newC, newS, sl, no)"
  obtains rest entered where "0 \<le> v3_min fixed mn" and "v3_min fixed mn \<le> int (length cs)"
    and "newC = take (nat (v3_min fixed mn)) cs @ rest @ entered" and "subs = entered @ newS"
    and "mset rest + mset sl + mset no = mset (drop (nat (v3_min fixed mn)) cs)" and "set sl \<subseteq> dom penalty"
    and "int (length sl) \<le> int (length cs) div 3" and "int (length no) \<le> int (length cs) div 8"
    and "announce cdc (NewSwapShardInstructionWithShardID (int sid)) entered (sl @ no) (int sid) t = Inr ins"
    and "V3_swapInAfterSwapOut (take (nat (v3_min fixed mn)) cs @ rest) subs mx (int (length sl)) (int (length cs)) =
      Inr (newC, newS, entered)"
proof -
  let ?m = "v3_min fixed mn"
  from assms obtain cs1 cs2 entered where
    1: "V3_slashingSwapOut cs penalty ?m = Inr (cs1, sl)" and
    2: "V3_normalSwapOut cs1 subs (int (length cs)) (int (length sl)) ?m mx = Inr (cs2, no)" and
    3: "V3_swapInAfterSwapOut cs2 subs mx (int (length sl)) (int (length cs)) = Inr (newC, newS, entered)" and
    4: "announce cdc (NewSwapShardInstructionWithShardID (int sid)) entered (sl @ no) (int sid) t = Inr ins"
    by (auto simp: V3_Process_eq)
  have m: "0 \<le> ?m" "?m \<le> int (length cs)" using V3_slashingSwapOut_range [OF 1] by auto
  from V3_swap_out_spec [OF m, of penalty subs mx] 1 2 obtain rest where
    "cs2 = take (nat ?m) cs @ rest" "mset rest + mset sl + mset no = mset (drop (nat ?m) cs)"
    "set sl \<subseteq> dom penalty" "int (length sl) \<le> int (length cs) div 3" "int (length no) \<le> int (length cs) div 8"
    by auto
  with that m 3 4 V3_swapInAfterSwapOut_lists [OF 3] show thesis by auto
qed

lemma V3_Process_split:
  assumes "V3_Process cdc sid cs subs mn mx t fixed penalty = Inr r"
  shows "swap_split cs subs fixed penalty r"
proof -
  obtain ins newC newS sl no where r: "r = (ins, newC, newS, sl, no)" by (metis prod_cases5)
  let ?m = "v3_min fixed mn"
  from assms [unfolded r] obtain rest entered where m: "0 \<le> ?m" "?m \<le> int (length cs)" and
    e: "newC = take (nat ?m) cs @ rest @ entered" "subs = entered @ newS" and
    ms: "mset rest + mset sl + mset no = mset (drop (nat ?m) cs)" and sl: "set sl \<subseteq> dom penalty" and
    a: "announce cdc (NewSwapShardInstructionWithShardID (int sid)) entered (sl @ no) (int sid) t = Inr ins"
    by (rule V3_Process_cases)
  have "mset (take (nat ?m) cs @ rest) + mset sl + mset no = mset cs"
    using ms mset_take_drop [of "nat ?m" cs] by (simp add: add.assoc)
  moreover have "nat fixed \<le> nat ?m" "nat ?m \<le> length cs" using m by (auto simp: v3_min_def)
  then have "take (nat fixed) newC = take (nat fixed) cs" by (simp add: e min_def)
  moreover have "\<forall>i. ins = Some i \<longrightarrow> ss_InPublicKeys i = entered \<and> ss_OutPublicKeys i = sl @ no"
    using a announce_keys by fastforce
  ultimately show ?thesis using e sl unfolding swap_split_def r
    by (simp add: exI [of _ "take (nat ?m) cs @ rest"])
qed

lemma V3_Process_size:
  assumes "swap_sizes_ok cs mn mx fixed"
    and "V3_Process cdc sid cs subs mn mx t fixed penalty = Inr (ins, newC, newS, sl, no)"
  shows "mn \<le> int (length newC) \<and> int (length newC) \<le> mx"
proof -
  let ?m = "v3_min fixed mn"
  from assms(2) obtain rest entered where m: "0 \<le> ?m" "?m \<le> int (length cs)" and
    e: "newC = take (nat ?m) cs @ rest @ entered" and
    ms: "mset rest + mset sl + mset no = mset (drop (nat ?m) cs)" and
    i: "V3_swapInAfterSwapOut (take (nat ?m) cs @ rest) subs mx (int (length sl)) (int (length cs)) =
      Inr (newC, newS, entered)"
    by (rule V3_Process_cases)
  have "length rest \<le> length cs - nat ?m" using arg_cong [OF ms, of size] by simp
  then have "int (length (take (nat ?m) cs @ rest)) \<le> mx" using assms(1) m by (auto simp: swap_sizes_ok_def)
  from V3_swapInAfterSwapOut_spec [OF this, of subs "int (length sl)" "int (length cs)"] i
  have "int (length newC) \<le> mx" by auto
  moreover have "mn \<le> ?m" by (simp add: v3_min_def)
  then have "mn \<le> int (length newC)" using m by (simp add: e)
  ultimately show ?thesis by simp
qed

lemma V3_Process_total:
  assumes "swap_sizes_ok cs mn mx fixed" and "decodable cdc (cs @ subs)"
  shows "\<exists>i newC newS sl no. V3_Process cdc sid cs subs mn mx t fixed penalty = Inr (Some i, newC, newS, sl, no)"
proof -
  let ?m = "v3_min fixed mn"
  have m: "0 \<le> ?m" "?m \<le> int (length cs)" and mx: "int (length cs) \<le> mx"
    using assms(1) by (auto simp: swap_sizes_ok_def v3_min_def)
  from V3_swap_out_spec [OF m, of penalty subs mx] obtain cs1 rest sl no where
    1: "V3_slashingSwapOut cs penalty ?m = Inr (cs1, sl)" and
    2: "V3_normalSwapOut cs1 subs (int (length cs)) (int (length sl)) ?m mx = Inr (take (nat ?m) cs @ rest, no)" and
    ms: "mset rest + mset sl + mset no = mset (drop (nat ?m) cs)"
    by blast
  have "length rest \<le> length cs - nat ?m" using arg_cong [OF ms, of size] by simp
  then have "int (length (take (nat ?m) cs @ rest)) \<le> mx" using m mx by auto
  from V3_swapInAfterSwapOut_spec [OF this, of subs "int (length sl)" "int (length cs)"] obtain v where
    3: "V3_swapInAfterSwapOut (take (nat ?m) cs @ rest) subs mx (int (length sl)) (int (length cs)) =
      Inr ((take (nat ?m) cs @ rest) @ take v subs, drop v subs, take v subs)" by blast
  have "set (sl @ no) \<subseteq> set cs"
    using arg_cong [OF ms, of set_mset] set_drop_subset [of "nat ?m" cs] by auto
  then have d: "decodable cdc (sl @ no)" using assms(2) decodable_subset by fastforce
  have "decodable cdc (take v subs)" using assms(2) by (auto intro: decodable_subset dest: in_set_takeD)
  from announce_decodable [OF this d] 1 2 3 show ?thesis by (auto simp: V3_Process_eq)
qed

interpretation v3: swap_rule V3_Process
  by unfold_locales (fact V3_Process_total, fact V3_Process_split, fact V3_Process_size)

text \<open>The interface value dispatches to one of the two rules, so it meets the contract as well.\<close>

interpretation rule: swap_rule "SwapRule_Process v" for v
proof (cases v)
  case swapRuleV2
  then show "swap_rule (SwapRule_Process v)" using v2.swap_rule_axioms by simp
next
  case swapRuleV3
  then show "swap_rule (SwapRule_Process v)" using v3.swap_rule_axioms by simp
qed

section \<open>Properties of the swap rules\<close>

text \<open>C7. No swap rule loses or duplicates a validator: new committee, new substitutes, slashed and rotated
  validators are together the old committee and the old substitutes, with multiplicity.\<close>

theorem swap_conserves_validators:
  assumes "SwapRule_Process v cdc shardID committees substitutes mn mx t fixed penalty =
      Inr (ins, newCommittees, newSubstitutes, slashed, normal)"
  shows "mset newCommittees + mset newSubstitutes + mset slashed + mset normal = mset committees + mset substitutes"
  using assms by (rule rule.conserves)

definition toy_keys :: "(string, string, string) codec" where
  "toy_keys = \<lparr>FromString = Some, NewHashFromStr = Some, Base58CheckDeserialize = Some\<rparr>"

definition toy_committee :: "string list" where
  "toy_committee = [''c0'', ''c1'', ''c2'', ''c3'', ''c4'', ''c5'', ''c6'', ''c7'']"

definition toy_penalty :: "string \<rightharpoonup> Penalty" where
  "toy_penalty = [''c5'' \<mapsto> \<lparr>MinPercent = 50, Time = 0, ForceUnstake = True\<rparr>,
     ''c0'' \<mapsto> \<lparr>MinPercent = 50, Time = 0, ForceUnstake = True\<rparr>]"

lemma toy_swap_result:
  "SwapRule_Process swapRuleV3 toy_keys 2 toy_committee [''s0'', ''s1''] 4 8 0 4 toy_penalty =
     Inr (Some \<lparr>ss_InPublicKeys = [''s0''], ss_InPublicKeyStructs = [''s0''], ss_OutPublicKeys = [''c5''],
       ss_OutPublicKeyStructs = [''c5''], ss_ChainID = 2, ss_Type = 0\<rparr>,
       [''c0'', ''c1'', ''c2'', ''c3'', ''c4'', ''c6'', ''c7'', ''s0''], [''s1''], [''c5''], [])"
  by (simp add: V3_Process_eq v3_min_def toy_committee_def toy_penalty_def toy_keys_def V3_slashingSwapOut_def
      V3_normalSwapOut_def V3_swapInAfterSwapOut_def V3_getMaxSlashingOffset_def V3_getNormalSwapOutOffset_def
      V3_getSwapInOffset_def swap_constants slice_to_def slice_from_def go_slice_def Let_def announce_def
      NewSwapShardInstructionWithValue_def NewSwapShardInstructionWithShardID_def SwapShard_SetInPublicKeys_def
      SwapShard_SetOutPublicKeys_def or_panic_def ptr_of_def CommitteeBase58KeyListToStruct_def decode_key_def)

theorem swap_conserves_validators_witness:
  "mset [''c0'', ''c1'', ''c2'', ''c3'', ''c4'', ''c6'', ''c7'', ''s0''] + mset [''s1''] + mset [''c5''] + mset [] =
     mset toy_committee + mset [''s0'', ''s1'']"
  by (rule swap_conserves_validators [OF toy_swap_result])

text \<open>C8. When the committee holds at least the fixed and the minimal number of validators and at most the maximal
  one, and all keys decode, both rules return (no panic, a non-nil instruction) and the new committee
  is again between the minimal and the maximal size.\<close>

theorem swap_total_and_sized:
  assumes "swap_sizes_ok committees mn mx fixed" and "decodable cdc (committees @ substitutes)"
  shows "\<exists>i newC newS sl no.
    SwapRule_Process v cdc shardID committees substitutes mn mx t fixed penalty = Inr (Some i, newC, newS, sl, no) \<and>
    mn \<le> int (length newC) \<and> int (length newC) \<le> mx"
proof -
  from rule.total [OF assms] obtain i newC newS sl no where
    *: "SwapRule_Process v cdc shardID committees substitutes mn mx t fixed penalty = Inr (Some i, newC, newS, sl, no)"
    by blast
  from rule.size [OF assms(1) *] * show ?thesis by blast
qed

theorem swap_total_and_sized_witness:
  "\<exists>i newC newS sl no.
    SwapRule_Process swapRuleV2 toy_keys 2 toy_committee [''s0'', ''s1''] 4 8 0 4 toy_penalty =
      Inr (Some i, newC, newS, sl, no) \<and> 4 \<le> int (length newC) \<and> int (length newC) \<le> 8"
  by (rule swap_total_and_sized) (simp_all add: swap_sizes_ok_def toy_committee_def decodable_def toy_keys_def)

text \<open>Swapping is fair: the fixed validators stay at the front of the committee and are never swapped out, only
  punished validators are slashed, substitutes enter in queue order, and the instruction announces
  exactly the validators that entered and left.\<close>

theorem swap_respects_roles:
  assumes "SwapRule_Process v cdc shardID committees substitutes mn mx t fixed penalty =
      Inr (Some i, newC, newS, slashed, normal)"
    and "distinct (committees @ substitutes)"
  shows "take (nat fixed) newC = take (nat fixed) committees \<and>
    set (take (nat fixed) committees) \<inter> set (slashed @ normal) = {} \<and>
    set slashed \<subseteq> dom penalty \<and> substitutes = ss_InPublicKeys i @ newS \<and>
    ss_OutPublicKeys i = slashed @ normal \<and>
    set newC = (set committees - set (ss_OutPublicKeys i)) \<union> set (ss_InPublicKeys i)"
proof -
  from rule.split [OF assms(1)] obtain kept where newC: "newC = kept @ ss_InPublicKeys i" and
    subs: "substitutes = ss_InPublicKeys i @ newS" and ms: "mset kept + mset slashed + mset normal = mset committees" and
    out: "ss_OutPublicKeys i = slashed @ normal" and fixed: "take (nat fixed) newC = take (nat fixed) committees"
    "set slashed \<subseteq> dom penalty"
    by (auto simp: swap_split_def)
  have "mset (kept @ slashed @ normal) = mset committees" using ms by (simp add: add.assoc)
  then have "set committees = set kept \<union> set slashed \<union> set normal" and "distinct (kept @ slashed @ normal)"
    using assms(2) by (metis set_mset_mset set_append Un_assoc, metis distinct_append mset_eq_imp_distinct_iff)
  then have "set newC = (set committees - set (ss_OutPublicKeys i)) \<union> set (ss_InPublicKeys i)"
    by (auto simp: newC out)
  with subs out fixed rule.fixed_not_out [OF assms] show ?thesis by blast
qed

theorem swap_respects_roles_witness:
  "set [''c0'', ''c1'', ''c2'', ''c3'', ''c4'', ''c6'', ''c7'', ''s0''] =
     (set toy_committee - {''c5''}) \<union> {''s0''}"
  using swap_respects_roles [OF toy_swap_result] by (simp add: toy_committee_def)

text \<open>A swap leaves a large part of the committee in place: the slashing rule removes at most a sixth of it, the
  dynamic rule slashes at most a third and rotates at most an eighth.\<close>

theorem swap_out_bounded:
  assumes "swap_sizes_ok committees mn mx fixed"
    and "SwapRule_Process v cdc shardID committees substitutes mn mx t fixed penalty =
      Inr (ins, newC, newS, slashed, normal)"
  shows "case v of
      swapRuleV2 \<Rightarrow> 6 * (length slashed + length normal) \<le> length committees
    | swapRuleV3 \<Rightarrow> 3 * length slashed \<le> length committees \<and> 8 * length normal \<le> length committees"
proof (cases v)
  case swapRuleV2
  from V2_Process_size(2) [OF assms(1), of cdc shardID substitutes t penalty ins newC newS slashed normal] assms(2)
  have "int (length slashed + length normal) \<le> int (length committees) div 6" by (simp add: swapRuleV2)
  then show ?thesis by (simp add: swapRuleV2)
next
  case swapRuleV3
  with assms(2) have "V3_Process cdc shardID committees substitutes mn mx t fixed penalty =
      Inr (ins, newC, newS, slashed, normal)" by simp
  then obtain rest entered where "int (length slashed) \<le> int (length committees) div 3"
    and "int (length normal) \<le> int (length committees) div 8" by (rule V3_Process_cases)
  then show ?thesis by (simp add: swapRuleV3) arith
qed

theorem swap_out_bounded_witness: "3 * length [''c5''] \<le> length toy_committee"
  using swap_out_bounded [OF _ toy_swap_result] by (simp add: swap_sizes_ok_def toy_committee_def)

end
