(* ===== verification/Assign_Rules.thy ===== *)
theory Assign_Rules
  imports Go_Strings Signature_Counter
begin

text \<open>
  The assign rules of \<^verbatim>\<open>src/blockchain/committeestate/consensus_assign_rule.go\<close> and the candidate
  assignment of \<^verbatim>\<open>consensus_swap_rule_v1.go\<close>: how the candidates of the common pool are spread
  over the shards. Three library calls are parameters: \<^verbatim>\<open>common.HashB\<close> (bytes of a hash), the
  pseudo-random \<^verbatim>\<open>rand.Intn\<close> after \<^verbatim>\<open>rand.Seed\<close> (as a function of the seed and the number of the
  draw), and \<^verbatim>\<open>sort.Slice\<close>, which is not stable and of which only the documented contract is used.
  The contract of a rule is the locale \<open>assign_rule\<close>: every candidate is assigned to exactly one
  existing shard, and candidates keep their order within a shard.
\<close>

section \<open>Appending candidates to shards\<close>

text \<open>\<^verbatim>\<open>m[shardID] = append(m[shardID], candidate)\<close> for a \<^verbatim>\<open>map[byte][]string\<close>.\<close>

definition shard_append :: "(nat \<rightharpoonup> 'a list) \<Rightarrow> nat \<Rightarrow> 'a \<Rightarrow> (nat \<rightharpoonup> 'a list)" where
  "shard_append m shardID c = m(shardID \<mapsto> map_slice m shardID @ [c])"

section \<open>Sorting shard ids\<close>

definition sort_slice_contract :: "((nat \<times> int) list \<Rightarrow> (nat \<times> int) list) \<Rightarrow> bool" where
  "sort_slice_contract srt \<longleftrightarrow> (\<forall>xs. mset (srt xs) = mset xs \<and> sorted (map snd (srt xs)))"

definition sortShardIDByIncreaseOrder :: "((nat \<times> int) list \<Rightarrow> (nat \<times> int) list) \<Rightarrow> int list \<Rightarrow> nat list" where
  "sortShardIDByIncreaseOrder srt arr = map fst (srt (zip (map (\<lambda>i. i mod 256) [0..<length arr]) arr))"

definition getShardIDPositionFromArray :: "nat list \<Rightarrow> nat \<rightharpoonup> nat" where
  "getShardIDPositionFromArray arr = foldl (\<lambda>m (i, v). m(v \<mapsto> i mod 256)) Map.empty (zip [0..<length arr] arr)"

text \<open>Reading an absent key of a \<^verbatim>\<open>map[byte]byte\<close> gives 0.\<close>

definition map_byte :: "('k \<rightharpoonup> nat) \<Rightarrow> 'k \<Rightarrow> nat" where
  "map_byte m k = (case m k of None \<Rightarrow> 0 | Some v \<Rightarrow> v)"

section \<open>AssignRuleV2\<close>

definition calculateCandidatePosition :: "(string \<Rightarrow> nat list) \<Rightarrow> string \<Rightarrow> int \<Rightarrow> int \<Rightarrow> int go" where
  "calculateCandidatePosition HashB candidate randomNumber totalV =
     (if totalV = 0 then Inl GoPanic
      else let data = int (sum_list (HashB (candidate @ go_itoa randomNumber)));
               pos = data - go_div data totalV * totalV
           in Inr (if pos = 0 then 1 else pos))"

text \<open>The inner loop: advance over the shards until the position falls into one.\<close>

fun position_loop :: "int \<Rightarrow> int \<Rightarrow> int list \<Rightarrow> nat \<Rightarrow> nat go" where
  "position_loop randomPosition tempPosition rest shardID =
     (if randomPosition > tempPosition
      then (case rest of [] \<Rightarrow> Inl GoPanic
            | v # vs \<Rightarrow> position_loop randomPosition (tempPosition + v) vs (Suc shardID))
      else Inr shardID)"

declare position_loop.simps [simp del]

definition V2_randomShard :: "(string \<Rightarrow> nat list) \<Rightarrow> int list \<Rightarrow> int \<Rightarrow> string \<Rightarrow> nat go" where
  "V2_randomShard HashB numberOfValidators rnd candidate =
     go_bind (calculateCandidatePosition HashB candidate rnd (sum_list numberOfValidators)) (\<lambda>randomPosition.
       case numberOfValidators of [] \<Rightarrow> Inl GoPanic
       | v # vs \<Rightarrow> go_bind (position_loop randomPosition v vs 0) (\<lambda>shardID. Inr (shardID mod 256)))"

definition AssignRuleV2_Process ::
    "(string \<Rightarrow> nat list) \<Rightarrow> ((nat \<times> int) list \<Rightarrow> (nat \<times> int) list) \<Rightarrow> string list \<Rightarrow> int list \<Rightarrow> int \<Rightarrow>
     (nat \<rightharpoonup> string list) go" where
  "AssignRuleV2_Process HashB srt candidates numberOfValidators rnd =
     (let n = length numberOfValidators mod 256;
          sortedShardIDs = sortShardIDByIncreaseOrder srt numberOfValidators;
          m = getShardIDPositionFromArray sortedShardIDs in
      go_bind (go_foldl (\<lambda>cm candidate.
          go_bind (V2_randomShard HashB numberOfValidators rnd candidate) (\<lambda>s. Inr (cm(candidate \<mapsto> s))))
          Map.empty candidates) (\<lambda>candidateRandomShardID.
      go_foldl (\<lambda>assigned candidate.
          let randomShardID = map_byte candidateRandomShardID candidate;
              index = (int n - 1 - int (map_byte m randomShardID)) mod 256 in
          go_bind (go_index sortedShardIDs index) (\<lambda>assignShardID.
            Inr (shard_append assigned assignShardID candidate)))
        Map.empty candidates))"

section \<open>AssignRuleV3\<close>

definition lower_step :: "int list \<Rightarrow> int \<Rightarrow> nat \<Rightarrow> nat list \<Rightarrow> nat \<Rightarrow> nat list" where
  "lower_step numberOfValidators mean halfOfShard lowerSet shardID =
     (if numberOfValidators ! shardID < mean \<and> length lowerSet < halfOfShard then lowerSet @ [shardID] else lowerSet)"

definition getOrderedLowerSet :: "((nat \<times> int) list \<Rightarrow> (nat \<times> int) list) \<Rightarrow> int \<Rightarrow> int list \<Rightarrow> nat list" where
  "getOrderedLowerSet srt mean numberOfValidators =
     (let totalShard = length numberOfValidators;
          sortedShardIDs = sortShardIDByIncreaseOrder srt numberOfValidators;
          halfOfShard = (if totalShard div 2 = 0 then 1 else totalShard div 2);
          lowerSet = foldl (lower_step numberOfValidators mean halfOfShard) [] sortedShardIDs
      in if length lowerSet = 0 then [0..<min halfOfShard totalShard] else lowerSet)"

text \<open>\<^verbatim>\<open>rand.Intn\<close> panics on a non-positive bound.\<close>

definition calculateCandidatePositionV2 :: "(int \<Rightarrow> nat \<Rightarrow> int \<Rightarrow> int) \<Rightarrow> int \<Rightarrow> nat \<Rightarrow> int \<Rightarrow> int go" where
  "calculateCandidatePositionV2 Intn seed draw totalV = (if totalV \<le> 0 then Inl GoPanic else Inr (Intn seed draw totalV))"

fun diff_loop :: "int \<Rightarrow> int \<Rightarrow> int list \<Rightarrow> nat \<Rightarrow> nat" where
  "diff_loop randomPosition tempPosition [] position = position"
| "diff_loop randomPosition tempPosition (d # ds) position =
     (if randomPosition \<ge> tempPosition then diff_loop randomPosition (tempPosition + d) ds (Suc position) else position)"

text \<open>The mean is computed in \<^verbatim>\<open>float64\<close> and rounded up; for sums below \<open>2 ^ 45\<close> and at most 256 shards
  that is the exact ceiling of the quotient, which is what is written here (lemma \<open>mean_up_float\<close> of \<open>Assign_Mean\<close>).\<close>

definition mean_up :: "int list \<Rightarrow> int" where
  "mean_up numberOfValidators =
     (let s = sum_list numberOfValidators; n = int (length numberOfValidators); mean = go_div s n
      in if s > mean * n then mean + 1 else mean)"

definition AssignRuleV3_Process ::
    "(int \<Rightarrow> nat \<Rightarrow> int \<Rightarrow> int) \<Rightarrow> ((nat \<times> int) list \<Rightarrow> (nat \<times> int) list) \<Rightarrow> string list \<Rightarrow> int list \<Rightarrow> int \<Rightarrow>
     (nat \<rightharpoonup> string list) go" where
  "AssignRuleV3_Process Intn srt candidates numberOfValidators randomNumber =
     (let mean = mean_up numberOfValidators;
          lowerSet = getOrderedLowerSet srt mean numberOfValidators;
          diff = map (\<lambda>shardID. let d = mean - numberOfValidators ! shardID in if d = 0 then 1 else d) lowerSet;
          totalDiff = sum_list diff in
      go_foldl (\<lambda>assigned (draw, candidate).
          go_bind (calculateCandidatePositionV2 Intn randomNumber draw totalDiff) (\<lambda>randomPosition.
          go_bind (go_index diff 0) (\<lambda>d0.
          let position = diff_loop randomPosition d0 (tl diff) 0 in
          go_bind (go_index lowerSet (int position)) (\<lambda>shardID.
            Inr (shard_append assigned (shardID mod 256) candidate)))))
        Map.empty (zip [0..<length candidates] candidates))"

section \<open>The AssignRuleProcessor interface\<close>

datatype AssignRuleProcessor = NilAssignRule | AssignRuleV2 | AssignRuleV3

definition GetAssignRuleVersion :: "nat \<Rightarrow> nat \<Rightarrow> nat \<Rightarrow> AssignRuleProcessor" where
  "GetAssignRuleVersion beaconHeight assignRuleV2 assignRuleV3 =
     (if beaconHeight < assignRuleV2 \<and> beaconHeight < assignRuleV3 then NilAssignRule
      else if beaconHeight \<ge> assignRuleV3 then AssignRuleV3 else AssignRuleV2)"

fun AssignRule_Process ::
    "AssignRuleProcessor \<Rightarrow> (string \<Rightarrow> nat list) \<Rightarrow> (int \<Rightarrow> nat \<Rightarrow> int \<Rightarrow> int) \<Rightarrow>
     ((nat \<times> int) list \<Rightarrow> (nat \<times> int) list) \<Rightarrow> string list \<Rightarrow> int list \<Rightarrow> int \<Rightarrow> (nat \<rightharpoonup> string list) go" where
  "AssignRule_Process NilAssignRule HashB Intn srt cs nv r = Inl GoPanic"
| "AssignRule_Process AssignRuleV2 HashB Intn srt cs nv r = AssignRuleV2_Process HashB srt cs nv r"
| "AssignRule_Process AssignRuleV3 HashB Intn srt cs nv r = AssignRuleV3_Process Intn srt cs nv r"

section \<open>The assignment of the first protocol version (consensus_swap_rule_v1.go)\<close>

text \<open>The byte of the shard: \<^verbatim>\<open>byte(int(hash[len(hash)-1]) % activeShards)\<close>.\<close>

definition calculateCandidateShardID :: "(string \<Rightarrow> nat list) \<Rightarrow> string \<Rightarrow> int \<Rightarrow> int \<Rightarrow> nat go" where
  "calculateCandidateShardID HashB candidate rnd activeShards =
     (let hash = HashB (candidate @ go_itoa rnd) in
      go_bind (go_index hash (int (length hash) - 1)) (\<lambda>b.
        if activeShards = 0 then Inl GoPanic
        else Inr (nat ((int b - go_div (int b) activeShards * activeShards) mod 256))))"

text \<open>\<^verbatim>\<open>shuffleShardCandidate\<close>: candidates in the order of their hashes (\<^verbatim>\<open>HashStr\<close> is the printed hash, \<^verbatim>\<open>sort.Strings\<close>
  the ascending order \<open>le\<close>); two equal hashes panic.\<close>

definition shuffleShardCandidate ::
    "(string \<Rightarrow> string) \<Rightarrow> (string list \<Rightarrow> string list) \<Rightarrow> string list \<Rightarrow> int \<Rightarrow> string list go" where
  "shuffleShardCandidate HashStr sort_Strings candidates rnd =
     (let h = (\<lambda>candidate. HashStr (go_itoa rnd @ candidate));
          m = foldl (\<lambda>m candidate. m(h candidate \<mapsto> candidate)) Map.empty candidates;
          temp = map h candidates in
      if card (set temp) \<noteq> length temp then Inl GoPanic
      else let shuffled = map (\<lambda>key. case m key of None \<Rightarrow> [] | Some c \<Rightarrow> c) (sort_Strings temp) in
        if length shuffled \<noteq> length candidates then Inl GoPanic else Inr shuffled)"

definition assign_step ::
    "(string \<Rightarrow> nat list) \<Rightarrow> int \<Rightarrow> int \<Rightarrow> int \<Rightarrow> string list \<times> (nat \<rightharpoonup> string list) \<times> (nat \<Rightarrow> int) \<Rightarrow> string \<Rightarrow>
     (string list \<times> (nat \<rightharpoonup> string list) \<times> (nat \<Rightarrow> int)) go" where
  "assign_step HashB rnd testnetAssignOffset activeShards = (\<lambda>(remain, assigned, pending) candidate.
     go_bind (calculateCandidateShardID HashB candidate rnd activeShards) (\<lambda>shardID.
       if pending shardID + 1 > testnetAssignOffset
       then Inr (remain @ [candidate], assigned, pending)
       else Inr (remain, shard_append assigned shardID candidate, pending(shardID := pending shardID + 1))))"

text \<open>The map \<^verbatim>\<open>numberOfPendingValidator\<close> of the caller is updated in place, so its final value is returned too.\<close>

definition assignShardCandidate ::
    "(string \<Rightarrow> nat list) \<Rightarrow> (string \<Rightarrow> string) \<Rightarrow> (string list \<Rightarrow> string list) \<Rightarrow> string list \<Rightarrow> (nat \<Rightarrow> int) \<Rightarrow> int \<Rightarrow> int \<Rightarrow> int \<Rightarrow>
     (string list \<times> (nat \<rightharpoonup> string list) \<times> (nat \<Rightarrow> int)) go" where
  "assignShardCandidate HashB HashStr sort_Strings candidates numberOfPendingValidator rnd testnetAssignOffset activeShards =
     go_bind (shuffleShardCandidate HashStr sort_Strings candidates rnd) (\<lambda>shuffled.
       go_foldl (assign_step HashB rnd testnetAssignOffset activeShards)
         ([], Map.empty, numberOfPendingValidator) shuffled)"

section \<open>Spreading a list over shards\<close>

definition spread :: "'a list \<Rightarrow> nat list \<Rightarrow> (nat \<rightharpoonup> 'a list) \<Rightarrow> bool" where
  "spread cs ss m \<longleftrightarrow> length ss = length cs \<and>
     (\<forall>s. map_slice m s = map fst (filter (\<lambda>(c, t). t = s) (zip cs ss)))"

lemma map_slice_append:
  "map_slice (shard_append m s c) t = (if t = s then map_slice m t @ [c] else map_slice m t)"
  by (simp add: map_slice_def shard_append_def)

lemma map_slice_empty [simp]: "map_slice Map.empty s = []"
  by (simp add: map_slice_def)

lemma distribute_loop:
  assumes "go_foldl (\<lambda>m x. go_bind (g x) (\<lambda>s. Inr (shard_append m s (h x)))) m0 xs = Inr m"
  shows "\<exists>ss. go_map g xs = Inr ss \<and>
    (\<forall>s. map_slice m s = map_slice m0 s @ map fst (filter (\<lambda>(c, t). t = s) (zip (map h xs) ss)))"
  using assms
proof (induction xs arbitrary: m0)
  case Nil
  then show ?case by simp
next
  case (Cons x xs)
  from Cons.prems obtain s where s: "g x = Inr s"
    and rest: "go_foldl (\<lambda>m x. go_bind (g x) (\<lambda>s. Inr (shard_append m s (h x)))) (shard_append m0 s (h x)) xs = Inr m"
    by auto
  from Cons.IH [OF rest] s show ?case by (auto simp: map_slice_append)
qed

lemma distribute_spread:
  assumes "go_foldl (\<lambda>m x. go_bind (g x) (\<lambda>s. Inr (shard_append m s (h x)))) Map.empty xs = Inr m"
    and "\<And>x s. x \<in> set xs \<Longrightarrow> g x = Inr s \<Longrightarrow> s < n"
  shows "\<exists>ss. spread (map h xs) ss m \<and> set ss \<subseteq> {..<n}"
proof -
  from distribute_loop [OF assms(1)] obtain ss where ss: "go_map g xs = Inr ss"
    and m: "\<forall>s. map_slice m s = map fst (filter (\<lambda>(c, t). t = s) (zip (map h xs) ss))" by auto
  have "set ss \<subseteq> {..<n}" using go_map_set [OF ss] assms(2) by blast
  then show ?thesis using m go_map_length [OF ss] by (auto simp: spread_def)
qed

lemma distribute_total:
  assumes "\<And>x. x \<in> set xs \<Longrightarrow> go_ok (g x)"
  shows "go_ok (go_foldl (\<lambda>m x. go_bind (g x) (\<lambda>s. Inr (shard_append m s (h x)))) m0 xs)"
  using assms by (intro go_foldl_total) (simp add: go_ok_iff)

lemma spread_partition:
  assumes "spread cs ss m" and "set ss \<subseteq> {..<n}"
  shows "(\<Sum>s<n. mset (map_slice m s)) = mset cs"
proof -
  have "(\<Sum>s<n. mset (map fst (filter (\<lambda>(c, t). t = s) xs))) = mset (map fst xs)"
    if "snd ` set xs \<subseteq> {..<n}" for xs :: "('a \<times> nat) list"
    using that
  proof (induction xs)
    case Nil
    then show ?case by simp
  next
    case (Cons x xs)
    obtain c t where x: "x = (c, t)" by (cases x)
    have "(\<Sum>s<n. mset (map fst (filter (\<lambda>(c, t). t = s) (x # xs)))) =
      (\<Sum>s<n. (if s = t then {#c#} else {#}) + mset (map fst (filter (\<lambda>(c, t). t = s) xs)))"
      by (intro sum.cong) (auto simp: x)
    also have "\<dots> = {#c#} + mset (map fst xs)" using Cons x by (simp add: sum.distrib)
    finally show ?case by (simp add: x)
  qed
  moreover have "snd ` set (zip cs ss) \<subseteq> {..<n}" using assms(2) by (auto dest: set_zip_rightD)
  ultimately have "(\<Sum>s<n. mset (map fst (filter (\<lambda>(c, t). t = s) (zip cs ss)))) = mset (map fst (zip cs ss))"
    by blast
  moreover have "map fst (zip cs ss) = cs" using assms(1) by (simp add: spread_def)
  ultimately show ?thesis using assms(1) by (simp add: spread_def del: mset_map mset_filter)
qed

section \<open>Sorted shard ids\<close>

lemma sortShardID_perm:
  assumes "sort_slice_contract srt" and "length nv \<le> 256"
  shows "mset (sortShardIDByIncreaseOrder srt nv) = mset [0..<length nv]"
proof -
  have ids: "map (\<lambda>i. i mod 256) [0..<length nv] = [0..<length nv]"
    using assms(2) by (intro map_idI) auto
  have "mset (sortShardIDByIncreaseOrder srt nv) = image_mset fst (mset (zip [0..<length nv] nv))"
    using assms(1) by (simp only: sortShardIDByIncreaseOrder_def ids sort_slice_contract_def mset_map)
  also have "\<dots> = mset (map fst (zip [0..<length nv] nv))" by (simp only: mset_map)
  also have "map fst (zip [0..<length nv] nv) = [0..<length nv]" by (simp add: map_fst_zip)
  finally show ?thesis .
qed

lemma sortShardID_props:
  assumes "sort_slice_contract srt" and "length nv \<le> 256"
  shows "length (sortShardIDByIncreaseOrder srt nv) = length nv"
    and "set (sortShardIDByIncreaseOrder srt nv) = {..<length nv}"
    and "distinct (sortShardIDByIncreaseOrder srt nv)"
proof -
  note p = sortShardID_perm [OF assms]
  show "length (sortShardIDByIncreaseOrder srt nv) = length nv" using mset_eq_length [OF p] by simp
  show "set (sortShardIDByIncreaseOrder srt nv) = {..<length nv}" using mset_eq_setD [OF p] by (simp add: atLeast0LessThan)
  show "distinct (sortShardIDByIncreaseOrder srt nv)" using mset_eq_imp_distinct_iff [OF p] by simp
qed

lemma getShardIDPosition_bound:
  assumes "length arr \<le> 256" and "arr \<noteq> []"
  shows "map_byte (getShardIDPositionFromArray arr) r < length arr"
proof -
  have "foldl (\<lambda>m (i, v). m(v \<mapsto> i mod 256)) m0 xs r = Some p \<Longrightarrow> (\<forall>p. m0 r = Some p \<longrightarrow> p < n) \<Longrightarrow>
      \<forall>(i, v) \<in> set xs. i < n \<Longrightarrow> n \<le> 256 \<Longrightarrow> p < n"
    for xs :: "(nat \<times> nat) list" and m0 :: "nat \<rightharpoonup> nat" and p n
  proof (induction xs arbitrary: m0)
    case Nil
    then show ?case by simp
  next
    case (Cons x xs)
    show ?case
    proof (rule Cons.IH [of "m0(snd x \<mapsto> fst x mod 256)"])
      show "foldl (\<lambda>m (i, v). m(v \<mapsto> i mod 256)) (m0(snd x \<mapsto> fst x mod 256)) xs r = Some p"
        using Cons.prems(1) by (cases x) (simp del: fun_upd_apply)
    qed (use Cons.prems in \<open>auto simp: case_prod_beta intro: le_less_trans [OF mod_less_eq_dividend]\<close>)
  qed
  moreover have "\<forall>(i, v) \<in> set (zip [0..<length arr] arr). i < length arr" by (auto dest: set_zip_leftD)
  ultimately show ?thesis using assms
    by (auto simp: map_byte_def getShardIDPositionFromArray_def split: option.splits)
qed

section \<open>The contract of an assign rule\<close>

text \<open>The inputs for which the beacon chain calls a rule: between 1 and 256 shards (shard ids are
  bytes), committee sizes that are not negative and not all zero.\<close>

definition shards_ok :: "int list \<Rightarrow> bool" where
  "shards_ok nv \<longleftrightarrow> 0 < length nv \<and> length nv \<le> 256 \<and> (\<forall>v \<in> set nv. 0 \<le> v) \<and> 0 < sum_list nv"

locale assign_rule =
  fixes process :: "string list \<Rightarrow> int list \<Rightarrow> int \<Rightarrow> (nat \<rightharpoonup> string list) go"
    and valid :: "int list \<Rightarrow> bool"
  assumes total: "valid nv \<Longrightarrow> go_ok (process cs nv r)"
    and spreads: "valid nv \<Longrightarrow> process cs nv r = Inr m \<Longrightarrow> \<exists>ss. spread cs ss m \<and> set ss \<subseteq> {..<length nv}"
begin

lemma partition:
  assumes "valid nv"
  shows "\<exists>m. process cs nv r = Inr m \<and> (\<Sum>s<length nv. mset (map_slice m s)) = mset cs"
  using total [OF assms, of cs r] spreads [OF assms, of cs r] spread_partition by (fastforce simp: go_ok_iff)

lemma outside:
  assumes "valid nv" and "process cs nv r = Inr m" and "length nv \<le> s"
  shows "map_slice m s = []"
proof -
  from spreads [OF assms(1,2)] obtain ss where "spread cs ss m" and "set ss \<subseteq> {..<length nv}" by blast
  with assms(3) show ?thesis by (auto simp: spread_def filter_empty_conv dest: set_zip_rightD)
qed

end

section \<open>AssignRuleV2 meets the contract\<close>

lemma calculateCandidatePosition_bounds:
  assumes "0 < t"
  shows "\<exists>pos. calculateCandidatePosition HashB c r t = Inr pos \<and> 1 \<le> pos \<and> pos \<le> t"
proof -
  define data where "data = int (sum_list (HashB (c @ go_itoa r)))"
  have "data - go_div data t * t = data mod t" using assms by (simp add: data_def minus_div_mult_eq_mod)
  then have "calculateCandidatePosition HashB c r t = Inr (if data mod t = 0 then 1 else data mod t)"
    using assms by (simp add: calculateCandidatePosition_def data_def Let_def)
  moreover have "0 \<le> data mod t" "data mod t < t" using assms by simp_all
  ultimately show ?thesis by (cases "data mod t = 0") auto
qed

lemma position_loop_ok:
  assumes "rp \<le> tp + sum_list rest"
  shows "\<exists>k. position_loop rp tp rest s = Inr k \<and> s \<le> k \<and> k \<le> s + length rest"
  using assms
proof (induction rest arbitrary: tp s)
  case Nil
  then show ?case by (simp add: position_loop.simps)
next
  case (Cons v vs)
  from Cons.IH [of "tp + v" "Suc s"] Cons.prems show ?case
    by (auto simp: position_loop.simps [of rp tp "v # vs"] add.assoc)
qed

lemma V2_randomShard_ok:
  assumes "shards_ok nv"
  shows "go_ok (V2_randomShard HashB nv r c)"
proof (cases nv)
  case Nil
  with assms show ?thesis by (simp add: shards_ok_def)
next
  case (Cons v vs)
  have "0 < sum_list nv" using assms by (simp add: shards_ok_def)
  from calculateCandidatePosition_bounds [OF this, of HashB c r] obtain pos where
    p: "calculateCandidatePosition HashB c r (sum_list nv) = Inr pos" "pos \<le> v + sum_list vs"
    using Cons by auto
  from position_loop_ok [OF p(2), of 0] p(1) Cons show ?thesis by (auto simp: V2_randomShard_def)
qed

lemma V2_target_ok:
  assumes "sort_slice_contract srt" and "shards_ok nv"
  defines "ids \<equiv> sortShardIDByIncreaseOrder srt nv"
  shows "\<exists>s < length nv. go_index ids
    ((int (length nv mod 256) - 1 - int (map_byte (getShardIDPositionFromArray ids) r)) mod 256) = Inr s"
proof -
  have n: "0 < length nv" "length nv \<le> 256" using assms(2) by (auto simp: shards_ok_def)
  note props = sortShardID_props [OF assms(1) n(2)]
  have len: "length ids = length nv" by (simp add: ids_def props)
  let ?p = "map_byte (getShardIDPositionFromArray ids) r"
  have "ids \<noteq> []" using len n by (cases ids) auto
  then have p: "?p < length nv" using getShardIDPosition_bound [of ids r] len n by simp
  have "(int (length nv mod 256) - 1 - int ?p) mod 256 = int (length nv - 1 - ?p)"
  proof (cases "length nv = 256")
    case True
    have "(- 1 - int ?p) mod 256 = (255 - int ?p) mod 256" using mod_add_self2 [of "- 1 - int ?p" 256] by simp
    also have "\<dots> = 255 - int ?p" using p True by simp
    finally show ?thesis using True p by (simp add: of_nat_diff)
  next
    case False
    then show ?thesis using n p by (simp add: of_nat_diff)
  qed
  moreover have "ids ! (length nv - 1 - ?p) < length nv"
  proof -
    have "ids ! (length nv - 1 - ?p) \<in> set ids" using len n by (intro nth_mem) simp
    then show ?thesis using props(2) by (simp add: ids_def)
  qed
  ultimately show ?thesis using len n by (auto simp: go_index_def)
qed

lemma AssignRuleV2_Process_total:
  assumes "sort_slice_contract srt \<and> shards_ok nv"
  shows "go_ok (AssignRuleV2_Process HashB srt cs nv r)"
proof -
  let ?ids = "sortShardIDByIncreaseOrder srt nv"
  have "go_ok (go_foldl (\<lambda>cm c. go_bind (V2_randomShard HashB nv r c) (\<lambda>s. Inr (cm(c \<mapsto> s)))) Map.empty cs)"
    using V2_randomShard_ok [of nv HashB r] assms by (intro go_foldl_total) (simp add: go_ok_iff)
  then obtain cm where 1: "go_foldl (\<lambda>cm c. go_bind (V2_randomShard HashB nv r c) (\<lambda>s. Inr (cm(c \<mapsto> s)))) Map.empty cs = Inr cm"
    by (meson go_ok_iff)
  have "go_ok (go_foldl (\<lambda>m c. go_bind (go_index ?ids ((int (length nv mod 256) - 1 -
        int (map_byte (getShardIDPositionFromArray ?ids) (map_byte cm c))) mod 256))
      (\<lambda>s. Inr (shard_append m s c))) Map.empty cs)"
    using V2_target_ok [of srt nv] assms by (intro go_foldl_total) (simp only: go_ok_bind, blast intro: go_ok_simps)
  with 1 show ?thesis by (simp add: AssignRuleV2_Process_def Let_def)
qed

lemma AssignRuleV2_Process_spreads:
  assumes "sort_slice_contract srt \<and> shards_ok nv" and "AssignRuleV2_Process HashB srt cs nv r = Inr m"
  shows "\<exists>ss. spread cs ss m \<and> set ss \<subseteq> {..<length nv}"
proof -
  define ids where "ids = sortShardIDByIncreaseOrder srt nv"
  from assms(2) obtain cm where
    "go_foldl (\<lambda>m c. go_bind (go_index ids ((int (length nv mod 256) - 1 -
        int (map_byte (getShardIDPositionFromArray ids) (map_byte cm c))) mod 256))
      (\<lambda>s. Inr (shard_append m s (id c)))) Map.empty cs = Inr m"
    by (auto simp: AssignRuleV2_Process_def Let_def ids_def)
  from distribute_spread [OF this, of "length nv"] V2_target_ok [of srt nv, folded ids_def] assms(1)
  show ?thesis by (metis Inr_inject list.map_id0 id_apply)
qed

interpretation assign_v2: assign_rule "AssignRuleV2_Process HashB srt" "\<lambda>nv. sort_slice_contract srt \<and> shards_ok nv"
  for HashB srt
  by unfold_locales (fact AssignRuleV2_Process_total, fact AssignRuleV2_Process_spreads)

section \<open>AssignRuleV3 meets the contract\<close>

lemma mean_up_ge:
  assumes "0 < length nv" and "0 \<le> sum_list nv"
  shows "sum_list nv \<le> mean_up nv * int (length nv)"
proof -
  let ?n = "int (length nv)"
  have n: "0 < ?n" using assms(1) by simp
  have "sum_list nv < (sum_list nv div ?n + 1) * ?n"
    using n by (metis add.commute div_mult_mod_eq distrib_right mult_1 pos_mod_bound add_less_cancel_left)
  then show ?thesis using assms n by (auto simp: mean_up_def Let_def)
qed

lemma all_mean:
  assumes "0 < length nv" and "0 \<le> sum_list nv" and "\<forall>v \<in> set nv. mean_up nv \<le> v" and "v \<in> set nv"
  shows "v = mean_up nv"
proof -
  have "sum_list (map (\<lambda>v. v - m) xs) = sum_list xs - m * int (length xs)" for m :: int and xs
    by (induction xs) (auto simp: algebra_simps)
  then have "sum_list (map (\<lambda>v. v - mean_up nv) nv) \<le> 0" using mean_up_ge [OF assms(1,2)] by simp
  moreover have "\<forall>x \<in> set (map (\<lambda>v. v - mean_up nv) nv). 0 \<le> x" using assms(3) by auto
  ultimately have "\<forall>x \<in> set (map (\<lambda>v. v - mean_up nv) nv). x = 0"
    by (metis sum_list_nonneg_eq_0_iff sum_list_nonneg order_antisym)
  then show ?thesis using assms(4) by auto
qed

lemma lower_loop_grows: "length acc \<le> length (foldl (lower_step nv mean half) acc ids)"
proof (induction ids arbitrary: acc)
  case Nil
  then show ?case by simp
next
  case (Cons s ids)
  have "length acc \<le> length (lower_step nv mean half acc s)" by (simp add: lower_step_def)
  with Cons.IH [of "lower_step nv mean half acc s"] show ?case by simp
qed

lemma lower_loop_set:
  "set (foldl (lower_step nv mean half) acc ids) \<subseteq> set acc \<union> {s \<in> set ids. nv ! s < mean}"
proof (induction ids arbitrary: acc)
  case Nil
  then show ?case by simp
next
  case (Cons s ids)
  from Cons.IH [of "lower_step nv mean half acc s"] show ?case by (auto simp: lower_step_def split: if_splits)
qed

lemma lower_loop_length: "length (foldl (lower_step nv mean half) acc ids) \<le> max (length acc) half"
proof (induction ids arbitrary: acc)
  case Nil
  then show ?case by simp
next
  case (Cons s ids)
  have "length (lower_step nv mean half acc s) \<le> max (length acc) half" by (auto simp: lower_step_def)
  with Cons.IH [of "lower_step nv mean half acc s"] show ?case by simp
qed

lemma lower_loop_nonempty:
  "s \<in> set ids \<Longrightarrow> nv ! s < mean \<Longrightarrow> 0 < half \<Longrightarrow> 0 < length (foldl (lower_step nv mean half) acc ids)"
proof (induction ids arbitrary: acc)
  case Nil
  then show ?case by simp
next
  case (Cons t ids)
  show ?case
  proof (cases "s = t")
    case True
    then have "0 < length (lower_step nv mean half acc t)" using Cons.prems by (auto simp: lower_step_def)
    from less_le_trans [OF this lower_loop_grows] show ?thesis by simp
  next
    case False
    with Cons show ?thesis by simp
  qed
qed

text \<open>The lower set: non-empty, at most half of the shards, below the mean unless all shards are equal.\<close>

lemma getOrderedLowerSet_props:
  assumes "sort_slice_contract srt" and "shards_ok nv"
  shows "getOrderedLowerSet srt (mean_up nv) nv \<noteq> []"
    and "set (getOrderedLowerSet srt (mean_up nv) nv) \<subseteq> {..<length nv}"
    and "length (getOrderedLowerSet srt (mean_up nv) nv) \<le> max 1 (length nv div 2)"
    and "s \<in> set (getOrderedLowerSet srt (mean_up nv) nv) \<Longrightarrow>
      nv ! s < mean_up nv \<or> (\<forall>v \<in> set nv. v = mean_up nv)"
proof -
  have n: "0 < length nv" "length nv \<le> 256" "0 \<le> sum_list nv" using assms(2) by (auto simp: shards_ok_def)
  define half where "half = (if length nv div 2 = 0 then 1 else length nv div 2)"
  define ids where "ids = sortShardIDByIncreaseOrder srt nv"
  define low where "low = foldl (lower_step nv (mean_up nv) half) [] ids"
  have eq: "getOrderedLowerSet srt (mean_up nv) nv = (if length low = 0 then [0..<min half (length nv)] else low)"
    by (simp add: getOrderedLowerSet_def low_def half_def ids_def Let_def)
  have half: "0 < half" "half = max 1 (length nv div 2)" by (auto simp: half_def)
  have set_low: "set low \<subseteq> {s. s < length nv \<and> nv ! s < mean_up nv}"
    using lower_loop_set [of nv "mean_up nv" half "[]" ids] sortShardID_props(2) [OF assms(1) n(2)]
    by (auto simp: low_def ids_def)
  have len_low: "length low \<le> half" using lower_loop_length [of nv "mean_up nv" half "[]" ids] by (simp add: low_def)
  show "getOrderedLowerSet srt (mean_up nv) nv \<noteq> []" using n half by (auto simp: eq)
  show "set (getOrderedLowerSet srt (mean_up nv) nv) \<subseteq> {..<length nv}" using set_low by (auto simp: eq)
  show "length (getOrderedLowerSet srt (mean_up nv) nv) \<le> max 1 (length nv div 2)"
    unfolding half(2) [symmetric] using len_low by (simp add: eq)
  assume s: "s \<in> set (getOrderedLowerSet srt (mean_up nv) nv)"
  show "nv ! s < mean_up nv \<or> (\<forall>v \<in> set nv. v = mean_up nv)"
  proof (cases "length low = 0")
    case True
    have "mean_up nv \<le> nv ! s" if "s < length nv" for s
      using lower_loop_nonempty [of s ids nv "mean_up nv" half "[]"] True half(1) that
        sortShardID_props(2) [OF assms(1) n(2)] by (auto simp: low_def ids_def not_less [symmetric])
    then have "\<forall>v \<in> set nv. mean_up nv \<le> v" by (auto simp: in_set_conv_nth)
    then show ?thesis using all_mean [OF n(1,3)] by blast
  next
    case False
    then show ?thesis using s set_low by (auto simp: eq)
  qed
qed

lemma diff_loop_bound: "diff_loop rp tp ds p \<le> p + length ds"
  by (induction rp tp ds p rule: diff_loop.induct) auto

definition v3_diff :: "((nat \<times> int) list \<Rightarrow> (nat \<times> int) list) \<Rightarrow> int list \<Rightarrow> int list" where
  "v3_diff srt nv = map (\<lambda>s. let d = mean_up nv - nv ! s in if d = 0 then 1 else d)
     (getOrderedLowerSet srt (mean_up nv) nv)"

definition v3_target ::
    "(int \<Rightarrow> nat \<Rightarrow> int \<Rightarrow> int) \<Rightarrow> ((nat \<times> int) list \<Rightarrow> (nat \<times> int) list) \<Rightarrow> int list \<Rightarrow> int \<Rightarrow> nat \<times> string \<Rightarrow> nat go" where
  "v3_target Intn srt nv r x =
     go_bind (calculateCandidatePositionV2 Intn r (fst x) (sum_list (v3_diff srt nv))) (\<lambda>rp.
     go_bind (go_index (v3_diff srt nv) 0) (\<lambda>d0.
     go_bind (go_index (getOrderedLowerSet srt (mean_up nv) nv) (int (diff_loop rp d0 (tl (v3_diff srt nv)) 0)))
       (\<lambda>s. Inr (s mod 256))))"

lemma AssignRuleV3_Process_eq:
  "AssignRuleV3_Process Intn srt cs nv r =
     go_foldl (\<lambda>m x. go_bind (v3_target Intn srt nv r x) (\<lambda>s. Inr (shard_append m s (snd x))))
       Map.empty (zip [0..<length cs] cs)"
  unfolding AssignRuleV3_Process_def Let_def
  by (intro arg_cong [where f = "\<lambda>f. go_foldl f _ _"] ext)
    (simp add: v3_target_def v3_diff_def Let_def case_prod_beta go_bind_assoc)

lemma v3_diff_pos:
  assumes "sort_slice_contract srt" and "shards_ok nv"
  shows "0 < sum_list (v3_diff srt nv)" and "v3_diff srt nv \<noteq> []"
proof -
  note low = getOrderedLowerSet_props [OF assms]
  show ne: "v3_diff srt nv \<noteq> []" using low(1) by (simp add: v3_diff_def)
  have pos: "0 < d" if "d \<in> set (v3_diff srt nv)" for d
  proof -
    from that obtain s where s: "s \<in> set (getOrderedLowerSet srt (mean_up nv) nv)"
      and d: "d = (if mean_up nv - nv ! s = 0 then 1 else mean_up nv - nv ! s)"
      by (auto simp: v3_diff_def Let_def)
    have "nv ! s \<in> set nv" using s low(2) by (auto intro: nth_mem)
    with low(4) [OF s] d show ?thesis by auto
  qed
  have "0 < sum_list xs" if "xs \<noteq> []" "\<forall>x \<in> set xs. 0 < x" for xs :: "int list"
    using that by (induction xs rule: list_nonempty_induct) auto
  with ne pos show "0 < sum_list (v3_diff srt nv)" by blast
qed

lemma v3_target_ok:
  assumes "sort_slice_contract srt" and "shards_ok nv"
  shows "\<exists>s \<in> set (getOrderedLowerSet srt (mean_up nv) nv). v3_target Intn srt nv r x = Inr s"
proof -
  note low = getOrderedLowerSet_props [OF assms] and diff = v3_diff_pos [OF assms]
  define rp where "rp = Intn r (fst x) (sum_list (v3_diff srt nv))"
  define p where "p = diff_loop rp (v3_diff srt nv ! 0) (tl (v3_diff srt nv)) 0"
  have "p \<le> length (v3_diff srt nv) - 1"
    using diff_loop_bound [of rp "v3_diff srt nv ! 0" "tl (v3_diff srt nv)" 0] by (simp add: p_def)
  then have p: "p < length (getOrderedLowerSet srt (mean_up nv) nv)"
    using diff(2) low(1) by (cases "v3_diff srt nv") (auto simp: v3_diff_def)
  then have mem: "getOrderedLowerSet srt (mean_up nv) nv ! p \<in> set (getOrderedLowerSet srt (mean_up nv) nv)"
    by (rule nth_mem)
  moreover have "length nv \<le> 256" using assms(2) by (simp add: shards_ok_def)
  ultimately have "getOrderedLowerSet srt (mean_up nv) nv ! p < 256" using low(2) by force
  then have "v3_target Intn srt nv r x = Inr (getOrderedLowerSet srt (mean_up nv) nv ! p)"
    using diff p by (simp add: v3_target_def calculateCandidatePositionV2_def go_index_def rp_def [symmetric] p_def [symmetric])
  with mem show ?thesis by blast
qed

lemma AssignRuleV3_Process_total:
  assumes "sort_slice_contract srt \<and> shards_ok nv"
  shows "go_ok (AssignRuleV3_Process Intn srt cs nv r)"
  unfolding AssignRuleV3_Process_eq
  using v3_target_ok [of srt nv Intn r] assms by (intro distribute_total) (metis go_ok_iff)

lemma AssignRuleV3_Process_lower:
  assumes "sort_slice_contract srt" and "shards_ok nv" and "AssignRuleV3_Process Intn srt cs nv r = Inr m"
  shows "\<exists>ss. spread cs ss m \<and> set ss \<subseteq> set (getOrderedLowerSet srt (mean_up nv) nv)"
proof -
  let ?low = "getOrderedLowerSet srt (mean_up nv) nv" and ?xs = "zip [0..<length cs] cs"
  from distribute_loop [OF assms(3) [unfolded AssignRuleV3_Process_eq]] obtain ss where
    ss: "go_map (v3_target Intn srt nv r) ?xs = Inr ss" and
    m: "\<forall>s. map_slice m s = map fst (filter (\<lambda>(c, t). t = s) (zip (map snd ?xs) ss))" by auto
  have "set ss \<subseteq> set ?low"
  proof
    fix y assume "y \<in> set ss"
    from go_map_set [OF ss this] obtain x where x: "v3_target Intn srt nv r x = Inr y" by blast
    from v3_target_ok [OF assms(1,2), of Intn r x] x show "y \<in> set ?low" by auto
  qed
  moreover have "spread cs ss m" using m go_map_length [OF ss] by (simp add: spread_def)
  ultimately show ?thesis by blast
qed

lemma AssignRuleV3_Process_spreads:
  assumes "sort_slice_contract srt \<and> shards_ok nv" and "AssignRuleV3_Process Intn srt cs nv r = Inr m"
  shows "\<exists>ss. spread cs ss m \<and> set ss \<subseteq> {..<length nv}"
  using AssignRuleV3_Process_lower [of srt nv Intn cs r m] getOrderedLowerSet_props(2) [of srt nv] assms by blast

interpretation assign_v3: assign_rule "AssignRuleV3_Process Intn srt" "\<lambda>nv. sort_slice_contract srt \<and> shards_ok nv"
  for Intn srt
  by unfold_locales (fact AssignRuleV3_Process_total, fact AssignRuleV3_Process_spreads)

section \<open>Properties of the assign rules\<close>

lemma AssignRule_partition:
  assumes "sort_slice_contract srt" and "shards_ok nv" and "v \<noteq> NilAssignRule"
  shows "\<exists>m. AssignRule_Process v HashB Intn srt candidates nv rnd = Inr m \<and>
    (\<Sum>s<length nv. mset (map_slice m s)) = mset candidates \<and> (\<forall>s \<ge> length nv. map_slice m s = [])"
proof (cases v)
  case NilAssignRule
  with assms(3) show ?thesis by simp
next
  case AssignRuleV2
  from assign_v2.partition [of srt nv HashB candidates rnd] assign_v2.outside [of srt nv HashB candidates rnd] assms
  show ?thesis by (auto simp: AssignRuleV2)
next
  case AssignRuleV3
  from assign_v3.partition [of srt nv Intn candidates rnd] assign_v3.outside [of srt nv Intn candidates rnd] assms
  show ?thesis by (auto simp: AssignRuleV3)
qed

text \<open>C38. Both assign rules assign every candidate to exactly one existing shard: they do not panic on valid
  committee sizes, and the shard lists together are the candidates, with multiplicity.\<close>

theorem assign_partitions_candidates:
  assumes "sort_slice_contract srt" and "shards_ok nv" and "v \<noteq> NilAssignRule"
  shows "\<exists>m. AssignRule_Process v HashB Intn srt candidates nv rnd = Inr m \<and>
    (\<Sum>s<length nv. mset (map_slice m s)) = mset candidates \<and> (\<forall>s \<ge> length nv. map_slice m s = [])"
  using assms by (rule AssignRule_partition)

lemma sort_key_contract: "sort_slice_contract (sort_key snd)"
  by (simp add: sort_slice_contract_def)

theorem assign_partitions_candidates_witness:
  "\<exists>m. AssignRule_Process AssignRuleV2 (\<lambda>s. map of_char s) (\<lambda>s d n. int d mod n) (sort_key snd)
      [''a'', ''b'', ''c''] [4, 8, 6] 42 = Inr m \<and>
    (\<Sum>s<length [4, 8, 6 :: int]. mset (map_slice m s)) = mset [''a'', ''b'', ''c''] \<and>
    (\<forall>s \<ge> length [4, 8, 6 :: int]. map_slice m s = [])"
  by (rule assign_partitions_candidates) (simp_all add: sort_key_contract shards_ok_def)

text \<open>The third rule balances: candidates only enter shards of the lower set, at most half of the shards (at
  least one), each of which is below the mean committee size unless all committees are equal.\<close>

theorem assign_v3_balances:
  assumes "sort_slice_contract srt" and "shards_ok nv"
    and "AssignRuleV3_Process Intn srt candidates nv rnd = Inr m" and "map_slice m s \<noteq> []"
  shows "s \<in> set (getOrderedLowerSet srt (mean_up nv) nv) \<and>
    length (getOrderedLowerSet srt (mean_up nv) nv) \<le> max 1 (length nv div 2) \<and>
    (nv ! s < mean_up nv \<or> (\<forall>v \<in> set nv. v = mean_up nv))"
proof -
  from AssignRuleV3_Process_lower [OF assms(1-3)] obtain ss where "spread candidates ss m"
    and ss: "set ss \<subseteq> set (getOrderedLowerSet srt (mean_up nv) nv)" by blast
  with assms(4) obtain c where "(c, s) \<in> set (zip candidates ss)"
    by (auto simp: spread_def filter_empty_conv)
  then have "s \<in> set (getOrderedLowerSet srt (mean_up nv) nv)" using ss by (auto dest: set_zip_rightD)
  with getOrderedLowerSet_props [OF assms(1,2)] show ?thesis by blast
qed

lemma toy_assign_v3:
  "AssignRuleV3_Process (\<lambda>s d n. int d mod n) (sort_key snd) [''a'', ''b'', ''c''] [4, 8, 6] 42 =
     Inr [0 \<mapsto> [''a'', ''b'', ''c'']]"
  by (simp add: AssignRuleV3_Process_def mean_up_def getOrderedLowerSet_def lower_step_def
      sortShardIDByIncreaseOrder_def go_index_def calculateCandidatePositionV2_def shard_append_def map_slice_def
      upt_rec Let_def insort_key.simps)

theorem assign_v3_balances_witness:
  "[4, 8, 6 :: int] ! 0 < mean_up [4, 8, 6]"
  using assign_v3_balances [OF sort_key_contract _ toy_assign_v3, of 0]
  by (simp add: shards_ok_def map_slice_def mean_up_def)

section \<open>The assignment of the first protocol version\<close>

definition v1_inv ::
    "int \<Rightarrow> (nat \<Rightarrow> int) \<Rightarrow> string multiset \<Rightarrow> string list \<times> (nat \<rightharpoonup> string list) \<times> (nat \<Rightarrow> int) \<Rightarrow> bool" where
  "v1_inv lim pending0 seen = (\<lambda>(remain, assigned, pending).
     mset remain + (\<Sum>s<256. mset (map_slice assigned s)) = seen \<and>
     (\<forall>s. pending s = pending0 s + int (length (map_slice assigned s))) \<and>
     (\<forall>s. pending0 s + int (length (map_slice assigned s)) \<le> max lim (pending0 s)))"

lemma sum_shard_append:
  assumes "k < n"
  shows "(\<Sum>s<n. mset (map_slice (shard_append m k c) s)) = {#c#} + (\<Sum>s<n. mset (map_slice m s))"
proof -
  have "(\<Sum>s<n. mset (map_slice (shard_append m k c) s)) =
      (\<Sum>s<n. (if s = k then {#c#} else {#}) + mset (map_slice m s))"
    by (intro sum.cong) (auto simp: map_slice_append)
  then show ?thesis using assms by (simp add: sum.distrib)
qed

lemma calculateCandidateShardID_byte:
  assumes "calculateCandidateShardID HashB c rnd shards = Inr k"
  shows "k < 256"
  using assms by (auto simp: calculateCandidateShardID_def Let_def nat_less_iff split: if_splits)

lemma assign_step_inv:
  assumes "v1_inv lim p0 seen st" and "assign_step HashB rnd lim shards st c = Inr st'"
  shows "v1_inv lim p0 (add_mset c seen) st'"
proof -
  obtain remain assigned pending where st: "st = (remain, assigned, pending)" by (metis prod_cases3)
  from assms(2) obtain k where sid: "calculateCandidateShardID HashB c rnd shards = Inr k"
    and st': "st' = (if pending k + 1 > lim then (remain @ [c], assigned, pending)
       else (remain, shard_append assigned k c, pending(k := pending k + 1)))"
    by (auto simp: st assign_step_def split: if_splits)
  show ?thesis using assms(1) sum_shard_append [OF calculateCandidateShardID_byte [OF sid], of assigned c]
    by (auto simp: st st' v1_inv_def map_slice_append)
qed

lemma assign_foldl_inv:
  assumes "v1_inv lim p0 seen st" and "go_foldl (assign_step HashB rnd lim shards) st cs = Inr st'"
  shows "v1_inv lim p0 (mset cs + seen) st'"
  using assms
proof (induction cs arbitrary: seen st)
  case Nil
  then show ?case by simp
next
  case (Cons c cs)
  then obtain st1 where "assign_step HashB rnd lim shards st c = Inr st1"
    and rest: "go_foldl (assign_step HashB rnd lim shards) st1 cs = Inr st'" by auto
  from Cons.IH [OF assign_step_inv [OF Cons.prems(1) this(1)] rest] show ?case by simp
qed

lemma hash_map_lookup:
  assumes "inj_on h (set cs)" and "c \<in> set cs"
  shows "foldl (\<lambda>m c. m(h c \<mapsto> c)) m0 cs (h c) = Some c"
  using assms
proof (induction cs rule: rev_induct)
  case Nil
  then show ?case by simp
next
  case (snoc x cs)
  show ?case
  proof (cases "c = x")
    case False
    with snoc show ?thesis by (auto simp: inj_on_def)
  qed simp
qed

lemma shuffle_perm:
  assumes "\<forall>xs. mset (sort_Strings xs) = mset xs"
    and "shuffleShardCandidate HashStr sort_Strings cs rnd = Inr shuffled"
  shows "mset shuffled = mset cs"
proof -
  define h where "h = (\<lambda>c. HashStr (go_itoa rnd @ c))"
  define m where "m = foldl (\<lambda>m c. m(h c \<mapsto> c)) Map.empty cs"
  define get where "get = (\<lambda>key. case m key of None \<Rightarrow> [] | Some c \<Rightarrow> c)"
  from assms(2) have d: "distinct (map h cs)" and sh: "shuffled = map get (sort_Strings (map h cs))"
    by (auto simp: shuffleShardCandidate_def Let_def h_def m_def get_def card_distinct split: if_splits)
  have "mset shuffled = image_mset get (mset (map h cs))" using assms(1) by (simp add: sh)
  also have "\<dots> = mset (map (\<lambda>c. get (h c)) cs)" by (simp add: image_mset.compositionality comp_def)
  also have "map (\<lambda>c. get (h c)) cs = cs"
    using hash_map_lookup [of h cs] d by (intro map_idI) (auto simp: get_def m_def distinct_map)
  finally show ?thesis .
qed

text \<open>The candidate assignment of the first protocol version neither loses nor duplicates a candidate: those
  assigned to the shards and those that remain are together the candidates; the pending list of a
  shard grows by what it is assigned and never beyond the limit (unless it was beyond it before).\<close>

theorem assign_v1_conserves:
  assumes "\<forall>xs. mset (sort_Strings xs) = mset xs"
    and "assignShardCandidate HashB HashStr sort_Strings candidates pending rnd limit activeShards =
      Inr (remain, assigned, pending')"
  shows "mset remain + (\<Sum>s<256. mset (map_slice assigned s)) = mset candidates \<and>
    (\<forall>s. pending' s = pending s + int (length (map_slice assigned s))) \<and>
    (\<forall>s. pending s + int (length (map_slice assigned s)) \<le> max limit (pending s))"
proof -
  from assms(2) obtain shuffled where
    1: "shuffleShardCandidate HashStr sort_Strings candidates rnd = Inr shuffled" and
    2: "go_foldl (assign_step HashB rnd limit activeShards) ([], Map.empty, pending) shuffled =
      Inr (remain, assigned, pending')"
    by (auto simp: assignShardCandidate_def)
  have "v1_inv limit pending {#} ([], Map.empty, pending)" by (simp add: v1_inv_def)
  from assign_foldl_inv [OF this 2] shuffle_perm [OF assms(1) 1] show ?thesis by (auto simp: v1_inv_def)
qed

theorem assign_v1_conserves_witness:
  "mset [''c''] + (\<Sum>s<256. mset (map_slice [0 :: nat \<mapsto> [''b''], 1 \<mapsto> [''a'']] s)) = mset [''a'', ''b'', ''c'']"
proof -
  have "assignShardCandidate (\<lambda>s. [of_char (hd s)]) (\<lambda>s. s) (\<lambda>xs. xs) [''a'', ''b'', ''c''] (\<lambda>s. 0) 0 1 2 =
      Inr ([''c''], [0 \<mapsto> [''b''], 1 \<mapsto> [''a'']], (\<lambda>s. 0)(1 := 1, 0 := 1))"
    by (simp add: assignShardCandidate_def shuffleShardCandidate_def assign_step_def calculateCandidateShardID_def
        go_index_def shard_append_def map_slice_def Let_def fun_upd_twist)
  from assign_v1_conserves [OF _ this] show ?thesis by simp
qed

end
