(* ===== verification/Committee_Change.thy ===== *)
theory Committee_Change
  imports Staking_Instructions Swap_Rules Assign_Rules
begin

text \<open>
  The data of the beacon committee engine: \<^verbatim>\<open>committee_change.go\<close> (the log of role changes that a
  block produces), the environment of a block (\<^verbatim>\<open>environment.go\<close>) and the committee state with its
  embedded structs (\<^verbatim>\<open>beacon_committee_state_base.go\<close>, \<^verbatim>\<open>_slashing_base.go\<close>, \<^verbatim>\<open>_v3.go\<close>), all in
  \<^verbatim>\<open>src/blockchain/committeestate\<close>. Shard ids are bytes, written as \<open>nat\<close> below 256; a map from shard ids to
  slices is a partial map read with \<open>map_slice\<close> (an absent key reads as the empty slice).
\<close>

section \<open>CommitteeChange\<close>

record 'k CommitteeChange =
  NextEpochShardCandidateAdded :: "'k list"
  NextEpochShardCandidateRemoved :: "'k list"
  ShardSubstituteAdded :: "nat \<rightharpoonup> 'k list"
  ShardSubstituteRemoved :: "nat \<rightharpoonup> 'k list"
  SyncingPoolAdded :: "nat \<rightharpoonup> 'k list"
  SyncingPoolRemoved :: "nat \<rightharpoonup> 'k list"
  ShardCommitteeAdded :: "nat \<rightharpoonup> 'k list"
  ShardCommitteeRemoved :: "nat \<rightharpoonup> 'k list"
  StopAutoStake :: "string list"
  RemovedStaker :: "string list"
  FinishedSyncValidators :: "nat \<rightharpoonup> string list"
  SlashingCommittee :: "nat \<rightharpoonup> string list"

text \<open>The keys below the configured \<^verbatim>\<open>common.MaxShardNumber\<close> start with an empty slice.\<close>

definition empty_shards :: "nat \<Rightarrow> nat \<rightharpoonup> 'a list" where
  "empty_shards n = (\<lambda>s. if s < n then Some [] else None)"

definition NewCommitteeChange :: "nat \<Rightarrow> 'k CommitteeChange" where
  "NewCommitteeChange maxShardNumber = (let es = empty_shards maxShardNumber in
     \<lparr>NextEpochShardCandidateAdded = [], NextEpochShardCandidateRemoved = [],
      ShardSubstituteAdded = es, ShardSubstituteRemoved = es,
      SyncingPoolAdded = es, SyncingPoolRemoved = es,
      ShardCommitteeAdded = es, ShardCommitteeRemoved = es,
      StopAutoStake = [], RemovedStaker = [],
      FinishedSyncValidators = empty_shards maxShardNumber, SlashingCommittee = empty_shards maxShardNumber\<rparr>)"

text \<open>The conversion to key structs with its error dropped: an undecodable list gives the nil slice.\<close>

definition structs_of :: "('k, 'h, 'p) codec \<Rightarrow> string list \<Rightarrow> 'k list" where
  "structs_of cdc ks = (case CommitteeBase58KeyListToStruct cdc ks of Inl _ \<Rightarrow> [] | Inr st \<Rightarrow> st)"

definition shard_extend :: "(nat \<rightharpoonup> 'a list) \<Rightarrow> nat \<Rightarrow> 'a list \<Rightarrow> (nat \<rightharpoonup> 'a list)" where
  "shard_extend m shardID xs = m(shardID \<mapsto> map_slice m shardID @ xs)"

definition AddNextEpochShardCandidateRemoved ::
    "('k, 'h, 'p) codec \<Rightarrow> string list \<Rightarrow> 'k CommitteeChange \<Rightarrow> 'k CommitteeChange" where
  "AddNextEpochShardCandidateRemoved cdc ks cc = (if length ks = 0 then cc else
     cc\<lparr>NextEpochShardCandidateRemoved := NextEpochShardCandidateRemoved cc @ structs_of cdc ks\<rparr>)"

definition AddNextEpochShardCandidateAdded ::
    "('k, 'h, 'p) codec \<Rightarrow> string list \<Rightarrow> 'k CommitteeChange \<Rightarrow> 'k CommitteeChange" where
  "AddNextEpochShardCandidateAdded cdc ks cc = (if length ks = 0 then cc else
     cc\<lparr>NextEpochShardCandidateAdded := NextEpochShardCandidateAdded cc @ structs_of cdc ks\<rparr>)"

definition AddShardSubstituteAdded ::
    "('k, 'h, 'p) codec \<Rightarrow> nat \<Rightarrow> string list \<Rightarrow> 'k CommitteeChange \<Rightarrow> 'k CommitteeChange" where
  "AddShardSubstituteAdded cdc s ks cc = (if length ks = 0 then cc else
     cc\<lparr>ShardSubstituteAdded := shard_extend (ShardSubstituteAdded cc) s (structs_of cdc ks)\<rparr>)"

definition AddShardSubstituteRemoved ::
    "('k, 'h, 'p) codec \<Rightarrow> nat \<Rightarrow> string list \<Rightarrow> 'k CommitteeChange \<Rightarrow> 'k CommitteeChange" where
  "AddShardSubstituteRemoved cdc s ks cc = (if length ks = 0 then cc else
     cc\<lparr>ShardSubstituteRemoved := shard_extend (ShardSubstituteRemoved cc) s (structs_of cdc ks)\<rparr>)"

definition AddShardCommitteeAdded ::
    "('k, 'h, 'p) codec \<Rightarrow> nat \<Rightarrow> string list \<Rightarrow> 'k CommitteeChange \<Rightarrow> 'k CommitteeChange" where
  "AddShardCommitteeAdded cdc s ks cc = (if length ks = 0 then cc else
     cc\<lparr>ShardCommitteeAdded := shard_extend (ShardCommitteeAdded cc) s (structs_of cdc ks)\<rparr>)"

definition AddShardCommitteeRemoved ::
    "('k, 'h, 'p) codec \<Rightarrow> nat \<Rightarrow> string list \<Rightarrow> 'k CommitteeChange \<Rightarrow> 'k CommitteeChange" where
  "AddShardCommitteeRemoved cdc s ks cc = (if length ks = 0 then cc else
     cc\<lparr>ShardCommitteeRemoved := shard_extend (ShardCommitteeRemoved cc) s (structs_of cdc ks)\<rparr>)"

definition AddSyncingPoolAdded ::
    "('k, 'h, 'p) codec \<Rightarrow> nat \<Rightarrow> string list \<Rightarrow> 'k CommitteeChange \<Rightarrow> 'k CommitteeChange" where
  "AddSyncingPoolAdded cdc s ks cc = (if length ks = 0 then cc else
     cc\<lparr>SyncingPoolAdded := shard_extend (SyncingPoolAdded cc) s (structs_of cdc ks)\<rparr>)"

definition AddSyncingPoolRemoved ::
    "('k, 'h, 'p) codec \<Rightarrow> nat \<Rightarrow> string list \<Rightarrow> 'k CommitteeChange \<Rightarrow> 'k CommitteeChange" where
  "AddSyncingPoolRemoved cdc s ks cc = (if length ks = 0 then cc else
     cc\<lparr>SyncingPoolRemoved := shard_extend (SyncingPoolRemoved cc) s (structs_of cdc ks)\<rparr>)"

definition AddFinishedSyncValidators :: "nat \<Rightarrow> string list \<Rightarrow> 'k CommitteeChange \<Rightarrow> 'k CommitteeChange" where
  "AddFinishedSyncValidators s ks cc = (if length ks = 0 then cc else
     cc\<lparr>FinishedSyncValidators := shard_extend (FinishedSyncValidators cc) s ks\<rparr>)"

definition AddSlashingCommittees :: "nat \<Rightarrow> string list \<Rightarrow> 'k CommitteeChange \<Rightarrow> 'k CommitteeChange" where
  "AddSlashingCommittees s ks cc = (if length ks = 0 then cc else
     cc\<lparr>SlashingCommittee := shard_extend (SlashingCommittee cc) s ks\<rparr>)"

definition AddRemovedStaker :: "string \<Rightarrow> 'k CommitteeChange \<Rightarrow> 'k CommitteeChange" where
  "AddRemovedStaker k cc = cc\<lparr>RemovedStaker := RemovedStaker cc @ [k]\<rparr>"

definition AddStopAutoStake :: "string \<Rightarrow> 'k CommitteeChange \<Rightarrow> 'k CommitteeChange" where
  "AddStopAutoStake k cc = cc\<lparr>StopAutoStake := StopAutoStake cc @ [k]\<rparr>"

definition IsShardCommitteeChange :: "'k CommitteeChange \<Rightarrow> bool" where
  "IsShardCommitteeChange cc \<longleftrightarrow>
     (\<exists>s \<in> set [0..<256]. length (map_slice (ShardSubstituteAdded cc) s) > 0) \<or>
     (\<exists>s \<in> set [0..<256]. length (map_slice (ShardSubstituteRemoved cc) s) > 0)"

section \<open>The environment of a block\<close>

text \<open>The part of a staker record in the consensus database that the engine reads; the lookup returns
  the record, nothing, or an error.\<close>

record StakerInfo =
  TxStakingID :: string
  AutoStaking :: bool

type_synonym staker_db = "string \<Rightarrow> StakerInfo option go"

text \<open>What the engine takes from elsewhere: hashing, the pseudo-random generator and \<^verbatim>\<open>sort.Slice\<close> of the
  standard library, the mining-key form of a committee key, and the configured foundation nodes.\<close>

record 'k externals =
  ext_HashB :: "string \<Rightarrow> nat list"
  ext_Intn :: "int \<Rightarrow> nat \<Rightarrow> int \<Rightarrow> int"
  ext_sortSlice :: "(nat \<times> int) list \<Rightarrow> (nat \<times> int) list"
  GetIncKeyBase58 :: "'k \<Rightarrow> string"
  AllFoundationNode :: "string \<Rightarrow> bool"
  ext_MaxShardNumber :: nat

record BeaconCommitteeStateEnvironment =
  BeaconInstructions :: "string list list"
  RandomNumber :: int
  IsBeaconRandomTime :: bool
  ActiveShards :: nat
  MinShardCommitteeSize :: int
  MaxShardCommitteeSize :: int
  NumberOfFixedShardBlockValidator :: int
  MissingSignaturePenalty :: "string \<rightharpoonup> Penalty"
  ConsensusStateDB :: staker_db
  TriggeredFeature :: "string \<rightharpoonup> nat"
  env_ShardID :: nat
  newAllRoles :: "string list"
  newUnassignedCommonPool :: "string list"
  newAllSubstituteCommittees :: "string list"
  env_shardCommittee :: "nat \<rightharpoonup> string list"
  env_shardSubstitute :: "nat \<rightharpoonup> string list"
  numberOfValidator :: "int list"

section \<open>The committee state\<close>

record ('h, 'p) beaconCommitteeStateBase =
  beaconCommittee :: "string list"
  shardCommittee :: "nat \<rightharpoonup> string list"
  shardSubstitute :: "nat \<rightharpoonup> string list"
  autoStake :: "string \<rightharpoonup> bool"
  rewardReceiver :: "string \<rightharpoonup> 'p"
  stakingTx :: "string \<rightharpoonup> 'h"

record ('h, 'p) beaconCommitteeStateSlashingBase = "('h, 'p) beaconCommitteeStateBase" +
  shardCommonPool :: "string list"
  numberOfAssignedCandidates :: int
  swapRule :: SwapRuleProcessor
  assignRule :: AssignRuleProcessor

record ('h, 'p) BeaconCommitteeStateV3 = "('h, 'p) beaconCommitteeStateSlashingBase" +
  syncPool :: "nat \<rightharpoonup> string list"

text \<open>All entries of a shard map. The source iterates over the map in Go's random order; every use is
  independent of it (membership tests, or updates of separate keys).\<close>

definition all_shards :: "(nat \<rightharpoonup> 'a list) \<Rightarrow> 'a list" where
  "all_shards m = concat (map (map_slice m) [0..<256])"

end
