(* ===== verification/Swap_V1.thy ===== *)
theory Swap_V1
  imports Instructions
begin

text \<open>
  The swap rule of the first protocol version, \<^verbatim>\<open>SwapValidator\<close> and its helpers in
  \<^verbatim>\<open>src/blockchain/committeestate/consensus_swap_rule_v1.go\<close>. The functions return an error beside
  their lists, so a result is a tuple with an optional error message; out-of-range slices panic.
  The lemmas show that the rule conserves validators, keeps the queue order and, for a committee
  within its limits, neither fails nor exceeds the maximal size.
\<close>

section \<open>Model\<close>

definition filterValidators :: "string list \<Rightarrow> (string \<rightharpoonup> nat) \<Rightarrow> bool \<Rightarrow> string list" where
  "filterValidators validators producersBlackList isExistenceIncluded =
     filter (\<lambda>pv. (producersBlackList pv \<noteq> None \<and> isExistenceIncluded) \<or>
       (\<not> producersBlackList pv \<noteq> None \<and> \<not> isExistenceIncluded)) validators"

fun isBadProducer :: "string list \<Rightarrow> string \<Rightarrow> bool" where
  "isBadProducer [] producer = False"
| "isBadProducer (b # bs) producer = (if b = producer then True else isBadProducer bs producer)"

type_synonym v1_result = "string list \<times> string list \<times> string list \<times> string list \<times> string option"

definition swap ::
    "string list \<Rightarrow> string list \<Rightarrow> string list \<Rightarrow> string list \<Rightarrow> int \<Rightarrow> int \<Rightarrow> v1_result go" where
  "swap badPending goodPending currentGood currentBad maxCommittee offset =
     (if offset = 0 then Inr (goodPending @ badPending, currentGood, currentBad, [], None)
      else if offset > maxCommittee
        then Inr (goodPending @ badPending, currentGood, currentBad, [], Some ''try to swap too many validators'')
      else let diff = maxCommittee - int (length currentGood) in
        if diff \<ge> offset
        then go_bind (slice_to goodPending offset) (\<lambda>temp.
             go_bind (slice_from goodPending offset) (\<lambda>rest.
               Inr (rest @ badPending, currentGood @ temp, currentBad, temp, None)))
        else let offset = offset - diff in
             go_bind (slice_to goodPending diff) (\<lambda>temp.
             go_bind (slice_from goodPending diff) (\<lambda>good1.
             let cur1 = currentGood @ temp in
             go_bind (slice_to cur1 offset) (\<lambda>out.
             go_bind (slice_from cur1 offset) (\<lambda>cur2.
             go_bind (slice_to good1 offset) (\<lambda>entering.
             go_bind (slice_from good1 offset) (\<lambda>good2.
               Inr (good2 @ badPending, cur2 @ entering, currentBad @ out, temp @ entering, None))))))))"

fun split_bad :: "string list \<Rightarrow> int \<Rightarrow> string list \<Rightarrow> string list \<Rightarrow> string list \<Rightarrow> string list \<times> string list" where
  "split_bad currentBad lim swapped remaining [] = (swapped, remaining)"
| "split_bad currentBad lim swapped remaining (p # ps) =
     (if isBadProducer currentBad p \<and> int (length swapped) < lim
      then split_bad currentBad lim (swapped @ [p]) remaining ps
      else split_bad currentBad lim swapped (remaining @ [p]) ps)"

definition SwapValidator ::
    "string list \<Rightarrow> string list \<Rightarrow> int \<Rightarrow> int \<Rightarrow> int \<Rightarrow> int \<Rightarrow> v1_result go" where
  "SwapValidator pendingValidators currentValidators maxCommittee minCommittee offset swapOffset =
     (let blackList = Map.empty;
          goodPending = filterValidators pendingValidators blackList False;
          badPending = filterValidators pendingValidators blackList True;
          currentBad = filterValidators currentValidators blackList True;
          currentGood = filterValidators currentValidators blackList False;
          goodPendingLen = int (length goodPending);
          currentGoodLen = int (length currentGood) in
      if currentGoodLen \<ge> minCommittee
      then let offset = (if currentGoodLen = maxCommittee then swapOffset else offset);
               offset = (if offset > goodPendingLen then goodPendingLen else offset)
           in swap badPending goodPending currentGood currentBad maxCommittee offset
      else let minProducersNeeded = minCommittee - currentGoodLen in
        if int (length pendingValidators) \<ge> minProducersNeeded
        then let offset = (if offset < minProducersNeeded then minProducersNeeded
                           else if offset > goodPendingLen then goodPendingLen else offset)
             in swap badPending goodPending currentGood currentBad maxCommittee offset
        else let lim = int (length goodPending) + int (length currentValidators) - minCommittee;
                 (swapped, remaining) = split_bad currentBad lim [] [] currentValidators
             in Inr (badPending, remaining @ goodPending, swapped, goodPending, None))"

definition createSwapInstruction ::
    "string list \<Rightarrow> string list \<Rightarrow> int \<Rightarrow> int \<Rightarrow> nat \<Rightarrow> int \<Rightarrow> int \<Rightarrow>
     (('k, 'p) SwapInstruction \<times> string list \<times> string list) go" where
  "createSwapInstruction pendingValidator commitees maxCommitteeSize minCommitteeSize shardID offset swapOffset =
     go_bind (SwapValidator pendingValidator commitees maxCommitteeSize minCommitteeSize offset swapOffset)
       (\<lambda>(newPending, newCommittees, swapped, entered, err).
          case err of Some e \<Rightarrow> Inl (GoErr e)
          | None \<Rightarrow> Inr (NewSwapInstructionWithValue entered swapped (int shardID), newPending, newCommittees))"

definition removeValidatorV1 :: "string list \<Rightarrow> string list \<Rightarrow> string list go" where
  "removeValidatorV1 validators removedValidators =
     (if length removedValidators > length validators
      then Inl (GoErr ''trying to remove too many validators'')
      else Inr (filter (\<lambda>v. v \<notin> set removedValidators) validators))"

section \<open>Lemmas\<close>

lemma filterValidators_empty [simp]:
  "filterValidators vs Map.empty False = vs"
  "filterValidators vs Map.empty True = []"
  by (simp_all add: filterValidators_def)

text \<open>What one call of the rule promises of its lists.\<close>

definition v1_split :: "string list \<Rightarrow> string list \<Rightarrow> v1_result \<Rightarrow> bool" where
  "v1_split pending current r = (case r of (newPending, newCurrent, out, entered, err) \<Rightarrow>
     pending = entered @ newPending \<and> mset newCurrent + mset out = mset current + mset entered)"

lemma swap_split:
  assumes "swap [] pending current [] mx off = Inr r"
  shows "v1_split pending current r"
proof (cases "off = 0 \<or> off > mx")
  case True
  with assms show ?thesis by (auto simp: swap_def v1_split_def split: if_splits)
next
  case False
  define d where "d = mx - int (length current)"
  show ?thesis
  proof (cases "d \<ge> off")
    case True
    with False assms show ?thesis by (auto simp: swap_def v1_split_def d_def)
  next
    case d: False
    let ?o = "nat (off - d)" and ?temp = "take (nat d) pending" and ?rest = "drop (nat d) pending"
    have "swap [] pending current [] mx off = Inr r \<longleftrightarrow>
        0 \<le> d \<and> d \<le> int (length pending) \<and> off - d \<le> int (length (current @ ?temp)) \<and> off - d \<le> int (length ?rest) \<and>
        r = (drop ?o ?rest, drop ?o (current @ ?temp) @ take ?o ?rest, take ?o (current @ ?temp), ?temp @ take ?o ?rest, None)"
      using False d unfolding swap_def d_def [symmetric] Let_def by auto
    with assms have r: "r = (drop ?o ?rest, drop ?o (current @ ?temp) @ take ?o ?rest, take ?o (current @ ?temp),
        ?temp @ take ?o ?rest, None)" by blast
    have "mset (take ?o (current @ ?temp)) + mset (drop ?o (current @ ?temp)) = mset current + mset ?temp"
      by (metis mset_take_drop mset_append)
    then have "mset (drop ?o (current @ ?temp)) + mset (take ?o ?rest) + mset (take ?o (current @ ?temp)) =
        mset current + mset ?temp + mset (take ?o ?rest)" by (metis add.commute add.assoc)
    moreover have "pending = (?temp @ take ?o ?rest) @ drop ?o ?rest"
      by (simp only: append_assoc append_take_drop_id)
    ultimately show ?thesis unfolding v1_split_def r by (simp only: prod.case mset_append) (metis add.assoc)
  qed
qed

lemma split_bad_none: "split_bad [] lim swapped remaining ps = (swapped, remaining @ ps)"
  by (induction ps arbitrary: remaining) auto

lemma SwapValidator_split:
  assumes "SwapValidator pending current mx mn off swapOff = Inr r"
  shows "v1_split pending current r"
proof (cases "int (length current) \<ge> mn \<or> int (length pending) \<ge> mn - int (length current)")
  case True
  with assms obtain off' where "swap [] pending current [] mx off' = Inr r"
    unfolding SwapValidator_def Let_def by (auto split: if_splits)
  then show ?thesis by (rule swap_split)
next
  case False
  with assms show ?thesis by (auto simp: SwapValidator_def Let_def split_bad_none v1_split_def)
qed

lemma swap_ok:
  assumes "0 \<le> off" and "off \<le> int (length pending)" and "int (length current) \<le> mx"
  shows "\<exists>p c out entered err. swap [] pending current [] mx off = Inr (p, c, out, entered, err) \<and>
    int (length c) \<le> mx \<and> length c \<ge> length current \<and> (err \<noteq> None \<longleftrightarrow> off > mx)"
proof (cases "off = 0 \<or> off > mx")
  case True
  with assms show ?thesis by (auto simp: swap_def)
next
  case False
  define d where "d = mx - int (length current)"
  have d: "0 \<le> d" "int (length current) = mx - d" using assms(3) by (auto simp: d_def)
  show ?thesis
  proof (cases "d \<ge> off")
    case True
    with False assms d show ?thesis
      unfolding swap_def d_def [symmetric] Let_def by (auto simp: slice_to_def slice_from_def)
  next
    case lt: False
    have "nat off \<le> length pending" using assms by simp
    then have dl: "nat d \<le> length pending" "d \<le> int (length pending)" "off - d \<le> int (length pending - nat d)"
      using lt d assms by auto
    have "off - d \<le> mx" "off \<le> mx" using False d by auto
    then show ?thesis using False lt assms dl d
      unfolding swap_def d_def [symmetric] Let_def
      by (auto simp: slice_to_def slice_from_def min_def)
  qed
qed

section \<open>Properties\<close>

text \<open>The swap rule of the first version conserves validators: substitutes enter in queue order, and the new
  committee with those swapped out is the old committee with those that entered.\<close>

theorem swap_v1_conserves:
  assumes "SwapValidator pending current mx mn off swapOff = Inr (newPending, newCurrent, out, entered, err)"
  shows "pending = entered @ newPending \<and> mset newCurrent + mset out = mset current + mset entered"
  using SwapValidator_split [OF assms] by (simp add: v1_split_def)

theorem swap_v1_conserves_witness:
  "mset [''c3'', ''c4'', ''p1'', ''p2''] + mset [''c1'', ''c2''] =
     mset [''c1'', ''c2'', ''c3'', ''c4''] + mset [''p1'', ''p2'']"
proof -
  have "SwapValidator [''p1'', ''p2'', ''p3''] [''c1'', ''c2'', ''c3'', ''c4''] 4 2 1 2 =
      Inr ([''p3''], [''c3'', ''c4'', ''p1'', ''p2''], [''c1'', ''c2''], [''p1'', ''p2''], None)"
    by (simp add: SwapValidator_def swap_def slice_to_def slice_from_def Let_def)
  from swap_v1_conserves [OF this] show ?thesis by simp
qed

text \<open>Creating a swap instruction for a committee between its minimal and its maximal size succeeds for
  offsets that are not negative and at most the maximal size, and leaves a committee that is not
  smaller than before and not larger than the maximal size.\<close>

theorem createSwapInstruction_ok:
  assumes "mn \<le> int (length committees)" and "int (length committees) \<le> mx"
    and "0 \<le> off" and "off \<le> mx" and "0 \<le> swapOff" and "swapOff \<le> mx"
  shows "\<exists>(i :: ('k, 'p) SwapInstruction) p c.
    createSwapInstruction pending committees mx mn shardID off swapOff = Inr (i, p, c) \<and>
    length committees \<le> length c \<and> int (length c) \<le> mx \<and>
    mset c + mset (sw_OutPublicKeys i) = mset committees + mset (sw_InPublicKeys i)"
proof -
  define o1 where "o1 = (if int (length committees) = mx then swapOff else off)"
  define o2 where "o2 = (if o1 > int (length pending) then int (length pending) else o1)"
  have o2: "0 \<le> o2" "o2 \<le> int (length pending)" "o2 \<le> mx" using assms by (auto simp: o2_def o1_def)
  have eq: "SwapValidator pending committees mx mn off swapOff = swap [] pending committees [] mx o2"
    using assms(1) by (simp add: SwapValidator_def Let_def o1_def o2_def)
  from swap_ok [OF o2(1,2) assms(2)] o2(3) obtain p c out entered where
    sw: "swap [] pending committees [] mx o2 = Inr (p, c, out, entered, None)" and
    sz: "int (length c) \<le> mx" "length committees \<le> length c" by fastforce
  from swap_split [OF sw] have "mset c + mset out = mset committees + mset entered" by (simp add: v1_split_def)
  then show ?thesis using sw sz eq
    by (simp add: createSwapInstruction_def NewSwapInstructionWithValue_def NewSwapInstruction_def)
qed

theorem createSwapInstruction_ok_witness:
  "\<exists>(i :: (string, string) SwapInstruction) p c.
    createSwapInstruction [''p1''] [''c1'', ''c2'', ''c3''] 4 2 7 1 1 = Inr (i, p, c) \<and>
    length [''c1'', ''c2'', ''c3''] \<le> length c \<and> int (length c) \<le> 4 \<and>
    mset c + mset (sw_OutPublicKeys i) = mset [''c1'', ''c2'', ''c3''] + mset (sw_InPublicKeys i)"
  by (rule createSwapInstruction_ok) simp_all

end
