(* ===== verification/Instruction_Codec.thy ===== *)
theory Instruction_Codec
  imports Staking_Instructions
begin

text \<open>
  The contract of an instruction codec as a locale (\<open>instruction_codec\<close>): import undoes
  \<^verbatim>\<open>ToString\<close> on well-formed instructions, and an import only accepts its own action. Its
  extension \<open>canonical_codec\<close> adds that printing undoes import. Every instruction of
  \<^verbatim>\<open>src/instruction\<close> modelled here is an interpretation, and the dispatcher's round trip is proved
  from these interpretations.
\<close>

section \<open>Codec interfaces\<close>

locale instruction_codec =
  fixes to_string :: "'i \<Rightarrow> string list"
    and import :: "string list \<Rightarrow> 'i go"
    and wf :: "'i \<Rightarrow> bool"
    and action :: string
  assumes import_to_string: "wf i \<Longrightarrow> import (to_string i) = Inr i"
    and to_string_action: "\<exists>rest. to_string i = action # rest"
    and import_action: "import s = Inr i \<Longrightarrow> \<exists>rest. s = action # rest"
begin

lemma to_string_inj: "wf i \<Longrightarrow> wf j \<Longrightarrow> to_string i = to_string j \<Longrightarrow> i = j"
  using import_to_string by (metis sum.inject(2))

lemma import_all: "(\<forall>i \<in> set is. wf i) \<Longrightarrow> go_map import (map to_string is) = Inr is"
  by (induction "is") (auto simp: import_to_string)

lemma import_other: "s = other # rest \<Longrightarrow> other \<noteq> action \<Longrightarrow> \<exists>e. import s = Inl e"
  using import_action by (cases "import s") auto

end

locale canonical_codec = instruction_codec +
  assumes to_string_import: "import s = Inr i \<Longrightarrow> to_string i = s"
begin

lemma import_inj: "import s = Inr i \<Longrightarrow> import t = Inr i \<Longrightarrow> s = t"
  using to_string_import by metis

end

definition go_deref :: "'a option go \<Rightarrow> 'a go" where
  "go_deref m = go_bind m (\<lambda>p. case p of None \<Rightarrow> Inl GoPanic | Some x \<Rightarrow> Inr x)"

lemma go_deref_eq_Inr [simp]: "go_deref m = Inr x \<longleftrightarrow> m = Inr (Some x)"
  by (auto simp: go_deref_def split: option.splits)

section \<open>Well-formed instructions\<close>

definition wf_Random :: "RandomInstruction \<Rightarrow> bool" where
  "wf_Random s \<longleftrightarrow> is_int64 (randomNumber s)"

definition wf_StopAutoStake :: "('k, 'h, 'p) codec \<Rightarrow> 'k StopAutoStakeInstruction \<Rightarrow> bool" where
  "wf_StopAutoStake cdc s \<longleftrightarrow>
     key_list cdc (sas_CommitteePublicKeys s) \<and>
     sas_CommitteePublicKeysStruct s = keys_of cdc (sas_CommitteePublicKeys s)"

definition wf_Unstake :: "('k, 'h, 'p) codec \<Rightarrow> 'k UnstakeInstruction \<Rightarrow> bool" where
  "wf_Unstake cdc s \<longleftrightarrow>
     key_list cdc (us_CommitteePublicKeys s) \<and>
     us_CommitteePublicKeysStruct s = keys_of cdc (us_CommitteePublicKeys s)"

definition wf_SwapShard :: "('k, 'h, 'p) codec \<Rightarrow> 'k SwapShardInstruction \<Rightarrow> bool" where
  "wf_SwapShard cdc s \<longleftrightarrow>
     key_list cdc (ss_InPublicKeys s) \<and> ss_InPublicKeyStructs s = keys_of cdc (ss_InPublicKeys s) \<and>
     key_list cdc (ss_OutPublicKeys s) \<and> ss_OutPublicKeyStructs s = keys_of cdc (ss_OutPublicKeys s) \<and>
     is_int64 (ss_ChainID s) \<and> 0 \<le> ss_ChainID s \<and> is_int64 (ss_Type s)"

definition wf_FinishSync :: "('k, 'h, 'p) codec \<Rightarrow> 'k FinishSyncInstruction \<Rightarrow> bool" where
  "wf_FinishSync cdc f \<longleftrightarrow>
     fs_PublicKeys f \<noteq> [] \<and> key_list cdc (fs_PublicKeys f) \<and>
     fs_PublicKeysStruct f = keys_of cdc (fs_PublicKeys f) \<and> is_int64 (fs_ChainID f)"

definition wf_Assign :: "('k, 'h, 'p) codec \<Rightarrow> 'k AssignInstruction \<Rightarrow> bool" where
  "wf_Assign cdc a \<longleftrightarrow>
     as_ShardCandidates a \<noteq> [] \<and> key_list cdc (as_ShardCandidates a) \<and>
     as_ShardCandidatesStruct a = keys_of cdc (as_ShardCandidates a) \<and> is_int64 (as_ChainID a)"

definition wf_EnableFeature :: "EnableFeatureInstruction \<Rightarrow> bool" where
  "wf_EnableFeature f \<longleftrightarrow> Features f \<noteq> [] \<and> wire_list (Features f)"

definition wf_AddStaking :: "('k, 'h, 'p) codec \<Rightarrow> 'k AddStakingInstruction \<Rightarrow> bool" where
  "wf_AddStaking cdc s \<longleftrightarrow>
     key_list cdc (ad_CommitteePublicKeys s) \<and>
     ad_CommitteePublicKeysStruct s = keys_of cdc (ad_CommitteePublicKeys s) \<and>
     ad_StakingAmount s \<noteq> [] \<and> (\<forall>n \<in> set (ad_StakingAmount s). n \<le> max_uint64) \<and>
     wire_list (ad_StakingTxIDs s)"

definition hash_list :: "('k, 'h, 'p) codec \<Rightarrow> string list \<Rightarrow> bool" where
  "hash_list cdc xs \<longleftrightarrow> xs \<noteq> [] \<and> wire_list xs \<and> (\<forall>x \<in> set xs. NewHashFromStr cdc x \<noteq> None)"

definition receiver_list :: "('k, 'h, 'p) codec \<Rightarrow> string list \<Rightarrow> bool" where
  "receiver_list cdc xs \<longleftrightarrow>
     xs \<noteq> [] \<and> wire_list xs \<and> (\<forall>x \<in> set xs. Base58CheckDeserialize cdc x \<noteq> None)"

text \<open>
  A beacon swap instruction with new reward receivers has no field for the punished keys on the
  wire that the import reads, so they are empty in a well-formed one.
\<close>

definition wf_Swap :: "('k, 'h, 'p) codec \<Rightarrow> ('k, 'p) SwapInstruction \<Rightarrow> bool" where
  "wf_Swap cdc s \<longleftrightarrow>
     key_list cdc (sw_InPublicKeys s) \<and> sw_InPublicKeyStructs s = keys_of cdc (sw_InPublicKeys s) \<and>
     key_list cdc (sw_OutPublicKeys s) \<and> sw_OutPublicKeyStructs s = keys_of cdc (sw_OutPublicKeys s) \<and>
     is_int64 (sw_ChainID s) \<and>
     (sw_NewRewardReceivers s = [] \<or> receiver_list cdc (sw_NewRewardReceivers s)) \<and>
     sw_NewRewardReceiverStructs s = map (\<lambda>x. the (Base58CheckDeserialize cdc x)) (sw_NewRewardReceivers s) \<and>
     sw_IsReplace s = (sw_NewRewardReceivers s \<noteq> [])"

definition swap_keeps_punished :: "('k, 'p) SwapInstruction \<Rightarrow> bool" where
  "swap_keeps_punished s \<longleftrightarrow>
     (sw_ChainID s = BEACON_CHAIN_ID \<and> sw_NewRewardReceivers s \<noteq> [] \<longrightarrow> sw_PunishedPublicKeys s = [])"

definition wf_Stake :: "('k, 'h, 'p) codec \<Rightarrow> ('k, 'h, 'p) StakeInstruction \<Rightarrow> bool" where
  "wf_Stake cdc s \<longleftrightarrow>
     st_PublicKeys s \<noteq> [] \<and> key_list cdc (st_PublicKeys s) \<and>
     st_PublicKeyStructs s = keys_of cdc (st_PublicKeys s) \<and>
     st_Chain s = SHARD_INST \<and>
     hash_list cdc (st_TxStakes s) \<and>
     st_TxStakeHashes s = map (\<lambda>x. the (NewHashFromStr cdc x)) (st_TxStakes s) \<and>
     receiver_list cdc (st_RewardReceivers s) \<and>
     st_RewardReceiverStructs s = map (\<lambda>x. the (Base58CheckDeserialize cdc x)) (st_RewardReceivers s) \<and>
     length (st_TxStakes s) = length (st_PublicKeys s) \<and>
     length (st_RewardReceivers s) = length (st_PublicKeys s) \<and>
     length (st_AutoStakingFlag s) = length (st_PublicKeys s)"

definition wf_ReturnStake :: "('k, 'h, 'p) codec \<Rightarrow> ('k, 'h) ReturnStakeInstruction \<Rightarrow> bool" where
  "wf_ReturnStake cdc r \<longleftrightarrow>
     rs_PublicKeys r \<noteq> [] \<and> key_list cdc (rs_PublicKeys r) \<and>
     rs_PublicKeysStruct r = keys_of cdc (rs_PublicKeys r) \<and>
     hash_list cdc (rs_StakingTXIDs r) \<and>
     rs_StakingTxHashes r = map (\<lambda>x. the (NewHashFromStr cdc x)) (rs_StakingTXIDs r) \<and>
     (\<forall>n \<in> set (rs_PercentReturns r). n < 2 ^ 64) \<and>
     length (rs_StakingTXIDs r) = length (rs_PublicKeys r) \<and>
     length (rs_PercentReturns r) = length (rs_PublicKeys r)"

definition wf_ReturnBeacon :: "('k, 'h, 'p) codec \<Rightarrow> 'k ReturnBeaconStakeInstruction \<Rightarrow> bool" where
  "wf_ReturnBeacon cdc r \<longleftrightarrow>
     rb_PublicKeys r \<noteq> [] \<and> key_list cdc (rb_PublicKeys r) \<and>
     rb_PublicKeysStruct r = keys_of cdc (rb_PublicKeys r) \<and>
     (\<forall>n \<in> set (rb_PercentReturns r). n < 2 ^ 64) \<and>
     length (rb_PercentReturns r) = length (rb_PublicKeys r) \<and>
     rb_Reasons r \<noteq> [] \<and> (\<forall>i \<in> set (rb_Reasons r). is_int64 i) \<and>
     rb_ReturnAmounts r \<noteq> [] \<and> (\<forall>n \<in> set (rb_ReturnAmounts r). n \<le> max_uint64)"

definition wf_ReDelegate :: "('k, 'h, 'p) codec \<Rightarrow> 'k ReDelegateInstruction \<Rightarrow> bool" where
  "wf_ReDelegate cdc s \<longleftrightarrow>
     key_list cdc (rd_CommitteePublicKeys s) \<and>
     rd_CommitteePublicKeysStruct s = keys_of cdc (rd_CommitteePublicKeys s) \<and>
     key_list cdc (rd_DelegateList s) \<and> rd_DelegateListStruct s = keys_of cdc (rd_DelegateList s) \<and>
     hash_list cdc (rd_DelegateUIDList s)"

section \<open>Decoding of printed fields\<close>

lemma hashes_of_ok [codec_simps]:
  "hash_list cdc xs \<Longrightarrow> hashes_of cdc xs = Inr (map (\<lambda>x. the (NewHashFromStr cdc x)) xs)"
  unfolding hashes_of_def by (rule go_map_ok) (auto simp: hash_list_def)

lemma receivers_of_ok [codec_simps]:
  "receiver_list cdc xs \<Longrightarrow> receivers_of cdc xs = Inr (map (\<lambda>x. the (Base58CheckDeserialize cdc x)) xs)"
  unfolding receivers_of_def by (rule go_map_ok) (auto simp: receiver_list_def)

lemma split_join_hashes [codec_simps]: "hash_list cdc xs \<Longrightarrow> split_list (join_list xs) = xs"
  by (simp add: hash_list_def split_join_wire)

lemma split_join_receivers [codec_simps]: "receiver_list cdc xs \<Longrightarrow> split_list (join_list xs) = xs"
  by (simp add: receiver_list_def split_join_wire)

lemma split_join_keys [codec_simps]: "ks \<noteq> [] \<Longrightarrow> key_list cdc ks \<Longrightarrow> split_list (join_list ks) = ks"
  by (simp add: split_join_wire)

lemma int_of_uint_is_int64: "n < 2 ^ 64 \<Longrightarrow> is_int64 (int_of_uint n)"
  by (auto simp: int_of_uint_def is_int64_def)

lemma uint_of_int_of_uint: "n < 2 ^ 64 \<Longrightarrow> uint_of_int (int_of_uint n) = n"
  by (auto simp: int_of_uint_def uint_of_int_def mod_diff_right_eq)

lemma split_join_itoa [codec_simps]:
  "is \<noteq> [] \<Longrightarrow> split_list (join_list (map go_itoa is)) = map go_itoa is"
  using go_itoa_no_comma by (intro go_split_join) auto

lemma split_join_format [codec_simps]:
  "ns \<noteq> [] \<Longrightarrow> split_list (join_list (map format_nat ns)) = map format_nat ns"
proof (rule go_split_join)
  show "\<forall>x \<in> set (map format_nat ns). SPLITTER \<notin> set x"
    using format_nat_digits digit_char_neq(1) by auto metis
qed simp

lemma parse_ints_itoa [codec_simps]:
  "\<forall>i \<in> set is. is_int64 i \<Longrightarrow> parse_ints msg (map go_itoa is) = Inr is"
  unfolding parse_ints_def by (induction "is") auto

lemma parse_amounts_format [codec_simps]:
  "\<forall>n \<in> set ns. n \<le> max_uint64 \<Longrightarrow> parse_amounts (map format_nat ns) = Inr ns"
  unfolding parse_amounts_def by (induction ns) (auto simp: go_parse_uint_format)

lemma parse_uints_itoa [codec_simps]:
  assumes "\<forall>n \<in> set ns. n < 2 ^ 64"
  shows "parse_uints msg (map (\<lambda>v. go_itoa (int_of_uint v)) ns) = Inr ns"
proof -
  have "parse_ints msg (map go_itoa (map int_of_uint ns)) = Inr (map int_of_uint ns)"
    using assms by (intro parse_ints_itoa) (auto intro: int_of_uint_is_int64)
  moreover have "map uint_of_int (map int_of_uint ns) = ns"
    using assms by (auto simp: uint_of_int_of_uint intro: map_idI)
  ultimately show ?thesis by (simp add: parse_uints_def comp_def)
qed

lemma split_join_itoa_uint [codec_simps]:
  "ns \<noteq> [] \<Longrightarrow> split_list (join_list (map (\<lambda>v. go_itoa (int_of_uint v)) ns)) =
     map (\<lambda>v. go_itoa (int_of_uint v)) ns"
  using split_join_itoa [of "map int_of_uint ns"] by (simp add: comp_def)

lemma split_join_flags [codec_simps]:
  "fs \<noteq> [] \<Longrightarrow> split_list (join_list (map flag_str fs)) = map flag_str fs"
  by (rule go_split_join) (auto simp: flag_str_def)

lemma flag_str_inv [simp]: "flag_str b = ''true'' \<longleftrightarrow> b"
  by (simp add: flag_str_def)

lemma keys_of_Nil [simp]: "keys_of cdc [] = []"
  by (simp add: keys_of_def)

lemma key_field [codec_simps]:
  "key_list cdc ks \<Longrightarrow> (if length (join_list ks) > 0 then split_list (join_list ks) else []) = ks"
  by (cases "ks = []") (auto simp: join_wire_Nil split_join_wire)

section \<open>Every instruction is a codec\<close>

lemma go_index_Cons [simp]:
  "go_index (x # xs) 0 = Inr x"
  "0 < i \<Longrightarrow> go_index (x # xs) i = go_index xs (i - 1)"
  by (auto simp: go_index_def nth_Cons' nat_diff_distrib)

lemma head_of_length: "xs \<noteq> [] \<Longrightarrow> xs ! 0 = a \<Longrightarrow> \<exists>rest. xs = a # rest"
  by (cases xs) auto

interpretation random_codec: instruction_codec RandomInstruction_ToString
  ValidateAndImportRandomInstructionFromString wf_Random RANDOM_ACTION
proof unfold_locales
  show "ValidateAndImportRandomInstructionFromString (RandomInstruction_ToString i) = Inr i"
    if "wf_Random i" for i
    using that by (simp add: wf_Random_def RandomInstruction_ToString_def go_parse_int_itoa
        ValidateAndImportRandomInstructionFromString_def ValidateRandomInstructionSanity_def
        ImportRandomInstructionFromString_def)
qed (auto simp: RandomInstruction_ToString_def ValidateAndImportRandomInstructionFromString_def
    ValidateRandomInstructionSanity_def split: if_splits intro!: head_of_length)

lemma validate_keys_eq:
  "ValidateStopAutoStakeInstructionSanity cdc [a, b] = (if a = STOP_AUTO_STAKE_ACTION
     then go_bind (CommitteeBase58KeyListToStruct cdc (split_list b)) (\<lambda>_. Inr ())
     else Inl (GoErr ''invalid stop auto stake action''))"
  by (simp add: ValidateStopAutoStakeInstructionSanity_def)

lemma length_2_conv: "length xs = 2 \<longleftrightarrow> (\<exists>a b. xs = [a, b])"
  by (auto simp: length_Suc_conv numeral_2_eq_2)

lemma KeyListToStruct_split_nonempty:
  "s \<noteq> [] \<Longrightarrow> CommitteeBase58KeyListToStruct cdc (split_list s) = go_map (decode_key cdc) (split_list s)"
  using go_join_split [of SPLITTER s] by (auto simp: CommitteeBase58KeyListToStruct_def)

lemma KeyListToStruct_empty [simp]:
  "CommitteeBase58KeyListToStruct cdc [] = Inr []" "CommitteeBase58KeyListToStruct cdc [[]] = Inr []"
  by (simp_all add: CommitteeBase58KeyListToStruct_def)

interpretation stopautostake_codec: canonical_codec StopAutoStake_ToString
  "\<lambda>s. go_deref (ValidateAndImportStopAutoStakeInstructionFromString cdc s)" "wf_StopAutoStake cdc"
  STOP_AUTO_STAKE_ACTION for cdc
proof unfold_locales
  show "go_deref (ValidateAndImportStopAutoStakeInstructionFromString cdc (StopAutoStake_ToString i)) = Inr i"
    if "wf_StopAutoStake cdc i" for i
    using that
    by (cases "sas_CommitteePublicKeys i = []")
      (auto simp: wf_StopAutoStake_def StopAutoStake_ToString_def join_wire_Nil codec_simps
        ValidateAndImportStopAutoStakeInstructionFromString_def ValidateStopAutoStakeInstructionSanity_def
        ImportStopAutoStakeInstructionFromString_def StopAutoStake_SetPublicKeys_def
        NewStopAutoStakeInstruction_def)
next
  fix s and i :: "'a StopAutoStakeInstruction"
  assume "go_deref (ValidateAndImportStopAutoStakeInstructionFromString cdc s) = Inr i"
  then show "StopAutoStake_ToString i = s"
    by (auto simp: ValidateAndImportStopAutoStakeInstructionFromString_def length_2_conv validate_keys_eq
        ValidateStopAutoStakeInstructionSanity_def ImportStopAutoStakeInstructionFromString_def
        StopAutoStake_SetPublicKeys_def StopAutoStake_ToString_def NewStopAutoStakeInstruction_def
        go_join_split split: if_splits)
qed (auto simp: StopAutoStake_ToString_def ValidateAndImportStopAutoStakeInstructionFromString_def
    ValidateStopAutoStakeInstructionSanity_def length_2_conv split: if_splits)

interpretation unstake_codec: canonical_codec Unstake_ToString
  "ValidateAndImportUnstakeInstructionFromString cdc" "wf_Unstake cdc" UNSTAKE_ACTION for cdc
proof unfold_locales
  show "ValidateAndImportUnstakeInstructionFromString cdc (Unstake_ToString i) = Inr i"
    if "wf_Unstake cdc i" for i
    using that
    by (cases "us_CommitteePublicKeys i = []")
      (auto simp: wf_Unstake_def Unstake_ToString_def join_wire_Nil codec_simps
        ValidateAndImportUnstakeInstructionFromString_def ValidateUnstakeInstructionSanity_def
        ImportUnstakeInstructionFromString_def NewUnstakeInstruction_def Let_def)
next
  fix s and i :: "'a UnstakeInstruction"
  assume "ValidateAndImportUnstakeInstructionFromString cdc s = Inr i"
  then show "Unstake_ToString i = s"
    by (auto simp: ValidateAndImportUnstakeInstructionFromString_def length_2_conv
        ValidateUnstakeInstructionSanity_def ImportUnstakeInstructionFromString_def Unstake_ToString_def
        NewUnstakeInstruction_def Let_def go_join_split split: if_splits)
qed (auto simp: Unstake_ToString_def ValidateAndImportUnstakeInstructionFromString_def
    ValidateUnstakeInstructionSanity_def length_2_conv split: if_splits)

interpretation swapshard_codec: instruction_codec SwapShard_ToString
  "ValidateAndImportSwapShardInstructionFromString cdc" "wf_SwapShard cdc" SWAP_SHARD_ACTION for cdc
proof unfold_locales
  show "ValidateAndImportSwapShardInstructionFromString cdc (SwapShard_ToString i) = Inr i"
    if "wf_SwapShard cdc i" for i
    using that key_field [of cdc "ss_InPublicKeys i"] key_field [of cdc "ss_OutPublicKeys i"]
    by (simp add: wf_SwapShard_def SwapShard_ToString_def codec_simps go_parse_uint_itoa go_parse_int_itoa
        ValidateAndImportSwapShardInstructionFromString_def ValidateSwapShardInstructionSanity_def
        ImportSwapShardInstructionFromString_def SwapShard_SetInPublicKeys_def SwapShard_SetOutPublicKeys_def
        NewSwapShardInstruction_def NewSwapShardInstructionWithShardID_def del: length_greater_0_conv split del: if_split)
qed (auto simp: SwapShard_ToString_def ValidateAndImportSwapShardInstructionFromString_def
    ValidateSwapShardInstructionSanity_def split: if_splits intro!: head_of_length)

interpretation finishsync_codec: instruction_codec FinishSync_ToString
  "ValidateAndImportFinishSyncInstructionFromString cdc" "wf_FinishSync cdc" FINISH_SYNC_ACTION for cdc
proof unfold_locales
  show "ValidateAndImportFinishSyncInstructionFromString cdc (FinishSync_ToString i) = Inr i"
    if "wf_FinishSync cdc i" for i
    using that
    by (auto simp: wf_FinishSync_def FinishSync_ToString_def codec_simps
        ValidateAndImportFinishSyncInstructionFromString_def ValidateFinishSyncInstructionSanity_def
        ImportFinishSyncInstructionFromString_def)
qed (auto simp: FinishSync_ToString_def ValidateAndImportFinishSyncInstructionFromString_def
    ValidateFinishSyncInstructionSanity_def split: if_splits intro!: head_of_length)

interpretation assign_codec: instruction_codec Assign_ToString
  "ValidateAndImportAssignInstructionFromString cdc" "wf_Assign cdc" ASSIGN_ACTION for cdc
proof unfold_locales
  show "ValidateAndImportAssignInstructionFromString cdc (Assign_ToString i) = Inr i"
    if "wf_Assign cdc i" for i
    using that
    by (auto simp: wf_Assign_def Assign_ToString_def codec_simps
        ValidateAndImportAssignInstructionFromString_def ValidateAssignInstructionSanity_def
        ImportAssignInstructionFromString_def)
qed (auto simp: Assign_ToString_def ValidateAndImportAssignInstructionFromString_def
    ValidateAssignInstructionSanity_def split: if_splits intro!: head_of_length)

interpretation enablefeature_codec: canonical_codec EnableFeature_ToString
  ValidateAndImportEnableFeatureInstructionFromString wf_EnableFeature ENABLE_FEATURE
proof unfold_locales
  show "ValidateAndImportEnableFeatureInstructionFromString (EnableFeature_ToString i) = Inr i"
    if "wf_EnableFeature i" for i
    using that
    by (simp add: wf_EnableFeature_def EnableFeature_ToString_def split_join_wire
        ValidateAndImportEnableFeatureInstructionFromString_def ValidateEnableFeatureInstructionSanity_def
        ImportEnableFeatureInstructionFromString_def)
next
  fix s i assume "ValidateAndImportEnableFeatureInstructionFromString s = Inr i"
  then show "EnableFeature_ToString i = s"
    by (auto simp: ValidateAndImportEnableFeatureInstructionFromString_def length_2_conv
        ValidateEnableFeatureInstructionSanity_def ImportEnableFeatureInstructionFromString_def
        EnableFeature_ToString_def go_join_split split: if_splits)
qed (auto simp: EnableFeature_ToString_def ValidateAndImportEnableFeatureInstructionFromString_def
    ValidateEnableFeatureInstructionSanity_def split: if_splits intro!: head_of_length)

interpretation addstaking_codec: instruction_codec AddStaking_ToString
  "\<lambda>s. go_deref (ValidateAndImportAddStakingInstructionFromString cdc s)" "wf_AddStaking cdc"
  ADD_STAKING_ACTION for cdc
proof unfold_locales
  show "go_deref (ValidateAndImportAddStakingInstructionFromString cdc (AddStaking_ToString i)) = Inr i"
    if "wf_AddStaking cdc i" for i
    using that
    by (cases "ad_CommitteePublicKeys i = []"; cases "ad_StakingTxIDs i = []")
      (auto simp: wf_AddStaking_def AddStaking_ToString_def codec_simps join_wire_Nil split_join_wire
        ValidateAndImportAddStakingInstructionFromString_def ValidateAddStakingInstructionSanity_def
        ImportAddStakingInstructionFromString_def AddStaking_SetPublicKeys_def
        NewAddStakingInstruction_def Let_def)
qed (auto simp: AddStaking_ToString_def ValidateAndImportAddStakingInstructionFromString_def
    ValidateAddStakingInstructionSanity_def split: if_splits intro!: head_of_length)

text \<open>
  What the swap codec does to any well-formed instruction: a beacon instruction with new reward
  receivers loses its punished keys on the way, every other one comes back as it was.
\<close>

lemma swap_import_to_string:
  assumes "wf_Swap cdc s"
  shows "ValidateAndImportSwapInstructionFromString cdc (Swap_ToString s) =
    Inr (if sw_ChainID s = BEACON_CHAIN_ID \<and> sw_NewRewardReceivers s \<noteq> []
         then s\<lparr>sw_PunishedPublicKeys := []\<rparr> else s)"
proof -
  note fields = key_field [of cdc "sw_InPublicKeys s"] key_field [of cdc "sw_OutPublicKeys s"]
  show ?thesis
  proof (cases "sw_NewRewardReceivers s = []")
    case True
    then show ?thesis
      using assms fields
      by (cases "sw_ChainID s = BEACON_CHAIN_ID")
        (simp_all add: wf_Swap_def Swap_ToString_def codec_simps Let_def receivers_of_def
          ValidateAndImportSwapInstructionFromString_def ValidateSwapInstructionSanity_def
          ImportSwapInstructionFromString_def NewSwapInstruction_def del: length_greater_0_conv)
  next
    case False
    with assms have rec: "receiver_list cdc (sw_NewRewardReceivers s)" by (simp add: wf_Swap_def)
    show ?thesis
      using False assms fields receivers_of_ok [OF rec] split_join_receivers [OF rec]
      by (cases "sw_ChainID s = BEACON_CHAIN_ID")
        (simp_all add: wf_Swap_def Swap_ToString_def codec_simps Let_def
          ValidateAndImportSwapInstructionFromString_def ValidateSwapInstructionSanity_def
          ImportSwapInstructionFromString_def NewSwapInstruction_def)
  qed
qed

interpretation swap_codec: instruction_codec Swap_ToString
  "ValidateAndImportSwapInstructionFromString cdc" "\<lambda>s. wf_Swap cdc s \<and> swap_keeps_punished s"
  SWAP_ACTION for cdc
proof unfold_locales
  show "ValidateAndImportSwapInstructionFromString cdc (Swap_ToString i) = Inr i"
    if "wf_Swap cdc i \<and> swap_keeps_punished i" for i
    using that swap_import_to_string [of cdc i] by (auto simp: swap_keeps_punished_def)
qed (auto simp: Swap_ToString_def ValidateAndImportSwapInstructionFromString_def
    ValidateSwapInstructionSanity_def split: if_splits intro!: head_of_length)

interpretation stake_codec: instruction_codec Stake_ToString
  "ValidateAndImportStakeInstructionFromString cdc" "wf_Stake cdc" STAKE_ACTION for cdc
proof unfold_locales
  fix i :: "('a, 'b, 'c) StakeInstruction"
  assume wf: "wf_Stake cdc i"
  then have keys: "split_list (join_list (st_PublicKeys i)) = st_PublicKeys i"
    and txs: "split_list (join_list (st_TxStakes i)) = st_TxStakes i"
    and recs: "split_list (join_list (st_RewardReceivers i)) = st_RewardReceivers i"
    and flags: "split_list (join_list (map flag_str (st_AutoStakingFlag i))) = map flag_str (st_AutoStakingFlag i)"
    by (auto simp: wf_Stake_def split_join_wire hash_list_def receiver_list_def intro!: split_join_flags)
  show "ValidateAndImportStakeInstructionFromString cdc (Stake_ToString i) = Inr i"
    using wf
    by (simp add: wf_Stake_def Stake_ToString_def keys txs recs flags codec_simps Let_def comp_def
        ValidateAndImportStakeInstructionFromString_def ValidateStakeInstructionSanity_def
        ImportStakeInstructionFromString_def)
qed (auto simp: Stake_ToString_def ValidateAndImportStakeInstructionFromString_def Let_def
    ValidateStakeInstructionSanity_def split: if_splits intro!: head_of_length)

interpretation return_codec: instruction_codec ReturnStake_ToString
  "ValidateAndImportReturnStakingInstructionFromString cdc" "wf_ReturnStake cdc" RETURN_ACTION for cdc
proof unfold_locales
  fix i :: "('a, 'b) ReturnStakeInstruction"
  assume wf: "wf_ReturnStake cdc i"
  then have keys: "split_list (join_list (rs_PublicKeys i)) = rs_PublicKeys i"
    and txs: "split_list (join_list (rs_StakingTXIDs i)) = rs_StakingTXIDs i"
    and percents: "split_list (join_list (map (\<lambda>v. go_itoa (int_of_uint v)) (rs_PercentReturns i))) =
      map (\<lambda>v. go_itoa (int_of_uint v)) (rs_PercentReturns i)"
    by (auto simp: wf_ReturnStake_def split_join_wire hash_list_def intro!: split_join_itoa_uint)
  show "ValidateAndImportReturnStakingInstructionFromString cdc (ReturnStake_ToString i) = Inr i"
    using wf
    by (simp add: wf_ReturnStake_def ReturnStake_ToString_def keys txs percents codec_simps Let_def
        ValidateAndImportReturnStakingInstructionFromString_def ValidateReturnStakingInstructionSanity_def
        ImportReturnStakingInstructionFromString_def)
qed (auto simp: ReturnStake_ToString_def ValidateAndImportReturnStakingInstructionFromString_def
    ValidateReturnStakingInstructionSanity_def split: if_splits intro!: head_of_length)

interpretation returnbeacon_codec: instruction_codec ReturnBeacon_ToString
  "ValidateAndImportReturnBeaconStakingInstructionFromString cdc" "wf_ReturnBeacon cdc"
  RETURN_BEACON_ACTION for cdc
proof unfold_locales
  fix i :: "'a ReturnBeaconStakeInstruction"
  assume wf: "wf_ReturnBeacon cdc i"
  then have keys: "split_list (join_list (rb_PublicKeys i)) = rb_PublicKeys i"
    and percents: "split_list (join_list (map (\<lambda>v. go_itoa (int_of_uint v)) (rb_PercentReturns i))) =
      map (\<lambda>v. go_itoa (int_of_uint v)) (rb_PercentReturns i)"
    by (auto simp: wf_ReturnBeacon_def split_join_wire intro!: split_join_itoa_uint)
  show "ValidateAndImportReturnBeaconStakingInstructionFromString cdc (ReturnBeacon_ToString i) = Inr i"
    using wf
    by (simp add: wf_ReturnBeacon_def ReturnBeacon_ToString_def keys percents codec_simps Let_def
        ValidateAndImportReturnBeaconStakingInstructionFromString_def
        ValidateReturnBeaconStakingInstructionSanity_def ImportReturnBeaconStakingInstructionFromString_def)
qed (auto simp: ReturnBeacon_ToString_def ValidateAndImportReturnBeaconStakingInstructionFromString_def
    ValidateReturnBeaconStakingInstructionSanity_def split: if_splits intro!: head_of_length)

interpretation redelegate_codec: instruction_codec ReDelegate_ToString
  "\<lambda>s. go_deref (BuildReDelegateInstructionFromString cdc s)" "wf_ReDelegate cdc" RE_DELEGATE for cdc
proof unfold_locales
  fix i :: "'a ReDelegateInstruction"
  assume wf: "wf_ReDelegate cdc i"
  then have uids: "split_list (join_list (rd_DelegateUIDList i)) = rd_DelegateUIDList i"
    and uids_ne: "join_list (rd_DelegateUIDList i) \<noteq> []"
    by (auto simp: wf_ReDelegate_def split_join_wire hash_list_def join_wire_Nil)
  show "go_deref (BuildReDelegateInstructionFromString cdc (ReDelegate_ToString i)) = Inr i"
    using wf uids_ne
    by (cases "rd_CommitteePublicKeys i = []"; cases "rd_DelegateList i = []")
      (auto simp: wf_ReDelegate_def ReDelegate_ToString_def uids codec_simps join_wire_Nil through_ptr_def
        BuildReDelegateInstructionFromString_def ValidateReDelegateInstructionSanity_def
        ImportReDelegateInstructionFromString_def ReDelegate_SetPublicKeys_def
        ReDelegate_SetDelegateList_def NewReDelegateInstruction_def)
qed (auto simp: ReDelegate_ToString_def BuildReDelegateInstructionFromString_def
    ValidateReDelegateInstructionSanity_def split: if_splits intro!: head_of_length)

section \<open>The dispatcher\<close>

text \<open>The \<^verbatim>\<open>ToString\<close> method of the \<^verbatim>\<open>Instruction\<close> interface; through a nil pointer it panics.\<close>

fun Instruction_ToString :: "('k, 'h, 'p) Instruction \<Rightarrow> string list go" where
  "Instruction_ToString (StakeI x) = Inr (Stake_ToString x)"
| "Instruction_ToString (RandomI x) = Inr (RandomInstruction_ToString x)"
| "Instruction_ToString (StopAutoStakeI (Some x)) = Inr (StopAutoStake_ToString x)"
| "Instruction_ToString (SwapI x) = Inr (Swap_ToString x)"
| "Instruction_ToString (SwapShardI x) = Inr (SwapShard_ToString x)"
| "Instruction_ToString (FinishSyncI x) = Inr (FinishSync_ToString x)"
| "Instruction_ToString (UnstakeI x) = Inr (Unstake_ToString x)"
| "Instruction_ToString (AddStakingI (Some x)) = Inr (AddStaking_ToString x)"
| "Instruction_ToString (ReturnStakingI x) = Inr (ReturnStake_ToString x)"
| "Instruction_ToString (ReturnBeaconStakingI x) = Inr (ReturnBeacon_ToString x)"
| "Instruction_ToString (ReDelegateI (Some x)) = Inr (ReDelegate_ToString x)"
| "Instruction_ToString (StopAutoStakeI None) = Inl GoPanic"
| "Instruction_ToString (AddStakingI None) = Inl GoPanic"
| "Instruction_ToString (ReDelegateI None) = Inl GoPanic"

fun wf_Instruction :: "('k, 'h, 'p) codec \<Rightarrow> ('k, 'h, 'p) Instruction \<Rightarrow> bool" where
  "wf_Instruction cdc (StakeI x) = wf_Stake cdc x"
| "wf_Instruction cdc (RandomI x) = wf_Random x"
| "wf_Instruction cdc (StopAutoStakeI p) = (case p of None \<Rightarrow> False | Some x \<Rightarrow> wf_StopAutoStake cdc x)"
| "wf_Instruction cdc (SwapI x) = (wf_Swap cdc x \<and> swap_keeps_punished x)"
| "wf_Instruction cdc (SwapShardI x) = wf_SwapShard cdc x"
| "wf_Instruction cdc (FinishSyncI x) = wf_FinishSync cdc x"
| "wf_Instruction cdc (UnstakeI x) = wf_Unstake cdc x"
| "wf_Instruction cdc (AddStakingI p) = (case p of None \<Rightarrow> False | Some x \<Rightarrow> wf_AddStaking cdc x)"
| "wf_Instruction cdc (ReturnStakingI x) = wf_ReturnStake cdc x"
| "wf_Instruction cdc (ReturnBeaconStakingI x) = wf_ReturnBeacon cdc x"
| "wf_Instruction cdc (ReDelegateI p) = (case p of None \<Rightarrow> False | Some x \<Rightarrow> wf_ReDelegate cdc x)"

lemma dispatch_roundtrip_aux:
  assumes "wf_Instruction cdc i" and "Instruction_ToString i = Inr s"
  shows "ValidateAndImportInstructionFromString cdc s = Inr i"
proof -
  note defs = ValidateAndImportInstructionFromString_def IsConsensusInstruction_def go_lift_def
  show ?thesis
  proof (cases i)
    case (StakeI x)
    with assms stake_codec.import_to_string [of cdc x] stake_codec.to_string_action [of x]
    show ?thesis by (auto simp: defs)
  next
    case (RandomI x)
    with assms random_codec.import_to_string [of x] random_codec.to_string_action [of x]
    show ?thesis by (auto simp: defs)
  next
    case (StopAutoStakeI p)
    with assms(1) obtain x where p: "p = Some x" by (cases p) auto
    with StopAutoStakeI assms stopautostake_codec.import_to_string [of cdc x] stopautostake_codec.to_string_action [of x]
    show ?thesis by (auto simp: defs)
  next
    case (SwapI x)
    with assms swap_codec.import_to_string [of cdc x] swap_codec.to_string_action [of x]
    show ?thesis by (auto simp: defs)
  next
    case (SwapShardI x)
    with assms swapshard_codec.import_to_string [of cdc x] swapshard_codec.to_string_action [of x]
    show ?thesis by (auto simp: defs)
  next
    case (FinishSyncI x)
    with assms finishsync_codec.import_to_string [of cdc x] finishsync_codec.to_string_action [of x]
    show ?thesis by (auto simp: defs)
  next
    case (UnstakeI x)
    with assms unstake_codec.import_to_string [of cdc x] unstake_codec.to_string_action [of x]
    show ?thesis by (auto simp: defs)
  next
    case (AddStakingI p)
    with assms(1) obtain x where p: "p = Some x" by (cases p) auto
    with AddStakingI assms addstaking_codec.import_to_string [of cdc x] addstaking_codec.to_string_action [of x]
    show ?thesis by (auto simp: defs)
  next
    case (ReturnStakingI x)
    with assms return_codec.import_to_string [of cdc x] return_codec.to_string_action [of x]
    show ?thesis by (auto simp: defs)
  next
    case (ReturnBeaconStakingI x)
    with assms returnbeacon_codec.import_to_string [of cdc x] returnbeacon_codec.to_string_action [of x]
    show ?thesis by (auto simp: defs)
  next
    case (ReDelegateI p)
    with assms(1) obtain x where p: "p = Some x" by (cases p) auto
    with ReDelegateI assms redelegate_codec.import_to_string [of cdc x] redelegate_codec.to_string_action [of x]
    show ?thesis by (auto simp: defs)
  qed
qed

lemma wf_Instruction_prints:
  assumes "wf_Instruction cdc i"
  shows "\<exists>s. Instruction_ToString i = Inr s"
  using assms by (cases i) (auto split: option.splits)

text \<open>C36. Every well-formed consensus instruction prints to a wire form that the dispatcher of
  \<^verbatim>\<open>instruction.go\<close> validates and imports back to the same instruction.\<close>

theorem dispatch_roundtrip:
  assumes "wf_Instruction cdc i"
  shows "\<exists>s. Instruction_ToString i = Inr s \<and> ValidateAndImportInstructionFromString cdc s = Inr i"
  using wf_Instruction_prints [OF assms] dispatch_roundtrip_aux [OF assms] by blast

definition toy_codec :: "(string, string, string) codec" where
  "toy_codec = \<lparr>FromString = (\<lambda>s. if s = [] then None else Some s),
     NewHashFromStr = (\<lambda>s. Some s), Base58CheckDeserialize = (\<lambda>s. if s = [] then None else Some s)\<rparr>"

theorem dispatch_roundtrip_witness:
  "\<exists>s. Instruction_ToString (SwapShardI \<lparr>ss_InPublicKeys = [''k1'', ''k2''],
      ss_InPublicKeyStructs = [''k1'', ''k2''], ss_OutPublicKeys = [], ss_OutPublicKeyStructs = [],
      ss_ChainID = 3, ss_Type = 0\<rparr> :: (string, string, string) Instruction) = Inr s \<and>
    ValidateAndImportInstructionFromString toy_codec s = Inr (SwapShardI \<lparr>ss_InPublicKeys = [''k1'', ''k2''],
      ss_InPublicKeyStructs = [''k1'', ''k2''], ss_OutPublicKeys = [], ss_OutPublicKeyStructs = [],
      ss_ChainID = 3, ss_Type = 0\<rparr>)"
  by (rule dispatch_roundtrip)
    (simp add: wf_SwapShard_def key_list_def wire_list_def keys_of_def toy_codec_def is_int64_def)

text \<open>Importing a list of printed well-formed instructions returns exactly these, in order.\<close>

theorem import_list_roundtrip:
  assumes "\<forall>i \<in> set is. wf_Instruction cdc i" and "go_map Instruction_ToString is = Inr ss"
  shows "ValidateAndImportConsensusInstructionFromListString cdc ss = Inr is"
  using assms
proof (induction "is" arbitrary: ss)
  case Nil
  then show ?case by simp
next
  case (Cons i "is")
  then show ?case using dispatch_roundtrip_aux [of cdc i] by auto
qed

theorem import_list_roundtrip_witness:
  "ValidateAndImportConsensusInstructionFromListString toy_codec
     [[''random'', go_itoa 7, [], [], []], [''unstake'', ''k1,k2'']] =
   Inr [RandomI \<lparr>randomNumber = 7\<rparr>,
     UnstakeI \<lparr>us_CommitteePublicKeys = [''k1'', ''k2''], us_CommitteePublicKeysStruct = [''k1'', ''k2'']\<rparr>]"
  by (rule import_list_roundtrip)
    (simp_all add: wf_Random_def is_int64_def wf_Unstake_def key_list_def wire_list_def keys_of_def
      toy_codec_def RandomInstruction_ToString_def Unstake_ToString_def)

text \<open>Stop-auto-stake and unstake instructions are canonical: what an import accepts is exactly
  what printing its result gives, so two accepted wire forms of one instruction are equal.\<close>

theorem key_instructions_canonical:
  "(ValidateAndImportUnstakeInstructionFromString cdc s = Inr u \<longrightarrow> Unstake_ToString u = s) \<and>
   (ValidateAndImportStopAutoStakeInstructionFromString cdc t = Inr (Some p) \<longrightarrow> StopAutoStake_ToString p = t)"
  using unstake_codec.to_string_import [of cdc s u] stopautostake_codec.to_string_import [of cdc t p]
  by (simp add: go_deref_eq_Inr)

theorem key_instructions_canonical_witness:
  "Unstake_ToString (\<lparr>us_CommitteePublicKeys = [''k1''], us_CommitteePublicKeysStruct = [''k1'']\<rparr>) =
     [''unstake'', ''k1'']"
proof -
  have "ValidateAndImportUnstakeInstructionFromString toy_codec [''unstake'', ''k1''] =
    Inr \<lparr>us_CommitteePublicKeys = [''k1''], us_CommitteePublicKeysStruct = [''k1'']\<rparr>"
    by (simp add: ValidateAndImportUnstakeInstructionFromString_def ValidateUnstakeInstructionSanity_def
        ImportUnstakeInstructionFromString_def CommitteeBase58KeyListToStruct_def decode_key_def toy_codec_def Let_def)
  then show ?thesis using key_instructions_canonical [of toy_codec] by blast
qed

text \<open>The swap codec is lossy in exactly one case: a beacon-chain swap instruction with new
  reward receivers comes back without its punished keys; every other one comes back unchanged.\<close>

theorem swap_roundtrip_exact:
  assumes "wf_Swap cdc s"
  shows "ValidateAndImportSwapInstructionFromString cdc (Swap_ToString s) =
    Inr (if sw_ChainID s = BEACON_CHAIN_ID \<and> sw_NewRewardReceivers s \<noteq> []
         then s\<lparr>sw_PunishedPublicKeys := []\<rparr> else s)"
  using assms by (rule swap_import_to_string)

definition toy_swap :: "(string, string) SwapInstruction" where
  "toy_swap = \<lparr>sw_InPublicKeys = [''k1''], sw_InPublicKeyStructs = [''k1''], sw_OutPublicKeys = [],
     sw_OutPublicKeyStructs = [], sw_ChainID = -1, sw_PunishedPublicKeys = ''{}'',
     sw_NewRewardReceivers = [''r''], sw_NewRewardReceiverStructs = [''r''], sw_IsReplace = True\<rparr>"

theorem swap_roundtrip_exact_witness:
  "ValidateAndImportSwapInstructionFromString toy_codec (Swap_ToString toy_swap) =
     Inr (toy_swap\<lparr>sw_PunishedPublicKeys := []\<rparr>)"
proof -
  have "wf_Swap toy_codec toy_swap"
    by (simp add: wf_Swap_def toy_swap_def toy_codec_def key_list_def wire_list_def keys_of_def
        is_int64_def receiver_list_def)
  from swap_roundtrip_exact [OF this] show ?thesis by (simp add: toy_swap_def)
qed

text \<open>The sanity check of a stake instruction reads the chain field before it checks the length:
  a stake instruction of fewer than three fields makes the dispatcher panic instead of being
  skipped with an error, and so does the import of any list that contains one.\<close>

theorem short_stake_panics:
  "length rest < 2 \<Longrightarrow>
     ValidateAndImportInstructionFromString cdc (STAKE_ACTION # rest) = Inl GoPanic \<and>
     ValidateAndImportConsensusInstructionFromListString cdc ((STAKE_ACTION # rest) # is) = Inl GoPanic"
  by (simp add: ValidateAndImportInstructionFromString_def IsConsensusInstruction_def go_lift_def
      ValidateAndImportStakeInstructionFromString_def ValidateStakeInstructionSanity_def go_index_def)

theorem short_stake_panics_witness:
  "ValidateAndImportInstructionFromString toy_codec [''stake'', ''k1''] = Inl GoPanic"
  using short_stake_panics [of "[''k1'']" toy_codec "[]"] by simp

text \<open>The sanity check of an add-staking instruction does not look at the amounts: with decodable
  keys and an amount list that does not parse, validate-and-import returns the nil pointer together
  with a nil error.\<close>

theorem addstaking_bad_amount_nil:
  assumes "go_ok (CommitteeBase58KeyListToStruct cdc (split_list keys))"
    and "\<not> go_ok (parse_amounts (split_list amounts))"
  shows "ValidateAndImportAddStakingInstructionFromString cdc [ADD_STAKING_ACTION, keys, amounts, txs] = Inr None"
  using assms
  by (auto simp: ValidateAndImportAddStakingInstructionFromString_def ValidateAddStakingInstructionSanity_def
      ImportAddStakingInstructionFromString_def go_ok_iff Let_def split: sum.splits)

theorem addstaking_bad_amount_nil_witness:
  "ValidateAndImportAddStakingInstructionFromString toy_codec [''addstake'', ''k1'', ''1x'', ''t''] = Inr None"
  by (rule addstaking_bad_amount_nil)
    (simp_all add: CommitteeBase58KeyListToStruct_def decode_key_def toy_codec_def parse_amounts_def
      go_parse_uint_def char_digit_def)

end
