(* ===== verification/Shard_Committee.thy ===== *)
theory Shard_Committee
  imports Committee_Change Swap_V1 Instruction_Codec
begin

text \<open>
  The committee state of a shard: \<^verbatim>\<open>shard_committee_state_v1.go\<close> (the shard swaps its own validators: assigned substitutes wait in a
  queue, a swap instruction in the shard block moves them), \<^verbatim>\<open>shard_committee_state_v2.go\<close> and \<^verbatim>\<open>_v3.go\<close> (the shard takes its
  committee from the beacon) of \<^verbatim>\<open>src/blockchain/committeestate\<close>. Hashing (\<^verbatim>\<open>GenerateHashFromStringArray\<close>) and the comparison of key structs
  (\<^verbatim>\<open>IsEqual\<close>) are parameters; the data of a token transaction is a field of it.
\<close>

section \<open>State and environment\<close>

record ShardCommitteeStateV1 =
  scs_committee :: "string list"
  scs_substitute :: "string list"

record ShardCommitteeStateV2 =
  sc2_committee :: "string list"

record ShardCommitteeStateEnvironment =
  se_ShardInstructions :: "string list list"
  se_BeaconInstructions :: "string list list"
  se_Epoch :: nat
  se_EpochBreakPointSwapNewKey :: "nat list"
  se_ShardID :: nat
  se_MaxShardCommitteeSize :: int
  se_MinShardCommitteeSize :: int
  se_Offset :: int
  se_SwapOffset :: int
  se_NumberOfFixedBlockValidators :: int
  se_CommitteesFromBeaconView :: "string list"

text \<open>The map \<^verbatim>\<open>ShardCommitteeReplaced\<close> (keys in, keys out) beside the rest of a committee change.\<close>

type_synonym 'k shard_change = "'k CommitteeChange \<times> (nat \<rightharpoonup> 'k list \<times> 'k list)"

section \<open>Version 1\<close>

definition extractAssignInstruction :: "('k, 'h, 'p) codec \<Rightarrow> string list list \<Rightarrow> nat \<Rightarrow> string list go" where
  "extractAssignInstruction cdc listInstructions shardID =
     go_foldl (\<lambda>newSubstitutes inst. go_catch (ValidateAndImportAssignInstructionFromString cdc inst) (Inr newSubstitutes) (\<lambda>assign.
       Inr (if as_ChainID assign = int shardID then newSubstitutes @ as_ShardCandidates assign else newSubstitutes))) [] listInstructions"

definition processInstructionFromBeacon :: "('k, 'h, 'p) codec \<Rightarrow> string list list \<Rightarrow> nat \<Rightarrow> ShardCommitteeStateV1 \<Rightarrow> 'k shard_change \<Rightarrow>
    (ShardCommitteeStateV1 \<times> 'k shard_change) go" where
  "processInstructionFromBeacon cdc listInstructions shardID s = (\<lambda>(change, replaced).
     go_bind (extractAssignInstruction cdc listInstructions shardID) (\<lambda>newSubstitutes.
       Inr (s\<lparr>scs_substitute := scs_substitute s @ newSubstitutes\<rparr>,
         change\<lparr>ShardSubstituteAdded := shard_extend (ShardSubstituteAdded change) shardID (structs_of cdc newSubstitutes)\<rparr>, replaced)))"

definition ProcessAssignInstructions :: "('k, 'h, 'p) codec \<Rightarrow> ShardCommitteeStateEnvironment \<Rightarrow> 'k list go" where
  "ProcessAssignInstructions cdc env =
     go_bind (extractAssignInstruction cdc (se_BeaconInstructions env) (se_ShardID env)) (\<lambda>newSubstitutes. Inr (structs_of cdc newSubstitutes))"

text \<open>A key that enters the committee in the block in which it was assigned is no substitute added by the block, and one that was
  assigned before is a substitute removed by it.\<close>

definition filteredShardSubstituteAdded :: "('k \<Rightarrow> 'k \<Rightarrow> bool) \<Rightarrow> 'k list \<Rightarrow> 'k list \<Rightarrow> 'k list" where
  "filteredShardSubstituteAdded isEqual added entered = filter (\<lambda>k. \<not> list_ex (isEqual k) entered) added"

definition filteredShardSubstituteRemoved :: "('k \<Rightarrow> 'k \<Rightarrow> bool) \<Rightarrow> 'k list \<Rightarrow> 'k list \<Rightarrow> 'k list" where
  "filteredShardSubstituteRemoved isEqual added entered = filter (\<lambda>k. \<not> list_ex (\<lambda>a. isEqual a k) added) entered"

definition process_shard_swap :: "('k, 'h, 'p) codec \<Rightarrow> ('k \<Rightarrow> 'k \<Rightarrow> bool) \<Rightarrow> ShardCommitteeStateEnvironment \<Rightarrow> ('k, 'p) SwapInstruction \<Rightarrow>
    ShardCommitteeStateV1 \<Rightarrow> 'k shard_change \<Rightarrow> (ShardCommitteeStateV1 \<times> 'k shard_change) go" where
  "process_shard_swap cdc isEqual env swapInstruction s = (\<lambda>(change, replaced).
     let shardID = se_ShardID env; fixed = se_NumberOfFixedBlockValidators env in
     go_bind (slice_to (scs_committee s) fixed) (\<lambda>fixedProducerShardValidators.
     go_bind (slice_from (scs_committee s) fixed) (\<lambda>committee.
     let maxSize = se_MaxShardCommitteeSize env - fixed;
         minSize = (if se_MinShardCommitteeSize env - fixed < 0 then 0 else se_MinShardCommitteeSize env - fixed) in
     go_bind (SwapValidator (scs_substitute s) committee maxSize minSize (se_Offset env) (se_SwapOffset env)) (\<lambda>(pending, committee', swapped, entered, err).
     case err of Some e \<Rightarrow> Inl (GoErr e) | None \<Rightarrow>
       if sw_OutPublicKeys swapInstruction \<noteq> swapped then Inl (GoErr ''Expect swapped committees'')
       else if sw_InPublicKeys swapInstruction \<noteq> entered then Inl (GoErr ''Expect new committees'')
       else go_bind (CommitteeBase58KeyListToStruct cdc entered) (\<lambda>enteredStruct.
         go_bind (CommitteeBase58KeyListToStruct cdc swapped) (\<lambda>swappedStruct.
         let added = map_slice (ShardSubstituteAdded change) shardID in
         Inr (s\<lparr>scs_substitute := pending, scs_committee := fixedProducerShardValidators @ committee'\<rparr>,
           change\<lparr>ShardCommitteeAdded := (ShardCommitteeAdded change)(shardID \<mapsto> enteredStruct),
                  ShardCommitteeRemoved := (ShardCommitteeRemoved change)(shardID \<mapsto> swappedStruct),
                  ShardSubstituteRemoved := (ShardSubstituteRemoved change)(shardID \<mapsto> filteredShardSubstituteRemoved isEqual added enteredStruct),
                  ShardSubstituteAdded := (ShardSubstituteAdded change)(shardID \<mapsto> filteredShardSubstituteAdded isEqual added enteredStruct)\<rparr>,
           replaced)))))))"

text \<open>The loop over the instructions of the block stops at the first swap instruction that can be imported.\<close>

fun shard_swap_loop :: "('k, 'h, 'p) codec \<Rightarrow> ('k \<Rightarrow> 'k \<Rightarrow> bool) \<Rightarrow> ShardCommitteeStateEnvironment \<Rightarrow> string list list \<Rightarrow>
    ShardCommitteeStateV1 \<Rightarrow> 'k shard_change \<Rightarrow> (ShardCommitteeStateV1 \<times> 'k shard_change) go" where
  "shard_swap_loop cdc isEqual env [] s change = Inr (s, change)"
| "shard_swap_loop cdc isEqual env (ins # rest) s change =
     go_catch (ValidateAndImportSwapInstructionFromString cdc ins) (shard_swap_loop cdc isEqual env rest s change)
       (\<lambda>swapInstruction. process_shard_swap cdc isEqual env swapInstruction s change)"

definition processShardBlockInstruction :: "('k, 'h, 'p) codec \<Rightarrow> ('k \<Rightarrow> 'k \<Rightarrow> bool) \<Rightarrow> ShardCommitteeStateEnvironment \<Rightarrow>
    ShardCommitteeStateV1 \<Rightarrow> 'k shard_change \<Rightarrow> (ShardCommitteeStateV1 \<times> 'k shard_change) go" where
  "processShardBlockInstruction cdc isEqual env s change = shard_swap_loop cdc isEqual env (se_ShardInstructions env) s change"

definition key_list_v2_step :: "('k, 'h, 'p) codec \<Rightarrow> ShardCommitteeStateEnvironment \<Rightarrow> ShardCommitteeStateV1 \<times> 'k shard_change \<Rightarrow> string list \<Rightarrow>
    (ShardCommitteeStateV1 \<times> 'k shard_change) go" where
  "key_list_v2_step cdc env = (\<lambda>(s, change, replaced) inst.
     go_bind (go_index inst 0) (\<lambda>action.
     if action \<noteq> SWAP_ACTION then Inr (s, change, replaced)
     else go_bind (ValidateAndImportSwapInstructionFromString cdc inst) (\<lambda>swapInstruction.
       go_bind (slice_from (scs_committee s) (int (length (sw_InPublicKeys swapInstruction)))) (\<lambda>remained.
       go_bind (slice_to (scs_committee s) (se_MinShardCommitteeSize env)) (\<lambda>swapped.
       if sw_OutPublicKeys swapInstruction \<noteq> swapped then Inl (GoErr ''expect swapped committee'')
       else Inr (s\<lparr>scs_committee := sw_InPublicKeys swapInstruction @ remained\<rparr>, change,
         replaced(se_ShardID env \<mapsto> (sw_InPublicKeyStructs swapInstruction, sw_OutPublicKeyStructs swapInstruction))))))))"

definition processShardBlockInstructionForKeyListV2 :: "('k, 'h, 'p) codec \<Rightarrow> ShardCommitteeStateEnvironment \<Rightarrow>
    ShardCommitteeStateV1 \<Rightarrow> 'k shard_change \<Rightarrow> (ShardCommitteeStateV1 \<times> 'k shard_change) go" where
  "processShardBlockInstructionForKeyListV2 cdc env s change = go_foldl (key_list_v2_step cdc env) (s, change) (se_ShardInstructions env)"

text \<open>The emptiness test of \<^verbatim>\<open>hash\<close> compares a value with a pointer and never holds.\<close>

definition ShardV1_hash :: "(string list \<Rightarrow> 'x go) \<Rightarrow> ShardCommitteeStateV1 \<Rightarrow> ('x \<times> 'x) go" where
  "ShardV1_hash hashStrings s =
     go_bind (hashStrings (scs_committee s)) (\<lambda>committeeHash.
     go_bind (hashStrings (scs_substitute s)) (\<lambda>substituteHash. Inr (committeeHash, substituteHash)))"

definition ShardV1_UpdateCommitteeState :: "('k, 'h, 'p) codec \<Rightarrow> ('k \<Rightarrow> 'k \<Rightarrow> bool) \<Rightarrow> (string list \<Rightarrow> 'x go) \<Rightarrow> nat \<Rightarrow> ShardCommitteeStateEnvironment \<Rightarrow>
    ShardCommitteeStateV1 \<Rightarrow> (ShardCommitteeStateV1 \<times> ('x \<times> 'x) \<times> 'k shard_change) go" where
  "ShardV1_UpdateCommitteeState cdc isEqual hashStrings maxShardNumber env s =
     go_bind (processInstructionFromBeacon cdc (se_BeaconInstructions env) (se_ShardID env) s (NewCommitteeChange maxShardNumber, Map.empty)) (\<lambda>(s1, change1).
     go_bind (if se_Epoch env \<in> set (se_EpochBreakPointSwapNewKey env)
         then processShardBlockInstructionForKeyListV2 cdc env s1 change1
         else processShardBlockInstruction cdc isEqual env s1 change1) (\<lambda>(s2, change2).
     go_bind (ShardV1_hash hashStrings s2) (\<lambda>hashes. Inr (s2, hashes, change2))))"

definition GenerateSwapInstructions :: "ShardCommitteeStateEnvironment \<Rightarrow> ShardCommitteeStateV1 \<Rightarrow> (('k, 'p) SwapInstruction \<times> string list \<times> string list) go" where
  "GenerateSwapInstructions env s =
     go_bind (slice_to (scs_committee s) (se_NumberOfFixedBlockValidators env)) (\<lambda>fixedProducerShardValidators.
     go_bind (slice_from (scs_committee s) (se_NumberOfFixedBlockValidators env)) (\<lambda>committee.
     go_bind (createSwapInstruction (scs_substitute s) committee (se_MaxShardCommitteeSize env) (se_MinShardCommitteeSize env) (se_ShardID env)
         (se_Offset env) (se_SwapOffset env)) (\<lambda>(swapInstruction, pending, committee').
       Inr (swapInstruction, pending, fixedProducerShardValidators @ committee'))))"

section \<open>Versions 2 and 3\<close>

definition first_struct :: "('k, 'h, 'p) codec \<Rightarrow> string \<Rightarrow> 'k go" where
  "first_struct cdc k = (case structs_of cdc [k] of [] \<Rightarrow> Inl GoPanic | x # _ \<Rightarrow> Inr x)"

definition forceUpdateCommitteesFromBeacon :: "('k, 'h, 'p) codec \<Rightarrow> ShardCommitteeStateEnvironment \<Rightarrow> ShardCommitteeStateV2 \<Rightarrow> 'k CommitteeChange \<Rightarrow>
    (ShardCommitteeStateV2 \<times> 'k CommitteeChange) go" where
  "forceUpdateCommitteesFromBeacon cdc env s change = (let new = se_CommitteesFromBeaconView env; old = sc2_committee s; shardID = se_ShardID env in
     go_bind (go_map (first_struct cdc) (filter (\<lambda>k. k \<notin> set old) new)) (\<lambda>added.
     go_bind (go_map (first_struct cdc) (filter (\<lambda>k. k \<notin> set new) old)) (\<lambda>removed.
       Inr (s\<lparr>sc2_committee := new\<rparr>,
         change\<lparr>ShardCommitteeAdded := (if added = [] then ShardCommitteeAdded change else shard_extend (ShardCommitteeAdded change) shardID added),
                ShardCommitteeRemoved := (if removed = [] then ShardCommitteeRemoved change else shard_extend (ShardCommitteeRemoved change) shardID removed)\<rparr>))))"

definition ShardV2_hash :: "(string list \<Rightarrow> 'x go) \<Rightarrow> ShardCommitteeStateV2 \<Rightarrow> ('x \<times> 'x) go" where
  "ShardV2_hash hashStrings s =
     go_bind (hashStrings (sc2_committee s)) (\<lambda>committeeHash.
     go_bind (hashStrings []) (\<lambda>substituteHash. Inr (committeeHash, substituteHash)))"

definition ShardV2_UpdateCommitteeState :: "('k, 'h, 'p) codec \<Rightarrow> (string list \<Rightarrow> 'x go) \<Rightarrow> nat \<Rightarrow> ShardCommitteeStateEnvironment \<Rightarrow>
    ShardCommitteeStateV2 \<Rightarrow> (ShardCommitteeStateV2 \<times> ('x \<times> 'x) \<times> 'k CommitteeChange) go" where
  "ShardV2_UpdateCommitteeState cdc hashStrings maxShardNumber env s =
     go_bind (forceUpdateCommitteesFromBeacon cdc env s (NewCommitteeChange maxShardNumber)) (\<lambda>(s', change).
     go_bind (ShardV2_hash hashStrings s') (\<lambda>hashes. Inr (s', hashes, change)))"

text \<open>The committee of the genesis block: the part of the shard of all staked keys.\<close>

definition initGenesisShardCommitteeStateV2 :: "('k, 'h, 'p) codec \<Rightarrow> ShardCommitteeStateEnvironment \<Rightarrow> ShardCommitteeStateV2 go" where
  "initGenesisShardCommitteeStateV2 cdc env =
     go_bind (go_foldl (\<lambda>candidates inst. go_bind (go_index inst 0) (\<lambda>action.
         if action = STAKE_ACTION
         then go_bind (ImportStakeInstructionFromString cdc inst) (\<lambda>stake. Inr (candidates @ st_PublicKeys stake))
         else Inr candidates)) [] (se_BeaconInstructions env)) (\<lambda>candidates.
     go_bind (go_slice candidates (int (se_ShardID env) * se_MinShardCommitteeSize env) (int (se_ShardID env) * se_MinShardCommitteeSize env + se_MinShardCommitteeSize env))
       (\<lambda>committee. Inr \<lparr>sc2_committee = committee\<rparr>))"

section \<open>The fees of a block\<close>

record fee_tx =
  ft_Type :: string
  ft_TokenID :: string
  ft_Fee :: "64 word"
  ft_TokenData :: "string \<times> 64 word"

abbreviation (input) TxNormalType :: string where "TxNormalType \<equiv> ''n''"
abbreviation (input) TxCustomTokenPrivacyType :: string where "TxCustomTokenPrivacyType \<equiv> ''tp''"

definition add_fee :: "string \<Rightarrow> 64 word \<Rightarrow> (string \<rightharpoonup> 64 word) \<Rightarrow> (string \<rightharpoonup> 64 word)" where
  "add_fee t a fees = fees(t \<mapsto> (case fees t of None \<Rightarrow> 0 | Some b \<Rightarrow> b) + a)"

definition ShardV1_BuildTotalTxsFeeFromTxs :: "fee_tx list \<Rightarrow> (string \<rightharpoonup> 64 word)" where
  "ShardV1_BuildTotalTxsFeeFromTxs txs = foldl (\<lambda>fees tx.
     let fees1 = add_fee (ft_TokenID tx) (ft_Fee tx) fees in
     if ft_Type tx = TxCustomTokenPrivacyType then fees1(fst (ft_TokenData tx) \<mapsto> snd (ft_TokenData tx)) else fees1) Map.empty txs"

definition ShardV2_BuildTotalTxsFeeFromTxs :: "string \<Rightarrow> fee_tx list \<Rightarrow> (string \<rightharpoonup> 64 word)" where
  "ShardV2_BuildTotalTxsFeeFromTxs prv txs = foldl (\<lambda>fees tx.
     if ft_Type tx = TxNormalType then add_fee prv (ft_Fee tx) fees
     else if ft_Type tx = TxCustomTokenPrivacyType then add_fee (fst (ft_TokenData tx)) (snd (ft_TokenData tx)) (add_fee prv (ft_Fee tx) fees)
     else fees) Map.empty txs"

section \<open>A proposed swap is accepted\<close>

text \<open>The sizes that the block producer passes to \<^verbatim>\<open>GenerateSwapInstructions\<close> (\<^verbatim>\<open>generateInstruction\<close> of \<^verbatim>\<open>shardproducer.go\<close>).\<close>

definition proposer_env :: "ShardCommitteeStateEnvironment \<Rightarrow> ShardCommitteeStateEnvironment" where
  "proposer_env env = (let fixed = se_NumberOfFixedBlockValidators env in
     env\<lparr>se_MaxShardCommitteeSize := se_MaxShardCommitteeSize env - fixed,
         se_MinShardCommitteeSize := (if se_MinShardCommitteeSize env - fixed < 0 then 0 else se_MinShardCommitteeSize env - fixed)\<rparr>)"

lemma swap_instruction_on_wire:
  fixes cdc :: "('k, 'h, 'p) codec"
  assumes "key_list cdc ins" and "key_list cdc outs" and "shardID < 256"
  obtains j where "ValidateAndImportSwapInstructionFromString cdc (Swap_ToString (NewSwapInstructionWithValue ins outs (int shardID) :: ('k, 'p) SwapInstruction)) = Inr j"
    "sw_InPublicKeys j = ins" "sw_OutPublicKeys j = outs"
proof -
  define i :: "('k, 'p) SwapInstruction" where "i = NewSwapInstructionWithValue ins outs (int shardID)"
  let ?j = "i\<lparr>sw_InPublicKeyStructs := keys_of cdc ins, sw_OutPublicKeyStructs := keys_of cdc outs\<rparr>"
  have "Swap_ToString i = Swap_ToString ?j" by (simp add: Swap_ToString_def)
  moreover have "wf_Swap cdc ?j" using assms
    by (simp add: wf_Swap_def i_def NewSwapInstructionWithValue_def NewSwapInstruction_def is_int64_def)
  moreover have "sw_NewRewardReceivers ?j = []" by (simp add: i_def NewSwapInstructionWithValue_def NewSwapInstruction_def)
  ultimately have "ValidateAndImportSwapInstructionFromString cdc (Swap_ToString i) = Inr ?j" using swap_import_to_string [of cdc ?j] by simp
  then show thesis using that [of ?j] by (simp add: i_def NewSwapInstructionWithValue_def NewSwapInstruction_def)
qed

definition shard_sizes_ok :: "ShardCommitteeStateEnvironment \<Rightarrow> ShardCommitteeStateV1 \<Rightarrow> bool" where
  "shard_sizes_ok env s \<longleftrightarrow> (let fixed = se_NumberOfFixedBlockValidators env; size = int (length (scs_committee s)) in
     0 \<le> fixed \<and> fixed \<le> size \<and> se_MinShardCommitteeSize env \<le> size \<and> size \<le> se_MaxShardCommitteeSize env \<and>
     0 \<le> se_Offset env \<and> se_Offset env \<le> se_MaxShardCommitteeSize env - fixed \<and> 0 \<le> se_SwapOffset env \<and> se_SwapOffset env \<le> se_MaxShardCommitteeSize env - fixed)"

text \<open>How many validators a swap asks for, and that a longer queue does not change a swap for which the queue was long enough.\<close>

definition asked_offset :: "int \<Rightarrow> int \<Rightarrow> int \<Rightarrow> string list \<Rightarrow> int" where
  "asked_offset mx off swapOff committee = (if int (length committee) = mx then swapOff else off)"

lemma swap_longer_queue:
  assumes "swap [] pending committee [] mx off = Inr (p, c, out, entered, None)" and "0 \<le> off" and "off \<le> int (length pending)"
  shows "swap [] (pending @ xs) committee [] mx off = Inr (p @ xs, c, out, entered, None)"
  using assms by (auto simp: swap_def Let_def split: if_splits)

lemma SwapValidator_returns:
  assumes "mn \<le> int (length committee)" and "int (length committee) \<le> mx" and "0 \<le> off" and "off \<le> mx" and "0 \<le> swapOff" and "swapOff \<le> mx"
    and "xs = [] \<or> asked_offset mx off swapOff committee \<le> int (length pending)"
  obtains p c out entered where "SwapValidator pending committee mx mn off swapOff = Inr (p, c, out, entered, None)"
    "SwapValidator (pending @ xs) committee mx mn off swapOff = Inr (p @ xs, c, out, entered, None)"
    "int (length c) \<le> mx" "length committee \<le> length c" "pending = entered @ p" "mset c + mset out = mset committee + mset entered"
proof -
  define o1 where "o1 = asked_offset mx off swapOff committee"
  define o2 where "o2 = (if o1 > int (length pending) then int (length pending) else o1)"
  have o2: "0 \<le> o2" "o2 \<le> int (length pending)" "o2 \<le> mx" using assms(2-6) by (auto simp: o2_def o1_def asked_offset_def)
  have eq: "SwapValidator q committee mx mn off swapOff = swap [] q committee [] mx (if o1 > int (length q) then int (length q) else o1)" for q
    using assms(1) by (simp add: SwapValidator_def Let_def o1_def asked_offset_def)
  from swap_ok [OF o2(1,2) assms(2)] o2(3) obtain p c out entered where
    sw: "swap [] pending committee [] mx o2 = Inr (p, c, out, entered, None)" "int (length c) \<le> mx" "length committee \<le> length c" by fastforce
  have "xs = [] \<or> (if o1 > int (length (pending @ xs)) then int (length (pending @ xs)) else o1) = o2" using assms(7) by (auto simp: o2_def o1_def)
  then have "SwapValidator (pending @ xs) committee mx mn off swapOff = Inr (p @ xs, c, out, entered, None)"
    using eq [of "pending @ xs"] eq [of pending] sw(1) swap_longer_queue [OF sw(1) o2(1,2)] by (auto simp: o2_def)
  with swap_split [OF sw(1)] sw(2,3) show thesis using eq [of pending] sw(1) by (intro that [of p c out entered]) (simp_all add: v1_split_def o2_def)
qed

lemma key_list_set: "set ks \<subseteq> set ks' \<Longrightarrow> key_list cdc ks' \<Longrightarrow> key_list cdc ks"
  by (auto simp: key_list_def wire_list_def)

lemma proposed_swap:
  fixes cdc :: "('k, 'h, 'p) codec"
  assumes "shard_sizes_ok env s" and "key_list cdc (scs_committee s @ scs_substitute s)" and "se_ShardID env < 256"
    and "assigned = [] \<or> asked_offset (se_MaxShardCommitteeSize env) (se_Offset env) (se_SwapOffset env) (scs_committee s) \<le> int (length (scs_substitute s))"
  obtains i pending committee s' change' where "GenerateSwapInstructions (proposer_env env) s = Inr (i :: ('k, 'p) SwapInstruction, pending, committee)"
    "shard_swap_loop cdc isEqual env [Swap_ToString i] (s\<lparr>scs_substitute := scs_substitute s @ assigned\<rparr>) change = Inr (s', change')"
    "s' = \<lparr>scs_committee = committee, scs_substitute = pending @ assigned\<rparr>"
    "take (nat (se_NumberOfFixedBlockValidators env)) committee = take (nat (se_NumberOfFixedBlockValidators env)) (scs_committee s)"
    "scs_substitute s = sw_InPublicKeys i @ pending" "mset committee + mset (sw_OutPublicKeys i) = mset (scs_committee s) + mset (sw_InPublicKeys i)"
    "length (scs_committee s) \<le> length committee" "int (length committee) \<le> se_MaxShardCommitteeSize env"
proof -
  define n where "n = nat (se_NumberOfFixedBlockValidators env)"
  have n: "se_NumberOfFixedBlockValidators env = int n" "n \<le> length (scs_committee s)" using assms(1) by (auto simp: n_def shard_sizes_ok_def Let_def)
  let ?front = "take n (scs_committee s)" and ?rest = "drop n (scs_committee s)"
  let ?mx = "se_MaxShardCommitteeSize env - int n" and ?mn = "if se_MinShardCommitteeSize env - int n < 0 then 0 else se_MinShardCommitteeSize env - int n"
  obtain p c out entered where sv: "SwapValidator (scs_substitute s) ?rest ?mx ?mn (se_Offset env) (se_SwapOffset env) = Inr (p, c, out, entered, None)"
    "SwapValidator (scs_substitute s @ assigned) ?rest ?mx ?mn (se_Offset env) (se_SwapOffset env) = Inr (p @ assigned, c, out, entered, None)"
    "int (length c) \<le> ?mx" "length ?rest \<le> length c" "scs_substitute s = entered @ p" "mset c + mset out = mset ?rest + mset entered"
    by (rule SwapValidator_returns [of ?mn ?rest ?mx "se_Offset env" "se_SwapOffset env" assigned "scs_substitute s"])
      (use assms(1,4) n in \<open>auto simp: shard_sizes_ok_def asked_offset_def Let_def split: if_splits\<close>)
  have sub: "set entered \<subseteq> set (scs_committee s @ scs_substitute s)" "set out \<subseteq> set (scs_committee s @ scs_substitute s)"
  proof -
    show "set entered \<subseteq> set (scs_committee s @ scs_substitute s)" using sv(5) by auto
    have "set out \<subseteq> set ?rest \<union> set entered" using arg_cong [OF sv(6), of set_mset] by auto
    then show "set out \<subseteq> set (scs_committee s @ scs_substitute s)" using sv(5) set_drop_subset [of n "scs_committee s"] by auto
  qed
  note keys = key_list_set [OF sub(1) assms(2)] key_list_set [OF sub(2) assms(2)]
  let ?i = "NewSwapInstructionWithValue entered out (int (se_ShardID env)) :: ('k, 'p) SwapInstruction"
  obtain j where j: "ValidateAndImportSwapInstructionFromString cdc (Swap_ToString ?i) = Inr j" "sw_InPublicKeys j = entered" "sw_OutPublicKeys j = out"
    by (rule swap_instruction_on_wire [OF keys assms(3)])
  let ?s' = "\<lparr>scs_committee = ?front @ c, scs_substitute = p @ assigned\<rparr>"
  have gen: "GenerateSwapInstructions (proposer_env env) s = Inr (?i, p, ?front @ c)"
    using n sv(1) by (simp add: GenerateSwapInstructions_def proposer_env_def createSwapInstruction_def slice_to_def slice_from_def Let_def)
  obtain change' where proc: "process_shard_swap cdc isEqual env j (s\<lparr>scs_substitute := scs_substitute s @ assigned\<rparr>) change = Inr (?s', change')"
    using n sv(2) j(2,3) KeyListToStruct_ok [OF keys(1)] KeyListToStruct_ok [OF keys(2)]
    by (cases change; cases s) (simp add: process_shard_swap_def slice_to_def slice_from_def Let_def)
  have msets: "mset (?front @ c) + mset out = mset (scs_committee s) + mset entered"
  proof -
    have "mset (scs_committee s) = mset ?front + mset ?rest" using append_take_drop_id [of n "scs_committee s"] by (metis mset_append)
    then show ?thesis using sv(6) by simp
  qed
  show thesis using gen j(1) proc msets sv(3,4,5) n
    by (intro that [of ?i p "?front @ c" ?s' change']) (simp_all add: NewSwapInstructionWithValue_def NewSwapInstruction_def n_def [symmetric])
qed

lemma swap_env: "process_shard_swap cdc isEqual (env\<lparr>se_ShardInstructions := x\<rparr>) = process_shard_swap cdc isEqual env"
proof -
  have fields: "se_ShardID (env\<lparr>se_ShardInstructions := x\<rparr>) = se_ShardID env" "se_NumberOfFixedBlockValidators (env\<lparr>se_ShardInstructions := x\<rparr>) = se_NumberOfFixedBlockValidators env"
    "se_MaxShardCommitteeSize (env\<lparr>se_ShardInstructions := x\<rparr>) = se_MaxShardCommitteeSize env" "se_MinShardCommitteeSize (env\<lparr>se_ShardInstructions := x\<rparr>) = se_MinShardCommitteeSize env"
    "se_Offset (env\<lparr>se_ShardInstructions := x\<rparr>) = se_Offset env" "se_SwapOffset (env\<lparr>se_ShardInstructions := x\<rparr>) = se_SwapOffset env" by simp_all
  show ?thesis unfolding process_shard_swap_def fun_eq_iff fields by simp
qed

definition shard_demo_env :: ShardCommitteeStateEnvironment where
  "shard_demo_env = \<lparr>se_ShardInstructions = [], se_BeaconInstructions = [], se_Epoch = 5, se_EpochBreakPointSwapNewKey = [9], se_ShardID = 1,
     se_MaxShardCommitteeSize = 3, se_MinShardCommitteeSize = 2, se_Offset = 2, se_SwapOffset = 2, se_NumberOfFixedBlockValidators = 1, se_CommitteesFromBeaconView = []\<rparr>"

definition shard_demo_state :: ShardCommitteeStateV1 where
  "shard_demo_state = \<lparr>scs_committee = [''f'', ''c'', ''d''], scs_substitute = [''p'']\<rparr>"

text \<open>C34. A swap that a shard proposes is accepted by the nodes with the same state: for committees within their sizes and decodable keys the producer gets
  a swap instruction, and a node that processes the printed instruction ends with the committee that the producer computed and with its queue, followed by
  the validators that the block assigns to the shard. This holds outside the epochs at which keys are renewed, when the block assigns nobody or the queue already has as many substitutes as the swap
  asks for.  The fixed validators keep their places, those who enter are the first of the queue, and no validator is lost or duplicated.\<close>

theorem shard_swap_accepted:
  fixes cdc :: "('k, 'h, 'p) codec"
  assumes "shard_sizes_ok env s" and "key_list cdc (scs_committee s @ scs_substitute s)" and "se_ShardID env < 256"
    and "extractAssignInstruction cdc (se_BeaconInstructions env) (se_ShardID env) = Inr assigned"
    and "assigned = [] \<or> asked_offset (se_MaxShardCommitteeSize env) (se_Offset env) (se_SwapOffset env) (scs_committee s) \<le> int (length (scs_substitute s))" and "se_Epoch env \<notin> set (se_EpochBreakPointSwapNewKey env)"
    and "\<And>ks. go_ok (hashStrings ks)"
  shows "\<exists>(i :: ('k, 'p) SwapInstruction) pending committee s' hashes change.
    GenerateSwapInstructions (proposer_env env) s = Inr (i, pending, committee) \<and>
    ShardV1_UpdateCommitteeState cdc isEqual hashStrings maxShardNumber (env\<lparr>se_ShardInstructions := [Swap_ToString i]\<rparr>) s = Inr (s', hashes, change) \<and>
    scs_committee s' = committee \<and> scs_substitute s' = pending @ assigned \<and>
    take (nat (se_NumberOfFixedBlockValidators env)) committee = take (nat (se_NumberOfFixedBlockValidators env)) (scs_committee s) \<and>
    scs_substitute s = sw_InPublicKeys i @ pending \<and> mset committee + mset (sw_OutPublicKeys i) = mset (scs_committee s) + mset (sw_InPublicKeys i) \<and>
    int (length committee) \<le> se_MaxShardCommitteeSize env"
proof -
  define change where "change = ((NewCommitteeChange maxShardNumber :: 'k CommitteeChange)\<lparr>ShardSubstituteAdded :=
    shard_extend (ShardSubstituteAdded (NewCommitteeChange maxShardNumber)) (se_ShardID env) (structs_of cdc assigned)\<rparr>, Map.empty :: nat \<rightharpoonup> 'k list \<times> 'k list)"
  obtain i pending committee s' change' where r: "GenerateSwapInstructions (proposer_env env) s = Inr (i :: ('k, 'p) SwapInstruction, pending, committee)"
    "shard_swap_loop cdc isEqual env [Swap_ToString i] (s\<lparr>scs_substitute := scs_substitute s @ assigned\<rparr>) change = Inr (s', change')"
    "s' = \<lparr>scs_committee = committee, scs_substitute = pending @ assigned\<rparr>"
    "take (nat (se_NumberOfFixedBlockValidators env)) committee = take (nat (se_NumberOfFixedBlockValidators env)) (scs_committee s)"
    "scs_substitute s = sw_InPublicKeys i @ pending" "mset committee + mset (sw_OutPublicKeys i) = mset (scs_committee s) + mset (sw_InPublicKeys i)"
    "int (length committee) \<le> se_MaxShardCommitteeSize env"
    by (rule proposed_swap [OF assms(1,2,3,5), of isEqual change])
  have loop: "shard_swap_loop cdc isEqual (env\<lparr>se_ShardInstructions := x\<rparr>) y t change = shard_swap_loop cdc isEqual env y t change" for x y t
    by (induction y) (simp_all only: shard_swap_loop.simps swap_env)
  obtain h1 h2 where h: "hashStrings committee = Inr h1" "hashStrings (pending @ assigned) = Inr h2" using assms(7) by (metis go_ok_iff)
  have "ShardV1_UpdateCommitteeState cdc isEqual hashStrings maxShardNumber (env\<lparr>se_ShardInstructions := [Swap_ToString i]\<rparr>) s = Inr (s', (h1, h2), change')"
    using assms(4,6) r(2,3) h loop by (simp add: ShardV1_UpdateCommitteeState_def processInstructionFromBeacon_def processShardBlockInstruction_def ShardV1_hash_def change_def
        del: shard_swap_loop.simps)
  then show ?thesis using r by auto
qed

definition shard_demo_assign :: "string list" where
  "shard_demo_assign = Assign_ToString \<lparr>as_ChainID = 1, as_ShardCandidates = [''q''], as_ShardCandidatesStruct = [''q'']\<rparr>"

lemma shard_demo_extract: "extractAssignInstruction toy_codec [shard_demo_assign] 1 = Inr [''q'']"
  by (simp add: shard_demo_assign_def extractAssignInstruction_def assign_codec.import_to_string wf_Assign_def key_list_def wire_list_def keys_of_def toy_codec_def is_int64_def)

theorem shard_swap_accepted_witness:
  "\<exists>(i :: (string, string) SwapInstruction) pending committee s' hashes change.
     GenerateSwapInstructions (proposer_env (shard_demo_env\<lparr>se_BeaconInstructions := [shard_demo_assign], se_SwapOffset := 1\<rparr>)) shard_demo_state = Inr (i, pending, committee) \<and>
     ShardV1_UpdateCommitteeState toy_codec (=) Inr 8 (shard_demo_env\<lparr>se_BeaconInstructions := [shard_demo_assign], se_SwapOffset := 1, se_ShardInstructions := [Swap_ToString i]\<rparr>) shard_demo_state =
       Inr (s', hashes, change) \<and> scs_substitute s' = pending @ [''q''] \<and> take 1 committee = [''f''] \<and> [''p''] = sw_InPublicKeys i @ pending"
proof -
  let ?env = "shard_demo_env\<lparr>se_BeaconInstructions := [shard_demo_assign], se_SwapOffset := 1\<rparr>"
  have "shard_sizes_ok ?env shard_demo_state" "key_list toy_codec (scs_committee shard_demo_state @ scs_substitute shard_demo_state)" "se_ShardID ?env < 256"
    by (auto simp: shard_sizes_ok_def shard_demo_env_def shard_demo_state_def key_list_def wire_list_def toy_codec_def Let_def)
  moreover have "extractAssignInstruction toy_codec (se_BeaconInstructions ?env) (se_ShardID ?env) = Inr [''q'']"
    using shard_demo_extract by (simp add: shard_demo_env_def)
  moreover have "[''q''] = [] \<or> asked_offset (se_MaxShardCommitteeSize ?env) (se_Offset ?env) (se_SwapOffset ?env) (scs_committee shard_demo_state) \<le> int (length (scs_substitute shard_demo_state))"
    by (simp add: shard_demo_env_def shard_demo_state_def asked_offset_def)
  moreover have "se_Epoch ?env \<notin> set (se_EpochBreakPointSwapNewKey ?env)" by (simp add: shard_demo_env_def)
  ultimately obtain i :: "(string, string) SwapInstruction" and pending committee s' hashes change where
    r: "GenerateSwapInstructions (proposer_env ?env) shard_demo_state = Inr (i, pending, committee)"
      "ShardV1_UpdateCommitteeState toy_codec (=) Inr 8 (?env\<lparr>se_ShardInstructions := [Swap_ToString i]\<rparr>) shard_demo_state = Inr (s', hashes, change)" "scs_substitute s' = pending @ [''q'']"
      "take (nat (se_NumberOfFixedBlockValidators ?env)) committee = take (nat (se_NumberOfFixedBlockValidators ?env)) (scs_committee shard_demo_state)"
      "scs_substitute shard_demo_state = sw_InPublicKeys i @ pending"
    using shard_swap_accepted [of ?env shard_demo_state toy_codec "[''q'']" Inr "(=)" 8] by (metis go_ok_simps(1))
  have "se_NumberOfFixedBlockValidators ?env = 1" by (simp add: shard_demo_env_def)
  then show ?thesis using r by (intro exI [of _ i] exI [of _ pending] exI [of _ committee] exI [of _ s'] exI [of _ hashes] exI [of _ change]) (auto simp: shard_demo_state_def)
qed

text \<open>The queue of \<^verbatim>\<open>GenerateSwapInstructions\<close> does not contain the substitutes that the same block assigns: with a queue shorter than the offset
  the node expects them in the instruction and rejects the block.\<close>

lemma assigned_in_block_rejected:
  shows "GenerateSwapInstructions (proposer_env shard_demo_env) shard_demo_state =
      Inr (NewSwapInstructionWithValue [''p''] [''c''] 1 :: (string, string) SwapInstruction, [], [''f'', ''d'', ''p''])"
    and "extractAssignInstruction toy_codec [shard_demo_assign] 1 = Inr [''q'']"
    and "process_shard_swap toy_codec (=) shard_demo_env (NewSwapInstructionWithValue [''p''] [''c''] 1)
      (shard_demo_state\<lparr>scs_substitute := scs_substitute shard_demo_state @ [''q'']\<rparr>) change = Inl (GoErr ''Expect swapped committees'')"
proof -
  show "GenerateSwapInstructions (proposer_env shard_demo_env) shard_demo_state =
      Inr (NewSwapInstructionWithValue [''p''] [''c''] 1 :: (string, string) SwapInstruction, [], [''f'', ''d'', ''p''])" by code_simp
  show "extractAssignInstruction toy_codec [shard_demo_assign] 1 = Inr [''q'']" by (rule shard_demo_extract)
  have "SwapValidator [''p'', ''q''] [''c'', ''d''] 2 1 2 2 = Inr ([], [''p'', ''q''], [''c'', ''d''], [''p'', ''q''], None)" by code_simp
  then show "process_shard_swap toy_codec (=) shard_demo_env (NewSwapInstructionWithValue [''p''] [''c''] 1)
      (shard_demo_state\<lparr>scs_substitute := scs_substitute shard_demo_state @ [''q'']\<rparr>) change = Inl (GoErr ''Expect swapped committees'')"
    by (cases change) (simp add: process_shard_swap_def shard_demo_env_def shard_demo_state_def slice_to_def slice_from_def NewSwapInstructionWithValue_def NewSwapInstruction_def)
qed

section \<open>The committee follows the beacon\<close>

lemma first_struct_key: "key_list cdc [k] \<Longrightarrow> first_struct cdc k = Inr (the (FromString cdc k))"
  by (simp add: first_struct_def structs_of_def KeyListToStruct_ok keys_of_def)

lemma first_structs: "key_list cdc ks \<Longrightarrow> go_map (first_struct cdc) ks = Inr (keys_of cdc ks)"
  by (induction ks) (auto simp: keys_of_def first_struct_key key_list_def wire_list_def)

lemma mset_exchange:
  assumes "distinct old" and "distinct new"
  shows "mset new + mset (filter (\<lambda>k. k \<notin> set new) old) = mset old + mset (filter (\<lambda>k. k \<notin> set old) new)"
proof (rule multiset_eqI)
  fix x
  show "count (mset new + mset (filter (\<lambda>k. k \<notin> set new) old)) x = count (mset old + mset (filter (\<lambda>k. k \<notin> set old) new)) x"
    using assms by (auto simp: distinct_count_atmost_1 count_mset_0_iff)
qed

text \<open>C35. From version 2 on a shard follows the beacon: after a block its committee is the one of the beacon view, and the recorded change is
  exact, that is, the old committee with the keys added and without the keys removed is the new one.\<close>

theorem shard_follows_beacon:
  assumes "distinct (sc2_committee s)" and "distinct (se_CommitteesFromBeaconView env)" and "key_list cdc (sc2_committee s @ se_CommitteesFromBeaconView env)"
    and "\<And>ks. go_ok (hashStrings ks)"
  shows "\<exists>s' hashes change. ShardV2_UpdateCommitteeState cdc hashStrings maxShardNumber env s = Inr (s', hashes, change) \<and>
    sc2_committee s' = se_CommitteesFromBeaconView env \<and>
    mset (keys_of cdc (sc2_committee s')) + mset (map_slice (ShardCommitteeRemoved change) (se_ShardID env)) =
      mset (keys_of cdc (sc2_committee s)) + mset (map_slice (ShardCommitteeAdded change) (se_ShardID env))"
proof -
  define old new where "old = sc2_committee s" and "new = se_CommitteesFromBeaconView env"
  define added removed where "added = filter (\<lambda>k. k \<notin> set old) new" and "removed = filter (\<lambda>k. k \<notin> set new) old"
  have "set added \<subseteq> set (old @ new)" "set removed \<subseteq> set (old @ new)" by (auto simp: added_def removed_def)
  then have st: "go_map (first_struct cdc) added = Inr (keys_of cdc added)" "go_map (first_struct cdc) removed = Inr (keys_of cdc removed)"
    using first_structs key_list_set assms(3) unfolding old_def new_def by metis+
  have "mset new + mset removed = mset old + mset added"
    unfolding added_def removed_def by (rule mset_exchange) (use assms(1,2) in \<open>simp_all add: old_def new_def\<close>)
  then have "image_mset (\<lambda>k. the (FromString cdc k)) (mset new + mset removed) = image_mset (\<lambda>k. the (FromString cdc k)) (mset old + mset added)" by simp
  then have ms: "mset (keys_of cdc new) + mset (keys_of cdc removed) = mset (keys_of cdc old) + mset (keys_of cdc added)" by (simp add: keys_of_def)
  obtain h1 h2 where h: "hashStrings new = Inr h1" "hashStrings [] = Inr h2" using assms(4) by (metis go_ok_iff)
  have e: "map_slice (empty_shards n) k = []" for n k by (simp add: empty_shards_def map_slice_def)
  show ?thesis using ms h e
    by (cases "keys_of cdc added = []"; cases "keys_of cdc removed = []")
      (simp_all add: ShardV2_UpdateCommitteeState_def forceUpdateCommitteesFromBeacon_def Let_def old_def [symmetric] new_def [symmetric] added_def [symmetric]
        removed_def [symmetric] st ShardV2_hash_def NewCommitteeChange_def shard_extend_def map_slice_def)
qed

theorem shard_follows_beacon_witness:
  "\<exists>s' hashes change. ShardV2_UpdateCommitteeState toy_codec Inr 8 (shard_demo_env\<lparr>se_CommitteesFromBeaconView := [''c'', ''e'']\<rparr>) \<lparr>sc2_committee = [''c'', ''d'']\<rparr> =
     Inr (s', hashes, change) \<and> sc2_committee s' = [''c'', ''e'']"
  using shard_follows_beacon [of "\<lparr>sc2_committee = [''c'', ''d'']\<rparr>" "shard_demo_env\<lparr>se_CommitteesFromBeaconView := [''c'', ''e'']\<rparr>" toy_codec Inr 8]
  by (force simp: key_list_def wire_list_def toy_codec_def)

section \<open>Fees\<close>

text \<open>Version 1 keeps only the last fee of a token, version 2 adds them up.\<close>

lemma token_fees_overwritten:
  defines "tx \<equiv> \<lambda>fee. \<lparr>ft_Type = ''tp'', ft_TokenID = ''prv'', ft_Fee = 1, ft_TokenData = (''t'', fee)\<rparr>"
  shows "ShardV1_BuildTotalTxsFeeFromTxs [tx 3, tx 4] ''t'' = Some 4" and "ShardV2_BuildTotalTxsFeeFromTxs ''prv'' [tx 3, tx 4] ''t'' = Some 7"
  by (simp_all add: ShardV1_BuildTotalTxsFeeFromTxs_def ShardV2_BuildTotalTxsFeeFromTxs_def add_fee_def tx_def)

end
