(* ===== verification/Go_Float.thy ===== *)
theory Go_Float
  imports Complex_Main Inc_Prelude
begin

text \<open>
  Go's \<^verbatim>\<open>float64\<close> on nonnegative numbers, as far as the reward rules use it: a finite value is the rational number it stands for, every
  operation rounds the exact result to 53 significant bits, to the nearest value and ties to even. The values of the program lie between
  \<open>2\<close> to the powers \<open>-200\<close> and \<open>200\<close>, so neither overflow nor subnormal numbers occur and the exponent is not bounded here. Division by zero
  gives an infinite value or no number, as in Go. The lemma \<open>share_rounded\<close> is what the reward rules need of rounding.
\<close>

section \<open>Rounding\<close>

fun bits :: "nat \<Rightarrow> nat" where
  "bits n = (if n = 0 then 0 else Suc (bits (n div 2)))"

declare bits.simps [simp del]

definition pow2 :: "int \<Rightarrow> rat" where
  "pow2 e = (if 0 \<le> e then 2 ^ nat e else 1 / 2 ^ nat (- e))"

definition round_even :: "rat \<Rightarrow> int" where
  "round_even y = (let f = \<lfloor>y\<rfloor>; d = y - of_int f in if d < 1 / 2 then f else if d > 1 / 2 then f + 1 else if even f then f else f + 1)"

text \<open>The exponent of the last of 53 bits.\<close>

definition f64_exponent :: "rat \<Rightarrow> int" where
  "f64_exponent x = (let (a, b) = quotient_of x; e = int (bits (nat a)) - int (bits (nat b)) - 53 in if pow2 (e + 53) \<le> x then e + 1 else e)"

definition f64_round :: "rat \<Rightarrow> rat" where
  "f64_round x = (if x = 0 then 0 else of_int (round_even (x / pow2 (f64_exponent x))) * pow2 (f64_exponent x))"

section \<open>Values and operations\<close>

datatype f64 = Fin rat | PosInf | NaN

definition f64_of_nat :: "nat \<Rightarrow> f64" where
  "f64_of_nat n = Fin (f64_round (of_nat n))"

fun f64_add :: "f64 \<Rightarrow> f64 \<Rightarrow> f64" where
  "f64_add (Fin x) (Fin y) = Fin (f64_round (x + y))"
| "f64_add NaN _ = NaN" | "f64_add _ NaN = NaN"
| "f64_add PosInf _ = PosInf" | "f64_add _ PosInf = PosInf"

fun f64_mul :: "f64 \<Rightarrow> f64 \<Rightarrow> f64" where
  "f64_mul (Fin x) (Fin y) = Fin (f64_round (x * y))"
| "f64_mul NaN _ = NaN" | "f64_mul _ NaN = NaN"
| "f64_mul PosInf (Fin y) = (if y = 0 then NaN else PosInf)"
| "f64_mul (Fin x) PosInf = (if x = 0 then NaN else PosInf)"
| "f64_mul PosInf PosInf = PosInf"

fun f64_div :: "f64 \<Rightarrow> f64 \<Rightarrow> f64" where
  "f64_div (Fin x) (Fin y) = (if y = 0 then if x = 0 then NaN else PosInf else Fin (f64_round (x / y)))"
| "f64_div NaN _ = NaN" | "f64_div _ NaN = NaN"
| "f64_div (Fin x) PosInf = Fin 0" | "f64_div PosInf (Fin y) = PosInf" | "f64_div PosInf PosInf = NaN"

text \<open>The conversion \<^verbatim>\<open>uint64(x)\<close> truncates; outside the range of \<^verbatim>\<open>uint64\<close> its result depends on the implementation, here \<open>undef\<close>.\<close>

definition f64_to_uint64 :: "nat \<Rightarrow> f64 \<Rightarrow> nat" where
  "f64_to_uint64 undef x = (case x of Fin a \<Rightarrow> if a < 2 ^ 64 then nat \<lfloor>a\<rfloor> else undef | _ \<Rightarrow> undef)"

section \<open>The rounding error\<close>

lemma bits_bounds: "0 < n \<Longrightarrow> 2 ^ (bits n - 1) \<le> n \<and> n < 2 ^ bits n"
proof (induction n rule: bits.induct)
  case (1 n)
  show ?case
  proof (cases "n div 2 = 0")
    case True
    then have "n = 1" using 1(2) by (simp add: div_eq_0_iff)
    then show ?thesis by (simp add: bits.simps)
  next
    case False
    define m where "m = n div 2"
    have ih: "2 ^ (bits m - 1) \<le> m" "m < 2 ^ bits m" using 1 False by (simp_all add: m_def)
    have b: "bits n = Suc (bits m)" "0 < bits m" using 1(2) False by (simp_all add: m_def bits.simps [of n] bits.simps [of "n div 2"])
    have "(2::nat) ^ bits m = 2 * 2 ^ (bits m - 1)" using b(2) by (metis Suc_diff_1 power_Suc)
    then show ?thesis using ih b by (simp add: m_def) linarith
  qed
qed

lemma pow2_pos [simp]: "0 < pow2 e" by (simp add: pow2_def)

lemma pow2_add_nat: "pow2 (e + int k) = pow2 e * 2 ^ k"
proof -
  consider "0 \<le> e" | "e < 0" "0 \<le> e + int k" | "e + int k < 0" by linarith
  then show ?thesis
  proof cases
    case 1
    then show ?thesis by (simp add: pow2_def nat_add_distrib power_add)
  next
    case 2
    then have "k = nat (e + int k) + nat (- e)" by simp
    then have "(2::rat) ^ k = 2 ^ nat (e + int k) * 2 ^ nat (- e)" by (metis power_add)
    then show ?thesis using 2 by (simp add: pow2_def)
  next
    case 3
    then have "nat (- e) = nat (- (e + int k)) + k" by simp
    then have "(2::rat) ^ nat (- e) = 2 ^ nat (- (e + int k)) * 2 ^ k" by (metis power_add)
    then show ?thesis using 3 by (simp add: pow2_def)
  qed
qed

lemma pow2_diff: "pow2 (int m - int n) = 2 ^ m / 2 ^ n"
proof (cases "n \<le> m")
  case True
  then show ?thesis by (simp add: pow2_def nat_diff_distrib power_diff)
next
  case False
  then show ?thesis by (simp add: pow2_def nat_diff_distrib power_diff)
qed

lemma exponent_bound:
  assumes "0 < x"
  shows "pow2 (f64_exponent x + 52) \<le> x"
proof -
  obtain a b where q: "quotient_of x = (a, b)" by fastforce
  then have x: "x = of_int a / of_int b" and b: "0 < b" by (simp_all add: quotient_of_div quotient_of_denom_pos)
  then have a: "0 < a" using assms by (simp add: zero_less_divide_iff)
  define e where "e = int (bits (nat a)) - int (bits (nat b)) - 53"
  have la: "0 < bits (nat a)" using a by (simp add: bits.simps [of "nat a"])
  have "2 ^ (bits (nat a) - 1) \<le> nat a" using bits_bounds [of "nat a"] a by simp
  then have "(2::int) ^ (bits (nat a) - 1) \<le> a" using a by (metis nat_le_iff of_nat_numeral of_nat_power le_nat_iff less_imp_le)
  then have num: "(2::rat) ^ (bits (nat a) - 1) \<le> of_int a" by (metis of_int_le_iff of_int_numeral of_int_power)
  have "nat b < 2 ^ bits (nat b)" using bits_bounds [of "nat b"] b by simp
  then have "b \<le> (2::int) ^ bits (nat b)" using b by (simp add: nat_less_iff)
  then have den: "of_int b \<le> (2::rat) ^ bits (nat b)" by (metis of_int_le_iff of_int_numeral of_int_power)
  have "pow2 (e + 52) = 2 ^ (bits (nat a) - 1) / 2 ^ bits (nat b)"
    using la by (simp add: e_def pow2_diff [symmetric] of_nat_diff algebra_simps)
  also have "\<dots> \<le> of_int a / of_int b" using num den a b by (intro frac_le) auto
  finally have low: "pow2 (e + 52) \<le> x" by (simp add: x)
  have "f64_exponent x = (if pow2 (e + 53) \<le> x then e + 1 else e)" by (simp add: f64_exponent_def q e_def Let_def)
  then show ?thesis using low by (simp add: add.commute add.left_commute)
qed

lemma round_even_error: "\<bar>of_int (round_even y) - y\<bar> \<le> 1 / 2"
  using floor_correct [of y] by (auto simp: round_even_def Let_def)

lemma f64_round_error:
  assumes "0 \<le> x"
  shows "\<bar>f64_round x - x\<bar> \<le> x / 2 ^ 53"
proof (cases "x = 0")
  case False
  define p where "p = pow2 (f64_exponent x)"
  have p: "0 < p" "p * 2 ^ 52 \<le> x" using exponent_bound [of x] pow2_add_nat [of "f64_exponent x" 52] False assms by (simp_all add: p_def)
  have "f64_round x - x = (of_int (round_even (x / p)) - x / p) * p" using p(1) False by (simp add: f64_round_def p_def [symmetric] left_diff_distrib)
  then have "\<bar>f64_round x - x\<bar> = \<bar>of_int (round_even (x / p)) - x / p\<bar> * p" using p(1) by (simp only: abs_mult abs_of_pos)
  also have "\<dots> \<le> 1 / 2 * p" using round_even_error p(1) by (intro mult_right_mono) auto
  finally show ?thesis using p(2) by simp
qed (simp add: f64_round_def)

lemma f64_round_bounds:
  assumes "0 \<le> x"
  shows "0 \<le> f64_round x" "f64_round x \<le> x * (1 + 1 / 2 ^ 53)" "x * (1 - 1 / 2 ^ 53) \<le> f64_round x"
proof -
  have h: "\<bar>f64_round x - x\<bar> \<le> x / 2 ^ 53" "x / 2 ^ 53 \<le> x" using assms f64_round_error by (simp_all add: divide_le_eq)
  show "0 \<le> f64_round x" "f64_round x \<le> x * (1 + 1 / 2 ^ 53)" "x * (1 - 1 / 2 ^ 53) \<le> f64_round x"
    using h unfolding distrib_left right_diff_distrib mult_1_right times_divide_eq_right by linarith+
qed

lemma f64_round_coarse: "0 \<le> x \<Longrightarrow> x / 2 \<le> f64_round x" "0 \<le> x \<Longrightarrow> f64_round x \<le> 2 * x"
  using f64_round_bounds(2,3) [of x] by simp_all

lemma f64_round_pos: "0 < x \<Longrightarrow> 0 < f64_round x"
  using f64_round_bounds(3) [of x] by (auto intro: less_le_trans [rotated])

text \<open>A share of \<open>r\<close> by the weight \<open>w\<close> against \<open>b\<close> is not more than \<open>r\<close>, in spite of four roundings, unless \<open>b\<close> is negligible.\<close>

lemma share_rounded:
  assumes "0 \<le> w" and "0 < b" and "w \<le> b * 2 ^ 49" and "0 \<le> r"
  shows "f64_round (f64_round (w * f64_round r) / f64_round (w + b)) \<le> r"
proof -
  define u :: rat where "u = 1 / 2 ^ 53"
  define a q where "a = f64_round (w * f64_round r)" and "q = f64_round (w + b)"
  have u: "0 < u" by (simp add: u_def)
  have r: "0 \<le> f64_round r" "f64_round r \<le> r * (1 + u)" using f64_round_bounds [OF assms(4)] by (simp_all add: u_def)
  have a: "0 \<le> a" "a \<le> w * f64_round r * (1 + u)" using f64_round_bounds [of "w * f64_round r"] assms(1) r(1) by (simp_all add: a_def u_def)
  have q: "0 < q" "(w + b) * (1 - u) \<le> q" using f64_round_bounds(3) [of "w + b"] f64_round_pos [of "w + b"] assms by (simp_all add: q_def u_def)
  have "w * f64_round r \<le> w * (r * (1 + u))" using assms(1) r(2) by (rule mult_left_mono [rotated])
  then have "a \<le> w * (r * (1 + u)) * (1 + u)" using a(2) mult_right_mono [of "w * f64_round r" "w * (r * (1 + u))" "1 + u"] u by linarith
  then have a': "a * (1 + u) \<le> r * (w * (1 + u) ^ 3)" using u mult_right_mono [of a "w * (r * (1 + u)) * (1 + u)" "1 + u"] by (simp add: power3_eq_cube mult.assoc mult.left_commute)
  have "w * (1 + u) ^ 3 \<le> (w + b) * (1 - u)"
  proof -
    have "(1 + u) ^ 3 - (1 - u) \<le> (1 - u) / 2 ^ 49" by (simp add: u_def power3_eq_cube)
    then have "w * ((1 + u) ^ 3 - (1 - u)) \<le> w * ((1 - u) / 2 ^ 49)" using assms(1) by (rule mult_left_mono)
    also have "\<dots> = w / 2 ^ 49 * (1 - u)" by simp
    also have "\<dots> \<le> b * (1 - u)" using assms(3) by (intro mult_right_mono) (simp_all add: u_def divide_le_eq)
    finally show ?thesis by (simp add: algebra_simps)
  qed
  then have "r * (w * (1 + u) ^ 3) \<le> r * q" using q(2) assms(4) by (intro mult_left_mono) auto
  then have "a * (1 + u) \<le> r * q" using a' by linarith
  then have "a / q * (1 + u) \<le> r" using q(1) by (simp add: divide_le_eq)
  then show ?thesis using f64_round_bounds(2) [of "a / q"] a(1) q(1) by (simp add: u_def a_def q_def)
qed

section \<open>Exact results\<close>

lemma pow2_mono: "a \<le> b \<Longrightarrow> pow2 a \<le> pow2 b"
  using pow2_add_nat [of a "nat (b - a)"] mult_left_mono [of 1 "2 ^ nat (b - a)" "pow2 a"] less_imp_le [OF pow2_pos [of a]] by simp

lemma round_even_int [simp]: "round_even (of_int k) = k"
  by (simp add: round_even_def)

text \<open>Integers below \<open>2 ^ 53\<close> are represented exactly.\<close>

lemma f64_round_int:
  assumes "0 \<le> k" and "k < 2 ^ 53"
  shows "f64_round (of_int k) = of_int k"
proof (cases "k = 0")
  case False
  define e where "e = f64_exponent (of_int k)"
  have "(of_int k :: rat) < of_int (2 ^ 53)" using assms(2) by (simp only: of_int_less_iff)
  then have "pow2 (e + 52) < pow2 53" using exponent_bound [of "of_int k"] False assms(1) by (simp add: e_def pow2_def)
  then have "e \<le> 0" using pow2_mono [of 53 "e + 52"] by linarith
  then obtain j where j: "e = - int j" by (metis nonneg_int_cases neg_0_le_iff_le minus_minus)
  have p: "pow2 e = 1 / 2 ^ j" by (simp add: j pow2_def)
  have "of_int k / pow2 e = (of_int (k * 2 ^ j) :: rat)" by (simp add: p)
  then have "round_even (of_int k / pow2 e) = k * 2 ^ j" by (simp only: round_even_int)
  then show ?thesis using False by (simp add: f64_round_def e_def [symmetric]) (simp add: p)
qed (simp add: f64_round_def)

text \<open>The mean of small numbers, rounded up after a division in floating point, is the exact one.\<close>

lemma f64_ceiling_quotient:
  assumes "0 \<le> a" and "a < 2 ^ 45" and "0 < n" and "n \<le> 256"
  shows "\<lceil>f64_round (f64_round (of_int a) / f64_round (of_int n))\<rceil> = \<lceil>of_int a / (of_int n :: rat)\<rceil>"
proof -
  define q :: rat where "q = of_int a / of_int n"
  have ex: "f64_round (of_int a) = of_int a" "f64_round (of_int n) = of_int n" using assms by (simp_all add: f64_round_int)
  have n: "(0 :: rat) < of_int n" using assms(3) by simp
  have q0: "0 \<le> q" using assms by (simp add: q_def)
  have "\<lceil>f64_round q\<rceil> = \<lceil>q\<rceil>"
  proof (cases "a mod n = 0")
    case True
    then have "q = of_int (a div n)" using n by (auto simp: q_def elim!: dvdE dest!: mod_0_imp_dvd)
    moreover have "0 \<le> a div n" "a div n \<le> a" using assms zdiv_mono2 [of a 1 n] by (simp_all add: pos_imp_zdiv_nonneg_iff)
    ultimately show ?thesis using assms(2) f64_round_int [of "a div n"] by simp
  next
    case False
    have "(of_int a :: rat) < of_int (2 ^ 45)" using assms(2) by (simp only: of_int_less_iff)
    then have "of_int a / 2 ^ 53 < (1 :: rat)" by simp
    then have "q / 2 ^ 53 < 1 / of_int n" unfolding q_def using n by (simp add: divide_strict_right_mono field_simps)
    then have err: "\<bar>f64_round q - q\<bar> < 1 / of_int n" using f64_round_error [OF q0] by linarith
    have m: "1 \<le> a mod n" "a mod n \<le> n - 1" using False assms(3) pos_mod_sign [of n a] pos_mod_bound [of n a] by linarith+
    have "q = of_int (a div n) + of_int (a mod n) / of_int n"
    proof -
      have "(of_int a :: rat) = of_int (a div n * n + a mod n)" by simp
      then show ?thesis using n by (simp only: q_def of_int_add of_int_mult add_divide_distrib) simp
    qed
    moreover have "1 / of_int n \<le> (of_int (a mod n) :: rat) / of_int n" using m(1) n by (intro divide_right_mono) simp_all
    moreover have "(of_int (a mod n) :: rat) / of_int n \<le> 1 - 1 / of_int n"
    proof -
      have "(of_int (a mod n) :: rat) \<le> of_int (n - 1)" using m(2) by (simp only: of_int_le_iff)
      then have "(of_int (a mod n) :: rat) / of_int n \<le> of_int (n - 1) / of_int n" using n by (intro divide_right_mono) simp_all
      then show ?thesis using n by (simp add: diff_divide_distrib)
    qed
    ultimately have "of_int (a div n) < f64_round q" "f64_round q \<le> of_int (a div n) + 1" "of_int (a div n) < q" "q \<le> of_int (a div n) + 1"
      using err n unfolding abs_less_iff by linarith+
    then have "\<lceil>f64_round q\<rceil> = a div n + 1" "\<lceil>q\<rceil> = a div n + 1" by (simp_all add: ceiling_eq_iff)
    then show ?thesis by simp
  qed
  then show ?thesis by (simp add: ex q_def)
qed

end
