(* ===== verification/Assign_Mean.thy ===== *)
theory Assign_Mean
  imports Assign_Rules Go_Float
begin

text \<open>
  The third assign rule computes the mean number of validators of a shard in floating point (\<^verbatim>\<open>consensus_assign_rule.go\<close>); the model uses
  the exact quotient rounded up. Here the two are shown to be equal for all numbers that can occur.
\<close>

text \<open>The computation of the source: the quotient in floating point, truncated, and one more if it was not an integer.\<close>

definition mean_float :: "int list \<Rightarrow> int" where
  "mean_float numberOfValidators =
     (let tempMean = f64_round (f64_round (of_int (sum_list numberOfValidators)) / f64_round (of_int (int (length numberOfValidators)))); mean = \<lfloor>tempMean\<rfloor>
      in if tempMean > f64_round (of_int mean) then mean + 1 else mean)"

lemma mean_up_float:
  assumes "0 < length nv" and "length nv \<le> 256" and "0 \<le> sum_list nv" and "sum_list nv < 2 ^ 45"
  shows "mean_float nv = mean_up nv"
proof -
  define a n where "a = sum_list nv" and "n = int (length nv)"
  define t where "t = f64_round (f64_round (of_int a) / f64_round (of_int n))"
  have an: "0 \<le> a" "a < 2 ^ 45" "0 < n" "n \<le> 256" using assms by (simp_all add: a_def n_def)
  have ex: "f64_round (of_int a) = of_int a" "f64_round (of_int n) = of_int n" using an by (simp_all add: f64_round_int)
  have q: "0 \<le> (of_int a / of_int n :: rat)" "(of_int a / of_int n :: rat) \<le> of_int a" using an by (simp_all add: divide_le_eq mult_le_cancel_left1)
  have t: "0 \<le> t" "t \<le> 2 * of_int a" using f64_round_bounds(1) [OF q(1)] f64_round_coarse(2) [OF q(1)] q(2) unfolding t_def ex by linarith+
  have "\<lfloor>t\<rfloor> \<le> 2 * a" using floor_mono [OF t(2)] floor_of_int [of "2 * a", where 'a = rat] by simp
  also have "2 * a < 2 ^ 53" using an(2) by simp
  finally have "\<lfloor>t\<rfloor> < 2 ^ 53" .
  moreover have "0 \<le> \<lfloor>t\<rfloor>" using t(1) by simp
  ultimately have "f64_round (of_int \<lfloor>t\<rfloor>) = of_int \<lfloor>t\<rfloor>" by (intro f64_round_int)
  then have "mean_float nv = \<lceil>t\<rceil>" unfolding mean_float_def Let_def a_def [symmetric] n_def [symmetric] t_def [symmetric] by (simp add: ceiling_altdef) linarith
  also have "\<dots> = \<lceil>of_int a / (of_int n :: rat)\<rceil>" unfolding t_def by (rule f64_ceiling_quotient [OF an])
  also have "\<dots> = mean_up nv"
  proof -
    have "\<lceil>of_int a / (of_int n :: rat)\<rceil> = - ((- a) div n)" using ceiling_def floor_divide_of_int_eq [of "- a" n] by (simp add: ceiling_def)
    moreover have "a div n * n < a \<longleftrightarrow> a mod n \<noteq> 0" using div_mult_mod_eq [of a n] pos_mod_sign [of n a] an(3) by linarith
    ultimately show ?thesis using an by (simp add: mean_up_def Let_def a_def [symmetric] n_def [symmetric] zdiv_zminus1_eq_if zmod_zminus1_eq_if)
  qed
  finally show ?thesis .
qed

end
