(* ===== verification/Reward_Rules.thy ===== *)
theory Reward_Rules
  imports Go_Float "HOL-Library.Word"
begin

text \<open>
  How the rewards of an epoch are split between the beacon committee, the shard committees, the DAO and the custodians:
  \<^verbatim>\<open>consensus_reward_rule.go\<close> of \<^verbatim>\<open>src/blockchain/committeestate\<close> with its environment (\<^verbatim>\<open>beacon_interface.go\<close>). Rewards are 64-bit words; a Go map
  from tokens to rewards is an association list. The locale \<open>coin_split\<close> is the contract of the body of the loop over the tokens, the locale
  \<open>reward_rule\<close> the contract of the interface \<^verbatim>\<open>SplitRewardRuleProcessor\<close>: nothing is lost and nothing is created.
\<close>

section \<open>Maps of rewards\<close>

type_synonym reward_map = "(string \<times> 64 word) list"

text \<open>What the beacon, the shard, the DAO and the custodians get.\<close>

type_synonym reward_parts = "reward_map \<times> reward_map \<times> reward_map \<times> reward_map"

definition reward_get :: "reward_map \<Rightarrow> string \<Rightarrow> 64 word" where
  "reward_get m k = (case map_of m k of None \<Rightarrow> 0 | Some v \<Rightarrow> v)"

definition reward_add :: "string \<Rightarrow> 64 word \<Rightarrow> reward_map \<Rightarrow> reward_map" where
  "reward_add k v m = al_put k (reward_get m k + v) m"

definition plusMap :: "reward_map \<Rightarrow> reward_map \<Rightarrow> reward_map" where
  "plusMap src dst = foldl (\<lambda>d (k, v). reward_add k v d) dst src"

section \<open>The rules\<close>

record 'k SplitRewardEnvironment =
  sr_ShardID :: nat
  sr_SubsetID :: nat
  sr_TotalReward :: reward_map
  sr_IsSplitRewardForCustodian :: bool
  sr_PercentCustodianReward :: "64 word"
  sr_DAOPercent :: int
  sr_ActiveShards :: int
  sr_MaxSubsetCommittees :: nat
  sr_BeaconCommittee :: "'k list"
  sr_ShardCommittee :: "(nat \<times> 'k list) list"

definition shard_committee_of :: "'k SplitRewardEnvironment \<Rightarrow> 'k list" where
  "shard_committee_of env = (case map_of (sr_ShardCommittee env) (sr_ShardID env) of None \<Rightarrow> [] | Some ks \<Rightarrow> ks)"

text \<open>The DAO shares its part with the custodians.\<close>

definition split_custodian :: "'k SplitRewardEnvironment \<Rightarrow> string \<Rightarrow> 64 word \<Rightarrow> reward_map \<Rightarrow> reward_map \<Rightarrow> reward_map \<times> reward_map" where
  "split_custodian env key both dao custodian =
     (if sr_IsSplitRewardForCustodian env
      then let custodian' = reward_add key (sr_PercentCustodianReward env * both div 100) custodian in
        (reward_add key (both - reward_get custodian' key) dao, custodian')
      else (reward_add key both dao, custodian))"

definition RewardSplitRuleV1_coin :: "'k SplitRewardEnvironment \<Rightarrow> reward_parts \<Rightarrow> string \<times> 64 word \<Rightarrow> reward_parts go" where
  "RewardSplitRuleV1_coin env = (\<lambda>(beacon, shard, dao, custodian) (key, totalReward).
     let devPercent = word_of_int (sr_DAOPercent env); divisor = (word_of_int (sr_ActiveShards env) + 2) * 100 in
     if divisor = 0 then Inl GoPanic
     else let beacon' = reward_add key (2 * ((100 - devPercent) * totalReward) div divisor) beacon;
              both = devPercent * totalReward div 100;
              (dao', custodian') = split_custodian env key both dao custodian in
       Inr (beacon', al_put key (totalReward - (reward_get beacon' key + both)) shard, dao', custodian'))"

definition RewardSplitRuleV1_SplitReward :: "'k SplitRewardEnvironment \<Rightarrow> reward_parts go" where
  "RewardSplitRuleV1_SplitReward env = go_foldl (RewardSplitRuleV1_coin env) ([], [], [], []) (sr_TotalReward env)"

text \<open>The later rules weigh the shard (or a subset of it) against the beacon in floating point; \<open>undef\<close> is what a conversion out of range gives.\<close>

definition shard_part :: "nat \<Rightarrow> f64 \<times> f64 \<Rightarrow> 64 word \<Rightarrow> 64 word" where
  "shard_part undef = (\<lambda>(shardWeight, beaconWeight) validators.
     of_nat (f64_to_uint64 undef (f64_div (f64_mul shardWeight (f64_of_nat (unat validators))) (f64_add shardWeight beaconWeight))))"

definition weighted_coin :: "nat \<Rightarrow> 'k SplitRewardEnvironment \<times> f64 \<times> f64 \<Rightarrow> reward_parts \<Rightarrow> string \<times> 64 word \<Rightarrow> reward_parts go" where
  "weighted_coin undef = (\<lambda>(env, weights) (beacon, shard, dao, custodian) (key, totalReward).
     let both = word_of_int (sr_DAOPercent env) * totalReward div 100;
         shard' = al_put key (shard_part undef weights (totalReward - both)) shard;
         (dao', custodian') = split_custodian env key both dao custodian in
       Inr (reward_add key (totalReward - (reward_get shard' key + both)) beacon, shard', dao', custodian'))"

definition weights_V2 :: "'k SplitRewardEnvironment \<Rightarrow> f64 \<times> f64" where
  "weights_V2 env = (f64_of_nat (length (shard_committee_of env)),
     f64_div (f64_mul (Fin 2) (f64_of_nat (length (sr_BeaconCommittee env)))) (f64_of_nat (length (sr_ShardCommittee env))))"

definition RewardSplitRuleV2_SplitReward :: "nat \<Rightarrow> 'k SplitRewardEnvironment \<Rightarrow> reward_parts go" where
  "RewardSplitRuleV2_SplitReward undef env = go_foldl (weighted_coin undef (env, weights_V2 env)) ([], [], [], []) (sr_TotalReward env)"

definition shardSubsetCommitteeSize :: "'k SplitRewardEnvironment \<Rightarrow> nat go" where
  "shardSubsetCommitteeSize env = (let size = length (shard_committee_of env); subsets = sr_MaxSubsetCommittees env in
     if subsets = 0 then Inl GoPanic
     else Inr (size div subsets + (if size mod subsets \<noteq> 0 \<and> sr_SubsetID env mod subsets = 0 then size mod subsets else 0)))"

definition weights_V3 :: "'k SplitRewardEnvironment \<Rightarrow> (f64 \<times> f64) go" where
  "weights_V3 env = go_bind (shardSubsetCommitteeSize env) (\<lambda>size.
     Inr (f64_of_nat size, f64_div (f64_of_nat (length (sr_BeaconCommittee env))) (f64_of_nat (length (sr_ShardCommittee env)))))"

definition RewardSplitRuleV3_SplitReward :: "nat \<Rightarrow> 'k SplitRewardEnvironment \<Rightarrow> reward_parts go" where
  "RewardSplitRuleV3_SplitReward undef env = go_bind (weights_V3 env) (\<lambda>weights.
     go_foldl (weighted_coin undef (env, weights)) ([], [], [], []) (sr_TotalReward env))"

datatype SplitRewardRuleProcessor = RewardSplitRuleV1 | RewardSplitRuleV2 | RewardSplitRuleV3

abbreviation (input) BLOCK_PRODUCINGV3_VERSION :: int where "BLOCK_PRODUCINGV3_VERSION \<equiv> 7"
abbreviation (input) INSTANT_FINALITY_VERSION_V2 :: int where "INSTANT_FINALITY_VERSION_V2 \<equiv> 9"

definition GetRewardSplitRule :: "int \<Rightarrow> SplitRewardRuleProcessor" where
  "GetRewardSplitRule blockVersion =
     (if blockVersion \<ge> INSTANT_FINALITY_VERSION_V2 then RewardSplitRuleV2
      else if blockVersion \<ge> BLOCK_PRODUCINGV3_VERSION then RewardSplitRuleV3 else RewardSplitRuleV1)"

definition SplitReward :: "nat \<Rightarrow> SplitRewardRuleProcessor \<Rightarrow> 'k SplitRewardEnvironment \<Rightarrow> reward_parts go" where
  "SplitReward undef rule env = (case rule of RewardSplitRuleV1 \<Rightarrow> RewardSplitRuleV1_SplitReward env
     | RewardSplitRuleV2 \<Rightarrow> RewardSplitRuleV2_SplitReward undef env | RewardSplitRuleV3 \<Rightarrow> RewardSplitRuleV3_SplitReward undef env)"

section \<open>Sums of rewards\<close>

fun parts_of :: "reward_parts \<Rightarrow> string \<Rightarrow> nat" where
  "parts_of (beacon, shard, dao, custodian) k = unat (reward_get beacon k) + unat (reward_get shard k) + unat (reward_get dao k) + unat (reward_get custodian k)"

fun parts_wf :: "reward_parts \<Rightarrow> bool" where
  "parts_wf (beacon, shard, dao, custodian) \<longleftrightarrow>
     distinct (map fst beacon) \<and> distinct (map fst shard) \<and> distinct (map fst dao) \<and> distinct (map fst custodian)"

lemma reward_get_put [simp]: "reward_get (al_put k v m) j = (if j = k then v else reward_get m j)"
  by (simp add: reward_get_def)

lemma reward_get_add [simp]: "reward_get (reward_add k v m) j = (if j = k then reward_get m k + v else reward_get m j)"
  by (simp add: reward_add_def)

lemma reward_get_Nil [simp]: "reward_get [] k = 0"
  by (simp add: reward_get_def)

lemma reward_get_Cons [simp]: "reward_get ((j, v) # m) k = (if k = j then v else reward_get m k)"
  by (simp add: reward_get_def)

lemma reward_get_none: "k \<notin> fst ` set m \<Longrightarrow> reward_get m k = 0"
  by (simp add: reward_get_def map_of_eq_None_iff [symmetric])

lemma distinct_reward_add [simp]: "distinct (map fst m) \<Longrightarrow> distinct (map fst (reward_add k v m))"
  by (simp add: reward_add_def)

lemma distinct_plusMap [simp]: "distinct (map fst dst) \<Longrightarrow> distinct (map fst (plusMap src dst))"
  by (induction src arbitrary: dst) (auto simp: plusMap_def)

lemma reward_get_plusMap: "distinct (map fst src) \<Longrightarrow> reward_get (plusMap src dst) k = reward_get dst k + reward_get src k"
proof (induction src arbitrary: dst)
  case (Cons x src)
  obtain j v where x: "x = (j, v)" by fastforce
  have "plusMap (x # src) dst = plusMap src (reward_add j v dst)" by (simp add: plusMap_def x)
  moreover have "reward_get src j = 0" using Cons.prems x by (simp add: reward_get_none)
  ultimately show ?case using Cons by (auto simp: x)
qed (simp add: plusMap_def)

text \<open>The contract of the body of the loop over tokens: a token seen for the first time is split without rest.\<close>

locale coin_split =
  fixes step :: "'e \<Rightarrow> reward_parts \<Rightarrow> string \<times> 64 word \<Rightarrow> reward_parts go"
    and fits :: "'e \<Rightarrow> 64 word \<Rightarrow> bool"
  assumes coin: "fits e v \<Longrightarrow> parts_wf acc \<Longrightarrow> parts_of acc k = 0 \<Longrightarrow>
    \<exists>acc'. step e acc (k, v) = Inr acc' \<and> parts_wf acc' \<and> parts_of acc' k = unat v \<and> (\<forall>j. j \<noteq> k \<longrightarrow> parts_of acc' j = parts_of acc j)"
begin

lemma coins:
  "\<forall>(k, v) \<in> set xs. fits e v \<and> parts_of acc k = 0 \<Longrightarrow> distinct (map fst xs) \<Longrightarrow> parts_wf acc \<Longrightarrow>
    \<exists>acc'. go_foldl (step e) acc xs = Inr acc' \<and> parts_wf acc' \<and> (\<forall>k. parts_of acc' k = parts_of acc k + unat (reward_get xs k))"
proof (induction xs arbitrary: acc)
  case (Cons x xs)
  obtain k v where x: "x = (k, v)" by fastforce
  then obtain acc1 where a: "step e acc (k, v) = Inr acc1" "parts_wf acc1" "parts_of acc1 k = unat v" "\<forall>j. j \<noteq> k \<longrightarrow> parts_of acc1 j = parts_of acc j"
    using coin [of e v acc k] Cons.prems by auto
  have k: "k \<notin> fst ` set xs" using Cons.prems(2) x by simp
  have "fits e w \<and> parts_of acc1 j = 0" if "(j, w) \<in> set xs" for j w
  proof -
    have "j \<noteq> k" using k that by force
    then show ?thesis using Cons.prems(1) a(4) that by fastforce
  qed
  then have "\<forall>(j, w) \<in> set xs. fits e w \<and> parts_of acc1 j = 0" by blast
  from Cons.IH [OF this _ a(2)] Cons.prems(2) obtain acc2 where b: "go_foldl (step e) acc1 xs = Inr acc2" "parts_wf acc2" "\<forall>k. parts_of acc2 k = parts_of acc1 k + unat (reward_get xs k)"
    unfolding list.map distinct.simps by blast
  have "parts_of acc2 j = parts_of acc j + unat (reward_get (x # xs) j)" for j
    using a(3,4) b(3) Cons.prems(1) reward_get_none [OF k] by (cases "j = k") (simp_all add: x)
  then show ?case using a(1) b(1,2) x by auto
qed simp

end

section \<open>Every rule splits without rest\<close>

lemma percent_part: "p \<le> 100 \<Longrightarrow> p * v div 100 \<le> (v :: nat)"
proof -
  assume "p \<le> 100"
  then have "p * v div 100 \<le> 100 * v div 100" by (intro div_le_mono mult_le_mono1)
  then show ?thesis by simp
qed

lemma unat_percent:
  assumes "p \<le> 100" and "100 * unat v < 2 ^ 64"
  shows "unat (of_nat p * v div 100 :: 64 word) = p * unat v div 100"
proof -
  have "p * unat v < 2 ^ 64" using mult_le_mono1 [OF assms(1), of "unat v"] assms(2) by linarith
  moreover have "unat (of_nat p :: 64 word) = p" using assms(1) by (simp add: unat_of_nat)
  ultimately show ?thesis by (simp add: unat_div_distrib unat_mult_lem [THEN iffD1])
qed

lemma unat_sum_diff: "unat a \<le> unat (v :: 64 word) \<Longrightarrow> unat a + unat (v - a) = unat v"
  by (simp add: unat_sub word_le_nat_alt)

text \<open>The conditions under which no rule overflows: percentages, a beacon committee, sizes within the limits of the chain.\<close>

definition reward_fits :: "'k SplitRewardEnvironment \<Rightarrow> 64 word \<Rightarrow> bool" where
  "reward_fits env v \<longleftrightarrow> 0 \<le> sr_DAOPercent env \<and> sr_DAOPercent env \<le> 100 \<and> unat (sr_PercentCustodianReward env) \<le> 100 \<and>
     0 \<le> sr_ActiveShards env \<and> sr_ActiveShards env \<le> 256 \<and> 200 * unat v < 2 ^ 64"

lemma custodian_exact:
  assumes "reward_fits env v" and "unat both \<le> unat v" and "reward_get dao k = 0" and "reward_get custodian k = 0" and "split_custodian env k both dao custodian = (dao', custodian')"
  shows "unat (reward_get dao' k) + unat (reward_get custodian' k) = unat both"
    and "\<forall>j. j \<noteq> k \<longrightarrow> reward_get dao' j = reward_get dao j \<and> reward_get custodian' j = reward_get custodian j"
    and "distinct (map fst dao) \<Longrightarrow> distinct (map fst dao')" and "distinct (map fst custodian) \<Longrightarrow> distinct (map fst custodian')"
proof -
  have "unat (sr_PercentCustodianReward env * both div 100) \<le> unat both"
    using unat_percent [of "unat (sr_PercentCustodianReward env)" both] percent_part [of "unat (sr_PercentCustodianReward env)" "unat both"] assms(1,2)
    by (simp add: reward_fits_def)
  then show "unat (reward_get dao' k) + unat (reward_get custodian' k) = unat both"
    using assms(3-5) unat_sum_diff [of "sr_PercentCustodianReward env * both div 100" both] by (auto simp: split_custodian_def Let_def split: if_splits)
  show "\<forall>j. j \<noteq> k \<longrightarrow> reward_get dao' j = reward_get dao j \<and> reward_get custodian' j = reward_get custodian j"
    "distinct (map fst dao) \<Longrightarrow> distinct (map fst dao')" "distinct (map fst custodian) \<Longrightarrow> distinct (map fst custodian')"
    using assms(5) by (auto simp: split_custodian_def Let_def split: if_splits)
qed

lemma dao_part:
  assumes "reward_fits env v"
  shows "unat (word_of_int (sr_DAOPercent env) * v div 100) = nat (sr_DAOPercent env) * unat v div 100" "nat (sr_DAOPercent env) * unat v div 100 \<le> unat v"
proof -
  have p: "nat (sr_DAOPercent env) \<le> 100" "(word_of_int (sr_DAOPercent env) :: 64 word) = of_nat (nat (sr_DAOPercent env))" "100 * unat v < 2 ^ 64"
    using assms by (auto simp: reward_fits_def nat_le_iff)
  show "unat (word_of_int (sr_DAOPercent env) * v div 100) = nat (sr_DAOPercent env) * unat v div 100" unfolding p(2) by (rule unat_percent [OF p(1,3)])
  show "nat (sr_DAOPercent env) * unat v div 100 \<le> unat v" by (rule percent_part [OF p(1)])
qed

lemma beacon_part:
  fixes v :: "64 word"
  assumes "p \<le> 100" and "a \<le> 256" and "200 * unat v < 2 ^ 64"
  defines "b \<equiv> 2 * ((100 - of_nat p) * v) div ((of_nat a + 2) * 100)"
  shows "unat b + p * unat v div 100 \<le> unat v" and "(of_nat a + 2) * (100 :: 64 word) \<noteq> 0"
proof -
  have "unat (of_nat p :: 64 word) = p" using assms(1) by (simp add: unat_of_nat)
  then have p: "unat (100 - of_nat p :: 64 word) = 100 - p" using assms(1) by (simp add: unat_sub word_le_nat_alt)
  have le: "(100 - p) * unat v \<le> 100 * unat v" by (intro mult_le_mono1) simp
  then have small: "(100 - p) * unat v < 2 ^ 64" "2 * ((100 - p) * unat v) < 2 ^ 64" using assms(3) by linarith+
  then have m1: "unat ((100 - of_nat p) * v) = (100 - p) * unat v" using p by (subst unat_mult_lem [THEN iffD1]) simp_all
  have m2: "unat (2 * ((100 - of_nat p) * v)) = 2 * ((100 - p) * unat v)" using small m1 by (subst unat_mult_lem [THEN iffD1]) simp_all
  have "(of_nat a + 2) * (100 :: 64 word) = of_nat ((a + 2) * 100)" by simp
  then have d: "unat ((of_nat a + 2) * (100 :: 64 word)) = (a + 2) * 100" using assms(2) by (simp only: unat_of_nat) simp
  then show "(of_nat a + 2) * (100 :: 64 word) \<noteq> 0" by (metis add_is_0 mult_eq_0_iff unat_0 zero_neq_numeral)
  have "unat b = 2 * ((100 - p) * unat v) div ((a + 2) * 100)" by (simp only: b_def unat_div_distrib m2 d)
  also have "\<dots> \<le> 2 * ((100 - p) * unat v) div 200" by (intro div_le_mono2) simp_all
  also have "\<dots> = (100 - p) * unat v div 100" using div_mult_mult1 [of 2 "(100 - p) * unat v" 100] by simp
  finally have "100 * unat b + 100 * (p * unat v div 100) \<le> (100 - p) * unat v + p * unat v" by (simp add: div_times_less_eq_dividend)
  also have "\<dots> = 100 * unat v" using assms(1) by (simp flip: distrib_right)
  finally show "unat b + p * unat v div 100 \<le> unat v" by simp
qed

lemma V1_coin:
  assumes "reward_fits env v" and "parts_wf acc" and "parts_of acc k = 0"
  shows "\<exists>acc'. RewardSplitRuleV1_coin env acc (k, v) = Inr acc' \<and> parts_wf acc' \<and> parts_of acc' k = unat v \<and> (\<forall>j. j \<noteq> k \<longrightarrow> parts_of acc' j = parts_of acc j)"
proof -
  obtain b s d c where acc: "acc = (b, s, d, c)" by (cases acc) auto
  define both :: "64 word" where "both = word_of_int (sr_DAOPercent env) * v div 100"
  obtain d' c' where dc: "split_custodian env k both d c = (d', c')" by fastforce
  define part :: "64 word" where "part = 2 * ((100 - word_of_int (sr_DAOPercent env)) * v) div ((word_of_int (sr_ActiveShards env) + 2) * 100)"
  note both = dao_part [OF assms(1), folded both_def]
  have zero: "reward_get b k = 0" "reward_get d k = 0" "reward_get c k = 0" using assms(3) acc by (simp_all add: unat_eq_0)
  note dc' = custodian_exact [OF assms(1) _ zero(2,3) dc]
  have w: "(word_of_int (sr_DAOPercent env) :: 64 word) = of_nat (nat (sr_DAOPercent env))" "(word_of_int (sr_ActiveShards env) :: 64 word) = of_nat (nat (sr_ActiveShards env))"
    "nat (sr_DAOPercent env) \<le> 100" "nat (sr_ActiveShards env) \<le> 256" "200 * unat v < 2 ^ 64" using assms(1) by (auto simp: reward_fits_def nat_le_iff)
  note part = beacon_part [OF w(3,4,5), folded w(1,2), folded part_def]
  have sum: "unat (part + both) = unat part + unat both" using part(1) both w(5) by (intro unat_add_lem [THEN iffD1]) simp
  then have rest: "unat part + unat (v - (part + both)) + unat both = unat v" using part(1) both unat_sum_diff [of "part + both" v] by simp
  have "RewardSplitRuleV1_coin env acc (k, v) = Inr (reward_add k part b, al_put k (v - (part + both)) s, d', c')"
    unfolding RewardSplitRuleV1_coin_def acc Let_def prod.case both_def [symmetric] part_def [symmetric] dc using part(2) zero(1) by simp
  moreover have "parts_of (reward_add k part b, al_put k (v - (part + both)) s, d', c') k = unat v" using rest dc'(1) both zero(1) by simp
  ultimately show ?thesis using assms(2) dc'(2-4) both by (simp add: acc)
qed

interpretation v1_coin: coin_split RewardSplitRuleV1_coin reward_fits
  by unfold_locales (rule V1_coin)

text \<open>The floating point share never exceeds what the validators get together.\<close>

fun weights_fit :: "f64 \<times> f64 \<Rightarrow> bool" where
  "weights_fit (Fin w, Fin b) \<longleftrightarrow> 0 \<le> w \<and> 0 < b \<and> w \<le> b * 2 ^ 49"
| "weights_fit _ \<longleftrightarrow> False"

lemma shard_part_bound:
  assumes "weights_fit weights"
  shows "unat (shard_part undef weights v) \<le> unat v"
proof -
  obtain w b where wb: "weights = (Fin w, Fin b)" "0 \<le> w" "0 < b" "w \<le> b * 2 ^ 49" using assms by (cases weights rule: weights_fit.cases) auto
  define n where "n = unat v"
  define q where "q = f64_round (f64_round (w * f64_round (of_nat n)) / f64_round (w + b))"
  have q: "q \<le> of_nat n" unfolding q_def by (rule share_rounded [OF wb(2-4)]) simp
  have "n < 2 ^ 64" using unsigned_less [of v] by (simp add: n_def)
  then have "(of_nat n :: rat) < of_nat (2 ^ 64)" by (simp only: of_nat_less_iff)
  then have "q < 2 ^ 64" using q by simp
  then have "shard_part undef weights v = of_nat (nat \<lfloor>q\<rfloor>)"
    unfolding shard_part_def wb(1) prod.case n_def [symmetric] using f64_round_pos [of "w + b"] wb(2,3) by (simp add: f64_of_nat_def f64_to_uint64_def q_def [symmetric])
  moreover have "nat \<lfloor>q\<rfloor> \<le> n" using q floor_mono [OF q] by (simp add: nat_le_iff)
  ultimately show ?thesis unfolding n_def by (metis unat_of_nat mod_less_eq_dividend order_trans)
qed

lemma weighted_coin_exact:
  assumes "reward_fits (fst ew) v \<and> weights_fit (snd ew)" and "parts_wf acc" and "parts_of acc k = 0"
  shows "\<exists>acc'. weighted_coin undef ew acc (k, v) = Inr acc' \<and> parts_wf acc' \<and> parts_of acc' k = unat v \<and> (\<forall>j. j \<noteq> k \<longrightarrow> parts_of acc' j = parts_of acc j)"
proof -
  obtain env weights where ew: "ew = (env, weights)" "reward_fits env v" "weights_fit weights" using assms(1) by (cases ew) auto
  obtain b s d c where acc: "acc = (b, s, d, c)" by (cases acc) auto
  define both :: "64 word" where "both = word_of_int (sr_DAOPercent env) * v div 100"
  obtain d' c' where dc: "split_custodian env k both d c = (d', c')" by fastforce
  define part where "part = shard_part undef weights (v - both)"
  have both: "unat both \<le> unat v" using dao_part [OF ew(2), folded both_def] by simp
  have zero: "reward_get b k = 0" "reward_get d k = 0" "reward_get c k = 0" using assms(3) acc by (simp_all add: unat_eq_0)
  note dc' = custodian_exact [OF ew(2) both zero(2,3) dc]
  have le: "unat part \<le> unat (v - both)" unfolding part_def by (rule shard_part_bound [OF ew(3)])
  have "unat (part + both) = unat part + unat both" using le unat_sum_diff [OF both] ew(2) by (intro unat_add_lem [THEN iffD1]) (simp add: reward_fits_def)
  then have rest: "unat (v - (part + both)) + unat part + unat both = unat v" using le unat_sum_diff [OF both] unat_sum_diff [of "part + both" v] by simp
  have "weighted_coin undef ew acc (k, v) = Inr (reward_add k (v - (part + both)) b, al_put k part s, d', c')"
    unfolding weighted_coin_def ew(1) acc Let_def prod.case both_def [symmetric] part_def [symmetric] dc by simp
  moreover have "parts_of (reward_add k (v - (part + both)) b, al_put k part s, d', c') k = unat v" using rest dc'(1) zero(1) by simp
  ultimately show ?thesis using assms(2) dc'(2-4) by (simp add: acc)
qed

interpretation weighted: coin_split "weighted_coin undef" "\<lambda>ew v. reward_fits (fst ew) v \<and> weights_fit (snd ew)" for undef
  by unfold_locales (rule weighted_coin_exact)

section \<open>The contract of the rules\<close>

definition reward_env_ok :: "'k SplitRewardEnvironment \<Rightarrow> bool" where
  "reward_env_ok env \<longleftrightarrow> distinct (map fst (sr_TotalReward env)) \<and> list_all (\<lambda>(k, v). reward_fits env v) (sr_TotalReward env) \<and>
     sr_BeaconCommittee env \<noteq> [] \<and> sr_ShardCommittee env \<noteq> [] \<and> length (sr_ShardCommittee env) \<le> 256 \<and>
     length (shard_committee_of env) \<le> 2 ^ 32 \<and> 0 < sr_MaxSubsetCommittees env"

lemma weights_fit_sizes:
  assumes "members \<le> 2 ^ 32" and "1 / 2 \<le> x" and "0 < shards" and "shards \<le> 256"
  shows "weights_fit (f64_of_nat members, f64_div (Fin x) (f64_of_nat shards))"
proof -
  have n: "0 < f64_round (of_nat shards)" "f64_round (of_nat shards) \<le> 512"
    using f64_round_pos [of "of_nat shards"] f64_round_coarse(2) [of "of_nat shards"] assms(3,4) by simp_all
  have y: "1 / 2 / 512 \<le> x / f64_round (of_nat shards)" using assms(2) n by (intro frac_le) auto
  then have "0 \<le> x / f64_round (of_nat shards)" by (rule order_trans [rotated]) simp
  from order_trans [OF divide_right_mono [OF y, of 2] f64_round_coarse(1) [OF this]] have b: "1 / 2048 \<le> f64_round (x / f64_round (of_nat shards))" by simp
  have "(of_nat members :: rat) \<le> of_nat (2 ^ 32)" using assms(1) by (simp only: of_nat_le_iff)
  then have w: "0 \<le> f64_round (of_nat members)" "f64_round (of_nat members) \<le> 2 * 2 ^ 32"
    using f64_round_coarse(2) [of "of_nat members"] f64_round_bounds(1) [of "of_nat members"] by simp_all
  show ?thesis using b w n(1) by (simp add: f64_of_nat_def)
qed

lemma beacon_weight: "ks \<noteq> [] \<Longrightarrow> 1 / 2 \<le> f64_round (of_nat (length ks))" "ks \<noteq> [] \<Longrightarrow> 1 / 2 \<le> f64_round (2 * f64_round (of_nat (length ks)))"
proof -
  assume "ks \<noteq> []"
  then have "1 \<le> (of_nat (length ks) :: rat)" by (cases ks) auto
  then show *: "1 / 2 \<le> f64_round (of_nat (length ks))" using f64_round_coarse(1) [of "of_nat (length ks)"] by simp
  then show "1 / 2 \<le> f64_round (2 * f64_round (of_nat (length ks)))" using f64_round_coarse(1) [of "2 * f64_round (of_nat (length ks))"] by simp
qed

lemma weights_V2_fit: "reward_env_ok env \<Longrightarrow> weights_fit (weights_V2 env)"
  using weights_fit_sizes beacon_weight(2) [of "sr_BeaconCommittee env"] by (simp add: reward_env_ok_def weights_V2_def f64_of_nat_def [of "length (sr_BeaconCommittee env)"])

lemma weights_V3_fit: "reward_env_ok env \<Longrightarrow> \<exists>weights. weights_V3 env = Inr weights \<and> weights_fit weights"
proof -
  assume ok: "reward_env_ok env"
  let ?n = "length (shard_committee_of env)" and ?m = "sr_MaxSubsetCommittees env"
  have "?n div ?m + ?n mod ?m \<le> ?n" using ok mod_div_mult_eq [of ?n ?m] by (cases ?m) (auto simp: reward_env_ok_def mult.commute intro: order_trans [OF _ eq_refl])
  then obtain members where members: "shardSubsetCommitteeSize env = Inr members" "members \<le> ?n"
    using ok by (auto simp: shardSubsetCommitteeSize_def reward_env_ok_def Let_def)
  moreover have "weights_fit (f64_of_nat members, f64_div (f64_of_nat (length (sr_BeaconCommittee env))) (f64_of_nat (length (sr_ShardCommittee env))))"
    using members(2) ok beacon_weight(1) [of "sr_BeaconCommittee env"] unfolding f64_of_nat_def [of "length (sr_BeaconCommittee env)"]
    by (intro weights_fit_sizes) (auto simp: reward_env_ok_def)
  ultimately show ?thesis by (simp add: weights_V3_def)
qed

text \<open>The interface \<^verbatim>\<open>SplitRewardRuleProcessor\<close>.\<close>

locale reward_rule =
  fixes split :: "'k SplitRewardEnvironment \<Rightarrow> reward_parts go"
  assumes split_exact: "reward_env_ok env \<Longrightarrow>
    \<exists>parts. split env = Inr parts \<and> parts_wf parts \<and> (\<forall>k. parts_of parts k = unat (reward_get (sr_TotalReward env) k))"

interpretation rule_v1: reward_rule RewardSplitRuleV1_SplitReward
proof unfold_locales
  fix env :: "'k SplitRewardEnvironment"
  assume ok: "reward_env_ok env"
  show "\<exists>parts. RewardSplitRuleV1_SplitReward env = Inr parts \<and> parts_wf parts \<and> (\<forall>k. parts_of parts k = unat (reward_get (sr_TotalReward env) k))"
    using v1_coin.coins [of "sr_TotalReward env" env "([], [], [], [])"] ok by (simp add: RewardSplitRuleV1_SplitReward_def reward_env_ok_def list_all_iff)
qed

lemma weighted_loop:
  assumes "reward_env_ok env" and "weights_fit weights"
  shows "\<exists>parts. go_foldl (weighted_coin undef (env, weights)) ([], [], [], []) (sr_TotalReward env) = Inr parts \<and> parts_wf parts \<and>
    (\<forall>k. parts_of parts k = unat (reward_get (sr_TotalReward env) k))"
  using weighted.coins [of "sr_TotalReward env" "(env, weights)" "([], [], [], [])" undef] assms by (simp add: reward_env_ok_def list_all_iff case_prod_beta)

interpretation rule_v2: reward_rule "RewardSplitRuleV2_SplitReward undef" for undef
  by unfold_locales (simp only: RewardSplitRuleV2_SplitReward_def weighted_loop weights_V2_fit)

interpretation rule_v3: reward_rule "RewardSplitRuleV3_SplitReward undef" for undef
  by unfold_locales (use weights_V3_fit weighted_loop in \<open>fastforce simp: RewardSplitRuleV3_SplitReward_def\<close>)

interpretation rule: reward_rule "SplitReward undef r" for undef r
  by unfold_locales (cases r; simp only: SplitReward_def SplitRewardRuleProcessor.case rule_v1.split_exact rule_v2.split_exact rule_v3.split_exact)

end
