(* ===== verification/Salary.thy ===== *)
theory Salary
  imports Reward_Rules
begin

text \<open>
  The rewards of the chain, \<^verbatim>\<open>src/blockchain/salary.go\<close> with the records of \<^verbatim>\<open>statedb/accessor_reward.go\<close>: how much a block is worth and
  how minting is capped, how the rewards that the shards collected in an epoch become instructions, and how a shard credits its committee.
  The configuration is the record \<open>reward_config\<close>; instructions appear decoded; the committees of an epoch, read from the database, are arguments.
  Database errors are not modelled.
\<close>

section \<open>The reward of a block\<close>

record anchorTime =
  an_Feature :: string
  an_BlockHeight :: "64 word"
  an_Timeslot :: int

record reward_config =
  rc_BasicReward :: "64 word"
  rc_MaxReward :: "64 word"
  rc_MinBeaconBlockInterval :: "64 word"
  rc_BlockTimeParam :: "string \<Rightarrow> int"
  rc_FeatureVersion :: "string \<Rightarrow> int"
  rc_Anchors :: "anchorTime list"
  rc_ShardAnchors :: "nat \<Rightarrow> anchorTime list"

abbreviation (input) BLOCKTIME_DEFAULT :: string where "BLOCKTIME_DEFAULT \<equiv> ''blocktimedef''"
abbreviation (input) ADJUST_BLOCKTIME_VERSION :: int where "ADJUST_BLOCKTIME_VERSION \<equiv> 10"

definition word_div :: "64 word \<Rightarrow> 64 word \<Rightarrow> 64 word go" where
  "word_div a b = (if b = 0 then Inl GoPanic else Inr (a div b))"

definition getNoBlkPerYear :: "64 word \<Rightarrow> 64 word go" where
  "getNoBlkPerYear blockCreationTimeSeconds = word_div 31557600 blockCreationTimeSeconds"

fun yearly_reduction :: "nat \<Rightarrow> 64 word \<Rightarrow> 64 word" where
  "yearly_reduction 0 reward = reward"
| "yearly_reduction (Suc n) reward = yearly_reduction n (reward * 91 div 100)"

definition getRewardAmount :: "reward_config \<Rightarrow> 64 word \<Rightarrow> 64 word go" where
  "getRewardAmount cfg blkHeight =
     go_bind (getNoBlkPerYear (rc_MinBeaconBlockInterval cfg)) (\<lambda>blockInYear.
     go_bind (word_div (blkHeight - 1) blockInYear) (\<lambda>n. Inr (yearly_reduction (unat n) (rc_BasicReward cfg))))"

definition getRewardAmountV2 :: "64 word \<Rightarrow> 64 word \<Rightarrow> 64 word" where
  "getRewardAmountV2 basicReward year = yearly_reduction (unat year) basicReward"

fun block_time_of :: "reward_config \<Rightarrow> int \<Rightarrow> int \<Rightarrow> anchorTime list \<Rightarrow> int" where
  "block_time_of cfg blkVersion blockTime [] = blockTime"
| "block_time_of cfg blkVersion blockTime (anchor # rest) =
     (if rc_FeatureVersion cfg (an_Feature anchor) > blkVersion then blockTime else block_time_of cfg blkVersion (an_Timeslot anchor) rest)"

definition GetBlockTimeByBlockVersion :: "reward_config \<Rightarrow> int \<Rightarrow> int" where
  "GetBlockTimeByBlockVersion cfg blkVersion = block_time_of cfg blkVersion (rc_BlockTimeParam cfg BLOCKTIME_DEFAULT) (rc_Anchors cfg)"

definition GetBasicRewardByVersion :: "reward_config \<Rightarrow> int \<Rightarrow> 64 word go" where
  "GetBasicRewardByVersion cfg version =
     word_div (rc_BasicReward cfg * word_of_int (GetBlockTimeByBlockVersion cfg version)) (word_of_int (rc_BlockTimeParam cfg BLOCKTIME_DEFAULT))"

text \<open>The state of the loop is the start height, the end height, the last block time and the number of blocks of default length.\<close>

definition year_step :: "reward_config \<Rightarrow> 64 word \<Rightarrow> 64 word \<times> 64 word \<times> int \<times> 64 word \<Rightarrow> anchorTime \<Rightarrow> (64 word \<times> 64 word \<times> int \<times> 64 word) go" where
  "year_step cfg blkHeight = (\<lambda>(startBlkHeight, endBlkHeight, prevBlockTime, totalBlock) anchor.
     let end' = (if an_BlockHeight anchor > blkHeight then blkHeight else an_BlockHeight anchor) in
     go_bind (word_div ((end' - startBlkHeight) * word_of_int prevBlockTime) (word_of_int (rc_BlockTimeParam cfg BLOCKTIME_DEFAULT))) (\<lambda>blocks.
       Inr (end', end', rc_BlockTimeParam cfg (an_Feature anchor), totalBlock + blocks)))"

definition getYearOfBlockChain :: "reward_config \<Rightarrow> anchorTime list \<Rightarrow> 64 word \<Rightarrow> 64 word go" where
  "getYearOfBlockChain cfg anchors blkHeight = (let def = word_of_int (rc_BlockTimeParam cfg BLOCKTIME_DEFAULT) in
     go_bind (go_foldl (year_step cfg blkHeight) (0, 0, rc_BlockTimeParam cfg BLOCKTIME_DEFAULT, 0) anchors) (\<lambda>(startBlkHeight, endBlkHeight, prevBlockTime, totalBlock).
     go_bind (if endBlkHeight < blkHeight then word_div ((blkHeight - startBlkHeight) * word_of_int prevBlockTime) def else Inr 0) (\<lambda>blocks.
     go_bind (getNoBlkPerYear def) (\<lambda>perYear. word_div (totalBlock + blocks) perYear))))"

definition GetRewardAmount :: "reward_config \<Rightarrow> nat \<Rightarrow> int \<Rightarrow> 64 word \<Rightarrow> 64 word go" where
  "GetRewardAmount cfg shardID shardVersion shardHeight =
     (if shardVersion < ADJUST_BLOCKTIME_VERSION then getRewardAmount cfg shardHeight
      else go_bind (GetBasicRewardByVersion cfg shardVersion) (\<lambda>basicReward.
        go_bind (getYearOfBlockChain cfg (rc_ShardAnchors cfg shardID) shardHeight) (\<lambda>year. Inr (getRewardAmountV2 basicReward year))))"

definition getPercentForIncognitoDAOV2 :: "64 word \<Rightarrow> int" where
  "getPercentForIncognitoDAOV2 year = (if year > 7 then 3 else 10 - uint year)"

section \<open>Collecting rewards\<close>

text \<open>The requests in the database: an amount for an epoch, a shard (or a shard and a subset) and a token.\<close>

type_synonym 'l reward_db = "((nat \<times> 'l \<times> string) \<times> 64 word) list"

definition AddShardRewardRequest :: "nat \<Rightarrow> 'l \<Rightarrow> string \<times> 64 word \<Rightarrow> 'l reward_db \<Rightarrow> 'l reward_db" where
  "AddShardRewardRequest epoch loc = (\<lambda>(tokenID, rewardAmount) db.
     al_put (epoch, loc, tokenID) (rewardAmount + (case map_of db (epoch, loc, tokenID) of None \<Rightarrow> 0 | Some a \<Rightarrow> a)) db)"

definition GetRewardOfShardByEpoch :: "'l reward_db \<Rightarrow> nat \<Rightarrow> 'l \<Rightarrow> string \<Rightarrow> 64 word" where
  "GetRewardOfShardByEpoch db epoch loc tokenID = (case map_of db (epoch, loc, tokenID) of None \<Rightarrow> 0 | Some a \<Rightarrow> a)"

definition GetAllTokenIDForReward :: "'l reward_db \<Rightarrow> nat \<Rightarrow> string list" where
  "GetAllTokenIDForReward db epoch = map (\<lambda>((_, _, tokenID), _). tokenID) (filter (\<lambda>((e, _, _), _). e = epoch) db)"

definition GetAllTokenIDForRewardMultiset :: "'l reward_db \<Rightarrow> nat \<Rightarrow> string list" where
  "GetAllTokenIDForRewardMultiset db epoch = remdups (GetAllTokenIDForReward db epoch)"

record reward_state =
  rs_RewardMinted :: "64 word"
  rs_requests :: "nat reward_db"
  rs_requestsMultiset :: "(nat \<times> nat) reward_db"

datatype accept_inst =
    AcceptBlockRewardV1 (ai_shard: nat) (ai_height: "64 word") (ai_fees: reward_map)
  | AcceptBlockRewardV3 (ai_shard: nat) nat (ai_height: "64 word") (ai_fees: reward_map)

record reward_block =
  rb_Version :: int
  rb_Epoch :: nat
  rb_ShardVersions :: "nat \<Rightarrow> 64 word \<Rightarrow> int option"
  rb_Instructions :: "accept_inst list"

text \<open>From a version on the rewards of all blocks together are limited.\<close>

definition capped_reward :: "reward_config \<Rightarrow> int \<Rightarrow> 64 word \<Rightarrow> 64 word \<Rightarrow> 64 word \<times> 64 word" where
  "capped_reward cfg headerVersion rewardMinted rewardAmount =
     (if headerVersion \<ge> INSTANT_FINALITY_VERSION_V2
      then let amount = (if rewardMinted + rewardAmount > rc_MaxReward cfg
             then if rc_MaxReward cfg > rewardMinted then rc_MaxReward cfg - rewardMinted else 0
             else rewardAmount) in (amount, rewardMinted + amount)
      else (rewardAmount, rewardMinted))"

definition add_requests :: "nat \<Rightarrow> 'l \<Rightarrow> reward_map \<Rightarrow> 'l reward_db \<Rightarrow> 'l reward_db" where
  "add_requests epoch loc fees db = foldl (\<lambda>d (key, value). if value \<noteq> 0 then AddShardRewardRequest epoch loc (key, value) d else d) db fees"

definition accept_reward :: "reward_config \<Rightarrow> string \<Rightarrow> reward_block \<Rightarrow> reward_state \<Rightarrow> accept_inst \<Rightarrow> reward_state go" where
  "accept_reward cfg prv blk s inst =
     go_bind (GetRewardAmount cfg (ai_shard inst) (case rb_ShardVersions blk (ai_shard inst) (ai_height inst) of None \<Rightarrow> rb_Version blk | Some v \<Rightarrow> v) (ai_height inst)) (\<lambda>rewardAmount.
     let (amount, minted) = capped_reward cfg (rb_Version blk) (rs_RewardMinted s) rewardAmount; fees = reward_add prv amount (ai_fees inst) in
     Inr (case inst of AcceptBlockRewardV1 shardID _ _ \<Rightarrow> s\<lparr>rs_RewardMinted := minted, rs_requests := add_requests (rb_Epoch blk) shardID fees (rs_requests s)\<rparr>
       | AcceptBlockRewardV3 shardID subsetID _ _ \<Rightarrow>
           s\<lparr>rs_RewardMinted := minted, rs_requestsMultiset := add_requests (rb_Epoch blk) (shardID, subsetID) fees (rs_requestsMultiset s)\<rparr>))"

definition addShardRewardRequestToBeacon :: "reward_config \<Rightarrow> string \<Rightarrow> reward_block \<Rightarrow> reward_state \<Rightarrow> reward_state go" where
  "addShardRewardRequestToBeacon cfg prv blk s = go_foldl (accept_reward cfg prv blk) s (rb_Instructions blk)"

section \<open>The instructions of an epoch\<close>

record 'k reward_view =
  rv_ActiveShards :: nat
  rv_BeaconCommittee :: "'k list"
  rv_ShardCommittee :: "(nat \<times> 'k list) list"

text \<open>The rewards of a shard; tokens without reward are deleted again.\<close>

definition total_rewards :: "(string \<Rightarrow> 64 word) \<Rightarrow> string list \<Rightarrow> reward_map" where
  "total_rewards amount allCoinID = foldl (\<lambda>m coinID. let m' = al_put coinID (amount coinID) m in if amount coinID = 0 then al_del coinID m' else m') [] allCoinID"

text \<open>Split the rewards of one environment and add the parts to the sums; the shard parts are listed.\<close>

definition add_split :: "('k SplitRewardEnvironment \<Rightarrow> reward_parts go) \<Rightarrow> reward_map \<times> reward_map list \<times> reward_map \<times> reward_map \<Rightarrow>
    'k SplitRewardEnvironment \<Rightarrow> (reward_map \<times> reward_map list \<times> reward_map \<times> reward_map) go" where
  "add_split split = (\<lambda>(beacon, shards, dao, custodian) env. go_bind (split env) (\<lambda>(rewardForBeacon, rewardForShard, rewardForDAO, rewardForCustodian).
     Inr (plusMap rewardForBeacon beacon, shards @ [plusMap rewardForShard []], plusMap rewardForDAO dao, plusMap rewardForCustodian custodian)))"

definition split_env :: "'k reward_view \<Rightarrow> bool \<Rightarrow> 64 word \<Rightarrow> int \<Rightarrow> nat \<Rightarrow> nat \<Rightarrow> nat \<Rightarrow> reward_map \<Rightarrow> 'k SplitRewardEnvironment" where
  "split_env view isSplit percent daoPercent shardID subsetID subsets totalReward = \<lparr>sr_ShardID = shardID, sr_SubsetID = subsetID, sr_TotalReward = totalReward,
     sr_IsSplitRewardForCustodian = isSplit, sr_PercentCustodianReward = percent, sr_DAOPercent = daoPercent, sr_ActiveShards = int (rv_ActiveShards view),
     sr_MaxSubsetCommittees = subsets, sr_BeaconCommittee = rv_BeaconCommittee view, sr_ShardCommittee = rv_ShardCommittee view\<rparr>"

definition calculateReward :: "('k SplitRewardEnvironment \<Rightarrow> reward_parts go) \<Rightarrow> 'k reward_view \<Rightarrow> nat reward_db \<Rightarrow> nat \<Rightarrow> 64 word \<Rightarrow> bool \<Rightarrow> 64 word \<Rightarrow>
    (reward_map \<times> reward_map list \<times> reward_map \<times> reward_map) go" where
  "calculateReward split view db epoch year isSplit percent =
     go_foldl (add_split split) ([], [], [], []) (map (\<lambda>shardID. split_env view isSplit percent (getPercentForIncognitoDAOV2 year) shardID 0 1
       (total_rewards (GetRewardOfShardByEpoch db epoch shardID) (GetAllTokenIDForReward db epoch))) [0..<rv_ActiveShards view])"

text \<open>With subsets the rewards of a shard are a list; the environment leaves the number of active shards at zero.\<close>

definition calculateRewardMultiset :: "('k SplitRewardEnvironment \<Rightarrow> reward_parts go) \<Rightarrow> 'k reward_view \<Rightarrow> nat \<Rightarrow> (nat \<times> nat) reward_db \<Rightarrow> nat \<Rightarrow> 64 word \<Rightarrow> bool \<Rightarrow> 64 word \<Rightarrow>
    (reward_map \<times> reward_map list list \<times> reward_map \<times> reward_map) go" where
  "calculateRewardMultiset split view maxSubsetsCommittee db epoch year isSplit percent =
     go_foldl (\<lambda>(beacon, shards, dao, custodian) shardID.
       go_bind (go_foldl (add_split split) (beacon, [], dao, custodian) (map (\<lambda>subsetID.
           (split_env view isSplit percent (getPercentForIncognitoDAOV2 year) shardID subsetID maxSubsetsCommittee
             (total_rewards (GetRewardOfShardByEpoch db epoch (shardID, subsetID)) (GetAllTokenIDForRewardMultiset db epoch)))\<lparr>sr_ActiveShards := 0\<rparr>) [0..<maxSubsetsCommittee]))
         (\<lambda>(beacon', subsets, dao', custodian'). Inr (beacon', shards @ [subsets], dao', custodian'))) ([], [], [], []) [0..<rv_ActiveShards view]"

datatype 'r reward_inst =
    BeaconReward 'r reward_map
  | IncDAOReward reward_map
  | ShardReceiveRewardV1 nat nat reward_map
  | ShardReceiveRewardV3 nat nat nat reward_map

definition buildInstRewardForBeacons :: "reward_map \<Rightarrow> 'r list \<Rightarrow> 'r reward_inst list go" where
  "buildInstRewardForBeacons totalReward rewardReceiver =
     (if totalReward \<noteq> [] \<and> rewardReceiver = [] then Inl GoPanic
      else Inr (map (\<lambda>receiver. BeaconReward receiver (map (\<lambda>(key, value). (key, value div of_nat (length rewardReceiver))) totalReward)) rewardReceiver))"

definition buildInstructionRewardForShards :: "nat \<Rightarrow> reward_map list \<Rightarrow> 'r reward_inst list" where
  "buildInstructionRewardForShards epoch totalRewards = map (\<lambda>(i, reward). ShardReceiveRewardV1 epoch i reward) (filter (\<lambda>(i, reward). reward \<noteq> []) (enumerate 0 totalRewards))"

definition buildInstructionRewardForShardsV3 :: "nat \<Rightarrow> reward_map list list \<Rightarrow> 'r reward_inst list" where
  "buildInstructionRewardForShardsV3 epoch totalRewards = concat (map (\<lambda>(shardID, v).
     map (\<lambda>(subsetID, reward). ShardReceiveRewardV3 epoch shardID subsetID reward) (filter (\<lambda>(subsetID, reward). reward \<noteq> []) (enumerate 0 v))) (enumerate 0 totalRewards))"

text \<open>The exchange gets a part of what the DAO gets in the native token.\<close>

definition pdex_part :: "string \<Rightarrow> bool \<Rightarrow> nat \<Rightarrow> reward_map \<Rightarrow> (64 word \<times> reward_map) go" where
  "pdex_part prv isSplitRewardForPdex pdexRewardPercent dao = (let prvReward = reward_get dao prv in
     if prvReward > 0 \<and> isSplitRewardForPdex
     then let temp = unat prvReward * pdexRewardPercent div 100 in
       if temp < 2 ^ 64 then Inr (of_nat temp, al_put prv (prvReward - of_nat temp) dao) else Inl (GoErr ''Reward for Pdex is not uint64'')
     else Inr (0, dao))"

abbreviation (input) MaxSubsetCommittees :: nat where "MaxSubsetCommittees \<equiv> 2"

definition buildRewardInstructionByEpoch :: "reward_config \<Rightarrow> nat \<Rightarrow> string \<Rightarrow> 'k reward_view \<Rightarrow> reward_state \<Rightarrow> 'r list go \<Rightarrow> 64 word \<Rightarrow> nat \<Rightarrow> bool \<Rightarrow> 64 word \<Rightarrow>
    bool \<Rightarrow> nat \<Rightarrow> int \<Rightarrow> ('r reward_inst list \<times> reward_map \<times> 64 word) go" where
  "buildRewardInstructionByEpoch cfg undef prv view s receivers blkHeight epoch isSplitRewardForCustodian percentCustodianRewards isSplitRewardForPdex pdexRewardPercent blockVersion =
     go_bind (getYearOfBlockChain cfg (rc_Anchors cfg) blkHeight) (\<lambda>year.
     go_bind (if blockVersion \<ge> BLOCK_PRODUCINGV3_VERSION \<and> blockVersion < INSTANT_FINALITY_VERSION_V2
         then go_bind (calculateRewardMultiset (SplitReward undef (GetRewardSplitRule blockVersion)) view MaxSubsetCommittees (rs_requestsMultiset s) epoch year
             isSplitRewardForCustodian percentCustodianRewards)
           (\<lambda>(beacon, shards, dao, custodian). Inr (beacon, buildInstructionRewardForShardsV3 epoch shards, dao, custodian))
         else go_bind (calculateReward (SplitReward undef (GetRewardSplitRule blockVersion)) view (rs_requests s) epoch year
             isSplitRewardForCustodian percentCustodianRewards)
           (\<lambda>(beacon, shards, dao, custodian). Inr (beacon, buildInstructionRewardForShards epoch shards, dao, custodian)))
       (\<lambda>(totalRewardForBeacon, instRewardForShards, totalRewardForIncDAO, totalRewardForCustodian).
     go_bind (if totalRewardForBeacon = [] then Inr [] else go_bind receivers (buildInstRewardForBeacons totalRewardForBeacon)) (\<lambda>instRewardForBeacons.
     go_bind (if totalRewardForIncDAO = [] then Inr (0, [])
         else go_bind (pdex_part prv isSplitRewardForPdex pdexRewardPercent totalRewardForIncDAO) (\<lambda>(rewardForPdex, dao). Inr (rewardForPdex, [IncDAOReward dao])))
       (\<lambda>(rewardForPdex, instRewardForIncDAO).
       Inr (instRewardForBeacons @ instRewardForIncDAO @ instRewardForShards, totalRewardForCustodian, rewardForPdex)))))"

section \<open>Nothing is lost in an epoch\<close>

fun sums_of :: "reward_map \<times> reward_map list \<times> reward_map \<times> reward_map \<Rightarrow> string \<Rightarrow> nat" where
  "sums_of (beacon, shards, dao, custodian) k =
     unat (reward_get beacon k) + sum_list (map (\<lambda>m. unat (reward_get m k)) shards) + unat (reward_get dao k) + unat (reward_get custodian k)"

fun sums_wf :: "reward_map \<times> reward_map list \<times> reward_map \<times> reward_map \<Rightarrow> bool" where
  "sums_wf (beacon, shards, dao, custodian) \<longleftrightarrow> distinct (map fst beacon) \<and> distinct (map fst dao) \<and> distinct (map fst custodian)"

definition env_total :: "'k SplitRewardEnvironment \<Rightarrow> string \<Rightarrow> nat" where
  "env_total env k = unat (reward_get (sr_TotalReward env) k)"

lemma unat_plusMap:
  "distinct (map fst src) \<Longrightarrow> unat (reward_get dst k) + unat (reward_get src k) < 2 ^ 64 \<Longrightarrow> unat (reward_get (plusMap src dst) k) = unat (reward_get dst k) + unat (reward_get src k)"
  unfolding reward_get_plusMap by (rule unat_add_lem [THEN iffD1]) simp

context reward_rule
begin

lemma add_split_exact:
  assumes "reward_env_ok env" and "sums_wf acc" and "\<forall>k. sums_of acc k + env_total env k < 2 ^ 64"
  shows "\<exists>acc'. add_split split acc env = Inr acc' \<and> sums_wf acc' \<and> (\<forall>k. sums_of acc' k = sums_of acc k + env_total env k)"
proof -
  obtain b ss d c where acc: "acc = (b, ss, d, c)" by (cases acc) auto
  obtain rb rs rd rc where r: "split env = Inr (rb, rs, rd, rc)" "parts_wf (rb, rs, rd, rc)" "\<forall>k. parts_of (rb, rs, rd, rc) k = env_total env k"
    using split_exact [OF assms(1)] unfolding env_total_def by (metis prod_cases4)
  have "sums_of (plusMap rb b, ss @ [plusMap rs []], plusMap rd d, plusMap rc c) k = sums_of acc k + env_total env k" for k
  proof -
    have p: "env_total env k = unat (reward_get rb k) + unat (reward_get rs k) + unat (reward_get rd k) + unat (reward_get rc k)" using r(3) by simp
    have l: "sums_of acc k + env_total env k < 2 ^ 64" using assms(3) by blast
    have "unat (reward_get (plusMap rb b) k) = unat (reward_get b k) + unat (reward_get rb k)" "unat (reward_get (plusMap rs []) k) = unat (reward_get rs k)"
      "unat (reward_get (plusMap rd d) k) = unat (reward_get d k) + unat (reward_get rd k)" "unat (reward_get (plusMap rc c) k) = unat (reward_get c k) + unat (reward_get rc k)"
      using l p r(2) by (simp_all add: unat_plusMap acc)
    then show ?thesis using p by (simp add: acc)
  qed
  then show ?thesis using r(1) assms(2) by (auto simp: add_split_def acc)
qed

lemma add_splits_exact:
  "\<forall>env \<in> set envs. reward_env_ok env \<Longrightarrow> sums_wf acc \<Longrightarrow> \<forall>k. sums_of acc k + sum_list (map (\<lambda>env. env_total env k) envs) < 2 ^ 64 \<Longrightarrow>
    \<exists>acc'. go_foldl (add_split split) acc envs = Inr acc' \<and> sums_wf acc' \<and> (\<forall>k. sums_of acc' k = sums_of acc k + sum_list (map (\<lambda>env. env_total env k) envs))"
proof (induction envs arbitrary: acc)
  case (Cons env envs)
  have "sums_of acc k + env_total env k < 2 ^ 64" for k using spec [OF Cons.prems(3), of k] by simp
  then obtain acc1 where a: "add_split split acc env = Inr acc1" "sums_wf acc1" "\<forall>k. sums_of acc1 k = sums_of acc k + env_total env k"
    using add_split_exact [of env acc] Cons.prems(1,2) by auto
  have "\<forall>k. sums_of acc1 k + sum_list (map (\<lambda>env. env_total env k) envs) < 2 ^ 64" using Cons.prems(3) a(3) by (simp add: add.assoc)
  from Cons.IH [OF _ a(2) this] Cons.prems(1) obtain acc2 where b: "go_foldl (add_split split) acc1 envs = Inr acc2" "sums_wf acc2"
    "\<forall>k. sums_of acc2 k = sums_of acc1 k + sum_list (map (\<lambda>env. env_total env k) envs)" by (metis list.set_intros(2))
  then show ?case using a by (intro exI [of _ acc2]) (simp add: add.assoc)
qed simp

end

lemma map_of_total:
  "map_of (foldl (\<lambda>m coinID. let m' = al_put coinID (amount coinID) m in if amount coinID = 0 then al_del coinID m' else m') m coins) k =
    (if k \<in> set coins then if amount k = 0 then None else Some (amount k) else map_of m k)"
  by (induction coins arbitrary: m) (simp_all add: Let_def)

lemma distinct_total: "distinct (map fst m) \<Longrightarrow>
    distinct (map fst (foldl (\<lambda>m coinID. let m' = al_put coinID (amount coinID) m in if amount coinID = 0 then al_del coinID m' else m') m coins))"
  by (induction coins arbitrary: m) (simp_all add: Let_def)

lemma distinct_total_rewards [simp]: "distinct (map fst (total_rewards amount coins))"
  unfolding total_rewards_def by (rule distinct_total) simp

lemma total_rewards_get: "reward_get (total_rewards amount coins) k = (if k \<in> set coins then amount k else 0)"
  unfolding total_rewards_def reward_get_def map_of_total by simp

lemma tokens_complete: "k \<notin> set (GetAllTokenIDForReward db epoch) \<Longrightarrow> GetRewardOfShardByEpoch db epoch loc k = 0"
proof (cases "map_of db (epoch, loc, k)")
  case (Some a)
  then have "((epoch, loc, k), a) \<in> set db" by (rule map_of_SomeD)
  then have "k \<in> set (GetAllTokenIDForReward db epoch)" unfolding GetAllTokenIDForReward_def by force
  then show "k \<notin> set (GetAllTokenIDForReward db epoch) \<Longrightarrow> GetRewardOfShardByEpoch db epoch loc k = 0" by simp
qed (simp add: GetRewardOfShardByEpoch_def)

lemma total_rewards_complete:
  "reward_get (total_rewards (GetRewardOfShardByEpoch db epoch loc) (GetAllTokenIDForReward db epoch)) k = GetRewardOfShardByEpoch db epoch loc k"
  "reward_get (total_rewards (GetRewardOfShardByEpoch db epoch loc) (GetAllTokenIDForRewardMultiset db epoch)) k = GetRewardOfShardByEpoch db epoch loc k"
  using tokens_complete [of k db epoch loc] by (simp_all add: total_rewards_get GetAllTokenIDForRewardMultiset_def)

text \<open>What the shards collected of a token in an epoch.\<close>

definition collected :: "'l reward_db \<Rightarrow> nat \<Rightarrow> 'l list \<Rightarrow> string \<Rightarrow> nat" where
  "collected db epoch locs k = sum_list (map (\<lambda>loc. unat (GetRewardOfShardByEpoch db epoch loc k)) locs)"

definition view_ok :: "'k reward_view \<Rightarrow> bool" where
  "view_ok view \<longleftrightarrow> rv_ActiveShards view \<le> 256 \<and> rv_BeaconCommittee view \<noteq> [] \<and> rv_ShardCommittee view \<noteq> [] \<and> length (rv_ShardCommittee view) \<le> 256 \<and>
     list_all (\<lambda>(_, ks). length ks \<le> 2 ^ 32) (rv_ShardCommittee view)"

lemma dao_percent_bounds: "3 \<le> getPercentForIncognitoDAOV2 year" "getPercentForIncognitoDAOV2 year \<le> 10"
proof -
  have "\<not> 7 < year \<Longrightarrow> uint year \<le> 7" by (simp add: word_less_def not_less)
  then show "3 \<le> getPercentForIncognitoDAOV2 year" "getPercentForIncognitoDAOV2 year \<le> 10" by (auto simp: getPercentForIncognitoDAOV2_def)
qed

lemma split_env_ok:
  assumes "view_ok view" and "unat percent \<le> 100" and "distinct (map fst rewards)" and "\<And>k. 200 * unat (reward_get rewards k) < 2 ^ 64" and "0 < subsets" and "active \<in> {0, int (rv_ActiveShards view)}"
  shows "reward_env_ok ((split_env view isSplit percent (getPercentForIncognitoDAOV2 year) shardID subsetID subsets rewards)\<lparr>sr_ActiveShards := active\<rparr>)"
proof -
  have "200 * unat v < 2 ^ 64" if "(k, v) \<in> set rewards" for k v
    using assms(4) [of k] that assms(3) by (simp add: reward_get_def)
  moreover have "length ks \<le> 2 ^ 32" if "map_of (rv_ShardCommittee view) shardID = Some ks" for ks
    using assms(1) map_of_SomeD [OF that] by (auto simp: view_ok_def list_all_iff)
  moreover have "0 \<le> getPercentForIncognitoDAOV2 year" "getPercentForIncognitoDAOV2 year \<le> 100" using dao_percent_bounds [of year] by simp_all
  ultimately show ?thesis using assms(1,2,3,5,6)
    by (auto simp: reward_env_ok_def reward_fits_def split_env_def shard_committee_of_def view_ok_def list_all_iff split: option.splits)
qed

lemma member_le_sum: "x \<in> set xs \<Longrightarrow> f x \<le> sum_list (map f xs)" for f :: "'a \<Rightarrow> nat"
  by (induction xs) auto

context reward_rule
begin

lemma calculateReward_exact:
  assumes "view_ok view" and "unat percent \<le> 100" and "\<And>k. 200 * collected db epoch [0..<rv_ActiveShards view] k < 2 ^ 64"
  shows "\<exists>res. calculateReward split view db epoch year isSplit percent = Inr res \<and> sums_wf res \<and> (\<forall>k. sums_of res k = collected db epoch [0..<rv_ActiveShards view] k)"
proof -
  define env where "env = (\<lambda>shardID. split_env view isSplit percent (getPercentForIncognitoDAOV2 year) shardID 0 1
       (total_rewards (GetRewardOfShardByEpoch db epoch shardID) (GetAllTokenIDForReward db epoch)))"
  have tot: "env_total (env i) k = unat (GetRewardOfShardByEpoch db epoch i k)" for i k
    by (simp add: env_total_def env_def split_env_def total_rewards_complete)
  then have all: "sum_list (map (\<lambda>e. env_total e k) (map env [0..<rv_ActiveShards view])) = collected db epoch [0..<rv_ActiveShards view] k" for k
    by (simp add: collected_def comp_def)
  have "reward_env_ok (env i)" if i: "i \<in> set [0..<rv_ActiveShards view]" for i
  proof -
    have "200 * unat (GetRewardOfShardByEpoch db epoch i k) < 2 ^ 64" for k
      using assms(3) [of k] member_le_sum [OF i, of "\<lambda>i. unat (GetRewardOfShardByEpoch db epoch i k)"] by (simp add: collected_def)
    then have "reward_env_ok ((env i)\<lparr>sr_ActiveShards := int (rv_ActiveShards view)\<rparr>)"
      unfolding env_def by (intro split_env_ok [OF assms(1,2)]) (simp_all add: total_rewards_complete)
    then show ?thesis by (simp add: env_def split_env_def)
  qed
  moreover have "\<forall>k. sums_of ([], [], [], []) k + sum_list (map (\<lambda>e. env_total e k) (map env [0..<rv_ActiveShards view])) < 2 ^ 64"
  proof
    fix k
    show "sums_of ([], [], [], []) k + sum_list (map (\<lambda>e. env_total e k) (map env [0..<rv_ActiveShards view])) < 2 ^ 64" unfolding all using assms(3) [of k] by simp
  qed
  ultimately obtain res where "go_foldl (add_split split) ([], [], [], []) (map env [0..<rv_ActiveShards view]) = Inr res" "sums_wf res"
    "\<forall>k. sums_of res k = sums_of ([], [], [], []) k + sum_list (map (\<lambda>e. env_total e k) (map env [0..<rv_ActiveShards view]))"
    using add_splits_exact [of "map env [0..<rv_ActiveShards view]" "([], [], [], [])"] by fastforce
  then show ?thesis unfolding all calculateReward_def env_def [symmetric] by simp
qed

end

context reward_rule
begin

lemma nested_exact:
  "\<forall>i \<in> set is. \<forall>env \<in> set (envs i). reward_env_ok env \<Longrightarrow> sums_wf (b, concat ss, d, c) \<Longrightarrow>
    \<forall>k. sums_of (b, concat ss, d, c) k + sum_list (map (\<lambda>i. sum_list (map (\<lambda>env. env_total env k) (envs i))) is) < 2 ^ 64 \<Longrightarrow>
    \<exists>b' ss' d' c'. go_foldl (\<lambda>(b, ss, d, c) i. go_bind (go_foldl (add_split split) (b, [], d, c) (envs i)) (\<lambda>(b', subsets, d', c'). Inr (b', ss @ [subsets], d', c')))
        (b, ss, d, c) is = Inr (b', ss', d', c') \<and> sums_wf (b', concat ss', d', c') \<and>
      (\<forall>k. sums_of (b', concat ss', d', c') k = sums_of (b, concat ss, d, c) k + sum_list (map (\<lambda>i. sum_list (map (\<lambda>env. env_total env k) (envs i))) is))"
proof (induction "is" arbitrary: b ss d c)
  case (Cons i "is")
  have "sums_of (b, [], d, c) k + sum_list (map (\<lambda>env. env_total env k) (envs i)) < 2 ^ 64" for k using spec [OF Cons.prems(3), of k] by simp
  then obtain b1 subs d1 c1 where a: "go_foldl (add_split split) (b, [], d, c) (envs i) = Inr (b1, subs, d1, c1)" "sums_wf (b1, subs, d1, c1)"
    "\<forall>k. sums_of (b1, subs, d1, c1) k = sums_of (b, [], d, c) k + sum_list (map (\<lambda>env. env_total env k) (envs i))"
    using add_splits_exact [of "envs i" "(b, [], d, c)"] Cons.prems(1,2) by (auto simp del: sums_of.simps)
  have s: "sums_of (b1, concat (ss @ [subs]), d1, c1) k = sums_of (b, concat ss, d, c) k + sum_list (map (\<lambda>env. env_total env k) (envs i))" for k
    using spec [OF a(3), of k] by simp
  have w: "sums_wf (b1, concat (ss @ [subs]), d1, c1)" using a(2) by simp
  have l: "\<forall>k. sums_of (b1, concat (ss @ [subs]), d1, c1) k + sum_list (map (\<lambda>i. sum_list (map (\<lambda>env. env_total env k) (envs i))) is) < 2 ^ 64"
    unfolding s using Cons.prems(3) by (simp add: add.assoc)
  have "\<forall>i \<in> set is. \<forall>env \<in> set (envs i). reward_env_ok env" using Cons.prems(1) by simp
  from Cons.IH [OF this w l] show ?case unfolding s using a(1) by (simp add: add.assoc del: sums_of.simps sums_wf.simps)
qed (simp del: sums_of.simps sums_wf.simps)

lemma calculateRewardMultiset_exact:
  assumes "view_ok view" and "unat percent \<le> 100" and "0 < subsets"
    and "\<And>k. 200 * collected db epoch (List.product [0..<rv_ActiveShards view] [0..<subsets]) k < 2 ^ 64"
  shows "\<exists>b ss d c. calculateRewardMultiset split view subsets db epoch year isSplit percent = Inr (b, ss, d, c) \<and> sums_wf (b, concat ss, d, c) \<and>
    (\<forall>k. sums_of (b, concat ss, d, c) k = collected db epoch (List.product [0..<rv_ActiveShards view] [0..<subsets]) k)"
proof -
  let ?locs = "List.product [0..<rv_ActiveShards view] [0..<subsets]"
  define env where "env = (\<lambda>shardID subsetID. (split_env view isSplit percent (getPercentForIncognitoDAOV2 year) shardID subsetID subsets
       (total_rewards (GetRewardOfShardByEpoch db epoch (shardID, subsetID)) (GetAllTokenIDForRewardMultiset db epoch)))\<lparr>sr_ActiveShards := 0\<rparr>)"
  define envs where "envs = (\<lambda>shardID. map (env shardID) [0..<subsets])"
  have all: "sum_list (map (\<lambda>i. sum_list (map (\<lambda>e. env_total e k) (envs i))) is) = collected db epoch (List.product is [0..<subsets]) k" for k "is"
    by (induction "is") (simp_all add: collected_def envs_def env_total_def env_def split_env_def total_rewards_complete comp_def)
  have "reward_env_ok (env i j)" if "i < rv_ActiveShards view" "j < subsets" for i j
  proof -
    have "(i, j) \<in> set ?locs" using that by simp
    then have "200 * unat (GetRewardOfShardByEpoch db epoch (i, j) k) < 2 ^ 64" for k
      using assms(4) [of k] member_le_sum [of "(i, j)" ?locs "\<lambda>loc. unat (GetRewardOfShardByEpoch db epoch loc k)"] by (simp add: collected_def)
    then show ?thesis unfolding env_def using assms(3) by (intro split_env_ok [OF assms(1,2)]) (simp_all add: total_rewards_complete)
  qed
  then have ok: "\<forall>i \<in> set [0..<rv_ActiveShards view]. \<forall>e \<in> set (envs i). reward_env_ok e" by (auto simp: envs_def)
  have small: "\<forall>k. sums_of ([], concat [], [], []) k + sum_list (map (\<lambda>i. sum_list (map (\<lambda>e. env_total e k) (envs i))) [0..<rv_ActiveShards view]) < 2 ^ 64"
  proof
    fix k
    show "sums_of ([], concat [], [], []) k + sum_list (map (\<lambda>i. sum_list (map (\<lambda>e. env_total e k) (envs i))) [0..<rv_ActiveShards view]) < 2 ^ 64"
      unfolding all using assms(4) [of k] by simp
  qed
  have "calculateRewardMultiset split view subsets db epoch year isSplit percent =
      go_foldl (\<lambda>(b, ss, d, c) i. go_bind (go_foldl (add_split split) (b, [], d, c) (envs i)) (\<lambda>(b', subsets, d', c'). Inr (b', ss @ [subsets], d', c')))
        ([], [], [], []) [0..<rv_ActiveShards view]" by (simp only: calculateRewardMultiset_def envs_def env_def)
  then show ?thesis using nested_exact [OF ok _ small] unfolding all by simp
qed

end

section \<open>What the instructions pay\<close>

fun paid_by :: "'r reward_inst \<Rightarrow> string \<Rightarrow> nat" where
  "paid_by (BeaconReward _ m) k = unat (reward_get m k)"
| "paid_by (IncDAOReward m) k = unat (reward_get m k)"
| "paid_by (ShardReceiveRewardV1 _ _ m) k = unat (reward_get m k)"
| "paid_by (ShardReceiveRewardV3 _ _ _ m) k = unat (reward_get m k)"

definition paid :: "'r reward_inst list \<Rightarrow> string \<Rightarrow> nat" where
  "paid insts k = sum_list (map (\<lambda>i. paid_by i k) insts)"

lemma paid_append [simp]: "paid (xs @ ys) k = paid xs k + paid ys k" "paid [] k = 0" by (simp_all add: paid_def)

lemma paid_dao: "paid [IncDAOReward m] k = unat (reward_get m k)" by (simp add: paid_def)

lemma reward_get_div: "reward_get (map (\<lambda>(key, value). (key, value div n)) m) k = reward_get m k div n"
  by (induction m) auto

lemma paid_beacons:
  assumes "buildInstRewardForBeacons m rs = Inr insts" and "rs \<noteq> []" and "length rs < 2 ^ 64"
  shows "paid insts k \<le> unat (reward_get m k)" "unat (reward_get m k) < paid insts k + length rs"
proof -
  define v n where "v = unat (reward_get m k)" and "n = length rs"
  have n: "unat (of_nat n :: 64 word) = n" "0 < n" using assms(2,3) by (simp_all add: unat_of_nat n_def)
  have "paid insts k = sum_list (map (\<lambda>_. v div n) rs)"
    using assms(1,2) n(1) by (auto simp: buildInstRewardForBeacons_def paid_def reward_get_div unat_div_distrib v_def n_def comp_def)
  then have p: "paid insts k = n * (v div n)" by (simp add: sum_list_triv n_def)
  show "paid insts k \<le> unat (reward_get m k)" unfolding p v_def [symmetric] by simp
  show "unat (reward_get m k) < paid insts k + length rs" unfolding p v_def [symmetric] n_def [symmetric] using n(2) mult_div_mod_eq [of n v] mod_less_divisor [of n v] by linarith
qed

lemma enumerate_sum: "sum_list (map (\<lambda>(i, m). f m) (filter (\<lambda>(i, m). m \<noteq> []) (enumerate n ms))) = sum_list (map f ms)"
  if "f [] = (0 :: nat)" for f :: "reward_map \<Rightarrow> nat"
  using that by (induction ms arbitrary: n) auto

lemma paid_shards: "paid (buildInstructionRewardForShards epoch ms) k = sum_list (map (\<lambda>m. unat (reward_get m k)) ms)"
  using enumerate_sum [of "\<lambda>m. unat (reward_get m k)" 0 ms] by (simp add: paid_def buildInstructionRewardForShards_def comp_def case_prod_unfold)

lemma paid_shards_V3: "paid (buildInstructionRewardForShardsV3 epoch mss) k = sum_list (map (\<lambda>m. unat (reward_get m k)) (concat mss))"
proof -
  have "paid (concat (map (\<lambda>(shardID, v). map (\<lambda>(subsetID, reward). ShardReceiveRewardV3 epoch shardID subsetID reward)
      (filter (\<lambda>(subsetID, reward). reward \<noteq> []) (enumerate 0 v))) (enumerate n mss))) k = sum_list (map (\<lambda>m. unat (reward_get m k)) (concat mss))" for n
  proof (induction mss arbitrary: n)
    case (Cons ms mss)
    then show ?case using enumerate_sum [of "\<lambda>m. unat (reward_get m k)" 0 ms] by (simp add: paid_def comp_def case_prod_unfold)
  qed simp
  then show ?thesis by (simp add: buildInstructionRewardForShardsV3_def)
qed

lemma pdex_part_exact:
  assumes "percent \<le> 100"
  shows "\<exists>pdex dao'. pdex_part prv isPdex percent dao = Inr (pdex, dao') \<and>
    (\<forall>k. unat (reward_get dao' k) + (if k = prv then unat pdex else 0) = unat (reward_get dao k))"
proof -
  define t where "t = unat (reward_get dao prv) * percent div 100"
  have le: "t \<le> unat (reward_get dao prv)" unfolding t_def using percent_part [OF assms, of "unat (reward_get dao prv)"] by (simp add: mult.commute)
  moreover have "unat (reward_get dao prv) < 2 ^ 64" using unsigned_less [of "reward_get dao prv"] by simp
  ultimately have t: "t < 2 ^ 64" "unat (of_nat t :: 64 word) = t" by (simp_all add: unat_of_nat)
  then have "unat (of_nat t :: 64 word) + unat (reward_get dao prv - of_nat t) = unat (reward_get dao prv)" using le by (intro unat_sum_diff) simp
  then show ?thesis using t by (auto simp: pdex_part_def Let_def t_def [symmetric])
qed

definition epoch_total :: "int \<Rightarrow> 'k reward_view \<Rightarrow> reward_state \<Rightarrow> nat \<Rightarrow> string \<Rightarrow> nat" where
  "epoch_total blockVersion view s epoch k =
     (if blockVersion \<ge> BLOCK_PRODUCINGV3_VERSION \<and> blockVersion < INSTANT_FINALITY_VERSION_V2
      then collected (rs_requestsMultiset s) epoch (List.product [0..<rv_ActiveShards view] [0..<MaxSubsetCommittees]) k
      else collected (rs_requests s) epoch [0..<rv_ActiveShards view] k)"

text \<open>The split of an epoch for either version: four sums and the instructions for the shards.\<close>

lemma epoch_split_exact:
  assumes "view_ok view" and "unat percent \<le> 100" and "\<And>k. 200 * epoch_total v view s epoch k < 2 ^ 64"
  shows "\<exists>b insts d c. (if v \<ge> BLOCK_PRODUCINGV3_VERSION \<and> v < INSTANT_FINALITY_VERSION_V2
         then go_bind (calculateRewardMultiset (SplitReward undef (GetRewardSplitRule v)) view MaxSubsetCommittees (rs_requestsMultiset s) epoch year isSplit percent)
           (\<lambda>(beacon, shards, dao, custodian). Inr (beacon, buildInstructionRewardForShardsV3 epoch shards, dao, custodian))
         else go_bind (calculateReward (SplitReward undef (GetRewardSplitRule v)) view (rs_requests s) epoch year isSplit percent)
           (\<lambda>(beacon, shards, dao, custodian). Inr (beacon, buildInstructionRewardForShards epoch shards, dao, custodian))) = Inr (b, insts :: 'r reward_inst list, d, c) \<and>
     (\<forall>k. unat (reward_get b k) + paid insts k + unat (reward_get d k) + unat (reward_get c k) = epoch_total v view s epoch k)"
proof (cases "v \<ge> BLOCK_PRODUCINGV3_VERSION \<and> v < INSTANT_FINALITY_VERSION_V2")
  case True
  have "200 * collected (rs_requestsMultiset s) epoch (List.product [0..<rv_ActiveShards view] [0..<MaxSubsetCommittees]) k < 2 ^ 64" for k
    using assms(3) [of k] unfolding epoch_total_def if_P [OF True] .
  from rule.calculateRewardMultiset_exact [OF assms(1,2) _ this, of undef "GetRewardSplitRule v" year isSplit]
  obtain b ss d c where r: "calculateRewardMultiset (SplitReward undef (GetRewardSplitRule v)) view MaxSubsetCommittees (rs_requestsMultiset s) epoch year isSplit percent = Inr (b, ss, d, c)"
    "\<forall>k. sums_of (b, concat ss, d, c) k = epoch_total v view s epoch k" using True by (auto simp: epoch_total_def simp del: sums_of.simps)
  then show ?thesis using True by (simp add: paid_shards_V3)
next
  case False
  have "200 * collected (rs_requests s) epoch [0..<rv_ActiveShards view] k < 2 ^ 64" for k using assms(3) [of k] unfolding epoch_total_def if_not_P [OF False] .
  from rule.calculateReward_exact [OF assms(1,2) this, of undef "GetRewardSplitRule v" year isSplit]
  obtain b ss d c where r: "calculateReward (SplitReward undef (GetRewardSplitRule v)) view (rs_requests s) epoch year isSplit percent = Inr (b, ss, d, c)"
    "\<forall>k. sums_of (b, ss, d, c) k = epoch_total v view s epoch k" using False by (auto simp: epoch_total_def simp del: sums_of.simps)
  then show ?thesis unfolding if_not_P [OF False] by (simp add: paid_shards)
qed

lemma empty_beacon_or_paid:
  assumes "rs \<noteq> []" and "length rs < 2 ^ 64"
  shows "\<exists>insts. (if b = [] then Inr [] else buildInstRewardForBeacons b rs) = Inr insts \<and>
    (\<forall>k. paid insts k \<le> unat (reward_get b k) \<and> unat (reward_get b k) < paid insts k + length rs)"
proof (cases "b = []")
  case False
  have "buildInstRewardForBeacons b rs \<noteq> Inl e" for e using assms(1) by (simp add: buildInstRewardForBeacons_def)
  then obtain insts where i: "buildInstRewardForBeacons b rs = Inr insts" by (cases "buildInstRewardForBeacons b rs") auto
  then show ?thesis using False paid_beacons [OF i assms] by simp
qed (use assms(1) in simp)

lemma dao_paid:
  assumes "percent \<le> 100"
  shows "\<exists>pdex insts. (if d = [] then Inr (0, []) else go_bind (pdex_part prv isPdex percent d) (\<lambda>(rewardForPdex, dao). Inr (rewardForPdex, [IncDAOReward dao]))) = Inr (pdex, insts) \<and>
    (\<forall>k. paid insts k + (if k = prv then unat pdex else 0) = unat (reward_get d k))"
proof -
  obtain pdex dao' where p: "pdex_part prv isPdex percent d = Inr (pdex, dao')" "\<forall>k. unat (reward_get dao' k) + (if k = prv then unat pdex else 0) = unat (reward_get d k)"
    using pdex_part_exact [OF assms] by blast
  show ?thesis
  proof (cases "d = []")
    case False
    then show ?thesis using p by (intro exI [of _ pdex] exI [of _ "[IncDAOReward dao']"]) (simp only: go_bind_simps prod.case paid_dao if_False simp_thms)
  qed simp
qed

text \<open>C19. The rewards of an epoch are paid out completely: under every version of the split rules, floating point included, the instructions
  are built, and for every token what they pay to the beacon committee, the DAO and the shards, with the parts for custodians and for the exchange, is at most what the
  shards collected, and less than one unit for each beacon receiver is lost.\<close>

theorem epoch_rewards_exact:
  fixes view :: "'k reward_view" and rs :: "'r list"
  assumes "view_ok view" and "unat percent \<le> 100" and "pdexPercent \<le> 100" and "rs \<noteq> []" and "length rs < 2 ^ 64"
    and "go_ok (getYearOfBlockChain cfg (rc_Anchors cfg) blkHeight)" and "\<And>k. 200 * epoch_total v view s epoch k < 2 ^ 64"
  shows "\<exists>insts custodian pdex.
    buildRewardInstructionByEpoch cfg undef prv view s (Inr rs) blkHeight epoch isSplit percent isPdex pdexPercent v = Inr (insts, custodian, pdex) \<and>
    (\<forall>k. let out = paid insts k + unat (reward_get custodian k) + (if k = prv then unat pdex else 0) in
      out \<le> epoch_total v view s epoch k \<and> epoch_total v view s epoch k < out + length rs)"
proof -
  obtain year where y: "getYearOfBlockChain cfg (rc_Anchors cfg) blkHeight = Inr year" using assms(6) by (auto simp: go_ok_iff)
  obtain b si d c where sp: "(if v \<ge> BLOCK_PRODUCINGV3_VERSION \<and> v < INSTANT_FINALITY_VERSION_V2
         then go_bind (calculateRewardMultiset (SplitReward undef (GetRewardSplitRule v)) view MaxSubsetCommittees (rs_requestsMultiset s) epoch year isSplit percent)
           (\<lambda>(beacon, shards, dao, custodian). Inr (beacon, buildInstructionRewardForShardsV3 epoch shards, dao, custodian))
         else go_bind (calculateReward (SplitReward undef (GetRewardSplitRule v)) view (rs_requests s) epoch year isSplit percent)
           (\<lambda>(beacon, shards, dao, custodian). Inr (beacon, buildInstructionRewardForShards epoch shards, dao, custodian))) = Inr (b, si :: 'r reward_inst list, d, c)"
    "\<forall>k. unat (reward_get b k) + paid si k + unat (reward_get d k) + unat (reward_get c k) = epoch_total v view s epoch k"
    using epoch_split_exact [OF assms(1,2,7), of undef year isSplit] by blast
  obtain bi where bi: "(if b = [] then Inr [] else buildInstRewardForBeacons b rs) = Inr bi"
    "\<forall>k. paid bi k \<le> unat (reward_get b k) \<and> unat (reward_get b k) < paid bi k + length rs" using empty_beacon_or_paid [OF assms(4,5)] by blast
  obtain pdex di where di: "(if d = [] then Inr (0, []) else go_bind (pdex_part prv isPdex pdexPercent d) (\<lambda>(rewardForPdex, dao). Inr (rewardForPdex, [IncDAOReward dao]))) = Inr (pdex, di :: 'r reward_inst list)"
    "\<forall>k. paid di k + (if k = prv then unat pdex else 0) = unat (reward_get d k)" using dao_paid [OF assms(3)] by blast
  have "buildRewardInstructionByEpoch cfg undef prv view s (Inr rs) blkHeight epoch isSplit percent isPdex pdexPercent v = Inr (bi @ di @ si, c, pdex)"
    unfolding buildRewardInstructionByEpoch_def y go_bind_simps sp(1) prod.case bi(1) di(1) ..
  moreover have "let out = paid (bi @ di @ si) k + unat (reward_get c k) + (if k = prv then unat pdex else 0) in
      out \<le> epoch_total v view s epoch k \<and> epoch_total v view s epoch k < out + length rs" for k
    using spec [OF sp(2), of k] spec [OF bi(2), of k] spec [OF di(2), of k] by (simp only: Let_def paid_append) linarith
  ultimately show ?thesis by blast
qed

definition demo_config :: reward_config where
  "demo_config = \<lparr>rc_BasicReward = 1000, rc_MaxReward = 1500, rc_MinBeaconBlockInterval = 40, rc_BlockTimeParam = (\<lambda>_. 40), rc_FeatureVersion = (\<lambda>_. 0),
     rc_Anchors = [], rc_ShardAnchors = (\<lambda>_. [])\<rparr>"

definition demo_view :: "string reward_view" where
  "demo_view = \<lparr>rv_ActiveShards = 1, rv_BeaconCommittee = [''b''], rv_ShardCommittee = [(0, [''s'', ''t''])]\<rparr>"

definition demo_rewards :: reward_state where
  "demo_rewards = \<lparr>rs_RewardMinted = 1000, rs_requests = [((5, 0, ''prv''), 1000)], rs_requestsMultiset = []\<rparr>"

theorem epoch_rewards_exact_witness:
  "\<exists>insts custodian pdex. buildRewardInstructionByEpoch demo_config 0 ''prv'' demo_view demo_rewards (Inr [''r'', ''q'']) 1 5 True 20 True 30 9 = Inr (insts, custodian, pdex) \<and>
     1000 < paid insts ''prv'' + unat (reward_get custodian ''prv'') + unat pdex + 2"
proof -
  have tot: "epoch_total 9 demo_view demo_rewards 5 k = (if k = ''prv'' then 1000 else 0)" for k
    by (simp add: epoch_total_def demo_view_def demo_rewards_def collected_def GetRewardOfShardByEpoch_def)
  have "go_ok (getYearOfBlockChain demo_config (rc_Anchors demo_config) 1)"
    by (simp add: getYearOfBlockChain_def demo_config_def word_div_def getNoBlkPerYear_def Let_def)
  moreover have "200 * epoch_total 9 demo_view demo_rewards 5 k < 2 ^ 64" for k by (simp add: tot)
  ultimately obtain insts custodian pdex where
    r: "buildRewardInstructionByEpoch demo_config 0 ''prv'' demo_view demo_rewards (Inr [''r'', ''q'']) 1 5 True 20 True 30 9 = Inr (insts, custodian, pdex)"
      "\<forall>k. let out = paid insts k + unat (reward_get custodian k) + (if k = ''prv'' then unat pdex else 0) in
        out \<le> epoch_total 9 demo_view demo_rewards 5 k \<and> epoch_total 9 demo_view demo_rewards 5 k < out + length [''r'', ''q'']"
    using epoch_rewards_exact [of demo_view 20 30 "[''r'', ''q'']" demo_config 1 9 demo_rewards 5 0 "''prv''" True True]
    by (auto simp: view_ok_def demo_view_def)
  then show ?thesis using spec [OF r(2), of "''prv''"] by (simp add: tot Let_def)
qed

section \<open>Minting is capped\<close>

lemma yearly_reduction_le: "91 * unat r < 2 ^ 64 \<Longrightarrow> unat (yearly_reduction n r) \<le> unat r"
proof (induction n arbitrary: r)
  case (Suc n)
  have "unat (r * 91) = unat r * 91" using Suc.prems by (subst unat_mult_lem [THEN iffD1]) simp_all
  then have u: "unat (r * 91 div 100) = unat r * 91 div 100" by (simp add: unat_div_distrib)
  then have le: "unat (r * 91 div 100) \<le> unat r" using percent_part [of 91 "unat r"] by (simp add: mult.commute)
  then have "unat (yearly_reduction n (r * 91 div 100)) \<le> unat (r * 91 div 100)" using Suc.prems by (intro Suc.IH) linarith
  then show ?case using le by simp
qed simp

text \<open>The parameters: blocks are never longer than by default, and the products fit into 64 bits.\<close>

definition config_ok :: "reward_config \<Rightarrow> bool" where
  "config_ok cfg \<longleftrightarrow> (let def = rc_BlockTimeParam cfg BLOCKTIME_DEFAULT in 0 < def \<and> def \<le> 1000 \<and>
     0 < rc_MinBeaconBlockInterval cfg \<and> rc_MinBeaconBlockInterval cfg \<le> 1000 \<and> unat (rc_BasicReward cfg) * 1000 < 2 ^ 64 \<and>
     unat (rc_BasicReward cfg) + unat (rc_MaxReward cfg) < 2 ^ 64 \<and> list_all (\<lambda>a. 0 \<le> an_Timeslot a \<and> an_Timeslot a \<le> def) (rc_Anchors cfg))"

lemma block_time_bounds:
  "list_all (\<lambda>a. 0 \<le> an_Timeslot a \<and> an_Timeslot a \<le> m) as \<Longrightarrow> 0 \<le> t \<Longrightarrow> t \<le> m \<Longrightarrow> 0 \<le> block_time_of cfg v t as \<and> block_time_of cfg v t as \<le> m"
  by (induction as arbitrary: t) auto

lemma basic_reward_le:
  assumes "config_ok cfg" and "GetBasicRewardByVersion cfg v = Inr r"
  shows "unat r \<le> unat (rc_BasicReward cfg)"
proof -
  define t def where "t = nat (GetBlockTimeByBlockVersion cfg v)" and "def = nat (rc_BlockTimeParam cfg BLOCKTIME_DEFAULT)"
  have d: "rc_BlockTimeParam cfg BLOCKTIME_DEFAULT = int def" "0 < def" "def \<le> 1000" "unat (rc_BasicReward cfg) * 1000 < 2 ^ 64"
    using assms(1) by (auto simp: config_ok_def def_def Let_def nat_le_iff)
  have t: "GetBlockTimeByBlockVersion cfg v = int t" "t \<le> def"
    using block_time_bounds [of "int def" "rc_Anchors cfg" "int def" cfg v] assms(1) d by (auto simp: config_ok_def GetBlockTimeByBlockVersion_def t_def Let_def nat_le_iff)
  have u: "unat (of_nat t :: 64 word) = t" "unat (of_nat def :: 64 word) = def" using t(2) d(3) by (simp_all add: unat_of_nat)
  have le: "unat (rc_BasicReward cfg) * t \<le> unat (rc_BasicReward cfg) * def" "unat (rc_BasicReward cfg) * def \<le> unat (rc_BasicReward cfg) * 1000" using t(2) d(3) by simp_all
  then have "unat (rc_BasicReward cfg) * t < 2 ^ 64" using d(4) by linarith
  then have "unat (rc_BasicReward cfg * of_nat t) = unat (rc_BasicReward cfg) * t" using u by (subst unat_mult_lem [THEN iffD1]) simp_all
  then have "unat r = unat (rc_BasicReward cfg) * t div def"
    using assms(2) u by (auto simp: GetBasicRewardByVersion_def word_div_def t(1) d(1) unat_div_distrib split: if_splits)
  also have "\<dots> \<le> unat (rc_BasicReward cfg) * def div def" using le(1) by (rule div_le_mono)
  finally show ?thesis using d(2) by simp
qed

lemma reward_amount_le:
  assumes "config_ok cfg" and "GetRewardAmount cfg shardID v h = Inr r"
  shows "unat r \<le> unat (rc_BasicReward cfg)"
proof -
  have b: "91 * unat (rc_BasicReward cfg) < 2 ^ 64" using assms(1) by (simp add: config_ok_def Let_def)
  show ?thesis
  proof (cases "v < ADJUST_BLOCKTIME_VERSION")
    case True
    then show ?thesis using assms(2) yearly_reduction_le [OF b] by (auto simp: GetRewardAmount_def getRewardAmount_def)
  next
    case False
    then obtain basic and year :: "64 word" where r: "GetBasicRewardByVersion cfg v = Inr basic" "r = yearly_reduction (unat year) basic"
      using assms(2) unfolding GetRewardAmount_def getRewardAmountV2_def if_not_P [OF False] go_bind_eq_Inr sum.inject by blast
    have le: "unat basic \<le> unat (rc_BasicReward cfg)" by (rule basic_reward_le [OF assms(1) r(1)])
    then have "unat (yearly_reduction (unat year) basic) \<le> unat basic" using b by (intro yearly_reduction_le) linarith
    then show ?thesis using r(2) le by simp
  qed
qed

lemma capped_reward_bound:
  assumes "config_ok cfg" and "unat r \<le> unat (rc_BasicReward cfg)" and "minted \<le> rc_MaxReward cfg" and "capped_reward cfg v minted r = (amount, minted')" and "v \<ge> INSTANT_FINALITY_VERSION_V2"
  shows "minted' \<le> rc_MaxReward cfg" "minted \<le> minted'" "minted' = minted + amount"
proof -
  have "unat minted + unat r < 2 ^ 64" using assms(1,2,3) by (simp add: config_ok_def word_le_nat_alt Let_def)
  then have plus: "unat (minted + r) = unat minted + unat r" by (intro unat_add_lem [THEN iffD1]) simp
  have m: "minted' = (if minted + r > rc_MaxReward cfg then if rc_MaxReward cfg > minted then rc_MaxReward cfg else minted else minted + r)" "minted' = minted + amount"
    using assms(4,5) by (auto simp: capped_reward_def Let_def split: if_splits)
  then show "minted' \<le> rc_MaxReward cfg" "minted \<le> minted'" "minted' = minted + amount" using assms(3) plus by (auto simp: word_le_nat_alt word_less_nat_alt split: if_splits)
qed

lemma word_div_ok: "b \<noteq> 0 \<Longrightarrow> go_ok (word_div a b)" by (simp add: word_div_def)

lemma per_year_ok: "0 < t \<Longrightarrow> t \<le> 1000 \<Longrightarrow> \<exists>n. getNoBlkPerYear t = Inr n \<and> n \<noteq> 0"
proof -
  assume t: "0 < t" "t \<le> 1000"
  then have u: "0 < unat t" "unat t \<le> 1000" by (simp_all add: word_less_nat_alt word_le_nat_alt)
  have "31557600 div 1000 \<le> 31557600 div unat t" using u by (intro div_le_mono2)
  then have "0 < unat (31557600 div t :: 64 word)" by (simp add: unat_div_distrib)
  then show ?thesis using t(1) by (auto simp: getNoBlkPerYear_def word_div_def)
qed

lemma year_ok:
  assumes "config_ok cfg"
  shows "go_ok (getYearOfBlockChain cfg anchors h)"
proof -
  define def :: "64 word" where "def = word_of_int (rc_BlockTimeParam cfg BLOCKTIME_DEFAULT)"
  have "uint def = rc_BlockTimeParam cfg BLOCKTIME_DEFAULT" using assms by (simp add: def_def config_ok_def Let_def uint_word_of_int)
  then have d: "0 < def" "def \<le> 1000" using assms by (simp_all add: config_ok_def Let_def word_less_def word_le_def)
  then obtain n where n: "getNoBlkPerYear def = Inr n" "n \<noteq> 0" using per_year_ok by blast
  have "go_ok (go_foldl (year_step cfg h) s anchors)" for s
    using d(1) by (intro go_foldl_total) (auto simp: year_step_def def_def [symmetric] word_div_def Let_def split: prod.splits)
  then obtain a b c e where "go_foldl (year_step cfg h) (0, 0, rc_BlockTimeParam cfg BLOCKTIME_DEFAULT, 0) anchors = Inr (a, b, c, e)" unfolding go_ok_iff by (metis prod_cases4)
  moreover have "def \<noteq> 0" using d(1) by auto
  ultimately show ?thesis using n by (simp add: getYearOfBlockChain_def def_def [symmetric] word_div_def Let_def)
qed

lemma reward_amount_ok: "config_ok cfg \<Longrightarrow> go_ok (GetRewardAmount cfg shardID v h)"
proof -
  assume c: "config_ok cfg"
  then obtain n where n: "getNoBlkPerYear (rc_MinBeaconBlockInterval cfg) = Inr n" "n \<noteq> 0" using per_year_ok by (auto simp: config_ok_def Let_def)
  have "(word_of_int (rc_BlockTimeParam cfg BLOCKTIME_DEFAULT) :: 64 word) \<noteq> 0"
  proof -
    have "uint (word_of_int (rc_BlockTimeParam cfg BLOCKTIME_DEFAULT) :: 64 word) \<noteq> 0" using c by (simp add: config_ok_def Let_def uint_word_of_int)
    then show ?thesis by auto
  qed
  then show ?thesis using n year_ok [OF c, of "rc_ShardAnchors cfg shardID" h]
    by (auto simp: GetRewardAmount_def getRewardAmount_def GetBasicRewardByVersion_def word_div_def go_ok_iff)
qed

text \<open>The requests of one token in both databases, as a 64-bit sum.\<close>

definition db_sum :: "string \<Rightarrow> 'l reward_db \<Rightarrow> 64 word" where
  "db_sum t db = sum_list (map (\<lambda>((_, _, t'), v). if t' = t then v else 0) db)"

definition fee_sum :: "string \<Rightarrow> reward_map \<Rightarrow> 64 word" where
  "fee_sum t fees = sum_list (map (\<lambda>(t', v). if t' = t then v else 0) fees)"

definition requested :: "string \<Rightarrow> reward_state \<Rightarrow> 64 word" where
  "requested t s = db_sum t (rs_requests s) + db_sum t (rs_requestsMultiset s)"

definition state_wf :: "reward_state \<Rightarrow> bool" where
  "state_wf s \<longleftrightarrow> distinct (map fst (rs_requests s)) \<and> distinct (map fst (rs_requestsMultiset s))"

lemma sum_list_put:
  fixes f :: "'a \<times> 'b \<Rightarrow> 64 word"
  shows "distinct (map fst m) \<Longrightarrow> sum_list (map f (al_put k v m)) + (case map_of m k of None \<Rightarrow> 0 | Some w \<Rightarrow> f (k, w)) = sum_list (map f m) + f (k, v)"
proof (induction m)
  case (Cons x m)
  obtain j w where x: "x = (j, w)" by fastforce
  show ?case
  proof (cases "j = k")
    case True
    have "map (\<lambda>(k', w). (k', if k' = k then v else w)) m = m"
      using Cons.prems True x by (intro map_idI) (force simp: case_prod_unfold)
    then show ?thesis using True by (simp add: x al_put_def algebra_simps)
  next
    case False
    then have "al_put k v (x # m) = x # al_put k v m" by (auto simp: al_put_def x)
    then show ?thesis using Cons False by (simp add: x algebra_simps)
  qed
qed (simp add: al_put_def)

lemma db_sum_add: "distinct (map fst db) \<Longrightarrow> db_sum t (AddShardRewardRequest epoch loc (t', v) db) = db_sum t db + (if t' = t then v else 0)"
proof (cases "map_of db (epoch, loc, t')")
  case None
  then show "distinct (map fst db) \<Longrightarrow> ?thesis" using sum_list_put [of db "\<lambda>((_, _, t'), v). if t' = t then v else 0" "(epoch, loc, t')" v]
    by (simp add: db_sum_def AddShardRewardRequest_def)
next
  case (Some w)
  then show "distinct (map fst db) \<Longrightarrow> ?thesis" using sum_list_put [of db "\<lambda>((_, _, t'), v). if t' = t then v else 0" "(epoch, loc, t')" "v + w"]
    by (auto simp: db_sum_def AddShardRewardRequest_def add.commute add.left_commute)
qed

lemma distinct_add_request: "distinct (map fst db) \<Longrightarrow> distinct (map fst (AddShardRewardRequest epoch loc x db))"
  by (cases x) (simp add: AddShardRewardRequest_def)

lemma db_sum_requests:
  "distinct (map fst db) \<Longrightarrow> db_sum t (add_requests epoch loc fees db) = db_sum t db + fee_sum t fees \<and> distinct (map fst (add_requests epoch loc fees db))"
proof (induction fees arbitrary: db)
  case (Cons x fees)
  obtain t' v where x: "x = (t', v)" by fastforce
  define db' where "db' = (if v \<noteq> 0 then AddShardRewardRequest epoch loc (t', v) db else db)"
  have "add_requests epoch loc (x # fees) db = add_requests epoch loc fees db'" by (simp add: add_requests_def x db'_def)
  moreover have "distinct (map fst db')" "db_sum t db' = db_sum t db + (if t' = t then v else 0)"
    using Cons.prems by (simp_all add: db'_def db_sum_add distinct_add_request)
  moreover have "fee_sum t (x # fees) = (if t' = t then v else 0) + fee_sum t fees" by (simp add: fee_sum_def x)
  ultimately show ?case using Cons.IH [of db'] by (simp add: add.assoc)
qed (simp add: add_requests_def fee_sum_def)

lemma fee_sum_add: "distinct (map fst fees) \<Longrightarrow> fee_sum t (reward_add t v fees) = fee_sum t fees + v"
  using sum_list_put [of fees "\<lambda>(t', v). if t' = t then v else 0" t "reward_get fees t + v"]
  by (cases "map_of fees t") (simp_all add: fee_sum_def reward_add_def reward_get_def add.commute add.left_commute)

lemma accept_reward_capped:
  assumes "config_ok cfg" and "state_wf s" and "rs_RewardMinted s \<le> rc_MaxReward cfg" and "rb_Version blk \<ge> INSTANT_FINALITY_VERSION_V2" and "distinct (map fst (ai_fees inst))"
  shows "\<exists>s'. accept_reward cfg prv blk s inst = Inr s' \<and> state_wf s' \<and> rs_RewardMinted s \<le> rs_RewardMinted s' \<and> rs_RewardMinted s' \<le> rc_MaxReward cfg \<and>
    requested prv s' = requested prv s + fee_sum prv (ai_fees inst) + (rs_RewardMinted s' - rs_RewardMinted s)"
proof -
  obtain r where r: "GetRewardAmount cfg (ai_shard inst) (case rb_ShardVersions blk (ai_shard inst) (ai_height inst) of None \<Rightarrow> rb_Version blk | Some v \<Rightarrow> v) (ai_height inst) = Inr r"
    using reward_amount_ok [OF assms(1)] unfolding go_ok_iff by blast
  obtain amount minted where c: "capped_reward cfg (rb_Version blk) (rs_RewardMinted s) r = (amount, minted)" by fastforce
  note cb = capped_reward_bound [OF assms(1) reward_amount_le [OF assms(1) r] assms(3) c assms(4)]
  show ?thesis
  proof (cases inst)
    case (AcceptBlockRewardV1 shardID h fees)
    then show ?thesis using r c cb assms(2,5) db_sum_requests [of "rs_requests s" prv "rb_Epoch blk" shardID "reward_add prv amount fees"]
      by (simp add: accept_reward_def state_wf_def requested_def fee_sum_add algebra_simps)
  next
    case (AcceptBlockRewardV3 shardID subsetID h fees)
    then show ?thesis using r c cb assms(2,5) db_sum_requests [of "rs_requestsMultiset s" prv "rb_Epoch blk" "(shardID, subsetID)" "reward_add prv amount fees"]
      by (simp add: accept_reward_def state_wf_def requested_def fee_sum_add algebra_simps)
  qed
qed

lemma accept_rewards_capped:
  "config_ok cfg \<Longrightarrow> state_wf s \<Longrightarrow> rs_RewardMinted s \<le> rc_MaxReward cfg \<Longrightarrow> \<forall>(blk, inst) \<in> set xs. rb_Version blk \<ge> INSTANT_FINALITY_VERSION_V2 \<and> distinct (map fst (ai_fees inst)) \<Longrightarrow>
    \<exists>s'. go_foldl (\<lambda>s (blk, inst). accept_reward cfg prv blk s inst) s xs = Inr s' \<and> state_wf s' \<and> rs_RewardMinted s \<le> rs_RewardMinted s' \<and> rs_RewardMinted s' \<le> rc_MaxReward cfg \<and>
    requested prv s' = requested prv s + sum_list (map (\<lambda>(blk, inst). fee_sum prv (ai_fees inst)) xs) + (rs_RewardMinted s' - rs_RewardMinted s)"
proof (induction xs arbitrary: s)
  case (Cons x xs)
  obtain blk inst where x: "x = (blk, inst)" by fastforce
  obtain s1 where a: "accept_reward cfg prv blk s inst = Inr s1" "state_wf s1" "rs_RewardMinted s \<le> rs_RewardMinted s1" "rs_RewardMinted s1 \<le> rc_MaxReward cfg"
    "requested prv s1 = requested prv s + fee_sum prv (ai_fees inst) + (rs_RewardMinted s1 - rs_RewardMinted s)"
    using accept_reward_capped [OF Cons.prems(1-3), of blk inst prv] Cons.prems(4) x by auto
  obtain s2 where b: "go_foldl (\<lambda>s (blk, inst). accept_reward cfg prv blk s inst) s1 xs = Inr s2" "state_wf s2" "rs_RewardMinted s1 \<le> rs_RewardMinted s2" "rs_RewardMinted s2 \<le> rc_MaxReward cfg"
    "requested prv s2 = requested prv s1 + sum_list (map (\<lambda>(blk, inst). fee_sum prv (ai_fees inst)) xs) + (rs_RewardMinted s2 - rs_RewardMinted s1)"
    using Cons.IH [OF Cons.prems(1) a(2,4)] Cons.prems(4) by auto
  have "rs_RewardMinted s \<le> rs_RewardMinted s2" using a(3) b(3) by (rule order_trans)
  moreover have "requested prv s2 = requested prv s + sum_list (map (\<lambda>(blk, inst). fee_sum prv (ai_fees inst)) (x # xs)) + (rs_RewardMinted s2 - rs_RewardMinted s)"
    unfolding b(5) a(5) by (simp add: x)
  ultimately show ?case using a(1) b(1,2,4) by (intro exI [of _ s2]) (simp add: x)
qed simp

definition add_rewards :: "reward_config \<Rightarrow> string \<Rightarrow> reward_state \<Rightarrow> reward_block list \<Rightarrow> reward_state go" where
  "add_rewards cfg prv s blocks = go_foldl (\<lambda>s blk. addShardRewardRequestToBeacon cfg prv blk s) s blocks"

lemma add_rewards_flat:
  "add_rewards cfg prv s blocks = go_foldl (\<lambda>s (blk, inst). accept_reward cfg prv blk s inst) s (concat (map (\<lambda>blk. map (Pair blk) (rb_Instructions blk)) blocks))"
proof (induction blocks arbitrary: s)
  case (Cons blk blocks)
  have "go_foldl (\<lambda>s (blk, inst). accept_reward cfg prv blk s inst) s (map (Pair blk) xs) = go_foldl (accept_reward cfg prv blk) s xs" for xs s
    by (induction xs arbitrary: s) auto
  then show ?case using Cons by (simp add: add_rewards_def addShardRewardRequestToBeacon_def go_foldl_append)
qed (simp add: add_rewards_def)

text \<open>C20. Minting is capped: from the version of instant finality on, blocks can always be processed, the rewards minted never exceed the maximum
  and never decrease, and the requests in the native token grow by exactly the fees and what is minted (as 64-bit sums).\<close>

theorem minting_capped:
  assumes "config_ok cfg" and "state_wf s" and "rs_RewardMinted s \<le> rc_MaxReward cfg"
    and "\<forall>blk \<in> set blocks. rb_Version blk \<ge> INSTANT_FINALITY_VERSION_V2 \<and> (\<forall>inst \<in> set (rb_Instructions blk). distinct (map fst (ai_fees inst)))"
  shows "\<exists>s'. add_rewards cfg prv s blocks = Inr s' \<and> rs_RewardMinted s \<le> rs_RewardMinted s' \<and> rs_RewardMinted s' \<le> rc_MaxReward cfg \<and>
    requested prv s' = requested prv s + sum_list (map (\<lambda>blk. sum_list (map (\<lambda>inst. fee_sum prv (ai_fees inst)) (rb_Instructions blk))) blocks) +
      (rs_RewardMinted s' - rs_RewardMinted s)"
proof -
  have "sum_list (map (\<lambda>(blk, inst). fee_sum prv (ai_fees inst)) (concat (map (\<lambda>blk. map (Pair blk) (rb_Instructions blk)) blocks))) =
      sum_list (map (\<lambda>blk. sum_list (map (\<lambda>inst. fee_sum prv (ai_fees inst)) (rb_Instructions blk))) blocks)"
    by (induction blocks) (simp_all add: comp_def)
  moreover have "\<forall>(blk, inst) \<in> set (concat (map (\<lambda>blk. map (Pair blk) (rb_Instructions blk)) blocks)). rb_Version blk \<ge> INSTANT_FINALITY_VERSION_V2 \<and> distinct (map fst (ai_fees inst))"
    using assms(4) by auto
  ultimately show ?thesis using accept_rewards_capped [OF assms(1-3), of "concat (map (\<lambda>blk. map (Pair blk) (rb_Instructions blk)) blocks)" prv] unfolding add_rewards_flat by auto
qed

theorem minting_capped_witness:
  "\<exists>s'. add_rewards demo_config ''prv'' demo_rewards [\<lparr>rb_Version = 9, rb_Epoch = 6, rb_ShardVersions = (\<lambda>_ _. None),
      rb_Instructions = [AcceptBlockRewardV1 0 10 [(''t'', 3)], AcceptBlockRewardV1 0 11 []]\<rparr>] = Inr s' \<and> rs_RewardMinted s' \<le> 1500"
  using minting_capped [of demo_config demo_rewards "[\<lparr>rb_Version = 9, rb_Epoch = 6, rb_ShardVersions = (\<lambda>_ _. None),
      rb_Instructions = [AcceptBlockRewardV1 0 10 [(''t'', 3)], AcceptBlockRewardV1 0 11 []]\<rparr>]" "''prv''"]
  by (auto simp: config_ok_def demo_config_def demo_rewards_def state_wf_def)

section \<open>Paying the committee of a shard\<close>

type_synonym committee_rewards = "(string \<times> reward_map) list"

definition rewards_of :: "committee_rewards \<Rightarrow> string \<Rightarrow> reward_map" where
  "rewards_of db pk = (case map_of db pk of None \<Rightarrow> [] | Some m \<Rightarrow> m)"

definition AddCommitteeReward :: "string \<Rightarrow> 64 word \<Rightarrow> string \<Rightarrow> committee_rewards \<Rightarrow> committee_rewards" where
  "AddCommitteeReward pk committeeReward tokenID db = al_put pk (reward_add tokenID committeeReward (rewards_of db pk)) db"

definition GetCommitteeReward :: "committee_rewards \<Rightarrow> string \<Rightarrow> string \<Rightarrow> 64 word" where
  "GetCommitteeReward db pk tokenID = reward_get (rewards_of db pk) tokenID"

definition RemoveCommitteeReward :: "string \<Rightarrow> 64 word \<Rightarrow> string \<Rightarrow> committee_rewards \<Rightarrow> committee_rewards go" where
  "RemoveCommitteeReward pk withdrawAmount tokenID db = (case map_of db pk of None \<Rightarrow> Inr db | Some m \<Rightarrow>
     if withdrawAmount > reward_get m tokenID then Inl (GoErr ''Current Reward but got withdraw'')
     else let remain = reward_get m tokenID - withdrawAmount; m' = (if remain = 0 then al_del tokenID m else al_put tokenID remain m) in
       Inr (if m' = [] then al_del pk db else al_put pk m' db))"

definition GetShardIDFromLastByte :: "nat \<Rightarrow> nat \<Rightarrow> nat" where
  "GetShardIDFromLastByte maxShardNumber b = b mod maxShardNumber"

definition getCommitteeToPayRewardMultiset :: "nat \<Rightarrow> 'c list \<Rightarrow> 'c list" where
  "getCommitteeToPayRewardMultiset subsetID committees = map snd (filter (\<lambda>(i, _). i mod MaxSubsetCommittees = subsetID) (enumerate 0 committees))"

text \<open>A shard pays the members whose receiver belongs to it; the versions with and without slashing differ in the list of members only.
  \<open>lastByte\<close> and \<open>encode\<close> read the last byte of the receiver's public key and print it.\<close>

definition addShardCommitteeReward :: "nat \<Rightarrow> ('c \<Rightarrow> nat) \<Rightarrow> ('c \<Rightarrow> string) \<Rightarrow> nat \<Rightarrow> reward_map \<Rightarrow> 'c list \<Rightarrow> committee_rewards \<Rightarrow> committee_rewards" where
  "addShardCommitteeReward maxShardNumber lastByte encode shardID reward cStakeInfos db =
     foldl (\<lambda>db candidate. if GetShardIDFromLastByte maxShardNumber (lastByte candidate) = shardID
       then foldl (\<lambda>db (key, value). AddCommitteeReward (encode candidate) (value div of_nat (length cStakeInfos)) key db) db reward
       else db) db cStakeInfos"

lemma get_add_reward [simp]:
  "GetCommitteeReward (AddCommitteeReward pk a t db) pk' t' = GetCommitteeReward db pk' t' + (if pk' = pk \<and> t' = t then a else 0)"
  by (simp add: GetCommitteeReward_def AddCommitteeReward_def rewards_of_def)

lemma withdraw_exact:
  assumes "RemoveCommitteeReward pk a t db = Inr db'" and "map_of db pk \<noteq> None"
  shows "a \<le> GetCommitteeReward db pk t" and "GetCommitteeReward db' pk' t' = GetCommitteeReward db pk' t' - (if pk' = pk \<and> t' = t then a else 0)"
proof -
  obtain m where m: "map_of db pk = Some m" using assms(2) by blast
  show "a \<le> GetCommitteeReward db pk t" using assms(1) m by (auto simp: RemoveCommitteeReward_def GetCommitteeReward_def rewards_of_def not_less split: if_splits)
  define m' where "m' = (if reward_get m t - a = 0 then al_del t m else al_put t (reward_get m t - a) m)"
  have g: "reward_get m' j = (if j = t then reward_get m t - a else reward_get m j)" for j by (simp add: m'_def reward_get_def)
  have "db' = (if m' = [] then al_del pk db else al_put pk m' db)" using assms(1) m by (auto simp: RemoveCommitteeReward_def Let_def m'_def split: if_splits)
  then have "rewards_of db' pk' = (if pk' = pk then m' else rewards_of db pk')" by (auto simp: rewards_of_def)
  then show "GetCommitteeReward db' pk' t' = GetCommitteeReward db pk' t' - (if pk' = pk \<and> t' = t then a else 0)"
    using g [of t'] m by (auto simp: GetCommitteeReward_def rewards_of_def)
qed

lemma pay_one:
  "distinct (map fst reward) \<Longrightarrow> GetCommitteeReward (foldl (\<lambda>db (key, value). AddCommitteeReward c (value div n) key db) db reward) pk k =
    GetCommitteeReward db pk k + (if pk = c then reward_get reward k div n else 0)"
proof (induction reward arbitrary: db)
  case (Cons x reward)
  obtain t v where x: "x = (t, v)" by fastforce
  then have "reward_get reward t = 0" using Cons.prems by (simp add: reward_get_none)
  then show ?case using Cons x by auto
qed simp

lemma pay_many:
  "distinct (map fst reward) \<Longrightarrow> GetCommitteeReward (foldl (\<lambda>db c. if P c then foldl (\<lambda>db (key, value). AddCommitteeReward (encode c) (value div n) key db) db reward else db) db cs) pk k =
    GetCommitteeReward db pk k + of_nat (length (filter (\<lambda>c. P c \<and> encode c = pk) cs)) * (reward_get reward k div n)"
  by (induction cs arbitrary: db) (auto simp: pay_one algebra_simps)

lemma shards_partition: "0 < m \<Longrightarrow> (\<Sum>i<m. length (filter (\<lambda>c. f c mod m = i) cs)) = length cs" for f :: "'c \<Rightarrow> nat"
proof (induction cs)
  case (Cons c cs)
  have "(\<Sum>i<m. length (filter (\<lambda>c. f c mod m = i) (c # cs))) = (\<Sum>i<m. (if f c mod m = i then 1 else 0) + length (filter (\<lambda>c. f c mod m = i) cs))"
    by (intro sum.cong) auto
  also have "\<dots> = 1 + length cs" using Cons by (simp add: sum.distrib)
  finally show ?case by simp
qed simp

text \<open>The subset that is paid has the size by which the rule of version 3 weighed it.\<close>

lemma parity_count: "s < 2 \<Longrightarrow> length (filter (\<lambda>i. i mod 2 = s) [0..<n]) = (n + (1 - s)) div 2"
  by (induction n) (auto simp: less_2_cases_iff, presburger+)

lemma subset_weight_matches:
  assumes "sr_MaxSubsetCommittees env = MaxSubsetCommittees" and "sr_SubsetID env < MaxSubsetCommittees"
  shows "shardSubsetCommitteeSize env = Inr (length (getCommitteeToPayRewardMultiset (sr_SubsetID env) (shard_committee_of env)))"
proof -
  have "length (getCommitteeToPayRewardMultiset s cs) = length (filter (\<lambda>i. i mod 2 = s) (map fst (enumerate 0 cs)))" for s and cs :: "'a list"
    by (simp only: getCommitteeToPayRewardMultiset_def filter_map length_map comp_def case_prod_unfold)
  then have "length (getCommitteeToPayRewardMultiset (sr_SubsetID env) (shard_committee_of env)) = (length (shard_committee_of env) + (1 - sr_SubsetID env)) div 2"
    using parity_count [OF assms(2)] by (simp add: map_fst_enumerate)
  moreover define n where "n = length (shard_committee_of env)"
  moreover have "n div 2 + (if n mod 2 \<noteq> 0 \<and> s mod 2 = 0 then n mod 2 else 0) = (n + (1 - s)) div 2" if "s < 2" for s
    using that by (auto simp: less_2_cases_iff) presburger+
  ultimately show ?thesis using assms by (simp only: shardSubsetCommitteeSize_def Let_def) simp
qed

text \<open>C27. The reward of a shard committee is paid once: in a non-empty committee every shard credits exactly its receivers, each member with the same share and nobody else, every member belongs to
  exactly one shard, and together the members get at most the reward and lose less than one unit each.\<close>

theorem committee_paid_once:
  assumes "distinct (map fst reward)" and "members \<noteq> []" and "length members < 2 ^ 64" and "0 < maxShardNumber"
  defines "share \<equiv> \<lambda>k. reward_get reward k div of_nat (length members)"
  shows "(\<forall>i db pk k. GetCommitteeReward (addShardCommitteeReward maxShardNumber lastByte encode i reward members db) pk k = GetCommitteeReward db pk k +
      of_nat (length (filter (\<lambda>c. GetShardIDFromLastByte maxShardNumber (lastByte c) = i \<and> encode c = pk) members)) * share k) \<and>
    (\<Sum>i<maxShardNumber. length (filter (\<lambda>c. GetShardIDFromLastByte maxShardNumber (lastByte c) = i) members)) = length members \<and>
    (\<forall>k. length members * unat (share k) \<le> unat (reward_get reward k) \<and> unat (reward_get reward k) < length members * unat (share k) + length members)"
proof -
  define n where "n = length members"
  have n: "unat (of_nat n :: 64 word) = n" "0 < n" using assms(2,3) by (simp_all add: unat_of_nat n_def)
  have "n * unat (share k) \<le> unat (reward_get reward k) \<and> unat (reward_get reward k) < n * unat (share k) + n" for k
    using n mult_div_mod_eq [of n "unat (reward_get reward k)"] mod_less_divisor [of n "unat (reward_get reward k)"]
    unfolding share_def n_def [symmetric] unat_div_distrib n(1) by linarith
  then show ?thesis unfolding n_def share_def addShardCommitteeReward_def GetShardIDFromLastByte_def
    by (intro conjI allI pay_many [OF assms(1)] shards_partition [OF assms(4)]) auto
qed

theorem committee_paid_once_witness:
  "GetCommitteeReward (addShardCommitteeReward 8 length (\<lambda>c. c) 2 [(''prv'', 101)] [''ab'', ''xyz''] []) ''ab'' ''prv'' = 50"
  using committee_paid_once [of "[(''prv'', 101)]" "[''ab'', ''xyz'']" 8 length "\<lambda>c. c"]
  by (simp add: GetCommitteeReward_def rewards_of_def GetShardIDFromLastByte_def)

end
