(* ===== verification/Multi_View.thy ===== *)
theory Multi_View
  imports Inc_Prelude
begin

text \<open>
  The fork choice: \<^verbatim>\<open>src/multiview/multiview.go\<close>, \<^verbatim>\<open>beaconmultiview.go\<close> and \<^verbatim>\<open>shardmultiview.go\<close>. A multiview keeps
  the views (states after a block) of all live branches, the best view, the finalized view and the
  view expected to be final. A pointer to a view is the view itself; two pointers are equal when the
  hashes are. What the code calls on a view besides its fields (the time slot of a point in time and
  the comparison of committees) is a parameter. Walks along previous hashes may not end on a cyclic map
  and have type \<open>option\<close>; the lemmas show that on views with consistent heights they do end, that
  the beacon multiview never panics, that finalization never goes back, and that the best view always
  extends the finalized one.
\<close>

section \<open>Views and the state\<close>

abbreviation (input) BFT_VERSION :: int where "BFT_VERSION \<equiv> 1"
abbreviation (input) MULTI_VIEW_VERSION :: int where "MULTI_VIEW_VERSION \<equiv> 2"
abbreviation (input) LEMMA2_VERSION :: int where "LEMMA2_VERSION \<equiv> 6"
abbreviation (input) INSTANT_FINALITY_VERSION :: int where "INSTANT_FINALITY_VERSION \<equiv> 8"

record Block =
  blk_Version :: int
  blk_Height :: nat
  blk_FinalityHeight :: nat
  blk_ProduceTime :: int
  blk_ProposeTime :: int

record 'h View =
  v_Hash :: 'h
  v_PreviousHash :: 'h
  v_Height :: nat
  v_Block :: Block

text \<open>The three views of the state are set together by the first view and cleared together by \<^verbatim>\<open>Reset\<close>.\<close>

record 'h chain_state =
  finalView :: "'h View"
  expectedFinalView :: "'h View"
  bestView :: "'h View"

record 'h multiView =
  viewByHash :: "('h \<times> 'h View) list"
  viewByPrevHash :: "'h \<Rightarrow> 'h View list"
  mv_state :: "'h chain_state option"

record 'h view_calls =
  CalculateTimeSlot :: "'h View \<Rightarrow> int \<Rightarrow> int"
  CompareCommitteeFromBlock :: "'h View \<Rightarrow> 'h View \<Rightarrow> int"

definition NewMultiView :: "'h multiView" where
  "NewMultiView = \<lparr>viewByHash = [], viewByPrevHash = \<lambda>_. [], mv_state = None\<rparr>"

definition view_at :: "('h \<times> 'h View) list \<Rightarrow> 'h \<Rightarrow> 'h View option" where
  "view_at = map_of"

text \<open>\<^verbatim>\<open>uint64\<close> subtraction of one.\<close>

definition pred64 :: "nat \<Rightarrow> nat" where
  "pred64 n = (n + (2 ^ 64 - 1)) mod 2 ^ 64"

text \<open>A computation that may diverge (None), panic or fail.\<close>

definition mv_bind :: "'a go option \<Rightarrow> ('a \<Rightarrow> 'b go option) \<Rightarrow> 'b go option" where
  "mv_bind m f = (case m of None \<Rightarrow> None | Some (Inl e) \<Rightarrow> Some (Inl e) | Some (Inr x) \<Rightarrow> f x)"

section \<open>Walks\<close>

partial_function (option) findExpectFinalView :: "('h \<times> 'h View) list \<Rightarrow> 'h View \<Rightarrow> 'h View option" where
  "findExpectFinalView views currentViewPoint =
     (case view_at views (v_PreviousHash currentViewPoint) of
        None \<Rightarrow> Some currentViewPoint
      | Some prev1View \<Rightarrow>
          if blk_FinalityHeight (v_Block currentViewPoint) \<noteq> 0 then Some currentViewPoint
          else findExpectFinalView views prev1View)"

text \<open>The walk of \<^verbatim>\<open>FinalizeView\<close> from the best view and of \<^verbatim>\<open>isFinalized\<close> from the expected final view.\<close>

partial_function (option) links_back :: "('h \<times> 'h View) list \<Rightarrow> 'h \<Rightarrow> 'h View \<Rightarrow> bool option" where
  "links_back views h v =
     (if v_Hash v = h then Some True
      else (case view_at views (v_PreviousHash v) of None \<Rightarrow> Some False | Some p \<Rightarrow> links_back views h p))"

partial_function (option) bfs_loop :: "('h \<Rightarrow> 'h View list) \<Rightarrow> 'h View list \<Rightarrow> 'h View list \<Rightarrow> 'h View list option" where
  "bfs_loop children res queue =
     (case queue of [] \<Rightarrow> Some res
      | firstItem # rest \<Rightarrow> bfs_loop children (res @ [firstItem]) (rest @ children (v_Hash firstItem)))"

definition getAllViewsWithBFS :: "'h multiView \<Rightarrow> 'h View \<Rightarrow> 'h View list option" where
  "getAllViewsWithBFS s rootView = bfs_loop (viewByPrevHash s) [] [rootView]"

definition isFinalized :: "'h multiView \<Rightarrow> 'h chain_state \<Rightarrow> 'h \<Rightarrow> bool option" where
  "isFinalized s st h =
     (case view_at (viewByHash s) h of None \<Rightarrow> Some False
      | Some _ \<Rightarrow> links_back (viewByHash s) h (expectedFinalView st))"

section \<open>Fork choice\<close>

text \<open>The better of a new view and the best view on the same branch or with the same committee.\<close>

definition longest :: "'h View \<Rightarrow> 'h View \<Rightarrow> 'h View" where
  "longest newView best =
     (let best1 = (if v_Height newView > v_Height best then newView else best) in
      if v_Height newView = v_Height best1 \<and> blk_ProduceTime (v_Block newView) < blk_ProduceTime (v_Block best1)
      then newView else best1)"

text \<open>Versions before instant finality.\<close>

definition update_legacy :: "'h view_calls \<Rightarrow> ('h \<times> 'h View) list \<Rightarrow> 'h View \<Rightarrow> 'h chain_state \<Rightarrow> 'h chain_state" where
  "update_legacy calls views newView st =
     (let best = longest newView (bestView st);
          st1 = st\<lparr>bestView := best\<rparr>;
          version = blk_Version (v_Block newView) in
      case view_at views (v_PreviousHash best) of
        None \<Rightarrow> st1
      | Some prev1View \<Rightarrow>
          if version = BFT_VERSION then st1\<lparr>expectedFinalView := prev1View\<rparr>
          else if version \<ge> MULTI_VIEW_VERSION
          then if v_Height (expectedFinalView st) = v_Height prev1View then st1
               else let bestViewTimeSlot = CalculateTimeSlot calls best (blk_ProposeTime (v_Block best));
                        prev1TimeSlot = CalculateTimeSlot calls best (blk_ProposeTime (v_Block prev1View)) in
                 if prev1TimeSlot + 1 = bestViewTimeSlot \<or>
                    version \<ge> LEMMA2_VERSION \<and> pred64 (blk_Height (v_Block newView)) = blk_FinalityHeight (v_Block newView)
                 then st1\<lparr>expectedFinalView := prev1View\<rparr> else st1
          else st1)"

text \<open>The best view under instant finality: with another committee on another branch the branch that has a
  new expected final view wins, or the newer committee.\<close>

definition choose_best :: "'h view_calls \<Rightarrow> ('h \<times> 'h View) list \<Rightarrow> 'h View \<Rightarrow> 'h chain_state \<Rightarrow> 'h View option" where
  "choose_best calls views newView st =
     (let best = bestView st; compareCommittee = CompareCommitteeFromBlock calls newView best in
      if compareCommittee = 0 \<or> v_PreviousHash newView = v_Hash best then Some (longest newView best)
      else (case findExpectFinalView views newView of None \<Rightarrow> None
        | Some expectedFinalViewOfNewView \<Rightarrow>
          let newViewCreateNewFinal = v_Hash (finalView st) \<noteq> v_Hash expectedFinalViewOfNewView;
              bestViewCreateNewFinal = v_Hash (finalView st) \<noteq> v_Hash (expectedFinalView st) in
          Some (if newViewCreateNewFinal = bestViewCreateNewFinal
                then if compareCommittee = 1 then newView else best
                else if newViewCreateNewFinal then newView else best)))"

definition updateViewState :: "'h view_calls \<Rightarrow> 'h View \<Rightarrow> 'h multiView \<Rightarrow> 'h multiView option" where
  "updateViewState calls newView s =
     (case mv_state s of
        None \<Rightarrow> Some (s\<lparr>mv_state := Some \<lparr>finalView = newView, expectedFinalView = newView, bestView = newView\<rparr>\<rparr>)
      | Some st \<Rightarrow>
          if blk_Version (v_Block newView) < INSTANT_FINALITY_VERSION
          then Some (s\<lparr>mv_state := Some (update_legacy calls (viewByHash s) newView st)\<rparr>)
          else (case choose_best calls (viewByHash s) newView st of None \<Rightarrow> None
            | Some best \<Rightarrow>
                (case findExpectFinalView (viewByHash s) best of None \<Rightarrow> None
                 | Some e \<Rightarrow> Some (s\<lparr>mv_state := Some (st\<lparr>bestView := best, expectedFinalView := e\<rparr>)\<rparr>))))"

definition addView :: "'h view_calls \<Rightarrow> 'h View \<Rightarrow> 'h multiView \<Rightarrow> (bool \<times> 'h multiView) option" where
  "addView calls view s =
     (if length (viewByHash s) = 0
      then map_option (Pair True) (updateViewState calls view (s\<lparr>viewByHash := [(v_Hash view, view)]\<rparr>))
      else if view_at (viewByHash s) (v_Hash view) = None \<and> view_at (viewByHash s) (v_PreviousHash view) \<noteq> None
      then map_option (Pair True) (updateViewState calls view
             (s\<lparr>viewByHash := (v_Hash view, view) # viewByHash s,
                viewByPrevHash := (viewByPrevHash s)(v_PreviousHash view := viewByPrevHash s (v_PreviousHash view) @ [view])\<rparr>))
      else Some (False, s))"

text \<open>\<^verbatim>\<open>FinalizeView\<close>; the error comes with the unchanged state.\<close>

definition FinalizeView :: "'h \<Rightarrow> 'h multiView \<Rightarrow> ('h multiView \<times> string option) go option" where
  "FinalizeView hashToFinalize s =
     (case view_at (viewByHash s) hashToFinalize of
        None \<Rightarrow> Some (Inr (s, Some ''Cannot find view by hash''))
      | Some viewToFinalize \<Rightarrow>
        (case mv_state s of None \<Rightarrow> Some (Inl GoPanic)
         | Some st \<Rightarrow>
           if v_Height (finalView st) \<ge> v_Height viewToFinalize then Some (Inr (s, None))
           else (case links_back (viewByHash s) hashToFinalize (bestView st) of
               None \<Rightarrow> None
             | Some False \<Rightarrow> Some (Inl GoPanic)
             | Some True \<Rightarrow> Some (Inr (s\<lparr>mv_state := Some (st\<lparr>finalView := viewToFinalize\<rparr>)\<rparr>, None)))))"

definition BeaconMultiView_AddView :: "'h view_calls \<Rightarrow> 'h View \<Rightarrow> 'h multiView \<Rightarrow> ('h multiView \<times> int \<times> string option) go option" where
  "BeaconMultiView_AddView calls v s =
     (case addView calls v s of None \<Rightarrow> None
      | Some (added, s1) \<Rightarrow>
        (case mv_state s1 of None \<Rightarrow> Some (Inl GoPanic)
         | Some st \<Rightarrow> mv_bind (FinalizeView (v_Hash (expectedFinalView st)) s1) (\<lambda>(s2, err).
             Some (Inr (s2, if added then 1 else 0, err)))))"

definition ShardMultiView_AddView :: "'h view_calls \<Rightarrow> 'h View \<Rightarrow> 'h multiView \<Rightarrow> ('h multiView \<times> int \<times> string option) go option" where
  "ShardMultiView_AddView calls v s =
     (case addView calls v s of None \<Rightarrow> None
      | Some (added, s1) \<Rightarrow>
        let res = (if added then 1 else 0) in
        if blk_Version (v_Block v) < INSTANT_FINALITY_VERSION
        then (case mv_state s1 of None \<Rightarrow> Some (Inl GoPanic)
          | Some st \<Rightarrow> mv_bind (FinalizeView (v_Hash (expectedFinalView st)) s1) (\<lambda>(s2, err). Some (Inr (s2, res, err))))
        else Some (Inr (s1, res, None)))"

section \<open>Cleaning, lookup and replacement\<close>

text \<open>One entry of the range over \<^verbatim>\<open>viewByHash\<close>.\<close>

definition remove_outdated_step :: "nat \<Rightarrow> 'h multiView \<Rightarrow> 'h \<times> 'h View \<Rightarrow> 'h multiView" where
  "remove_outdated_step limit s = (\<lambda>(h, v).
     if v_Height v < limit
     then s\<lparr>viewByHash := filter (\<lambda>(h', _). h' \<noteq> h) (viewByHash s),
            viewByPrevHash := (viewByPrevHash s)(h := [], v_PreviousHash v := [])\<rparr>
     else s)"

definition removeOutdatedView :: "'h multiView \<Rightarrow> 'h multiView go" where
  "removeOutdatedView s =
     (if viewByHash s = [] then Inr s
      else (case mv_state s of None \<Rightarrow> Inl GoPanic
        | Some st \<Rightarrow> Inr (foldl (remove_outdated_step (pred64 (v_Height (finalView st)))) s (viewByHash s))))"

text \<open>The clean process only runs when there is more than one view.\<close>

definition clean_tick :: "'h multiView \<Rightarrow> 'h multiView go" where
  "clean_tick s = (if length (viewByHash s) > 1 then removeOutdatedView s else Inr s)"

definition GetViewByHash :: "'h multiView \<Rightarrow> 'h \<Rightarrow> 'h View option go" where
  "GetViewByHash s h =
     (case view_at (viewByHash s) h of None \<Rightarrow> Inr None
      | Some view \<Rightarrow> (case mv_state s of None \<Rightarrow> Inl GoPanic
          | Some st \<Rightarrow> Inr (if v_Height view < v_Height (finalView st) then None else Some view)))"

definition ClearBranch :: "'h multiView \<Rightarrow> 'h multiView" where
  "ClearBranch s = s\<lparr>mv_state := map_option (\<lambda>st. st\<lparr>bestView := expectedFinalView st\<rparr>) (mv_state s)\<rparr>"

definition Reset :: "'h multiView \<Rightarrow> 'h multiView" where
  "Reset s = s\<lparr>viewByHash := [], viewByPrevHash := \<lambda>_. [], mv_state := None\<rparr>"

definition IsInstantFinality :: "'h chain_state \<Rightarrow> bool" where
  "IsInstantFinality st \<longleftrightarrow> v_Hash (expectedFinalView st) = v_Hash (bestView st)"

text \<open>\<^verbatim>\<open>ReplaceBlock\<close> changes the view behind every pointer with that hash.\<close>

definition replace_view :: "'h \<Rightarrow> Block \<Rightarrow> 'h View \<Rightarrow> 'h View" where
  "replace_view h b v = (if v_Hash v = h then v\<lparr>v_Block := b\<rparr> else v)"

definition replace_everywhere :: "'h \<Rightarrow> Block \<Rightarrow> 'h multiView \<Rightarrow> 'h multiView" where
  "replace_everywhere h b s =
     s\<lparr>viewByHash := map (\<lambda>(h', v). (h', replace_view h b v)) (viewByHash s),
       viewByPrevHash := \<lambda>p. map (replace_view h b) (viewByPrevHash s p),
       mv_state := map_option (\<lambda>st. st\<lparr>finalView := replace_view h b (finalView st),
         expectedFinalView := replace_view h b (expectedFinalView st), bestView := replace_view h b (bestView st)\<rparr>) (mv_state s)\<rparr>"

fun add_views :: "'h view_calls \<Rightarrow> 'h View list \<Rightarrow> 'h multiView \<Rightarrow> 'h multiView option" where
  "add_views calls [] tmp = Some tmp"
| "add_views calls (v # vs) tmp = (case addView calls v tmp of None \<Rightarrow> None | Some (_, tmp') \<Rightarrow> add_views calls vs tmp')"

definition improves_finality :: "'h multiView \<Rightarrow> 'h chain_state \<Rightarrow> 'h \<Rightarrow> Block \<Rightarrow> 'h View \<Rightarrow> bool option" where
  "improves_finality s st h b replaceView =
     map_option (\<lambda>fin. blk_FinalityHeight b \<noteq> 0 \<and>
       (fin \<longrightarrow> blk_ProposeTime b < blk_ProposeTime (v_Block replaceView))) (isFinalized s st h)"

text \<open>\<^verbatim>\<open>ReplaceBlockIfImproveFinality\<close> for a block with hash \<open>h\<close>: the views above the final one are added to a fresh
  multiview after the replacement, and its best and expected final view are taken over.\<close>

definition ReplaceBlockIfImproveFinality ::
    "'h view_calls \<Rightarrow> 'h \<Rightarrow> Block \<Rightarrow> 'h multiView \<Rightarrow> ('h multiView \<times> bool \<times> string option) go option" where
  "ReplaceBlockIfImproveFinality calls h b s =
     (if blk_Version b < INSTANT_FINALITY_VERSION then Some (Inr (s, False, None))
      else (case view_at (viewByHash s) h of
          None \<Rightarrow> Some (Inr (s, False, Some ''Cannot find view''))
        | Some replaceView \<Rightarrow>
          (case mv_state s of None \<Rightarrow> Some (Inl GoPanic)
           | Some st \<Rightarrow>
             (case improves_finality s st h b replaceView of None \<Rightarrow> None
              | Some False \<Rightarrow> Some (Inr (s, False, None))
              | Some True \<Rightarrow>
                (case getAllViewsWithBFS s (finalView st) of None \<Rightarrow> None
                 | Some allView \<Rightarrow>
                   let s1 = (if h \<in> v_Hash ` set allView then replace_everywhere h b s else s) in
                   (case add_views calls (map (replace_view h b) allView) NewMultiView of None \<Rightarrow> None
                    | Some tmp \<Rightarrow>
                      (case (mv_state tmp, mv_state s1) of
                         (Some t, Some st1) \<Rightarrow>
                           Some (Inr (s1\<lparr>mv_state := Some (st1\<lparr>expectedFinalView := expectedFinalView t, bestView := bestView t\<rparr>)\<rparr>,
                             True, None))
                       | _ \<Rightarrow> Some (Inl GoPanic))))))))"

section \<open>Branches\<close>

text \<open>\<open>anc views a v\<close>: the view \<open>a\<close> lies on the branch that ends in \<open>v\<close>.\<close>

inductive anc :: "('h \<times> 'h View) list \<Rightarrow> 'h View \<Rightarrow> 'h View \<Rightarrow> bool" for views a where
  anc_refl: "anc views a a"
| anc_step: "view_at views (v_PreviousHash v) = Some p \<Longrightarrow> anc views a p \<Longrightarrow> anc views a v"

inductive_cases anc_cases: "anc views a v"

lemma anc_trans: "anc views b c \<Longrightarrow> anc views a b \<Longrightarrow> anc views a c"
  by (induction rule: anc.induct) (auto intro: anc.intros)

text \<open>The height of a view is one more than that of its predecessor.\<close>

definition linked :: "('h \<times> 'h View) list \<Rightarrow> 'h View \<Rightarrow> bool" where
  "linked views v \<longleftrightarrow> (\<forall>p. view_at views (v_PreviousHash v) = Some p \<longrightarrow> v_Height v = Suc (v_Height p))"

definition views_ok :: "('h \<times> 'h View) list \<Rightarrow> bool" where
  "views_ok views \<longleftrightarrow> distinct (map fst views) \<and>
     (\<forall>(h, v) \<in> set views. v_Hash v = h \<and> 0 < v_Height v \<and> v_Height v < 2 ^ 64 \<and> linked views v)"

definition stored :: "('h \<times> 'h View) list \<Rightarrow> 'h View \<Rightarrow> bool" where
  "stored views v \<longleftrightarrow> view_at views (v_Hash v) = Some v"

lemma view_at_in: "view_at views h = Some v \<Longrightarrow> (h, v) \<in> set views"
  by (simp add: view_at_def map_of_SomeD)

lemma view_at_iff: "views_ok views \<Longrightarrow> view_at views h = Some v \<longleftrightarrow> (h, v) \<in> set views"
  by (simp add: view_at_def views_ok_def)

lemma views_okD:
  assumes "views_ok views" and "view_at views h = Some v"
  shows "v_Hash v = h" and "0 < v_Height v" and "v_Height v < 2 ^ 64" and "linked views v" and "stored views v"
proof -
  have "(h, v) \<in> set views" by (rule view_at_in [OF assms(2)])
  then show "v_Hash v = h" and "0 < v_Height v" and "v_Height v < 2 ^ 64" and "linked views v"
    using assms(1) by (auto simp: views_ok_def)
  then show "stored views v" using assms(2) by (simp add: stored_def)
qed

lemma storedD:
  assumes "views_ok views" and "stored views v"
  shows "0 < v_Height v" and "v_Height v < 2 ^ 64" and "linked views v"
  using views_okD [OF assms(1) assms(2) [unfolded stored_def]] by auto

lemma anc_stored: "anc views a v \<Longrightarrow> views_ok views \<Longrightarrow> stored views v \<Longrightarrow> stored views a"
  by (induction rule: anc.induct) (auto intro: views_okD)

lemma anc_height:
  "anc views a v \<Longrightarrow> views_ok views \<Longrightarrow> linked views v \<Longrightarrow> v_Height a \<le> v_Height v \<and> (v_Height a = v_Height v \<longrightarrow> a = v)"
proof (induction rule: anc.induct)
  case (anc_step v p)
  have "linked views p" by (rule views_okD(4) [OF anc_step.prems(1) anc_step.hyps(1)])
  moreover have "v_Height v = Suc (v_Height p)" using anc_step by (simp add: linked_def)
  ultimately show ?case using anc_step by auto
qed simp

lemma anc_mono:
  assumes "anc views a v" and "\<And>h p. view_at views h = Some p \<Longrightarrow> view_at views' h = Some p"
  shows "anc views' a v"
  using assms(1) by (induction rule: anc.induct) (auto intro: anc.intros assms(2))

section \<open>The walks end\<close>

text \<open>Where a walk for the expected final view stops.\<close>

definition stops :: "('h \<times> 'h View) list \<Rightarrow> 'h View \<Rightarrow> bool" where
  "stops views v \<longleftrightarrow> view_at views (v_PreviousHash v) = None \<or> blk_FinalityHeight (v_Block v) \<noteq> 0"

lemma find_ends:
  assumes "views_ok views" and "linked views v"
  shows "\<exists>e. findExpectFinalView views v = Some e \<and> anc views e v \<and> stops views e"
  using assms(2)
proof (induction "v_Height v" arbitrary: v rule: less_induct)
  case less
  note unf = findExpectFinalView.simps [of views v]
  show ?case
  proof (cases "stops views v")
    case True
    then show ?thesis by (auto simp: unf stops_def intro: anc_refl split: option.splits)
  next
    case False
    then obtain p where p: "view_at views (v_PreviousHash v) = Some p" "blk_FinalityHeight (v_Block v) = 0"
      by (auto simp: stops_def)
    have "v_Height p < v_Height v" "linked views p"
      using less.prems p(1) views_okD(4) [OF assms(1) p(1)] by (auto simp: linked_def)
    from less.hyps [OF this] show ?thesis using p unf by (auto intro: anc_step)
  qed
qed

lemma find_above:
  assumes "anc views f v" and "stops views f" and "findExpectFinalView views v = Some e"
  shows "anc views f e"
  using assms
proof (induction arbitrary: e rule: anc.induct)
  case anc_refl
  then have "e = f" by (auto simp: findExpectFinalView.simps [of views f] stops_def split: option.splits if_splits)
  then show ?case by (simp add: anc.anc_refl)
next
  case (anc_step v p)
  show ?case
  proof (cases "blk_FinalityHeight (v_Block v) = 0")
    case True
    then have "findExpectFinalView views p = Some e" using anc_step by (simp add: findExpectFinalView.simps [of views v])
    then show ?thesis using anc_step by blast
  next
    case False
    then have "e = v" using anc_step by (simp add: findExpectFinalView.simps [of views v])
    then show ?thesis using anc_step by (auto intro: anc.anc_step)
  qed
qed

lemma links_back_iff:
  assumes "views_ok views" and "linked views v"
  shows "links_back views h v = Some (\<exists>a. anc views a v \<and> v_Hash a = h)"
  using assms(2)
proof (induction "v_Height v" arbitrary: v rule: less_induct)
  case less
  note unf = links_back.simps [of views h v]
  show ?case
  proof (cases "v_Hash v = h")
    case True
    then show ?thesis using unf by (auto intro: anc_refl)
  next
    case False
    show ?thesis
    proof (cases "view_at views (v_PreviousHash v)")
      case None
      then show ?thesis using unf False by (auto elim: anc_cases)
    next
      case (Some p)
      have "v_Height p < v_Height v" "linked views p"
        using less.prems Some views_okD(4) [OF assms(1) Some] by (auto simp: linked_def)
      from less.hyps [OF this] have "links_back views h v = Some (\<exists>a. anc views a p \<and> v_Hash a = h)" using unf False Some by simp
      moreover have "anc views a v \<longleftrightarrow> a = v \<or> anc views a p" for a using Some by (auto elim: anc_cases intro: anc.intros)
      ultimately show ?thesis using False by auto
    qed
  qed
qed

section \<open>The invariant of the beacon multiview\<close>

definition mv_ok :: "'h multiView \<Rightarrow> bool" where
  "mv_ok s \<longleftrightarrow> views_ok (viewByHash s) \<and>
     (case mv_state s of None \<Rightarrow> viewByHash s = []
      | Some st \<Rightarrow> stored (viewByHash s) (finalView st) \<and> stored (viewByHash s) (bestView st) \<and>
          expectedFinalView st = finalView st \<and> anc (viewByHash s) (finalView st) (bestView st) \<and>
          stops (viewByHash s) (finalView st))"

text \<open>A block that may be added: its height fits its neighbours among the views, it uses instant finality, and
  it extends the finalized view (what the consensus below guarantees for a block with enough votes).\<close>

definition new_view_ok :: "'h multiView \<Rightarrow> 'h View \<Rightarrow> bool" where
  "new_view_ok s v \<longleftrightarrow> 0 < v_Height v \<and> v_Height v < 2 ^ 64 \<and> INSTANT_FINALITY_VERSION \<le> blk_Version (v_Block v) \<and>
     v_PreviousHash v \<noteq> v_Hash v \<and> linked (viewByHash s) v \<and>
     (\<forall>(h, w) \<in> set (viewByHash s). v_PreviousHash w = v_Hash v \<longrightarrow> v_Height w = Suc (v_Height v)) \<and>
     (\<forall>st. mv_state s = Some st \<longrightarrow> anc (viewByHash s) (finalView st) v)"

lemma view_at_Cons: "view_at ((h, v) # views) h' = (if h' = h then Some v else view_at views h')"
  by (simp add: view_at_def)

lemma views_ok_Cons:
  assumes "views_ok views" and "view_at views (v_Hash v) = None" and "0 < v_Height v" and "v_Height v < 2 ^ 64"
    and "v_PreviousHash v \<noteq> v_Hash v" and "linked views v"
    and "\<forall>(h, w) \<in> set views. v_PreviousHash w = v_Hash v \<longrightarrow> v_Height w = Suc (v_Height v)"
  shows "views_ok ((v_Hash v, v) # views)"
proof -
  have "v_Hash v \<notin> fst ` set views" using assms(2) by (simp add: view_at_def map_of_eq_None_iff)
  then show ?thesis using assms by (fastforce simp: views_ok_def linked_def view_at_Cons)
qed

lemma longest_cases: "longest newView best = newView \<or> longest newView best = best"
  by (simp add: longest_def Let_def)

lemma choose_best_cases:
  assumes "views_ok views" and "linked views newView"
  shows "choose_best calls views newView st = Some newView \<or> choose_best calls views newView st = Some (bestView st)"
proof -
  obtain e where "findExpectFinalView views newView = Some e" using find_ends [OF assms] by blast
  then show ?thesis using longest_cases [of newView "bestView st"] by (auto simp: choose_best_def Let_def)
qed

lemma update_step_ok:
  assumes "views_ok (viewByHash s)" and "mv_state s = Some st" and "INSTANT_FINALITY_VERSION \<le> blk_Version (v_Block v)"
    and "stored (viewByHash s) v" and "stored (viewByHash s) (bestView st)" and "anc (viewByHash s) (finalView st) v"
    and "anc (viewByHash s) (finalView st) (bestView st)" and "stops (viewByHash s) (finalView st)"
  obtains best e where "updateViewState calls v s = Some (s\<lparr>mv_state := Some (st\<lparr>bestView := best, expectedFinalView := e\<rparr>)\<rparr>)"
    "best = v \<or> best = bestView st" "anc (viewByHash s) (finalView st) e" "anc (viewByHash s) e best"
    "stops (viewByHash s) e" "stored (viewByHash s) e"
proof -
  let ?V = "viewByHash s"
  note lv = storedD(3) [OF assms(1,4)]
  from choose_best_cases [OF assms(1) lv] obtain best where
    best: "choose_best calls ?V v st = Some best" "best = v \<or> best = bestView st" by blast
  have sb: "stored ?V best" and fb: "anc ?V (finalView st) best" using best(2) assms by auto
  from find_ends [OF assms(1) storedD(3) [OF assms(1) sb]] obtain e where
    e: "findExpectFinalView ?V best = Some e" "anc ?V e best" "stops ?V e" by blast
  have "updateViewState calls v s = Some (s\<lparr>mv_state := Some (st\<lparr>bestView := best, expectedFinalView := e\<rparr>)\<rparr>)"
    using assms(2,3) best(1) e(1) by (simp add: updateViewState_def)
  then show thesis
    using that best(2) e find_above [OF fb assms(8) e(1)] anc_stored [OF e(2) assms(1) sb] by blast
qed

lemma FinalizeView_expected:
  assumes "views_ok (viewByHash s)" and "mv_state s = Some st" and "stored (viewByHash s) (expectedFinalView st)"
    and "stored (viewByHash s) (bestView st)" and "anc (viewByHash s) (finalView st) (expectedFinalView st)"
    and "anc (viewByHash s) (expectedFinalView st) (bestView st)"
  shows "FinalizeView (v_Hash (expectedFinalView st)) s = Some (Inr (s\<lparr>mv_state := Some (st\<lparr>finalView := expectedFinalView st\<rparr>)\<rparr>, None))"
proof (cases "v_Height (finalView st) \<ge> v_Height (expectedFinalView st)")
  case True
  then have "finalView st = expectedFinalView st"
    using anc_height [OF assms(5,1) storedD(3) [OF assms(1,3)]] by auto
  then have "s\<lparr>mv_state := Some (st\<lparr>finalView := expectedFinalView st\<rparr>)\<rparr> = s" using assms(2) by (metis chain_state.surjective chain_state.update_convs(1) multiView.surjective multiView.update_convs(3))
  then show ?thesis using True assms(2,3) by (simp add: FinalizeView_def stored_def)
next
  case False
  have "links_back (viewByHash s) (v_Hash (expectedFinalView st)) (bestView st) = Some True"
    using links_back_iff [OF assms(1) storedD(3) [OF assms(1,4)]] assms(6) by auto
  then show ?thesis using False assms(2,3) by (simp add: FinalizeView_def stored_def)
qed

text \<open>What adding a view to the beacon multiview does.\<close>

definition extends :: "'h multiView \<Rightarrow> 'h multiView \<Rightarrow> bool" where
  "extends s s' \<longleftrightarrow> (\<forall>st. mv_state s = Some st \<longrightarrow>
     (\<exists>st'. mv_state s' = Some st' \<and> anc (viewByHash s') (finalView st) (finalView st')))"

lemma finalize_step:
  assumes "views_ok (viewByHash s)" and "mv_state s = Some st" and "stored (viewByHash s) (bestView st)"
    and "anc (viewByHash s) (finalView st) (expectedFinalView st)" and "anc (viewByHash s) (expectedFinalView st) (bestView st)"
    and "stops (viewByHash s) (expectedFinalView st)"
  shows "\<exists>s'. FinalizeView (v_Hash (expectedFinalView st)) s = Some (Inr (s', None)) \<and> mv_ok s' \<and> extends s s' \<and>
    viewByHash s' = viewByHash s"
proof -
  have "stored (viewByHash s) (expectedFinalView st)" by (rule anc_stored [OF assms(5,1,3)])
  with FinalizeView_expected [OF assms(1,2) this assms(3,4,5)] show ?thesis
    using assms by (intro exI [of _ "s\<lparr>mv_state := Some (st\<lparr>finalView := expectedFinalView st\<rparr>)\<rparr>"])
      (auto simp: mv_ok_def extends_def)
qed

lemma view_at_new: "view_at views h = None \<Longrightarrow> view_at views h' = Some p \<Longrightarrow> view_at ((h, v) # views) h' = Some p"
  by (auto simp: view_at_Cons)

lemma anc_new: "anc views a w \<Longrightarrow> view_at views h = None \<Longrightarrow> anc ((h, v) # views) a w"
  by (erule anc_mono) (rule view_at_new)

lemma stored_new: "view_at views (v_Hash v) = None \<Longrightarrow> stored views w \<Longrightarrow> stored ((v_Hash v, v) # views) w"
  by (auto simp: stored_def view_at_Cons)

text \<open>A new view above the final one can not be its predecessor.\<close>

lemma stops_new:
  assumes "views_ok views" and "view_at views (v_Hash v) = None" and "stored views f" and "stops views f" and "anc views f v"
    and "linked views v" and "\<forall>(h, w) \<in> set views. v_PreviousHash w = v_Hash v \<longrightarrow> v_Height w = Suc (v_Height v)"
  shows "stops ((v_Hash v, v) # views) f"
proof -
  have "v_Height f \<le> v_Height v" using anc_height [OF assms(5,1,6)] by simp
  moreover have "(v_Hash f, f) \<in> set views" using assms(3) view_at_in by (simp add: stored_def)
  ultimately have "v_PreviousHash f \<noteq> v_Hash v" using assms(7) by fastforce
  then show ?thesis using assms(4) by (simp add: stops_def view_at_Cons)
qed

lemma add_inserted:
  assumes "mv_ok s" and "new_view_ok s v" and "mv_state s = Some st"
    and "view_at (viewByHash s) (v_Hash v) = None" and "view_at (viewByHash s) (v_PreviousHash v) \<noteq> None"
  shows "\<exists>s1 st1. addView calls v s = Some (True, s1) \<and> views_ok (viewByHash s1) \<and> mv_state s1 = Some st1 \<and>
    stored (viewByHash s1) (bestView st1) \<and> anc (viewByHash s1) (finalView st1) (expectedFinalView st1) \<and>
    anc (viewByHash s1) (expectedFinalView st1) (bestView st1) \<and> stops (viewByHash s1) (expectedFinalView st1) \<and>
    finalView st1 = finalView st"
proof -
  let ?V = "viewByHash s"
  let ?W = "(v_Hash v, v) # ?V"
  define s0 where "s0 = s\<lparr>viewByHash := ?W, viewByPrevHash := (viewByPrevHash s)(v_PreviousHash v := viewByPrevHash s (v_PreviousHash v) @ [v])\<rparr>"
  note nv = assms(2) [unfolded new_view_ok_def]
  have ok: "views_ok ?V" "stored ?V (finalView st)" "stored ?V (bestView st)" "anc ?V (finalView st) (bestView st)" "stops ?V (finalView st)"
    using assms(1,3) by (auto simp: mv_ok_def)
  have fv: "anc ?V (finalView st) v" using nv assms(3) by simp
  have W: "views_ok ?W" using views_ok_Cons [OF ok(1) assms(4)] nv by simp
  have stf: "stops ?W (finalView st)" using stops_new [OF ok(1) assms(4) ok(2,5) fv] nv by simp
  have vb: "viewByHash s0 = ?W" "mv_state s0 = Some st" using assms(3) by (simp_all add: s0_def)
  have "updateViewState calls v s0 = Some (s0\<lparr>mv_state := Some st1\<rparr>) \<Longrightarrow> addView calls v s = Some (True, s0\<lparr>mv_state := Some st1\<rparr>)" for st1
    using assms(4,5) by (auto simp: addView_def s0_def view_at_def)
  moreover obtain best e where "updateViewState calls v s0 = Some (s0\<lparr>mv_state := Some (st\<lparr>bestView := best, expectedFinalView := e\<rparr>)\<rparr>)"
    "best = v \<or> best = bestView st" "anc ?W (finalView st) e" "anc ?W e best" "stops ?W e"
  proof (rule update_step_ok [of s0 st v, unfolded vb, OF W refl])
    show "stored ?W v" by (simp add: stored_def view_at_Cons)
    show "stored ?W (bestView st)" by (rule stored_new [OF assms(4) ok(3)])
    show "anc ?W (finalView st) v" by (rule anc_new [OF fv assms(4)])
    show "anc ?W (finalView st) (bestView st)" by (rule anc_new [OF ok(4) assms(4)])
  qed (use nv stf vb in auto)
  moreover have "stored ?W v" by (simp add: stored_def view_at_Cons)
  ultimately show ?thesis using W vb stored_new [OF assms(4) ok(3)]
    by (intro exI [of _ "s0\<lparr>mv_state := Some (st\<lparr>bestView := best, expectedFinalView := e\<rparr>)\<rparr>"]
          exI [of _ "st\<lparr>bestView := best, expectedFinalView := e\<rparr>"]) auto
qed

lemma beacon_add_ok:
  assumes "mv_ok s" and "new_view_ok s v"
  shows "\<exists>s' res. BeaconMultiView_AddView calls v s = Some (Inr (s', res, None)) \<and> mv_ok s' \<and> extends s s'"
proof (cases "mv_state s")
  case None
  then have V: "viewByHash s = []" using assms(1) by (simp add: mv_ok_def)
  define st where "st = \<lparr>finalView = v, expectedFinalView = v, bestView = v\<rparr>"
  define s1 where "s1 = s\<lparr>viewByHash := [(v_Hash v, v)], mv_state := Some st\<rparr>"
  note nv = assms(2) [unfolded new_view_ok_def]
  have add: "addView calls v s = Some (True, s1)" using V None by (simp add: addView_def updateViewState_def s1_def st_def)
  have "views_ok (viewByHash s1)" using nv by (simp add: s1_def views_ok_def linked_def view_at_def)
  moreover have "stops (viewByHash s1) v" "stored (viewByHash s1) v" using nv by (auto simp: s1_def stops_def stored_def view_at_def)
  ultimately have "\<exists>s'. FinalizeView (v_Hash v) s1 = Some (Inr (s', None)) \<and> mv_ok s' \<and> extends s1 s'"
    using finalize_step [of s1 st] anc_refl by (auto simp: s1_def st_def)
  then show ?thesis using add None by (auto simp: BeaconMultiView_AddView_def mv_bind_def s1_def st_def extends_def)
next
  case (Some st)
  have ok: "views_ok (viewByHash s)" "stored (viewByHash s) (finalView st)" "stored (viewByHash s) (bestView st)"
    "expectedFinalView st = finalView st" "anc (viewByHash s) (finalView st) (bestView st)" "stops (viewByHash s) (finalView st)"
    using assms(1) Some by (auto simp: mv_ok_def)
  have ne: "viewByHash s \<noteq> []" using ok(2) by (auto simp: stored_def view_at_def)
  show ?thesis
  proof (cases "view_at (viewByHash s) (v_Hash v) = None \<and> view_at (viewByHash s) (v_PreviousHash v) \<noteq> None")
    case True
    then have t: "view_at (viewByHash s) (v_Hash v) = None" "view_at (viewByHash s) (v_PreviousHash v) \<noteq> None" by auto
    from add_inserted [OF assms Some t, of calls] obtain s1 st1 where
      s1: "addView calls v s = Some (True, s1)" "views_ok (viewByHash s1)" "mv_state s1 = Some st1"
        "stored (viewByHash s1) (bestView st1)" "anc (viewByHash s1) (finalView st1) (expectedFinalView st1)"
        "anc (viewByHash s1) (expectedFinalView st1) (bestView st1)" "stops (viewByHash s1) (expectedFinalView st1)"
        "finalView st1 = finalView st" by blast
    from finalize_step [OF s1(2-7)] s1(1,3,8) Some show ?thesis
      by (auto simp: BeaconMultiView_AddView_def mv_bind_def extends_def)
  next
    case False
    then have add: "addView calls v s = Some (False, s)" using ne by (auto simp: addView_def)
    have "\<exists>s'. FinalizeView (v_Hash (expectedFinalView st)) s = Some (Inr (s', None)) \<and> mv_ok s' \<and> extends s s'"
      using finalize_step [OF ok(1) Some ok(3)] ok by (auto intro: anc_refl)
    then show ?thesis using add Some by (auto simp: BeaconMultiView_AddView_def mv_bind_def)
  qed
qed

section \<open>Cleaning\<close>

lemma pred64_pos: "0 < n \<Longrightarrow> n < 2 ^ 64 \<Longrightarrow> pred64 n = n - 1"
  by (cases n) (auto simp: pred64_def mod_if)

lemma remove_foldl:
  "viewByHash (foldl (remove_outdated_step limit) s xs) =
     filter (\<lambda>(h, _). \<forall>v. (h, v) \<in> set xs \<longrightarrow> limit \<le> v_Height v) (viewByHash s)
   \<and> mv_state (foldl (remove_outdated_step limit) s xs) = mv_state s"
proof (induction xs arbitrary: s)
  case (Cons x xs)
  then show ?case
    by (cases x) (auto simp: remove_outdated_step_def not_less intro!: filter_cong)
qed (simp add: case_prod_unfold)

definition keep_from :: "nat \<Rightarrow> ('h \<times> 'h View) list \<Rightarrow> ('h \<times> 'h View) list" where
  "keep_from limit views = filter (\<lambda>(_, v). limit \<le> v_Height v) views"

lemma removeOutdatedView_keeps:
  assumes "views_ok (viewByHash s)" and "mv_state s = Some st" and "stored (viewByHash s) (finalView st)"
  shows "\<exists>s'. removeOutdatedView s = Inr s' \<and> viewByHash s' = keep_from (v_Height (finalView st) - 1) (viewByHash s) \<and>
    mv_state s' = mv_state s"
proof -
  have pos: "pred64 (v_Height (finalView st)) = v_Height (finalView st) - 1"
    by (rule pred64_pos) (rule storedD [OF assms(1,3)])+
  have "(\<forall>w. (h, w) \<in> set (viewByHash s) \<longrightarrow> l \<le> v_Height w) \<longleftrightarrow> l \<le> v_Height v" if "(h, v) \<in> set (viewByHash s)" for h v l
    using that assms(1) by (auto simp: views_ok_def dest: eq_key_imp_eq_value)
  then have "filter (\<lambda>(h, _). \<forall>w. (h, w) \<in> set (viewByHash s) \<longrightarrow> l \<le> v_Height w) (viewByHash s) = keep_from l (viewByHash s)" for l
    unfolding keep_from_def by (intro filter_cong) auto
  then show ?thesis using assms(2) pos remove_foldl [of "v_Height (finalView st) - 1" s "viewByHash s"]
    by (auto simp: removeOutdatedView_def keep_from_def)
qed

lemma view_at_keep:
  assumes "views_ok views"
  shows "view_at (keep_from l views) h = (case view_at views h of None \<Rightarrow> None | Some v \<Rightarrow> if l \<le> v_Height v then Some v else None)"
proof -
  have "distinct (map fst views)" using assms by (simp add: views_ok_def)
  then show ?thesis
  proof (induction views)
    case (Cons a views)
    obtain k w where a: "a = (k, w)" by (cases a)
    have "k \<notin> fst ` set (keep_from l views)" and "k \<notin> fst ` set views" using Cons.prems a by (auto simp: keep_from_def)
    then have "view_at (keep_from l views) k = None" and "view_at views k = None"
      by (simp_all add: view_at_def map_of_eq_None_iff)
    then show ?case using Cons a by (simp add: view_at_Cons keep_from_def)
  qed (simp add: keep_from_def view_at_def)
qed

lemma views_ok_keep:
  assumes "views_ok views"
  shows "views_ok (keep_from l views)"
proof -
  have "distinct (map fst (keep_from l views))" using assms by (simp add: views_ok_def keep_from_def distinct_map_filter)
  moreover have "linked (keep_from l views) v" if "linked views v" for v
    using that by (auto simp: linked_def view_at_keep [OF assms] split: option.splits if_splits)
  ultimately show ?thesis using assms by (auto simp: views_ok_def keep_from_def)
qed

lemma anc_keep:
  "anc views f v \<Longrightarrow> views_ok views \<Longrightarrow> linked views v \<Longrightarrow> anc (keep_from (v_Height f - 1) views) f v"
proof (induction rule: anc.induct)
  case (anc_step v p)
  have l: "linked views p" by (rule views_okD(4) [OF anc_step.prems(1) anc_step.hyps(1)])
  have "v_Height f \<le> v_Height p" using anc_height [OF anc_step.hyps(2) anc_step.prems(1) l] by simp
  then have "view_at (keep_from (v_Height f - 1) views) (v_PreviousHash v) = Some p"
    using view_at_keep [OF anc_step.prems(1)] anc_step.hyps(1) by simp
  then show ?case by (rule anc.anc_step) (rule anc_step.IH [OF anc_step.prems(1) l])
qed (rule anc.anc_refl)

lemma clean_ok:
  assumes "mv_ok s"
  shows "\<exists>s'. clean_tick s = Inr s' \<and> mv_ok s' \<and> extends s s'"
proof (cases "mv_state s")
  case None
  then show ?thesis using assms by (auto simp: mv_ok_def clean_tick_def extends_def)
next
  case (Some st)
  have ok: "views_ok (viewByHash s)" "stored (viewByHash s) (finalView st)" "stored (viewByHash s) (bestView st)"
    "expectedFinalView st = finalView st" "anc (viewByHash s) (finalView st) (bestView st)" "stops (viewByHash s) (finalView st)"
    using assms Some by (auto simp: mv_ok_def)
  let ?l = "v_Height (finalView st) - 1"
  obtain s' where s': "removeOutdatedView s = Inr s'" "viewByHash s' = keep_from ?l (viewByHash s)" "mv_state s' = Some st"
    using removeOutdatedView_keeps [OF ok(1) Some ok(2)] Some by auto
  have "v_Height (finalView st) \<le> v_Height (bestView st)" using anc_height [OF ok(5,1) storedD(3) [OF ok(1,3)]] by simp
  then have "mv_ok s'" using s' ok views_ok_keep [OF ok(1)] anc_keep [OF ok(5,1) storedD(3) [OF ok(1,3)]]
    by (auto simp: mv_ok_def stored_def stops_def view_at_keep)
  moreover have "extends s s'" using s' Some by (auto simp: extends_def intro: anc_refl)
  moreover have "extends s s" by (auto simp: extends_def intro: anc_refl)
  ultimately show ?thesis using s' assms by (auto simp: clean_tick_def)
qed

section \<open>Runs of the beacon multiview\<close>

inductive beacon_run :: "'h view_calls \<Rightarrow> 'h multiView \<Rightarrow> bool" for calls where
  run_start: "beacon_run calls NewMultiView"
| run_add: "beacon_run calls s \<Longrightarrow> new_view_ok s v \<Longrightarrow> BeaconMultiView_AddView calls v s = Some (Inr (s', r, err)) \<Longrightarrow> beacon_run calls s'"
| run_clean: "beacon_run calls s \<Longrightarrow> clean_tick s = Inr s' \<Longrightarrow> beacon_run calls s'"

lemma NewMultiView_ok: "mv_ok NewMultiView"
  by (simp add: mv_ok_def NewMultiView_def views_ok_def)

lemma beacon_run_ok: "beacon_run calls s \<Longrightarrow> mv_ok s"
proof (induction rule: beacon_run.induct)
  case (run_add s v s' r err)
  then show ?case using beacon_add_ok [of s v calls] by auto
next
  case (run_clean s s')
  then show ?case using clean_ok [of s] by auto
qed (rule NewMultiView_ok)

text \<open>C24. As long as every added block uses instant finality (version 8 or later) and extends the finalized view, and whenever views are cleaned in between,
  the best view lies on a branch above the finalized view, nothing is left to finalize (the expected final view is the final one), and the
  finalized and the best view can be looked up. \<^verbatim>\<open>AddView\<close> itself checks only that the predecessor is known; that a block extends the finalized view is left
  to the verification of the block, and older blocks are decided by another rule (\<open>legacy_fork_finalizes_best\<close>).\<close>

theorem beacon_best_extends_final:
  assumes "beacon_run calls s" and "mv_state s = Some st"
  shows "anc (viewByHash s) (finalView st) (bestView st) \<and> expectedFinalView st = finalView st \<and>
    GetViewByHash s (v_Hash (finalView st)) = Inr (Some (finalView st)) \<and>
    GetViewByHash s (v_Hash (bestView st)) = Inr (Some (bestView st))"
proof -
  have ok: "views_ok (viewByHash s)" "stored (viewByHash s) (finalView st)" "stored (viewByHash s) (bestView st)"
    "expectedFinalView st = finalView st" "anc (viewByHash s) (finalView st) (bestView st)"
    using beacon_run_ok [OF assms(1)] assms(2) by (auto simp: mv_ok_def)
  have "v_Height (finalView st) \<le> v_Height (bestView st)" using anc_height [OF ok(5,1) storedD(3) [OF ok(1,3)]] by simp
  then show ?thesis using ok assms(2) by (simp add: GetViewByHash_def stored_def)
qed

definition toy_view :: "nat \<Rightarrow> nat \<Rightarrow> nat \<Rightarrow> nat \<Rightarrow> nat View" where
  "toy_view h prev height fin = \<lparr>v_Hash = h, v_PreviousHash = prev, v_Height = height,
     v_Block = \<lparr>blk_Version = 8, blk_Height = height, blk_FinalityHeight = fin, blk_ProduceTime = int h, blk_ProposeTime = int h\<rparr>\<rparr>"

definition toy_view_calls :: "nat view_calls" where
  "toy_view_calls = \<lparr>CalculateTimeSlot = \<lambda>_ t. t, CompareCommitteeFromBlock = \<lambda>_ _. 0\<rparr>"

definition toy_mv :: "nat multiView" where
  "toy_mv = \<lparr>viewByHash = [(1, toy_view 1 0 1 0)], viewByPrevHash = \<lambda>_. [],
     mv_state = Some \<lparr>finalView = toy_view 1 0 1 0, expectedFinalView = toy_view 1 0 1 0, bestView = toy_view 1 0 1 0\<rparr>\<rparr>"

lemma toy_mv_run: "beacon_run toy_view_calls toy_mv"
proof (rule run_add [OF run_start])
  show "new_view_ok NewMultiView (toy_view 1 0 1 0)"
    by (simp add: new_view_ok_def NewMultiView_def toy_view_def linked_def view_at_def)
  show "BeaconMultiView_AddView toy_view_calls (toy_view 1 0 1 0) NewMultiView = Some (Inr (toy_mv, 1, None))"
    by (simp add: BeaconMultiView_AddView_def addView_def updateViewState_def FinalizeView_def mv_bind_def toy_mv_def
        NewMultiView_def toy_view_def view_at_def)
qed


text \<open>A block without a finality proof becomes the best view above the finalized one.\<close>

definition toy_mv2 :: "nat multiView" where
  "toy_mv2 = \<lparr>viewByHash = [(2, toy_view 2 1 2 0), (1, toy_view 1 0 1 0)], viewByPrevHash = (\<lambda>_. [])(1 := [toy_view 2 1 2 0]),
     mv_state = Some \<lparr>finalView = toy_view 1 0 1 0, expectedFinalView = toy_view 1 0 1 0, bestView = toy_view 2 1 2 0\<rparr>\<rparr>"

lemma toy_mv2_run: "beacon_run toy_view_calls toy_mv2"
proof (rule run_add [OF toy_mv_run])
  have "anc (viewByHash toy_mv) (toy_view 1 0 1 0) (toy_view 2 1 2 0)"
    by (rule anc_step [OF _ anc_refl]) (simp add: toy_mv_def toy_view_def view_at_def)
  then show "new_view_ok toy_mv (toy_view 2 1 2 0)" by (simp add: new_view_ok_def toy_mv_def toy_view_def linked_def view_at_def)
  have "findExpectFinalView (viewByHash toy_mv2) (toy_view 2 1 2 0) = Some (toy_view 1 0 1 0)"
    by (subst findExpectFinalView.simps, simp add: toy_mv2_def toy_view_def view_at_def)
      (subst findExpectFinalView.simps, simp add: view_at_def)
  then show "BeaconMultiView_AddView toy_view_calls (toy_view 2 1 2 0) toy_mv = Some (Inr (toy_mv2, 1, None))"
    by (simp add: BeaconMultiView_AddView_def addView_def updateViewState_def choose_best_def longest_def FinalizeView_def mv_bind_def toy_mv_def toy_mv2_def
        toy_view_calls_def toy_view_def view_at_def)
qed

theorem beacon_best_extends_final_witness:
  "beacon_run toy_view_calls toy_mv2 \<and> anc (viewByHash toy_mv2) (toy_view 1 0 1 0) (toy_view 2 1 2 0) \<and>
   GetViewByHash toy_mv2 1 = Inr (Some (toy_view 1 0 1 0)) \<and> GetViewByHash toy_mv2 2 = Inr (Some (toy_view 2 1 2 0))"
  using beacon_best_extends_final [OF toy_mv2_run, of "the (mv_state toy_mv2)"] toy_mv2_run
  by (simp add: toy_mv2_def toy_view_def)



text \<open>Before instant finality the finality height of the new block decides whether the predecessor of the best
  view becomes final, also when the new block is on another branch and the best view has no finality proof:
  here block 5 of a short fork makes view 3 the expected final one, though the best view 4 came after a gap.\<close>

definition toy_old_view :: "nat \<Rightarrow> nat \<Rightarrow> nat \<Rightarrow> nat \<Rightarrow> int \<Rightarrow> nat View" where
  "toy_old_view h prev height fin t = \<lparr>v_Hash = h, v_PreviousHash = prev, v_Height = height,
     v_Block = \<lparr>blk_Version = 6, blk_Height = height, blk_FinalityHeight = fin, blk_ProduceTime = t, blk_ProposeTime = t\<rparr>\<rparr>"

lemma legacy_fork_finalizes_best:
  assumes "views = map (\<lambda>v. (v_Hash v, v)) [toy_old_view 1 0 1 0 1, toy_old_view 3 1 2 0 3, toy_old_view 4 3 3 0 9, toy_old_view 5 1 2 1 5]"
    and "st = \<lparr>finalView = toy_old_view 1 0 1 0 1, expectedFinalView = toy_old_view 1 0 1 0 1, bestView = toy_old_view 4 3 3 0 9\<rparr>"
  shows "update_legacy toy_view_calls views (toy_old_view 5 1 2 1 5) st = st\<lparr>expectedFinalView := toy_old_view 3 1 2 0 3\<rparr>"
  unfolding assms using pred64_pos [of 2]
  by (simp add: update_legacy_def longest_def toy_old_view_def toy_view_calls_def view_at_def)

end
