(* ===== verification/Committee_State.thy ===== *)
theory Committee_State
  imports Committee_Change
begin

text \<open>
  The operations of the beacon committee engine: the handlers of
  \<^verbatim>\<open>beacon_committee_state_base.go\<close>, \<^verbatim>\<open>beacon_committee_state_slashing_base.go\<close>,
  \<^verbatim>\<open>beacon_committee_state_v2.go\<close> and \<^verbatim>\<open>beacon_committee_state_v3.go\<close> in \<^verbatim>\<open>src/blockchain/committeestate\<close>, and
  the loops \<^verbatim>\<open>UpdateCommitteeState\<close> that apply the instructions of a beacon block. A handler
  takes the state, the committee change and the return-staking instruction and returns them
  updated; an error or a panic discards them, as the caller drops the cloned state. Locks, logging
  and the root hashes of the state (a parameter) are not modelled.
\<close>

section \<open>Base (beacon_committee_state_base.go)\<close>

definition getAllCandidateSubstituteCommittee_base :: "('h, 'p, 'z) beaconCommitteeStateBase_scheme \<Rightarrow> string list" where
  "getAllCandidateSubstituteCommittee_base b =
     all_shards (shardCommittee b) @ all_shards (shardSubstitute b) @ beaconCommittee b"

definition getAllSubstituteCommittees_base :: "('h, 'p, 'z) beaconCommitteeStateBase_scheme \<Rightarrow> string list" where
  "getAllSubstituteCommittees_base b =
     all_shards (shardCommittee b) @ all_shards (shardSubstitute b) @ beaconCommittee b"

definition turnOffStopAutoStake ::
    "string \<Rightarrow> ('h, 'p, 'z) beaconCommitteeStateBase_scheme \<times> 'k CommitteeChange \<Rightarrow>
     ('h, 'p, 'z) beaconCommitteeStateBase_scheme \<times> 'k CommitteeChange" where
  "turnOffStopAutoStake publicKey = (\<lambda>(b, cc).
     (b\<lparr>autoStake := (autoStake b)(publicKey \<mapsto> False)\<rparr>, AddStopAutoStake publicKey cc))"

definition stake_step ::
    "'k externals \<Rightarrow> ('k, 'h, 'p) StakeInstruction \<Rightarrow> ('h, 'p, 'z) beaconCommitteeStateBase_scheme \<Rightarrow> nat \<times> 'k \<Rightarrow>
     ('h, 'p, 'z) beaconCommitteeStateBase_scheme go" where
  "stake_step ext si b = (\<lambda>(index, candidate).
     go_bind (go_index (st_PublicKeys si) (int index)) (\<lambda>committeePublicKey.
     go_bind (go_index (st_RewardReceiverStructs si) (int index)) (\<lambda>receiver.
     go_bind (go_index (st_AutoStakingFlag si) (int index)) (\<lambda>flag.
     go_bind (go_index (st_TxStakeHashes si) (int index)) (\<lambda>tx.
       Inr (b\<lparr>rewardReceiver := (rewardReceiver b)(GetIncKeyBase58 ext candidate \<mapsto> receiver),
              autoStake := (autoStake b)(committeePublicKey \<mapsto> flag),
              stakingTx := (stakingTx b)(committeePublicKey \<mapsto> tx)\<rparr>))))))"

definition processStakeInstruction_base ::
    "'k externals \<Rightarrow> ('k, 'h, 'p) StakeInstruction \<Rightarrow> ('h, 'p, 'z) beaconCommitteeStateBase_scheme \<times> 'k CommitteeChange \<Rightarrow>
     (('h, 'p, 'z) beaconCommitteeStateBase_scheme \<times> 'k CommitteeChange) go" where
  "processStakeInstruction_base ext si = (\<lambda>(b, cc).
     go_bind (go_foldl (stake_step ext si) b
       (zip [0..<length (st_PublicKeyStructs si)] (st_PublicKeyStructs si))) (\<lambda>b'.
       Inr (b', cc\<lparr>NextEpochShardCandidateAdded := NextEpochShardCandidateAdded cc @ st_PublicKeyStructs si\<rparr>)))"

definition turnOff_step ::
    "string list \<Rightarrow> ('h, 'p, 'z) beaconCommitteeStateBase_scheme \<times> 'k CommitteeChange \<Rightarrow> string \<Rightarrow>
     ('h, 'p, 'z) beaconCommitteeStateBase_scheme \<times> 'k CommitteeChange" where
  "turnOff_step validators = (\<lambda>(b, cc) committeePublicKey.
     if IndexOfStr committeePublicKey validators = -1
     then (b\<lparr>autoStake := (autoStake b)(committeePublicKey := None)\<rparr>, cc)
     else (case autoStake b committeePublicKey of
             Some True \<Rightarrow> turnOffStopAutoStake committeePublicKey (b, cc)
           | _ \<Rightarrow> (b, cc)))"

definition turnOffAutoStake ::
    "string list \<Rightarrow> string list \<Rightarrow> ('h, 'p, 'z) beaconCommitteeStateBase_scheme \<times> 'k CommitteeChange \<Rightarrow>
     ('h, 'p, 'z) beaconCommitteeStateBase_scheme \<times> 'k CommitteeChange" where
  "turnOffAutoStake validators stopAutoStakeKeys bc = foldl (turnOff_step validators) bc stopAutoStakeKeys"

definition processStopAutoStakeInstruction ::
    "'k StopAutoStakeInstruction \<Rightarrow> BeaconCommitteeStateEnvironment \<Rightarrow>
     ('h, 'p, 'z) beaconCommitteeStateBase_scheme \<times> 'k CommitteeChange \<Rightarrow>
     ('h, 'p, 'z) beaconCommitteeStateBase_scheme \<times> 'k CommitteeChange" where
  "processStopAutoStakeInstruction si env bc = turnOffAutoStake (newAllRoles env) (sas_CommitteePublicKeys si) bc"

text \<open>The number of candidates to assign: the sum of the offsets of the shards, at most the pool.\<close>

definition SnapshotShardCommonPoolV2 ::
    "string list \<Rightarrow> (nat \<rightharpoonup> string list) \<Rightarrow> (nat \<rightharpoonup> string list) \<Rightarrow> int \<Rightarrow> int \<Rightarrow> SwapRuleProcessor \<Rightarrow> int" where
  "SnapshotShardCommonPoolV2 pool committees substitutes numberOfFixedValidator minCommitteeSize rule =
     (let n = sum_list (map (\<lambda>k. SwapRule_CalculateAssignOffset rule (int (length (map_slice substitutes k)))
            (int (length (map_slice committees k))) numberOfFixedValidator minCommitteeSize)
            (filter (\<lambda>k. committees k \<noteq> None) [0..<256]))
      in if n > int (length pool) then int (length pool) else n)"

definition VersionByBeaconHeight :: "nat \<Rightarrow> nat \<Rightarrow> nat \<Rightarrow> nat" where
  "VersionByBeaconHeight beaconHeight stakingV2Height stakingV3Height =
     (if beaconHeight \<ge> stakingV3Height then 3 else if beaconHeight \<ge> stakingV2Height then 2 else 1)"

section \<open>Slashing base (beacon_committee_state_slashing_base.go)\<close>

definition getAllCandidateSubstituteCommittee_slashing ::
    "('h, 'p, 'z) beaconCommitteeStateSlashingBase_scheme \<Rightarrow> string list" where
  "getAllCandidateSubstituteCommittee_slashing b = getAllCandidateSubstituteCommittee_base b @ shardCommonPool b"

definition getAllSubstituteCommittees_slashing ::
    "('h, 'p, 'z) beaconCommitteeStateSlashingBase_scheme \<Rightarrow> string list go" where
  "getAllSubstituteCommittees_slashing b =
     go_bind (slice_to (shardCommonPool b) (numberOfAssignedCandidates b)) (\<lambda>waiting.
       Inr (getAllSubstituteCommittees_base b @ waiting))"

definition deleteStakerInfo ::
    "'k externals \<Rightarrow> 'k \<Rightarrow> string \<Rightarrow> ('h, 'p, 'z) beaconCommitteeStateSlashingBase_scheme \<times> 'k CommitteeChange \<Rightarrow>
     ('h, 'p, 'z) beaconCommitteeStateSlashingBase_scheme \<times> 'k CommitteeChange" where
  "deleteStakerInfo ext committeePublicKeyStruct committeePublicKey = (\<lambda>(b, cc).
     (b\<lparr>rewardReceiver := (rewardReceiver b)(GetIncKeyBase58 ext committeePublicKeyStruct := None),
        autoStake := (autoStake b)(committeePublicKey := None),
        stakingTx := (stakingTx b)(committeePublicKey := None)\<rparr>,
      AddRemovedStaker committeePublicKey cc))"

type_synonym ('k, 'h, 'p, 'z) block_state =
  "('h, 'p, 'z) beaconCommitteeStateSlashingBase_scheme \<times> 'k CommitteeChange \<times> ('k, 'h) ReturnStakeInstruction"

definition buildReturnStakingInstructionAndDeleteStakerInfo ::
    "('k, 'h, 'p) codec \<Rightarrow> 'k externals \<Rightarrow> 'k \<Rightarrow> string \<Rightarrow> StakerInfo \<Rightarrow> ('k, 'h, 'p, 'z) block_state \<Rightarrow>
     ('k, 'h, 'p, 'z) block_state go" where
  "buildReturnStakingInstructionAndDeleteStakerInfo cdc ext committeePublicKeyStruct publicKey stakerInfo =
     (\<lambda>(b, cc, ret).
     go_bind (if \<not> AllFoundationNode ext publicKey
              then ReturnStake_AddNewRequest cdc ret publicKey (TxStakingID stakerInfo) else Inr ret) (\<lambda>ret'.
     case deleteStakerInfo ext committeePublicKeyStruct publicKey (b, cc) of (b', cc') \<Rightarrow> Inr (b', cc', ret')))"

definition processStakeInstruction ::
    "'k externals \<Rightarrow> ('k, 'h, 'p) StakeInstruction \<Rightarrow>
     ('h, 'p, 'z) beaconCommitteeStateSlashingBase_scheme \<times> 'k CommitteeChange \<Rightarrow>
     (('h, 'p, 'z) beaconCommitteeStateSlashingBase_scheme \<times> 'k CommitteeChange) go" where
  "processStakeInstruction ext si bc =
     (if st_Chain si = BEACON_INST then Inr bc
      else go_bind (processStakeInstruction_base ext si bc) (\<lambda>(b, cc).
        Inr (b\<lparr>shardCommonPool := shardCommonPool b @ st_PublicKeys si\<rparr>, cc)))"

definition getCandidatesForRandomAssignment ::
    "('k, 'h, 'p) codec \<Rightarrow> ('h, 'p, 'z) beaconCommitteeStateSlashingBase_scheme \<times> 'k CommitteeChange \<Rightarrow>
     (('h, 'p, 'z) beaconCommitteeStateSlashingBase_scheme \<times> 'k CommitteeChange \<times> string list) go" where
  "getCandidatesForRandomAssignment cdc = (\<lambda>(b, cc).
     go_bind (slice_to (shardCommonPool b) (numberOfAssignedCandidates b)) (\<lambda>candidates.
     go_bind (slice_from (shardCommonPool b) (numberOfAssignedCandidates b)) (\<lambda>rest.
       Inr (b\<lparr>shardCommonPool := rest, numberOfAssignedCandidates := 0\<rparr>,
            AddNextEpochShardCandidateRemoved cdc candidates cc, candidates))))"

definition processRandomAssignment ::
    "'k externals \<Rightarrow> AssignRuleProcessor \<Rightarrow> string list \<Rightarrow> int \<Rightarrow> int list \<Rightarrow> (nat \<rightharpoonup> string list) go" where
  "processRandomAssignment ext rule candidates rnd nv =
     AssignRule_Process rule (ext_HashB ext) (ext_Intn ext) (ext_sortSlice ext) candidates nv rnd"

definition assign_shard_step ::
    "('k, 'h, 'p) codec \<Rightarrow> (nat \<rightharpoonup> string list) \<Rightarrow> ('h, 'p, 'z) beaconCommitteeStateSlashingBase_scheme \<times> 'k CommitteeChange \<Rightarrow>
     nat \<Rightarrow> ('h, 'p, 'z) beaconCommitteeStateSlashingBase_scheme \<times> 'k CommitteeChange" where
  "assign_shard_step cdc assigned = (\<lambda>(b, cc) shardID.
     (b\<lparr>shardSubstitute := shard_extend (shardSubstitute b) shardID (map_slice assigned shardID)\<rparr>,
      cc\<lparr>ShardSubstituteAdded := shard_extend (ShardSubstituteAdded cc) shardID
           (structs_of cdc (map_slice assigned shardID))\<rparr>))"

definition assign ::
    "('k, 'h, 'p) codec \<Rightarrow> 'k externals \<Rightarrow> string list \<Rightarrow> int \<Rightarrow> int list \<Rightarrow>
     ('h, 'p, 'z) beaconCommitteeStateSlashingBase_scheme \<times> 'k CommitteeChange \<Rightarrow>
     (('h, 'p, 'z) beaconCommitteeStateSlashingBase_scheme \<times> 'k CommitteeChange) go" where
  "assign cdc ext candidates rnd nv bc =
     go_bind (processRandomAssignment ext (assignRule (fst bc)) candidates rnd nv) (\<lambda>assigned.
       Inr (foldl (assign_shard_step cdc assigned) bc (filter (\<lambda>s. assigned s \<noteq> None) [0..<256])))"

definition processAssignWithRandomInstruction ::
    "('k, 'h, 'p) codec \<Rightarrow> 'k externals \<Rightarrow> int \<Rightarrow> int list \<Rightarrow>
     ('h, 'p, 'z) beaconCommitteeStateSlashingBase_scheme \<times> 'k CommitteeChange \<Rightarrow>
     (('h, 'p, 'z) beaconCommitteeStateSlashingBase_scheme \<times> 'k CommitteeChange) go" where
  "processAssignWithRandomInstruction cdc ext rnd nv bc =
     go_bind (getCandidatesForRandomAssignment cdc bc) (\<lambda>(b, cc, candidates). assign cdc ext candidates rnd nv (b, cc))"

text \<open>\<^verbatim>\<open>processSwap\<close> recomputes the swap from the lists at the start of the block and compares it with the
  instruction. An instruction that announces no change never equals the recomputed one: its key lists
  are empty slices and those of the recomputed empty instruction are nil, which \<^verbatim>\<open>reflect.DeepEqual\<close>
  tells apart. A mismatch returns an error and empty lists, and leaves the state as it is.\<close>

definition processSwap ::
    "('k, 'h, 'p) codec \<Rightarrow> 'k SwapShardInstruction \<Rightarrow> BeaconCommitteeStateEnvironment \<Rightarrow>
     ('h, 'p, 'z) beaconCommitteeStateSlashingBase_scheme \<times> 'k CommitteeChange \<Rightarrow>
     (('h, 'p, 'z) beaconCommitteeStateSlashingBase_scheme \<times> 'k CommitteeChange \<times> string list \<times> string list \<times> string list \<times>
       string option) go" where
  "processSwap cdc si env = (\<lambda>(b, cc).
     let shardID = nat (ss_ChainID si mod 256) in
     go_bind (SwapRule_Process (swapRule b) cdc shardID (map_slice (env_shardCommittee env) shardID)
         (map_slice (env_shardSubstitute env) shardID) (MinShardCommitteeSize env) (MaxShardCommitteeSize env)
         SWAP_BY_END_EPOCH (NumberOfFixedShardBlockValidator env) (MissingSignaturePenalty env))
       (\<lambda>(compared, newCommittees, _, slashingCommittees, normalSwapOutCommittees).
     case compared of None \<Rightarrow> Inl GoPanic
     | Some cmp \<Rightarrow>
       if (ss_InPublicKeys cmp = [] \<and> ss_OutPublicKeys cmp = []) \<or> ss_InPublicKeys cmp \<noteq> ss_InPublicKeys si
       then Inr (b, cc, [], [], [], Some ''expect swap in keys'')
       else if ss_OutPublicKeys cmp \<noteq> ss_OutPublicKeys si
       then Inr (b, cc, [], [], [], Some ''expect swap out keys'')
       else go_bind (slice_from (map_slice (shardSubstitute b) shardID) (int (length (ss_InPublicKeys si)))) (\<lambda>subs.
         Inr (b\<lparr>shardCommittee := (shardCommittee b)(shardID \<mapsto> newCommittees),
                shardSubstitute := (shardSubstitute b)(shardID \<mapsto> subs)\<rparr>,
              AddShardCommitteeAdded cdc shardID (ss_InPublicKeys si)
                (AddShardSubstituteRemoved cdc shardID (ss_InPublicKeys si)
                  (AddShardCommitteeRemoved cdc shardID (ss_OutPublicKeys si) cc)),
              ss_InPublicKeys si, normalSwapOutCommittees, slashingCommittees, None))))"

text \<open>\<^verbatim>\<open>statedb.GetShardStakerInfo\<close> with its two failure cases.\<close>

definition staker_info :: "BeaconCommitteeStateEnvironment \<Rightarrow> string \<Rightarrow> StakerInfo go" where
  "staker_info env k = go_bind (ConsensusStateDB env k) (\<lambda>r.
     case r of None \<Rightarrow> Inl (GoErr ''Can not found info of this public key'') | Some i \<Rightarrow> Inr i)"

definition classify_step ::
    "('k, 'h, 'p) codec \<Rightarrow> 'k externals \<Rightarrow> BeaconCommitteeStateEnvironment \<Rightarrow> 'k list \<Rightarrow>
     string list \<times> ('k, 'h, 'p, 'z) block_state \<Rightarrow> nat \<times> string \<Rightarrow> (string list \<times> ('k, 'h, 'p, 'z) block_state) go" where
  "classify_step cdc ext env structs = (\<lambda>(candidates, bs) (index, outPublicKey).
     go_bind (staker_info env outPublicKey) (\<lambda>info.
       if AutoStaking info then Inr (candidates @ [outPublicKey], bs)
       else go_bind (go_index structs (int index)) (\<lambda>st.
            go_bind (buildReturnStakingInstructionAndDeleteStakerInfo cdc ext st outPublicKey info bs) (\<lambda>bs'.
              Inr (candidates, bs')))))"

definition classifyValidatorsByAutoStake ::
    "('k, 'h, 'p) codec \<Rightarrow> 'k externals \<Rightarrow> BeaconCommitteeStateEnvironment \<Rightarrow> string list \<Rightarrow>
     ('k, 'h, 'p, 'z) block_state \<Rightarrow> (string list \<times> ('k, 'h, 'p, 'z) block_state) go" where
  "classifyValidatorsByAutoStake cdc ext env outPublicKeys bs =
     go_foldl (classify_step cdc ext env (structs_of cdc outPublicKeys)) ([], bs)
       (zip [0..<length outPublicKeys] outPublicKeys)"

definition processAfterNormalSwap ::
    "('k, 'h, 'p) codec \<Rightarrow> 'k externals \<Rightarrow> BeaconCommitteeStateEnvironment \<Rightarrow> string list \<Rightarrow> int list \<Rightarrow>
     ('k, 'h, 'p, 'z) block_state \<Rightarrow> ('k, 'h, 'p, 'z) block_state go" where
  "processAfterNormalSwap cdc ext env outPublicKeys nv bs =
     go_bind (classifyValidatorsByAutoStake cdc ext env outPublicKeys bs) (\<lambda>(candidates, b, cc, ret).
     go_bind (assign cdc ext candidates (RandomNumber env) nv (b, cc)) (\<lambda>(b', cc'). Inr (b', cc', ret)))"

definition slash_step ::
    "('k, 'h, 'p) codec \<Rightarrow> 'k externals \<Rightarrow> BeaconCommitteeStateEnvironment \<Rightarrow> 'k list \<Rightarrow>
     ('k, 'h, 'p, 'z) block_state \<Rightarrow> nat \<times> string \<Rightarrow> ('k, 'h, 'p, 'z) block_state go" where
  "slash_step cdc ext env structs = (\<lambda>bs (index, outPublicKey).
     go_bind (staker_info env outPublicKey) (\<lambda>info.
     go_bind (go_index structs (int index)) (\<lambda>st.
       buildReturnStakingInstructionAndDeleteStakerInfo cdc ext st outPublicKey info bs)))"

definition processSlashing ::
    "('k, 'h, 'p) codec \<Rightarrow> 'k externals \<Rightarrow> nat \<Rightarrow> BeaconCommitteeStateEnvironment \<Rightarrow> string list \<Rightarrow>
     ('k, 'h, 'p, 'z) block_state \<Rightarrow> ('k, 'h, 'p, 'z) block_state go" where
  "processSlashing cdc ext shardID env slashingPublicKeys bs =
     go_bind (go_foldl (slash_step cdc ext env (structs_of cdc slashingPublicKeys)) bs
       (zip [0..<length slashingPublicKeys] slashingPublicKeys))
     (\<lambda>(b, cc, ret). Inr (b, AddSlashingCommittees shardID slashingPublicKeys cc, ret))"

definition processSwapShardInstruction ::
    "('k, 'h, 'p) codec \<Rightarrow> 'k externals \<Rightarrow> 'k SwapShardInstruction \<Rightarrow> int list \<Rightarrow> BeaconCommitteeStateEnvironment \<Rightarrow>
     ('k, 'h, 'p, 'z) block_state \<Rightarrow> ('k, 'h, 'p, 'z) block_state go" where
  "processSwapShardInstruction cdc ext si nv env = (\<lambda>(b, cc, ret).
     go_bind (processSwap cdc si env (b, cc)) (\<lambda>(b1, cc1, _, normalSwapOut, slashing, err).
     case err of Some e \<Rightarrow> Inl (GoErr e)
     | None \<Rightarrow>
       go_bind (processAfterNormalSwap cdc ext env normalSwapOut nv (b1, cc1, ret)) (\<lambda>bs.
       processSlashing cdc ext (nat (ss_ChainID si mod 256)) env slashing bs)))"

definition unstake_step ::
    "('k, 'h, 'p) codec \<Rightarrow> 'k externals \<Rightarrow> BeaconCommitteeStateEnvironment \<Rightarrow> 'k UnstakeInstruction \<Rightarrow>
     ('k, 'h, 'p, 'z) block_state \<Rightarrow> nat \<times> string \<Rightarrow> ('k, 'h, 'p, 'z) block_state go" where
  "unstake_step cdc ext env ui = (\<lambda>(b, cc, ret) (index, publicKey).
     if IndexOfStr publicKey (newUnassignedCommonPool env) = -1
     then Inr (case autoStake b publicKey of
                 Some _ \<Rightarrow> (case turnOffStopAutoStake publicKey (b, cc) of (b', cc') \<Rightarrow> (b', cc', ret))
               | None \<Rightarrow> (b, cc, ret))
     else
       let i = IndexOfStr publicKey (shardCommonPool b) in
       go_bind (slice_to (shardCommonPool b) i) (\<lambda>front.
       go_bind (slice_from (shardCommonPool b) (i + 1)) (\<lambda>back.
       go_bind (staker_info env publicKey) (\<lambda>info.
       go_bind (go_index (us_CommitteePublicKeysStruct ui) (int index)) (\<lambda>st.
         buildReturnStakingInstructionAndDeleteStakerInfo cdc ext st publicKey info
           (b\<lparr>shardCommonPool := front @ back\<rparr>, AddNextEpochShardCandidateRemoved cdc [publicKey] cc, ret))))))"

definition processUnstakeInstruction ::
    "('k, 'h, 'p) codec \<Rightarrow> 'k externals \<Rightarrow> BeaconCommitteeStateEnvironment \<Rightarrow> 'k UnstakeInstruction \<Rightarrow>
     ('k, 'h, 'p, 'z) block_state \<Rightarrow> ('k, 'h, 'p, 'z) block_state go" where
  "processUnstakeInstruction cdc ext env ui bs =
     go_foldl (unstake_step cdc ext env ui) bs
       (zip [0..<length (us_CommitteePublicKeys ui)] (us_CommitteePublicKeys ui))"

section \<open>The slashing engine (beacon_committee_state_v2.go)\<close>

text \<open>\<^verbatim>\<open>addData\<close>: the snapshot of the state that the handlers of a block read from the environment.\<close>

definition addData ::
    "('h, 'p, 'z) beaconCommitteeStateSlashingBase_scheme \<Rightarrow> BeaconCommitteeStateEnvironment \<Rightarrow>
     BeaconCommitteeStateEnvironment go" where
  "addData b env =
     go_bind (slice_from (shardCommonPool b) (numberOfAssignedCandidates b)) (\<lambda>unassigned.
     go_bind (getAllSubstituteCommittees_slashing b) (\<lambda>allSub.
       Inr (env\<lparr>newUnassignedCommonPool := unassigned, newAllSubstituteCommittees := allSub,
                newAllRoles := unassigned @ allSub,
                env_shardCommittee := shardCommittee b, env_shardSubstitute := shardSubstitute b,
                numberOfValidator := map (\<lambda>i. int (length (map_slice (shardCommittee b) (i mod 256))) +
                  int (length (map_slice (shardSubstitute b) (i mod 256)))) [0..<ActiveShards env]\<rparr>)))"

text \<open>\<^verbatim>\<open>GenerateSwapShardInstructions\<close>: one instruction per shard, empty ones dropped.\<close>

definition GenerateSwapShardInstructions ::
    "('k, 'h, 'p) codec \<Rightarrow> BeaconCommitteeStateEnvironment \<Rightarrow> ('h, 'p, 'z) beaconCommitteeStateSlashingBase_scheme \<Rightarrow>
     'k SwapShardInstruction list go" where
  "GenerateSwapShardInstructions cdc env0 b =
     go_bind (addData b env0) (\<lambda>env.
     go_foldl (\<lambda>acc i.
       let shardID = i mod 256 in
       go_bind (SwapRule_Process (swapRule b) cdc shardID (map_slice (shardCommittee b) shardID)
           (map_slice (shardSubstitute b) shardID) (MinShardCommitteeSize env) (MaxShardCommitteeSize env)
           SWAP_BY_END_EPOCH (NumberOfFixedShardBlockValidator env) (MissingSignaturePenalty env))
         (\<lambda>(ins, _, _, _, _). case ins of None \<Rightarrow> Inl GoPanic
            | Some si \<Rightarrow> Inr (if \<not> SwapShard_IsEmpty si then acc @ [si] else acc)))
       [] [0..<ActiveShards env])"

definition with_ret ::
    "('b \<times> 'c \<Rightarrow> ('b \<times> 'c) go) \<Rightarrow> 'b \<times> 'c \<times> 'r \<Rightarrow> ('b \<times> 'c \<times> 'r) go" where
  "with_ret f = (\<lambda>(b, cc, ret). go_bind (f (b, cc)) (\<lambda>(b', cc'). Inr (b', cc', ret)))"

definition stop_handler ::
    "('k, 'h, 'p) codec \<Rightarrow> BeaconCommitteeStateEnvironment \<Rightarrow> string list \<Rightarrow> ('k, 'h, 'p, 'z) block_state \<Rightarrow>
     ('k, 'h, 'p, 'z) block_state go" where
  "stop_handler cdc env inst bs =
     go_bind (ValidateAndImportStopAutoStakeInstructionFromString cdc inst) (\<lambda>p.
       case p of None \<Rightarrow> Inl GoPanic
       | Some si \<Rightarrow> with_ret (\<lambda>bc. Inr (processStopAutoStakeInstruction si env bc)) bs)"

definition update_step_V2 ::
    "('k, 'h, 'p) codec \<Rightarrow> 'k externals \<Rightarrow> BeaconCommitteeStateEnvironment \<Rightarrow> ('k, 'h, 'p, 'z) block_state \<Rightarrow> string list \<Rightarrow>
     ('k, 'h, 'p, 'z) block_state go" where
  "update_step_V2 cdc ext env bs inst =
     (case inst of [] \<Rightarrow> Inr bs
      | action # _ \<Rightarrow>
        if action = STAKE_ACTION
        then go_bind (ValidateAndImportStakeInstructionFromString cdc inst) (\<lambda>si.
               with_ret (processStakeInstruction ext si) bs)
        else if action = RANDOM_ACTION
        then go_bind (ValidateAndImportRandomInstructionFromString inst) (\<lambda>ri.
               with_ret (processAssignWithRandomInstruction cdc ext (randomNumber ri) (numberOfValidator env)) bs)
        else if action = STOP_AUTO_STAKE_ACTION then stop_handler cdc env inst bs
        else if action = UNSTAKE_ACTION
        then go_bind (ValidateAndImportUnstakeInstructionFromString cdc inst) (\<lambda>ui.
               processUnstakeInstruction cdc ext env ui bs)
        else if action = SWAP_SHARD_ACTION
        then go_bind (ValidateAndImportSwapShardInstructionFromString cdc inst) (\<lambda>si.
               processSwapShardInstruction cdc ext si (numberOfValidator env) env bs)
        else Inr bs)"

definition snapshot ::
    "BeaconCommitteeStateEnvironment \<Rightarrow> ('h, 'p, 'z) beaconCommitteeStateSlashingBase_scheme \<Rightarrow>
     ('h, 'p, 'z) beaconCommitteeStateSlashingBase_scheme" where
  "snapshot env b =
     (if IsBeaconRandomTime env
      then b\<lparr>numberOfAssignedCandidates := SnapshotShardCommonPoolV2 (shardCommonPool b) (shardCommittee b)
        (shardSubstitute b) (NumberOfFixedShardBlockValidator env) (MinShardCommitteeSize env) (swapRule b)\<rparr>
      else b)"

text \<open>The incurred instructions of a block: the return-staking instruction unless it is empty.\<close>

definition incurred :: "('k, 'h) ReturnStakeInstruction \<Rightarrow> string list list" where
  "incurred ret = (if \<not> ReturnStake_IsEmpty ret then [ReturnStake_ToString ret] else [])"

definition UpdateCommitteeState_V2 ::
    "('k, 'h, 'p) codec \<Rightarrow> 'k externals \<Rightarrow>
     (('h, 'p, 'z) beaconCommitteeStateSlashingBase_scheme \<Rightarrow> 'k CommitteeChange \<Rightarrow> 'g go) \<Rightarrow>
     BeaconCommitteeStateEnvironment \<Rightarrow> ('h, 'p, 'z) beaconCommitteeStateSlashingBase_scheme \<Rightarrow>
     (('h, 'p, 'z) beaconCommitteeStateSlashingBase_scheme \<times> 'g \<times> 'k CommitteeChange \<times> string list list) go" where
  "UpdateCommitteeState_V2 cdc ext Hash env0 b0 =
     (let b = snapshot env0 b0 in
      go_bind (addData b env0) (\<lambda>env.
      go_bind (go_foldl (update_step_V2 cdc ext env)
        (b, NewCommitteeChange (ext_MaxShardNumber ext), NewReturnStakeIns) (BeaconInstructions env)) (\<lambda>(b', cc, ret).
      go_bind (Hash b' cc) (\<lambda>hashes. Inr (b', hashes, cc, incurred ret)))))"

section \<open>The dynamic engine (beacon_committee_state_v3.go)\<close>

definition assignToSyncPool ::
    "('k, 'h, 'p) codec \<Rightarrow> nat \<Rightarrow> string list \<Rightarrow> ('h, 'p, 'z) BeaconCommitteeStateV3_scheme \<times> 'k CommitteeChange \<Rightarrow>
     ('h, 'p, 'z) BeaconCommitteeStateV3_scheme \<times> 'k CommitteeChange" where
  "assignToSyncPool cdc shardID candidates = (\<lambda>(b, cc).
     (b\<lparr>syncPool := shard_extend (syncPool b) shardID candidates\<rparr>, AddSyncingPoolAdded cdc shardID candidates cc))"

text \<open>\<^verbatim>\<open>calculateNewSubstitutePosition\<close> (consensus_swap_rule_v3.go): the low 64 bits of the hash as an
  \<^verbatim>\<open>int\<close>, its absolute value with 64-bit wrap-around, modulo the length.\<close>

definition calculateNewSubstitutePosition :: "(string \<Rightarrow> nat list) \<Rightarrow> string \<Rightarrow> int \<Rightarrow> int \<Rightarrow> int" where
  "calculateNewSubstitutePosition HashB candidate rnd totalV =
     (let bytes = HashB (candidate @ go_itoa rnd);
          temp = foldl (\<lambda>acc v. acc * 256 + v) 0 bytes;
          data = (of_nat temp :: 64 word);
          d = (if sint data < 0 then sint (data * - 1) else sint data)
      in d - go_div d totalV * totalV)"

definition substitute_step ::
    "('k, 'h, 'p) codec \<Rightarrow> 'k externals \<Rightarrow> int \<Rightarrow> nat \<Rightarrow> ('h, 'p, 'z) BeaconCommitteeStateV3_scheme \<times> 'k CommitteeChange \<Rightarrow>
     string \<Rightarrow> (('h, 'p, 'z) BeaconCommitteeStateV3_scheme \<times> 'k CommitteeChange) go" where
  "substitute_step cdc ext rnd shardID = (\<lambda>(b, cc) candidate.
     let subs = map_slice (shardSubstitute b) shardID;
         randomOffset = (if length subs \<noteq> 0
           then calculateNewSubstitutePosition (ext_HashB ext) candidate rnd (int (length subs)) else 0) in
     go_bind (insertValueToSliceByIndex subs candidate randomOffset) (\<lambda>subs'.
       Inr (b\<lparr>shardSubstitute := (shardSubstitute b)(shardID \<mapsto> subs')\<rparr>,
            AddShardSubstituteAdded cdc shardID [candidate] cc)))"

definition assignRandomlyToSubstituteList ::
    "('k, 'h, 'p) codec \<Rightarrow> 'k externals \<Rightarrow> string list \<Rightarrow> int \<Rightarrow> nat \<Rightarrow>
     ('h, 'p, 'z) BeaconCommitteeStateV3_scheme \<times> 'k CommitteeChange \<Rightarrow>
     (('h, 'p, 'z) BeaconCommitteeStateV3_scheme \<times> 'k CommitteeChange) go" where
  "assignRandomlyToSubstituteList cdc ext candidates rnd shardID bc =
     go_foldl (substitute_step cdc ext rnd shardID) bc candidates"

definition assignBackToSubstituteList ::
    "('k, 'h, 'p) codec \<Rightarrow> string list \<Rightarrow> nat \<Rightarrow> ('h, 'p, 'z) BeaconCommitteeStateV3_scheme \<times> 'k CommitteeChange \<Rightarrow>
     ('h, 'p, 'z) BeaconCommitteeStateV3_scheme \<times> 'k CommitteeChange" where
  "assignBackToSubstituteList cdc candidates shardID bc =
     foldl (\<lambda>(b, cc) candidate.
       (b\<lparr>shardSubstitute := shard_append (shardSubstitute b) shardID candidate\<rparr>,
        AddShardSubstituteAdded cdc shardID [candidate] cc)) bc candidates"

type_synonym ('k, 'h, 'p, 'z) block_state3 =
  "('h, 'p, 'z) BeaconCommitteeStateV3_scheme \<times> 'k CommitteeChange \<times> ('k, 'h) ReturnStakeInstruction"

definition processAfterNormalSwap_V3 ::
    "('k, 'h, 'p) codec \<Rightarrow> 'k externals \<Rightarrow> BeaconCommitteeStateEnvironment \<Rightarrow> string list \<Rightarrow>
     ('k, 'h, 'p, 'z) block_state3 \<Rightarrow> ('k, 'h, 'p, 'z) block_state3 go" where
  "processAfterNormalSwap_V3 cdc ext env outPublicKeys bs =
     go_bind (classifyValidatorsByAutoStake cdc ext env outPublicKeys bs) (\<lambda>(candidates, b, cc, ret).
     case assignBackToSubstituteList cdc candidates (env_ShardID env) (b, cc) of (b', cc') \<Rightarrow> Inr (b', cc', ret))"

definition processAssignWithRandomInstruction_V3 ::
    "('k, 'h, 'p) codec \<Rightarrow> 'k externals \<Rightarrow> int \<Rightarrow> int list \<Rightarrow>
     ('h, 'p, 'z) BeaconCommitteeStateV3_scheme \<times> 'k CommitteeChange \<Rightarrow>
     (('h, 'p, 'z) BeaconCommitteeStateV3_scheme \<times> 'k CommitteeChange) go" where
  "processAssignWithRandomInstruction_V3 cdc ext rnd nv bc =
     go_bind (getCandidatesForRandomAssignment cdc bc) (\<lambda>(b, cc, candidates).
     go_bind (processRandomAssignment ext (assignRule b) candidates rnd nv) (\<lambda>assigned.
       Inr (foldl (\<lambda>bc shardID. assignToSyncPool cdc shardID (map_slice assigned shardID) bc) (b, cc)
         (filter (\<lambda>s. assigned s \<noteq> None) [0..<256]))))"

text \<open>The error of \<^verbatim>\<open>processSwap\<close> is overwritten by the next call: a mismatching instruction is processed as
  a swap without changes.\<close>

abbreviation (input) SLASH_TO_SYNC :: string where "SLASH_TO_SYNC \<equiv> ''slash2sync''"

definition processSwapShardInstruction_V3 ::
    "('k, 'h, 'p) codec \<Rightarrow> 'k externals \<Rightarrow> 'k SwapShardInstruction \<Rightarrow> BeaconCommitteeStateEnvironment \<Rightarrow>
     ('k, 'h, 'p, 'z) block_state3 \<Rightarrow> ('k, 'h, 'p, 'z) block_state3 go" where
  "processSwapShardInstruction_V3 cdc ext si env0 = (\<lambda>(b, cc, ret).
     let shardID = nat (ss_ChainID si mod 256); env = env0\<lparr>env_ShardID := shardID\<rparr> in
     go_bind (processSwap cdc si env (b, cc)) (\<lambda>(b1, cc1, _, normalSwapOut, slashing, _).
     go_bind (processAfterNormalSwap_V3 cdc ext env normalSwapOut (b1, cc1, ret)) (\<lambda>(b2, cc2, ret2).
       if map_byte (TriggeredFeature env) SLASH_TO_SYNC \<noteq> 0
       then (case assignToSyncPool cdc shardID slashing (b2, cc2) of (b3, cc3) \<Rightarrow>
               Inr (b3, AddSlashingCommittees shardID slashing cc3, ret2))
       else processSlashing cdc ext shardID env slashing (b2, cc2, ret2))))"

fun remove_sync :: "string set \<Rightarrow> nat \<Rightarrow> string list \<Rightarrow> string list \<times> string set" where
  "remove_sync finished n [] = ([], finished)"
| "remove_sync finished n (key # ks) =
     (if n = 0 then (key # ks, finished)
      else if key \<in> finished then remove_sync (finished - {key}) (n - 1) ks
      else (case remove_sync finished n ks of (r, f) \<Rightarrow> (key # r, f)))"

text \<open>\<^verbatim>\<open>removeValidatorsFromSyncPool\<close> returns an error beside the updated state when some keys were not
  in the pool.\<close>

definition removeValidatorsFromSyncPool ::
    "string list \<Rightarrow> nat \<Rightarrow> ('h, 'p, 'z) BeaconCommitteeStateV3_scheme \<Rightarrow>
     ('h, 'p, 'z) BeaconCommitteeStateV3_scheme \<times> string option" where
  "removeValidatorsFromSyncPool validators shardID b =
     (case remove_sync (set validators) (length validators) (map_slice (syncPool b) shardID) of (pool, missing) \<Rightarrow>
        (if map_slice (syncPool b) shardID = pool then b else b\<lparr>syncPool := (syncPool b)(shardID \<mapsto> pool)\<rparr>,
         if missing \<noteq> {} then Some ''These validators is not in sync pool'' else None))"

definition processFinishSyncInstruction ::
    "('k, 'h, 'p) codec \<Rightarrow> 'k externals \<Rightarrow> 'k FinishSyncInstruction \<Rightarrow> BeaconCommitteeStateEnvironment \<Rightarrow>
     ('h, 'p, 'z) BeaconCommitteeStateV3_scheme \<times> 'k CommitteeChange \<Rightarrow>
     (('h, 'p, 'z) BeaconCommitteeStateV3_scheme \<times> 'k CommitteeChange) go" where
  "processFinishSyncInstruction cdc ext fi env = (\<lambda>(b, cc).
     if fs_ChainID fi = -1 then Inr (b, cc)
     else let shardID = nat (fs_ChainID fi mod 256);
              b1 = fst (removeValidatorsFromSyncPool (fs_PublicKeys fi) shardID b) in
       assignRandomlyToSubstituteList cdc ext (fs_PublicKeys fi) (RandomNumber env) shardID
         (b1, AddFinishedSyncValidators shardID (fs_PublicKeys fi)
                (AddSyncingPoolRemoved cdc shardID (fs_PublicKeys fi) cc)))"

definition addDataToEnvironment ::
    "('h, 'p, 'z) BeaconCommitteeStateV3_scheme \<Rightarrow> BeaconCommitteeStateEnvironment \<Rightarrow>
     BeaconCommitteeStateEnvironment go" where
  "addDataToEnvironment b env =
     go_bind (slice_from (shardCommonPool b) (numberOfAssignedCandidates b)) (\<lambda>unassigned.
     go_bind (getAllSubstituteCommittees_slashing b) (\<lambda>allSub.
       Inr (env\<lparr>newUnassignedCommonPool := unassigned, newAllSubstituteCommittees := allSub,
                newAllRoles := unassigned @ allSub @ all_shards (syncPool b),
                env_shardCommittee := shardCommittee b, env_shardSubstitute := shardSubstitute b,
                numberOfValidator := map (\<lambda>i. int (length (map_slice (shardCommittee b) (i mod 256))) +
                  int (length (map_slice (shardSubstitute b) (i mod 256))) +
                  int (length (map_slice (syncPool b) (i mod 256)))) [0..<ActiveShards env]\<rparr>)))"

definition getAllCandidateSubstituteCommittee_V3 :: "('h, 'p, 'z) BeaconCommitteeStateV3_scheme \<Rightarrow> string list" where
  "getAllCandidateSubstituteCommittee_V3 b =
     getAllCandidateSubstituteCommittee_slashing b @ all_shards (syncPool b)"

definition update_step_V3 ::
    "('k, 'h, 'p) codec \<Rightarrow> 'k externals \<Rightarrow> BeaconCommitteeStateEnvironment \<Rightarrow> ('k, 'h, 'p, 'z) block_state3 \<Rightarrow> string list \<Rightarrow>
     ('k, 'h, 'p, 'z) block_state3 go" where
  "update_step_V3 cdc ext env bs inst =
     (case inst of [] \<Rightarrow> Inr bs
      | action # _ \<Rightarrow>
        if action = STAKE_ACTION
        then go_bind (ValidateAndImportStakeInstructionFromString cdc inst) (\<lambda>si.
               with_ret (processStakeInstruction ext si) bs)
        else if action = RANDOM_ACTION
        then go_bind (ValidateAndImportRandomInstructionFromString inst) (\<lambda>ri.
               with_ret (processAssignWithRandomInstruction_V3 cdc ext (randomNumber ri) (numberOfValidator env)) bs)
        else if action = STOP_AUTO_STAKE_ACTION then stop_handler cdc env inst bs
        else if action = SWAP_SHARD_ACTION
        then go_bind (ValidateAndImportSwapShardInstructionFromString cdc inst) (\<lambda>si.
               processSwapShardInstruction_V3 cdc ext si env bs)
        else if action = FINISH_SYNC_ACTION
        then go_bind (ValidateAndImportFinishSyncInstructionFromString cdc inst) (\<lambda>fi.
               with_ret (processFinishSyncInstruction cdc ext fi env) bs)
        else if action = UNSTAKE_ACTION
        then go_bind (ValidateAndImportUnstakeInstructionFromString cdc inst) (\<lambda>ui.
               processUnstakeInstruction cdc ext env ui bs)
        else Inr bs)"

definition UpdateCommitteeState_V3 ::
    "('k, 'h, 'p) codec \<Rightarrow> 'k externals \<Rightarrow>
     (('h, 'p, 'z) BeaconCommitteeStateV3_scheme \<Rightarrow> 'k CommitteeChange \<Rightarrow> 'g go) \<Rightarrow>
     BeaconCommitteeStateEnvironment \<Rightarrow> ('h, 'p, 'z) BeaconCommitteeStateV3_scheme \<Rightarrow>
     (('h, 'p, 'z) BeaconCommitteeStateV3_scheme \<times> 'g \<times> 'k CommitteeChange \<times> string list list) go" where
  "UpdateCommitteeState_V3 cdc ext Hash env0 b0 =
     (let b = snapshot env0 b0 in
      go_bind (addDataToEnvironment b env0) (\<lambda>env.
      go_bind (go_foldl (update_step_V3 cdc ext env)
        (b, NewCommitteeChange (ext_MaxShardNumber ext), NewReturnStakeIns) (BeaconInstructions env)) (\<lambda>(b', cc, ret).
      go_bind (Hash b' cc) (\<lambda>hashes. Inr (b', hashes, cc, incurred ret)))))"

end
