(* ===== verification/Beacon_Swap.thy ===== *)
theory Beacon_Swap
  imports Inc_Prelude
begin

text \<open>
  The swap between beacon substitutes and the beacon committee: \<^verbatim>\<open>beacon_swap_v1\<close> of
  \<^verbatim>\<open>src/blockchain/committeestate/beacon_swap_v1.go\<close>. Substitutes first fill free slots, in the order of their scores, then
  replace the committee members with the lowest scores; less than a third of the committee may be new.
  \<^verbatim>\<open>sort.Slice\<close> is not stable: it is a parameter of which only a sorted permutation is required. The
  two loops delete from the slice they run over; in the model \<open>kept\<close> is the part of the slice before the index.
\<close>

section \<open>Sorting\<close>

type_synonym 'a sort_slice = "('a \<Rightarrow> 'a \<Rightarrow> bool) \<Rightarrow> 'a list \<Rightarrow> 'a list"

definition strict_weak :: "('a \<Rightarrow> 'a \<Rightarrow> bool) \<Rightarrow> bool" where
  "strict_weak lt \<longleftrightarrow> (\<forall>x y. lt x y \<longrightarrow> \<not> lt y x) \<and> (\<forall>x y z. lt x z \<longrightarrow> lt x y \<or> lt y z)"

text \<open>The documented contract of \<^verbatim>\<open>sort.Slice\<close>.\<close>

definition sorts :: "'a sort_slice \<Rightarrow> bool" where
  "sorts srt \<longleftrightarrow> (\<forall>lt xs. mset (srt lt xs) = mset xs \<and>
     (strict_weak lt \<longrightarrow> sorted_wrt (\<lambda>x y. \<not> lt y x) (srt lt xs)))"

text \<open>An insertion sort meets it.\<close>

fun insert_by :: "('a \<Rightarrow> 'a \<Rightarrow> bool) \<Rightarrow> 'a \<Rightarrow> 'a list \<Rightarrow> 'a list" where
  "insert_by lt x [] = [x]"
| "insert_by lt x (y # ys) = (if lt y x then y # insert_by lt x ys else x # y # ys)"

definition sort_by :: "'a sort_slice" where
  "sort_by lt xs = foldr (insert_by lt) xs []"

lemma mset_insert_by: "mset (insert_by lt x ys) = add_mset x (mset ys)"
  by (induction ys) auto

lemma set_insert_by: "set (insert_by lt x ys) = insert x (set ys)"
  by (metis mset_insert_by set_mset_add_mset_insert set_mset_mset)

lemma sorted_insert_by:
  assumes "strict_weak lt" and "sorted_wrt (\<lambda>x y. \<not> lt y x) ys"
  shows "sorted_wrt (\<lambda>x y. \<not> lt y x) (insert_by lt x ys)"
  using assms(2)
proof (induction ys)
  case (Cons y ys)
  then show ?case using assms(1) unfolding strict_weak_def by (auto simp: set_insert_by) blast+
qed simp

lemma sort_by_sorts: "sorts sort_by"
proof -
  have "mset (sort_by lt xs) = mset xs" for lt :: "'a \<Rightarrow> 'a \<Rightarrow> bool" and xs
    by (induction xs) (simp_all add: sort_by_def mset_insert_by)
  moreover have "strict_weak lt \<Longrightarrow> sorted_wrt (\<lambda>x y. \<not> lt y x) (sort_by lt xs)" for lt :: "'a \<Rightarrow> 'a \<Rightarrow> bool" and xs
    by (induction xs) (simp_all add: sort_by_def sorted_insert_by)
  ultimately show ?thesis by (simp add: sorts_def)
qed

lemma sorts_mset: "sorts srt \<Longrightarrow> mset (srt lt xs) = mset xs"
  by (simp add: sorts_def)

lemma sorts_set: "sorts srt \<Longrightarrow> set (srt lt xs) = set xs"
  by (metis sorts_mset set_mset_mset)

lemma sorts_length: "sorts srt \<Longrightarrow> length (srt lt xs) = length xs"
  by (metis sorts_mset size_mset)

lemma sorts_sorted: "sorts srt \<Longrightarrow> strict_weak lt \<Longrightarrow> sorted_wrt (\<lambda>x y. \<not> lt y x) (srt lt xs)"
  by (simp add: sorts_def)

section \<open>The swap\<close>

record 'k CandidateInfoV1 =
  cand_cpk :: 'k
  cand_cpkStr :: string
  cand_score :: nat
  currentRole :: string

definition score_asc :: "'k CandidateInfoV1 \<Rightarrow> 'k CandidateInfoV1 \<Rightarrow> bool" where
  "score_asc x y \<longleftrightarrow> cand_score x < cand_score y"

definition score_desc :: "'k CandidateInfoV1 \<Rightarrow> 'k CandidateInfoV1 \<Rightarrow> bool" where
  "score_desc x y \<longleftrightarrow> cand_score x > cand_score y"

definition is_pending :: "'k CandidateInfoV1 \<Rightarrow> bool" where
  "is_pending c \<longleftrightarrow> currentRole c = ''pending''"

definition swapInVotingPower :: "int \<Rightarrow> 'k CandidateInfoV1 list \<Rightarrow> int \<times> int" where
  "swapInVotingPower numberOfFixNode candidates =
     (int (length (filter is_pending candidates)), numberOfFixNode + int (length candidates))"

definition below_third :: "int \<Rightarrow> 'k CandidateInfoV1 list \<Rightarrow> bool" where
  "below_third numberOfFixNode candidates =
     (case swapInVotingPower numberOfFixNode candidates of (swapIn, tot) \<Rightarrow> swapIn * 3 < tot)"

fun fill_loop :: "int \<Rightarrow> int \<Rightarrow> 'k CandidateInfoV1 list \<Rightarrow> 'k CandidateInfoV1 list \<Rightarrow> 'k CandidateInfoV1 list \<Rightarrow>
    'k CandidateInfoV1 list \<times> 'k CandidateInfoV1 list" where
  "fill_loop fx slot committee kept [] = (kept, committee)"
| "fill_loop fx slot committee kept (p # rest) =
     (if int (length committee) < slot \<and> below_third fx (committee @ [p])
      then fill_loop fx slot (committee @ [p]) kept rest
      else fill_loop fx slot committee (kept @ [p]) rest)"

text \<open>A member swapped out goes to the end of the slice, where the loop stops at it.\<close>

function replace_loop :: "int \<Rightarrow> 'k CandidateInfoV1 list \<Rightarrow> 'k CandidateInfoV1 list \<Rightarrow> 'k CandidateInfoV1 list \<Rightarrow>
    'k CandidateInfoV1 list \<times> 'k CandidateInfoV1 list" where
  "replace_loop fx committee kept [] = (kept, committee)"
| "replace_loop fx [] kept (p # rest) = (kept @ p # rest, [])"
| "replace_loop fx (c # cs) kept (p # rest) =
     (if currentRole c \<noteq> ''committee'' \<or> currentRole p \<noteq> ''pending'' \<or> cand_score c \<ge> cand_score p
      then (kept @ p # rest, c # cs)
      else if below_third fx (cs @ [p]) then replace_loop fx (cs @ [p]) kept (rest @ [c])
      else replace_loop fx (c # cs) (kept @ [p]) rest)"
  by pat_completeness auto
termination
  by (relation "measure (\<lambda>(fx, committee, kept, rest). length (filter is_pending rest))") (auto simp: is_pending_def)

definition beacon_swap_v1 :: "'k CandidateInfoV1 sort_slice \<Rightarrow> 'k CandidateInfoV1 list \<Rightarrow> 'k CandidateInfoV1 list \<Rightarrow> int \<Rightarrow> int \<Rightarrow>
    'k CandidateInfoV1 list \<times> 'k CandidateInfoV1 list" where
  "beacon_swap_v1 srt pendingList committeeList numberOfFixNode committeeSlot =
     (case fill_loop numberOfFixNode committeeSlot (srt score_asc committeeList) [] (srt score_desc pendingList) of
        (pending1, committee1) \<Rightarrow>
          (case replace_loop numberOfFixNode committee1 [] pending1 of
             (pending2, committee2) \<Rightarrow> (srt score_desc pending2, srt score_desc committee2)))"

section \<open>What the loops keep\<close>

lemma strict_weak_score: "strict_weak score_asc" "strict_weak score_desc"
  by (auto simp: strict_weak_def score_asc_def score_desc_def)

lemma fill_loop_mset:
  "fill_loop fx slot committee kept rest = (p', c') \<Longrightarrow> mset p' + mset c' = mset committee + mset kept + mset rest"
  by (induction fx slot committee kept rest rule: fill_loop.induct) (auto split: if_splits)

lemma replace_loop_mset:
  "replace_loop fx committee kept rest = (p', c') \<Longrightarrow> mset p' + mset c' = mset committee + mset kept + mset rest"
  by (induction fx committee kept rest rule: replace_loop.induct) (auto split: if_splits)

lemma replace_loop_length:
  "replace_loop fx committee kept rest = (p', c') \<Longrightarrow> length c' = length committee"
  by (induction fx committee kept rest rule: replace_loop.induct) (auto split: if_splits)

lemma fill_loop_length:
  "fill_loop fx slot committee kept rest = (p', c') \<Longrightarrow>
     int (length c') \<le> max slot (int (length committee)) \<and> length committee \<le> length c'"
  by (induction fx slot committee kept rest rule: fill_loop.induct) (auto split: if_splits)

text \<open>Who is new is below a third, or nobody is.\<close>

definition third_ok :: "int \<Rightarrow> 'k CandidateInfoV1 list \<Rightarrow> bool" where
  "third_ok fx committee \<longleftrightarrow> filter is_pending committee = [] \<or> below_third fx committee"

lemma fill_loop_third:
  "fill_loop fx slot committee kept rest = (p', c') \<Longrightarrow> third_ok fx committee \<Longrightarrow> third_ok fx c'"
  by (induction fx slot committee kept rest rule: fill_loop.induct) (auto simp: third_ok_def split: if_splits)

lemma replace_loop_third:
  "replace_loop fx committee kept rest = (p', c') \<Longrightarrow> third_ok fx committee \<Longrightarrow> third_ok fx c'"
  by (induction fx committee kept rest rule: replace_loop.induct) (auto simp: third_ok_def split: if_splits)

section \<open>The best candidates get in\<close>

text \<open>One more new member instead of an old one would be a third; a free slot can not be filled.\<close>

definition limit_reached :: "int \<Rightarrow> 'k CandidateInfoV1 list \<Rightarrow> bool" where
  "limit_reached fx committee \<longleftrightarrow> fx + int (length committee) \<le> (int (length (filter is_pending committee)) + 1) * 3"

definition no_free_slot :: "int \<Rightarrow> int \<Rightarrow> 'k CandidateInfoV1 list \<Rightarrow> bool" where
  "no_free_slot fx slot committee \<longleftrightarrow> slot \<le> int (length committee) \<or>
     fx + int (length committee) + 1 \<le> (int (length (filter is_pending committee)) + 1) * 3"

lemma below_third_iff: "below_third fx cs \<longleftrightarrow> int (length (filter is_pending cs)) * 3 < fx + int (length cs)"
  by (simp add: below_third_def swapInVotingPower_def)

lemma fill_loop_stuck:
  "fill_loop fx slot committee kept rest = (p', c') \<Longrightarrow> (kept \<noteq> [] \<longrightarrow> no_free_slot fx slot committee) \<Longrightarrow>
   \<forall>p \<in> set rest. is_pending p \<Longrightarrow> p' \<noteq> [] \<longrightarrow> no_free_slot fx slot c'"
proof (induction fx slot committee kept rest rule: fill_loop.induct)
  case (2 fx slot committee kept p rest)
  show ?case
  proof (cases "int (length committee) < slot \<and> below_third fx (committee @ [p])")
    case True
    then have "kept = []" using 2(4,5) by (auto simp: no_free_slot_def below_third_iff)
    then show ?thesis using 2 True by simp
  next
    case False
    then have "no_free_slot fx slot committee" using 2(5) by (auto simp: no_free_slot_def below_third_iff)
    then show ?thesis using 2 False by simp
  qed
qed simp

lemma fill_loop_shape:
  "fill_loop fx slot committee kept rest = (p', c') \<Longrightarrow> \<forall>p \<in> set (kept @ rest). is_pending p \<Longrightarrow> sorted_wrt R (kept @ rest) \<Longrightarrow>
   sorted_wrt R p' \<and> (\<forall>p \<in> set p'. is_pending p) \<and> (\<exists>ins. c' = committee @ ins \<and> (\<forall>p \<in> set ins. is_pending p))"
proof (induction fx slot committee kept rest rule: fill_loop.induct)
  case (2 fx slot committee kept p rest)
  show ?case
  proof (cases "int (length committee) < slot \<and> below_third fx (committee @ [p])")
    case True
    have "\<exists>ins. c' = (committee @ [p]) @ ins \<and> (\<forall>p \<in> set ins. is_pending p)" "sorted_wrt R p' \<and> (\<forall>p \<in> set p'. is_pending p)"
      using 2(1) [OF True] 2(3-) True by (auto simp: sorted_wrt_append)
    then show ?thesis using 2(4) by fastforce
  next
    case False
    then have "fill_loop fx slot committee (kept @ [p]) rest = (p', c')" using 2(3) by (auto split: if_splits)
    then show ?thesis using 2(2) [OF False] 2(4-) by simp
  qed
qed simp

lemma replace_loop_stuck:
  "replace_loop fx committee kept rest = (p', c') \<Longrightarrow> (kept @ rest \<noteq> [] \<longrightarrow> no_free_slot fx slot committee) \<Longrightarrow>
   p' \<noteq> [] \<longrightarrow> no_free_slot fx slot c'"
proof (induction fx committee kept rest rule: replace_loop.induct)
  case (3 fx c cs kept p rest)
  have "no_free_slot fx slot (cs @ [p])" if "currentRole c = ''committee''" "currentRole p = ''pending''"
    using 3(4) that by (auto simp: no_free_slot_def is_pending_def)
  then show ?case using 3 by (auto split: if_splits)
qed auto

definition swap_inv :: "int \<Rightarrow> 'k CandidateInfoV1 list \<Rightarrow> 'k CandidateInfoV1 list \<Rightarrow> 'k CandidateInfoV1 list \<Rightarrow> bool" where
  "swap_inv fx committee kept rest \<longleftrightarrow> (\<exists>olds ins ps outs. committee = olds @ ins \<and> rest = ps @ outs \<and>
     (\<forall>c \<in> set (olds @ outs). currentRole c = ''committee'') \<and> (\<forall>p \<in> set (ins @ ps @ kept). is_pending p) \<and>
     sorted_wrt (\<lambda>x y. cand_score x \<le> cand_score y) olds \<and> sorted_wrt (\<lambda>x y. cand_score x \<ge> cand_score y) ps \<and>
     (kept \<noteq> [] \<longrightarrow> limit_reached fx committee))"

definition swap_best :: "int \<Rightarrow> 'k CandidateInfoV1 list \<Rightarrow> 'k CandidateInfoV1 list \<Rightarrow> bool" where
  "swap_best fx pending committee \<longleftrightarrow> limit_reached fx committee \<or>
     (\<forall>c \<in> set committee. \<forall>p \<in> set pending. currentRole c = ''committee'' \<longrightarrow> is_pending p \<longrightarrow> cand_score p \<le> cand_score c)"

lemma not_pending_committee: "currentRole c = ''committee'' \<Longrightarrow> \<not> is_pending c"
  by (simp add: is_pending_def)

lemma swap_inv_step:
  assumes "swap_inv fx (c # cs) kept (p # rest)" and "currentRole c = ''committee''" and "is_pending p"
  shows "below_third fx (cs @ [p]) \<Longrightarrow> swap_inv fx (cs @ [p]) kept (rest @ [c])"
    and "\<not> below_third fx (cs @ [p]) \<Longrightarrow> swap_inv fx (c # cs) (kept @ [p]) rest"
proof -
  obtain olds ins ps outs where inv: "c # cs = olds @ ins" "p # rest = ps @ outs"
    "\<forall>c \<in> set (olds @ outs). currentRole c = ''committee''" "\<forall>p \<in> set (ins @ ps @ kept). is_pending p"
    "sorted_wrt (\<lambda>x y. cand_score x \<le> cand_score y) olds" "sorted_wrt (\<lambda>x y. cand_score x \<ge> cand_score y) ps"
    "kept \<noteq> [] \<longrightarrow> limit_reached fx (c # cs)" using assms(1) unfolding swap_inv_def by blast
  have "olds \<noteq> []" using inv(1,4) assms(2) by (cases olds) (auto simp: is_pending_def append_eq_Cons_conv)
  then obtain olds' where o: "olds = c # olds'" "cs = olds' @ ins" using inv(1) by (cases olds) auto
  have "ps \<noteq> []" using inv(2,3) assms(3) by (cases ps) (auto simp: is_pending_def append_eq_Cons_conv)
  then obtain ps' where q: "ps = p # ps'" "rest = ps' @ outs" using inv(2) by (cases ps) auto
  have lim: "limit_reached fx (c # cs) \<longleftrightarrow> \<not> below_third fx (cs @ [p])"
    using assms(2,3) by (auto simp: limit_reached_def below_third_iff is_pending_def)
  show "swap_inv fx (cs @ [p]) kept (rest @ [c])" if b: "below_third fx (cs @ [p])"
    unfolding swap_inv_def using inv(3-7) o q lim b
    by (intro exI [of _ olds'] exI [of _ "ins @ [p]"] exI [of _ ps'] exI [of _ "outs @ [c]"]) simp
  show "swap_inv fx (c # cs) (kept @ [p]) rest" if b: "\<not> below_third fx (cs @ [p])"
    unfolding swap_inv_def using inv(3-6) o q lim b
    by (intro exI [of _ olds] exI [of _ ins] exI [of _ ps'] exI [of _ outs]) simp
qed

lemma swap_inv_stop:
  assumes "swap_inv fx (c # cs) kept (p # rest)"
    and "currentRole c \<noteq> ''committee'' \<or> currentRole p \<noteq> ''pending'' \<or> cand_score c \<ge> cand_score p"
  shows "swap_best fx (kept @ p # rest) (c # cs)"
proof -
  obtain olds ins ps outs where inv: "c # cs = olds @ ins" "p # rest = ps @ outs"
    "\<forall>c \<in> set (olds @ outs). currentRole c = ''committee''" "\<forall>p \<in> set (ins @ ps @ kept). is_pending p"
    "sorted_wrt (\<lambda>x y. cand_score x \<le> cand_score y) olds" "sorted_wrt (\<lambda>x y. cand_score x \<ge> cand_score y) ps"
    "kept \<noteq> [] \<longrightarrow> limit_reached fx (c # cs)" using assms(1) unfolding swap_inv_def by blast
  have "cand_score q \<le> cand_score d"
    if "kept = []" "d \<in> set (c # cs)" "q \<in> set (p # rest)" "currentRole d = ''committee''" "is_pending q" for d q
  proof -
    have d: "d \<in> set olds" and q: "q \<in> set ps" using that inv not_pending_committee by (auto simp: is_pending_def)
    then obtain olds' ps' where oc: "olds = c # olds'" "ps = p # ps'" using inv(1,2) by (cases olds; cases ps) auto
    then have "cand_score p \<le> cand_score c" using inv(3,4) assms(2) by (auto simp: is_pending_def)
    moreover have "cand_score c \<le> cand_score d" "cand_score q \<le> cand_score p" using d q oc inv(5,6) by auto
    ultimately show ?thesis by simp
  qed
  then show ?thesis using inv(7) unfolding swap_best_def by fastforce
qed

lemma replace_loop_best:
  "replace_loop fx committee kept rest = (p', c') \<Longrightarrow> swap_inv fx committee kept rest \<Longrightarrow> swap_best fx p' c'"
proof (induction fx committee kept rest rule: replace_loop.induct)
  case (1 fx committee kept)
  then show ?case by (cases "kept = []") (auto simp: swap_inv_def swap_best_def)
next
  case (2 fx kept p rest)
  then show ?case by (auto simp: swap_best_def)
next
  case (3 fx c cs kept p rest)
  show ?case
  proof (cases "currentRole c \<noteq> ''committee'' \<or> currentRole p \<noteq> ''pending'' \<or> cand_score c \<ge> cand_score p")
    case True
    then show ?thesis using 3(3) swap_inv_stop [OF 3(4) True] by auto
  next
    case False
    then have "swap_inv fx (cs @ [p]) kept (rest @ [c])" if "below_third fx (cs @ [p])"
      using swap_inv_step(1) [OF 3(4)] that by (auto simp: is_pending_def)
    moreover have "swap_inv fx (c # cs) (kept @ [p]) rest" if "\<not> below_third fx (cs @ [p])"
      using False swap_inv_step(2) [OF 3(4)] that by (auto simp: is_pending_def)
    ultimately show ?thesis using 3(1,2) [OF False] 3(3) False by (auto split: if_splits)
  qed
qed

lemma sorts_filter_length: "sorts srt \<Longrightarrow> length (filter P (srt lt xs)) = length (filter P xs)"
  by (metis sorts_mset mset_filter size_mset)

lemma sorts_limits:
  assumes "sorts srt"
  shows "limit_reached fx (srt lt cs) = limit_reached fx cs" and "no_free_slot fx slot (srt lt cs) = no_free_slot fx slot cs"
    and "third_ok fx (srt lt cs) = third_ok fx cs" and "swap_best fx (srt lt' ps) (srt lt cs) = swap_best fx ps cs"
proof -
  note eqs = sorts_filter_length [OF assms] sorts_length [OF assms] sorts_set [OF assms]
  show lim: "limit_reached fx (srt lt cs) = limit_reached fx cs" by (simp add: limit_reached_def eqs)
  show "no_free_slot fx slot (srt lt cs) = no_free_slot fx slot cs" by (simp add: no_free_slot_def eqs)
  have "filter is_pending (srt lt cs) = [] \<longleftrightarrow> filter is_pending cs = []" by (metis eqs(1) length_0_conv)
  then show "third_ok fx (srt lt cs) = third_ok fx cs" by (simp add: third_ok_def below_third_iff eqs)
  show "swap_best fx (srt lt' ps) (srt lt cs) = swap_best fx ps cs" by (simp add: swap_best_def lim eqs)
qed

lemma beacon_swap_mset:
  assumes "sorts srt" and "beacon_swap_v1 srt pending committee fx slot = (p', c')"
  shows "mset p' + mset c' = mset pending + mset committee"
proof -
  obtain p1 c1 where f: "fill_loop fx slot (srt score_asc committee) [] (srt score_desc pending) = (p1, c1)" by fastforce
  obtain p2 c2 where r: "replace_loop fx c1 [] p1 = (p2, c2)" by fastforce
  show ?thesis using assms(2) f r fill_loop_mset [OF f] replace_loop_mset [OF r]
    by (auto simp: beacon_swap_v1_def sorts_mset [OF assms(1)] add.commute)
qed

text \<open>C26. The beacon swap with committee members of role committee and substitutes of role pending: nobody is lost or duplicated, the
  committee does not shrink and does not exceed its slots, less than a third of it is new, a slot stays free only when
  filling it would break that bound, and unless the bound stops it no substitute that stays out has a
  higher score than an old member that stays in; both lists are returned by falling score.\<close>

theorem beacon_swap_correct:
  assumes "sorts srt" and "\<forall>p \<in> set pending. is_pending p" and "\<forall>c \<in> set committee. currentRole c = ''committee''"
    and "beacon_swap_v1 srt pending committee fx slot = (p', c')"
  shows "mset p' + mset c' = mset pending + mset committee \<and> length committee \<le> length c' \<and>
    int (length c') \<le> max slot (int (length committee)) \<and> third_ok fx c' \<and> swap_best fx p' c' \<and>
    (p' \<noteq> [] \<longrightarrow> no_free_slot fx slot c') \<and>
    sorted_wrt (\<lambda>x y. cand_score x \<ge> cand_score y) p' \<and> sorted_wrt (\<lambda>x y. cand_score x \<ge> cand_score y) c'"
proof -
  let ?C = "srt score_asc committee"
  let ?P = "srt score_desc pending"
  obtain p1 c1 where f: "fill_loop fx slot ?C [] ?P = (p1, c1)" by fastforce
  obtain p2 c2 where r: "replace_loop fx c1 [] p1 = (p2, c2)" by fastforce
  have res: "p' = srt score_desc p2" "c' = srt score_desc c2" using assms(4) f r by (auto simp: beacon_swap_v1_def)
  note st = sorts_set [OF assms(1)] and srtd = sorts_sorted [OF assms(1)]
  have P: "\<forall>p \<in> set ?P. is_pending p" and C: "\<forall>c \<in> set ?C. currentRole c = ''committee''" using assms(2,3) st by auto
  have desc: "sorted_wrt (\<lambda>x y. cand_score x \<ge> cand_score y) (srt score_desc xs)" for xs
    using srtd [OF strict_weak_score(2), of xs] by (simp add: score_desc_def not_less)
  have asc: "sorted_wrt (\<lambda>x y. cand_score x \<le> cand_score y) ?C"
    using srtd [OF strict_weak_score(1), of committee] by (simp add: score_asc_def not_less)
  obtain ins where f2: "sorted_wrt (\<lambda>x y. cand_score x \<ge> cand_score y) p1" "\<forall>p \<in> set p1. is_pending p" "c1 = ?C @ ins" "\<forall>p \<in> set ins. is_pending p"
    using fill_loop_shape [OF f, of "\<lambda>x y. cand_score x \<ge> cand_score y"] P desc by auto
  have "swap_inv fx c1 [] p1" unfolding swap_inv_def
    using f2 C asc by (intro exI [of _ ?C] exI [of _ ins] exI [of _ p1] exI [of _ "[]"]) auto
  then have best: "swap_best fx p2 c2" by (rule replace_loop_best [OF r])
  have "third_ok fx ?C" using C not_pending_committee by (auto simp: third_ok_def filter_empty_conv)
  then have third: "third_ok fx c2" using fill_loop_third [OF f] replace_loop_third [OF r] by blast
  have stuck: "p2 \<noteq> [] \<longrightarrow> no_free_slot fx slot c2"
    using replace_loop_stuck [OF r, of slot] fill_loop_stuck [OF f] P by auto
  have ms: "mset p' + mset c' = mset pending + mset committee" by (rule beacon_swap_mset [OF assms(1,4)])
  have len: "length committee \<le> length c2" "int (length c2) \<le> max slot (int (length committee))"
    using fill_loop_length [OF f] replace_loop_length [OF r] sorts_length [OF assms(1)] by auto
  have "p' \<noteq> [] \<longleftrightarrow> p2 \<noteq> []" using res(1) sorts_length [OF assms(1), of score_desc p2] by auto
  then show ?thesis
    using best third stuck ms len desc sorts_limits [OF assms(1)] sorts_length [OF assms(1)] by (simp add: res)
qed

definition toy_cand :: "nat \<Rightarrow> string \<Rightarrow> nat CandidateInfoV1" where
  "toy_cand n r = \<lparr>cand_cpk = n, cand_cpkStr = [], cand_score = n, currentRole = r\<rparr>"

theorem beacon_swap_correct_witness:
  "beacon_swap_v1 sort_by [toy_cand 3 ''pending'', toy_cand 9 ''pending''] [toy_cand 5 ''committee'', toy_cand 2 ''committee''] 3 2 =
     ([toy_cand 3 ''pending'', toy_cand 2 ''committee''], [toy_cand 9 ''pending'', toy_cand 5 ''committee'']) \<and>
   third_ok 3 [toy_cand 9 ''pending'', toy_cand 5 ''committee''] \<and>
   swap_best 3 [toy_cand 3 ''pending'', toy_cand 2 ''committee''] [toy_cand 9 ''pending'', toy_cand 5 ''committee'']"
proof -
  have run: "beacon_swap_v1 sort_by [toy_cand 3 ''pending'', toy_cand 9 ''pending''] [toy_cand 5 ''committee'', toy_cand 2 ''committee''] 3 2 =
     ([toy_cand 3 ''pending'', toy_cand 2 ''committee''], [toy_cand 9 ''pending'', toy_cand 5 ''committee''])"
    by code_simp
  then show ?thesis using beacon_swap_correct [OF sort_by_sorts _ _ run] by (simp add: toy_cand_def is_pending_def)
qed

end
