(* ===== verification/Beacon_Instructions.thy ===== *)
theory Beacon_Instructions
  imports Instruction_Codec
begin

text \<open>
  The instructions of beacon staking and delegation in \<^verbatim>\<open>src/instruction\<close>: beacon stake, share price,
  mint delegation reward and request delegation reward, and the constructor of the return-beacon-stake
  instruction. Amounts and prices are parsed by \<^verbatim>\<open>math.ParseUint64\<close> of go-ethereum, a parameter \<open>parseU\<close> that
  returns a number and whether it parsed, of which only the parsing of printed 64-bit numbers is used.
\<close>

definition parses_printed :: "(string \<Rightarrow> nat \<times> bool) \<Rightarrow> bool" where
  "parses_printed parseU \<longleftrightarrow> (\<forall>n < 2 ^ 64. parseU (format_nat n) = (n, True))"

abbreviation (input) SHARE_PRICE :: string where "SHARE_PRICE \<equiv> ''shareprice''"

section \<open>Beacon stake instruction (instruction_beaconstake.go)\<close>

record ('k, 'h, 'p) BeaconStakeInstruction =
  bi_PublicKeys :: "string list"
  bi_PublicKeyStructs :: "'k list"
  bi_Chain :: string
  bi_TxStakes :: "string list"
  bi_TxStakeHashes :: "'h list"
  bi_RewardReceivers :: "string list"
  bi_RewardReceiverStructs :: "'p list"
  bi_AutoStakingFlag :: "bool list"
  bi_StakingAmount :: "nat list"
  bi_FunderAddress :: "string list"
  bi_FunderAddressStructs :: "'p list"

definition BeaconStake_ToString :: "('k, 'h, 'p) BeaconStakeInstruction \<Rightarrow> string list" where
  "BeaconStake_ToString s =
     [BEACON_STAKE_ACTION, join_list (bi_PublicKeys s), bi_Chain s, join_list (bi_TxStakes s),
      join_list (bi_RewardReceivers s), join_list (map flag_str (bi_AutoStakingFlag s)),
      join_list (map format_nat (bi_StakingAmount s)), join_list (bi_FunderAddress s)]"

text \<open>The chain field is read before the length is checked; amounts and funders are not checked.\<close>

definition ValidateBeaconStakeInstructionSanity :: "('k, 'h, 'p) codec \<Rightarrow> string list \<Rightarrow> unit go" where
  "ValidateBeaconStakeInstructionSanity cdc inst =
     go_bind (go_index inst 2) (\<lambda>chain.
     if chain \<noteq> BEACON_INST then Inl (GoErr ''invalid chain id'')
     else if length inst \<noteq> 8 then Inl (GoErr ''invalid length'')
     else if inst ! 0 \<noteq> BEACON_STAKE_ACTION then Inl (GoErr ''invalid stake action'')
     else (let publicKeys = split_list (inst ! 1); txStakes = split_list (inst ! 3);
               rewardReceivers = split_list (inst ! 4); autoStakes = split_list (inst ! 5) in
       if \<not> go_ok (hashes_of cdc txStakes) then Inl (GoErr ''invalid tx stake'')
       else if \<not> go_ok (receivers_of cdc rewardReceivers) then Inl (GoErr ''invalid privacy payment address'')
       else if \<not> go_ok (CommitteeBase58KeyListToStruct cdc publicKeys) then Inl (GoErr ''invalid public key type'')
       else if length publicKeys \<noteq> length txStakes then Inl (GoErr ''invalid public key & tx stake length'')
       else if length rewardReceivers \<noteq> length txStakes
         then Inl (GoErr ''invalid reward receivers & tx stake length'')
       else if length rewardReceivers \<noteq> length autoStakes
         then Inl (GoErr ''invalid reward receivers & tx auto staking length'')
       else Inr ()))"

text \<open>The import ignores every decoding error: a key that does not decode leaves a nil pointer, a hash or an address a nil
  result that is dereferenced, an amount that does not parse is the number beside the error.\<close>

definition ImportBeaconStakeInstructionFromString ::
    "('k, 'h, 'p) codec \<Rightarrow> (string \<Rightarrow> nat \<times> bool) \<Rightarrow> string list \<Rightarrow> ('k, 'h, 'p) BeaconStakeInstruction go" where
  "ImportBeaconStakeInstructionFromString cdc parseU inst =
     go_bind (go_index inst 1) (\<lambda>i1.
     go_bind (or_panic (CommitteeBase58KeyListToStruct cdc (split_list i1))) (\<lambda>keySt.
     go_bind (go_index inst 3) (\<lambda>i3.
     go_bind (or_panic (hashes_of cdc (split_list i3))) (\<lambda>txSt.
     go_bind (go_index inst 4) (\<lambda>i4.
     go_bind (or_panic (receivers_of cdc (split_list i4))) (\<lambda>recSt.
     go_bind (go_index inst 5) (\<lambda>i5.
     go_bind (go_index inst 2) (\<lambda>i2.
     go_bind (go_index inst 6) (\<lambda>i6.
     go_bind (go_index inst 7) (\<lambda>i7.
     go_bind (or_panic (receivers_of cdc (split_list i7))) (\<lambda>funSt.
       Inr \<lparr>bi_PublicKeys = split_list i1, bi_PublicKeyStructs = keySt, bi_Chain = i2,
            bi_TxStakes = split_list i3, bi_TxStakeHashes = txSt,
            bi_RewardReceivers = split_list i4, bi_RewardReceiverStructs = recSt,
            bi_AutoStakingFlag = map (\<lambda>v. v = ''true'') (split_list i5),
            bi_StakingAmount = map (fst \<circ> parseU) (split_list i6),
            bi_FunderAddress = split_list i7, bi_FunderAddressStructs = funSt\<rparr>)))))))))))"

definition ValidateAndImportBeaconStakeInstructionFromString ::
    "('k, 'h, 'p) codec \<Rightarrow> (string \<Rightarrow> nat \<times> bool) \<Rightarrow> string list \<Rightarrow> ('k, 'h, 'p) BeaconStakeInstruction go" where
  "ValidateAndImportBeaconStakeInstructionFromString cdc parseU inst =
     go_bind (ValidateBeaconStakeInstructionSanity cdc inst) (\<lambda>_. ImportBeaconStakeInstructionFromString cdc parseU inst)"

section \<open>Share price instruction (instruction_share_price.go)\<close>

record SharePriceInstruction =
  committeeHash :: "string list"
  prices :: "nat list"

text \<open>The loop over the prices prints a separator after each but the last, like \<^verbatim>\<open>strings.Join\<close>.\<close>

fun print_prices :: "nat list \<Rightarrow> string" where
  "print_prices [] = []"
| "print_prices [v] = format_nat v"
| "print_prices (v # vs) = format_nat v @ SPLITTER # print_prices vs"

definition SharePrice_ToString :: "SharePriceInstruction \<Rightarrow> string list" where
  "SharePrice_ToString f = [SHARE_PRICE, join_list (committeeHash f), print_prices (prices f)]"

text \<open>\<^verbatim>\<open>GetValue\<close> reads \<^verbatim>\<open>prices[i]\<close> for every hash; a later entry of a hash overwrites an earlier one.\<close>

definition SharePrice_GetValue :: "SharePriceInstruction \<Rightarrow> (string \<rightharpoonup> nat) go" where
  "SharePrice_GetValue f =
     (if length (committeeHash f) \<le> length (prices f) then Inr (map_of (rev (zip (committeeHash f) (prices f))))
      else Inl GoPanic)"

definition AddPrice :: "string \<Rightarrow> nat \<Rightarrow> SharePriceInstruction \<Rightarrow> SharePriceInstruction" where
  "AddPrice i price f = f\<lparr>committeeHash := committeeHash f @ [i], prices := prices f @ [price]\<rparr>"

definition ValidateSharePriceInstructionSanity :: "string list \<Rightarrow> unit go" where
  "ValidateSharePriceInstructionSanity inst =
     (if length inst \<noteq> 3 then Inl (GoErr ''invalid length'')
      else if length (split_list (inst ! 1)) \<noteq> length (split_list (inst ! 2)) then Inl (GoErr ''Element not match!'')
      else Inr ())"

definition add_parsed :: "(string \<Rightarrow> nat \<times> bool) \<Rightarrow> SharePriceInstruction \<Rightarrow> string \<times> string \<Rightarrow> SharePriceInstruction go" where
  "add_parsed parseU f = (\<lambda>(i, p). case parseU p of (n, ok) \<Rightarrow> if \<not> ok then Inl (GoErr ''Parse price error'') else Inr (AddPrice i n f))"

definition importSharePriceInstructionFromString ::
    "(string \<Rightarrow> nat \<times> bool) \<Rightarrow> string list \<Rightarrow> SharePriceInstruction go" where
  "importSharePriceInstructionFromString parseU inst =
     go_bind (go_index inst 1) (\<lambda>i1. go_bind (go_index inst 2) (\<lambda>i2.
     if length (split_list i1) \<noteq> length (split_list i2) then Inl (GoErr ''Element not match!'')
     else go_foldl (add_parsed parseU) \<lparr>committeeHash = [], prices = []\<rparr> (zip (split_list i1) (split_list i2))))"

definition ValidateAndImportSharePriceInstructionFromString ::
    "(string \<Rightarrow> nat \<times> bool) \<Rightarrow> string list \<Rightarrow> SharePriceInstruction go" where
  "ValidateAndImportSharePriceInstructionFromString parseU inst =
     go_bind (ValidateSharePriceInstructionSanity inst) (\<lambda>_. importSharePriceInstructionFromString parseU inst)"

section \<open>Mint delegation reward instruction (instruction_mint_delegationreward.go)\<close>

record ('h, 'p) MintDelegationRewardInstruction =
  md_PaymentAddresses :: "string list"
  md_PaymentAddressesStruct :: "'p list"
  md_RewardAmount :: "nat list"
  md_TxRequestIDs :: "string list"
  md_TxRequestIdHashes :: "'h list"

definition MintDelegationReward_ToString :: "('h, 'p) MintDelegationRewardInstruction \<Rightarrow> string list" where
  "MintDelegationReward_ToString m =
     [MINT_DREWARD_ACTION, join_list (md_PaymentAddresses m), join_list (map format_nat (md_RewardAmount m)),
      join_list (md_TxRequestIDs m)]"

text \<open>A request that does not decode is logged and left out.\<close>

definition AddNewMintInfo :: "('k, 'h, 'p) codec \<Rightarrow> string \<Rightarrow> nat \<Rightarrow> string \<Rightarrow>
    ('h, 'p) MintDelegationRewardInstruction \<Rightarrow> ('h, 'p) MintDelegationRewardInstruction" where
  "AddNewMintInfo cdc paymentAddress amount requestID m =
     (case (Base58CheckDeserialize cdc paymentAddress, NewHashFromStr cdc requestID) of
        (Some p, Some h) \<Rightarrow> m\<lparr>md_PaymentAddresses := md_PaymentAddresses m @ [paymentAddress],
          md_PaymentAddressesStruct := md_PaymentAddressesStruct m @ [p], md_RewardAmount := md_RewardAmount m @ [amount],
          md_TxRequestIDs := md_TxRequestIDs m @ [requestID], md_TxRequestIdHashes := md_TxRequestIdHashes m @ [h]\<rparr>
      | _ \<Rightarrow> m)"

definition ValidateMintDelegationRewardInstructionSanity :: "('k, 'h, 'p) codec \<Rightarrow> string list \<Rightarrow> unit go" where
  "ValidateMintDelegationRewardInstructionSanity cdc inst =
     (if length inst \<noteq> 4 then Inl (GoErr ''invalid length'')
      else if inst ! 0 \<noteq> MINT_DREWARD_ACTION then Inl (GoErr ''invalid return staking action'')
      else (let payments = split_list (inst ! 1); txRequests = split_list (inst ! 3) in
        go_bind (receivers_of cdc payments) (\<lambda>_.
        go_bind (parse_amounts (split_list (inst ! 2))) (\<lambda>amounts.
          if length amounts \<noteq> length payments then Inl (GoErr ''invalid reward percentReturns & payments length'')
          else if \<not> go_ok (hashes_of cdc txRequests) then Inl (GoErr ''invalid tx request delegation reward'')
          else if length payments \<noteq> length txRequests then Inl (GoErr ''invalid tx requests & public Keys length'')
          else Inr ()))))"

definition ImportMintDelegationRewardInstructionFromString ::
    "('k, 'h, 'p) codec \<Rightarrow> string list \<Rightarrow> ('h, 'p) MintDelegationRewardInstruction go" where
  "ImportMintDelegationRewardInstructionFromString cdc inst =
     go_bind (go_index inst 1) (\<lambda>i1.
     go_bind (receivers_of cdc (split_list i1)) (\<lambda>ps.
     go_bind (go_index inst 3) (\<lambda>i3.
     go_bind (hashes_of cdc (split_list i3)) (\<lambda>hs.
     go_bind (go_index inst 2) (\<lambda>i2.
     go_bind (parse_amounts (split_list i2)) (\<lambda>amounts.
       Inr \<lparr>md_PaymentAddresses = split_list i1, md_PaymentAddressesStruct = ps, md_RewardAmount = amounts,
            md_TxRequestIDs = split_list i3, md_TxRequestIdHashes = hs\<rparr>))))))"

definition ValidateAndImportMintDelegationRewardInstructionFromString ::
    "('k, 'h, 'p) codec \<Rightarrow> string list \<Rightarrow> ('h, 'p) MintDelegationRewardInstruction go" where
  "ValidateAndImportMintDelegationRewardInstructionFromString cdc inst =
     go_bind (ValidateMintDelegationRewardInstructionSanity cdc inst) (\<lambda>_. ImportMintDelegationRewardInstructionFromString cdc inst)"

section \<open>Request delegation reward instruction (instruction_requestreward.go)\<close>

record 'p RequestDelegationRewardInstruction =
  rq_IncPaymentAddrs :: "string list"
  rq_IncPaymentAddrStructs :: "'p list"
  rq_TxRequestIDs :: "string list"

definition RequestDelegationReward_ToString :: "'p RequestDelegationRewardInstruction \<Rightarrow> string list" where
  "RequestDelegationReward_ToString r =
     [REQ_DREWARD_ACTION, join_list (rq_IncPaymentAddrs r), join_list (rq_TxRequestIDs r)]"

text \<open>The number of requests is compared with itself, never with the number of payment addresses.\<close>

definition ValidateRequestDelegationRewardInstructionSanity :: "('k, 'h, 'p) codec \<Rightarrow> string list \<Rightarrow> unit go" where
  "ValidateRequestDelegationRewardInstructionSanity cdc inst =
     (if length inst \<noteq> 3 then Inl (GoErr ''invalid length'')
      else if inst ! 0 \<noteq> REQ_DREWARD_ACTION then Inl (GoErr ''invalid finish sync action'')
      else (let payments = split_list (inst ! 1); txRequests = split_list (inst ! 2) in
        go_bind (receivers_of cdc payments) (\<lambda>_.
        if length payments \<noteq> length payments then Inl (GoErr ''invalid request tx ID & payments length'')
        else if \<not> go_ok (hashes_of cdc txRequests) then Inl (GoErr ''invalid tx request delegation reward'')
        else Inr ())))"

definition ImportRequestDelegationRewardInstructionFromString ::
    "('k, 'h, 'p) codec \<Rightarrow> string list \<Rightarrow> 'p RequestDelegationRewardInstruction go" where
  "ImportRequestDelegationRewardInstructionFromString cdc inst =
     go_bind (go_index inst 1) (\<lambda>i1.
     go_bind (receivers_of cdc (split_list i1)) (\<lambda>ps.
     go_bind (go_index inst 2) (\<lambda>i2.
     go_bind (hashes_of cdc (split_list i2)) (\<lambda>_.
       Inr \<lparr>rq_IncPaymentAddrs = split_list i1, rq_IncPaymentAddrStructs = ps, rq_TxRequestIDs = split_list i2\<rparr>))))"

definition ValidateAndImportRequestDelegationRewardInstructionFromString ::
    "('k, 'h, 'p) codec \<Rightarrow> string list \<Rightarrow> 'p RequestDelegationRewardInstruction go" where
  "ValidateAndImportRequestDelegationRewardInstructionFromString cdc inst =
     go_bind (ValidateRequestDelegationRewardInstructionSanity cdc inst) (\<lambda>_. ImportRequestDelegationRewardInstructionFromString cdc inst)"

section \<open>Returning beacon stakes\<close>

text \<open>The setter of the keys returns nil when a key does not decode or the slice is nil; the next use of nil panics.\<close>

definition NewReturnBeaconStakeInsWithValue ::
    "('k, 'h, 'p) codec \<Rightarrow> string list \<Rightarrow> int list \<Rightarrow> nat list \<Rightarrow> 'k ReturnBeaconStakeInstruction go" where
  "NewReturnBeaconStakeInsWithValue cdc publicKeys reason amounts =
     go_bind (or_panic (CommitteeBase58KeyListToStruct cdc publicKeys)) (\<lambda>st.
       Inr \<lparr>rb_PublicKeys = publicKeys, rb_PublicKeysStruct = st, rb_ReturnAmounts = amounts,
            rb_PercentReturns = map (\<lambda>_. 100) publicKeys, rb_Reasons = reason\<rparr>)"

section \<open>Round trips\<close>

definition wf_BeaconStake :: "('k, 'h, 'p) codec \<Rightarrow> ('k, 'h, 'p) BeaconStakeInstruction \<Rightarrow> bool" where
  "wf_BeaconStake cdc s \<longleftrightarrow>
     bi_PublicKeys s \<noteq> [] \<and> key_list cdc (bi_PublicKeys s) \<and>
     bi_PublicKeyStructs s = keys_of cdc (bi_PublicKeys s) \<and> bi_Chain s = BEACON_INST \<and>
     hash_list cdc (bi_TxStakes s) \<and> bi_TxStakeHashes s = map (\<lambda>x. the (NewHashFromStr cdc x)) (bi_TxStakes s) \<and>
     receiver_list cdc (bi_RewardReceivers s) \<and>
     bi_RewardReceiverStructs s = map (\<lambda>x. the (Base58CheckDeserialize cdc x)) (bi_RewardReceivers s) \<and>
     receiver_list cdc (bi_FunderAddress s) \<and>
     bi_FunderAddressStructs s = map (\<lambda>x. the (Base58CheckDeserialize cdc x)) (bi_FunderAddress s) \<and>
     length (bi_TxStakes s) = length (bi_PublicKeys s) \<and> length (bi_RewardReceivers s) = length (bi_PublicKeys s) \<and>
     length (bi_AutoStakingFlag s) = length (bi_PublicKeys s) \<and>
     bi_StakingAmount s \<noteq> [] \<and> (\<forall>n \<in> set (bi_StakingAmount s). n < 2 ^ 64)"

definition wf_SharePrice :: "SharePriceInstruction \<Rightarrow> bool" where
  "wf_SharePrice f \<longleftrightarrow> committeeHash f \<noteq> [] \<and> wire_list (committeeHash f) \<and> length (prices f) = length (committeeHash f) \<and>
     (\<forall>n \<in> set (prices f). n < 2 ^ 64)"

definition wf_MintDelegationReward :: "('k, 'h, 'p) codec \<Rightarrow> ('h, 'p) MintDelegationRewardInstruction \<Rightarrow> bool" where
  "wf_MintDelegationReward cdc m \<longleftrightarrow>
     receiver_list cdc (md_PaymentAddresses m) \<and>
     md_PaymentAddressesStruct m = map (\<lambda>x. the (Base58CheckDeserialize cdc x)) (md_PaymentAddresses m) \<and>
     hash_list cdc (md_TxRequestIDs m) \<and> md_TxRequestIdHashes m = map (\<lambda>x. the (NewHashFromStr cdc x)) (md_TxRequestIDs m) \<and>
     length (md_RewardAmount m) = length (md_PaymentAddresses m) \<and> length (md_TxRequestIDs m) = length (md_PaymentAddresses m) \<and>
     (\<forall>n \<in> set (md_RewardAmount m). n \<le> max_uint64)"

definition wf_RequestDelegationReward :: "('k, 'h, 'p) codec \<Rightarrow> 'p RequestDelegationRewardInstruction \<Rightarrow> bool" where
  "wf_RequestDelegationReward cdc r \<longleftrightarrow>
     receiver_list cdc (rq_IncPaymentAddrs r) \<and>
     rq_IncPaymentAddrStructs r = map (\<lambda>x. the (Base58CheckDeserialize cdc x)) (rq_IncPaymentAddrs r) \<and>
     hash_list cdc (rq_TxRequestIDs r)"

lemma amounts_printed:
  "parses_printed parseU \<Longrightarrow> \<forall>n \<in> set ns. n < 2 ^ 64 \<Longrightarrow> map (\<lambda>n. fst (parseU (format_nat n))) ns = ns"
  by (induction ns) (auto simp: parses_printed_def)

lemma beaconstake_import_to_string:
  assumes "parses_printed parseU" and "wf_BeaconStake cdc i"
  shows "ValidateAndImportBeaconStakeInstructionFromString cdc parseU (BeaconStake_ToString i) = Inr i"
proof -
  have "bi_AutoStakingFlag i \<noteq> []" using assms(2) by (auto simp: wf_BeaconStake_def)
  then show ?thesis using assms amounts_printed [OF assms(1), of "bi_StakingAmount i"]
    by (auto simp: wf_BeaconStake_def BeaconStake_ToString_def codec_simps ValidateAndImportBeaconStakeInstructionFromString_def
        ValidateBeaconStakeInstructionSanity_def ImportBeaconStakeInstructionFromString_def comp_def)
qed

lemma print_prices_join: "print_prices ns = join_list (map format_nat ns)"
  by (induction ns rule: print_prices.induct) auto

lemma add_parsed_all:
  "parses_printed parseU \<Longrightarrow> \<forall>n \<in> set ns. n < 2 ^ 64 \<Longrightarrow> length is = length ns \<Longrightarrow>
   go_foldl (add_parsed parseU) f (zip is (map format_nat ns)) =
     Inr \<lparr>committeeHash = committeeHash f @ is, prices = prices f @ ns\<rparr>"
  by (induction "is" ns arbitrary: f rule: list_induct2') (auto simp: add_parsed_def parses_printed_def AddPrice_def)

lemma shareprice_import_to_string:
  assumes "parses_printed parseU" and "wf_SharePrice i"
  shows "ValidateAndImportSharePriceInstructionFromString parseU (SharePrice_ToString i) = Inr i"
proof -
  have "prices i \<noteq> []" using assms(2) by (auto simp: wf_SharePrice_def)
  then show ?thesis using assms add_parsed_all [OF assms(1)]
    by (auto simp: wf_SharePrice_def SharePrice_ToString_def print_prices_join split_join_wire split_join_format
        ValidateAndImportSharePriceInstructionFromString_def ValidateSharePriceInstructionSanity_def
        importSharePriceInstructionFromString_def)
qed

interpretation mint_codec: instruction_codec MintDelegationReward_ToString
  "ValidateAndImportMintDelegationRewardInstructionFromString cdc" "wf_MintDelegationReward cdc" MINT_DREWARD_ACTION for cdc
proof unfold_locales
  show "ValidateAndImportMintDelegationRewardInstructionFromString cdc (MintDelegationReward_ToString i) = Inr i"
    if wf: "wf_MintDelegationReward cdc i" for i
  proof -
    have "md_RewardAmount i \<noteq> []" using wf by (auto simp: wf_MintDelegationReward_def receiver_list_def)
    then show ?thesis using wf
      by (auto simp: wf_MintDelegationReward_def MintDelegationReward_ToString_def codec_simps
        ValidateAndImportMintDelegationRewardInstructionFromString_def ValidateMintDelegationRewardInstructionSanity_def
        ImportMintDelegationRewardInstructionFromString_def)
  qed
qed (auto simp: MintDelegationReward_ToString_def ValidateAndImportMintDelegationRewardInstructionFromString_def
    ValidateMintDelegationRewardInstructionSanity_def split: if_splits intro!: head_of_length)

interpretation request_codec: instruction_codec RequestDelegationReward_ToString
  "ValidateAndImportRequestDelegationRewardInstructionFromString cdc" "wf_RequestDelegationReward cdc" REQ_DREWARD_ACTION for cdc
proof unfold_locales
  show "ValidateAndImportRequestDelegationRewardInstructionFromString cdc (RequestDelegationReward_ToString i) = Inr i"
    if "wf_RequestDelegationReward cdc i" for i
    using that
    by (auto simp: wf_RequestDelegationReward_def RequestDelegationReward_ToString_def codec_simps
        ValidateAndImportRequestDelegationRewardInstructionFromString_def ValidateRequestDelegationRewardInstructionSanity_def
        ImportRequestDelegationRewardInstructionFromString_def)
qed (auto simp: RequestDelegationReward_ToString_def ValidateAndImportRequestDelegationRewardInstructionFromString_def
    ValidateRequestDelegationRewardInstructionSanity_def split: if_splits intro!: head_of_length)

end
