(* ===== verification/Beacon_Staking.thy ===== *)
theory Beacon_Staking
  imports Committee_State Beacon_Swap Beacon_Instructions
begin

text \<open>
  The state of the fourth committee engine and its primitive operations: the staker and locking records, the
  four pools, the setters that change the pool entry and the stored staker record together, and the
  pool lists, all in \<^verbatim>\<open>src/blockchain/committeestate/beacon_committee_state_v4.go\<close> and \<^verbatim>\<open>beacon_delegation.go\<close>,
  with the stored records of \<^verbatim>\<open>src/dataaccessobject/statedb/stateobject_beaconstaker.go\<close>.

  A pool is a Go map from key strings to pointers, here an association list with distinct keys whose order is the
  order in which a range visits it. While a key moves it is in two pools with one pointer, so a change through
  the pointer changes the entry in every pool. The state database is part of the state: it returns
  pointers to live objects, so what was stored is read back, and storing an object that was read
  cannot fail. The pools are stored as lists in the order of entering. The clock is a parameter: \<open>vc_now n\<close>
  is the result of the n-th call of \<^verbatim>\<open>time.Now\<close>.
\<close>

section \<open>Configuration\<close>

record BeaconCommitteeStateV4Config =
  MAX_SCORE :: nat
  MIN_SCORE :: nat
  DEFAULT_PERFORMING :: nat
  INCREASE_PERFORMING :: nat
  DECREASE_PERFORMING :: nat
  MIN_ACTIVE_SHARD :: int
  MIN_WAITING_PERIOD :: int
  MIN_PERFORMANCE :: nat
  LOCKING_PERIOD :: nat
  LOCKING_FACTOR :: nat
  BEACON_COMMITTEE_SIZE :: int

definition NewBeaconCommitteeStateV4Config :: "string \<Rightarrow> BeaconCommitteeStateV4Config" where
  "NewBeaconCommitteeStateV4Config network =
     (if network = ''mainnet''
      then \<lparr>MAX_SCORE = 1000, MIN_SCORE = 100, DEFAULT_PERFORMING = 500, INCREASE_PERFORMING = 1015, DECREASE_PERFORMING = 965,
            MIN_ACTIVE_SHARD = 10, MIN_WAITING_PERIOD = 60 * 60 * 24 * 3, MIN_PERFORMANCE = 100, LOCKING_PERIOD = 160,
            LOCKING_FACTOR = 5, BEACON_COMMITTEE_SIZE = 32\<rparr>
      else if network = ''local''
      then \<lparr>MAX_SCORE = 1000, MIN_SCORE = 100, DEFAULT_PERFORMING = 500, INCREASE_PERFORMING = 1015, DECREASE_PERFORMING = 965,
            MIN_ACTIVE_SHARD = 2, MIN_WAITING_PERIOD = 60, MIN_PERFORMANCE = 370, LOCKING_PERIOD = 2,
            LOCKING_FACTOR = 1, BEACON_COMMITTEE_SIZE = 6\<rparr>
      else \<lparr>MAX_SCORE = 1000, MIN_SCORE = 100, DEFAULT_PERFORMING = 500, INCREASE_PERFORMING = 1015, DECREASE_PERFORMING = 965,
            MIN_ACTIVE_SHARD = 4, MIN_WAITING_PERIOD = 60 * 60, MIN_PERFORMANCE = 100, LOCKING_PERIOD = 4,
            LOCKING_FACTOR = 2, BEACON_COMMITTEE_SIZE = 8\<rparr>)"

section \<open>Data\<close>

datatype pool = COMMITTEE_POOL | PENDING_POOL | WAITING_POOL | LOCKING_POOL

abbreviation (input) BY_UNSTAKE :: int where "BY_UNSTAKE \<equiv> 0"
abbreviation (input) BY_SLASH :: int where "BY_SLASH \<equiv> 1"
abbreviation (input) BY_DUPLICATE_STAKE :: int where "BY_DUPLICATE_STAKE \<equiv> 2"

text \<open>Arithmetic of \<^verbatim>\<open>uint64\<close>.\<close>

definition u64 :: "nat \<Rightarrow> nat" where "u64 n = n mod 2 ^ 64"

definition sub64 :: "nat \<Rightarrow> nat \<Rightarrow> nat" where "sub64 a b = (a + 2 ^ 64 - b mod 2 ^ 64) mod 2 ^ 64"

record 'k StakerInfoV4 =
  si_cpkStruct :: 'k
  si_CPK :: string
  si_StakingAmount :: nat
  si_Unstake :: bool
  si_Performance :: nat
  si_EpochScore :: nat
  si_FixedNode :: bool
  si_enterTime :: int
  si_FinishSync :: bool
  si_ShardActiveTime :: int
  si_stakeID :: string
  si_TotalDelegators :: nat

record 'k LockingInfo =
  lk_cpk :: 'k
  lk_LockingEpoch :: nat
  lk_LockingReason :: int

text \<open>The stored record of a beacon staker; \<open>bs_stakingTx\<close> maps a transaction to its amount and height.\<close>

record ('h, 'p) BeaconStakerInfo =
  bs_funderAddress :: 'p
  bs_rewardReceiver :: 'p
  bs_beaconConfirmHeight :: nat
  bs_beaconConfirmTime :: int
  bs_enterTime :: int
  bs_stakingTx :: "('h \<times> nat \<times> nat) list"
  bs_unstaking :: bool
  bs_shardActiveTime :: int
  bs_finishSync :: bool
  bs_lockingEpoch :: nat
  bs_unlockingEpoch :: nat
  bs_lockingReason :: int
  bs_totalDelegators :: nat

definition NewBeaconStakerInfoWithValue ::
    "'p \<Rightarrow> 'p \<Rightarrow> nat \<Rightarrow> int \<Rightarrow> int \<Rightarrow> ('h \<times> nat \<times> nat) list \<Rightarrow> ('h, 'p) BeaconStakerInfo" where
  "NewBeaconStakerInfoWithValue funder receiver height time enter txs =
     \<lparr>bs_funderAddress = funder, bs_rewardReceiver = receiver, bs_beaconConfirmHeight = height, bs_beaconConfirmTime = time,
      bs_enterTime = enter, bs_stakingTx = txs, bs_unstaking = False, bs_shardActiveTime = 0, bs_finishSync = False,
      bs_lockingEpoch = 0, bs_unlockingEpoch = 0, bs_lockingReason = 0, bs_totalDelegators = 0\<rparr>"

definition AddStaking :: "'h \<Rightarrow> nat \<Rightarrow> nat \<Rightarrow> ('h, 'p) BeaconStakerInfo \<Rightarrow> ('h, 'p) BeaconStakerInfo" where
  "AddStaking tx height amount s = s\<lparr>bs_stakingTx := al_put tx (amount, height) (bs_stakingTx s)\<rparr>"

definition SetShardActiveTime :: "int \<Rightarrow> ('h, 'p) BeaconStakerInfo \<Rightarrow> ('h, 'p) BeaconStakerInfo" where
  "SetShardActiveTime t s = s\<lparr>bs_shardActiveTime := (if t < 0 then 0 else t)\<rparr>"

definition SetLocking :: "nat \<Rightarrow> nat \<Rightarrow> int \<Rightarrow> ('h, 'p) BeaconStakerInfo \<Rightarrow> ('h, 'p) BeaconStakerInfo" where
  "SetLocking epoch unlockEpoch reason s =
     s\<lparr>bs_lockingEpoch := epoch, bs_unlockingEpoch := unlockEpoch, bs_lockingReason := reason\<rparr>"

definition AddDelegator :: "nat \<Rightarrow> ('h, 'p) BeaconStakerInfo \<Rightarrow> ('h, 'p) BeaconStakerInfo" where
  "AddDelegator cnt s = s\<lparr>bs_totalDelegators := u64 (bs_totalDelegators s + cnt)\<rparr>"

definition RemoveDelegator :: "nat \<Rightarrow> ('h, 'p) BeaconStakerInfo \<Rightarrow> ('h, 'p) BeaconStakerInfo go" where
  "RemoveDelegator cnt s =
     (if bs_totalDelegators s = 0 \<or> bs_totalDelegators s < cnt
      then Inl (GoErr ''Can not remove more delegator than current total delegator'')
      else Inr (s\<lparr>bs_totalDelegators := bs_totalDelegators s - cnt\<rparr>))"

definition TotalStakingAmount :: "('h, 'p) BeaconStakerInfo \<Rightarrow> nat" where
  "TotalStakingAmount s = foldl (\<lambda>acc (_, amount, _). u64 (acc + amount)) 0 (bs_stakingTx s)"

text \<open>The stored record of a shard staker.\<close>

record ('h, 'p) ShardStaker =
  ss_rewardReceiver :: 'p
  ss_txStakingID :: 'h
  ss_autoStaking :: bool
  ss_delegate :: string
  ss_delegateUID :: string
  ss_delegateHeight :: nat

record CurrentEpochCommitteeAndPendingInfo =
  ce_Score :: nat
  ce_Performance :: nat
  ce_StakeAmount :: nat
  ce_Delegators :: nat
  ce_BeaconStakeID :: string

record LastEpochCommitteeAndPendingInfo =
  le_Performance :: nat
  le_StakeAmount :: nat
  le_Delegators :: nat
  le_BeaconStakeID :: string

record CommitteeData =
  BeginEpochInfo :: "string \<rightharpoonup> CurrentEpochCommitteeAndPendingInfo"
  LastEpoch :: "string \<rightharpoonup> LastEpochCommitteeAndPendingInfo"

text \<open>The objects of the state database; \<open>db_delegation\<close> holds, for the public key of a receiver and the key of a
  shard validator, the delegate and the amount from an epoch on.\<close>

record ('k, 'h, 'p) beacon_db =
  db_beaconStaker :: "'k \<rightharpoonup> ('h, 'p) BeaconStakerInfo"
  db_shardStaker :: "'k \<rightharpoonup> ('h, 'p) ShardStaker"
  db_committee :: "'k list"
  db_pending :: "'k list"
  db_waiting :: "'k list"
  db_locking :: "'k list"
  db_sharePrice :: "string \<rightharpoonup> nat"
  db_committeeData :: "CommitteeData option"
  db_delegation :: "string \<Rightarrow> string \<Rightarrow> (int \<times> string \<times> nat) list"

record ('k, 'h, 'p) BeaconCommitteeStateV4 =
  v4_config :: BeaconCommitteeStateV4Config
  v4_stateV3 :: "('h, 'p) BeaconCommitteeStateV3"
  v4_committee :: "(string \<times> 'k StakerInfoV4) list"
  v4_pending :: "(string \<times> 'k StakerInfoV4) list"
  v4_waiting :: "(string \<times> 'k StakerInfoV4) list"
  v4_locking :: "(string \<times> 'k LockingInfo) list"
  v4_stateDB :: "('k, 'h, 'p) beacon_db"
  v4_clock :: nat

text \<open>What the engine calls: the decoders, the encoding of a key, hashing (as the printed hash), the decoded validator
  indices of a block, the clock, \<^verbatim>\<open>sort.Slice\<close>, the sanity check of an address, the public key of an address and
  two configured numbers.\<close>

record ('k, 'h, 'p) v4_calls =
  vc_codec :: "('k, 'h, 'p) codec"
  vc_ToBase58 :: "'k \<Rightarrow> string"
  vc_HashH :: "string \<Rightarrow> string"
  vc_HashString :: "'h \<Rightarrow> string"
  vc_ParseUint64 :: "string \<Rightarrow> nat \<times> bool"
  vc_DecodeValidationData :: "string \<Rightarrow> int list option"
  vc_now :: "nat \<Rightarrow> int"
  vc_sortStakers :: "'k StakerInfoV4 sort_slice"
  vc_sortCandidates :: "'k CandidateInfoV1 sort_slice"
  vc_sortKeys :: "string sort_slice"
  vc_addressOk :: "'p \<Rightarrow> bool"
  vc_Pk :: "'p \<Rightarrow> string"
  vc_NumberOfBlockInEpoch :: nat
  vc_StakingAmountShard :: nat

section \<open>Lookup\<close>

definition getBeaconStakerInfo :: "('k, 'h, 'p) BeaconCommitteeStateV4 \<Rightarrow> string \<Rightarrow> 'k StakerInfoV4 option" where
  "getBeaconStakerInfo s cpk =
     (case map_of (v4_committee s) cpk of Some i \<Rightarrow> Some i
      | None \<Rightarrow> (case map_of (v4_pending s) cpk of Some i \<Rightarrow> Some i | None \<Rightarrow> map_of (v4_waiting s) cpk))"

definition db_BeaconStaker :: "('k, 'h, 'p) v4_calls \<Rightarrow> ('k, 'h, 'p) BeaconCommitteeStateV4 \<Rightarrow> string \<Rightarrow>
    ('h, 'p) BeaconStakerInfo option" where
  "db_BeaconStaker vc s cpk =
     (case FromString (vc_codec vc) cpk of None \<Rightarrow> None | Some k \<Rightarrow> db_beaconStaker (v4_stateDB s) k)"

definition db_ShardStaker :: "('k, 'h, 'p) v4_calls \<Rightarrow> ('k, 'h, 'p) BeaconCommitteeStateV4 \<Rightarrow> string \<Rightarrow> ('h, 'p) ShardStaker option" where
  "db_ShardStaker vc s cpk =
     (case FromString (vc_codec vc) cpk of None \<Rightarrow> None | Some k \<Rightarrow> db_shardStaker (v4_stateDB s) k)"

definition upd_db :: "(('k, 'h, 'p) beacon_db \<Rightarrow> ('k, 'h, 'p) beacon_db) \<Rightarrow> ('k, 'h, 'p) BeaconCommitteeStateV4 \<Rightarrow>
    ('k, 'h, 'p) BeaconCommitteeStateV4" where
  "upd_db f s = s\<lparr>v4_stateDB := f (v4_stateDB s)\<rparr>"

definition store_staker :: "'k \<Rightarrow> ('h, 'p) BeaconStakerInfo \<Rightarrow> ('k, 'h, 'p) BeaconCommitteeStateV4 \<Rightarrow>
    ('k, 'h, 'p) BeaconCommitteeStateV4" where
  "store_staker k info = upd_db (\<lambda>d. d\<lparr>db_beaconStaker := (db_beaconStaker d)(k \<mapsto> info)\<rparr>)"

text \<open>A change through the pointer of a pool entry.\<close>

definition update_staker :: "string \<Rightarrow> ('k StakerInfoV4 \<Rightarrow> 'k StakerInfoV4) \<Rightarrow> ('k, 'h, 'p) BeaconCommitteeStateV4 \<Rightarrow>
    ('k, 'h, 'p) BeaconCommitteeStateV4" where
  "update_staker cpk f s =
     s\<lparr>v4_committee := al_upd cpk f (v4_committee s), v4_pending := al_upd cpk f (v4_pending s),
       v4_waiting := al_upd cpk f (v4_waiting s)\<rparr>"

definition GetBeaconCandidateUID :: "('k, 'h, 'p) v4_calls \<Rightarrow> ('k, 'h, 'p) BeaconCommitteeStateV4 \<Rightarrow> string \<Rightarrow> string go" where
  "GetBeaconCandidateUID vc s cpk =
     (case db_BeaconStaker vc s cpk of None \<Rightarrow> Inl (GoErr ''Cannot find cpk in statedb'')
      | Some info \<Rightarrow> Inr (vc_HashH vc (cpk @ ''-'' @ go_itoa (bs_beaconConfirmTime info))))"

definition getScore :: "('k, 'h, 'p) v4_calls \<Rightarrow> 'k StakerInfoV4 \<Rightarrow> nat" where
  "getScore vc si = u64 (si_StakingAmount si + u64 (si_TotalDelegators si * vc_StakingAmountShard vc))"

section \<open>Setters\<close>

text \<open>The shared shape of the setters: the pool entry and the stored record are changed together.\<close>

definition set_both :: "('k, 'h, 'p) v4_calls \<Rightarrow> string \<Rightarrow> (('h, 'p) BeaconStakerInfo \<Rightarrow> ('h, 'p) BeaconStakerInfo) \<Rightarrow>
    (('h, 'p) BeaconStakerInfo \<Rightarrow> 'k StakerInfoV4 \<Rightarrow> 'k StakerInfoV4) \<Rightarrow> ('k, 'h, 'p) BeaconCommitteeStateV4 \<Rightarrow>
    ('k, 'h, 'p) BeaconCommitteeStateV4 go" where
  "set_both vc cpk f g s =
     (case getBeaconStakerInfo s cpk of None \<Rightarrow> Inl (GoErr ''Cannot find cpk in memstate'')
      | Some si \<Rightarrow> (case db_BeaconStaker vc s cpk of None \<Rightarrow> Inl (GoErr ''Cannot find cpk in statedb'')
          | Some info \<Rightarrow> Inr (store_staker (si_cpkStruct si) (f info) (update_staker cpk (g (f info)) s))))"

definition setShardActiveTime where
  "setShardActiveTime vc cpk t = set_both vc cpk (SetShardActiveTime t) (\<lambda>_ si. si\<lparr>si_ShardActiveTime := t\<rparr>)"

definition setUnstake where
  "setUnstake vc cpk = set_both vc cpk (\<lambda>info. info\<lparr>bs_unstaking := True\<rparr>) (\<lambda>_ si. si\<lparr>si_Unstake := True\<rparr>)"

definition setEnterTime where
  "setEnterTime vc cpk t = set_both vc cpk (\<lambda>info. info\<lparr>bs_enterTime := t\<rparr>) (\<lambda>_ si. si\<lparr>si_enterTime := t\<rparr>)"

definition setFinishSync where
  "setFinishSync vc cpk b = set_both vc cpk (\<lambda>info. info\<lparr>bs_finishSync := b\<rparr>) (\<lambda>_ si. si\<lparr>si_FinishSync := b\<rparr>)"

definition addStakingTx where
  "addStakingTx vc cpk tx amount height =
     set_both vc cpk (AddStaking tx height amount) (\<lambda>info si. si\<lparr>si_StakingAmount := TotalStakingAmount info\<rparr>)"

definition addDelegators where
  "addDelegators vc cpk cnt = set_both vc cpk (AddDelegator cnt)
     (\<lambda>_ si. si\<lparr>si_TotalDelegators := u64 (si_TotalDelegators si + cnt)\<rparr>)"

definition removeDelegators :: "('k, 'h, 'p) v4_calls \<Rightarrow> string \<Rightarrow> nat \<Rightarrow> ('k, 'h, 'p) BeaconCommitteeStateV4 \<Rightarrow>
    ('k, 'h, 'p) BeaconCommitteeStateV4 go" where
  "removeDelegators vc cpk cnt s =
     (case getBeaconStakerInfo s cpk of None \<Rightarrow> Inl (GoErr ''Cannot find cpk in memstate'')
      | Some si \<Rightarrow> (case db_BeaconStaker vc s cpk of None \<Rightarrow> Inl (GoErr ''Cannot find cpk in statedb'')
          | Some info \<Rightarrow> go_bind (RemoveDelegator cnt info) (\<lambda>info'.
              Inr (store_staker (si_cpkStruct si) info'
                (update_staker cpk (\<lambda>si. si\<lparr>si_TotalDelegators := sub64 (si_TotalDelegators si) cnt\<rparr>) s)))))"

text \<open>Storing a key in a pool list keeps its position when it is there and appends it otherwise.\<close>

definition db_store :: "'k \<Rightarrow> 'k list \<Rightarrow> 'k list" where
  "db_store k ks = (if k \<in> set ks then ks else ks @ [k])"

definition setLocking :: "('k, 'h, 'p) v4_calls \<Rightarrow> string \<Rightarrow> nat \<Rightarrow> nat \<Rightarrow> int \<Rightarrow> ('k, 'h, 'p) BeaconCommitteeStateV4 \<Rightarrow>
    ('k, 'h, 'p) BeaconCommitteeStateV4 go" where
  "setLocking vc cpk epoch unlockEpoch reason s =
     (case getBeaconStakerInfo s cpk of None \<Rightarrow> Inl (GoErr ''Cannot find cpk in memstate'')
      | Some si \<Rightarrow> (case db_BeaconStaker vc s cpk of None \<Rightarrow> Inl (GoErr ''Cannot find cpk in statedb'')
          | Some info \<Rightarrow>
              let s1 = s\<lparr>v4_locking := al_put cpk \<lparr>lk_cpk = si_cpkStruct si, lk_LockingEpoch = epoch, lk_LockingReason = reason\<rparr>
                           (v4_locking s)\<rparr>;
                  s2 = upd_db (\<lambda>d. d\<lparr>db_locking := db_store (si_cpkStruct si) (db_locking d)\<rparr>) s1 in
              Inr (store_staker (si_cpkStruct si) (SetLocking epoch unlockEpoch reason info) s2)))"

section \<open>Pools\<close>

text \<open>An ignored error.\<close>

definition ignore_err :: "'s \<Rightarrow> 's go \<Rightarrow> 's go" where
  "ignore_err s m = (case m of Inl GoPanic \<Rightarrow> Inl GoPanic | Inl (GoErr _) \<Rightarrow> Inr s | Inr s' \<Rightarrow> Inr s')"

definition removeFromPool :: "('k, 'h, 'p) v4_calls \<Rightarrow> pool \<Rightarrow> string \<Rightarrow> ('k, 'h, 'p) BeaconCommitteeStateV4 \<Rightarrow>
    ('k, 'h, 'p) BeaconCommitteeStateV4 go" where
  "removeFromPool vc p cpk s =
     (case FromString (vc_codec vc) cpk of None \<Rightarrow> Inl (GoErr ''FromString'')
      | Some k \<Rightarrow> Inr (case p of
          COMMITTEE_POOL \<Rightarrow> upd_db (\<lambda>d. d\<lparr>db_committee := removeAll k (db_committee d)\<rparr>) (s\<lparr>v4_committee := al_del cpk (v4_committee s)\<rparr>)
        | PENDING_POOL \<Rightarrow> upd_db (\<lambda>d. d\<lparr>db_pending := removeAll k (db_pending d)\<rparr>) (s\<lparr>v4_pending := al_del cpk (v4_pending s)\<rparr>)
        | WAITING_POOL \<Rightarrow> upd_db (\<lambda>d. d\<lparr>db_waiting := removeAll k (db_waiting d)\<rparr>) (s\<lparr>v4_waiting := al_del cpk (v4_waiting s)\<rparr>)
        | LOCKING_POOL \<Rightarrow> upd_db (\<lambda>d. d\<lparr>db_locking := removeAll k (db_locking d)\<rparr>) (s\<lparr>v4_locking := al_del cpk (v4_locking s)\<rparr>)))"

text \<open>The entry gets the current time, also where its pointer is in another pool; the error of \<^verbatim>\<open>setEnterTime\<close> is ignored.\<close>

definition addToPool :: "('k, 'h, 'p) v4_calls \<Rightarrow> pool \<Rightarrow> string \<Rightarrow> 'k StakerInfoV4 \<Rightarrow> ('k, 'h, 'p) BeaconCommitteeStateV4 \<Rightarrow>
    ('k, 'h, 'p) BeaconCommitteeStateV4 go" where
  "addToPool vc p cpk stakerInfo s =
     (let t = vc_now vc (v4_clock s);
          si = stakerInfo\<lparr>si_enterTime := t\<rparr>;
          s1 = update_staker cpk (\<lambda>si. si\<lparr>si_enterTime := t\<rparr>) (s\<lparr>v4_clock := Suc (v4_clock s)\<rparr>) in
      go_bind (ignore_err s1 (setEnterTime vc cpk t s1)) (\<lambda>s2.
        case p of
          COMMITTEE_POOL \<Rightarrow> Inr (upd_db (\<lambda>d. d\<lparr>db_committee := db_store (si_cpkStruct si) (db_committee d)\<rparr>)
            (s2\<lparr>v4_committee := al_put cpk si (v4_committee s2)\<rparr>))
        | PENDING_POOL \<Rightarrow> Inr (upd_db (\<lambda>d. d\<lparr>db_pending := db_store (si_cpkStruct si) (db_pending d)\<rparr>)
            (s2\<lparr>v4_pending := al_put cpk si (v4_pending s2)\<rparr>))
        | WAITING_POOL \<Rightarrow> Inr (upd_db (\<lambda>d. d\<lparr>db_waiting := db_store (si_cpkStruct si) (db_waiting d)\<rparr>)
            (s2\<lparr>v4_waiting := al_put cpk si (v4_waiting s2)\<rparr>))
        | LOCKING_POOL \<Rightarrow> Inl GoPanic))"

text \<open>The list of a pool: fixed nodes by their time of entering, then the others by score and time.\<close>

definition enter_before :: "'k StakerInfoV4 \<Rightarrow> 'k StakerInfoV4 \<Rightarrow> bool" where
  "enter_before x y \<longleftrightarrow> si_enterTime x < si_enterTime y"

definition score_before :: "'k StakerInfoV4 \<Rightarrow> 'k StakerInfoV4 \<Rightarrow> bool" where
  "score_before x y \<longleftrightarrow> (if si_EpochScore x = si_EpochScore y then si_enterTime x < si_enterTime y
     else si_EpochScore x > si_EpochScore y)"

definition GetKeyStructListFromMapStaker :: "('k, 'h, 'p) v4_calls \<Rightarrow> (string \<times> 'k StakerInfoV4) list \<Rightarrow> 'k list" where
  "GetKeyStructListFromMapStaker vc m =
     map si_cpkStruct (vc_sortStakers vc enter_before (filter si_FixedNode (map snd m)) @
       vc_sortStakers vc score_before (filter (\<lambda>si. \<not> si_FixedNode si) (map snd m)))"

definition V4_GetBeaconCommittee where "V4_GetBeaconCommittee vc s = GetKeyStructListFromMapStaker vc (v4_committee s)"
definition V4_GetBeaconSubstitute where "V4_GetBeaconSubstitute vc s = GetKeyStructListFromMapStaker vc (v4_pending s)"
definition V4_GetBeaconWaiting where "V4_GetBeaconWaiting vc s = GetKeyStructListFromMapStaker vc (v4_waiting s)"

text \<open>Locked keys in falling order; strings are compared by their bytes.\<close>

fun str_less :: "string \<Rightarrow> string \<Rightarrow> bool" where
  "str_less x [] = False"
| "str_less [] (b # y) = True"
| "str_less (a # x) (b # y) \<longleftrightarrow> (of_char a :: nat) < of_char b \<or> a = b \<and> str_less x y"

definition GetKeyStructListFromMapLocking :: "('k, 'h, 'p) v4_calls \<Rightarrow> (string \<times> 'k LockingInfo) list \<Rightarrow> 'k list go" where
  "GetKeyStructListFromMapLocking vc m =
     go_map (\<lambda>c. case map_of m c of None \<Rightarrow> Inl GoPanic | Some lk \<Rightarrow> Inr (lk_cpk lk)) (vc_sortKeys vc (\<lambda>x y. str_less y x) (map fst m))"

definition V4_GetBeaconLocking where "V4_GetBeaconLocking vc s = GetKeyStructListFromMapLocking vc (v4_locking s)"

definition GetUnsyncBeaconValidator :: "('k, 'h, 'p) BeaconCommitteeStateV4 \<Rightarrow> 'k list" where
  "GetUnsyncBeaconValidator s =
     map si_cpkStruct (filter (\<lambda>si. \<not> si_FinishSync si) (map snd (v4_waiting s)) @
       filter (\<lambda>si. \<not> si_FinishSync si) (map snd (v4_pending s)))"

definition V4_IsFinishSync :: "('k, 'h, 'p) v4_calls \<Rightarrow> ('k, 'h, 'p) BeaconCommitteeStateV4 \<Rightarrow> string \<Rightarrow> bool" where
  "V4_IsFinishSync vc s cpk = (case db_BeaconStaker vc s cpk of None \<Rightarrow> False | Some info \<Rightarrow> bs_finishSync info)"

definition reward_receiver_step :: "('k, 'h, 'p) v4_calls \<Rightarrow> ('k, 'h, 'p) BeaconCommitteeStateV4 \<Rightarrow> 'p list \<Rightarrow> 'k \<Rightarrow> 'p list go" where
  "reward_receiver_step vc s res k =
     (case db_BeaconStaker vc s (vc_ToBase58 vc k) of None \<Rightarrow> Inl (GoErr ''not found!'')
      | Some info \<Rightarrow> Inr (if bs_lockingReason info \<noteq> BY_SLASH then res @ [bs_rewardReceiver info] else res))"

definition GetNonSlashingRewardReceiver :: "('k, 'h, 'p) v4_calls \<Rightarrow> ('k, 'h, 'p) BeaconCommitteeStateV4 \<Rightarrow> 'k list \<Rightarrow> 'p list go" where
  "GetNonSlashingRewardReceiver vc s staker = go_foldl (reward_receiver_step vc s) [] staker"

definition V4_GetAllCandidateSubstituteCommittee :: "('k, 'h, 'p) BeaconCommitteeStateV4 \<Rightarrow> string list" where
  "V4_GetAllCandidateSubstituteCommittee s =
     getAllCandidateSubstituteCommittee_V3 (v4_stateV3 s) @
     map fst (v4_committee s) @ map fst (v4_waiting s) @ map fst (v4_pending s) @ map fst (v4_locking s)"

text \<open>The factor is a floating point number in the source; the configured values are small integers, and for a
  performance up to \<^verbatim>\<open>MAX_SCORE\<close> the truncated quotient is the integer quotient.\<close>

definition getTotalLockingEpoch :: "BeaconCommitteeStateV4Config \<Rightarrow> nat \<Rightarrow> nat" where
  "getTotalLockingEpoch c perf = u64 (LOCKING_PERIOD c + LOCKING_FACTOR c * sub64 (MAX_SCORE c) perf div MIN_SCORE c)"

end
