(* ===== verification/Beacon_Process.thy ===== *)
theory Beacon_Process
  imports Beacon_Staking
begin

text \<open>
  What the fourth committee engine does for a beacon block: the functions \<^verbatim>\<open>Process...\<close> of
  \<^verbatim>\<open>beacon_committee_state_v4.go\<close> and \<^verbatim>\<open>beacon_delegation.go\<close> in \<^verbatim>\<open>src/blockchain/committeestate\<close>, the swap
  method of \<^verbatim>\<open>beacon_swap_v1.go\<close>, \<^verbatim>\<open>UpdateCommitteeState\<close>, which runs them in their order after the
  update of version 3, and the restoring of the pools from the state database. Each function takes
  the state and returns it changed, with the instructions it produces; an error discards the state. A loop over a Go
  map follows the order of the association list. Logging is left out.
\<close>

record ProcessContext =
  pc_env :: BeaconCommitteeStateEnvironment
  pc_BeaconHeight :: nat
  pc_Epoch :: nat
  pc_Timestamp :: int
  pc_PreviousValidationData :: string
  pc_MissingSignature :: "string \<rightharpoonup> MissingSignature"
  pc_RemovedStaker :: "string list"

type_synonym ('k, 'h, 'p) process =
  "('k, 'h, 'p) v4_calls \<Rightarrow> ProcessContext \<Rightarrow> ('k, 'h, 'p) BeaconCommitteeStateV4 \<Rightarrow>
   (('k, 'h, 'p) BeaconCommitteeStateV4 \<times> string list list) go"

definition firstBlockEpoch :: "('k, 'h, 'p) v4_calls \<Rightarrow> nat \<Rightarrow> bool" where
  "firstBlockEpoch vc h \<longleftrightarrow> h mod vc_NumberOfBlockInEpoch vc = 1"

definition lastBlockEpoch :: "('k, 'h, 'p) v4_calls \<Rightarrow> nat \<Rightarrow> bool" where
  "lastBlockEpoch vc h \<longleftrightarrow> h mod vc_NumberOfBlockInEpoch vc = 0"

text \<open>A function that produces no instruction.\<close>

definition no_inst :: "'s go \<Rightarrow> ('s \<times> string list list) go" where
  "no_inst m = go_bind m (\<lambda>s. Inr (s, []))"

section \<open>Performance\<close>

definition new_performance :: "BeaconCommitteeStateV4Config \<Rightarrow> bool \<Rightarrow> nat \<Rightarrow> nat" where
  "new_performance c voted perf =
     (if voted
      then let p = u64 (perf * INCREASE_PERFORMING c) div MAX_SCORE c in if p > MAX_SCORE c then MAX_SCORE c else p
      else let p = u64 (perf * DECREASE_PERFORMING c) div MAX_SCORE c in if p < MIN_SCORE c then MIN_SCORE c else p)"

definition performance_step :: "('k, 'h, 'p) v4_calls \<Rightarrow> int list \<Rightarrow> ('k, 'h, 'p) BeaconCommitteeStateV4 \<Rightarrow> nat \<times> 'k \<Rightarrow>
    ('k, 'h, 'p) BeaconCommitteeStateV4 go" where
  "performance_step vc idx s = (\<lambda>(index, cpk).
     let cpkStr = vc_ToBase58 vc cpk in
     case map_of (v4_committee s) cpkStr of None \<Rightarrow> Inl GoPanic
     | Some _ \<Rightarrow> Inr (update_staker cpkStr (\<lambda>si. si\<lparr>si_Performance :=
         new_performance (v4_config s) (IndexOfInt (int index) idx \<noteq> -1) (si_Performance si)\<rparr>) s))"

definition updateBeaconPerformance :: "('k, 'h, 'p) v4_calls \<Rightarrow> string \<Rightarrow> ('k, 'h, 'p) BeaconCommitteeStateV4 \<Rightarrow>
    ('k, 'h, 'p) BeaconCommitteeStateV4 go" where
  "updateBeaconPerformance vc previousData s =
     (if previousData = [] then Inr s
      else (case vc_DecodeValidationData vc previousData of
          None \<Rightarrow> Inl (GoErr ''Cannot decode previous validation data'')
        | Some idx \<Rightarrow> go_foldl (performance_step vc idx) s
            (zip [0..<length (V4_GetBeaconCommittee vc s)] (V4_GetBeaconCommittee vc s))))"

definition ProcessUpdateBeaconPerformance :: "('k, 'h, 'p) process" where
  "ProcessUpdateBeaconPerformance vc ctx s =
     (if firstBlockEpoch vc (pc_BeaconHeight ctx) then Inr (s, [])
      else no_inst (updateBeaconPerformance vc (pc_PreviousValidationData ctx) s))"

section \<open>Shard active time\<close>

definition active_times :: "ProcessContext \<Rightarrow> string \<Rightarrow> MissingSignature \<Rightarrow> int \<Rightarrow> int" where
  "active_times ctx cpk sig t =
     (let t1 = (if Missing sig * 100 div ActualTotal sig > 20 then t - 2 else t + 1);
          t2 = (if t1 < 0 then 0 else t1) in
      if MissingSignaturePenalty (pc_env ctx) cpk \<noteq> None then 0 else t2)"

definition store_shard_staker :: "'k \<Rightarrow> ('h, 'p) ShardStaker \<Rightarrow> ('k, 'h, 'p) BeaconCommitteeStateV4 \<Rightarrow> ('k, 'h, 'p) BeaconCommitteeStateV4" where
  "store_shard_staker k sh = upd_db (\<lambda>d. d\<lparr>db_shardStaker := (db_shardStaker d)(k \<mapsto> sh)\<rparr>)"

text \<open>The staker record read first is the live object, so the test sees the new active time.\<close>

definition active_step :: "('k, 'h, 'p) v4_calls \<Rightarrow> ProcessContext \<Rightarrow> ('k, 'h, 'p) BeaconCommitteeStateV4 \<Rightarrow>
    string \<times> 'k StakerInfoV4 \<Rightarrow> ('k, 'h, 'p) BeaconCommitteeStateV4 go" where
  "active_step vc ctx s = (\<lambda>(cpkStr, stakerInfo).
     case db_BeaconStaker vc s cpkStr of None \<Rightarrow> Inl (GoErr ''Cannot find cpk'')
     | Some staker \<Rightarrow>
       (case pc_MissingSignature ctx cpkStr of None \<Rightarrow> Inr s
        | Some sig \<Rightarrow>
          if ActualTotal sig = 0 then Inr s
          else go_bind (ignore_err s (setShardActiveTime vc cpkStr (active_times ctx cpkStr sig (bs_shardActiveTime staker)) s)) (\<lambda>s1.
            case (db_ShardStaker vc s1 cpkStr, db_BeaconStaker vc s1 cpkStr) of
              (Some sh, Some staker1) \<Rightarrow>
                Inr (if bs_shardActiveTime staker1 \<ge> MIN_ACTIVE_SHARD (v4_config s1)
                     then store_shard_staker (si_cpkStruct stakerInfo) (sh\<lparr>ss_autoStaking := False\<rparr>) s1 else s1)
            | _ \<Rightarrow> Inr s1)))"

definition ProcessCountShardActiveTime :: "('k, 'h, 'p) process" where
  "ProcessCountShardActiveTime vc ctx s =
     (if \<not> firstBlockEpoch vc (pc_BeaconHeight ctx) then Inr (s, [])
      else no_inst (go_foldl (active_step vc ctx) s (v4_waiting s)))"

section \<open>Swap and slash\<close>

definition begin_info :: "CommitteeData \<Rightarrow> string \<Rightarrow> CurrentEpochCommitteeAndPendingInfo" where
  "begin_info cd cpk = (case BeginEpochInfo cd cpk of Some i \<Rightarrow> i
     | None \<Rightarrow> \<lparr>ce_Score = 0, ce_Performance = 0, ce_StakeAmount = 0, ce_Delegators = 0, ce_BeaconStakeID = []\<rparr>)"

definition last_epoch_step :: "('k, 'h, 'p) v4_calls \<Rightarrow> ('k, 'h, 'p) BeaconCommitteeStateV4 \<Rightarrow>
    (string \<rightharpoonup> LastEpochCommitteeAndPendingInfo) \<Rightarrow> string \<times> 'k StakerInfoV4 \<Rightarrow> (string \<rightharpoonup> LastEpochCommitteeAndPendingInfo) go" where
  "last_epoch_step vc s acc = (\<lambda>(cpkStr, si).
     go_bind (GetBeaconCandidateUID vc s cpkStr) (\<lambda>stakeHash.
     case db_committeeData (v4_stateDB s) of None \<Rightarrow> Inl GoPanic
     | Some cd \<Rightarrow> Inr (acc(cpkStr \<mapsto> \<lparr>le_Performance = si_Performance si, le_StakeAmount = ce_StakeAmount (begin_info cd cpkStr),
         le_Delegators = ce_Delegators (begin_info cd cpkStr), le_BeaconStakeID = stakeHash\<rparr>))))"

definition unlock_epoch :: "ProcessContext \<Rightarrow> BeaconCommitteeStateV4Config \<Rightarrow> 'k StakerInfoV4 \<Rightarrow> nat" where
  "unlock_epoch ctx c si = u64 (pc_Epoch ctx + getTotalLockingEpoch c (si_Performance si))"

definition slash_list :: "ProcessContext \<Rightarrow> ('k, 'h, 'p) BeaconCommitteeStateV4 \<Rightarrow> (string \<times> nat) list" where
  "slash_list ctx s = map (\<lambda>(cpk, si). (cpk, unlock_epoch ctx (v4_config s) si))
     (filter (\<lambda>(_, si). si_Performance si \<le> MIN_PERFORMANCE (v4_config s) \<and> \<not> si_FixedNode si) (v4_committee s))"

definition beacon_slash_step :: "('k, 'h, 'p) v4_calls \<Rightarrow> ProcessContext \<Rightarrow> ('k, 'h, 'p) BeaconCommitteeStateV4 \<Rightarrow> string \<times> nat \<Rightarrow>
    ('k, 'h, 'p) BeaconCommitteeStateV4 go" where
  "beacon_slash_step vc ctx s = (\<lambda>(cpk, unlockEpoch).
     go_bind (setLocking vc cpk (pc_Epoch ctx) unlockEpoch BY_SLASH s) (removeFromPool vc COMMITTEE_POOL cpk))"

definition unstake_list :: "ProcessContext \<Rightarrow> ('k, 'h, 'p) BeaconCommitteeStateV4 \<Rightarrow> (string \<times> nat) list" where
  "unstake_list ctx s =
     foldl (\<lambda>acc (cpk, si). al_put cpk (unlock_epoch ctx (v4_config s) si) acc) []
       (filter (\<lambda>(_, si). si_Unstake si \<and> \<not> si_FixedNode si) (v4_committee s @ v4_pending s @ v4_waiting s))"

definition beacon_unstake_step :: "('k, 'h, 'p) v4_calls \<Rightarrow> ProcessContext \<Rightarrow> ('k, 'h, 'p) BeaconCommitteeStateV4 \<Rightarrow> string \<times> nat \<Rightarrow>
    ('k, 'h, 'p) BeaconCommitteeStateV4 go" where
  "beacon_unstake_step vc ctx s = (\<lambda>(cpk, unlockEpoch).
     go_bind (setLocking vc cpk (pc_Epoch ctx) unlockEpoch BY_UNSTAKE s) (\<lambda>s1.
     go_bind (removeFromPool vc COMMITTEE_POOL cpk s1) (\<lambda>s2.
     go_bind (removeFromPool vc PENDING_POOL cpk s2) (removeFromPool vc WAITING_POOL cpk))))"

text \<open>The method \<^verbatim>\<open>beacon_swap_v1\<close>: the score of a substitute uses the default performance.\<close>

definition pending_candidate :: "('k, 'h, 'p) v4_calls \<Rightarrow> ('k, 'h, 'p) BeaconCommitteeStateV4 \<Rightarrow> 'k \<Rightarrow> 'k CandidateInfoV1 go" where
  "pending_candidate vc s cpk =
     (let k = vc_ToBase58 vc cpk in
      case getBeaconStakerInfo s k of None \<Rightarrow> Inl GoPanic
      | Some si \<Rightarrow> Inr \<lparr>cand_cpk = si_cpkStruct si, cand_cpkStr = k,
          cand_score = u64 (DEFAULT_PERFORMING (v4_config s) * si_StakingAmount si), currentRole = ''pending''\<rparr>)"

text \<open>A committee member is a fixed node (\<open>Inl\<close>) or a candidate.\<close>

definition committee_candidate :: "('k, 'h, 'p) v4_calls \<Rightarrow> ('k, 'h, 'p) BeaconCommitteeStateV4 \<Rightarrow> 'k \<Rightarrow> ('k + 'k CandidateInfoV1) go" where
  "committee_candidate vc s cpk =
     (let k = vc_ToBase58 vc cpk in
      case getBeaconStakerInfo s k of None \<Rightarrow> Inl GoPanic
      | Some si \<Rightarrow> Inr (if si_FixedNode si then Inl (si_cpkStruct si)
          else Inr \<lparr>cand_cpk = si_cpkStruct si, cand_cpkStr = k,
            cand_score = u64 (si_Performance si * si_StakingAmount si), currentRole = ''committee''\<rparr>))"

definition lefts :: "('a + 'b) list \<Rightarrow> 'a list" where
  "lefts xs = concat (map (\<lambda>x. case x of Inl a \<Rightarrow> [a] | Inr _ \<Rightarrow> []) xs)"

definition rights :: "('a + 'b) list \<Rightarrow> 'b list" where
  "rights xs = concat (map (\<lambda>x. case x of Inl _ \<Rightarrow> [] | Inr b \<Rightarrow> [b]) xs)"

definition V4_beacon_swap_v1 :: "('k, 'h, 'p) v4_calls \<Rightarrow> ('k, 'h, 'p) BeaconCommitteeStateV4 \<Rightarrow> ('k list \<times> 'k list) go" where
  "V4_beacon_swap_v1 vc s =
     go_bind (go_map (pending_candidate vc s) (V4_GetBeaconSubstitute vc s)) (\<lambda>pendingList.
     go_bind (go_map (committee_candidate vc s) (V4_GetBeaconCommittee vc s)) (\<lambda>members.
       let fixNode = lefts members in
       case beacon_swap_v1 (vc_sortCandidates vc) pendingList (rights members) (int (length fixNode))
              (BEACON_COMMITTEE_SIZE (v4_config s) - int (length fixNode)) of
         (pendingList1, committeeList1) \<Rightarrow> Inr (fixNode @ map cand_cpk committeeList1, map cand_cpk pendingList1)))"

definition default_score :: "('k, 'h, 'p) v4_calls \<Rightarrow> BeaconCommitteeStateV4Config \<Rightarrow> 'k StakerInfoV4 \<Rightarrow> 'k StakerInfoV4" where
  "default_score vc c si =
     si\<lparr>si_EpochScore := u64 (DEFAULT_PERFORMING c * getScore vc si), si_Performance := DEFAULT_PERFORMING c\<rparr>"

definition new_pending_step :: "('k, 'h, 'p) v4_calls \<Rightarrow> ('k, 'h, 'p) BeaconCommitteeStateV4 \<Rightarrow> 'k \<Rightarrow> ('k, 'h, 'p) BeaconCommitteeStateV4 go" where
  "new_pending_step vc s cpk =
     (let k = vc_ToBase58 vc cpk in
      case map_of (v4_pending s) k of
        Some _ \<Rightarrow> Inr (update_staker k (default_score vc (v4_config s)) s)
      | None \<Rightarrow>
        (case getBeaconStakerInfo s k of None \<Rightarrow> Inl GoPanic
         | Some _ \<Rightarrow>
           let s1 = update_staker k (default_score vc (v4_config s)) s in
           go_bind (ignore_err s1 (setFinishSync vc k False s1)) (\<lambda>s2.
           case getBeaconStakerInfo s2 k of None \<Rightarrow> Inl GoPanic
           | Some si \<Rightarrow> go_bind (addToPool vc PENDING_POOL k si s2) (\<lambda>s3.
               go_bind (removeFromPool vc COMMITTEE_POOL k s3) (removeFromPool vc WAITING_POOL k)))))"

definition new_committee_step :: "('k, 'h, 'p) v4_calls \<Rightarrow> ('k, 'h, 'p) BeaconCommitteeStateV4 \<Rightarrow> 'k \<Rightarrow> ('k, 'h, 'p) BeaconCommitteeStateV4 go" where
  "new_committee_step vc s cpk =
     (let k = vc_ToBase58 vc cpk in
      case map_of (v4_committee s) k of
        Some _ \<Rightarrow> Inr (update_staker k (\<lambda>si. si\<lparr>si_EpochScore := u64 (si_Performance si * getScore vc si)\<rparr>) s)
      | None \<Rightarrow>
        (case getBeaconStakerInfo s k of None \<Rightarrow> Inl GoPanic
         | Some _ \<Rightarrow>
           let s1 = update_staker k (default_score vc (v4_config s)) s in
           (case getBeaconStakerInfo s1 k of None \<Rightarrow> Inl GoPanic
            | Some si \<Rightarrow> go_bind (addToPool vc COMMITTEE_POOL k si s1) (removeFromPool vc PENDING_POOL k))))"

definition begin_epoch_step :: "('k, 'h, 'p) v4_calls \<Rightarrow> (string \<times> 'k StakerInfoV4) list \<Rightarrow>
    (string \<rightharpoonup> CurrentEpochCommitteeAndPendingInfo) \<Rightarrow> 'k \<Rightarrow> (string \<rightharpoonup> CurrentEpochCommitteeAndPendingInfo) go" where
  "begin_epoch_step vc p acc cpk =
     (let k = vc_ToBase58 vc cpk in
      case map_of p k of None \<Rightarrow> Inl GoPanic
      | Some si \<Rightarrow> if si_stakeID si = [] then Inl GoPanic
          else Inr (acc(k \<mapsto> \<lparr>ce_Score = si_EpochScore si, ce_Performance = si_Performance si, ce_StakeAmount = si_StakingAmount si,
            ce_Delegators = si_TotalDelegators si, ce_BeaconStakeID = si_stakeID si\<rparr>)))"

definition ProcessBeaconSwapAndSlash :: "('k, 'h, 'p) process" where
  "ProcessBeaconSwapAndSlash vc ctx s =
     (if \<not> lastBlockEpoch vc (pc_BeaconHeight ctx) then Inr (s, [])
      else go_bind (go_foldl (last_epoch_step vc s) Map.empty (v4_committee s @ v4_pending s)) (\<lambda>lastEpochCommitteeData.
        go_bind (go_foldl (beacon_slash_step vc ctx) s (slash_list ctx s)) (\<lambda>s1.
        go_bind (go_foldl (beacon_unstake_step vc ctx) s1 (unstake_list ctx s1)) (\<lambda>s2.
        go_bind (V4_beacon_swap_v1 vc s2) (\<lambda>(newBeaconCommittee, newBeaconPending).
        go_bind (go_foldl (new_pending_step vc) s2 newBeaconPending) (\<lambda>s3.
        go_bind (go_foldl (new_committee_step vc) s3 newBeaconCommittee) (\<lambda>s4.
        go_bind (go_foldl (begin_epoch_step vc (v4_committee s4)) Map.empty (V4_GetBeaconCommittee vc s4)) (\<lambda>data1.
        go_bind (go_foldl (begin_epoch_step vc (v4_pending s4)) data1 (V4_GetBeaconSubstitute vc s4)) (\<lambda>data2.
          Inr (upd_db (\<lambda>d. d\<lparr>db_committeeData := Some \<lparr>BeginEpochInfo = data2, LastEpoch = lastEpochCommitteeData\<rparr>\<rparr>) s4, []))))))))))"

section \<open>Instructions of the block\<close>

text \<open>A loop over the instructions of the block: reading the action of an empty instruction panics.\<close>

definition for_insts :: "('s \<Rightarrow> string \<Rightarrow> string list \<Rightarrow> 's go) \<Rightarrow> ProcessContext \<Rightarrow> 's \<Rightarrow> 's go" where
  "for_insts f ctx s = go_foldl (\<lambda>s inst. go_bind (go_index inst 0) (\<lambda>action. f s action inst)) s (BeaconInstructions (pc_env ctx))"

definition finish_sync_step :: "('k, 'h, 'p) v4_calls \<Rightarrow> ('k, 'h, 'p) BeaconCommitteeStateV4 \<Rightarrow> string \<Rightarrow> string list \<Rightarrow>
    ('k, 'h, 'p) BeaconCommitteeStateV4 go" where
  "finish_sync_step vc s action inst =
     (if action \<noteq> FINISH_SYNC_ACTION then Inr s
      else go_bind (go_index inst 1) (\<lambda>chain.
        if chain \<noteq> ''-1'' then Inr s
        else go_bind (ImportFinishSyncInstructionFromString (vc_codec vc) inst) (\<lambda>fs.
          go_foldl (\<lambda>s cpk. setFinishSync vc cpk True s) s (fs_PublicKeys fs))))"

definition ProcessBeaconFinishSyncInstruction :: "('k, 'h, 'p) process" where
  "ProcessBeaconFinishSyncInstruction vc ctx s = no_inst (for_insts (finish_sync_step vc) ctx s)"

definition waiting_step :: "('k, 'h, 'p) v4_calls \<Rightarrow> ProcessContext \<Rightarrow> ('k, 'h, 'p) BeaconCommitteeStateV4 \<Rightarrow> 'k \<Rightarrow>
    ('k, 'h, 'p) BeaconCommitteeStateV4 go" where
  "waiting_step vc ctx s k =
     (let cpk = vc_ToBase58 vc k in
      case db_BeaconStaker vc s cpk of None \<Rightarrow> Inl (GoErr ''Cannot find stakerInfo'')
      | Some staker \<Rightarrow>
        let shardExist = (db_ShardStaker vc s cpk \<noteq> None); minActive = MIN_ACTIVE_SHARD (v4_config s) in
        if \<not> shardExist \<and> bs_shardActiveTime staker < minActive then ignore_err s (setUnstake vc cpk s)
        else if pc_Timestamp ctx < bs_beaconConfirmTime staker + MIN_WAITING_PERIOD (v4_config s) \<or> bs_shardActiveTime staker < minActive
        then Inr s
        else if bs_finishSync staker \<and> \<not> shardExist
        then (case getBeaconStakerInfo s cpk of None \<Rightarrow> Inl GoPanic
          | Some si \<Rightarrow> go_bind (addToPool vc PENDING_POOL cpk si s) (removeFromPool vc WAITING_POOL cpk))
        else Inr s)"

definition ProcessBeaconWaitingCondition :: "('k, 'h, 'p) process" where
  "ProcessBeaconWaitingCondition vc ctx s = no_inst (go_foldl (waiting_step vc ctx) s (V4_GetBeaconWaiting vc s))"

text \<open>The stakes of an instruction: a key that is staked already gets its amount back. The accumulator holds the
  keys, amounts and reasons to return.\<close>

type_synonym returns = "string list \<times> nat list \<times> int list"

definition new_beacon_staker :: "('k, 'h, 'p) v4_calls \<Rightarrow> ProcessContext \<Rightarrow> 'k \<Rightarrow> string \<Rightarrow> nat \<Rightarrow> int \<Rightarrow> 'k StakerInfoV4" where
  "new_beacon_staker vc ctx key cpk amount t =
     \<lparr>si_cpkStruct = key, si_CPK = cpk, si_StakingAmount = amount, si_Unstake = False, si_Performance = 500, si_EpochScore = 0,
      si_FixedNode = False, si_enterTime = t, si_FinishSync = False, si_ShardActiveTime = 0,
      si_stakeID = vc_HashH vc (cpk @ ''-'' @ go_itoa (pc_Timestamp ctx)), si_TotalDelegators = 0\<rparr>"

abbreviation (input) INIT_SHARE_PRICE :: nat where "INIT_SHARE_PRICE \<equiv> 1750 * 10 ^ 9"

definition beacon_stake_step :: "('k, 'h, 'p) v4_calls \<Rightarrow> ProcessContext \<Rightarrow> ('k, 'h, 'p) BeaconStakeInstruction \<Rightarrow>
    ('k, 'h, 'p) BeaconCommitteeStateV4 \<times> returns \<Rightarrow> nat \<times> 'h \<Rightarrow> (('k, 'h, 'p) BeaconCommitteeStateV4 \<times> returns) go" where
  "beacon_stake_step vc ctx bi = (\<lambda>(s, cpks, amounts, reasons) (i, txHash).
     go_bind (go_index (bi_PublicKeys bi) (int i)) (\<lambda>cpk.
     if db_BeaconStaker vc s cpk \<noteq> None
     then go_bind (go_index (bi_StakingAmount bi) (int i)) (\<lambda>amount.
       Inr (s, cpks @ [cpk], amounts @ [amount], reasons @ [BY_DUPLICATE_STAKE]))
     else (case FromString (vc_codec vc) cpk of None \<Rightarrow> Inl (GoErr ''FromString'')
       | Some key \<Rightarrow>
         go_bind (go_index (bi_StakingAmount bi) (int i)) (\<lambda>amount.
         go_bind (go_index (bi_FunderAddressStructs bi) (int i)) (\<lambda>funder.
         go_bind (go_index (bi_RewardReceiverStructs bi) (int i)) (\<lambda>receiver.
         if \<not> vc_addressOk vc receiver then Inl (GoErr ''Invalid PaymentAddress Type'')
         else
           let n = v4_clock s;
               info = NewBeaconStakerInfoWithValue funder receiver (pc_BeaconHeight ctx) (pc_Timestamp ctx) (vc_now vc n)
                        [(txHash, amount, pc_BeaconHeight ctx)];
               si = new_beacon_staker vc ctx key cpk amount (vc_now vc (Suc n));
               s1 = store_staker key info (s\<lparr>v4_clock := Suc (Suc n)\<rparr>);
               s2 = upd_db (\<lambda>d. d\<lparr>db_sharePrice := (db_sharePrice d)(si_stakeID si \<mapsto> INIT_SHARE_PRICE)\<rparr>) s1 in
           go_bind (addToPool vc WAITING_POOL cpk si s2) (\<lambda>s3. Inr (s3, cpks, amounts, reasons))))))))"

definition stake_inst_step :: "('k, 'h, 'p) v4_calls \<Rightarrow> ProcessContext \<Rightarrow> ('k, 'h, 'p) BeaconCommitteeStateV4 \<times> returns \<Rightarrow> string \<Rightarrow>
    string list \<Rightarrow> (('k, 'h, 'p) BeaconCommitteeStateV4 \<times> returns) go" where
  "stake_inst_step vc ctx sr action inst =
     (if action \<noteq> BEACON_STAKE_ACTION then Inr sr
      else go_bind (ImportBeaconStakeInstructionFromString (vc_codec vc) (vc_ParseUint64 vc) inst) (\<lambda>bi.
        go_foldl (beacon_stake_step vc ctx bi) sr (zip [0..<length (bi_TxStakeHashes bi)] (bi_TxStakeHashes bi))))"

definition return_inst :: "('k, 'h, 'p) v4_calls \<Rightarrow> returns \<Rightarrow> string list list go" where
  "return_inst vc = (\<lambda>(cpks, amounts, reasons).
     if length cpks = 0 then Inr []
     else go_bind (NewReturnBeaconStakeInsWithValue (vc_codec vc) cpks reasons amounts) (\<lambda>r. Inr [ReturnBeacon_ToString r]))"

definition ProcessBeaconStakeInstruction :: "('k, 'h, 'p) process" where
  "ProcessBeaconStakeInstruction vc ctx s =
     go_bind (for_insts (stake_inst_step vc ctx) ctx (s, [], [], [])) (\<lambda>(s1, ret).
     go_bind (return_inst vc ret) (\<lambda>insts. Inr (s1, insts)))"

definition add_stake_step :: "('k, 'h, 'p) v4_calls \<Rightarrow> ProcessContext \<Rightarrow> 'k AddStakingInstruction \<Rightarrow>
    ('k, 'h, 'p) BeaconCommitteeStateV4 \<Rightarrow> nat \<times> string \<Rightarrow> ('k, 'h, 'p) BeaconCommitteeStateV4 go" where
  "add_stake_step vc ctx ad s = (\<lambda>(i, cpk).
     go_bind (go_index (ad_StakingTxIDs ad) (int i)) (\<lambda>txid.
     case NewHashFromStr (vc_codec vc) txid of None \<Rightarrow> Inl (GoErr ''Cannot convert staing tx hash'')
     | Some tx \<Rightarrow> go_bind (go_index (ad_StakingAmount ad) (int i)) (\<lambda>amount.
         ignore_err s (addStakingTx vc cpk tx amount (pc_BeaconHeight ctx) s))))"

definition add_staking_inst_step :: "('k, 'h, 'p) v4_calls \<Rightarrow> ProcessContext \<Rightarrow> ('k, 'h, 'p) BeaconCommitteeStateV4 \<Rightarrow> string \<Rightarrow>
    string list \<Rightarrow> ('k, 'h, 'p) BeaconCommitteeStateV4 go" where
  "add_staking_inst_step vc ctx s action inst =
     (if action \<noteq> ADD_STAKING_ACTION then Inr s
      else go_bind (ImportAddStakingInstructionFromString (vc_codec vc) inst) (\<lambda>p.
        case p of None \<Rightarrow> Inl GoPanic
        | Some ad \<Rightarrow> go_foldl (add_stake_step vc ctx ad) s
            (zip [0..<length (ad_CommitteePublicKeys ad)] (ad_CommitteePublicKeys ad))))"

definition ProcessBeaconAddStakingAmountInstruction :: "('k, 'h, 'p) process" where
  "ProcessBeaconAddStakingAmountInstruction vc ctx s = no_inst (for_insts (add_staking_inst_step vc ctx) ctx s)"

definition unstake_keys :: "('k, 'h, 'p) v4_calls \<Rightarrow> string \<Rightarrow> string list \<Rightarrow> string list go" where
  "unstake_keys vc action inst =
     (if action = STOP_AUTO_STAKE_ACTION
      then go_bind (ValidateAndImportStopAutoStakeInstructionFromString (vc_codec vc) inst) (\<lambda>p.
        case p of None \<Rightarrow> Inl GoPanic | Some i \<Rightarrow> Inr (sas_CommitteePublicKeys i))
      else if action = UNSTAKE_ACTION
      then go_bind (ValidateAndImportUnstakeInstructionFromString (vc_codec vc) inst) (\<lambda>i. Inr (us_CommitteePublicKeys i))
      else Inr [])"

definition set_unstake_step :: "('k, 'h, 'p) v4_calls \<Rightarrow> ('k, 'h, 'p) BeaconCommitteeStateV4 \<Rightarrow> string \<Rightarrow> ('k, 'h, 'p) BeaconCommitteeStateV4 go" where
  "set_unstake_step vc s cpk = (if getBeaconStakerInfo s cpk = None then Inr s else setUnstake vc cpk s)"

definition ProcessBeaconUnstakeInstruction :: "('k, 'h, 'p) process" where
  "ProcessBeaconUnstakeInstruction vc ctx s = no_inst (for_insts (\<lambda>s action inst.
     go_bind (unstake_keys vc action inst) (go_foldl (set_unstake_step vc) s)) ctx s)"

section \<open>Unlocking\<close>

definition unlock_step :: "('k, 'h, 'p) v4_calls \<Rightarrow> ProcessContext \<Rightarrow> ('k, 'h, 'p) BeaconCommitteeStateV4 \<times> returns \<Rightarrow>
    string \<times> 'k LockingInfo \<Rightarrow> (('k, 'h, 'p) BeaconCommitteeStateV4 \<times> returns) go" where
  "unlock_step vc ctx = (\<lambda>(s, cpks, amounts, reasons) (cpk, lockingInfo).
     case db_BeaconStaker vc s cpk of None \<Rightarrow> Inr (s, cpks, amounts, reasons)
     | Some info \<Rightarrow>
       if pc_Epoch ctx \<ge> bs_unlockingEpoch info
       then go_bind (removeFromPool vc LOCKING_POOL cpk s) (\<lambda>s1.
         Inr (upd_db (\<lambda>d. d\<lparr>db_beaconStaker := (db_beaconStaker d)(lk_cpk lockingInfo := None)\<rparr>) s1,
              cpks @ [cpk], amounts @ [TotalStakingAmount info],
              if lk_LockingReason lockingInfo = BY_SLASH then reasons @ [BY_SLASH]
              else if lk_LockingReason lockingInfo = BY_UNSTAKE then reasons @ [BY_UNSTAKE] else reasons))
       else Inr (s, cpks, amounts, reasons))"

definition ProcessBeaconUnlocking :: "('k, 'h, 'p) process" where
  "ProcessBeaconUnlocking vc ctx s =
     (if \<not> lastBlockEpoch vc (pc_BeaconHeight ctx) then Inr (s, [])
      else go_bind (go_foldl (unlock_step vc ctx) (s, [], [], []) (v4_locking s)) (\<lambda>(s1, ret).
        go_bind (return_inst vc ret) (\<lambda>insts. Inr (s1, insts))))"

section \<open>Delegation\<close>

definition StoreDelegationReward :: "string \<Rightarrow> string \<Rightarrow> int \<Rightarrow> string \<Rightarrow> nat \<Rightarrow> ('k, 'h, 'p) BeaconCommitteeStateV4 \<Rightarrow>
    ('k, 'h, 'p) BeaconCommitteeStateV4" where
  "StoreDelegationReward pk shardCPK epoch uid amount = upd_db (\<lambda>d. d\<lparr>db_delegation := (db_delegation d)(pk :=
     (db_delegation d pk)(shardCPK := al_put epoch (uid, amount) (db_delegation d pk shardCPK)))\<rparr>)"

text \<open>\<^verbatim>\<open>ResetDelegationReward\<close> keeps, for every shard validator of the receiver, the latest delegation as the only one.\<close>

definition reset_entry :: "int \<Rightarrow> (int \<times> string \<times> nat) list \<Rightarrow> (int \<times> string \<times> nat) list" where
  "reset_entry epoch m =
     (case map_of m (foldl max 0 (map fst m)) of None \<Rightarrow> []
      | Some (uid, amount) \<Rightarrow> if uid \<noteq> [] then [(epoch, uid, amount)] else [])"

definition ResetDelegationReward :: "string \<Rightarrow> int \<Rightarrow> ('k, 'h, 'p) BeaconCommitteeStateV4 \<Rightarrow> ('k, 'h, 'p) BeaconCommitteeStateV4" where
  "ResetDelegationReward pk epoch = upd_db (\<lambda>d. d\<lparr>db_delegation := (db_delegation d)(pk := reset_entry epoch \<circ> db_delegation d pk)\<rparr>)"

text \<open>The delegate that a shard validator leaves: only when it is the same stake loses it a delegator.\<close>

definition leave_delegate :: "('k, 'h, 'p) v4_calls \<Rightarrow> ('h, 'p) ShardStaker \<Rightarrow> ('k, 'h, 'p) BeaconCommitteeStateV4 \<Rightarrow> ('k, 'h, 'p) BeaconCommitteeStateV4 go" where
  "leave_delegate vc sh s =
     (if ss_delegate sh = [] then Inr s
      else if getBeaconStakerInfo s (ss_delegate sh) = None then Inr s
      else if GetBeaconCandidateUID vc s (ss_delegate sh) \<noteq> Inr (ss_delegateUID sh) then Inr s
      else removeDelegators vc (ss_delegate sh) 1 s)"

definition return_validator_step :: "('k, 'h, 'p) v4_calls \<Rightarrow> ProcessContext \<Rightarrow> ('k, 'h, 'p) BeaconCommitteeStateV4 \<Rightarrow> string \<Rightarrow>
    ('k, 'h, 'p) BeaconCommitteeStateV4 go" where
  "return_validator_step vc ctx s delegator =
     (case db_ShardStaker vc s delegator of None \<Rightarrow> Inl GoPanic
      | Some sh \<Rightarrow> go_bind (leave_delegate vc sh s) (\<lambda>s1.
          Inr (StoreDelegationReward (vc_Pk vc (ss_rewardReceiver sh)) delegator (int (pc_Epoch ctx)) [] (vc_StakingAmountShard vc) s1)))"

definition ProcessDelegateRewardForReturnValidator :: "('k, 'h, 'p) process" where
  "ProcessDelegateRewardForReturnValidator vc ctx s =
     (if \<not> firstBlockEpoch vc (pc_BeaconHeight ctx) then Inr (s, [])
      else no_inst (go_foldl (return_validator_step vc ctx) s (pc_RemovedStaker ctx)))"

definition redelegate_step :: "('k, 'h, 'p) v4_calls \<Rightarrow> ProcessContext \<Rightarrow> 'k ReDelegateInstruction \<Rightarrow>
    ('k, 'h, 'p) BeaconCommitteeStateV4 \<Rightarrow> nat \<times> string \<Rightarrow> ('k, 'h, 'p) BeaconCommitteeStateV4 go" where
  "redelegate_step vc ctx rd s = (\<lambda>(i, delegator).
     case db_ShardStaker vc s delegator of None \<Rightarrow> Inr s
     | Some sh \<Rightarrow>
       go_bind (go_index (rd_DelegateList rd) (int i)) (\<lambda>newDelegate.
       go_bind (go_index (rd_DelegateUIDList rd) (int i)) (\<lambda>uidStr.
       case NewHashFromStr (vc_codec vc) uidStr of None \<Rightarrow> Inr s
       | Some h \<Rightarrow>
         let uid = vc_HashString vc h in
         if getBeaconStakerInfo s newDelegate = None \<or> GetBeaconCandidateUID vc s newDelegate \<noteq> Inr uid then Inr s
         else go_bind (leave_delegate vc sh s) (\<lambda>s1.
           let sh1 = sh\<lparr>ss_delegate := newDelegate, ss_delegateUID := uid, ss_delegateHeight := pc_BeaconHeight ctx\<rparr>;
               s2 = StoreDelegationReward (vc_Pk vc (ss_rewardReceiver sh)) delegator (int (pc_Epoch ctx) + 1) uid
                      (vc_StakingAmountShard vc) s1 in
           go_bind (addDelegators vc newDelegate 1 s2) (\<lambda>s3.
           go_bind (go_index (rd_CommitteePublicKeysStruct rd) (int i)) (\<lambda>k. Inr (store_shard_staker k sh1 s3)))))))"

definition redelegate_inst_step :: "('k, 'h, 'p) v4_calls \<Rightarrow> ProcessContext \<Rightarrow> ('k, 'h, 'p) BeaconCommitteeStateV4 \<Rightarrow> string \<Rightarrow>
    string list \<Rightarrow> ('k, 'h, 'p) BeaconCommitteeStateV4 go" where
  "redelegate_inst_step vc ctx s action inst =
     (if action \<noteq> RE_DELEGATE then Inr s
      else go_bind (ImportReDelegateInstructionFromString (vc_codec vc) inst) (\<lambda>p.
        case p of None \<Rightarrow> Inl GoPanic
        | Some rd \<Rightarrow> go_foldl (redelegate_step vc ctx rd) s
            (zip [0..<length (rd_CommitteePublicKeys rd)] (rd_CommitteePublicKeys rd))))"

definition ProcessBeaconRedelegateInstruction :: "('k, 'h, 'p) process" where
  "ProcessBeaconRedelegateInstruction vc ctx s = no_inst (for_insts (redelegate_inst_step vc ctx) ctx s)"

definition share_price_inst_step :: "('k, 'h, 'p) v4_calls \<Rightarrow> ('k, 'h, 'p) BeaconCommitteeStateV4 \<Rightarrow> string \<Rightarrow> string list \<Rightarrow>
    ('k, 'h, 'p) BeaconCommitteeStateV4 go" where
  "share_price_inst_step vc s action inst =
     (if action \<noteq> SHARE_PRICE then Inr s
      else go_bind (ValidateAndImportSharePriceInstructionFromString (vc_ParseUint64 vc) inst) (\<lambda>sp.
        go_bind (SharePrice_GetValue sp) (\<lambda>values.
          Inr (upd_db (\<lambda>d. d\<lparr>db_sharePrice := db_sharePrice d ++ values\<rparr>) s))))"

definition ProcessBeaconSharePrice :: "('k, 'h, 'p) process" where
  "ProcessBeaconSharePrice vc ctx s = no_inst (for_insts (share_price_inst_step vc) ctx s)"

text \<open>In the first block of an epoch the current epoch does not count yet; the subtraction is of \<^verbatim>\<open>uint64\<close>.\<close>

definition withdraw_inst_step :: "('k, 'h, 'p) v4_calls \<Rightarrow> ProcessContext \<Rightarrow> ('k, 'h, 'p) BeaconCommitteeStateV4 \<Rightarrow> string list \<Rightarrow>
    ('k, 'h, 'p) BeaconCommitteeStateV4 go" where
  "withdraw_inst_step vc ctx s inst =
     (if length inst = 0 then Inr s
      else if inst ! 0 \<noteq> MINT_DREWARD_ACTION then Inr s
      else go_bind (ValidateAndImportMintDelegationRewardInstructionFromString (vc_codec vc) inst) (\<lambda>md.
        let epoch = (if firstBlockEpoch vc (pc_BeaconHeight ctx) then sub64 (pc_Epoch ctx) 1 else pc_Epoch ctx) in
        Inr (foldl (\<lambda>s p. ResetDelegationReward (vc_Pk vc p) (int_of_uint epoch) s) s (md_PaymentAddressesStruct md))))"

definition ProcessWithdrawDelegationReward :: "('k, 'h, 'p) process" where
  "ProcessWithdrawDelegationReward vc ctx s =
     no_inst (go_foldl (withdraw_inst_step vc ctx) s (BeaconInstructions (pc_env ctx)))"

section \<open>The update of a block\<close>

text \<open>The functions after the update of version 3, in their order.\<close>

definition processFuncs :: "('k, 'h, 'p) process list" where
  "processFuncs = [ProcessWithdrawDelegationReward, ProcessUpdateBeaconPerformance, ProcessBeaconUnstakeInstruction,
     ProcessDelegateRewardForReturnValidator, ProcessBeaconRedelegateInstruction, ProcessBeaconSwapAndSlash,
     ProcessBeaconFinishSyncInstruction, ProcessBeaconWaitingCondition, ProcessBeaconStakeInstruction,
     ProcessBeaconAddStakingAmountInstruction, ProcessBeaconUnlocking, ProcessBeaconSharePrice]"

definition run_process :: "('k, 'h, 'p) v4_calls \<Rightarrow> ProcessContext \<Rightarrow> ('k, 'h, 'p) BeaconCommitteeStateV4 \<times> string list list \<Rightarrow>
    ('k, 'h, 'p) process \<Rightarrow> (('k, 'h, 'p) BeaconCommitteeStateV4 \<times> string list list) go" where
  "run_process vc ctx = (\<lambda>(s, insts) f. go_bind (f vc ctx s) (\<lambda>(s', new). Inr (s', insts @ new)))"

text \<open>Version 3 reads the staker records of the same database.\<close>

definition env_with_db :: "('k, 'h, 'p) v4_calls \<Rightarrow> ('k, 'h, 'p) BeaconCommitteeStateV4 \<Rightarrow> BeaconCommitteeStateEnvironment \<Rightarrow>
    BeaconCommitteeStateEnvironment" where
  "env_with_db vc s env = env\<lparr>ConsensusStateDB := \<lambda>cpk.
     Inr (map_option (\<lambda>sh. \<lparr>TxStakingID = vc_HashString vc (ss_txStakingID sh), AutoStaking = ss_autoStaking sh\<rparr>) (db_ShardStaker vc s cpk))\<rparr>"

text \<open>The data whose JSON form is hashed: a key of a pool list without an entry panics.\<close>

definition staker_data :: "('k, 'h, 'p) v4_calls \<Rightarrow> ('k, 'h, 'p) BeaconCommitteeStateV4 \<Rightarrow> 'k list \<Rightarrow> 'k StakerInfoV4 list go" where
  "staker_data vc s = go_map (\<lambda>k. case getBeaconStakerInfo s (vc_ToBase58 vc k) of None \<Rightarrow> Inl GoPanic | Some si \<Rightarrow> Inr si)"

definition locking_data :: "('k, 'h, 'p) v4_calls \<Rightarrow> ('k, 'h, 'p) BeaconCommitteeStateV4 \<Rightarrow> 'k list \<Rightarrow> 'k LockingInfo list go" where
  "locking_data vc s = go_map (\<lambda>k. case map_of (v4_locking s) (vc_ToBase58 vc k) of None \<Rightarrow> Inl GoPanic | Some lk \<Rightarrow> Inr lk)"

record 'k committee_hash_data =
  hd_Config :: BeaconCommitteeStateV4Config
  hd_BeaconCommittee :: "'k StakerInfoV4 list"
  hd_BeaconPending :: "'k StakerInfoV4 list"

record 'k waiting_hash_data =
  wd_Config :: BeaconCommitteeStateV4Config
  wd_BeaconWaiting :: "'k StakerInfoV4 list"
  wd_BeaconLocking :: "'k LockingInfo list"

definition commiteeAndPendingHash :: "('k, 'h, 'p) v4_calls \<Rightarrow> ('k committee_hash_data \<Rightarrow> 'x) \<Rightarrow> ('k, 'h, 'p) BeaconCommitteeStateV4 \<Rightarrow> 'x go" where
  "commiteeAndPendingHash vc hash s =
     go_bind (staker_data vc s (V4_GetBeaconCommittee vc s)) (\<lambda>c.
     go_bind (staker_data vc s (V4_GetBeaconSubstitute vc s)) (\<lambda>p.
       Inr (hash \<lparr>hd_Config = v4_config s, hd_BeaconCommittee = c, hd_BeaconPending = p\<rparr>)))"

definition waitingAndSlashingHash :: "('k, 'h, 'p) v4_calls \<Rightarrow> ('k waiting_hash_data \<Rightarrow> 'x) \<Rightarrow> ('k, 'h, 'p) BeaconCommitteeStateV4 \<Rightarrow> 'x go" where
  "waitingAndSlashingHash vc hash s =
     go_bind (V4_GetBeaconLocking vc s) (\<lambda>locking.
     go_bind (staker_data vc s (V4_GetBeaconWaiting vc s)) (\<lambda>w.
     go_bind (locking_data vc s locking) (\<lambda>l.
       Inr (hash \<lparr>wd_Config = v4_config s, wd_BeaconWaiting = w, wd_BeaconLocking = l\<rparr>))))"

text \<open>\<open>hashC\<close> and \<open>hashW\<close> stand for the hash of the JSON form; \<open>put\<close> sets the two beacon fields of the state hash.\<close>

definition UpdateCommitteeState_V4 ::
    "('k, 'h, 'p) v4_calls \<Rightarrow> 'k externals \<Rightarrow> (('h, 'p) BeaconCommitteeStateV3 \<Rightarrow> 'k CommitteeChange \<Rightarrow> 'g go) \<Rightarrow>
     ('k committee_hash_data \<Rightarrow> 'x) \<Rightarrow> ('k waiting_hash_data \<Rightarrow> 'x) \<Rightarrow> ('x \<Rightarrow> 'x \<Rightarrow> 'g \<Rightarrow> 'g) \<Rightarrow> ProcessContext \<Rightarrow> ('k, 'h, 'p) BeaconCommitteeStateV4 \<Rightarrow>
     (('k, 'h, 'p) BeaconCommitteeStateV4 \<times> 'g \<times> 'k CommitteeChange \<times> string list list) go" where
  "UpdateCommitteeState_V4 vc ext Hash hashC hashW put ctx s =
     go_bind (ProcessCountShardActiveTime vc ctx s) (\<lambda>(s1, _).
     go_bind (UpdateCommitteeState_V3 (vc_codec vc) ext Hash (env_with_db vc s1 (pc_env ctx)) (v4_stateV3 s1)) (\<lambda>(b, stateHash, changes, insts).
       let ctx1 = ctx\<lparr>pc_RemovedStaker := RemovedStaker changes\<rparr> in
       go_bind (go_foldl (run_process vc ctx1) (s1\<lparr>v4_stateV3 := b\<rparr>, insts) processFuncs) (\<lambda>(s2, insts2).
       go_bind (commiteeAndPendingHash vc hashC s2) (\<lambda>h1.
       go_bind (waitingAndSlashingHash vc hashW s2) (\<lambda>h2.
         Inr (s2, put h1 h2 stateHash, changes, insts2))))))"

section \<open>Restoring from the database\<close>

text \<open>A share price is initialised where none is stored.\<close>

definition init_share_price :: "string \<Rightarrow> ('k, 'h, 'p) BeaconCommitteeStateV4 \<Rightarrow> ('k, 'h, 'p) BeaconCommitteeStateV4" where
  "init_share_price stakeID s =
     (if db_sharePrice (v4_stateDB s) stakeID = None
      then upd_db (\<lambda>d. d\<lparr>db_sharePrice := (db_sharePrice d)(stakeID \<mapsto> INIT_SHARE_PRICE)\<rparr>) s else s)"

text \<open>The fields common to the three pools; the delegators of a waiting staker are not restored.\<close>

definition restored_staker :: "'k \<Rightarrow> string \<Rightarrow> string \<Rightarrow> ('h, 'p) BeaconStakerInfo \<Rightarrow> 'k StakerInfoV4" where
  "restored_staker k cpkStr stakeID info =
     \<lparr>si_cpkStruct = k, si_CPK = cpkStr, si_StakingAmount = TotalStakingAmount info, si_Unstake = bs_unstaking info,
      si_Performance = 0, si_EpochScore = 0, si_FixedNode = False, si_enterTime = bs_enterTime info,
      si_FinishSync = bs_finishSync info, si_ShardActiveTime = bs_shardActiveTime info, si_stakeID = stakeID,
      si_TotalDelegators = 0\<rparr>"

definition with_stored :: "('k, 'h, 'p) v4_calls \<Rightarrow> 'k \<Rightarrow> ('k, 'h, 'p) BeaconCommitteeStateV4 \<Rightarrow>
    (string \<Rightarrow> ('h, 'p) BeaconStakerInfo \<Rightarrow> string \<Rightarrow> ('k, 'h, 'p) BeaconCommitteeStateV4 go) \<Rightarrow> ('k, 'h, 'p) BeaconCommitteeStateV4 go" where
  "with_stored vc k s f =
     (let cpkStr = vc_ToBase58 vc k in
      case db_BeaconStaker vc s cpkStr of None \<Rightarrow> Inl (GoErr ''Cannot find cpk'')
      | Some info \<Rightarrow> go_bind (GetBeaconCandidateUID vc s cpkStr) (f cpkStr info))"

definition restore_committee_step :: "('k, 'h, 'p) v4_calls \<Rightarrow> int \<Rightarrow> ('k, 'h, 'p) BeaconCommitteeStateV4 \<Rightarrow> nat \<times> 'k \<Rightarrow>
    ('k, 'h, 'p) BeaconCommitteeStateV4 go" where
  "restore_committee_step vc minBeaconCommitteeSize s = (\<lambda>(index, k). with_stored vc k s (\<lambda>cpkStr info stakeID.
     case db_committeeData (v4_stateDB s) of None \<Rightarrow> Inl GoPanic
     | Some cd \<Rightarrow>
       let si = (restored_staker k cpkStr stakeID info)\<lparr>si_TotalDelegators := bs_totalDelegators info,
                  si_EpochScore := ce_Score (begin_info cd cpkStr), si_Performance := ce_Performance (begin_info cd cpkStr),
                  si_FixedNode := (int index < minBeaconCommitteeSize)\<rparr> in
       Inr (init_share_price stakeID (s\<lparr>v4_committee := al_put cpkStr si (v4_committee s)\<rparr>))))"

definition restore_pending_step :: "('k, 'h, 'p) v4_calls \<Rightarrow> ('k, 'h, 'p) BeaconCommitteeStateV4 \<Rightarrow> 'k \<Rightarrow> ('k, 'h, 'p) BeaconCommitteeStateV4 go" where
  "restore_pending_step vc s k = with_stored vc k s (\<lambda>cpkStr info stakeID.
     case db_committeeData (v4_stateDB s) of None \<Rightarrow> Inl GoPanic
     | Some cd \<Rightarrow>
       let si = (restored_staker k cpkStr stakeID info)\<lparr>si_TotalDelegators := bs_totalDelegators info,
                  si_EpochScore := ce_Score (begin_info cd cpkStr), si_Performance := DEFAULT_PERFORMING (v4_config s)\<rparr> in
       Inr (init_share_price stakeID (s\<lparr>v4_pending := al_put cpkStr si (v4_pending s)\<rparr>)))"

definition restore_waiting_step :: "('k, 'h, 'p) v4_calls \<Rightarrow> ('k, 'h, 'p) BeaconCommitteeStateV4 \<Rightarrow> 'k \<Rightarrow> ('k, 'h, 'p) BeaconCommitteeStateV4 go" where
  "restore_waiting_step vc s k = with_stored vc k s (\<lambda>cpkStr info stakeID.
     let si = (restored_staker k cpkStr stakeID info)\<lparr>si_Performance := DEFAULT_PERFORMING (v4_config s)\<rparr> in
     Inr (init_share_price stakeID (s\<lparr>v4_waiting := al_put cpkStr si (v4_waiting s)\<rparr>)))"

definition restore_locking_step :: "('k, 'h, 'p) v4_calls \<Rightarrow> ('k, 'h, 'p) BeaconCommitteeStateV4 \<Rightarrow> 'k \<Rightarrow> ('k, 'h, 'p) BeaconCommitteeStateV4 go" where
  "restore_locking_step vc s k =
     (let cpkStr = vc_ToBase58 vc k in
      case db_BeaconStaker vc s cpkStr of None \<Rightarrow> Inl (GoErr ''Cannot find cpk'')
      | Some info \<Rightarrow> Inr (s\<lparr>v4_locking := al_put cpkStr \<lparr>lk_cpk = k, lk_LockingEpoch = bs_lockingEpoch info,
          lk_LockingReason = bs_lockingReason info\<rparr> (v4_locking s)\<rparr>))"

text \<open>The performance is recomputed from the blocks of the epoch (height and previous validation data); an error there panics.\<close>

definition restore_performance :: "('k, 'h, 'p) v4_calls \<Rightarrow> (nat \<times> string) list \<Rightarrow> ('k, 'h, 'p) BeaconCommitteeStateV4 \<Rightarrow>
    ('k, 'h, 'p) BeaconCommitteeStateV4 go" where
  "restore_performance vc blocks s =
     (if blocks = [] \<or> lastBlockEpoch vc (fst (last blocks)) then Inr s
      else or_panic (go_foldl (\<lambda>s (_, previousData). updateBeaconPerformance vc previousData s) s blocks))"

definition RestoreBeaconCommitteeFromDB :: "('k, 'h, 'p) v4_calls \<Rightarrow> string \<Rightarrow> ('k, 'h, 'p) beacon_db \<Rightarrow> int \<Rightarrow> (nat \<times> string) list \<Rightarrow>
    ('k, 'h, 'p) BeaconCommitteeStateV4 \<Rightarrow> ('k, 'h, 'p) BeaconCommitteeStateV4 go" where
  "RestoreBeaconCommitteeFromDB vc network db minBeaconCommitteeSize allBeaconBlock s =
     (let s0 = s\<lparr>v4_stateDB := db, v4_config := NewBeaconCommitteeStateV4Config network\<rparr> in
      go_bind (go_foldl (restore_committee_step vc minBeaconCommitteeSize) s0 (zip [0..<length (db_committee db)] (db_committee db))) (\<lambda>s1.
      go_bind (restore_performance vc allBeaconBlock s1) (\<lambda>s2.
      go_bind (go_foldl (restore_pending_step vc) s2 (db_pending db)) (\<lambda>s3.
      go_bind (go_foldl (restore_waiting_step vc) s3 (db_waiting db)) (\<lambda>s4.
        go_foldl (restore_locking_step vc) s4 (db_locking db))))))"

definition NewBeaconCommitteeStateV4 :: "string \<Rightarrow> ('h, 'p) BeaconCommitteeStateV3 \<Rightarrow> ('k, 'h, 'p) beacon_db \<Rightarrow> ('k, 'h, 'p) BeaconCommitteeStateV4" where
  "NewBeaconCommitteeStateV4 network b db =
     \<lparr>v4_config = NewBeaconCommitteeStateV4Config network, v4_stateV3 = b, v4_committee = [], v4_pending = [], v4_waiting = [],
      v4_locking = [], v4_stateDB = db, v4_clock = 0\<rparr>"

section \<open>Upgrading from version 3\<close>

text \<open>Every member of the beacon committee of version 3 gets a record with an empty stake; the pools are then restored from the
  database.\<close>

definition upgrade_step :: "('k, 'h, 'p) v4_calls \<Rightarrow> ('k, 'h, 'p) BeaconCommitteeStateV4 \<times> (string \<rightharpoonup> CurrentEpochCommitteeAndPendingInfo) \<Rightarrow> 'k \<Rightarrow>
    (('k, 'h, 'p) BeaconCommitteeStateV4 \<times> (string \<rightharpoonup> CurrentEpochCommitteeAndPendingInfo)) go" where
  "upgrade_step vc = (\<lambda>(s, scores) k.
     let cpkStr = vc_ToBase58 vc k; stakeID = vc_HashH vc (cpkStr @ ''_'' @ go_itoa 1);
         scores1 = scores(cpkStr \<mapsto> \<lparr>ce_Score = 0, ce_Performance = DEFAULT_PERFORMING (v4_config s), ce_StakeAmount = 0, ce_Delegators = 0,
           ce_BeaconStakeID = stakeID\<rparr>) in
     case db_ShardStaker vc s cpkStr of None \<Rightarrow> Inl (GoErr ''Cannot find cpk'')
     | Some sh \<Rightarrow> Inr (store_staker k (NewBeaconStakerInfoWithValue (ss_rewardReceiver sh) (ss_rewardReceiver sh) 1 1 (vc_now vc (v4_clock s))
         [(ss_txStakingID sh, 0, 1)]) (s\<lparr>v4_clock := Suc (v4_clock s)\<rparr>), scores1))"

definition getBeaconCommittee_V3 :: "('k, 'h, 'p) v4_calls \<Rightarrow> ('h, 'p) BeaconCommitteeStateV3 \<Rightarrow> 'k list" where
  "getBeaconCommittee_V3 vc b = (case CommitteeBase58KeyListToStruct (vc_codec vc) (beaconCommittee b) of Inl _ \<Rightarrow> [] | Inr ks \<Rightarrow> ks)"

definition UpgradeFromV3 :: "('k, 'h, 'p) v4_calls \<Rightarrow> string \<Rightarrow> ('h, 'p) BeaconCommitteeStateV3 \<Rightarrow> ('k, 'h, 'p) beacon_db \<Rightarrow> int \<Rightarrow>
    ('k, 'h, 'p) BeaconCommitteeStateV4 \<Rightarrow> ('k, 'h, 'p) BeaconCommitteeStateV4 go" where
  "UpgradeFromV3 vc network b db minBeaconCommitteeSize s =
     go_bind (go_foldl (upgrade_step vc) (s\<lparr>v4_stateV3 := b\<lparr>beaconCommittee := []\<rparr>, v4_stateDB := db\<rparr>, Map.empty) (getBeaconCommittee_V3 vc b)) (\<lambda>(s1, scores).
       let s2 = upd_db (\<lambda>d. d\<lparr>db_committeeData := Some \<lparr>BeginEpochInfo = scores, LastEpoch = Map.empty\<rparr>\<rparr>) s1 in
       or_panic (RestoreBeaconCommitteeFromDB vc network (v4_stateDB s2) minBeaconCommitteeSize [] s2))"

end
