(* ===== verification/Beacon_Roles.thy ===== *)
theory Beacon_Roles
  imports Beacon_Process
begin

text \<open>
  The contract of beacon staking. \<open>role_of\<close> abstracts the state of the fourth engine, with its four pools in memory
  and the records and lists of the state database, to one map from keys to roles; \<open>v4_ok\<close> says that the
  state represents this map: every staker has exactly one role, memory and database agree on it, and
  nobody else is in a pool. The primitive operations and the functions of a block are shown
  to act on the map, and a staker only moves from waiting to pending to committee and back
  to pending, or is locked, and leaves by unlocking, when its whole stake is returned.
\<close>

section \<open>Lists of the database\<close>

lemma distinct_db_store [simp]: "distinct ks \<Longrightarrow> distinct (db_store k ks)"
  by (simp add: db_store_def)

lemma set_db_store [simp]: "set (db_store k ks) = insert k (set ks)"
  by (auto simp: db_store_def)

section \<open>Roles\<close>

datatype ('k, 'h, 'p) role = Active pool "'k StakerInfoV4" "('h, 'p) BeaconStakerInfo" | Locked "'k LockingInfo" "('h, 'p) BeaconStakerInfo"

text \<open>What the state says about a key: its entry in each pool, its record, and in which stored lists it is.\<close>

record ('k, 'h, 'p) obs =
  ob_committee :: "'k StakerInfoV4 option"
  ob_pending :: "'k StakerInfoV4 option"
  ob_waiting :: "'k StakerInfoV4 option"
  ob_locking :: "'k LockingInfo option"
  ob_staker :: "('h, 'p) BeaconStakerInfo option"
  ob_lists :: "pool set"

definition lists_of :: "('k, 'h, 'p) beacon_db \<Rightarrow> 'k \<Rightarrow> pool set" where
  "lists_of d k = (if k \<in> set (db_committee d) then {COMMITTEE_POOL} else {}) \<union> (if k \<in> set (db_pending d) then {PENDING_POOL} else {}) \<union>
     (if k \<in> set (db_waiting d) then {WAITING_POOL} else {}) \<union> (if k \<in> set (db_locking d) then {LOCKING_POOL} else {})"

definition obs :: "('k, 'h, 'p) v4_calls \<Rightarrow> ('k, 'h, 'p) BeaconCommitteeStateV4 \<Rightarrow> 'k \<Rightarrow> ('k, 'h, 'p) obs" where
  "obs vc s k = (let c = vc_ToBase58 vc k in
     \<lparr>ob_committee = map_of (v4_committee s) c, ob_pending = map_of (v4_pending s) c, ob_waiting = map_of (v4_waiting s) c,
      ob_locking = map_of (v4_locking s) c, ob_staker = db_beaconStaker (v4_stateDB s) k, ob_lists = lists_of (v4_stateDB s) k\<rparr>)"

definition nobody :: "('k, 'h, 'p) obs" where
  "nobody = \<lparr>ob_committee = None, ob_pending = None, ob_waiting = None, ob_locking = None, ob_staker = None, ob_lists = {}\<rparr>"

fun shape :: "('k, 'h, 'p) role option \<Rightarrow> ('k, 'h, 'p) obs" where
  "shape None = nobody"
| "shape (Some (Active COMMITTEE_POOL si info)) = nobody\<lparr>ob_committee := Some si, ob_staker := Some info, ob_lists := {COMMITTEE_POOL}\<rparr>"
| "shape (Some (Active PENDING_POOL si info)) = nobody\<lparr>ob_pending := Some si, ob_staker := Some info, ob_lists := {PENDING_POOL}\<rparr>"
| "shape (Some (Active WAITING_POOL si info)) = nobody\<lparr>ob_waiting := Some si, ob_staker := Some info, ob_lists := {WAITING_POOL}\<rparr>"
| "shape (Some (Active LOCKING_POOL si info)) = nobody\<lparr>ob_staker := Some info, ob_lists := {LOCKING_POOL}\<rparr>"
| "shape (Some (Locked lk info)) = nobody\<lparr>ob_locking := Some lk, ob_staker := Some info, ob_lists := {LOCKING_POOL}\<rparr>"

text \<open>The role that an observation means.\<close>

definition read_role :: "('k, 'h, 'p) obs \<Rightarrow> ('k, 'h, 'p) role option" where
  "read_role b = (case ob_staker b of None \<Rightarrow> None
     | Some info \<Rightarrow> (case (ob_committee b, ob_pending b, ob_waiting b, ob_locking b) of
         (Some si, _, _, _) \<Rightarrow> Some (Active COMMITTEE_POOL si info)
       | (None, Some si, _, _) \<Rightarrow> Some (Active PENDING_POOL si info)
       | (None, None, Some si, _) \<Rightarrow> Some (Active WAITING_POOL si info)
       | (None, None, None, Some lk) \<Rightarrow> Some (Locked lk info)
       | _ \<Rightarrow> None))"

definition role_of :: "('k, 'h, 'p) v4_calls \<Rightarrow> ('k, 'h, 'p) BeaconCommitteeStateV4 \<Rightarrow> 'k \<Rightarrow> ('k, 'h, 'p) role option" where
  "role_of vc s k = read_role (obs vc s k)"

text \<open>Memory and record agree.\<close>

definition agrees :: "('k, 'h, 'p) v4_calls \<Rightarrow> 'k \<Rightarrow> 'k StakerInfoV4 \<Rightarrow> ('h, 'p) BeaconStakerInfo \<Rightarrow> bool" where
  "agrees vc k si info \<longleftrightarrow> si_cpkStruct si = k \<and> si_CPK si = vc_ToBase58 vc k \<and> si_StakingAmount si = TotalStakingAmount info \<and>
     si_Unstake si = bs_unstaking info \<and> si_FinishSync si = bs_finishSync info \<and>
     si_ShardActiveTime si = bs_shardActiveTime info \<and> 0 \<le> bs_shardActiveTime info \<and> si_TotalDelegators si = bs_totalDelegators info \<and>
     bs_totalDelegators info < 2 ^ 64 \<and>
     si_stakeID si = vc_HashH vc (vc_ToBase58 vc k @ ''-'' @ go_itoa (bs_beaconConfirmTime info))"

fun role_ok :: "('k, 'h, 'p) v4_calls \<Rightarrow> 'k \<Rightarrow> ('k, 'h, 'p) role option \<Rightarrow> bool" where
  "role_ok vc k None = True"
| "role_ok vc k (Some (Active p si info)) \<longleftrightarrow> p \<noteq> LOCKING_POOL \<and> agrees vc k si info"
| "role_ok vc k (Some (Locked lk info)) \<longleftrightarrow> lk_cpk lk = k \<and> lk_LockingEpoch lk = bs_lockingEpoch info \<and>
     lk_LockingReason lk = bs_lockingReason info \<and> (lk_LockingReason lk = BY_SLASH \<or> lk_LockingReason lk = BY_UNSTAKE) \<and>
     0 \<le> bs_shardActiveTime info \<and> bs_totalDelegators info < 2 ^ 64"

definition keys_wf :: "('k, 'h, 'p) v4_calls \<Rightarrow> ('k, 'h, 'p) BeaconCommitteeStateV4 \<Rightarrow> bool" where
  "keys_wf vc s \<longleftrightarrow> distinct (map fst (v4_committee s)) \<and> distinct (map fst (v4_pending s)) \<and>
     distinct (map fst (v4_waiting s)) \<and> distinct (map fst (v4_locking s)) \<and>
     (\<forall>c. map_of (v4_committee s) c \<noteq> None \<or> map_of (v4_pending s) c \<noteq> None \<or> map_of (v4_waiting s) c \<noteq> None \<or>
        map_of (v4_locking s) c \<noteq> None \<longrightarrow> c \<in> range (vc_ToBase58 vc))"

text \<open>The state represents the roles \<open>r\<close>.\<close>

definition represents :: "('k, 'h, 'p) v4_calls \<Rightarrow> ('k, 'h, 'p) BeaconCommitteeStateV4 \<Rightarrow> ('k \<rightharpoonup> ('k, 'h, 'p) role) \<Rightarrow> bool" where
  "represents vc s r \<longleftrightarrow> keys_wf vc s \<and> (\<forall>k. obs vc s k = shape (r k) \<and> role_ok vc k (r k))"

text \<open>The invariant of the engine: the state represents the roles read from it.\<close>

definition v4_ok :: "('k, 'h, 'p) v4_calls \<Rightarrow> ('k, 'h, 'p) BeaconCommitteeStateV4 \<Rightarrow> bool" where
  "v4_ok vc s \<longleftrightarrow> represents vc s (role_of vc s)"

text \<open>The contract of the key codec: decoding undoes encoding.\<close>

definition keys_decode :: "('k, 'h, 'p) v4_calls \<Rightarrow> bool" where
  "keys_decode vc \<longleftrightarrow> (\<forall>k. FromString (vc_codec vc) (vc_ToBase58 vc k) = Some k)"

lemma read_shape: "role_ok vc k r \<Longrightarrow> read_role (shape r) = r"
proof (cases r)
  case (Some x)
  assume "role_ok vc k r"
  with Some show ?thesis
  proof (cases x)
    case (Active p si info)
    with Some \<open>role_ok vc k r\<close> show ?thesis by (cases p) (auto simp: read_role_def nobody_def)
  next
    case (Locked lk info)
    with Some show ?thesis by (simp add: read_role_def nobody_def)
  qed
qed (simp add: read_role_def nobody_def)

lemma represents_role_of: "represents vc s r \<Longrightarrow> role_of vc s = r"
  by (auto simp: represents_def role_of_def fun_eq_iff intro!: read_shape)

lemma represents_iff: "represents vc s r \<longleftrightarrow> v4_ok vc s \<and> role_of vc s = r"
  using represents_role_of unfolding v4_ok_def by blast

lemma enc_inj: "keys_decode vc \<Longrightarrow> vc_ToBase58 vc k = vc_ToBase58 vc k' \<longleftrightarrow> k = k'"
  by (metis keys_decode_def option.inject)

lemma enc_decode: "keys_decode vc \<Longrightarrow> FromString (vc_codec vc) (vc_ToBase58 vc k) = Some k"
  by (simp add: keys_decode_def)

lemma representsD:
  assumes "represents vc s r"
  shows "keys_wf vc s" and "obs vc s k = shape (r k)" and "role_ok vc k (r k)"
  using assms by (auto simp: represents_def)

lemma represents_upd:
  assumes "represents vc s r" and "keys_wf vc s'" and "obs vc s' k = shape x" and "role_ok vc k x"
    and "\<And>k'. k' \<noteq> k \<Longrightarrow> obs vc s' k' = obs vc s k'"
  shows "represents vc s' (r(k := x))"
  using assms by (auto simp: represents_def)

lemma represents_same:
  assumes "represents vc s r" and "keys_wf vc s'" and "\<And>k. obs vc s' k = obs vc s k"
  shows "represents vc s' r"
  using assms by (auto simp: represents_def)

section \<open>Reading\<close>

text \<open>What lookups return in a state that represents roles.\<close>

lemma pools_at:
  assumes "represents vc s r"
  shows "map_of (v4_committee s) (vc_ToBase58 vc k) = ob_committee (shape (r k))"
    and "map_of (v4_pending s) (vc_ToBase58 vc k) = ob_pending (shape (r k))"
    and "map_of (v4_waiting s) (vc_ToBase58 vc k) = ob_waiting (shape (r k))"
    and "map_of (v4_locking s) (vc_ToBase58 vc k) = ob_locking (shape (r k))"
    and "db_beaconStaker (v4_stateDB s) k = ob_staker (shape (r k))"
    and "lists_of (v4_stateDB s) k = ob_lists (shape (r k))"
  using representsD(2) [OF assms, of k] by (auto simp: obs_def Let_def dest: sym)

fun active :: "('k, 'h, 'p) role option \<Rightarrow> 'k StakerInfoV4 option" where
  "active (Some (Active p si info)) = Some si"
| "active _ = None"

fun record_of :: "('k, 'h, 'p) role option \<Rightarrow> ('h, 'p) BeaconStakerInfo option" where
  "record_of None = None"
| "record_of (Some (Active p si info)) = Some info"
| "record_of (Some (Locked lk info)) = Some info"

lemma lookup_active:
  assumes "represents vc s r"
  shows "getBeaconStakerInfo s (vc_ToBase58 vc k) = active (r k)"
proof -
  have ok: "role_ok vc k (r k)" by (rule representsD(3) [OF assms])
  show ?thesis
  proof (cases "r k")
    case None
    then show ?thesis using pools_at [OF assms, of k] by (simp add: getBeaconStakerInfo_def nobody_def)
  next
    case (Some x)
    then show ?thesis
    proof (cases x)
      case (Active p si info)
      then show ?thesis using Some ok pools_at [OF assms, of k] by (cases p) (auto simp: getBeaconStakerInfo_def nobody_def)
    next
      case (Locked lk info)
      then show ?thesis using Some pools_at [OF assms, of k] by (simp add: getBeaconStakerInfo_def nobody_def)
    qed
  qed
qed

lemma lookup_canonical:
  assumes "represents vc s r" and "getBeaconStakerInfo s c = Some si"
  obtains k p info where "c = vc_ToBase58 vc k" "r k = Some (Active p si info)"
proof -
  have "c \<in> range (vc_ToBase58 vc)" using assms representsD(1) [OF assms(1)]
    by (auto simp: getBeaconStakerInfo_def keys_wf_def split: option.splits)
  then obtain k where k: "c = vc_ToBase58 vc k" by blast
  then have "active (r k) = Some si" using lookup_active [OF assms(1), of k] assms(2) by simp
  then show thesis using that k by (cases "r k" rule: active.cases) auto
qed

lemma lookup_record:
  assumes "keys_decode vc" and "represents vc s r"
  shows "db_BeaconStaker vc s (vc_ToBase58 vc k) = record_of (r k)"
proof -
  have "ob_staker (shape x) = record_of x" for x :: "('a, 'b, 'c) role option"
    by (cases x rule: shape.cases) (auto simp: nobody_def)
  then show ?thesis using pools_at(5) [OF assms(2), of k] enc_decode [OF assms(1), of k] by (simp add: db_BeaconStaker_def)
qed

section \<open>Setters\<close>

lemma obs_update_staker:
  assumes "keys_decode vc"
  shows "obs vc (update_staker (vc_ToBase58 vc k) f s) k' = (if k' = k then (obs vc s k)\<lparr>ob_committee := map_option f (ob_committee (obs vc s k)),
    ob_pending := map_option f (ob_pending (obs vc s k)), ob_waiting := map_option f (ob_waiting (obs vc s k))\<rparr> else obs vc s k')"
  by (auto simp: obs_def update_staker_def Let_def enc_inj [OF assms])

lemma obs_store_staker:
  "obs vc (store_staker k info s) k' = (if k' = k then (obs vc s k)\<lparr>ob_staker := Some info\<rparr> else obs vc s k')"
  by (auto simp: obs_def store_staker_def upd_db_def Let_def lists_of_def)

lemma keys_wf_update_staker [simp]: "keys_wf vc (update_staker c f s) = keys_wf vc s"
  by (auto simp: keys_wf_def update_staker_def)

lemma keys_wf_upd_db [simp]: "keys_wf vc (upd_db f s) = keys_wf vc s"
  by (simp add: keys_wf_def upd_db_def)

lemma keys_wf_store_staker [simp]: "keys_wf vc (store_staker k info s) = keys_wf vc s"
  by (simp add: store_staker_def)

text \<open>An operation on an active staker changes its entry and its record; the rest stays.\<close>

definition same_rest :: "('k, 'h, 'p) BeaconCommitteeStateV4 \<Rightarrow> ('k, 'h, 'p) BeaconCommitteeStateV4 \<Rightarrow> bool" where
  "same_rest s s' \<longleftrightarrow> v4_config s' = v4_config s \<and> db_committeeData (v4_stateDB s') = db_committeeData (v4_stateDB s)"

lemma same_rest_refl [simp]: "same_rest s s"
  by (simp add: same_rest_def)

lemma same_rest_trans [trans]: "same_rest s s' \<Longrightarrow> same_rest s' s'' \<Longrightarrow> same_rest s s''"
  by (simp add: same_rest_def)

lemma change_staker:
  assumes "keys_decode vc" and "represents vc s r" and "r k = Some (Active p si info)" and "agrees vc k (g si) info'"
  shows "represents vc (store_staker k info' (update_staker (vc_ToBase58 vc k) g s)) (r(k \<mapsto> Active p (g si) info'))"
proof (rule represents_upd [OF assms(2)])
  show "role_ok vc k (Some (Active p (g si) info'))" using representsD(3) [OF assms(2), of k] assms(3,4) by simp
  show "obs vc (store_staker k info' (update_staker (vc_ToBase58 vc k) g s)) k = shape (Some (Active p (g si) info'))"
    using representsD(2) [OF assms(2), of k] assms(3)
    by (cases p) (simp_all add: obs_store_staker obs_update_staker [OF assms(1)] nobody_def)
qed (use representsD(1) [OF assms(2)] in \<open>auto simp: obs_store_staker obs_update_staker [OF assms(1)]\<close>)

lemma set_both_active:
  assumes "keys_decode vc" and "represents vc s r" and "r k = Some (Active p si info)" and "agrees vc k (g (f info) si) (f info)"
  shows "\<exists>s'. set_both vc (vc_ToBase58 vc k) f g s = Inr s' \<and> represents vc s' (r(k \<mapsto> Active p (g (f info) si) (f info))) \<and> same_rest s s'"
proof -
  have "si_cpkStruct si = k" using representsD(3) [OF assms(2), of k] assms(3) by (simp add: agrees_def)
  then show ?thesis using lookup_active [OF assms(2), of k] lookup_record [OF assms(1,2), of k] assms(3)
      change_staker [OF assms(1,2,3), of "g (f info)" "f info"] assms(4)
    by (auto simp: set_both_def same_rest_def store_staker_def upd_db_def update_staker_def)
qed

lemma set_both_inv:
  assumes "represents vc s r" and "set_both vc c f g s = Inr s'"
  obtains k p si info where "c = vc_ToBase58 vc k" "r k = Some (Active p si info)"
proof -
  obtain si where "getBeaconStakerInfo s c = Some si" using assms(2) by (auto simp: set_both_def split: option.splits)
  then show thesis using that by (rule lookup_canonical [OF assms(1)])
qed

section \<open>How roles evolve\<close>

definition keeps :: "('h, 'p) BeaconStakerInfo \<Rightarrow> ('h, 'p) BeaconStakerInfo \<Rightarrow> bool" where
  "keeps info info' \<longleftrightarrow> bs_funderAddress info' = bs_funderAddress info \<and> bs_rewardReceiver info' = bs_rewardReceiver info \<and>
     bs_beaconConfirmTime info' = bs_beaconConfirmTime info \<and> fst ` set (bs_stakingTx info) \<subseteq> fst ` set (bs_stakingTx info')"

definition fixed :: "pool \<Rightarrow> 'k StakerInfoV4 \<Rightarrow> bool" where
  "fixed p si \<longleftrightarrow> p = COMMITTEE_POOL \<and> si_FixedNode si"

text \<open>A locked staker does not change; an active one never goes back to waiting, keeps its funder, its receiver and its staking transactions,
  and may be locked; a fixed node stays in the committee.\<close>

fun evolves :: "('k, 'h, 'p) role \<Rightarrow> ('k, 'h, 'p) role \<Rightarrow> bool" where
  "evolves (Locked lk info) y \<longleftrightarrow> y = Locked lk info"
| "evolves (Active p si info) (Active p' si' info') \<longleftrightarrow> keeps info info' \<and> (p' = WAITING_POOL \<longrightarrow> p = WAITING_POOL) \<and> (fixed p si \<longrightarrow> fixed p' si')"
| "evolves (Active p si info) (Locked lk info') \<longleftrightarrow> keeps info info' \<and> \<not> fixed p si"

lemma keeps_refl [simp]: "keeps info info"
  by (simp add: keeps_def)

lemma keeps_trans: "keeps a b \<Longrightarrow> keeps b c \<Longrightarrow> keeps a c"
  by (auto simp: keeps_def)

lemma evolves_refl [simp]: "evolves x x"
  by (cases x) auto

lemma evolves_trans: "evolves x y \<Longrightarrow> evolves y z \<Longrightarrow> evolves x z"
  by (cases x; cases y; cases z) (auto intro: keeps_trans)

text \<open>The same stakers, each with a role evolved from its role.\<close>

definition kept :: "('k \<rightharpoonup> ('k, 'h, 'p) role) \<Rightarrow> ('k \<rightharpoonup> ('k, 'h, 'p) role) \<Rightarrow> bool" where
  "kept r r' \<longleftrightarrow> dom r' = dom r \<and> (\<forall>k x. r k = Some x \<longrightarrow> (\<exists>y. r' k = Some y \<and> evolves x y))"

lemma kept_refl [simp]: "kept r r"
  by (auto simp: kept_def)

lemma kept_trans: "kept r r' \<Longrightarrow> kept r' r'' \<Longrightarrow> kept r r''"
  by (fastforce simp: kept_def intro: evolves_trans)

lemma kept_upd: "r k = Some x \<Longrightarrow> evolves x y \<Longrightarrow> kept r (r(k \<mapsto> y))"
  by (auto simp: kept_def)

text \<open>\<open>follows vc s s'\<close>: a state that represents roles becomes one that represents roles evolved from them.\<close>

definition follows :: "('k, 'h, 'p) v4_calls \<Rightarrow> ('k, 'h, 'p) BeaconCommitteeStateV4 \<Rightarrow> ('k, 'h, 'p) BeaconCommitteeStateV4 \<Rightarrow> bool" where
  "follows vc s s' \<longleftrightarrow> (\<forall>r. represents vc s r \<longrightarrow> (\<exists>r'. represents vc s' r' \<and> kept r r'))"

lemma follows_refl [simp]: "follows vc s s"
  by (auto simp: follows_def)

lemma follows_trans: "follows vc s s' \<Longrightarrow> follows vc s' s'' \<Longrightarrow> follows vc s s''"
  unfolding follows_def by (metis kept_trans)

lemma followsI: "(\<And>r. represents vc s r \<Longrightarrow> \<exists>r'. represents vc s' r' \<and> kept r r') \<Longrightarrow> follows vc s s'"
  by (simp add: follows_def)

lemma follows_represents: "follows vc s s' \<Longrightarrow> represents vc s r \<Longrightarrow> \<exists>r'. represents vc s' r' \<and> kept r r'"
  by (simp add: follows_def)

lemma follows_same: "keys_wf vc s' = keys_wf vc s \<Longrightarrow> (\<And>k. obs vc s' k = obs vc s k) \<Longrightarrow> follows vc s s'"
  by (auto simp: follows_def represents_def)

lemma follows_foldl:
  assumes "go_foldl f s xs = Inr s'" and "\<And>s x s'. x \<in> set xs \<Longrightarrow> f s x = Inr s' \<Longrightarrow> follows vc s s'"
  shows "follows vc s s'"
  by (rule go_foldl_invariant [OF assms(1)]) (auto intro: follows_trans assms(2))

section \<open>The setters evolve roles\<close>

definition good_change :: "('k, 'h, 'p) v4_calls \<Rightarrow> (('h, 'p) BeaconStakerInfo \<Rightarrow> ('h, 'p) BeaconStakerInfo) \<Rightarrow>
    (('h, 'p) BeaconStakerInfo \<Rightarrow> 'k StakerInfoV4 \<Rightarrow> 'k StakerInfoV4) \<Rightarrow> bool" where
  "good_change vc f g \<longleftrightarrow> (\<forall>k si info. agrees vc k si info \<longrightarrow> agrees vc k (g (f info) si) (f info) \<and> keeps info (f info) \<and>
     si_FixedNode (g (f info) si) = si_FixedNode si)"

lemma active_agrees: "represents vc s r \<Longrightarrow> r k = Some (Active p si info) \<Longrightarrow> p \<noteq> LOCKING_POOL \<and> agrees vc k si info"
  using representsD(3) [of vc s r k] by simp

lemma set_both_follows:
  assumes "keys_decode vc" and "good_change vc f g" and "set_both vc c f g s = Inr s'"
  shows "follows vc s s'"
proof (rule followsI)
  fix r assume r: "represents vc s r"
  obtain k p si info where k: "c = vc_ToBase58 vc k" "r k = Some (Active p si info)" by (rule set_both_inv [OF r assms(3)])
  have ch: "agrees vc k (g (f info) si) (f info) \<and> keeps info (f info) \<and> si_FixedNode (g (f info) si) = si_FixedNode si"
    using assms(2) active_agrees [OF r k(2)] unfolding good_change_def by blast
  then have "evolves (Active p si info) (Active p (g (f info) si) (f info))" by (simp add: fixed_def)
  from kept_upd [of r, OF k(2) this] show "\<exists>r'. represents vc s' r' \<and> kept r r'"
    using set_both_active [where f = f and g = g, OF assms(1) r k(2)] ch assms(3) k(1) by auto
qed

lemma good_changes:
  "0 \<le> t \<Longrightarrow> good_change vc (SetShardActiveTime t) (\<lambda>_ si. si\<lparr>si_ShardActiveTime := t\<rparr>)"
  "good_change vc (\<lambda>info. info\<lparr>bs_unstaking := True\<rparr>) (\<lambda>_ si. si\<lparr>si_Unstake := True\<rparr>)"
  "good_change vc (\<lambda>info. info\<lparr>bs_enterTime := t'\<rparr>) (\<lambda>_ si. si\<lparr>si_enterTime := t'\<rparr>)"
  "good_change vc (\<lambda>info. info\<lparr>bs_finishSync := b\<rparr>) (\<lambda>_ si. si\<lparr>si_FinishSync := b\<rparr>)"
  "good_change vc (AddStaking tx height amount) (\<lambda>info si. si\<lparr>si_StakingAmount := TotalStakingAmount info\<rparr>)"
  "good_change vc (AddDelegator cnt) (\<lambda>_ si. si\<lparr>si_TotalDelegators := u64 (si_TotalDelegators si + cnt)\<rparr>)"
proof -
  note defs = good_change_def agrees_def keeps_def TotalStakingAmount_def
  show "good_change vc (SetShardActiveTime t) (\<lambda>_ si. si\<lparr>si_ShardActiveTime := t\<rparr>)" if "0 \<le> t"
    using that by (simp add: defs SetShardActiveTime_def)
  show "good_change vc (AddStaking tx height amount) (\<lambda>info si. si\<lparr>si_StakingAmount := TotalStakingAmount info\<rparr>)"
    by (simp add: defs AddStaking_def keys_grow)
  show "good_change vc (AddDelegator cnt) (\<lambda>_ si. si\<lparr>si_TotalDelegators := u64 (si_TotalDelegators si + cnt)\<rparr>)"
    by (simp add: defs AddDelegator_def u64_def)
qed (simp_all add: good_change_def agrees_def keeps_def TotalStakingAmount_def)

lemma setters_follow:
  assumes "keys_decode vc"
  shows "setShardActiveTime vc c t s = Inr s' \<Longrightarrow> 0 \<le> t \<Longrightarrow> follows vc s s'"
    and "setUnstake vc c s = Inr s' \<Longrightarrow> follows vc s s'"
    and "setEnterTime vc c t' s = Inr s' \<Longrightarrow> follows vc s s'"
    and "setFinishSync vc c b s = Inr s' \<Longrightarrow> follows vc s s'"
    and "addStakingTx vc c tx amount height s = Inr s' \<Longrightarrow> follows vc s s'"
    and "addDelegators vc c cnt s = Inr s' \<Longrightarrow> follows vc s s'"
  unfolding setShardActiveTime_def setUnstake_def setEnterTime_def setFinishSync_def addStakingTx_def addDelegators_def
  by (erule set_both_follows [OF assms, rotated]; rule good_changes; assumption?)+

lemma update_follows:
  assumes "keys_decode vc" and "\<And>k si info. agrees vc k si info \<Longrightarrow> agrees vc k (g si) info \<and> si_FixedNode (g si) = si_FixedNode si"
  shows "follows vc s (update_staker c g s)"
proof (cases "getBeaconStakerInfo s c")
  case None
  then have "map_of (v4_committee s) c = None" "map_of (v4_pending s) c = None" "map_of (v4_waiting s) c = None"
    by (auto simp: getBeaconStakerInfo_def split: option.splits)
  then have "obs vc (update_staker c g s) k = obs vc s k" for k by (auto simp: obs_def update_staker_def Let_def)
  then show ?thesis by (rule follows_same [OF keys_wf_update_staker])
next
  case (Some si0)
  show ?thesis
  proof (rule followsI)
    fix r assume r: "represents vc s r"
    obtain k p info where k: "c = vc_ToBase58 vc k" "r k = Some (Active p si0 info)" by (rule lookup_canonical [OF r Some])
    have ag: "agrees vc k (g si0) info" "si_FixedNode (g si0) = si_FixedNode si0" using assms(2) active_agrees [OF r k(2)] by auto
    have st: "store_staker k info (update_staker c g s) = update_staker c g s"
      using pools_at(5) [OF r, of k] k(2) active_agrees [OF r k(2)]
      by (cases p) (auto simp: store_staker_def upd_db_def update_staker_def nobody_def fun_upd_idem)
    have "represents vc (update_staker c g s) (r(k \<mapsto> Active p (g si0) info))"
      using change_staker [where g = g, OF assms(1) r k(2) ag(1)] st k(1) by simp
    then show "\<exists>r'. represents vc (update_staker c g s) r' \<and> kept r r'"
      using k(2) ag(2) by (auto intro!: kept_upd simp: fixed_def)
  qed
qed

lemma sub64_le:
  assumes "b \<le> a" and "a < 2 ^ 64"
  shows "sub64 a b = a - b"
proof -
  have b: "b mod 2 ^ 64 = b" using assms by simp
  have "sub64 a b = ((a - b) + 2 ^ 64) mod 2 ^ 64" unfolding sub64_def b using assms by (simp only: Nat.add_diff_assoc2)
  also have "\<dots> = (a - b) mod 2 ^ 64" by (rule mod_add_self2)
  also have "\<dots> = a - b" using assms by simp
  finally show ?thesis .
qed

lemma removeDelegators_follows:
  assumes "keys_decode vc" and "removeDelegators vc c cnt s = Inr s'"
  shows "follows vc s s'"
proof (rule followsI)
  fix r assume r: "represents vc s r"
  obtain si0 where "getBeaconStakerInfo s c = Some si0" using assms(2) by (auto simp: removeDelegators_def split: option.splits)
  then obtain k p info where k: "c = vc_ToBase58 vc k" "r k = Some (Active p si0 info)" by (rule lookup_canonical [OF r])
  let ?g = "\<lambda>si. si\<lparr>si_TotalDelegators := sub64 (si_TotalDelegators si) cnt\<rparr>"
  obtain info' where i: "RemoveDelegator cnt info = Inr info'" and s': "s' = store_staker k info' (update_staker c ?g s)"
    using assms(2) lookup_active [OF r, of k] lookup_record [OF assms(1) r, of k] k active_agrees [OF r k(2)]
    by (auto simp: removeDelegators_def agrees_def)
  have "agrees vc k (?g si0) info' \<and> keeps info info'"
    using i active_agrees [OF r k(2)] by (auto simp: RemoveDelegator_def agrees_def keeps_def sub64_le TotalStakingAmount_def split: if_splits)
  then show "\<exists>r'. represents vc s' r' \<and> kept r r'"
    using change_staker [OF assms(1) r k(2), of ?g info'] s' k by (auto intro!: kept_upd simp: fixed_def)
qed

section \<open>Moving between pools\<close>

definition drop_pool :: "pool \<Rightarrow> ('k, 'h, 'p) obs \<Rightarrow> ('k, 'h, 'p) obs" where
  "drop_pool p b = (case p of COMMITTEE_POOL \<Rightarrow> b\<lparr>ob_committee := None\<rparr> | PENDING_POOL \<Rightarrow> b\<lparr>ob_pending := None\<rparr>
     | WAITING_POOL \<Rightarrow> b\<lparr>ob_waiting := None\<rparr> | LOCKING_POOL \<Rightarrow> b\<lparr>ob_locking := None\<rparr>)\<lparr>ob_lists := ob_lists b - {p}\<rparr>"

definition put_pool :: "pool \<Rightarrow> 'k StakerInfoV4 \<Rightarrow> ('k, 'h, 'p) obs \<Rightarrow> ('k, 'h, 'p) obs" where
  "put_pool p si b = (case p of COMMITTEE_POOL \<Rightarrow> b\<lparr>ob_committee := Some si\<rparr> | PENDING_POOL \<Rightarrow> b\<lparr>ob_pending := Some si\<rparr>
     | WAITING_POOL \<Rightarrow> b\<lparr>ob_waiting := Some si\<rparr> | LOCKING_POOL \<Rightarrow> b)\<lparr>ob_lists := insert p (ob_lists b)\<rparr>"

lemma keys_wf_pools:
  assumes "keys_wf vc s"
  shows "keys_wf vc (s\<lparr>v4_committee := al_del c (v4_committee s)\<rparr>)" "keys_wf vc (s\<lparr>v4_pending := al_del c (v4_pending s)\<rparr>)"
    "keys_wf vc (s\<lparr>v4_waiting := al_del c (v4_waiting s)\<rparr>)" "keys_wf vc (s\<lparr>v4_locking := al_del c (v4_locking s)\<rparr>)"
    "keys_wf vc (s\<lparr>v4_committee := al_put (vc_ToBase58 vc k) si (v4_committee s)\<rparr>)"
    "keys_wf vc (s\<lparr>v4_pending := al_put (vc_ToBase58 vc k) si (v4_pending s)\<rparr>)"
    "keys_wf vc (s\<lparr>v4_waiting := al_put (vc_ToBase58 vc k) si (v4_waiting s)\<rparr>)"
    "keys_wf vc (s\<lparr>v4_locking := al_put (vc_ToBase58 vc k) lk (v4_locking s)\<rparr>)"
  using assms unfolding keys_wf_def by (simp_all split: if_splits) (blast+)?

lemma keys_wf_db [simp]: "keys_wf vc (s\<lparr>v4_stateDB := d\<rparr>) = keys_wf vc s"
  by (simp add: keys_wf_def)

lemma lists_of_change:
  "lists_of (d\<lparr>db_committee := db_store k (db_committee d)\<rparr>) k' = (if k' = k then insert COMMITTEE_POOL (lists_of d k') else lists_of d k')"
  "lists_of (d\<lparr>db_pending := db_store k (db_pending d)\<rparr>) k' = (if k' = k then insert PENDING_POOL (lists_of d k') else lists_of d k')"
  "lists_of (d\<lparr>db_waiting := db_store k (db_waiting d)\<rparr>) k' = (if k' = k then insert WAITING_POOL (lists_of d k') else lists_of d k')"
  "lists_of (d\<lparr>db_locking := db_store k (db_locking d)\<rparr>) k' = (if k' = k then insert LOCKING_POOL (lists_of d k') else lists_of d k')"
  "lists_of (d\<lparr>db_committee := removeAll k (db_committee d)\<rparr>) k' = (if k' = k then lists_of d k' - {COMMITTEE_POOL} else lists_of d k')"
  "lists_of (d\<lparr>db_pending := removeAll k (db_pending d)\<rparr>) k' = (if k' = k then lists_of d k' - {PENDING_POOL} else lists_of d k')"
  "lists_of (d\<lparr>db_waiting := removeAll k (db_waiting d)\<rparr>) k' = (if k' = k then lists_of d k' - {WAITING_POOL} else lists_of d k')"
  "lists_of (d\<lparr>db_locking := removeAll k (db_locking d)\<rparr>) k' = (if k' = k then lists_of d k' - {LOCKING_POOL} else lists_of d k')"
  by (simp_all add: lists_of_def) (auto split: if_splits)

lemma removeFromPool_spec:
  assumes "keys_decode vc"
  shows "\<exists>s'. removeFromPool vc p (vc_ToBase58 vc k) s = Inr s' \<and> (keys_wf vc s \<longrightarrow> keys_wf vc s') \<and> same_rest s s' \<and>
    (\<forall>k'. obs vc s' k' = (if k' = k then drop_pool p (obs vc s k) else obs vc s k'))"
proof -
  note enc = enc_decode [OF assms, of k] and inj = enc_inj [OF assms]
  show ?thesis
    by (cases p) (auto simp: removeFromPool_def enc drop_pool_def obs_def upd_db_def Let_def inj lists_of_change same_rest_def keys_wf_pools)
qed

text \<open>The pool and the stored list of a new entry.\<close>

definition put_entry :: "pool \<Rightarrow> string \<Rightarrow> 'k StakerInfoV4 \<Rightarrow> ('k, 'h, 'p) BeaconCommitteeStateV4 \<Rightarrow> ('k, 'h, 'p) BeaconCommitteeStateV4 go" where
  "put_entry q cpk si s = (case q of
     COMMITTEE_POOL \<Rightarrow> Inr (upd_db (\<lambda>d. d\<lparr>db_committee := db_store (si_cpkStruct si) (db_committee d)\<rparr>) (s\<lparr>v4_committee := al_put cpk si (v4_committee s)\<rparr>))
   | PENDING_POOL \<Rightarrow> Inr (upd_db (\<lambda>d. d\<lparr>db_pending := db_store (si_cpkStruct si) (db_pending d)\<rparr>) (s\<lparr>v4_pending := al_put cpk si (v4_pending s)\<rparr>))
   | WAITING_POOL \<Rightarrow> Inr (upd_db (\<lambda>d. d\<lparr>db_waiting := db_store (si_cpkStruct si) (db_waiting d)\<rparr>) (s\<lparr>v4_waiting := al_put cpk si (v4_waiting s)\<rparr>))
   | LOCKING_POOL \<Rightarrow> Inl GoPanic)"

lemma put_entry_spec:
  assumes "keys_decode vc" and "q \<noteq> LOCKING_POOL" and "si_cpkStruct si = k"
  shows "\<exists>s'. put_entry q (vc_ToBase58 vc k) si s = Inr s' \<and> (keys_wf vc s \<longrightarrow> keys_wf vc s') \<and> same_rest s s' \<and>
    (\<forall>k'. obs vc s' k' = (if k' = k then put_pool q si (obs vc s k) else obs vc s k'))"
proof -
  note inj = enc_inj [OF assms(1)]
  show ?thesis using assms(2,3)
    by (cases q) (auto simp: put_entry_def put_pool_def obs_def upd_db_def Let_def inj lists_of_change same_rest_def keys_wf_pools)
qed

lemma addToPool_put:
  "addToPool vc q c si s = (let t = vc_now vc (v4_clock s);
     s1 = update_staker c (\<lambda>si. si\<lparr>si_enterTime := t\<rparr>) (s\<lparr>v4_clock := Suc (v4_clock s)\<rparr>) in
     go_bind (ignore_err s1 (setEnterTime vc c t s1)) (put_entry q c (si\<lparr>si_enterTime := t\<rparr>)))"
  by (simp add: addToPool_def put_entry_def [abs_def] Let_def)

lemma addToPool_spec:
  assumes "keys_decode vc" and "represents vc s r" and "r k = Some (Active p si info)" and "q \<noteq> LOCKING_POOL"
  shows "\<exists>s' t. addToPool vc q (vc_ToBase58 vc k) si s = Inr s' \<and> keys_wf vc s' \<and> same_rest s s' \<and>
    (\<forall>k'. obs vc s' k' = (if k' = k
       then put_pool q (si\<lparr>si_enterTime := t\<rparr>) (shape (Some (Active p (si\<lparr>si_enterTime := t\<rparr>) (info\<lparr>bs_enterTime := t\<rparr>)))) else obs vc s k')) \<and>
    agrees vc k (si\<lparr>si_enterTime := t\<rparr>) (info\<lparr>bs_enterTime := t\<rparr>)"
proof -
  define t where "t = vc_now vc (v4_clock s)"
  define si1 where "si1 = si\<lparr>si_enterTime := t\<rparr>"
  define info1 where "info1 = info\<lparr>bs_enterTime := t\<rparr>"
  let ?c = "vc_ToBase58 vc k"
  let ?s1 = "update_staker ?c (\<lambda>si. si\<lparr>si_enterTime := t\<rparr>) (s\<lparr>v4_clock := Suc (v4_clock s)\<rparr>)"
  have ag: "agrees vc k si info" "si_cpkStruct si = k" using active_agrees [OF assms(2,3)] by (auto simp: agrees_def)
  have r0: "represents vc (s\<lparr>v4_clock := Suc (v4_clock s)\<rparr>) r"
    using assms(2) by (auto simp: represents_def keys_wf_def obs_def)
  have "agrees vc k si1 info" "agrees vc k si1 info1" using ag(1) by (simp_all add: agrees_def si1_def info1_def TotalStakingAmount_def)
  note ags = this
  have st: "store_staker k info ?s1 = ?s1"
    using pools_at(5) [OF r0, of k] assms(3) active_agrees [OF assms(2,3)]
    by (cases p) (auto simp: store_staker_def upd_db_def update_staker_def nobody_def fun_upd_idem)
  have r1: "represents vc ?s1 (r(k \<mapsto> Active p si1 info))"
    using change_staker [where g = "\<lambda>si. si\<lparr>si_enterTime := t\<rparr>", OF assms(1) r0 assms(3), of info] ags(1) st by (simp add: si1_def)
  obtain s2 where s2: "setEnterTime vc ?c t ?s1 = Inr s2" "represents vc s2 (r(k \<mapsto> Active p si1 info1))" "same_rest ?s1 s2"
    using set_both_active [OF assms(1) r1, of k p si1 info "\<lambda>_ si. si\<lparr>si_enterTime := t\<rparr>" "\<lambda>info. info\<lparr>bs_enterTime := t\<rparr>"] ags(2)
    by (auto simp: setEnterTime_def si1_def info1_def)
  have sr: "same_rest s s2" using s2(3) by (simp add: same_rest_def update_staker_def)
  have ob: "obs vc s2 k' = (if k' = k then shape (Some (Active p si1 info1)) else obs vc s k')" for k'
    using representsD(2) [OF s2(2), of k'] representsD(2) [OF assms(2), of k'] by simp
  have kw: "keys_wf vc s2" by (rule representsD(1) [OF s2(2)])
  have "addToPool vc q ?c si s = put_entry q ?c si1 s2"
    using s2(1) by (simp add: addToPool_put Let_def ignore_err_def t_def si1_def)
  moreover have "si_cpkStruct si1 = k" using ag(2) by (simp add: si1_def)
  ultimately obtain s' where "addToPool vc q ?c si s = Inr s'" "keys_wf vc s'" "same_rest s s'"
    "\<forall>k'. obs vc s' k' = (if k' = k then put_pool q si1 (shape (Some (Active p si1 info1))) else obs vc s k')"
    using put_entry_spec [OF assms(1,4), of si1 k s2] kw sr ob same_rest_trans by fastforce
  then show ?thesis using ags(2) unfolding si1_def info1_def by blast
qed

lemma drop_put:
  assumes "p \<noteq> q" and "p \<noteq> LOCKING_POOL" and "q \<noteq> LOCKING_POOL"
  shows "drop_pool p (put_pool q si (shape (Some (Active p si info)))) = shape (Some (Active q si info))"
  using assms by (cases p; cases q) (simp_all add: drop_pool_def put_pool_def nobody_def insert_Diff_if)

text \<open>A staker moves to another active pool.\<close>

lemma move_ok:
  assumes "keys_decode vc" and "represents vc s r" and "r k = Some (Active p si info)" and "q \<noteq> LOCKING_POOL" and "p \<noteq> q"
  shows "\<exists>s' si' info'. go_bind (addToPool vc q (vc_ToBase58 vc k) si s) (removeFromPool vc p (vc_ToBase58 vc k)) = Inr s' \<and>
    represents vc s' (r(k \<mapsto> Active q si' info')) \<and> same_rest s s' \<and> keeps info info' \<and> si_FixedNode si' = si_FixedNode si"
proof -
  have p: "p \<noteq> LOCKING_POOL" using active_agrees [OF assms(2,3)] by simp
  from addToPool_spec [OF assms(1-4)] obtain s1 t where s1: "addToPool vc q (vc_ToBase58 vc k) si s = Inr s1" "keys_wf vc s1" "same_rest s s1"
    "\<forall>k'. obs vc s1 k' = (if k' = k then put_pool q (si\<lparr>si_enterTime := t\<rparr>) (shape (Some (Active p (si\<lparr>si_enterTime := t\<rparr>) (info\<lparr>bs_enterTime := t\<rparr>)))) else obs vc s k')"
    "agrees vc k (si\<lparr>si_enterTime := t\<rparr>) (info\<lparr>bs_enterTime := t\<rparr>)" by blast
  from removeFromPool_spec [OF assms(1), of p k s1] s1(2,3) obtain s2 where s2: "removeFromPool vc p (vc_ToBase58 vc k) s1 = Inr s2" "keys_wf vc s2"
    "same_rest s s2" "\<forall>k'. obs vc s2 k' = (if k' = k then drop_pool p (obs vc s1 k) else obs vc s1 k')"
    using same_rest_trans by blast
  have "represents vc s2 (r(k \<mapsto> Active q (si\<lparr>si_enterTime := t\<rparr>) (info\<lparr>bs_enterTime := t\<rparr>)))"
    by (rule represents_upd [OF assms(2) s2(2)]) (use s1(4,5) s2(4) assms(4) drop_put [OF assms(5) p assms(4)] in simp_all)
  moreover have "keeps info (info\<lparr>bs_enterTime := t\<rparr>)" by (simp add: keeps_def)
  ultimately show ?thesis using s1(1) s2(1,3)
    by (intro exI [of _ s2] exI [of _ "si\<lparr>si_enterTime := t\<rparr>"] exI [of _ "info\<lparr>bs_enterTime := t\<rparr>"]) simp
qed

lemma remove_absent:
  assumes "keys_decode vc" and "represents vc s r" and "r k = Some (Active q si info)" and "p \<noteq> q"
  shows "\<exists>s'. removeFromPool vc p (vc_ToBase58 vc k) s = Inr s' \<and> represents vc s' r \<and> same_rest s s'"
proof -
  have q: "q \<noteq> LOCKING_POOL" using active_agrees [OF assms(2,3)] by simp
  from removeFromPool_spec [OF assms(1), of p k s] representsD(1) [OF assms(2)] obtain s' where
    s': "removeFromPool vc p (vc_ToBase58 vc k) s = Inr s'" "keys_wf vc s'" "same_rest s s'"
    "\<forall>k'. obs vc s' k' = (if k' = k then drop_pool p (obs vc s k) else obs vc s k')" by blast
  have "drop_pool p (obs vc s k) = obs vc s k" using representsD(2) [OF assms(2), of k] assms(3,4) q
    by (cases q) (auto simp: drop_pool_def nobody_def split: pool.splits)
  then show ?thesis using s' represents_same [OF assms(2) s'(2)] by auto
qed

section \<open>Locking\<close>

definition locked_obs :: "pool \<Rightarrow> 'k StakerInfoV4 \<Rightarrow> 'k LockingInfo \<Rightarrow> ('h, 'p) BeaconStakerInfo \<Rightarrow> ('k, 'h, 'p) obs" where
  "locked_obs p si lk info = (shape (Some (Active p si info)))\<lparr>ob_locking := Some lk, ob_lists := {LOCKING_POOL, p}\<rparr>"

lemma setLocking_spec:
  assumes "keys_decode vc" and "represents vc s r" and "r k = Some (Active p si info)"
  shows "\<exists>s' lk. setLocking vc (vc_ToBase58 vc k) epoch unlock reason s = Inr s' \<and> keys_wf vc s' \<and> same_rest s s' \<and>
    lk = \<lparr>lk_cpk = k, lk_LockingEpoch = epoch, lk_LockingReason = reason\<rparr> \<and>
    (\<forall>k'. obs vc s' k' = (if k' = k then locked_obs p si lk (SetLocking epoch unlock reason info) else obs vc s k'))"
proof -
  have k: "si_cpkStruct si = k" "p \<noteq> LOCKING_POOL" using active_agrees [OF assms(2,3)] by (auto simp: agrees_def)
  have "obs vc s k = shape (Some (Active p si info))" using representsD(2) [OF assms(2), of k] assms(3) by simp
  then have at: "map_of (v4_committee s) (vc_ToBase58 vc k) = ob_committee (shape (Some (Active p si info)))"
    "map_of (v4_pending s) (vc_ToBase58 vc k) = ob_pending (shape (Some (Active p si info)))"
    "map_of (v4_waiting s) (vc_ToBase58 vc k) = ob_waiting (shape (Some (Active p si info)))"
    "lists_of (v4_stateDB s) k = {p}" using k(2) pools_at [OF assms(2), of k] assms(3) by (cases p; simp)+
  let ?lk = "\<lparr>lk_cpk = k, lk_LockingEpoch = epoch, lk_LockingReason = reason\<rparr>"
  let ?s' = "store_staker k (SetLocking epoch unlock reason info)
    (upd_db (\<lambda>d. d\<lparr>db_locking := db_store k (db_locking d)\<rparr>) (s\<lparr>v4_locking := al_put (vc_ToBase58 vc k) ?lk (v4_locking s)\<rparr>))"
  have "setLocking vc (vc_ToBase58 vc k) epoch unlock reason s = Inr ?s'"
    using lookup_active [OF assms(2), of k] lookup_record [OF assms(1,2), of k] assms(3) k(1) by (simp add: setLocking_def)
  moreover have "obs vc ?s' k' = (if k' = k then locked_obs p si ?lk (SetLocking epoch unlock reason info) else obs vc s k')" for k'
    using at k(2) enc_inj [OF assms(1)] unfolding obs_store_staker
    by (cases p) (auto simp: obs_def upd_db_def Let_def locked_obs_def nobody_def lists_of_change)
  moreover have "keys_wf vc ?s'" using keys_wf_pools(8) [OF representsD(1) [OF assms(2)]] by simp
  moreover have "same_rest s ?s'" by (simp add: same_rest_def store_staker_def upd_db_def)
  ultimately show ?thesis by blast
qed

lemma drop_locked:
  assumes "p \<noteq> LOCKING_POOL"
  shows "drop_pool p (locked_obs p si lk info) = shape (Some (Locked lk info))"
    and "p' \<noteq> p \<Longrightarrow> p' \<noteq> LOCKING_POOL \<Longrightarrow> drop_pool p' (locked_obs p si lk info) = locked_obs p si lk info"
    and "p' \<noteq> LOCKING_POOL \<Longrightarrow> drop_pool p' (shape (Some (Locked lk info))) = shape (Some (Locked lk info))"
  using assms by (cases p; auto simp: drop_pool_def locked_obs_def nobody_def split: pool.splits)+

text \<open>Locking and removing from active pools, among them the one of the staker.\<close>

fun remove_all :: "('k, 'h, 'p) v4_calls \<Rightarrow> pool list \<Rightarrow> string \<Rightarrow> ('k, 'h, 'p) BeaconCommitteeStateV4 \<Rightarrow> ('k, 'h, 'p) BeaconCommitteeStateV4 go" where
  "remove_all vc [] c s = Inr s"
| "remove_all vc (p # ps) c s = go_bind (removeFromPool vc p c s) (remove_all vc ps c)"

lemma remove_all_spec:
  assumes "keys_decode vc" and "keys_wf vc s"
  shows "\<exists>s'. remove_all vc ps (vc_ToBase58 vc k) s = Inr s' \<and> keys_wf vc s' \<and> same_rest s s' \<and>
    (\<forall>k'. obs vc s' k' = (if k' = k then foldl (\<lambda>b p. drop_pool p b) (obs vc s k) ps else obs vc s k'))"
  using assms(2)
proof (induction ps arbitrary: s)
  case (Cons p ps)
  from removeFromPool_spec [OF assms(1), of p k s] Cons.prems obtain s1 where
    s1: "removeFromPool vc p (vc_ToBase58 vc k) s = Inr s1" "keys_wf vc s1" "same_rest s s1"
    "\<forall>k'. obs vc s1 k' = (if k' = k then drop_pool p (obs vc s k) else obs vc s k')" by blast
  from Cons.IH [OF s1(2)] s1 show ?case using same_rest_trans by fastforce
qed auto

lemma drop_all_locked:
  "p \<noteq> LOCKING_POOL \<Longrightarrow> LOCKING_POOL \<notin> set ps \<Longrightarrow> p \<in> set ps \<Longrightarrow>
   foldl (\<lambda>b p. drop_pool p b) (locked_obs p si lk info) ps = shape (Some (Locked lk info))"
proof (induction ps)
  case (Cons q qs)
  have "LOCKING_POOL \<notin> set qs \<Longrightarrow> foldl (\<lambda>b p. drop_pool p b) (shape (Some (Locked lk info))) qs = shape (Some (Locked lk info))"
    by (induction qs) (auto simp: drop_locked(3) [OF Cons.prems(1)] simp del: shape.simps)
  then show ?case using Cons by (cases "q = p") (auto simp: drop_locked [OF Cons.prems(1)] simp del: shape.simps)
qed simp

lemma lock_ok:
  assumes "keys_decode vc" and "represents vc s r" and "r k = Some (Active p si info)" and "LOCKING_POOL \<notin> set ps" and "p \<in> set ps"
    and "reason = BY_SLASH \<or> reason = BY_UNSTAKE"
  shows "\<exists>s' lk. go_bind (setLocking vc (vc_ToBase58 vc k) epoch unlock reason s) (remove_all vc ps (vc_ToBase58 vc k)) = Inr s' \<and>
    represents vc s' (r(k \<mapsto> Locked lk (SetLocking epoch unlock reason info))) \<and> same_rest s s'"
proof -
  have p: "p \<noteq> LOCKING_POOL" using active_agrees [OF assms(2,3)] by simp
  from setLocking_spec [OF assms(1-3)] obtain s1 lk where s1: "setLocking vc (vc_ToBase58 vc k) epoch unlock reason s = Inr s1" "keys_wf vc s1"
    "same_rest s s1" "lk = \<lparr>lk_cpk = k, lk_LockingEpoch = epoch, lk_LockingReason = reason\<rparr>"
    "\<forall>k'. obs vc s1 k' = (if k' = k then locked_obs p si lk (SetLocking epoch unlock reason info) else obs vc s k')" by blast
  from remove_all_spec [OF assms(1) s1(2), of ps k] obtain s2 where s2: "remove_all vc ps (vc_ToBase58 vc k) s1 = Inr s2" "keys_wf vc s2"
    "same_rest s1 s2" "\<forall>k'. obs vc s2 k' = (if k' = k then foldl (\<lambda>b p. drop_pool p b) (obs vc s1 k) ps else obs vc s1 k')" by blast
  have "represents vc s2 (r(k \<mapsto> Locked lk (SetLocking epoch unlock reason info)))"
    by (rule represents_upd [OF assms(2) s2(2)])
      (use s1(4,5) s2(4) drop_all_locked [OF p assms(4,5)] assms(6) active_agrees [OF assms(2,3)] in \<open>auto simp: SetLocking_def agrees_def\<close>)
  then show ?thesis using s1(1,3) s2(1,3) same_rest_trans by auto
qed

section \<open>Pool lists\<close>

lemma ex_pool: "(\<exists>p. Q p) \<longleftrightarrow> Q COMMITTEE_POOL \<or> Q PENDING_POOL \<or> Q WAITING_POOL \<or> Q LOCKING_POOL"
  by (metis pool.exhaust)

fun entries :: "pool \<Rightarrow> ('k, 'h, 'p) BeaconCommitteeStateV4 \<Rightarrow> (string \<times> 'k StakerInfoV4) list" where
  "entries COMMITTEE_POOL s = v4_committee s"
| "entries PENDING_POOL s = v4_pending s"
| "entries WAITING_POOL s = v4_waiting s"
| "entries LOCKING_POOL s = []"

lemma map_of_entries:
  assumes "represents vc s r" and "p \<noteq> LOCKING_POOL"
  shows "map_of (entries p s) (vc_ToBase58 vc k) = Some si \<longleftrightarrow> (\<exists>info. r k = Some (Active p si info))"
proof -
  have ok: "role_ok vc k (r k)" by (rule representsD(3) [OF assms(1)])
  show ?thesis
  proof (cases "r k")
    case None
    then show ?thesis using pools_at [OF assms(1), of k] assms(2) by (cases p) (auto simp: nobody_def)
  next
    case (Some x)
    show ?thesis
    proof (cases x)
      case (Active q si' info)
      then show ?thesis using Some ok pools_at [OF assms(1), of k] assms(2) by (cases p; cases q) (auto simp: nobody_def)
    next
      case (Locked lk info)
      then show ?thesis using Some pools_at [OF assms(1), of k] assms(2) by (cases p) (auto simp: nobody_def)
    qed
  qed
qed

lemma in_entries:
  assumes "represents vc s r" and "p \<noteq> LOCKING_POOL"
  shows "(c, si) \<in> set (entries p s) \<longleftrightarrow> (\<exists>k info. c = vc_ToBase58 vc k \<and> r k = Some (Active p si info))"
proof -
  have kw: "keys_wf vc s" by (rule representsD(1) [OF assms(1)])
  then have "distinct (map fst (entries p s))" using assms(2) by (cases p) (auto simp: keys_wf_def)
  then have eq: "(c, si) \<in> set (entries p s) \<longleftrightarrow> map_of (entries p s) c = Some si" by simp
  have "map_of (entries p s) c \<noteq> None \<Longrightarrow> c \<in> range (vc_ToBase58 vc)" using kw assms(2) by (cases p) (auto simp: keys_wf_def)
  then show ?thesis unfolding eq using map_of_entries [OF assms] by (metis option.distinct(1) rangeE)
qed

definition staked_in :: "pool \<Rightarrow> ('k, 'h, 'p) role option \<Rightarrow> bool" where
  "staked_in p x \<longleftrightarrow> (\<exists>si info. x = Some (Active p si info))"

lemma pool_list_keys:
  assumes "keys_decode vc" and "sorts (vc_sortStakers vc)" and "represents vc s r" and "p \<noteq> LOCKING_POOL"
  shows "distinct (GetKeyStructListFromMapStaker vc (entries p s))"
    and "set (GetKeyStructListFromMapStaker vc (entries p s)) = {k. staked_in p (r k)}"
proof -
  let ?m = "entries p s"
  have split: "mset (filter P xs) + mset (filter (\<lambda>x. \<not> P x) xs) = mset xs" for P and xs :: "'a StakerInfoV4 list"
    by (induction xs) auto
  have "mset (GetKeyStructListFromMapStaker vc ?m) = mset (map si_cpkStruct (map snd ?m))"
    by (simp only: GetKeyStructListFromMapStaker_def mset_map mset_append sorts_mset [OF assms(2)] split)
  then have ms: "mset (GetKeyStructListFromMapStaker vc ?m) = mset (map (si_cpkStruct \<circ> snd) ?m)" by (simp only: map_map)
  have cs: "vc_ToBase58 vc (si_cpkStruct si) = c" if "(c, si) \<in> set ?m" for c si
    using that in_entries [OF assms(3,4)] active_agrees [OF assms(3)] by (auto simp: agrees_def)
  have "map (vc_ToBase58 vc) (map (si_cpkStruct \<circ> snd) ?m) = map fst ?m" using cs by (auto intro!: map_cong)
  moreover have "distinct (map fst ?m)" using representsD(1) [OF assms(3)] assms(4) by (cases p) (auto simp: keys_wf_def)
  ultimately have "distinct (map (si_cpkStruct \<circ> snd) ?m)" by (metis distinct_map)
  then show "distinct (GetKeyStructListFromMapStaker vc ?m)" using ms by (metis mset_eq_imp_distinct_iff)
  have "set (GetKeyStructListFromMapStaker vc ?m) = set (map (si_cpkStruct \<circ> snd) ?m)" using ms by (metis set_mset_mset)
  also have "\<dots> = {k. staked_in p (r k)}"
  proof (rule set_eqI)
    fix k
    have "k \<in> set (map (si_cpkStruct \<circ> snd) ?m) \<longleftrightarrow> (\<exists>c si. (c, si) \<in> set ?m \<and> si_cpkStruct si = k)" by force
    also have "\<dots> \<longleftrightarrow> staked_in p (r k)"
      unfolding in_entries [OF assms(3,4)] staked_in_def using active_agrees [OF assms(3)] unfolding agrees_def by metis
    finally show "k \<in> set (map (si_cpkStruct \<circ> snd) ?m) \<longleftrightarrow> k \<in> {k. staked_in p (r k)}" by simp
  qed
  finally show "set (GetKeyStructListFromMapStaker vc ?m) = {k. staked_in p (r k)}" .
qed

section \<open>Loops over stakers\<close>

text \<open>A loop that treats every item at its own key and only asks for the role of that key runs through.\<close>

lemma role_loop:
  assumes step: "\<And>s r x. represents vc s r \<Longrightarrow> same_rest s0 s \<Longrightarrow> A x (r (key x)) \<Longrightarrow>
    \<exists>s' y. f s x = Inr s' \<and> represents vc s' (r(key x \<mapsto> y)) \<and> same_rest s s' \<and> kept r (r(key x \<mapsto> y)) \<and> B x (r (key x)) y"
  shows "represents vc s r \<Longrightarrow> same_rest s0 s \<Longrightarrow> distinct (map key xs) \<Longrightarrow> \<forall>x \<in> set xs. A x (r (key x)) \<Longrightarrow>
    \<exists>s' r'. go_foldl f s xs = Inr s' \<and> represents vc s' r' \<and> same_rest s0 s' \<and> kept r r' \<and> (\<forall>k. k \<notin> key ` set xs \<longrightarrow> r' k = r k) \<and>
      (\<forall>x \<in> set xs. \<exists>y. r' (key x) = Some y \<and> B x (r (key x)) y)"
proof (induction xs arbitrary: s r)
  case Nil
  then show ?case by (intro exI [of _ s] exI [of _ r]) auto
next
  case (Cons x xs)
  from step [OF Cons.prems(1,2), of x] Cons.prems(4) obtain s1 y where s1: "f s x = Inr s1" "represents vc s1 (r(key x \<mapsto> y))" "same_rest s s1"
    "kept r (r(key x \<mapsto> y))" "B x (r (key x)) y" by auto
  have "key x \<notin> key ` set xs" using Cons.prems(3) by simp
  then have ne: "key z \<noteq> key x" if "z \<in> set xs" for z using that by (metis image_eqI)
  have "\<forall>z \<in> set xs. A z ((r(key x \<mapsto> y)) (key z))" using Cons.prems(4) ne by auto
  have d: "distinct (map key xs)" using Cons.prems(3) by simp
  from Cons.IH [OF s1(2) same_rest_trans [OF Cons.prems(2) s1(3)] d \<open>\<forall>z \<in> set xs. A z _\<close>] obtain s' r' where
    rest: "go_foldl f s1 xs = Inr s'" "represents vc s' r'" "same_rest s0 s'" "kept (r(key x \<mapsto> y)) r'"
      "\<forall>k. k \<notin> key ` set xs \<longrightarrow> r' k = (r(key x \<mapsto> y)) k" "\<forall>z \<in> set xs. \<exists>w. r' (key z) = Some w \<and> B z ((r(key x \<mapsto> y)) (key z)) w" by blast
  have "r' (key x) = Some y" using rest(5) \<open>key x \<notin> key ` set xs\<close> by simp
  moreover have "\<exists>w. r' (key z) = Some w \<and> B z (r (key z)) w" if "z \<in> set xs" for z using rest(6) that ne by auto
  ultimately show ?case using rest(1,2,3,5) s1(1,5) kept_trans [OF s1(4) rest(4)] by auto
qed

end
