(* ===== verification/Beacon_Epoch.thy ===== *)
theory Beacon_Epoch
  imports Beacon_Roles
begin

text \<open>
  The end of an epoch of the fourth engine on roles: slashing, unstaking and the swap (\<^verbatim>\<open>ProcessBeaconSwapAndSlash\<close> of
  \<^verbatim>\<open>beacon_committee_state_v4.go\<close>). In a state that represents roles it is processed without error,
  and roles only evolve.
\<close>

section \<open>Slashing and unstaking\<close>

fun is_locked :: "('k, 'h, 'p) role option \<Rightarrow> bool" where
  "is_locked (Some (Locked lk info)) = True"
| "is_locked _ = False"

definition lockable :: "pool list \<Rightarrow> ('k, 'h, 'p) role option \<Rightarrow> bool" where
  "lockable ps x \<longleftrightarrow> (\<exists>p si info. x = Some (Active p si info) \<and> p \<in> set ps \<and> \<not> fixed p si)"

lemma decoded_key:
  assumes "keys_decode vc" and "c = vc_ToBase58 vc k"
  shows "the (FromString (vc_codec vc) c) = k"
  using assms by (simp add: enc_decode)

lemma distinct_decoded:
  assumes "keys_decode vc" and "distinct (map fst xs)" and "\<forall>x \<in> set xs. fst x \<in> range (vc_ToBase58 vc)"
  shows "distinct (map (\<lambda>x. the (FromString (vc_codec vc) (fst x))) xs)"
proof -
  have "vc_ToBase58 vc (the (FromString (vc_codec vc) (fst x))) = fst x" if "x \<in> set xs" for x
    using that assms(1,3) by (auto simp: enc_decode)
  then have "map (vc_ToBase58 vc) (map (\<lambda>x. the (FromString (vc_codec vc) (fst x))) xs) = map fst xs" by simp
  then show ?thesis using assms(2) by (metis distinct_map)
qed

lemma lock_loop:
  fixes xs :: "(string \<times> nat) list"
  assumes "keys_decode vc" and "represents vc s r" and "LOCKING_POOL \<notin> set ps" and "reason = BY_SLASH \<or> reason = BY_UNSTAKE"
    and "distinct (map fst xs)" and items: "\<forall>x \<in> set xs. \<exists>k. fst x = vc_ToBase58 vc k \<and> lockable ps (r k)"
    and f: "\<And>s x. f s x = go_bind (setLocking vc (fst x) epoch (snd x) reason s) (remove_all vc ps (fst x))"
  shows "\<exists>s' r'. go_foldl f s xs = Inr s' \<and> represents vc s' r' \<and> same_rest s s' \<and> kept r r' \<and>
    (\<forall>k. r' k = r k \<or> vc_ToBase58 vc k \<in> fst ` set xs) \<and> (\<forall>k. vc_ToBase58 vc k \<in> fst ` set xs \<longrightarrow> is_locked (r' k))"
proof -
  let ?key = "\<lambda>x. the (FromString (vc_codec vc) (fst x))"
  have key: "fst x = vc_ToBase58 vc (?key x)" if "x \<in> set xs" for x using that items decoded_key [OF assms(1)] by metis
  let ?A = "\<lambda>x ro. fst x = vc_ToBase58 vc (?key x) \<and> lockable ps ro"
  have "\<exists>s' r'. go_foldl f s xs = Inr s' \<and> represents vc s' r' \<and> same_rest s s' \<and> kept r r' \<and> (\<forall>k. k \<notin> ?key ` set xs \<longrightarrow> r' k = r k) \<and>
      (\<forall>x \<in> set xs. \<exists>y. r' (?key x) = Some y \<and> is_locked (Some y))"
  proof (rule role_loop [where A = ?A, OF _ assms(2) same_rest_refl])
    fix s1 r1 and x :: "string \<times> nat"
    assume a: "represents vc s1 r1" "fst x = vc_ToBase58 vc (?key x) \<and> lockable ps (r1 (?key x))"
    then obtain p si info where p: "r1 (?key x) = Some (Active p si info)" "p \<in> set ps" "\<not> fixed p si" by (auto simp: lockable_def)
    from lock_ok [OF assms(1) a(1) p(1) assms(3) p(2) assms(4), of epoch "snd x"] obtain s' lk where
      s': "f s1 x = Inr s'" "represents vc s' (r1(?key x \<mapsto> Locked lk (SetLocking epoch (snd x) reason info)))" "same_rest s1 s'"
      using a(2) f [of s1 x] by auto
    have "evolves (Active p si info) (Locked lk (SetLocking epoch (snd x) reason info))" using p(3) by (simp add: keeps_def SetLocking_def)
    then have "kept r1 (r1(?key x \<mapsto> Locked lk (SetLocking epoch (snd x) reason info)))" by (rule kept_upd [of r1, OF p(1)])
    then show "\<exists>s' y. f s1 x = Inr s' \<and> represents vc s' (r1(?key x \<mapsto> y)) \<and> same_rest s1 s' \<and> kept r1 (r1(?key x \<mapsto> y)) \<and> is_locked (Some y)"
      using s' by (intro exI [of _ s'] exI [of _ "Locked lk (SetLocking epoch (snd x) reason info)"]) simp
  next
    show "distinct (map ?key xs)" using distinct_decoded [OF assms(1,5)] items by blast
    show "\<forall>x \<in> set xs. ?A x (r (?key x))" using items key decoded_key [OF assms(1)] by metis
  qed
  then obtain s' r' where res: "go_foldl f s xs = Inr s'" "represents vc s' r'" "same_rest s s'" "kept r r'"
    "\<forall>k. k \<notin> ?key ` set xs \<longrightarrow> r' k = r k" "\<forall>x \<in> set xs. \<exists>y. r' (?key x) = Some y \<and> is_locked (Some y)" by blast
  have mem: "k \<in> ?key ` set xs \<longleftrightarrow> vc_ToBase58 vc k \<in> fst ` set xs" for k
    using key decoded_key [OF assms(1)] by (metis (no_types, lifting) image_iff)
  have "is_locked (r' k)" if "vc_ToBase58 vc k \<in> fst ` set xs" for k
  proof -
    have "k \<in> ?key ` set xs" using that mem by blast
    then show ?thesis using res(6) by auto
  qed
  then show ?thesis using res(1-5) mem by blast
qed

lemma go_bind_Inr [simp]: "go_bind m Inr = m"
  by (cases m) auto

lemma remove_all_lists:
  "remove_all vc [p] c = removeFromPool vc p c"
  "remove_all vc [p, q, l] c = (\<lambda>s. go_bind (removeFromPool vc p c s) (\<lambda>s. go_bind (removeFromPool vc q c s) (removeFromPool vc l c)))"
proof -
  have nil: "remove_all vc [] c = Inr" by (rule ext) simp
  show one: "remove_all vc [p] c = removeFromPool vc p c" for p by (rule ext) (simp add: nil)
  have two: "remove_all vc [q, l] c = (\<lambda>s. go_bind (removeFromPool vc q c s) (removeFromPool vc l c))"
    by (rule ext) (subst remove_all.simps(2), simp only: one)
  show "remove_all vc [p, q, l] c = (\<lambda>s. go_bind (removeFromPool vc p c s) (\<lambda>s. go_bind (removeFromPool vc q c s) (removeFromPool vc l c)))"
    by (rule ext) (subst remove_all.simps(2), simp only: two)
qed

lemma slash_loop:
  assumes "keys_decode vc" and "represents vc s r"
  shows "\<exists>s' r'. go_foldl (beacon_slash_step vc ctx) s (slash_list ctx s) = Inr s' \<and> represents vc s' r' \<and> same_rest s s' \<and> kept r r' \<and>
    (\<forall>k si info. r k = Some (Active COMMITTEE_POOL si info) \<and> si_Performance si \<le> MIN_PERFORMANCE (v4_config s) \<and> \<not> si_FixedNode si \<longrightarrow> is_locked (r' k)) \<and>
    (\<forall>k. r' k = r k \<or> is_locked (r' k))"
proof -
  let ?xs = "slash_list ctx s"
  have mem: "(c, u) \<in> set ?xs \<longleftrightarrow> (\<exists>k si info. c = vc_ToBase58 vc k \<and> r k = Some (Active COMMITTEE_POOL si info) \<and>
      si_Performance si \<le> MIN_PERFORMANCE (v4_config s) \<and> \<not> si_FixedNode si \<and> u = unlock_epoch ctx (v4_config s) si)" for c u
    using in_entries [OF assms(2), of COMMITTEE_POOL] by (auto simp: slash_list_def image_iff)
  have "distinct (map fst ?xs)"
    using representsD(1) [OF assms(2)] by (auto simp: slash_list_def keys_wf_def case_prod_unfold comp_def distinct_map_filter)
  moreover have "\<forall>x \<in> set ?xs. \<exists>k. fst x = vc_ToBase58 vc k \<and> lockable [COMMITTEE_POOL] (r k)"
    using mem by (fastforce simp: lockable_def fixed_def)
  moreover have "beacon_slash_step vc ctx s x = go_bind (setLocking vc (fst x) (pc_Epoch ctx) (snd x) BY_SLASH s) (remove_all vc [COMMITTEE_POOL] (fst x))" for s x
    by (cases x) (simp add: beacon_slash_step_def remove_all_lists del: remove_all.simps)
  ultimately obtain s' r' where res: "go_foldl (beacon_slash_step vc ctx) s ?xs = Inr s'" "represents vc s' r'" "same_rest s s'" "kept r r'"
    "\<forall>k. r' k = r k \<or> vc_ToBase58 vc k \<in> fst ` set ?xs" "\<forall>k. vc_ToBase58 vc k \<in> fst ` set ?xs \<longrightarrow> is_locked (r' k)"
    using lock_loop [where f = "beacon_slash_step vc ctx" and epoch = "pc_Epoch ctx", OF assms, of "[COMMITTEE_POOL]" BY_SLASH ?xs] by auto
  have "vc_ToBase58 vc k \<in> fst ` set ?xs" if "r k = Some (Active COMMITTEE_POOL si info)" "si_Performance si \<le> MIN_PERFORMANCE (v4_config s)"
    "\<not> si_FixedNode si" for k si info
    using mem [of "vc_ToBase58 vc k"] that by (metis fst_conv image_eqI)
  then show ?thesis using res by blast
qed

lemma put_all_keys: "fst ` set (foldl (\<lambda>acc (c, si). al_put c (g si) acc) acc xs) = fst ` set acc \<union> fst ` set xs"
proof (induction xs arbitrary: acc)
  case (Cons x xs)
  then show ?case by (cases x) (simp add: keys_al_put_set)
qed simp

lemma put_all_distinct: "distinct (map fst acc) \<Longrightarrow> distinct (map fst (foldl (\<lambda>acc (c, si). al_put c (g si) acc) acc xs))"
  by (induction xs arbitrary: acc) (auto split: prod.splits)

lemma unstake_loop:
  assumes "keys_decode vc" and "represents vc s r"
  shows "\<exists>s' r'. go_foldl (beacon_unstake_step vc ctx) s (unstake_list ctx s) = Inr s' \<and> represents vc s' r' \<and> same_rest s s' \<and> kept r r' \<and>
    (\<forall>k p si info. r k = Some (Active p si info) \<and> si_Unstake si \<and> \<not> si_FixedNode si \<longrightarrow> is_locked (r' k)) \<and>
    (\<forall>k. r' k = r k \<or> is_locked (r' k))"
proof -
  let ?xs = "unstake_list ctx s"
  let ?all = "v4_committee s @ v4_pending s @ v4_waiting s"
  let ?ps = "[COMMITTEE_POOL, PENDING_POOL, WAITING_POOL]"
  have keys: "fst ` set ?xs = fst ` set (filter (\<lambda>(_, si). si_Unstake si \<and> \<not> si_FixedNode si) ?all)"
    unfolding unstake_list_def put_all_keys by simp
  have d: "distinct (map fst ?xs)" unfolding unstake_list_def by (rule put_all_distinct) simp
  have all: "(c, si) \<in> set ?all \<longleftrightarrow> (\<exists>k p info. c = vc_ToBase58 vc k \<and> r k = Some (Active p si info))" for c si
  proof -
    have "(c, si) \<in> set ?all \<longleftrightarrow> (\<exists>p. p \<noteq> LOCKING_POOL \<and> (c, si) \<in> set (entries p s))"
      by (simp add: ex_pool)
    also have "\<dots> \<longleftrightarrow> (\<exists>k p info. c = vc_ToBase58 vc k \<and> r k = Some (Active p si info))"
      using in_entries [OF assms(2)] active_agrees [OF assms(2)] by blast
    finally show ?thesis .
  qed
  have mem: "c \<in> fst ` set ?xs \<longleftrightarrow> (\<exists>k p si info. c = vc_ToBase58 vc k \<and> r k = Some (Active p si info) \<and> si_Unstake si \<and> \<not> si_FixedNode si)" for c
  proof -
    have "c \<in> fst ` set ?xs \<longleftrightarrow> (\<exists>si. (c, si) \<in> set ?all \<and> si_Unstake si \<and> \<not> si_FixedNode si)" unfolding keys by force
    then show ?thesis unfolding all by blast
  qed
  have pools: "p \<in> set ?ps" if "r k = Some (Active p si info)" for k p si info
    using active_agrees [OF assms(2) that] by (cases p) auto
  have "\<forall>x \<in> set ?xs. \<exists>k. fst x = vc_ToBase58 vc k \<and> lockable ?ps (r k)"
  proof
    fix x assume "x \<in> set ?xs"
    then obtain k p si info where "fst x = vc_ToBase58 vc k" "r k = Some (Active p si info)" "\<not> si_FixedNode si" using mem [of "fst x"] by auto
    then show "\<exists>k. fst x = vc_ToBase58 vc k \<and> lockable ?ps (r k)" using pools by (auto simp: lockable_def fixed_def)
  qed
  moreover have "beacon_unstake_step vc ctx s x = go_bind (setLocking vc (fst x) (pc_Epoch ctx) (snd x) BY_UNSTAKE s) (remove_all vc ?ps (fst x))" for s x
    by (cases x) (simp add: beacon_unstake_step_def remove_all_lists del: remove_all.simps)
  ultimately obtain s' r' where res: "go_foldl (beacon_unstake_step vc ctx) s ?xs = Inr s'" "represents vc s' r'" "same_rest s s'" "kept r r'"
    "\<forall>k. r' k = r k \<or> vc_ToBase58 vc k \<in> fst ` set ?xs" "\<forall>k. vc_ToBase58 vc k \<in> fst ` set ?xs \<longrightarrow> is_locked (r' k)"
    using lock_loop [where f = "beacon_unstake_step vc ctx" and epoch = "pc_Epoch ctx", OF assms, of ?ps BY_UNSTAKE ?xs] d by auto
  then show ?thesis using mem by blast
qed

section \<open>The swap at the end of an epoch\<close>

lemma go_map_key:
  assumes "\<forall>x \<in> set xs. \<exists>y. f x = Inr y \<and> key y = x"
  obtains ys where "go_map f xs = Inr ys" "map key ys = xs"
  using assms
proof (induction xs arbitrary: thesis)
  case (Cons x xs)
  obtain ys where ys: "go_map f xs = Inr ys" "map key ys = xs" using Cons.IH Cons.prems(2) by auto
  obtain y where y: "f x = Inr y" "key y = x" using Cons.prems(2) by auto
  then show ?case using Cons.prems(1) [of "y # ys"] ys by auto
qed simp

lemma lefts_rights:
  "mset (lefts ys) + image_mset f (mset (rights ys)) = mset (map (case_sum id f) ys)"
  by (induction ys) (auto simp: lefts_def rights_def split: sum.splits)

lemma in_rights: "c \<in> set (rights ys) \<Longrightarrow> Inr c \<in> set ys"
  by (induction ys) (auto simp: rights_def split: sum.splits)

definition in_committees :: "('k, 'h, 'p) role option \<Rightarrow> bool" where
  "in_committees x \<longleftrightarrow> staked_in COMMITTEE_POOL x \<or> staked_in PENDING_POOL x"

definition not_fixed :: "('k, 'h, 'p) role option \<Rightarrow> bool" where
  "not_fixed x \<longleftrightarrow> (\<forall>p si info. x = Some (Active p si info) \<longrightarrow> \<not> fixed p si)"

lemma V4_swap_spec:
  assumes "keys_decode vc" and "sorts (vc_sortStakers vc)" and "sorts (vc_sortCandidates vc)" and "represents vc s r"
  shows "\<exists>nc np. V4_beacon_swap_v1 vc s = Inr (nc, np) \<and> distinct (nc @ np) \<and> (\<forall>k \<in> set (nc @ np). in_committees (r k)) \<and>
    (\<forall>k \<in> set np. not_fixed (r k))"
proof -
  let ?P = "V4_GetBeaconSubstitute vc s"
  let ?C = "V4_GetBeaconCommittee vc s"
  have P: "distinct ?P" "set ?P = {k. staked_in PENDING_POOL (r k)}" and C: "distinct ?C" "set ?C = {k. staked_in COMMITTEE_POOL (r k)}"
    using pool_list_keys [OF assms(1,2,4), of PENDING_POOL] pool_list_keys [OF assms(1,2,4), of COMMITTEE_POOL]
    by (simp_all add: V4_GetBeaconSubstitute_def V4_GetBeaconCommittee_def)
  have "\<forall>k \<in> set ?P. \<exists>y. pending_candidate vc s k = Inr y \<and> cand_cpk y = k"
    using P(2) lookup_active [OF assms(4)] active_agrees [OF assms(4)] by (auto simp: staked_in_def pending_candidate_def agrees_def)
  then obtain ps where ps: "go_map (pending_candidate vc s) ?P = Inr ps" "map cand_cpk ps = ?P" by (rule go_map_key)
  have mem: "committee_candidate vc s k = Inr (if si_FixedNode si then Inl k
      else Inr \<lparr>cand_cpk = k, cand_cpkStr = vc_ToBase58 vc k, cand_score = u64 (si_Performance si * si_StakingAmount si), currentRole = ''committee''\<rparr>)"
    if "r k = Some (Active COMMITTEE_POOL si info)" for k si info
    using lookup_active [OF assms(4), of k] active_agrees [OF assms(4) that] that by (auto simp: committee_candidate_def agrees_def)
  have "\<forall>k \<in> set ?C. \<exists>y. committee_candidate vc s k = Inr y \<and> case_sum id cand_cpk y = k"
  proof
    fix k assume "k \<in> set ?C"
    then obtain si info where si: "r k = Some (Active COMMITTEE_POOL si info)" using C(2) by (auto simp: staked_in_def)
    show "\<exists>y. committee_candidate vc s k = Inr y \<and> case_sum id cand_cpk y = k" using mem [OF si] by (auto split: if_splits)
  qed
  then obtain ms where ms: "go_map (committee_candidate vc s) ?C = Inr ms" "map (case_sum id cand_cpk) ms = ?C" by (rule go_map_key)
  have nf: "not_fixed (r (cand_cpk c))" if c: "c \<in> set (rights ms)" for c
  proof -
    obtain k where k: "k \<in> set ?C" "committee_candidate vc s k = Inr (Inr c)" using go_map_set [OF ms(1) in_rights [OF c]] by blast
    then obtain si info where si: "r k = Some (Active COMMITTEE_POOL si info)" using C(2) by (auto simp: staked_in_def)
    then show ?thesis using mem [OF si] k(2) by (auto simp: not_fixed_def fixed_def split: if_splits)
  qed
  obtain p' c' where sw: "beacon_swap_v1 (vc_sortCandidates vc) ps (rights ms) (int (length (lefts ms)))
      (BEACON_COMMITTEE_SIZE (v4_config s) - int (length (lefts ms))) = (p', c')" by fastforce
  note cons = beacon_swap_mset [OF assms(3) sw]
  let ?nc = "lefts ms @ map cand_cpk c'" and ?np = "map cand_cpk p'"
  have "mset (?nc @ ?np) = mset (lefts ms) + image_mset cand_cpk (mset p' + mset c')" by simp
  also have "\<dots> = mset ?C + mset ?P" unfolding cons using lefts_rights [of ms cand_cpk] ms(2) ps(2) by (simp add: ac_simps flip: mset_map)
  finally have all: "mset (?nc @ ?np) = mset (?C @ ?P)" by simp
  have "distinct (?C @ ?P)" using P C by (auto simp: staked_in_def)
  then have "distinct (?nc @ ?np)" using all by (metis mset_eq_imp_distinct_iff)
  moreover have "set (?nc @ ?np) = set (?C @ ?P)" using all by (metis set_mset_mset)
  then have "\<forall>k \<in> set (?nc @ ?np). in_committees (r k)" using P(2) C(2) by (auto simp: in_committees_def)
  moreover have "\<forall>k \<in> set ?np. not_fixed (r k)"
  proof
    fix k assume "k \<in> set ?np"
    then obtain c where c: "c \<in> set p'" "k = cand_cpk c" by auto
    have "set p' \<subseteq> set ps \<union> set (rights ms)" using cons by (metis Un_upper1 set_mset_mset set_mset_union)
    then consider "k \<in> set ?P" | "c \<in> set (rights ms)" using c ps(2) by (metis UnE image_eqI list.set_map subsetD)
    then show "not_fixed (r k)" using nf P(2) c(2) by cases (auto simp: not_fixed_def staked_in_def fixed_def)
  qed
  moreover have "V4_beacon_swap_v1 vc s = Inr (?nc, ?np)" using ps(1) ms(1) sw by (simp add: V4_beacon_swap_v1_def Let_def)
  ultimately show ?thesis by blast
qed

lemma update_active:
  assumes "keys_decode vc" and "represents vc s r" and "r k = Some (Active p si info)" and "agrees vc k (g si) info"
  shows "represents vc (update_staker (vc_ToBase58 vc k) g s) (r(k \<mapsto> Active p (g si) info))"
proof -
  have "db_beaconStaker (v4_stateDB s) k = Some info"
    using pools_at(5) [OF assms(2), of k] assms(3) active_agrees [OF assms(2,3)] by (cases p) (auto simp: nobody_def)
  then have "store_staker k info (update_staker (vc_ToBase58 vc k) g s) = update_staker (vc_ToBase58 vc k) g s"
    by (simp add: store_staker_def upd_db_def update_staker_def fun_upd_idem)
  then show ?thesis using change_staker [where g = g, OF assms] by simp
qed

lemma same_rest_update [simp]: "same_rest s (update_staker c g s)"
  by (simp add: same_rest_def update_staker_def)

lemma default_score_agrees: "agrees vc k si info \<Longrightarrow> agrees vc k (default_score vc c si) info \<and> si_FixedNode (default_score vc c si) = si_FixedNode si"
  by (simp add: agrees_def default_score_def)

lemma new_pending_active:
  assumes "keys_decode vc" and "represents vc s r" and "in_committees (r k)" and "not_fixed (r k)"
  shows "\<exists>s' y. new_pending_step vc s k = Inr s' \<and> represents vc s' (r(k \<mapsto> y)) \<and> same_rest s s' \<and> kept r (r(k \<mapsto> y)) \<and> staked_in PENDING_POOL (Some y)"
proof -
  let ?c = "vc_ToBase58 vc k"
  let ?g = "default_score vc (v4_config s)"
  obtain p si info where k: "r k = Some (Active p si info)" "p = COMMITTEE_POOL \<or> p = PENDING_POOL" "\<not> fixed p si"
    using assms(3,4) by (auto simp: in_committees_def staked_in_def not_fixed_def)
  have ag: "agrees vc k (?g si) info" "si_FixedNode (?g si) = si_FixedNode si" 
    using default_score_agrees [of vc k si info "v4_config s"] active_agrees [OF assms(2) k(1)] by auto
  have r1: "represents vc (update_staker ?c ?g s) (r(k \<mapsto> Active p (?g si) info))" by (rule update_active [where g = ?g, OF assms(1,2) k(1) ag(1)])
  show ?thesis
  proof (cases "p = PENDING_POOL")
    case True
    then have "map_of (v4_pending s) ?c \<noteq> None" using map_of_entries [OF assms(2), of PENDING_POOL k si] k(1) by simp
    then have "new_pending_step vc s k = Inr (update_staker ?c ?g s)" by (auto simp: new_pending_step_def Let_def)
    moreover have "kept r (r(k \<mapsto> Active p (?g si) info))" using k by (intro kept_upd [of r, OF k(1)]) simp
    ultimately show ?thesis using r1 True by (auto simp: staked_in_def)
  next
    case False
    then have p: "p = COMMITTEE_POOL" using k(2) by simp
    have nil: "map_of (v4_pending s) ?c = None" using map_of_entries [OF assms(2), of PENDING_POOL k] k(1) p by (cases "map_of (v4_pending s) ?c") auto
    let ?s1 = "update_staker ?c ?g s"
    let ?si2 = "(?g si)\<lparr>si_FinishSync := False\<rparr>" and ?info2 = "info\<lparr>bs_finishSync := False\<rparr>"
    have "agrees vc k ?si2 ?info2" using ag(1) by (simp add: agrees_def TotalStakingAmount_def)
    then obtain s2 where s2: "setFinishSync vc ?c False ?s1 = Inr s2" "represents vc s2 (r(k \<mapsto> Active p ?si2 ?info2))" "same_rest ?s1 s2"
      using set_both_active [OF assms(1) r1, of k p "?g si" info "\<lambda>_ si. si\<lparr>si_FinishSync := False\<rparr>" "\<lambda>info. info\<lparr>bs_finishSync := False\<rparr>"]
      by (auto simp: setFinishSync_def)
    from move_ok [OF assms(1) s2(2), of k p ?si2 ?info2 PENDING_POOL] obtain s3 si3 info3 where
      s3: "go_bind (addToPool vc PENDING_POOL ?c ?si2 s2) (removeFromPool vc p ?c) = Inr s3"
        "represents vc s3 (r(k \<mapsto> Active PENDING_POOL si3 info3))" "same_rest s2 s3" "keeps ?info2 info3"
      using p by auto
    from remove_absent [OF assms(1) s3(2), of k PENDING_POOL si3 info3 WAITING_POOL] obtain s4 where
      s4: "removeFromPool vc WAITING_POOL ?c s3 = Inr s4" "represents vc s4 (r(k \<mapsto> Active PENDING_POOL si3 info3))" "same_rest s3 s4" by auto
    have g1: "getBeaconStakerInfo s ?c = Some si" and g2: "getBeaconStakerInfo s2 ?c = Some ?si2"
      using lookup_active [OF assms(2), of k] lookup_active [OF s2(2), of k] k(1) by auto
    have "new_pending_step vc s k = go_bind (addToPool vc PENDING_POOL ?c ?si2 s2) (\<lambda>s3. go_bind (removeFromPool vc p ?c s3) (removeFromPool vc WAITING_POOL ?c))"
      using nil g1 g2 s2(1) p by (simp add: new_pending_step_def Let_def ignore_err_def)
    also have "\<dots> = go_bind (go_bind (addToPool vc PENDING_POOL ?c ?si2 s2) (removeFromPool vc p ?c)) (removeFromPool vc WAITING_POOL ?c)"
      by (simp add: go_bind_assoc)
    finally have run: "new_pending_step vc s k = Inr s4" using s3(1) s4(1) by simp
    have "keeps info info3" using s3(4) by (simp add: keeps_def)
    then have "kept r (r(k \<mapsto> Active PENDING_POOL si3 info3))" using k(3) by (intro kept_upd [of r, OF k(1)]) simp
    moreover have "same_rest s s4" using s2(3) s3(3) s4(3) same_rest_update same_rest_trans by blast
    ultimately show ?thesis using run s4(2) by (auto simp: staked_in_def)
  qed
qed

lemma new_committee_active:
  assumes "keys_decode vc" and "represents vc s r" and "in_committees (r k)"
  shows "\<exists>s' y. new_committee_step vc s k = Inr s' \<and> represents vc s' (r(k \<mapsto> y)) \<and> same_rest s s' \<and> kept r (r(k \<mapsto> y)) \<and> staked_in COMMITTEE_POOL (Some y)"
proof -
  let ?c = "vc_ToBase58 vc k"
  obtain p si info where k: "r k = Some (Active p si info)" "p = COMMITTEE_POOL \<or> p = PENDING_POOL"
    using assms(3) by (auto simp: in_committees_def staked_in_def)
  have ag: "agrees vc k si info" using active_agrees [OF assms(2) k(1)] by blast
  show ?thesis
  proof (cases "p = COMMITTEE_POOL")
    case True
    let ?g = "\<lambda>si. si\<lparr>si_EpochScore := u64 (si_Performance si * getScore vc si)\<rparr>"
    have "agrees vc k (?g si) info" using ag by (simp add: agrees_def)
    from update_active [where g = ?g, OF assms(1,2) k(1) this] have "represents vc (update_staker ?c ?g s) (r(k \<mapsto> Active p (?g si) info))" .
    moreover have "map_of (v4_committee s) ?c \<noteq> None" using map_of_entries [OF assms(2), of COMMITTEE_POOL k si] k(1) True by simp
    then have "new_committee_step vc s k = Inr (update_staker ?c ?g s)" by (auto simp: new_committee_step_def Let_def)
    moreover have "kept r (r(k \<mapsto> Active p (?g si) info))" by (intro kept_upd [of r, OF k(1)]) (simp add: fixed_def)
    ultimately show ?thesis using True by (auto simp: staked_in_def)
  next
    case False
    then have p: "p = PENDING_POOL" using k(2) by simp
    let ?g = "default_score vc (v4_config s)"
    have g: "agrees vc k (?g si) info" using default_score_agrees [OF ag, of "v4_config s"] by simp
    have r1: "represents vc (update_staker ?c ?g s) (r(k \<mapsto> Active p (?g si) info))" by (rule update_active [where g = ?g, OF assms(1,2) k(1) g])
    have nil: "map_of (v4_committee s) ?c = None" using map_of_entries [OF assms(2), of COMMITTEE_POOL k] k(1) p by (cases "map_of (v4_committee s) ?c") auto
    from move_ok [OF assms(1) r1, of k p "?g si" info COMMITTEE_POOL] obtain s3 si3 info3 where
      s3: "go_bind (addToPool vc COMMITTEE_POOL ?c (?g si) (update_staker ?c ?g s)) (removeFromPool vc p ?c) = Inr s3"
        "represents vc s3 (r(k \<mapsto> Active COMMITTEE_POOL si3 info3))" "same_rest (update_staker ?c ?g s) s3" "keeps info info3"
      using p by auto
    have "getBeaconStakerInfo s ?c = Some si" "getBeaconStakerInfo (update_staker ?c ?g s) ?c = Some (?g si)"
      using lookup_active [OF assms(2), of k] lookup_active [OF r1, of k] k(1) by auto
    then have "new_committee_step vc s k = Inr s3" using nil s3(1) p by (simp add: new_committee_step_def Let_def)
    moreover have "kept r (r(k \<mapsto> Active COMMITTEE_POOL si3 info3))" using s3(4) p by (intro kept_upd [of r, OF k(1)]) (simp add: fixed_def)
    ultimately show ?thesis using s3(2,3) same_rest_update same_rest_trans unfolding staked_in_def by blast
  qed
qed

lemma UID_of_staker:
  assumes "keys_decode vc" and "represents vc s r" and "r k = Some (Active p si info)"
  shows "GetBeaconCandidateUID vc s (vc_ToBase58 vc k) = Inr (si_stakeID si)"
  using lookup_record [OF assms(1,2), of k] active_agrees [OF assms(2,3)] assms(3) by (simp add: GetBeaconCandidateUID_def agrees_def)

lemma last_epoch_total:
  assumes "keys_decode vc" and "represents vc s r" and "db_committeeData (v4_stateDB s) \<noteq> None"
  shows "\<exists>m. go_foldl (last_epoch_step vc s) Map.empty (v4_committee s @ v4_pending s) = Inr m"
proof -
  have "go_ok (last_epoch_step vc s acc x)" if "x \<in> set (v4_committee s @ v4_pending s)" for acc x
  proof -
    obtain c si where x: "x = (c, si)" by (cases x)
    with that have "(c, si) \<in> set (entries COMMITTEE_POOL s) \<or> (c, si) \<in> set (entries PENDING_POOL s)" by simp
    then obtain k p info where "c = vc_ToBase58 vc k" "r k = Some (Active p si info)" using in_entries [OF assms(2)] by blast
    then show ?thesis using UID_of_staker [OF assms(1,2)] assms(3) x by (auto simp: last_epoch_step_def)
  qed
  then have "go_ok (go_foldl (last_epoch_step vc s) Map.empty (v4_committee s @ v4_pending s))" by (rule go_foldl_total)
  then show ?thesis by (simp add: go_ok_iff)
qed

lemma begin_epoch_total:
  assumes "keys_decode vc" and "sorts (vc_sortStakers vc)" and "represents vc s r" and "\<And>x. vc_HashH vc x \<noteq> []" and "p \<noteq> LOCKING_POOL"
  shows "\<exists>m. go_foldl (begin_epoch_step vc (entries p s)) acc (GetKeyStructListFromMapStaker vc (entries p s)) = Inr m"
proof -
  have "go_ok (begin_epoch_step vc (entries p s) acc k)" if "k \<in> set (GetKeyStructListFromMapStaker vc (entries p s))" for acc k
  proof -
    have "staked_in p (r k)" using that unfolding pool_list_keys(2) [OF assms(1,2,3,5)] by simp
    then obtain si info where k: "r k = Some (Active p si info)" by (auto simp: staked_in_def)
    then have "map_of (entries p s) (vc_ToBase58 vc k) = Some si" using map_of_entries [OF assms(3,5)] by blast
    moreover have "si_stakeID si \<noteq> []" using active_agrees [OF assms(3) k] assms(4) by (simp add: agrees_def)
    ultimately show ?thesis by (simp add: begin_epoch_step_def)
  qed
  then have "go_ok (go_foldl (begin_epoch_step vc (entries p s)) acc (GetKeyStructListFromMapStaker vc (entries p s)))"
    by (rule go_foldl_total)
  then show ?thesis by (simp add: go_ok_iff)
qed

text \<open>What the engine calls keeps its documented behaviour: keys decode, sorting sorts, a printed key and a printed
  hash are not empty, a parsed amount has 64 bits.\<close>

definition calls_ok :: "('k, 'h, 'p) v4_calls \<Rightarrow> bool" where
  "calls_ok vc \<longleftrightarrow> keys_decode vc \<and> (\<forall>k. vc_ToBase58 vc k \<noteq> []) \<and> sorts (vc_sortStakers vc) \<and> sorts (vc_sortCandidates vc) \<and>
     sorts (vc_sortKeys vc) \<and> (\<forall>x. vc_HashH vc x \<noteq> []) \<and>
     (\<forall>x. fst (vc_ParseUint64 vc x) < 2 ^ 64)"

lemma is_locked_kept: "kept r r' \<Longrightarrow> is_locked (r k) \<Longrightarrow> is_locked (r' k)"
  unfolding kept_def by (cases "r k" rule: is_locked.cases) fastforce+

lemma kept_Some: "kept r r' \<Longrightarrow> r k \<noteq> None \<Longrightarrow> r' k \<noteq> None"
  by (auto simp: kept_def)

lemma swap_and_slash_ok:
  assumes "calls_ok vc" and "represents vc s r" and l: "go_foldl (last_epoch_step vc s) Map.empty (v4_committee s @ v4_pending s) = Inr lastD"
    and "lastBlockEpoch vc (pc_BeaconHeight ctx)"
  shows "\<exists>s' r'. ProcessBeaconSwapAndSlash vc ctx s = Inr (s', []) \<and> represents vc s' r' \<and> v4_config s' = v4_config s \<and>
    db_committeeData (v4_stateDB s') \<noteq> None \<and> kept r r' \<and>
    (\<forall>k si info. r k = Some (Active COMMITTEE_POOL si info) \<and> si_Performance si \<le> MIN_PERFORMANCE (v4_config s) \<and> \<not> si_FixedNode si \<longrightarrow> is_locked (r' k)) \<and>
    (\<forall>k p si info. r k = Some (Active p si info) \<and> si_Unstake si \<and> \<not> si_FixedNode si \<longrightarrow> is_locked (r' k))"
proof -
  have enc: "keys_decode vc" and so: "sorts (vc_sortStakers vc)" "sorts (vc_sortCandidates vc)" and h: "\<And>x. vc_HashH vc x \<noteq> []"
    using assms(1) by (auto simp: calls_ok_def)
  obtain s1 r1 where s1: "go_foldl (beacon_slash_step vc ctx) s (slash_list ctx s) = Inr s1" "represents vc s1 r1" "same_rest s s1" "kept r r1"
    "\<forall>k si info. r k = Some (Active COMMITTEE_POOL si info) \<and> si_Performance si \<le> MIN_PERFORMANCE (v4_config s) \<and> \<not> si_FixedNode si \<longrightarrow> is_locked (r1 k)"
    "\<forall>k. r1 k = r k \<or> is_locked (r1 k)" using slash_loop [OF enc assms(2), of ctx] by blast
  obtain s2 r2 where s2: "go_foldl (beacon_unstake_step vc ctx) s1 (unstake_list ctx s1) = Inr s2" "represents vc s2 r2" "same_rest s1 s2" "kept r1 r2"
    "\<forall>k p si info. r1 k = Some (Active p si info) \<and> si_Unstake si \<and> \<not> si_FixedNode si \<longrightarrow> is_locked (r2 k)"
    using unstake_loop [OF enc s1(2), of ctx] by blast
  obtain nc np where sw: "V4_beacon_swap_v1 vc s2 = Inr (nc, np)" "distinct (nc @ np)" "\<forall>k \<in> set (nc @ np). in_committees (r2 k)" "\<forall>k \<in> set np. not_fixed (r2 k)"
    using V4_swap_spec [OF enc so s2(2)] by blast
  have "\<exists>s3 r3. go_foldl (new_pending_step vc) s2 np = Inr s3 \<and> represents vc s3 r3 \<and> same_rest s2 s3 \<and> kept r2 r3 \<and>
      (\<forall>k. k \<notin> id ` set np \<longrightarrow> r3 k = r2 k) \<and> (\<forall>k \<in> set np. \<exists>y. r3 (id k) = Some y \<and> staked_in PENDING_POOL (Some y))"
    by (rule role_loop [where key = id and A = "\<lambda>_ x. in_committees x \<and> not_fixed x", OF _ s2(2) same_rest_refl])
      (use new_pending_active [OF enc] sw in auto)
  then obtain s3 r3 where s3: "go_foldl (new_pending_step vc) s2 np = Inr s3" "represents vc s3 r3" "same_rest s2 s3" "kept r2 r3"
    "\<forall>k. k \<notin> set np \<longrightarrow> r3 k = r2 k" by auto
  have c3: "\<forall>k \<in> set nc. in_committees (r3 k)" using sw(2,3) s3(5) by auto
  have "\<exists>s4 r4. go_foldl (new_committee_step vc) s3 nc = Inr s4 \<and> represents vc s4 r4 \<and> same_rest s3 s4 \<and> kept r3 r4 \<and>
      (\<forall>k. k \<notin> id ` set nc \<longrightarrow> r4 k = r3 k) \<and> (\<forall>k \<in> set nc. \<exists>y. r4 (id k) = Some y \<and> staked_in COMMITTEE_POOL (Some y))"
    by (rule role_loop [where key = id and A = "\<lambda>_ x. in_committees x", OF _ s3(2) same_rest_refl])
      (use new_committee_active [OF enc] sw(2) c3 in auto)
  then obtain s4 r4 where s4: "go_foldl (new_committee_step vc) s3 nc = Inr s4" "represents vc s4 r4" "same_rest s3 s4" "kept r3 r4" by blast
  obtain d1 where d1: "go_foldl (begin_epoch_step vc (v4_committee s4)) Map.empty (V4_GetBeaconCommittee vc s4) = Inr d1"
    using begin_epoch_total [OF enc so(1) s4(2) h, of COMMITTEE_POOL] by (auto simp: V4_GetBeaconCommittee_def)
  obtain d2 where d2: "go_foldl (begin_epoch_step vc (v4_pending s4)) d1 (V4_GetBeaconSubstitute vc s4) = Inr d2"
    using begin_epoch_total [OF enc so(1) s4(2) h, of PENDING_POOL] by (auto simp: V4_GetBeaconSubstitute_def)
  let ?s' = "upd_db (\<lambda>d. d\<lparr>db_committeeData := Some \<lparr>BeginEpochInfo = d2, LastEpoch = lastD\<rparr>\<rparr>) s4"
  have run: "ProcessBeaconSwapAndSlash vc ctx s = Inr (?s', [])"
    using assms(4) l s1(1) s2(1) sw(1) s3(1) s4(1) d1 d2 by (simp add: ProcessBeaconSwapAndSlash_def)
  have rep: "represents vc ?s' r4"
    by (rule represents_same [OF s4(2)]) (use representsD(1) [OF s4(2)] in \<open>auto simp: obs_def upd_db_def lists_of_def\<close>)
  have k24: "kept r2 r4" using kept_trans [OF s3(4) s4(4)] .
  have k14: "kept r1 r4" using kept_trans [OF s2(4) k24] .
  have "is_locked (r4 k)" if "r k = Some (Active p si info)" "si_Unstake si" "\<not> si_FixedNode si" for k p si info
    using that s1(6) s2(5) is_locked_kept [OF k24] is_locked_kept [OF k14] by metis
  moreover have "v4_config ?s' = v4_config s" using s1(3) s2(3) s3(3) s4(3) by (simp add: same_rest_def upd_db_def)
  moreover have "db_committeeData (v4_stateDB ?s') \<noteq> None" by (simp add: upd_db_def)
  ultimately show ?thesis using run rep kept_trans [OF s1(4) k14] s1(5) is_locked_kept [OF k14] by blast
qed

end
