(* ===== verification/Beacon_Block.thy ===== *)
theory Beacon_Block
  imports Beacon_Epoch
begin

text \<open>
  The other functions of a beacon block on roles (\<^verbatim>\<open>beacon_committee_state_v4.go\<close>, \<^verbatim>\<open>beacon_delegation.go\<close>): those that set
  fields or store rewards let roles only evolve, waiting stakers may become substitutes, and new stakes
  add waiting stakers.
\<close>

section \<open>The other functions of a block\<close>

lemma follows_db:
  assumes "\<And>d. db_beaconStaker (f d) = db_beaconStaker d" and "\<And>d. lists_of (f d) = lists_of d"
  shows "follows vc s (upd_db f s)"
  using assms by (intro follows_same) (auto simp: obs_def upd_db_def keys_wf_def)

lemma follows_stores [simp]:
  "follows vc s (StoreDelegationReward pk c e u a s)"
  "follows vc s (ResetDelegationReward pk e s)"
  "follows vc s (store_shard_staker k sh s)"
  "follows vc s (upd_db (\<lambda>d. d\<lparr>db_sharePrice := g d\<rparr>) s)"
  unfolding StoreDelegationReward_def ResetDelegationReward_def store_shard_staker_def
  by (rule follows_db; simp add: lists_of_def fun_eq_iff)+

lemma follows_ignore: "ignore_err s m = Inr s' \<Longrightarrow> (\<And>t. m = Inr t \<Longrightarrow> follows vc s t) \<Longrightarrow> follows vc s s'"
  by (auto simp: ignore_err_def split: sum.splits go_err.splits)

lemma no_inst_eq [simp]: "no_inst m = Inr (s', i) \<longleftrightarrow> m = Inr s' \<and> i = []"
  by (auto simp: no_inst_def)

lemma follows_insts:
  assumes "for_insts f ctx s = Inr s'" and "\<And>s a i s'. f s a i = Inr s' \<Longrightarrow> follows vc s s'"
  shows "follows vc s s'"
  using assms(1) unfolding for_insts_def by (rule follows_foldl) (use assms(2) in auto)

lemma follows_foldl_pure:
  assumes "\<And>s x. follows vc s (f s x)"
  shows "follows vc s (foldl f s xs)"
  by (induction xs arbitrary: s) (auto intro: follows_trans assms)

lemma performance_follows:
  assumes "keys_decode vc" and "ProcessUpdateBeaconPerformance vc ctx s = Inr (s', i)"
  shows "follows vc s s'"
proof -
  have "follows vc t t'" if "performance_step vc idx t x = Inr t'" for idx t x t'
    using that by (auto simp: performance_step_def Let_def split: option.splits prod.splits intro!: update_follows [OF assms(1)] simp: agrees_def)
  then show ?thesis using assms(2)
    by (auto simp: ProcessUpdateBeaconPerformance_def updateBeaconPerformance_def split: if_splits option.splits intro: follows_foldl)
qed

lemma active_step_follows:
  assumes "keys_decode vc" and "active_step vc ctx t x = Inr t'"
  shows "follows vc t t'"
proof -
  obtain c si where x: "x = (c, si)" by (cases x)
  obtain staker where st: "db_BeaconStaker vc t c = Some staker" using assms(2) x by (auto simp: active_step_def split: option.splits)
  show ?thesis
  proof (cases "t' = t")
    case False
    then obtain sig where sg: "pc_MissingSignature ctx c = Some sig" "ActualTotal sig \<noteq> 0"
      using assms(2) x st by (auto simp: active_step_def split: option.splits if_splits)
    let ?n = "active_times ctx c sig (bs_shardActiveTime staker)"
    obtain s1 where s1: "ignore_err t (setShardActiveTime vc c ?n t) = Inr s1"
      and e: "(case db_ShardStaker vc s1 c of None \<Rightarrow> Inr s1 | Some sh \<Rightarrow> (case db_BeaconStaker vc s1 c of None \<Rightarrow> Inr s1
        | Some staker1 \<Rightarrow> Inr (if bs_shardActiveTime staker1 \<ge> MIN_ACTIVE_SHARD (v4_config s1)
            then store_shard_staker (si_cpkStruct si) (sh\<lparr>ss_autoStaking := False\<rparr>) s1 else s1))) = (Inr t' :: _ go)"
      using assms(2) by (simp only: x active_step_def st sg option.case case_prod_conv if_False go_bind_eq_Inr) (elim exE conjE, rule that)
    have t': "t' = s1 \<or> (\<exists>sh. t' = store_shard_staker (si_cpkStruct si) sh s1)"
      using e by (cases "db_ShardStaker vc s1 c"; cases "db_BeaconStaker vc s1 c") (auto split: if_splits)
    have "0 \<le> ?n" by (simp add: active_times_def Let_def)
    then have "follows vc t s1" using s1 by (auto intro: follows_ignore setters_follow(1) [OF assms(1)])
    then show ?thesis using t' follows_trans [OF _ follows_stores(3)] by auto
  qed simp
qed

lemma active_follows:
  assumes "keys_decode vc" and "ProcessCountShardActiveTime vc ctx s = Inr (s', i)"
  shows "follows vc s s'"
  using assms(2) active_step_follows [OF assms(1)]
  by (auto simp: ProcessCountShardActiveTime_def split: if_splits intro: follows_foldl)

lemma unstake_follows:
  assumes "keys_decode vc" and "ProcessBeaconUnstakeInstruction vc ctx s = Inr (s', i)"
  shows "follows vc s s'"
proof -
  have step: "follows vc t t'" if "set_unstake_step vc t c = Inr t'" for t c t'
    using that by (auto simp: set_unstake_step_def split: if_splits intro: setters_follow(2) [OF assms(1)])
  have "follows vc t t'" if "go_bind (unstake_keys vc a inst) (go_foldl (set_unstake_step vc) t) = Inr t'" for t a inst t'
    using that by (auto intro: follows_foldl step)
  then show ?thesis using assms(2) by (auto simp: ProcessBeaconUnstakeInstruction_def intro: follows_insts)
qed

lemma leave_follows: "keys_decode vc \<Longrightarrow> leave_delegate vc sh s = Inr s' \<Longrightarrow> follows vc s s'"
  by (auto simp: leave_delegate_def split: if_splits intro: removeDelegators_follows)

lemma return_validator_follows:
  assumes "keys_decode vc" and "ProcessDelegateRewardForReturnValidator vc ctx s = Inr (s', i)"
  shows "follows vc s s'"
proof -
  have "follows vc t t'" if "return_validator_step vc ctx t c = Inr t'" for t c t'
    using that by (auto simp: return_validator_step_def split: option.splits intro: follows_trans [OF leave_follows [OF assms(1)] follows_stores(1)])
  then show ?thesis using assms(2) by (auto simp: ProcessDelegateRewardForReturnValidator_def split: if_splits intro: follows_foldl)
qed

lemma redelegate_follows:
  assumes "keys_decode vc" and "ProcessBeaconRedelegateInstruction vc ctx s = Inr (s', i)"
  shows "follows vc s s'"
proof -
  have "follows vc t t'" if "redelegate_step vc ctx rd t x = Inr t'" for rd t x t'
    using that
    by (auto simp: redelegate_step_def Let_def split: option.splits prod.splits if_splits
        intro: follows_trans [OF leave_follows [OF assms(1)] follows_trans [OF follows_stores(1) follows_trans [OF setters_follow(6) [OF assms(1)] follows_stores(3)]]])
  then have "follows vc t t'" if "redelegate_inst_step vc ctx t a inst = Inr t'" for t a inst t'
    using that by (auto simp: redelegate_inst_step_def split: if_splits option.splits intro: follows_foldl)
  then show ?thesis using assms(2) by (auto simp: ProcessBeaconRedelegateInstruction_def intro: follows_insts)
qed

lemma finish_sync_follows:
  assumes "keys_decode vc" and "ProcessBeaconFinishSyncInstruction vc ctx s = Inr (s', i)"
  shows "follows vc s s'"
proof -
  have "follows vc t t'" if "finish_sync_step vc t a inst = Inr t'" for t a inst t'
    using that by (auto simp: finish_sync_step_def split: if_splits intro: follows_foldl setters_follow(4) [OF assms(1)])
  then show ?thesis using assms(2) by (auto simp: ProcessBeaconFinishSyncInstruction_def intro: follows_insts)
qed

lemma add_staking_follows:
  assumes "keys_decode vc" and "ProcessBeaconAddStakingAmountInstruction vc ctx s = Inr (s', i)"
  shows "follows vc s s'"
proof -
  have "follows vc t t'" if "add_stake_step vc ctx ad t x = Inr t'" for ad t x t'
    using that by (auto simp: add_stake_step_def split: option.splits prod.splits intro: follows_ignore setters_follow(5) [OF assms(1)])
  then have "follows vc t t'" if "add_staking_inst_step vc ctx t a inst = Inr t'" for t a inst t'
    using that by (auto simp: add_staking_inst_step_def split: if_splits option.splits intro: follows_foldl)
  then show ?thesis using assms(2) by (auto simp: ProcessBeaconAddStakingAmountInstruction_def intro: follows_insts)
qed

lemma share_price_follows:
  assumes "ProcessBeaconSharePrice vc ctx s = Inr (s', i)"
  shows "follows vc s s'"
proof -
  have "follows vc t t'" if "share_price_inst_step vc t a inst = Inr t'" for t a inst t'
    using that by (auto simp: share_price_inst_step_def split: if_splits)
  then show ?thesis using assms by (auto simp: ProcessBeaconSharePrice_def intro: follows_insts)
qed

lemma withdraw_follows:
  assumes "ProcessWithdrawDelegationReward vc ctx s = Inr (s', i)"
  shows "follows vc s s'"
proof -
  have "follows vc t t'" if "withdraw_inst_step vc ctx t inst = Inr t'" for t inst t'
    using that by (auto simp: withdraw_inst_step_def Let_def split: if_splits intro: follows_foldl_pure)
  then show ?thesis using assms by (auto simp: ProcessWithdrawDelegationReward_def intro: follows_foldl)
qed

lemma swap_and_slash_follows:
  assumes "calls_ok vc" and "ProcessBeaconSwapAndSlash vc ctx s = Inr (s', i)"
  shows "follows vc s s'"
proof (cases "lastBlockEpoch vc (pc_BeaconHeight ctx)")
  case False
  then show ?thesis using assms(2) by (simp add: ProcessBeaconSwapAndSlash_def)
next
  case True
  obtain lastD where l: "go_foldl (last_epoch_step vc s) Map.empty (v4_committee s @ v4_pending s) = Inr lastD"
    using assms(2) True by (auto simp: ProcessBeaconSwapAndSlash_def)
  show ?thesis
  proof (rule followsI)
    fix r assume "represents vc s r"
    from swap_and_slash_ok [OF assms(1) this l True] show "\<exists>r'. represents vc s' r' \<and> kept r r'" using assms(2) by auto
  qed
qed

section \<open>Waiting stakers\<close>

lemma waiting_step_ok:
  assumes "keys_decode vc" and "represents vc s r" and "staked_in WAITING_POOL (r k)"
  shows "\<exists>s' y. waiting_step vc ctx s k = Inr s' \<and> represents vc s' (r(k \<mapsto> y)) \<and> same_rest s s' \<and> kept r (r(k \<mapsto> y)) \<and>
    (staked_in WAITING_POOL (Some y) \<or> staked_in PENDING_POOL (Some y))"
proof -
  let ?c = "vc_ToBase58 vc k"
  let ?done = "\<lambda>s'. \<exists>y. represents vc s' (r(k \<mapsto> y)) \<and> same_rest s s' \<and> kept r (r(k \<mapsto> y)) \<and>
    (staked_in WAITING_POOL (Some y) \<or> staked_in PENDING_POOL (Some y))"
  obtain si info where k: "r k = Some (Active WAITING_POOL si info)" using assms(3) by (auto simp: staked_in_def)
  have rec: "db_BeaconStaker vc s ?c = Some info" and mem: "getBeaconStakerInfo s ?c = Some si"
    using lookup_record [OF assms(1,2), of k] lookup_active [OF assms(2), of k] k by auto
  have ag: "agrees vc k si info" using active_agrees [OF assms(2) k] by blast
  have stay: "?done s" using assms(2) fun_upd_triv [of r k] k
    by (intro exI [of _ "Active WAITING_POOL si info"]) (auto simp: staked_in_def fun_upd_idem)
  have "agrees vc k (si\<lparr>si_Unstake := True\<rparr>) (info\<lparr>bs_unstaking := True\<rparr>)" using ag by (simp add: agrees_def TotalStakingAmount_def)
  then obtain s1 where s1: "setUnstake vc ?c s = Inr s1"
    "represents vc s1 (r(k \<mapsto> Active WAITING_POOL (si\<lparr>si_Unstake := True\<rparr>) (info\<lparr>bs_unstaking := True\<rparr>)))" "same_rest s s1"
    using set_both_active [OF assms(1,2) k, of "\<lambda>_ si. si\<lparr>si_Unstake := True\<rparr>" "\<lambda>info. info\<lparr>bs_unstaking := True\<rparr>"]
    by (auto simp: setUnstake_def)
  have "kept r (r(k \<mapsto> Active WAITING_POOL (si\<lparr>si_Unstake := True\<rparr>) (info\<lparr>bs_unstaking := True\<rparr>)))"
    by (rule kept_upd [of r, OF k]) (simp add: keeps_def fixed_def)
  then have unst: "?done s1" using s1(2,3) by (intro exI [of _ "Active WAITING_POOL (si\<lparr>si_Unstake := True\<rparr>) (info\<lparr>bs_unstaking := True\<rparr>)"]) (simp add: staked_in_def)
  from move_ok [OF assms(1,2) k, of PENDING_POOL] obtain s2 si2 info2 where
    s2: "go_bind (addToPool vc PENDING_POOL ?c si s) (removeFromPool vc WAITING_POOL ?c) = Inr s2"
      "represents vc s2 (r(k \<mapsto> Active PENDING_POOL si2 info2))" "same_rest s s2" "keeps info info2" by auto
  have "kept r (r(k \<mapsto> Active PENDING_POOL si2 info2))" by (rule kept_upd [of r, OF k]) (simp add: s2(4) fixed_def)
  then have moved: "?done s2" using s2(2,3) by (intro exI [of _ "Active PENDING_POOL si2 info2"]) (simp add: staked_in_def)
  have "waiting_step vc ctx s k \<in> {Inr s, Inr s1, Inr s2}"
    unfolding waiting_step_def Let_def rec mem option.case s2(1) s1(1) by (simp add: ignore_err_def)
  then show ?thesis using stay unst moved by blast
qed

lemma waiting_ok:
  assumes "calls_ok vc" and "represents vc s r"
  shows "\<exists>s' r'. ProcessBeaconWaitingCondition vc ctx s = Inr (s', []) \<and> represents vc s' r' \<and> kept r r' \<and> same_rest s s'"
proof -
  have enc: "keys_decode vc" and so: "sorts (vc_sortStakers vc)" using assms(1) by (auto simp: calls_ok_def)
  note ks = pool_list_keys [OF enc so assms(2), of WAITING_POOL, simplified, folded V4_GetBeaconWaiting_def]
  have "\<exists>s' r'. go_foldl (waiting_step vc ctx) s (V4_GetBeaconWaiting vc s) = Inr s' \<and> represents vc s' r' \<and> same_rest s s' \<and> kept r r' \<and>
      (\<forall>k. k \<notin> id ` set (V4_GetBeaconWaiting vc s) \<longrightarrow> r' k = r k) \<and>
      (\<forall>k \<in> set (V4_GetBeaconWaiting vc s). \<exists>y. r' (id k) = Some y \<and> (staked_in WAITING_POOL (Some y) \<or> staked_in PENDING_POOL (Some y)))"
    by (rule role_loop [where key = id and A = "\<lambda>_ x. staked_in WAITING_POOL x", OF _ assms(2) same_rest_refl])
      (use waiting_step_ok [OF enc] ks in auto)
  then show ?thesis by (auto simp: ProcessBeaconWaitingCondition_def)
qed

section \<open>The contract of the functions\<close>

text \<open>What the composition in \<^verbatim>\<open>UpdateCommitteeState\<close> relies on: a function of a block that returns leaves memory and
  database in agreement and lets everyone's role evolve.\<close>

locale role_keeping =
  fixes f :: "('k, 'h, 'p) process"
  assumes process_follows: "calls_ok vc \<Longrightarrow> f vc ctx s = Inr (s', i) \<Longrightarrow> follows vc s s'"
begin

lemma run_process_follows: "calls_ok vc \<Longrightarrow> run_process vc ctx (s, i) f = Inr (s', i') \<Longrightarrow> follows vc s s'"
  by (auto simp: run_process_def dest: process_follows)

lemma process_keeps_roles: "calls_ok vc \<Longrightarrow> represents vc s r \<Longrightarrow> f vc ctx s = Inr (s', i) \<Longrightarrow> \<exists>r'. represents vc s' r' \<and> kept r r'"
  by (blast dest: process_follows follows_represents)

end

lemma role_keeping_run:
  assumes "\<forall>f \<in> set fs. role_keeping f" and "calls_ok vc" and "go_foldl (run_process vc ctx) (s, i) fs = Inr (s', i')"
  shows "follows vc s s'"
  using assms(1,3)
proof (induction fs arbitrary: s i)
  case (Cons f fs)
  from Cons.prems(2) obtain t j where f: "run_process vc ctx (s, i) f = Inr (t, j)" and fs: "go_foldl (run_process vc ctx) (t, j) fs = Inr (s', i')"
    by auto
  have "follows vc s t" using Cons.prems(1) role_keeping.run_process_follows [OF _ assms(2) f] by simp
  then show ?case using Cons.IH [OF _ fs] Cons.prems(1) follows_trans by auto
qed simp

interpretation withdraw: role_keeping ProcessWithdrawDelegationReward
  by unfold_locales (rule withdraw_follows)

interpretation performance: role_keeping ProcessUpdateBeaconPerformance
  by unfold_locales (auto simp: calls_ok_def intro: performance_follows)

interpretation unstake: role_keeping ProcessBeaconUnstakeInstruction
  by unfold_locales (auto simp: calls_ok_def intro: unstake_follows)

interpretation return_validator: role_keeping ProcessDelegateRewardForReturnValidator
  by unfold_locales (auto simp: calls_ok_def intro: return_validator_follows)

interpretation redelegate: role_keeping ProcessBeaconRedelegateInstruction
  by unfold_locales (auto simp: calls_ok_def intro: redelegate_follows)

interpretation swap_and_slash: role_keeping ProcessBeaconSwapAndSlash
  by unfold_locales (rule swap_and_slash_follows)

interpretation finish_sync: role_keeping ProcessBeaconFinishSyncInstruction
  by unfold_locales (auto simp: calls_ok_def intro: finish_sync_follows)

lemma waiting_follows: "calls_ok vc \<Longrightarrow> ProcessBeaconWaitingCondition vc ctx s = Inr (s', i) \<Longrightarrow> follows vc s s'"
  by (rule followsI) (drule (1) waiting_ok [where ctx = ctx], auto)

interpretation waiting: role_keeping ProcessBeaconWaitingCondition
  by unfold_locales (rule waiting_follows)

interpretation add_staking: role_keeping ProcessBeaconAddStakingAmountInstruction
  by unfold_locales (auto simp: calls_ok_def intro: add_staking_follows)

interpretation share_price: role_keeping ProcessBeaconSharePrice
  by unfold_locales (rule share_price_follows)

interpretation active_time: role_keeping ProcessCountShardActiveTime
  by unfold_locales (auto simp: calls_ok_def intro: active_follows)

lemmas role_keeping_funcs = withdraw.role_keeping_axioms performance.role_keeping_axioms unstake.role_keeping_axioms
  return_validator.role_keeping_axioms redelegate.role_keeping_axioms swap_and_slash.role_keeping_axioms finish_sync.role_keeping_axioms
  waiting.role_keeping_axioms add_staking.role_keeping_axioms share_price.role_keeping_axioms

section \<open>New stakers\<close>

lemma get_update_none: "getBeaconStakerInfo s c = None \<Longrightarrow> getBeaconStakerInfo (update_staker c f s) c = None"
  by (auto simp: getBeaconStakerInfo_def update_staker_def split: option.splits)

lemma obs_update_none:
  "getBeaconStakerInfo s c = None \<Longrightarrow> obs vc (update_staker c f s) k = obs vc s k"
  by (auto simp: getBeaconStakerInfo_def obs_def update_staker_def Let_def split: option.splits)

lemma keys_wf_clock: "keys_wf vc (s\<lparr>v4_clock := n\<rparr>) = keys_wf vc s"
  by (simp add: keys_wf_def)

lemma new_staker_ok:
  assumes "keys_decode vc" and "represents vc s r" and "r k = None" and "agrees vc k si info"
  shows "\<exists>s' t. addToPool vc WAITING_POOL (vc_ToBase58 vc k) si (upd_db (\<lambda>d. d\<lparr>db_sharePrice := g d\<rparr>) (store_staker k info (s\<lparr>v4_clock := n\<rparr>))) = Inr s' \<and>
    represents vc s' (r(k \<mapsto> Active WAITING_POOL (si\<lparr>si_enterTime := t\<rparr>) info))"
proof -
  let ?c = "vc_ToBase58 vc k"
  define s2 where "s2 = upd_db (\<lambda>d. d\<lparr>db_sharePrice := g d\<rparr>) (store_staker k info (s\<lparr>v4_clock := n\<rparr>))"
  define t where "t = vc_now vc (v4_clock s2)"
  let ?s1 = "update_staker ?c (\<lambda>si. si\<lparr>si_enterTime := t\<rparr>) (s2\<lparr>v4_clock := Suc (v4_clock s2)\<rparr>)"
  have none: "getBeaconStakerInfo (s2\<lparr>v4_clock := m\<rparr>) ?c = None" for m
    using lookup_active [OF assms(2), of k] assms(3)
    by (auto simp: s2_def upd_db_def store_staker_def getBeaconStakerInfo_def split: option.splits)
  have nob: "obs vc s k = nobody" using representsD(2) [OF assms(2), of k] assms(3) by simp
  have o2: "obs vc (s2\<lparr>v4_clock := m\<rparr>) k' = (if k' = k then nobody\<lparr>ob_staker := Some info\<rparr> else obs vc s k')" for m k'
    using nob by (auto simp: s2_def obs_def upd_db_def store_staker_def Let_def nobody_def lists_of_def)
  have o1: "obs vc ?s1 k' = (if k' = k then nobody\<lparr>ob_staker := Some info\<rparr> else obs vc s k')" for k'
    using obs_update_none [OF none] o2 by simp
  have kw: "keys_wf vc ?s1" using representsD(1) [OF assms(2)] by (simp add: s2_def keys_wf_clock)
  have "addToPool vc WAITING_POOL ?c si s2 = put_entry WAITING_POOL ?c (si\<lparr>si_enterTime := t\<rparr>) ?s1"
    by (simp add: get_update_none [OF none] addToPool_put Let_def setEnterTime_def set_both_def ignore_err_def flip: t_def)
  moreover have key: "si_cpkStruct (si\<lparr>si_enterTime := t\<rparr>) = k" using assms(4) by (simp add: agrees_def)
  ultimately obtain s' where s': "addToPool vc WAITING_POOL ?c si s2 = Inr s'" "keys_wf vc s'"
    "\<forall>k'. obs vc s' k' = (if k' = k then put_pool WAITING_POOL (si\<lparr>si_enterTime := t\<rparr>) (obs vc ?s1 k) else obs vc ?s1 k')"
    using put_entry_spec [OF assms(1) _ key, of WAITING_POOL ?s1] kw by auto
  have "represents vc s' (r(k \<mapsto> Active WAITING_POOL (si\<lparr>si_enterTime := t\<rparr>) info))"
    by (rule represents_upd [OF assms(2) s'(2)]) (use s'(3) o1 assms(4) in \<open>simp_all add: put_pool_def nobody_def agrees_def\<close>)
  then show ?thesis using s'(1) unfolding s2_def by blast
qed

text \<open>New stakers enter the waiting pool; everyone else keeps the role.\<close>

definition joined :: "('k \<Rightarrow> bool) \<Rightarrow> ('k \<rightharpoonup> ('k, 'h, 'p) role) \<Rightarrow> ('k \<rightharpoonup> ('k, 'h, 'p) role) \<Rightarrow> bool" where
  "joined A r r' \<longleftrightarrow> (\<forall>k x. r k = Some x \<longrightarrow> r' k = Some x) \<and>
     (\<forall>k y. r k = None \<and> r' k = Some y \<longrightarrow> A k \<and> staked_in WAITING_POOL (Some y))"

lemma joined_refl [simp]: "joined A r r"
  by (auto simp: joined_def)

lemma joined_trans: "joined A r r' \<Longrightarrow> joined A r' r'' \<Longrightarrow> joined A r r''"
  unfolding joined_def by (metis option.exhaust)

lemma joined_new: "r k = None \<Longrightarrow> A k \<Longrightarrow> joined A r (r(k \<mapsto> Active WAITING_POOL si info))"
  by (auto simp: joined_def staked_in_def)

text \<open>The stakes that the instructions of the block ask for, and that their keys are in the form in which keys are printed.\<close>

definition stakes_of :: "('k, 'h, 'p) v4_calls \<Rightarrow> ProcessContext \<Rightarrow> ('k, 'h, 'p) BeaconStakeInstruction set" where
  "stakes_of vc ctx = {bi. \<exists>inst \<in> set (BeaconInstructions (pc_env ctx)). inst \<noteq> [] \<and> inst ! 0 = BEACON_STAKE_ACTION \<and>
     ImportBeaconStakeInstructionFromString (vc_codec vc) (vc_ParseUint64 vc) inst = Inr bi}"

definition canonical_stakes :: "('k, 'h, 'p) v4_calls \<Rightarrow> ProcessContext \<Rightarrow> bool" where
  "canonical_stakes vc ctx \<longleftrightarrow> (\<forall>bi \<in> stakes_of vc ctx. \<forall>c \<in> set (bi_PublicKeys bi). \<forall>k. FromString (vc_codec vc) c = Some k \<longrightarrow> vc_ToBase58 vc k = c)"

definition asked :: "('k, 'h, 'p) v4_calls \<Rightarrow> ProcessContext \<Rightarrow> 'k \<Rightarrow> bool" where
  "asked vc ctx k \<longleftrightarrow> (\<exists>bi \<in> stakes_of vc ctx. vc_ToBase58 vc k \<in> set (bi_PublicKeys bi))"

lemma stake_amounts:
  assumes "calls_ok vc" and "bi \<in> stakes_of vc ctx" and "n \<in> set (bi_StakingAmount bi)"
  shows "n < 2 ^ 64"
  using assms by (auto simp: stakes_of_def ImportBeaconStakeInstructionFromString_def calls_ok_def)

lemma beacon_stake_step_joined:
  assumes "calls_ok vc" and "canonical_stakes vc ctx" and "bi \<in> stakes_of vc ctx" and "represents vc s r"
    and "beacon_stake_step vc ctx bi (s, ret) x = Inr (s', ret')"
  shows "\<exists>r'. represents vc s' r' \<and> joined (asked vc ctx) r r'"
proof -
  obtain cpks amounts reasons i tx where x: "ret = (cpks, amounts, reasons)" "x = (i, tx)" by (cases ret; cases x)
  have enc: "keys_decode vc" using assms(1) by (simp add: calls_ok_def)
  let ?cpk = "bi_PublicKeys bi ! i"
  have i: "i < length (bi_PublicKeys bi)" using assms(5) x by (auto simp: beacon_stake_step_def)
  show ?thesis
  proof (cases "db_BeaconStaker vc s ?cpk")
    case (Some info)
    then show ?thesis using assms(4,5) x i by (auto simp: beacon_stake_step_def intro: joined_refl)
  next
    case None
    then obtain key where key: "FromString (vc_codec vc) ?cpk = Some key" using assms(5) x i by (auto simp: beacon_stake_step_def split: option.splits)
    have c: "?cpk = vc_ToBase58 vc key" using assms(2,3) key i unfolding canonical_stakes_def by (metis nth_mem)
    let ?amount = "bi_StakingAmount bi ! i"
    let ?info = "NewBeaconStakerInfoWithValue (bi_FunderAddressStructs bi ! i) (bi_RewardReceiverStructs bi ! i) (pc_BeaconHeight ctx) (pc_Timestamp ctx)
      (vc_now vc (v4_clock s)) [(tx, ?amount, pc_BeaconHeight ctx)]"
    let ?si = "new_beacon_staker vc ctx key ?cpk ?amount (vc_now vc (Suc (v4_clock s)))"
    let ?s2 = "upd_db (\<lambda>d. d\<lparr>db_sharePrice := (db_sharePrice d)(si_stakeID ?si \<mapsto> INIT_SHARE_PRICE)\<rparr>)
      (store_staker key ?info (s\<lparr>v4_clock := Suc (Suc (v4_clock s))\<rparr>))"
    have run: "addToPool vc WAITING_POOL ?cpk ?si ?s2 = Inr s'" "i < length (bi_StakingAmount bi)"
      using assms(5) x i None key by (auto simp: beacon_stake_step_def Let_def split: if_splits)
    have "?amount < 2 ^ 64" using stake_amounts [OF assms(1,3)] run(2) by simp
    then have ag: "agrees vc key ?si ?info"
      by (simp add: agrees_def new_beacon_staker_def NewBeaconStakerInfoWithValue_def TotalStakingAmount_def u64_def c)
    have none: "r key = None" using lookup_record [OF enc assms(4), of key] None c by (cases "r key" rule: record_of.cases) auto
    note new = new_staker_ok [where g = "\<lambda>d. (db_sharePrice d)(si_stakeID ?si \<mapsto> INIT_SHARE_PRICE)" and n = "Suc (Suc (v4_clock s))",
        OF enc assms(4) none ag, folded c]
    obtain t where "represents vc s' (r(key \<mapsto> Active WAITING_POOL (?si\<lparr>si_enterTime := t\<rparr>) ?info))"
      using new unfolding run(1) by blast
    moreover have "asked vc ctx key" using assms(3) i c unfolding asked_def by (metis nth_mem)
    ultimately show ?thesis using joined_new [of r key "asked vc ctx"] none by blast
  qed
qed

lemma stake_joined:
  assumes "calls_ok vc" and "canonical_stakes vc ctx" and "represents vc s r" and "ProcessBeaconStakeInstruction vc ctx s = Inr (s', i)"
  shows "\<exists>r'. represents vc s' r' \<and> joined (asked vc ctx) r r'"
proof -
  let ?P = "\<lambda>sr :: _ \<times> returns. \<exists>r'. represents vc (fst sr) r' \<and> joined (asked vc ctx) r r'"
  have step: "?P sr'" if "?P sr" "beacon_stake_step vc ctx bi sr x = Inr sr'" "bi \<in> stakes_of vc ctx" for bi sr x sr'
    using that(1,2) beacon_stake_step_joined [OF assms(1,2) that(3), of "fst sr" _ "snd sr" x "fst sr'" "snd sr'"] joined_trans by fastforce
  have inst: "?P sr'" if P: "?P sr" and inst: "inst \<in> set (BeaconInstructions (pc_env ctx))"
    and e: "go_bind (go_index inst 0) (\<lambda>action. stake_inst_step vc ctx sr action inst) = Inr sr'" for inst sr sr'
  proof (cases "inst ! 0 = BEACON_STAKE_ACTION")
    case True
    then obtain bi where bi: "bi \<in> stakes_of vc ctx" and
      run: "go_foldl (beacon_stake_step vc ctx bi) sr (zip [0..<length (bi_TxStakeHashes bi)] (bi_TxStakeHashes bi)) = Inr sr'"
      using inst e by (auto simp: stake_inst_step_def stakes_of_def)
    show ?thesis using run P by (rule go_foldl_invariant) (use step bi in blast)
  next
    case False
    then show ?thesis using P e by (auto simp: stake_inst_step_def)
  qed
  obtain ret where run: "go_foldl (\<lambda>s inst. go_bind (go_index inst 0) (\<lambda>action. stake_inst_step vc ctx s action inst)) (s, [], [], [])
      (BeaconInstructions (pc_env ctx)) = Inr (s', ret)"
    using assms(4) by (auto simp: ProcessBeaconStakeInstruction_def for_insts_def)
  have "?P (s, [], [], [])" using assms(3) by auto
  then have "?P (s', ret)" by (rule go_foldl_invariant [OF run]) (use inst in blast)
  then show ?thesis by simp
qed

end
