(* ===== verification/Committee_Conservation.thy ===== *)
theory Committee_Conservation
  imports Committee_State
begin

text \<open>
  Conservation of roles in the committee engine: over any instruction, the keys that hold a role
  (beacon committee, shard committee, substitute, common pool, sync pool) together with the keys
  reported as removed stakers change only by the newly staked keys. The lemmas go handler by handler
  and use the contracts of the swap and assign rules; the theorems state it for a whole beacon
  block of the slashing engine and for every instruction of the dynamic engine.
\<close>

section \<open>Shard maps as multisets\<close>

definition shard_mset :: "(nat \<rightharpoonup> 'a list) \<Rightarrow> 'a multiset" where
  "shard_mset m = (\<Sum>s<256. mset (map_slice m s))"

lemma sum_list_upt: "sum_list (map f [0..<n]) = (\<Sum>s<n. f s)" for f :: "nat \<Rightarrow> 'a :: comm_monoid_add"
  by (induction n) (auto simp: add.commute)

lemma mset_all_shards: "mset (all_shards m) = shard_mset m"
proof -
  have "mset (concat xss) = sum_list (map mset xss)" for xss :: "'a list list"
    by (induction xss) auto
  then show ?thesis using sum_list_upt [of "\<lambda>s. mset (map_slice m s)" 256]
    by (simp add: all_shards_def shard_mset_def comp_def)
qed

lemma map_slice_upd: "map_slice (m(s \<mapsto> xs)) t = (if t = s then xs else map_slice m t)"
  by (simp add: map_slice_def)

lemma shard_mset_upd:
  assumes "s < 256"
  shows "shard_mset (m(s \<mapsto> xs)) + mset (map_slice m s) = shard_mset m + mset xs"
proof -
  have split: "shard_mset m' = mset (map_slice m' s) + (\<Sum>t\<in>{..<256} - {s}. mset (map_slice m' t))" for m'
    unfolding shard_mset_def using assms by (intro sum.remove) auto
  have "(\<Sum>t\<in>{..<256} - {s}. mset (map_slice (m(s \<mapsto> xs)) t)) = (\<Sum>t\<in>{..<256} - {s}. mset (map_slice m t))"
    by (intro sum.cong) (auto simp: map_slice_upd)
  then show ?thesis using split [of m] split [of "m(s \<mapsto> xs)"] by (simp add: map_slice_upd)
qed

lemma shard_mset_extend:
  assumes "s < 256"
  shows "shard_mset (shard_extend m s xs) = shard_mset m + mset xs"
  using shard_mset_upd [OF assms, of m "map_slice m s @ xs"] by (simp add: shard_extend_def add.assoc)

lemma shard_mset_append:
  assumes "s < 256"
  shows "shard_mset (shard_append m s x) = add_mset x (shard_mset m)"
  using shard_mset_extend [OF assms, of m "[x]"] by (simp add: shard_extend_def shard_append_def)

lemma map_slice_extend: "map_slice (shard_extend m s xs) t = map_slice m t @ (if t = s then xs else [])"
  by (simp add: shard_extend_def map_slice_upd)

text \<open>Extending the shards of a list one after the other, each with its own list.\<close>

lemma extend_all:
  assumes "distinct ss"
  shows "map_slice (foldl (\<lambda>m s. shard_extend m s (f s)) m ss) t = map_slice m t @ (if t \<in> set ss then f t else [])"
  using assms by (induction ss arbitrary: m) (auto simp: map_slice_extend)

lemma shard_mset_extend_all:
  assumes "distinct ss" and "set ss \<subseteq> {..<256}"
  shows "shard_mset (foldl (\<lambda>m s. shard_extend m s (f s)) m ss) = shard_mset m + (\<Sum>s\<in>set ss. mset (f s))"
  using assms by (induction ss arbitrary: m) (auto simp: shard_mset_extend ac_simps)

section \<open>The ledger of a block\<close>

definition roles :: "('h, 'p, 'z) beaconCommitteeStateSlashingBase_scheme \<Rightarrow> string multiset" where
  "roles b = mset (getAllCandidateSubstituteCommittee_slashing b)"

lemma roles_eq:
  "roles b = shard_mset (shardCommittee b) + shard_mset (shardSubstitute b) + mset (beaconCommittee b) +
     mset (shardCommonPool b)"
  by (simp add: roles_def getAllCandidateSubstituteCommittee_slashing_def getAllCandidateSubstituteCommittee_base_def
      mset_all_shards add.assoc)

text \<open>The role lists of a state, and what a state of the dynamic engine has beyond them.\<close>

abbreviation extra :: "('h, 'p, 'z) beaconCommitteeStateSlashingBase_scheme \<Rightarrow> 'z" where
  "extra \<equiv> beaconCommitteeStateSlashingBase.more"

definition same_lists ::
    "('h, 'p, 'z) beaconCommitteeStateSlashingBase_scheme \<Rightarrow> ('h, 'p, 'z) beaconCommitteeStateSlashingBase_scheme \<Rightarrow> bool" where
  "same_lists b b' \<longleftrightarrow> shardCommittee b' = shardCommittee b \<and> shardSubstitute b' = shardSubstitute b \<and>
     beaconCommittee b' = beaconCommittee b \<and> shardCommonPool b' = shardCommonPool b \<and> extra b' = extra b \<and>
     swapRule b' = swapRule b \<and> assignRule b' = assignRule b \<and>
     numberOfAssignedCandidates b' = numberOfAssignedCandidates b"

lemma same_lists_refl [simp]: "same_lists b b"
  by (simp add: same_lists_def)

lemma same_lists_trans: "same_lists a b \<Longrightarrow> same_lists b c \<Longrightarrow> same_lists a c"
  by (simp add: same_lists_def)

lemma same_lists_roles: "same_lists b b' \<Longrightarrow> roles b' = roles b"
  by (simp add: same_lists_def roles_eq)

text \<open>What the committee change records of removed stakers is only written by deleting staker data.\<close>

lemma RemovedStaker_Add [simp]:
  "RemovedStaker (AddNextEpochShardCandidateRemoved cdc ks cc) = RemovedStaker cc"
  "RemovedStaker (AddNextEpochShardCandidateAdded cdc ks cc) = RemovedStaker cc"
  "RemovedStaker (AddShardSubstituteAdded cdc s ks cc) = RemovedStaker cc"
  "RemovedStaker (AddShardSubstituteRemoved cdc s ks cc) = RemovedStaker cc"
  "RemovedStaker (AddShardCommitteeAdded cdc s ks cc) = RemovedStaker cc"
  "RemovedStaker (AddShardCommitteeRemoved cdc s ks cc) = RemovedStaker cc"
  "RemovedStaker (AddSyncingPoolAdded cdc s ks cc) = RemovedStaker cc"
  "RemovedStaker (AddSyncingPoolRemoved cdc s ks cc) = RemovedStaker cc"
  "RemovedStaker (AddFinishedSyncValidators s ks cc) = RemovedStaker cc"
  "RemovedStaker (AddSlashingCommittees s ks cc) = RemovedStaker cc"
  "RemovedStaker (AddStopAutoStake k cc) = RemovedStaker cc"
  "RemovedStaker (AddRemovedStaker k cc) = RemovedStaker cc @ [k]"
  "RemovedStaker (NewCommitteeChange n) = []"
  by (simp_all add: AddNextEpochShardCandidateRemoved_def AddNextEpochShardCandidateAdded_def
      AddShardSubstituteAdded_def AddShardSubstituteRemoved_def AddShardCommitteeAdded_def AddShardCommitteeRemoved_def
      AddSyncingPoolAdded_def AddSyncingPoolRemoved_def AddFinishedSyncValidators_def AddSlashingCommittees_def
      AddStopAutoStake_def AddRemovedStaker_def NewCommitteeChange_def Let_def)

definition removed :: "'k CommitteeChange \<Rightarrow> string multiset" where
  "removed cc = mset (RemovedStaker cc)"

section \<open>Staking and stopping auto-stake\<close>

lemma stake_step_same:
  assumes "stake_step ext si b x = Inr b'"
  shows "same_lists b b'"
  using assms by (auto simp: stake_step_def same_lists_def split: prod.splits)

lemma processStakeInstruction_spec:
  assumes "processStakeInstruction ext si (b, cc) = Inr (b', cc')"
  shows "\<exists>b1. same_lists b b1 \<and>
    b' = b1\<lparr>shardCommonPool := shardCommonPool b @ (if st_Chain si = BEACON_INST then [] else st_PublicKeys si)\<rparr> \<and>
    removed cc' = removed cc"
proof (cases "st_Chain si = BEACON_INST")
  case True
  with assms show ?thesis by (auto simp: processStakeInstruction_def intro!: exI [of _ b])
next
  case False
  with assms obtain b1 where
    l: "go_foldl (stake_step ext si) b (zip [0..<length (st_PublicKeyStructs si)] (st_PublicKeyStructs si)) = Inr b1"
    and b': "b' = b1\<lparr>shardCommonPool := shardCommonPool b1 @ st_PublicKeys si\<rparr>"
    and cc': "cc' = cc\<lparr>NextEpochShardCandidateAdded := NextEpochShardCandidateAdded cc @ st_PublicKeyStructs si\<rparr>"
    by (auto simp: processStakeInstruction_def processStakeInstruction_base_def)
  have "same_lists b b1" using l
    by (rule go_foldl_invariant [where P = "same_lists b"]) (auto dest: stake_step_same intro: same_lists_trans)
  then show ?thesis using False b' cc' by (auto simp: same_lists_def removed_def intro!: exI [of _ b1])
qed

lemma turnOff_same:
  assumes "foldl (turnOff_step vs) (b, cc) ks = (b', cc')"
  shows "same_lists b b' \<and> removed cc' = removed cc"
  using assms
proof (induction ks arbitrary: b cc)
  case Nil
  then show ?case by simp
next
  case (Cons k ks)
  obtain b1 cc1 where s: "turnOff_step vs (b, cc) k = (b1, cc1)" by fastforce
  have "same_lists b b1 \<and> removed cc1 = removed cc" using s
    by (auto simp: turnOff_step_def turnOffStopAutoStake_def same_lists_def removed_def
        split: if_splits option.splits bool.splits)
  with Cons.IH [of b1 cc1] Cons.prems s show ?case by (auto intro: same_lists_trans)
qed

section \<open>Random assignment\<close>

definition assign_inputs_ok :: "'k externals \<Rightarrow> AssignRuleProcessor \<Rightarrow> int list \<Rightarrow> bool" where
  "assign_inputs_ok ext rule nv \<longleftrightarrow> sort_slice_contract (ext_sortSlice ext) \<and> shards_ok nv \<and> rule \<noteq> NilAssignRule"

lemma processRandomAssignment_spec:
  assumes "assign_inputs_ok ext rule nv"
  shows "\<exists>m. processRandomAssignment ext rule cs rnd nv = Inr m \<and> shard_mset m = mset cs"
proof -
  from AssignRule_partition [of "ext_sortSlice ext" nv rule "ext_HashB ext" "ext_Intn ext" cs rnd] assms
  obtain m where m: "processRandomAssignment ext rule cs rnd nv = Inr m"
    and sm: "(\<Sum>s<length nv. mset (map_slice m s)) = mset cs" and out: "\<forall>s \<ge> length nv. map_slice m s = []"
    by (auto simp: assign_inputs_ok_def processRandomAssignment_def)
  have "length nv \<le> 256" using assms by (simp add: assign_inputs_ok_def shards_ok_def)
  then have "shard_mset m = (\<Sum>s<length nv. mset (map_slice m s))"
    unfolding shard_mset_def using out by (intro sum.mono_neutral_right) auto
  with m sm show ?thesis by simp
qed

lemma sum_assigned:
  "(\<Sum>s \<in> set (filter (\<lambda>s. m s \<noteq> None) [0..<256]). mset (map_slice m s)) = shard_mset m"
proof -
  have "(\<Sum>s \<in> {s. s < 256 \<and> m s \<noteq> None}. mset (map_slice m s)) = (\<Sum>s<256. mset (map_slice m s))"
    by (intro sum.mono_neutral_left) (auto simp: map_slice_def)
  moreover have "set (filter (\<lambda>s. m s \<noteq> None) [0..<256]) = {s. s < 256 \<and> m s \<noteq> None}" by auto
  ultimately show ?thesis by (simp only: shard_mset_def)
qed

text \<open>A state where only the substitutes grew: every shard keeps its substitutes as a prefix.\<close>

definition substitutes_grew ::
    "('h, 'p, 'z) beaconCommitteeStateSlashingBase_scheme \<Rightarrow> ('h, 'p, 'z) beaconCommitteeStateSlashingBase_scheme \<Rightarrow>
     string multiset \<Rightarrow> bool" where
  "substitutes_grew b b' new \<longleftrightarrow> same_lists b (b'\<lparr>shardSubstitute := shardSubstitute b\<rparr>) \<and>
     shard_mset (shardSubstitute b') = shard_mset (shardSubstitute b) + new \<and>
     (\<forall>s. \<exists>ys. map_slice (shardSubstitute b') s = map_slice (shardSubstitute b) s @ ys)"

lemma substitutes_grew_roles: "substitutes_grew b b' new \<Longrightarrow> roles b' = roles b + new"
  by (simp add: substitutes_grew_def same_lists_def roles_eq ac_simps)

lemma foldl_assign_shard_step:
  "foldl (assign_shard_step cdc m) (b, cc) ss =
     (b\<lparr>shardSubstitute := foldl (\<lambda>t s. shard_extend t s (map_slice m s)) (shardSubstitute b) ss\<rparr>,
      cc\<lparr>ShardSubstituteAdded := foldl (\<lambda>t s. shard_extend t s (structs_of cdc (map_slice m s))) (ShardSubstituteAdded cc) ss\<rparr>)"
  by (induction ss arbitrary: b cc) (simp_all add: assign_shard_step_def)

lemma assign_spec:
  assumes "assign cdc ext cs rnd nv (b, cc) = Inr (b', cc')" and "assign_inputs_ok ext (assignRule b) nv"
  shows "substitutes_grew b b' (mset cs) \<and> removed cc' = removed cc"
proof -
  from processRandomAssignment_spec [OF assms(2), of cs rnd] obtain m where
    m: "processRandomAssignment ext (assignRule b) cs rnd nv = Inr m" "shard_mset m = mset cs" by blast
  define ss where "ss = filter (\<lambda>s. m s \<noteq> None) [0..<256]"
  have ss: "distinct ss" "set ss \<subseteq> {..<256}" by (auto simp: ss_def)
  from assms(1) m(1) have "foldl (assign_shard_step cdc m) (b, cc) ss = (b', cc')"
    by (simp add: assign_def ss_def)
  then have
    b': "b' = b\<lparr>shardSubstitute := foldl (\<lambda>t s. shard_extend t s (map_slice m s)) (shardSubstitute b) ss\<rparr>"
    and cc': "removed cc' = removed cc" by (auto simp: foldl_assign_shard_step removed_def)
  have "shard_mset (shardSubstitute b') = shard_mset (shardSubstitute b) + mset cs"
    using shard_mset_extend_all [OF ss, of "map_slice m" "shardSubstitute b"] sum_assigned [of m] m(2)
    by (simp only: b' ss_def [symmetric]) simp
  then show ?thesis using extend_all [OF ss(1), of "map_slice m" "shardSubstitute b"] cc'
    by (simp add: substitutes_grew_def same_lists_def b')
qed

lemma getCandidates_spec:
  assumes "getCandidatesForRandomAssignment cdc (b, cc) = Inr (b', cc', cs)"
  shows "\<exists>rest. shardCommonPool b = cs @ rest \<and>
    b' = b\<lparr>shardCommonPool := rest, numberOfAssignedCandidates := 0\<rparr> \<and> removed cc' = removed cc"
  using assms by (auto simp: getCandidatesForRandomAssignment_def removed_def
      intro!: exI [of _ "drop (nat (numberOfAssignedCandidates b)) (shardCommonPool b)"])

lemma processAssignWithRandom_spec:
  assumes "processAssignWithRandomInstruction cdc ext rnd nv (b, cc) = Inr (b', cc')"
    and "assign_inputs_ok ext (assignRule b) nv"
  shows "roles b' = roles b \<and> removed cc' = removed cc \<and> shardCommittee b' = shardCommittee b \<and>
    swapRule b' = swapRule b \<and> assignRule b' = assignRule b \<and>
    (\<forall>s. \<exists>ys. map_slice (shardSubstitute b') s = map_slice (shardSubstitute b) s @ ys)"
proof -
  from assms(1) obtain b1 cc1 cs where 1: "getCandidatesForRandomAssignment cdc (b, cc) = Inr (b1, cc1, cs)"
    and 2: "assign cdc ext cs rnd nv (b1, cc1) = Inr (b', cc')"
    by (auto simp: processAssignWithRandomInstruction_def)
  from getCandidates_spec [OF 1] obtain rest where g: "shardCommonPool b = cs @ rest" "removed cc1 = removed cc"
    and b1: "b1 = b\<lparr>shardCommonPool := rest, numberOfAssignedCandidates := 0\<rparr>" by blast
  have a: "substitutes_grew b1 b' (mset cs)" "removed cc' = removed cc1"
    using assign_spec [OF 2] assms(2) by (auto simp: b1)
  have "roles b = roles b1 + mset cs" using g by (simp add: roles_eq b1 ac_simps)
  then show ?thesis using substitutes_grew_roles [OF a(1)] a g
    by (simp add: substitutes_grew_def same_lists_def b1)
qed

section \<open>Returning stakes, unstaking, slashing\<close>

text \<open>A step that deletes the staker data of a list of keys and touches no role list.\<close>

definition deletes ::
    "('k, 'h, 'p, 'z) block_state \<Rightarrow> string multiset \<Rightarrow> ('k, 'h, 'p, 'z) block_state \<Rightarrow> bool" where
  "deletes bs ks bs' \<longleftrightarrow> same_lists (fst bs) (fst bs') \<and> removed (fst (snd bs')) = removed (fst (snd bs)) + ks"

lemma deletes_trans: "deletes a ks b \<Longrightarrow> deletes b ls c \<Longrightarrow> deletes a (ks + ls) c"
  by (auto simp: deletes_def add.assoc intro: same_lists_trans)

lemma build_return_deletes:
  assumes "buildReturnStakingInstructionAndDeleteStakerInfo cdc ext st k info bs = Inr bs'"
  shows "deletes bs {#k#} bs'"
  using assms by (auto simp: buildReturnStakingInstructionAndDeleteStakerInfo_def deleteStakerInfo_def deletes_def
      same_lists_def removed_def split: prod.splits if_splits)

lemma classify_step_spec:
  assumes "classify_step cdc ext env structs (cands, bs) (i, k) = Inr (cands', bs')"
  shows "\<exists>ks. deletes bs ks bs' \<and> mset cands' + ks = mset cands + {#k#}"
proof -
  from assms obtain info where "staker_info env k = Inr info" by (auto simp: classify_step_def)
  with assms consider "cands' = cands @ [k]" "bs' = bs"
    | st where "cands' = cands" "buildReturnStakingInstructionAndDeleteStakerInfo cdc ext st k info bs = Inr bs'"
    by (cases "AutoStaking info") (auto simp: classify_step_def)
  then show ?thesis
  proof cases
    case 1
    then show ?thesis by (intro exI [of _ "{#}"]) (simp add: deletes_def)
  next
    case 2
    from build_return_deletes [OF 2(2)] 2(1) show ?thesis by blast
  qed
qed

lemma classify_loop:
  assumes "go_foldl (classify_step cdc ext env structs) (cands, bs) xs = Inr (cands', bs')"
  shows "\<exists>ks. deletes bs ks bs' \<and> mset cands' + ks = mset cands + mset (map snd xs)"
  using assms
proof (induction xs arbitrary: cands bs)
  case Nil
  then show ?case by (auto simp: deletes_def intro!: exI [of _ "{#}"])
next
  case (Cons x xs)
  obtain i k where x: "x = (i, k)" by (cases x)
  from Cons.prems obtain cands1 bs1 where
    s: "classify_step cdc ext env structs (cands, bs) (i, k) = Inr (cands1, bs1)" and
    rest: "go_foldl (classify_step cdc ext env structs) (cands1, bs1) xs = Inr (cands', bs')"
    by (auto simp: x)
  from classify_step_spec [OF s] obtain ks where ks: "deletes bs ks bs1" "mset cands1 + ks = mset cands + {#k#}" by blast
  from Cons.IH [OF rest] obtain ls where ls: "deletes bs1 ls bs'" "mset cands' + ls = mset cands1 + mset (map snd xs)" by blast
  have "mset cands' + (ks + ls) = (mset cands' + ls) + ks" by (simp add: ac_simps)
  also have "\<dots> = (mset cands1 + ks) + mset (map snd xs)" unfolding ls(2) by (simp add: ac_simps)
  finally have "mset cands' + (ks + ls) = mset cands + mset (map snd (x # xs))" unfolding ks(2) by (simp add: x)
  with deletes_trans [OF ks(1) ls(1)] show ?case by blast
qed

lemma classify_spec:
  assumes "classifyValidatorsByAutoStake cdc ext env outs bs = Inr (cands, bs')"
  shows "\<exists>ks. deletes bs ks bs' \<and> mset cands + ks = mset outs"
proof -
  have "map snd (zip [0..<length outs] outs) = outs" by simp
  then show ?thesis using classify_loop [OF assms [unfolded classifyValidatorsByAutoStake_def]] by (metis add_0 mset.simps(1))
qed

lemma slash_loop_deletes:
  assumes "go_foldl (slash_step cdc ext env structs) bs xs = Inr bs'"
  shows "deletes bs (mset (map snd xs)) bs'"
  using assms
proof (induction xs arbitrary: bs)
  case Nil
  then show ?case by (simp add: deletes_def)
next
  case (Cons x xs)
  then obtain bs1 where "slash_step cdc ext env structs bs x = Inr bs1"
    and rest: "go_foldl (slash_step cdc ext env structs) bs1 xs = Inr bs'" by auto
  then have "deletes bs {#snd x#} bs1" by (auto simp: slash_step_def dest: build_return_deletes split: prod.splits)
  from deletes_trans [OF this Cons.IH [OF rest]] show ?case by simp
qed

lemma processSlashing_spec:
  assumes "processSlashing cdc ext sid env sl bs = Inr bs'"
  shows "deletes bs (mset sl) bs'"
proof -
  from assms obtain b cc ret where
    l: "go_foldl (slash_step cdc ext env (structs_of cdc sl)) bs (zip [0..<length sl] sl) = Inr (b, cc, ret)"
    and bs': "bs' = (b, AddSlashingCommittees sid sl cc, ret)"
    by (auto simp: processSlashing_def)
  have "map snd (zip [0..<length sl] sl) = sl" by simp
  with slash_loop_deletes [OF l] show ?thesis by (simp add: bs' deletes_def removed_def)
qed

text \<open>An unstake instruction only moves keys from the common pool to the removed stakers.\<close>

definition pool_shrinks ::
    "('k, 'h, 'p, 'z) block_state \<Rightarrow> ('k, 'h, 'p, 'z) block_state \<Rightarrow> bool" where
  "pool_shrinks bs bs' \<longleftrightarrow> (\<exists>ks. mset (shardCommonPool (fst bs)) = mset (shardCommonPool (fst bs')) + ks \<and>
     same_lists (fst bs) ((fst bs')\<lparr>shardCommonPool := shardCommonPool (fst bs)\<rparr>) \<and>
     removed (fst (snd bs')) = removed (fst (snd bs)) + ks)"

lemma pool_shrinks_trans: "pool_shrinks a b \<Longrightarrow> pool_shrinks b c \<Longrightarrow> pool_shrinks a c"
  by (auto simp: pool_shrinks_def same_lists_def ac_simps)

lemma unstake_step_spec:
  assumes "unstake_step cdc ext env ui bs x = Inr bs'"
  shows "pool_shrinks bs bs'"
proof -
  obtain b cc ret where bs: "bs = (b, cc, ret)" by (metis prod_cases3)
  obtain i k where x: "x = (i, k)" by (cases x)
  show ?thesis
  proof (cases "IndexOfStr k (newUnassignedCommonPool env) = -1")
    case True
    then show ?thesis using assms
      by (auto simp: bs x unstake_step_def turnOffStopAutoStake_def pool_shrinks_def same_lists_def removed_def
          split: option.splits)
  next
    case False
    define n where "n = IndexOfStr k (shardCommonPool b)"
    from False assms obtain st info where n: "0 \<le> n" "n \<le> int (length (shardCommonPool b))"
      and bd: "buildReturnStakingInstructionAndDeleteStakerInfo cdc ext st k info
        (b\<lparr>shardCommonPool := take (nat n) (shardCommonPool b) @ drop (nat (n + 1)) (shardCommonPool b)\<rparr>,
         AddNextEpochShardCandidateRemoved cdc [k] cc, ret) = Inr bs'"
      by (auto simp: bs x unstake_step_def n_def [symmetric] Let_def)
    have "k \<in> set (shardCommonPool b)"
    proof (rule ccontr)
      assume "k \<notin> set (shardCommonPool b)"
      then have "n = -1" by (simp add: n_def)
      with n(1) show False by simp
    qed
    note mem = IndexOfStr_mem [OF this, folded n_def]
    then have "shardCommonPool b = take (nat n) (shardCommonPool b) @ k # drop (nat (n + 1)) (shardCommonPool b)"
      by (metis Suc_nat_eq_nat_zadd1 add.commute id_take_nth_drop nat_less_iff)
    then have "mset (shardCommonPool b) =
        mset (take (nat n) (shardCommonPool b) @ drop (nat (n + 1)) (shardCommonPool b)) + {#k#}"
      by (metis add_mset_add_single mset.simps(2) mset_append union_mset_add_mset_right)
    then show ?thesis using build_return_deletes [OF bd]
      by (auto simp: pool_shrinks_def deletes_def same_lists_def bs removed_def intro!: exI [of _ "{#k#}"])
  qed
qed

lemma processUnstake_spec:
  assumes "processUnstakeInstruction cdc ext env ui bs = Inr bs'"
  shows "pool_shrinks bs bs'"
proof (rule go_foldl_invariant [OF assms [unfolded processUnstakeInstruction_def], where P = "pool_shrinks bs"])
  show "pool_shrinks bs bs" by (auto simp: pool_shrinks_def intro!: exI [of _ "{#}"])
qed (blast intro: pool_shrinks_trans unstake_step_spec)

section \<open>Swapping\<close>

text \<open>The lists of a shard still agree with the snapshot of the block: the committee is the same and
  the substitutes were only extended.\<close>

definition snapshot_ok ::
    "BeaconCommitteeStateEnvironment \<Rightarrow> ('h, 'p, 'z) beaconCommitteeStateSlashingBase_scheme \<Rightarrow> nat \<Rightarrow> bool" where
  "snapshot_ok env b s \<longleftrightarrow> map_slice (shardCommittee b) s = map_slice (env_shardCommittee env) s \<and>
     (\<exists>ys. map_slice (shardSubstitute b) s = map_slice (env_shardSubstitute env) s @ ys)"

definition keeps_snapshots ::
    "nat set \<Rightarrow> ('h, 'p, 'z) beaconCommitteeStateSlashingBase_scheme \<Rightarrow>
     ('h, 'p, 'z) beaconCommitteeStateSlashingBase_scheme \<Rightarrow> bool" where
  "keeps_snapshots seen b b' \<longleftrightarrow> assignRule b' = assignRule b \<and>
     (\<forall>s. s \<notin> seen \<longrightarrow> map_slice (shardCommittee b') s = map_slice (shardCommittee b) s \<and>
       (\<exists>ys. map_slice (shardSubstitute b') s = map_slice (shardSubstitute b) s @ ys))"

lemma keeps_snapshots_ok:
  assumes "keeps_snapshots seen b b'" and "snapshot_ok env b s" and "s \<notin> seen"
  shows "snapshot_ok env b' s"
  using assms by (fastforce simp: keeps_snapshots_def snapshot_ok_def)

lemma keeps_snapshots_mono: "keeps_snapshots {} b b' \<Longrightarrow> keeps_snapshots seen b b'"
  by (simp add: keeps_snapshots_def)

lemma keeps_snapshots_trans: "keeps_snapshots seen a b \<Longrightarrow> keeps_snapshots seen b c \<Longrightarrow> keeps_snapshots seen a c"
  by (auto simp: keeps_snapshots_def) (metis append_assoc)

lemma same_lists_keeps: "same_lists b b' \<Longrightarrow> keeps_snapshots seen b b'"
  by (simp add: same_lists_def keeps_snapshots_def)

lemma substitutes_grew_keeps: "substitutes_grew b b' new \<Longrightarrow> keeps_snapshots seen b b'"
  by (simp add: substitutes_grew_def same_lists_def keeps_snapshots_def)

definition shard_of :: "int \<Rightarrow> nat" where
  "shard_of chainID = nat (chainID mod 256)"

lemma shard_of_byte: "shard_of c < 256"
  by (simp add: shard_of_def nat_less_iff)

lemma processSwap_mismatch:
  assumes "processSwap cdc si env (b, cc) = Inr (b', cc', ins, no, sl, Some e)"
  shows "b' = b \<and> cc' = cc \<and> no = [] \<and> sl = []"
proof -
  define r where "r = SwapRule_Process (swapRule b) cdc (shard_of (ss_ChainID si))
    (map_slice (env_shardCommittee env) (shard_of (ss_ChainID si)))
    (map_slice (env_shardSubstitute env) (shard_of (ss_ChainID si))) (MinShardCommitteeSize env)
    (MaxShardCommitteeSize env) SWAP_BY_END_EPOCH (NumberOfFixedShardBlockValidator env) (MissingSignaturePenalty env)"
  note eq = assms [unfolded processSwap_def Let_def prod.case, folded shard_of_def, folded r_def]
  show ?thesis
  proof (cases r)
    case (Inl err)
    with eq show ?thesis by simp
  next
    case (Inr t)
    obtain cmp newC newS sl' no' where t: "t = (cmp, newC, newS, sl', no')" by (metis prod_cases5)
    show ?thesis
    proof (cases cmp)
      case None
      with eq Inr t show ?thesis by simp
    next
      case (Some c)
      with eq Inr t show ?thesis by (auto split: if_splits)
    qed
  qed
qed

lemma processSwap_spec:
  assumes "processSwap cdc si env (b, cc) = Inr (b', cc', ins, no, sl, err)"
    and "snapshot_ok env b (shard_of (ss_ChainID si))"
  shows "removed cc' = removed cc \<and> roles b' + mset no + mset sl = roles b \<and>
    keeps_snapshots {shard_of (ss_ChainID si)} b b' \<and> extra b' = extra b \<and> swapRule b' = swapRule b"
proof (cases err)
  case (Some e)
  with processSwap_mismatch assms(1) have "b' = b \<and> cc' = cc \<and> no = [] \<and> sl = []" by blast
  then show ?thesis by (simp add: keeps_snapshots_def)
next
  case None
  let ?s = "shard_of (ss_ChainID si)"
  from None assms(1) obtain cmp newC newS where
    p: "SwapRule_Process (swapRule b) cdc ?s (map_slice (env_shardCommittee env) ?s) (map_slice (env_shardSubstitute env) ?s)
        (MinShardCommitteeSize env) (MaxShardCommitteeSize env) SWAP_BY_END_EPOCH
        (NumberOfFixedShardBlockValidator env) (MissingSignaturePenalty env) = Inr (Some cmp, newC, newS, sl, no)" and
    ins: "ss_InPublicKeys cmp = ss_InPublicKeys si" and
    b': "b' = b\<lparr>shardCommittee := (shardCommittee b)(?s \<mapsto> newC),
        shardSubstitute := (shardSubstitute b)(?s \<mapsto> drop (length (ss_InPublicKeys si)) (map_slice (shardSubstitute b) ?s))\<rparr>" and
    cc': "removed cc' = removed cc"
    by (auto simp: processSwap_def shard_of_def removed_def Let_def split: option.splits if_splits)
  from rule.split [OF p] ins obtain kept where
    newC: "newC = kept @ ss_InPublicKeys si" and
    subs: "map_slice (env_shardSubstitute env) ?s = ss_InPublicKeys si @ newS" and
    ms: "mset kept + mset sl + mset no = mset (map_slice (env_shardCommittee env) ?s)"
    by (auto simp: swap_split_def)
  from assms(2) obtain ys where snap: "map_slice (shardCommittee b) ?s = map_slice (env_shardCommittee env) ?s"
    "map_slice (shardSubstitute b) ?s = map_slice (env_shardSubstitute env) ?s @ ys"
    by (auto simp: snapshot_ok_def)
  have C: "shard_mset (shardCommittee b') + mset sl + mset no = shard_mset (shardCommittee b) + mset (ss_InPublicKeys si)"
  proof -
    have "shard_mset (shardCommittee b') + (mset kept + mset sl + mset no) =
        shard_mset (shardCommittee b) + (mset kept + mset (ss_InPublicKeys si))"
      using shard_mset_upd [OF shard_of_byte, of "shardCommittee b" "ss_ChainID si" newC] ms snap(1)
      by (simp add: b' newC)
    then have "shard_mset (shardCommittee b') + mset sl + mset no + mset kept =
        shard_mset (shardCommittee b) + mset (ss_InPublicKeys si) + mset kept" by (simp add: ac_simps)
    then show ?thesis by simp
  qed
  have S: "shard_mset (shardSubstitute b') + mset (ss_InPublicKeys si) = shard_mset (shardSubstitute b)"
    using shard_mset_upd [OF shard_of_byte, of "shardSubstitute b" "ss_ChainID si" "newS @ ys"] snap(2) subs
    by (simp add: b' ac_simps)
  have "roles b' + mset no + mset sl = (shard_mset (shardCommittee b') + mset sl + mset no) +
      shard_mset (shardSubstitute b') + mset (beaconCommittee b) + mset (shardCommonPool b)"
    by (simp add: roles_eq b' ac_simps)
  also have "\<dots> = roles b" unfolding C roles_eq S [symmetric] by (simp add: ac_simps)
  finally have "roles b' + mset no + mset sl = roles b" .
  then show ?thesis using cc' by (simp add: b' keeps_snapshots_def map_slice_upd)
qed

section \<open>The slashing engine\<close>

text \<open>One instruction conserves the ledger: roles and removed stakers grow by the staked keys only. The
  shards in \<open>seen\<close> may change in other ways than the snapshot allows.\<close>

definition conserves ::
    "nat set \<Rightarrow> string multiset \<Rightarrow> ('k, 'h, 'p, 'z) block_state \<Rightarrow> ('k, 'h, 'p, 'z) block_state \<Rightarrow> bool" where
  "conserves seen new bs bs' \<longleftrightarrow> keeps_snapshots seen (fst bs) (fst bs') \<and>
     roles (fst bs') + removed (fst (snd bs')) = roles (fst bs) + removed (fst (snd bs)) + new"

lemma deletes_conserves:
  assumes "deletes bs ks bs'"
  shows "keeps_snapshots seen (fst bs) (fst bs')" and "roles (fst bs') = roles (fst bs)"
    and "removed (fst (snd bs')) = removed (fst (snd bs)) + ks"
  using assms by (auto simp: deletes_def same_lists_keeps same_lists_roles)

lemma pool_shrinks_conserves: "pool_shrinks bs bs' \<Longrightarrow> conserves {} {#} bs bs'"
  by (auto simp: pool_shrinks_def conserves_def keeps_snapshots_def same_lists_def roles_eq ac_simps)

lemma processAfterNormalSwap_spec:
  assumes "processAfterNormalSwap cdc ext env outs nv bs = Inr bs'"
    and "assign_inputs_ok ext (assignRule (fst bs)) nv"
  shows "conserves {} (mset outs) bs bs'"
proof -
  from assms(1) obtain cands b1 cc1 ret1 b2 cc2 where
    1: "classifyValidatorsByAutoStake cdc ext env outs bs = Inr (cands, b1, cc1, ret1)" and
    2: "assign cdc ext cands (RandomNumber env) nv (b1, cc1) = Inr (b2, cc2)" and
    bs': "bs' = (b2, cc2, ret1)"
    by (auto simp: processAfterNormalSwap_def)
  from classify_spec [OF 1] obtain ks where d: "deletes bs ks (b1, cc1, ret1)" and ks: "mset cands + ks = mset outs"
    by blast
  have "assignRule b1 = assignRule (fst bs)" using d by (simp add: deletes_def same_lists_def)
  with assign_spec [OF 2] assms(2) have g: "substitutes_grew b1 b2 (mset cands)" "removed cc2 = removed cc1" by auto
  have "keeps_snapshots {} (fst bs) b2"
    using deletes_conserves(1) [OF d] substitutes_grew_keeps [OF g(1)] keeps_snapshots_trans by fastforce
  moreover have "roles b2 + removed cc2 = roles (fst bs) + removed (fst (snd bs)) + mset outs"
    using deletes_conserves(2,3) [OF d] substitutes_grew_roles [OF g(1)] g(2) ks [symmetric] by (simp add: ac_simps)
  ultimately show ?thesis by (simp add: conserves_def bs')
qed

lemma processSwapShardInstruction_spec:
  assumes "processSwapShardInstruction cdc ext si nv env bs = Inr bs'"
    and "snapshot_ok env (fst bs) (shard_of (ss_ChainID si))"
    and "assign_inputs_ok ext (assignRule (fst bs)) nv"
  shows "conserves {shard_of (ss_ChainID si)} {#} bs bs'"
proof -
  obtain b cc ret where bs: "bs = (b, cc, ret)" by (metis prod_cases3)
  let ?s = "shard_of (ss_ChainID si)"
  from assms(1) obtain b1 cc1 ins no sl bs2 where
    1: "processSwap cdc si env (b, cc) = Inr (b1, cc1, ins, no, sl, None)" and
    2: "processAfterNormalSwap cdc ext env no nv (b1, cc1, ret) = Inr bs2" and
    3: "processSlashing cdc ext ?s env sl bs2 = Inr bs'"
    by (auto simp: processSwapShardInstruction_def bs shard_of_def split: option.splits)
  have w: "removed cc1 = removed cc" "roles b1 + mset no + mset sl = roles b" "keeps_snapshots {?s} b b1"
    using processSwap_spec [OF 1] assms(2) by (auto simp: bs)
  then have "assign_inputs_ok ext (assignRule b1) nv" using assms(3) by (simp add: keeps_snapshots_def bs)
  with processAfterNormalSwap_spec [OF 2] have a: "conserves {} (mset no) (b1, cc1, ret) bs2" by simp
  note sl = deletes_conserves [OF processSlashing_spec [OF 3]]
  have "keeps_snapshots {?s} b1 (fst bs2)" using a by (simp add: conserves_def keeps_snapshots_mono)
  from keeps_snapshots_trans [OF keeps_snapshots_trans [OF w(3) this] sl(1)]
  have "keeps_snapshots {?s} b (fst bs')" .
  moreover have "roles (fst bs') + removed (fst (snd bs')) = roles b + removed cc"
    using a sl(2,3) w(1) w(2) [symmetric] by (simp add: conserves_def ac_simps)
  ultimately show ?thesis by (simp add: conserves_def bs)
qed

definition staked_keys :: "('k, 'h, 'p) codec \<Rightarrow> string list \<Rightarrow> string list" where
  "staked_keys cdc inst = (case inst of [] \<Rightarrow> [] | action # _ \<Rightarrow>
     if action = STAKE_ACTION
     then (case ValidateAndImportStakeInstructionFromString cdc inst of Inl _ \<Rightarrow> []
           | Inr si \<Rightarrow> if st_Chain si = BEACON_INST then [] else st_PublicKeys si)
     else [])"

definition swapped_shards :: "('k, 'h, 'p) codec \<Rightarrow> string list \<Rightarrow> nat list" where
  "swapped_shards cdc inst = (case inst of [] \<Rightarrow> [] | action # _ \<Rightarrow>
     if action = SWAP_SHARD_ACTION
     then (case ValidateAndImportSwapShardInstructionFromString cdc inst of Inl _ \<Rightarrow> []
           | Inr si \<Rightarrow> [shard_of (ss_ChainID si)])
     else [])"

lemma conserves_mono: "conserves {} new bs bs' \<Longrightarrow> conserves seen new bs bs'"
  by (auto simp: conserves_def keeps_snapshots_def)

lemma stake_conserves:
  assumes "with_ret (processStakeInstruction ext si) bs = Inr bs'"
  shows "conserves {} (mset (if st_Chain si = BEACON_INST then [] else st_PublicKeys si)) bs bs'"
proof -
  obtain b cc ret where bs: "bs = (b, cc, ret)" by (metis prod_cases3)
  from assms obtain b' cc' where p: "processStakeInstruction ext si (b, cc) = Inr (b', cc')" and bs': "bs' = (b', cc', ret)"
    by (auto simp: with_ret_def bs)
  from processStakeInstruction_spec [OF p] show ?thesis
    by (auto simp: conserves_def bs bs' keeps_snapshots_def same_lists_def roles_eq ac_simps)
qed

lemma stop_conserves:
  assumes "stop_handler cdc env inst bs = Inr bs'"
  shows "conserves {} {#} bs bs'"
proof -
  obtain b cc ret where bs: "bs = (b, cc, ret)" by (metis prod_cases3)
  from assms obtain si where "with_ret (\<lambda>bc. Inr (processStopAutoStakeInstruction si env bc)) bs = Inr bs'"
    by (auto simp: stop_handler_def split: option.splits)
  then obtain b' cc' where
    f: "foldl (turnOff_step (newAllRoles env)) (b, cc) (sas_CommitteePublicKeys si) = (b', cc')" and bs': "bs' = (b', cc', ret)"
    by (auto simp: with_ret_def bs processStopAutoStakeInstruction_def turnOffAutoStake_def split: prod.splits)
  from turnOff_same [OF f] show ?thesis by (simp add: conserves_def bs bs' same_lists_keeps same_lists_roles)
qed

lemma random_conserves:
  assumes "with_ret (processAssignWithRandomInstruction cdc ext rnd nv) bs = Inr bs'"
    and "assign_inputs_ok ext (assignRule (fst bs)) nv"
  shows "conserves {} {#} bs bs'"
proof -
  obtain b cc ret where bs: "bs = (b, cc, ret)" by (metis prod_cases3)
  from assms(1) obtain b' cc' where p: "processAssignWithRandomInstruction cdc ext rnd nv (b, cc) = Inr (b', cc')"
    and bs': "bs' = (b', cc', ret)" by (auto simp: with_ret_def bs)
  from processAssignWithRandom_spec [OF p] assms(2) show ?thesis
    by (simp add: conserves_def bs bs' keeps_snapshots_def)
qed

lemma update_step_V2_conserves:
  assumes "update_step_V2 cdc ext env bs inst = Inr bs'"
    and "\<forall>s \<in> set (swapped_shards cdc inst). snapshot_ok env (fst bs) s"
    and "assign_inputs_ok ext (assignRule (fst bs)) (numberOfValidator env)"
  shows "conserves (set (swapped_shards cdc inst)) (mset (staked_keys cdc inst)) bs bs'"
proof (cases inst)
  case Nil
  with assms(1) show ?thesis
    by (simp add: update_step_V2_def conserves_def keeps_snapshots_def swapped_shards_def staked_keys_def)
next
  case (Cons action fields)
  note defs = update_step_V2_def swapped_shards_def staked_keys_def Cons
  consider "action = STAKE_ACTION" | "action = RANDOM_ACTION" | "action = STOP_AUTO_STAKE_ACTION"
    | "action = UNSTAKE_ACTION" | "action = SWAP_SHARD_ACTION"
    | "action \<noteq> STAKE_ACTION" "action \<noteq> RANDOM_ACTION" "action \<noteq> STOP_AUTO_STAKE_ACTION"
      "action \<noteq> UNSTAKE_ACTION" "action \<noteq> SWAP_SHARD_ACTION" by metis
  then show ?thesis
  proof cases
    case 1
    with assms(1) obtain si where "ValidateAndImportStakeInstructionFromString cdc inst = Inr si"
      and "with_ret (processStakeInstruction ext si) bs = Inr bs'" by (auto simp: defs)
    with stake_conserves show ?thesis using 1 by (fastforce simp: defs)
  next
    case 2
    with assms(1) obtain ri :: RandomInstruction where
      "with_ret (processAssignWithRandomInstruction cdc ext (randomNumber ri) (numberOfValidator env)) bs = Inr bs'"
      by (auto simp: defs)
    from random_conserves [OF this assms(3)] show ?thesis using 2 by (simp add: defs)
  next
    case 3
    with assms(1) have "stop_handler cdc env inst bs = Inr bs'" by (simp add: defs)
    from stop_conserves [OF this] show ?thesis using 3 by (simp add: defs)
  next
    case 4
    with assms(1) obtain ui where "processUnstakeInstruction cdc ext env ui bs = Inr bs'" by (auto simp: defs)
    from pool_shrinks_conserves [OF processUnstake_spec [OF this]] show ?thesis using 4 by (simp add: defs)
  next
    case 5
    with assms(1) obtain si where si: "ValidateAndImportSwapShardInstructionFromString cdc inst = Inr si"
      and p: "processSwapShardInstruction cdc ext si (numberOfValidator env) env bs = Inr bs'" by (auto simp: defs)
    have sw: "swapped_shards cdc inst = [shard_of (ss_ChainID si)]" "staked_keys cdc inst = []"
      using 5 si by (simp_all add: defs)
    from processSwapShardInstruction_spec [OF p] assms(2,3) show ?thesis by (simp add: sw)
  next
    case 6
    with assms(1) show ?thesis by (simp add: defs conserves_def keeps_snapshots_def)
  qed
qed

lemma update_loop_V2_conserves:
  assumes "go_foldl (update_step_V2 cdc ext env) bs insts = Inr bs'"
    and "\<forall>s \<in> set (concat (map (swapped_shards cdc) insts)). snapshot_ok env (fst bs) s"
    and "distinct (concat (map (swapped_shards cdc) insts))"
    and "assign_inputs_ok ext (assignRule (fst bs)) (numberOfValidator env)"
  shows "roles (fst bs') + removed (fst (snd bs')) =
    roles (fst bs) + removed (fst (snd bs)) + mset (concat (map (staked_keys cdc) insts))"
  using assms
proof (induction insts arbitrary: bs)
  case Nil
  then show ?case by simp
next
  case (Cons inst insts)
  from Cons.prems(1) obtain bs1 where 1: "update_step_V2 cdc ext env bs inst = Inr bs1"
    and rest: "go_foldl (update_step_V2 cdc ext env) bs1 insts = Inr bs'" by auto
  have c: "conserves (set (swapped_shards cdc inst)) (mset (staked_keys cdc inst)) bs bs1"
    using update_step_V2_conserves [OF 1 _ Cons.prems(4)] Cons.prems(2) by simp
  then have k: "keeps_snapshots (set (swapped_shards cdc inst)) (fst bs) (fst bs1)" by (simp add: conserves_def)
  have "\<forall>s \<in> set (concat (map (swapped_shards cdc) insts)). snapshot_ok env (fst bs1) s"
    using keeps_snapshots_ok [OF k] Cons.prems(2,3) by (simp add: disjoint_iff) blast
  moreover have "assign_inputs_ok ext (assignRule (fst bs1)) (numberOfValidator env)"
    using k Cons.prems(4) by (simp add: keeps_snapshots_def)
  ultimately have "roles (fst bs') + removed (fst (snd bs')) =
      roles (fst bs1) + removed (fst (snd bs1)) + mset (concat (map (staked_keys cdc) insts))"
    using Cons.IH [OF rest] Cons.prems(3) by simp
  then show ?case using c by (simp add: conserves_def add.assoc)
qed

text \<open>The shards of a chain in operation: between 1 and 256, the first of which has a committee.\<close>

definition shards_running :: "BeaconCommitteeStateEnvironment \<Rightarrow> ('h, 'p, 'z) beaconCommitteeStateBase_scheme \<Rightarrow> bool" where
  "shards_running env b \<longleftrightarrow> 0 < ActiveShards env \<and> ActiveShards env \<le> 256 \<and> map_slice (shardCommittee b) 0 \<noteq> []"

lemma shards_running_ok:
  assumes "0 < n" and "n \<le> 256" and "\<forall>i. 0 \<le> f i" and "f 0 > 0"
  shows "shards_ok (map f [0..<n])"
proof -
  have "[0..<n] = 0 # [1..<n]" using assms(1) by (simp add: upt_conv_Cons)
  moreover have "0 \<le> sum_list (map f [1..<n])" using assms(3) by (intro sum_list_nonneg) auto
  ultimately show ?thesis using assms by (auto simp: shards_ok_def)
qed

lemma block_V2_ledger:
  assumes "UpdateCommitteeState_V2 cdc ext Hash env b = Inr (b', hashes, cc, inc)"
    and "sort_slice_contract (ext_sortSlice ext)" and "assignRule b \<noteq> NilAssignRule" and "shards_running env b"
    and "distinct (concat (map (swapped_shards cdc) (BeaconInstructions env)))"
  shows "roles b' + removed cc = roles b + mset (concat (map (staked_keys cdc) (BeaconInstructions env)))"
proof -
  let ?b = "snapshot env b"
  have snap: "roles ?b = roles b" "assignRule ?b = assignRule b" "shardCommittee ?b = shardCommittee b"
    "shardSubstitute ?b = shardSubstitute b"
    by (simp_all add: snapshot_def roles_eq)
  from assms(1) obtain env' ret where
    1: "addData ?b env = Inr env'" and
    2: "go_foldl (update_step_V2 cdc ext env') (?b, NewCommitteeChange (ext_MaxShardNumber ext), NewReturnStakeIns)
      (BeaconInstructions env') = Inr (b', cc, ret)"
    by (auto simp: UpdateCommitteeState_V2_def Let_def)
  from 1 have env': "BeaconInstructions env' = BeaconInstructions env"
    "env_shardCommittee env' = shardCommittee b" "env_shardSubstitute env' = shardSubstitute b"
    "numberOfValidator env' = map (\<lambda>i. int (length (map_slice (shardCommittee b) (i mod 256))) +
       int (length (map_slice (shardSubstitute b) (i mod 256)))) [0..<ActiveShards env]"
    by (auto simp: addData_def snap)
  have "shards_ok (numberOfValidator env')" unfolding env'(4) using assms(4)
    by (intro shards_running_ok) (auto simp: shards_running_def intro: add_pos_nonneg)
  then have "assign_inputs_ok ext (assignRule ?b) (numberOfValidator env')"
    using assms(2,3) by (simp add: assign_inputs_ok_def snap)
  moreover have "\<forall>s. snapshot_ok env' ?b s" by (simp add: snapshot_ok_def env' snap)
  ultimately show ?thesis
    using update_loop_V2_conserves [OF 2] assms(5) by (simp add: env' snap removed_def)
qed

section \<open>The dynamic engine\<close>

definition roles_V3 :: "('h, 'p, 'z) BeaconCommitteeStateV3_scheme \<Rightarrow> string multiset" where
  "roles_V3 b = mset (getAllCandidateSubstituteCommittee_V3 b)"

lemma roles_V3_eq: "roles_V3 b = roles b + shard_mset (syncPool b)"
  by (simp add: roles_V3_def roles_def getAllCandidateSubstituteCommittee_V3_def mset_all_shards)

lemma syncPool_extra: "extra b' = extra b \<Longrightarrow> syncPool b' = syncPool b"
  by (cases b; cases b') simp

text \<open>The ledger of the dynamic engine includes the sync pool.\<close>

definition conserves_V3 :: "string multiset \<Rightarrow> ('k, 'h, 'p, 'z) block_state3 \<Rightarrow> ('k, 'h, 'p, 'z) block_state3 \<Rightarrow> bool" where
  "conserves_V3 new bs bs' \<longleftrightarrow>
     roles_V3 (fst bs') + removed (fst (snd bs')) = roles_V3 (fst bs) + removed (fst (snd bs)) + new"

lemma conserves_lift:
  assumes "conserves seen new bs bs'" and "extra (fst bs') = extra (fst bs)"
  shows "conserves_V3 new bs bs'"
  using assms syncPool_extra [OF assms(2)] by (simp add: conserves_def conserves_V3_def roles_V3_eq ac_simps)

lemma foldl_assignToSyncPool:
  "foldl (\<lambda>bc s. assignToSyncPool cdc s (f s) bc) (b, cc) ss = (b', cc') \<Longrightarrow>
     b' = b\<lparr>syncPool := foldl (\<lambda>m s. shard_extend m s (f s)) (syncPool b) ss\<rparr> \<and> removed cc' = removed cc"
proof (induction ss arbitrary: b cc)
  case Nil
  then show ?case by simp
next
  case (Cons s ss)
  then show ?case using Cons.IH [of "b\<lparr>syncPool := shard_extend (syncPool b) s (f s)\<rparr>"
      "AddSyncingPoolAdded cdc s (f s) cc"]
    by (auto simp: assignToSyncPool_def removed_def)
qed

lemma random_V3_conserves:
  assumes "with_ret (processAssignWithRandomInstruction_V3 cdc ext rnd nv) bs = Inr bs'"
    and "assign_inputs_ok ext (assignRule (fst bs)) nv"
  shows "conserves_V3 {#} bs bs'"
proof -
  obtain b cc ret where bs: "bs = (b, cc, ret)" by (metis prod_cases3)
  from assms(1) obtain b1 cc1 cs m b' cc' where 1: "getCandidatesForRandomAssignment cdc (b, cc) = Inr (b1, cc1, cs)"
    and 2: "processRandomAssignment ext (assignRule b1) cs rnd nv = Inr m"
    and 3: "foldl (\<lambda>bc s. assignToSyncPool cdc s (map_slice m s) bc) (b1, cc1)
      (filter (\<lambda>s. m s \<noteq> None) [0..<256]) = (b', cc')" and bs': "bs' = (b', cc', ret)"
    by (auto simp: with_ret_def bs processAssignWithRandomInstruction_V3_def split: prod.splits)
  from getCandidates_spec [OF 1] obtain rest where g: "shardCommonPool b = cs @ rest" "removed cc1 = removed cc"
    and b1: "b1 = b\<lparr>shardCommonPool := rest, numberOfAssignedCandidates := 0\<rparr>" by blast
  have m: "shard_mset m = mset cs" using processRandomAssignment_spec [OF assms(2), of cs rnd] 2 by (simp add: bs b1)
  define ss where "ss = filter (\<lambda>s. m s \<noteq> None) [0..<256]"
  have ss: "distinct ss" "set ss \<subseteq> {..<256}" by (auto simp: ss_def)
  have "shard_mset (syncPool b') = shard_mset (syncPool b1) + mset cs"
    using foldl_assignToSyncPool [OF 3] shard_mset_extend_all [OF ss, of "map_slice m" "syncPool b1"]
      sum_assigned [of m, folded ss_def] m by (simp add: ss_def)
  moreover have "roles b' = roles b1" using foldl_assignToSyncPool [OF 3] by (simp add: roles_eq)
  moreover have "roles b = roles b1 + mset cs" "syncPool b1 = syncPool b" using g by (simp_all add: roles_eq b1 ac_simps)
  ultimately show ?thesis using foldl_assignToSyncPool [OF 3] g
    by (simp add: conserves_V3_def bs bs' roles_V3_eq ac_simps)
qed

lemma assignBack_spec:
  assumes "assignBackToSubstituteList cdc cs s (b, cc) = (b', cc')" and "s < 256"
  shows "roles_V3 b' = roles_V3 b + mset cs \<and> removed cc' = removed cc"
  using assms
proof (induction cs arbitrary: b cc)
  case Nil
  then show ?case by (simp add: assignBackToSubstituteList_def)
next
  case (Cons c cs)
  let ?b = "b\<lparr>shardSubstitute := shard_append (shardSubstitute b) s c\<rparr>"
  have "roles_V3 ?b = roles_V3 b + {#c#}" using shard_mset_append [OF Cons.prems(2), of "shardSubstitute b" c]
    by (simp add: roles_V3_eq roles_eq)
  moreover have "assignBackToSubstituteList cdc cs s (?b, AddShardSubstituteAdded cdc s [c] cc) = (b', cc')"
    using Cons.prems(1) by (simp add: assignBackToSubstituteList_def)
  ultimately show ?case using Cons.IH [OF _ Cons.prems(2)] by (fastforce simp: removed_def)
qed

lemma processSwapShardInstruction_V3_spec:
  assumes "processSwapShardInstruction_V3 cdc ext si env bs = Inr bs'"
    and "snapshot_ok env (fst bs) (shard_of (ss_ChainID si))"
  shows "conserves_V3 {#} bs bs'"
proof -
  obtain b cc ret where bs: "bs = (b, cc, ret)" by (metis prod_cases3)
  let ?s = "shard_of (ss_ChainID si)" and ?env = "env\<lparr>env_ShardID := shard_of (ss_ChainID si)\<rparr>"
  note eq = assms(1) [unfolded processSwapShardInstruction_V3_def bs prod.case Let_def, folded shard_of_def]
  then obtain b1 cc1 ins no sl err b2 cc2 ret2 where
    1: "processSwap cdc si ?env (b, cc) = Inr (b1, cc1, ins, no, sl, err)" and
    2: "processAfterNormalSwap_V3 cdc ext ?env no (b1, cc1, ret) = Inr (b2, cc2, ret2)" and
    3: "(if map_byte (TriggeredFeature ?env) SLASH_TO_SYNC \<noteq> 0
       then (case assignToSyncPool cdc ?s sl (b2, cc2) of (b3, cc3) \<Rightarrow> Inr (b3, AddSlashingCommittees ?s sl cc3, ret2))
       else processSlashing cdc ext ?s ?env sl (b2, cc2, ret2)) = Inr bs'"
    by auto
  have w: "removed cc1 = removed cc" "roles b1 + mset no + mset sl = roles b" "extra b1 = extra b"
    using processSwap_spec [OF 1] assms(2) by (auto simp: bs snapshot_ok_def)
  from 2 obtain cands b' cc' where
    c: "classifyValidatorsByAutoStake cdc ext ?env no (b1, cc1, ret) = Inr (cands, b', cc', ret2)" and
    a: "assignBackToSubstituteList cdc cands ?s (b', cc') = (b2, cc2)"
    by (auto simp: processAfterNormalSwap_V3_def case_prod_beta prod_eq_iff)
  from classify_spec [OF c] obtain ks where d: "deletes (b1, cc1, ret) ks (b', cc', ret2)" and ks: "mset cands + ks = mset no"
    by blast
  have sy: "syncPool b' = syncPool b1" "syncPool b1 = syncPool b"
    using d w(3) by (auto simp: deletes_def same_lists_def intro!: syncPool_extra)
  note ab = assignBack_spec [OF a shard_of_byte]
  have "roles_V3 b2 + removed cc2 = roles_V3 b1 + removed cc1 + mset no"
    using ab deletes_conserves(2,3) [OF d] sy ks [symmetric] by (simp add: roles_V3_eq ac_simps)
  then have l2: "roles_V3 b2 + removed cc2 + mset sl = roles_V3 b + removed cc"
    using w(1) w(2) [symmetric] sy by (simp add: roles_V3_eq ac_simps)
  show ?thesis
  proof (cases "map_byte (TriggeredFeature ?env) SLASH_TO_SYNC \<noteq> 0")
    case True
    with 3 have "roles_V3 (fst bs') = roles_V3 b2 + mset sl \<and> removed (fst (snd bs')) = removed cc2"
      using shard_mset_extend [OF shard_of_byte, of "syncPool b2" "ss_ChainID si" sl]
      by (auto simp: assignToSyncPool_def roles_V3_eq roles_eq removed_def)
    then show ?thesis using l2 by (simp add: conserves_V3_def bs ac_simps)
  next
    case False
    with 3 have d3: "deletes (b2, cc2, ret2) (mset sl) bs'" by (auto dest: processSlashing_spec)
    then have "syncPool (fst bs') = syncPool b2" by (auto simp: deletes_def same_lists_def intro!: syncPool_extra)
    then show ?thesis using deletes_conserves(2,3) [OF d3] l2 by (simp add: conserves_V3_def bs roles_V3_eq ac_simps)
  qed
qed

section \<open>Finishing a sync\<close>

lemma remove_sync_spec:
  assumes "remove_sync F n xs = (r, F')" and "finite F"
  shows "mset r + mset_set (F - F') = mset xs \<and> F' \<subseteq> F"
  using assms
proof (induction F n xs arbitrary: r rule: remove_sync.induct)
  case (1 F n)
  then show ?case by simp
next
  case (2 F n key ks)
  consider "n = 0" | "n \<noteq> 0" "key \<in> F" | "n \<noteq> 0" "key \<notin> F" by blast
  then show ?case
  proof cases
    case 1
    with "2.prems" show ?thesis by simp
  next
    case in_F: 2
    with "2.prems" have *: "remove_sync (F - {key}) (n - 1) ks = (r, F')" by simp
    from "2.IH"(1) [OF in_F * ] "2.prems"(2) have
      ih: "mset r + mset_set (F - {key} - F') = mset ks" "F' \<subseteq> F - {key}" by auto
    have "mset_set (F - F') = add_mset key (mset_set (F - {key} - F'))"
    proof -
      have "F - F' = insert key (F - {key} - F')" using in_F ih(2) by auto
      then show ?thesis using "2.prems"(2) by (metis DiffD1 Diff_iff finite_Diff insertI1 mset_set.insert)
    qed
    with ih show ?thesis by auto
  next
    case 3
    with "2.prems" obtain r0 where *: "remove_sync F n ks = (r0, F')" and r: "r = key # r0"
      by (auto split: prod.split_asm)
    from "2.IH"(2) [OF 3 * "2.prems"(2)] show ?thesis by (simp add: r)
  qed
qed

lemma remove_sync_all:
  assumes "remove_sync F n xs = (r, F')" and "finite F" and "card F \<le> n" and "F \<subseteq> set xs"
  shows "F' = {}"
  using assms
proof (induction F n xs arbitrary: r rule: remove_sync.induct)
  case (1 F n)
  then show ?case by simp
next
  case (2 F n key ks)
  show ?case
  proof (cases "n = 0")
    case True
    with "2.prems" show ?thesis by simp
  next
    case n: False
    show ?thesis
    proof (cases "key \<in> F")
      case True
      with n "2.prems" have *: "remove_sync (F - {key}) (n - 1) ks = (r, F')" by simp
      show ?thesis using "2.prems" n True by (intro "2.IH"(1) [OF n True *]) auto
    next
      case False
      with n "2.prems"(1) obtain r0 where *: "remove_sync F n ks = (r0, F')" by (auto split: prod.split_asm)
      show ?thesis using "2.prems" False by (intro "2.IH"(2) [OF n False *]) auto
    qed
  qed
qed

lemma insertValue_mset:
  assumes "insertValueToSliceByIndex xs v i = Inr ys"
  shows "mset ys = add_mset v (mset xs)"
  using assms mset_take_drop [of "nat i" xs] by (auto simp: insertValueToSliceByIndex_def split: if_splits)

lemma assignRandomly_spec:
  assumes "assignRandomlyToSubstituteList cdc ext cs rnd s (b, cc) = Inr (b', cc')" and "s < 256"
  shows "roles_V3 b' = roles_V3 b + mset cs \<and> removed cc' = removed cc"
  using assms
proof (induction cs arbitrary: b cc)
  case Nil
  then show ?case by (simp add: assignRandomlyToSubstituteList_def)
next
  case (Cons c cs)
  then obtain b1 cc1 where st: "substitute_step cdc ext rnd s (b, cc) c = Inr (b1, cc1)"
    and rest: "assignRandomlyToSubstituteList cdc ext cs rnd s (b1, cc1) = Inr (b', cc')"
    by (auto simp: assignRandomlyToSubstituteList_def)
  from st obtain off subs where ins: "insertValueToSliceByIndex (map_slice (shardSubstitute b) s) c off = Inr subs"
    and b1: "b1 = b\<lparr>shardSubstitute := (shardSubstitute b)(s \<mapsto> subs)\<rparr>" and cc1: "removed cc1 = removed cc"
    by (auto simp: substitute_step_def Let_def removed_def)
  have "shard_mset (shardSubstitute b1) + mset (map_slice (shardSubstitute b) s) =
      shard_mset (shardSubstitute b) + {#c#} + mset (map_slice (shardSubstitute b) s)"
    using shard_mset_upd [OF Cons.prems(2), of "shardSubstitute b" subs] insertValue_mset [OF ins] by (simp add: b1)
  then have "shard_mset (shardSubstitute b1) = shard_mset (shardSubstitute b) + {#c#}" by (metis add_right_cancel)
  then have "roles_V3 b1 = roles_V3 b + {#c#}" by (simp add: roles_V3_eq roles_eq b1)
  with Cons.IH [OF rest Cons.prems(2)] cc1 show ?case by simp
qed

text \<open>The condition under which finishing a sync conserves keys: no duplicates, all in the sync pool.\<close>

definition finish_ok :: "'k FinishSyncInstruction \<Rightarrow> ('h, 'p, 'z) BeaconCommitteeStateV3_scheme \<Rightarrow> bool" where
  "finish_ok fi b \<longleftrightarrow> fs_ChainID fi \<noteq> -1 \<longrightarrow> distinct (fs_PublicKeys fi) \<and>
     set (fs_PublicKeys fi) \<subseteq> set (map_slice (syncPool b) (shard_of (fs_ChainID fi)))"

lemma removeValidators_spec:
  assumes "distinct ks" and "set ks \<subseteq> set (map_slice (syncPool b) s)" and "s < 256"
  shows "roles_V3 (fst (removeValidatorsFromSyncPool ks s b)) + mset ks = roles_V3 b"
    and "snd (removeValidatorsFromSyncPool ks s b) = None"
proof -
  obtain r F where rm: "remove_sync (set ks) (length ks) (map_slice (syncPool b) s) = (r, F)" by fastforce
  have F: "F = {}" using remove_sync_all [OF rm] assms(2) card_length [of ks] by simp
  have ms: "mset r + mset ks = mset (map_slice (syncPool b) s)"
    using remove_sync_spec [OF rm] F assms(1) by (simp add: mset_set_set)
  show "snd (removeValidatorsFromSyncPool ks s b) = None" by (simp add: removeValidatorsFromSyncPool_def rm F)
  show "roles_V3 (fst (removeValidatorsFromSyncPool ks s b)) + mset ks = roles_V3 b"
  proof (cases "map_slice (syncPool b) s = r")
    case True
    with rm have "fst (removeValidatorsFromSyncPool ks s b) = b" by (simp add: removeValidatorsFromSyncPool_def)
    moreover have "mset ks = {#}" using ms True by simp
    ultimately show ?thesis by simp
  next
    case False
    have "shard_mset ((syncPool b)(s \<mapsto> r)) + mset ks + mset r = shard_mset (syncPool b) + mset r"
      using shard_mset_upd [OF assms(3), of "syncPool b" r] ms by (metis add.assoc add.commute)
    then have "shard_mset ((syncPool b)(s \<mapsto> r)) + mset ks = shard_mset (syncPool b)" by (metis add_right_cancel)
    with False show ?thesis by (simp add: removeValidatorsFromSyncPool_def rm roles_V3_eq roles_eq add.assoc)
  qed
qed

lemma finish_conserves:
  assumes "with_ret (processFinishSyncInstruction cdc ext fi env) bs = Inr bs'" and "finish_ok fi (fst bs)"
  shows "conserves_V3 {#} bs bs'"
proof -
  obtain b cc ret where bs: "bs = (b, cc, ret)" by (metis prod_cases3)
  from assms(1) obtain b' cc' where p: "processFinishSyncInstruction cdc ext fi env (b, cc) = Inr (b', cc')"
    and bs': "bs' = (b', cc', ret)" by (auto simp: with_ret_def bs)
  show ?thesis
  proof (cases "fs_ChainID fi = -1")
    case True
    with p show ?thesis by (simp add: processFinishSyncInstruction_def conserves_V3_def bs bs')
  next
    case False
    let ?s = "shard_of (fs_ChainID fi)"
    define b1 where "b1 = fst (removeValidatorsFromSyncPool (fs_PublicKeys fi) ?s b)"
    have "roles_V3 b1 + mset (fs_PublicKeys fi) = roles_V3 b"
      unfolding b1_def using assms(2) False by (intro removeValidators_spec(1)) (auto simp: finish_ok_def bs shard_of_byte)
    moreover have "assignRandomlyToSubstituteList cdc ext (fs_PublicKeys fi) (RandomNumber env) ?s
        (b1, AddFinishedSyncValidators ?s (fs_PublicKeys fi) (AddSyncingPoolRemoved cdc ?s (fs_PublicKeys fi) cc)) = Inr (b', cc')"
      using p False by (simp add: processFinishSyncInstruction_def b1_def shard_of_def Let_def)
    from assignRandomly_spec [OF this shard_of_byte] have
      "roles_V3 b' = roles_V3 b1 + mset (fs_PublicKeys fi)" "removed cc' = removed cc" by (auto simp: removed_def)
    ultimately show ?thesis by (simp add: conserves_V3_def bs bs')
  qed
qed

definition finished_ok ::
    "('k, 'h, 'p) codec \<Rightarrow> string list \<Rightarrow> ('h, 'p, 'z) BeaconCommitteeStateV3_scheme \<Rightarrow> bool" where
  "finished_ok cdc inst b = (case inst of [] \<Rightarrow> True | action # _ \<Rightarrow>
     if action = FINISH_SYNC_ACTION
     then (case ValidateAndImportFinishSyncInstructionFromString cdc inst of Inl _ \<Rightarrow> True | Inr fi \<Rightarrow> finish_ok fi b)
     else True)"

lemma stake_extra:
  assumes "with_ret (processStakeInstruction ext si) bs = Inr bs'"
  shows "extra (fst bs') = extra (fst bs)"
proof -
  obtain b cc ret where bs: "bs = (b, cc, ret)" by (metis prod_cases3)
  from assms obtain b' cc' where p: "processStakeInstruction ext si (b, cc) = Inr (b', cc')" and bs': "bs' = (b', cc', ret)"
    by (auto simp: with_ret_def bs)
  from processStakeInstruction_spec [OF p] show ?thesis by (auto simp: bs bs' same_lists_def)
qed

lemma stop_extra:
  assumes "stop_handler cdc env inst bs = Inr bs'"
  shows "extra (fst bs') = extra (fst bs)"
proof -
  obtain b cc ret where bs: "bs = (b, cc, ret)" by (metis prod_cases3)
  from assms obtain si where "with_ret (\<lambda>bc. Inr (processStopAutoStakeInstruction si env bc)) bs = Inr bs'"
    by (auto simp: stop_handler_def split: option.splits)
  then obtain b' cc' where
    f: "foldl (turnOff_step (newAllRoles env)) (b, cc) (sas_CommitteePublicKeys si) = (b', cc')" and bs': "bs' = (b', cc', ret)"
    by (auto simp: with_ret_def bs processStopAutoStakeInstruction_def turnOffAutoStake_def split: prod.splits)
  from turnOff_same [OF f] show ?thesis by (simp add: bs bs' same_lists_def)
qed

lemma update_step_V3_conserves:
  assumes "update_step_V3 cdc ext env bs inst = Inr bs'"
    and "\<forall>s \<in> set (swapped_shards cdc inst). snapshot_ok env (fst bs) s"
    and "assign_inputs_ok ext (assignRule (fst bs)) (numberOfValidator env)"
    and "finished_ok cdc inst (fst bs)"
  shows "conserves_V3 (mset (staked_keys cdc inst)) bs bs'"
proof (cases inst)
  case Nil
  with assms(1) show ?thesis by (simp add: update_step_V3_def conserves_V3_def staked_keys_def)
next
  case (Cons action fields)
  note defs = update_step_V3_def swapped_shards_def staked_keys_def Cons
  consider "action = STAKE_ACTION" | "action = RANDOM_ACTION" | "action = STOP_AUTO_STAKE_ACTION"
    | "action = UNSTAKE_ACTION" | "action = SWAP_SHARD_ACTION" | "action = FINISH_SYNC_ACTION"
    | "action \<noteq> STAKE_ACTION" "action \<noteq> RANDOM_ACTION" "action \<noteq> STOP_AUTO_STAKE_ACTION"
      "action \<noteq> UNSTAKE_ACTION" "action \<noteq> SWAP_SHARD_ACTION" "action \<noteq> FINISH_SYNC_ACTION" by metis
  then show ?thesis
  proof cases
    case 1
    with assms(1) obtain si where si: "ValidateAndImportStakeInstructionFromString cdc inst = Inr si"
      and p: "with_ret (processStakeInstruction ext si) bs = Inr bs'" by (auto simp: defs)
    have "staked_keys cdc inst = (if st_Chain si = BEACON_INST then [] else st_PublicKeys si)"
      using 1 si by (simp add: defs)
    with conserves_lift [OF stake_conserves [OF p] stake_extra [OF p]] show ?thesis by simp
  next
    case 2
    with assms(1) obtain ri :: RandomInstruction where
      p: "with_ret (processAssignWithRandomInstruction_V3 cdc ext (randomNumber ri) (numberOfValidator env)) bs = Inr bs'"
      by (auto simp: defs)
    from random_V3_conserves [OF p assms(3)] show ?thesis using 2 by (simp add: defs)
  next
    case 3
    with assms(1) have p: "stop_handler cdc env inst bs = Inr bs'" by (simp add: defs)
    from conserves_lift [OF stop_conserves [OF p] stop_extra [OF p]] show ?thesis using 3 by (simp add: defs)
  next
    case 4
    with assms(1) obtain ui where "processUnstakeInstruction cdc ext env ui bs = Inr bs'" by (auto simp: defs)
    note p = processUnstake_spec [OF this]
    then have "extra (fst bs') = extra (fst bs)" by (auto simp: pool_shrinks_def same_lists_def)
    from conserves_lift [OF pool_shrinks_conserves [OF p] this] show ?thesis using 4 by (simp add: defs)
  next
    case 5
    with assms(1) obtain si where si: "ValidateAndImportSwapShardInstructionFromString cdc inst = Inr si"
      and p: "processSwapShardInstruction_V3 cdc ext si env bs = Inr bs'" by (auto simp: defs)
    have sw: "swapped_shards cdc inst = [shard_of (ss_ChainID si)]" "staked_keys cdc inst = []"
      using 5 si by (simp_all add: defs)
    from processSwapShardInstruction_V3_spec [OF p] assms(2) show ?thesis by (simp add: sw)
  next
    case 6
    with assms(1) obtain fi where fi: "ValidateAndImportFinishSyncInstructionFromString cdc inst = Inr fi"
      and p: "with_ret (processFinishSyncInstruction cdc ext fi env) bs = Inr bs'" by (auto simp: defs)
    have "finish_ok fi (fst bs)" using assms(4) fi 6 by (simp add: finished_ok_def Cons)
    from finish_conserves [OF p this] show ?thesis using 6 by (simp add: defs)
  next
    case 7
    with assms(1) show ?thesis by (simp add: defs conserves_V3_def)
  qed
qed

section \<open>Properties of the committee engine\<close>

text \<open>C1. A beacon block of the slashing engine neither loses nor duplicates a validator: the keys that hold a role
  after the block, together with the keys it reports as removed stakers, are the keys that held a
  role before together with the newly staked ones (for blocks with at most one swap per shard).\<close>

theorem block_conserves_roles:
  assumes "UpdateCommitteeState_V2 cdc ext Hash env b = Inr (b', hashes, cc, inc)"
    and "sort_slice_contract (ext_sortSlice ext)" and "assignRule b \<noteq> NilAssignRule" and "shards_running env b"
    and "distinct (concat (map (swapped_shards cdc) (BeaconInstructions env)))"
  shows "mset (getAllCandidateSubstituteCommittee_slashing b') + mset (RemovedStaker cc) =
    mset (getAllCandidateSubstituteCommittee_slashing b) +
    mset (concat (map (staked_keys cdc) (BeaconInstructions env)))"
  using block_V2_ledger [OF assms] by (simp add: roles_def removed_def)

definition toy_ext :: "string externals" where
  "toy_ext = \<lparr>ext_HashB = map of_char, ext_Intn = (\<lambda>s d n. int d mod n), ext_sortSlice = sort_key snd,
     GetIncKeyBase58 = (\<lambda>k. k), AllFoundationNode = (\<lambda>k. False), ext_MaxShardNumber = 1\<rparr>"

definition toy_env :: "string list list \<Rightarrow> BeaconCommitteeStateEnvironment" where
  "toy_env insts =
     \<lparr>BeaconInstructions = insts, RandomNumber = 7, IsBeaconRandomTime = False, ActiveShards = 1,
      MinShardCommitteeSize = 4, MaxShardCommitteeSize = 8, NumberOfFixedShardBlockValidator = 4,
      MissingSignaturePenalty = Map.empty,
      ConsensusStateDB = (\<lambda>k. Inr (Some \<lparr>TxStakingID = ''tx'', AutoStaking = True\<rparr>)),
      TriggeredFeature = Map.empty, env_ShardID = 0, newAllRoles = [], newUnassignedCommonPool = [],
      newAllSubstituteCommittees = [], env_shardCommittee = Map.empty, env_shardSubstitute = Map.empty,
      numberOfValidator = []\<rparr>"

definition toy_state :: "(string, string) beaconCommitteeStateSlashingBase" where
  "toy_state =
     \<lparr>beaconCommittee = [''b0''], shardCommittee = [0 \<mapsto> [''c0'', ''c1'', ''c2'', ''c3'']], shardSubstitute = Map.empty,
      autoStake = Map.empty, rewardReceiver = Map.empty, stakingTx = Map.empty,
      shardCommonPool = [''p0'', ''p1''], numberOfAssignedCandidates = 1, swapRule = swapRuleV3, assignRule = AssignRuleV3\<rparr>"

definition toy_insts :: "string list list" where
  "toy_insts = [[''stake'', ''k9'', ''shard'', ''tx'', ''r'', ''true''], [''unstake'', ''p1'']]"

lemmas codec_eval = ValidateAndImportStakeInstructionFromString_def ValidateStakeInstructionSanity_def
  ImportStakeInstructionFromString_def ValidateAndImportUnstakeInstructionFromString_def
  ValidateUnstakeInstructionSanity_def ImportUnstakeInstructionFromString_def CommitteeBase58KeyListToStruct_def
  decode_key_def hashes_of_def receivers_of_def or_panic_def toy_keys_def go_index_def Let_def

lemmas engine_eval = UpdateCommitteeState_V2_def snapshot_def addData_def getAllSubstituteCommittees_slashing_def
  update_step_V2_def with_ret_def processStakeInstruction_def processStakeInstruction_base_def stake_step_def
  processUnstakeInstruction_def unstake_step_def staker_info_def buildReturnStakingInstructionAndDeleteStakerInfo_def
  ReturnStake_AddNewRequest_def deleteStakerInfo_def slice_to_def slice_from_def IndexOfStr_def
  toy_ext_def toy_env_def toy_state_def toy_insts_def

lemma toy_hyps:
  "sort_slice_contract (ext_sortSlice toy_ext)"
  "assignRule toy_state = AssignRuleV3"
  "shards_running (toy_env insts) toy_state"
  "concat (map (swapped_shards toy_keys) (BeaconInstructions (toy_env toy_insts))) = []"
  by (simp_all add: toy_ext_def sort_key_contract shards_running_def map_slice_def toy_state_def toy_env_def
      toy_insts_def swapped_shards_def)

theorem block_conserves_roles_witness:
  "\<exists>b' cc inc. UpdateCommitteeState_V2 toy_keys toy_ext (\<lambda>b cc. Inr ()) (toy_env toy_insts) toy_state = Inr (b', (), cc, inc) \<and>
     mset (getAllCandidateSubstituteCommittee_slashing b') + mset (RemovedStaker cc) =
     mset (getAllCandidateSubstituteCommittee_slashing toy_state) + mset [''k9'']"
proof -
  have "go_ok (UpdateCommitteeState_V2 toy_keys toy_ext (\<lambda>b cc. Inr ()) (toy_env toy_insts) toy_state)"
    by (simp add: codec_eval engine_eval)
  then obtain b' u cc inc where
    u: "UpdateCommitteeState_V2 toy_keys toy_ext (\<lambda>b cc. Inr ()) (toy_env toy_insts) toy_state = Inr (b', u, cc, inc)"
    by (auto simp: go_ok_iff)
  have h: "sort_slice_contract (ext_sortSlice toy_ext)" "assignRule toy_state \<noteq> NilAssignRule"
    "shards_running (toy_env toy_insts) toy_state"
    "distinct (concat (map (swapped_shards toy_keys) (BeaconInstructions (toy_env toy_insts))))"
    by (simp_all add: toy_hyps)
  have "concat (map (staked_keys toy_keys) (BeaconInstructions (toy_env toy_insts))) = [''k9'']"
    by (simp add: toy_env_def toy_insts_def staked_keys_def codec_eval)
  with block_conserves_roles [OF u h] u show ?thesis by simp
qed

text \<open>C29. Every instruction of the dynamic engine conserves validators: roles (sync pool included) and removed stakers
  grow by the staked keys only, provided a swapped shard is unchanged since the start of the block and
  finish-sync keys are different and in the sync pool.\<close>

theorem instruction_conserves_roles_V3:
  assumes "update_step_V3 cdc ext env (b, cc, ret) inst = Inr (b', cc', ret')"
    and "\<forall>s \<in> set (swapped_shards cdc inst). snapshot_ok env b s"
    and "assign_inputs_ok ext (assignRule b) (numberOfValidator env)"
    and "finished_ok cdc inst b"
  shows "mset (getAllCandidateSubstituteCommittee_V3 b') + mset (RemovedStaker cc') =
    mset (getAllCandidateSubstituteCommittee_V3 b) + mset (RemovedStaker cc) + mset (staked_keys cdc inst)"
  using update_step_V3_conserves [OF assms(1)] assms(2-4) by (simp add: conserves_V3_def roles_V3_def removed_def)

definition toy_state3 :: "(string, string) BeaconCommitteeStateV3" where
  "toy_state3 = beaconCommitteeStateSlashingBase.extend toy_state \<lparr>syncPool = [0 \<mapsto> [''s0'', ''s1'']]\<rparr>"

theorem instruction_conserves_roles_V3_witness:
  "\<exists>b' cc' ret'. update_step_V3 toy_keys toy_ext ((toy_env [])\<lparr>numberOfValidator := [8]\<rparr>)
      (toy_state3, NewCommitteeChange 1, NewReturnStakeIns) [''finishsync'', ''0'', ''s1''] = Inr (b', cc', ret') \<and>
     mset (getAllCandidateSubstituteCommittee_V3 b') + mset (RemovedStaker cc') =
     mset (getAllCandidateSubstituteCommittee_V3 toy_state3) + mset [] + mset []"
proof -
  let ?inst = "[''finishsync'', ''0'', ''s1'']" and ?env = "(toy_env [])\<lparr>numberOfValidator := [8]\<rparr>"
  have imp: "ValidateAndImportFinishSyncInstructionFromString toy_keys ?inst =
      Inr \<lparr>fs_ChainID = 0, fs_PublicKeys = [''s1''], fs_PublicKeysStruct = [''s1'']\<rparr>"
    by (simp add: ValidateAndImportFinishSyncInstructionFromString_def ValidateFinishSyncInstructionSanity_def
        ImportFinishSyncInstructionFromString_def codec_eval go_atoi_def go_parse_int_def parse_signed_def go_parse_uint_def char_digit_def)
  have h: "\<forall>s \<in> set (swapped_shards toy_keys ?inst). snapshot_ok ?env toy_state3 s"
    "assign_inputs_ok toy_ext (assignRule toy_state3) (numberOfValidator ?env)" "finished_ok toy_keys ?inst toy_state3"
    by (simp_all add: swapped_shards_def finished_ok_def imp finish_ok_def toy_state3_def toy_state_def
        beaconCommitteeStateSlashingBase.extend_def shard_of_def map_slice_def assign_inputs_ok_def toy_ext_def
        sort_key_contract shards_ok_def)
  have "go_ok (update_step_V3 toy_keys toy_ext ?env (toy_state3, NewCommitteeChange 1, NewReturnStakeIns) ?inst)"
    by (simp add: update_step_V3_def imp with_ret_def processFinishSyncInstruction_def assignRandomlyToSubstituteList_def
        substitute_step_def removeValidatorsFromSyncPool_def toy_state3_def toy_state_def
        beaconCommitteeStateSlashingBase.extend_def map_slice_def insertValueToSliceByIndex_def Let_def)
  then obtain b' cc' ret' where
    u: "update_step_V3 toy_keys toy_ext ?env (toy_state3, NewCommitteeChange 1, NewReturnStakeIns) ?inst = Inr (b', cc', ret')"
    by (auto simp: go_ok_iff)
  have "staked_keys toy_keys ?inst = []" by (simp add: staked_keys_def)
  with instruction_conserves_roles_V3 [OF u h] u show ?thesis by simp
qed

text \<open>C39. The two engines treat a swap instruction that does not match the recomputed swap differently: the slashing
  engine rejects the block, the dynamic engine overwrites the error and accepts the instruction without
  changing anything.\<close>

theorem mismatched_swap_rejected_only_by_V2:
  assumes "processSwap cdc si (env\<lparr>env_ShardID := nat (ss_ChainID si mod 256)\<rparr>) (b, cc) = Inr (b1, cc1, ins, no, sl, Some e)"
    and "map_byte (TriggeredFeature env) SLASH_TO_SYNC = 0"
  shows "processSwapShardInstruction cdc ext si nv (env\<lparr>env_ShardID := nat (ss_ChainID si mod 256)\<rparr>) (b, cc, ret) = Inl (GoErr e) \<and>
    processSwapShardInstruction_V3 cdc ext si env (b, cc, ret) = Inr (b, cc, ret)"
proof -
  from processSwap_mismatch [OF assms(1)] have eq: "b1 = b" "cc1 = cc" "no = []" "sl = []" by auto
  have "processSwapShardInstruction_V3 cdc ext si env (b, cc, ret) = Inr (b, cc, ret)"
    using assms by (simp add: processSwapShardInstruction_V3_def eq Let_def processAfterNormalSwap_V3_def
        classifyValidatorsByAutoStake_def assignBackToSubstituteList_def processSlashing_def AddSlashingCommittees_def)
  then show ?thesis using assms(1) by (simp add: processSwapShardInstruction_def)
qed

theorem mismatched_swap_rejected_only_by_V2_witness:
  "let env = (toy_env [])\<lparr>env_shardCommittee := [0 \<mapsto> [''c0'', ''c1'', ''c2'', ''c3'']]\<rparr>;
       si = \<lparr>ss_InPublicKeys = [''x''], ss_InPublicKeyStructs = [''x''], ss_OutPublicKeys = [],
         ss_OutPublicKeyStructs = [], ss_ChainID = 0, ss_Type = 0\<rparr>
   in processSwapShardInstruction_V3 toy_keys toy_ext si env (toy_state3, NewCommitteeChange 1, NewReturnStakeIns) =
     Inr (toy_state3, NewCommitteeChange 1, NewReturnStakeIns)"
proof -
  define env where "env = (toy_env [])\<lparr>env_shardCommittee := [0 \<mapsto> [''c0'', ''c1'', ''c2'', ''c3'']]\<rparr>"
  define si :: "string SwapShardInstruction" where
    "si = \<lparr>ss_InPublicKeys = [''x''], ss_InPublicKeyStructs = [''x''], ss_OutPublicKeys = [],
         ss_OutPublicKeyStructs = [], ss_ChainID = 0, ss_Type = 0\<rparr>"
  have "processSwap toy_keys si (env\<lparr>env_ShardID := nat (ss_ChainID si mod 256)\<rparr>) (toy_state3, NewCommitteeChange 1) =
      Inr (toy_state3, NewCommitteeChange 1, [], [], [], Some ''expect swap in keys'')"
    by (simp add: processSwap_def env_def si_def toy_env_def toy_state3_def toy_state_def map_slice_def
        beaconCommitteeStateSlashingBase.extend_def V3_Process_eq v3_min_def V3_slashingSwapOut_def
        V3_normalSwapOut_def V3_swapInAfterSwapOut_def V3_getMaxSlashingOffset_def V3_getNormalSwapOutOffset_def
        V3_getSwapInOffset_def swap_constants slice_to_def slice_from_def go_slice_def Let_def announce_def
        NewSwapShardInstructionWithShardID_def)
  moreover have "map_byte (TriggeredFeature env) SLASH_TO_SYNC = 0"
    by (simp add: env_def toy_env_def map_byte_def)
  ultimately have "processSwapShardInstruction_V3 toy_keys toy_ext si env (toy_state3, NewCommitteeChange 1, NewReturnStakeIns) =
      Inr (toy_state3, NewCommitteeChange 1, NewReturnStakeIns)"
    using mismatched_swap_rejected_only_by_V2 by blast
  then show ?thesis by (simp add: Let_def env_def si_def)
qed

lemma remove_sync_none:
  assumes "F \<inter> set xs = {}"
  shows "remove_sync F n xs = (xs, F)"
  using assms by (induction F n xs rule: remove_sync.induct) auto

text \<open>A finish-sync instruction does not check its keys: keys that are not in the sync pool are removed from
  nowhere, the error is dropped, and they become substitutes of the shard all the same.\<close>

theorem finish_sync_unknown_keys_gain_role:
  assumes "processFinishSyncInstruction cdc ext fi env (b, cc) = Inr (b', cc')" and "fs_ChainID fi \<noteq> -1"
    and "set (fs_PublicKeys fi) \<inter> set (map_slice (syncPool b) (nat (fs_ChainID fi mod 256))) = {}"
    and "fs_PublicKeys fi \<noteq> []"
  shows "snd (removeValidatorsFromSyncPool (fs_PublicKeys fi) (nat (fs_ChainID fi mod 256)) b) \<noteq> None \<and>
    mset (getAllCandidateSubstituteCommittee_V3 b') =
      mset (getAllCandidateSubstituteCommittee_V3 b) + mset (fs_PublicKeys fi)"
proof -
  let ?s = "shard_of (fs_ChainID fi)" and ?ks = "fs_PublicKeys fi"
  have rm: "removeValidatorsFromSyncPool ?ks ?s b = (b, Some ''These validators is not in sync pool'')"
    using assms(3,4) by (simp add: removeValidatorsFromSyncPool_def remove_sync_none shard_of_def)
  have "assignRandomlyToSubstituteList cdc ext ?ks (RandomNumber env) ?s
      (b, AddFinishedSyncValidators ?s ?ks (AddSyncingPoolRemoved cdc ?s ?ks cc)) = Inr (b', cc')"
    using assms(1,2) rm by (simp add: processFinishSyncInstruction_def shard_of_def Let_def)
  from assignRandomly_spec [OF this shard_of_byte] rm show ?thesis by (simp add: roles_V3_def shard_of_def)
qed

theorem finish_sync_unknown_keys_gain_role_witness:
  "snd (removeValidatorsFromSyncPool [''x''] 0 toy_state3) \<noteq> None"
proof -
  let ?fi = "\<lparr>fs_ChainID = 0, fs_PublicKeys = [''x''], fs_PublicKeysStruct = [''x'']\<rparr>"
  have "go_ok (processFinishSyncInstruction toy_keys toy_ext ?fi (toy_env []) (toy_state3, NewCommitteeChange 1))"
    by (simp add: processFinishSyncInstruction_def assignRandomlyToSubstituteList_def
        substitute_step_def removeValidatorsFromSyncPool_def toy_state3_def toy_state_def
        beaconCommitteeStateSlashingBase.extend_def map_slice_def insertValueToSliceByIndex_def Let_def)
  then obtain b' cc' where
    p: "processFinishSyncInstruction toy_keys toy_ext ?fi (toy_env []) (toy_state3, NewCommitteeChange 1) = Inr (b', cc')"
    by (auto simp: go_ok_iff)
  show ?thesis using finish_sync_unknown_keys_gain_role [OF p]
    by (simp add: toy_state3_def toy_state_def beaconCommitteeStateSlashingBase.extend_def map_slice_def)
qed

end
