(* ===== verification/Beacon_Consistency.thy ===== *)
theory Beacon_Consistency
  imports Beacon_Block Committee_Conservation
begin

text \<open>
  Unlocking, the whole block, and restoring (\<^verbatim>\<open>beacon_committee_state_v4.go\<close>): the properties of the fourth engine.
\<close>

section \<open>Unlocking\<close>

text \<open>A locked staker whose time is over.\<close>

fun due :: "nat \<Rightarrow> ('k, 'h, 'p) role option \<Rightarrow> bool" where
  "due epoch (Some (Locked lk info)) \<longleftrightarrow> bs_unlockingEpoch info \<le> epoch"
| "due epoch _ \<longleftrightarrow> False"

definition record_at :: "('k, 'h, 'p) v4_calls \<Rightarrow> ('k, 'h, 'p) BeaconCommitteeStateV4 \<Rightarrow> string \<Rightarrow> ('h, 'p) BeaconStakerInfo" where
  "record_at vc s c = the (db_BeaconStaker vc s c)"

definition due_list :: "('k, 'h, 'p) v4_calls \<Rightarrow> ProcessContext \<Rightarrow> ('k, 'h, 'p) BeaconCommitteeStateV4 \<Rightarrow> (string \<times> 'k LockingInfo) list" where
  "due_list vc ctx s = filter (\<lambda>x. bs_unlockingEpoch (record_at vc s (fst x)) \<le> pc_Epoch ctx) (v4_locking s)"

lemma in_locking:
  assumes "represents vc s r"
  shows "(c, lk) \<in> set (v4_locking s) \<longleftrightarrow> (\<exists>k info. c = vc_ToBase58 vc k \<and> r k = Some (Locked lk info))"
proof -
  have kw: "keys_wf vc s" by (rule representsD(1) [OF assms])
  then have eq: "(c, lk) \<in> set (v4_locking s) \<longleftrightarrow> map_of (v4_locking s) c = Some lk" by (simp add: keys_wf_def)
  have at: "map_of (v4_locking s) (vc_ToBase58 vc k) = Some lk \<longleftrightarrow> (\<exists>info. r k = Some (Locked lk info))" for k
    unfolding pools_at(4) [OF assms] by (cases "r k" rule: shape.cases) (auto simp: nobody_def)
  have "map_of (v4_locking s) c \<noteq> None \<Longrightarrow> c \<in> range (vc_ToBase58 vc)" using kw by (auto simp: keys_wf_def)
  then show ?thesis unfolding eq using at by (metis option.distinct(1) rangeE)
qed

lemma unlock_one:
  assumes "keys_decode vc" and "represents vc s r" and "r k = Some (Locked lk info)" and "bs_unlockingEpoch info \<le> pc_Epoch ctx"
  shows "\<exists>s'. unlock_step vc ctx (s, cpks, amounts, reasons) (vc_ToBase58 vc k, lk) =
      Inr (s', cpks @ [vc_ToBase58 vc k], amounts @ [TotalStakingAmount info], reasons @ [lk_LockingReason lk]) \<and>
    represents vc s' (r(k := None))"
proof -
  have rec: "db_BeaconStaker vc s (vc_ToBase58 vc k) = Some info" using lookup_record [OF assms(1,2), of k] assms(3) by simp
  have ok: "lk_cpk lk = k" "lk_LockingReason lk = BY_SLASH \<or> lk_LockingReason lk = BY_UNSTAKE"
    using representsD(3) [OF assms(2), of k] assms(3) by auto
  from removeFromPool_spec [OF assms(1), of LOCKING_POOL k s] representsD(1) [OF assms(2)] obtain s1 where
    s1: "removeFromPool vc LOCKING_POOL (vc_ToBase58 vc k) s = Inr s1" "keys_wf vc s1"
    "\<forall>k'. obs vc s1 k' = (if k' = k then drop_pool LOCKING_POOL (obs vc s k) else obs vc s k')" by blast
  let ?s' = "upd_db (\<lambda>d. d\<lparr>db_beaconStaker := (db_beaconStaker d)(k := None)\<rparr>) s1"
  have ob: "obs vc ?s' k' = (if k' = k then (obs vc s1 k)\<lparr>ob_staker := None\<rparr> else obs vc s1 k')" for k'
    by (auto simp: obs_def upd_db_def Let_def lists_of_def)
  have "represents vc ?s' (r(k := None))"
    by (rule represents_upd [OF assms(2)]) (use ob s1 representsD(2) [OF assms(2), of k] assms(3) in \<open>simp_all add: drop_pool_def nobody_def\<close>)
  then show ?thesis using rec ok s1(1) assms(4) by (auto simp: unlock_step_def)
qed

lemma unlock_loop:
  assumes "keys_decode vc" and "represents vc s r" and "distinct (map fst xs)"
    and "\<forall>x \<in> set xs. \<exists>k. fst x = vc_ToBase58 vc k \<and> r k = Some (Locked (snd x) (F (fst x)))"
  shows "\<exists>s'. go_foldl (unlock_step vc ctx) (s, cpks, amounts, reasons) xs =
      (let ys = filter (\<lambda>x. bs_unlockingEpoch (F (fst x)) \<le> pc_Epoch ctx) xs in
       Inr (s', cpks @ map fst ys, amounts @ map (\<lambda>y. TotalStakingAmount (F (fst y))) ys, reasons @ map (\<lambda>y. lk_LockingReason (snd y)) ys)) \<and>
    represents vc s' (\<lambda>k. if vc_ToBase58 vc k \<in> fst ` set xs \<and> due (pc_Epoch ctx) (r k) then None else r k)"
  using assms(2-)
proof (induction xs arbitrary: s r cpks amounts reasons)
  case Nil
  then show ?case by simp
next
  case (Cons x xs)
  obtain k where k: "fst x = vc_ToBase58 vc k" "r k = Some (Locked (snd x) (F (fst x)))" using Cons.prems(3) by auto
  have other: "fst z \<noteq> vc_ToBase58 vc k" if "z \<in> set xs" for z using Cons.prems(2) that k(1) by (metis distinct.simps(2) image_eqI list.simps(9) list.set_map)
  have d: "distinct (map fst xs)" using Cons.prems(2) by simp
  show ?case
  proof (cases "bs_unlockingEpoch (F (fst x)) \<le> pc_Epoch ctx")
    case True
    obtain s1 where s1: "unlock_step vc ctx (s, cpks, amounts, reasons) x =
        Inr (s1, cpks @ [fst x], amounts @ [TotalStakingAmount (F (fst x))], reasons @ [lk_LockingReason (snd x)])" "represents vc s1 (r(k := None))"
      using unlock_one [OF assms(1) Cons.prems(1) k(2) True, of cpks amounts reasons] k(1) by (cases x) auto
    have items: "\<forall>z \<in> set xs. \<exists>k'. fst z = vc_ToBase58 vc k' \<and> (r(k := None)) k' = Some (Locked (snd z) (F (fst z)))"
      using Cons.prems(3) other by (metis fun_upd_other list.set_intros(2))
    have eq: "(\<lambda>k'. if vc_ToBase58 vc k' \<in> fst ` set xs \<and> due (pc_Epoch ctx) ((r(k := None)) k') then None else (r(k := None)) k') =
        (\<lambda>k'. if vc_ToBase58 vc k' \<in> fst ` set (x # xs) \<and> due (pc_Epoch ctx) (r k') then None else r k')"
      using k True enc_inj [OF assms(1)] by (auto simp: fun_eq_iff)
    show ?thesis using Cons.IH [OF s1(2) d items, unfolded eq, of "cpks @ [fst x]" "amounts @ [TotalStakingAmount (F (fst x))]"
        "reasons @ [lk_LockingReason (snd x)]"] s1(1) True by (auto simp: Let_def)
  next
    case False
    have rec: "db_BeaconStaker vc s (fst x) = Some (F (fst x))" using lookup_record [OF assms(1) Cons.prems(1), of k] k by simp
    then have run: "unlock_step vc ctx (s, cpks, amounts, reasons) x = Inr (s, cpks, amounts, reasons)" using False by (cases x) (auto simp: unlock_step_def)
    have items: "\<forall>z \<in> set xs. \<exists>k'. fst z = vc_ToBase58 vc k' \<and> r k' = Some (Locked (snd z) (F (fst z)))" using Cons.prems(3) by simp
    have eq: "(\<lambda>k'. if vc_ToBase58 vc k' \<in> fst ` set xs \<and> due (pc_Epoch ctx) (r k') then None else r k') =
        (\<lambda>k'. if vc_ToBase58 vc k' \<in> fst ` set (x # xs) \<and> due (pc_Epoch ctx) (r k') then None else r k')"
      using k False enc_inj [OF assms(1)] by (auto simp: fun_eq_iff)
    show ?thesis using Cons.IH [OF Cons.prems(1) d items, unfolded eq] run False by (auto simp: Let_def)
  qed
qed

text \<open>The instruction that returns the stakes of unlocked stakers.\<close>

definition stake_return :: "('k, 'h, 'p) v4_calls \<Rightarrow> ('k, 'h, 'p) BeaconCommitteeStateV4 \<Rightarrow> (string \<times> 'k LockingInfo) list \<Rightarrow> 'k ReturnBeaconStakeInstruction" where
  "stake_return vc s xs =
     \<lparr>rb_PublicKeys = map fst xs, rb_PublicKeysStruct = map (\<lambda>x. lk_cpk (snd x)) xs,
      rb_ReturnAmounts = map (\<lambda>x. TotalStakingAmount (record_at vc s (fst x))) xs, rb_PercentReturns = map (\<lambda>_. 100) xs,
      rb_Reasons = map (\<lambda>x. lk_LockingReason (snd x)) xs\<rparr>"

definition after_unlocking :: "nat \<Rightarrow> ('k \<rightharpoonup> ('k, 'h, 'p) role) \<Rightarrow> 'k \<rightharpoonup> ('k, 'h, 'p) role" where
  "after_unlocking epoch r k = (if due epoch (r k) then None else r k)"

lemma go_map_map: "go_map f (map g xs) = go_map (\<lambda>x. f (g x)) xs"
  by (induction xs) auto

lemma unlocking_ok:
  assumes "calls_ok vc" and "represents vc s r" and "lastBlockEpoch vc (pc_BeaconHeight ctx)"
  shows "\<exists>s'. ProcessBeaconUnlocking vc ctx s =
      Inr (s', if due_list vc ctx s = [] then [] else [ReturnBeacon_ToString (stake_return vc s (due_list vc ctx s))]) \<and>
    represents vc s' (after_unlocking (pc_Epoch ctx) r)"
    and "distinct (map fst (due_list vc ctx s))"
    and "(c, lk) \<in> set (due_list vc ctx s) \<longleftrightarrow> (\<exists>k info. c = vc_ToBase58 vc k \<and> r k = Some (Locked lk info) \<and> bs_unlockingEpoch info \<le> pc_Epoch ctx)"
proof -
  have enc: "keys_decode vc" using assms(1) by (simp add: calls_ok_def)
  have rec: "record_at vc s (vc_ToBase58 vc k) = info" if "r k = Some (Locked lk info)" for k lk info
    using lookup_record [OF enc assms(2), of k] that by (simp add: record_at_def)
  have d: "distinct (map fst (v4_locking s))" using representsD(1) [OF assms(2)] by (simp add: keys_wf_def)
  then show "distinct (map fst (due_list vc ctx s))" by (simp add: due_list_def distinct_map_filter)
  show mem: "(c, lk) \<in> set (due_list vc ctx s) \<longleftrightarrow> (\<exists>k info. c = vc_ToBase58 vc k \<and> r k = Some (Locked lk info) \<and> bs_unlockingEpoch info \<le> pc_Epoch ctx)" for c lk
    using in_locking [OF assms(2), of c lk] rec by (auto simp: due_list_def)
  have items: "\<forall>x \<in> set (v4_locking s). \<exists>k. fst x = vc_ToBase58 vc k \<and> r k = Some (Locked (snd x) (record_at vc s (fst x)))"
    using in_locking [OF assms(2)] rec by fastforce
  have r': "(\<lambda>k. if vc_ToBase58 vc k \<in> fst ` set (v4_locking s) \<and> due (pc_Epoch ctx) (r k) then None else r k) = after_unlocking (pc_Epoch ctx) r"
  proof
    fix k
    have "vc_ToBase58 vc k \<in> fst ` set (v4_locking s)" if a: "due (pc_Epoch ctx) (r k)"
    proof -
      obtain lk info where "r k = Some (Locked lk info)" using a by (cases "r k" rule: shape.cases) auto
      then have "(vc_ToBase58 vc k, lk) \<in> set (v4_locking s)" using in_locking [OF assms(2)] by blast
      then show ?thesis by force
    qed
    then show "(if vc_ToBase58 vc k \<in> fst ` set (v4_locking s) \<and> due (pc_Epoch ctx) (r k) then None else r k) = after_unlocking (pc_Epoch ctx) r k"
      by (auto simp: after_unlocking_def)
  qed
  let ?ys = "due_list vc ctx s"
  obtain s' where s': "go_foldl (unlock_step vc ctx) (s, [], [], []) (v4_locking s) = Inr (s', map fst ?ys,
      map (\<lambda>y. TotalStakingAmount (record_at vc s (fst y))) ?ys, map (\<lambda>y. lk_LockingReason (snd y)) ?ys)"
    "represents vc s' (after_unlocking (pc_Epoch ctx) r)"
    using unlock_loop [OF enc assms(2) d items, of ctx "[]" "[]" "[]"] unfolding r' by (auto simp: due_list_def Let_def)
  have keys: "decode_key (vc_codec vc) (fst x) = Inr (lk_cpk (snd x)) \<and> fst x \<noteq> []" if x: "x \<in> set ?ys" for x
  proof -
    obtain k info where "fst x = vc_ToBase58 vc k" "r k = Some (Locked (snd x) info)" using mem [of "fst x" "snd x"] x by auto
    then show ?thesis using representsD(3) [OF assms(2), of k] enc_decode [OF enc, of k] assms(1) by (simp add: decode_key_def calls_ok_def)
  qed
  then have "go_map (\<lambda>x. decode_key (vc_codec vc) (fst x)) ?ys = Inr (map (\<lambda>x. lk_cpk (snd x)) ?ys)" by (intro go_map_ok) blast
  moreover have "map fst ?ys \<noteq> [[]]" using keys by (cases ?ys) auto
  ultimately have "CommitteeBase58KeyListToStruct (vc_codec vc) (map fst ?ys) = Inr (map (\<lambda>x. lk_cpk (snd x)) ?ys)"
    by (auto simp: CommitteeBase58KeyListToStruct_def go_map_map comp_def)
  then show "\<exists>s'. ProcessBeaconUnlocking vc ctx s =
      Inr (s', if ?ys = [] then [] else [ReturnBeacon_ToString (stake_return vc s ?ys)]) \<and> represents vc s' (after_unlocking (pc_Epoch ctx) r)"
    using s' assms(3) by (auto simp: ProcessBeaconUnlocking_def return_inst_def NewReturnBeaconStakeInsWithValue_def stake_return_def or_panic_def comp_def)
qed

section \<open>A whole block\<close>

text \<open>Stakers after a block: \<open>block_roles ctx ret r r'\<close> when everyone evolves or leaves with the stake that \<open>ret\<close> says,
  and newcomers asked for it and waited first.\<close>

definition block_roles :: "('k, 'h, 'p) v4_calls \<Rightarrow> ProcessContext \<Rightarrow> ('k \<Rightarrow> nat \<Rightarrow> bool) \<Rightarrow> ('k \<rightharpoonup> ('k, 'h, 'p) role) \<Rightarrow>
    ('k \<rightharpoonup> ('k, 'h, 'p) role) \<Rightarrow> bool" where
  "block_roles vc ctx ret r r' \<longleftrightarrow>
     (\<forall>k x. r k = Some x \<longrightarrow> (\<exists>y. r' k = Some y \<and> evolves x y) \<or>
        (r' k = None \<and> lastBlockEpoch vc (pc_BeaconHeight ctx) \<and>
         (\<exists>lk info. evolves x (Locked lk info) \<and> bs_unlockingEpoch info \<le> pc_Epoch ctx \<and> ret k (TotalStakingAmount info)))) \<and>
     (\<forall>k y. r k = None \<and> r' k = Some y \<longrightarrow> asked vc ctx k \<and> (\<exists>x. staked_in WAITING_POOL (Some x) \<and> evolves x y))"

text \<open>An instruction returns an amount to a key, in full.\<close>

definition paid_back :: "('k, 'h, 'p) v4_calls \<Rightarrow> string list list \<Rightarrow> 'k \<Rightarrow> nat \<Rightarrow> bool" where
  "paid_back vc insts k amount \<longleftrightarrow> (\<exists>rb i. ReturnBeacon_ToString (rb :: 'k ReturnBeaconStakeInstruction) \<in> set insts \<and> i < length (rb_PublicKeys rb) \<and>
     length (rb_ReturnAmounts rb) = length (rb_PublicKeys rb) \<and> rb_PublicKeys rb ! i = vc_ToBase58 vc k \<and> rb_ReturnAmounts rb ! i = amount \<and>
     set (rb_PercentReturns rb) \<subseteq> {100})"

lemma represents_price: "represents vc (upd_db (\<lambda>d. d\<lparr>db_sharePrice := g d\<rparr>) s) r = represents vc s r"
proof -
  have "obs vc (upd_db (\<lambda>d. d\<lparr>db_sharePrice := g d\<rparr>) s) k = obs vc s k" for k
    by (simp add: obs_def upd_db_def lists_of_def Let_def)
  then show ?thesis by (simp add: represents_def)
qed

lemma share_price_same:
  assumes "ProcessBeaconSharePrice vc ctx s = Inr (s', i)" and "represents vc s r"
  shows "represents vc s' r"
proof -
  have step: "represents vc t' r" if "represents vc t r" "share_price_inst_step vc t a inst = Inr t'" for t a inst t'
    using that by (auto simp: share_price_inst_step_def represents_price split: if_splits)
  have "go_foldl (\<lambda>s inst. go_bind (go_index inst 0) (\<lambda>action. share_price_inst_step vc s action inst)) s (BeaconInstructions (pc_env ctx)) = Inr s'"
    using assms(1) by (simp add: ProcessBeaconSharePrice_def for_insts_def)
  then show ?thesis using assms(2) by (rule go_foldl_invariant) (use step in auto)
qed

lemma unlocking_roles:
  assumes "calls_ok vc" and "represents vc s r" and "ProcessBeaconUnlocking vc ctx s = Inr (s', insts)"
  shows "\<exists>r'. represents vc s' r' \<and> (\<forall>k x. r k = Some x \<longrightarrow> r' k = Some x \<or>
      (r' k = None \<and> lastBlockEpoch vc (pc_BeaconHeight ctx) \<and>
       (\<exists>lk info. x = Locked lk info \<and> bs_unlockingEpoch info \<le> pc_Epoch ctx \<and> paid_back vc insts k (TotalStakingAmount info)))) \<and>
    (\<forall>k. r k = None \<longrightarrow> r' k = None)"
proof (cases "lastBlockEpoch vc (pc_BeaconHeight ctx)")
  case True
  let ?r = "after_unlocking (pc_Epoch ctx) r" and ?ys = "due_list vc ctx s"
  have enc: "keys_decode vc" using assms(1) by (simp add: calls_ok_def)
  have res: "insts = (if ?ys = [] then [] else [ReturnBeacon_ToString (stake_return vc s ?ys)])" "represents vc s' ?r"
    using unlocking_ok(1) [OF assms(1,2) True] assms(3) by auto
  have "?r k = Some x \<or> (?r k = None \<and> (\<exists>lk info. x = Locked lk info \<and> bs_unlockingEpoch info \<le> pc_Epoch ctx \<and> paid_back vc insts k (TotalStakingAmount info)))"
    if x: "r k = Some x" for k x
  proof (cases "due (pc_Epoch ctx) (r k)")
    case d: True
    then obtain lk info where lk: "x = Locked lk info" "bs_unlockingEpoch info \<le> pc_Epoch ctx" using x by (cases x) auto
    then have "(vc_ToBase58 vc k, lk) \<in> set ?ys" using unlocking_ok(3) [OF assms(1,2) True] x by blast
    then obtain i where i: "i < length ?ys" "?ys ! i = (vc_ToBase58 vc k, lk)" by (metis in_set_conv_nth)
    have "record_at vc s (vc_ToBase58 vc k) = info" using lookup_record [OF enc assms(2), of k] x lk by (simp add: record_at_def)
    then have "paid_back vc insts k (TotalStakingAmount info)" unfolding paid_back_def res(1)
      using i by (intro exI [of _ "stake_return vc s ?ys"] exI [of _ i]) (auto simp: stake_return_def)
    then show ?thesis using d lk by (auto simp: after_unlocking_def)
  next
    case False
    then show ?thesis using x by (simp add: after_unlocking_def)
  qed
  then show ?thesis using res(2) True by (intro exI [of _ ?r]) (auto simp: after_unlocking_def)
next
  case False
  then show ?thesis using assms(2,3) by (auto simp: ProcessBeaconUnlocking_def)
qed

text \<open>The functions before the one for stakes: everyone evolves.\<close>

lemma stakes_of_removed [simp]: "stakes_of vc (ctx\<lparr>pc_RemovedStaker := l\<rparr>) = stakes_of vc ctx"
  by (simp add: stakes_of_def)

lemma early_funcs_follow:
  assumes "calls_ok vc" and "go_foldl (run_process vc ctx) (s, i) (take 8 processFuncs) = Inr (s', i')"
  shows "follows vc s s'"
  using role_keeping_run [OF _ assms] by (simp add: processFuncs_def role_keeping_funcs)

lemma represents_V3: "represents vc (s\<lparr>v4_stateV3 := b\<rparr>) r = represents vc s r"
  by (simp add: represents_def keys_wf_def obs_def)

lemma late_funcs_roles:
  assumes "calls_ok vc" and "canonical_stakes vc ctx" and "represents vc s r"
    and "go_foldl (run_process vc ctx) (s, i) (drop 8 processFuncs) = Inr (s', insts)"
  shows "\<exists>r'. represents vc s' r' \<and> block_roles vc ctx (paid_back vc insts) r r'"
proof -
  have enc: "keys_decode vc" using assms(1) by (simp add: calls_ok_def)
  obtain s2 i2 s3 i3 s4 i4 i5 where
    st: "ProcessBeaconStakeInstruction vc ctx s = Inr (s2, i2)" and
    ad: "ProcessBeaconAddStakingAmountInstruction vc ctx s2 = Inr (s3, i3)" and un: "ProcessBeaconUnlocking vc ctx s3 = Inr (s4, i4)" and
    sp: "ProcessBeaconSharePrice vc ctx s4 = Inr (s', i5)" and insts: "insts = i @ i2 @ i3 @ i4 @ i5"
    using assms(4) by (auto simp: processFuncs_def run_process_def)
  obtain r2 where r2: "represents vc s2 r2" "joined (asked vc ctx) r r2" using stake_joined [OF assms(1-3) st] by blast
  obtain r3 where r3: "represents vc s3 r3" "kept r2 r3" using add_staking.process_keeps_roles [OF assms(1) r2(1) ad] by blast
  obtain r4 where r4: "represents vc s4 r4"
    "\<forall>k x. r3 k = Some x \<longrightarrow> r4 k = Some x \<or> (r4 k = None \<and> lastBlockEpoch vc (pc_BeaconHeight ctx) \<and>
       (\<exists>lk info. x = Locked lk info \<and> bs_unlockingEpoch info \<le> pc_Epoch ctx \<and> paid_back vc i4 k (TotalStakingAmount info)))"
    "\<forall>k. r3 k = None \<longrightarrow> r4 k = None" using unlocking_roles [OF assms(1) r3(1) un] by blast
  have pb: "paid_back vc insts k n" if "paid_back vc i4 k n" for k n using that unfolding paid_back_def insts by auto
  have old: "\<exists>x'. r3 k = Some x' \<and> evolves x x'" if "r k = Some x" for k x
    using that r2(2) r3(2) unfolding kept_def joined_def by (metis evolves_trans)
  have "\<exists>x. staked_in WAITING_POOL (Some x) \<and> evolves x y" "asked vc ctx k" if "r k = None" "r4 k = Some y" for k y
  proof -
    have 3: "r3 k = Some y" using that(2) r4(2,3) by (cases "r3 k") fastforce+
    have "k \<in> dom r2" using 3 r3(2) unfolding kept_def by blast
    then obtain x where x: "r2 k = Some x" by blast
    then have "evolves x y" using 3 r3(2) unfolding kept_def by force
    then show "\<exists>x. staked_in WAITING_POOL (Some x) \<and> evolves x y" "asked vc ctx k" using that(1) x r2(2) unfolding joined_def by blast+
  qed
  moreover have "(\<exists>y. r4 k = Some y \<and> evolves x y) \<or> (r4 k = None \<and> lastBlockEpoch vc (pc_BeaconHeight ctx) \<and>
      (\<exists>lk info. evolves x (Locked lk info) \<and> bs_unlockingEpoch info \<le> pc_Epoch ctx \<and> paid_back vc insts k (TotalStakingAmount info)))"
    if "r k = Some x" for k x
    using old [OF that] r4(2) pb by blast
  ultimately have "block_roles vc ctx (paid_back vc insts) r r4" unfolding block_roles_def by blast
  then show ?thesis using share_price_same [OF sp r4(1)] by blast
qed

lemma block_roles_kept:
  assumes "kept r r1" and "block_roles vc ctx ret r1 r2"
  shows "block_roles vc ctx ret r r2"
  unfolding block_roles_def
proof (intro conjI allI impI)
  fix k x assume "r k = Some x"
  then obtain x1 where x1: "r1 k = Some x1" "evolves x x1" using assms(1) unfolding kept_def by blast
  then show "(\<exists>y. r2 k = Some y \<and> evolves x y) \<or> (r2 k = None \<and> lastBlockEpoch vc (pc_BeaconHeight ctx) \<and>
      (\<exists>lk info. evolves x (Locked lk info) \<and> bs_unlockingEpoch info \<le> pc_Epoch ctx \<and> ret k (TotalStakingAmount info)))"
    using assms(2) unfolding block_roles_def by (meson evolves_trans)
next
  fix k y assume "r k = None \<and> r2 k = Some y"
  moreover from this have "r1 k = None" using assms(1) unfolding kept_def by blast
  ultimately show "asked vc ctx k" "\<exists>x. staked_in WAITING_POOL (Some x) \<and> evolves x y" using assms(2) unfolding block_roles_def by blast+
qed

lemma block_ok:
  assumes "calls_ok vc" and "canonical_stakes vc ctx" and "represents vc s r"
    and "UpdateCommitteeState_V4 vc ext Hash hashC hashW put ctx s = Inr (s', h, changes, insts)"
  shows "\<exists>r'. represents vc s' r' \<and> block_roles vc ctx (paid_back vc insts) r r'"
proof -
  have enc: "keys_decode vc" using assms(1) by (simp add: calls_ok_def)
  let ?ctx = "ctx\<lparr>pc_RemovedStaker := RemovedStaker changes\<rparr>"
  obtain s1 i1 b i2 where c: "ProcessCountShardActiveTime vc ctx s = Inr (s1, i1)"
    and f: "go_foldl (run_process vc ?ctx) (s1\<lparr>v4_stateV3 := b\<rparr>, i2) processFuncs = Inr (s', insts)"
    using assms(4) by (auto simp: UpdateCommitteeState_V4_def Let_def)
  have "go_foldl (run_process vc ?ctx) (s1\<lparr>v4_stateV3 := b\<rparr>, i2) (take 8 processFuncs @ drop 8 processFuncs) = Inr (s', insts)"
    using f by (simp only: append_take_drop_id)
  then obtain s2 i3 where f1: "go_foldl (run_process vc ?ctx) (s1\<lparr>v4_stateV3 := b\<rparr>, i2) (take 8 processFuncs) = Inr (s2, i3)"
    and f2: "go_foldl (run_process vc ?ctx) (s2, i3) (drop 8 processFuncs) = Inr (s', insts)"
    unfolding go_foldl_append by auto
  obtain r1 where r1: "represents vc s1 r1" "kept r r1" using active_time.process_keeps_roles [OF assms(1,3) c] by blast
  have rb: "represents vc (s1\<lparr>v4_stateV3 := b\<rparr>) r1" using r1(1) by (simp add: represents_V3)
  obtain r2 where r2: "represents vc s2 r2" "kept r1 r2"
    using follows_represents [OF early_funcs_follow [OF assms(1) f1] rb] by blast
  have "canonical_stakes vc ?ctx" using assms(2) by (simp add: canonical_stakes_def)
  from late_funcs_roles [OF assms(1) this r2(1) f2] obtain r3 where r3: "represents vc s' r3" "block_roles vc ?ctx (paid_back vc insts) r2 r3" by blast
  have "block_roles vc ctx (paid_back vc insts) r2 r3" using r3(2) by (simp add: block_roles_def asked_def)
  then show ?thesis using r3(1) block_roles_kept [OF kept_trans [OF r1(2) r2(2)]] by blast
qed

section \<open>The state hash\<close>

lemma go_map_total: "(\<And>x. x \<in> set xs \<Longrightarrow> go_ok (f x)) \<Longrightarrow> go_ok (go_map f xs)"
  by (induction xs) (auto simp: go_ok_iff)

text \<open>In a state that represents roles the hashes of the pools are computed without panic.\<close>

lemma staker_data_ok:
  assumes "calls_ok vc" and "represents vc s r" and "p \<noteq> LOCKING_POOL"
  shows "\<exists>d. staker_data vc s (GetKeyStructListFromMapStaker vc (entries p s)) = Inr d"
proof -
  have enc: "keys_decode vc" and so: "sorts (vc_sortStakers vc)" using assms(1) by (auto simp: calls_ok_def)
  have "\<exists>y. (case getBeaconStakerInfo s (vc_ToBase58 vc k) of None \<Rightarrow> Inl GoPanic | Some si \<Rightarrow> Inr si) = Inr y \<and> si_cpkStruct y = k"
    if "k \<in> set (GetKeyStructListFromMapStaker vc (entries p s))" for k
    using that unfolding pool_list_keys(2) [OF enc so assms(2,3)] lookup_active [OF assms(2)]
    using active_agrees [OF assms(2)] by (auto simp: staked_in_def agrees_def)
  then have "go_ok (staker_data vc s (GetKeyStructListFromMapStaker vc (entries p s)))" unfolding staker_data_def
    by (intro go_map_total) (auto simp: go_ok_iff)
  then show ?thesis by (simp add: go_ok_iff)
qed

lemma locking_keys_ok:
  assumes "calls_ok vc" and "represents vc s r"
  shows "\<exists>ks d. V4_GetBeaconLocking vc s = Inr ks \<and> locking_data vc s ks = Inr d"
proof -
  have so: "sorts (vc_sortKeys vc)" using assms(1) by (auto simp: calls_ok_def)
  let ?f = "\<lambda>c. case map_of (v4_locking s) c of None \<Rightarrow> Inl GoPanic | Some lk \<Rightarrow> Inr (lk_cpk lk)"
  have key: "\<exists>k. ?f c = Inr k \<and> vc_ToBase58 vc k = c" if c: "c \<in> set (vc_sortKeys vc (\<lambda>x y. str_less y x) (map fst (v4_locking s)))" for c
  proof -
    obtain lk where "(c, lk) \<in> set (v4_locking s)" using c sorts_set [OF so] by force
    moreover from this obtain k info where k: "c = vc_ToBase58 vc k" "r k = Some (Locked lk info)" using in_locking [OF assms(2)] by blast
    ultimately have "map_of (v4_locking s) c = Some lk" using representsD(1) [OF assms(2)] by (simp add: keys_wf_def)
    then show ?thesis using k representsD(3) [OF assms(2), of k] by auto
  qed
  obtain ks where ks: "V4_GetBeaconLocking vc s = Inr ks" "map (vc_ToBase58 vc) ks = vc_sortKeys vc (\<lambda>x y. str_less y x) (map fst (v4_locking s))"
    unfolding V4_GetBeaconLocking_def GetKeyStructListFromMapLocking_def by (rule go_map_key [of _ ?f "vc_ToBase58 vc"]) (use key in blast)
  have "go_ok (case map_of (v4_locking s) (vc_ToBase58 vc k) of None \<Rightarrow> Inl GoPanic | Some lk \<Rightarrow> Inr lk)" if "k \<in> set ks" for k
  proof -
    have "vc_ToBase58 vc k \<in> set (vc_sortKeys vc (\<lambda>x y. str_less y x) (map fst (v4_locking s)))" using that ks(2) by (metis image_eqI list.set_map)
    then show ?thesis using key [of "vc_ToBase58 vc k"] by (auto split: option.splits)
  qed
  then have "go_ok (locking_data vc s ks)" unfolding locking_data_def by (rule go_map_total)
  then have "\<exists>d. locking_data vc s ks = Inr d" by (simp add: go_ok_iff)
  then show ?thesis using ks(1) by blast
qed

lemma hashes_ok:
  assumes "calls_ok vc" and "represents vc s r"
  shows "\<exists>h1 h2. commiteeAndPendingHash vc hashC s = Inr h1 \<and> waitingAndSlashingHash vc hashW s = Inr h2"
  using staker_data_ok [OF assms, of COMMITTEE_POOL] staker_data_ok [OF assms, of PENDING_POOL] staker_data_ok [OF assms, of WAITING_POOL]
    locking_keys_ok [OF assms]
  by (auto simp: commiteeAndPendingHash_def waitingAndSlashingHash_def V4_GetBeaconCommittee_def V4_GetBeaconSubstitute_def V4_GetBeaconWaiting_def)

section \<open>A small engine\<close>

text \<open>A state with a fixed node, a slow committee member, a substitute that unstakes, a waiting staker and a locked one, and the last
  block of an epoch with one new stake.\<close>

definition toy_vc :: "(string, string, string) v4_calls" where
  "toy_vc = \<lparr>vc_codec = \<lparr>FromString = (\<lambda>c. case c of [] \<Rightarrow> None | _ # k \<Rightarrow> Some k), NewHashFromStr = Some, Base58CheckDeserialize = Some\<rparr>,
     vc_ToBase58 = (\<lambda>k. CHR ''K'' # k), vc_HashH = (\<lambda>x. CHR ''h'' # x), vc_HashString = (\<lambda>x. x), vc_ParseUint64 = (\<lambda>x. (length x mod 2 ^ 64, True)),
     vc_DecodeValidationData = (\<lambda>_. Some [0]), vc_now = int, vc_sortStakers = sort_by, vc_sortCandidates = sort_by, vc_sortKeys = sort_by, vc_addressOk = (\<lambda>_. True),
     vc_Pk = (\<lambda>p. p), vc_NumberOfBlockInEpoch = 20, vc_StakingAmountShard = 7\<rparr>"

definition toy_info :: "nat \<Rightarrow> bool \<Rightarrow> nat \<Rightarrow> (string, string) BeaconStakerInfo" where
  "toy_info amount unst unlock = (NewBeaconStakerInfoWithValue ''f'' ''r'' 1 0 0 [(''t'', amount, 1)])\<lparr>bs_unstaking := unst, bs_unlockingEpoch := unlock\<rparr>"

definition toy_si :: "string \<Rightarrow> nat \<Rightarrow> bool \<Rightarrow> nat \<Rightarrow> bool \<Rightarrow> string StakerInfoV4" where
  "toy_si k amount unst perf fx = \<lparr>si_cpkStruct = k, si_CPK = CHR ''K'' # k, si_StakingAmount = amount, si_Unstake = unst, si_Performance = perf,
     si_EpochScore = 0, si_FixedNode = fx, si_enterTime = 0, si_FinishSync = False, si_ShardActiveTime = 0,
     si_stakeID = CHR ''h'' # CHR ''K'' # k @ ''-0'', si_TotalDelegators = 0\<rparr>"

definition toy_lk :: "string LockingInfo" where
  "toy_lk = \<lparr>lk_cpk = ''e'', lk_LockingEpoch = 0, lk_LockingReason = 0\<rparr>"

definition toy_roles :: "string \<rightharpoonup> (string, string, string) role" where
  "toy_roles = [''a'' \<mapsto> Active COMMITTEE_POOL (toy_si ''a'' 10 False 500 True) (toy_info 10 False 0),
     ''b'' \<mapsto> Active COMMITTEE_POOL (toy_si ''b'' 20 False 100 False) (toy_info 20 False 0),
     ''c'' \<mapsto> Active PENDING_POOL (toy_si ''c'' 30 True 500 False) (toy_info 30 True 0),
     ''d'' \<mapsto> Active WAITING_POOL (toy_si ''d'' 40 False 500 False) (toy_info 40 False 0),
     ''e'' \<mapsto> Locked toy_lk (toy_info 50 False 5)]"

definition toy_v4 :: "(string, string, string) BeaconCommitteeStateV4" where
  "toy_v4 = \<lparr>v4_config = NewBeaconCommitteeStateV4Config ''local'', v4_stateV3 = toy_state3,
     v4_committee = [(''Ka'', toy_si ''a'' 10 False 500 True), (''Kb'', toy_si ''b'' 20 False 100 False)],
     v4_pending = [(''Kc'', toy_si ''c'' 30 True 500 False)], v4_waiting = [(''Kd'', toy_si ''d'' 40 False 500 False)],
     v4_locking = [(''Ke'', toy_lk)],
     v4_stateDB = \<lparr>db_beaconStaker = [''a'' \<mapsto> toy_info 10 False 0, ''b'' \<mapsto> toy_info 20 False 0, ''c'' \<mapsto> toy_info 30 True 0,
         ''d'' \<mapsto> toy_info 40 False 0, ''e'' \<mapsto> toy_info 50 False 5], db_shardStaker = Map.empty, db_committee = [''a'', ''b''],
       db_pending = [''c''], db_waiting = [''d''], db_locking = [''e''], db_sharePrice = Map.empty,
       db_committeeData = Some \<lparr>BeginEpochInfo = Map.empty, LastEpoch = Map.empty\<rparr>, db_delegation = (\<lambda>_ _. [])\<rparr>,
     v4_clock = 0\<rparr>"

definition toy_block :: ProcessContext where
  "toy_block = \<lparr>pc_env = toy_env [[''bstake'', ''Kn'', ''beacon'', ''t2'', ''r'', ''true'', ''xx'', ''f'']], pc_BeaconHeight = 40, pc_Epoch = 10,
     pc_Timestamp = 3, pc_PreviousValidationData = [], pc_MissingSignature = Map.empty, pc_RemovedStaker = []\<rparr>"

lemma toy_calls_ok: "calls_ok toy_vc"
  by (simp add: calls_ok_def keys_decode_def toy_vc_def sort_by_sorts)

lemma format_nat_0: "format_nat 0 = ''0''"
  by code_simp

lemma toy_agrees: "agrees toy_vc k (toy_si k amount unst perf fx) (toy_info amount unst 0) \<longleftrightarrow> amount < 2 ^ 64"
  by (auto simp: agrees_def toy_si_def toy_info_def toy_vc_def NewBeaconStakerInfoWithValue_def TotalStakingAmount_def u64_def go_itoa_def format_nat_0)

lemma toy_represents: "represents toy_vc toy_v4 toy_roles"
  unfolding represents_def
proof (intro conjI allI)
  show "keys_wf toy_vc toy_v4" by (auto simp: keys_wf_def toy_v4_def toy_vc_def split: if_splits)
  fix k
  show "obs toy_vc toy_v4 k = shape (toy_roles k)"
    by (simp add: obs_def toy_v4_def toy_roles_def toy_vc_def nobody_def lists_of_def)
  show "role_ok toy_vc k (toy_roles k)"
    using toy_agrees [of "''a''" 10 False 500 True] toy_agrees [of "''b''" 20 False 100 False] toy_agrees [of "''c''" 30 True 500 False]
      toy_agrees [of "''d''" 40 False 500 False] by (simp add: toy_roles_def toy_lk_def toy_info_def NewBeaconStakerInfoWithValue_def)
qed

lemma toy_v4_ok: "v4_ok toy_vc toy_v4" "role_of toy_vc toy_v4 = toy_roles"
  using toy_represents by (simp_all add: represents_iff)

lemma toy_V3: "\<exists>b cc insts. UpdateCommitteeState_V3 (vc_codec toy_vc) toy_ext (\<lambda>_ _. Inr ()) (env_with_db toy_vc toy_v4 (pc_env toy_block)) (v4_stateV3 toy_v4) =
    Inr (b, (), cc, insts)"
  by (simp add: UpdateCommitteeState_V3_def snapshot_def addDataToEnvironment_def addData_def env_with_db_def toy_block_def toy_env_def toy_v4_def toy_state3_def toy_state_def
    update_step_V3_def getAllSubstituteCommittees_slashing_def Let_def go_index_def beaconCommitteeStateSlashingBase.extend_def slice_to_def slice_from_def)

lemma toy_insts_skipped:
  assumes "ctx = toy_block\<lparr>pc_RemovedStaker := l\<rparr>"
  shows "ProcessWithdrawDelegationReward toy_vc ctx s = Inr (s, [])" "ProcessUpdateBeaconPerformance toy_vc ctx s = Inr (s, [])"
    "ProcessBeaconUnstakeInstruction toy_vc ctx s = Inr (s, [])" "ProcessDelegateRewardForReturnValidator toy_vc ctx s = Inr (s, [])"
    "ProcessBeaconRedelegateInstruction toy_vc ctx s = Inr (s, [])" "ProcessBeaconFinishSyncInstruction toy_vc ctx s = Inr (s, [])"
    "ProcessBeaconAddStakingAmountInstruction toy_vc ctx s = Inr (s, [])" "ProcessBeaconSharePrice toy_vc ctx s = Inr (s, [])"
    "ProcessCountShardActiveTime toy_vc ctx s = Inr (s, [])" "lastBlockEpoch toy_vc (pc_BeaconHeight ctx)"
  unfolding assms
  by (simp_all add: ProcessWithdrawDelegationReward_def withdraw_inst_step_def ProcessUpdateBeaconPerformance_def updateBeaconPerformance_def
    ProcessBeaconUnstakeInstruction_def unstake_keys_def ProcessDelegateRewardForReturnValidator_def ProcessBeaconRedelegateInstruction_def
    redelegate_inst_step_def ProcessBeaconFinishSyncInstruction_def finish_sync_step_def ProcessBeaconAddStakingAmountInstruction_def
    add_staking_inst_step_def ProcessBeaconSharePrice_def share_price_inst_step_def ProcessCountShardActiveTime_def for_insts_def no_inst_def
    toy_block_def toy_env_def toy_vc_def firstBlockEpoch_def lastBlockEpoch_def go_index_def)

definition toy_stake :: "(string, string, string) BeaconStakeInstruction" where
  "toy_stake = \<lparr>bi_PublicKeys = [''Kn''], bi_PublicKeyStructs = [''n''], bi_Chain = ''beacon'', bi_TxStakes = [''t2''], bi_TxStakeHashes = [''t2''],
     bi_RewardReceivers = [''r''], bi_RewardReceiverStructs = [''r''], bi_AutoStakingFlag = [True], bi_StakingAmount = [2],
     bi_FunderAddress = [''f''], bi_FunderAddressStructs = [''f'']\<rparr>"

lemma toy_import:
  "ImportBeaconStakeInstructionFromString (vc_codec toy_vc) (vc_ParseUint64 toy_vc) [''bstake'', ''Kn'', ''beacon'', ''t2'', ''r'', ''true'', ''xx'', ''f''] = Inr toy_stake"
  by (simp add: ImportBeaconStakeInstructionFromString_def CommitteeBase58KeyListToStruct_def decode_key_def hashes_of_def receivers_of_def or_panic_def
    toy_vc_def toy_stake_def go_index_def)

lemma toy_canonical: "canonical_stakes toy_vc toy_block"
proof -
  have "stakes_of toy_vc toy_block = {toy_stake}" by (auto simp: stakes_of_def toy_block_def toy_env_def toy_import)
  then have "canonical_stakes toy_vc toy_block \<longleftrightarrow> (\<forall>k. FromString (vc_codec toy_vc) ''Kn'' = Some k \<longrightarrow> vc_ToBase58 toy_vc k = ''Kn'')"
    by (simp add: canonical_stakes_def toy_stake_def)
  then show ?thesis by (auto simp: toy_vc_def)
qed

lemma toy_stake_runs:
  assumes "represents toy_vc s r" and "r ''n'' = None"
  shows "\<exists>s'. ProcessBeaconStakeInstruction toy_vc (toy_block\<lparr>pc_RemovedStaker := l\<rparr>) s = Inr (s', [])"
proof -
  have enc: "keys_decode toy_vc" using toy_calls_ok by (simp add: calls_ok_def)
  have e: "vc_ToBase58 toy_vc ''n'' = ''Kn''" by (simp add: toy_vc_def)
  let ?info = "NewBeaconStakerInfoWithValue ''f'' ''r'' 40 3 (vc_now toy_vc (v4_clock s)) [(''t2'', 2, 40)]"
  let ?si = "new_beacon_staker toy_vc (toy_block\<lparr>pc_RemovedStaker := l\<rparr>) ''n'' ''Kn'' 2 (vc_now toy_vc (Suc (v4_clock s)))"
  have "agrees toy_vc ''n'' ?si ?info"
    by (simp add: agrees_def new_beacon_staker_def NewBeaconStakerInfoWithValue_def TotalStakingAmount_def u64_def e) (simp add: toy_block_def)
  from new_staker_ok [OF enc assms this, unfolded e, where g = "\<lambda>d. (db_sharePrice d)(si_stakeID ?si \<mapsto> INIT_SHARE_PRICE)" and n = "Suc (Suc (v4_clock s))"]
  obtain s' where "addToPool toy_vc WAITING_POOL ''Kn'' ?si (upd_db (\<lambda>d. d\<lparr>db_sharePrice := (db_sharePrice d)(si_stakeID ?si \<mapsto> INIT_SHARE_PRICE)\<rparr>)
      (store_staker ''n'' ?info (s\<lparr>v4_clock := Suc (Suc (v4_clock s))\<rparr>))) = Inr s'" by blast
  moreover have "db_BeaconStaker toy_vc s ''Kn'' = None" using lookup_record [OF enc assms(1), of "''n''"] assms(2) e by simp
  moreover have "vc_addressOk toy_vc p" "FromString (vc_codec toy_vc) ''Kn'' = Some ''n''" for p by (simp_all add: toy_vc_def)
  ultimately show ?thesis
    by (simp add: ProcessBeaconStakeInstruction_def for_insts_def stake_inst_step_def toy_block_def toy_env_def go_index_def toy_import
      toy_stake_def beacon_stake_step_def return_inst_def Let_def)
qed

lemma toy_run: "\<exists>s' cc insts. UpdateCommitteeState_V4 toy_vc toy_ext (\<lambda>_ _. Inr ()) (\<lambda>_. ()) (\<lambda>_. ()) (\<lambda>_ _ g. g) toy_block toy_v4 = Inr (s', (), cc, insts)"
proof -
  obtain b cc insts where v3: "UpdateCommitteeState_V3 (vc_codec toy_vc) toy_ext (\<lambda>_ _. Inr ()) (env_with_db toy_vc toy_v4 (pc_env toy_block))
      (v4_stateV3 toy_v4) = Inr (b, (), cc, insts)" using toy_V3 by blast
  let ?ctx = "toy_block\<lparr>pc_RemovedStaker := RemovedStaker cc\<rparr>"
  note skip = toy_insts_skipped [of ?ctx, OF refl]
  have enc: "keys_decode toy_vc" using toy_calls_ok by (simp add: calls_ok_def)
  have r0: "represents toy_vc (toy_v4\<lparr>v4_stateV3 := b\<rparr>) toy_roles" using toy_represents by (simp add: represents_V3)
  have "db_committeeData (v4_stateDB (toy_v4\<lparr>v4_stateV3 := b\<rparr>)) \<noteq> None" by (simp add: toy_v4_def)
  then obtain lastD where "go_foldl (last_epoch_step toy_vc (toy_v4\<lparr>v4_stateV3 := b\<rparr>)) Map.empty
      (v4_committee (toy_v4\<lparr>v4_stateV3 := b\<rparr>) @ v4_pending (toy_v4\<lparr>v4_stateV3 := b\<rparr>)) = Inr lastD" using last_epoch_total [OF enc r0] by blast
  from swap_and_slash_ok [OF toy_calls_ok r0 this skip(10)] obtain s1 r1 where s1: "ProcessBeaconSwapAndSlash toy_vc ?ctx (toy_v4\<lparr>v4_stateV3 := b\<rparr>) = Inr (s1, [])" "represents toy_vc s1 r1" "kept toy_roles r1" by blast
  obtain s2 r2 where s2: "ProcessBeaconWaitingCondition toy_vc ?ctx s1 = Inr (s2, [])" "represents toy_vc s2 r2" "kept r1 r2"
    using waiting_ok [OF toy_calls_ok s1(2)] by blast
  have "dom r2 = dom toy_roles" using s1(3) s2(3) by (simp add: kept_def)
  moreover have "''n'' \<notin> dom toy_roles" by (simp add: toy_roles_def)
  ultimately have "r2 ''n'' = None" by (metis domIff)
  then obtain s3 where s3: "ProcessBeaconStakeInstruction toy_vc ?ctx s2 = Inr (s3, [])" using toy_stake_runs [OF s2(2)] by blast
  have can: "canonical_stakes toy_vc ?ctx" using toy_canonical by (simp add: canonical_stakes_def)
  obtain r3 where r3: "represents toy_vc s3 r3" using stake_joined [OF toy_calls_ok can s2(2) s3] by blast
  obtain s4 i4 r4 where s4: "ProcessBeaconUnlocking toy_vc ?ctx s3 = Inr (s4, i4)" "represents toy_vc s4 r4"
    using unlocking_ok(1) [OF toy_calls_ok r3 skip(10)] by blast
  have act: "ProcessCountShardActiveTime toy_vc toy_block toy_v4 = Inr (toy_v4, [])"
    using toy_insts_skipped(9) [of toy_block "pc_RemovedStaker toy_block"] by simp
  show ?thesis unfolding UpdateCommitteeState_V4_def act
    using v3 s1(1) s2(1) s3 s4(1) hashes_ok [OF toy_calls_ok s4(2), of "\<lambda>_. ()" "\<lambda>_. ()"] by (simp add: Let_def processFuncs_def run_process_def skip)
qed

section \<open>Properties\<close>



text \<open>C23. Unlocking at the end of an epoch refines its specification on roles, which forgets exactly the locked stakers whose unlocking epoch has
  come: it never fails, and when somebody leaves it produces one instruction that names each of them
  once, with the whole recorded stake, all of it to be returned, and the reason of the locking.\<close>

theorem beacon_unlocking_returns_stake:
  assumes "calls_ok vc" and "v4_ok vc s" and "lastBlockEpoch vc (pc_BeaconHeight ctx)"
  shows "(\<exists>s'. ProcessBeaconUnlocking vc ctx s =
        Inr (s', if due_list vc ctx s = [] then [] else [ReturnBeacon_ToString (stake_return vc s (due_list vc ctx s))]) \<and>
      v4_ok vc s' \<and> role_of vc s' = after_unlocking (pc_Epoch ctx) (role_of vc s)) \<and>
    distinct (map fst (due_list vc ctx s)) \<and>
    (\<forall>k lk. (vc_ToBase58 vc k, lk) \<in> set (due_list vc ctx s) \<longleftrightarrow>
       (\<exists>info. role_of vc s k = Some (Locked lk info) \<and> due (pc_Epoch ctx) (role_of vc s k) \<and> record_at vc s (vc_ToBase58 vc k) = info))"
proof -
  have r: "represents vc s (role_of vc s)" using assms(2) by (simp add: v4_ok_def)
  have enc: "keys_decode vc" using assms(1) by (simp add: calls_ok_def)
  have rec: "record_at vc s (vc_ToBase58 vc k) = info" if "role_of vc s k = Some (Locked lk info)" for k lk info
    using lookup_record [OF enc r, of k] that by (simp add: record_at_def)
  have mem: "(vc_ToBase58 vc k, lk) \<in> set (due_list vc ctx s) \<longleftrightarrow>
      (\<exists>info. role_of vc s k = Some (Locked lk info) \<and> due (pc_Epoch ctx) (role_of vc s k) \<and> record_at vc s (vc_ToBase58 vc k) = info)" for k lk
    unfolding unlocking_ok(3) [OF assms(1) r assms(3)] enc_inj [OF enc] using rec [of k lk] by fastforce
  show ?thesis
    by (intro conjI allI mem) (use unlocking_ok(1,2) [OF assms(1) r assms(3)] in \<open>simp_all only: represents_iff\<close>)
qed

theorem beacon_unlocking_returns_stake_witness:
  "due_list toy_vc toy_block toy_v4 = [(''Ke'', toy_lk)] \<and> rb_ReturnAmounts (stake_return toy_vc toy_v4 [(''Ke'', toy_lk)]) = [50] \<and>
   (\<exists>s'. ProcessBeaconUnlocking toy_vc toy_block toy_v4 = Inr (s', [ReturnBeacon_ToString (stake_return toy_vc toy_v4 [(''Ke'', toy_lk)])]) \<and>
      role_of toy_vc s' ''e'' = None \<and> role_of toy_vc s' ''b'' = toy_roles ''b'')"
proof -
  have rec: "record_at toy_vc toy_v4 ''Ke'' = toy_info 50 False 5" by (simp add: record_at_def db_BeaconStaker_def toy_vc_def toy_v4_def)
  have d: "due_list toy_vc toy_block toy_v4 = [(''Ke'', toy_lk)]" using rec by (simp add: due_list_def toy_v4_def toy_block_def toy_info_def)
  have "lastBlockEpoch toy_vc (pc_BeaconHeight toy_block)" by (simp add: toy_vc_def toy_block_def lastBlockEpoch_def)
  from beacon_unlocking_returns_stake [OF toy_calls_ok toy_v4_ok(1) this]
  obtain s' where "ProcessBeaconUnlocking toy_vc toy_block toy_v4 = Inr (s', [ReturnBeacon_ToString (stake_return toy_vc toy_v4 [(''Ke'', toy_lk)])])"
    "role_of toy_vc s' = after_unlocking (pc_Epoch toy_block) toy_roles" unfolding d toy_v4_ok(2) by auto
  then show ?thesis using d rec
    by (simp add: after_unlocking_def toy_roles_def toy_block_def toy_info_def stake_return_def NewBeaconStakerInfoWithValue_def TotalStakingAmount_def u64_def)
qed

text \<open>C6. A block of the fourth engine keeps memory and database in agreement. Afterwards every staker has a role evolved from its
  role before (never back to waiting, a fixed node stays in the committee, a locked staker stays locked, funder, receiver and staking transactions are kept),
  or it was locked until an epoch that has come, and an instruction of the block returns its whole stake; and a new
  staker was asked for by a stake instruction of the block and started by waiting.\<close>

theorem beacon_block_roles:
  assumes "calls_ok vc" and "canonical_stakes vc ctx" and "v4_ok vc s"
    and "UpdateCommitteeState_V4 vc ext Hash hashC hashW put ctx s = Inr (s', h, changes, insts)"
  shows "v4_ok vc s' \<and> block_roles vc ctx (paid_back vc insts) (role_of vc s) (role_of vc s')"
  using block_ok [OF assms(1,2) _ assms(4)] assms(3) unfolding v4_ok_def by (metis represents_role_of)

theorem beacon_block_roles_witness:
  "\<exists>s' changes insts. UpdateCommitteeState_V4 toy_vc toy_ext (\<lambda>_ _. Inr ()) (\<lambda>_. ()) (\<lambda>_. ()) (\<lambda>_ _ g. g) toy_block toy_v4 = Inr (s', (), changes, insts) \<and>
     v4_ok toy_vc s' \<and> block_roles toy_vc toy_block (paid_back toy_vc insts) toy_roles (role_of toy_vc s')"
proof -
  obtain s' cc insts where run: "UpdateCommitteeState_V4 toy_vc toy_ext (\<lambda>_ _. Inr ()) (\<lambda>_. ()) (\<lambda>_. ()) (\<lambda>_ _ g. g) toy_block toy_v4 = Inr (s', (), cc, insts)"
    using toy_run by blast
  from beacon_block_roles [OF toy_calls_ok toy_canonical toy_v4_ok(1) run] show ?thesis using run unfolding toy_v4_ok(2) by blast
qed

section \<open>Two flaws\<close>

text \<open>The order in which unlocking visits the Go map of locked stakers is the order of its instruction: two nodes
  with the same pools may produce different instructions.\<close>

lemma unlocking_order_matters:
  "\<exists>(s1 :: (string, string, string) BeaconCommitteeStateV4) s2 t1 t2 i1 i2. map_of (v4_locking s1) = map_of (v4_locking s2) \<and>
     s1 = s2\<lparr>v4_locking := v4_locking s1\<rparr> \<and> ProcessBeaconUnlocking toy_vc toy_block s1 = Inr (t1, i1) \<and>
     ProcessBeaconUnlocking toy_vc toy_block s2 = Inr (t2, i2) \<and> i1 \<noteq> i2"
proof -
  let ?d = "(v4_stateDB toy_v4)\<lparr>db_beaconStaker := [''e'' \<mapsto> toy_info 50 False 5, ''g'' \<mapsto> toy_info 60 False 5]\<rparr>"
  let ?lk = "toy_lk\<lparr>lk_cpk := ''g''\<rparr>"
  let ?s1 = "toy_v4\<lparr>v4_locking := [(''Ke'', toy_lk), (''Kg'', ?lk)], v4_stateDB := ?d\<rparr>"
  let ?s2 = "toy_v4\<lparr>v4_locking := [(''Kg'', ?lk), (''Ke'', toy_lk)], v4_stateDB := ?d\<rparr>"
  note eval = ProcessBeaconUnlocking_def lastBlockEpoch_def unlock_step_def db_BeaconStaker_def removeFromPool_def upd_db_def return_inst_def
    NewReturnBeaconStakeInsWithValue_def CommitteeBase58KeyListToStruct_def decode_key_def or_panic_def toy_vc_def toy_block_def toy_info_def toy_lk_def
  obtain t1 i1 where 1: "ProcessBeaconUnlocking toy_vc toy_block ?s1 = Inr (t1, [i1])" "i1 ! 1 = ''Ke,Kg''"
    by (simp add: eval ReturnBeacon_ToString_def)
  obtain t2 i2 where 2: "ProcessBeaconUnlocking toy_vc toy_block ?s2 = Inr (t2, [i2])" "i2 ! 1 = ''Kg,Ke''"
    by (simp add: eval ReturnBeacon_ToString_def)
  have m: "map_of (v4_locking ?s1) = map_of (v4_locking ?s2)" by (auto simp: fun_eq_iff)
  have u: "?s1 = ?s2\<lparr>v4_locking := v4_locking ?s1\<rparr>" by simp
  have "[i1] \<noteq> [i2]" using 1(2) 2(2) by auto
  with m u 1(1) 2(1) show ?thesis by (intro exI conjI)
qed

text \<open>Restoring a waiting staker forgets its delegators, which are in its record.\<close>

lemma restored_waiting_loses_delegators:
  assumes "restore_waiting_step vc s k = Inr s'"
  shows "\<exists>si. map_of (v4_waiting s') (vc_ToBase58 vc k) = Some si \<and> si_TotalDelegators si = 0"
  using assms by (auto simp: restore_waiting_step_def with_stored_def Let_def restored_staker_def init_share_price_def upd_db_def split: option.splits)

end
