(* ===== verification/Beacon_Restore.thy ===== *)
theory Beacon_Restore
  imports Beacon_Consistency
begin

text \<open>
  Where the invariant of beacon staking comes from (\<^verbatim>\<open>RestoreBeaconCommitteeFromDB\<close> and \<^verbatim>\<open>UpgradeFromV3\<close> of
  \<^verbatim>\<open>beacon_committee_state_v4.go\<close>): pools restored from a consistent database agree with it, and the upgrade from
  version 3 makes the database consistent.
\<close>

section \<open>Consistent databases\<close>

definition db_ok :: "('k, 'h, 'p) beacon_db \<Rightarrow> bool" where
  "db_ok d \<longleftrightarrow> (\<forall>k. lists_of d k = {} \<and> db_beaconStaker d k = None \<or>
     (\<exists>p info. lists_of d k = {p} \<and> db_beaconStaker d k = Some info \<and> 0 \<le> bs_shardActiveTime info \<and> bs_totalDelegators info < 2 ^ 64 \<and>
        (p = WAITING_POOL \<longrightarrow> bs_totalDelegators info = 0) \<and>
        (p = LOCKING_POOL \<longrightarrow> bs_lockingReason info = BY_SLASH \<or> bs_lockingReason info = BY_UNSTAKE)))"

fun pool_of :: "('k, 'h, 'p) role option \<Rightarrow> pool option" where
  "pool_of None = None"
| "pool_of (Some (Active p si info)) = Some p"
| "pool_of (Some (Locked lk info)) = Some LOCKING_POOL"

lemma db_okE:
  assumes "db_ok d" and "p \<in> lists_of d k"
  obtains info where "lists_of d k = {p}" "db_beaconStaker d k = Some info" "0 \<le> bs_shardActiveTime info" "bs_totalDelegators info < 2 ^ 64"
    "p = WAITING_POOL \<Longrightarrow> bs_totalDelegators info = 0" "p = LOCKING_POOL \<Longrightarrow> bs_lockingReason info = BY_SLASH \<or> bs_lockingReason info = BY_UNSTAKE"
  using assms unfolding db_ok_def by (metis empty_iff singletonD)

section \<open>Partly restored pools\<close>

text \<open>\<open>restored vc d s A\<close>: the pools of the state hold exactly the keys \<open>A\<close>, each with an entry that agrees with its record.\<close>

definition restored :: "('k, 'h, 'p) v4_calls \<Rightarrow> ('k, 'h, 'p) beacon_db \<Rightarrow> ('k, 'h, 'p) BeaconCommitteeStateV4 \<Rightarrow> (pool \<Rightarrow> 'k set) \<Rightarrow> bool" where
  "restored vc d s A \<longleftrightarrow> keys_wf vc s \<and> db_beaconStaker (v4_stateDB s) = db_beaconStaker d \<and> lists_of (v4_stateDB s) = lists_of d \<and>
     db_committeeData (v4_stateDB s) = db_committeeData d \<and>
     (\<forall>p k. p \<noteq> LOCKING_POOL \<longrightarrow> (if k \<in> A p
        then \<exists>si info. map_of (entries p s) (vc_ToBase58 vc k) = Some si \<and> db_beaconStaker d k = Some info \<and> agrees vc k si info
        else map_of (entries p s) (vc_ToBase58 vc k) = None)) \<and>
     (\<forall>k. if k \<in> A LOCKING_POOL
        then \<exists>info. db_beaconStaker d k = Some info \<and> map_of (v4_locking s) (vc_ToBase58 vc k) =
          Some \<lparr>lk_cpk = k, lk_LockingEpoch = bs_lockingEpoch info, lk_LockingReason = bs_lockingReason info\<rparr>
        else map_of (v4_locking s) (vc_ToBase58 vc k) = None)"

fun set_pool :: "pool \<Rightarrow> (string \<times> 'k StakerInfoV4) list \<Rightarrow> ('k, 'h, 'p) BeaconCommitteeStateV4 \<Rightarrow> ('k, 'h, 'p) BeaconCommitteeStateV4" where
  "set_pool COMMITTEE_POOL m s = s\<lparr>v4_committee := m\<rparr>"
| "set_pool PENDING_POOL m s = s\<lparr>v4_pending := m\<rparr>"
| "set_pool WAITING_POOL m s = s\<lparr>v4_waiting := m\<rparr>"
| "set_pool LOCKING_POOL m s = s"

lemma entries_set_pool: "p \<noteq> LOCKING_POOL \<Longrightarrow> q \<noteq> LOCKING_POOL \<Longrightarrow> entries q (set_pool p m s) = (if q = p then m else entries q s)"
  by (cases p; cases q) auto

lemma set_pool_rest [simp]: "v4_locking (set_pool p m s) = v4_locking s" "v4_stateDB (set_pool p m s) = v4_stateDB s" "v4_config (set_pool p m s) = v4_config s"
  by (cases p; simp)+

lemma keys_wf_set_pool:
  "keys_wf vc s \<Longrightarrow> p \<noteq> LOCKING_POOL \<Longrightarrow> keys_wf vc (set_pool p (al_put (vc_ToBase58 vc k) si (entries p s)) s)"
  by (cases p) (auto intro: keys_wf_pools(5-7))

lemma init_price_pools [simp]:
  "entries p (init_share_price x s) = entries p s" "v4_locking (init_share_price x s) = v4_locking s" "v4_config (init_share_price x s) = v4_config s"
  "keys_wf vc (init_share_price x s) = keys_wf vc s" "db_beaconStaker (v4_stateDB (init_share_price x s)) = db_beaconStaker (v4_stateDB s)"
  "lists_of (v4_stateDB (init_share_price x s)) = lists_of (v4_stateDB s)" "db_committeeData (v4_stateDB (init_share_price x s)) = db_committeeData (v4_stateDB s)"
proof -
  show "entries p (init_share_price x s) = entries p s" by (cases p) (simp_all add: init_share_price_def upd_db_def)
  show "lists_of (v4_stateDB (init_share_price x s)) = lists_of (v4_stateDB s)"
    by (simp add: init_share_price_def upd_db_def lists_of_def fun_eq_iff)
qed (simp_all add: init_share_price_def upd_db_def)

lemma restored_at:
  assumes "restored vc d s A"
  shows "p \<noteq> LOCKING_POOL \<Longrightarrow> (if k \<in> A p
      then \<exists>si info. map_of (entries p s) (vc_ToBase58 vc k) = Some si \<and> db_beaconStaker d k = Some info \<and> agrees vc k si info
      else map_of (entries p s) (vc_ToBase58 vc k) = None)"
    and "if k \<in> A LOCKING_POOL
      then \<exists>info. db_beaconStaker d k = Some info \<and> map_of (v4_locking s) (vc_ToBase58 vc k) =
        Some \<lparr>lk_cpk = k, lk_LockingEpoch = bs_lockingEpoch info, lk_LockingReason = bs_lockingReason info\<rparr>
      else map_of (v4_locking s) (vc_ToBase58 vc k) = None"
    and "keys_wf vc s" and "db_beaconStaker (v4_stateDB s) = db_beaconStaker d" and "lists_of (v4_stateDB s) = lists_of d"
    and "db_committeeData (v4_stateDB s) = db_committeeData d"
  using assms unfolding restored_def by blast+

lemma restored_put:
  assumes "keys_decode vc" and "restored vc d s A" and "p \<noteq> LOCKING_POOL" and "db_beaconStaker d k = Some info" and "agrees vc k si info"
  shows "restored vc d (init_share_price x (set_pool p (al_put (vc_ToBase58 vc k) si (entries p s)) s)) (A(p := insert k (A p)))"
proof -
  let ?s' = "init_share_price x (set_pool p (al_put (vc_ToBase58 vc k) si (entries p s)) s)"
  have "keys_wf vc s" using assms(2) by (simp add: restored_def)
  then have kw: "keys_wf vc ?s'" using keys_wf_set_pool [OF _ assms(3)] by simp
  have ent: "map_of (entries q ?s') (vc_ToBase58 vc k') = (if q = p \<and> k' = k then Some si else map_of (entries q s) (vc_ToBase58 vc k'))"
    if "q \<noteq> LOCKING_POOL" for q k' using that assms(3) enc_inj [OF assms(1)] by (auto simp: entries_set_pool)
  show ?thesis unfolding restored_def
  proof (intro conjI allI impI)
    fix q k' assume q: "q \<noteq> LOCKING_POOL"
    show "if k' \<in> (A(p := insert k (A p))) q
      then \<exists>si info. map_of (entries q ?s') (vc_ToBase58 vc k') = Some si \<and> db_beaconStaker d k' = Some info \<and> agrees vc k' si info
      else map_of (entries q ?s') (vc_ToBase58 vc k') = None"
      unfolding ent [OF q] using restored_at(1) [OF assms(2) q, of k'] assms(4,5) by (auto split: if_splits)
  next
    fix k'
    show "if k' \<in> (A(p := insert k (A p))) LOCKING_POOL
      then \<exists>info. db_beaconStaker d k' = Some info \<and> map_of (v4_locking ?s') (vc_ToBase58 vc k') =
        Some \<lparr>lk_cpk = k', lk_LockingEpoch = bs_lockingEpoch info, lk_LockingReason = bs_lockingReason info\<rparr>
      else map_of (v4_locking ?s') (vc_ToBase58 vc k') = None"
      using restored_at(2) [OF assms(2), of k'] assms(3) by auto
  qed (use kw restored_at(4-6) [OF assms(2)] in simp_all)
qed

lemma restored_agrees:
  assumes "keys_decode vc" and "restored vc d s A" and "db_beaconStaker d k = Some info" and "0 \<le> bs_shardActiveTime info" and "bs_totalDelegators info < 2 ^ 64"
  shows "with_stored vc k s f = f (vc_ToBase58 vc k) info (vc_HashH vc (vc_ToBase58 vc k @ ''-'' @ go_itoa (bs_beaconConfirmTime info)))"
    and "agrees vc k ((restored_staker k (vc_ToBase58 vc k) (vc_HashH vc (vc_ToBase58 vc k @ ''-'' @ go_itoa (bs_beaconConfirmTime info))) info)
      \<lparr>si_TotalDelegators := bs_totalDelegators info, si_EpochScore := e, si_Performance := pf, si_FixedNode := fx\<rparr>) info"
    and "bs_totalDelegators info = 0 \<Longrightarrow>
      agrees vc k ((restored_staker k (vc_ToBase58 vc k) (vc_HashH vc (vc_ToBase58 vc k @ ''-'' @ go_itoa (bs_beaconConfirmTime info))) info)\<lparr>si_Performance := pf\<rparr>) info"
  using assms enc_decode [OF assms(1), of k]
  by (simp_all add: with_stored_def Let_def GetBeaconCandidateUID_def db_BeaconStaker_def restored_def agrees_def restored_staker_def)

lemma restored_lock:
  assumes "keys_decode vc" and "restored vc d s A" and "db_beaconStaker d k = Some info"
  shows "restored vc d (s\<lparr>v4_locking := al_put (vc_ToBase58 vc k) \<lparr>lk_cpk = k, lk_LockingEpoch = bs_lockingEpoch info, lk_LockingReason = bs_lockingReason info\<rparr> (v4_locking s)\<rparr>)
    (A(LOCKING_POOL := insert k (A LOCKING_POOL)))"
proof -
  let ?lk = "\<lparr>lk_cpk = k, lk_LockingEpoch = bs_lockingEpoch info, lk_LockingReason = bs_lockingReason info\<rparr>"
  let ?s' = "s\<lparr>v4_locking := al_put (vc_ToBase58 vc k) ?lk (v4_locking s)\<rparr>"
  have ent: "entries q ?s' = entries q s" for q by (cases q) auto
  show ?thesis unfolding restored_def
  proof (intro conjI allI impI)
    fix q k' assume q: "q \<noteq> LOCKING_POOL"
    show "if k' \<in> (A(LOCKING_POOL := insert k (A LOCKING_POOL))) q
      then \<exists>si info. map_of (entries q ?s') (vc_ToBase58 vc k') = Some si \<and> db_beaconStaker d k' = Some info \<and> agrees vc k' si info
      else map_of (entries q ?s') (vc_ToBase58 vc k') = None"
      unfolding ent using restored_at(1) [OF assms(2) q, of k'] q by simp
  next
    fix k'
    show "if k' \<in> (A(LOCKING_POOL := insert k (A LOCKING_POOL))) LOCKING_POOL
      then \<exists>info. db_beaconStaker d k' = Some info \<and> map_of (v4_locking ?s') (vc_ToBase58 vc k') =
        Some \<lparr>lk_cpk = k', lk_LockingEpoch = bs_lockingEpoch info, lk_LockingReason = bs_lockingReason info\<rparr>
      else map_of (v4_locking ?s') (vc_ToBase58 vc k') = None"
      using restored_at(2) [OF assms(2), of k'] assms(3) enc_inj [OF assms(1)] by auto
  qed (use keys_wf_pools(8) [OF restored_at(3) [OF assms(2)]] restored_at(4-6) [OF assms(2)] in simp_all)
qed

text \<open>One key of each pool.\<close>

lemma restore_steps_ok:
  assumes "keys_decode vc" and "db_ok d" and "db_committeeData d = Some cd" and "restored vc d s A"
  shows "COMMITTEE_POOL \<in> lists_of d k \<Longrightarrow> \<exists>s'. restore_committee_step vc n s (i, k) = Inr s' \<and> restored vc d s' (A(COMMITTEE_POOL := insert k (A COMMITTEE_POOL)))"
    and "PENDING_POOL \<in> lists_of d k \<Longrightarrow> \<exists>s'. restore_pending_step vc s k = Inr s' \<and> restored vc d s' (A(PENDING_POOL := insert k (A PENDING_POOL)))"
    and "WAITING_POOL \<in> lists_of d k \<Longrightarrow> \<exists>s'. restore_waiting_step vc s k = Inr s' \<and> restored vc d s' (A(WAITING_POOL := insert k (A WAITING_POOL)))"
    and "LOCKING_POOL \<in> lists_of d k \<Longrightarrow> \<exists>s'. restore_locking_step vc s k = Inr s' \<and> restored vc d s' (A(LOCKING_POOL := insert k (A LOCKING_POOL)))"
proof -
  note cd = restored_at(6) [OF assms(4)] assms(3)
  show "\<exists>s'. restore_committee_step vc n s (i, k) = Inr s' \<and> restored vc d s' (A(COMMITTEE_POOL := insert k (A COMMITTEE_POOL)))" if "COMMITTEE_POOL \<in> lists_of d k"
  proof (rule db_okE [OF assms(2) that])
    fix info assume "db_beaconStaker d k = Some info" "0 \<le> bs_shardActiveTime info" "bs_totalDelegators info < 2 ^ 64"
    note ra = restored_agrees [OF assms(1,4) this] and put = restored_put [OF assms(1,4) _ this(1), of COMMITTEE_POOL]
    show ?thesis unfolding restore_committee_step_def case_prod_conv ra(1) using put [OF _ ra(2)] cd by (auto simp: Let_def)
  qed
  show "\<exists>s'. restore_pending_step vc s k = Inr s' \<and> restored vc d s' (A(PENDING_POOL := insert k (A PENDING_POOL)))" if "PENDING_POOL \<in> lists_of d k"
  proof (rule db_okE [OF assms(2) that])
    fix info assume "db_beaconStaker d k = Some info" "0 \<le> bs_shardActiveTime info" "bs_totalDelegators info < 2 ^ 64"
    note ra = restored_agrees [OF assms(1,4) this] and put = restored_put [OF assms(1,4) _ this(1), of PENDING_POOL]
    show ?thesis unfolding restore_pending_step_def ra(1)
      using put [OF _ ra(2) [where fx = False]] cd by (auto simp: Let_def restored_staker_def)
  qed
  show "\<exists>s'. restore_waiting_step vc s k = Inr s' \<and> restored vc d s' (A(WAITING_POOL := insert k (A WAITING_POOL)))" if "WAITING_POOL \<in> lists_of d k"
  proof (rule db_okE [OF assms(2) that])
    fix info assume "db_beaconStaker d k = Some info" "0 \<le> bs_shardActiveTime info" "bs_totalDelegators info < 2 ^ 64"
      and z: "WAITING_POOL = WAITING_POOL \<Longrightarrow> bs_totalDelegators info = 0"
    note ra = restored_agrees [OF assms(1,4) this(1-3)] and put = restored_put [OF assms(1,4) _ this(1), of WAITING_POOL]
    show ?thesis unfolding restore_waiting_step_def ra(1) using put [OF _ ra(3) [OF z]] by (auto simp: Let_def)
  qed
  show "\<exists>s'. restore_locking_step vc s k = Inr s' \<and> restored vc d s' (A(LOCKING_POOL := insert k (A LOCKING_POOL)))" if "LOCKING_POOL \<in> lists_of d k"
  proof (rule db_okE [OF assms(2) that])
    fix info assume i: "db_beaconStaker d k = Some info"
    then have "db_BeaconStaker vc s (vc_ToBase58 vc k) = Some info" using restored_at(4) [OF assms(4)] enc_decode [OF assms(1), of k] by (simp add: db_BeaconStaker_def)
    then show ?thesis using restored_lock [OF assms(1,4) i] by (simp add: restore_locking_step_def)
  qed
qed

lemma restore_loop:
  assumes "\<And>s A x. x \<in> set xs \<Longrightarrow> restored vc d s A \<Longrightarrow> \<exists>s'. f s x = Inr s' \<and> restored vc d s' (A(p := insert (key x) (A p)))"
    and "restored vc d s A"
  shows "\<exists>s'. go_foldl f s xs = Inr s' \<and> restored vc d s' (A(p := A p \<union> key ` set xs))"
  using assms
proof (induction xs arbitrary: s A)
  case (Cons x xs)
  from Cons.prems(1) [of x s A] Cons.prems(2) obtain s1 where s1: "f s x = Inr s1" "restored vc d s1 (A(p := insert (key x) (A p)))" by (meson list.set_intros(1))
  have step: "\<exists>s'. f s z = Inr s' \<and> restored vc d s' (A(p := insert (key z) (A p)))" if "z \<in> set xs" "restored vc d s A" for s A z
    using Cons.prems(1) that by (meson list.set_intros(2))
  have eq: "(A(p := insert (key x) (A p)))(p := (A(p := insert (key x) (A p))) p \<union> key ` set xs) = A(p := A p \<union> key ` set (x # xs))"
    by (auto simp: fun_eq_iff)
  from Cons.IH [OF step s1(2)] s1(1) show ?case unfolding eq by simp
qed auto

section \<open>Performance\<close>

lemma restored_update:
  assumes "keys_decode vc" and "restored vc d s A" and "\<And>k si info. agrees vc k si info \<Longrightarrow> agrees vc k (g si) info"
  shows "restored vc d (update_staker c g s) A"
proof -
  have ent: "map_of (entries q (update_staker c g s)) x = (if x = c then map_option g (map_of (entries q s) x) else map_of (entries q s) x)" if "q \<noteq> LOCKING_POOL" for q x
    using that by (cases q) (auto simp: update_staker_def)
  show ?thesis unfolding restored_def
  proof (intro conjI allI impI)
    fix q k assume q: "q \<noteq> LOCKING_POOL"
    show "if k \<in> A q
      then \<exists>si info. map_of (entries q (update_staker c g s)) (vc_ToBase58 vc k) = Some si \<and> db_beaconStaker d k = Some info \<and> agrees vc k si info
      else map_of (entries q (update_staker c g s)) (vc_ToBase58 vc k) = None"
      unfolding ent [OF q] using restored_at(1) [OF assms(2) q, of k] assms(3) by (auto split: if_splits)
  next
    fix k
    show "if k \<in> A LOCKING_POOL
      then \<exists>info. db_beaconStaker d k = Some info \<and> map_of (v4_locking (update_staker c g s)) (vc_ToBase58 vc k) =
        Some \<lparr>lk_cpk = k, lk_LockingEpoch = bs_lockingEpoch info, lk_LockingReason = bs_lockingReason info\<rparr>
      else map_of (v4_locking (update_staker c g s)) (vc_ToBase58 vc k) = None"
      using restored_at(2) [OF assms(2), of k] by (simp add: update_staker_def)
  qed (use restored_at(3-6) [OF assms(2)] in \<open>simp_all, simp_all add: update_staker_def\<close>)
qed

lemma restored_committee:
  assumes "sorts (vc_sortStakers vc)" and "restored vc d s A" and "k \<in> set (V4_GetBeaconCommittee vc s)"
  shows "k \<in> A COMMITTEE_POOL"
proof -
  have "k \<in> si_cpkStruct ` snd ` set (v4_committee s)"
    using assms(3) sorts_set [OF assms(1)] by (force simp: V4_GetBeaconCommittee_def GetKeyStructListFromMapStaker_def)
  then obtain c si where c: "(c, si) \<in> set (v4_committee s)" "si_cpkStruct si = k" by force
  have kw: "keys_wf vc s" by (rule restored_at(3) [OF assms(2)])
  then have m: "map_of (v4_committee s) c = Some si" using c(1) by (simp add: keys_wf_def)
  have "map_of (v4_committee s) c \<noteq> None" using m by simp
  then have "c \<in> range (vc_ToBase58 vc)" using kw unfolding keys_wf_def by blast
  then obtain k' where k': "c = vc_ToBase58 vc k'" by blast
  then have "k' \<in> A COMMITTEE_POOL \<and> agrees vc k' si (the (db_beaconStaker d k'))"
    using restored_at(1) [OF assms(2), of COMMITTEE_POOL k'] m by (auto split: if_splits)
  then show ?thesis using c(2) by (auto simp: agrees_def)
qed

lemma performance_restored:
  assumes "calls_ok vc" and "restored vc d s A" and "pd = [] \<or> vc_DecodeValidationData vc pd \<noteq> None"
  shows "\<exists>s'. updateBeaconPerformance vc pd s = Inr s' \<and> restored vc d s' A"
proof -
  have enc: "keys_decode vc" and so: "sorts (vc_sortStakers vc)" using assms(1) by (auto simp: calls_ok_def)
  have step: "\<exists>t'. performance_step vc idx t x = Inr t' \<and> restored vc d t' A" if r: "restored vc d t A" and m: "snd x \<in> A COMMITTEE_POOL" for idx t x
  proof -
    obtain si where "map_of (v4_committee t) (vc_ToBase58 vc (snd x)) = Some si" using restored_at(1) [OF r, of COMMITTEE_POOL "snd x"] m by auto
    then show ?thesis
      using restored_update [OF enc r, of "\<lambda>si. si\<lparr>si_Performance := new_performance (v4_config t) (IndexOfInt (int (fst x)) idx \<noteq> - 1) (si_Performance si)\<rparr>"]
      by (cases x) (auto simp: performance_step_def Let_def agrees_def)
  qed
  have loop: "\<exists>t'. go_foldl (performance_step vc idx) t xs = Inr t' \<and> restored vc d t' A" if "restored vc d t A" "\<forall>x \<in> set xs. snd x \<in> A COMMITTEE_POOL" for idx t xs
    using that
  proof (induction xs arbitrary: t)
    case (Cons x xs)
    have "snd x \<in> A COMMITTEE_POOL" using Cons.prems(2) by simp
    with step [OF Cons.prems(1)] obtain t1 where "performance_step vc idx t x = Inr t1" "restored vc d t1 A" by blast
    then show ?case using Cons.IH [of t1] Cons.prems(2) by auto
  qed simp
  have "\<forall>x \<in> set (zip [0..<length (V4_GetBeaconCommittee vc s)] (V4_GetBeaconCommittee vc s)). snd x \<in> A COMMITTEE_POOL"
    using restored_committee [OF so assms(2)] by (auto dest: set_zip_rightD)
  then show ?thesis using loop [OF assms(2)] assms(2,3) by (auto simp: updateBeaconPerformance_def)
qed

lemma restore_performance_ok:
  assumes "calls_ok vc" and "\<forall>b \<in> set blocks. snd b = [] \<or> vc_DecodeValidationData vc (snd b) \<noteq> None" and "restored vc d s A"
  shows "\<exists>s'. restore_performance vc blocks s = Inr s' \<and> restored vc d s' A"
proof -
  have "\<exists>t'. go_foldl (\<lambda>s (_, previousData). updateBeaconPerformance vc previousData s) t bs = Inr t' \<and> restored vc d t' A"
    if "restored vc d t A" "\<forall>b \<in> set bs. snd b = [] \<or> vc_DecodeValidationData vc (snd b) \<noteq> None" for t and bs :: "(nat \<times> string) list"
    using that
  proof (induction bs arbitrary: t)
    case (Cons b bs)
    then obtain t1 where "updateBeaconPerformance vc (snd b) t = Inr t1" "restored vc d t1 A"
      using performance_restored [OF assms(1) Cons.prems(1), of "snd b"] by auto
    then show ?case using Cons.IH [of t1] Cons.prems(2) by (cases b) auto
  qed simp
  then show ?thesis using assms(2,3) by (fastforce simp: restore_performance_def or_panic_def)
qed

section \<open>Restored states\<close>

lemma restored_role:
  assumes "keys_decode vc" and "db_ok d" and "restored vc d s (\<lambda>p. {k. p \<in> lists_of d k})"
  shows "\<exists>x. obs vc s k = shape x \<and> role_ok vc k x \<and> set_option (pool_of x) = lists_of d k \<and> record_of x = db_beaconStaker d k"
proof -
  note at = restored_at(1) [OF assms(3)] and lk = restored_at(2) [OF assms(3), of k]
  have rec: "ob_staker (obs vc s k) = db_beaconStaker d k" "ob_lists (obs vc s k) = lists_of d k"
    using restored_at(4,5) [OF assms(3)] by (simp_all add: obs_def Let_def)
  have ob: "obs vc s k = \<lparr>ob_committee = map_of (entries COMMITTEE_POOL s) (vc_ToBase58 vc k), ob_pending = map_of (entries PENDING_POOL s) (vc_ToBase58 vc k),
      ob_waiting = map_of (entries WAITING_POOL s) (vc_ToBase58 vc k), ob_locking = map_of (v4_locking s) (vc_ToBase58 vc k),
      ob_staker = db_beaconStaker d k, ob_lists = lists_of d k\<rparr>"
    using restored_at(4,5) [OF assms(3)] by (simp add: obs_def Let_def)
  show ?thesis
  proof (cases "lists_of d k = {}")
    case True
    then have "db_beaconStaker d k = None" using assms(2) unfolding db_ok_def by (metis insert_not_empty)
    then show ?thesis unfolding ob using True at [of COMMITTEE_POOL k] at [of PENDING_POOL k] at [of WAITING_POOL k] lk
      by (intro exI [of _ None]) (simp add: nobody_def)
  next
    case False
    then obtain p where p: "p \<in> lists_of d k" by blast
    obtain info where info: "lists_of d k = {p}" "db_beaconStaker d k = Some info" "0 \<le> bs_shardActiveTime info" "bs_totalDelegators info < 2 ^ 64" "p = LOCKING_POOL \<Longrightarrow> bs_lockingReason info = BY_SLASH \<or> bs_lockingReason info = BY_UNSTAKE"
      by (rule db_okE [OF assms(2) p]) blast
    show ?thesis
    proof (cases "p = LOCKING_POOL")
      case True
      then show ?thesis unfolding ob using info at [of COMMITTEE_POOL k] at [of PENDING_POOL k] at [of WAITING_POOL k] lk
        by (intro exI [of _ "Some (Locked \<lparr>lk_cpk = k, lk_LockingEpoch = bs_lockingEpoch info, lk_LockingReason = bs_lockingReason info\<rparr> info)"]) (simp add: nobody_def)
    next
      case False
      obtain si where si: "map_of (entries p s) (vc_ToBase58 vc k) = Some si" "agrees vc k si info" using at [of p k] False info p by auto
      then show ?thesis unfolding ob using False info at [of COMMITTEE_POOL k] at [of PENDING_POOL k] at [of WAITING_POOL k] lk
        by (intro exI [of _ "Some (Active p si info)"]) (cases p; simp add: nobody_def)
    qed
  qed
qed

lemma restored_final:
  assumes "keys_decode vc" and "db_ok d" and "restored vc d s (\<lambda>p. {k. p \<in> lists_of d k})"
  shows "v4_ok vc s \<and> (\<forall>k. set_option (pool_of (role_of vc s k)) = lists_of d k \<and> record_of (role_of vc s k) = db_beaconStaker d k)"
proof -
  obtain r where r: "\<forall>k. obs vc s k = shape (r k) \<and> role_ok vc k (r k) \<and> set_option (pool_of (r k)) = lists_of d k \<and> record_of (r k) = db_beaconStaker d k"
    using restored_role [OF assms] by metis
  then have "represents vc s r" using restored_at(3) [OF assms(3)] by (simp add: represents_def)
  then show ?thesis using r represents_iff by metis
qed

definition empty_pools :: "('k, 'h, 'p) BeaconCommitteeStateV4 \<Rightarrow> bool" where
  "empty_pools s \<longleftrightarrow> v4_committee s = [] \<and> v4_pending s = [] \<and> v4_waiting s = [] \<and> v4_locking s = []"

definition blocks_decode :: "('k, 'h, 'p) v4_calls \<Rightarrow> (nat \<times> string) list \<Rightarrow> bool" where
  "blocks_decode vc blocks \<longleftrightarrow> (\<forall>b \<in> set blocks. snd b = [] \<or> vc_DecodeValidationData vc (snd b) \<noteq> None)"

lemma all_pools: "(\<lambda>_. {})(COMMITTEE_POOL := f COMMITTEE_POOL, PENDING_POOL := f PENDING_POOL, WAITING_POOL := f WAITING_POOL, LOCKING_POOL := f LOCKING_POOL) = f"
proof
  fix p
  show "((\<lambda>_. {})(COMMITTEE_POOL := f COMMITTEE_POOL, PENDING_POOL := f PENDING_POOL, WAITING_POOL := f WAITING_POOL, LOCKING_POOL := f LOCKING_POOL)) p = f p"
    by (cases p) auto
qed

lemma restore_ok:
  assumes "calls_ok vc" and "db_ok d" and "db_committeeData d \<noteq> None" and "blocks_decode vc blocks" and "empty_pools s"
  shows "\<exists>s'. RestoreBeaconCommitteeFromDB vc network d n blocks s = Inr s' \<and> v4_ok vc s' \<and>
    (\<forall>k. set_option (pool_of (role_of vc s' k)) = lists_of d k \<and> record_of (role_of vc s' k) = db_beaconStaker d k)"
proof -
  have enc: "keys_decode vc" using assms(1) by (simp add: calls_ok_def)
  obtain cd where cd: "db_committeeData d = Some cd" using assms(3) by blast
  note steps = restore_steps_ok [OF enc assms(2) cd]
  let ?s0 = "s\<lparr>v4_stateDB := d, v4_config := NewBeaconCommitteeStateV4Config network\<rparr>"
  let ?ls = "\<lambda>p. {k. p \<in> lists_of d k}"
  have sets: "?ls COMMITTEE_POOL = set (db_committee d)" "?ls PENDING_POOL = set (db_pending d)" "?ls WAITING_POOL = set (db_waiting d)" "?ls LOCKING_POOL = set (db_locking d)"
    by (auto simp: lists_of_def split: if_splits)
  have "entries p ?s0 = []" for p using assms(5) by (cases p) (auto simp: empty_pools_def)
  then have 0: "restored vc d ?s0 (\<lambda>_. {})" using assms(5) by (simp add: restored_def empty_pools_def keys_wf_def)
  have snd: "snd ` set (zip [0..<length xs] xs) = set xs" for xs :: "'a list" by (metis length_upt map_snd_zip minus_nat.diff_0 list.set_map)
  have "\<exists>s'. restore_committee_step vc n s x = Inr s' \<and> restored vc d s' (A(COMMITTEE_POOL := insert (snd x) (A COMMITTEE_POOL)))"
    if "x \<in> set (zip [0..<length (db_committee d)] (db_committee d))" "restored vc d s A" for s A x
    using steps(1) [OF that(2), of "snd x" n "fst x"] that(1) snd [of "db_committee d"] sets(1) by force
  from restore_loop [where f = "restore_committee_step vc n" and key = snd and xs = "zip [0..<length (db_committee d)] (db_committee d)", OF this 0] obtain s1 where s1: "go_foldl (restore_committee_step vc n) ?s0 (zip [0..<length (db_committee d)] (db_committee d)) = Inr s1"
    "restored vc d s1 ((\<lambda>_. {})(COMMITTEE_POOL := ?ls COMMITTEE_POOL))" unfolding snd sets by auto
  obtain s2 where s2: "restore_performance vc blocks s1 = Inr s2" "restored vc d s2 ((\<lambda>_. {})(COMMITTEE_POOL := ?ls COMMITTEE_POOL))"
    using restore_performance_ok [OF assms(1) _ s1(2), of blocks] assms(4) by (auto simp: blocks_decode_def)
  have "\<exists>s'. restore_pending_step vc s k = Inr s' \<and> restored vc d s' (A(PENDING_POOL := insert (id k) (A PENDING_POOL)))" if "k \<in> set (db_pending d)" "restored vc d s A" for s A k
    using steps(2) [OF that(2), of k] that(1) sets(2) by auto
  from restore_loop [where f = "restore_pending_step vc" and key = id and xs = "db_pending d", OF this s2(2)] obtain s3 where s3: "go_foldl (restore_pending_step vc) s2 (db_pending d) = Inr s3"
    "restored vc d s3 ((\<lambda>_. {})(COMMITTEE_POOL := ?ls COMMITTEE_POOL, PENDING_POOL := ?ls PENDING_POOL))" unfolding sets by auto
  have "\<exists>s'. restore_waiting_step vc s k = Inr s' \<and> restored vc d s' (A(WAITING_POOL := insert (id k) (A WAITING_POOL)))" if "k \<in> set (db_waiting d)" "restored vc d s A" for s A k
    using steps(3) [OF that(2), of k] that(1) sets(3) by auto
  from restore_loop [where f = "restore_waiting_step vc" and key = id and xs = "db_waiting d", OF this s3(2)] obtain s4 where s4: "go_foldl (restore_waiting_step vc) s3 (db_waiting d) = Inr s4"
    "restored vc d s4 ((\<lambda>_. {})(COMMITTEE_POOL := ?ls COMMITTEE_POOL, PENDING_POOL := ?ls PENDING_POOL, WAITING_POOL := ?ls WAITING_POOL))" unfolding sets by auto
  have "\<exists>s'. restore_locking_step vc s k = Inr s' \<and> restored vc d s' (A(LOCKING_POOL := insert (id k) (A LOCKING_POOL)))" if "k \<in> set (db_locking d)" "restored vc d s A" for s A k
    using steps(4) [OF that(2), of k] that(1) sets(4) by auto
  from restore_loop [where f = "restore_locking_step vc" and key = id and xs = "db_locking d", OF this s4(2)] obtain s5 where s5: "go_foldl (restore_locking_step vc) s4 (db_locking d) = Inr s5"
    "restored vc d s5 ((\<lambda>_. {})(COMMITTEE_POOL := ?ls COMMITTEE_POOL, PENDING_POOL := ?ls PENDING_POOL, WAITING_POOL := ?ls WAITING_POOL, LOCKING_POOL := ?ls LOCKING_POOL))"
    unfolding sets by auto
  have "restored vc d s5 ?ls" using s5(2) all_pools [of ?ls] by simp
  from restored_final [OF enc assms(2) this] show ?thesis using s1(1) s2(1) s3(1) s4(1) s5(1)
    by (auto simp: RestoreBeaconCommitteeFromDB_def Let_def)
qed

lemma set_option_inj: "set_option x = set_option y \<Longrightarrow> x = y"
  by (cases x; cases y) auto

lemma v4_ok_db:
  assumes "v4_ok vc s" and "\<forall>k si info. role_of vc s k = Some (Active WAITING_POOL si info) \<longrightarrow> bs_totalDelegators info = 0"
  shows "db_ok (v4_stateDB s)" and "set_option (pool_of (role_of vc s k)) = lists_of (v4_stateDB s) k"
    and "record_of (role_of vc s k) = db_beaconStaker (v4_stateDB s) k"
proof -
  have r: "represents vc s (role_of vc s)" using assms(1) by (simp add: v4_ok_def)
  note ok = representsD(3) [OF r] and at = pools_at(5,6) [OF r]
  have sh: "set_option (pool_of (role_of vc s k)) = ob_lists (shape (role_of vc s k)) \<and> record_of (role_of vc s k) = ob_staker (shape (role_of vc s k))" for k
    by (cases "role_of vc s k" rule: shape.cases) (auto simp: nobody_def)
  show p: "set_option (pool_of (role_of vc s k)) = lists_of (v4_stateDB s) k" and d: "record_of (role_of vc s k) = db_beaconStaker (v4_stateDB s) k" for k
    using sh at by auto
  show "db_ok (v4_stateDB s)" unfolding db_ok_def
  proof
    fix k
    show "lists_of (v4_stateDB s) k = {} \<and> db_beaconStaker (v4_stateDB s) k = None \<or>
      (\<exists>p info. lists_of (v4_stateDB s) k = {p} \<and> db_beaconStaker (v4_stateDB s) k = Some info \<and> 0 \<le> bs_shardActiveTime info \<and>
        bs_totalDelegators info < 2 ^ 64 \<and> (p = WAITING_POOL \<longrightarrow> bs_totalDelegators info = 0) \<and>
        (p = LOCKING_POOL \<longrightarrow> bs_lockingReason info = BY_SLASH \<or> bs_lockingReason info = BY_UNSTAKE))"
      unfolding p [symmetric] d [symmetric] using ok [of k] assms(2) by (cases "role_of vc s k" rule: pool_of.cases) (auto simp: agrees_def)
  qed
qed

text \<open>C31. What the engine stores is enough to restore it: from the database of a state where memory and database agree, and in which no waiting
  staker has delegators, restoring into empty pools succeeds, memory and database agree, and everyone is in the
  same pool with the same record as before.\<close>

theorem restoring_keeps_roles:
  assumes "calls_ok vc" and "v4_ok vc s" and "db_committeeData (v4_stateDB s) \<noteq> None" and "blocks_decode vc blocks" and "empty_pools s0"
    and "\<forall>k si info. role_of vc s k = Some (Active WAITING_POOL si info) \<longrightarrow> bs_totalDelegators info = 0"
  shows "\<exists>s'. RestoreBeaconCommitteeFromDB vc network (v4_stateDB s) n blocks s0 = Inr s' \<and> v4_ok vc s' \<and>
    (\<forall>k. pool_of (role_of vc s' k) = pool_of (role_of vc s k) \<and> record_of (role_of vc s' k) = record_of (role_of vc s k))"
proof -
  note db = v4_ok_db [OF assms(2,6)]
  obtain s' where s': "RestoreBeaconCommitteeFromDB vc network (v4_stateDB s) n blocks s0 = Inr s'" "v4_ok vc s'"
    "\<forall>k. set_option (pool_of (role_of vc s' k)) = lists_of (v4_stateDB s) k \<and> record_of (role_of vc s' k) = db_beaconStaker (v4_stateDB s) k"
    using restore_ok [OF assms(1) db(1) assms(3-5)] by blast
  have "pool_of (role_of vc s' k) = pool_of (role_of vc s k)" for k
    using s'(3) db(2) [of k] by (intro set_option_inj) simp
  then show ?thesis using s' db(3) by (intro exI [of _ s']) simp
qed

theorem restoring_keeps_roles_witness:
  "\<exists>s'. RestoreBeaconCommitteeFromDB toy_vc ''local'' (v4_stateDB toy_v4) 1 [(38, ''data'')] (NewBeaconCommitteeStateV4 ''local'' toy_state3 (v4_stateDB toy_v4)) = Inr s' \<and>
     v4_ok toy_vc s' \<and> pool_of (role_of toy_vc s' ''c'') = Some PENDING_POOL \<and> pool_of (role_of toy_vc s' ''e'') = Some LOCKING_POOL"
proof -
  have "db_committeeData (v4_stateDB toy_v4) \<noteq> None" by (simp add: toy_v4_def)
  moreover have "blocks_decode toy_vc [(38, ''data'')]" by (simp add: blocks_decode_def toy_vc_def)
  moreover have "empty_pools (NewBeaconCommitteeStateV4 ''local'' toy_state3 (v4_stateDB toy_v4))" by (simp add: empty_pools_def NewBeaconCommitteeStateV4_def)
  moreover have "\<forall>k si info. role_of toy_vc toy_v4 k = Some (Active WAITING_POOL si info) \<longrightarrow> bs_totalDelegators info = 0"
    unfolding toy_v4_ok(2) by (simp add: toy_roles_def toy_info_def NewBeaconStakerInfoWithValue_def)
  ultimately obtain s' where s': "RestoreBeaconCommitteeFromDB toy_vc ''local'' (v4_stateDB toy_v4) 1 [(38, ''data'')]
      (NewBeaconCommitteeStateV4 ''local'' toy_state3 (v4_stateDB toy_v4)) = Inr s'" "v4_ok toy_vc s'" "\<forall>k. pool_of (role_of toy_vc s' k) = pool_of (toy_roles k)"
    using restoring_keeps_roles [OF toy_calls_ok toy_v4_ok(1)] unfolding toy_v4_ok(2) by blast
  then show ?thesis by (simp add: toy_roles_def)
qed

section \<open>The upgrade\<close>

definition upgrading :: "('k, 'h, 'p) beacon_db \<Rightarrow> ('k, 'h, 'p) BeaconCommitteeStateV4 \<Rightarrow> 'k set \<Rightarrow> bool" where
  "upgrading d t K \<longleftrightarrow> empty_pools t \<and> lists_of (v4_stateDB t) = lists_of d \<and> db_shardStaker (v4_stateDB t) = db_shardStaker d \<and>
     dom (db_beaconStaker (v4_stateDB t)) = K \<and>
     (\<forall>k info. db_beaconStaker (v4_stateDB t) k = Some info \<longrightarrow> 0 \<le> bs_shardActiveTime info \<and> bs_totalDelegators info = 0)"

lemma lists_of_records [simp]: "lists_of (d\<lparr>db_beaconStaker := m\<rparr>) = lists_of d" "lists_of (d\<lparr>db_committeeData := c\<rparr>) = lists_of d"
  by (simp_all add: lists_of_def fun_eq_iff)

lemma upgrade_step_ok:
  assumes "keys_decode vc" and "upgrading d t K" and "db_shardStaker d k \<noteq> None"
  shows "\<exists>t' sc'. upgrade_step vc (t, sc) k = Inr (t', sc') \<and> upgrading d t' (insert k K)"
proof -
  obtain sh where sh: "db_shardStaker d k = Some sh" using assms(3) by blast
  then have "db_ShardStaker vc t (vc_ToBase58 vc k) = Some sh" using assms(2) enc_decode [OF assms(1), of k] by (simp add: db_ShardStaker_def upgrading_def)
  then show ?thesis using assms(2)
    by (auto simp: upgrade_step_def Let_def upgrading_def empty_pools_def store_staker_def upd_db_def NewBeaconStakerInfoWithValue_def)
qed

lemma upgrade_loop:
  assumes "keys_decode vc" and "upgrading d t K" and "\<forall>k \<in> set ks. db_shardStaker d k \<noteq> None"
  shows "\<exists>t' sc'. go_foldl (upgrade_step vc) (t, sc) ks = Inr (t', sc') \<and> upgrading d t' (K \<union> set ks)"
  using assms(2,3)
proof (induction ks arbitrary: t sc K)
  case (Cons k ks)
  have "db_shardStaker d k \<noteq> None" using Cons.prems(2) by simp
  with upgrade_step_ok [OF assms(1) Cons.prems(1)] obtain t1 sc1 where t1: "upgrade_step vc (t, sc) k = Inr (t1, sc1)" "upgrading d t1 (insert k K)" by blast
  then show ?case using Cons.IH [OF t1(2), of sc1] Cons.prems(2) by simp
qed auto

text \<open>C32. The upgrade from version 3 establishes the invariant: when the stored beacon committee is the one of version 3, its members are shard stakers and
  nobody is staked for the beacon yet, it succeeds, memory and database agree, and exactly these members have a role, in
  the committee.\<close>

theorem upgrade_establishes_roles:
  assumes "calls_ok vc" and "empty_pools s" and "set (db_committee d) = set (getBeaconCommittee_V3 vc b)"
    and "db_pending d = []" and "db_waiting d = []" and "db_locking d = []" and "db_beaconStaker d = Map.empty"
    and "\<forall>k \<in> set (getBeaconCommittee_V3 vc b). db_shardStaker d k \<noteq> None"
  shows "\<exists>s'. UpgradeFromV3 vc network b d n s = Inr s' \<and> v4_ok vc s' \<and>
    (\<forall>k. pool_of (role_of vc s' k) = (if k \<in> set (getBeaconCommittee_V3 vc b) then Some COMMITTEE_POOL else None))"
proof -
  have enc: "keys_decode vc" using assms(1) by (simp add: calls_ok_def)
  let ?ks = "getBeaconCommittee_V3 vc b"
  have "upgrading d (s\<lparr>v4_stateV3 := b\<lparr>beaconCommittee := []\<rparr>, v4_stateDB := d\<rparr>) {}" using assms(2,7) by (simp add: upgrading_def empty_pools_def)
  from upgrade_loop [OF enc this assms(8), of Map.empty] obtain t sc where
    t: "go_foldl (upgrade_step vc) (s\<lparr>v4_stateV3 := b\<lparr>beaconCommittee := []\<rparr>, v4_stateDB := d\<rparr>, Map.empty) ?ks = Inr (t, sc)" "upgrading d t (set ?ks)" by auto
  define t2 where "t2 = upd_db (\<lambda>d. d\<lparr>db_committeeData := Some \<lparr>BeginEpochInfo = sc, LastEpoch = Map.empty\<rparr>\<rparr>) t"
  have ls: "lists_of (v4_stateDB t2) k = (if k \<in> set ?ks then {COMMITTEE_POOL} else {})" for k
  proof -
    have "lists_of (v4_stateDB t2) k = lists_of d k" using t(2) by (simp add: t2_def upd_db_def upgrading_def)
    then show ?thesis using assms(3-6) by (auto simp: lists_of_def)
  qed
  have st: "db_beaconStaker (v4_stateDB t2) = db_beaconStaker (v4_stateDB t)" by (simp add: t2_def upd_db_def)
  have dm: "dom (db_beaconStaker (v4_stateDB t)) = set ?ks"
    and ok: "\<forall>k info. db_beaconStaker (v4_stateDB t) k = Some info \<longrightarrow> 0 \<le> bs_shardActiveTime info \<and> bs_totalDelegators info = 0"
    using t(2) by (auto simp: upgrading_def)
  have "\<exists>info. db_beaconStaker (v4_stateDB t) k = Some info \<and> 0 \<le> bs_shardActiveTime info \<and> bs_totalDelegators info = 0" if "k \<in> set ?ks" for k
    using that ok unfolding dm [symmetric] by blast
  moreover have "db_beaconStaker (v4_stateDB t) k = None" if "k \<notin> set ?ks" for k using that unfolding dm [symmetric] by blast
  ultimately have "db_ok (v4_stateDB t2)" unfolding db_ok_def ls st by force
  moreover have "db_committeeData (v4_stateDB t2) \<noteq> None" "empty_pools t2" using t(2) by (simp_all add: t2_def upd_db_def upgrading_def empty_pools_def)
  moreover have "blocks_decode vc []" by (simp add: blocks_decode_def)
  ultimately obtain s' where s': "RestoreBeaconCommitteeFromDB vc network (v4_stateDB t2) n [] t2 = Inr s'" "v4_ok vc s'"
    "\<forall>k. set_option (pool_of (role_of vc s' k)) = lists_of (v4_stateDB t2) k" using restore_ok [OF assms(1)] by blast
  have "pool_of (role_of vc s' k) = (if k \<in> set ?ks then Some COMMITTEE_POOL else None)" for k
    by (rule set_option_inj) (use s'(3) ls in simp)
  then show ?thesis using t(1) s'(1,2) by (auto simp: UpgradeFromV3_def Let_def or_panic_def t2_def)
qed

definition toy_db :: "(string, string, string) beacon_db" where
  "toy_db = \<lparr>db_beaconStaker = Map.empty, db_shardStaker = (\<lambda>_. Some \<lparr>ss_rewardReceiver = ''r'', ss_txStakingID = ''t'', ss_autoStaking = True, ss_delegate = [],
       ss_delegateUID = [], ss_delegateHeight = 0\<rparr>), db_committee = [''0''], db_pending = [], db_waiting = [], db_locking = [], db_sharePrice = Map.empty,
     db_committeeData = None, db_delegation = (\<lambda>_ _. [])\<rparr>"

theorem upgrade_establishes_roles_witness:
  "\<exists>s'. UpgradeFromV3 toy_vc ''local'' toy_state3 toy_db 1 (NewBeaconCommitteeStateV4 ''local'' toy_state3 toy_db) = Inr s' \<and> v4_ok toy_vc s' \<and>
     pool_of (role_of toy_vc s' ''0'') = Some COMMITTEE_POOL"
proof -
  have ks: "getBeaconCommittee_V3 toy_vc toy_state3 = [''0'']"
    by (simp add: getBeaconCommittee_V3_def toy_state3_def toy_state_def beaconCommitteeStateSlashingBase.extend_def CommitteeBase58KeyListToStruct_def decode_key_def toy_vc_def)
  have "empty_pools (NewBeaconCommitteeStateV4 ''local'' toy_state3 toy_db)" by (simp add: empty_pools_def NewBeaconCommitteeStateV4_def)
  from upgrade_establishes_roles [OF toy_calls_ok this, of toy_db toy_state3 "''local''" 1] show ?thesis unfolding ks by (auto simp: toy_db_def)
qed

text \<open>The identifier that the upgrade stores for the current epoch is not the one by which the same stake is identified afterwards.\<close>

lemma upgrade_stake_ids_differ:
  assumes "keys_decode vc" and "upgrade_step vc (s, scores) k = Inr (s', scores')"
  shows "(\<exists>i. scores' (vc_ToBase58 vc k) = Some i \<and> ce_BeaconStakeID i = vc_HashH vc (vc_ToBase58 vc k @ ''_'' @ go_itoa 1)) \<and>
    GetBeaconCandidateUID vc s' (vc_ToBase58 vc k) = Inr (vc_HashH vc (vc_ToBase58 vc k @ ''-'' @ go_itoa 1))"
  using assms(2) enc_decode [OF assms(1), of k]
  by (auto simp: upgrade_step_def Let_def GetBeaconCandidateUID_def db_BeaconStaker_def store_staker_def upd_db_def NewBeaconStakerInfoWithValue_def split: option.splits)

end
