(* ===== verification/Pdex_Pool.thy ===== *)
theory Pdex_Pool
  imports Inc_Prelude
begin

text \<open>
  The constant-product pool of the pDEX: \<^verbatim>\<open>src/blockchain/pdex/v2utils/swap.go\<close> and the pool part of
  \<^verbatim>\<open>reserve.go\<close>. Amounts of tokens are Go \<^verbatim>\<open>uint64\<close> values and written as integers in the range
  \<open>0 \<le> x < 2 ^ 64\<close>; virtual reserves and changes are \<^verbatim>\<open>big.Int\<close> values. The lemmas show that
  a swap never lowers the product of the virtual reserves, stays within the real reserves, accounts
  for every unit, and does not move the price beyond the rate of the order it stops at.
\<close>

section \<open>Arithmetic of math/big\<close>

definition IsUint64 :: "int \<Rightarrow> bool" where
  "IsUint64 x \<longleftrightarrow> 0 \<le> x \<and> x < 2 ^ 64"

text \<open>\<^verbatim>\<open>big.Int.Div\<close> is Euclidean division; a zero divisor panics.\<close>

definition big_div :: "int \<Rightarrow> int \<Rightarrow> int go" where
  "big_div a b = (if b = 0 then Inl GoPanic else Inr (sgn b * (a div \<bar>b\<bar>)))"

lemma big_div_pos [simp]: "0 < b \<Longrightarrow> big_div a b = Inr (a div b)"
  by (simp add: big_div_def)

text \<open>\<^verbatim>\<open>big.Int.Sqrt\<close>: the floor of the square root; a negative argument panics.\<close>

fun isqrt :: "nat \<Rightarrow> nat" where
  "isqrt n = (if n = 0 then 0
     else let r = 2 * isqrt (n div 4) in if (r + 1) * (r + 1) \<le> n then r + 1 else r)"

declare isqrt.simps [simp del]

lemma isqrt_bounds: "isqrt n * isqrt n \<le> n \<and> n < (isqrt n + 1) * (isqrt n + 1)"
proof (induction n rule: isqrt.induct)
  case (1 n)
  show ?case
  proof (cases "n = 0")
    case True
    then show ?thesis by (simp add: isqrt.simps)
  next
    case False
    define r where "r = isqrt (n div 4)"
    from 1 False have ih: "r * r \<le> n div 4" "n div 4 < (r + 1) * (r + 1)" by (auto simp: r_def)
    have lo: "(2 * r) * (2 * r) \<le> n" using ih(1) by (simp add: algebra_simps)
    have "n < 4 * (n div 4) + 4" by simp
    also have "\<dots> \<le> 4 * ((r + 1) * (r + 1))" using ih(2) by simp
    also have "\<dots> = (2 * r + 1 + 1) * (2 * r + 1 + 1)" by (simp add: algebra_simps)
    finally have hi: "n < (2 * r + 1 + 1) * (2 * r + 1 + 1)" .
    show ?thesis using lo hi False by (auto simp: isqrt.simps [of n] r_def [symmetric] Let_def)
  qed
qed

definition big_sqrt :: "int \<Rightarrow> int go" where
  "big_sqrt a = (if a < 0 then Inl GoPanic else Inr (int (isqrt (nat a))))"

lemma big_sqrt_bounds:
  assumes "big_sqrt a = Inr r"
  shows "0 \<le> r" and "r * r \<le> a" and "a < (r + 1) * (r + 1)"
proof -
  from assms have a: "0 \<le> a" and r: "r = int (isqrt (nat a))" by (auto simp: big_sqrt_def split: if_splits)
  show "0 \<le> r" by (simp add: r)
  have "int (isqrt (nat a) * isqrt (nat a)) \<le> int (nat a)" using isqrt_bounds by (simp only: of_nat_le_iff)
  then show "r * r \<le> a" using a by (simp add: r)
  have "int (nat a) < int ((isqrt (nat a) + 1) * (isqrt (nat a) + 1))" using isqrt_bounds by (simp only: of_nat_less_iff)
  then show "a < (r + 1) * (r + 1)" using a by (simp add: r algebra_simps)
qed

section \<open>Swap formulas (swap.go)\<close>

definition quote :: "int \<Rightarrow> int \<Rightarrow> int \<Rightarrow> int go" where
  "quote amount0 reserve0 reserve1 =
     (if amount0 \<le> 0 then Inl (GoErr ''Insufficient amount'')
      else if reserve0 \<le> 0 \<or> reserve1 \<le> 0 then Inl (GoErr ''Insufficient liquidity'')
      else go_bind (big_div (amount0 * reserve1) reserve0) (\<lambda>result.
        if \<not> IsUint64 result then Inl (GoErr ''Number out of range uint64'') else Inr result))"

definition calculateBuyAmount :: "int \<Rightarrow> int \<Rightarrow> int \<Rightarrow> int \<Rightarrow> int \<Rightarrow> int go" where
  "calculateBuyAmount amountIn reserveIn reserveOut virtualReserveIn virtualReserveOut =
     (if amountIn \<le> 0 then Inl (GoErr ''Insufficient input amount'')
      else if reserveIn \<le> 0 \<or> reserveOut \<le> 0 then Inl (GoErr ''Insufficient liquidity'')
      else go_bind (big_div (amountIn * virtualReserveOut) (amountIn + virtualReserveIn)) (\<lambda>result.
        if \<not> IsUint64 result then Inl (GoErr ''Number out of range uint64'') else Inr result))"

definition calculateAmountToSell :: "int \<Rightarrow> int \<Rightarrow> int \<Rightarrow> int \<Rightarrow> int \<Rightarrow> int go" where
  "calculateAmountToSell amountOut reserveIn reserveOut virtualReserveIn virtualReserveOut =
     (if amountOut \<le> 0 then Inl (GoErr ''Insufficient input amount'')
      else if reserveIn \<le> 0 \<or> reserveOut \<le> 0 then Inl (GoErr ''Insufficient liquidity'')
      else go_bind (big_div (virtualReserveIn * amountOut) (virtualReserveOut - amountOut)) (\<lambda>q.
        let result = q + 1 in
        if \<not> IsUint64 result then Inl (GoErr ''Number out of range uint64'') else Inr result))"

section \<open>The pool (reserve.go)\<close>

definition TradeDirectionSell0 :: nat where "TradeDirectionSell0 = 0"
definition TradeDirectionSell1 :: nat where "TradeDirectionSell1 = 1"

lemmas directions = TradeDirectionSell0_def TradeDirectionSell1_def

record Pdexv3PoolPair =
  Token0ID :: string
  Token1ID :: string
  ShareAmount :: int
  LmLockedShareAmount :: int
  Token0RealAmount :: int
  Token1RealAmount :: int
  Token0VirtualAmount :: int
  Token1VirtualAmount :: int
  Amplifier :: nat

record Pdexv3Order =
  Id :: string
  NftID :: string
  Token0Rate :: int
  Token1Rate :: int
  Token0Balance :: int
  Token1Balance :: int
  TradeDirection :: nat
  Receiver :: "string \<times> string"

definition HasInsufficientLiquidity :: "Pdexv3PoolPair \<Rightarrow> bool" where
  "HasInsufficientLiquidity tp \<longleftrightarrow> Token0RealAmount tp \<le> 0 \<or> Token1RealAmount tp \<le> 0"

definition BuyAmount :: "Pdexv3PoolPair \<Rightarrow> int \<Rightarrow> nat \<Rightarrow> int go" where
  "BuyAmount tp sellAmount tradeDirection =
     (if tradeDirection = TradeDirectionSell0
      then calculateBuyAmount sellAmount (Token0RealAmount tp) (Token1RealAmount tp) (Token0VirtualAmount tp) (Token1VirtualAmount tp)
      else calculateBuyAmount sellAmount (Token1RealAmount tp) (Token0RealAmount tp) (Token1VirtualAmount tp) (Token0VirtualAmount tp))"

definition AmountToSell :: "Pdexv3PoolPair \<Rightarrow> int \<Rightarrow> nat \<Rightarrow> int go" where
  "AmountToSell tp buyAmount tradeDirection =
     (if tradeDirection = TradeDirectionSell0
      then calculateAmountToSell buyAmount (Token0RealAmount tp) (Token1RealAmount tp) (Token0VirtualAmount tp) (Token1VirtualAmount tp)
      else calculateAmountToSell buyAmount (Token1RealAmount tp) (Token0RealAmount tp) (Token1VirtualAmount tp) (Token0VirtualAmount tp))"

definition opposite_signs :: "int \<Rightarrow> int \<Rightarrow> bool" where
  "opposite_signs c0 c1 \<longleftrightarrow> \<not> (sgn c0 * sgn c1 \<ge> 0 \<and> \<not> (sgn c0 = 0 \<and> sgn c1 = 0))"

definition ApplyReserveChanges :: "int \<Rightarrow> int \<Rightarrow> Pdexv3PoolPair \<Rightarrow> Pdexv3PoolPair go" where
  "ApplyReserveChanges change0 change1 tp =
     (if \<not> opposite_signs change0 change1 then Inl (GoErr ''Invalid signs for reserve changes'')
      else let t0 = Token0RealAmount tp + change0 in
      if t0 < 0 then Inl (GoErr ''Not enough token0 liquidity for trade'')
      else if \<not> IsUint64 t0 then Inl (GoErr ''Cannot set real token0 reserve out of uint64 range'')
      else let t1 = Token1RealAmount tp + change1 in
      if t1 < 0 then Inl (GoErr ''Not enough token1 liquidity for trade'')
      else if \<not> IsUint64 t1 then Inl (GoErr ''Cannot set real token1 reserve out of uint64 range'')
      else Inr (tp\<lparr>Token0RealAmount := t0, Token0VirtualAmount := Token0VirtualAmount tp + change0,
                   Token1RealAmount := t1, Token1VirtualAmount := Token1VirtualAmount tp + change1\<rparr>))"

text \<open>The changes of the two tokens for a sold and a bought amount.\<close>

definition changes_for :: "nat \<Rightarrow> int \<Rightarrow> int \<Rightarrow> int \<times> int" where
  "changes_for tradeDirection sell buy = (if tradeDirection = TradeDirectionSell0 then (sell, - buy) else (- buy, sell))"

text \<open>The virtual reserves seen from a trade (selling side first); they are only bound for the two
  valid directions.\<close>

definition reserves_for :: "Pdexv3PoolPair \<Rightarrow> nat \<Rightarrow> (int \<times> int) option" where
  "reserves_for tp tradeDirection =
     (if tradeDirection = TradeDirectionSell0 then Some (Token0VirtualAmount tp, Token1VirtualAmount tp)
      else if tradeDirection = TradeDirectionSell1 then Some (Token1VirtualAmount tp, Token0VirtualAmount tp)
      else None)"

text \<open>How much may be sold until the pool reaches the rate of the order.\<close>

definition targetDeltaX :: "Pdexv3PoolPair \<Rightarrow> nat \<Rightarrow> Pdexv3Order \<Rightarrow> int go" where
  "targetDeltaX tp tradeDirection ord =
     (if tradeDirection = TradeDirection ord then Inl (GoErr ''Cannot match trade with order of same direction'')
      else let (xOrd, yOrd) = (if tradeDirection = TradeDirectionSell0 then (Token0Rate ord, Token1Rate ord)
                               else (Token1Rate ord, Token0Rate ord)) in
      case reserves_for tp tradeDirection of None \<Rightarrow> Inl GoPanic
      | Some (xV, yV) \<Rightarrow>
        go_bind (big_div (xV * yV * xOrd) yOrd) (\<lambda>t.
        go_bind (big_sqrt t) (\<lambda>r. Inr (r - xV))))"

text \<open>The end of the function: apply the changes for the final amounts.\<close>

definition finish_swap ::
    "Pdexv3PoolPair \<Rightarrow> nat \<Rightarrow> int \<Rightarrow> int \<Rightarrow> int \<Rightarrow> (int \<times> int \<times> int \<times> int \<times> Pdexv3PoolPair) go" where
  "finish_swap tp tradeDirection finalSell remain buy =
     (case changes_for tradeDirection finalSell buy of (c0, c1) \<Rightarrow>
        go_bind (ApplyReserveChanges c0 c1 tp) (\<lambda>tp'. Inr (buy, remain, c0, c1, tp')))"

definition SwapToReachOrderRate ::
    "int \<Rightarrow> nat \<Rightarrow> Pdexv3Order option \<Rightarrow> Pdexv3PoolPair \<Rightarrow> (int \<times> int \<times> int \<times> int \<times> Pdexv3PoolPair) go" where
  "SwapToReachOrderRate maxSellAmountAfterFee tradeDirection ord tp =
     (if HasInsufficientLiquidity tp then Inl (GoErr ''No liquidity in pool for swap'')
      else
        let full = go_bind (BuyAmount tp maxSellAmountAfterFee tradeDirection)
                     (finish_swap tp tradeDirection maxSellAmountAfterFee 0) in
        case ord of None \<Rightarrow> full
        | Some ord' \<Rightarrow>
          go_bind (targetDeltaX tp tradeDirection ord') (\<lambda>target.
          if target \<ge> maxSellAmountAfterFee then full
          else if target \<le> 0 then Inr (0, maxSellAmountAfterFee, 0, 0, tp)
          else go_bind (BuyAmount tp target tradeDirection) (\<lambda>buy.
            if buy = 0 then Inr (0, maxSellAmountAfterFee, 0, 0, tp)
            else finish_swap tp tradeDirection target (maxSellAmountAfterFee - target) buy)))"

section \<open>Arithmetic of the swap formulas\<close>

lemma mult_div_le:
  fixes a b d :: int
  assumes "0 < d"
  shows "(a * b) div d * d \<le> a * b"
  using assms by (simp add: minus_mod_eq_div_mult [symmetric])

lemma buy_lt_reserve:
  fixes a x y :: int
  assumes "0 < a" and "0 < x" and "0 < y"
  shows "(a * y) div (a + x) < y"
proof -
  have "(a * y) div (a + x) * (a + x) \<le> a * y" using assms mult_div_le by simp
  also have "\<dots> < y * (a + x)" using assms by (simp add: algebra_simps)
  finally show ?thesis using assms by (simp add: mult_less_cancel_right)
qed

lemma swap_product_le:
  fixes a b x y :: int
  assumes "b * (a + x) \<le> a * y"
  shows "x * y \<le> (x + a) * (y - b)"
  using assms by (simp add: algebra_simps)

lemma calculateBuyAmount_ok:
  assumes "calculateBuyAmount a rIn rOut x y = Inr b" and "0 < x"
  shows "0 < a" and "b = (a * y) div (a + x)" and "IsUint64 b" and "b * (a + x) \<le> a * y"
proof -
  have *: "0 < a \<and> b = (a * y) div (a + x) \<and> IsUint64 b"
    using assms by (auto simp: calculateBuyAmount_def split: if_splits)
  then show "0 < a" and "b = (a * y) div (a + x)" and "IsUint64 b" by auto
  show "b * (a + x) \<le> a * y" using * assms mult_div_le [of "a + x" a y] by simp
qed

section \<open>One swap in the pool\<close>

text \<open>The invariant of a pool: real reserves are \<^verbatim>\<open>uint64\<close> values and never above the virtual ones
  (the amplifier only adds liquidity), which are positive.\<close>

definition pool_ok :: "Pdexv3PoolPair \<Rightarrow> bool" where
  "pool_ok tp \<longleftrightarrow> IsUint64 (Token0RealAmount tp) \<and> IsUint64 (Token1RealAmount tp) \<and>
     Token0RealAmount tp \<le> Token0VirtualAmount tp \<and> Token1RealAmount tp \<le> Token1VirtualAmount tp \<and>
     0 < Token0VirtualAmount tp \<and> 0 < Token1VirtualAmount tp"

text \<open>What a swap of \<open>sold\<close> against \<open>buy\<close> does to the pool.\<close>

definition swapped :: "Pdexv3PoolPair \<Rightarrow> int \<Rightarrow> int \<Rightarrow> Pdexv3PoolPair" where
  "swapped tp c0 c1 =
     tp\<lparr>Token0RealAmount := Token0RealAmount tp + c0, Token1RealAmount := Token1RealAmount tp + c1,
        Token0VirtualAmount := Token0VirtualAmount tp + c0, Token1VirtualAmount := Token1VirtualAmount tp + c1\<rparr>"

definition product :: "Pdexv3PoolPair \<Rightarrow> int" where
  "product tp = Token0VirtualAmount tp * Token1VirtualAmount tp"

lemma swapped_zero [simp]: "swapped tp 0 0 = tp"
  by (simp add: swapped_def)

lemma ApplyReserveChanges_ok:
  assumes "ApplyReserveChanges c0 c1 tp = Inr tp'"
  shows "tp' = swapped tp c0 c1" and "IsUint64 (Token0RealAmount tp')" and "IsUint64 (Token1RealAmount tp')"
    and "opposite_signs c0 c1"
  using assms by (auto simp: ApplyReserveChanges_def swapped_def Let_def split: if_splits)

text \<open>A successful swap either leaves the pool alone and returns the whole amount, or sells a
  positive amount for what the constant-product formula gives.\<close>

definition pool_swap :: "Pdexv3PoolPair \<Rightarrow> nat \<Rightarrow> int \<Rightarrow> int \<Rightarrow> bool" where
  "pool_swap tp d sold buy \<longleftrightarrow> 0 < sold \<and> BuyAmount tp sold d = Inr buy \<and> 0 < buy"

lemma opposite_signs_iff: "opposite_signs c0 c1 \<longleftrightarrow> c0 < 0 \<and> 0 < c1 \<or> 0 < c0 \<and> c1 < 0 \<or> c0 = 0 \<and> c1 = 0"
  by (auto simp: opposite_signs_def sgn_if)

lemma BuyAmount_pos: "BuyAmount tp a d = Inr b \<Longrightarrow> 0 < a \<and> IsUint64 b"
  by (auto simp: BuyAmount_def calculateBuyAmount_def go_bind_def split: if_splits sum.splits)

lemma finish_swap_ok:
  assumes "finish_swap tp d sold rem buy = Inr (b, r, c0, c1, tp')" and "BuyAmount tp sold d = Inr buy"
  shows "b = buy" and "r = rem" and "(c0, c1) = changes_for d sold buy" and "tp' = swapped tp c0 c1"
    and "pool_swap tp d sold buy" and "IsUint64 (Token0RealAmount tp')" and "IsUint64 (Token1RealAmount tp')"
proof -
  obtain e0 e1 where e: "changes_for d sold buy = (e0, e1)" by fastforce
  from assms(1) e have *: "b = buy" "r = rem" "c0 = e0" "c1 = e1" "ApplyReserveChanges e0 e1 tp = Inr tp'"
    by (auto simp: finish_swap_def)
  show "b = buy" "r = rem" "(c0, c1) = changes_for d sold buy" using * e by auto
  show "tp' = swapped tp c0 c1" "IsUint64 (Token0RealAmount tp')" "IsUint64 (Token1RealAmount tp')"
    using ApplyReserveChanges_ok [OF *(5)] * by auto
  have "opposite_signs e0 e1" using ApplyReserveChanges_ok [OF *(5)] by auto
  moreover have "0 < sold" "0 \<le> buy" using BuyAmount_pos [OF assms(2)] by (auto simp: IsUint64_def)
  ultimately show "pool_swap tp d sold buy"
    using e assms(2) by (auto simp: pool_swap_def opposite_signs_iff changes_for_def split: if_splits)
qed

lemma swap_cases:
  assumes "SwapToReachOrderRate m d ord tp = Inr (b, r, c0, c1, tp')"
  obtains (stay) "b = 0" "r = m" "c0 = 0" "c1 = 0" "tp' = tp" "ord \<noteq> None"
  | (sell) sold where "(c0, c1) = changes_for d sold b" "pool_swap tp d sold b" "tp' = swapped tp c0 c1" "r = m - sold"
      "IsUint64 (Token0RealAmount tp')" "IsUint64 (Token1RealAmount tp')" "0 \<le> r"
      "\<forall>order. ord = Some order \<longrightarrow> (\<exists>t. targetDeltaX tp d order = Inr t \<and> sold \<le> t)" "ord = None \<longrightarrow> sold = m"
proof (cases ord)
  case None
  with assms obtain buy where *: "BuyAmount tp m d = Inr buy" "finish_swap tp d m 0 buy = Inr (b, r, c0, c1, tp')"
    by (auto simp: SwapToReachOrderRate_def Let_def go_bind_def split: if_splits sum.splits)
  show ?thesis using finish_swap_ok [OF *(2,1)] None by (intro sell [of m]) auto
next
  case (Some order)
  with assms obtain t where t: "targetDeltaX tp d order = Inr t"
    by (auto simp: SwapToReachOrderRate_def Let_def go_bind_def split: if_splits sum.splits)
  consider (full) "t \<ge> m" | (none) "t < m" "t \<le> 0" | (part) "t < m" "0 < t" by linarith
  then show ?thesis
  proof cases
    case full
    with assms Some t obtain buy where *: "BuyAmount tp m d = Inr buy" "finish_swap tp d m 0 buy = Inr (b, r, c0, c1, tp')"
      by (auto simp: SwapToReachOrderRate_def Let_def go_bind_def split: if_splits sum.splits)
    show ?thesis using finish_swap_ok [OF *(2,1)] Some t full by (intro sell [of m]) auto
  next
    case none
    with assms Some t show ?thesis by (intro stay) (auto simp: SwapToReachOrderRate_def Let_def split: if_splits)
  next
    case part
    with assms Some t obtain buy where buy: "BuyAmount tp t d = Inr buy"
      by (auto simp: SwapToReachOrderRate_def Let_def go_bind_def split: if_splits sum.splits)
    show ?thesis
    proof (cases "buy = 0")
      case True
      with assms Some t buy part show ?thesis by (intro stay) (auto simp: SwapToReachOrderRate_def Let_def split: if_splits)
    next
      case False
      with assms Some t buy part have *: "finish_swap tp d t (m - t) buy = Inr (b, r, c0, c1, tp')"
        by (auto simp: SwapToReachOrderRate_def Let_def split: if_splits)
      show ?thesis using finish_swap_ok [OF * buy] Some t part by (intro sell [of t]) auto
    qed
  qed
qed

text \<open>The two directions as one: the reserves on the selling and on the buying side.\<close>

definition sideX :: "nat \<Rightarrow> Pdexv3PoolPair \<Rightarrow> int" where
  "sideX d tp = (if d = TradeDirectionSell0 then Token0VirtualAmount tp else Token1VirtualAmount tp)"

definition sideY :: "nat \<Rightarrow> Pdexv3PoolPair \<Rightarrow> int" where
  "sideY d tp = (if d = TradeDirectionSell0 then Token1VirtualAmount tp else Token0VirtualAmount tp)"

lemma product_sides: "product tp = sideX d tp * sideY d tp"
  by (simp add: product_def sideX_def sideY_def)

lemma swapped_sides:
  "(c0, c1) = changes_for d sold b \<Longrightarrow> sideX d (swapped tp c0 c1) = sideX d tp + sold"
  "(c0, c1) = changes_for d sold b \<Longrightarrow> sideY d (swapped tp c0 c1) = sideY d tp - b"
  by (auto simp: sideX_def sideY_def swapped_def changes_for_def split: if_splits)

lemma pool_swap_ok:
  assumes "pool_swap tp d sold b" and "pool_ok tp"
  shows "b * (sold + sideX d tp) \<le> sold * sideY d tp" and "b < sideY d tp"
proof -
  from assms(2) have pos: "0 < sideX d tp" "0 < sideY d tp" by (auto simp: pool_ok_def sideX_def sideY_def)
  obtain r0 r1 where "calculateBuyAmount sold r0 r1 (sideX d tp) (sideY d tp) = Inr b" and sold: "0 < sold"
    using assms(1) by (auto simp: pool_swap_def BuyAmount_def sideX_def sideY_def split: if_splits)
  from calculateBuyAmount_ok [OF this(1) pos(1)] buy_lt_reserve [OF sold pos]
  show "b * (sold + sideX d tp) \<le> sold * sideY d tp" and "b < sideY d tp" by auto
qed

text \<open>The rate of an order seen from a trade against it.\<close>

definition rateX :: "nat \<Rightarrow> Pdexv3Order \<Rightarrow> int" where
  "rateX d ord = (if d = TradeDirectionSell0 then Token0Rate ord else Token1Rate ord)"

definition rateY :: "nat \<Rightarrow> Pdexv3Order \<Rightarrow> int" where
  "rateY d ord = (if d = TradeDirectionSell0 then Token1Rate ord else Token0Rate ord)"

lemma targetDeltaX_bound:
  assumes "targetDeltaX tp d ord = Inr t" and "0 < rateY d ord" and "0 < sideX d tp" and "0 \<le> s" and "s \<le> t"
  shows "(sideX d tp + s) * (sideX d tp + s) * rateY d ord \<le> product tp * rateX d ord"
proof -
  from assms(1,2) obtain r where r: "big_sqrt (product tp * rateX d ord div rateY d ord) = Inr r" and t: "t = r - sideX d tp"
    by (auto simp: targetDeltaX_def product_sides [of tp d] sideX_def sideY_def rateX_def rateY_def reserves_for_def
        go_bind_def Let_def mult.commute split: if_splits sum.splits option.splits)
  have "sideX d tp + s \<le> r" using t assms(5) by simp
  then have "(sideX d tp + s) * (sideX d tp + s) \<le> r * r" using assms(3,4) by (intro mult_mono) auto
  also have "\<dots> \<le> product tp * rateX d ord div rateY d ord" by (rule big_sqrt_bounds(2) [OF r])
  finally have "(sideX d tp + s) * (sideX d tp + s) * rateY d ord \<le> product tp * rateX d ord div rateY d ord * rateY d ord"
    using assms(2) by (simp add: mult_right_mono)
  also have "\<dots> \<le> product tp * rateX d ord" by (rule mult_div_le [OF assms(2)])
  finally show ?thesis .
qed

lemma pool_ok_sides: "pool_ok tp \<Longrightarrow> 0 < sideX d tp \<and> 0 < sideY d tp"
  by (auto simp: pool_ok_def sideX_def sideY_def)

lemma pool_swap_product:
  assumes "pool_swap tp d sold b" and "pool_ok tp" and "(c0, c1) = changes_for d sold b"
  shows "product tp \<le> product (swapped tp c0 c1)"
  using swap_product_le [OF pool_swap_ok(1) [OF assms(1,2)]] swapped_sides [OF assms(3)]
  by (simp add: product_sides [of _ d])

lemma pool_swap_keeps:
  assumes "pool_swap tp d sold b" and "pool_ok tp" and "(c0, c1) = changes_for d sold b" and "tp' = swapped tp c0 c1"
    and "IsUint64 (Token0RealAmount tp')" and "IsUint64 (Token1RealAmount tp')"
  shows "pool_ok tp'"
proof -
  have "0 < sideX d tp'" "0 < sideY d tp'"
    using swapped_sides [OF assms(3)] pool_swap_ok(2) [OF assms(1,2)] pool_ok_sides [OF assms(2), of d] assms(1,4)
    by (auto simp: pool_swap_def)
  then show ?thesis
    using assms(2,4,5,6) by (auto simp: pool_ok_def swapped_def sideX_def sideY_def split: if_splits)
qed

lemma swap_step:
  assumes "pool_ok tp" and "0 \<le> m" and "SwapToReachOrderRate m d ord tp = Inr (b, r, c0, c1, tp')"
  shows "pool_ok tp'" and "product tp \<le> product tp'" and "0 \<le> r" and "r \<le> m" and "IsUint64 b" and "b < sideY d tp"
    and "(c0, c1) = changes_for d (m - r) b" and "tp' = swapped tp c0 c1" and "ord = None \<Longrightarrow> r = 0"
proof -
  have "pool_ok tp' \<and> product tp \<le> product tp' \<and> 0 \<le> r \<and> r \<le> m \<and> IsUint64 b \<and> b < sideY d tp \<and>
      (c0, c1) = changes_for d (m - r) b \<and> tp' = swapped tp c0 c1 \<and> (ord = None \<longrightarrow> r = 0)"
    using assms(3)
  proof (cases rule: swap_cases)
    case stay
    with assms(1,2) pool_ok_sides [of tp d] show ?thesis by (auto simp: changes_for_def IsUint64_def)
  next
    case (sell sold)
    then show ?thesis
      using pool_swap_ok(2) [OF sell(2) assms(1)] pool_swap_product [OF sell(2) assms(1) sell(1)]
        pool_swap_keeps [OF sell(2) assms(1) sell(1,3,5,6)] BuyAmount_pos [of tp sold d b]
      by (auto simp: pool_swap_def)
  qed
  then show "pool_ok tp'" and "product tp \<le> product tp'" and "0 \<le> r" and "r \<le> m" and "IsUint64 b" and "b < sideY d tp"
    and "(c0, c1) = changes_for d (m - r) b" and "tp' = swapped tp c0 c1" and "ord = None \<Longrightarrow> r = 0" by auto
qed

definition toy_pool :: Pdexv3PoolPair where
  "toy_pool = \<lparr>Token0ID = ''a'', Token1ID = ''b'', ShareAmount = 50, LmLockedShareAmount = 0,
     Token0RealAmount = 50, Token1RealAmount = 50, Token0VirtualAmount = 100, Token1VirtualAmount = 100,
     Amplifier = 20000\<rparr>"

definition toy_order :: Pdexv3Order where
  "toy_order = \<lparr>Id = ''o'', NftID = ''n'', Token0Rate = 121, Token1Rate = 100, Token0Balance = 0,
     Token1Balance = 10, TradeDirection = TradeDirectionSell1, Receiver = (''r0'', ''r1'')\<rparr>"

lemma isqrt_12100: "isqrt 12100 = 110"
  by (simp add: isqrt.simps)

lemma toy_pool_ok: "pool_ok toy_pool"
  by (simp add: pool_ok_def toy_pool_def IsUint64_def)

lemma toy_pool_swap:
  "SwapToReachOrderRate 25 TradeDirectionSell0 (Some toy_order) toy_pool =
     Inr (9, 15, 10, -9, swapped toy_pool 10 (-9))"
  by (simp add: SwapToReachOrderRate_def targetDeltaX_def toy_order_def toy_pool_def HasInsufficientLiquidity_def
      reserves_for_def directions big_sqrt_def isqrt_12100 BuyAmount_def calculateBuyAmount_def IsUint64_def
      finish_swap_def changes_for_def ApplyReserveChanges_def opposite_signs_def swapped_def)

section \<open>Correctness of the pool\<close>

text \<open>A successful swap keeps the pool well formed (real reserves are \<^verbatim>\<open>uint64\<close> values not above
  the virtual reserves, which stay positive), never lowers the product of the virtual reserves, and
  leaves the amplification (virtual minus real reserve) of both tokens as it was.\<close>

theorem swap_keeps_pool:
  assumes "pool_ok tp" and "0 \<le> m" and "SwapToReachOrderRate m d ord tp = Inr (b, r, c0, c1, tp')"
  shows "pool_ok tp' \<and> product tp \<le> product tp' \<and>
    Token0VirtualAmount tp' - Token0RealAmount tp' = Token0VirtualAmount tp - Token0RealAmount tp \<and>
    Token1VirtualAmount tp' - Token1RealAmount tp' = Token1VirtualAmount tp - Token1RealAmount tp"
  using swap_step [OF assms] by (simp add: swapped_def)

theorem swap_keeps_pool_witness:
  "pool_ok toy_pool \<and> pool_ok (swapped toy_pool 10 (-9)) \<and> product toy_pool \<le> product (swapped toy_pool 10 (-9))"
  using swap_keeps_pool [OF toy_pool_ok _ toy_pool_swap] toy_pool_ok by simp

text \<open>A successful swap accounts for every unit: what is left of the maximal amount lies between
  zero and that amount, the pool receives exactly the difference on the selling side and pays exactly
  the returned buy amount on the other side, which is less than that side's virtual reserve.\<close>

theorem swap_accounts_for_amount:
  assumes "pool_ok tp" and "0 \<le> m" and "SwapToReachOrderRate m d ord tp = Inr (b, r, c0, c1, tp')"
  shows "0 \<le> r \<and> r \<le> m \<and> 0 \<le> b \<and> b < sideY d tp \<and> (c0, c1) = changes_for d (m - r) b \<and> tp' = swapped tp c0 c1"
  using swap_step [OF assms] by (simp add: IsUint64_def)

theorem swap_accounts_for_amount_witness:
  "(10, -9) = changes_for TradeDirectionSell0 (25 - 15) 9 \<and> 9 < sideY TradeDirectionSell0 toy_pool"
  using swap_accounts_for_amount [OF toy_pool_ok _ toy_pool_swap] by simp

text \<open>C30. A swap that stops at an order does not move the price beyond the rate of that order:
  whenever anything was sold to the pool, the pool's price afterwards (selling-side over buying-side
  virtual reserve) is at most the order's rate, and with no order nothing is left unsold.\<close>

theorem swap_stops_at_order_rate:
  assumes "pool_ok tp" and "SwapToReachOrderRate m d ord tp = Inr (b, r, c0, c1, tp')"
  shows "case ord of None \<Rightarrow> r = 0
    | Some order \<Rightarrow> tp' \<noteq> tp \<and> 0 < rateX d order \<and> 0 < rateY d order \<longrightarrow>
        sideX d tp' * rateY d order \<le> sideY d tp' * rateX d order"
  using assms(2)
proof (cases rule: swap_cases)
  case stay
  then show ?thesis by (auto split: option.splits)
next
  case (sell sold)
  show ?thesis
  proof (cases ord)
    case None
    then show ?thesis using sell(4,9) by simp
  next
    case (Some order)
    have "sideX d tp' * rateY d order \<le> sideY d tp' * rateX d order" if "0 < rateX d order" "0 < rateY d order"
    proof -
      from sell(8) Some obtain t where t: "targetDeltaX tp d order = Inr t" "sold \<le> t" by auto
      have sold: "0 < sold" using sell(2) by (simp add: pool_swap_def)
      have x': "sideX d tp' = sideX d tp + sold" using swapped_sides(1) [OF sell(1)] sell(3) by simp
      have "sideX d tp' * (sideX d tp' * rateY d order) \<le> product tp * rateX d order"
        using targetDeltaX_bound [OF t(1) that(2) _ _ t(2)] pool_ok_sides [OF assms(1), of d] sold
        by (simp add: x' mult.assoc)
      also have "\<dots> \<le> product tp' * rateX d order"
        using pool_swap_product [OF sell(2) assms(1) sell(1)] sell(3) that(1) by (simp add: mult_right_mono)
      also have "\<dots> = sideX d tp' * (sideY d tp' * rateX d order)" by (simp add: product_sides [of _ d] mult.assoc)
      finally show ?thesis using pool_ok_sides [OF assms(1), of d] sold x' by (simp add: mult_le_cancel_left)
    qed
    then show ?thesis using Some by simp
  qed
qed

theorem swap_stops_at_order_rate_witness:
  "sideX TradeDirectionSell0 (swapped toy_pool 10 (-9)) * 100 \<le> sideY TradeDirectionSell0 (swapped toy_pool 10 (-9)) * 121"
  using swap_stops_at_order_rate [OF toy_pool_ok toy_pool_swap]
  by (simp add: toy_order_def toy_pool_def swapped_def rateX_def rateY_def)

text \<open>\<^verbatim>\<open>AmountToSell\<close> inverts \<^verbatim>\<open>BuyAmount\<close>: selling the computed amount buys at least what was asked
  for, and selling one unit less buys at most that.\<close>

theorem amount_to_sell_inverts_buy:
  assumes "pool_ok tp" and "AmountToSell tp b d = Inr s" and "b < sideY d tp"
  shows "0 < s \<and> (\<forall>b'. BuyAmount tp s d = Inr b' \<longrightarrow> b \<le> b') \<and> (\<forall>b'. BuyAmount tp (s - 1) d = Inr b' \<longrightarrow> b' \<le> b)"
proof -
  define x y where "x = sideX d tp" and "y = sideY d tp"
  have pos: "0 < x" "0 < y - b" using pool_ok_sides [OF assms(1), of d] assms(3) by (auto simp: x_def y_def)
  have s: "s = (x * b) div (y - b) + 1" and b: "0 < b"
    using assms(2) pos by (auto simp: AmountToSell_def calculateAmountToSell_def x_def y_def sideX_def sideY_def
        go_bind_def Let_def split: if_splits sum.splits)
  have q: "0 \<le> (x * b) div (y - b)" using pos b by (intro pos_imp_zdiv_nonneg_iff [THEN iffD2]) auto
  have lo: "(s - 1) * (y - b) \<le> x * b" using mult_div_le [OF pos(2), of x b] s by simp
  have "x * b < (x * b) div (y - b) * (y - b) + (y - b)"
    using pos(2) div_mult_mod_eq [of "x * b" "y - b"] pos_mod_bound [of "y - b" "x * b"] by linarith
  then have hi: "x * b < s * (y - b)" by (simp add: s algebra_simps)
  have buy: "b' = (a * y) div (a + x) \<and> 0 < a" if "BuyAmount tp a d = Inr b'" for a b'
    using that pos(1) calculateBuyAmount_ok(1,2) [of a _ _ x y b']
    by (auto simp: BuyAmount_def x_def y_def sideX_def sideY_def split: if_splits)
  have "b \<le> b'" if "BuyAmount tp s d = Inr b'" for b'
  proof -
    have "b * (s + x) \<le> s * y" using hi by (simp add: algebra_simps)
    then have "(b * (s + x)) div (s + x) \<le> (s * y) div (s + x)" using buy [OF that] pos(1) by (intro zdiv_mono1) auto
    then show ?thesis using buy [OF that] pos(1) by simp
  qed
  moreover have "b' \<le> b" if "BuyAmount tp (s - 1) d = Inr b'" for b'
  proof -
    from buy [OF that] have b': "b' = ((s - 1) * y) div (s - 1 + x)" and s1: "0 < s - 1" by auto
    have "b' * (s - 1 + x) \<le> (s - 1) * y" using b' s1 pos(1) mult_div_le [of "s - 1 + x" "s - 1" y] by simp
    also have "\<dots> \<le> b * (s - 1 + x)" using lo by (simp add: algebra_simps)
    finally show ?thesis using s1 pos(1) by (simp add: mult_le_cancel_right)
  qed
  ultimately show ?thesis using s q by auto
qed

theorem amount_to_sell_inverts_buy_witness:
  "AmountToSell toy_pool 9 TradeDirectionSell0 = Inr 10 \<and> BuyAmount toy_pool 10 TradeDirectionSell0 = Inr 9"
  using amount_to_sell_inverts_buy [OF toy_pool_ok, of 9 TradeDirectionSell0 10]
  by (simp add: AmountToSell_def calculateAmountToSell_def BuyAmount_def calculateBuyAmount_def toy_pool_def
      sideY_def directions IsUint64_def)

end
