(* ===== verification/Pdex_Orders.thy ===== *)
theory Pdex_Orders
  imports Pdex_Pool "HOL-Library.Char_ord" "HOL-Library.List_Lexorder" "HOL-Library.Multiset"
begin

text \<open>
  Limit orders and the order book of the pDEX: \<^verbatim>\<open>src/blockchain/pdex/v2utils/order.go\<close> and
  \<^verbatim>\<open>src/blockchain/pdex/order_book.go\<close>. The book is the slice of its orders; a pointer to an order of
  the book is its index. The lemmas show that the book stays sorted by rate, that \<^verbatim>\<open>NextOrder\<close> returns
  the matchable order with the best rate, and that a match accounts for every unit, follows the rate
  of the order and exhausts the order whenever the trade has something left.
\<close>

section \<open>Matching one order (order.go)\<close>

text \<open>The rates from the view of the incoming trade: what it sells first.\<close>

definition order_rates :: "nat \<Rightarrow> Pdexv3Order \<Rightarrow> (int \<times> int) go" where
  "order_rates incomingTradeDirection ord =
     (if incomingTradeDirection = TradeDirectionSell0 then Inr (Token0Rate ord, Token1Rate ord)
      else if incomingTradeDirection = TradeDirectionSell1 then Inr (Token1Rate ord, Token0Rate ord)
      else Inl (GoErr ''Invalid trade direction''))"

definition maxBuyingAmount :: "nat \<Rightarrow> Pdexv3Order \<Rightarrow> int" where
  "maxBuyingAmount tradeDirection ord =
     (if tradeDirection = TradeDirectionSell0 then Token1Balance ord else Token0Balance ord)"

definition BuyAmountFromOrder :: "Pdexv3Order \<Rightarrow> int \<Rightarrow> nat \<Rightarrow> int go" where
  "BuyAmountFromOrder ord incomingTradeSellAmount incomingTradeDirection =
     (if TradeDirection ord = incomingTradeDirection then Inl (GoErr ''Cannot match order with trade of same direction'')
      else go_bind (order_rates incomingTradeDirection ord) (\<lambda>(sellRate, buyRate).
        go_bind (big_div (incomingTradeSellAmount * buyRate) sellRate) (\<lambda>result.
          if \<not> IsUint64 result then Inl (GoErr ''Buy-from-order amount out of uint64 range'') else Inr result)))"

definition SellAmountToOrder :: "Pdexv3Order \<Rightarrow> int \<Rightarrow> nat \<Rightarrow> int go" where
  "SellAmountToOrder ord incomingTradeBuyAmount incomingTradeDirection =
     (if TradeDirection ord = incomingTradeDirection then Inl (GoErr ''Cannot match order with trade of same direction'')
      else go_bind (order_rates incomingTradeDirection ord) (\<lambda>(sellRate, buyRate).
        if maxBuyingAmount incomingTradeDirection ord < incomingTradeBuyAmount
        then Inl (GoErr ''Insufficient order balance for swap'')
        else go_bind (big_div (incomingTradeBuyAmount * sellRate) buyRate) (\<lambda>result.
          if \<not> IsUint64 result then Inl (GoErr ''Sell-to-order amount out of uint64 range'') else Inr result)))"

definition ApplyBalanceChanges :: "int \<Rightarrow> int \<Rightarrow> Pdexv3Order \<Rightarrow> Pdexv3Order go" where
  "ApplyBalanceChanges change0 change1 ord =
     (if \<not> opposite_signs change0 change1 then Inl (GoErr ''Invalid signs for order changes'')
      else let t0 = Token0Balance ord + change0 in
      if t0 < 0 then Inl (GoErr ''Not enough token0 balance in order for trade'')
      else if \<not> IsUint64 t0 then Inl (GoErr ''Cannot set token0 balance out of uint64 range'')
      else let t1 = Token1Balance ord + change1 in
      if t1 < 0 then Inl (GoErr ''Not enough token1 balance in order for trade'')
      else if \<not> IsUint64 t1 then Inl (GoErr ''Cannot set token1 balance out of uint64 range'')
      else Inr (ord\<lparr>Token0Balance := t0, Token1Balance := t1\<rparr>))"

text \<open>The common end of \<^verbatim>\<open>Match\<close> and \<^verbatim>\<open>MatchPoolAmount\<close>.\<close>

definition finish_match ::
    "Pdexv3Order \<Rightarrow> nat \<Rightarrow> int \<Rightarrow> int \<Rightarrow> int \<Rightarrow> (int \<times> int \<times> int \<times> int \<times> Pdexv3Order) go" where
  "finish_match ord tradeDirection finalSellAmount sellAmountRemain buyAmount =
     (case changes_for tradeDirection finalSellAmount buyAmount of (c0, c1) \<Rightarrow>
        go_bind (ApplyBalanceChanges c0 c1 ord) (\<lambda>ord'. Inr (buyAmount, sellAmountRemain, c0, c1, ord')))"

definition match_with ::
    "(int \<Rightarrow> int go) \<Rightarrow> (int \<Rightarrow> int go) \<Rightarrow> int \<Rightarrow> nat \<Rightarrow> Pdexv3Order \<Rightarrow> (int \<times> int \<times> int \<times> int \<times> Pdexv3Order) go" where
  "match_with buyFor sellFor maxSellAmountAfterFee tradeDirection ord =
     go_bind (buyFor maxSellAmountAfterFee) (\<lambda>buyAmount.
       let maxBuying = maxBuyingAmount tradeDirection ord in
       if maxBuying < buyAmount
       then go_bind (sellFor maxBuying) (\<lambda>finalSellAmount.
         if maxSellAmountAfterFee > finalSellAmount
         then finish_match ord tradeDirection finalSellAmount (maxSellAmountAfterFee - finalSellAmount) maxBuying
         else Inl (GoErr ''Final sell amount exceeds maximum''))
       else finish_match ord tradeDirection maxSellAmountAfterFee 0 buyAmount)"

definition Match :: "int \<Rightarrow> nat \<Rightarrow> Pdexv3Order \<Rightarrow> (int \<times> int \<times> int \<times> int \<times> Pdexv3Order) go" where
  "Match maxSellAmountAfterFee tradeDirection ord =
     match_with (\<lambda>sell. BuyAmountFromOrder ord sell tradeDirection) (\<lambda>buy. SellAmountToOrder ord buy tradeDirection)
       maxSellAmountAfterFee tradeDirection ord"

definition MatchPoolAmount ::
    "int \<Rightarrow> nat \<Rightarrow> Pdexv3PoolPair \<Rightarrow> Pdexv3Order \<Rightarrow> (int \<times> int \<times> int \<times> int \<times> Pdexv3Order) go" where
  "MatchPoolAmount maxSellAmountAfterFee tradeDirection pr ord =
     match_with (\<lambda>sell. BuyAmount pr sell tradeDirection) (\<lambda>buy. AmountToSell pr buy tradeDirection)
       maxSellAmountAfterFee tradeDirection ord"

text \<open>\<^verbatim>\<open>CanMatch\<close>: for a direction that is neither of the two the balance stays zero and
  \<^verbatim>\<open>SellAmountToOrder\<close> reports the error.\<close>

definition CanMatch :: "Pdexv3Order \<Rightarrow> nat \<Rightarrow> bool go" where
  "CanMatch ord incomingTradeDirection =
     (if TradeDirection ord = incomingTradeDirection then Inr False
      else let amountBuyAllFromOrder =
          (if incomingTradeDirection = TradeDirectionSell0 then Token1Balance ord
           else if incomingTradeDirection = TradeDirectionSell1 then Token0Balance ord else 0) in
        go_bind (SellAmountToOrder ord amountBuyAllFromOrder incomingTradeDirection) (\<lambda>s. Inr (s \<ge> 1)))"

section \<open>The order book (order\_book.go)\<close>

type_synonym Orderbook = "Pdexv3Order list"

text \<open>\<^verbatim>\<open>sort.Search\<close>: binary search for the first index where the predicate holds.\<close>

function go_search :: "(nat \<Rightarrow> bool) \<Rightarrow> nat \<Rightarrow> nat \<Rightarrow> nat" where
  "go_search f i j = (if i < j then let h = (i + j) div 2 in if \<not> f h then go_search f (h + 1) j else go_search f i h else i)"
  by pat_completeness auto
termination
  by (relation "measure (\<lambda>(f, i, j). j - i)") auto

declare go_search.simps [simp del]

text \<open>The comparison of \<^verbatim>\<open>InsertOrder\<close>: whether \<open>ord\<close> goes before \<open>cur\<close>.\<close>

definition precedes :: "Pdexv3Order \<Rightarrow> Pdexv3Order \<Rightarrow> bool" where
  "precedes ord cur =
     (let ordRate = Token0Rate cur * Token1Rate ord; myRate = Token1Rate cur * Token0Rate ord in
      if ordRate = myRate
      then if TradeDirection ord \<noteq> TradeDirection cur then TradeDirection ord = TradeDirectionSell0
           else if TradeDirection ord = TradeDirectionSell0 then Id ord < Id cur else Id cur < Id ord
      else ordRate < myRate)"

definition InsertOrder :: "Pdexv3Order \<Rightarrow> Orderbook \<Rightarrow> Orderbook" where
  "InsertOrder ord orders =
     (let index = go_search (\<lambda>i. precedes ord (orders ! i)) 0 (length orders) in
      take index orders @ [ord] @ drop index orders)"

text \<open>The scan of \<^verbatim>\<open>NextOrder\<close> over a sequence of indices; an order whose check reports an error is
  skipped, a panic is not.\<close>

fun scan_orders :: "Orderbook \<Rightarrow> nat \<Rightarrow> nat list \<Rightarrow> nat option go" where
  "scan_orders orders d [] = Inr None"
| "scan_orders orders d (i # is) =
     (case CanMatch (orders ! i) d of
        Inl GoPanic \<Rightarrow> Inl GoPanic
      | Inl (GoErr e) \<Rightarrow> scan_orders orders d is
      | Inr check \<Rightarrow> if check then Inr (Some i) else scan_orders orders d is)"

definition NextOrder :: "Orderbook \<Rightarrow> nat \<Rightarrow> nat option go" where
  "NextOrder orders tradeDirection =
     (if tradeDirection = TradeDirectionSell0 then scan_orders orders tradeDirection (rev [0..<length orders])
      else if tradeDirection = TradeDirectionSell1 then scan_orders orders tradeDirection [0..<length orders]
      else Inl (GoErr ''Invalid trade direction''))"

definition RemoveOrder :: "int \<Rightarrow> Orderbook \<Rightarrow> Orderbook go" where
  "RemoveOrder index orders =
     (if index < 0 \<or> index \<ge> int (length orders) then Inl (GoErr ''Invalid order index'')
      else Inr (take (nat index) orders @ drop (nat index + 1) orders))"

definition book_getDiff :: "Orderbook \<Rightarrow> Orderbook \<Rightarrow> string set \<Rightarrow> string set" where
  "book_getDiff orders other changed =
     changed \<union> Id ` {ord \<in> set orders. map_of (rev (map (\<lambda>o'. (Id o', o')) other)) (Id ord) \<noteq> Some ord}
       \<union> {i \<in> Id ` set other. i \<notin> Id ` set orders}"

definition NftIDs :: "Orderbook \<Rightarrow> string \<rightharpoonup> string" where
  "NftIDs orders = map_of (rev (map (\<lambda>ord. (Id ord, NftID ord)) orders))"

section \<open>The sorted book\<close>

lemma go_search_spec:
  assumes "i \<le> j" and "\<And>a b. a \<le> b \<Longrightarrow> b < n \<Longrightarrow> f a \<Longrightarrow> f b" and "j \<le> n"
    and "\<And>k. k < i \<Longrightarrow> \<not> f k" and "\<And>k. j \<le> k \<Longrightarrow> k < n \<Longrightarrow> f k"
  shows "go_search f i j \<le> n \<and> (\<forall>k < go_search f i j. \<not> f k) \<and> (\<forall>k. go_search f i j \<le> k \<and> k < n \<longrightarrow> f k)"
  using assms
proof (induction f i j rule: go_search.induct)
  case (1 f i j)
  show ?case
  proof (cases "i < j")
    case False
    then have "go_search f i j = i" by (simp add: go_search.simps)
    then show ?thesis using False 1(3,5,6,7) by auto
  next
    case True
    define h where "h = (i + j) div 2"
    have h: "i \<le> h" "h < j" using True by (auto simp: h_def)
    have rec: "go_search f i j = (if \<not> f h then go_search f (h + 1) j else go_search f i h)"
      using True by (subst go_search.simps) (simp add: h_def Let_def)
    show ?thesis
    proof (cases "f h")
      case False
      have "\<not> f k" if "k < h + 1" for k using False 1(4) [of k h] that h 1(5) by (cases "k = h") auto
      moreover have "h + 1 \<le> j" using h by simp
      ultimately have "go_search f (h + 1) j \<le> n \<and> (\<forall>k < go_search f (h + 1) j. \<not> f k) \<and>
          (\<forall>k. go_search f (h + 1) j \<le> k \<and> k < n \<longrightarrow> f k)"
        using 1(1) [OF True h_def False] 1(4,5,7) by blast
      then show ?thesis using rec False by simp
    next
      case fh: True
      have "f k" if "h \<le> k" "k < n" for k using fh 1(4) [of h k] that by simp
      moreover have "h \<le> n" using h 1(5) by simp
      ultimately have "go_search f i h \<le> n \<and> (\<forall>k < go_search f i h. \<not> f k) \<and> (\<forall>k. go_search f i h \<le> k \<and> k < n \<longrightarrow> f k)"
        using 1(2) [OF True h_def] fh h(1) 1(4,6) by blast
      then show ?thesis using rec fh by simp
    qed
  qed
qed

text \<open>An order with positive rates and one of the two directions; a book of such orders with distinct
  identifiers, sorted by the comparison of \<^verbatim>\<open>InsertOrder\<close>.\<close>

definition order_ok :: "Pdexv3Order \<Rightarrow> bool" where
  "order_ok ord \<longleftrightarrow> 0 < Token0Rate ord \<and> 0 < Token1Rate ord \<and> IsUint64 (Token0Rate ord) \<and> IsUint64 (Token1Rate ord) \<and>
     IsUint64 (Token0Balance ord) \<and> IsUint64 (Token1Balance ord) \<and>
     TradeDirection ord \<in> {TradeDirectionSell0, TradeDirectionSell1}"

definition book_ok :: "Orderbook \<Rightarrow> bool" where
  "book_ok orders \<longleftrightarrow> (\<forall>ord \<in> set orders. order_ok ord) \<and> distinct (map Id orders) \<and> sorted_wrt precedes orders"

text \<open>The rates compared as fractions of positive numbers.\<close>

lemma cross_trans:
  fixes a0 a1 b0 b1 c0 c1 :: int
  assumes "0 < a0" and "0 < b0" and "0 < c0" and "a1 * b0 \<le> b1 * a0" and "b1 * c0 \<le> c1 * b0"
  shows "a1 * c0 \<le> c1 * a0" and "a1 * b0 < b1 * a0 \<or> b1 * c0 < c1 * b0 \<Longrightarrow> a1 * c0 < c1 * a0"
proof -
  have 1: "(a1 * b0) * c0 \<le> (b1 * a0) * c0" using assms by (intro mult_right_mono) auto
  have 2: "(b1 * c0) * a0 \<le> (c1 * b0) * a0" using assms by (intro mult_right_mono) auto
  have "(a1 * c0) * b0 \<le> (c1 * a0) * b0" using 1 2 by (simp add: algebra_simps)
  then show "a1 * c0 \<le> c1 * a0" using assms(2) by (simp add: mult_le_cancel_right)
  assume "a1 * b0 < b1 * a0 \<or> b1 * c0 < c1 * b0"
  then have "(a1 * b0) * c0 < (b1 * a0) * c0 \<or> (b1 * c0) * a0 < (c1 * b0) * a0" using assms by (auto intro: mult_strict_right_mono)
  then have "(a1 * c0) * b0 < (c1 * a0) * b0" using 1 2 by (auto simp: algebra_simps)
  then show "a1 * c0 < c1 * a0" using assms(2) by (simp add: mult_less_cancel_right)
qed

lemma precedes_rate: "precedes a b \<Longrightarrow> Token1Rate a * Token0Rate b \<le> Token1Rate b * Token0Rate a"
  by (auto simp: precedes_def Let_def mult.commute split: if_splits)

lemma precedes_eq_rate:
  "Token1Rate a * Token0Rate b = Token1Rate b * Token0Rate a \<Longrightarrow>
   precedes a b = (if TradeDirection a \<noteq> TradeDirection b then TradeDirection a = TradeDirectionSell0
     else if TradeDirection a = TradeDirectionSell0 then Id a < Id b else Id b < Id a)"
  by (simp add: precedes_def mult.commute)

lemma precedes_strict_rate: "Token1Rate a * Token0Rate b < Token1Rate b * Token0Rate a \<Longrightarrow> precedes a b"
  by (simp add: precedes_def mult.commute)

lemma precedes_trans:
  assumes "order_ok a" and "order_ok b" and "order_ok c" and "precedes a b" and "precedes b c"
  shows "precedes a c"
proof -
  note pos = assms(1,2,3) [unfolded order_ok_def]
  note ct = cross_trans [of "Token0Rate a" "Token0Rate b" "Token0Rate c" "Token1Rate a" "Token1Rate b" "Token1Rate c"]
  show ?thesis
  proof (cases "Token1Rate a * Token0Rate b < Token1Rate b * Token0Rate a \<or> Token1Rate b * Token0Rate c < Token1Rate c * Token0Rate b")
    case True
    then show ?thesis using ct pos precedes_rate [OF assms(4)] precedes_rate [OF assms(5)] by (intro precedes_strict_rate) auto
  next
    case False
    then have eq: "Token1Rate a * Token0Rate b = Token1Rate b * Token0Rate a" "Token1Rate b * Token0Rate c = Token1Rate c * Token0Rate b"
      using precedes_rate [OF assms(4)] precedes_rate [OF assms(5)] by auto
    have "Token1Rate a * Token0Rate c \<le> Token1Rate c * Token0Rate a" using ct(1) pos eq by simp
    moreover have "Token1Rate c * Token0Rate a \<le> Token1Rate a * Token0Rate c"
      using cross_trans(1) [of "Token0Rate c" "Token0Rate b" "Token0Rate a" "Token1Rate c" "Token1Rate b" "Token1Rate a"] pos eq by simp
    ultimately have "Token1Rate a * Token0Rate c = Token1Rate c * Token0Rate a" by simp
    from precedes_eq_rate [OF this] precedes_eq_rate [OF eq(1)] precedes_eq_rate [OF eq(2)] assms(4,5) pos
    show ?thesis by (auto simp: directions split: if_splits)
  qed
qed

lemma precedes_total:
  assumes "order_ok a" and "order_ok b" and "Id a \<noteq> Id b" and "\<not> precedes a b"
  shows "precedes b a"
proof -
  consider "Token1Rate a * Token0Rate b < Token1Rate b * Token0Rate a" | "Token1Rate b * Token0Rate a < Token1Rate a * Token0Rate b"
    | "Token1Rate a * Token0Rate b = Token1Rate b * Token0Rate a" by linarith
  then show ?thesis
  proof cases
    case 3
    with precedes_eq_rate [OF 3] precedes_eq_rate [OF 3 [symmetric]] assms show ?thesis
      by (auto simp: order_ok_def directions split: if_splits)
  qed (use assms(4) precedes_strict_rate in auto)
qed

lemma precedes_up:
  assumes "book_ok orders" and "order_ok ord" and "i \<le> j" and "j < length orders" and "precedes ord (orders ! i)"
  shows "precedes ord (orders ! j)"
proof (cases "i = j")
  case False
  then have "precedes (orders ! i) (orders ! j)" using assms by (auto simp: book_ok_def sorted_wrt_iff_nth_less)
  moreover have "order_ok (orders ! i)" "order_ok (orders ! j)" using assms by (auto simp: book_ok_def)
  ultimately show ?thesis using precedes_trans [OF assms(2)] assms(5) by blast
qed (use assms in simp)

definition toy_match_order :: Pdexv3Order where
  "toy_match_order = \<lparr>Id = ''o'', NftID = ''n'', Token0Rate = 3, Token1Rate = 2, Token0Balance = 0,
     Token1Balance = 7, TradeDirection = TradeDirectionSell1, Receiver = (''r0'', ''r1'')\<rparr>"

lemma toy_match_order_ok: "order_ok toy_match_order"
  by (simp add: order_ok_def toy_match_order_def IsUint64_def)

lemma InsertOrder_book:
  assumes "book_ok orders" and "order_ok ord" and "Id ord \<notin> Id ` set orders"
  shows "book_ok (InsertOrder ord orders) \<and> mset (InsertOrder ord orders) = add_mset ord (mset orders)"
proof -
  define k where "k = go_search (\<lambda>i. precedes ord (orders ! i)) 0 (length orders)"
  have ins: "InsertOrder ord orders = take k orders @ [ord] @ drop k orders" by (simp add: InsertOrder_def k_def Let_def)
  have "k \<le> length orders \<and> (\<forall>i < k. \<not> precedes ord (orders ! i)) \<and>
      (\<forall>i. k \<le> i \<and> i < length orders \<longrightarrow> precedes ord (orders ! i))"
    unfolding k_def
  proof (rule go_search_spec [where f = "\<lambda>i. precedes ord (orders ! i)"])
    fix a b assume "a \<le> b" "b < length orders" "precedes ord (orders ! a)"
    then show "precedes ord (orders ! b)" by (rule precedes_up [OF assms(1,2)])
  qed simp_all
  then have k: "k \<le> length orders" "\<And>i. i < k \<Longrightarrow> \<not> precedes ord (orders ! i)"
    "\<And>i. k \<le> i \<Longrightarrow> i < length orders \<Longrightarrow> precedes ord (orders ! i)" by auto
  have lo: "precedes o' ord" if "o' \<in> set (take k orders)" for o'
  proof -
    from that obtain i where i: "i < k" "i < length orders" "o' = orders ! i" by (auto simp: in_set_conv_nth)
    then have "o' \<in> set orders" by simp
    then have "order_ok o'" "Id ord \<noteq> Id o'" using assms(1,3) by (auto simp: book_ok_def)
    then show ?thesis using precedes_total [OF assms(2), of o'] k(2) [OF i(1)] i(3) by simp
  qed
  have hi: "precedes ord o'" if "o' \<in> set (drop k orders)" for o'
    using that k(1,3) by (auto simp: in_set_conv_nth)
  have split: "sorted_wrt precedes (take k orders @ drop k orders)" using assms(1) by (simp add: book_ok_def)
  have ms: "mset (InsertOrder ord orders) = add_mset ord (mset orders)"
    using mset_append [of "take k orders" "drop k orders"] by (simp add: ins)
  have "distinct (map Id orders) = distinct (map Id (take k orders @ drop k orders))" by simp
  then have "distinct (map Id (InsertOrder ord orders))"
    using assms(1,3) in_set_takeD [of _ k orders] in_set_dropD [of _ k orders]
    by (auto simp: ins book_ok_def simp del: append_take_drop_id)
  moreover have "set (InsertOrder ord orders) = insert ord (set orders)" using arg_cong [OF ms, of set_mset] by simp
  ultimately show ?thesis using assms split lo hi ms
    by (auto simp: book_ok_def ins sorted_wrt_append simp del: append_take_drop_id)
qed

text \<open>Inserting an order with a new identifier keeps the book sorted by rate (with the code's
  tie-breaking by direction and identifier) and adds exactly that order.\<close>

theorem insert_keeps_book:
  assumes "book_ok orders" and "order_ok ord" and "Id ord \<notin> Id ` set orders"
  shows "book_ok (InsertOrder ord orders) \<and> mset (InsertOrder ord orders) = add_mset ord (mset orders)"
  by (rule InsertOrder_book [OF assms])

theorem insert_keeps_book_witness:
  "book_ok (InsertOrder toy_order [toy_match_order\<lparr>Id := ''p''\<rparr>])"
  using insert_keeps_book [of "[toy_match_order\<lparr>Id := ''p''\<rparr>]" toy_order]
  by (simp add: book_ok_def order_ok_def toy_order_def toy_match_order_def IsUint64_def)

section \<open>The best order\<close>

lemma CanMatch_ok:
  assumes "order_ok ord"
  shows "CanMatch ord d \<noteq> Inl GoPanic"
  using assms by (auto simp: CanMatch_def SellAmountToOrder_def order_rates_def order_ok_def Let_def go_bind_def
      split: sum.splits if_splits)

lemma scan_orders_spec:
  assumes "\<forall>i \<in> set is. CanMatch (orders ! i) d \<noteq> Inl GoPanic"
  shows "case scan_orders orders d is of Inl _ \<Rightarrow> False
    | Inr None \<Rightarrow> \<forall>i \<in> set is. CanMatch (orders ! i) d \<noteq> Inr True
    | Inr (Some i) \<Rightarrow> \<exists>xs ys. is = xs @ i # ys \<and> CanMatch (orders ! i) d = Inr True \<and>
        (\<forall>j \<in> set xs. CanMatch (orders ! j) d \<noteq> Inr True)"
  using assms
proof (induction "is")
  case (Cons i "is")
  show ?case
  proof (cases "CanMatch (orders ! i) d = Inr True")
    case True
    then show ?thesis by (auto intro: exI [of _ "[]"])
  next
    case False
    then have "scan_orders orders d (i # is) = scan_orders orders d is"
      using Cons.prems by (auto split: sum.splits go_err.splits)
    then show ?thesis using Cons False by (fastforce split: sum.splits option.splits intro: exI [of _ "i # _"])
  qed
qed simp

text \<open>What \<^verbatim>\<open>NextOrder\<close> visits before the order it returns.\<close>

lemma upt_before:
  assumes "[0..<n] = xs @ i # ys"
  shows "i < n" and "xs = [0..<i]" and "ys = [i + 1..<n]"
proof -
  have len: "length xs < n" using arg_cong [OF assms, of length] by simp
  then show "i < n" and "xs = [0..<i]" and "ys = [i + 1..<n]"
    using arg_cong [OF assms, of "\<lambda>l. l ! length xs"] arg_cong [OF assms, of "take (length xs)"]
      arg_cong [OF assms, of "drop (length xs + 1)"] by (auto simp: take_upt)
qed

lemma rev_upt_before:
  assumes "rev [0..<n] = xs @ i # ys"
  shows "i < n" and "xs = rev [i + 1..<n]"
proof -
  have *: "[0..<n] = rev ys @ i # rev xs" using arg_cong [OF assms, of rev] by simp
  then show "i < n" by (rule upt_before(1))
  show "xs = rev [i + 1..<n]" using arg_cong [OF upt_before(3) [OF *], of rev] by simp
qed

lemma NextOrder_cases:
  assumes "\<forall>ord \<in> set orders. order_ok ord" and "d \<in> {TradeDirectionSell0, TradeDirectionSell1}"
  obtains (none) "NextOrder orders d = Inr None" "\<forall>ord \<in> set orders. CanMatch ord d \<noteq> Inr True"
  | (some) i where "NextOrder orders d = Inr (Some i)" "i < length orders" "CanMatch (orders ! i) d = Inr True"
      "\<forall>j < length orders. (if d = TradeDirectionSell0 then i < j else j < i) \<longrightarrow> CanMatch (orders ! j) d \<noteq> Inr True"
proof -
  define js where "js = (if d = TradeDirectionSell0 then rev [0..<length orders] else [0..<length orders])"
  have next_eq: "NextOrder orders d = scan_orders orders d js" using assms(2) by (auto simp: NextOrder_def js_def)
  have "\<forall>i \<in> set js. CanMatch (orders ! i) d \<noteq> Inl GoPanic" using assms(1) CanMatch_ok by (auto simp: js_def)
  from scan_orders_spec [OF this] show thesis
  proof (cases "scan_orders orders d js")
    case (Inr r)
    show thesis
    proof (cases r)
      case None
      with scan_orders_spec [OF \<open>\<forall>i \<in> set js. CanMatch (orders ! i) d \<noteq> Inl GoPanic\<close>] Inr
      have "\<forall>i < length orders. CanMatch (orders ! i) d \<noteq> Inr True" by (auto simp: js_def split: if_splits)
      then have "\<forall>ord \<in> set orders. CanMatch ord d \<noteq> Inr True" by (metis in_set_conv_nth)
      then show ?thesis using none Inr None next_eq by simp
    next
      case (Some i)
      with scan_orders_spec [OF \<open>\<forall>i \<in> set js. CanMatch (orders ! i) d \<noteq> Inl GoPanic\<close>] Inr obtain xs ys
        where x: "js = xs @ i # ys" "CanMatch (orders ! i) d = Inr True" "\<forall>j \<in> set xs. CanMatch (orders ! j) d \<noteq> Inr True"
        by auto
      have "i < length orders \<and> set xs = (if d = TradeDirectionSell0 then {i + 1..<length orders} else {0..<i})"
        using x(1) rev_upt_before [of "length orders" xs i ys] upt_before [of "length orders" xs i ys]
        by (cases "d = TradeDirectionSell0") (simp_all add: js_def)
      then show ?thesis using some [of i] x(2,3) Inr Some next_eq by (cases "d = TradeDirectionSell0") auto
    qed
  qed auto
qed

text \<open>On a well-formed book \<^verbatim>\<open>NextOrder\<close> always returns, and what it returns is the best order for the
  trader: it can be matched, and no order of the book that can be matched gives more of the bought token
  per sold unit; at the same rate no other has a smaller identifier. It returns none only when no order
  of the book can be matched.\<close>

theorem next_order_is_best:
  assumes "book_ok orders" and "d \<in> {TradeDirectionSell0, TradeDirectionSell1}"
  shows "case NextOrder orders d of
      Inl _ \<Rightarrow> False
    | Inr None \<Rightarrow> \<forall>ord \<in> set orders. CanMatch ord d \<noteq> Inr True
    | Inr (Some i) \<Rightarrow> i < length orders \<and> CanMatch (orders ! i) d = Inr True \<and>
        (\<forall>j < length orders. j \<noteq> i \<and> CanMatch (orders ! j) d = Inr True \<longrightarrow>
           (let best = rateY d (orders ! i) * rateX d (orders ! j); other = rateY d (orders ! j) * rateX d (orders ! i) in
            other < best \<or> other = best \<and> Id (orders ! i) < Id (orders ! j)))"
proof (cases rule: NextOrder_cases [of orders d, case_names ok dir none some])
  case (some i)
  have "let best = rateY d (orders ! i) * rateX d (orders ! j); other = rateY d (orders ! j) * rateX d (orders ! i) in
      other < best \<or> other = best \<and> Id (orders ! i) < Id (orders ! j)"
    if j: "j < length orders" "j \<noteq> i" "CanMatch (orders ! j) d = Inr True" for j
  proof -
    define hi lo where "hi = (if d = TradeDirectionSell0 then orders ! i else orders ! j)"
      and "lo = (if d = TradeDirectionSell0 then orders ! j else orders ! i)"
    have "if d = TradeDirectionSell0 then j < i else i < j" using some(4) j by (auto simp: not_less le_less)
    then have "precedes lo hi" using some(2) j(1) assms(1)
      by (cases "d = TradeDirectionSell0") (auto simp: lo_def hi_def book_ok_def sorted_wrt_iff_nth_less)
    moreover have "TradeDirection (orders ! i) \<noteq> d" "TradeDirection (orders ! j) \<noteq> d"
      using some(3) j(3) by (auto simp: CanMatch_def)
    moreover have "order_ok (orders ! i)" "order_ok (orders ! j)" using assms(1) some(2) j(1) by (auto simp: book_ok_def)
    ultimately show ?thesis using assms(2)
      by (auto simp: precedes_def lo_def hi_def rateX_def rateY_def order_ok_def directions Let_def mult.commute
          split: if_splits)
  qed
  then show ?thesis using some by simp
qed (use assms in \<open>auto simp: book_ok_def\<close>)

theorem next_order_is_best_witness:
  "case NextOrder [toy_match_order\<lparr>Id := ''p''\<rparr>, toy_order] TradeDirectionSell0 of Inr (Some i) \<Rightarrow> i = 1 | _ \<Rightarrow> False"
proof -
  have b: "book_ok [toy_match_order\<lparr>Id := ''p''\<rparr>, toy_order]"
    by (simp add: book_ok_def order_ok_def toy_order_def toy_match_order_def IsUint64_def precedes_def)
  have n: "NextOrder [toy_match_order\<lparr>Id := ''p''\<rparr>, toy_order] TradeDirectionSell0 = Inr (Some 1)"
    by (simp add: NextOrder_def CanMatch_def SellAmountToOrder_def order_rates_def toy_order_def directions
        maxBuyingAmount_def IsUint64_def)
  from next_order_is_best [OF b, of TradeDirectionSell0] n show ?thesis by simp
qed

section \<open>Matching\<close>

definition balanceX :: "nat \<Rightarrow> Pdexv3Order \<Rightarrow> int" where
  "balanceX d ord = (if d = TradeDirectionSell0 then Token0Balance ord else Token1Balance ord)"

text \<open>The order after it received \<open>sold\<close> and paid \<open>buy\<close>.\<close>

definition filled :: "Pdexv3Order \<Rightarrow> int \<Rightarrow> int \<Rightarrow> Pdexv3Order" where
  "filled ord c0 c1 = ord\<lparr>Token0Balance := Token0Balance ord + c0, Token1Balance := Token1Balance ord + c1\<rparr>"

lemma filled_rates [simp]:
  "rateX d (filled ord c0 c1) = rateX d ord" "rateY d (filled ord c0 c1) = rateY d ord"
  "TradeDirection (filled ord c0 c1) = TradeDirection ord" "Id (filled ord c0 c1) = Id ord"
  "Token0Rate (filled ord c0 c1) = Token0Rate ord" "Token1Rate (filled ord c0 c1) = Token1Rate ord"
  "NftID (filled ord c0 c1) = NftID ord"
  by (simp_all add: filled_def rateX_def rateY_def)

lemma filled_balances:
  "(c0, c1) = changes_for d sold buy \<Longrightarrow> balanceX d (filled ord c0 c1) = balanceX d ord + sold"
  "(c0, c1) = changes_for d sold buy \<Longrightarrow> maxBuyingAmount d (filled ord c0 c1) = maxBuyingAmount d ord - buy"
  by (auto simp: balanceX_def maxBuyingAmount_def filled_def changes_for_def split: if_splits)

text \<open>\<^verbatim>\<open>finish_match\<close> succeeds exactly when both amounts are positive (or both zero), the order can pay and
  its other balance does not overflow.\<close>

lemma finish_match_iff:
  assumes "order_ok ord" and "0 \<le> sold" and "0 \<le> buy"
  shows "go_ok (finish_match ord d sold rem buy) \<longleftrightarrow>
      (0 < sold \<and> 0 < buy \<or> sold = 0 \<and> buy = 0) \<and> buy \<le> maxBuyingAmount d ord \<and> balanceX d ord + sold < 2 ^ 64"
  using assms
  by (auto simp: finish_match_def ApplyBalanceChanges_def changes_for_def opposite_signs_iff Let_def order_ok_def
      IsUint64_def maxBuyingAmount_def balanceX_def filled_def go_ok_def)

lemma finish_match_ok:
  assumes "finish_match ord d sold rem buy = Inr (b, r, c0, c1, ord')"
  shows "b = buy" and "r = rem" and "(c0, c1) = changes_for d sold buy" and "ord' = filled ord c0 c1"
    and "IsUint64 (Token0Balance ord')" and "IsUint64 (Token1Balance ord')" and "opposite_signs c0 c1"
  using assms
  by (auto simp: finish_match_def ApplyBalanceChanges_def Let_def filled_def changes_for_def split: if_splits prod.splits)

text \<open>\<^verbatim>\<open>Match\<close> is the same procedure under two pricing rules. The interface of a pricing rule: it prices a
  positive sale with a non-negative amount, and what it asks for a smaller purchase is less.\<close>

locale pricing =
  fixes buyFor :: "int \<Rightarrow> int go" and sellFor :: "int \<Rightarrow> int go"
  assumes buy_nonneg: "\<And>s b. buyFor s = Inr b \<Longrightarrow> 0 \<le> b"
    and sell_nonneg: "\<And>b s. 0 \<le> b \<Longrightarrow> sellFor b = Inr s \<Longrightarrow> 0 \<le> s"
begin

lemma match_with_cases:
  assumes "match_with buyFor sellFor m d ord = Inr (b, r, c0, c1, ord')" and "order_ok ord" and "0 \<le> m"
  obtains (full) "buyFor m = Inr b" "r = 0" "b \<le> maxBuyingAmount d ord" "(c0, c1) = changes_for d m b" "ord' = filled ord c0 c1"
      "order_ok ord'"
  | (partial) sold where "b = maxBuyingAmount d ord" "sellFor b = Inr sold" "sold < m" "r = m - sold" "0 \<le> sold"
      "(c0, c1) = changes_for d sold b" "ord' = filled ord c0 c1" "order_ok ord'"
proof -
  from assms(1) obtain buy where buy: "buyFor m = Inr buy" by (auto simp: match_with_def go_bind_def split: sum.splits)
  have ok: "order_ok ord'" if "finish_match ord d x y z = Inr (b, r, c0, c1, ord')" for x y z
    using finish_match_ok [OF that] assms(2) by (auto simp: order_ok_def)
  show thesis
  proof (cases "maxBuyingAmount d ord < buy")
    case True
    with assms(1) buy obtain sold where *: "sellFor (maxBuyingAmount d ord) = Inr sold" "sold < m"
      "finish_match ord d sold (m - sold) (maxBuyingAmount d ord) = Inr (b, r, c0, c1, ord')"
      by (auto simp: match_with_def go_bind_def Let_def split: sum.splits if_splits)
    have "0 \<le> maxBuyingAmount d ord" using assms(2) by (simp add: order_ok_def maxBuyingAmount_def IsUint64_def)
    with sell_nonneg * show thesis using partial [of sold] finish_match_ok [OF *(3)] ok [OF *(3)] by auto
  next
    case False
    with assms(1) buy have *: "finish_match ord d m 0 buy = Inr (b, r, c0, c1, ord')" by (simp add: match_with_def)
    show thesis using full finish_match_ok [OF *] ok [OF *] buy False by auto
  qed
qed

lemma match_with_accounts:
  assumes "match_with buyFor sellFor m d ord = Inr (b, r, c0, c1, ord')" and "order_ok ord" and "0 \<le> m"
  shows "0 \<le> r \<and> r \<le> m \<and> 0 \<le> b \<and> b \<le> maxBuyingAmount d ord \<and> (c0, c1) = changes_for d (m - r) b \<and>
    ord' = filled ord c0 c1 \<and> order_ok ord' \<and> (0 < r \<longrightarrow> maxBuyingAmount d ord' = 0)"
  using assms(1,2,3)
proof (cases rule: match_with_cases)
  case full
  then show ?thesis using assms(3) buy_nonneg by auto
next
  case (partial sold)
  moreover have "0 \<le> b" using partial(1) assms(2) by (simp add: order_ok_def maxBuyingAmount_def IsUint64_def)
  ultimately show ?thesis using filled_balances(2) [OF partial(6), of ord] by auto
qed

end

interpretation order_price: pricing "\<lambda>s. BuyAmountFromOrder ord s d" "\<lambda>b. SellAmountToOrder ord b d"
  by unfold_locales
    (auto simp: BuyAmountFromOrder_def SellAmountToOrder_def go_bind_def IsUint64_def split: if_splits sum.splits)

interpretation pool_price: pricing "\<lambda>s. BuyAmount pr s d" "\<lambda>b. AmountToSell pr b d"
  by unfold_locales
    (auto simp: BuyAmount_def calculateBuyAmount_def AmountToSell_def calculateAmountToSell_def go_bind_def IsUint64_def
      Let_def split: if_splits sum.splits)

lemma rates_pos: "order_ok ord \<Longrightarrow> 0 < rateX d ord \<and> 0 < rateY d ord"
  by (simp add: order_ok_def rateX_def rateY_def)

lemma BuyAmountFromOrder_ok:
  "order_ok ord \<Longrightarrow> BuyAmountFromOrder ord s d = Inr b \<longleftrightarrow>
     TradeDirection ord \<noteq> d \<and> d \<in> {TradeDirectionSell0, TradeDirectionSell1} \<and> b = s * rateY d ord div rateX d ord \<and> IsUint64 b"
  by (auto simp: BuyAmountFromOrder_def order_rates_def rateX_def rateY_def order_ok_def directions split: if_splits)

lemma SellAmountToOrder_ok:
  "order_ok ord \<Longrightarrow> SellAmountToOrder ord b d = Inr s \<longleftrightarrow>
     TradeDirection ord \<noteq> d \<and> d \<in> {TradeDirectionSell0, TradeDirectionSell1} \<and> b \<le> maxBuyingAmount d ord \<and>
     s = b * rateX d ord div rateY d ord \<and> IsUint64 s"
  by (auto simp: SellAmountToOrder_def order_rates_def rateX_def rateY_def order_ok_def directions split: if_splits)

lemma CanMatch_True:
  assumes "order_ok ord"
  shows "CanMatch ord d = Inr True \<longleftrightarrow> (\<exists>s \<ge> 1. SellAmountToOrder ord (maxBuyingAmount d ord) d = Inr s)"
proof (cases "d \<in> {TradeDirectionSell0, TradeDirectionSell1}")
  case True
  then show ?thesis
    by (auto simp: CanMatch_def maxBuyingAmount_def SellAmountToOrder_def directions go_bind_def split: sum.splits if_splits)
next
  case False
  then show ?thesis by (auto simp: CanMatch_def SellAmountToOrder_def order_rates_def directions)
qed

lemma exhausted_no_match:
  assumes "order_ok ord" and "maxBuyingAmount d ord = 0"
  shows "CanMatch ord d \<noteq> Inr True"
  using assms by (auto simp: CanMatch_True SellAmountToOrder_ok)

text \<open>The sale of the whole balance never exceeds an amount that buys more than the balance.\<close>

lemma partial_sale_lt:
  fixes m B x y :: int
  assumes "0 < x" and "0 < y" and "B < (m * y) div x"
  shows "(B * x) div y < m"
proof -
  have "(B + 1) * x \<le> (m * y) div x * x" using assms by (intro mult_right_mono) auto
  also have "\<dots> \<le> m * y" by (rule mult_div_le [OF assms(1)])
  finally have "B * x < m * y" using assms(1) by (simp add: algebra_simps)
  moreover have "(B * x) div y * y \<le> B * x" by (rule mult_div_le [OF assms(2)])
  ultimately have "(B * x) div y * y < m * y" by linarith
  then show ?thesis using assms(2) by (simp add: mult_less_cancel_right)
qed

lemma div_window:
  fixes n d :: int
  assumes "0 < d"
  shows "n div d * d \<le> n" and "n < (n div d + 1) * d"
  using assms div_mult_mod_eq [of n d] pos_mod_bound [OF assms, of n] pos_mod_sign [OF assms, of n]
  unfolding distrib_right by linarith+

section \<open>Correctness of matching\<close>

lemma toy_match_result: "Match 20 TradeDirectionSell0 toy_match_order = Inr (7, 10, 10, -7, filled toy_match_order 10 (-7))"
  by (simp add: Match_def match_with_def BuyAmountFromOrder_def SellAmountToOrder_def order_rates_def toy_match_order_def
      directions maxBuyingAmount_def IsUint64_def finish_match_def changes_for_def ApplyBalanceChanges_def
      opposite_signs_def filled_def Let_def)

text \<open>C33. A successful match accounts for every unit: the order receives what the trade no longer has and
  pays the returned buy amount, at most its balance, and both balances stay \<^verbatim>\<open>uint64\<close> values. A trade
  that is matched fully gets what the order's rate gives, rounded down by less than one unit; when the trade has something left
  the order is sold out, its owner received the price of the whole balance at the order's rate rounded
  down by less than one unit, and the order can not be matched again.\<close>

theorem match_follows_rate:
  assumes "order_ok ord" and "0 \<le> m" and "Match m d ord = Inr (b, r, c0, c1, ord')"
  shows "0 \<le> r \<and> r \<le> m \<and> 0 \<le> b \<and> b \<le> maxBuyingAmount d ord \<and> (c0, c1) = changes_for d (m - r) b \<and>
    ord' = filled ord c0 c1 \<and> order_ok ord' \<and>
    (if r = 0 then b * rateX d ord \<le> m * rateY d ord \<and> m * rateY d ord < (b + 1) * rateX d ord
     else maxBuyingAmount d ord' = 0 \<and> CanMatch ord' d \<noteq> Inr True \<and>
       (m - r) * rateY d ord \<le> b * rateX d ord \<and> b * rateX d ord < (m - r + 1) * rateY d ord)"
proof -
  have mw: "match_with (\<lambda>s. BuyAmountFromOrder ord s d) (\<lambda>b. SellAmountToOrder ord b d) m d ord = Inr (b, r, c0, c1, ord')"
    using assms(3) by (simp add: Match_def)
  note acc = order_price.match_with_accounts [OF mw assms(1,2)]
  note pos = rates_pos [OF assms(1), of d]
  from mw assms(1,2) show ?thesis
  proof (cases rule: order_price.match_with_cases)
    case full
    then have "b * rateX d ord \<le> m * rateY d ord \<and> m * rateY d ord < (b + 1) * rateX d ord"
      using div_window [of "rateX d ord" "m * rateY d ord"] pos assms(1) by (simp add: BuyAmountFromOrder_ok)
    then show ?thesis using acc full(2) by auto
  next
    case (partial sold)
    then have "sold = b * rateX d ord div rateY d ord" using assms(1) by (simp add: SellAmountToOrder_ok)
    then have "sold * rateY d ord \<le> b * rateX d ord \<and> b * rateX d ord < (sold + 1) * rateY d ord"
      using div_window [of "rateY d ord" "b * rateX d ord"] pos by simp
    moreover have "0 < r" using partial by simp
    ultimately show ?thesis using acc partial(4) exhausted_no_match [of ord' d] by auto
  qed
qed

theorem match_follows_rate_witness:
  "maxBuyingAmount TradeDirectionSell0 (filled toy_match_order 10 (-7)) = 0 \<and>
   CanMatch (filled toy_match_order 10 (-7)) TradeDirectionSell0 \<noteq> Inr True \<and> order_ok (filled toy_match_order 10 (-7))"
  using match_follows_rate [OF toy_match_order_ok _ toy_match_result] by simp

text \<open>Matching an order that \<^verbatim>\<open>CanMatch\<close> accepts fails only for amounts the code has to refuse: a positive amount
  is refused exactly when the amount bought at the order's rate rounds to zero or exceeds \<^verbatim>\<open>uint64\<close>, or the balance the
  order receives would overflow. The final sell amount never exceeds the maximum.\<close>

theorem match_succeeds_iff:
  assumes "order_ok ord" and "CanMatch ord d = Inr True" and "IsUint64 m" and "0 < m"
  shows "go_ok (Match m d ord) \<longleftrightarrow>
    (let buy = m * rateY d ord div rateX d ord; B = maxBuyingAmount d ord in
     0 < buy \<and> buy < 2 ^ 64 \<and> balanceX d ord + (if buy \<le> B then m else B * rateX d ord div rateY d ord) < 2 ^ 64)"
proof -
  define buy B where "buy = m * rateY d ord div rateX d ord" and "B = maxBuyingAmount d ord"
  from assms(1,2) obtain s where s: "SellAmountToOrder ord B d = Inr s" "1 \<le> s" by (auto simp: CanMatch_True B_def)
  then have sd: "TradeDirection ord \<noteq> d" "d \<in> {TradeDirectionSell0, TradeDirectionSell1}" "s = B * rateX d ord div rateY d ord"
    using assms(1) by (auto simp: SellAmountToOrder_ok)
  note pos = rates_pos [OF assms(1), of d]
  have m0: "0 \<le> m" using assms(3) by (simp add: IsUint64_def)
  have buy0: "0 \<le> buy" using pos m0 by (simp add: buy_def pos_imp_zdiv_nonneg_iff)
  have B0: "0 \<le> B" using assms(1) by (simp add: order_ok_def B_def maxBuyingAmount_def IsUint64_def)
  have B1: "0 < B" using B0 s(2) sd(3) by (cases "B = 0") auto
  show ?thesis
  proof (cases "buy < 2 ^ 64")
    case False
    then have "\<not> go_ok (BuyAmountFromOrder ord m d)"
      using assms(1) BuyAmountFromOrder_ok [OF assms(1), of m d] by (auto simp: go_ok_def IsUint64_def buy_def split: sum.splits)
    then show ?thesis using False by (auto simp: Match_def match_with_def go_ok_def go_bind_def buy_def Let_def split: sum.splits)
  next
    case True
    then have b: "BuyAmountFromOrder ord m d = Inr buy"
      using assms(1) sd buy0 by (simp add: BuyAmountFromOrder_ok buy_def IsUint64_def)
    show ?thesis
    proof (cases "B < buy")
      case below: True
      have "s < m" using partial_sale_lt [of "rateX d ord" "rateY d ord" B m] pos below by (simp add: sd(3) buy_def)
      then have "Match m d ord = finish_match ord d s (m - s) B"
        using b s below by (simp add: Match_def match_with_def B_def)
      then show ?thesis
        using finish_match_iff [OF assms(1), of s B d] s(2) B1 below True sd(3) by (simp add: buy_def [symmetric] B_def [symmetric])
    next
      case False
      then have "Match m d ord = finish_match ord d m 0 buy" using b by (simp add: Match_def match_with_def B_def)
      then show ?thesis
        using finish_match_iff [OF assms(1) m0 buy0, of d 0] False True assms(4) buy0
        by (auto simp: buy_def [symmetric] B_def [symmetric])
    qed
  qed
qed

theorem match_succeeds_iff_witness:
  "go_ok (Match 20 TradeDirectionSell0 toy_match_order) \<and> \<not> go_ok (Match 1 TradeDirectionSell0 toy_match_order)"
proof -
  have c: "CanMatch toy_match_order TradeDirectionSell0 = Inr True"
    by (simp add: CanMatch_def toy_match_order_def SellAmountToOrder_def order_rates_def directions maxBuyingAmount_def IsUint64_def)
  show ?thesis
    using match_succeeds_iff [OF toy_match_order_ok c, of 20] match_succeeds_iff [OF toy_match_order_ok c, of 1]
    by (simp add: IsUint64_def toy_match_order_def rateX_def rateY_def balanceX_def maxBuyingAmount_def directions)
qed

end
