(* ===== verification/Pdex_Rewards.thy ===== *)
theory Pdex_Rewards
  imports Pdex_Orders
begin

text \<open>
  Fees and rewards of a pool: the reward functions of \<^verbatim>\<open>src/blockchain/pdex/v2utils/utils.go\<close>
  (\<^verbatim>\<open>GetMakingVolumes\<close>, \<^verbatim>\<open>SplitTradingReward\<close>, \<^verbatim>\<open>SplitOrderRewardLiquidityMining\<close>) and of \<^verbatim>\<open>reserve.go\<close>
  (\<^verbatim>\<open>AddStakingAndProtocolFee\<close>, \<^verbatim>\<open>AddLPFee\<close>, \<^verbatim>\<open>AddLMRewards\<close>). A Go map of amounts is the list
  of its entries, with distinct keys; the owners of orders are a HOL map. The
  lemmas show that what is split is neither lost nor created.
\<close>

section \<open>Maps of token amounts\<close>

type_synonym amounts = "(string \<times> int) list"

definition map_uint :: "('k \<times> int) list \<Rightarrow> 'k \<Rightarrow> int" where
  "map_uint m k = (case map_of m k of None \<Rightarrow> 0 | Some v \<Rightarrow> v)"

lemma map_uint_put [simp]: "map_uint (al_put k v m) t = (if t = k then v else map_uint m t)"
  by (simp add: map_uint_def)

definition to_uint64 :: "int \<Rightarrow> int" where
  "to_uint64 x = x mod 2 ^ 64"

lemma to_uint64_id [simp]: "IsUint64 x \<Longrightarrow> to_uint64 x = x"
  by (simp add: to_uint64_def IsUint64_def)

section \<open>Fees of a pool (reserve.go)\<close>

text \<open>The percentages after the adjustments; \<^verbatim>\<open>uint\<close> subtraction wraps.\<close>

definition fee_percents :: "Pdexv3PoolPair \<Rightarrow> bool \<Rightarrow> int \<Rightarrow> int \<Rightarrow> int \<times> int" where
  "fee_percents tp isStakingRewardToken protocolFeePercent stakingPoolRewardPercent =
     (let staking = (if \<not> isStakingRewardToken then 0 else stakingPoolRewardPercent) in
      if ShareAmount tp = 0
      then if \<not> isStakingRewardToken then (100, staking) else (protocolFeePercent, to_uint64 (100 - protocolFeePercent))
      else (protocolFeePercent, staking))"

definition add_fee :: "string \<Rightarrow> int \<Rightarrow> amounts \<Rightarrow> amounts" where
  "add_fee tokenID fee m = (if IsUint64 fee \<and> fee \<noteq> 0 then al_put tokenID (to_uint64 (map_uint m tokenID + fee)) m else m)"

definition AddStakingAndProtocolFee ::
    "Pdexv3PoolPair \<Rightarrow> string \<Rightarrow> int \<Rightarrow> amounts \<Rightarrow> amounts \<Rightarrow> int \<Rightarrow> int \<Rightarrow> string list \<Rightarrow> amounts \<times> amounts \<times> int" where
  "AddStakingAndProtocolFee tp tokenID amount rootProtocolFees rootStakingPoolFees protocolFeePercent
      stakingPoolRewardPercent stakingRewardTokens =
     (case fee_percents tp (tokenID \<in> set stakingRewardTokens) protocolFeePercent stakingPoolRewardPercent of
       (p, s) \<Rightarrow>
        let protocolFees = amount * p div 100; stakingRewards = amount * s div 100 in
        (add_fee tokenID protocolFees rootProtocolFees, add_fee tokenID stakingRewards rootStakingPoolFees,
         amount - protocolFees - stakingRewards))"

definition AddLPFee :: "Pdexv3PoolPair \<Rightarrow> string \<Rightarrow> int \<Rightarrow> int \<Rightarrow> amounts \<Rightarrow> amounts go" where
  "AddLPFee tp tokenID amount baseLPPerShare rootLpFeesPerShare =
     (if ShareAmount tp = 0 then Inr rootLpFeesPerShare
      else go_bind (big_div (amount * baseLPPerShare) (ShareAmount tp)) (\<lambda>delta.
        Inr (al_put tokenID (map_uint rootLpFeesPerShare tokenID + delta) rootLpFeesPerShare)))"

definition AddLMRewards :: "Pdexv3PoolPair \<Rightarrow> string \<Rightarrow> int \<Rightarrow> int \<Rightarrow> amounts \<Rightarrow> amounts go" where
  "AddLMRewards tp tokenID amount baseLPPerShare rootLmRewardsPerShare =
     (if ShareAmount tp = LmLockedShareAmount tp then Inr rootLmRewardsPerShare
      else go_bind (big_div (amount * baseLPPerShare) (to_uint64 (ShareAmount tp - LmLockedShareAmount tp))) (\<lambda>delta.
        Inr (al_put tokenID (map_uint rootLmRewardsPerShare tokenID + delta) rootLmRewardsPerShare)))"

section \<open>Splitting rewards (utils.go)\<close>

definition getMakingAmountFromChange :: "int \<times> int \<Rightarrow> int" where
  "getMakingAmountFromChange change = (if fst change < 0 then - fst change else - snd change)"

text \<open>The volumes per owner: entries are added in the order the map is ranged over, which does not
  matter for sums.\<close>

fun add_volume :: "string \<Rightarrow> int \<Rightarrow> (string \<times> int) list \<Rightarrow> (string \<times> int) list" where
  "add_volume nftID amt [] = [(nftID, amt)]"
| "add_volume nftID amt ((n, v) # vs) = (if n = nftID then (n, v + amt) # vs else (n, v) # add_volume nftID amt vs)"

definition GetMakingVolumes ::
    "int \<times> int \<Rightarrow> (string \<times> int \<times> int) list \<Rightarrow> (string \<rightharpoonup> string) \<Rightarrow> int \<times> (string \<times> int) list \<times> nat" where
  "GetMakingVolumes pairChange orderChange nftIDs =
     (getMakingAmountFromChange pairChange,
      foldl (\<lambda>vs (ordID, change). add_volume (case nftIDs ordID of None \<Rightarrow> '''' | Some n \<Rightarrow> n) (getMakingAmountFromChange change) vs)
        [] orderChange,
      if fst pairChange > 0 \<or> (\<exists>(ordID, change) \<in> set orderChange. fst change > 0) then TradeDirectionSell0 else TradeDirectionSell1)"

text \<open>The loop both splits share: each entry in turn gets its share of what is left.\<close>

fun split_loop :: "int \<Rightarrow> int \<Rightarrow> (string \<times> int) list \<Rightarrow> (string \<times> int) list go" where
  "split_loop reward weightedMakingAmt [] = Inr []"
| "split_loop reward weightedMakingAmt ((nftID, weight) # rest) =
     go_bind (if weight > 0 then big_div (reward * weight) weightedMakingAmt else Inr 0) (\<lambda>orderReward.
     go_bind (split_loop (reward - orderReward) (weightedMakingAmt - weight) rest) (\<lambda>out.
       Inr ((nftID, to_uint64 orderReward) # out)))"

definition by_key :: "(string \<times> int) list \<Rightarrow> (string \<times> int) list" where
  "by_key = sort_key fst"

definition SplitTradingReward ::
    "int \<Rightarrow> int \<Rightarrow> int \<Rightarrow> int \<Rightarrow> (string \<times> int) list \<Rightarrow> (int \<times> (string \<times> int) list) go" where
  "SplitTradingReward reward ratio bps ammMakingAmt orderMakingAmts =
     (if ratio = 0 then Inr (to_uint64 reward, [])
      else
        let weightedAmm = ammMakingAmt * bps;
            weighted = map (\<lambda>(nftID, amt). (nftID, amt * ratio)) orderMakingAmts;
            total = weightedAmm + sum_list (map snd weighted) in
        go_bind (if weightedAmm > 0 then big_div (reward * weightedAmm) total else Inr 0) (\<lambda>ammReward.
        go_bind (split_loop (reward - ammReward) (total - weightedAmm) (by_key weighted)) (\<lambda>orderRewards.
          Inr (to_uint64 ammReward, orderRewards))))"

definition SplitOrderRewardLiquidityMining :: "(string \<times> int) list \<Rightarrow> int \<Rightarrow> (string \<times> int) list go" where
  "SplitOrderRewardLiquidityMining volume amount = split_loop amount (sum_list (map snd volume)) (by_key volume)"

section \<open>Conservation of a split\<close>

lemma share_bounds:
  fixes r v w :: int
  assumes "0 \<le> r" and "0 < v" and "v \<le> w"
  shows "0 \<le> r * v div w" and "r * v div w \<le> r" and "v = w \<Longrightarrow> r * v div w = r"
proof -
  have w: "0 < w" using assms by simp
  show "0 \<le> r * v div w" using assms w by (simp add: pos_imp_zdiv_nonneg_iff)
  have "r * v div w \<le> r * w div w" using assms w by (intro zdiv_mono1 mult_left_mono) auto
  then show "r * v div w \<le> r" using w by simp
  show "v = w \<Longrightarrow> r * v div w = r" using w by simp
qed

lemma split_loop_sum:
  assumes "IsUint64 reward" and "\<forall>v \<in> snd ` set vs. 0 \<le> v"
  shows "\<exists>out. split_loop reward (sum_list (map snd vs)) vs = Inr out \<and> map fst out = map fst vs \<and>
    (\<forall>v \<in> snd ` set out. 0 \<le> v) \<and> sum_list (map snd out) = (if 0 < sum_list (map snd vs) then reward else 0)"
  using assms
proof (induction vs arbitrary: reward)
  case (Cons kv vs)
  obtain k v where kv: "kv = (k, v)" by (cases kv)
  define w where "w = sum_list (map snd vs)"
  have v: "0 \<le> v" and w0: "0 \<le> w" using Cons.prems(2) kv by (auto simp: w_def intro!: sum_list_nonneg)
  have r: "0 \<le> reward" using Cons.prems(1) by (simp add: IsUint64_def)
  define sh where "sh = (if v > 0 then reward * v div (v + w) else 0)"
  have sh: "0 \<le> sh" "sh \<le> reward" "w = 0 \<Longrightarrow> 0 < v \<Longrightarrow> sh = reward"
    using share_bounds [of reward v "v + w"] r v w0 by (auto simp: sh_def)
  have div: "(if v > 0 then big_div (reward * v) (v + w) else Inr 0) = Inr sh" using w0 by (simp add: sh_def)
  have "IsUint64 (reward - sh)" and u: "IsUint64 sh" using Cons.prems(1) sh by (auto simp: IsUint64_def)
  have "\<forall>v \<in> snd ` set vs. 0 \<le> v" using Cons.prems(2) by simp
  from Cons.IH [OF \<open>IsUint64 (reward - sh)\<close> this] obtain out where out: "split_loop (reward - sh) w vs = Inr out"
    "map fst out = map fst vs" "\<forall>v \<in> snd ` set out. 0 \<le> v" "sum_list (map snd out) = (if 0 < w then reward - sh else 0)"
    unfolding w_def by blast
  show ?case
    using kv div out u sh v w0 by (auto simp: w_def [symmetric] intro!: exI [of _ "(k, sh) # out"] simp: sh_def split: if_splits)
qed simp

lemma by_key_props:
  "mset (by_key vs) = mset vs" "set (by_key vs) = set vs" "sum_list (map snd (by_key vs)) = sum_list (map snd vs)"
proof -
  show m: "mset (by_key vs) = mset vs" by (simp add: by_key_def)
  then show "set (by_key vs) = set vs" by (rule mset_eq_setD)
  from m have "mset (map snd (by_key vs)) = mset (map snd vs)" by simp
  then show "sum_list (map snd (by_key vs)) = sum_list (map snd vs)" by (metis sum_mset_sum_list)
qed

lemma insort_key_map: "(\<And>x. fst (g x) = fst x) \<Longrightarrow> insort_key fst (g x) (map g xs) = map g (insort_key fst x xs)"
  by (induction xs) auto

lemma by_key_map: "(\<And>x. fst (g x) = fst x) \<Longrightarrow> by_key (map g vs) = map g (by_key vs)"
  by (induction vs) (simp_all add: by_key_def insort_key_map)

lemma scaled_sum: "sum_list (map snd (map (\<lambda>(k, a). (k, a * c)) vs)) = sum_list (map snd vs) * (c :: int)"
  by (induction vs) (auto simp: algebra_simps)

text \<open>The trading reward is split without loss: the part of the pool and the parts of the order owners
  are non-negative, there is one part for every owner (in the order of the owners' identifiers), and as
  soon as anyone has made some volume they add up to exactly the reward; without any volume nothing is paid.\<close>

theorem trading_reward_split_exact:
  assumes "IsUint64 reward" and "0 < ratio" and "0 < bps" and "0 \<le> amm" and "\<forall>v \<in> snd ` set vs. 0 \<le> v"
  shows "\<exists>ammReward out. SplitTradingReward reward ratio bps amm vs = Inr (ammReward, out) \<and> 0 \<le> ammReward \<and>
    (\<forall>v \<in> snd ` set out. 0 \<le> v) \<and> map fst out = map fst (by_key vs) \<and>
    ammReward + sum_list (map snd out) = (if 0 < amm + sum_list (map snd vs) then reward else 0)"
proof -
  define ws where "ws = map (\<lambda>(k, a). (k, a * ratio)) vs"
  define W A where "W = sum_list (map snd ws)" and "A = amm * bps"
  have W: "W = sum_list (map snd vs) * ratio" unfolding W_def ws_def by (rule scaled_sum)
  have vs0: "0 \<le> sum_list (map snd vs)" using assms(5) by (intro sum_list_nonneg) auto
  have W0: "0 \<le> W" "0 < W \<longleftrightarrow> 0 < sum_list (map snd vs)" using W vs0 assms(2) by (auto simp: zero_less_mult_iff)
  have A0: "0 \<le> A" "0 < A \<longleftrightarrow> 0 < amm" using assms(3,4) by (auto simp: A_def zero_less_mult_iff)
  have r: "0 \<le> reward" using assms(1) by (simp add: IsUint64_def)
  define a where "a = (if A > 0 then reward * A div (A + W) else 0)"
  have a: "0 \<le> a" "a \<le> reward" "W = 0 \<Longrightarrow> 0 < A \<Longrightarrow> a = reward"
    using share_bounds [of reward A "A + W"] r A0(1) W0(1) by (auto simp: a_def)
  have div: "(if A > 0 then big_div (reward * A) (A + W) else Inr 0) = Inr a" using W0(1) by (simp add: a_def)
  have u: "IsUint64 (reward - a)" "IsUint64 a" using a assms(1) by (auto simp: IsUint64_def)
  have nn: "\<forall>v \<in> snd ` set (by_key ws). 0 \<le> v" using assms(2,5) by (auto simp: by_key_props ws_def)
  from split_loop_sum [OF u(1) nn] obtain out where out: "split_loop (reward - a) W (by_key ws) = Inr out"
    "map fst out = map fst (by_key ws)" "\<forall>v \<in> snd ` set out. 0 \<le> v"
    "sum_list (map snd out) = (if 0 < W then reward - a else 0)" by (auto simp: by_key_props W_def)
  have keys: "map fst (by_key ws) = map fst (by_key vs)"
    unfolding ws_def by (subst by_key_map) (auto simp: case_prod_beta)
  have eq: "SplitTradingReward reward ratio bps amm vs = Inr (a, out)"
    using assms(2) div out(1) u(2)
    by (simp add: SplitTradingReward_def ws_def [symmetric] W_def [symmetric] A_def [symmetric] Let_def split: if_splits)
  moreover have "a + sum_list (map snd out) = (if 0 < amm + sum_list (map snd vs) then reward else 0)"
    using out(4) W0 A0 a vs0 assms(4) by (auto simp: a_def)
  ultimately show ?thesis using a(1) out(2,3) keys by auto
qed

theorem trading_reward_split_exact_witness:
  "SplitTradingReward 100 3000 10000 7 [(''b'', 5), (''a'', 6)] = Inr (67, [(''a'', 18), (''b'', 15)])"
proof -
  have "SplitTradingReward 100 3000 10000 7 [(''b'', 5), (''a'', 6)] = Inr (67, [(''a'', 18), (''b'', 15)])"
    by (simp add: SplitTradingReward_def by_key_def to_uint64_def Let_def)
  then show ?thesis
    using trading_reward_split_exact [of 100 3000 10000 7 "[(''b'', 5), (''a'', 6)]"] by (simp add: IsUint64_def)
qed

text \<open>The liquidity-mining reward of the order owners is split without loss: every owner gets one
  non-negative part and the parts add up to the reward as soon as there is any volume.\<close>

theorem mining_reward_split_exact:
  assumes "IsUint64 amount" and "\<forall>v \<in> snd ` set volume. 0 \<le> v"
  shows "\<exists>out. SplitOrderRewardLiquidityMining volume amount = Inr out \<and> map fst out = map fst (by_key volume) \<and>
    (\<forall>v \<in> snd ` set out. 0 \<le> v) \<and> sum_list (map snd out) = (if 0 < sum_list (map snd volume) then amount else 0)"
proof -
  have "\<forall>v \<in> snd ` set (by_key volume). 0 \<le> v" using assms(2) by (simp add: by_key_props)
  from split_loop_sum [OF assms(1) this] show ?thesis by (simp add: SplitOrderRewardLiquidityMining_def by_key_props)
qed

theorem mining_reward_split_exact_witness:
  "SplitOrderRewardLiquidityMining [(''b'', 1), (''a'', 2)] 10 = Inr [(''a'', 6), (''b'', 4)]"
proof -
  have "SplitOrderRewardLiquidityMining [(''b'', 1), (''a'', 2)] 10 = Inr [(''a'', 6), (''b'', 4)]"
    by (simp add: SplitOrderRewardLiquidityMining_def by_key_def to_uint64_def)
  then show ?thesis using mining_reward_split_exact [of 10 "[(''b'', 1), (''a'', 2)]"] by (simp add: IsUint64_def)
qed

section \<open>Conservation of a fee\<close>

lemma percent_bounds:
  fixes a p :: int
  assumes "0 \<le> a" and "0 \<le> p" and "p \<le> 100"
  shows "0 \<le> a * p div 100" and "a * p div 100 \<le> a"
proof -
  show "0 \<le> a * p div 100" using assms by (simp add: pos_imp_zdiv_nonneg_iff)
  have "a * p div 100 \<le> a * 100 div 100" using assms by (intro zdiv_mono1 mult_left_mono) auto
  then show "a * p div 100 \<le> a" by simp
qed

lemma two_percents:
  fixes a p q :: int
  assumes "0 \<le> a" and "0 \<le> p" and "0 \<le> q" and "p + q \<le> 100"
  shows "a * p div 100 + a * q div 100 \<le> a" and "p + q = 100 \<Longrightarrow> a \<le> a * p div 100 + a * q div 100 + 1"
proof -
  have "a * (p + q) \<le> a * 100" using assms by (intro mult_left_mono) auto
  then have le: "a * p + a * q \<le> a * 100" by (simp add: distrib_left)
  show "a * p div 100 + a * q div 100 \<le> a" using le by linarith
  assume "p + q = 100"
  then have "a * (p + q) = a * 100" by simp
  then have "a * p + a * q = a * 100" by (simp add: distrib_left)
  then show "a \<le> a * p div 100 + a * q div 100 + 1" by linarith
qed

text \<open>Protocol and staking fees are taken from the reward without creating or losing anything: what is
  added to the two fee maps and what remains for the providers add up to the reward, the remainder is not
  negative, only the entries of the reward token change, and in a pool without shares at most one unit
  remains (none when the token is not a staking reward token).\<close>

theorem fees_are_conserved:
  assumes "IsUint64 amount" and "0 \<le> p" and "0 \<le> q" and "p + q \<le> 100"
    and "0 \<le> map_uint protocol token" and "map_uint protocol token + amount < 2 ^ 64"
    and "0 \<le> map_uint staking token" and "map_uint staking token + amount < 2 ^ 64"
    and "AddStakingAndProtocolFee tp token amount protocol staking p q rewardTokens = (protocol', staking', remain)"
  shows "map_uint protocol' token - map_uint protocol token + (map_uint staking' token - map_uint staking token) + remain = amount \<and>
    0 \<le> remain \<and> (\<forall>t. t \<noteq> token \<longrightarrow> map_of protocol' t = map_of protocol t \<and> map_of staking' t = map_of staking t) \<and>
    (ShareAmount tp = 0 \<longrightarrow> remain \<le> (if token \<in> set rewardTokens then 1 else 0))"
proof -
  obtain P Q where pq: "fee_percents tp (token \<in> set rewardTokens) p q = (P, Q)" by fastforce
  have PQ: "0 \<le> P \<and> 0 \<le> Q \<and> P + Q \<le> 100 \<and> (ShareAmount tp = 0 \<longrightarrow> P + Q = 100 \<and> (token \<notin> set rewardTokens \<longrightarrow> P = 100 \<and> Q = 0))"
    using pq assms(2,3,4) by (auto simp: fee_percents_def to_uint64_def Let_def split: if_splits)
  define F G where "F = amount * P div 100" and "G = amount * Q div 100"
  have a0: "0 \<le> amount" using assms(1) by (simp add: IsUint64_def)
  have res: "protocol' = add_fee token F protocol" "staking' = add_fee token G staking" "remain = amount - F - G"
    using assms(9) pq by (auto simp: AddStakingAndProtocolFee_def F_def G_def Let_def)
  have F: "0 \<le> F" "F \<le> amount" and G: "0 \<le> G" "G \<le> amount"
    using percent_bounds [of amount P] percent_bounds [of amount Q] a0 PQ by (auto simp: F_def G_def)
  have add: "map_uint (add_fee token x m) token = map_uint m token + x"
    if "0 \<le> x" "x \<le> amount" "0 \<le> map_uint m token" "map_uint m token + amount < 2 ^ 64" for x m
    using that assms(1) by (simp add: add_fee_def IsUint64_def to_uint64_def)
  have "F + G \<le> amount" "P + Q = 100 \<Longrightarrow> amount \<le> F + G + 1"
    using two_percents [of amount P Q] a0 PQ by (auto simp: F_def G_def)
  moreover have "P = 100 \<Longrightarrow> F = amount" by (simp add: F_def)
  ultimately show ?thesis
    using add [OF F assms(5,6)] add [OF G assms(7,8)] res PQ G(1) by (auto simp: add_fee_def split: if_splits)
qed

theorem fees_are_conserved_witness:
  "\<exists>P S. AddStakingAndProtocolFee toy_pool ''a'' 99 [] [] 10 5 [''a''] = (P, S, 86) \<and>
     map_uint P ''a'' + map_uint S ''a'' + 86 = 99"
proof -
  have "\<exists>P S. AddStakingAndProtocolFee toy_pool ''a'' 99 [] [] 10 5 [''a''] = (P, S, 86)"
    by (simp add: AddStakingAndProtocolFee_def fee_percents_def toy_pool_def)
  then obtain P S where "AddStakingAndProtocolFee toy_pool ''a'' 99 [] [] 10 5 [''a''] = (P, S, 86)" by blast
  with fees_are_conserved [OF _ _ _ _ _ _ _ _ this] show ?thesis by (auto simp: IsUint64_def map_uint_def)
qed

end
