(* ===== verification/Pdex_State.thy ===== *)
theory Pdex_State
  imports Pdex_Rewards
begin

text \<open>
  The state of the exchange: \<^verbatim>\<open>pool_pair_state.go\<close>, \<^verbatim>\<open>staking_pool_state.go\<close>, \<^verbatim>\<open>state_v2_utils.go\<close> and the amounts of
  \<^verbatim>\<open>utils.go\<close> in \<^verbatim>\<open>src/blockchain/pdex\<close>. A pool pair holds the pool, the shares of the providers, the
  order book and the accumulated fees per share; a staking pool holds its stakers and the accumulated rewards per
  share. A Go map is an association list, read by \<open>map_of\<close>; a hash is the string that \<^verbatim>\<open>String\<close> returns. Amounts are
  \<^verbatim>\<open>uint64\<close> values as in \<open>Pdex_Pool\<close>, with the wrap-around written out. A function that returns an error returns no
  state: its callers work on clones. Cloning is the value itself; JSON is left out.
\<close>

section \<open>Hashes from strings (hash.go)\<close>

definition is_hex :: "char \<Rightarrow> bool" where
  "is_hex c \<longleftrightarrow> c \<in> set ''0123456789abcdefABCDEF''"

definition hex_lower :: "char \<Rightarrow> char" where
  "hex_lower c = (if c = CHR ''A'' then CHR ''a'' else if c = CHR ''B'' then CHR ''b'' else if c = CHR ''C'' then CHR ''c''
     else if c = CHR ''D'' then CHR ''d'' else if c = CHR ''E'' then CHR ''e'' else if c = CHR ''F'' then CHR ''f'' else c)"

text \<open>\<^verbatim>\<open>NewHashFromStr\<close> followed by \<^verbatim>\<open>String\<close>: missing characters are leading zeros.\<close>

definition HashFromStr :: "string \<Rightarrow> string option" where
  "HashFromStr s = (if length s > 64 \<or> \<not> list_all is_hex s then None
     else Some (replicate (64 - length s) CHR ''0'' @ map hex_lower s))"

section \<open>Amounts (utils.go)\<close>

definition BaseLPFeesPerShare :: int where "BaseLPFeesPerShare = 10 ^ 18"
definition BaseAmplifier :: nat where "BaseAmplifier = 10000"
definition addOperator :: nat where "addOperator = 0"
definition subOperator :: nat where "subOperator = 1"

definition executeOperationUint64 :: "int \<Rightarrow> int \<Rightarrow> nat \<Rightarrow> int go" where
  "executeOperationUint64 amount0 amount1 operator =
     (if operator = addOperator
      then let temp = to_uint64 (amount0 + amount1) in
        if temp < amount0 then Inl (GoErr ''operation is out of range'') else Inr temp
      else if operator = subOperator
      then let temp = to_uint64 (amount0 - amount1) in
        if temp > amount0 then Inl (GoErr ''operation is out of range'') else Inr temp
      else Inl (GoErr ''Not recognize operator''))"

definition executeOperationBigInt :: "int \<Rightarrow> int \<Rightarrow> nat \<Rightarrow> int go" where
  "executeOperationBigInt amount0 amount1 operator =
     (if operator = addOperator then Inr (amount0 + amount1)
      else if operator = subOperator then Inr (amount0 - amount1)
      else Inl (GoErr ''Not recognize operator''))"

definition calculateVirtualAmount :: "int \<Rightarrow> int \<Rightarrow> nat \<Rightarrow> int \<times> int" where
  "calculateVirtualAmount amount0 amount1 amplifier =
     (if amplifier = BaseAmplifier then (amount0, amount1)
      else (amount0 * int amplifier div int BaseAmplifier, amount1 * int amplifier div int BaseAmplifier))"

definition CalculateShareAmount :: "int \<Rightarrow> int \<Rightarrow> int \<Rightarrow> int \<Rightarrow> int \<Rightarrow> int go" where
  "CalculateShareAmount token0Amount token1Amount amount0 amount1 poolPairShareAmount =
     go_bind (big_div (amount0 * poolPairShareAmount) token0Amount) (\<lambda>liquidityToken0.
     go_bind (big_div (amount1 * poolPairShareAmount) token1Amount) (\<lambda>liquidityToken1.
       Inr (if to_uint64 liquidityToken0 < to_uint64 liquidityToken1 then to_uint64 liquidityToken0 else to_uint64 liquidityToken1)))"

definition resetKeyValueToZero :: "amounts \<Rightarrow> amounts" where
  "resetKeyValueToZero m = map (\<lambda>(k, _). (k, 0)) m"

definition getMapWithoutZeroValue :: "amounts \<Rightarrow> amounts" where
  "getMapWithoutZeroValue m = filter (\<lambda>(_, v). v \<noteq> 0) m"

definition CombineReward :: "amounts \<Rightarrow> amounts \<Rightarrow> amounts" where
  "CombineReward reward1 reward2 =
     getMapWithoutZeroValue (foldl (\<lambda>result (k, v).
       if map_of result k \<noteq> None then al_put k (to_uint64 (v + map_uint result k)) result else al_put k v result) reward1 reward2)"

section \<open>Shares, stakers, pools\<close>

record Share =
  sh_amount :: int
  sh_lmLockedAmount :: int
  sh_tradingFees :: amounts
  sh_lastLPFeesPerShare :: amounts
  sh_lastLmRewardsPerShare :: amounts

definition NewShare :: Share where
  "NewShare = \<lparr>sh_amount = 0, sh_lmLockedAmount = 0, sh_tradingFees = [], sh_lastLPFeesPerShare = [], sh_lastLmRewardsPerShare = []\<rparr>"

record Staker =
  st_liquidity :: int
  st_rewards :: amounts
  st_lastRewardsPerShare :: amounts

record OrderReward =
  uncollectedRewards :: amounts

record MakingVolume =
  volume :: amounts

record PoolPairState =
  pp_makingVolume :: "(string \<times> MakingVolume) list"
  pp_state :: Pdexv3PoolPair
  pp_shares :: "(string \<times> Share) list"
  pp_orderRewards :: "(string \<times> OrderReward) list"
  pp_orderbook :: Orderbook
  pp_lpFeesPerShare :: amounts
  pp_lmRewardsPerShare :: amounts
  pp_protocolFees :: amounts
  pp_stakingPoolFees :: amounts
  pp_lmLockedShare :: "(string \<times> (int \<times> int) list) list"

record StakingPoolState =
  sp_liquidity :: int
  sp_stakers :: "(string \<times> Staker) list"
  sp_rewardsPerShare :: amounts

definition NewStakingPoolState :: StakingPoolState where
  "NewStakingPoolState = \<lparr>sp_liquidity = 0, sp_stakers = [], sp_rewardsPerShare = []\<rparr>"

record Pdexv3Contribution =
  co_poolPairID :: string
  co_otaReceiver :: string
  co_tokenID :: string
  co_amount :: int
  co_amplifier :: nat
  co_txReqID :: string
  co_nftID :: string
  co_shardID :: nat

text \<open>Owners of orders: \<^verbatim>\<open>AddReward\<close>, \<^verbatim>\<open>AddVolume\<close> and the additions of a trade.\<close>

definition OrderReward_AddReward :: "string \<Rightarrow> int \<Rightarrow> OrderReward \<Rightarrow> OrderReward" where
  "OrderReward_AddReward tokenID amount r =
     r\<lparr>uncollectedRewards := al_put tokenID (to_uint64 (map_uint (uncollectedRewards r) tokenID + amount)) (uncollectedRewards r)\<rparr>"

definition AddVolume :: "string \<Rightarrow> int \<Rightarrow> MakingVolume \<Rightarrow> MakingVolume" where
  "AddVolume nftID amount m = m\<lparr>volume := al_put nftID (map_uint (volume m) nftID + amount) (volume m)\<rparr>"

definition addOrderReward :: "(string \<times> OrderReward) list \<Rightarrow> (string \<times> amounts) list \<Rightarrow> (string \<times> OrderReward) list" where
  "addOrderReward base additional =
     foldl (\<lambda>b (nftID, reward). foldl (\<lambda>b (tokenID, amt).
       al_put nftID (OrderReward_AddReward tokenID amt (case map_of b nftID of None \<Rightarrow> \<lparr>uncollectedRewards = []\<rparr> | Some r \<Rightarrow> r)) b) b reward)
     base additional"

definition addMakingVolume :: "(string \<times> MakingVolume) list \<Rightarrow> (string \<times> amounts) list \<Rightarrow> (string \<times> MakingVolume) list" where
  "addMakingVolume base additional =
     foldl (\<lambda>b (tokenID, vol). foldl (\<lambda>b (nftID, amt).
       al_put tokenID (AddVolume nftID amt (case map_of b tokenID of None \<Rightarrow> \<lparr>volume = []\<rparr> | Some m \<Rightarrow> m)) b) b vol)
     base additional"

section \<open>Rewards per share\<close>

text \<open>What a holder has earned of one token since its last update, added to what it had.\<close>

definition accrued :: "int \<Rightarrow> int \<Rightarrow> int \<Rightarrow> int \<Rightarrow> int go" where
  "accrued newFees oldFees amount tradingFee =
     (let reward = (newFees - oldFees) * amount div BaseLPFeesPerShare + tradingFee in
      if \<not> IsUint64 reward then Inl (GoErr ''Reward of token is out of range'') else Inr reward)"

text \<open>One token of the loops of \<^verbatim>\<open>RecomputeLPRewards\<close>: zero rewards are not written.\<close>

definition lp_reward_step :: "amounts \<Rightarrow> int \<Rightarrow> amounts \<Rightarrow> string \<times> int \<Rightarrow> amounts go" where
  "lp_reward_step oldFees amount result = (\<lambda>(tokenID, newFees).
     go_bind (accrued newFees (map_uint oldFees tokenID) amount (map_uint result tokenID)) (\<lambda>reward.
       Inr (if reward > 0 then al_put tokenID reward result else result)))"

definition RecomputeLPRewards :: "string \<Rightarrow> PoolPairState \<Rightarrow> amounts go" where
  "RecomputeLPRewards nftID p =
     (case map_of (pp_shares p) nftID of None \<Rightarrow> Inl (GoErr ''Share not found'')
      | Some sh \<Rightarrow>
        go_bind (go_foldl (lp_reward_step (sh_lastLPFeesPerShare sh) (sh_amount sh)) (sh_tradingFees sh) (pp_lpFeesPerShare p)) (\<lambda>result.
          go_foldl (lp_reward_step (sh_lastLmRewardsPerShare sh) (to_uint64 (sh_amount sh - sh_lmLockedAmount sh))) result
            (pp_lmRewardsPerShare p)))"

text \<open>The loop of \<^verbatim>\<open>RecomputeStakingRewards\<close>, which starts from an empty map and reads the old rewards of the staker.\<close>

definition staking_reward_step :: "Staker \<Rightarrow> amounts \<Rightarrow> string \<times> int \<Rightarrow> amounts go" where
  "staking_reward_step staker result = (\<lambda>(tokenID, newFees).
     go_bind (accrued newFees (map_uint (st_lastRewardsPerShare staker) tokenID) (st_liquidity staker) (map_uint (st_rewards staker) tokenID)) (\<lambda>reward.
       Inr (if reward > 0 then al_put tokenID reward result else result)))"

definition RecomputeStakingRewards :: "string \<Rightarrow> StakingPoolState \<Rightarrow> amounts go" where
  "RecomputeStakingRewards nftID s =
     (case map_of (sp_stakers s) nftID of None \<Rightarrow> Inl (GoErr ''Stakers not found'')
      | Some staker \<Rightarrow> go_foldl (staking_reward_step staker) [] (sp_rewardsPerShare s))"

section \<open>The staking pool\<close>

definition StakingPool_AddReward :: "string \<Rightarrow> int \<Rightarrow> StakingPoolState \<Rightarrow> StakingPoolState" where
  "StakingPool_AddReward tokenID amount s =
     (if sp_liquidity s = 0 then s
      else s\<lparr>sp_rewardsPerShare := al_put tokenID
        (map_uint (sp_rewardsPerShare s) tokenID + amount * BaseLPFeesPerShare div sp_liquidity s) (sp_rewardsPerShare s)\<rparr>)"

text \<open>The change of the pool's own liquidity at the end of \<^verbatim>\<open>updateLiquidity\<close>; other operators leave zero.\<close>

definition pool_liquidity :: "int \<Rightarrow> int \<Rightarrow> nat \<Rightarrow> int go" where
  "pool_liquidity current liquidity operator =
     (if operator = subOperator
      then let temp = to_uint64 (current - liquidity) in
        if temp \<ge> current then Inl (GoErr ''Staking pool liquidity is out of range'') else Inr temp
      else if operator = addOperator
      then let temp = to_uint64 (current + liquidity) in
        if temp < current then Inl (GoErr ''Staking pool liquidity is out of range'') else Inr temp
      else Inr 0)"

definition updateLiquidity :: "string \<Rightarrow> int \<Rightarrow> nat \<Rightarrow> StakingPoolState \<Rightarrow> StakingPoolState go" where
  "updateLiquidity nftID liquidity operator s =
     go_bind (case map_of (sp_stakers s) nftID of
        None \<Rightarrow>
          if operator = subOperator then Inl (GoErr ''remove liquidity from invalid staker'')
          else Inr \<lparr>st_liquidity = liquidity, st_rewards = [], st_lastRewardsPerShare = sp_rewardsPerShare s\<rparr>
      | Some staker \<Rightarrow>
          go_bind (executeOperationUint64 (st_liquidity staker) liquidity operator) (\<lambda>tempLiquidity.
          case HashFromStr nftID of None \<Rightarrow> Inl (GoErr ''Invalid nftID'')
          | Some nftIDHash \<Rightarrow>
            go_bind (RecomputeStakingRewards nftIDHash s) (\<lambda>rewards.
              Inr \<lparr>st_liquidity = tempLiquidity, st_rewards = rewards, st_lastRewardsPerShare = sp_rewardsPerShare s\<rparr>)))
     (\<lambda>staker. go_bind (pool_liquidity (sp_liquidity s) liquidity operator) (\<lambda>temp.
        Inr (s\<lparr>sp_stakers := al_put nftID staker (sp_stakers s), sp_liquidity := temp\<rparr>)))"

section \<open>The pool pair\<close>

definition isEmpty :: "PoolPairState \<Rightarrow> bool" where
  "isEmpty p \<longleftrightarrow> Token0RealAmount (pp_state p) = 0 \<or> Token1RealAmount (pp_state p) = 0 \<or>
     Token0VirtualAmount (pp_state p) \<le> 0 \<or> Token1VirtualAmount (pp_state p) \<le> 0 \<or> ShareAmount (pp_state p) = 0"

definition initPoolPairState :: "Pdexv3Contribution \<Rightarrow> Pdexv3Contribution \<Rightarrow> PoolPairState" where
  "initPoolPairState contribution0 contribution1 =
     (let (c0, c1) = (if co_tokenID contribution1 < co_tokenID contribution0 then (contribution1, contribution0)
        else (contribution0, contribution1));
          (v0, v1) = calculateVirtualAmount (co_amount c0) (co_amount c1) (co_amplifier c0) in
      \<lparr>pp_makingVolume = [],
       pp_state = \<lparr>Token0ID = co_tokenID c0, Token1ID = co_tokenID c1, ShareAmount = 0, LmLockedShareAmount = 0,
         Token0RealAmount = co_amount c0, Token1RealAmount = co_amount c1, Token0VirtualAmount = v0, Token1VirtualAmount = v1,
         Amplifier = co_amplifier c0\<rparr>,
       pp_shares = [], pp_orderRewards = [], pp_orderbook = [], pp_lpFeesPerShare = [], pp_lmRewardsPerShare = [],
       pp_protocolFees = [], pp_stakingPoolFees = [], pp_lmLockedShare = []\<rparr>)"

definition getContributionsByOrder ::
    "PoolPairState \<Rightarrow> Pdexv3Contribution \<Rightarrow> Pdexv3Contribution \<Rightarrow> Pdexv3Contribution \<times> Pdexv3Contribution" where
  "getContributionsByOrder p contribution0 contribution1 =
     (if co_tokenID contribution0 = Token0ID (pp_state p) then (contribution0, contribution1) else (contribution1, contribution0))"

text \<open>The contributed and the returned amounts of both tokens.\<close>

definition computeActualContributedAmounts :: "PoolPairState \<Rightarrow> Pdexv3Contribution \<Rightarrow> Pdexv3Contribution \<Rightarrow> (int \<times> int \<times> int \<times> int) go" where
  "computeActualContributedAmounts p contribution0 contribution1 =
     (if isEmpty p then Inl (GoErr ''Pool is invalid to contribute'')
      else
        go_bind (big_div (co_amount contribution1 * Token0RealAmount (pp_state p)) (Token1RealAmount (pp_state p))) (\<lambda>tempAmt.
        let contribution0Amount = (if tempAmt > co_amount contribution0 then co_amount contribution0 else tempAmt) in
        go_bind (big_div (contribution0Amount * Token1RealAmount (pp_state p)) (Token0RealAmount (pp_state p))) (\<lambda>contribution1Amount.
        if \<not> IsUint64 contribution0Amount \<or> \<not> IsUint64 contribution1Amount then Inl (GoErr ''contributed amount is not uint64'')
        else Inr (contribution0Amount, to_uint64 (co_amount contribution0 - contribution0Amount),
                  contribution1Amount, to_uint64 (co_amount contribution1 - contribution1Amount)))))"

text \<open>The new reserves of one token: an amplified pool scales the virtual reserve with the shares. The source drops the error of the last
  operation, which cannot occur: the same operator was accepted twice before.\<close>

definition new_reserves :: "Pdexv3PoolPair \<Rightarrow> int \<Rightarrow> int \<Rightarrow> int \<Rightarrow> int \<Rightarrow> nat \<Rightarrow> (int \<times> int) go" where
  "new_reserves tp realAmount virtualAmount amount shareAmount operator =
     go_bind (executeOperationUint64 (ShareAmount tp) shareAmount operator) (\<lambda>tempShareAmount.
     go_bind (executeOperationUint64 realAmount amount operator) (\<lambda>newRealAmount.
     if Amplifier tp \<noteq> BaseAmplifier
     then go_bind (big_div (virtualAmount * tempShareAmount) (ShareAmount tp)) (\<lambda>tempVirtualAmount.
       Inr (newRealAmount, if tempVirtualAmount > newRealAmount then tempVirtualAmount else newRealAmount))
     else go_bind (executeOperationBigInt virtualAmount amount operator) (\<lambda>newVirtualAmount. Inr (newRealAmount, newVirtualAmount))))"

definition updateSingleTokenAmount :: "string \<Rightarrow> int \<Rightarrow> int \<Rightarrow> nat \<Rightarrow> Pdexv3PoolPair \<Rightarrow> Pdexv3PoolPair go" where
  "updateSingleTokenAmount tokenID amount shareAmount operator tp =
     (if tokenID = Token0ID tp
      then go_bind (new_reserves tp (Token0RealAmount tp) (Token0VirtualAmount tp) amount shareAmount operator) (\<lambda>(r, v).
        Inr (tp\<lparr>Token0RealAmount := r, Token0VirtualAmount := v\<rparr>))
      else if tokenID = Token1ID tp
      then go_bind (new_reserves tp (Token1RealAmount tp) (Token1VirtualAmount tp) amount shareAmount operator) (\<lambda>(r, v).
        Inr (tp\<lparr>Token1RealAmount := r, Token1VirtualAmount := v\<rparr>))
      else Inl (GoErr ''Can't find tokenID''))"

definition updateReserveData :: "int \<Rightarrow> int \<Rightarrow> int \<Rightarrow> nat \<Rightarrow> Pdexv3PoolPair \<Rightarrow> Pdexv3PoolPair go" where
  "updateReserveData amount0 amount1 shareAmount operator tp =
     go_bind (updateSingleTokenAmount (Token0ID tp) amount0 shareAmount operator tp) (\<lambda>tp1.
       updateSingleTokenAmount (Token1ID tp1) amount1 shareAmount operator tp1)"

definition calculateShareAmount :: "PoolPairState \<Rightarrow> int \<Rightarrow> int \<Rightarrow> int go" where
  "calculateShareAmount p amount0 amount1 =
     CalculateShareAmount (Token0RealAmount (pp_state p)) (Token1RealAmount (pp_state p)) amount0 amount1 (ShareAmount (pp_state p))"

definition addReserveDataAndCalculateShare :: "string \<Rightarrow> string \<Rightarrow> int \<Rightarrow> int \<Rightarrow> PoolPairState \<Rightarrow> (int \<times> PoolPairState) go" where
  "addReserveDataAndCalculateShare token0ID token1ID token0Amount token1Amount p =
     (let (amount0, amount1) = (if token0ID < token1ID then (token0Amount, token1Amount) else (token1Amount, token0Amount)) in
      go_bind (calculateShareAmount p amount0 amount1) (\<lambda>shareAmount.
      go_bind (updateReserveData amount0 amount1 shareAmount addOperator (pp_state p)) (\<lambda>tp.
        Inr (shareAmount, p\<lparr>pp_state := tp\<rparr>))))"

definition addLmLockedShare :: "string \<Rightarrow> int \<Rightarrow> int \<Rightarrow> PoolPairState \<Rightarrow> PoolPairState" where
  "addLmLockedShare shareID beaconHeight amount p =
     (let rec = (case map_of (pp_lmLockedShare p) shareID of None \<Rightarrow> [] | Some r \<Rightarrow> r);
          new = (case map_of rec beaconHeight of None \<Rightarrow> amount | Some a \<Rightarrow> to_uint64 (a + amount)) in
      p\<lparr>pp_lmLockedShare := al_put shareID (al_put beaconHeight new rec) (pp_lmLockedShare p)\<rparr>)"

text \<open>The share a holder starts from: a new one, or the old one with its rewards brought up to date.\<close>

definition current_share :: "string \<Rightarrow> nat \<Rightarrow> PoolPairState \<Rightarrow> Share go" where
  "current_share nftID operator p =
     (case map_of (pp_shares p) nftID of
        None \<Rightarrow> if operator = subOperator then Inl (GoErr ''Deduct nil share amount'') else Inr NewShare
      | Some share \<Rightarrow>
          (case HashFromStr nftID of None \<Rightarrow> Inl (GoErr ''Invalid nftID'')
           | Some nftIDBytes \<Rightarrow> go_bind (RecomputeLPRewards nftIDBytes p) (\<lambda>fees. Inr (share\<lparr>sh_tradingFees := fees\<rparr>))))"

definition updateShareValue :: "int \<Rightarrow> string \<Rightarrow> nat \<Rightarrow> int \<Rightarrow> int \<Rightarrow> PoolPairState \<Rightarrow> PoolPairState go" where
  "updateShareValue shareAmount nftID operator beaconHeight lmLockedBlocks p =
     go_bind (current_share nftID operator p) (\<lambda>share0.
     go_bind (executeOperationUint64 (sh_amount share0) shareAmount operator) (\<lambda>amount.
     go_bind (executeOperationUint64 (ShareAmount (pp_state p)) shareAmount operator) (\<lambda>poolPairShareAmount.
     let share = share0\<lparr>sh_lastLPFeesPerShare := pp_lpFeesPerShare p, sh_lastLmRewardsPerShare := pp_lmRewardsPerShare p, sh_amount := amount\<rparr>;
         p1 = p\<lparr>pp_state := (pp_state p)\<lparr>ShareAmount := poolPairShareAmount\<rparr>\<rparr> in
     if operator = addOperator \<and> lmLockedBlocks > 0
     then go_bind (executeOperationUint64 (sh_lmLockedAmount share) shareAmount operator) (\<lambda>locked.
       go_bind (executeOperationUint64 (LmLockedShareAmount (pp_state p)) shareAmount operator) (\<lambda>poolLocked.
       let p2 = addLmLockedShare nftID beaconHeight shareAmount (p1\<lparr>pp_state := (pp_state p1)\<lparr>LmLockedShareAmount := poolLocked\<rparr>\<rparr>) in
       Inr (p2\<lparr>pp_shares := al_put nftID (share\<lparr>sh_lmLockedAmount := locked\<rparr>) (pp_shares p2)\<rparr>)))
     else if operator = subOperator
     then let releaseAmount = (if sh_lmLockedAmount share > shareAmount then shareAmount else sh_lmLockedAmount share) in
       go_bind (executeOperationUint64 (sh_lmLockedAmount share) releaseAmount operator) (\<lambda>locked.
       go_bind (executeOperationUint64 (LmLockedShareAmount (pp_state p)) releaseAmount operator) (\<lambda>poolLocked.
       Inr (p1\<lparr>pp_state := (pp_state p1)\<lparr>LmLockedShareAmount := poolLocked\<rparr>,
               pp_shares := al_put nftID (share\<lparr>sh_lmLockedAmount := locked\<rparr>) (pp_shares p1)\<rparr>)))
     else Inr (p1\<lparr>pp_shares := al_put nftID share (pp_shares p1)\<rparr>))))"

definition addShare :: "string \<Rightarrow> int \<Rightarrow> int \<Rightarrow> int \<Rightarrow> PoolPairState \<Rightarrow> PoolPairState go" where
  "addShare nftID amount beaconHeight lmLockedBlocks p = updateShareValue amount nftID addOperator beaconHeight lmLockedBlocks p"

text \<open>The amounts paid for the share, the deducted share and the new state; a holder without a share is a nil
  dereference.\<close>

definition deductShare :: "string \<Rightarrow> int \<Rightarrow> PoolPairState \<Rightarrow> (int \<times> int \<times> int \<times> PoolPairState) go" where
  "deductShare nftID shareAmount p =
     (case map_of (pp_shares p) nftID of None \<Rightarrow> Inl (if shareAmount = 0 then GoErr ''shareAmount = 0 or share.amount = 0'' else GoPanic)
      | Some share \<Rightarrow>
        if shareAmount = 0 \<or> sh_amount share = 0 then Inl (GoErr ''shareAmount = 0 or share.amount = 0'')
        else
          let tempShareAmount = (if sh_amount share < shareAmount then sh_amount share else shareAmount); tp = pp_state p in
          go_bind (big_div (Token0RealAmount tp * tempShareAmount) (ShareAmount tp)) (\<lambda>token0Amount.
          go_bind (big_div (Token1RealAmount tp * tempShareAmount) (ShareAmount tp)) (\<lambda>token1Amount.
          go_bind (updateReserveData (to_uint64 token0Amount) (to_uint64 token1Amount) tempShareAmount subOperator tp) (\<lambda>tp1.
          go_bind (updateShareValue tempShareAmount nftID subOperator 0 0 (p\<lparr>pp_state := tp1\<rparr>)) (\<lambda>p1.
            Inr (to_uint64 token0Amount, to_uint64 token1Amount, tempShareAmount, p1))))))"

section \<open>Unlocking shares for liquidity mining\<close>

text \<open>One locked height of a share, and one share of a pool; \<^verbatim>\<open>range\<close> visits the entries the map has at its start.\<close>

definition unlock_height_step :: "int \<Rightarrow> int \<Rightarrow> string \<Rightarrow> PoolPairState \<Rightarrow> int \<times> int \<Rightarrow> PoolPairState go" where
  "unlock_height_step pendingBlocks beaconHeight shareID p = (\<lambda>(lockedHeight, lockedAmount).
     if to_uint64 (lockedHeight + pendingBlocks) < beaconHeight
     then (case map_of (pp_shares p) shareID of None \<Rightarrow> Inl GoPanic
       | Some share \<Rightarrow>
         let p0 = p\<lparr>pp_lmLockedShare := al_upd shareID (al_del lockedHeight) (pp_lmLockedShare p)\<rparr>;
             releaseAmount = (if lockedAmount > sh_lmLockedAmount share then sh_lmLockedAmount share else lockedAmount) in
         (case HashFromStr shareID of None \<Rightarrow> Inl (GoErr ''Invalid shareID'')
          | Some shareIDBytes \<Rightarrow>
            go_bind (RecomputeLPRewards shareIDBytes p0) (\<lambda>fees.
            go_bind (executeOperationUint64 (sh_lmLockedAmount share) releaseAmount subOperator) (\<lambda>locked.
            go_bind (executeOperationUint64 (LmLockedShareAmount (pp_state p0)) releaseAmount subOperator) (\<lambda>poolLocked.
              Inr (p0\<lparr>pp_state := (pp_state p0)\<lparr>LmLockedShareAmount := poolLocked\<rparr>,
                pp_shares := al_put shareID (share\<lparr>sh_tradingFees := fees, sh_lastLPFeesPerShare := pp_lpFeesPerShare p0,
                  sh_lastLmRewardsPerShare := pp_lmRewardsPerShare p0, sh_lmLockedAmount := locked\<rparr>) (pp_shares p0)\<rparr>))))))
     else Inr p)"

definition unlock_share_step :: "int \<Rightarrow> int \<Rightarrow> PoolPairState \<Rightarrow> string \<times> (int \<times> int) list \<Rightarrow> PoolPairState go" where
  "unlock_share_step pendingBlocks beaconHeight p = (\<lambda>(shareID, lockedRecord).
     if map_of (pp_shares p) shareID = None then Inr (p\<lparr>pp_lmLockedShare := al_del shareID (pp_lmLockedShare p)\<rparr>)
     else go_foldl (unlock_height_step pendingBlocks beaconHeight shareID) p lockedRecord)"

definition unlock_pool :: "int \<Rightarrow> int \<Rightarrow> PoolPairState \<Rightarrow> PoolPairState go" where
  "unlock_pool pendingBlocks beaconHeight p = go_foldl (unlock_share_step pendingBlocks beaconHeight) p (pp_lmLockedShare p)"

definition unlockLmLockedShareAmount :: "int \<Rightarrow> int \<Rightarrow> (string \<times> PoolPairState) list \<Rightarrow> (string \<times> PoolPairState) list go" where
  "unlockLmLockedShareAmount pendingBlocks beaconHeight pairs =
     go_map (\<lambda>(poolPairID, p). go_bind (unlock_pool pendingBlocks beaconHeight p) (\<lambda>p'. Inr (poolPairID, p'))) pairs"

section \<open>Arithmetic of the operations\<close>

lemmas operators = addOperator_def subOperator_def

lemma to_uint64_wrap:
  "IsUint64 a \<Longrightarrow> IsUint64 b \<Longrightarrow> to_uint64 (a + b) = (if a + b < 2 ^ 64 then a + b else a + b - 2 ^ 64)"
  "IsUint64 a \<Longrightarrow> IsUint64 b \<Longrightarrow> to_uint64 (a - b) = (if b \<le> a then a - b else a - b + 2 ^ 64)"
  unfolding to_uint64_def IsUint64_def
  using minus_mod_self2 [of "a + b" "2 ^ 64"] mod_add_self2 [of "a - b" "2 ^ 64"] by (auto simp del: mod_add_self2 minus_mod_self2)

lemma execute_add [simp]:
  assumes "IsUint64 a" and "IsUint64 b"
  shows "executeOperationUint64 a b addOperator = (if a + b < 2 ^ 64 then Inr (a + b) else Inl (GoErr ''operation is out of range''))"
  using assms to_uint64_wrap(1) [OF assms] by (auto simp: executeOperationUint64_def IsUint64_def)

lemma execute_sub [simp]:
  assumes "IsUint64 a" and "IsUint64 b"
  shows "executeOperationUint64 a b subOperator = (if b \<le> a then Inr (a - b) else Inl (GoErr ''operation is out of range''))"
  using assms to_uint64_wrap(2) [OF assms] by (auto simp: executeOperationUint64_def IsUint64_def operators)

lemma liquidity_add [simp]:
  assumes "IsUint64 a" and "IsUint64 b"
  shows "pool_liquidity a b addOperator = (if a + b < 2 ^ 64 then Inr (a + b) else Inl (GoErr ''Staking pool liquidity is out of range''))"
  using assms to_uint64_wrap(1) [OF assms] by (auto simp: pool_liquidity_def IsUint64_def operators)

lemma liquidity_sub [simp]:
  assumes "IsUint64 a" and "IsUint64 b"
  shows "pool_liquidity a b subOperator = (if 0 < b \<and> b \<le> a then Inr (a - b) else Inl (GoErr ''Staking pool liquidity is out of range''))"
  using assms to_uint64_wrap(2) [OF assms] by (auto simp: pool_liquidity_def IsUint64_def)

lemma accrued_eq_Inr: "accrued new old amount fee = Inr r \<longleftrightarrow> r = (new - old) * amount div BaseLPFeesPerShare + fee \<and> IsUint64 r"
  by (auto simp: accrued_def Let_def)

lemma Base_pos [simp]: "0 < BaseLPFeesPerShare"
  by (simp add: BaseLPFeesPerShare_def)

text \<open>Rounding down never gives more than was accumulated.\<close>

lemma scaled_div_le: "0 < (d::int) \<Longrightarrow> d * (x div d) \<le> x"
  using pos_mod_sign [of d x] mult_div_mod_eq [of d x] by linarith

lemma accrued_bound: "accrued new old amount fee = Inr r \<Longrightarrow> BaseLPFeesPerShare * r \<le> (new - old) * amount + BaseLPFeesPerShare * fee"
  by (auto simp: accrued_eq_Inr distrib_left scaled_div_le)

text \<open>The loop of the staking rewards: every token of the pool gets what was accrued, other tokens get nothing.\<close>

definition staker_reward :: "Staker \<Rightarrow> string \<Rightarrow> int \<Rightarrow> int" where
  "staker_reward st t new = (new - map_uint (st_lastRewardsPerShare st) t) * st_liquidity st div BaseLPFeesPerShare + map_uint (st_rewards st) t"

lemma staking_reward_step_eq:
  "staking_reward_step st acc (t, new) =
     (if IsUint64 (staker_reward st t new)
      then Inr (if 0 < staker_reward st t new then al_put t (staker_reward st t new) acc else acc)
      else Inl (GoErr ''Reward of token is out of range''))"
  by (simp add: staking_reward_step_def accrued_def staker_reward_def Let_def)

lemma staking_loop_range:
  "go_foldl (staking_reward_step st) acc R = Inr res \<Longrightarrow> (t, new) \<in> set R \<Longrightarrow> IsUint64 (staker_reward st t new)"
proof (induction R arbitrary: acc)
  case (Cons x R)
  obtain u v where x: "x = (u, v)" by fastforce
  show ?case using Cons.prems Cons.IH by (auto simp: x staking_reward_step_eq split: if_splits)
qed simp

lemma staking_loop:
  assumes "distinct (map fst R)" and "distinct (map fst acc)" and "\<forall>(t, new) \<in> set R. IsUint64 (staker_reward st t new)"
  shows "\<exists>res. go_foldl (staking_reward_step st) acc R = Inr res \<and> distinct (map fst res) \<and>
      (\<forall>t. map_of res t = (case map_of R t of None \<Rightarrow> map_of acc t
         | Some new \<Rightarrow> if 0 < staker_reward st t new then Some (staker_reward st t new) else map_of acc t))"
  using assms
proof (induction R arbitrary: acc)
  case (Cons x R)
  obtain t new where x: "x = (t, new)" by fastforce
  let ?acc = "if 0 < staker_reward st t new then al_put t (staker_reward st t new) acc else acc"
  have t: "map_of R t = None" and d: "distinct (map fst R)" "distinct (map fst ?acc)" "\<forall>(t, new) \<in> set R. IsUint64 (staker_reward st t new)"
    using Cons.prems x by (auto simp: map_of_eq_None_iff)
  from Cons.IH [OF d] obtain res where res: "go_foldl (staking_reward_step st) ?acc R = Inr res" "distinct (map fst res)"
    "\<And>t. map_of res t = (case map_of R t of None \<Rightarrow> map_of ?acc t
       | Some new \<Rightarrow> if 0 < staker_reward st t new then Some (staker_reward st t new) else map_of ?acc t)" by blast
  have "map_of res u = (case map_of (x # R) u of None \<Rightarrow> map_of acc u
       | Some new \<Rightarrow> if 0 < staker_reward st u new then Some (staker_reward st u new) else map_of acc u)" for u
    using t res(3) [of u] by (cases "u = t") (auto simp: x split: option.splits)
  then show ?case using res Cons.prems(3) by (auto simp: x staking_reward_step_eq)
qed auto

end
