(* ===== verification/Pdex_Params.thy ===== *)
theory Pdex_Params
  imports Pdex_Staking
begin

text \<open>
  The parameters of the exchange: \<^verbatim>\<open>src/blockchain/pdex/params.go\<close> and the producer and processor of \<^verbatim>\<open>modifyParams\<close>. A
  \<^verbatim>\<open>uint\<close> is an integer below 2^64; maps are association lists, and ranging over one follows its list. The lemmas show which
  parameters the check accepts, that accepted parameters keep the divisors of the handlers positive and give every staking
  pool its state, that replaying the instructions gives the parameters of the producer, and two flaws of the check.
\<close>

section \<open>Parameters and their check\<close>

record Params =
  DefaultFeeRateBPS :: int
  FeeRateBPS :: amounts
  PRVDiscountPercent :: int
  TradingProtocolFeePercent :: int
  TradingStakingPoolRewardPercent :: int
  PDEXRewardPoolPairsShare :: amounts
  StakingPoolsShare :: amounts
  StakingRewardTokens :: "string list"
  MintNftRequireAmount :: int
  MaxOrdersPerNft :: int
  AutoWithdrawOrderLimitAmount :: int
  MinPRVReserveTradingRate :: int
  DefaultOrderTradingRewardRatioBPS :: int
  OrderTradingRewardRatioBPS :: amounts
  OrderLiquidityMiningBPS :: amounts
  DAOContributingPercent :: int
  MiningRewardPendingBlocks :: int
  OrderMiningRewardRatioBPS :: amounts

type_synonym pairs = "(string \<times> PoolPairState) list"

definition BPS :: int where "BPS = 10000"
definition MaxFeeRateBPS :: int where "MaxFeeRateBPS = 200"
definition MaxPRVDiscountPercent :: int where "MaxPRVDiscountPercent = 75"

lemmas param_limits = BPS_def MaxFeeRateBPS_def MaxPRVDiscountPercent_def

definition NewParams :: Params where
  "NewParams = \<lparr>DefaultFeeRateBPS = 0, FeeRateBPS = [], PRVDiscountPercent = 0, TradingProtocolFeePercent = 0,
     TradingStakingPoolRewardPercent = 0, PDEXRewardPoolPairsShare = [], StakingPoolsShare = [], StakingRewardTokens = [],
     MintNftRequireAmount = 0, MaxOrdersPerNft = 0, AutoWithdrawOrderLimitAmount = 0, MinPRVReserveTradingRate = 0,
     DefaultOrderTradingRewardRatioBPS = 0, OrderTradingRewardRatioBPS = [], OrderLiquidityMiningBPS = [],
     DAOContributingPercent = 0, MiningRewardPendingBlocks = 0, OrderMiningRewardRatioBPS = []\<rparr>"

text \<open>A check of the source returns its message at the first failure; the checks are listed in the order of the source.\<close>

definition fail_if :: "bool \<Rightarrow> string \<Rightarrow> string option" where
  "fail_if b msg = (if b then Some msg else None)"

fun first_some :: "'a option list \<Rightarrow> 'a option" where
  "first_some [] = None"
| "first_some (x # xs) = (case x of None \<Rightarrow> first_some xs | Some e \<Rightarrow> Some e)"

definition params_error :: "Params \<Rightarrow> pairs \<Rightarrow> string option" where
  "params_error params pairs = first_some
    ([fail_if (DefaultFeeRateBPS params > MaxFeeRateBPS) ''Default fee rate is too high'',
      fail_if (DefaultFeeRateBPS params = 0) ''Default fee rate is 0''] @
     map (\<lambda>(pairID, feeRate). first_some
       [fail_if (map_of pairs pairID = None) (''Pair '' @ pairID @ '' is not existed''),
        fail_if (feeRate > MaxFeeRateBPS) (''Fee rate of pair '' @ pairID @ '' is too high''),
        fail_if (feeRate = 0) (''Fee rate of pair '' @ pairID @ '' is 0'')]) (FeeRateBPS params) @
     [fail_if (PRVDiscountPercent params > MaxPRVDiscountPercent) ''PRV discount percent is too high'',
      fail_if (to_uint64 (TradingStakingPoolRewardPercent params + TradingProtocolFeePercent params) > 100)
        ''Sum of trading's staking pool + protocol fee is invalid''] @
     map (\<lambda>(pairID, _). fail_if (map_of pairs pairID = None) (''Pair '' @ pairID @ '' is not existed'')) (PDEXRewardPoolPairsShare params) @
     map (\<lambda>(stakingPoolID, _). fail_if (HashFromStr stakingPoolID = None) ''invalid hash'') (StakingPoolsShare params) @
     [fail_if (DefaultOrderTradingRewardRatioBPS params > BPS) ''Default order trading reward ratio is too high''] @
     map (\<lambda>(pairID, ratioBPS). first_some
       [fail_if (map_of pairs pairID = None) (''Pair '' @ pairID @ '' does not exist''),
        fail_if (ratioBPS > BPS) (''Order trading reward ratio of pair '' @ pairID @ '' is too high'')]) (OrderTradingRewardRatioBPS params) @
     map (\<lambda>(pairID, ratioBPS). first_some
       [fail_if (map_of pairs pairID = None) (''Pair '' @ pairID @ '' does not exist''),
        fail_if (ratioBPS \<ge> BPS div 2) (''Order liquidity mining BPS of pair '' @ pairID @ '' is too high'')]) (OrderLiquidityMiningBPS params) @
     [fail_if (DAOContributingPercent params > 100) ''DAO contributing percent is too high'',
      fail_if (DAOContributingPercent params > 0 \<and> PDEXRewardPoolPairsShare params = [])
        ''Liquidity mining is enabled but no reward pool is specified''])"

definition isValidPdexv3Params :: "Params \<Rightarrow> pairs \<Rightarrow> bool \<times> string" where
  "isValidPdexv3Params params pairs = (case params_error params pairs of None \<Rightarrow> (True, '''') | Some msg \<Rightarrow> (False, msg))"

definition IsZeroValue :: "Params \<Rightarrow> bool" where
  "IsZeroValue params \<longleftrightarrow> params = NewParams"

section \<open>Changing the parameters\<close>

record ParamsModifyingContent =
  pm_Content :: Params
  pm_ErrorMsg :: string
  pm_TxReqID :: string
  pm_ShardID :: nat

definition addStakingPoolState :: "pools \<Rightarrow> amounts \<Rightarrow> pools" where
  "addStakingPoolState stakingPools ids =
     foldl (\<lambda>ps (k, _). if map_of ps k = None then al_put k NewStakingPoolState ps else ps) stakingPools ids"

text \<open>An instruction carries the status of the request and its content.\<close>

definition modifyParams_tx :: "pairs \<Rightarrow> Params \<times> pools \<times> (bool \<times> ParamsModifyingContent) list \<Rightarrow> Params Transaction \<Rightarrow>
    Params \<times> pools \<times> (bool \<times> ParamsModifyingContent) list" where
  "modifyParams_tx pairs = (\<lambda>(params, stakingPools, insts) tx.
     let newParams = tx_Metadata tx; (valid, errorMsg) = isValidPdexv3Params newParams pairs;
         inst = (valid, \<lparr>pm_Content = newParams, pm_ErrorMsg = errorMsg, pm_TxReqID = tx_Hash tx, pm_ShardID = tx_ShardID tx\<rparr>) in
     if valid then (newParams, addStakingPoolState stakingPools (StakingPoolsShare newParams), insts @ [inst])
     else (params, stakingPools, insts @ [inst]))"

definition modifyParams :: "pairs \<Rightarrow> Params Transaction list \<Rightarrow> Params \<Rightarrow> pools \<Rightarrow> Params \<times> pools \<times> (bool \<times> ParamsModifyingContent) list" where
  "modifyParams pairs txs params stakingPools = foldl (modifyParams_tx pairs) (params, stakingPools, []) txs"

record params_node =
  mn_params :: Params
  mn_stakingPools :: pools
  mn_tracked :: "(string \<times> bool \<times> string \<times> Params) list"

definition process_modifyParams :: "params_node \<Rightarrow> bool \<times> ParamsModifyingContent \<Rightarrow> params_node" where
  "process_modifyParams n = (\<lambda>(accepted, c).
     let n1 = (if accepted
           then n\<lparr>mn_params := pm_Content c, mn_stakingPools := addStakingPoolState (mn_stakingPools n) (StakingPoolsShare (pm_Content c))\<rparr>
           else n) in
     n1\<lparr>mn_tracked := mn_tracked n1 @ [(pm_TxReqID c, accepted, pm_ErrorMsg c, pm_Content c)]\<rparr>)"

section \<open>What the check accepts\<close>

lemma first_some_None [simp]: "first_some xs = None \<longleftrightarrow> (\<forall>x \<in> set xs. x = None)"
  by (induction xs) (auto split: option.splits)

lemma fail_if_None [simp]: "fail_if b msg = None \<longleftrightarrow> \<not> b"
  by (simp add: fail_if_def)

text \<open>The parameters the handlers may rely on. The sum of the two percentages is the one of the code, which can wrap around.\<close>

definition rates_within :: "pairs \<Rightarrow> int \<Rightarrow> amounts \<Rightarrow> bool" where
  "rates_within pairs limit m \<longleftrightarrow> (\<forall>(pairID, r) \<in> set m. map_of pairs pairID \<noteq> None \<and> r \<le> limit)"

definition params_ok :: "pairs \<Rightarrow> Params \<Rightarrow> bool" where
  "params_ok pairs params \<longleftrightarrow>
     DefaultFeeRateBPS params \<le> MaxFeeRateBPS \<and> DefaultFeeRateBPS params \<noteq> 0 \<and>
     rates_within pairs MaxFeeRateBPS (FeeRateBPS params) \<and> (\<forall>(_, r) \<in> set (FeeRateBPS params). r \<noteq> 0) \<and>
     PRVDiscountPercent params \<le> MaxPRVDiscountPercent \<and>
     to_uint64 (TradingStakingPoolRewardPercent params + TradingProtocolFeePercent params) \<le> 100 \<and>
     (\<forall>(pairID, _) \<in> set (PDEXRewardPoolPairsShare params). map_of pairs pairID \<noteq> None) \<and>
     (\<forall>(stakingPoolID, _) \<in> set (StakingPoolsShare params). HashFromStr stakingPoolID \<noteq> None) \<and>
     DefaultOrderTradingRewardRatioBPS params \<le> BPS \<and> rates_within pairs BPS (OrderTradingRewardRatioBPS params) \<and>
     rates_within pairs (BPS div 2 - 1) (OrderLiquidityMiningBPS params) \<and>
     DAOContributingPercent params \<le> 100 \<and> (DAOContributingPercent params > 0 \<longrightarrow> PDEXRewardPoolPairsShare params \<noteq> [])"

lemma all_None_map: "(\<forall>x \<in> set (map (\<lambda>(k, v). F k v) m). x = None) \<longleftrightarrow> (\<forall>(k, v) \<in> set m. F k v = None)"
  by auto

lemma params_error_None: "params_error params pairs = None \<longleftrightarrow> params_ok pairs params"
  unfolding params_error_def params_ok_def first_some_None set_append ball_Un all_None_map rates_within_def
  by (auto simp del: first_some.simps)

lemma isValid_iff [simp]: "fst (isValidPdexv3Params params pairs) \<longleftrightarrow> params_ok pairs params"
  by (auto simp: isValidPdexv3Params_def params_error_None [symmetric] split: option.splits)

text \<open>The fee rate of a trade path, as the trade handler adds it up: with accepted parameters it is positive, so that dividing the fee
  among the pools never divides by zero.\<close>

definition pool_fee :: "Params \<Rightarrow> string \<Rightarrow> int" where
  "pool_fee params pairID = (case map_of (FeeRateBPS params) pairID of None \<Rightarrow> DefaultFeeRateBPS params | Some fee \<Rightarrow> fee)"

definition fees_typed :: "Params \<Rightarrow> bool" where
  "fees_typed params \<longleftrightarrow> 0 \<le> DefaultFeeRateBPS params \<and> (\<forall>(_, r) \<in> set (FeeRateBPS params). 0 \<le> r)"

lemma pool_fee_bounds:
  assumes "params_ok pairs params" and "fees_typed params"
  shows "0 < pool_fee params pairID \<and> pool_fee params pairID \<le> MaxFeeRateBPS"
proof (cases "map_of (FeeRateBPS params) pairID")
  case None
  then show ?thesis using assms by (auto simp: pool_fee_def params_ok_def fees_typed_def)
next
  case (Some fee)
  then have "(pairID, fee) \<in> set (FeeRateBPS params)" by (rule map_of_SomeD)
  then show ?thesis using assms Some by (force simp: pool_fee_def params_ok_def fees_typed_def rates_within_def)
qed

section \<open>Changing the parameters\<close>

lemma addStakingPoolState_map:
  "map_of (addStakingPoolState ps ids) k =
     (case map_of ps k of Some s \<Rightarrow> Some s | None \<Rightarrow> if k \<in> fst ` set ids then Some NewStakingPoolState else None)"
  unfolding addStakingPoolState_def
proof (induction ids arbitrary: ps)
  case (Cons x ids)
  then show ?case by (cases x; cases "map_of ps (fst x)"; cases "map_of ps k"; cases "k = fst x") simp_all
qed (simp split: option.splits)

definition covers :: "pools \<Rightarrow> Params \<Rightarrow> bool" where
  "covers stakingPools params \<longleftrightarrow> (\<forall>(k, _) \<in> set (StakingPoolsShare params). map_of stakingPools k \<noteq> None)"

lemma covers_added: "covers (addStakingPoolState ps (StakingPoolsShare params)) params"
  by (force simp: covers_def addStakingPoolState_map split: option.splits)

lemma modifyParams_tx_cases:
  "modifyParams_tx pairs (params, ps, insts) tx =
     (if params_ok pairs (tx_Metadata tx)
      then (tx_Metadata tx, addStakingPoolState ps (StakingPoolsShare (tx_Metadata tx)), insts @ [(True,
        \<lparr>pm_Content = tx_Metadata tx, pm_ErrorMsg = [], pm_TxReqID = tx_Hash tx, pm_ShardID = tx_ShardID tx\<rparr>)])
      else (params, ps, insts @ [(False, \<lparr>pm_Content = tx_Metadata tx,
        pm_ErrorMsg = the (params_error (tx_Metadata tx) pairs), pm_TxReqID = tx_Hash tx, pm_ShardID = tx_ShardID tx\<rparr>)]))"
  by (auto simp: modifyParams_tx_def isValidPdexv3Params_def Let_def params_error_None [symmetric] split: option.splits)

lemma process_modifyParams_simps [simp]:
  "mn_params (process_modifyParams n (a, c)) = (if a then pm_Content c else mn_params n)"
  "mn_stakingPools (process_modifyParams n (a, c)) = (if a then addStakingPoolState (mn_stakingPools n) (StakingPoolsShare (pm_Content c)) else mn_stakingPools n)"
  by (simp_all add: process_modifyParams_def Let_def)

definition params_inv :: "pairs \<Rightarrow> Params \<times> pools \<Rightarrow> bool" where
  "params_inv pairs = (\<lambda>(params, stakingPools). params_ok pairs params \<and> covers stakingPools params)"

lemma modifyParams_fold:
  assumes "params_inv pairs (params, ps)"
    and "foldl (modifyParams_tx pairs) (params, ps, insts) txs = (params', ps', insts')"
  shows "params_inv pairs (params', ps') \<and> (\<forall>k s. map_of ps k = Some s \<longrightarrow> map_of ps' k = Some s) \<and>
    (\<exists>new. insts' = insts @ new \<and> length new = length txs \<and>
      (\<forall>n. mn_params n = params \<and> mn_stakingPools n = ps \<longrightarrow>
        mn_params (foldl process_modifyParams n new) = params' \<and> mn_stakingPools (foldl process_modifyParams n new) = ps'))"
  using assms
proof (induction txs arbitrary: params ps insts)
  case (Cons tx txs)
  obtain p1 ps1 a c where s: "modifyParams_tx pairs (params, ps, insts) tx = (p1, ps1, insts @ [(a, c)])" and
    inv: "params_inv pairs (p1, ps1)" and grow: "\<forall>k s. map_of ps k = Some s \<longrightarrow> map_of ps1 k = Some s" and
    rep: "(if a then pm_Content c else params) = p1 \<and> (if a then addStakingPoolState ps (StakingPoolsShare (pm_Content c)) else ps) = ps1"
  proof (cases "params_ok pairs (tx_Metadata tx)")
    case True
    then show thesis using that [OF modifyParams_tx_cases [of pairs params ps insts tx, simplified True if_True]] covers_added
      by (simp add: params_inv_def addStakingPoolState_map)
  next
    case False
    then show thesis using that [OF modifyParams_tx_cases [of pairs params ps insts tx, simplified False if_False]] Cons.prems(1) by simp
  qed
  from Cons.IH [OF inv, of "insts @ [(a, c)]"] Cons.prems(2) s obtain new where
    new: "params_inv pairs (params', ps')" "\<forall>k s. map_of ps1 k = Some s \<longrightarrow> map_of ps' k = Some s" "insts' = insts @ [(a, c)] @ new" "length new = length txs"
    "\<forall>n. mn_params n = p1 \<and> mn_stakingPools n = ps1 \<longrightarrow>
        mn_params (foldl process_modifyParams n new) = params' \<and> mn_stakingPools (foldl process_modifyParams n new) = ps'" by auto
  show ?case using new rep grow by (intro conjI exI [of _ "(a, c) # new"]) auto
qed auto

text \<open>C21. Changing the parameters keeps them well typed: from valid parameters, whatever requests a block carries, the new
  parameters pass the check, every staking pool they name has a state and no existing staking pool is touched, every request gets
  one instruction, and a node that processes these instructions has the same parameters and staking pools. With valid
  parameters the fee rate of every pool is positive and at most two percent.\<close>

theorem params_stay_valid:
  assumes "params_ok pairs params" and "covers ps params" and "modifyParams pairs txs params ps = (params', ps', insts)"
    and "mn_params n = params" and "mn_stakingPools n = ps" and "\<forall>tx \<in> set txs. fees_typed (tx_Metadata tx)" and "fees_typed params"
  shows "params_ok pairs params' \<and> covers ps' params' \<and> (\<forall>k s. map_of ps k = Some s \<longrightarrow> map_of ps' k = Some s) \<and> length insts = length txs \<and>
    mn_params (foldl process_modifyParams n insts) = params' \<and> mn_stakingPools (foldl process_modifyParams n insts) = ps' \<and>
    (\<forall>pairID. 0 < pool_fee params' pairID \<and> pool_fee params' pairID \<le> MaxFeeRateBPS)"
proof -
  have typed: "fees_typed params'" if "foldl (modifyParams_tx pairs) (p, q, i) txs = (params', ps', insts)" "fees_typed p"
    "\<forall>tx \<in> set txs. fees_typed (tx_Metadata tx)" for p q i txs
    using that by (induction txs arbitrary: p q i) (auto simp: modifyParams_tx_cases split: if_splits)
  note f = assms(3) [unfolded modifyParams_def]
  from modifyParams_fold [OF _ f] assms(1,2) obtain r where "params_ok pairs params' \<and> covers ps' params' \<and> (\<forall>k s. map_of ps k = Some s \<longrightarrow> map_of ps' k = Some s)"
    "insts = r" "length r = length txs" "mn_params (foldl process_modifyParams n r) = params'" "mn_stakingPools (foldl process_modifyParams n r) = ps'"
    using assms(4,5) by (auto simp: params_inv_def)
  then show ?thesis using pool_fee_bounds [OF _ typed [OF f assms(7,6)]] by auto
qed

definition demo_valid_params :: Params where
  "demo_valid_params = NewParams\<lparr>DefaultFeeRateBPS := 30, StakingPoolsShare := [(''a0'', 1)]\<rparr>"

lemma demo_valid_params_ok: "params_ok pairs demo_valid_params" "fees_typed demo_valid_params"
proof -
  have "HashFromStr ''a0'' \<noteq> None" by code_simp
  then show "params_ok pairs demo_valid_params"
    by (simp add: params_ok_def demo_valid_params_def NewParams_def rates_within_def param_limits to_uint64_def)
qed (simp add: fees_typed_def demo_valid_params_def NewParams_def)

theorem params_stay_valid_witness:
  "\<exists>ps' insts. modifyParams [] [\<lparr>tx_Hash = ''t'', tx_ShardID = 0, tx_Metadata = demo_valid_params\<lparr>DefaultFeeRateBPS := 500\<rparr>\<rparr>] demo_valid_params
      [(''a0'', NewStakingPoolState)] = (demo_valid_params, ps', insts) \<and> map fst insts = [False] \<and> 0 < pool_fee demo_valid_params ''p''"
proof -
  let ?tx = "\<lparr>tx_Hash = ''t'', tx_ShardID = 0, tx_Metadata = demo_valid_params\<lparr>DefaultFeeRateBPS := 500\<rparr>\<rparr>"
  have "\<not> params_ok [] (demo_valid_params\<lparr>DefaultFeeRateBPS := 500\<rparr>)" by (simp add: params_ok_def param_limits)
  then obtain ps' insts where m: "modifyParams [] [?tx] demo_valid_params [(''a0'', NewStakingPoolState)] = (demo_valid_params, ps', insts)" "map fst insts = [False]"
    by (auto simp: modifyParams_def modifyParams_tx_cases)
  have "covers [(''a0'', NewStakingPoolState)] demo_valid_params" by (simp add: covers_def demo_valid_params_def)
  moreover have "\<forall>tx \<in> set [?tx]. fees_typed (tx_Metadata tx)" by (simp add: fees_typed_def demo_valid_params_def NewParams_def)
  ultimately have "0 < pool_fee demo_valid_params ''p''"
    using params_stay_valid [OF demo_valid_params_ok(1) _ m(1), of "\<lparr>mn_params = demo_valid_params, mn_stakingPools = [(''a0'', NewStakingPoolState)], mn_tracked = []\<rparr>"]
      demo_valid_params_ok(2) by simp
  with m show ?thesis by (intro exI conjI)
qed

text \<open>Two flaws of the check. The sum of the percentages wraps around, so a protocol fee of more than everything is accepted; and when two
  entries are invalid the message, which is part of the instruction, depends on the order in which the map is visited.\<close>

lemma percentages_wrap_around:
  "params_ok pairs (demo_valid_params\<lparr>TradingProtocolFeePercent := 2 ^ 64 - 1, TradingStakingPoolRewardPercent := 1\<rparr>)"
  using demo_valid_params_ok(1) [of pairs] by (simp add: params_ok_def to_uint64_def)

lemma params_error_order_matters:
  "map_of [(''p'', 1), (''q'', 1 :: int)] = map_of [(''q'', 1), (''p'', 1)] \<and>
   isValidPdexv3Params (demo_valid_params\<lparr>FeeRateBPS := [(''p'', 1), (''q'', 1)]\<rparr>) [] \<noteq>
   isValidPdexv3Params (demo_valid_params\<lparr>FeeRateBPS := [(''q'', 1), (''p'', 1)]\<rparr>) []"
  by (simp add: isValidPdexv3Params_def params_error_def fail_if_def demo_valid_params_def NewParams_def param_limits fun_eq_iff)

end
