(* ===== verification/Pdex_Liquidity.thy ===== *)
theory Pdex_Liquidity
  imports Pdex_Params Go_Strings
begin

text \<open>
  Contributions to and withdrawals from the pools: the producers \<^verbatim>\<open>addLiquidity\<close>, \<^verbatim>\<open>withdrawLiquidity\<close>, \<^verbatim>\<open>withdrawLPFee\<close>
  and \<^verbatim>\<open>withdrawProtocolFee\<close> of \<^verbatim>\<open>state_producer_v2.go\<close>, the builders of their instructions in \<^verbatim>\<open>v2utils\<close>, and the processors of
  \<^verbatim>\<open>state_processor_v2.go\<close> that replay them. As in \<open>Pdex_Staking\<close> an instruction is the structure it carries. Configuration
  and the receivers of one-time addresses are arguments.
\<close>

section \<open>Requests and instructions\<close>

record AddLiquidityRequest =
  lr_poolPairID :: string
  lr_pairHash :: string
  lr_otaReceiver :: string
  lr_tokenID :: string
  lr_nftID :: string
  lr_tokenAmount :: int
  lr_amplifier :: nat

record WithdrawLiquidityRequest =
  wl_poolPairID :: string
  wl_nftID :: string
  wl_otaReceivers :: "string \<rightharpoonup> string"
  wl_shareAmount :: int

record 'r WithdrawalLPFeeRequest =
  lf_PoolPairID :: string
  lf_NftID :: string
  lf_Receivers :: "string \<rightharpoonup> 'r"

record WithdrawalProtocolFeeRequest =
  pf_PoolPairID :: string

record Pdexv3ContributionState =
  cs_value :: Pdexv3Contribution
  cs_pairHash :: string

record MatchAndReturnAddLiquidity =
  mr_shareAmount :: int
  mr_contribution :: Pdexv3ContributionState
  mr_returnAmount :: int
  mr_existedTokenActualAmount :: int
  mr_existedTokenReturnAmount :: int
  mr_existedTokenID :: string

record AcceptWithdrawLiquidity =
  aw_poolPairID :: string
  aw_nftID :: string
  aw_tokenID :: string
  aw_tokenAmount :: int
  aw_shareAmount :: int
  aw_otaReceiver :: string
  aw_txReqID :: string
  aw_shardID :: nat

record 'r WithdrawalLPFeeContent =
  lc_PoolPairID :: string
  lc_NftID :: string
  lc_TokenID :: string
  lc_Receiver :: "('r \<times> int) option"
  lc_IsLastInst :: bool
  lc_TxReqID :: string
  lc_ShardID :: nat

record WithdrawalProtocolFeeContent =
  pc_PoolPairID :: string
  pc_Address :: string
  pc_TokenID :: string
  pc_Amount :: int
  pc_IsLastInst :: bool
  pc_TxReqID :: string
  pc_ShardID :: nat

datatype 'r liquidity_inst =
    WaitingAddLiquidity Pdexv3ContributionState
  | RefundAddLiquidity Pdexv3ContributionState
  | MatchAddLiquidity Pdexv3ContributionState string
  | MatchAndReturnInst MatchAndReturnAddLiquidity
  | AcceptWithdrawInst AcceptWithdrawLiquidity
  | RejectWithdrawInst string nat
  | WithdrawLPFeeInst bool "'r WithdrawalLPFeeContent"
  | WithdrawProtocolFeeInst bool WithdrawalProtocolFeeContent
  | LiquidityNftInst string MintNft

type_synonym contributions = "(string \<times> Pdexv3Contribution) list"

definition zero_hash :: string where "zero_hash = replicate 64 CHR ''0''"

definition NewContributionWithMetaData :: "AddLiquidityRequest \<Rightarrow> string \<Rightarrow> nat \<Rightarrow> Pdexv3Contribution go" where
  "NewContributionWithMetaData md txReqID shardID =
     go_bind (hash_of (lr_tokenID md)) (\<lambda>tokenHash.
     go_bind (if lr_nftID md \<noteq> '''' then hash_of (lr_nftID md) else Inr zero_hash) (\<lambda>nftID.
       Inr \<lparr>co_poolPairID = lr_poolPairID md, co_otaReceiver = lr_otaReceiver md, co_tokenID = tokenHash, co_amount = lr_tokenAmount md,
         co_amplifier = lr_amplifier md, co_txReqID = txReqID, co_nftID = nftID, co_shardID = shardID\<rparr>))"

definition generatePoolPairKey :: "string \<Rightarrow> string \<Rightarrow> string \<Rightarrow> string" where
  "generatePoolPairKey token0Name token1Name txReqID =
     (if token0Name \<le> token1Name then go_join CHR ''-'' [token0Name, token1Name, txReqID]
      else go_join CHR ''-'' [token1Name, token0Name, txReqID])"

definition validateTokenIDsByPoolPairID :: "string list \<Rightarrow> string \<Rightarrow> bool" where
  "validateTokenIDsByPoolPairID tokenIDs poolPairID =
     (case go_split CHR ''-'' poolPairID of [t0, t1, _] \<Rightarrow> list_all (\<lambda>t. t = t0 \<or> t = t1) tokenIDs | _ \<Rightarrow> False)"

section \<open>Adding liquidity\<close>

definition BuildRefundAddLiquidityInstructions :: "Pdexv3ContributionState \<Rightarrow> Pdexv3ContributionState \<Rightarrow> 'r liquidity_inst list" where
  "BuildRefundAddLiquidityInstructions c0 c1 = [RefundAddLiquidity c0, RefundAddLiquidity c1]"

definition BuildMatchAndReturnAddLiquidityInstructions ::
    "Pdexv3ContributionState \<Rightarrow> Pdexv3ContributionState \<Rightarrow> int \<Rightarrow> int \<Rightarrow> int \<Rightarrow> int \<Rightarrow> int \<Rightarrow> 'r liquidity_inst list" where
  "BuildMatchAndReturnAddLiquidityInstructions c0 c1 shareAmount returned0 actual0 returned1 actual1 =
     [MatchAndReturnInst \<lparr>mr_shareAmount = shareAmount, mr_contribution = c0, mr_returnAmount = returned0,
        mr_existedTokenActualAmount = actual1, mr_existedTokenReturnAmount = returned1, mr_existedTokenID = co_tokenID (cs_value c1)\<rparr>,
      MatchAndReturnInst \<lparr>mr_shareAmount = shareAmount, mr_contribution = c1, mr_returnAmount = returned1,
        mr_existedTokenActualAmount = actual0, mr_existedTokenReturnAmount = returned0, mr_existedTokenID = co_tokenID (cs_value c0)\<rparr>]"

definition locked_blocks :: "Params \<Rightarrow> string \<Rightarrow> int" where
  "locked_blocks params poolPairID = (if map_of (PDEXRewardPoolPairsShare params) poolPairID \<noteq> None then MiningRewardPendingBlocks params else 0)"

text \<open>The first contribution to a new pool, and one to an existing pool.\<close>

definition contribute_new :: "int \<Rightarrow> string \<Rightarrow> string \<Rightarrow> string \<Rightarrow> Pdexv3Contribution \<Rightarrow> Pdexv3Contribution \<Rightarrow> pairs \<Rightarrow> (pairs \<times> 'r liquidity_inst list) go" where
  "contribute_new beaconHeight pairHash nftHash poolPairID waiting incoming pairs =
     (let refund = Inr (pairs, BuildRefundAddLiquidityInstructions \<lparr>cs_value = waiting, cs_pairHash = pairHash\<rparr> \<lparr>cs_value = incoming, cs_pairHash = pairHash\<rparr>) in
      go_bind (big_sqrt (co_amount waiting * co_amount incoming)) (\<lambda>r.
        go_catch (addShare nftHash (to_uint64 r) beaconHeight 0 (initPoolPairState waiting incoming)) refund (\<lambda>newPoolPair.
          Inr (al_put poolPairID newPoolPair pairs, [MatchAddLiquidity \<lparr>cs_value = incoming, cs_pairHash = pairHash\<rparr> poolPairID]))))"

definition contribute_existing :: "int \<Rightarrow> Params \<Rightarrow> string \<Rightarrow> string \<Rightarrow> string \<Rightarrow> Pdexv3Contribution \<Rightarrow> Pdexv3Contribution \<Rightarrow> PoolPairState \<Rightarrow> pairs \<Rightarrow>
    (pairs \<times> 'r liquidity_inst list) go" where
  "contribute_existing beaconHeight params pairHash nftHash poolPairID waiting incoming root pairs =
     (let (c0, c1) = getContributionsByOrder root waiting incoming;
          s0 = \<lparr>cs_value = c0, cs_pairHash = pairHash\<rparr>; s1 = \<lparr>cs_value = c1, cs_pairHash = pairHash\<rparr>;
          refund = Inr (pairs, BuildRefundAddLiquidityInstructions s0 s1) in
      go_catch (computeActualContributedAmounts root c0 c1) refund (\<lambda>(actual0, returned0, actual1, returned1).
        if actual0 = 0 \<or> actual1 = 0 then refund
        else go_catch (addReserveDataAndCalculateShare (co_tokenID c0) (co_tokenID c1) actual0 actual1 root) refund (\<lambda>(shareAmount, poolPair).
          go_catch (addShare nftHash shareAmount beaconHeight (locked_blocks params poolPairID) poolPair) refund (\<lambda>poolPair'.
            Inr (al_put poolPairID poolPair' pairs,
              BuildMatchAndReturnAddLiquidityInstructions s0 s1 shareAmount returned0 actual0 returned1 actual1)))))"

definition contribution_mismatch :: "Pdexv3Contribution \<Rightarrow> Pdexv3Contribution \<Rightarrow> bool" where
  "contribution_mismatch waiting incoming \<longleftrightarrow> co_tokenID waiting = co_tokenID incoming \<or> co_amplifier waiting \<noteq> co_amplifier incoming \<or>
     co_poolPairID waiting \<noteq> co_poolPairID incoming \<or> co_nftID waiting \<noteq> co_nftID incoming"

text \<open>The second contribution with a pair hash, once the first is removed from the waiting ones.\<close>

definition contribute_pair :: "int \<Rightarrow> Params \<Rightarrow> AddLiquidityRequest \<Rightarrow> Pdexv3Contribution \<Rightarrow> Pdexv3Contribution \<Rightarrow> pairs \<Rightarrow> (pairs \<times> 'r liquidity_inst list) go" where
  "contribute_pair beaconHeight params md waiting incoming pairs =
     (let refund = Inr (pairs, BuildRefundAddLiquidityInstructions \<lparr>cs_value = waiting, cs_pairHash = lr_pairHash md\<rparr> \<lparr>cs_value = incoming, cs_pairHash = lr_pairHash md\<rparr>) in
      if contribution_mismatch waiting incoming then refund
      else (case HashFromStr (lr_nftID md) of None \<Rightarrow> Inl (GoErr ''NewHashFromStr'')
       | Some nftHash \<Rightarrow>
         let poolPairID = (if co_poolPairID waiting = '''' then generatePoolPairKey (co_tokenID waiting) (lr_tokenID md) (co_txReqID waiting)
               else co_poolPairID waiting) in
         (case map_of pairs poolPairID of
            None \<Rightarrow> if co_poolPairID waiting = '''' then contribute_new beaconHeight (lr_pairHash md) nftHash poolPairID waiting incoming pairs else refund
          | Some root \<Rightarrow>
              if \<not> validateTokenIDsByPoolPairID [co_tokenID waiting, co_tokenID incoming] poolPairID then refund
              else contribute_existing beaconHeight params (lr_pairHash md) nftHash poolPairID waiting incoming root pairs)))"

definition addLiquidity_tx :: "int \<Rightarrow> (string \<times> int) list \<Rightarrow> Params \<Rightarrow> pairs \<times> contributions \<times> 'r liquidity_inst list \<Rightarrow>
    AddLiquidityRequest Transaction \<Rightarrow> (pairs \<times> contributions \<times> 'r liquidity_inst list) go" where
  "addLiquidity_tx beaconHeight nftIDs params = (\<lambda>(pairs, waitings, res) tx. let md = tx_Metadata tx in
     go_bind (NewContributionWithMetaData md (tx_Hash tx) (tx_ShardID tx)) (\<lambda>incoming.
     let state = \<lparr>cs_value = incoming, cs_pairHash = lr_pairHash md\<rparr> in
     if \<not> known_nft nftIDs (lr_nftID md) then Inr (pairs, waitings, res @ [RefundAddLiquidity state])
     else (case map_of waitings (lr_pairHash md) of
         None \<Rightarrow> Inr (pairs, al_put (lr_pairHash md) incoming waitings, res @ [WaitingAddLiquidity state])
       | Some waiting \<Rightarrow> go_bind (contribute_pair beaconHeight params md waiting incoming pairs) (\<lambda>(pairs', insts).
           Inr (pairs', al_del (lr_pairHash md) waitings, res @ insts)))))"

definition addLiquidity :: "int \<Rightarrow> (string \<times> int) list \<Rightarrow> Params \<Rightarrow> AddLiquidityRequest Transaction list \<Rightarrow> pairs \<Rightarrow> contributions \<Rightarrow>
    (pairs \<times> contributions \<times> 'r liquidity_inst list) go" where
  "addLiquidity beaconHeight nftIDs params txs pairs waitings = go_foldl (addLiquidity_tx beaconHeight nftIDs params) (pairs, waitings, []) txs"

section \<open>Withdrawing liquidity\<close>

definition liquidity_nft :: "string \<Rightarrow> string \<Rightarrow> string \<Rightarrow> nat \<Rightarrow> string \<Rightarrow> 'r liquidity_inst" where
  "liquidity_nft action nftID otaReceiver shardID txReqID =
     LiquidityNftInst action \<lparr>mn_nftID = nftID, mn_otaReceiver = otaReceiver, mn_shardID = shardID, mn_txReqID = txReqID\<rparr>"

definition BuildRejectWithdrawLiquidityInstructions :: "WithdrawLiquidityRequest \<Rightarrow> string \<Rightarrow> nat \<Rightarrow> 'r liquidity_inst list go" where
  "BuildRejectWithdrawLiquidityInstructions md txReqID shardID =
     go_bind (hash_of (wl_nftID md)) (\<lambda>nftHash.
       Inr [RejectWithdrawInst txReqID shardID, liquidity_nft ''283'' nftHash (map_str (wl_otaReceivers md) (wl_nftID md)) shardID txReqID])"

definition BuildAcceptWithdrawLiquidityInstructions ::
    "WithdrawLiquidityRequest \<Rightarrow> string \<Rightarrow> string \<Rightarrow> int \<Rightarrow> int \<Rightarrow> int \<Rightarrow> string \<Rightarrow> nat \<Rightarrow> 'r liquidity_inst list go" where
  "BuildAcceptWithdrawLiquidityInstructions md token0ID token1ID token0Amount token1Amount shareAmount txReqID shardID =
     (case HashFromStr (wl_nftID md) of None \<Rightarrow> Inl (GoErr ''NewHashFromStr'')
      | Some nftHash \<Rightarrow>
        if map_str (wl_otaReceivers md) token0ID = '''' \<or> map_str (wl_otaReceivers md) token1ID = '''' then Inl (GoErr ''invalid ota receivers'')
        else
          let accept = (\<lambda>tokenID amount. AcceptWithdrawInst \<lparr>aw_poolPairID = wl_poolPairID md, aw_nftID = nftHash, aw_tokenID = tokenID, aw_tokenAmount = amount,
                aw_shareAmount = shareAmount, aw_otaReceiver = map_str (wl_otaReceivers md) tokenID, aw_txReqID = txReqID, aw_shardID = shardID\<rparr>) in
          Inr [accept token0ID token0Amount, accept token1ID token1Amount,
               liquidity_nft ''283'' nftHash (map_str (wl_otaReceivers md) (wl_nftID md)) shardID txReqID])"

definition withdrawLiquidity_tx :: "(string \<times> int) list \<Rightarrow> pairs \<times> 'r liquidity_inst list \<Rightarrow> WithdrawLiquidityRequest Transaction \<Rightarrow> (pairs \<times> 'r liquidity_inst list) go" where
  "withdrawLiquidity_tx nftIDs = (\<lambda>(pairs, res) tx. let md = tx_Metadata tx in
     go_bind (BuildRejectWithdrawLiquidityInstructions md (tx_Hash tx) (tx_ShardID tx)) (\<lambda>rejectInsts.
     let reject = Inr (pairs, res @ rejectInsts) in
     if \<not> known_nft nftIDs (wl_nftID md) then reject
     else (case map_of pairs (wl_poolPairID md) of None \<Rightarrow> reject
       | Some root \<Rightarrow>
         if isEmpty root then reject
         else (case map_of (pp_shares root) (wl_nftID md) of None \<Rightarrow> reject
           | Some share \<Rightarrow>
             if sh_amount share = 0 \<or> wl_shareAmount md = 0 then reject
             else go_catch (deductShare (wl_nftID md) (wl_shareAmount md) root) reject (\<lambda>(token0Amount, token1Amount, shareAmount, poolPair).
               go_catch (BuildAcceptWithdrawLiquidityInstructions md (Token0ID (pp_state poolPair)) (Token1ID (pp_state poolPair))
                   token0Amount token1Amount shareAmount (tx_Hash tx) (tx_ShardID tx)) reject (\<lambda>insts.
                 Inr (al_put (wl_poolPairID md) poolPair pairs, res @ insts)))))))"

definition withdrawLiquidity :: "(string \<times> int) list \<Rightarrow> WithdrawLiquidityRequest Transaction list \<Rightarrow> pairs \<Rightarrow> (pairs \<times> 'r liquidity_inst list) go" where
  "withdrawLiquidity nftIDs txs pairs = go_foldl (withdrawLiquidity_tx nftIDs) (pairs, []) txs"

section \<open>Withdrawing fees\<close>

definition BuildWithdrawLPFeeInsts :: "bool \<Rightarrow> string \<Rightarrow> string \<Rightarrow> (string \<times> 'r \<times> int) list \<Rightarrow> nat \<Rightarrow> string \<Rightarrow> 'r liquidity_inst list" where
  "BuildWithdrawLPFeeInsts accepted pairID nftID receivers shardID reqTxID =
     (if \<not> accepted
      then [WithdrawLPFeeInst False \<lparr>lc_PoolPairID = pairID, lc_NftID = nftID, lc_TokenID = zero_hash, lc_Receiver = None,
              lc_IsLastInst = False, lc_TxReqID = reqTxID, lc_ShardID = shardID\<rparr>]
      else let keys = sort_key fst receivers in
        map (\<lambda>(i, tokenID, receiver). WithdrawLPFeeInst True \<lparr>lc_PoolPairID = pairID, lc_NftID = nftID, lc_TokenID = tokenID,
          lc_Receiver = Some receiver, lc_IsLastInst = (i = length keys - 1), lc_TxReqID = reqTxID, lc_ShardID = shardID\<rparr>)
          (zip [0..<length keys] keys))"

definition BuildWithdrawProtocolFeeInsts :: "bool \<Rightarrow> string \<Rightarrow> string \<Rightarrow> amounts \<Rightarrow> nat \<Rightarrow> string \<Rightarrow> 'r liquidity_inst list" where
  "BuildWithdrawProtocolFeeInsts accepted pairID address amts shardID reqTxID =
     (if \<not> accepted
      then [WithdrawProtocolFeeInst False \<lparr>pc_PoolPairID = pairID, pc_Address = address, pc_TokenID = zero_hash, pc_Amount = 0,
              pc_IsLastInst = False, pc_TxReqID = reqTxID, pc_ShardID = shardID\<rparr>]
      else let keys = sort_key fst amts in
        map (\<lambda>(i, tokenID, amount). WithdrawProtocolFeeInst True \<lparr>pc_PoolPairID = pairID, pc_Address = address, pc_TokenID = tokenID,
          pc_Amount = amount, pc_IsLastInst = (i = length keys - 1), pc_TxReqID = reqTxID, pc_ShardID = shardID\<rparr>)
          (zip [0..<length keys] keys))"

text \<open>The state after a provider took the fees: the share starts from the current fees per share, the order rewards are gone.\<close>

definition reset_share :: "string \<Rightarrow> PoolPairState \<Rightarrow> PoolPairState" where
  "reset_share nftID p = p\<lparr>pp_shares := al_upd nftID (\<lambda>share. share\<lparr>sh_tradingFees := resetKeyValueToZero (sh_tradingFees share),
       sh_lastLPFeesPerShare := pp_lpFeesPerShare p, sh_lastLmRewardsPerShare := pp_lmRewardsPerShare p\<rparr>) (pp_shares p),
     pp_orderRewards := al_del nftID (pp_orderRewards p)\<rparr>"

definition withdrawable :: "string \<Rightarrow> PoolPairState \<Rightarrow> amounts go" where
  "withdrawable nftID p =
     go_bind (if map_of (pp_shares p) nftID = None then Inr [] else RecomputeLPRewards nftID p) (\<lambda>lpReward.
       Inr (CombineReward lpReward (case map_of (pp_orderRewards p) nftID of None \<Rightarrow> [] | Some r \<Rightarrow> uncollectedRewards r)))"

definition withdrawLPFee_tx :: "('r \<Rightarrow> string option) \<Rightarrow> pairs \<times> 'r liquidity_inst list \<Rightarrow> 'r WithdrawalLPFeeRequest Transaction \<Rightarrow>
    (pairs \<times> 'r liquidity_inst list) go" where
  "withdrawLPFee_tx otaString = (\<lambda>(pairs, insts) tx. let md = tx_Metadata tx in
     case lf_Receivers md (lf_NftID md) of None \<Rightarrow> Inl (GoErr ''NFT receiver not found in WithdrawalLPFeeRequest'')
     | Some nftReceiver \<Rightarrow>
       (case otaString nftReceiver of None \<Rightarrow> Inl (GoErr ''NFT receiver invalid in WithdrawalLPFeeRequest'')
        | Some addressStr \<Rightarrow>
          let insts1 = insts @ [liquidity_nft ''299'' (lf_NftID md) addressStr (tx_ShardID tx) (tx_Hash tx)];
              reject = Inr (pairs, insts1 @ BuildWithdrawLPFeeInsts False (lf_PoolPairID md) (lf_NftID md) [] (tx_ShardID tx) (tx_Hash tx)) in
          (case map_of pairs (lf_PoolPairID md) of None \<Rightarrow> reject
           | Some p \<Rightarrow>
             go_bind (withdrawable (lf_NftID md) p) (\<lambda>reward.
               if reward = [] then reject
               else if \<exists>(tokenID, _) \<in> set reward. lf_Receivers md tokenID = None then reject
               else Inr (al_put (lf_PoolPairID md) (reset_share (lf_NftID md) p) pairs,
                 insts1 @ BuildWithdrawLPFeeInsts True (lf_PoolPairID md) (lf_NftID md)
                   (map (\<lambda>(tokenID, amt). (tokenID, the (lf_Receivers md tokenID), amt)) reward) (tx_ShardID tx) (tx_Hash tx))))))"

definition withdrawLPFee :: "('r \<Rightarrow> string option) \<Rightarrow> 'r WithdrawalLPFeeRequest Transaction list \<Rightarrow> pairs \<Rightarrow> (pairs \<times> 'r liquidity_inst list) go" where
  "withdrawLPFee otaString txs pairs = go_foldl (withdrawLPFee_tx otaString) (pairs, []) txs"

text \<open>\<open>fund\<close> is the configured address of the protocol fund with its shard, if it parses.\<close>

definition withdrawProtocolFee_tx :: "string \<times> nat \<Rightarrow> pairs \<times> 'r liquidity_inst list \<Rightarrow> WithdrawalProtocolFeeRequest Transaction \<Rightarrow> pairs \<times> 'r liquidity_inst list" where
  "withdrawProtocolFee_tx fund = (\<lambda>(pairs, insts) tx. let md = tx_Metadata tx;
     reject = (pairs, insts @ BuildWithdrawProtocolFeeInsts False (pf_PoolPairID md) (fst fund) [] (snd fund) (tx_Hash tx)) in
     case map_of pairs (pf_PoolPairID md) of None \<Rightarrow> reject
     | Some pair \<Rightarrow>
       let rewardAmount = getMapWithoutZeroValue (pp_protocolFees pair) in
       if rewardAmount = [] then reject
       else (al_put (pf_PoolPairID md) (pair\<lparr>pp_protocolFees := resetKeyValueToZero (pp_protocolFees pair)\<rparr>) pairs,
             insts @ BuildWithdrawProtocolFeeInsts True (pf_PoolPairID md) (fst fund) rewardAmount (snd fund) (tx_Hash tx)))"

definition withdrawProtocolFee :: "(string \<times> nat) option \<Rightarrow> WithdrawalProtocolFeeRequest Transaction list \<Rightarrow> pairs \<Rightarrow> (pairs \<times> 'r liquidity_inst list) go" where
  "withdrawProtocolFee fund txs pairs =
     (case fund of None \<Rightarrow> Inl (GoErr ''Can not parse protocol fund address'')
      | Some f \<Rightarrow> Inr (foldl (withdrawProtocolFee_tx f) (pairs, []) txs))"

section \<open>Processors\<close>

record ContributionStatus =
  st_Status :: nat
  st_Token0ID :: string
  st_Token0ContributedAmount :: int
  st_Token0ReturnedAmount :: int
  st_Token1ID :: string
  st_Token1ContributedAmount :: int
  st_Token1ReturnedAmount :: int
  st_PoolPairID :: string

record WithdrawStatus =
  ws_Status :: nat
  ws_Token0ID :: string
  ws_Token0Amount :: int
  ws_Token1ID :: string
  ws_Token1Amount :: int

text \<open>The statuses written under the hash of a request.\<close>

datatype 'r liquidity_tracked =
    ContributionTracked string ContributionStatus
  | WithdrawTracked string WithdrawStatus
  | LPFeeTracked string nat "(string \<times> ('r \<times> int) option) list"
  | ProtocolFeeTracked string nat amounts

record 'r liquidity_node =
  ln_pairs :: pairs
  ln_waiting :: contributions
  ln_deletedWaiting :: contributions
  ln_pairHashCache :: "(string \<times> string) list"
  ln_withdrawTxCache :: amounts
  ln_rewardCache :: "(string \<times> amounts) list"
  ln_receiverCache :: "(string \<times> (string \<times> ('r \<times> int) option) list) list"
  ln_tracked :: "'r liquidity_tracked list"

definition track :: "'r liquidity_tracked \<Rightarrow> 'r liquidity_node \<Rightarrow> 'r liquidity_node" where
  "track t n = n\<lparr>ln_tracked := ln_tracked n @ [t]\<rparr>"

definition plain_status :: "nat \<Rightarrow> string \<Rightarrow> ContributionStatus" where
  "plain_status status poolPairID = \<lparr>st_Status = status, st_Token0ID = '''', st_Token0ContributedAmount = 0, st_Token0ReturnedAmount = 0,
     st_Token1ID = '''', st_Token1ContributedAmount = 0, st_Token1ReturnedAmount = 0, st_PoolPairID = poolPairID\<rparr>"

definition waitingContribution :: "Pdexv3ContributionState \<Rightarrow> 'r liquidity_node \<Rightarrow> 'r liquidity_node go" where
  "waitingContribution c n =
     (if map_of (ln_waiting n) (cs_pairHash c) \<noteq> None then Inl (GoErr ''Pair Hash has been existed in list waitingContributions'')
      else let v = cs_value c in
        Inr (track (ContributionTracked (co_txReqID v) ((plain_status 1 (co_poolPairID v))\<lparr>st_Token0ID := co_tokenID v, st_Token0ContributedAmount := co_amount v\<rparr>))
          (n\<lparr>ln_waiting := al_put (cs_pairHash c) v (ln_waiting n)\<rparr>)))"

text \<open>Removing the waiting contribution of a pair hash, with the record of what was deleted.\<close>

definition drop_waiting :: "string \<Rightarrow> 'r liquidity_node \<Rightarrow> 'r liquidity_node" where
  "drop_waiting pairHash n =
     (case map_of (ln_waiting n) pairHash of None \<Rightarrow> n
      | Some w \<Rightarrow> n\<lparr>ln_deletedWaiting := al_put pairHash w (ln_deletedWaiting n), ln_waiting := al_del pairHash (ln_waiting n)\<rparr>)"

definition refundContribution :: "Pdexv3ContributionState \<Rightarrow> 'r liquidity_node \<Rightarrow> 'r liquidity_node" where
  "refundContribution c n =
     track (ContributionTracked (co_txReqID (cs_value c)) (plain_status 3 (co_poolPairID (cs_value c)))) (drop_waiting (cs_pairHash c) n)"

definition matchContribution :: "int \<Rightarrow> Params \<Rightarrow> Pdexv3ContributionState \<Rightarrow> 'r liquidity_node \<Rightarrow> 'r liquidity_node go" where
  "matchContribution beaconHeight params c n =
     (case map_of (ln_waiting n) (cs_pairHash c) of None \<Rightarrow> Inl (GoErr ''could not find out existing waiting contribution'')
      | Some existed \<Rightarrow>
        let v = cs_value c; poolPairID = generatePoolPairKey (co_tokenID existed) (co_tokenID v) (co_txReqID existed) in
        go_bind (big_sqrt (co_amount existed * co_amount v)) (\<lambda>r.
        go_bind (addShare (co_nftID existed) (to_uint64 r) beaconHeight (locked_blocks params poolPairID) (initPoolPairState existed v)) (\<lambda>poolPair.
          Inr (track (ContributionTracked (co_txReqID existed) (plain_status 2 (co_poolPairID v)))
            (track (ContributionTracked (co_txReqID v) (plain_status 2 (co_poolPairID v)))
            (drop_waiting (cs_pairHash c) (n\<lparr>ln_pairs := al_put poolPairID poolPair (ln_pairs n)\<rparr>)))))))"

definition match_status :: "MatchAndReturnAddLiquidity \<Rightarrow> ContributionStatus" where
  "match_status m = (let v = cs_value (mr_contribution m) in
     if mr_existedTokenID m < co_tokenID v
     then \<lparr>st_Status = 4, st_Token0ID = mr_existedTokenID m, st_Token0ContributedAmount = mr_existedTokenActualAmount m,
       st_Token0ReturnedAmount = mr_existedTokenReturnAmount m, st_Token1ID = co_tokenID v,
       st_Token1ContributedAmount = to_uint64 (co_amount v - mr_returnAmount m), st_Token1ReturnedAmount = mr_returnAmount m,
       st_PoolPairID = co_poolPairID v\<rparr>
     else \<lparr>st_Status = 4, st_Token0ID = co_tokenID v, st_Token0ContributedAmount = to_uint64 (co_amount v - mr_returnAmount m),
       st_Token0ReturnedAmount = mr_returnAmount m, st_Token1ID = mr_existedTokenID m,
       st_Token1ContributedAmount = mr_existedTokenActualAmount m, st_Token1ReturnedAmount = mr_existedTokenReturnAmount m,
       st_PoolPairID = co_poolPairID v\<rparr>)"

text \<open>The first of the two instructions changes the pool, the second one, whose pair hash is no longer waiting, is tracked.\<close>

definition matchAndReturnContribution :: "int \<Rightarrow> Params \<Rightarrow> MatchAndReturnAddLiquidity \<Rightarrow> 'r liquidity_node \<Rightarrow> 'r liquidity_node go" where
  "matchAndReturnContribution beaconHeight params m n =
     (let c = mr_contribution m; v = cs_value c in
      case map_of (ln_waiting n) (cs_pairHash c) of
        Some waiting \<Rightarrow>
          if co_poolPairID v \<noteq> co_poolPairID waiting then Inl (GoErr ''Expect poolPairID'')
          else (case map_of (ln_pairs n) (co_poolPairID waiting) of None \<Rightarrow> Inl GoPanic
            | Some poolPair \<Rightarrow>
              let rest = to_uint64 (co_amount v - mr_returnAmount m);
                  (amount0, amount1) = (if mr_existedTokenID m < co_tokenID v then (mr_existedTokenActualAmount m, rest) else (rest, mr_existedTokenActualAmount m)) in
              go_bind (updateReserveData amount0 amount1 (mr_shareAmount m) addOperator (pp_state poolPair)) (\<lambda>tp.
              go_bind (addShare (co_nftID waiting) (mr_shareAmount m) beaconHeight (locked_blocks params (co_poolPairID waiting)) (poolPair\<lparr>pp_state := tp\<rparr>)) (\<lambda>poolPair'.
                Inr (drop_waiting (cs_pairHash c) (n\<lparr>ln_pairs := al_put (co_poolPairID waiting) poolPair' (ln_pairs n),
                  ln_pairHashCache := al_put (cs_pairHash c) (co_txReqID v) (ln_pairHashCache n)\<rparr>)))))
      | None \<Rightarrow>
          Inr (track (ContributionTracked (case map_of (ln_pairHashCache n) (cs_pairHash c) of None \<Rightarrow> zero_hash | Some h \<Rightarrow> h) (match_status m))
            (track (ContributionTracked (co_txReqID v) (match_status m)) n)))"

text \<open>The error of \<^verbatim>\<open>updateSingleTokenAmount\<close> is ignored; the instruction for the second token also takes the share.\<close>

definition acceptWithdrawLiquidity :: "AcceptWithdrawLiquidity \<Rightarrow> 'r liquidity_node \<Rightarrow> 'r liquidity_node go" where
  "acceptWithdrawLiquidity a n =
     (case map_of (ln_pairs n) (aw_poolPairID a) of None \<Rightarrow> Inl (GoErr ''Can't find poolPairID'')
      | Some p \<Rightarrow>
        if map_of (pp_shares p) (aw_nftID a) = None then Inl (GoErr ''Can't find nftID'')
        else
          go_bind (go_catch (updateSingleTokenAmount (aw_tokenID a) (aw_tokenAmount a) (aw_shareAmount a) subOperator (pp_state p)) (Inr (pp_state p)) Inr) (\<lambda>tp.
          let p1 = p\<lparr>pp_state := tp\<rparr>; token0Amount = map_uint (ln_withdrawTxCache n) (aw_txReqID a);
              n1 = (if map_of (ln_withdrawTxCache n) (aw_txReqID a) = None
                    then n\<lparr>ln_withdrawTxCache := al_put (aw_txReqID a) (aw_tokenAmount a) (ln_withdrawTxCache n)\<rparr> else n) in
          if Token1ID tp = aw_tokenID a
          then go_bind (updateShareValue (aw_shareAmount a) (aw_nftID a) subOperator 0 0 p1) (\<lambda>p2.
            Inr (track (WithdrawTracked (aw_txReqID a) \<lparr>ws_Status = Pdexv3AcceptStatus, ws_Token0ID = Token0ID tp, ws_Token0Amount = token0Amount,
                ws_Token1ID = Token1ID tp, ws_Token1Amount = aw_tokenAmount a\<rparr>) (n1\<lparr>ln_pairs := al_put (aw_poolPairID a) p2 (ln_pairs n1)\<rparr>)))
          else Inr (n1\<lparr>ln_pairs := al_put (aw_poolPairID a) p1 (ln_pairs n1)\<rparr>)))"

definition rejectWithdrawLiquidity :: "string \<Rightarrow> 'r liquidity_node \<Rightarrow> 'r liquidity_node" where
  "rejectWithdrawLiquidity txReqID n = track (WithdrawTracked txReqID \<lparr>ws_Status = Pdexv3RejectStatus, ws_Token0ID = '''', ws_Token0Amount = 0,
     ws_Token1ID = '''', ws_Token1Amount = 0\<rparr>) n"

definition process_withdrawLPFee :: "bool \<Rightarrow> 'r WithdrawalLPFeeContent \<Rightarrow> 'r liquidity_node \<Rightarrow> 'r liquidity_node go" where
  "process_withdrawLPFee accepted c n =
     (let cached = (\<lambda>n. case map_of (ln_receiverCache n) (lc_TxReqID c) of None \<Rightarrow> [] | Some m \<Rightarrow> m) in
      if accepted
      then (case map_of (ln_pairs n) (lc_PoolPairID c) of None \<Rightarrow> Inl (GoErr ''Could not find pair for withdrawal'')
        | Some p \<Rightarrow>
          let n1 = n\<lparr>ln_pairs := al_put (lc_PoolPairID c) (reset_share (lc_NftID c) p) (ln_pairs n),
                     ln_receiverCache := al_put (lc_TxReqID c) (al_put (lc_TokenID c) (lc_Receiver c) (cached n)) (ln_receiverCache n)\<rparr> in
          Inr (if \<not> lc_IsLastInst c then n1 else track (LPFeeTracked (lc_TxReqID c) 1 (cached n1)) n1))
      else Inr (track (LPFeeTracked (lc_TxReqID c) 0 (cached n)) n))"

definition process_withdrawProtocolFee :: "bool \<Rightarrow> WithdrawalProtocolFeeContent \<Rightarrow> 'r liquidity_node \<Rightarrow> 'r liquidity_node go" where
  "process_withdrawProtocolFee accepted c n =
     (let cached = (\<lambda>n. case map_of (ln_rewardCache n) (pc_TxReqID c) of None \<Rightarrow> [] | Some m \<Rightarrow> m) in
      if accepted
      then (case map_of (ln_pairs n) (pc_PoolPairID c) of None \<Rightarrow> Inl (GoErr ''Could not find pair for withdrawal'')
        | Some p \<Rightarrow>
          let n1 = n\<lparr>ln_pairs := al_put (pc_PoolPairID c) (p\<lparr>pp_protocolFees := resetKeyValueToZero (pp_protocolFees p)\<rparr>) (ln_pairs n),
                     ln_rewardCache := al_put (pc_TxReqID c) (al_put (pc_TokenID c) (pc_Amount c) (cached n)) (ln_rewardCache n)\<rparr> in
          Inr (if \<not> pc_IsLastInst c then n1 else track (ProtocolFeeTracked (pc_TxReqID c) 1 (cached n1)) n1))
      else Inr (track (ProtocolFeeTracked (pc_TxReqID c) 0 (cached n)) n))"

definition process_liquidity :: "int \<Rightarrow> Params \<Rightarrow> 'r liquidity_node \<Rightarrow> 'r liquidity_inst \<Rightarrow> 'r liquidity_node go" where
  "process_liquidity beaconHeight params n inst =
     (case inst of
        WaitingAddLiquidity c \<Rightarrow> waitingContribution c n
      | RefundAddLiquidity c \<Rightarrow> Inr (refundContribution c n)
      | MatchAddLiquidity c _ \<Rightarrow> matchContribution beaconHeight params c n
      | MatchAndReturnInst m \<Rightarrow> matchAndReturnContribution beaconHeight params m n
      | AcceptWithdrawInst a \<Rightarrow> acceptWithdrawLiquidity a n
      | RejectWithdrawInst txReqID _ \<Rightarrow> Inr (rejectWithdrawLiquidity txReqID n)
      | WithdrawLPFeeInst accepted c \<Rightarrow> process_withdrawLPFee accepted c n
      | WithdrawProtocolFeeInst accepted c \<Rightarrow> process_withdrawProtocolFee accepted c n
      | LiquidityNftInst _ _ \<Rightarrow> Inr n)"

definition process_liquidities :: "int \<Rightarrow> Params \<Rightarrow> 'r liquidity_inst list \<Rightarrow> 'r liquidity_node \<Rightarrow> 'r liquidity_node go" where
  "process_liquidities beaconHeight params insts n = go_foldl (process_liquidity beaconHeight params) n insts"

end
