(* ===== verification/Pdex_Order_Handlers.thy ===== *)
theory Pdex_Order_Handlers
  imports Pdex_Liquidity
begin

text \<open>
  The handlers of limit orders: the producers \<^verbatim>\<open>addOrder\<close>, \<^verbatim>\<open>withdrawOrder\<close> and \<^verbatim>\<open>withdrawAllMatchedOrders\<close> of
  \<^verbatim>\<open>state_producer_v2.go\<close> and the processors \<^verbatim>\<open>addOrder\<close> and \<^verbatim>\<open>withdrawOrder\<close> of \<^verbatim>\<open>state_processor_v2.go\<close>. The producer of new
  orders does not touch the book, and the producers of withdrawals leave emptied orders in it; the processor inserts and removes. Receivers
  (one-time addresses) are opaque, with \<open>otaString\<close> for \<^verbatim>\<open>OTAReceiver.String\<close>, \<open>otaParse\<close> for \<^verbatim>\<open>FromString\<close> and \<open>otaShard\<close> for
  \<^verbatim>\<open>GetShardID\<close>.
\<close>

section \<open>Requests and instructions\<close>

record 'r AddOrderRequest =
  ar_TokenToSell :: string
  ar_PoolPairID :: string
  ar_SellAmount :: int
  ar_MinAcceptableAmount :: int
  ar_Receiver :: "string \<rightharpoonup> 'r"
  ar_NftID :: string

record 'r WithdrawOrderRequest =
  wo_PoolPairID :: string
  wo_OrderID :: string
  wo_Amount :: int
  wo_Receiver :: "string \<rightharpoonup> 'r"
  wo_NftID :: string

record AcceptedAddOrder =
  ao_PoolPairID :: string
  ao_OrderID :: string
  ao_NftID :: string
  ao_Token0Rate :: int
  ao_Token1Rate :: int
  ao_Token0Balance :: int
  ao_Token1Balance :: int
  ao_TradeDirection :: nat
  ao_Receiver :: "string \<times> string"

record 'r RefundedAddOrder =
  ra_Receiver :: 'r
  ra_TokenID :: string
  ra_Amount :: int

record 'r AcceptedWithdrawOrder =
  awo_PoolPairID :: string
  awo_OrderID :: string
  awo_TokenID :: string
  awo_Receiver :: 'r
  awo_Amount :: int

text \<open>The actions, each with its content, the hash of the request and the shard.\<close>

datatype 'r order_inst =
    AcceptedAddOrderInst AcceptedAddOrder string nat
  | RefundedAddOrderInst "'r RefundedAddOrder" string nat
  | AcceptedWithdrawOrderInst "'r AcceptedWithdrawOrder" string nat
  | RejectedWithdrawOrderInst string string string nat
  | OrderNftInst string MintNft

section \<open>Adding orders\<close>

definition getRefundedAddOrderInstructions :: "'r AddOrderRequest \<Rightarrow> string \<Rightarrow> nat \<Rightarrow> 'r order_inst list go" where
  "getRefundedAddOrderInstructions md txID shardID =
     (case ar_Receiver md (ar_TokenToSell md) of None \<Rightarrow> Inl (GoErr ''Refund receiver not found in Trade Request'')
      | Some refundReceiver \<Rightarrow>
          Inr [RefundedAddOrderInst \<lparr>ra_Receiver = refundReceiver, ra_TokenID = ar_TokenToSell md, ra_Amount = ar_SellAmount md\<rparr> txID shardID])"

definition receiver_str :: "('r \<Rightarrow> string option) \<Rightarrow> (string \<rightharpoonup> 'r) \<Rightarrow> string \<Rightarrow> string" where
  "receiver_str otaString receivers tokenID =
     (case Option.bind (receivers tokenID) otaString of None \<Rightarrow> '''' | Some s \<Rightarrow> s)"

text \<open>The order of a request, or none when the pool does not trade the sold token; with the token it buys.\<close>

definition order_data :: "('r \<Rightarrow> string option) \<Rightarrow> string \<Rightarrow> Pdexv3PoolPair \<Rightarrow> 'r AddOrderRequest \<Rightarrow> (AcceptedAddOrder \<times> string) option" where
  "order_data otaString orderID tp md =
     (let accepted = (\<lambda>d r0 r1 b0 b1. \<lparr>ao_PoolPairID = ar_PoolPairID md, ao_OrderID = orderID, ao_NftID = ar_NftID md, ao_Token0Rate = r0,
            ao_Token1Rate = r1, ao_Token0Balance = b0, ao_Token1Balance = b1, ao_TradeDirection = d,
            ao_Receiver = (receiver_str otaString (ar_Receiver md) (Token0ID tp), receiver_str otaString (ar_Receiver md) (Token1ID tp))\<rparr>) in
      if ar_TokenToSell md = Token0ID tp
      then Some (accepted TradeDirectionSell0 (ar_SellAmount md) (ar_MinAcceptableAmount md) (ar_SellAmount md) 0, Token1ID tp)
      else if ar_TokenToSell md = Token1ID tp
      then Some (accepted TradeDirectionSell1 (ar_MinAcceptableAmount md) (ar_SellAmount md) 0 (ar_SellAmount md), Token0ID tp)
      else None)"

definition addOrder_tx :: "('r \<Rightarrow> string option) \<Rightarrow> (string \<times> int) list \<Rightarrow> Params \<Rightarrow> pairs \<Rightarrow> amounts \<times> 'r order_inst list \<Rightarrow>
    'r AddOrderRequest Transaction \<Rightarrow> (amounts \<times> 'r order_inst list) go" where
  "addOrder_tx otaString nftIDs params pairs = (\<lambda>(orderCount, result) tx. let md = tx_Metadata tx in
     go_bind (getRefundedAddOrderInstructions md (tx_Hash tx) (tx_ShardID tx)) (\<lambda>refundInstructions.
     let refund = Inr (orderCount, result @ refundInstructions) in
     if map_of nftIDs (ar_NftID md) = None then refund
     else if map_uint orderCount (ar_NftID md) \<ge> MaxOrdersPerNft params then refund
     else (case map_of pairs (ar_PoolPairID md) of None \<Rightarrow> refund
      | Some pair \<Rightarrow>
        if HasInsufficientLiquidity (pp_state pair) then refund
        else if \<exists>ord \<in> set (pp_orderbook pair). Id ord = tx_Hash tx then refund
        else (case order_data otaString (tx_Hash tx) (pp_state pair) md of None \<Rightarrow> refund
          | Some (accepted, tokenToBuy) \<Rightarrow>
            if ar_Receiver md tokenToBuy = None then refund
            else Inr (al_put (ar_NftID md) (to_uint64 (map_uint orderCount (ar_NftID md) + 1)) orderCount,
              result @ [AcceptedAddOrderInst accepted (tx_Hash tx) (tx_ShardID tx)])))))"

definition addOrder :: "('r \<Rightarrow> string option) \<Rightarrow> (string \<times> int) list \<Rightarrow> Params \<Rightarrow> pairs \<Rightarrow> amounts \<Rightarrow> 'r AddOrderRequest Transaction list \<Rightarrow>
    'r order_inst list go" where
  "addOrder otaString nftIDs params pairs orderCount txs = go_bind (go_foldl (addOrder_tx otaString nftIDs params pairs) (orderCount, []) txs) (\<lambda>(_, result). Inr result)"

text \<open>The orders of each access token, counted at the start of \<^verbatim>\<open>BuildInstructions\<close>.\<close>

definition orderCountByNftID :: "pairs \<Rightarrow> amounts" where
  "orderCountByNftID pairs = foldl (\<lambda>counts (_, p). foldl (\<lambda>c ord. al_put (NftID ord) (to_uint64 (map_uint c (NftID ord) + 1)) c) counts (pp_orderbook p)) [] pairs"

section \<open>Withdrawing orders\<close>

fun order_index :: "string \<Rightarrow> Orderbook \<Rightarrow> nat option" where
  "order_index orderID [] = None"
| "order_index orderID (ord # orders) = (if Id ord = orderID then Some 0 else map_option Suc (order_index orderID orders))"

text \<open>What is taken of one balance: everything when the request names nothing or too much.\<close>

definition withdraw_amount :: "bool \<Rightarrow> int \<Rightarrow> int \<Rightarrow> int" where
  "withdraw_amount wanted balance amount = (if \<not> wanted then 0 else if balance < amount \<or> amount = 0 then balance else amount)"

definition set_order :: "string \<Rightarrow> nat \<Rightarrow> Pdexv3Order \<Rightarrow> PoolPairState \<Rightarrow> pairs \<Rightarrow> pairs" where
  "set_order pairID i ord pair pairs = al_put pairID (pair\<lparr>pp_orderbook := (pp_orderbook pair)[i := ord]\<rparr>) pairs"

definition accepted_withdrawals :: "(string \<Rightarrow> 'r) \<Rightarrow> string \<Rightarrow> string \<Rightarrow> string \<Rightarrow> nat \<Rightarrow> amounts \<Rightarrow> 'r order_inst list" where
  "accepted_withdrawals receiver pairID orderID txID shardID withdrawResults =
     map (\<lambda>(key, amt). AcceptedWithdrawOrderInst \<lparr>awo_PoolPairID = pairID, awo_OrderID = orderID, awo_TokenID = key,
       awo_Receiver = receiver key, awo_Amount = amt\<rparr> txID shardID) withdrawResults"

definition withdraw_results :: "Pdexv3PoolPair \<Rightarrow> int \<Rightarrow> int \<Rightarrow> amounts" where
  "withdraw_results tp a0 a1 =
     (let m = (if a0 > 0 then [(Token0ID tp, a0)] else []) in by_key (if a1 > 0 then al_put (Token1ID tp) a1 m else m))"

definition withdrawOrder_tx :: "('r \<Rightarrow> string option) \<Rightarrow> pairs \<times> 'r order_inst list \<Rightarrow> 'r WithdrawOrderRequest Transaction \<Rightarrow>
    (pairs \<times> 'r order_inst list) go" where
  "withdrawOrder_tx otaString = (\<lambda>(pairs, result) tx. let md = tx_Metadata tx in
     case wo_Receiver md (wo_NftID md) of None \<Rightarrow> Inl (GoErr ''NFT receiver not found in WithdrawOrder Request'')
     | Some _ \<Rightarrow>
       let result1 = result @ [OrderNftInst ''289'' \<lparr>mn_nftID = wo_NftID md, mn_otaReceiver = receiver_str otaString (wo_Receiver md) (wo_NftID md),
             mn_shardID = tx_ShardID tx, mn_txReqID = tx_Hash tx\<rparr>];
           reject = Inr (pairs, result1 @ [RejectedWithdrawOrderInst (wo_PoolPairID md) (wo_OrderID md) (tx_Hash tx) (tx_ShardID tx)]) in
       (case map_of pairs (wo_PoolPairID md) of None \<Rightarrow> reject
        | Some pair \<Rightarrow>
          (case order_index (wo_OrderID md) (pp_orderbook pair) of None \<Rightarrow> reject
           | Some i \<Rightarrow>
             let ord = pp_orderbook pair ! i; tp = pp_state pair;
                 withdrawToken0 = wo_Receiver md (Token0ID tp) \<noteq> None; withdrawToken1 = wo_Receiver md (Token1ID tp) \<noteq> None in
             if NftID ord \<noteq> wo_NftID md then reject
             else if withdrawToken0 \<and> withdrawToken1 \<and> wo_Amount md \<noteq> 0 then reject
             else
               let a0 = withdraw_amount withdrawToken0 (Token0Balance ord) (wo_Amount md);
                   a1 = withdraw_amount withdrawToken1 (Token1Balance ord) (wo_Amount md) in
               if \<not> (a0 > 0 \<or> a1 > 0) then reject
               else Inr (set_order (wo_PoolPairID md) i (ord\<lparr>Token0Balance := Token0Balance ord - a0, Token1Balance := Token1Balance ord - a1\<rparr>) pair pairs,
                 result1 @ accepted_withdrawals (\<lambda>key. the (wo_Receiver md key)) (wo_PoolPairID md) (wo_OrderID md) (tx_Hash tx) (tx_ShardID tx)
                   (withdraw_results tp a0 a1)))))"

definition withdrawOrder :: "('r \<Rightarrow> string option) \<Rightarrow> 'r WithdrawOrderRequest Transaction list \<Rightarrow> pairs \<Rightarrow> (pairs \<times> 'r order_inst list) go" where
  "withdrawOrder otaString txs pairs = go_foldl (withdrawOrder_tx otaString) (pairs, []) txs"

section \<open>Withdrawing matched orders\<close>

definition opposite_direction :: "nat \<Rightarrow> nat" where
  "opposite_direction d = (257 - d) mod 256"

text \<open>The instructions for the outstanding balances of an order.\<close>

definition matched_insts :: "(string \<Rightarrow> 'r) \<Rightarrow> ('r \<Rightarrow> nat) \<Rightarrow> string \<Rightarrow> Pdexv3PoolPair \<Rightarrow> Pdexv3Order \<Rightarrow> string \<Rightarrow> 'r order_inst list" where
  "matched_insts otaParse otaShard pairID tp ord txHash =
     (let token0Recv = otaParse (fst (Receiver ord)); token1Recv = otaParse (snd (Receiver ord)); shardID = otaShard token0Recv in
      (if Token0Balance ord > 0 then [AcceptedWithdrawOrderInst \<lparr>awo_PoolPairID = pairID, awo_OrderID = Id ord, awo_TokenID = Token0ID tp,
         awo_Receiver = token0Recv, awo_Amount = Token0Balance ord\<rparr> txHash shardID] else []) @
      (if Token1Balance ord > 0 then [AcceptedWithdrawOrderInst \<lparr>awo_PoolPairID = pairID, awo_OrderID = Id ord, awo_TokenID = Token1ID tp,
         awo_Receiver = token1Recv, awo_Amount = Token1Balance ord\<rparr> txHash shardID] else []))"

text \<open>One order of a book; the limit counts instructions for each shard. The identifier is dereferenced as a hash for an instruction only.\<close>

definition matched_order :: "(string \<Rightarrow> 'r) \<Rightarrow> ('r \<Rightarrow> nat) \<Rightarrow> int \<Rightarrow> string \<Rightarrow> Pdexv3PoolPair \<Rightarrow> (nat \<times> int) list \<times> 'r order_inst list \<Rightarrow> Pdexv3Order \<Rightarrow>
    ((nat \<times> int) list \<times> 'r order_inst list \<times> Pdexv3Order) go" where
  "matched_order otaParse otaShard limitTxsPerShard pairID tp = (\<lambda>(counts, result) ord.
     go_catch (CanMatch ord (opposite_direction (TradeDirection ord))) (Inr (counts, result, ord)) (\<lambda>canMatch.
       if canMatch then Inr (counts, result, ord)
       else go_bind (if Token0Balance ord > 0 \<or> Token1Balance ord > 0 then hash_of (Id ord) else Inr []) (\<lambda>txHash.
         let output = matched_insts otaParse otaShard pairID tp ord txHash; shardID = otaShard (otaParse (fst (Receiver ord)));
             count = to_uint64 (map_uint counts shardID + int (length output)) in
         if count > limitTxsPerShard then Inr (counts, result, ord)
         else Inr (al_put shardID count counts, result @ output, ord\<lparr>Token0Balance := 0, Token1Balance := 0\<rparr>))))"

fun matched_orders :: "(string \<Rightarrow> 'r) \<Rightarrow> ('r \<Rightarrow> nat) \<Rightarrow> int \<Rightarrow> string \<Rightarrow> Pdexv3PoolPair \<Rightarrow> (nat \<times> int) list \<times> 'r order_inst list \<Rightarrow> Orderbook \<Rightarrow>
    ((nat \<times> int) list \<times> 'r order_inst list \<times> Orderbook) go" where
  "matched_orders otaParse otaShard limit pairID tp (counts, result) [] = Inr (counts, result, [])"
| "matched_orders otaParse otaShard limit pairID tp (counts, result) (ord # orders) =
     go_bind (matched_order otaParse otaShard limit pairID tp (counts, result) ord) (\<lambda>(counts1, result1, ord').
     go_bind (matched_orders otaParse otaShard limit pairID tp (counts1, result1) orders) (\<lambda>(counts2, result2, orders').
       Inr (counts2, result2, ord' # orders')))"

definition getSortedPoolPairIDs :: "pairs \<Rightarrow> string list" where
  "getSortedPoolPairIDs pairs = sort (map fst pairs)"

definition matched_pair :: "(string \<Rightarrow> 'r) \<Rightarrow> ('r \<Rightarrow> nat) \<Rightarrow> int \<Rightarrow> pairs \<times> (nat \<times> int) list \<times> 'r order_inst list \<Rightarrow> string \<Rightarrow>
    (pairs \<times> (nat \<times> int) list \<times> 'r order_inst list) go" where
  "matched_pair otaParse otaShard limit = (\<lambda>(pairs, counts, result) pairID.
     case map_of pairs pairID of None \<Rightarrow> Inl GoPanic
     | Some pair \<Rightarrow>
       go_bind (matched_orders otaParse otaShard limit pairID (pp_state pair) (counts, result) (pp_orderbook pair)) (\<lambda>(counts', result', orders).
         Inr (al_put pairID (pair\<lparr>pp_orderbook := orders\<rparr>) pairs, counts', result')))"

definition withdrawAllMatchedOrders :: "(string \<Rightarrow> 'r) \<Rightarrow> ('r \<Rightarrow> nat) \<Rightarrow> int \<Rightarrow> pairs \<Rightarrow> (pairs \<times> 'r order_inst list) go" where
  "withdrawAllMatchedOrders otaParse otaShard limitTxsPerShard pairs =
     go_bind (go_foldl (matched_pair otaParse otaShard limitTxsPerShard) (pairs, [], []) (getSortedPoolPairIDs pairs)) (\<lambda>(pairs', _, result). Inr (pairs', result))"

section \<open>Processing\<close>

datatype order_tracked =
    AddOrderTracked string nat string
  | WithdrawOrderTracked string nat string int

record order_node =
  on_pairs :: pairs
  on_tracked :: "order_tracked list"

definition process_addOrder :: "AcceptedAddOrder \<Rightarrow> string \<Rightarrow> order_node \<Rightarrow> order_node go" where
  "process_addOrder md txID n =
     (case map_of (on_pairs n) (ao_PoolPairID md) of None \<Rightarrow> Inl (GoErr ''Cannot find pair for new order'')
      | Some pair \<Rightarrow>
        let newOrder = \<lparr>Id = ao_OrderID md, NftID = ao_NftID md, Token0Rate = ao_Token0Rate md, Token1Rate = ao_Token1Rate md,
              Token0Balance = ao_Token0Balance md, Token1Balance = ao_Token1Balance md, TradeDirection = ao_TradeDirection md,
              Receiver = ao_Receiver md\<rparr> in
        Inr (n\<lparr>on_pairs := al_put (ao_PoolPairID md) (pair\<lparr>pp_orderbook := InsertOrder newOrder (pp_orderbook pair)\<rparr>) (on_pairs n),
               on_tracked := on_tracked n @ [AddOrderTracked txID 1 (ao_OrderID md)]\<rparr>))"

text \<open>The change of one order by a withdrawal, and whether it is empty afterwards.\<close>

definition withdraw_step :: "'r AcceptedWithdrawOrder \<Rightarrow> Pdexv3PoolPair \<Rightarrow> Pdexv3Order \<Rightarrow> (Pdexv3Order \<times> bool) go" where
  "withdraw_step md tp ord =
     (if awo_TokenID md = Token0ID tp
      then let newBalance = to_uint64 (Token0Balance ord - awo_Amount md) in
        if newBalance > Token0Balance ord then Inl (GoErr ''Cannot withdraw more than current token0 balance from order'')
        else Inr (ord\<lparr>Token0Balance := newBalance\<rparr>, newBalance = 0 \<and> Token1Balance ord = 0)
      else if awo_TokenID md = Token1ID tp
      then let newBalance = to_uint64 (Token1Balance ord - awo_Amount md) in
        if newBalance > Token1Balance ord then Inl (GoErr ''Cannot withdraw more than current token1 balance from order'')
        else Inr (ord\<lparr>Token1Balance := newBalance\<rparr>, newBalance = 0 \<and> Token0Balance ord = 0)
      else Inr (ord, False))"

text \<open>The loop of the processor ranges over the slice it had at the start while \<^verbatim>\<open>RemoveOrder\<close> shifts the same array in place. The array
  holds pointers, here indices into the orders the book had at the start (\<open>heap\<close>); \<open>len\<close> is the length of the book's slice.\<close>

definition slice_remove :: "nat \<Rightarrow> nat list \<times> nat \<Rightarrow> nat list \<times> nat" where
  "slice_remove index = (\<lambda>(arr, len). if index \<ge> len then (arr, len)
     else (take index arr @ drop (Suc index) (take len arr) @ drop (len - 1) arr, len - 1))"

fun withdraw_loop :: "'r AcceptedWithdrawOrder \<Rightarrow> Pdexv3PoolPair \<Rightarrow> nat list \<Rightarrow> Orderbook \<Rightarrow> nat list \<times> nat \<Rightarrow> (Orderbook \<times> nat list \<times> nat) go" where
  "withdraw_loop md tp [] heap s = Inr (heap, s)"
| "withdraw_loop md tp (index # indices) heap s =
     (let p = fst s ! index; ord = heap ! p in
      if Id ord \<noteq> awo_OrderID md then withdraw_loop md tp indices heap s
      else go_bind (withdraw_step md tp ord) (\<lambda>(ord', emptied).
        withdraw_loop md tp indices (heap[p := ord']) (if emptied then slice_remove index s else s)))"

definition withdraw_book :: "'r AcceptedWithdrawOrder \<Rightarrow> Pdexv3PoolPair \<Rightarrow> Orderbook \<Rightarrow> Orderbook go" where
  "withdraw_book md tp orders =
     go_bind (withdraw_loop md tp [0..<length orders] orders ([0..<length orders], length orders)) (\<lambda>(heap, arr, len).
       Inr (map ((!) heap) (take len arr)))"

definition process_withdrawOrder :: "'r AcceptedWithdrawOrder \<Rightarrow> string \<Rightarrow> order_node \<Rightarrow> order_node go" where
  "process_withdrawOrder md txID n =
     (case map_of (on_pairs n) (awo_PoolPairID md) of None \<Rightarrow> Inl (GoErr ''Cannot find pair for new order'')
      | Some pair \<Rightarrow> go_bind (withdraw_book md (pp_state pair) (pp_orderbook pair)) (\<lambda>orders.
          Inr (n\<lparr>on_pairs := al_put (awo_PoolPairID md) (pair\<lparr>pp_orderbook := orders\<rparr>) (on_pairs n),
                 on_tracked := on_tracked n @ [WithdrawOrderTracked txID 1 (awo_TokenID md) (awo_Amount md),
                   WithdrawOrderTracked (txID @ awo_TokenID md) 1 (awo_TokenID md) (awo_Amount md)]\<rparr>)))"

definition process_order_inst :: "order_node \<Rightarrow> 'r order_inst \<Rightarrow> order_node go" where
  "process_order_inst n inst =
     (case inst of
        AcceptedAddOrderInst md txID _ \<Rightarrow> process_addOrder md txID n
      | RefundedAddOrderInst _ txID _ \<Rightarrow> Inr (n\<lparr>on_tracked := on_tracked n @ [AddOrderTracked txID 0 '''']\<rparr>)
      | AcceptedWithdrawOrderInst md txID _ \<Rightarrow> process_withdrawOrder md txID n
      | RejectedWithdrawOrderInst _ _ txID _ \<Rightarrow> Inr (n\<lparr>on_tracked := on_tracked n @ [WithdrawOrderTracked txID 0 '''' 0]\<rparr>)
      | OrderNftInst _ _ \<Rightarrow> Inr n)"

definition process_orders :: "'r order_inst list \<Rightarrow> order_node \<Rightarrow> order_node go" where
  "process_orders insts n = go_foldl process_order_inst n insts"

section \<open>The loop in place\<close>

definition live :: "Pdexv3Order \<Rightarrow> bool" where
  "live ord \<longleftrightarrow> Token0Balance ord \<noteq> 0 \<or> Token1Balance ord \<noteq> 0"

definition upd_order :: "string \<Rightarrow> (Pdexv3Order \<Rightarrow> Pdexv3Order) \<Rightarrow> Orderbook \<Rightarrow> Orderbook" where
  "upd_order i f orders = map (\<lambda>ord. if Id ord = i then f ord else ord) orders"

lemma order_index_None: "order_index i orders = None \<longleftrightarrow> i \<notin> Id ` set orders"
  by (induction orders) auto

lemma order_index_Some: "order_index i orders = Some k \<Longrightarrow> k < length orders \<and> Id (orders ! k) = i"
  by (induction orders arbitrary: k) (auto split: if_splits)

lemma upd_order_update:
  assumes "distinct (map Id orders)" and "k < length orders" and "Id (orders ! k) = i"
  shows "upd_order i f orders = orders[k := f (orders ! k)]"
proof (rule nth_equalityI)
  fix j assume "j < length (upd_order i f orders)"
  then have j: "j < length orders" by (simp add: upd_order_def)
  then have "Id (orders ! j) = i \<longleftrightarrow> j = k" using assms nth_eq_iff_index_eq [OF assms(1), of j k] by auto
  then show "upd_order i f orders ! j = orders[k := f (orders ! k)] ! j" using j assms(3) by (simp add: upd_order_def nth_list_update)
qed (simp add: upd_order_def)

lemma upd_order_absent: "i \<notin> Id ` set orders \<Longrightarrow> upd_order i f orders = orders"
  by (induction orders) (auto simp: upd_order_def)

lemma withdraw_loop_skip:
  "\<forall>j \<in> set indices. Id (heap ! (fst s ! j)) \<noteq> awo_OrderID md \<Longrightarrow> withdraw_loop md tp indices heap s = Inr (heap, s)"
  by (induction indices) (auto simp: Let_def)

lemma withdraw_loop_append:
  "withdraw_loop md tp (xs @ ys) heap s = go_bind (withdraw_loop md tp xs heap s) (\<lambda>(heap', s'). withdraw_loop md tp ys heap' s')"
  by (induction xs arbitrary: heap s) (auto simp: Let_def go_bind_assoc split_def intro!: arg_cong [where f = "go_bind _"])

lemma removed_slots:
  assumes "k < n"
  shows "take k [0..<n] @ drop (Suc k) (take n [0..<n]) @ drop (n - 1) [0..<n] = [0..<k] @ [Suc k..<n] @ [n - 1]"
proof -
  have "[n - 1..<n] = [n - 1]" using assms upt_rec [of "n - 1" n] by simp
  then show ?thesis using assms by (simp add: min_def)
qed

lemma removed_nth:
  assumes "k < n" "k < j" "j < n"
  shows "([0..<k] @ [Suc k..<n] @ [n - 1]) ! j \<noteq> k \<and> ([0..<k] @ [Suc k..<n] @ [n - 1]) ! j < n"
  using assms by (cases "j = n - 1") (auto simp: nth_append)

lemma withdraw_book_result:
  assumes "distinct (map Id orders)"
  shows "withdraw_book md tp orders =
    (case order_index (awo_OrderID md) orders of None \<Rightarrow> Inr orders
     | Some k \<Rightarrow> go_bind (withdraw_step md tp (orders ! k)) (\<lambda>(ord', emptied).
         Inr (if emptied then take k orders @ drop (Suc k) orders else orders[k := ord'])))"
proof (cases "order_index (awo_OrderID md) orders")
  case None
  then have "awo_OrderID md \<notin> Id ` set orders" by (simp add: order_index_None)
  then have "Id (orders ! j) \<noteq> awo_OrderID md" if "j < length orders" for j using that by (metis imageI nth_mem)
  then have "withdraw_loop md tp [0..<length orders] orders ([0..<length orders], length orders) = Inr (orders, [0..<length orders], length orders)"
    by (intro withdraw_loop_skip) simp
  then show ?thesis by (simp only: withdraw_book_def None option.case) (simp add: map_nth)
next
  case (Some k)
  let ?n = "length orders"
  from order_index_Some [OF Some] have k: "k < ?n" "Id (orders ! k) = awo_OrderID md" by auto
  have other: "Id (orders ! j) \<noteq> awo_OrderID md" if "j < ?n" "j \<noteq> k" for j
    using that k nth_eq_iff_index_eq [OF assms, of j k] by auto
  have split: "[0..<?n] = [0..<k] @ k # [Suc k..<?n]" using k(1) upt_add_eq_append [of 0 k "?n - k"] by (simp add: upt_conv_Cons)
  have pre: "withdraw_loop md tp [0..<k] orders ([0..<?n], ?n) = Inr (orders, [0..<?n], ?n)"
    using k(1) other by (intro withdraw_loop_skip) auto
  show ?thesis
  proof (cases "withdraw_step md tp (orders ! k)")
    case (Inl e)
    then show ?thesis using Some k pre unfolding withdraw_book_def
      by (subst (1) split) (simp add: withdraw_loop_append Let_def)
  next
    case (Inr r)
    obtain ord' emptied where r: "r = (ord', emptied)" by force
    let ?heap = "orders[k := ord']" and ?s = "if emptied then slice_remove k ([0..<?n], ?n) else ([0..<?n], ?n)"
    have s: "?s = (if emptied then ([0..<k] @ [Suc k..<?n] @ [?n - 1], ?n - 1) else ([0..<?n], ?n))"
      using k(1) removed_slots [OF k(1)] by (simp add: slice_remove_def)
    have "Id (?heap ! (fst ?s ! j)) \<noteq> awo_OrderID md" if "j \<in> set [Suc k..<?n]" for j
      unfolding s using that k(1) removed_nth [OF k(1), of j] other by (auto simp: nth_list_update)
    then have post: "withdraw_loop md tp [Suc k..<?n] ?heap ?s = Inr (?heap, ?s)" by (intro withdraw_loop_skip) blast
    have "withdraw_loop md tp (k # [Suc k..<?n]) orders ([0..<?n], ?n) = withdraw_loop md tp [Suc k..<?n] ?heap ?s"
      using Inr r k by (simp add: Let_def)
    then have "withdraw_loop md tp [0..<?n] orders ([0..<?n], ?n) = Inr (?heap, ?s)"
      using pre post by (subst (1) split) (simp only: withdraw_loop_append go_bind_simps prod.case)
    then have "withdraw_book md tp orders = Inr (map ((!) ?heap) (take (snd ?s) (fst ?s)))"
      by (simp only: withdraw_book_def go_bind_simps split_def fst_conv snd_conv)
    moreover have "map ((!) ?heap) (take (snd ?s) (fst ?s)) = (if emptied then take k orders @ drop (Suc k) orders else ?heap)"
    proof (cases emptied)
      case True
      have "map ((!) ?heap) [0..<k] = take k orders" "map ((!) ?heap) [Suc k..<?n] = drop (Suc k) orders"
        using k(1) by (auto intro!: nth_equalityI)
      then show ?thesis using True k(1) unfolding s by simp
    next
      case False
      then show ?thesis unfolding s by (simp add: map_nth [of ?heap, simplified])
    qed
    ultimately show ?thesis using Some Inr r by simp
  qed
qed

end
