(* ===== verification/Pdex_Trade.thy ===== *)
theory Pdex_Trade
  imports Pdex_Orders
begin

text \<open>
  A trade along a path of pools: \<^verbatim>\<open>MaybeAcceptTrade\<close> of \<^verbatim>\<open>src/blockchain/pdex/v2utils/reserve.go\<close>, over the
  interface \<^verbatim>\<open>OrderBookIterator\<close>. The caller (\<^verbatim>\<open>TradePathFromState\<close> in \<^verbatim>\<open>src/blockchain/pdex/utils.go\<close>) hands
  over clones of distinct pools, so the pools of a path do not alias and an error discards every change.
  The lemmas show that the loop over the order book ends, that the trade keeps pools and books well
  formed, and that every hop conserves both tokens.
\<close>

section \<open>The iterator interface and the loop over one pool\<close>

text \<open>\<^verbatim>\<open>NextOrder\<close> of the interface returns a pointer into the book: here the order, its identifier and
  the book after the order behind the pointer has been overwritten.\<close>

type_synonym 'b order_iterator = "'b \<Rightarrow> nat \<Rightarrow> (Pdexv3Order \<times> string \<times> (Pdexv3Order \<Rightarrow> 'b)) option go"

record 'b hop =
  sellAmountRemain :: int
  totalBuyAmount :: int
  accumulatedToken0Change :: int
  accumulatedToken1Change :: int
  reserve :: Pdexv3PoolPair
  book :: 'b
  OrderChanges :: "string \<rightharpoonup> int \<times> int"

definition add_uint64 :: "string \<Rightarrow> int \<Rightarrow> int \<Rightarrow> int go" where
  "add_uint64 e a b = (if (a + b) mod 2 ^ 64 < a then Inl (GoErr e) else Inr ((a + b) mod 2 ^ 64))"

definition hop_swap :: "nat \<Rightarrow> Pdexv3Order option \<Rightarrow> 'b hop \<Rightarrow> 'b hop go" where
  "hop_swap d ord h =
     go_bind (SwapToReachOrderRate (sellAmountRemain h) d ord (reserve h)) (\<lambda>(buyAmount, temp, c0, c1, tp').
     go_bind (add_uint64 ''Sum exceeds uint64 range after swapping in pool'' (totalBuyAmount h) buyAmount) (\<lambda>total.
       Inr (h\<lparr>sellAmountRemain := temp, totalBuyAmount := total,
              accumulatedToken0Change := accumulatedToken0Change h + c0,
              accumulatedToken1Change := accumulatedToken1Change h + c1, reserve := tp'\<rparr>)))"

text \<open>The changes of an order: \<^verbatim>\<open>MaybeAcceptTrade\<close> records the change of a match, \<^verbatim>\<open>TrackFee\<close> adds it to the recorded one.\<close>

definition set_change :: "(int \<times> int) option \<Rightarrow> int \<times> int \<Rightarrow> int \<times> int" where
  "set_change prev change = change"

definition add_change :: "(int \<times> int) option \<Rightarrow> int \<times> int \<Rightarrow> int \<times> int" where
  "add_change prev change = (case prev of None \<Rightarrow> change | Some p \<Rightarrow> (fst p + fst change, snd p + snd change))"

type_synonym change_rule = "(int \<times> int) option \<Rightarrow> int \<times> int \<Rightarrow> int \<times> int"

definition hop_match :: "change_rule \<Rightarrow> nat \<Rightarrow> Pdexv3Order \<Rightarrow> string \<Rightarrow> (Pdexv3Order \<Rightarrow> 'b) \<Rightarrow> 'b hop \<Rightarrow> 'b hop go" where
  "hop_match upd d ord ordID put h =
     go_bind (Match (sellAmountRemain h) d ord) (\<lambda>(buyAmount, temp, c0, c1, ord').
     go_bind (add_uint64 ''Sum exceeds uint64 range after matching order'' (totalBuyAmount h) buyAmount) (\<lambda>total.
       Inr (h\<lparr>sellAmountRemain := temp, totalBuyAmount := total, book := put ord',
              OrderChanges := (OrderChanges h)(ordID \<mapsto> upd (OrderChanges h ordID) (c0, c1))\<rparr>)))"

text \<open>The loop: it ends when nothing is left to sell or the iterator reports an error; the value None
  stands for a loop that does not end.\<close>

partial_function (option) hop_loop :: "change_rule \<Rightarrow> 'b order_iterator \<Rightarrow> nat \<Rightarrow> 'b hop \<Rightarrow> 'b hop go option" where
  "hop_loop upd nextOrder d h =
     (case nextOrder (book h) d of
        Inl e \<Rightarrow> (case e of GoPanic \<Rightarrow> Some (Inl GoPanic) | GoErr _ \<Rightarrow> Some (Inr h))
      | Inr ptr \<Rightarrow>
          (case hop_swap d (map_option fst ptr) h of
             Inl e \<Rightarrow> Some (Inl e)
           | Inr h1 \<Rightarrow>
               if sellAmountRemain h1 = 0 then Some (Inr h1)
               else (case ptr of None \<Rightarrow> hop_loop upd nextOrder d h1
                 | Some p \<Rightarrow>
                     (case hop_match upd d (fst p) (fst (snd p)) (snd (snd p)) h1 of
                        Inl e \<Rightarrow> Some (Inl e)
                      | Inr h2 \<Rightarrow> if sellAmountRemain h2 = 0 then Some (Inr h2) else hop_loop upd nextOrder d h2))))"

text \<open>One round of the loop: it ends with a result, or another round follows; and the loop with a bound on its rounds.\<close>

definition hop_round :: "change_rule \<Rightarrow> 'b order_iterator \<Rightarrow> nat \<Rightarrow> 'b hop \<Rightarrow> 'b hop go + 'b hop" where
  "hop_round upd nextOrder d h =
     (case nextOrder (book h) d of
        Inl e \<Rightarrow> Inl (case e of GoPanic \<Rightarrow> Inl GoPanic | GoErr _ \<Rightarrow> Inr h)
      | Inr ptr \<Rightarrow>
          (case hop_swap d (map_option fst ptr) h of
             Inl e \<Rightarrow> Inl (Inl e)
           | Inr h1 \<Rightarrow>
               if sellAmountRemain h1 = 0 then Inl (Inr h1)
               else (case ptr of None \<Rightarrow> Inr h1
                 | Some p \<Rightarrow>
                     (case hop_match upd d (fst p) (fst (snd p)) (snd (snd p)) h1 of
                        Inl e \<Rightarrow> Inl (Inl e)
                      | Inr h2 \<Rightarrow> if sellAmountRemain h2 = 0 then Inl (Inr h2) else Inr h2))))"

fun hop_rounds :: "nat \<Rightarrow> change_rule \<Rightarrow> 'b order_iterator \<Rightarrow> nat \<Rightarrow> 'b hop \<Rightarrow> 'b hop go option" where
  "hop_rounds 0 upd nextOrder d h = None"
| "hop_rounds (Suc n) upd nextOrder d h = (case hop_round upd nextOrder d h of Inl r \<Rightarrow> Some r | Inr h' \<Rightarrow> hop_rounds n upd nextOrder d h')"

lemma hop_loop_round: "hop_loop upd nextOrder d h = (case hop_round upd nextOrder d h of Inl r \<Rightarrow> Some r | Inr h' \<Rightarrow> hop_loop upd nextOrder d h')"
  by (subst hop_loop.simps) (auto simp: hop_round_def split: sum.splits go_err.splits option.splits)

lemma hop_rounds_loop: "hop_rounds n upd nextOrder d h = Some r \<Longrightarrow> hop_loop upd nextOrder d h = Some r"
proof (induction n arbitrary: h)
  case (Suc n)
  then show ?case by (subst hop_loop_round) (auto split: sum.splits)
qed simp

lemma hop_rounds_mono: "hop_rounds n upd nextOrder d h = Some r \<Longrightarrow> n \<le> m \<Longrightarrow> hop_rounds m upd nextOrder d h = Some r"
proof (induction n arbitrary: h m)
  case (Suc n)
  then obtain k where "m = Suc k" "n \<le> k" by (cases m) auto
  then show ?case using Suc by (auto split: sum.splits)
qed simp

section \<open>MaybeAcceptTrade\<close>

record 'b AcceptedTrade =
  acc_Amount :: int
  acc_PairChanges :: "(int \<times> int) list"
  acc_OrderChanges :: "(string \<rightharpoonup> int \<times> int) list"
  acc_reserves :: "Pdexv3PoolPair list"
  acc_books :: "'b list"

definition start_hop :: "int \<Rightarrow> Pdexv3PoolPair \<Rightarrow> 'b \<Rightarrow> 'b hop" where
  "start_hop sell tp b = \<lparr>sellAmountRemain = sell, totalBuyAmount = 0, accumulatedToken0Change = 0,
     accumulatedToken1Change = 0, reserve = tp, book = b, OrderChanges = Map.empty\<rparr>"

definition add_hop :: "'b hop \<Rightarrow> 'b AcceptedTrade \<Rightarrow> 'b AcceptedTrade" where
  "add_hop h acc = acc\<lparr>acc_Amount := totalBuyAmount h,
     acc_PairChanges := acc_PairChanges acc @ [(accumulatedToken0Change h, accumulatedToken1Change h)],
     acc_OrderChanges := acc_OrderChanges acc @ [OrderChanges h],
     acc_reserves := acc_reserves acc @ [reserve h], acc_books := acc_books acc @ [book h]\<rparr>"

fun trade_path :: "'b order_iterator \<Rightarrow> int \<Rightarrow> 'b AcceptedTrade \<Rightarrow> (Pdexv3PoolPair \<times> nat \<times> 'b) list \<Rightarrow> 'b AcceptedTrade go option" where
  "trade_path nextOrder sell acc [] = Some (Inr acc)"
| "trade_path nextOrder sell acc ((tp, d, b) # path) =
     (case hop_loop set_change nextOrder d (start_hop sell tp b) of
        None \<Rightarrow> None
      | Some (Inl e) \<Rightarrow> Some (Inl e)
      | Some (Inr h) \<Rightarrow> trade_path nextOrder (totalBuyAmount h) (add_hop h acc) path)"

text \<open>The start of \<^verbatim>\<open>MaybeAcceptTrade\<close>.\<close>

definition empty_trade :: "'b AcceptedTrade" where
  "empty_trade = \<lparr>acc_Amount = 0, acc_PairChanges = [], acc_OrderChanges = [], acc_reserves = [], acc_books = []\<rparr>"

definition MaybeAcceptTrade ::
    "'b order_iterator \<Rightarrow> int \<Rightarrow> int \<Rightarrow> Pdexv3PoolPair list \<Rightarrow> nat list \<Rightarrow> int \<Rightarrow> 'b list \<Rightarrow> 'b AcceptedTrade go option" where
  "MaybeAcceptTrade nextOrder amountIn fee reserves tradeDirections minAmount orderbooks =
     (if length tradeDirections \<noteq> length reserves \<or> length orderbooks \<noteq> length reserves
      then Some (Inl (GoErr ''Trade path vs directions vs orderbooks length mismatch''))
      else if amountIn < fee then Some (Inl (GoErr ''Trade input insufficient for trading fee''))
      else (case trade_path nextOrder (amountIn - fee) empty_trade
              (zip reserves (zip tradeDirections orderbooks)) of
          None \<Rightarrow> None
        | Some (Inl e) \<Rightarrow> Some (Inl e)
        | Some (Inr acc) \<Rightarrow> if acc_Amount acc < minAmount then Some (Inl (GoErr ''Min acceptable amount not reached''))
                          else Some (Inr acc)))"

text \<open>The iterator of the order book (\<^verbatim>\<open>Orderbook.NextOrder\<close>).\<close>

definition Orderbook_iterator :: "Orderbook order_iterator" where
  "Orderbook_iterator orders d =
     go_bind (NextOrder orders d) (\<lambda>r. Inr (map_option (\<lambda>i. (orders ! i, Id (orders ! i), \<lambda>ord'. orders[i := ord'])) r))"

section \<open>What a hop holds\<close>

definition realX :: "nat \<Rightarrow> Pdexv3PoolPair \<Rightarrow> int" where
  "realX d tp = (if d = TradeDirectionSell0 then Token0RealAmount tp else Token1RealAmount tp)"

definition realY :: "nat \<Rightarrow> Pdexv3PoolPair \<Rightarrow> int" where
  "realY d tp = (if d = TradeDirectionSell0 then Token1RealAmount tp else Token0RealAmount tp)"

text \<open>The amounts of the sold and of the bought token in the pool, in the orders and with the trader.\<close>

definition heldX :: "nat \<Rightarrow> Pdexv3PoolPair \<Rightarrow> Pdexv3Order list \<Rightarrow> int \<Rightarrow> int" where
  "heldX d tp os sell = realX d tp + sum_list (map (balanceX d) os) + sell"

definition heldY :: "nat \<Rightarrow> Pdexv3PoolPair \<Rightarrow> Pdexv3Order list \<Rightarrow> int \<Rightarrow> int" where
  "heldY d tp os buy = realY d tp + sum_list (map (maxBuyingAmount d) os) + buy"

lemma swapped_reals:
  "(c0, c1) = changes_for d sold b \<Longrightarrow> realX d (swapped tp c0 c1) = realX d tp + sold"
  "(c0, c1) = changes_for d sold b \<Longrightarrow> realY d (swapped tp c0 c1) = realY d tp - b"
  by (auto simp: realX_def realY_def swapped_def changes_for_def split: if_splits)

lemma sum_list_update_int:
  fixes f :: "'a \<Rightarrow> int"
  shows "k < length xs \<Longrightarrow> sum_list (map f (xs[k := x])) = sum_list (map f xs) + f x - f (xs ! k)"
proof (induction xs arbitrary: k)
  case (Cons a xs)
  then show ?case by (cases k) auto
qed simp

lemma wrap_sum:
  fixes a b M :: int
  assumes "0 \<le> a" and "a < M" and "0 \<le> b" and "b < M"
  shows "(a + b) mod M = (if a + b < M then a + b else a + b - M)"
proof (cases "a + b < M")
  case False
  then have "(a + b - M) mod M = a + b - M" using assms by (intro mod_pos_pos_trivial) auto
  then show ?thesis using False by simp
qed (use assms in simp)

lemma add_uint64_ok:
  assumes "add_uint64 e a b = Inr c" and "IsUint64 a" and "IsUint64 b"
  shows "c = a + b" and "IsUint64 c"
  using assms wrap_sum [of a "2 ^ 64" b] by (auto simp: add_uint64_def IsUint64_def split: if_splits)

section \<open>The contract of an order iterator\<close>

text \<open>The state of a loop: a well-formed pool, well-formed orders and \<^verbatim>\<open>uint64\<close> amounts.\<close>

definition hop_ok :: "('b \<Rightarrow> Pdexv3Order list) \<Rightarrow> 'b hop \<Rightarrow> bool" where
  "hop_ok orders h \<longleftrightarrow> pool_ok (reserve h) \<and> (\<forall>ord \<in> set (orders (book h)). order_ok ord) \<and>
     IsUint64 (sellAmountRemain h) \<and> IsUint64 (totalBuyAmount h)"

text \<open>The same orders with other balances.\<close>

definition refilled :: "Pdexv3Order list \<Rightarrow> Pdexv3Order list \<Rightarrow> bool" where
  "refilled os os' \<longleftrightarrow> list_all2 (\<lambda>a b. \<exists>c0 c1. b = filled a c0 c1) os os'"

lemma filled_zero [simp]: "filled ord 0 0 = ord"
  by (simp add: filled_def)

lemma filled_filled: "filled (filled ord a b) c e = filled ord (a + c) (b + e)"
  by (simp add: filled_def)

lemma filled_ex [simp]: "\<exists>c0 c1. ord = filled ord c0 c1"
  by (intro exI [of _ 0]) simp

lemma refilled_refl [simp]: "refilled os os"
  by (simp add: refilled_def list_all2_same)

lemma refilled_trans: "refilled os1 os2 \<Longrightarrow> refilled os2 os3 \<Longrightarrow> refilled os1 os3"
  unfolding refilled_def by (rule list_all2_trans [of _ _ _ os1 os2 os3]) (auto simp: filled_filled, blast)

lemma refilled_update: "k < length os \<Longrightarrow> refilled os (os[k := filled (os ! k) c0 c1])"
  by (auto simp: refilled_def list_all2_conv_all_nth nth_list_update)

lemma precedes_filled [simp]: "precedes (filled a c0 c1) b = precedes a b" "precedes a (filled b c0 c1) = precedes a b"
  by (simp_all add: precedes_def)

lemma refilled_book:
  assumes "refilled os os'" and "book_ok os" and "\<forall>ord \<in> set os'. order_ok ord"
  shows "book_ok os'"
proof -
  have len: "length os' = length os" and nth: "\<And>i. i < length os \<Longrightarrow> \<exists>c0 c1. os' ! i = filled (os ! i) c0 c1"
    using assms(1) by (auto simp: refilled_def list_all2_conv_all_nth)
  have "map Id os' = map Id os" using len nth by (intro nth_equalityI) fastforce+
  moreover have "precedes (os' ! i) (os' ! j) = precedes (os ! i) (os ! j)" if "i < length os" "j < length os" for i j
    using nth [OF that(1)] nth [OF that(2)] by auto
  ultimately show ?thesis using assms(2,3) len by (simp add: book_ok_def sorted_wrt_iff_nth_less)
qed

text \<open>What the loop keeps: the two tokens held by pool, orders and trader together, the recorded
  changes of the pool, the orders up to their balances, and the product of the pool does not fall.\<close>

definition hop_keeps :: "nat \<Rightarrow> ('b \<Rightarrow> Pdexv3Order list) \<Rightarrow> 'b hop \<Rightarrow> 'b hop \<Rightarrow> bool" where
  "hop_keeps d orders h h' \<longleftrightarrow>
     heldX d (reserve h') (orders (book h')) (sellAmountRemain h') = heldX d (reserve h) (orders (book h)) (sellAmountRemain h) \<and>
     heldY d (reserve h') (orders (book h')) (totalBuyAmount h') = heldY d (reserve h) (orders (book h)) (totalBuyAmount h) \<and>
     product (reserve h) \<le> product (reserve h') \<and> refilled (orders (book h)) (orders (book h')) \<and>
     (\<exists>c0 c1. reserve h' = swapped (reserve h) c0 c1 \<and> accumulatedToken0Change h' = accumulatedToken0Change h + c0 \<and>
        accumulatedToken1Change h' = accumulatedToken1Change h + c1)"

lemma swapped_swapped: "swapped (swapped tp a b) c e = swapped tp (a + c) (b + e)"
  by (simp add: swapped_def)

lemma hop_keeps_refl [simp]: "hop_keeps d orders h h"
  by (auto simp: hop_keeps_def intro: exI [of _ 0])

lemma hop_keeps_trans:
  assumes "hop_keeps d orders h1 h2" and "hop_keeps d orders h2 h3"
  shows "hop_keeps d orders h1 h3"
proof -
  from assms obtain a b c e where "reserve h2 = swapped (reserve h1) a b" "reserve h3 = swapped (reserve h2) c e"
    "accumulatedToken0Change h2 = accumulatedToken0Change h1 + a" "accumulatedToken1Change h2 = accumulatedToken1Change h1 + b"
    "accumulatedToken0Change h3 = accumulatedToken0Change h2 + c" "accumulatedToken1Change h3 = accumulatedToken1Change h2 + e"
    by (auto simp: hop_keeps_def)
  then have "\<exists>c0 c1. reserve h3 = swapped (reserve h1) c0 c1 \<and> accumulatedToken0Change h3 = accumulatedToken0Change h1 + c0 \<and>
      accumulatedToken1Change h3 = accumulatedToken1Change h1 + c1"
    by (intro exI [of _ "a + c"] exI [of _ "b + e"]) (simp add: swapped_swapped)
  with assms show ?thesis by (auto simp: hop_keeps_def intro: refilled_trans)
qed

lemma hop_swap_ok:
  assumes "hop_swap d ord h = Inr h'" and "hop_ok orders h"
  shows "hop_ok orders h'" and "hop_keeps d orders h h'" and "book h' = book h" and "ord = None \<Longrightarrow> sellAmountRemain h' = 0"
proof -
  from assms(1) obtain b r c0 c1 tp' t where
    s: "SwapToReachOrderRate (sellAmountRemain h) d ord (reserve h) = Inr (b, r, c0, c1, tp')" and
    t: "add_uint64 ''Sum exceeds uint64 range after swapping in pool'' (totalBuyAmount h) b = Inr t" and
    h': "h' = h\<lparr>sellAmountRemain := r, totalBuyAmount := t, accumulatedToken0Change := accumulatedToken0Change h + c0,
              accumulatedToken1Change := accumulatedToken1Change h + c1, reserve := tp'\<rparr>"
    by (auto simp: hop_swap_def go_bind_def split: sum.splits)
  have "pool_ok (reserve h)" "0 \<le> sellAmountRemain h" using assms(2) by (auto simp: hop_ok_def IsUint64_def)
  note st = swap_step [OF this s]
  have t': "t = totalBuyAmount h + b" "IsUint64 t" using add_uint64_ok [OF t _ st(5)] assms(2) by (auto simp: hop_ok_def)
  show "hop_ok orders h'" using assms(2) st(1,3,4) t' h' by (auto simp: hop_ok_def IsUint64_def)
  show "book h' = book h" using h' by simp
  show "ord = None \<Longrightarrow> sellAmountRemain h' = 0" using st(9) h' by simp
  show "hop_keeps d orders h h'"
    using st(2,8) h' t' swapped_reals [OF st(7)] by (auto simp: hop_keeps_def heldX_def heldY_def)
qed

lemma match_step:
  assumes "order_ok ord" and "0 \<le> m" and "Match m d ord = Inr (b, r, c0, c1, ord')"
  shows "order_ok ord'" and "0 \<le> r" and "r \<le> m" and "IsUint64 b" and "(c0, c1) = changes_for d (m - r) b"
    and "ord' = filled ord c0 c1" and "0 < r \<Longrightarrow> CanMatch ord' d \<noteq> Inr True"
proof -
  note acc = order_price.match_with_accounts [OF assms(3) [unfolded Match_def] assms(1,2)]
  then show "order_ok ord'" and "0 \<le> r" and "r \<le> m" and "(c0, c1) = changes_for d (m - r) b" and "ord' = filled ord c0 c1"
    by auto
  show "IsUint64 b" using acc assms(1) by (auto simp: order_ok_def maxBuyingAmount_def IsUint64_def split: if_splits)
  show "0 < r \<Longrightarrow> CanMatch ord' d \<noteq> Inr True" using acc exhausted_no_match by auto
qed

lemma hop_match_ok:
  assumes "hop_match upd d ord i put h = Inr h'" and "hop_ok orders h" and "k < length (orders (book h))" and "ord = orders (book h) ! k"
    and "\<And>ord'. orders (put ord') = (orders (book h))[k := ord']"
  shows "hop_ok orders h'" and "hop_keeps d orders h h'"
    and "\<exists>ord'. orders (book h') = (orders (book h))[k := ord'] \<and> (sellAmountRemain h' \<noteq> 0 \<longrightarrow> CanMatch ord' d \<noteq> Inr True)"
proof -
  from assms(1) obtain b r c0 c1 ord' t where
    m: "Match (sellAmountRemain h) d ord = Inr (b, r, c0, c1, ord')" and
    t: "add_uint64 ''Sum exceeds uint64 range after matching order'' (totalBuyAmount h) b = Inr t" and
    h': "h' = h\<lparr>sellAmountRemain := r, totalBuyAmount := t, book := put ord', OrderChanges := (OrderChanges h)(i \<mapsto> upd (OrderChanges h i) (c0, c1))\<rparr>"
    by (auto simp: hop_match_def go_bind_def split: sum.splits)
  have "order_ok ord" "0 \<le> sellAmountRemain h" using assms(2,3,4) by (auto simp: hop_ok_def IsUint64_def)
  note st = match_step [OF this m]
  have t': "t = totalBuyAmount h + b" "IsUint64 t" using add_uint64_ok [OF t _ st(4)] assms(2) by (auto simp: hop_ok_def)
  have os: "orders (book h') = (orders (book h))[k := ord']" using h' assms(5) by simp
  show "hop_ok orders h'"
    using assms(2) st(1,2,3) t' h' os by (auto simp: hop_ok_def IsUint64_def dest!: set_update_subset_insert [THEN subsetD])
  show "\<exists>ord'. orders (book h') = (orders (book h))[k := ord'] \<and> (sellAmountRemain h' \<noteq> 0 \<longrightarrow> CanMatch ord' d \<noteq> Inr True)"
    using os st(2,7) h' by (intro exI [of _ ord']) auto
  have "refilled (orders (book h)) (orders (book h'))" using os st(6) assms(3,4) refilled_update by simp
  then show "hop_keeps d orders h h'"
    using os h' t' assms(3,4) filled_balances [OF st(5), of ord] st(6)
    by (auto simp: hop_keeps_def heldX_def heldY_def sum_list_update_int intro: exI [of _ 0])
qed

definition matchable :: "nat \<Rightarrow> Pdexv3Order list \<Rightarrow> nat" where
  "matchable d os = length (filter (\<lambda>ord. CanMatch ord d = Inr True) os)"

lemma matchable_update:
  "k < length os \<Longrightarrow> CanMatch (os ! k) d = Inr True \<Longrightarrow> CanMatch ord d \<noteq> Inr True \<Longrightarrow>
   matchable d (os[k := ord]) < matchable d os"
proof (induction os arbitrary: k)
  case (Cons a os)
  then show ?case by (cases k) (auto simp: matchable_def)
qed simp

locale order_iterator_contract =
  fixes nextOrder :: "'b order_iterator" and orders :: "'b \<Rightarrow> Pdexv3Order list"
  assumes next_in_book: "\<And>b d ord i put. \<forall>ord \<in> set (orders b). order_ok ord \<Longrightarrow> nextOrder b d = Inr (Some (ord, i, put)) \<Longrightarrow>
      CanMatch ord d = Inr True \<and> i = Id ord \<and>
      (\<exists>k < length (orders b). ord = orders b ! k \<and> (\<forall>ord'. orders (put ord') = (orders b)[k := ord']))"
    and next_total: "\<And>b d. \<forall>ord \<in> set (orders b). order_ok ord \<Longrightarrow> d \<in> {TradeDirectionSell0, TradeDirectionSell1} \<Longrightarrow>
      go_ok (nextOrder b d)"
begin

lemma hop_rounds_end:
  assumes "hop_ok orders h" and "d \<in> {TradeDirectionSell0, TradeDirectionSell1}"
  shows "\<exists>r. hop_rounds (Suc (matchable d (orders (book h)))) upd nextOrder d h = Some r \<and>
    (\<forall>h'. r = Inr h' \<longrightarrow> hop_ok orders h' \<and> hop_keeps d orders h h' \<and> sellAmountRemain h' = 0)"
  using assms(1)
proof (induction "matchable d (orders (book h))" arbitrary: h rule: less_induct)
  case less
  have ok: "\<forall>ord \<in> set (orders (book h)). order_ok ord" using less.prems by (simp add: hop_ok_def)
  obtain ptr where ptr: "nextOrder (book h) d = Inr ptr" using next_total [OF ok assms(2)] by (auto simp: go_ok_def split: sum.splits)
  note unf = hop_round_def [of upd nextOrder d h] ptr
  show ?case
  proof (cases "hop_swap d (map_option fst ptr) h")
    case (Inr h1)
    note sw = hop_swap_ok [OF Inr less.prems]
    show ?thesis
    proof (cases "sellAmountRemain h1 = 0")
      case False
      with sw(4) obtain ord i put where p: "ptr = Some (ord, i, put)" by (cases ptr) auto
      from next_in_book [OF ok] ptr p obtain k where k: "CanMatch ord d = Inr True" "k < length (orders (book h))"
        "ord = orders (book h) ! k" "\<And>ord'. orders (put ord') = (orders (book h))[k := ord']" by blast
      show ?thesis
      proof (cases "hop_match upd d ord i put h1")
        case m: (Inr h2)
        note mt = hop_match_ok [OF m sw(1), unfolded sw(3), OF k(2,3,4)]
        have keeps: "hop_keeps d orders h h2" using hop_keeps_trans [OF sw(2)] mt(2) by blast
        show ?thesis
        proof (cases "sellAmountRemain h2 = 0")
          case True
          then show ?thesis using unf Inr False p m mt(1) keeps by simp
        next
          case left: False
          with mt(3) obtain ord' where o': "orders (book h2) = (orders (book h))[k := ord']" "CanMatch ord' d \<noteq> Inr True" by auto
          then have fewer: "matchable d (orders (book h2)) < matchable d (orders (book h))" using matchable_update k by simp
          from less.hyps [OF fewer mt(1)] obtain r where r: "hop_rounds (Suc (matchable d (orders (book h2)))) upd nextOrder d h2 = Some r"
            "\<forall>h'. r = Inr h' \<longrightarrow> hop_ok orders h' \<and> hop_keeps d orders h2 h' \<and> sellAmountRemain h' = 0" by auto
          have "hop_rounds (matchable d (orders (book h))) upd nextOrder d h2 = Some r" by (rule hop_rounds_mono [OF r(1)]) (use fewer in simp)
          then show ?thesis using unf Inr False p m left r(2) hop_keeps_trans [OF keeps] by auto
        qed
      qed (use unf Inr False p in simp)
    qed (use unf Inr sw in simp)
  qed (use unf in simp)
qed

lemma hop_loop_ends:
  assumes "hop_ok orders h" and "d \<in> {TradeDirectionSell0, TradeDirectionSell1}"
  shows "\<exists>r. hop_loop upd nextOrder d h = Some r \<and>
    (\<forall>h'. r = Inr h' \<longrightarrow> hop_ok orders h' \<and> hop_keeps d orders h h' \<and> sellAmountRemain h' = 0)"
  using hop_rounds_end [OF assms, of upd] hop_rounds_loop by blast

end

interpretation orderbook: order_iterator_contract Orderbook_iterator "\<lambda>orders. orders"
proof (unfold_locales, goal_cases)
  case (1 b d ord i put)
  then have "d \<in> {TradeDirectionSell0, TradeDirectionSell1}"
    by (auto simp: Orderbook_iterator_def NextOrder_def go_bind_def split: if_splits)
  from NextOrder_cases [OF 1(1) this] 1(2) show ?case
    by cases (auto simp: Orderbook_iterator_def)
next
  case (2 b d)
  from NextOrder_cases [OF this] show ?case by cases (auto simp: Orderbook_iterator_def go_ok_def)
qed

section \<open>The whole path\<close>

definition path_ok :: "('b \<Rightarrow> Pdexv3Order list) \<Rightarrow> (Pdexv3PoolPair \<times> nat \<times> 'b) list \<Rightarrow> bool" where
  "path_ok orders path \<longleftrightarrow> (\<forall>(tp, d, b) \<in> set path. pool_ok tp \<and> (\<forall>ord \<in> set (orders b). order_ok ord) \<and>
     d \<in> {TradeDirectionSell0, TradeDirectionSell1})"

text \<open>The specification of an accepted path: at each hop some amount comes in and some amount goes out
  to the next hop; the pool changes by the reported pair changes, the orders only in their balances,
  and both tokens are conserved between pool, orders and trade.\<close>

fun hops_conserve :: "('b \<Rightarrow> Pdexv3Order list) \<Rightarrow> int \<Rightarrow> (Pdexv3PoolPair \<times> nat \<times> 'b) list \<Rightarrow>
    (Pdexv3PoolPair \<times> (int \<times> int) \<times> 'b) list \<Rightarrow> int \<Rightarrow> bool" where
  "hops_conserve orders sell [] [] out \<longleftrightarrow> out = sell"
| "hops_conserve orders sell ((tp, d, b) # path) ((tp', c, b') # res) out \<longleftrightarrow>
     (\<exists>buy. IsUint64 buy \<and> pool_ok tp' \<and> tp' = swapped tp (fst c) (snd c) \<and> product tp \<le> product tp' \<and>
        refilled (orders b) (orders b') \<and> (\<forall>ord \<in> set (orders b'). order_ok ord) \<and>
        heldX d tp' (orders b') 0 = heldX d tp (orders b) sell \<and> heldY d tp' (orders b') buy = heldY d tp (orders b) 0 \<and>
        hops_conserve orders buy path res out)"
| "hops_conserve orders sell _ _ out \<longleftrightarrow> False"

definition results :: "'b AcceptedTrade \<Rightarrow> (Pdexv3PoolPair \<times> (int \<times> int) \<times> 'b) list" where
  "results acc = zip (acc_reserves acc) (zip (acc_PairChanges acc) (acc_books acc))"

definition acc_ok :: "'b AcceptedTrade \<Rightarrow> bool" where
  "acc_ok acc \<longleftrightarrow> length (acc_PairChanges acc) = length (acc_reserves acc) \<and> length (acc_books acc) = length (acc_reserves acc)"

lemma add_hop_results:
  "acc_ok acc \<Longrightarrow> acc_ok (add_hop h acc) \<and> acc_Amount (add_hop h acc) = totalBuyAmount h \<and>
   results (add_hop h acc) = results acc @ [(reserve h, (accumulatedToken0Change h, accumulatedToken1Change h), book h)]"
  by (simp add: acc_ok_def add_hop_def results_def)

context order_iterator_contract
begin

lemma start_hop_ok:
  "path_ok orders ((tp, d, b) # path) \<Longrightarrow> IsUint64 sell \<Longrightarrow> hop_ok orders (start_hop sell tp b)"
  by (simp add: path_ok_def hop_ok_def start_hop_def IsUint64_def)

lemma trade_path_ends:
  assumes "path_ok orders path" and "IsUint64 sell" and "acc_ok acc"
  shows "\<exists>r. trade_path nextOrder sell acc path = Some r \<and>
    (\<forall>acc'. r = Inr acc' \<longrightarrow> acc_ok acc' \<and> (path = [] \<longrightarrow> acc' = acc) \<and>
      (\<exists>res out. results acc' = results acc @ res \<and> hops_conserve orders sell path res out \<and>
         (path \<noteq> [] \<longrightarrow> acc_Amount acc' = out)))"
  using assms
proof (induction path arbitrary: sell acc)
  case Nil
  then show ?case by (auto intro: exI [of _ "[]"])
next
  case (Cons hop path)
  obtain tp d b where hop: "hop = (tp, d, b)" by (cases hop)
  have d: "d \<in> {TradeDirectionSell0, TradeDirectionSell1}" using Cons.prems(1) hop by (auto simp: path_ok_def)
  from hop_loop_ends [OF start_hop_ok d] Cons.prems hop obtain r where
    r: "hop_loop set_change nextOrder d (start_hop sell tp b) = Some r" and
    h: "\<And>h'. r = Inr h' \<Longrightarrow> hop_ok orders h' \<and> hop_keeps d orders (start_hop sell tp b) h' \<and> sellAmountRemain h' = 0" by blast
  show ?case
  proof (cases r)
    case (Inr h')
    have path: "path_ok orders path" using Cons.prems(1) by (simp add: path_ok_def)
    have buy: "IsUint64 (totalBuyAmount h')" using h [OF Inr] by (simp add: hop_ok_def)
    from Cons.IH [OF path buy, of "add_hop h' acc"] add_hop_results [OF Cons.prems(3), of h'] obtain r' where
      r': "trade_path nextOrder (totalBuyAmount h') (add_hop h' acc) path = Some r'" and
      tl: "\<And>acc'. r' = Inr acc' \<Longrightarrow> acc_ok acc' \<and> (path = [] \<longrightarrow> acc' = add_hop h' acc) \<and>
        (\<exists>res out. results acc' = results (add_hop h' acc) @ res \<and> hops_conserve orders (totalBuyAmount h') path res out \<and>
           (path \<noteq> [] \<longrightarrow> acc_Amount acc' = out))" by blast
    have eq: "trade_path nextOrder sell acc (hop # path) = Some r'" using hop r Inr r' by simp
    have "acc_ok acc' \<and> (\<exists>res out. results acc' = results acc @ res \<and> hops_conserve orders sell (hop # path) res out \<and> acc_Amount acc' = out)"
      if acc': "r' = Inr acc'" for acc'
    proof -
      from tl [OF acc'] obtain res out where t: "acc_ok acc'" "results acc' = results (add_hop h' acc) @ res"
        "hops_conserve orders (totalBuyAmount h') path res out" "path \<noteq> [] \<longrightarrow> acc_Amount acc' = out"
        "path = [] \<longrightarrow> acc' = add_hop h' acc" by blast
      define c where "c = (accumulatedToken0Change h', accumulatedToken1Change h')"
      have "hops_conserve orders sell (hop # path) ((reserve h', c, book h') # res) out"
        using h [OF Inr] t(3) buy hop by (auto simp: hop_keeps_def hop_ok_def start_hop_def c_def)
      moreover have "acc_Amount acc' = out"
        using t(3,4,5) add_hop_results [OF Cons.prems(3), of h'] by (cases path; cases res) auto
      ultimately show ?thesis using t(1,2) add_hop_results [OF Cons.prems(3), of h'] by (auto simp: c_def)
    qed
    then show ?thesis using eq by auto
  qed (use hop r in simp)
qed

end

lemmas trade_path_ends_orderbook = orderbook.trade_path_ends

lemma empty_trade_ok: "acc_ok empty_trade" "results empty_trade = []"
  by (simp_all add: acc_ok_def results_def empty_trade_def)

section \<open>Correctness of a trade\<close>

lemma trade_sell_uint64: "IsUint64 amountIn \<Longrightarrow> 0 \<le> fee \<Longrightarrow> fee \<le> amountIn \<Longrightarrow> IsUint64 (amountIn - fee)"
  by (simp add: IsUint64_def)

definition toy_trade :: "Orderbook AcceptedTrade go option" where
  "toy_trade = MaybeAcceptTrade Orderbook_iterator 30 5 [toy_pool] [TradeDirectionSell0] 20 [[toy_order]]"

lemma toy_path_ok: "path_ok (\<lambda>os. os) (zip [toy_pool] (zip [TradeDirectionSell0] [[toy_order]]))"
  using toy_pool_ok by (simp add: path_ok_def order_ok_def toy_order_def IsUint64_def)

lemma toy_first_round:
  "hop_loop set_change Orderbook_iterator TradeDirectionSell0 (start_hop 25 toy_pool [toy_order]) =
   hop_loop set_change Orderbook_iterator TradeDirectionSell0
     \<lparr>sellAmountRemain = 3, totalBuyAmount = 19, accumulatedToken0Change = 10, accumulatedToken1Change = -9,
      reserve = swapped toy_pool 10 (-9), book = [filled toy_order 12 (-10)], OrderChanges = [''o'' \<mapsto> (12, -10)]\<rparr>"
proof -
  have m: "Match 15 TradeDirectionSell0 toy_order = Inr (10, 3, 12, -10, filled toy_order 12 (-10))"
    by (simp add: Match_def match_with_def BuyAmountFromOrder_def SellAmountToOrder_def order_rates_def toy_order_def
      directions maxBuyingAmount_def IsUint64_def finish_match_def changes_for_def ApplyBalanceChanges_def
      opposite_signs_def filled_def Let_def)
  have n: "Orderbook_iterator [toy_order] TradeDirectionSell0 = Inr (Some (toy_order, ''o'', \<lambda>ord'. [ord']))"
    by (simp add: Orderbook_iterator_def NextOrder_def CanMatch_def SellAmountToOrder_def order_rates_def toy_order_def
      directions maxBuyingAmount_def IsUint64_def)
  show ?thesis
    by (subst hop_loop.simps) (simp add: start_hop_def n hop_swap_def toy_pool_swap hop_match_def set_change_def m add_uint64_def)
qed

lemma toy_last_round:
  "hop_loop set_change Orderbook_iterator TradeDirectionSell0
     \<lparr>sellAmountRemain = 3, totalBuyAmount = 19, accumulatedToken0Change = 10, accumulatedToken1Change = -9,
      reserve = swapped toy_pool 10 (-9), book = [filled toy_order 12 (-10)], OrderChanges = [''o'' \<mapsto> (12, -10)]\<rparr> =
   Some (Inr \<lparr>sellAmountRemain = 0, totalBuyAmount = 21, accumulatedToken0Change = 13, accumulatedToken1Change = -11,
      reserve = swapped toy_pool 13 (-11), book = [filled toy_order 12 (-10)], OrderChanges = [''o'' \<mapsto> (12, -10)]\<rparr>)"
proof -
  have w: "SwapToReachOrderRate 3 TradeDirectionSell0 None (swapped toy_pool 10 (-9)) = Inr (2, 0, 3, -2, swapped toy_pool 13 (-11))"
    by (simp add: SwapToReachOrderRate_def toy_pool_def HasInsufficientLiquidity_def directions BuyAmount_def
      calculateBuyAmount_def IsUint64_def finish_swap_def changes_for_def ApplyReserveChanges_def opposite_signs_def swapped_def)
  have n: "Orderbook_iterator [filled toy_order 12 (-10)] TradeDirectionSell0 = Inr None"
    by (simp add: Orderbook_iterator_def NextOrder_def CanMatch_def SellAmountToOrder_def order_rates_def toy_order_def
      directions maxBuyingAmount_def IsUint64_def filled_def)
  show ?thesis by (subst hop_loop.simps) (simp add: n hop_swap_def w add_uint64_def)
qed

lemma toy_trade_result:
  "toy_trade = Some (Inr \<lparr>acc_Amount = 21, acc_PairChanges = [(13, -11)], acc_OrderChanges = [[''o'' \<mapsto> (12, -10)]],
     acc_reserves = [swapped toy_pool 13 (-11)], acc_books = [[filled toy_order 12 (-10)]]\<rparr>)"
  by (simp add: toy_trade_def MaybeAcceptTrade_def toy_first_round toy_last_round add_hop_def empty_trade_def)

text \<open>C2. An accepted trade conserves tokens: along the path every hop takes in what the hop before paid
  out (the first one the input less the fee, the last one pays the accepted amount, which is at least the
  minimum), and at each hop the sold and the bought token of the pool's real reserves, the order balances
  and the trade add up to what they were. The pools change by the reported pair changes and stay well
  formed with no lower product; the orders change in their balances only.\<close>

theorem trade_conserves_tokens:
  assumes "path_ok (\<lambda>os. os) (zip reserves (zip tradeDirections orderbooks))" and "IsUint64 amountIn" and "0 \<le> fee"
    and "reserves \<noteq> []"
    and "MaybeAcceptTrade Orderbook_iterator amountIn fee reserves tradeDirections minAmount orderbooks = Some (Inr acc)"
  shows "hops_conserve (\<lambda>os. os) (amountIn - fee) (zip reserves (zip tradeDirections orderbooks)) (results acc) (acc_Amount acc) \<and>
    fee \<le> amountIn \<and> minAmount \<le> acc_Amount acc"
proof -
  from assms(5) have len: "length tradeDirections = length reserves" "length orderbooks = length reserves" "fee \<le> amountIn"
    and tp: "trade_path Orderbook_iterator (amountIn - fee) empty_trade (zip reserves (zip tradeDirections orderbooks)) = Some (Inr acc)"
    and mn: "minAmount \<le> acc_Amount acc"
    by (auto simp: MaybeAcceptTrade_def split: if_splits option.splits sum.splits)
  have ne: "zip reserves (zip tradeDirections orderbooks) \<noteq> []" using assms(4) len by (cases reserves; cases tradeDirections; cases orderbooks) auto
  from trade_path_ends_orderbook [OF assms(1) trade_sell_uint64 [OF assms(2,3) len(3)] empty_trade_ok(1)] tp ne mn len(3)
  show ?thesis by (auto simp: empty_trade_ok)
qed

theorem trade_conserves_tokens_witness:
  "hops_conserve (\<lambda>os. os) 25 [(toy_pool, TradeDirectionSell0, [toy_order])]
     [(swapped toy_pool 13 (-11), (13, -11), [filled toy_order 12 (-10)])] 21"
  using trade_conserves_tokens [OF toy_path_ok, of 30 5 20] toy_trade_result
  by (simp add: toy_trade_def IsUint64_def results_def)

end
