(* ===== verification/Pdex_Staking_Safety.thy ===== *)
theory Pdex_Staking_Safety
  imports Pdex_Staking
begin

text \<open>
  Solvency of the staking pools. A pool owes every staker the rewards it has recorded for him and what its rewards per
  share have grown by since, times his liquidity. Staking and unstaking never raise what is owed, a distribution raises
  it by at most the distributed amount, and a withdrawal lowers it by at least what is paid. The locale
  \<open>solvent_runs\<close> turns this into a statement about runs of the producers.
\<close>

section \<open>One pool\<close>

definition staker_owed :: "amounts \<Rightarrow> string \<Rightarrow> Staker \<Rightarrow> int" where
  "staker_owed R t st = BaseLPFeesPerShare * map_uint (st_rewards st) t + (map_uint R t - map_uint (st_lastRewardsPerShare st) t) * st_liquidity st"

definition pool_owed :: "string \<Rightarrow> StakingPoolState \<Rightarrow> int" where
  "pool_owed t s = al_sum (\<lambda>(_, st). staker_owed (sp_rewardsPerShare s) t st) (sp_stakers s)"

definition staker_ok :: "amounts \<Rightarrow> string \<times> Staker \<Rightarrow> bool" where
  "staker_ok R = (\<lambda>(nftID, st). HashFromStr nftID = Some nftID \<and> IsUint64 (st_liquidity st) \<and>
     (\<forall>t. 0 \<le> map_uint (st_rewards st) t) \<and> (\<forall>t. 0 \<le> map_uint (st_lastRewardsPerShare st) t \<and>
     map_uint (st_lastRewardsPerShare st) t \<le> map_uint R t))"

definition staking_ok :: "StakingPoolState \<Rightarrow> bool" where
  "staking_ok s \<longleftrightarrow> distinct (map fst (sp_stakers s)) \<and> distinct (map fst (sp_rewardsPerShare s)) \<and>
     (\<forall>x \<in> set (sp_stakers s). staker_ok (sp_rewardsPerShare s) x) \<and> (\<forall>t. 0 \<le> map_uint (sp_rewardsPerShare s) t) \<and>
     IsUint64 (sp_liquidity s) \<and> sp_liquidity s = al_sum (\<lambda>(_, st). st_liquidity st) (sp_stakers s)"

lemma map_uint_Nil [simp]: "map_uint [] t = 0"
  by (simp add: map_uint_def)

lemma staking_ok_new: "staking_ok NewStakingPoolState"
  by (simp add: staking_ok_def NewStakingPoolState_def IsUint64_def)

lemma staker_owed_nonneg: "staker_ok R (k, st) \<Longrightarrow> 0 \<le> staker_owed R t st"
  by (simp add: staker_ok_def staker_owed_def IsUint64_def BaseLPFeesPerShare_def)

lemma staking_ok_staker: "staking_ok s \<Longrightarrow> map_of (sp_stakers s) k = Some st \<Longrightarrow> staker_ok (sp_rewardsPerShare s) (k, st)"
  using map_of_SomeD by (fastforce simp: staking_ok_def)

lemma pool_owed_nonneg: "staking_ok s \<Longrightarrow> 0 \<le> pool_owed t s"
  unfolding pool_owed_def by (intro al_sum_nonneg) (auto simp: staking_ok_def dest: staker_owed_nonneg)

text \<open>What a recomputation returns is covered by what is owed.\<close>

lemma recompute_owed:
  assumes "RecomputeStakingRewards k s = Inr rewards" and "staking_ok s" and "map_of (sp_stakers s) k = Some st"
  shows "distinct (map fst rewards)" and "0 \<le> map_uint rewards t" and "BaseLPFeesPerShare * map_uint rewards t \<le> staker_owed (sp_rewardsPerShare s) t st"
    and "\<forall>v \<in> snd ` set rewards. IsUint64 v \<and> 0 < v"
proof -
  let ?R = "sp_rewardsPerShare s"
  have run: "go_foldl (staking_reward_step st) [] ?R = Inr rewards" using assms(1,3) by (simp add: RecomputeStakingRewards_def)
  then have "\<forall>(t, new) \<in> set ?R. IsUint64 (staker_reward st t new)" by (auto intro: staking_loop_range)
  with staking_loop [of ?R "[]" st] run assms(2) have d: "distinct (map fst rewards)"
    and m: "\<And>t. map_of rewards t = (case map_of ?R t of None \<Rightarrow> None
      | Some new \<Rightarrow> if 0 < staker_reward st t new then Some (staker_reward st t new) else None)"
    by (auto simp: staking_ok_def split: option.splits)
  show "distinct (map fst rewards)" by (rule d)
  show "\<forall>v \<in> snd ` set rewards. IsUint64 v \<and> 0 < v"
  proof (clarsimp)
    fix u v assume "(u, v) \<in> set rewards"
    then have "map_of rewards u = Some v" using d by simp
    then obtain new where "map_of ?R u = Some new" "v = staker_reward st u new" "0 < v" using m [of u] by (auto split: option.splits if_splits)
    then show "IsUint64 v \<and> 0 < v" using staking_loop_range [OF run] map_of_SomeD by fastforce
  qed
  show "0 \<le> map_uint rewards t" using m [of t] by (auto simp: map_uint_def split: option.splits)
  have o0: "0 \<le> staker_owed ?R t st" using staking_ok_staker [OF assms(2,3)] by (rule staker_owed_nonneg)
  have "BaseLPFeesPerShare * staker_reward st t (map_uint ?R t) \<le> staker_owed ?R t st"
    unfolding staker_reward_def staker_owed_def distrib_left by (simp add: scaled_div_le)
  then show "BaseLPFeesPerShare * map_uint rewards t \<le> staker_owed ?R t st"
    using o0 m [of t] by (auto simp: map_uint_def split: option.splits)
qed

lemma pool_owed_put:
  assumes "staking_ok s"
  shows "pool_owed t (s\<lparr>sp_stakers := al_put k st (sp_stakers s), sp_liquidity := l\<rparr>) =
    pool_owed t s + staker_owed (sp_rewardsPerShare s) t st - (case map_of (sp_stakers s) k of None \<Rightarrow> 0 | Some st' \<Rightarrow> staker_owed (sp_rewardsPerShare s) t st')"
  using assms by (simp add: pool_owed_def al_sum_put staking_ok_def split: option.splits)

text \<open>Replacing one staker by one who starts from the current rewards per share.\<close>

lemma put_staker:
  assumes s: "staking_ok s" and st: "HashFromStr k = Some k" "IsUint64 (st_liquidity st)" "\<And>t. 0 \<le> map_uint (st_rewards st) t"
      "st_lastRewardsPerShare st = sp_rewardsPerShare s"
    and l: "IsUint64 l" "l = sp_liquidity s + st_liquidity st - (case map_of (sp_stakers s) k of None \<Rightarrow> 0 | Some st' \<Rightarrow> st_liquidity st')"
  shows "staking_ok (s\<lparr>sp_stakers := al_put k st (sp_stakers s), sp_liquidity := l\<rparr>)"
proof -
  have "staker_ok (sp_rewardsPerShare s) x" if "x \<in> set (al_put k st (sp_stakers s))" for x
    using that s st by (auto simp: set_al_put staking_ok_def staker_ok_def split: prod.splits)
  then show ?thesis using s l by (auto simp: staking_ok_def al_sum_put split: option.splits)
qed

lemma updateLiquidity_ok:
  assumes s: "staking_ok s" and u: "updateLiquidity k amount op s = Inr s'" and a: "IsUint64 amount" and k: "HashFromStr k = Some k"
    and op: "op = addOperator \<or> op = subOperator"
  shows "staking_ok s' \<and> pool_owed t s' \<le> pool_owed t s"
proof -
  have sl: "IsUint64 (sp_liquidity s)" using s unfolding staking_ok_def by blast
  show ?thesis
  proof (cases "map_of (sp_stakers s) k")
    case None
    with u op have opa: "op = addOperator" by (auto simp: updateLiquidity_def)
    let ?st = "\<lparr>st_liquidity = amount, st_rewards = [], st_lastRewardsPerShare = sp_rewardsPerShare s\<rparr>"
    have s': "s' = s\<lparr>sp_stakers := al_put k ?st (sp_stakers s), sp_liquidity := sp_liquidity s + amount\<rparr>" "sp_liquidity s + amount < 2 ^ 64"
      using u None sl a unfolding opa by (auto simp: updateLiquidity_def operators(1,2) simp del: operators split: if_splits)
    have "IsUint64 (sp_liquidity s + amount)" using s'(2) sl a by (simp add: IsUint64_def)
    then have "staking_ok s'" unfolding s'(1) using None k a s by (intro put_staker) auto
    then show ?thesis using None s by (simp add: s'(1) pool_owed_put) (simp add: staker_owed_def)
  next
    case (Some st)
    have ok: "staker_ok (sp_rewardsPerShare s) (k, st)" using s Some by (rule staking_ok_staker)
    from u Some k obtain l rewards l' where r: "executeOperationUint64 (st_liquidity st) amount op = Inr l"
      "RecomputeStakingRewards k s = Inr rewards" "pool_liquidity (sp_liquidity s) amount op = Inr l'"
      and s': "s' = s\<lparr>sp_stakers := al_put k \<lparr>st_liquidity = l, st_rewards = rewards, st_lastRewardsPerShare = sp_rewardsPerShare s\<rparr> (sp_stakers s),
        sp_liquidity := l'\<rparr>"
      by (auto simp: updateLiquidity_def)
    have "IsUint64 (st_liquidity st)" using ok by (simp add: staker_ok_def)
    then have l: "IsUint64 l \<and> IsUint64 l' \<and> l' = sp_liquidity s + l - st_liquidity st" using r(1,3) sl a op by (auto simp: IsUint64_def split: if_splits)
    then have "staking_ok s'" unfolding s' using Some k s recompute_owed(2) [OF r(2) s Some] by (intro put_staker) auto
    then show ?thesis using s Some recompute_owed(3) [OF r(2) s Some, of t] by (simp add: s' pool_owed_put) (simp add: staker_owed_def)
  qed
qed

lemma AddReward_ok:
  assumes s: "staking_ok s" and a: "0 \<le> a"
  shows "staking_ok (StakingPool_AddReward u a s) \<and> pool_owed t (StakingPool_AddReward u a s) \<le> pool_owed t s + (if t = u then BaseLPFeesPerShare * a else 0)"
proof (cases "sp_liquidity s = 0")
  case True
  then show ?thesis using s a by (simp add: StakingPool_AddReward_def BaseLPFeesPerShare_def)
next
  case False
  define d where "d = a * BaseLPFeesPerShare div sp_liquidity s"
  have l: "0 < sp_liquidity s" using False s by (simp add: staking_ok_def IsUint64_def)
  then have d: "0 \<le> d" "d * sp_liquidity s \<le> BaseLPFeesPerShare * a"
    using a by (auto simp: d_def pos_imp_zdiv_nonneg_iff BaseLPFeesPerShare_def) (metis mult.commute scaled_div_le)
  let ?R = "sp_rewardsPerShare s"
  have s': "StakingPool_AddReward u a s = s\<lparr>sp_rewardsPerShare := al_put u (map_uint ?R u + d) ?R\<rparr>"
    using False by (simp add: StakingPool_AddReward_def d_def)
  have "staker_ok (al_put u (map_uint ?R u + d) ?R) x" if "staker_ok ?R x" for x
    using that d(1) by (auto simp: staker_ok_def add_increasing2 split: prod.splits)
  then have ok: "staking_ok (StakingPool_AddReward u a s)" using s d(1) by (auto simp: s' staking_ok_def)
  have "staker_owed (al_put u (map_uint ?R u + d) ?R) t st = staker_owed ?R t st + (if t = u then d else 0) * st_liquidity st" for st
    by (simp add: staker_owed_def distrib_right left_diff_distrib)
  then have "pool_owed t (StakingPool_AddReward u a s) = al_sum (\<lambda>x. (case x of (_, st) \<Rightarrow> staker_owed ?R t st) + (if t = u then d else 0) * (case x of (_, st) \<Rightarrow> st_liquidity st)) (sp_stakers s)"
    by (auto simp: pool_owed_def s' intro!: al_sum_cong split: prod.splits)
  also have "\<dots> = pool_owed t s + (if t = u then d else 0) * sp_liquidity s"
    using s unfolding al_sum_add al_sum_cmult by (simp add: pool_owed_def staking_ok_def)
  finally show ?thesis using ok d(2) by simp
qed

lemma al_upd_put: "map_of m k = Some v \<Longrightarrow> distinct (map fst m) \<Longrightarrow> al_upd k f m = al_put k (f v) m"
proof -
  assume k: "map_of m k = Some v" and d: "distinct (map fst m)"
  have "(case x of (k', w) \<Rightarrow> (k', if k' = k then f w else w)) = (case x of (k', w) \<Rightarrow> (k', if k' = k then f v else w))" if "x \<in> set m" for x
    using that k map_of_is_SomeI [OF d, of "fst x" "snd x"] by (auto split: prod.splits)
  moreover have "k \<in> fst ` set m" using map_of_SomeD [OF k] by force
  ultimately show ?thesis by (simp add: al_upd_def al_put_def)
qed

lemma map_uint_reset [simp]: "map_uint (resetKeyValueToZero m) t = 0"
  by (induction m) (auto simp: map_uint_def resetKeyValueToZero_def)

lemma reset_staker_ok:
  assumes s: "staking_ok s" and r: "RecomputeStakingRewards k s = Inr rewards" and k: "map_of (sp_stakers s) k = Some st"
  shows "staking_ok (reset_staker k s) \<and> pool_owed t (reset_staker k s) + BaseLPFeesPerShare * map_uint rewards t \<le> pool_owed t s"
proof -
  have ok: "staker_ok (sp_rewardsPerShare s) (k, st)" using s k by (rule staking_ok_staker)
  let ?st = "st\<lparr>st_rewards := resetKeyValueToZero (st_rewards st), st_lastRewardsPerShare := sp_rewardsPerShare s\<rparr>"
  have s': "reset_staker k s = s\<lparr>sp_stakers := al_put k ?st (sp_stakers s), sp_liquidity := sp_liquidity s\<rparr>"
    using k s by (simp add: reset_staker_def al_upd_put staking_ok_def)
  have "staking_ok (reset_staker k s)" unfolding s' using s k ok by (intro put_staker) (auto simp: staking_ok_def staker_ok_def)
  then show ?thesis using k recompute_owed(3) [OF r s k, of t] unfolding s' pool_owed_put [OF s] by (simp add: staker_owed_def)
qed

section \<open>The amounts of instructions\<close>

definition inst_received :: "string \<times> string \<Rightarrow> 'r staking_inst \<Rightarrow> int" where
  "inst_received = (\<lambda>(pid, t) inst. case inst of
      DistributeStakingRewardInst d \<Rightarrow> if dc_StakingPoolID d = pid then al_sum (\<lambda>(u, a). if u = t then a else 0) (dc_Rewards d) else 0
    | _ \<Rightarrow> 0)"

definition inst_paid :: "string \<times> string \<Rightarrow> 'r staking_inst \<Rightarrow> int" where
  "inst_paid = (\<lambda>(pid, t) inst. case inst of
      WithdrawStakingRewardInst accepted c \<Rightarrow>
        if accepted \<and> wc_StakingPoolID c = pid \<and> wc_TokenID c = t then (case wc_Receiver c of None \<Rightarrow> 0 | Some (_, a) \<Rightarrow> a) else 0
    | _ \<Rightarrow> 0)"

definition insts_sum :: "('r staking_inst \<Rightarrow> int) \<Rightarrow> 'r staking_inst list \<Rightarrow> int" where
  "insts_sum f insts = sum_list (map f insts)"

lemma insts_sum_simps [simp]:
  "insts_sum f [] = 0" "insts_sum f (i # insts) = f i + insts_sum f insts" "insts_sum f (xs @ ys) = insts_sum f xs + insts_sum f ys"
  by (simp_all add: insts_sum_def)

lemma inst_amounts [simp]:
  "inst_paid x (MintNftInst a m) = 0" "inst_paid x (AcceptStakingInst as) = 0" "inst_paid x (RejectStakingInst rs) = 0"
  "inst_paid x (AcceptUnstakingInst au) = 0" "inst_paid x (RejectUnstakingInst ru) = 0" "inst_paid x (DistributeStakingRewardInst d) = 0"
  "inst_paid x (WithdrawStakingRewardInst False c) = 0"
  "inst_received x (MintNftInst a m) = 0" "inst_received x (AcceptStakingInst as) = 0" "inst_received x (RejectStakingInst rs) = 0"
  "inst_received x (AcceptUnstakingInst au) = 0" "inst_received x (RejectUnstakingInst ru) = 0" "inst_received x (WithdrawStakingRewardInst b c) = 0"
  by (simp_all add: inst_paid_def inst_received_def split: prod.splits)

lemma sum_list_sort_key: "sum_list (map (g :: _ \<Rightarrow> int) (sort_key f xs)) = sum_list (map g xs)"
  unfolding sum_mset_sum_list [symmetric] mset_map by simp

lemma al_sum_pick: "distinct (map fst m) \<Longrightarrow> al_sum (\<lambda>(u, a). if u = t then a else 0) m = map_uint m t"
proof (induction m)
  case (Cons x m)
  obtain u a where x: "x = (u, a)" by fastforce
  have "map_of m u = None" using Cons.prems x by (auto simp: map_of_eq_None_iff)
  then show ?case using Cons by (auto simp: x al_sum_def map_uint_def)
qed simp

lemma withdraw_insts_paid:
  assumes "distinct (map fst reward)"
  shows "insts_sum (inst_paid (pid', t)) (BuildWithdrawStakingRewardInsts pid nft (map (\<lambda>(u, a). (u, r u, a)) reward) shard tx) =
      (if pid' = pid then map_uint reward t else 0)"
    and "insts_sum (inst_received y) (BuildWithdrawStakingRewardInsts pid nft recs shard tx) = 0"
proof -
  have z: "map (\<lambda>(i, x). g x) (zip [0..<length xs] xs) = map g xs" for g :: "string \<times> 'r \<times> int \<Rightarrow> int" and xs
    using map_snd_zip [of "[0..<length xs]" xs] map_map [of g snd "zip [0..<length xs] xs"] by (simp add: comp_def case_prod_unfold)
  let ?g = "\<lambda>(u, _, a). if pid' = pid \<and> u = t then a else 0 :: int" and ?recs = "map (\<lambda>(u, a). (u, r u, a)) reward"
  have "insts_sum (inst_paid (pid', t)) (BuildWithdrawStakingRewardInsts pid nft ?recs shard tx) =
      sum_list (map (\<lambda>(i, x). ?g x) (zip [0..<length (sort_key fst ?recs)] (sort_key fst ?recs)))"
    by (auto simp: insts_sum_def BuildWithdrawStakingRewardInsts_def Let_def inst_paid_def intro!: arg_cong [where f = sum_list])
  also have "\<dots> = sum_list (map ?g ?recs)" unfolding z sum_list_sort_key ..
  also have "\<dots> = (if pid' = pid then al_sum (\<lambda>(u, a). if u = t then a else 0) reward else 0)"
    by (auto simp: al_sum_def comp_def case_prod_unfold intro!: arg_cong [where f = sum_list])
  finally show "insts_sum (inst_paid (pid', t)) (BuildWithdrawStakingRewardInsts pid nft ?recs shard tx) = (if pid' = pid then map_uint reward t else 0)"
    using assms by (simp add: al_sum_pick)
  show "insts_sum (inst_received y) (BuildWithdrawStakingRewardInsts pid nft recs shard tx) = 0"
    by (auto simp: insts_sum_def BuildWithdrawStakingRewardInsts_def Let_def comp_def case_prod_unfold)
qed

section \<open>The producers keep the books\<close>

definition pools_ok :: "pools \<Rightarrow> bool" where
  "pools_ok pools \<longleftrightarrow> distinct (map fst pools) \<and> (\<forall>s \<in> snd ` set pools. staking_ok s)"

definition owed_of :: "string \<times> string \<Rightarrow> pools \<Rightarrow> int" where
  "owed_of = (\<lambda>(pid, t) pools. case map_of pools pid of None \<Rightarrow> 0 | Some s \<Rightarrow> pool_owed t s)"

text \<open>Pools and instructions that a producer may have reached from \<open>pools0\<close>.\<close>

definition books :: "pools \<Rightarrow> pools \<times> 'r staking_inst list \<Rightarrow> bool" where
  "books pools0 = (\<lambda>(pools, insts). pools_ok pools \<and> (\<forall>x. 0 \<le> insts_sum (inst_paid x) insts \<and> owed_of x pools + BaseLPFeesPerShare * insts_sum (inst_paid x) insts
     \<le> owed_of x pools0 + BaseLPFeesPerShare * insts_sum (inst_received x) insts))"

lemma pools_ok_pool: "pools_ok pools \<Longrightarrow> map_of pools pid = Some s \<Longrightarrow> staking_ok s"
  by (force simp: pools_ok_def dest: map_of_SomeD)

lemma pools_ok_put: "pools_ok pools \<Longrightarrow> staking_ok s \<Longrightarrow> pools_ok (al_put pid s pools)"
  by (auto simp: pools_ok_def set_al_put)

lemma books_start: "pools_ok pools \<Longrightarrow> books pools (pools, [])"
  by (simp add: books_def)

lemma books_same:
  "books pools0 (pools, insts) \<Longrightarrow> (\<And>x. insts_sum (inst_paid x) new = 0) \<Longrightarrow> (\<And>x. insts_sum (inst_received x) new = 0) \<Longrightarrow> books pools0 (pools, insts @ new)"
  by (simp add: books_def)

lemma books_put:
  assumes b: "books pools0 (pools, insts)" and pid: "map_of pools pid = Some s" and s': "staking_ok s'"
    and same: "\<And>t. pool_owed t s' + BaseLPFeesPerShare * insts_sum (inst_paid (pid, t)) new \<le> pool_owed t s + BaseLPFeesPerShare * insts_sum (inst_received (pid, t)) new"
    and pos: "\<And>t. 0 \<le> insts_sum (inst_paid (pid, t)) new"
    and other: "\<And>pid' t. pid' \<noteq> pid \<Longrightarrow> insts_sum (inst_paid (pid', t)) new = 0 \<and> insts_sum (inst_received (pid', t)) new = 0"
  shows "books pools0 (al_put pid s' pools, insts @ new)"
proof -
  have "0 \<le> insts_sum (inst_paid (pid', t)) (insts @ new) \<and> owed_of (pid', t) (al_put pid s' pools) + BaseLPFeesPerShare * insts_sum (inst_paid (pid', t)) (insts @ new)
     \<le> owed_of (pid', t) pools0 + BaseLPFeesPerShare * insts_sum (inst_received (pid', t)) (insts @ new)" for pid' t
  proof -
    have "0 \<le> insts_sum (inst_paid (pid', t)) insts \<and> owed_of (pid', t) pools + BaseLPFeesPerShare * insts_sum (inst_paid (pid', t)) insts
     \<le> owed_of (pid', t) pools0 + BaseLPFeesPerShare * insts_sum (inst_received (pid', t)) insts" using b by (simp add: books_def)
    then show ?thesis using same [of t] pos [of t] other [of pid' t] pid by (cases "pid' = pid") (auto simp: owed_of_def distrib_left)
  qed
  then show ?thesis using b s' by (auto simp: books_def pools_ok_put)
qed

definition canonical_nfts :: "(string \<times> int) list \<Rightarrow> bool" where
  "canonical_nfts nftIDs \<longleftrightarrow> (\<forall>(nft, _) \<in> set nftIDs. HashFromStr nft = Some nft)"

lemma known_nft_canonical: "known_nft nftIDs nft \<Longrightarrow> canonical_nfts nftIDs \<Longrightarrow> HashFromStr nft = Some nft"
  by (fastforce simp: known_nft_def canonical_nfts_def dest: map_of_SomeD)

lemma staking_tx_books:
  assumes b: "books pools0 (pools, insts)" and r: "staking_tx nftIDs (pools, insts) tx = Inr res"
    and n: "canonical_nfts nftIDs" and a: "IsUint64 (sr_tokenAmount (tx_Metadata tx))"
  shows "books pools0 res"
proof -
  have ok: "pools_ok pools" using b by (simp add: books_def)
  let ?md = "tx_Metadata tx"
  consider (reject) i where "res = (pools, insts @ [RejectStakingInst i])"
    | (accept) s s' i where "map_of pools (sr_tokenID ?md) = Some s" "known_nft nftIDs (sr_nftID ?md)"
      "updateLiquidity (sr_nftID ?md) (sr_tokenAmount ?md) addOperator s = Inr s'"
      "res = (al_put (sr_tokenID ?md) s' pools, insts @ [AcceptStakingInst i])"
    using r by (auto simp: staking_tx_def Let_def go_catch_eq_Inr split: option.splits if_splits)
  then show ?thesis
  proof cases
    case reject
    then show ?thesis using b by (simp add: books_same)
  next
    case accept
    have "staking_ok s" using ok accept(1) by (rule pools_ok_pool)
    from updateLiquidity_ok [OF this accept(3) a known_nft_canonical [OF accept(2) n]] show ?thesis
      unfolding accept(4) by (intro books_put [OF b accept(1)]) auto
  qed
qed

lemma unstaking_tx_books:
  fixes insts :: "'a staking_inst list"
  assumes b: "books pools0 (pools, insts)" and r: "unstaking_tx nftIDs (pools, insts) tx = Inr res"
    and n: "canonical_nfts nftIDs" and a: "IsUint64 (ur_unstakingAmount (tx_Metadata tx))"
  shows "books pools0 res"
proof -
  have ok: "pools_ok pools" using b by (simp add: books_def)
  let ?md = "tx_Metadata tx"
  consider (reject) i m where "res = (pools, insts @ [RejectUnstakingInst i, MintNftInst ''297'' m])"
    | (accept) s s' i m where "map_of pools (ur_stakingPoolID ?md) = Some s" "known_nft nftIDs (ur_nftID ?md)"
      "updateLiquidity (ur_nftID ?md) (ur_unstakingAmount ?md) subOperator s = Inr s'"
      "res = (al_put (ur_stakingPoolID ?md) s' pools, insts @ [AcceptUnstakingInst i, MintNftInst ''297'' m])"
  proof -
    obtain rej where rej: "(BuildRejectUnstakingInstructions ?md (tx_Hash tx) (tx_ShardID tx) :: 'a staking_inst list go) = Inr rej"
      using r by (auto simp: unstaking_tx_def Let_def)
    then obtain i m where "rej = [RejectUnstakingInst i, MintNftInst ''297'' m]"
      by (auto simp: BuildRejectUnstakingInstructions_def mint_nft_inst_def)
    then show thesis using r that
      by (auto simp: unstaking_tx_def Let_def rej go_catch_eq_Inr BuildAcceptUnstakingInstructions_def mint_nft_inst_def
          split: option.splits if_splits)
  qed
  then show ?thesis
  proof cases
    case reject
    then show ?thesis using b by (simp add: books_same)
  next
    case accept
    have "staking_ok s" using ok accept(1) by (rule pools_ok_pool)
    from updateLiquidity_ok [OF this accept(3) a known_nft_canonical [OF accept(2) n]] show ?thesis
      unfolding accept(4) by (intro books_put [OF b accept(1)]) auto
  qed
qed

lemma withdraw_staking_tx_books:
  assumes b: "books pools0 (pools, insts)" and r: "withdraw_staking_tx otaString (pools, insts) tx = Inr res"
  shows "books pools0 res"
proof -
  have ok: "pools_ok pools" using b by (simp add: books_def)
  let ?md = "tx_Metadata tx"
  consider (reject) m c where "res = (pools, insts @ [MintNftInst ''306'' m, WithdrawStakingRewardInst False c])"
    | (accept) s st reward m where "map_of pools (wr_StakingPoolID ?md) = Some s" "map_of (sp_stakers s) (wr_NftID ?md) = Some st"
      "RecomputeStakingRewards (wr_NftID ?md) s = Inr reward"
      "res = (al_put (wr_StakingPoolID ?md) (reset_staker (wr_NftID ?md) s) pools, insts @ MintNftInst ''306'' m #
         BuildWithdrawStakingRewardInsts (wr_StakingPoolID ?md) (wr_NftID ?md)
           (map (\<lambda>(u, a). (u, the (wr_Receivers ?md u), a)) reward) (tx_ShardID tx) (tx_Hash tx))"
    using r by (auto simp: withdraw_staking_tx_def Let_def BuildRejectWithdrawStakingRewardInsts_def mint_nft_inst_def split: option.splits if_splits)
  then show ?thesis
  proof cases
    case reject
    then show ?thesis using b by (simp add: books_same)
  next
    case accept
    have s: "staking_ok s" using ok accept(1) by (rule pools_ok_pool)
    show ?thesis unfolding accept(4) using reset_staker_ok [OF s accept(3,2)] recompute_owed(1,2) [OF accept(3) s accept(2)]
      by (intro books_put [OF b accept(1)]) (auto simp: withdraw_insts_paid)
  qed
qed

lemma add_rewards_ok:
  "staking_ok s \<Longrightarrow> \<forall>a \<in> snd ` set rewards. 0 \<le> a \<Longrightarrow> staking_ok (foldl (\<lambda>p (t, a). StakingPool_AddReward t a p) s rewards) \<and>
     pool_owed t (foldl (\<lambda>p (t, a). StakingPool_AddReward t a p) s rewards) \<le>
     pool_owed t s + BaseLPFeesPerShare * al_sum (\<lambda>(u, a). if u = t then a else 0) rewards"
proof (induction rewards arbitrary: s)
  case (Cons x rewards)
  obtain u a where x: "x = (u, a)" by fastforce
  have "staking_ok (StakingPool_AddReward u a s)" "pool_owed t (StakingPool_AddReward u a s) \<le> pool_owed t s + (if t = u then BaseLPFeesPerShare * a else 0)"
    using AddReward_ok [of s a u t] Cons.prems by (auto simp: x)
  then show ?case using Cons.IH [of "StakingPool_AddReward u a s"] Cons.prems by (auto simp: x al_sum_def distrib_left)
qed simp

lemma pool_rewards_nonneg: "pool_rewards rewards share n = Inr out \<Longrightarrow> \<forall>a \<in> snd ` set out. IsUint64 a"
  unfolding pool_rewards_def by (rule go_foldl_invariant [where P = "\<lambda>out. \<forall>a \<in> snd ` set out. IsUint64 a"]) (auto split: if_splits)

lemma distribute_pool_result:
  assumes "distribute_pool shares rewards n (pools, insts) pid = Inr res"
  shows "\<exists>s out. map_of pools pid = Some s \<and> pool_rewards rewards (map_uint shares pid) n = Inr out \<and>
    res = (al_put pid (foldl (\<lambda>p (t, a). StakingPool_AddReward t a p) s out) pools,
      insts @ (if out \<noteq> [] then [DistributeStakingRewardInst \<lparr>dc_StakingPoolID = pid, dc_Rewards = out\<rparr>] else []))"
proof -
  obtain s where s: "map_of pools pid = Some s" using assms by (cases "map_of pools pid") (auto simp: distribute_pool_def)
  then obtain out where "pool_rewards rewards (map_uint shares pid) n = Inr out" using assms by (auto simp: distribute_pool_def)
  then show ?thesis using assms s by (intro exI [of _ s] exI [of _ out]) (auto simp: distribute_pool_def)
qed

lemma distribute_pool_books:
  assumes b: "books pools0 (pools, insts)" and r: "distribute_pool shares rewards n (pools, insts) pid = Inr res"
  shows "books pools0 res"
proof -
  have ok: "pools_ok pools" using b by (simp add: books_def)
  from distribute_pool_result [OF r] obtain s out where s: "map_of pools pid = Some s" and out: "pool_rewards rewards (map_uint shares pid) n = Inr out"
    and res: "res = (al_put pid (foldl (\<lambda>p (t, a). StakingPool_AddReward t a p) s out) pools,
      insts @ (if out \<noteq> [] then [DistributeStakingRewardInst \<lparr>dc_StakingPoolID = pid, dc_Rewards = out\<rparr>] else []))" by blast
  have "\<forall>a \<in> snd ` set out. 0 \<le> a" using pool_rewards_nonneg [OF out] by (auto simp: IsUint64_def)
  from add_rewards_ok [OF pools_ok_pool [OF ok s] this] show ?thesis unfolding res
    by (intro books_put [OF b s]) (auto simp: inst_received_def)
qed

section \<open>Runs of the producers\<close>

text \<open>The calls of the producers for the staking pools, in any order, with the access tokens and receivers known at the call.\<close>

datatype 'r staking_op =
    Staking "(string \<times> int) list" "StakingRequest Transaction list"
  | Unstaking "(string \<times> int) list" "UnstakingRequest Transaction list"
  | DistributeReward "PoolPairState list" amounts
  | WithdrawReward "'r \<Rightarrow> string option" "'r WithdrawalStakingRewardRequest Transaction list"

definition produce :: "'r staking_op \<Rightarrow> pools \<Rightarrow> (pools \<times> 'r staking_inst list) go" where
  "produce op pools = (case op of
      Staking nftIDs txs \<Rightarrow> staking nftIDs txs pools
    | Unstaking nftIDs txs \<Rightarrow> unstaking nftIDs txs pools
    | DistributeReward poolPairs shares \<Rightarrow> distributeStakingReward poolPairs shares pools
    | WithdrawReward otaString txs \<Rightarrow> withdrawStakingReward otaString txs pools)"

text \<open>Access tokens are printed hashes and amounts are unsigned.\<close>

definition op_allowed :: "'r staking_op \<Rightarrow> bool" where
  "op_allowed op = (case op of
      Staking nftIDs txs \<Rightarrow> canonical_nfts nftIDs \<and> (\<forall>tx \<in> set txs. IsUint64 (sr_tokenAmount (tx_Metadata tx)))
    | Unstaking nftIDs txs \<Rightarrow> canonical_nfts nftIDs \<and> (\<forall>tx \<in> set txs. IsUint64 (ur_unstakingAmount (tx_Metadata tx)))
    | _ \<Rightarrow> True)"

text \<open>A producer that fails leaves the state and produces nothing.\<close>

definition produced :: "'r staking_op \<Rightarrow> pools \<Rightarrow> pools \<times> 'r staking_inst list" where
  "produced op pools = (case produce op pools of Inl _ \<Rightarrow> (pools, []) | Inr res \<Rightarrow> res)"

lemma go_foldl_books:
  assumes "go_foldl f (pools, []) xs = Inr res" and "pools_ok pools"
    and "\<And>p i x res. x \<in> set xs \<Longrightarrow> books pools (p, i) \<Longrightarrow> f (p, i) x = Inr res \<Longrightarrow> books pools res"
  shows "books pools res"
  using assms(1) by (rule go_foldl_invariant [where P = "books pools"]) (use assms(2,3) books_start in auto)

lemma produced_books:
  assumes "pools_ok pools" and "op_allowed op"
  shows "books pools (produced op pools)"
proof (cases "produce op pools")
  case (Inl e)
  then show ?thesis using books_start [OF assms(1)] by (simp add: produced_def)
next
  case (Inr res)
  have "books pools res"
  proof (cases op)
    case (Staking nftIDs txs)
    then show ?thesis using Inr assms unfolding produce_def op_allowed_def
      by (auto simp: staking_def intro: staking_tx_books elim!: go_foldl_books)
  next
    case (Unstaking nftIDs txs)
    then show ?thesis using Inr assms unfolding produce_def op_allowed_def
      by (auto simp: unstaking_def intro: unstaking_tx_books elim!: go_foldl_books)
  next
    case (DistributeReward poolPairs shares)
    then show ?thesis using Inr assms unfolding produce_def
      by (auto simp: distributeStakingReward_def Let_def books_start intro: distribute_pool_books elim!: go_foldl_books split: if_splits)
  next
    case (WithdrawReward otaString txs)
    then show ?thesis using Inr assms unfolding produce_def
      by (auto simp: withdrawStakingReward_def intro: withdraw_staking_tx_books elim!: go_foldl_books)
  qed
  then show ?thesis using Inr by (simp add: produced_def)
qed

interpretation stk: solvent_runs "\<lambda>op pools. fst (produced op pools)" pools_ok op_allowed owed_of
  "\<lambda>x op pools. insts_sum (inst_received x) (snd (produced op pools))" "\<lambda>x op pools. insts_sum (inst_paid x) (snd (produced op pools))"
  BaseLPFeesPerShare
proof
  show "0 \<le> owed_of x pools" if "pools_ok pools" for x pools
    using that pool_owed_nonneg pools_ok_pool by (auto simp: owed_of_def split: option.splits prod.splits)
next
  fix pools and op :: "'r staking_op"
  assume "pools_ok pools" and "op_allowed op"
  then have b: "books pools (produced op pools)" by (rule produced_books)
  show "pools_ok (fst (produced op pools))" using b by (auto simp: books_def split: prod.splits)
  show "owed_of x (fst (produced op pools)) + BaseLPFeesPerShare * insts_sum (inst_paid x) (snd (produced op pools))
    \<le> owed_of x pools + BaseLPFeesPerShare * insts_sum (inst_received x) (snd (produced op pools))" for x
    using b unfolding books_def case_prod_unfold by blast
qed (simp_all)

text \<open>The pools after a run that starts from new pools, and what the instructions of the run give to and take from a pool.\<close>

definition new_pools :: "string list \<Rightarrow> pools" where
  "new_pools pids = map (\<lambda>pid. (pid, NewStakingPoolState)) pids"

definition run_producers :: "'r staking_op list \<Rightarrow> pools \<Rightarrow> pools" where
  "run_producers = run_ops (\<lambda>op pools. fst (produced op pools))"

definition distributed :: "string \<Rightarrow> string \<Rightarrow> 'r staking_op list \<Rightarrow> pools \<Rightarrow> int" where
  "distributed pid t = run_sum (\<lambda>op pools. fst (produced op pools)) (\<lambda>op pools. insts_sum (inst_received (pid, t)) (snd (produced op pools)))"

definition withdrawn :: "string \<Rightarrow> string \<Rightarrow> 'r staking_op list \<Rightarrow> pools \<Rightarrow> int" where
  "withdrawn pid t = run_sum (\<lambda>op pools. fst (produced op pools)) (\<lambda>op pools. insts_sum (inst_paid (pid, t)) (snd (produced op pools)))"

lemma withdrawn_nonneg:
  "pools_ok pools \<Longrightarrow> \<forall>op \<in> set ops. op_allowed op \<Longrightarrow> 0 \<le> withdrawn pid t ops pools"
proof (induction ops arbitrary: pools)
  case (Cons op ops)
  have "books pools (produced op pools)" by (intro produced_books) (use Cons.prems in auto)
  then have "pools_ok (fst (produced op pools))" "0 \<le> insts_sum (inst_paid (pid, t)) (snd (produced op pools))"
    unfolding books_def case_prod_unfold by blast+
  then show ?case using Cons.IH [of "fst (produced op pools)"] Cons.prems by (simp add: withdrawn_def)
qed (simp add: withdrawn_def)

lemma new_pools_ok: "distinct pids \<Longrightarrow> pools_ok (new_pools pids)"
  by (auto simp: pools_ok_def new_pools_def comp_def staking_ok_new)

lemma new_pools_owed: "owed_of x (new_pools pids) = 0"
proof -
  have "map_of (new_pools pids) pid = Some s \<Longrightarrow> pool_owed t s = 0" for pid s t
    unfolding new_pools_def by (induction pids) (auto simp: pool_owed_def NewStakingPoolState_def split: if_splits)
  then show ?thesis by (auto simp: owed_of_def split: option.splits prod.splits)
qed

lemma run_producers_owed:
  assumes "\<forall>op \<in> set ops. op_allowed op" and "distinct pids"
  shows "pools_ok (run_producers ops (new_pools pids))"
    and "owed_of (pid, t) (run_producers ops (new_pools pids)) + BaseLPFeesPerShare * withdrawn pid t ops (new_pools pids)
      \<le> BaseLPFeesPerShare * distributed pid t ops (new_pools pids)"
  using stk.run_owed [OF new_pools_ok [OF assms(2)] assms(1), of "(pid, t)"]
  by (simp_all add: run_producers_def withdrawn_def distributed_def new_pools_owed)

text \<open>While what was distributed of every token fits, a staker can always be paid.\<close>

lemma recompute_succeeds:
  assumes s: "staking_ok s" and k: "map_of (sp_stakers s) k = Some st" and t: "\<forall>t. pool_owed t s < BaseLPFeesPerShare * 2 ^ 64"
  shows "\<exists>rewards. RecomputeStakingRewards k s = Inr rewards"
proof -
  let ?R = "sp_rewardsPerShare s"
  have ok: "staker_ok ?R (k, st)" using s k by (rule staking_ok_staker)
  have "IsUint64 (staker_reward st t new)" if tn: "(t, new) \<in> set ?R" for t new
  proof -
    have R: "map_uint ?R t = new" using tn s by (auto simp: map_uint_def staking_ok_def)
    have "staker_owed ?R t st \<le> pool_owed t s" unfolding pool_owed_def
      using al_sum_member [of "sp_stakers s" "\<lambda>(_, st). staker_owed ?R t st" "(k, st)"] s map_of_SomeD [OF k]
      by (auto simp: staking_ok_def dest: staker_owed_nonneg)
    moreover have "BaseLPFeesPerShare * staker_reward st t new \<le> staker_owed ?R t st"
      unfolding staker_reward_def staker_owed_def distrib_left R by (simp add: scaled_div_le)
    ultimately have "BaseLPFeesPerShare * staker_reward st t new < BaseLPFeesPerShare * 2 ^ 64" using t by (meson le_less_trans order.trans)
    moreover have "0 \<le> staker_reward st t new"
      using ok R unfolding staker_reward_def staker_ok_def
      by (intro add_nonneg_nonneg) (auto simp: pos_imp_zdiv_nonneg_iff IsUint64_def)
    ultimately show ?thesis by (simp add: IsUint64_def)
  qed
  then have "\<forall>(t, new) \<in> set ?R. IsUint64 (staker_reward st t new)" by auto
  from staking_loop [OF _ _ this, of "[]"] s k show ?thesis by (auto simp: RecomputeStakingRewards_def staking_ok_def)
qed

text \<open>C4. Staking rewards are covered: whatever calls of the producers (staking, unstaking, distributing, withdrawing) follow each
  other from new pools, the withdrawal instructions never pay more of a token from a pool than the distribution instructions gave
  to it, and the liquidity of every pool is the sum over its stakers.\<close>

theorem staking_rewards_solvent:
  fixes ops :: "'r staking_op list"
  assumes "\<forall>op \<in> set ops. op_allowed op" and "distinct pids"
  shows "withdrawn pid t ops (new_pools pids) \<le> distributed pid t ops (new_pools pids) \<and>
    (\<forall>s. map_of (run_producers ops (new_pools pids)) pid = Some s \<longrightarrow> sp_liquidity s = al_sum (\<lambda>(_, st). st_liquidity st) (sp_stakers s))"
proof (intro conjI allI impI)
  have "0 \<le> owed_of (pid, t) (run_producers ops (new_pools pids))"
    using stk.owed_nonneg [OF run_producers_owed(1) [OF assms]] .
  then have "BaseLPFeesPerShare * withdrawn pid t ops (new_pools pids) \<le> BaseLPFeesPerShare * distributed pid t ops (new_pools pids)"
    using run_producers_owed(2) [OF assms, of pid t] by linarith
  then show "withdrawn pid t ops (new_pools pids) \<le> distributed pid t ops (new_pools pids)" by simp
  show "sp_liquidity s = al_sum (\<lambda>(_, st). st_liquidity st) (sp_stakers s)" if "map_of (run_producers ops (new_pools pids)) pid = Some s" for s
    using pools_ok_pool [OF run_producers_owed(1) [OF assms] that] by (simp add: staking_ok_def)
qed

text \<open>A run with two stakers: the first stakes 30, the second 10, 7 units of the token are distributed, the second one withdraws.\<close>

definition demo_nft :: "char \<Rightarrow> string" where "demo_nft c = replicate 64 c"
definition demo_pool :: string where "demo_pool = replicate 64 CHR ''0''"

definition demo_stake :: "char \<Rightarrow> int \<Rightarrow> StakingRequest Transaction" where
  "demo_stake c a = \<lparr>tx_Hash = ''t'', tx_ShardID = 0, tx_Metadata = \<lparr>sr_tokenID = demo_pool, sr_otaReceiver = ''o'', sr_nftID = demo_nft c, sr_tokenAmount = a\<rparr>\<rparr>"

definition demo_pair :: PoolPairState where
  "demo_pair = \<lparr>pp_makingVolume = [], pp_state = \<lparr>Token0ID = ''A'', Token1ID = ''B'', ShareAmount = 5, LmLockedShareAmount = 0,
     Token0RealAmount = 5, Token1RealAmount = 5, Token0VirtualAmount = 5, Token1VirtualAmount = 5, Amplifier = 1\<rparr>,
     pp_shares = [], pp_orderRewards = [], pp_orderbook = [], pp_lpFeesPerShare = [], pp_lmRewardsPerShare = [],
     pp_protocolFees = [], pp_stakingPoolFees = [(''A'', 7)], pp_lmLockedShare = []\<rparr>"

definition demo_ops :: "string staking_op list" where
  "demo_ops = [Staking [(demo_nft CHR ''1'', 0), (demo_nft CHR ''2'', 0)] [demo_stake CHR ''1'' 30, demo_stake CHR ''2'' 10],
     DistributeReward [demo_pair] [(demo_pool, 100)],
     WithdrawReward Some [\<lparr>tx_Hash = ''w'', tx_ShardID = 0, tx_Metadata = \<lparr>wr_StakingPoolID = demo_pool, wr_NftID = demo_nft CHR ''2'', wr_Receivers = Some\<rparr>\<rparr>]]"

lemma demo_ops_allowed: "\<forall>op \<in> set demo_ops. op_allowed op"
  by (simp add: demo_ops_def op_allowed_def canonical_nfts_def demo_stake_def IsUint64_def) code_simp

theorem staking_rewards_solvent_witness:
  "withdrawn demo_pool ''A'' demo_ops (new_pools [demo_pool]) = 1 \<and> withdrawn demo_pool ''A'' demo_ops (new_pools [demo_pool]) \<le> distributed demo_pool ''A'' demo_ops (new_pools [demo_pool])"
proof
  show "withdrawn demo_pool ''A'' demo_ops (new_pools [demo_pool]) = 1" by code_simp
  show "withdrawn demo_pool ''A'' demo_ops (new_pools [demo_pool]) \<le> distributed demo_pool ''A'' demo_ops (new_pools [demo_pool])"
    by (rule staking_rewards_solvent [OF demo_ops_allowed, THEN conjunct1]) simp
qed

text \<open>C12. A staker gets his stake back: after any run in which less than 2^64 of every token was distributed to a pool, a request of
  a known access token to unstake a positive amount up to the liquidity of its staker is accepted, with that amount in the instruction and
  taken from the staker and from the pool.\<close>

theorem stakers_can_unstake:
  fixes ops :: "'r staking_op list"
  assumes ops: "\<forall>op \<in> set ops. op_allowed op" "distinct pids" "\<forall>t. distributed pid t ops (new_pools pids) < 2 ^ 64"
    and pools: "pools = run_producers ops (new_pools pids)" "map_of pools pid = Some s" "map_of (sp_stakers s) (ur_nftID md) = Some st"
    and md: "tx_Metadata tx = md" "ur_stakingPoolID md = pid" "0 < ur_unstakingAmount md" "ur_unstakingAmount md \<le> st_liquidity st"
      "known_nft nftIDs (ur_nftID md)" "map_str (ur_otaReceivers md) pid \<noteq> []" "HashFromStr pid = Some pid"
  shows "\<exists>s' i m. unstaking_tx nftIDs (pools, insts) tx = Inr (al_put pid s' pools, insts @ [AcceptUnstakingInst i, m]) \<and>
    au_amount i = ur_unstakingAmount md \<and> sp_liquidity s' = sp_liquidity s - ur_unstakingAmount md \<and>
    map_option st_liquidity (map_of (sp_stakers s') (ur_nftID md)) = Some (st_liquidity st - ur_unstakingAmount md)"
proof -
  have s: "staking_ok s" using pools_ok_pool [OF run_producers_owed(1) [OF ops(1,2)]] pools(1,2) by simp
  have ok: "staker_ok (sp_rewardsPerShare s) (ur_nftID md, st)" using s pools(3) by (rule staking_ok_staker)
  then have k: "HashFromStr (ur_nftID md) = Some (ur_nftID md)" and u: "IsUint64 (st_liquidity st)" by (auto simp: staker_ok_def)
  have sl: "IsUint64 (sp_liquidity s)" using s unfolding staking_ok_def by blast
  have le: "st_liquidity st \<le> sp_liquidity s"
    using s map_of_SomeD [OF pools(3)] al_sum_member [of "sp_stakers s" "\<lambda>(_, st). st_liquidity st" "(ur_nftID md, st)"]
    by (auto simp: staking_ok_def staker_ok_def IsUint64_def)
  have a: "IsUint64 (ur_unstakingAmount md)" using md(3,4) u by (simp add: IsUint64_def)
  have "pool_owed t s < BaseLPFeesPerShare * 2 ^ 64" for t
  proof -
    have "pool_owed t s + BaseLPFeesPerShare * withdrawn pid t ops (new_pools pids) \<le> BaseLPFeesPerShare * distributed pid t ops (new_pools pids)"
      using run_producers_owed(2) [OF ops(1,2), of pid t] pools(1,2) by (simp add: owed_of_def)
    moreover have "BaseLPFeesPerShare * distributed pid t ops (new_pools pids) < BaseLPFeesPerShare * 2 ^ 64" using ops(3) by simp
    moreover have "0 \<le> BaseLPFeesPerShare * withdrawn pid t ops (new_pools pids)" using withdrawn_nonneg [OF new_pools_ok ops(1)] ops(2) by (simp add: BaseLPFeesPerShare_def)
    ultimately show ?thesis by linarith
  qed
  then obtain rewards where r: "RecomputeStakingRewards (ur_nftID md) s = Inr rewards" using recompute_succeeds [OF s pools(3)] by blast
  then obtain s' where s': "updateLiquidity (ur_nftID md) (ur_unstakingAmount md) subOperator s = Inr s'"
      "sp_liquidity s' = sp_liquidity s - ur_unstakingAmount md"
      "map_option st_liquidity (map_of (sp_stakers s') (ur_nftID md)) = Some (st_liquidity st - ur_unstakingAmount md)"
    using pools(3) k u a sl md(3,4) le by (simp add: updateLiquidity_def)
  then show ?thesis using pools(2,3) md k le
    by (intro exI [of _ s'])
      (auto simp: unstaking_tx_def Let_def BuildRejectUnstakingInstructions_def hash_of_def BuildAcceptUnstakingInstructions_def)
qed

definition demo_unstake :: "UnstakingRequest Transaction" where
  "demo_unstake = \<lparr>tx_Hash = ''u'', tx_ShardID = 0, tx_Metadata = \<lparr>ur_stakingPoolID = demo_pool, ur_otaReceivers = Some, ur_nftID = demo_nft CHR ''1'', ur_unstakingAmount = 30\<rparr>\<rparr>"

lemma demo_received:
  "distributed demo_pool t (take 2 demo_ops) (new_pools [demo_pool]) < 2 ^ 64"
proof -
  have 1: "snd (produced (demo_ops ! 0) (new_pools [demo_pool])) = [AcceptStakingInst \<lparr>as_nftID = demo_nft CHR ''1'', as_stakingPoolID = demo_pool, as_liquidity = 30, as_shardID = 0, as_txReqID = ''t''\<rparr>,
      AcceptStakingInst \<lparr>as_nftID = demo_nft CHR ''2'', as_stakingPoolID = demo_pool, as_liquidity = 10, as_shardID = 0, as_txReqID = ''t''\<rparr>]"
    by code_simp
  have 2: "snd (produced (demo_ops ! 1) (fst (produced (demo_ops ! 0) (new_pools [demo_pool])))) =
      [DistributeStakingRewardInst \<lparr>dc_StakingPoolID = demo_pool, dc_Rewards = [(''A'', 7)]\<rparr>]"
    by code_simp
  have 3: "take 2 demo_ops = [demo_ops ! 0, demo_ops ! 1]" by (simp add: demo_ops_def)
  show ?thesis unfolding 3 distributed_def run_sum.simps 1 2 by (simp add: inst_received_def al_sum_def)
qed

theorem stakers_can_unstake_witness:
  "\<exists>s' i m. unstaking_tx [(demo_nft CHR ''1'', 0)] (run_producers (take 2 demo_ops) (new_pools [demo_pool]), []) demo_unstake =
     Inr (al_put demo_pool s' (run_producers (take 2 demo_ops) (new_pools [demo_pool])), [] @ [AcceptUnstakingInst i, m :: string staking_inst]) \<and> au_amount i = 30"
proof -
  let ?pools = "run_producers (take 2 demo_ops) (new_pools [demo_pool])"
  have "map_option (\<lambda>s. map_option st_liquidity (map_of (sp_stakers s) (demo_nft CHR ''1''))) (map_of ?pools demo_pool) = Some (Some 30)" by code_simp
  then obtain s st where s: "map_of ?pools demo_pool = Some s" "map_of (sp_stakers s) (demo_nft CHR ''1'') = Some st" "st_liquidity st = 30" by auto
  have a: "\<forall>op \<in> set (take 2 demo_ops). op_allowed op" using demo_ops_allowed by (meson in_set_takeD)
  have k: "known_nft [(demo_nft CHR ''1'', 0)] (demo_nft CHR ''1'')" "HashFromStr demo_pool = Some demo_pool" by code_simp+
  have r: "map_str Some demo_pool \<noteq> []" by code_simp
  show ?thesis
    using stakers_can_unstake [OF a _ _ refl s(1), of "tx_Metadata demo_unstake" st demo_unstake "[(demo_nft CHR ''1'', 0)]" "[]"] demo_received s(2,3) k r
    by (auto simp: demo_unstake_def)
qed

end
