(* ===== verification/Pdex_Shares.thy ===== *)
theory Pdex_Shares
  imports Pdex_Liquidity Pdex_Staking_Safety
begin

text \<open>
  The books of a pool pair: the shares of the providers add up to the shares of the pool, locked shares likewise, and what
  the pool owes to the providers in fees and mining rewards is covered. The lemmas are about the operations of
  \<^verbatim>\<open>pool_pair_state.go\<close> on one pool.
\<close>

section \<open>What a pool owes\<close>

definition share_owed :: "amounts \<Rightarrow> amounts \<Rightarrow> string \<Rightarrow> Share \<Rightarrow> int" where
  "share_owed lp lm t sh = BaseLPFeesPerShare * map_uint (sh_tradingFees sh) t +
     (map_uint lp t - map_uint (sh_lastLPFeesPerShare sh) t) * sh_amount sh +
     (map_uint lm t - map_uint (sh_lastLmRewardsPerShare sh) t) * (sh_amount sh - sh_lmLockedAmount sh)"

definition pair_owed :: "string \<Rightarrow> PoolPairState \<Rightarrow> int" where
  "pair_owed t p = al_sum (\<lambda>(_, sh). share_owed (pp_lpFeesPerShare p) (pp_lmRewardsPerShare p) t sh) (pp_shares p)"

definition below :: "amounts \<Rightarrow> amounts \<Rightarrow> bool" where
  "below old current \<longleftrightarrow> (\<forall>t. 0 \<le> map_uint old t \<and> map_uint old t \<le> map_uint current t)"

definition share_ok :: "amounts \<Rightarrow> amounts \<Rightarrow> string \<times> Share \<Rightarrow> bool" where
  "share_ok lp lm = (\<lambda>(nftID, sh). HashFromStr nftID = Some nftID \<and> IsUint64 (sh_amount sh) \<and> 0 \<le> sh_lmLockedAmount sh \<and>
     sh_lmLockedAmount sh \<le> sh_amount sh \<and> distinct (map fst (sh_tradingFees sh)) \<and> (\<forall>t. 0 \<le> map_uint (sh_tradingFees sh) t) \<and>
     below (sh_lastLPFeesPerShare sh) lp \<and> below (sh_lastLmRewardsPerShare sh) lm)"

definition shares_ok :: "PoolPairState \<Rightarrow> bool" where
  "shares_ok p \<longleftrightarrow> distinct (map fst (pp_shares p)) \<and> distinct (map fst (pp_lpFeesPerShare p)) \<and> distinct (map fst (pp_lmRewardsPerShare p)) \<and>
     (\<forall>x \<in> set (pp_shares p). share_ok (pp_lpFeesPerShare p) (pp_lmRewardsPerShare p) x) \<and>
     (\<forall>t. 0 \<le> map_uint (pp_lpFeesPerShare p) t) \<and> (\<forall>t. 0 \<le> map_uint (pp_lmRewardsPerShare p) t) \<and>
     IsUint64 (ShareAmount (pp_state p)) \<and> ShareAmount (pp_state p) = al_sum (\<lambda>(_, sh). sh_amount sh) (pp_shares p) \<and>
     LmLockedShareAmount (pp_state p) = al_sum (\<lambda>(_, sh). sh_lmLockedAmount sh) (pp_shares p)"

lemma below_refl: "(\<forall>t. 0 \<le> map_uint m t) \<Longrightarrow> below m m"
  by (simp add: below_def)

lemma shares_ok_share: "shares_ok p \<Longrightarrow> map_of (pp_shares p) k = Some sh \<Longrightarrow> share_ok (pp_lpFeesPerShare p) (pp_lmRewardsPerShare p) (k, sh)"
  using map_of_SomeD by (fastforce simp: shares_ok_def)

lemma share_owed_nonneg: "share_ok lp lm (k, sh) \<Longrightarrow> 0 \<le> share_owed lp lm t sh"
  by (simp add: share_ok_def share_owed_def below_def IsUint64_def BaseLPFeesPerShare_def)

lemma pair_owed_nonneg: "shares_ok p \<Longrightarrow> 0 \<le> pair_owed t p"
  unfolding pair_owed_def by (intro al_sum_nonneg) (auto simp: shares_ok_def dest: share_owed_nonneg)

lemma locked_bounds:
  assumes "shares_ok p"
  shows "0 \<le> LmLockedShareAmount (pp_state p)" and "LmLockedShareAmount (pp_state p) \<le> ShareAmount (pp_state p)" and "IsUint64 (LmLockedShareAmount (pp_state p))"
proof -
  have ok: "\<And>x. x \<in> set (pp_shares p) \<Longrightarrow> share_ok (pp_lpFeesPerShare p) (pp_lmRewardsPerShare p) x"
    and l: "LmLockedShareAmount (pp_state p) = al_sum (\<lambda>(_, sh). sh_lmLockedAmount sh) (pp_shares p)"
    and s: "ShareAmount (pp_state p) = al_sum (\<lambda>(_, sh). sh_amount sh) (pp_shares p)" "IsUint64 (ShareAmount (pp_state p))"
    using assms unfolding shares_ok_def by blast+
  show 0: "0 \<le> LmLockedShareAmount (pp_state p)" unfolding l using ok by (intro al_sum_nonneg) (auto simp: share_ok_def)
  show 1: "LmLockedShareAmount (pp_state p) \<le> ShareAmount (pp_state p)"
    unfolding l s(1) al_sum_def using ok by (intro sum_list_mono) (auto simp: share_ok_def)
  show "IsUint64 (LmLockedShareAmount (pp_state p))" using 0 1 s(2) by (simp add: IsUint64_def)
qed

section \<open>Recomputing the rewards of a provider\<close>

lemma lp_reward_step_eq:
  "lp_reward_step old amt acc (t, new) = (let r = (new - map_uint old t) * amt div BaseLPFeesPerShare + map_uint acc t in
     if IsUint64 r then Inr (if 0 < r then al_put t r acc else acc) else Inl (GoErr ''Reward of token is out of range''))"
  by (simp add: lp_reward_step_def accrued_def Let_def)

lemma lp_loop:
  assumes "go_foldl (lp_reward_step old amt) acc R = Inr res" and "distinct (map fst R)" and "distinct (map fst acc)"
    and "\<forall>t. 0 \<le> map_uint acc t" and "\<forall>(t, new) \<in> set R. map_uint old t \<le> new" and "0 \<le> amt"
  shows "distinct (map fst res) \<and> (\<forall>t. 0 \<le> map_uint res t) \<and> (\<forall>t. map_uint res t = map_uint acc t +
    (case map_of R t of None \<Rightarrow> 0 | Some new \<Rightarrow> (new - map_uint old t) * amt div BaseLPFeesPerShare))"
  using assms
proof (induction R arbitrary: acc)
  case (Cons x R)
  obtain t new where x: "x = (t, new)" by fastforce
  define d where "d = (new - map_uint old t) * amt div BaseLPFeesPerShare"
  have d: "0 \<le> d" using Cons.prems(5,6) by (simp add: d_def x pos_imp_zdiv_nonneg_iff)
  define acc' where "acc' = (if 0 < d + map_uint acc t then al_put t (d + map_uint acc t) acc else acc)"
  have step: "go_foldl (lp_reward_step old amt) acc' R = Inr res"
    using Cons.prems(1) by (auto simp: x lp_reward_step_eq Let_def d_def acc'_def split: if_splits)
  have acc': "map_uint acc' u = map_uint acc u + (if u = t then d else 0)" for u
    using d Cons.prems(4) [rule_format, of t] by (auto simp: acc'_def)
  have "distinct (map fst acc')" "\<forall>t. 0 \<le> map_uint acc' t" using Cons.prems(3,4) d acc' by (auto simp: acc'_def)
  moreover have "distinct (map fst R)" "\<forall>(t, new) \<in> set R. map_uint old t \<le> new" using Cons.prems(2,5) by auto
  ultimately have ih: "distinct (map fst res) \<and> (\<forall>t. 0 \<le> map_uint res t) \<and> (\<forall>t. map_uint res t = map_uint acc' t +
    (case map_of R t of None \<Rightarrow> 0 | Some new \<Rightarrow> (new - map_uint old t) * amt div BaseLPFeesPerShare))"
    using Cons.IH [OF step] Cons.prems(6) by blast
  have "map_of R t = None" using Cons.prems(2) by (auto simp: x map_of_eq_None_iff)
  then have "map_uint res u = map_uint acc u + (case map_of (x # R) u of None \<Rightarrow> 0 | Some new \<Rightarrow> (new - map_uint old u) * amt div BaseLPFeesPerShare)" for u
    using ih by (auto simp: x acc' d_def)
  then show ?case using ih by blast
qed auto

lemma below_loop: "below old R \<Longrightarrow> distinct (map fst R) \<Longrightarrow> \<forall>(t, new) \<in> set R. map_uint old t \<le> new"
proof clarify
  fix t new assume b: "below old R" and "distinct (map fst R)" "(t, new) \<in> set R"
  then have "map_uint R t = new" by (simp add: map_uint_def)
  then show "map_uint old t \<le> new" using b unfolding below_def by metis
qed

lemma below_formula:
  "below old R \<Longrightarrow> (case map_of R t of None \<Rightarrow> 0 | Some new \<Rightarrow> (new - map_uint old t) * amt div BaseLPFeesPerShare) = (map_uint R t - map_uint old t) * amt div BaseLPFeesPerShare"
  by (auto simp: below_def map_uint_def split: option.splits dest!: spec [of _ t])

lemma recompute_lp:
  assumes r: "RecomputeLPRewards k p = Inr fees" and ok: "shares_ok p" and k: "map_of (pp_shares p) k = Some sh"
  shows "map_uint fees t = map_uint (sh_tradingFees sh) t +
      (map_uint (pp_lpFeesPerShare p) t - map_uint (sh_lastLPFeesPerShare sh) t) * sh_amount sh div BaseLPFeesPerShare +
      (map_uint (pp_lmRewardsPerShare p) t - map_uint (sh_lastLmRewardsPerShare sh) t) * (sh_amount sh - sh_lmLockedAmount sh) div BaseLPFeesPerShare"
    and "0 \<le> map_uint fees t" and "distinct (map fst fees)"
proof -
  have sh: "share_ok (pp_lpFeesPerShare p) (pp_lmRewardsPerShare p) (k, sh)" using ok k by (rule shares_ok_share)
  then have free: "to_uint64 (sh_amount sh - sh_lmLockedAmount sh) = sh_amount sh - sh_lmLockedAmount sh" "0 \<le> sh_amount sh - sh_lmLockedAmount sh" "0 \<le> sh_amount sh"
    by (auto simp: share_ok_def IsUint64_def)
  obtain fees1 where l: "go_foldl (lp_reward_step (sh_lastLPFeesPerShare sh) (sh_amount sh)) (sh_tradingFees sh) (pp_lpFeesPerShare p) = Inr fees1"
    "go_foldl (lp_reward_step (sh_lastLmRewardsPerShare sh) (sh_amount sh - sh_lmLockedAmount sh)) fees1 (pp_lmRewardsPerShare p) = Inr fees"
    using r k by (auto simp: RecomputeLPRewards_def free)
  have b: "below (sh_lastLPFeesPerShare sh) (pp_lpFeesPerShare p)" "below (sh_lastLmRewardsPerShare sh) (pp_lmRewardsPerShare p)"
    "\<forall>t. 0 \<le> map_uint (sh_tradingFees sh) t" and d: "distinct (map fst (sh_tradingFees sh))" using sh by (auto simp: share_ok_def)
  have dd: "distinct (map fst (pp_lpFeesPerShare p))" "distinct (map fst (pp_lmRewardsPerShare p))" using ok by (auto simp: shares_ok_def)
  note 1 = lp_loop [OF l(1) dd(1) d b(3) below_loop [OF b(1) dd(1)] free(3), unfolded below_formula [OF b(1)]]
  then have "distinct (map fst fees1)" "\<forall>t. 0 \<le> map_uint fees1 t" by blast+
  note 2 = lp_loop [OF l(2) dd(2) this below_loop [OF b(2) dd(2)] free(2), unfolded below_formula [OF b(2)]]
  show "map_uint fees t = map_uint (sh_tradingFees sh) t +
      (map_uint (pp_lpFeesPerShare p) t - map_uint (sh_lastLPFeesPerShare sh) t) * sh_amount sh div BaseLPFeesPerShare +
      (map_uint (pp_lmRewardsPerShare p) t - map_uint (sh_lastLmRewardsPerShare sh) t) * (sh_amount sh - sh_lmLockedAmount sh) div BaseLPFeesPerShare"
    using 1 2 by simp
  show "0 \<le> map_uint fees t" "distinct (map fst fees)" using 2 by blast+
qed

section \<open>Changing one share\<close>

lemma recompute_lp_owed:
  assumes "RecomputeLPRewards k p = Inr fees" and "shares_ok p" and "map_of (pp_shares p) k = Some sh"
  shows "BaseLPFeesPerShare * map_uint fees t \<le> share_owed (pp_lpFeesPerShare p) (pp_lmRewardsPerShare p) t sh"
  unfolding recompute_lp(1) [OF assms] share_owed_def distrib_left
  by (intro add_mono order_refl scaled_div_le Base_pos)

text \<open>The share of one provider is replaced by one that starts from the current fees per share.\<close>

definition fresh_share :: "PoolPairState \<Rightarrow> Share \<Rightarrow> bool" where
  "fresh_share p sh \<longleftrightarrow> IsUint64 (sh_amount sh) \<and> 0 \<le> sh_lmLockedAmount sh \<and> sh_lmLockedAmount sh \<le> sh_amount sh \<and>
     distinct (map fst (sh_tradingFees sh)) \<and> (\<forall>t. 0 \<le> map_uint (sh_tradingFees sh) t) \<and>
     sh_lastLPFeesPerShare sh = pp_lpFeesPerShare p \<and> sh_lastLmRewardsPerShare sh = pp_lmRewardsPerShare p"

definition old_amounts :: "PoolPairState \<Rightarrow> string \<Rightarrow> int \<times> int" where
  "old_amounts p k = (case map_of (pp_shares p) k of None \<Rightarrow> (0, 0) | Some sh \<Rightarrow> (sh_amount sh, sh_lmLockedAmount sh))"

lemma put_share:
  assumes ok: "shares_ok p" and k: "HashFromStr k = Some k" and sh: "fresh_share p sh"
    and p': "pp_shares p' = al_put k sh (pp_shares p)" "pp_lpFeesPerShare p' = pp_lpFeesPerShare p" "pp_lmRewardsPerShare p' = pp_lmRewardsPerShare p"
    and amt: "IsUint64 (ShareAmount (pp_state p'))" "ShareAmount (pp_state p') = ShareAmount (pp_state p) + sh_amount sh - fst (old_amounts p k)"
      "LmLockedShareAmount (pp_state p') = LmLockedShareAmount (pp_state p) + sh_lmLockedAmount sh - snd (old_amounts p k)"
    and fees: "\<And>t. BaseLPFeesPerShare * map_uint (sh_tradingFees sh) t \<le>
      (case map_of (pp_shares p) k of None \<Rightarrow> 0 | Some sh' \<Rightarrow> share_owed (pp_lpFeesPerShare p) (pp_lmRewardsPerShare p) t sh') - paid t"
  shows "shares_ok p' \<and> (\<forall>t. pair_owed t p' + paid t \<le> pair_owed t p)"
proof
  have d: "distinct (map fst (pp_shares p))" using ok by (simp add: shares_ok_def)
  have "share_ok (pp_lpFeesPerShare p) (pp_lmRewardsPerShare p) x" if "x \<in> set (al_put k sh (pp_shares p))" for x
    using that ok k sh d by (auto simp: set_al_put shares_ok_def share_ok_def fresh_share_def below_refl split: prod.splits)
  moreover have "ShareAmount (pp_state p') = al_sum (\<lambda>(_, sh). sh_amount sh) (pp_shares p')"
    "LmLockedShareAmount (pp_state p') = al_sum (\<lambda>(_, sh). sh_lmLockedAmount sh) (pp_shares p')"
    using ok amt(2,3) d by (auto simp: p'(1) al_sum_put old_amounts_def shares_ok_def split: option.splits)
  ultimately show "shares_ok p'" using ok amt(1) unfolding shares_ok_def p' by auto
  show "\<forall>t. pair_owed t p' + paid t \<le> pair_owed t p"
  proof
    fix t
    have "share_owed (pp_lpFeesPerShare p) (pp_lmRewardsPerShare p) t sh = BaseLPFeesPerShare * map_uint (sh_tradingFees sh) t"
      using sh by (simp add: share_owed_def fresh_share_def)
    then show "pair_owed t p' + paid t \<le> pair_owed t p"
      using fees [of t] d unfolding pair_owed_def p' by (cases "map_of (pp_shares p) k") (simp_all add: al_sum_put)
  qed
qed

lemma current_share_ok:
  assumes "current_share k op p = Inr sh" and "shares_ok p" and "HashFromStr k = Some k"
  shows "sh_amount sh = fst (old_amounts p k)" and "sh_lmLockedAmount sh = snd (old_amounts p k)"
    and "distinct (map fst (sh_tradingFees sh))" and "0 \<le> map_uint (sh_tradingFees sh) t"
    and "BaseLPFeesPerShare * map_uint (sh_tradingFees sh) t \<le> (case map_of (pp_shares p) k of None \<Rightarrow> 0 | Some sh' \<Rightarrow> share_owed (pp_lpFeesPerShare p) (pp_lmRewardsPerShare p) t sh')"
  using assms recompute_lp(2,3) [OF _ assms(2)] recompute_lp_owed [OF _ assms(2)]
  by (auto simp: current_share_def old_amounts_def NewShare_def split: option.splits if_splits)

lemma old_amounts_ok:
  assumes "shares_ok p"
  shows "IsUint64 (fst (old_amounts p k))" and "0 \<le> snd (old_amounts p k)" and "snd (old_amounts p k) \<le> fst (old_amounts p k)"
    and "IsUint64 (snd (old_amounts p k))"
  using shares_ok_share [OF assms, of k]
  by (auto simp: old_amounts_def share_ok_def IsUint64_def split: option.splits)

text \<open>The change of the locked shares.\<close>

definition locked_after :: "nat \<Rightarrow> int \<Rightarrow> int \<Rightarrow> int \<Rightarrow> int" where
  "locked_after op amount lmLockedBlocks locked =
     (if op = addOperator then if lmLockedBlocks > 0 then locked + amount else locked else locked - min locked amount)"

lemma operators_distinct [simp]: "addOperator \<noteq> subOperator" "subOperator \<noteq> addOperator"
  by (simp_all add: operators)

lemma updateShareValue_result:
  assumes ok: "shares_ok p" and a: "IsUint64 amount" and k: "HashFromStr k = Some k" and op: "op = addOperator \<or> op = subOperator"
    and r: "updateShareValue amount k op height lmLockedBlocks p = Inr p'"
  shows "\<exists>sh. fresh_share p sh \<and> pp_shares p' = al_put k sh (pp_shares p) \<and> pp_lpFeesPerShare p' = pp_lpFeesPerShare p \<and>
      pp_lmRewardsPerShare p' = pp_lmRewardsPerShare p \<and>
      sh_amount sh = fst (old_amounts p k) + (if op = addOperator then amount else - amount) \<and>
      sh_lmLockedAmount sh = locked_after op amount lmLockedBlocks (snd (old_amounts p k)) \<and>
      IsUint64 (ShareAmount (pp_state p')) \<and>
      pp_state p' = (pp_state p)\<lparr>ShareAmount := ShareAmount (pp_state p) + (if op = addOperator then amount else - amount),
        LmLockedShareAmount := LmLockedShareAmount (pp_state p) + sh_lmLockedAmount sh - snd (old_amounts p k)\<rparr> \<and>
      (\<forall>t. BaseLPFeesPerShare * map_uint (sh_tradingFees sh) t \<le>
        (case map_of (pp_shares p) k of None \<Rightarrow> 0 | Some sh' \<Rightarrow> share_owed (pp_lpFeesPerShare p) (pp_lmRewardsPerShare p) t sh'))"
proof -
  obtain sh0 where sh0: "current_share k op p = Inr sh0" using r by (auto simp: updateShareValue_def)
  note c = current_share_ok [OF sh0 ok k]
  note o = old_amounts_ok [OF ok, of k]
  have u: "IsUint64 (ShareAmount (pp_state p))" "IsUint64 (LmLockedShareAmount (pp_state p))" using ok locked_bounds [OF ok] by (auto simp: shares_ok_def)
  let ?d = "if op = addOperator then amount else - amount" and ?l = "locked_after op amount lmLockedBlocks (snd (old_amounts p k))"
  let ?sh = "sh0\<lparr>sh_lastLPFeesPerShare := pp_lpFeesPerShare p, sh_lastLmRewardsPerShare := pp_lmRewardsPerShare p,
    sh_amount := fst (old_amounts p k) + ?d, sh_lmLockedAmount := ?l\<rparr>"
  have res: "pp_shares p' = al_put k ?sh (pp_shares p) \<and> pp_lpFeesPerShare p' = pp_lpFeesPerShare p \<and> pp_lmRewardsPerShare p' = pp_lmRewardsPerShare p \<and>
    pp_state p' = (pp_state p)\<lparr>ShareAmount := ShareAmount (pp_state p) + ?d, LmLockedShareAmount := LmLockedShareAmount (pp_state p) + ?l - snd (old_amounts p k)\<rparr> \<and>
    IsUint64 (fst (old_amounts p k) + ?d) \<and> IsUint64 (ShareAmount (pp_state p) + ?d)"
    using op
  proof
    assume add: "op = addOperator"
    show ?thesis
    proof (cases "lmLockedBlocks > 0")
      case True
      then show ?thesis using r sh0 a o u c(1,2)
        by (auto simp: updateShareValue_def add Let_def locked_after_def addLmLockedShare_def IsUint64_def split: if_splits)
    next
      case False
      then show ?thesis using r sh0 a o u
        by (auto simp: updateShareValue_def add Let_def locked_after_def IsUint64_def c(1,2) [symmetric] split: if_splits)
    qed
  next
    assume sub: "op = subOperator"
    have m: "(if snd (old_amounts p k) > amount then amount else snd (old_amounts p k)) = min (snd (old_amounts p k)) amount" by simp
    show ?thesis using r sh0 a o u c(1,2)
      by (auto simp: updateShareValue_def sub Let_def locked_after_def m IsUint64_def split: if_splits)
  qed
  have "0 \<le> ?l" "?l \<le> fst (old_amounts p k) + ?d" using op o(2,3) a res by (auto simp: locked_after_def IsUint64_def min_def)
  then have "fresh_share p ?sh" using res c(3,4) by (simp add: fresh_share_def)
  then show ?thesis using res c(5) by (intro exI [of _ ?sh]) (simp split: if_splits)
qed

lemma updateShareValue_ok:
  assumes ok: "shares_ok p" and a: "IsUint64 amount" and k: "HashFromStr k = Some k" and op: "op = addOperator \<or> op = subOperator"
    and r: "updateShareValue amount k op height lmLockedBlocks p = Inr p'"
  shows "shares_ok p' \<and> (\<forall>t. pair_owed t p' + 0 \<le> pair_owed t p)"
proof -
  from updateShareValue_result [OF assms] obtain sh where "fresh_share p sh" "pp_shares p' = al_put k sh (pp_shares p)"
    "pp_lpFeesPerShare p' = pp_lpFeesPerShare p" "pp_lmRewardsPerShare p' = pp_lmRewardsPerShare p" "IsUint64 (ShareAmount (pp_state p'))"
    "sh_amount sh = fst (old_amounts p k) + (if op = addOperator then amount else - amount)"
    "pp_state p' = (pp_state p)\<lparr>ShareAmount := ShareAmount (pp_state p) + (if op = addOperator then amount else - amount),
        LmLockedShareAmount := LmLockedShareAmount (pp_state p) + sh_lmLockedAmount sh - snd (old_amounts p k)\<rparr>"
    "\<And>t. BaseLPFeesPerShare * map_uint (sh_tradingFees sh) t \<le>
        (case map_of (pp_shares p) k of None \<Rightarrow> 0 | Some sh' \<Rightarrow> share_owed (pp_lpFeesPerShare p) (pp_lmRewardsPerShare p) t sh')" by blast
  then show ?thesis by (intro put_share [OF ok k]) auto
qed

text \<open>The reserves play no role for the shares.\<close>

lemma shares_ok_state:
  assumes "ShareAmount tp = ShareAmount (pp_state p)" and "LmLockedShareAmount tp = LmLockedShareAmount (pp_state p)"
  shows "shares_ok (p\<lparr>pp_state := tp\<rparr>) = shares_ok p" and "pair_owed t (p\<lparr>pp_state := tp\<rparr>) = pair_owed t p"
  using assms by (simp_all add: shares_ok_def pair_owed_def)

lemma reset_share_ok:
  assumes ok: "shares_ok p" and k: "map_of (pp_shares p) k = Some sh" and r: "RecomputeLPRewards k p = Inr fees"
  shows "shares_ok (reset_share k p) \<and> (\<forall>t. pair_owed t (reset_share k p) + BaseLPFeesPerShare * map_uint fees t \<le> pair_owed t p)"
proof -
  have sh: "share_ok (pp_lpFeesPerShare p) (pp_lmRewardsPerShare p) (k, sh)" using ok k by (rule shares_ok_share)
  let ?sh = "sh\<lparr>sh_tradingFees := resetKeyValueToZero (sh_tradingFees sh), sh_lastLPFeesPerShare := pp_lpFeesPerShare p,
    sh_lastLmRewardsPerShare := pp_lmRewardsPerShare p\<rparr>"
  have "map fst (resetKeyValueToZero m) = map fst m" for m by (simp add: resetKeyValueToZero_def case_prod_unfold comp_def)
  then have f: "fresh_share p ?sh" using sh by (simp add: fresh_share_def share_ok_def)
  have s': "pp_shares (reset_share k p) = al_put k ?sh (pp_shares p)" using k ok by (simp add: reset_share_def al_upd_put shares_ok_def)
  show ?thesis using sh k ok recompute_lp_owed [OF r ok k]
    by (intro put_share [OF ok _ f s']) (auto simp: reset_share_def share_ok_def old_amounts_def shares_ok_def)
qed

section \<open>Fees and mining rewards\<close>

lemma pair_owed_grow:
  assumes ok: "shares_ok p" and d: "0 \<le> d" "0 \<le> e"
    and lp: "distinct (map fst lp)" "\<And>t. map_uint lp t = map_uint (pp_lpFeesPerShare p) t + (if t = u then d else 0)"
    and lm: "distinct (map fst lm)" "\<And>t. map_uint lm t = map_uint (pp_lmRewardsPerShare p) t + (if t = u then e else 0)"
  shows "shares_ok (p\<lparr>pp_lpFeesPerShare := lp, pp_lmRewardsPerShare := lm\<rparr>)"
    and "pair_owed t (p\<lparr>pp_lpFeesPerShare := lp, pp_lmRewardsPerShare := lm\<rparr>) = pair_owed t p + (if t = u
      then d * ShareAmount (pp_state p) + e * (ShareAmount (pp_state p) - LmLockedShareAmount (pp_state p)) else 0)"
proof -
  have s: "ShareAmount (pp_state p) = al_sum (\<lambda>(_, sh). sh_amount sh) (pp_shares p)" "LmLockedShareAmount (pp_state p) = al_sum (\<lambda>(_, sh). sh_lmLockedAmount sh) (pp_shares p)"
    using ok by (auto simp: shares_ok_def)
  have "share_ok lp lm x" if "share_ok (pp_lpFeesPerShare p) (pp_lmRewardsPerShare p) x" for x
    using that d by (auto simp: share_ok_def below_def lp lm add_increasing2 split: prod.splits)
  then show "shares_ok (p\<lparr>pp_lpFeesPerShare := lp, pp_lmRewardsPerShare := lm\<rparr>)" using ok d by (auto simp: shares_ok_def lp lm)
  have "share_owed lp lm t sh = share_owed (pp_lpFeesPerShare p) (pp_lmRewardsPerShare p) t sh +
      ((if t = u then d else 0) * sh_amount sh + ((if t = u then e else 0) * sh_amount sh + (if t = u then - e else 0) * sh_lmLockedAmount sh))" for sh
    by (simp add: share_owed_def lp lm algebra_simps)
  then have "pair_owed t (p\<lparr>pp_lpFeesPerShare := lp, pp_lmRewardsPerShare := lm\<rparr>) =
    al_sum (\<lambda>x. (case x of (_, sh) \<Rightarrow> share_owed (pp_lpFeesPerShare p) (pp_lmRewardsPerShare p) t sh) +
      ((if t = u then d else 0) * (case x of (_, sh) \<Rightarrow> sh_amount sh) + ((if t = u then e else 0) * (case x of (_, sh) \<Rightarrow> sh_amount sh) +
      (if t = u then - e else 0) * (case x of (_, sh) \<Rightarrow> sh_lmLockedAmount sh)))) (pp_shares p)"
    by (auto simp: pair_owed_def intro!: al_sum_cong split: prod.splits)
  then show "pair_owed t (p\<lparr>pp_lpFeesPerShare := lp, pp_lmRewardsPerShare := lm\<rparr>) = pair_owed t p + (if t = u
      then d * ShareAmount (pp_state p) + e * (ShareAmount (pp_state p) - LmLockedShareAmount (pp_state p)) else 0)"
    unfolding al_sum_add al_sum_cmult s pair_owed_def [of t p] by (simp add: algebra_simps)
qed

lemma AddLPFee_ok:
  assumes ok: "shares_ok p" and a: "0 \<le> a" and r: "AddLPFee (pp_state p) u a BaseLPFeesPerShare (pp_lpFeesPerShare p) = Inr lp"
  shows "shares_ok (p\<lparr>pp_lpFeesPerShare := lp\<rparr>)" and "pair_owed t (p\<lparr>pp_lpFeesPerShare := lp\<rparr>) \<le> pair_owed t p + (if t = u then BaseLPFeesPerShare * a else 0)"
proof -
  let ?S = "ShareAmount (pp_state p)"
  have S: "0 \<le> ?S" using ok by (simp add: shares_ok_def IsUint64_def)
  define d where "d = (if ?S = 0 then 0 else a * BaseLPFeesPerShare div ?S)"
  have d: "0 \<le> d" "d * ?S \<le> BaseLPFeesPerShare * a" using S a scaled_div_le [of ?S "a * BaseLPFeesPerShare"]
    by (auto simp: d_def pos_imp_zdiv_nonneg_iff mult.commute BaseLPFeesPerShare_def)
  have lp: "distinct (map fst lp)" "map_uint lp t = map_uint (pp_lpFeesPerShare p) t + (if t = u then d else 0)" for t
    using r S ok by (auto simp: AddLPFee_def d_def shares_ok_def split: if_splits)
  note g = pair_owed_grow [OF ok d(1) order_refl lp, of "pp_lmRewardsPerShare p"]
  have "distinct (map fst (pp_lmRewardsPerShare p))" using ok by (simp add: shares_ok_def)
  then show "shares_ok (p\<lparr>pp_lpFeesPerShare := lp\<rparr>)" "pair_owed t (p\<lparr>pp_lpFeesPerShare := lp\<rparr>) \<le> pair_owed t p + (if t = u then BaseLPFeesPerShare * a else 0)"
    using g(1) g(2) [where t = t] d(2) by auto
qed

lemma AddLMRewards_ok:
  assumes ok: "shares_ok p" and a: "0 \<le> a" and r: "AddLMRewards (pp_state p) u a BaseLPFeesPerShare (pp_lmRewardsPerShare p) = Inr lm"
  shows "shares_ok (p\<lparr>pp_lmRewardsPerShare := lm\<rparr>)" and "pair_owed t (p\<lparr>pp_lmRewardsPerShare := lm\<rparr>) \<le> pair_owed t p + (if t = u then BaseLPFeesPerShare * a else 0)"
proof -
  define F where "F = ShareAmount (pp_state p) - LmLockedShareAmount (pp_state p)"
  have F: "0 \<le> F" "to_uint64 F = F" using ok locked_bounds [OF ok] by (auto simp: F_def shares_ok_def IsUint64_def)
  define e where "e = (if F = 0 then 0 else a * BaseLPFeesPerShare div F)"
  have e: "0 \<le> e" "e * F \<le> BaseLPFeesPerShare * a" using F a scaled_div_le [of F "a * BaseLPFeesPerShare"]
    by (auto simp: e_def pos_imp_zdiv_nonneg_iff mult.commute BaseLPFeesPerShare_def)
  have F0: "ShareAmount (pp_state p) = LmLockedShareAmount (pp_state p) \<longleftrightarrow> F = 0" by (auto simp: F_def)
  have lm: "distinct (map fst lm)" "map_uint lm t = map_uint (pp_lmRewardsPerShare p) t + (if t = u then e else 0)" for t
    using r F ok unfolding AddLMRewards_def F0 F_def [symmetric] by (auto simp: e_def shares_ok_def split: if_splits)
  note g = pair_owed_grow [OF ok order_refl e(1) _ _ lm, of "pp_lpFeesPerShare p"]
  have "distinct (map fst (pp_lpFeesPerShare p))" using ok by (simp add: shares_ok_def)
  then show "shares_ok (p\<lparr>pp_lmRewardsPerShare := lm\<rparr>)" "pair_owed t (p\<lparr>pp_lmRewardsPerShare := lm\<rparr>) \<le> pair_owed t p + (if t = u then BaseLPFeesPerShare * a else 0)"
    using g(1) g(2) [where t = t] e(2) unfolding F_def by auto
qed

end
