(* ===== verification/Pdex_Order_Safety.thy ===== *)
theory Pdex_Order_Safety
  imports Pdex_Order_Handlers Pdex_Trade Pdex_Shares
begin

text \<open>
  What the order handlers keep: books stay sorted with distinct identifiers and without empty orders, the tokens held by
  orders are conserved, no access token gets more orders than the parameters allow, and a node that processes the
  instructions of a block has the books of the producer.
\<close>

section \<open>One withdrawal\<close>

definition take_token :: "Pdexv3PoolPair \<Rightarrow> string \<Rightarrow> int \<Rightarrow> Pdexv3Order \<Rightarrow> Pdexv3Order" where
  "take_token tp t a ord = filled ord (if t = Token0ID tp then - a else 0) (if t = Token1ID tp then - a else 0)"

definition can_take :: "Pdexv3PoolPair \<Rightarrow> Pdexv3Order \<Rightarrow> string \<times> int \<Rightarrow> bool" where
  "can_take tp ord = (\<lambda>(t, a). 0 < a \<and> (t = Token0ID tp \<and> a \<le> Token0Balance ord \<or> t = Token1ID tp \<and> a \<le> Token1Balance ord))"

lemma take_token_simps [simp]: "Id (take_token tp t a ord) = Id ord" "NftID (take_token tp t a ord) = NftID ord"
  by (simp_all add: take_token_def)

lemma take_token_ok: "order_ok ord \<Longrightarrow> can_take tp ord (t, a) \<Longrightarrow> Token0ID tp \<noteq> Token1ID tp \<Longrightarrow> order_ok (take_token tp t a ord)"
  by (auto simp: order_ok_def take_token_def filled_def can_take_def IsUint64_def)

lemma can_take_live: "can_take tp ord r \<Longrightarrow> live ord"
  by (auto simp: can_take_def live_def split: prod.splits)

lemma can_take_other: "can_take tp ord (t', a') \<Longrightarrow> t' \<noteq> t \<Longrightarrow> can_take tp (take_token tp t a ord) (t', a')"
  by (auto simp: can_take_def take_token_def filled_def)

lemma withdraw_step_taken:
  assumes "can_take tp ord (awo_TokenID md, awo_Amount md)" and "order_ok ord" and "Token0ID tp \<noteq> Token1ID tp"
  shows "withdraw_step md tp ord = Inr (take_token tp (awo_TokenID md) (awo_Amount md) ord, \<not> live (take_token tp (awo_TokenID md) (awo_Amount md) ord))"
proof -
  have u: "IsUint64 (Token0Balance ord)" "IsUint64 (Token1Balance ord)" using assms(2) by (auto simp: order_ok_def)
  consider "awo_TokenID md = Token0ID tp" "awo_Amount md \<le> Token0Balance ord" | "awo_TokenID md = Token1ID tp" "awo_Amount md \<le> Token1Balance ord"
    using assms(1) by (auto simp: can_take_def)
  then show ?thesis
  proof cases
    case 1
    then have "to_uint64 (Token0Balance ord - awo_Amount md) = Token0Balance ord - awo_Amount md" using assms(1) u by (intro to_uint64_id) (auto simp: can_take_def IsUint64_def)
    then show ?thesis using 1 assms by (auto simp: withdraw_step_def take_token_def filled_def live_def can_take_def)
  next
    case 2
    then have "to_uint64 (Token1Balance ord - awo_Amount md) = Token1Balance ord - awo_Amount md" using assms(1) u by (intro to_uint64_id) (auto simp: can_take_def IsUint64_def)
    then show ?thesis using 2 assms by (auto simp: withdraw_step_def take_token_def filled_def live_def can_take_def)
  qed
qed

lemma order_index_split: "i \<notin> Id ` set pre \<Longrightarrow> Id ord = i \<Longrightarrow> order_index i (pre @ ord # post) = Some (length pre)"
  by (induction pre) auto

lemma withdraw_book_taken:
  assumes "can_take tp ord (awo_TokenID md, awo_Amount md)" and "order_ok ord" and "Token0ID tp \<noteq> Token1ID tp"
    and "distinct (map Id (pre @ ord # post))" and "Id ord = awo_OrderID md"
  shows "withdraw_book md tp (pre @ ord # post) = Inr (pre @ filter live [take_token tp (awo_TokenID md) (awo_Amount md) ord] @ post)"
proof -
  have "order_index (awo_OrderID md) (pre @ ord # post) = Some (length pre)" using assms(4,5) by (intro order_index_split) auto
  then show ?thesis using withdraw_book_result [OF assms(4), of md tp] withdraw_step_taken [OF assms(1-3)] by simp
qed

section \<open>Replaying withdrawals\<close>

definition live_pair :: "PoolPairState \<Rightarrow> PoolPairState" where
  "live_pair p = p\<lparr>pp_orderbook := filter live (pp_orderbook p)\<rparr>"

definition live_pairs :: "pairs \<Rightarrow> pairs" where
  "live_pairs pairs = map (\<lambda>(k, p). (k, live_pair p)) pairs"

lemma live_pair_simps [simp]: "pp_state (live_pair p) = pp_state p" "pp_orderbook (live_pair p) = filter live (pp_orderbook p)"
  by (simp_all add: live_pair_def)

lemma map_of_live [simp]: "map_of (live_pairs pairs) k = map_option live_pair (map_of pairs k)"
  by (induction pairs) (auto simp: live_pairs_def)

lemma keys_live [simp]: "map fst (live_pairs pairs) = map fst pairs"
  by (induction pairs) (auto simp: live_pairs_def)

lemma live_pairs_put: "live_pairs (al_put k p pairs) = al_put k (live_pair p) (live_pairs pairs)"
  by (auto simp: live_pairs_def al_put_def image_iff split: prod.splits)

text \<open>Pools that trade two tokens, with a sorted book of well-formed orders.\<close>

definition books_ok :: "pairs \<Rightarrow> bool" where
  "books_ok pairs \<longleftrightarrow> distinct (map fst pairs) \<and>
     (\<forall>(k, p) \<in> set pairs. book_ok (pp_orderbook p) \<and> Token0ID (pp_state p) \<noteq> Token1ID (pp_state p))"

lemma books_okD: "books_ok pairs \<Longrightarrow> map_of pairs k = Some p \<Longrightarrow> book_ok (pp_orderbook p) \<and> Token0ID (pp_state p) \<noteq> Token1ID (pp_state p)"
  by (auto simp: books_ok_def dest: map_of_SomeD)

lemma books_ok_put: "books_ok pairs \<Longrightarrow> book_ok (pp_orderbook p) \<Longrightarrow> Token0ID (pp_state p) \<noteq> Token1ID (pp_state p) \<Longrightarrow> books_ok (al_put k p pairs)"
  by (auto simp: books_ok_def set_al_put)

lemma book_ok_live: "book_ok os \<Longrightarrow> book_ok (filter live os)"
  by (auto simp: book_ok_def sorted_wrt_filter distinct_map_filter)

lemma books_ok_live: "books_ok pairs \<Longrightarrow> books_ok (live_pairs pairs)"
  by (auto simp: books_ok_def book_ok_live) (auto simp: live_pairs_def book_ok_live)

lemma book_ok_replace:
  assumes "book_ok (pre @ ord # post)" and "order_ok (filled ord c0 c1)"
  shows "book_ok (pre @ filled ord c0 c1 # post)"
proof (rule refilled_book [OF _ assms(1)])
  show "refilled (pre @ ord # post) (pre @ filled ord c0 c1 # post)"
    using refilled_update [of "length pre" "pre @ ord # post" c0 c1] by simp
  show "\<forall>o' \<in> set (pre @ filled ord c0 c1 # post). order_ok o'" using assms by (auto simp: book_ok_def)
qed

abbreviation with_book :: "PoolPairState \<Rightarrow> Orderbook \<Rightarrow> PoolPairState" where
  "with_book p os \<equiv> p\<lparr>pp_orderbook := os\<rparr>"

lemma replay_accepted:
  assumes p: "books_ok pairs" "map_of pairs k = Some p" "pp_orderbook p = pre @ ord # post" "on_pairs n = live_pairs pairs"
    and rs: "\<forall>r \<in> set rs. can_take (pp_state p) ord r" "distinct (map fst rs)"
  shows "\<exists>n' ord' c0 c1. process_orders (accepted_withdrawals recv k (Id ord) txID shardID rs) n = Inr n' \<and>
    ord' = foldl (\<lambda>o' (t, a). take_token (pp_state p) t a o') ord rs \<and> order_ok ord' \<and> ord' = filled ord c0 c1 \<and>
    on_pairs n' = live_pairs (al_put k (with_book p (pre @ ord' # post)) pairs)"
  using p rs
proof (induction rs arbitrary: pairs p ord n)
  case Nil
  have "al_put k (with_book p (pre @ ord # post)) pairs = pairs"
    using Nil.prems(1-3) by (intro al_put_same) (auto simp: books_ok_def)
  moreover have "order_ok ord" using books_okD [OF Nil.prems(1,2)] Nil.prems(3) by (simp add: book_ok_def)
  ultimately show ?case using Nil.prems(4) by (auto simp: process_orders_def accepted_withdrawals_def)
next
  case (Cons r rs)
  obtain t a where r: "r = (t, a)" by force
  let ?tp = "pp_state p" and ?ord' = "take_token (pp_state p) t a ord"
  let ?md = "\<lparr>awo_PoolPairID = k, awo_OrderID = Id ord, awo_TokenID = t, awo_Receiver = recv t, awo_Amount = a\<rparr>"
  let ?p' = "with_book p (pre @ ?ord' # post)"
  note b = books_okD [OF Cons.prems(1,2)]
  have ok: "order_ok ord" and d: "distinct (map Id (pre @ ord # post))" using b Cons.prems(3) by (auto simp: book_ok_def)
  have c: "can_take ?tp ord (t, a)" using Cons.prems(5) r by simp
  have ok': "order_ok ?ord'" using take_token_ok [OF ok c] b by simp
  have "distinct (map Id (filter live (pre @ ord # post)))" using d by (rule distinct_map_filter)
  then have d': "distinct (map Id (filter live pre @ ord # filter live post))" using can_take_live [OF c] by simp
  have "withdraw_book ?md ?tp (filter live pre @ ord # filter live post) = Inr (filter live pre @ filter live [?ord'] @ filter live post)"
    using withdraw_book_taken [of ?tp ord ?md "filter live pre" "filter live post"] c ok b d' by simp
  then obtain n1 where n1: "process_order_inst n (AcceptedWithdrawOrderInst ?md txID shardID) = Inr n1" "on_pairs n1 = live_pairs (al_put k ?p' pairs)"
    using Cons.prems(2-4) can_take_live [OF c] by (auto simp: process_order_inst_def process_withdrawOrder_def live_pairs_put live_pair_def)
  have bk: "book_ok (pre @ ?ord' # post)" using book_ok_replace ok' b Cons.prems(3) by (auto simp: take_token_def)
  have 1: "books_ok (al_put k ?p' pairs)" by (intro books_ok_put Cons.prems(1)) (use bk b in auto)
  have "fst r' \<noteq> t" if "r' \<in> set rs" for r' using Cons.prems(6) r that by auto
  then have 2: "\<forall>r \<in> set rs. can_take (pp_state ?p') ?ord' r" using Cons.prems(5) by (force intro!: can_take_other)
  have 3: "distinct (map fst rs)" using Cons.prems(6) by simp
  from Cons.IH [OF 1 _ _ n1(2) 2 3] obtain n' ord' c0 c1 where
    n': "process_orders (accepted_withdrawals recv k (Id ord) txID shardID rs) n1 = Inr n'" "ord' = foldl (\<lambda>o' (t, a). take_token ?tp t a o') ?ord' rs"
    "order_ok ord'" "ord' = filled ?ord' c0 c1" "on_pairs n' = live_pairs (al_put k (with_book ?p' (pre @ ord' # post)) (al_put k ?p' pairs))" by auto
  have "process_orders (accepted_withdrawals recv k (Id ord) txID shardID (r # rs)) n = Inr n'"
    using n1(1) n'(1) r by (simp add: process_orders_def accepted_withdrawals_def)
  moreover have "\<exists>c0 c1. ord' = filled ord c0 c1" using n'(4) by (auto simp: take_token_def filled_filled)
  ultimately show ?case using n'(2,3,5) r by auto
qed

section \<open>Withdrawals of the producer\<close>

text \<open>The tokens held by orders, and what instructions pay out.\<close>

definition order_value :: "string \<Rightarrow> Pdexv3PoolPair \<Rightarrow> Pdexv3Order \<Rightarrow> int" where
  "order_value t tp ord = (if Token0ID tp = t then Token0Balance ord else 0) + (if Token1ID tp = t then Token1Balance ord else 0)"

definition orders_held :: "string \<Rightarrow> pairs \<Rightarrow> int" where
  "orders_held t pairs = al_sum (\<lambda>(_, p). sum_list (map (order_value t (pp_state p)) (pp_orderbook p))) pairs"

fun order_paid :: "string \<Rightarrow> 'r order_inst \<Rightarrow> int" where
  "order_paid t (RefundedAddOrderInst r _ _) = (if ra_TokenID r = t then ra_Amount r else 0)"
| "order_paid t (AcceptedWithdrawOrderInst w _ _) = (if awo_TokenID w = t then awo_Amount w else 0)"
| "order_paid t _ = 0"

definition orders_paid :: "string \<Rightarrow> 'r order_inst list \<Rightarrow> int" where
  "orders_paid t insts = sum_list (map (order_paid t) insts)"

lemma orders_paid_simps [simp]: "orders_paid t [] = 0" "orders_paid t (i # is) = order_paid t i + orders_paid t is"
  "orders_paid t (xs @ ys) = orders_paid t xs + orders_paid t ys"
  by (simp_all add: orders_paid_def)

lemma live_value: "\<not> live ord \<Longrightarrow> order_value t tp ord = 0"
  by (simp add: live_def order_value_def)

lemma sum_live: "sum_list (map (order_value t tp) (filter live os)) = sum_list (map (order_value t tp) os)"
  by (induction os) (auto simp: live_value)

lemma held_live [simp]: "orders_held t (live_pairs pairs) = orders_held t pairs"
  by (simp add: orders_held_def al_sum_def live_pairs_def comp_def split_def sum_live)

text \<open>The same pools with orders that differ only in their balances.\<close>

definition same_pools :: "pairs \<Rightarrow> pairs \<Rightarrow> bool" where
  "same_pools pairs pairs' \<longleftrightarrow> map fst pairs' = map fst pairs \<and>
     (\<forall>k p. map_of pairs k = Some p \<longrightarrow> (\<exists>os. map_of pairs' k = Some (with_book p os) \<and> refilled (pp_orderbook p) os))"

lemma same_pools_refl [simp]: "same_pools pairs pairs"
proof -
  have "\<exists>os. map_of pairs k = Some (with_book p os) \<and> refilled (pp_orderbook p) os" if "map_of pairs k = Some p" for k p
    using that by (intro exI [of _ "pp_orderbook p"]) simp
  then show ?thesis by (simp add: same_pools_def)
qed

lemma same_pools_trans: "same_pools a b \<Longrightarrow> same_pools b c \<Longrightarrow> same_pools a c"
  unfolding same_pools_def by (fastforce intro: refilled_trans)

lemma same_pools_put:
  assumes "map_of pairs k = Some p" and "refilled (pp_orderbook p) os"
  shows "same_pools pairs (al_put k (with_book p os) pairs)"
proof -
  have "k \<in> fst ` set pairs" using map_of_SomeD [OF assms(1)] by force
  moreover have "\<exists>os. map_of (al_put k (with_book p os') pairs) j = Some (with_book q os) \<and> refilled (pp_orderbook q) os"
    if "map_of pairs j = Some q" "os' = os" for j q os'
  proof (cases "j = k")
    case False
    then show ?thesis using that by (intro exI [of _ "pp_orderbook q"]) simp
  qed (use assms that in auto)
  ultimately show ?thesis by (simp add: same_pools_def keys_al_put)
qed

definition accepted_order :: "AcceptedAddOrder \<Rightarrow> Pdexv3Order" where
  "accepted_order md = \<lparr>Id = ao_OrderID md, NftID = ao_NftID md, Token0Rate = ao_Token0Rate md, Token1Rate = ao_Token1Rate md,
     Token0Balance = ao_Token0Balance md, Token1Balance = ao_Token1Balance md, TradeDirection = ao_TradeDirection md, Receiver = ao_Receiver md\<rparr>"

fun new_orders :: "string \<Rightarrow> 'r order_inst \<Rightarrow> Pdexv3Order multiset" where
  "new_orders k (AcceptedAddOrderInst a _ _) = (if ao_PoolPairID a = k then {#accepted_order a#} else {#})"
| "new_orders k _ = {#}"

definition adds :: "string \<Rightarrow> 'r order_inst list \<Rightarrow> Pdexv3Order multiset" where
  "adds k insts = sum_list (map (new_orders k) insts)"

lemma adds_simps [simp]: "adds k [] = {#}" "adds k (i # is) = new_orders k i + adds k is" "adds k (xs @ ys) = adds k xs + adds k ys"
  by (simp_all add: adds_def)

definition withdraws :: "'r order_inst list \<Rightarrow> pairs \<Rightarrow> pairs \<Rightarrow> bool" where
  "withdraws insts pairs pairs' \<longleftrightarrow> books_ok pairs' \<and> same_pools pairs pairs' \<and>
     (\<forall>n. on_pairs n = live_pairs pairs \<longrightarrow> (\<exists>n'. process_orders insts n = Inr n' \<and> on_pairs n' = live_pairs pairs')) \<and>
     (\<forall>t. orders_held t pairs' + orders_paid t insts = orders_held t pairs) \<and> (\<forall>k. adds k insts = {#})"

lemma withdraws_trans:
  assumes "withdraws is pairs pairs1" and "withdraws js pairs1 pairs2"
  shows "withdraws (is @ js) pairs pairs2"
proof -
  have "\<exists>n'. process_orders (is @ js) n = Inr n' \<and> on_pairs n' = live_pairs pairs2" if n: "on_pairs n = live_pairs pairs" for n
  proof -
    from assms(1) n obtain n1 where n1: "process_orders is n = Inr n1" "on_pairs n1 = live_pairs pairs1" unfolding withdraws_def by blast
    then show ?thesis using assms(2) unfolding withdraws_def by (auto simp: process_orders_def go_foldl_append)
  qed
  moreover have "orders_held t pairs2 + orders_paid t (is @ js) = orders_held t pairs" for t
    using assms unfolding withdraws_def by (metis add.assoc add.commute orders_paid_simps(3))
  moreover have "adds k (is @ js) = {#}" for k using assms by (simp add: withdraws_def)
  ultimately show ?thesis using assms same_pools_trans unfolding withdraws_def by blast
qed

definition idle :: "'r order_inst \<Rightarrow> bool" where
  "idle i \<longleftrightarrow> (case i of RejectedWithdrawOrderInst _ _ _ _ \<Rightarrow> True | OrderNftInst _ _ \<Rightarrow> True | _ \<Rightarrow> False)"

lemma idle_withdraws: "books_ok pairs \<Longrightarrow> list_all idle insts \<Longrightarrow> withdraws insts pairs pairs"
proof (induction insts)
  case (Cons i "is")
  have "withdraws [i] pairs pairs"
    using Cons.prems by (cases i) (auto simp: withdraws_def process_orders_def process_order_inst_def idle_def)
  from withdraws_trans [OF this, of "is" pairs] Cons show ?case by simp
qed (simp add: withdraws_def process_orders_def)

lemma take_value:
  "t' = Token0ID tp \<or> t' = Token1ID tp \<Longrightarrow> Token0ID tp \<noteq> Token1ID tp \<Longrightarrow>
     order_value t tp (take_token tp t' a ord) = order_value t tp ord - (if t' = t then a else 0)"
  by (auto simp: order_value_def take_token_def filled_def)

lemma taken_value:
  assumes "\<forall>(t', a) \<in> set rs. t' = Token0ID tp \<or> t' = Token1ID tp" and "Token0ID tp \<noteq> Token1ID tp"
  shows "order_value t tp (foldl (\<lambda>o' (t, a). take_token tp t a o') ord rs) + sum_list (map (\<lambda>(t', a). if t' = t then a else 0) rs) = order_value t tp ord"
  using assms(1)
proof (induction rs arbitrary: ord)
  case (Cons r rs)
  obtain t' a where r: "r = (t', a)" by force
  then have "order_value t tp (take_token tp t' a ord) = order_value t tp ord - (if t' = t then a else 0)"
    using Cons.prems by (intro take_value assms(2)) auto
  moreover have "order_value t tp (foldl (\<lambda>o' (t, a). take_token tp t a o') (take_token tp t' a ord) rs) +
      sum_list (map (\<lambda>(t', a). if t' = t then a else 0) rs) = order_value t tp (take_token tp t' a ord)"
    by (intro Cons.IH) (use Cons.prems in simp)
  ultimately show ?case using r by simp
qed simp

lemma paid_accepted: "orders_paid t (accepted_withdrawals recv k i txID shardID rs) = sum_list (map (\<lambda>(t', a). if t' = t then a else 0) rs)"
  by (induction rs) (auto simp: accepted_withdrawals_def)

lemma held_put:
  assumes "distinct (map fst pairs)" and "map_of pairs k = Some p"
  shows "orders_held t (al_put k (with_book p os) pairs) =
    orders_held t pairs + sum_list (map (order_value t (pp_state p)) os) - sum_list (map (order_value t (pp_state p)) (pp_orderbook p))"
  unfolding orders_held_def using assms by (simp add: al_sum_put)

lemma accepted_withdraws:
  assumes p: "books_ok pairs" "map_of pairs k = Some p" "pp_orderbook p = pre @ ord # post"
    and rs: "\<forall>r \<in> set rs. can_take (pp_state p) ord r" "distinct (map fst rs)"
    and ord': "ord' = foldl (\<lambda>o' (t, a). take_token (pp_state p) t a o') ord rs"
  shows "withdraws (accepted_withdrawals recv k (Id ord) txID shardID rs) pairs (al_put k (with_book p (pre @ ord' # post)) pairs)"
proof -
  note b = books_okD [OF p(1,2)]
  note replay = replay_accepted [OF p _ rs, of _ recv txID shardID, folded ord']
  from replay [of "\<lparr>on_pairs = live_pairs pairs, on_tracked = []\<rparr>"] ord' obtain c0 c1 where o': "order_ok ord'" "ord' = filled ord c0 c1" by auto
  have bk: "book_ok (pre @ ord' # post)" using book_ok_replace o' b p(3) by auto
  have r: "refilled (pp_orderbook p) (pre @ ord' # post)" using refilled_update [of "length pre" "pre @ ord # post" c0 c1] p(3) o'(2) by simp
  have v: "order_value t (pp_state p) ord' + orders_paid t (accepted_withdrawals recv k (Id ord) txID shardID rs) = order_value t (pp_state p) ord" for t
    unfolding paid_accepted ord' by (rule taken_value) (use rs(1) b in \<open>auto simp: can_take_def\<close>)
  have d: "distinct (map fst pairs)" using p(1) by (simp add: books_ok_def)
  have "orders_held t (al_put k (with_book p (pre @ ord' # post)) pairs) + orders_paid t (accepted_withdrawals recv k (Id ord) txID shardID rs) = orders_held t pairs" for t
    using v [of t] unfolding held_put [OF d p(2)] p(3) by simp
  moreover have "books_ok (al_put k (with_book p (pre @ ord' # post)) pairs)" by (intro books_ok_put p(1)) (use bk b in auto)
  moreover have "\<exists>n'. process_orders (accepted_withdrawals recv k (Id ord) txID shardID rs) n = Inr n' \<and>
      on_pairs n' = live_pairs (al_put k (with_book p (pre @ ord' # post)) pairs)" if "on_pairs n = live_pairs pairs" for n
    using replay [OF that] ord' by blast
  moreover have "adds j (accepted_withdrawals recv k (Id ord) txID shardID rs) = {#}" for j by (induction rs) (auto simp: accepted_withdrawals_def)
  ultimately show ?thesis using same_pools_put [OF p(2) r] unfolding withdraws_def by blast
qed

lemma order_found:
  assumes "order_index i os = Some k"
  obtains pre post where "os = pre @ os ! k # post" "k = length pre" "Id (os ! k) = i"
proof -
  from order_index_Some [OF assms] have k: "k < length os" "Id (os ! k) = i" by auto
  then have "os = take k os @ os ! k # drop (Suc k) os" by (intro id_take_nth_drop)
  then show thesis using k by (intro that [of "take k os" "drop (Suc k) os"]) auto
qed

lemma sort_two: "sort_key fst [x, y] = (if fst x \<le> fst y then [x, y] else [y, x :: string \<times> int])"
  by simp

lemma withdraw_results_cases:
  assumes "Token0ID tp \<noteq> Token1ID tp" and "0 \<le> a0" "a0 \<le> Token0Balance ord" "0 \<le> a1" "a1 \<le> Token1Balance ord"
  shows "\<forall>r \<in> set (withdraw_results tp a0 a1). can_take tp ord r" "distinct (map fst (withdraw_results tp a0 a1))"
    and "foldl (\<lambda>o' (t, a). take_token tp t a o') ord (withdraw_results tp a0 a1) = ord\<lparr>Token0Balance := Token0Balance ord - a0, Token1Balance := Token1Balance ord - a1\<rparr>"
  using assms
  by (auto simp: withdraw_results_def by_key_def Let_def al_put_def can_take_def take_token_def filled_def)

lemma withdraw_amount_bounds: "0 \<le> b \<Longrightarrow> 0 \<le> a \<Longrightarrow> 0 \<le> withdraw_amount w b a \<and> withdraw_amount w b a \<le> b"
  by (simp add: withdraw_amount_def)

lemma withdrawOrder_tx_cases:
  assumes "withdrawOrder_tx otaString (pairs, res) tx = Inr (pairs', res')"
  obtains (reject) nft i where "idle nft" "idle i" "res' = res @ [nft, i]" "pairs' = pairs"
    | (accept) pair k w0 w1 a0 a1 nft where "idle nft" "map_of pairs (wo_PoolPairID (tx_Metadata tx)) = Some pair"
       "order_index (wo_OrderID (tx_Metadata tx)) (pp_orderbook pair) = Some k"
       "a0 = withdraw_amount w0 (Token0Balance (pp_orderbook pair ! k)) (wo_Amount (tx_Metadata tx))"
       "a1 = withdraw_amount w1 (Token1Balance (pp_orderbook pair ! k)) (wo_Amount (tx_Metadata tx))"
       "pairs' = set_order (wo_PoolPairID (tx_Metadata tx)) k ((pp_orderbook pair ! k)\<lparr>Token0Balance := Token0Balance (pp_orderbook pair ! k) - a0,
         Token1Balance := Token1Balance (pp_orderbook pair ! k) - a1\<rparr>) pair pairs"
       "res' = res @ nft # accepted_withdrawals (\<lambda>key. the (wo_Receiver (tx_Metadata tx) key)) (wo_PoolPairID (tx_Metadata tx)) (wo_OrderID (tx_Metadata tx))
           (tx_Hash tx) (tx_ShardID tx) (withdraw_results (pp_state pair) a0 a1)"
proof -
  let ?md = "tx_Metadata tx"
  let ?nft = "OrderNftInst ''289'' \<lparr>mn_nftID = wo_NftID ?md, mn_otaReceiver = receiver_str otaString (wo_Receiver ?md) (wo_NftID ?md),
             mn_shardID = tx_ShardID tx, mn_txReqID = tx_Hash tx\<rparr> :: 'a order_inst"
  let ?rej = "RejectedWithdrawOrderInst (wo_PoolPairID ?md) (wo_OrderID ?md) (tx_Hash tx) (tx_ShardID tx) :: 'a order_inst"
  have nft: "idle ?nft" "idle ?rej" by (simp_all add: idle_def)
  obtain r where r: "wo_Receiver ?md (wo_NftID ?md) = Some r" using assms by (auto simp: withdrawOrder_tx_def Let_def split: option.splits)
  note u = assms [unfolded withdrawOrder_tx_def Let_def prod.case r option.case]
  have rej: thesis if "res' = res @ [?nft] @ [?rej]" "pairs' = pairs" using reject [OF nft] that by simp
  show thesis
  proof (cases "map_of pairs (wo_PoolPairID ?md)")
    case None
    then show ?thesis using u rej by simp
  next
    case (Some pair)
    show ?thesis
    proof (cases "order_index (wo_OrderID ?md) (pp_orderbook pair)")
      case None
      then show ?thesis using u Some rej by simp
    next
      case k: (Some k)
      define w0 w1 where "w0 = (wo_Receiver ?md (Token0ID (pp_state pair)) \<noteq> None)" and "w1 = (wo_Receiver ?md (Token1ID (pp_state pair)) \<noteq> None)"
      note u' = u [unfolded Some k option.case, folded w0_def w1_def]
      show ?thesis
      proof (cases "NftID (pp_orderbook pair ! k) \<noteq> wo_NftID ?md \<or> w0 \<and> w1 \<and> wo_Amount ?md \<noteq> 0 \<or>
          \<not> (withdraw_amount w0 (Token0Balance (pp_orderbook pair ! k)) (wo_Amount ?md) > 0 \<or> withdraw_amount w1 (Token1Balance (pp_orderbook pair ! k)) (wo_Amount ?md) > 0)")
        case True
        then show ?thesis using u' rej by (auto split: if_splits)
      next
        case False
        then show ?thesis using u' accept [OF nft(1) Some k refl refl, of w1 w0] by (auto split: if_splits)
      qed
    qed
  qed
qed

lemma withdrawOrder_tx_withdraws:
  assumes "withdrawOrder_tx otaString (pairs, res) tx = Inr (pairs', res')" and "books_ok pairs" and "0 \<le> wo_Amount (tx_Metadata tx)"
  shows "\<exists>new. res' = res @ new \<and> withdraws new pairs pairs'"
  using assms(1)
proof (cases rule: withdrawOrder_tx_cases)
  case (reject nft i)
  then show ?thesis using idle_withdraws [OF assms(2), of "[nft, i]"] by auto
next
  case (accept pair k w0 w1 a0 a1 nft)
  let ?md = "tx_Metadata tx" and ?ord = "pp_orderbook pair ! k"
  obtain pre post where os: "pp_orderbook pair = pre @ ?ord # post" "k = length pre" "Id ?ord = wo_OrderID ?md" by (rule order_found [OF accept(3)])
  note b = books_okD [OF assms(2) accept(2)]
  then have "order_ok ?ord" using arg_cong [OF os(1), of set] by (auto simp: book_ok_def)
  then have "0 \<le> Token0Balance ?ord" "0 \<le> Token1Balance ?ord" by (auto simp: order_ok_def IsUint64_def)
  then have "0 \<le> a0" "a0 \<le> Token0Balance ?ord" "0 \<le> a1" "a1 \<le> Token1Balance ?ord" using withdraw_amount_bounds assms(3) accept(4,5) by auto
  note rs = withdraw_results_cases [OF conjunct2 [OF b] this]
  have "set_order (wo_PoolPairID ?md) k o' pair pairs = al_put (wo_PoolPairID ?md) (with_book pair (pre @ o' # post)) pairs" for o'
    unfolding set_order_def by (subst os(1)) (simp add: os(2))
  then have "withdraws (accepted_withdrawals (\<lambda>key. the (wo_Receiver ?md key)) (wo_PoolPairID ?md) (Id ?ord) (tx_Hash tx) (tx_ShardID tx)
      (withdraw_results (pp_state pair) a0 a1)) pairs pairs'"
    using accepted_withdraws [OF assms(2) accept(2) os(1) rs(1,2) rs(3) [symmetric]] accept(6) by simp
  from withdraws_trans [OF idle_withdraws [OF assms(2), of "[nft]"] this] accept(1) show ?thesis using accept(7) os(3) by auto
qed

lemma withdrawOrder_withdraws:
  assumes "go_foldl (withdrawOrder_tx otaString) (pairs, res) txs = Inr (pairs', res')" and "books_ok pairs"
    and "\<forall>tx \<in> set txs. 0 \<le> wo_Amount (tx_Metadata tx)"
  shows "\<exists>new. res' = res @ new \<and> withdraws new pairs pairs'"
  using assms
proof (induction txs arbitrary: pairs res)
  case Nil
  then show ?case using idle_withdraws [of pairs "[]"] by simp
next
  case (Cons tx txs)
  from Cons.prems(1) obtain p1 r1 where 1: "withdrawOrder_tx otaString (pairs, res) tx = Inr (p1, r1)" "go_foldl (withdrawOrder_tx otaString) (p1, r1) txs = Inr (pairs', res')"
    by auto
  from withdrawOrder_tx_withdraws [OF 1(1) Cons.prems(2)] Cons.prems(3) obtain new1 where n1: "r1 = res @ new1" "withdraws new1 pairs p1" by auto
  then have "books_ok p1" by (simp add: withdraws_def)
  from Cons.IH [OF 1(2) this] Cons.prems(3) obtain new2 where "res' = r1 @ new2" "withdraws new2 p1 pairs'" by auto
  then show ?case using n1 withdraws_trans by auto
qed

section \<open>Matched orders\<close>

lemma matched_insts_accepted:
  assumes "Token0ID tp \<noteq> Token1ID tp" and "0 \<le> Token0Balance ord" and "0 \<le> Token1Balance ord"
  defines "rs \<equiv> (if Token0Balance ord > 0 then [(Token0ID tp, Token0Balance ord)] else []) @ (if Token1Balance ord > 0 then [(Token1ID tp, Token1Balance ord)] else [])"
  shows "matched_insts otaParse otaShard k tp ord h = accepted_withdrawals
      (\<lambda>t. if t = Token0ID tp then otaParse (fst (Receiver ord)) else otaParse (snd (Receiver ord))) k (Id ord) h (otaShard (otaParse (fst (Receiver ord)))) rs"
    and "\<forall>r \<in> set rs. can_take tp ord r" and "distinct (map fst rs)"
    and "foldl (\<lambda>o' (t, a). take_token tp t a o') ord rs = ord\<lparr>Token0Balance := 0, Token1Balance := 0\<rparr>"
proof -
  have z: "0 < Token0Balance ord \<or> Token0Balance ord = 0" "0 < Token1Balance ord \<or> Token1Balance ord = 0" using assms(2,3) by auto
  show "matched_insts otaParse otaShard k tp ord h = accepted_withdrawals
      (\<lambda>t. if t = Token0ID tp then otaParse (fst (Receiver ord)) else otaParse (snd (Receiver ord))) k (Id ord) h (otaShard (otaParse (fst (Receiver ord)))) rs"
    using assms(1) by (simp add: matched_insts_def accepted_withdrawals_def rs_def Let_def)
  show "\<forall>r \<in> set rs. can_take tp ord r" "distinct (map fst rs)" using assms(1) by (auto simp: rs_def can_take_def)
  show "foldl (\<lambda>o' (t, a). take_token tp t a o') ord rs = ord\<lparr>Token0Balance := 0, Token1Balance := 0\<rparr>"
    using z assms(1) by (auto simp: rs_def take_token_def filled_def)
qed

lemma matched_order_cases:
  assumes "matched_order otaParse otaShard limit k tp (counts, res) ord = Inr (counts', res', ord')"
  obtains "res' = res" "ord' = ord" | h where "res' = res @ matched_insts otaParse otaShard k tp ord h" "ord' = ord\<lparr>Token0Balance := 0, Token1Balance := 0\<rparr>"
proof -
  note a = assms [unfolded matched_order_def prod.case Let_def]
  show thesis
  proof (cases "CanMatch ord (opposite_direction (TradeDirection ord))")
    case (Inl e)
    then show ?thesis using a that(1) by (cases e) simp_all
  next
    case c: (Inr c)
    show ?thesis
    proof (cases c)
      case True
      then show ?thesis using a c that(1) by simp
    next
      case False
      note a1 = a [unfolded c go_catch_simps, simplified False if_False]
      then obtain h where h: "(if Token0Balance ord > 0 \<or> Token1Balance ord > 0 then hash_of (Id ord) else Inr []) = Inr h"
        by (cases "if Token0Balance ord > 0 \<or> Token1Balance ord > 0 then hash_of (Id ord) else Inr []") simp_all
      note a2 = a1 [unfolded h go_bind_simps]
      show ?thesis
      proof (cases "limit < to_uint64 (map_uint counts (otaShard (otaParse (fst (Receiver ord)))) + int (length (matched_insts otaParse otaShard k tp ord h)))")
        case True
        from a2 [unfolded if_P [OF True]] show ?thesis by (intro that(1)) simp_all
      next
        case False
        from a2 [unfolded if_not_P [OF False]] show ?thesis by (intro that(2) [of h]) simp_all
      qed
    qed
  qed
qed

lemma matched_orders_withdraws:
  assumes "books_ok pairs" "map_of pairs k = Some p" "pp_orderbook p = pre @ os"
    and "matched_orders otaParse otaShard limit k (pp_state p) (counts, res) os = Inr (counts', res', os')"
  shows "\<exists>new. res' = res @ new \<and> withdraws new pairs (al_put k (with_book p (pre @ os')) pairs)"
  using assms
proof (induction os arbitrary: pairs p pre counts res os')
  case Nil
  have "al_put k (with_book p pre) pairs = pairs" using Nil.prems(1-3) by (intro al_put_same) (auto simp: books_ok_def)
  then show ?case using Nil.prems(1,4) idle_withdraws [of pairs "[]"] by auto
next
  case (Cons ord os)
  let ?tp = "pp_state p"
  from Cons.prems(4) obtain c1 r1 ord1 os1 where s: "matched_order otaParse otaShard limit k ?tp (counts, res) ord = Inr (c1, r1, ord1)"
    "matched_orders otaParse otaShard limit k ?tp (c1, r1) os = Inr (counts', res', os1)" "os' = ord1 # os1" by auto
  note b = books_okD [OF Cons.prems(1,2)]
  have "order_ok ord" using b Cons.prems(3) by (simp add: book_ok_def)
  then have u: "0 \<le> Token0Balance ord" "0 \<le> Token1Balance ord" by (auto simp: order_ok_def IsUint64_def)
  let ?p1 = "with_book p (pre @ ord1 # os)"
  have "\<exists>new. r1 = res @ new \<and> withdraws new pairs (al_put k ?p1 pairs)"
    using s(1)
  proof (cases rule: matched_order_cases)
    case 1
    then have "al_put k ?p1 pairs = pairs" using Cons.prems(1-3) by (intro al_put_same) (auto simp: books_ok_def)
    then show ?thesis using 1 idle_withdraws [OF Cons.prems(1), of "[]"] by simp
  next
    case (2 h)
    note m = matched_insts_accepted [OF conjunct2 [OF b] u]
    have "withdraws (matched_insts otaParse otaShard k ?tp ord h) pairs (al_put k ?p1 pairs)"
      unfolding m(1) 2(2) by (rule accepted_withdraws [OF Cons.prems(1-3) m(2,3) m(4) [symmetric]])
    then show ?thesis using 2(1) by blast
  qed
  then obtain n1 where n1: "r1 = res @ n1" "withdraws n1 pairs (al_put k ?p1 pairs)" by blast
  have "books_ok (al_put k ?p1 pairs)" using n1(2) by (simp add: withdraws_def)
  from Cons.IH [OF this, of ?p1 "pre @ [ord1]" c1 r1 os1] s(2) obtain n2 where
    "res' = r1 @ n2" "withdraws n2 (al_put k ?p1 pairs) (al_put k (with_book p (pre @ ord1 # os1)) pairs)" by auto
  then show ?case using n1 withdraws_trans s(3) by auto
qed

lemma matched_pair_withdraws:
  assumes "matched_pair otaParse otaShard limit (pairs, counts, res) k = Inr (pairs', counts', res')" and "books_ok pairs"
  shows "\<exists>new. res' = res @ new \<and> withdraws new pairs pairs'"
proof -
  from assms(1) obtain p os where p: "map_of pairs k = Some p" "matched_orders otaParse otaShard limit k (pp_state p) (counts, res) (pp_orderbook p) = Inr (counts', res', os)"
    "pairs' = al_put k (with_book p os) pairs" by (auto simp: matched_pair_def split: option.splits)
  show ?thesis using matched_orders_withdraws [OF assms(2) p(1) _ p(2), of "[]"] p(3) by simp
qed

lemma matched_pairs_withdraws:
  assumes "go_foldl (matched_pair otaParse otaShard limit) (pairs, counts, res) ks = Inr (pairs', counts', res')" and "books_ok pairs"
  shows "\<exists>new. res' = res @ new \<and> withdraws new pairs pairs'"
  using assms
proof (induction ks arbitrary: pairs counts res)
  case Nil
  then show ?case using idle_withdraws [of pairs "[]"] by simp
next
  case (Cons k ks)
  from Cons.prems(1) obtain p1 c1 r1 where 1: "matched_pair otaParse otaShard limit (pairs, counts, res) k = Inr (p1, c1, r1)"
    "go_foldl (matched_pair otaParse otaShard limit) (p1, c1, r1) ks = Inr (pairs', counts', res')" by auto
  from matched_pair_withdraws [OF 1(1) Cons.prems(2)] obtain n1 where n1: "r1 = res @ n1" "withdraws n1 pairs p1" by auto
  then have "books_ok p1" by (simp add: withdraws_def)
  from Cons.IH [OF 1(2) this] obtain n2 where "res' = r1 @ n2" "withdraws n2 p1 pairs'" by auto
  then show ?case using n1 withdraws_trans by auto
qed

text \<open>Nothing stops the withdrawal of matched orders: the identifiers of orders are hashes.\<close>

definition ids_hashed :: "pairs \<Rightarrow> bool" where
  "ids_hashed pairs \<longleftrightarrow> (\<forall>(k, p) \<in> set pairs. \<forall>ord \<in> set (pp_orderbook p). HashFromStr (Id ord) \<noteq> None)"

lemma matched_order_total:
  assumes "order_ok ord" and "HashFromStr (Id ord) \<noteq> None"
  shows "go_ok (matched_order otaParse otaShard limit k tp (counts, res) ord)"
proof (cases "CanMatch ord (opposite_direction (TradeDirection ord))")
  case (Inl e)
  then show ?thesis using CanMatch_ok [OF assms(1)] by (cases e) (auto simp: matched_order_def)
next
  case (Inr c)
  then show ?thesis using assms(2) by (auto simp: matched_order_def hash_of_def Let_def)
qed

lemma matched_orders_total:
  assumes "\<forall>ord \<in> set os. order_ok ord \<and> HashFromStr (Id ord) \<noteq> None"
  shows "go_ok (matched_orders otaParse otaShard limit k tp (counts, res) os)"
  using assms
proof (induction os arbitrary: counts res)
  case (Cons ord os)
  then obtain c1 r1 o1 where "matched_order otaParse otaShard limit k tp (counts, res) ord = Inr (c1, r1, o1)"
    using matched_order_total [of ord otaParse otaShard limit k tp counts res] by (auto simp: go_ok_iff)
  moreover obtain c2 r2 os2 where "matched_orders otaParse otaShard limit k tp (c1, r1) os = Inr (c2, r2, os2)"
    using Cons by (auto simp: go_ok_iff) metis
  ultimately show ?case by simp
qed simp

lemma refilled_ids: "refilled os os' \<Longrightarrow> map Id os' = map Id os \<and> map NftID os' = map NftID os"
  unfolding refilled_def by (induction rule: list_all2_induct) auto

lemma same_pools_ids: "same_pools pairs pairs' \<Longrightarrow> distinct (map fst pairs) \<Longrightarrow> ids_hashed pairs \<Longrightarrow> ids_hashed pairs'"
proof -
  assume s: "same_pools pairs pairs'" "distinct (map fst pairs)" "ids_hashed pairs"
  have "HashFromStr (Id ord) \<noteq> None" if kp: "(k, p) \<in> set pairs'" "ord \<in> set (pp_orderbook p)" for k p ord
  proof -
    have "k \<in> fst ` set pairs" using s(1) kp(1) by (metis same_pools_def fst_conv imageI list.set_map)
    then obtain q where q: "(k, q) \<in> set pairs" by force
    then have mq: "map_of pairs k = Some q" using s(2) by simp
    have "distinct (map fst pairs')" using s(1,2) by (simp add: same_pools_def)
    then have "map_of pairs' k = Some p" using kp(1) by simp
    with s(1) mq obtain os where "p = with_book q os" "refilled (pp_orderbook q) os" unfolding same_pools_def by fastforce
    then have "set (map Id (pp_orderbook q)) = set (map Id os)" "ord \<in> set os" using refilled_ids [of "pp_orderbook q" os] kp(2) by simp_all
    then have "Id ord \<in> set (map Id (pp_orderbook q))" by simp
    then show ?thesis using s(3) q by (auto simp: ids_hashed_def)
  qed
  then show ?thesis by (auto simp: ids_hashed_def)
qed

lemma same_pools_books: "same_pools pairs pairs' \<Longrightarrow> map_of pairs' k = Some p' \<Longrightarrow>
  \<exists>p os. map_of pairs k = Some p \<and> p' = with_book p os \<and> refilled (pp_orderbook p) os"
proof -
  assume s: "same_pools pairs pairs'" "map_of pairs' k = Some p'"
  then have "k \<in> fst ` set pairs" by (metis map_of_SomeD fst_conv imageI list.set_map same_pools_def)
  then obtain p where "map_of pairs k = Some p" by (metis map_of_eq_None_iff option.exhaust)
  then show ?thesis using s unfolding same_pools_def by fastforce
qed

lemma matched_total:
  assumes "books_ok pairs" and "ids_hashed pairs" and "set ks \<subseteq> fst ` set pairs"
  shows "go_ok (go_foldl (matched_pair otaParse otaShard limit) (pairs, counts, res) ks)"
  using assms
proof (induction ks arbitrary: pairs counts res)
  case (Cons k ks)
  then obtain p where p: "map_of pairs k = Some p" by (metis insert_subset list.simps(15) map_of_eq_None_iff option.exhaust)
  have "\<forall>ord \<in> set (pp_orderbook p). order_ok ord \<and> HashFromStr (Id ord) \<noteq> None"
    using books_okD [OF Cons.prems(1) p] map_of_SomeD [OF p] Cons.prems(2) by (auto simp: book_ok_def ids_hashed_def)
  from matched_orders_total [OF this, of otaParse otaShard limit k "pp_state p" counts res]
  obtain p1 c1 r1 where 1: "matched_pair otaParse otaShard limit (pairs, counts, res) k = Inr (p1, c1, r1)"
    using p by (auto simp: matched_pair_def go_ok_iff)
  from matched_pair_withdraws [OF 1 Cons.prems(1)] have w: "books_ok p1" "same_pools pairs p1" by (auto simp: withdraws_def)
  have "fst ` set p1 = fst ` set pairs" using w(2) by (metis list.set_map same_pools_def)
  then have "go_ok (go_foldl (matched_pair otaParse otaShard limit) (p1, c1, r1) ks)"
    using Cons.prems w same_pools_ids [OF w(2)] by (intro Cons.IH) (auto simp: books_ok_def)
  then show ?case using 1 by simp
qed simp

section \<open>New orders\<close>

definition nft_orders :: "string \<Rightarrow> pairs \<Rightarrow> int" where
  "nft_orders nft pairs = al_sum (\<lambda>(_, p). int (length (filter (\<lambda>ord. NftID ord = nft) (pp_orderbook p)))) pairs"

definition add_order_ok :: "'r AddOrderRequest Transaction \<Rightarrow> bool" where
  "add_order_ok tx \<longleftrightarrow> (let md = tx_Metadata tx in 0 < ar_SellAmount md \<and> IsUint64 (ar_SellAmount md) \<and> 0 < ar_MinAcceptableAmount md \<and>
     IsUint64 (ar_MinAcceptableAmount md) \<and> ar_Receiver md (ar_TokenToSell md) \<noteq> None \<and> HashFromStr (tx_Hash tx) \<noteq> None)"

lemma order_data_ok:
  assumes "order_data otaString h tp md = Some (a, t)" and "0 < ar_SellAmount md" "IsUint64 (ar_SellAmount md)" "0 < ar_MinAcceptableAmount md"
    "IsUint64 (ar_MinAcceptableAmount md)" and "Token0ID tp \<noteq> Token1ID tp"
  shows "order_ok (accepted_order a)" "live (accepted_order a)" "Id (accepted_order a) = h" "NftID (accepted_order a) = ar_NftID md" "ao_PoolPairID a = ar_PoolPairID md"
    and "order_value t' tp (accepted_order a) = (if ar_TokenToSell md = t' then ar_SellAmount md else 0)"
  using assms by (auto simp: order_data_def accepted_order_def order_ok_def live_def order_value_def Let_def IsUint64_def split: if_splits)

lemma addOrder_tx_cases:
  assumes "addOrder_tx otaString nftIDs params pairs (counts, res) tx = Inr (counts', res')"
  obtains (refund) r where "counts' = counts" "res' = res @ [RefundedAddOrderInst r (tx_Hash tx) (tx_ShardID tx)]"
      "ra_TokenID r = ar_TokenToSell (tx_Metadata tx)" "ra_Amount r = ar_SellAmount (tx_Metadata tx)"
    | (accept) pair a t where "map_uint counts (ar_NftID (tx_Metadata tx)) < MaxOrdersPerNft params" "map_of pairs (ar_PoolPairID (tx_Metadata tx)) = Some pair"
      "tx_Hash tx \<notin> Id ` set (pp_orderbook pair)" "order_data otaString (tx_Hash tx) (pp_state pair) (tx_Metadata tx) = Some (a, t)"
      "counts' = al_put (ar_NftID (tx_Metadata tx)) (to_uint64 (map_uint counts (ar_NftID (tx_Metadata tx)) + 1)) counts"
      "res' = res @ [AcceptedAddOrderInst a (tx_Hash tx) (tx_ShardID tx)]"
proof -
  let ?md = "tx_Metadata tx"
  obtain rr where rr: "ar_Receiver ?md (ar_TokenToSell ?md) = Some rr"
    using assms by (auto simp: addOrder_tx_def getRefundedAddOrderInstructions_def Let_def split: option.splits)
  let ?ref = "RefundedAddOrderInst \<lparr>ra_Receiver = rr, ra_TokenID = ar_TokenToSell ?md, ra_Amount = ar_SellAmount ?md\<rparr> (tx_Hash tx) (tx_ShardID tx)"
  have ref: thesis if "counts' = counts" "res' = res @ [?ref]" by (rule refund [OF that]) simp_all
  note u = assms [unfolded addOrder_tx_def prod.case Let_def getRefundedAddOrderInstructions_def rr option.case go_bind_simps]
  show thesis
  proof (cases "map_of nftIDs (ar_NftID ?md) = None \<or> map_uint counts (ar_NftID ?md) \<ge> MaxOrdersPerNft params \<or> map_of pairs (ar_PoolPairID ?md) = None")
    case True
    then show ?thesis using u ref by (auto split: if_splits option.splits)
  next
    case False
    then obtain pair where pair: "map_of pairs (ar_PoolPairID ?md) = Some pair" by auto
    show ?thesis
    proof (cases "HasInsufficientLiquidity (pp_state pair) \<or> (\<exists>ord \<in> set (pp_orderbook pair). Id ord = tx_Hash tx) \<or> order_data otaString (tx_Hash tx) (pp_state pair) ?md = None")
      case True
      then show ?thesis using u pair ref False by (auto split: if_splits option.splits)
    next
      case F: False
      then obtain a t where d: "order_data otaString (tx_Hash tx) (pp_state pair) ?md = Some (a, t)" by auto
      show ?thesis
      proof (cases "ar_Receiver ?md t = None")
        case True
        then show ?thesis using u pair ref False F d by (auto split: if_splits)
      next
        case R: False
        have "counts' = al_put (ar_NftID ?md) (to_uint64 (map_uint counts (ar_NftID ?md) + 1)) counts" "res' = res @ [AcceptedAddOrderInst a (tx_Hash tx) (tx_ShardID tx)]"
          using u pair False F d R by (auto split: if_splits)
        then show ?thesis using accept [OF _ pair _ d] False F by force
      qed
    qed
  qed
qed

text \<open>The state of a node while it inserts the new orders of a block, over the pools the producer had after the withdrawals.\<close>

definition adding :: "pairs \<Rightarrow> string set \<Rightarrow> amounts \<Rightarrow> order_node \<Rightarrow> bool" where
  "adding pairs hs counts n \<longleftrightarrow> books_ok (on_pairs n) \<and> ids_hashed (on_pairs n) \<and> map fst (on_pairs n) = map fst pairs \<and>
     (\<forall>k p. map_of pairs k = Some p \<longrightarrow> (\<exists>os. map_of (on_pairs n) k = Some (with_book p os) \<and> (\<forall>ord \<in> set os. live ord) \<and>
       Id ` set os \<subseteq> Id ` set (pp_orderbook p) \<union> hs)) \<and>
     (\<forall>nft. nft_orders nft (on_pairs n) \<le> map_uint counts nft)"

definition book_of :: "pairs \<Rightarrow> string \<Rightarrow> Pdexv3Order multiset" where
  "book_of pairs k = (case map_of pairs k of None \<Rightarrow> {#} | Some p \<Rightarrow> mset (pp_orderbook p))"

lemma nft_orders_put:
  assumes "distinct (map fst pairs)" and "map_of pairs k = Some p" and "mset os = add_mset ord (mset (pp_orderbook p))"
  shows "nft_orders nft (al_put k (with_book p os) pairs) = nft_orders nft pairs + (if NftID ord = nft then 1 else 0)"
proof -
  have "mset (filter (\<lambda>ord. NftID ord = nft) os) = filter_mset (\<lambda>ord. NftID ord = nft) (add_mset ord (mset (pp_orderbook p)))" using assms(3) by simp
  then have "length (filter (\<lambda>ord. NftID ord = nft) os) = size (filter_mset (\<lambda>ord. NftID ord = nft) (add_mset ord (mset (pp_orderbook p))))" by (metis size_mset)
  also have "\<dots> = (if NftID ord = nft then 1 else 0) + length (filter (\<lambda>ord. NftID ord = nft) (pp_orderbook p))"
    by (simp flip: size_mset mset_filter)
  finally show ?thesis unfolding nft_orders_def using assms(1,2) by (simp add: al_sum_put)
qed

lemma held_insert:
  assumes "distinct (map fst pairs)" and "map_of pairs k = Some p" and "mset os = add_mset ord (mset (pp_orderbook p))"
  shows "orders_held t (al_put k (with_book p os) pairs) = orders_held t pairs + order_value t (pp_state p) ord"
proof -
  have "mset (map (order_value t (pp_state p)) os) = mset (order_value t (pp_state p) ord # map (order_value t (pp_state p)) (pp_orderbook p))" using assms(3) by simp
  then have "sum_list (map (order_value t (pp_state p)) os) = order_value t (pp_state p) ord + sum_list (map (order_value t (pp_state p)) (pp_orderbook p))"
    by (metis sum_list.Cons sum_mset_sum_list)
  then show ?thesis using held_put [OF assms(1,2), of t os] by simp
qed

lemma adding_mono:
  assumes "adding pairs hs counts n" and "hs \<subseteq> hs'"
  shows "adding pairs hs' counts n"
proof -
  have "\<exists>os. map_of (on_pairs n) k = Some (with_book p os) \<and> (\<forall>ord \<in> set os. live ord) \<and> Id ` set os \<subseteq> Id ` set (pp_orderbook p) \<union> hs'"
    if "map_of pairs k = Some p" for k p
  proof -
    from assms(1) that obtain os where "map_of (on_pairs n) k = Some (with_book p os)" "\<forall>ord \<in> set os. live ord" "Id ` set os \<subseteq> Id ` set (pp_orderbook p) \<union> hs"
      unfolding adding_def by blast
    then show ?thesis using assms(2) by (intro exI [of _ os]) blast
  qed
  then show ?thesis using assms(1) by (simp add: adding_def)
qed

lemma ids_hashed_insert:
  assumes "ids_hashed pairs" and "distinct (map fst pairs)" and "map_of pairs k = Some (with_book p os)"
    and "set os' = insert ord (set os)" and "HashFromStr (Id ord) \<noteq> None"
  shows "ids_hashed (al_put k (with_book p os') pairs)"
proof -
  have os: "\<forall>ord \<in> set os. HashFromStr (Id ord) \<noteq> None" using assms(1) map_of_SomeD [OF assms(3)] unfolding ids_hashed_def by force
  have "\<forall>ord \<in> set (pp_orderbook q). HashFromStr (Id ord) \<noteq> None" if "(j, q) \<in> set (al_put k (with_book p os') pairs)" for j q
  proof -
    from that have "(j, q) = (k, with_book p os') \<or> (j, q) \<in> set pairs" by (auto simp: al_put_def split: if_splits)
    then show ?thesis using os assms(1,4,5) by (auto simp: ids_hashed_def)
  qed
  then show ?thesis by (auto simp: ids_hashed_def)
qed

lemma adding_step:
  assumes inv: "adding pairs hs counts n" and b: "books_ok pairs" and tx: "add_order_ok tx" "tx_Hash tx \<notin> hs"
    and s: "addOrder_tx otaString nftIDs params pairs (counts, res) tx = Inr (counts', res')" and mx: "MaxOrdersPerNft params < 2 ^ 64" "\<forall>nft. 0 \<le> map_uint counts nft"
  shows "\<exists>i n'. res' = res @ [i] \<and> process_order_inst n i = Inr n' \<and> adding pairs (insert (tx_Hash tx) hs) counts' n' \<and>
    (\<forall>t. orders_held t (on_pairs n') + order_paid t i = orders_held t (on_pairs n) + (if ar_TokenToSell (tx_Metadata tx) = t then ar_SellAmount (tx_Metadata tx) else 0)) \<and>
    (\<forall>nft. 0 \<le> map_uint counts' nft \<and> map_uint counts' nft \<le> max (map_uint counts nft) (MaxOrdersPerNft params)) \<and>
    (\<forall>k. book_of (on_pairs n') k = book_of (on_pairs n) k + new_orders k i)"
  using s
proof (cases rule: addOrder_tx_cases)
  case (refund r)
  have "adding pairs (insert (tx_Hash tx) hs) counts n" by (rule adding_mono [OF inv]) blast
  then show ?thesis using refund mx(2) by (auto simp: process_order_inst_def adding_def)
next
  case (accept pair a t)
  let ?md = "tx_Metadata tx" and ?ord = "accepted_order a" and ?k = "ar_PoolPairID (tx_Metadata tx)"
  note d = order_data_ok [OF accept(4)]
  have r: "0 < ar_SellAmount ?md" "IsUint64 (ar_SellAmount ?md)" "0 < ar_MinAcceptableAmount ?md" "IsUint64 (ar_MinAcceptableAmount ?md)" "HashFromStr (tx_Hash tx) \<noteq> None"
    using tx(1) by (auto simp: add_order_ok_def Let_def)
  note d = order_data_ok [OF accept(4) r(1-4) conjunct2 [OF books_okD [OF b accept(2)]]]
  from inv accept(2) obtain os where os: "map_of (on_pairs n) ?k = Some (with_book pair os)" "\<forall>ord \<in> set os. live ord" "Id ` set os \<subseteq> Id ` set (pp_orderbook pair) \<union> hs"
    unfolding adding_def by blast
  have nb: "books_ok (on_pairs n)" "ids_hashed (on_pairs n)" "distinct (map fst (on_pairs n))" using inv by (auto simp: adding_def books_ok_def)
  note bk = books_okD [OF nb(1) os(1)]
  have ins: "book_ok (InsertOrder ?ord os)" "mset (InsertOrder ?ord os) = add_mset ?ord (mset os)"
    using InsertOrder_book [of os ?ord] bk d(1,3) os(3) tx(2) accept(3) by auto
  then have ins_set: "set (InsertOrder ?ord os) = insert ?ord (set os)" by (metis set_mset_add_mset_insert set_mset_mset)
  let ?n' = "n\<lparr>on_pairs := al_put ?k (with_book pair (InsertOrder ?ord os)) (on_pairs n), on_tracked := on_tracked n @ [AddOrderTracked (tx_Hash tx) 1 (ao_OrderID a)]\<rparr>"
  have p: "process_order_inst n (AcceptedAddOrderInst a (tx_Hash tx) (tx_ShardID tx)) = Inr ?n'"
    using os(1) d(5) by (simp add: process_order_inst_def process_addOrder_def accepted_order_def Let_def)
  have wb: "with_book (with_book pair os) os' = with_book pair os'" for os' by simp
  have m: "mset (InsertOrder ?ord os) = add_mset ?ord (mset (pp_orderbook (with_book pair os)))" using ins(2) by simp
  note cnt = nft_orders_put [OF nb(3) os(1) m, unfolded wb] and held = held_insert [OF nb(3) os(1) m, unfolded wb]
  have c': "map_uint counts' nft = (if nft = ar_NftID ?md then map_uint counts nft + 1 else map_uint counts nft)" for nft
    using accept(1,5) mx by (auto simp: to_uint64_id IsUint64_def)
  have "books_ok (on_pairs ?n')" using books_ok_put [OF nb(1), of "with_book pair (InsertOrder ?ord os)" ?k] ins(1) bk by simp
  moreover have "ids_hashed (on_pairs ?n')" using ids_hashed_insert [OF nb(2,3) os(1)] ins_set r(5) d(3) by simp
  moreover have "map fst (on_pairs ?n') = map fst pairs"
  proof -
    have "?k \<in> fst ` set (on_pairs n)" using imageI [OF map_of_SomeD [OF os(1)], of fst] by simp
    then show ?thesis using inv by (simp add: adding_def keys_al_put)
  qed
  moreover have "\<exists>os'. map_of (on_pairs ?n') k = Some (with_book p os') \<and> (\<forall>ord \<in> set os'. live ord) \<and> Id ` set os' \<subseteq> Id ` set (pp_orderbook p) \<union> insert (tx_Hash tx) hs"
    if "map_of pairs k = Some p" for k p
  proof (cases "k = ?k")
    case True
    then have "p = pair" using that accept(2) by simp
    then show ?thesis using True os ins_set d(2,3) by (intro exI [of _ "InsertOrder ?ord os"]) auto
  next
    case False
    from inv that obtain os' where "map_of (on_pairs n) k = Some (with_book p os')" "\<forall>ord \<in> set os'. live ord" "Id ` set os' \<subseteq> Id ` set (pp_orderbook p) \<union> hs"
      unfolding adding_def by blast
    then show ?thesis using False by (intro exI [of _ os']) auto
  qed
  moreover have "nft_orders nft (on_pairs ?n') \<le> map_uint counts' nft" for nft
    using inv cnt [of nft] c' [of nft] d(4) by (auto simp: adding_def)
  ultimately have "adding pairs (insert (tx_Hash tx) hs) counts' ?n'" by (simp add: adding_def)
  moreover have "book_of (on_pairs ?n') k = book_of (on_pairs n) k + new_orders k (AcceptedAddOrderInst a (tx_Hash tx) (tx_ShardID tx))" for k
    using os(1) ins(2) d(5) by (auto simp: book_of_def)
  moreover have "0 \<le> map_uint counts' nft \<and> map_uint counts' nft \<le> max (map_uint counts nft) (MaxOrdersPerNft params)" for nft
    using c' [of nft] accept(1) mx(2) by (auto simp: add_nonneg_nonneg)
  moreover have "orders_held t (on_pairs ?n') + order_paid t (AcceptedAddOrderInst a (tx_Hash tx) (tx_ShardID tx)) =
      orders_held t (on_pairs n) + (if ar_TokenToSell ?md = t then ar_SellAmount ?md else 0)" for t
    using held [of t] d(6) [of t] by simp
  ultimately show ?thesis using accept(6) p by blast
qed

lemma adding_all:
  assumes "adding pairs hs counts n" and "books_ok pairs" and "\<forall>tx \<in> set txs. add_order_ok tx" and "distinct (map tx_Hash txs)" and "hs \<inter> tx_Hash ` set txs = {}"
    and "go_foldl (addOrder_tx otaString nftIDs params pairs) (counts, res) txs = Inr (counts', res')" and "MaxOrdersPerNft params < 2 ^ 64" "\<forall>nft. 0 \<le> map_uint counts nft"
  shows "\<exists>new n' hs'. res' = res @ new \<and> process_orders new n = Inr n' \<and> adding pairs hs' counts' n' \<and>
    (\<forall>t. orders_held t (on_pairs n') + orders_paid t new = orders_held t (on_pairs n) +
      sum_list (map (\<lambda>tx. if ar_TokenToSell (tx_Metadata tx) = t then ar_SellAmount (tx_Metadata tx) else 0) txs)) \<and>
    (\<forall>nft. map_uint counts' nft \<le> max (map_uint counts nft) (MaxOrdersPerNft params)) \<and>
    (\<forall>k. book_of (on_pairs n') k = book_of (on_pairs n) k + adds k new)"
  using assms(1,3-6,8)
proof (induction txs arbitrary: hs counts res n)
  case Nil
  then show ?case by (auto simp: process_orders_def intro!: exI [of _ n] exI [of _ hs])
next
  case (Cons tx txs)
  from Cons.prems(5) obtain c1 r1 where 1: "addOrder_tx otaString nftIDs params pairs (counts, res) tx = Inr (c1, r1)"
    "go_foldl (addOrder_tx otaString nftIDs params pairs) (c1, r1) txs = Inr (counts', res')" by auto
  have tx: "add_order_ok tx" "tx_Hash tx \<notin> hs" using Cons.prems by auto
  from adding_step [OF Cons.prems(1) assms(2) tx 1(1) assms(7) Cons.prems(6)] obtain i n1 where
    s: "r1 = res @ [i]" "process_order_inst n i = Inr n1" "adding pairs (insert (tx_Hash tx) hs) c1 n1"
    "\<forall>t. orders_held t (on_pairs n1) + order_paid t i = orders_held t (on_pairs n) + (if ar_TokenToSell (tx_Metadata tx) = t then ar_SellAmount (tx_Metadata tx) else 0)"
    "\<forall>nft. 0 \<le> map_uint c1 nft \<and> map_uint c1 nft \<le> max (map_uint counts nft) (MaxOrdersPerNft params)"
    "\<forall>k. book_of (on_pairs n1) k = book_of (on_pairs n) k + new_orders k i" by blast
  have "\<exists>new n' hs'. res' = r1 @ new \<and> process_orders new n1 = Inr n' \<and> adding pairs hs' counts' n' \<and>
    (\<forall>t. orders_held t (on_pairs n') + orders_paid t new = orders_held t (on_pairs n1) +
      sum_list (map (\<lambda>tx. if ar_TokenToSell (tx_Metadata tx) = t then ar_SellAmount (tx_Metadata tx) else 0) txs)) \<and>
    (\<forall>nft. map_uint counts' nft \<le> max (map_uint c1 nft) (MaxOrdersPerNft params)) \<and>
    (\<forall>k. book_of (on_pairs n') k = book_of (on_pairs n1) k + adds k new)"
    by (rule Cons.IH [OF s(3) _ _ _ 1(2)]) (use Cons.prems s(5) in auto)
  then obtain new n' hs' where n: "res' = r1 @ new" "process_orders new n1 = Inr n'" "adding pairs hs' counts' n'"
    "\<forall>t. orders_held t (on_pairs n') + orders_paid t new = orders_held t (on_pairs n1) +
      sum_list (map (\<lambda>tx. if ar_TokenToSell (tx_Metadata tx) = t then ar_SellAmount (tx_Metadata tx) else 0) txs)"
    "\<forall>nft. map_uint counts' nft \<le> max (map_uint c1 nft) (MaxOrdersPerNft params)"
    "\<forall>k. book_of (on_pairs n') k = book_of (on_pairs n1) k + adds k new" by blast
  have p: "process_orders (i # new) n = Inr n'" using s(2) n(2) by (simp add: process_orders_def)
  have h: "orders_held t (on_pairs n') + orders_paid t (i # new) = orders_held t (on_pairs n) +
      sum_list (map (\<lambda>tx. if ar_TokenToSell (tx_Metadata tx) = t then ar_SellAmount (tx_Metadata tx) else 0) (tx # txs))" for t
    using s(4) [rule_format, of t] n(4) [rule_format, of t] by simp
  have c: "map_uint counts' nft \<le> max (map_uint counts nft) (MaxOrdersPerNft params)" for nft
    using s(5) [rule_format, of nft] n(5) [rule_format, of nft] by linarith
  show ?case using s(1,6) n(1,3,6) p h c by (intro exI [of _ "i # new"] exI [of _ n'] exI [of _ hs']) (simp add: add.assoc)
qed

end
