(* ===== verification/Pdex_Order_Block.thy ===== *)
theory Pdex_Order_Block
  imports Pdex_Order_Safety
begin

text \<open>
  The order handlers of one block in the order of \<^verbatim>\<open>BuildInstructions\<close> (\<^verbatim>\<open>state_v2.go\<close>): the count of orders of each access token,
  requested withdrawals, the withdrawal of matched orders, new orders. The handlers of trades and liquidity between them are those of
  other theories; here the block has none. A node that processes the instructions gets the books of the producer without the
  emptied orders and with the accepted ones.
\<close>

definition order_block :: "('r \<Rightarrow> string option) \<Rightarrow> (string \<Rightarrow> 'r) \<Rightarrow> ('r \<Rightarrow> nat) \<Rightarrow> (string \<times> int) list \<Rightarrow> Params \<Rightarrow>
    'r WithdrawOrderRequest Transaction list \<Rightarrow> 'r AddOrderRequest Transaction list \<Rightarrow> pairs \<Rightarrow> (pairs \<times> 'r order_inst list) go" where
  "order_block otaString otaParse otaShard nftIDs params withdrawOrderTxs addOrderTxs pairs =
     (let orderCount = orderCountByNftID pairs in
      go_bind (withdrawOrder otaString withdrawOrderTxs pairs) (\<lambda>(pairs1, withdrawOrderInstructions).
      go_bind (withdrawAllMatchedOrders otaParse otaShard (AutoWithdrawOrderLimitAmount params) pairs1) (\<lambda>(pairs2, matchedWithdrawInstructions).
      go_bind (addOrder otaString nftIDs params pairs2 orderCount addOrderTxs) (\<lambda>addOrderInstructions.
        Inr (pairs2, withdrawOrderInstructions @ matchedWithdrawInstructions @ addOrderInstructions)))))"

section \<open>Counting the orders of an access token\<close>

definition count_step :: "amounts \<Rightarrow> Pdexv3Order \<Rightarrow> amounts" where
  "count_step c ord = al_put (NftID ord) (to_uint64 (map_uint c (NftID ord) + 1)) c"

lemma count_orders:
  assumes "\<forall>nft. IsUint64 (map_uint c nft)"
  shows "map_uint (foldl count_step c os) nft = to_uint64 (map_uint c nft + int (length (filter (\<lambda>ord. NftID ord = nft) os))) \<and>
    (\<forall>nft. IsUint64 (map_uint (foldl count_step c os) nft))"
  using assms
proof (induction os arbitrary: c)
  case (Cons ord os)
  have "IsUint64 (to_uint64 x)" for x by (simp add: to_uint64_def IsUint64_def)
  then have u: "\<forall>nft. IsUint64 (map_uint (count_step c ord) nft)" using Cons.prems by (simp add: count_step_def)
  have "to_uint64 (map_uint (count_step c ord) nft + x) = to_uint64 (map_uint c nft + (if NftID ord = nft then 1 else 0) + x)" for x
    by (auto simp: count_step_def to_uint64_def mod_add_left_eq)
  then show ?case using Cons.IH [OF u] by (simp add: add.assoc)
qed simp

lemma orderCount_pairs:
  assumes "\<forall>nft. IsUint64 (map_uint c nft)"
  shows "map_uint (foldl (\<lambda>counts (_, p). foldl count_step counts (pp_orderbook p)) c pairs) nft = to_uint64 (map_uint c nft + nft_orders nft pairs)"
  using assms
proof (induction pairs arbitrary: c)
  case (Cons kp pairs)
  obtain k p where kp: "kp = (k, p)" by force
  note c = count_orders [OF Cons.prems, of "pp_orderbook p"]
  then have "\<forall>nft. IsUint64 (map_uint (foldl count_step c (pp_orderbook p)) nft)" by blast
  note IH = Cons.IH [OF this]
  have "map_uint (foldl count_step c (pp_orderbook p)) nft = to_uint64 (map_uint c nft + int (length (filter (\<lambda>ord. NftID ord = nft) (pp_orderbook p))))"
    using c by blast
  then show ?case by (simp add: kp IH nft_orders_def al_sum_def to_uint64_def mod_add_left_eq add.assoc)
qed (simp add: nft_orders_def)

lemma orderCount_exact:
  assumes "nft_orders nft pairs < 2 ^ 64"
  shows "map_uint (orderCountByNftID pairs) nft = nft_orders nft pairs"
proof -
  have "orderCountByNftID pairs = foldl (\<lambda>counts (_, p). foldl count_step counts (pp_orderbook p)) [] pairs"
    by (simp add: orderCountByNftID_def count_step_def [abs_def])
  then have "map_uint (orderCountByNftID pairs) nft = to_uint64 (nft_orders nft pairs)"
    using orderCount_pairs [of "[]"] by (simp add: map_uint_def IsUint64_def)
  moreover have "0 \<le> nft_orders nft pairs" by (auto simp: nft_orders_def intro: al_sum_nonneg)
  ultimately show ?thesis using assms by (simp add: IsUint64_def)
qed

lemma al_sum_keys:
  assumes "distinct (map fst m)"
  shows "al_sum f m = (\<Sum>k \<leftarrow> map fst m. f (k, the (map_of m k)))"
proof -
  have "map f m = map (\<lambda>k. f (k, the (map_of m k))) (map fst m)"
    using map_of_is_SomeI [OF assms] by (auto simp: split_paired_all)
  then show ?thesis by (simp only: al_sum_def)
qed

lemma nft_orders_same:
  assumes "same_pools pairs pairs'" and "distinct (map fst pairs)"
  shows "nft_orders nft pairs' = nft_orders nft pairs"
proof -
  let ?f = "\<lambda>(_ :: string, p). int (length (filter (\<lambda>ord. NftID ord = nft) (pp_orderbook p)))"
  have "?f (k, the (map_of pairs' k)) = ?f (k, the (map_of pairs k))" if k: "k \<in> set (map fst pairs)" for k
  proof -
    obtain p where p: "map_of pairs k = Some p" using k by (metis list.set_map map_of_eq_None_iff option.exhaust)
    then obtain os where os: "map_of pairs' k = Some (with_book p os)" "refilled (pp_orderbook p) os" using assms(1) unfolding same_pools_def by blast
    have "length (filter (\<lambda>n. n = nft) (map NftID os)) = length (filter (\<lambda>n. n = nft) (map NftID (pp_orderbook p)))"
      using refilled_ids [OF os(2)] by simp
    then show ?thesis using p os(1) by (simp add: filter_map comp_def)
  qed
  then have "al_sum ?f pairs' = al_sum ?f pairs" using assms unfolding same_pools_def by (simp add: al_sum_keys cong: map_cong)
  then show ?thesis by (simp add: nft_orders_def)
qed

lemma filter_twice_le: "length (filter P (filter Q xs)) \<le> length (filter P xs)"
  by (induction xs) auto

lemma nft_orders_live: "nft_orders nft (live_pairs pairs) \<le> nft_orders nft pairs"
proof (induction pairs)
  case (Cons kp pairs)
  obtain k p where kp: "kp = (k, p)" by force
  show ?case using Cons filter_twice_le [of "\<lambda>ord. NftID ord = nft" live "pp_orderbook p"]
    by (simp add: nft_orders_def live_pairs_def al_sum_def kp)
qed (simp add: nft_orders_def live_pairs_def)

section \<open>Nothing stops the handlers\<close>

definition withdraw_order_ok :: "'r WithdrawOrderRequest Transaction \<Rightarrow> bool" where
  "withdraw_order_ok tx \<longleftrightarrow> 0 \<le> wo_Amount (tx_Metadata tx) \<and> wo_Receiver (tx_Metadata tx) (wo_NftID (tx_Metadata tx)) \<noteq> None"

lemma withdrawOrder_total: "\<forall>tx \<in> set txs. withdraw_order_ok tx \<Longrightarrow> go_ok (go_foldl (withdrawOrder_tx otaString) s txs)"
proof (rule go_foldl_total)
  fix s :: "pairs \<times> 'a order_inst list" and tx assume "\<forall>tx \<in> set txs. withdraw_order_ok tx" "tx \<in> set txs"
  then obtain r where r: "wo_Receiver (tx_Metadata tx) (wo_NftID (tx_Metadata tx)) = Some r" by (auto simp: withdraw_order_ok_def)
  obtain pairs res where s: "s = (pairs, res)" by force
  show "go_ok (withdrawOrder_tx otaString s tx)"
    unfolding withdrawOrder_tx_def s prod.case Let_def r option.case
    by (cases "map_of pairs (wo_PoolPairID (tx_Metadata tx))"; cases "order_index (wo_OrderID (tx_Metadata tx)) (pp_orderbook (the (map_of pairs (wo_PoolPairID (tx_Metadata tx)))))")
      (simp_all add: go_ok_iff)
qed

lemma addOrder_total: "\<forall>tx \<in> set txs. add_order_ok tx \<Longrightarrow> go_ok (go_foldl (addOrder_tx otaString nftIDs params pairs) s txs)"
proof (rule go_foldl_total)
  fix s :: "amounts \<times> 'a order_inst list" and tx assume "\<forall>tx \<in> set txs. add_order_ok tx" "tx \<in> set txs"
  then obtain r where r: "ar_Receiver (tx_Metadata tx) (ar_TokenToSell (tx_Metadata tx)) = Some r" by (auto simp: add_order_ok_def Let_def)
  obtain counts res where s: "s = (counts, res)" by force
  show "go_ok (addOrder_tx otaString nftIDs params pairs s tx)"
    unfolding addOrder_tx_def s prod.case Let_def getRefundedAddOrderInstructions_def r option.case go_bind_simps
    by (auto simp: go_ok_iff split: option.splits)
qed

section \<open>A block\<close>

text \<open>The books between blocks: sorted, with hashes as identifiers, without empty orders.\<close>

definition block_books :: "pairs \<Rightarrow> bool" where
  "block_books pairs \<longleftrightarrow> books_ok pairs \<and> ids_hashed pairs \<and> (\<forall>(k, p) \<in> set pairs. \<forall>ord \<in> set (pp_orderbook p). live ord)"

definition block_txs :: "'r WithdrawOrderRequest Transaction list \<Rightarrow> 'r AddOrderRequest Transaction list \<Rightarrow> bool" where
  "block_txs wtxs atxs \<longleftrightarrow> (\<forall>tx \<in> set wtxs. withdraw_order_ok tx) \<and> (\<forall>tx \<in> set atxs. add_order_ok tx) \<and> distinct (map tx_Hash atxs)"

definition sold :: "string \<Rightarrow> 'r AddOrderRequest Transaction list \<Rightarrow> int" where
  "sold t txs = sum_list (map (\<lambda>tx. if ar_TokenToSell (tx_Metadata tx) = t then ar_SellAmount (tx_Metadata tx) else 0) txs)"

lemma live_pairs_id: "block_books pairs \<Longrightarrow> live_pairs pairs = pairs"
  by (auto simp: block_books_def live_pairs_def live_pair_def intro!: map_idI)

lemma ids_hashed_live: "ids_hashed pairs \<Longrightarrow> ids_hashed (live_pairs pairs)"
  by (auto simp: ids_hashed_def live_pairs_def)

text \<open>What the withdrawals of a block leave is where the new orders start.\<close>

lemma adding_start:
  assumes "books_ok pairs" and "ids_hashed pairs" and "on_pairs n = live_pairs pairs" and "\<forall>nft. nft_orders nft pairs \<le> map_uint counts nft"
  shows "adding pairs {} counts n"
proof -
  have "\<exists>os. map_of (on_pairs n) k = Some (with_book p os) \<and> (\<forall>ord \<in> set os. live ord) \<and> Id ` set os \<subseteq> Id ` set (pp_orderbook p) \<union> {}"
    if "map_of pairs k = Some p" for k p
    using that assms(3) by (intro exI [of _ "filter live (pp_orderbook p)"]) (auto simp: live_pair_def)
  moreover have "nft_orders nft (on_pairs n) \<le> map_uint counts nft" for nft
    using assms(3,4) nft_orders_live [of nft pairs] by (metis order_trans)
  ultimately show ?thesis using assms(1-3) books_ok_live [OF assms(1)] ids_hashed_live [OF assms(2)] unfolding adding_def by (auto simp del: map_of_live)
qed

lemma adding_block_books:
  assumes "adding pairs hs counts n"
  shows "block_books (on_pairs n)"
proof -
  have b: "books_ok (on_pairs n)" "ids_hashed (on_pairs n)" "map fst (on_pairs n) = map fst pairs" using assms by (simp_all add: adding_def)
  have "live ord" if kp: "(k, p) \<in> set (on_pairs n)" "ord \<in> set (pp_orderbook p)" for k p ord
  proof -
    have p: "map_of (on_pairs n) k = Some p" using b(1) kp(1) by (simp add: books_ok_def)
    have "k \<in> fst ` set pairs" using b(3) kp(1) by (metis fst_conv imageI list.set_map)
    then obtain q where "map_of pairs k = Some q" by (metis map_of_eq_None_iff option.exhaust)
    with assms obtain os where "map_of (on_pairs n) k = Some (with_book q os)" "\<forall>ord \<in> set os. live ord" unfolding adding_def by blast
    then show ?thesis using p kp(2) by auto
  qed
  then show ?thesis using b by (auto simp: block_books_def)
qed

lemma order_block_processed:
  assumes b: "block_books pairs" "block_txs wtxs atxs" "on_pairs n = pairs" and mx: "MaxOrdersPerNft params < 2 ^ 64" "\<forall>nft. nft_orders nft pairs < 2 ^ 64"
  obtains pairs2 insts n' where "order_block otaString otaParse otaShard nftIDs params wtxs atxs pairs = Inr (pairs2, insts)" "process_orders insts n = Inr n'"
    "same_pools pairs pairs2" "block_books (on_pairs n')"
    "\<forall>t. orders_held t (on_pairs n') + orders_paid t insts = orders_held t pairs + sold t atxs"
    "\<forall>nft. nft_orders nft (on_pairs n') \<le> max (nft_orders nft pairs) (MaxOrdersPerNft params)"
    "\<forall>k. book_of (on_pairs n') k = filter_mset live (book_of pairs2 k) + adds k insts"
proof -
  have ok: "books_ok pairs" "ids_hashed pairs" "live_pairs pairs = pairs" "distinct (map fst pairs)"
    using b(1) live_pairs_id by (auto simp: block_books_def books_ok_def)
  have txs: "\<forall>tx \<in> set wtxs. withdraw_order_ok tx" "\<forall>tx \<in> set atxs. add_order_ok tx" "distinct (map tx_Hash atxs)" using b(2) by (auto simp: block_txs_def)
  obtain p1 w where 1: "go_foldl (withdrawOrder_tx otaString) (pairs, []) wtxs = Inr (p1, w)"
    using withdrawOrder_total [OF txs(1), of otaString "(pairs, [])"] by (auto simp: go_ok_iff)
  have w: "withdraws w pairs p1" using withdrawOrder_withdraws [OF 1 ok(1)] txs(1) by (auto simp: withdraw_order_ok_def)
  then have ok1: "books_ok p1" "ids_hashed p1" using same_pools_ids [OF _ ok(4,2)] by (auto simp: withdraws_def)
  obtain p2 c m where 2: "go_foldl (matched_pair otaParse otaShard (AutoWithdrawOrderLimitAmount params)) (p1, [], []) (getSortedPoolPairIDs p1) = Inr (p2, c, m)"
    using matched_total [OF ok1, of "getSortedPoolPairIDs p1" otaParse otaShard "AutoWithdrawOrderLimitAmount params" "[]" "[]"]
    by (auto simp: go_ok_iff getSortedPoolPairIDs_def)
  have "withdraws m p1 p2" using matched_pairs_withdraws [OF 2 ok1(1)] by auto
  from withdraws_trans [OF w this] have wm: "withdraws (w @ m) pairs p2" .
  then have ok2: "books_ok p2" "same_pools pairs p2" "ids_hashed p2" using same_pools_ids [OF _ ok(4,2)] by (auto simp: withdraws_def)
  from wm b(3) ok(3) obtain n1 where n1: "process_orders (w @ m) n = Inr n1" "on_pairs n1 = live_pairs p2" unfolding withdraws_def by metis
  have held1: "orders_held t p2 + orders_paid t (w @ m) = orders_held t pairs" "adds k (w @ m) = {#}" for t k using wm by (simp_all only: withdraws_def)
  let ?c = "orderCountByNftID pairs"
  have cnt: "map_uint ?c nft = nft_orders nft pairs" for nft using orderCount_exact mx(2) by blast
  have cnt0: "\<forall>nft. 0 \<le> map_uint ?c nft" unfolding cnt by (auto simp: nft_orders_def intro: al_sum_nonneg)
  obtain c' a where 3: "go_foldl (addOrder_tx otaString nftIDs params p2) (?c, []) atxs = Inr (c', a)"
    using addOrder_total [OF txs(2), of otaString nftIDs params p2 "(?c, [])"] by (auto simp: go_ok_iff)
  have start: "adding p2 {} ?c n1" by (rule adding_start [OF ok2(1,3) n1(2)]) (simp add: cnt nft_orders_same [OF ok2(2) ok(4)])
  from adding_all [OF start ok2(1) txs(2,3) _ 3 mx(1) cnt0] obtain n' hs' where
    n': "process_orders a n1 = Inr n'" "adding p2 hs' c' n'" "\<forall>t. orders_held t (on_pairs n') + orders_paid t a = orders_held t (on_pairs n1) + sold t atxs"
    "\<forall>nft. map_uint c' nft \<le> max (map_uint ?c nft) (MaxOrdersPerNft params)" "\<forall>k. book_of (on_pairs n') k = book_of (on_pairs n1) k + adds k a"
    by (auto simp: sold_def)
  show ?thesis
  proof (rule that [of p2 "w @ m @ a" n'])
    show "order_block otaString otaParse otaShard nftIDs params wtxs atxs pairs = Inr (p2, w @ m @ a)"
      using 1 2 3 by (simp add: order_block_def withdrawOrder_def withdrawAllMatchedOrders_def addOrder_def)
    show "process_orders (w @ m @ a) n = Inr n'"
      using n1(1) n'(1) by (auto simp: process_orders_def go_foldl_append)
    show "same_pools pairs p2" by (rule ok2(2))
    show "block_books (on_pairs n')" by (rule adding_block_books [OF n'(2)])
    show "\<forall>t. orders_held t (on_pairs n') + orders_paid t (w @ m @ a) = orders_held t pairs + sold t atxs"
    proof
      fix t
      have "orders_held t (on_pairs n') + orders_paid t a = orders_held t p2 + sold t atxs" using n'(3) n1(2) by simp
      then show "orders_held t (on_pairs n') + orders_paid t (w @ m @ a) = orders_held t pairs + sold t atxs" using held1(1) [of t] by simp
    qed
    show "\<forall>nft. nft_orders nft (on_pairs n') \<le> max (nft_orders nft pairs) (MaxOrdersPerNft params)"
    proof
      fix nft
      have "nft_orders nft (on_pairs n') \<le> map_uint c' nft" using n'(2) by (simp add: adding_def)
      then show "nft_orders nft (on_pairs n') \<le> max (nft_orders nft pairs) (MaxOrdersPerNft params)" using n'(4) cnt by (metis order_trans)
    qed
    have "book_of (on_pairs n1) k = filter_mset live (book_of p2 k)" for k using n1(2) by (simp add: book_of_def split: option.splits)
    then show "\<forall>k. book_of (on_pairs n') k = filter_mset live (book_of p2 k) + adds k (w @ m @ a)" using n'(5) held1(2) by simp
  qed
qed

section \<open>The properties of a block\<close>

definition book_pool :: PoolPairState where
  "book_pool = \<lparr>pp_makingVolume = [], pp_state = \<lparr>Token0ID = ''A'', Token1ID = ''B'', ShareAmount = 40, LmLockedShareAmount = 0,
     Token0RealAmount = 20, Token1RealAmount = 80, Token0VirtualAmount = 20, Token1VirtualAmount = 80, Amplifier = 10000\<rparr>, pp_shares = [],
     pp_orderRewards = [], pp_orderbook = [toy_match_order\<lparr>Id := replicate 64 CHR ''1''\<rparr>], pp_lpFeesPerShare = [], pp_lmRewardsPerShare = [],
     pp_protocolFees = [], pp_stakingPoolFees = [], pp_lmLockedShare = []\<rparr>"

definition book_withdraw :: "string WithdrawOrderRequest Transaction" where
  "book_withdraw = \<lparr>tx_Hash = replicate 64 CHR ''2'', tx_ShardID = 0, tx_Metadata = \<lparr>wo_PoolPairID = ''AB'', wo_OrderID = replicate 64 CHR ''1'',
     wo_Amount = 3, wo_Receiver = [''n'' \<mapsto> ''rn'', ''B'' \<mapsto> ''rb''], wo_NftID = ''n''\<rparr>\<rparr>"

definition book_add :: "string AddOrderRequest Transaction" where
  "book_add = \<lparr>tx_Hash = replicate 64 CHR ''3'', tx_ShardID = 0, tx_Metadata = \<lparr>ar_TokenToSell = ''A'', ar_PoolPairID = ''AB'', ar_SellAmount = 5,
     ar_MinAcceptableAmount = 6, ar_Receiver = [''A'' \<mapsto> ''ra'', ''B'' \<mapsto> ''rb''], ar_NftID = ''n''\<rparr>\<rparr>"

definition book_params :: Params where
  "book_params = NewParams\<lparr>MaxOrdersPerNft := 2, AutoWithdrawOrderLimitAmount := 10\<rparr>"

definition book_node :: order_node where
  "book_node = \<lparr>on_pairs = [(''AB'', book_pool)], on_tracked = []\<rparr>"

lemma hash_digits: "HashFromStr (replicate 64 CHR ''1'') \<noteq> None" "HashFromStr (replicate 64 CHR ''3'') \<noteq> None"
  by code_simp+

lemma book_demo:
  "block_books [(''AB'', book_pool)]" "block_txs [book_withdraw] [book_add]" "on_pairs book_node = [(''AB'', book_pool)]"
  "MaxOrdersPerNft book_params < 2 ^ 64" "\<forall>nft. nft_orders nft [(''AB'', book_pool)] < 2 ^ 64"
proof -
  show "block_books [(''AB'', book_pool)]" using hash_digits
    by (simp add: block_books_def books_ok_def book_pool_def book_ok_def order_ok_def toy_match_order_def IsUint64_def ids_hashed_def live_def)
  show "block_txs [book_withdraw] [book_add]" using hash_digits
    by (simp add: block_txs_def withdraw_order_ok_def add_order_ok_def book_withdraw_def book_add_def Let_def IsUint64_def)
qed (simp_all add: book_node_def book_params_def nft_orders_def al_sum_def book_pool_def)

text \<open>C13. The order handlers of a block produce instructions, every node can process them, and for every pool the node's book then
  holds exactly the orders that are not empty in the producer's book and the accepted new orders; books stay sorted, with distinct hashes
  as identifiers and no empty order.\<close>

theorem orders_replay_agrees:
  assumes "block_books (on_pairs n)" and "block_txs wtxs atxs" and "MaxOrdersPerNft params < 2 ^ 64" and "\<forall>nft. nft_orders nft (on_pairs n) < 2 ^ 64"
  shows "\<exists>pairs insts n'. order_block otaString otaParse otaShard nftIDs params wtxs atxs (on_pairs n) = Inr (pairs, insts) \<and> process_orders insts n = Inr n' \<and>
    block_books (on_pairs n') \<and> (\<forall>k. book_of (on_pairs n') k = filter_mset live (book_of pairs k) + adds k insts)"
  by (rule order_block_processed [OF assms(1,2) refl assms(3,4), of otaString otaParse otaShard nftIDs]) blast

theorem orders_replay_agrees_witness:
  "\<exists>pairs insts n'. order_block Some id length [(''n'', 0)] book_params [book_withdraw] [book_add] (on_pairs book_node) = Inr (pairs, insts) \<and>
     process_orders insts book_node = Inr n' \<and> block_books (on_pairs n')"
  using orders_replay_agrees [of book_node "[book_withdraw]" "[book_add]" book_params Some id length "[(''n'', 0)]"] book_demo by auto

text \<open>C14. Orders conserve tokens: what the orders of all pools hold after a node processed a block, with what the block pays out
  (withdrawals and refunds), is what they held before with what the requests for new orders sold.\<close>

theorem orders_conserve_tokens:
  assumes "block_books (on_pairs n)" and "block_txs wtxs atxs" and "MaxOrdersPerNft params < 2 ^ 64" and "\<forall>nft. nft_orders nft (on_pairs n) < 2 ^ 64"
    and "order_block otaString otaParse otaShard nftIDs params wtxs atxs (on_pairs n) = Inr (pairs, insts)" and "process_orders insts n = Inr n'"
  shows "orders_held t (on_pairs n') + orders_paid t insts = orders_held t (on_pairs n) + sold t atxs"
  by (rule order_block_processed [OF assms(1,2) refl assms(3,4), of otaString otaParse otaShard nftIDs]) (use assms(5,6) in auto)

theorem orders_conserve_tokens_witness:
  "\<exists>pairs insts n'. order_block Some id length [(''n'', 0)] book_params [book_withdraw] [book_add] (on_pairs book_node) = Inr (pairs, insts) \<and>
     process_orders insts book_node = Inr n' \<and> orders_held ''B'' (on_pairs n') + orders_paid ''B'' insts = 7"
proof -
  note d = book_demo(1,2) [folded book_demo(3)] book_demo(4,5) [folded book_demo(3)]
  obtain pairs insts n' where r: "order_block Some id length [(''n'', 0)] book_params [book_withdraw] [book_add] (on_pairs book_node) = Inr (pairs, insts)"
    "process_orders insts book_node = Inr n'" by (rule order_block_processed [OF d(1,2) refl d(3,4), of Some id length "[(''n'', 0)]"])
  have "orders_held ''B'' (on_pairs book_node) + sold ''B'' [book_add] = 7"
    by (simp add: book_node_def book_pool_def orders_held_def al_sum_def order_value_def toy_match_order_def sold_def book_add_def)
  with r orders_conserve_tokens [OF d r, of "''B''"] show ?thesis by auto
qed

text \<open>No access token gets more orders than the parameters allow: after a block it has at most \<^verbatim>\<open>MaxOrdersPerNft\<close> orders, or no more
  than it had before.\<close>

theorem orders_per_nft_bounded:
  assumes "block_books (on_pairs n)" and "block_txs wtxs atxs" and "MaxOrdersPerNft params < 2 ^ 64" and "\<forall>nft. nft_orders nft (on_pairs n) < 2 ^ 64"
    and "order_block otaString otaParse otaShard nftIDs params wtxs atxs (on_pairs n) = Inr (pairs, insts)" and "process_orders insts n = Inr n'"
  shows "nft_orders nft (on_pairs n') \<le> max (nft_orders nft (on_pairs n)) (MaxOrdersPerNft params)"
  by (rule order_block_processed [OF assms(1,2) refl assms(3,4), of otaString otaParse otaShard nftIDs]) (use assms(5,6) in auto)

theorem orders_per_nft_bounded_witness:
  "\<exists>pairs insts n'. order_block Some id length [(''n'', 0)] book_params [book_withdraw] [book_add] (on_pairs book_node) = Inr (pairs, insts) \<and>
     process_orders insts book_node = Inr n' \<and> nft_orders ''n'' (on_pairs n') \<le> 2"
proof -
  note d = book_demo(1,2) [folded book_demo(3)] book_demo(4,5) [folded book_demo(3)]
  obtain pairs insts n' where r: "order_block Some id length [(''n'', 0)] book_params [book_withdraw] [book_add] (on_pairs book_node) = Inr (pairs, insts)"
    "process_orders insts book_node = Inr n'" by (rule order_block_processed [OF d(1,2) refl d(3,4), of Some id length "[(''n'', 0)]"])
  have "max (nft_orders ''n'' (on_pairs book_node)) (MaxOrdersPerNft book_params) = 2"
    by (simp add: book_node_def book_pool_def nft_orders_def al_sum_def toy_match_order_def book_params_def)
  with r orders_per_nft_bounded [OF d r, of "''n''"] show ?thesis by auto
qed

end
