(* ===== verification/Pdex_Mint.thy ===== *)
theory Pdex_Mint
  imports Pdex_Params
begin

text \<open>
  Minting: the share of the block reward for the pools (\<^verbatim>\<open>mintReward\<close> of \<^verbatim>\<open>state_producer_v2.go\<close>, \<^verbatim>\<open>mintBlockReward\<close> and
  \<^verbatim>\<open>distributeMiningOrderReward\<close> of \<^verbatim>\<open>state_processor_v2.go\<close>) and the access tokens of users (\<^verbatim>\<open>userMintNft\<close> of both). A reward is split
  between the pools by the parameters, and within a pool between the owners of orders that made volume and the providers.
\<close>

section \<open>Instructions\<close>

record MintBlockRewardContent =
  mb_PoolPairID :: string
  mb_Amount :: int
  mb_TokenID :: string

record DistributeMiningOrderRewardContent =
  dm_PoolPairID :: string
  dm_MakingTokenID :: string
  dm_Amount :: int
  dm_TokenID :: string

datatype mint_inst =
    MintBlockRewardInst MintBlockRewardContent
  | DistributeMiningOrderInst DistributeMiningOrderRewardContent

definition BuildMintBlockRewardInst :: "string \<Rightarrow> int \<Rightarrow> string \<Rightarrow> mint_inst list" where
  "BuildMintBlockRewardInst pairID mintingAmount mintingTokenID =
     [MintBlockRewardInst \<lparr>mb_PoolPairID = pairID, mb_Amount = mintingAmount, mb_TokenID = mintingTokenID\<rparr>]"

definition BuildDistributeMiningOrderRewardInsts :: "string \<Rightarrow> string \<Rightarrow> int \<Rightarrow> string \<Rightarrow> mint_inst list" where
  "BuildDistributeMiningOrderRewardInsts pairID makingTokenID mintingAmount mintingTokenID =
     [DistributeMiningOrderInst \<lparr>dm_PoolPairID = pairID, dm_MakingTokenID = makingTokenID, dm_Amount = mintingAmount, dm_TokenID = mintingTokenID\<rparr>]"

section \<open>The producer\<close>

definition credit_orders :: "string \<Rightarrow> amounts \<Rightarrow> (string \<times> OrderReward) list \<Rightarrow> (string \<times> OrderReward) list" where
  "credit_orders tokenID rewards base = foldl (\<lambda>b (nftID, reward).
     al_put nftID (OrderReward_AddReward tokenID reward (case map_of b nftID of None \<Rightarrow> \<lparr>uncollectedRewards = []\<rparr> | Some r \<Rightarrow> r)) b) base rewards"

text \<open>The owners of orders that made volume in one token of the pool; their volume is used up.\<close>

definition mine_side :: "string \<Rightarrow> string \<Rightarrow> int \<Rightarrow> string \<Rightarrow> PoolPairState \<times> int \<times> mint_inst list \<Rightarrow> (PoolPairState \<times> int \<times> mint_inst list) go" where
  "mine_side tokenID pairID orderRewardAmt makingToken = (\<lambda>(pair, lpRewardAmt, insts).
     case map_of (pp_makingVolume pair) makingToken of None \<Rightarrow> Inr (pair, lpRewardAmt, insts)
     | Some making \<Rightarrow>
       if volume making = [] then Inr (pair, lpRewardAmt, insts)
       else go_bind (SplitOrderRewardLiquidityMining (volume making) orderRewardAmt) (\<lambda>orderRewards.
         Inr (pair\<lparr>pp_orderRewards := credit_orders tokenID orderRewards (pp_orderRewards pair), pp_makingVolume := al_del makingToken (pp_makingVolume pair)\<rparr>,
           lpRewardAmt - orderRewardAmt,
           insts @ BuildDistributeMiningOrderRewardInsts pairID makingToken (to_uint64 orderRewardAmt) tokenID)))"

definition mint_pair :: "string \<Rightarrow> int \<Rightarrow> Params \<Rightarrow> bool \<Rightarrow> int \<Rightarrow> pairs \<times> mint_inst list \<Rightarrow> string \<Rightarrow> (pairs \<times> mint_inst list) go" where
  "mint_pair tokenID mintingAmount params isLiquidityMining totalRewardShare = (\<lambda>(pairs, insts) pairID.
     case map_of pairs pairID of None \<Rightarrow> Inl (GoErr ''Could not find pair for distributing PDEX reward'')
     | Some pair \<Rightarrow>
       go_bind (big_div (mintingAmount * map_uint (PDEXRewardPoolPairsShare params) pairID) totalRewardShare) (\<lambda>pairReward.
       if \<not> IsUint64 pairReward then Inl (GoErr ''Could not calculate PDEX reward for pair'')
       else if pairReward = 0 then Inr (pairs, insts)
       else
         let orderRewardBPS = map_uint (OrderLiquidityMiningBPS params) pairID; orderRewardAmt = pairReward * orderRewardBPS div BPS in
         go_bind (if isLiquidityMining \<and> orderRewardBPS > 0
             then go_bind (mine_side tokenID pairID orderRewardAmt (Token0ID (pp_state pair)) (pair, pairReward, insts))
               (mine_side tokenID pairID orderRewardAmt (Token1ID (pp_state pair)))
             else Inr (pair, pairReward, insts)) (\<lambda>(pair1, lpRewardAmt, insts1).
         go_bind (AddLMRewards (pp_state pair1) tokenID lpRewardAmt BaseLPFeesPerShare (pp_lmRewardsPerShare pair1)) (\<lambda>lmRewards.
           Inr (al_put pairID (pair1\<lparr>pp_lmRewardsPerShare := lmRewards\<rparr>) pairs,
             insts1 @ BuildMintBlockRewardInst pairID (to_uint64 lpRewardAmt) tokenID)))))"

definition total_reward_share :: "Params \<Rightarrow> int" where
  "total_reward_share params = foldl (\<lambda>s (_, shareAmount). to_uint64 (s + shareAmount)) 0 (PDEXRewardPoolPairsShare params)"

definition mintReward :: "string \<Rightarrow> int \<Rightarrow> Params \<Rightarrow> bool \<Rightarrow> pairs \<Rightarrow> (pairs \<times> mint_inst list) go" where
  "mintReward tokenID mintingAmount params isLiquidityMining pairs =
     go_foldl (mint_pair tokenID mintingAmount params isLiquidityMining (total_reward_share params)) (pairs, [])
       (sort (map fst (PDEXRewardPoolPairsShare params)))"

section \<open>The processor\<close>

definition mintBlockReward :: "MintBlockRewardContent \<Rightarrow> pairs \<Rightarrow> pairs go" where
  "mintBlockReward c pairs =
     (case map_of pairs (mb_PoolPairID c) of None \<Rightarrow> Inl (GoErr ''Could not find pair for minting'')
      | Some pair \<Rightarrow>
        go_bind (AddLMRewards (pp_state pair) (mb_TokenID c) (mb_Amount c) BaseLPFeesPerShare (pp_lmRewardsPerShare pair)) (\<lambda>lmRewards.
          Inr (al_put (mb_PoolPairID c) (pair\<lparr>pp_lmRewardsPerShare := lmRewards\<rparr>) pairs)))"

definition distributeMiningOrderReward :: "DistributeMiningOrderRewardContent \<Rightarrow> pairs \<Rightarrow> pairs go" where
  "distributeMiningOrderReward c pairs =
     (case map_of pairs (dm_PoolPairID c) of None \<Rightarrow> Inl (GoErr ''Could not find pair for minting order reward'')
      | Some pair \<Rightarrow>
        (case map_of (pp_makingVolume pair) (dm_MakingTokenID c) of None \<Rightarrow> Inl GoPanic
         | Some making \<Rightarrow>
           go_bind (SplitOrderRewardLiquidityMining (volume making) (dm_Amount c)) (\<lambda>orderRewards.
             Inr (al_put (dm_PoolPairID c) (pair\<lparr>pp_orderRewards := credit_orders (dm_TokenID c) orderRewards (pp_orderRewards pair),
               pp_makingVolume := al_del (dm_MakingTokenID c) (pp_makingVolume pair)\<rparr>) pairs))))"

definition process_mint :: "pairs \<Rightarrow> mint_inst \<Rightarrow> pairs go" where
  "process_mint pairs i = (case i of MintBlockRewardInst c \<Rightarrow> mintBlockReward c pairs | DistributeMiningOrderInst c \<Rightarrow> distributeMiningOrderReward c pairs)"

section \<open>Access tokens of users\<close>

record UserMintNftRequest =
  um_otaReceiver :: string
  um_amount :: int

datatype nft_inst =
    AcceptUserMintNft string int nat string string
  | RejectUserMintNft string int nat string

text \<open>\<open>genNFT\<close> stands for the hash of the number of tokens and the height.\<close>

definition userMintNft_tx :: "(int \<Rightarrow> int \<Rightarrow> string) \<Rightarrow> int \<Rightarrow> int \<Rightarrow> amounts \<times> int \<times> nft_inst list \<Rightarrow> UserMintNftRequest Transaction \<Rightarrow>
    amounts \<times> int \<times> nft_inst list" where
  "userMintNft_tx genNFT beaconHeight mintNftRequireAmount = (\<lambda>(nftIDs, burningPRVAmount, res) tx. let md = tx_Metadata tx in
     if um_amount md \<noteq> mintNftRequireAmount
     then (nftIDs, burningPRVAmount, res @ [RejectUserMintNft (um_otaReceiver md) (um_amount md) (tx_ShardID tx) (tx_Hash tx)])
     else let nftID = genNFT (int (length nftIDs)) beaconHeight in
       (al_put nftID (um_amount md) nftIDs, to_uint64 (burningPRVAmount + um_amount md),
        res @ [AcceptUserMintNft (um_otaReceiver md) (um_amount md) (tx_ShardID tx) nftID (tx_Hash tx)]))"

definition userMintNft :: "(int \<Rightarrow> int \<Rightarrow> string) \<Rightarrow> int \<Rightarrow> int \<Rightarrow> UserMintNftRequest Transaction list \<Rightarrow> amounts \<Rightarrow> amounts \<times> int \<times> nft_inst list" where
  "userMintNft genNFT beaconHeight mintNftRequireAmount txs nftIDs =
     foldl (userMintNft_tx genNFT beaconHeight mintNftRequireAmount) (nftIDs, 0, []) txs"

record nft_node =
  nn_nftIDs :: amounts
  nn_tracked :: "(string \<times> string \<times> nat \<times> int) list"

definition process_userMintNft :: "nft_node \<Rightarrow> nft_inst \<Rightarrow> nft_node" where
  "process_userMintNft n i = (case i of
       RejectUserMintNft _ amount _ txReqID \<Rightarrow> n\<lparr>nn_tracked := nn_tracked n @ [(txReqID, '''', Pdexv3RejectStatus, amount)]\<rparr>
     | AcceptUserMintNft _ amount _ nftID txReqID \<Rightarrow>
         n\<lparr>nn_nftIDs := al_put nftID amount (nn_nftIDs n), nn_tracked := nn_tracked n @ [(txReqID, nftID, Pdexv3AcceptStatus, amount)]\<rparr>)"

section \<open>What a reward is split into\<close>

fun minted_amount :: "mint_inst \<Rightarrow> int" where
  "minted_amount (MintBlockRewardInst c) = mb_Amount c"
| "minted_amount (DistributeMiningOrderInst c) = dm_Amount c"

definition minted :: "mint_inst list \<Rightarrow> int" where
  "minted insts = sum_list (map minted_amount insts)"

lemma minted_simps [simp]: "minted [] = 0" "minted (i # is) = minted_amount i + minted is" "minted (xs @ ys) = minted xs + minted ys"
  by (simp_all add: minted_def)

text \<open>A pool with shares in range whose orders made no negative volume.\<close>

definition mining_ok :: "PoolPairState \<Rightarrow> bool" where
  "mining_ok p \<longleftrightarrow> IsUint64 (ShareAmount (pp_state p)) \<and> IsUint64 (LmLockedShareAmount (pp_state p)) \<and>
     (\<forall>(_, m) \<in> set (pp_makingVolume p). \<forall>v \<in> snd ` set (volume m). 0 \<le> v)"

lemma AddLMRewards_total:
  assumes "IsUint64 (ShareAmount tp)" and "IsUint64 (LmLockedShareAmount tp)"
  shows "\<exists>lm. AddLMRewards tp t a b m = Inr lm"
proof (cases "ShareAmount tp = LmLockedShareAmount tp")
  case False
  then have "to_uint64 (ShareAmount tp - LmLockedShareAmount tp) \<noteq> 0"
    using assms zdvd_not_zless [of "\<bar>ShareAmount tp - LmLockedShareAmount tp\<bar>" "2 ^ 64"]
    by (auto simp: to_uint64_def IsUint64_def mod_eq_0_iff_dvd)
  then show ?thesis using False by (simp add: AddLMRewards_def big_div_def)
qed (simp add: AddLMRewards_def)

lemma mine_side_ok:
  assumes "mining_ok pair" and "IsUint64 amt"
  obtains pair' lp' new where "mine_side t k amt mt (pair, lp, insts) = Inr (pair', lp', insts @ new)" "mining_ok pair'" "pp_state pair' = pp_state pair"
    "minted new + lp' = lp" "lp - amt \<le> lp'" "lp' \<le> lp"
    "\<forall>pairs. distinct (map fst pairs) \<longrightarrow> map_of pairs k = Some pair \<longrightarrow> go_foldl process_mint pairs new = Inr (al_put k pair' pairs)"
proof (cases "\<exists>making. map_of (pp_makingVolume pair) mt = Some making \<and> volume making \<noteq> []")
  case False
  then have "mine_side t k amt mt (pair, lp, insts) = Inr (pair, lp, insts @ [])" by (auto simp: mine_side_def split: option.splits)
  then show thesis using assms by (intro that [of pair lp "[]"]) (auto simp: al_put_same IsUint64_def)
next
  case True
  then obtain m where m: "map_of (pp_makingVolume pair) mt = Some m" "volume m \<noteq> []" by blast
  then have "\<forall>v \<in> snd ` set (by_key (volume m)). 0 \<le> v" using assms(1) map_of_SomeD [OF m(1)] by (auto simp: mining_ok_def by_key_props)
  from split_loop_sum [OF assms(2) this] obtain rs where rs: "SplitOrderRewardLiquidityMining (volume m) amt = Inr rs"
    by (auto simp: SplitOrderRewardLiquidityMining_def by_key_props)
  let ?pair' = "pair\<lparr>pp_orderRewards := credit_orders t rs (pp_orderRewards pair), pp_makingVolume := al_del mt (pp_makingVolume pair)\<rparr>"
  let ?new = "BuildDistributeMiningOrderRewardInsts k mt (to_uint64 amt) t"
  have amt: "to_uint64 amt = amt" using assms(2) by simp
  have s: "mine_side t k amt mt (pair, lp, insts) = Inr (?pair', lp - amt, insts @ ?new)" using m rs by (simp add: mine_side_def)
  have ok: "mining_ok ?pair'" using assms(1) by (auto simp: mining_ok_def al_del_def)
  show thesis
  proof (rule that [OF s ok])
    show "\<forall>pairs. distinct (map fst pairs) \<longrightarrow> map_of pairs k = Some pair \<longrightarrow> go_foldl process_mint pairs ?new = Inr (al_put k ?pair' pairs)"
      using m rs amt by (simp add: BuildDistributeMiningOrderRewardInsts_def process_mint_def distributeMiningOrderReward_def)
  qed (use assms(2) in \<open>simp_all add: amt IsUint64_def BuildDistributeMiningOrderRewardInsts_def\<close>)
qed

definition pools_mining :: "pairs \<Rightarrow> bool" where
  "pools_mining pairs \<longleftrightarrow> distinct (map fst pairs) \<and> (\<forall>(_, p) \<in> set pairs. mining_ok p)"

lemma pools_mining_put: "pools_mining pairs \<Longrightarrow> mining_ok p \<Longrightarrow> pools_mining (al_put k p pairs)"
  by (auto simp: pools_mining_def set_al_put)

lemma order_share:
  fixes r b :: int
  assumes "0 \<le> r" and "0 \<le> b" and "b < BPS div 2"
  shows "0 \<le> r * b div BPS" and "2 * (r * b div BPS) \<le> r"
proof -
  have "r * b \<le> r * 5000" using assms by (intro mult_left_mono) (auto simp: BPS_def)
  moreover have "r * b div 10000 * 10000 \<le> r * b" by simp
  ultimately show "2 * (r * b div BPS) \<le> r" unfolding BPS_def by linarith
  show "0 \<le> r * b div BPS" using assms by (simp add: BPS_def pos_imp_zdiv_nonneg_iff)
qed

text \<open>The part of one pool: what its owners of orders and its providers get is its share of the reward, rounded down.\<close>

lemma mint_pair_ok:
  assumes p: "pools_mining pairs" "map_of pairs k = Some pair" and u: "IsUint64 amount"
    and s: "0 \<le> map_uint (PDEXRewardPoolPairsShare params) k" "map_uint (PDEXRewardPoolPairsShare params) k \<le> S" "0 < S"
    and b: "0 \<le> map_uint (OrderLiquidityMiningBPS params) k" "map_uint (OrderLiquidityMiningBPS params) k < BPS div 2"
  obtains pairs' new where "mint_pair t amount params lm S (pairs, insts) k = Inr (pairs', insts @ new)" "pools_mining pairs'"
    "map fst pairs' = map fst pairs" "minted new = amount * map_uint (PDEXRewardPoolPairsShare params) k div S" "go_foldl process_mint pairs new = Inr pairs'"
proof -
  let ?s = "map_uint (PDEXRewardPoolPairsShare params) k" and ?b = "map_uint (OrderLiquidityMiningBPS params) k"
  define R where "R = amount * ?s div S"
  have R: "0 \<le> R" "R \<le> amount"
  proof -
    show "0 \<le> R" using u s by (simp add: R_def IsUint64_def pos_imp_zdiv_nonneg_iff)
    have "amount * ?s div S \<le> amount * S div S" using u s by (intro zdiv_mono1 mult_left_mono) (auto simp: IsUint64_def)
    then show "R \<le> amount" using s(3) by (simp add: R_def)
  qed
  then have uR: "IsUint64 R" using u by (simp add: IsUint64_def)
  have d: "distinct (map fst pairs)" "mining_ok pair" using p map_of_SomeD [OF p(2)] by (auto simp: pools_mining_def)
  let ?mine = "if lm \<and> ?b > 0 then go_bind (mine_side t k (R * ?b div BPS) (Token0ID (pp_state pair)) (pair, R, insts))
      (mine_side t k (R * ?b div BPS) (Token1ID (pp_state pair))) else Inr (pair, R, insts)"
  have eq: "mint_pair t amount params lm S (pairs, insts) k = (if R = 0 then Inr (pairs, insts) else go_bind ?mine (\<lambda>(pair1, lp, insts1).
      go_bind (AddLMRewards (pp_state pair1) t lp BaseLPFeesPerShare (pp_lmRewardsPerShare pair1)) (\<lambda>r.
        Inr (al_put k (pair1\<lparr>pp_lmRewardsPerShare := r\<rparr>) pairs, insts1 @ BuildMintBlockRewardInst k (to_uint64 lp) t))))"
    using p(2) s(3) uR by (simp add: mint_pair_def R_def [symmetric] Let_def)
  show thesis
  proof (cases "R = 0")
    case True
    then show thesis using eq p by (intro that [of pairs "[]"]) (auto simp: R_def)
  next
    case False
    note o1 = order_share [OF R(1) b]
    have uo: "IsUint64 (R * ?b div BPS)" using o1 uR by (auto simp: IsUint64_def)
    obtain pair1 lp new where m: "?mine = Inr (pair1, lp, insts @ new)" "mining_ok pair1" "minted new + lp = R" "0 \<le> lp" "lp \<le> R"
      "go_foldl process_mint pairs new = Inr (al_put k pair1 pairs)"
    proof (cases "lm \<and> ?b > 0")
      case True
      obtain q1 l1 n1 where q1: "mine_side t k (R * ?b div BPS) (Token0ID (pp_state pair)) (pair, R, insts) = Inr (q1, l1, insts @ n1)" "mining_ok q1" "pp_state q1 = pp_state pair"
        "minted n1 + l1 = R" "R - R * ?b div BPS \<le> l1" "l1 \<le> R" "\<forall>pairs. distinct (map fst pairs) \<longrightarrow> map_of pairs k = Some pair \<longrightarrow> go_foldl process_mint pairs n1 = Inr (al_put k q1 pairs)"
        by (rule mine_side_ok [OF d(2) uo, of t k "Token0ID (pp_state pair)" R insts]) blast
      obtain q2 l2 n2 where q2: "mine_side t k (R * ?b div BPS) (Token1ID (pp_state pair)) (q1, l1, insts @ n1) = Inr (q2, l2, (insts @ n1) @ n2)" "mining_ok q2" "pp_state q2 = pp_state q1"
        "minted n2 + l2 = l1" "l1 - R * ?b div BPS \<le> l2" "l2 \<le> l1" "\<forall>pairs. distinct (map fst pairs) \<longrightarrow> map_of pairs k = Some q1 \<longrightarrow> go_foldl process_mint pairs n2 = Inr (al_put k q2 pairs)"
        by (rule mine_side_ok [OF q1(2) uo, of t k "Token1ID (pp_state pair)" l1 "insts @ n1"]) blast
      show thesis
      proof (rule that [of q2 l2 "n1 @ n2"])
        show "go_foldl process_mint pairs (n1 @ n2) = Inr (al_put k q2 pairs)" using q1(7) q2(7) [rule_format, of "al_put k q1 pairs"] d(1) p(2) by (simp add: go_foldl_append)
      qed (use True q1 q2 o1 in auto)
    qed (use that [of pair R "[]"] d R p(2) in \<open>auto simp: al_put_same\<close>)
    have u1: "IsUint64 (ShareAmount (pp_state pair1))" "IsUint64 (LmLockedShareAmount (pp_state pair1))" using m(2) by (auto simp: mining_ok_def)
    from AddLMRewards_total [OF this] obtain r where r: "AddLMRewards (pp_state pair1) t lp BaseLPFeesPerShare (pp_lmRewardsPerShare pair1) = Inr r" by blast
    have lp: "to_uint64 lp = lp" using m(4,5) uR by (auto simp: IsUint64_def)
    let ?p' = "pair1\<lparr>pp_lmRewardsPerShare := r\<rparr>"
    have ok: "mining_ok ?p'" using m(2) by (simp add: mining_ok_def)
    show thesis
    proof (rule that [of "al_put k ?p' pairs" "new @ BuildMintBlockRewardInst k (to_uint64 lp) t"])
      show "mint_pair t amount params lm S (pairs, insts) k = Inr (al_put k ?p' pairs, insts @ new @ BuildMintBlockRewardInst k (to_uint64 lp) t)"
        unfolding eq m(1) using False r by simp
      show "pools_mining (al_put k ?p' pairs)" by (rule pools_mining_put [OF p(1) ok])
      show "map fst (al_put k ?p' pairs) = map fst pairs" using imageI [OF map_of_SomeD [OF p(2)], of fst] by (simp add: keys_al_put)
      show "minted (new @ BuildMintBlockRewardInst k (to_uint64 lp) t) = amount * ?s div S" using m(3) lp by (simp add: BuildMintBlockRewardInst_def R_def)
      show "go_foldl process_mint pairs (new @ BuildMintBlockRewardInst k (to_uint64 lp) t) = Inr (al_put k ?p' pairs)"
        using m(6) r lp by (simp add: go_foldl_append BuildMintBlockRewardInst_def process_mint_def mintBlockReward_def)
    qed
  qed
qed

section \<open>The whole reward\<close>

lemma mint_pairs_ok:
  assumes "pools_mining pairs" and "IsUint64 amount" and "0 < S"
    and "\<forall>k \<in> set ks. map_of pairs k \<noteq> None \<and> 0 \<le> map_uint (PDEXRewardPoolPairsShare params) k \<and> map_uint (PDEXRewardPoolPairsShare params) k \<le> S \<and>
      0 \<le> map_uint (OrderLiquidityMiningBPS params) k \<and> map_uint (OrderLiquidityMiningBPS params) k < BPS div 2"
  shows "\<exists>pairs' new. go_foldl (mint_pair t amount params lm S) (pairs, insts) ks = Inr (pairs', insts @ new) \<and> pools_mining pairs' \<and>
    map fst pairs' = map fst pairs \<and> minted new = (\<Sum>k \<leftarrow> ks. amount * map_uint (PDEXRewardPoolPairsShare params) k div S) \<and>
    go_foldl process_mint pairs new = Inr pairs'"
  using assms(1,4)
proof (induction ks arbitrary: pairs insts)
  case (Cons k ks)
  from Cons.prems(2) obtain pair where pair: "map_of pairs k = Some pair" by auto
  obtain p1 n1 where 1: "mint_pair t amount params lm S (pairs, insts) k = Inr (p1, insts @ n1)" "pools_mining p1" "map fst p1 = map fst pairs"
    "minted n1 = amount * map_uint (PDEXRewardPoolPairsShare params) k div S" "go_foldl process_mint pairs n1 = Inr p1"
    using mint_pair_ok [OF Cons.prems(1) pair assms(2) _ _ assms(3), of params t lm insts] Cons.prems(2) by (metis list.set_intros(1))
  have "map_of p1 j \<noteq> None" if "map_of pairs j \<noteq> None" for j using 1(3) that by (metis list.set_map map_of_eq_None_iff)
  then obtain p2 n2 where "go_foldl (mint_pair t amount params lm S) (p1, insts @ n1) ks = Inr (p2, (insts @ n1) @ n2)" "pools_mining p2" "map fst p2 = map fst p1"
    "minted n2 = (\<Sum>k \<leftarrow> ks. amount * map_uint (PDEXRewardPoolPairsShare params) k div S)" "go_foldl process_mint p1 n2 = Inr p2"
    using Cons.IH [OF 1(2)] Cons.prems(2) by (metis list.set_intros(2))
  then show ?case using 1 by (intro exI [of _ p2] exI [of _ "n1 @ n2"]) (simp add: go_foldl_append)
qed simp

text \<open>Rounding down once per pool.\<close>

lemma rounded_parts:
  fixes a S :: int
  assumes "0 < S"
  shows "S * (\<Sum>s \<leftarrow> ss. a * s div S) \<le> a * sum_list ss" and "a * sum_list ss + int (length ss) \<le> S * ((\<Sum>s \<leftarrow> ss. a * s div S) + int (length ss))"
proof (induction ss)
  case (Cons s ss)
  obtain d where d: "d = a * s div S" by simp
  have "S * d + a * s mod S = a * s" "0 \<le> a * s mod S" "a * s mod S < S" using assms by (simp_all add: d)
  then have r: "S * d \<le> a * s" "a * s + 1 \<le> S * d + S" by linarith+
  { case 1 then show ?case using r(1) Cons(1) by (simp add: distrib_left flip: d) }
  { case 2 then show ?case using r(2) Cons(2) by (simp add: distrib_left flip: d) }
qed simp_all

definition mining_typed :: "Params \<Rightarrow> bool" where
  "mining_typed params \<longleftrightarrow> distinct (map fst (PDEXRewardPoolPairsShare params)) \<and> (\<forall>s \<in> snd ` set (PDEXRewardPoolPairsShare params). 0 \<le> s) \<and>
     0 < sum_list (map snd (PDEXRewardPoolPairsShare params)) \<and> sum_list (map snd (PDEXRewardPoolPairsShare params)) < 2 ^ 64 \<and>
     (\<forall>b \<in> snd ` set (OrderLiquidityMiningBPS params). 0 \<le> b)"

lemma total_share_sum:
  assumes "\<forall>s \<in> snd ` set ss. 0 \<le> s" and "0 \<le> c" and "c + sum_list (map snd ss) < 2 ^ 64"
  shows "foldl (\<lambda>s (_, shareAmount). to_uint64 (s + shareAmount)) c ss = c + sum_list (map snd ss)"
  using assms
proof (induction ss arbitrary: c)
  case (Cons x ss)
  have "0 \<le> snd x" "0 \<le> sum_list (map snd ss)" using Cons.prems(1) by (auto intro!: sum_list_nonneg)
  then have "to_uint64 (c + snd x) = c + snd x" using Cons.prems by (intro to_uint64_id) (auto simp: IsUint64_def)
  then show ?case using Cons \<open>0 \<le> snd x\<close> by (cases x) auto
qed simp

lemma map_uint_entry: "map_uint m k = 0 \<or> (k, map_uint m k) \<in> set m"
  by (auto simp: map_uint_def dest: map_of_SomeD split: option.splits)

lemma mintReward_ok:
  assumes "pools_mining pairs" and "params_ok pairs params" and "mining_typed params" and "IsUint64 amount"
  obtains pairs' insts where "mintReward t amount params lm pairs = Inr (pairs', insts)" "go_foldl process_mint pairs insts = Inr pairs'"
    "pools_mining pairs'" "map fst pairs' = map fst pairs" "minted insts \<le> amount" "amount < minted insts + int (length (PDEXRewardPoolPairsShare params))"
proof -
  let ?ss = "PDEXRewardPoolPairsShare params"
  define S where "S = sum_list (map snd ?ss)"
  have ss: "distinct (map fst ?ss)" "\<forall>s \<in> snd ` set ?ss. 0 \<le> s" "0 < S" "S < 2 ^ 64" using assms(3) by (auto simp: mining_typed_def S_def)
  have S: "total_reward_share params = S" using total_share_sum [of ?ss 0] ss by (simp add: total_reward_share_def S_def)
  have "map_of pairs k \<noteq> None \<and> 0 \<le> map_uint ?ss k \<and> map_uint ?ss k \<le> S \<and> 0 \<le> map_uint (OrderLiquidityMiningBPS params) k \<and> map_uint (OrderLiquidityMiningBPS params) k < BPS div 2"
    if k: "k \<in> set (map fst ?ss)" for k
  proof -
    from k obtain v where v: "(k, v) \<in> set ?ss" by auto
    then have mv: "map_uint ?ss k = v" using ss(1) by (simp add: map_uint_def)
    have "v \<in> set (map snd ?ss)" using v by force
    then have "v \<le> S" unfolding S_def using ss(2) by (intro member_le_sum_list) auto
    moreover have "map_of pairs k \<noteq> None" using assms(2) v by (auto simp: params_ok_def)
    moreover have "map_uint (OrderLiquidityMiningBPS params) k < BPS div 2" "0 \<le> map_uint (OrderLiquidityMiningBPS params) k"
      using map_uint_entry [of "OrderLiquidityMiningBPS params" k] assms(2,3) by (force simp: params_ok_def rates_within_def BPS_def mining_typed_def)+
    ultimately show ?thesis using mv v ss(2) by auto
  qed
  then obtain pairs' insts where r: "mintReward t amount params lm pairs = Inr (pairs', insts)" "pools_mining pairs'" "map fst pairs' = map fst pairs"
    "minted insts = (\<Sum>k \<leftarrow> sort (map fst ?ss). amount * map_uint ?ss k div S)" "go_foldl process_mint pairs insts = Inr pairs'"
    using mint_pairs_ok [OF assms(1,4) ss(3), of "sort (map fst ?ss)" params t lm "[]"] by (auto simp: mintReward_def S)
  have "mset (map (\<lambda>k. amount * map_uint ?ss k div S) (sort (map fst ?ss))) = mset (map (\<lambda>k. amount * map_uint ?ss k div S) (map fst ?ss))" by (simp only: mset_map mset_sort)
  then have "minted insts = (\<Sum>k \<leftarrow> map fst ?ss. amount * map_uint ?ss k div S)" using r(4) by (metis sum_mset_sum_list)
  also have "map (\<lambda>k. amount * map_uint ?ss k div S) (map fst ?ss) = map (\<lambda>s. amount * s div S) (map snd ?ss)"
    using ss(1) by (auto simp: map_uint_def)
  finally have m: "minted insts = (\<Sum>s \<leftarrow> map snd ?ss. amount * s div S)" .
  note parts = rounded_parts [OF ss(3), of amount "map snd ?ss", folded S_def m]
  have "?ss \<noteq> []" using ss(3) by (auto simp: S_def)
  then have "S * amount < S * (minted insts + int (length ?ss))" using parts(2) by (cases ?ss) (auto simp: mult.commute)
  then have up: "amount < minted insts + int (length ?ss)" using ss(3) by simp
  have "S * minted insts \<le> S * amount" using parts(1) by (simp add: mult.commute)
  then have "minted insts \<le> amount" using ss(3) by simp
  then show thesis using that r up by blast
qed

text \<open>C17. A reward is split without loss and nodes agree on it: with accepted parameters of which some share is positive, the
  producer returns without error for any reward; a node that processes its instructions has the same pools; and the instructions mint at
  most the reward and lose less than one unit for each pool of the parameters, whatever part goes to the owners of orders.\<close>

theorem mint_reward_agrees:
  assumes "pools_mining pairs" and "params_ok pairs params" and "mining_typed params" and "IsUint64 amount"
  shows "\<exists>pairs' insts. mintReward tokenID amount params isLiquidityMining pairs = Inr (pairs', insts) \<and> go_foldl process_mint pairs insts = Inr pairs' \<and>
    pools_mining pairs' \<and> minted insts \<le> amount \<and> amount < minted insts + int (length (PDEXRewardPoolPairsShare params))"
  by (rule mintReward_ok [OF assms, of tokenID isLiquidityMining]) blast

definition mint_pool :: "string \<Rightarrow> PoolPairState" where
  "mint_pool t = \<lparr>pp_makingVolume = [(t, \<lparr>volume = [(''n'', 5)]\<rparr>)], pp_state = \<lparr>Token0ID = t, Token1ID = ''prv'', ShareAmount = 40, LmLockedShareAmount = 0,
     Token0RealAmount = 20, Token1RealAmount = 80, Token0VirtualAmount = 20, Token1VirtualAmount = 80, Amplifier = 10000\<rparr>, pp_shares = [],
     pp_orderRewards = [], pp_orderbook = [], pp_lpFeesPerShare = [], pp_lmRewardsPerShare = [], pp_protocolFees = [], pp_stakingPoolFees = [], pp_lmLockedShare = []\<rparr>"

definition mint_params :: "int \<Rightarrow> int \<Rightarrow> Params" where
  "mint_params a b = demo_valid_params\<lparr>PDEXRewardPoolPairsShare := [(''p'', a), (''q'', b)], OrderLiquidityMiningBPS := [(''q'', 1000)]\<rparr>"

lemma mint_params_ok: "params_ok [(''p'', mint_pool ''A''), (''q'', mint_pool ''B'')] (mint_params a b)"
  using demo_valid_params_ok(1) [of "[(''p'', mint_pool ''A''), (''q'', mint_pool ''B'')]"]
  by (auto simp: params_ok_def mint_params_def rates_within_def BPS_def)

theorem mint_reward_agrees_witness:
  "\<exists>pairs' insts. mintReward ''prv'' 100 (mint_params 1 2) True [(''p'', mint_pool ''A''), (''q'', mint_pool ''B'')] = Inr (pairs', insts) \<and> minted insts = 99"
proof -
  have m: "mintReward ''prv'' 100 (mint_params 1 2) True [(''p'', mint_pool ''A''), (''q'', mint_pool ''B'')] = Inr (pairs', insts) \<Longrightarrow> minted insts = 99" for pairs' insts
    by (auto simp: mintReward_def mint_pair_def mine_side_def total_reward_share_def mint_params_def mint_pool_def map_uint_def to_uint64_def IsUint64_def Let_def
      SplitOrderRewardLiquidityMining_def by_key_def AddLMRewards_def BPS_def BuildMintBlockRewardInst_def BuildDistributeMiningOrderRewardInsts_def al_put_def)
  have "pools_mining [(''p'', mint_pool ''A''), (''q'', mint_pool ''B'')]" by (simp add: pools_mining_def mining_ok_def mint_pool_def IsUint64_def)
  moreover have "mining_typed (mint_params 1 2)" by (simp add: mining_typed_def mint_params_def)
  ultimately show ?thesis using mint_reward_agrees [OF _ mint_params_ok, of 1 2 100 "''prv''" True] m by (auto simp: IsUint64_def)
qed

text \<open>The check of the parameters accepts shares that are all zero, and then the division panics.\<close>

lemma zero_shares_panic:
  "params_ok [(''p'', mint_pool ''A''), (''q'', mint_pool ''B'')] (mint_params 0 0) \<and>
   mintReward ''prv'' 100 (mint_params 0 0) True [(''p'', mint_pool ''A''), (''q'', mint_pool ''B'')] = Inl GoPanic"
  using mint_params_ok [of 0 0] by (simp add: mintReward_def mint_pair_def total_reward_share_def mint_params_def to_uint64_def big_div_def)

section \<open>Access tokens\<close>

text \<open>Nodes agree with the producer on the access tokens; every request gets one instruction, and what is burnt is the required amount for each
  accepted one.\<close>

lemma userMintNft_tx_cases:
  "userMintNft_tx genNFT h req (nfts, b, insts) tx =
     (if um_amount (tx_Metadata tx) = req
      then (al_put (genNFT (int (length nfts)) h) req nfts, to_uint64 (b + req),
        insts @ [AcceptUserMintNft (um_otaReceiver (tx_Metadata tx)) req (tx_ShardID tx) (genNFT (int (length nfts)) h) (tx_Hash tx)])
      else (nfts, b, insts @ [RejectUserMintNft (um_otaReceiver (tx_Metadata tx)) (um_amount (tx_Metadata tx)) (tx_ShardID tx) (tx_Hash tx)]))"
  by (simp add: userMintNft_tx_def Let_def)

lemma process_userMintNft_nfts [simp]:
  "nn_nftIDs (process_userMintNft n (RejectUserMintNft r a sh tx)) = nn_nftIDs n"
  "nn_nftIDs (process_userMintNft n (AcceptUserMintNft r a sh i tx)) = al_put i a (nn_nftIDs n)"
  by (simp_all add: process_userMintNft_def)

lemma userMintNft_fold:
  assumes "foldl (userMintNft_tx genNFT h req) (nfts, b, insts) txs = (nfts', b', insts')"
  shows "\<exists>new. insts' = insts @ new \<and> length new = length txs \<and> (\<forall>n. nn_nftIDs n = nfts \<longrightarrow> nn_nftIDs (foldl process_userMintNft n new) = nfts') \<and>
    (IsUint64 b \<longrightarrow> b' = to_uint64 (b + req * int (length (filter (\<lambda>tx. um_amount (tx_Metadata tx) = req) txs))))"
  using assms
proof (induction txs arbitrary: nfts b insts)
  case (Cons tx txs)
  let ?md = "tx_Metadata tx"
  show ?case
  proof (cases "um_amount ?md = req")
    case False
    then have "foldl (userMintNft_tx genNFT h req) (nfts, b, insts @ [RejectUserMintNft (um_otaReceiver ?md) (um_amount ?md) (tx_ShardID tx) (tx_Hash tx)]) txs = (nfts', b', insts')"
      using Cons.prems by (simp add: userMintNft_tx_cases)
    from Cons.IH [OF this] obtain new where new: "insts' = (insts @ [RejectUserMintNft (um_otaReceiver ?md) (um_amount ?md) (tx_ShardID tx) (tx_Hash tx)]) @ new"
      "length new = length txs" "\<forall>n. nn_nftIDs n = nfts \<longrightarrow> nn_nftIDs (foldl process_userMintNft n new) = nfts'"
      "IsUint64 b \<longrightarrow> b' = to_uint64 (b + req * int (length (filter (\<lambda>tx. um_amount (tx_Metadata tx) = req) txs)))" by blast
    show ?thesis
      by (rule exI [of _ "RejectUserMintNft (um_otaReceiver ?md) (um_amount ?md) (tx_ShardID tx) (tx_Hash tx) # new"]) (use new False in simp)
  next
    case True
    let ?id = "genNFT (int (length nfts)) h"
    let ?i = "AcceptUserMintNft (um_otaReceiver ?md) req (tx_ShardID tx) ?id (tx_Hash tx)"
    have "foldl (userMintNft_tx genNFT h req) (al_put ?id req nfts, to_uint64 (b + req), insts @ [?i]) txs = (nfts', b', insts')"
      using Cons.prems True by (simp add: userMintNft_tx_cases)
    from Cons.IH [OF this] obtain new where new: "insts' = (insts @ [?i]) @ new" "length new = length txs"
      "\<forall>n. nn_nftIDs n = al_put ?id req nfts \<longrightarrow> nn_nftIDs (foldl process_userMintNft n new) = nfts'"
      "b' = to_uint64 (to_uint64 (b + req) + req * int (length (filter (\<lambda>tx. um_amount (tx_Metadata tx) = req) txs)))"
      by (auto simp: to_uint64_def IsUint64_def)
    have add: "to_uint64 (to_uint64 (b + req) + req * x) = to_uint64 (b + req * (1 + x))" for x by (simp add: to_uint64_def mod_add_left_eq distrib_left add.assoc)
    show ?thesis
      by (rule exI [of _ "?i # new"]) (use new True in \<open>simp add: add\<close>)
  qed
qed auto

end
