(* ===== verification/Pdex_Trade_Handlers.thy ===== *)
theory Pdex_Trade_Handlers
  imports Pdex_Mint Pdex_Trade
begin

text \<open>
  The handlers of trades: the conversion of fees and the preparation of a path (\<^verbatim>\<open>getTokenPricesAgainstPRV\<close>, \<^verbatim>\<open>getWeightedFee\<close>,
  \<^verbatim>\<open>TradePathFromState\<close> of \<^verbatim>\<open>pdex/utils.go\<close>), the distribution of the fee over the pools of the path (\<^verbatim>\<open>TrackFee\<close> of
  \<^verbatim>\<open>v2utils/reserve.go\<close>), the producer \<^verbatim>\<open>trade\<close> of \<^verbatim>\<open>state_producer_v2.go\<close> and the processor \<^verbatim>\<open>trade\<close> of
  \<^verbatim>\<open>state_processor_v2.go\<close>. The value None of a handler stands for a loop over an order book that does not end. Whether a
  transaction burns PRV for its fee (\<^verbatim>\<open>GetTxFullBurnData\<close>) is the parameter \<open>burnsPRV\<close>.
\<close>

section \<open>Requests and instructions\<close>

definition PRVCoinID :: string where "PRVCoinID = replicate 63 CHR ''0'' @ ''4''"

record 'r TradeRequest =
  td_TradePath :: "string list"
  td_TokenToSell :: string
  td_SellAmount :: int
  td_MinAcceptableAmount :: int
  td_TradingFee :: int
  td_Receiver :: "string \<rightharpoonup> 'r"

record 'r AcceptedTradeContent =
  at_Receiver :: 'r
  at_Amount :: int
  at_TradePath :: "string list"
  at_TokenToBuy :: string
  at_PairChanges :: "(int \<times> int) list"
  at_RewardEarned :: "amounts list"
  at_OrderChanges :: "(string \<times> int \<times> int) list list"

record 'r RefundedTrade =
  rt_Receiver :: 'r
  rt_TokenID :: string
  rt_Amount :: int

datatype 'r trade_inst =
    AcceptedTradeInst "'r AcceptedTradeContent" string nat
  | RefundedTradeInst "'r RefundedTrade" string nat

text \<open>Errors and panics over loops that may not end.\<close>

definition run_bind :: "'a go option \<Rightarrow> ('a \<Rightarrow> 'b go option) \<Rightarrow> 'b go option" where
  "run_bind m f = (case m of None \<Rightarrow> None | Some (Inl e) \<Rightarrow> Some (Inl e) | Some (Inr x) \<Rightarrow> f x)"

definition run_catch :: "'a go option \<Rightarrow> 'b go option \<Rightarrow> ('a \<Rightarrow> 'b go option) \<Rightarrow> 'b go option" where
  "run_catch m on_err f = (case m of None \<Rightarrow> None | Some (Inl GoPanic) \<Rightarrow> Some (Inl GoPanic) | Some (Inl (GoErr _)) \<Rightarrow> on_err | Some (Inr x) \<Rightarrow> f x)"

section \<open>The price of tokens against PRV\<close>

definition prv_reserves :: "Pdexv3PoolPair \<Rightarrow> string \<times> int \<times> int" where
  "prv_reserves tp = (if Token0ID tp = PRVCoinID then (Token1ID tp, Token1VirtualAmount tp, Token0VirtualAmount tp)
     else if Token1ID tp = PRVCoinID then (Token0ID tp, Token0VirtualAmount tp, Token1VirtualAmount tp)
     else (replicate 64 CHR ''0'', 0, 0))"

definition normalized_liquidity :: "int \<Rightarrow> int \<Rightarrow> nat \<Rightarrow> int go" where
  "normalized_liquidity virtualTokenReserve virtualPRVReserve amplifier =
     go_bind (big_div (virtualTokenReserve * virtualPRVReserve * int BaseAmplifier) (int amplifier)) (\<lambda>l.
       big_div (l * int BaseAmplifier) (int amplifier))"

text \<open>The pool with the larger liquidity is chosen, and on equal liquidity the one with the better rate.\<close>

definition better_pool :: "int \<times> int \<times> int \<Rightarrow> int \<times> int \<times> int \<Rightarrow> bool" where
  "better_pool = (\<lambda>(tok, prv, liq) (tok', prv', liq'). liq > liq' \<or> liq = liq' \<and> tok * prv' > tok' * prv)"

definition price_step :: "int \<Rightarrow> (string \<times> int \<times> int \<times> int) list \<Rightarrow> string \<times> PoolPairState \<Rightarrow> (string \<times> int \<times> int \<times> int) list go" where
  "price_step minPRVReserve rates = (\<lambda>(_, pair).
     case prv_reserves (pp_state pair) of (tokenID, tok, prv) \<Rightarrow>
     if prv * int BaseAmplifier < minPRVReserve * int (Amplifier (pp_state pair)) then Inr rates
     else go_bind (normalized_liquidity tok prv (Amplifier (pp_state pair))) (\<lambda>liq.
       Inr (case map_of rates tokenID of
           None \<Rightarrow> al_put tokenID (tok, prv, liq) rates
         | Some item \<Rightarrow> if better_pool (tok, prv, liq) item then al_put tokenID (tok, prv, liq) rates else rates)))"

definition getTokenPricesAgainstPRV :: "pairs \<Rightarrow> int \<Rightarrow> (string \<times> int \<times> int \<times> int) list go" where
  "getTokenPricesAgainstPRV pairs minPRVReserve = go_foldl (price_step minPRVReserve) [] pairs"

section \<open>The weight of fees\<close>

text \<open>The fee in PRV of one request, converted to the sold token and discounted; none when it cannot be converted.\<close>

definition discounted :: "int \<Rightarrow> int \<Rightarrow> int go" where
  "discounted x discountPercent = big_div (x * 100) discountPercent"

definition weighted_fee :: "(string \<times> int \<times> int \<times> int) list \<Rightarrow> int \<Rightarrow> bool \<Rightarrow> 'r TradeRequest \<Rightarrow> (bool \<times> int option) go" where
  "weighted_fee rates discountPercent burnedPRV md =
     (if td_TokenToSell md = PRVCoinID
      then go_bind (discounted (td_TradingFee md) discountPercent) (\<lambda>fee. Inr (False, if IsUint64 fee then Some fee else None))
      else if burnedPRV
      then (case map_of rates (td_TokenToSell md) of None \<Rightarrow> Inr (True, None)
        | Some (tok, prv, _) \<Rightarrow>
          go_bind (discounted (td_TradingFee md * tok) discountPercent) (\<lambda>t.
          go_bind (big_div t prv) (\<lambda>fee. Inr (True, if IsUint64 fee then Some fee else None))))
      else Inr (False, Some (td_TradingFee md)))"

type_synonym 'r trade_tx = "'r TradeRequest Transaction"

text \<open>The valid requests with their weights and the invalid ones, each with the flag of a fee in PRV.\<close>

definition getWeightedFee :: "('r trade_tx \<Rightarrow> bool) \<Rightarrow> 'r trade_tx list \<Rightarrow> pairs \<Rightarrow> Params \<Rightarrow> (('r trade_tx \<times> bool \<times> int) list \<times> ('r trade_tx \<times> bool) list) go" where
  "getWeightedFee burnsPRV txs pairs params =
     (let temp = to_uint64 (100 - PRVDiscountPercent params) in
      if temp > 100 then Inl (GoErr ''PRV Discount percent invalid'')
      else go_bind (getTokenPricesAgainstPRV pairs (MinPRVReserveTradingRate params)) (\<lambda>rates.
        go_foldl (\<lambda>(valid, invalid) tx. go_bind (weighted_fee rates temp (burnsPRV tx) (tx_Metadata tx)) (\<lambda>(feeInPRV, fee).
          Inr (case fee of None \<Rightarrow> (valid, invalid @ [(tx, feeInPRV)]) | Some f \<Rightarrow> (valid @ [(tx, feeInPRV, f)], invalid)))) ([], []) txs))"

text \<open>\<^verbatim>\<open>sort.SliceStable\<close>: descending by the ratio of fee and amount, compared by products.\<close>

definition higher_fee :: "'r trade_tx \<times> bool \<times> int \<Rightarrow> 'r trade_tx \<times> bool \<times> int \<Rightarrow> bool" where
  "higher_fee = (\<lambda>(tx, _, fee) (tx', _, fee'). fee * td_SellAmount (tx_Metadata tx') > fee' * td_SellAmount (tx_Metadata tx))"

fun insert_stable :: "('a \<Rightarrow> 'a \<Rightarrow> bool) \<Rightarrow> 'a \<Rightarrow> 'a list \<Rightarrow> 'a list" where
  "insert_stable before x [] = [x]"
| "insert_stable before x (y # ys) = (if before y x then y # insert_stable before x ys else x # y # ys)"

definition sort_stable :: "('a \<Rightarrow> 'a \<Rightarrow> bool) \<Rightarrow> 'a list \<Rightarrow> 'a list" where
  "sort_stable before xs = foldr (insert_stable before) xs []"

section \<open>The path of a trade\<close>

fun path_from_state :: "pairs \<Rightarrow> string list \<Rightarrow> string \<Rightarrow> string list \<Rightarrow> ((string \<times> PoolPairState \<times> nat) list \<times> string) go" where
  "path_from_state pairs seen nextToken [] = Inr ([], nextToken)"
| "path_from_state pairs seen nextToken (pairID # path) =
     (if pairID \<in> set seen then Inl (GoErr ''Path contains duplicate pool'')
      else (case map_of pairs pairID of None \<Rightarrow> Inl (GoErr ''Path contains nonexistent pair'')
        | Some pair \<Rightarrow>
          if nextToken = Token0ID (pp_state pair)
          then go_bind (path_from_state pairs (pairID # seen) (Token1ID (pp_state pair)) path) (\<lambda>(hops, buy). Inr ((pairID, pair, TradeDirectionSell0) # hops, buy))
          else if nextToken = Token1ID (pp_state pair)
          then go_bind (path_from_state pairs (pairID # seen) (Token0ID (pp_state pair)) path) (\<lambda>(hops, buy). Inr ((pairID, pair, TradeDirectionSell1) # hops, buy))
          else Inl (GoErr ''Incompatible selling token'')))"

definition TradePathFromState :: "string \<Rightarrow> string list \<Rightarrow> pairs \<Rightarrow> ((string \<times> PoolPairState \<times> nat) list \<times> string) go" where
  "TradePathFromState sellToken tradePath pairs = path_from_state pairs [] sellToken tradePath"

section \<open>The fee of a trade\<close>

text \<open>One pool of the path with its clone, the recorded changes and what \<^verbatim>\<open>TrackFee\<close> collects for it.\<close>

record fee_hop =
  fh_pairID :: string
  fh_pair :: PoolPairState
  fh_direction :: nat
  fh_poolFee :: int
  fh_pairChange :: "int \<times> int"
  fh_orderChanges :: "string \<rightharpoonup> int \<times> int"
  fh_rewardEarned :: amounts
  fh_orderRewards :: "(string \<times> amounts) list"
  fh_making :: "(string \<times> amounts) list"

text \<open>The entries of a map of changes, which only has identifiers of the book.\<close>

definition change_entries :: "Orderbook \<Rightarrow> (string \<rightharpoonup> int \<times> int) \<Rightarrow> (string \<times> int \<times> int) list" where
  "change_entries orders changes = List.map_filter (\<lambda>ord. map_option (Pair (Id ord)) (changes (Id ord))) orders"

definition Orderbook_NftIDs :: "Orderbook \<Rightarrow> (string \<rightharpoonup> string)" where
  "Orderbook_NftIDs orders = foldl (\<lambda>m ord. m(Id ord \<mapsto> NftID ord)) Map.empty orders"

definition trading_ratio :: "Params \<Rightarrow> string \<Rightarrow> int" where
  "trading_ratio params pairID = (case map_of (OrderTradingRewardRatioBPS params) pairID of None \<Rightarrow> DefaultOrderTradingRewardRatioBPS params | Some bps \<Rightarrow> bps)"

text \<open>The reward of one pool: protocol and staking fees, then owners of orders and providers by the volume they made. The result is the
  pool with its fees, the rewards of the owners, the token they gave and their volumes.\<close>

definition share_reward :: "Params \<Rightarrow> string \<Rightarrow> string \<Rightarrow> int \<Rightarrow> int \<times> int \<Rightarrow> (string \<times> int \<times> int) list \<Rightarrow> PoolPairState \<Rightarrow>
    (PoolPairState \<times> amounts \<times> string \<times> amounts) go" where
  "share_reward params pairID tokenID reward pairChange orderChange pair =
     (case AddStakingAndProtocolFee (pp_state pair) tokenID reward (pp_protocolFees pair) (pp_stakingPoolFees pair)
        (TradingProtocolFeePercent params) (TradingStakingPoolRewardPercent params) (StakingRewardTokens params) of
       (protocolFees, stakingPoolFees, remain) \<Rightarrow>
      (case GetMakingVolumes pairChange orderChange (Orderbook_NftIDs (pp_orderbook pair)) of
         (ammMakingVolume, orderMakingVolumes, tradeDirection) \<Rightarrow>
          go_bind (SplitTradingReward remain (trading_ratio params pairID) BPS ammMakingVolume orderMakingVolumes) (\<lambda>(ammReward, orderRewards).
          go_bind (AddLPFee (pp_state pair) tokenID ammReward BaseLPFeesPerShare (pp_lpFeesPerShare pair)) (\<lambda>lpFees.
            Inr (pair\<lparr>pp_protocolFees := protocolFees, pp_stakingPoolFees := stakingPoolFees, pp_lpFeesPerShare := lpFees\<rparr>, orderRewards,
              if tradeDirection = TradeDirectionSell0 then Token1ID (pp_state pair) else Token0ID (pp_state pair), orderMakingVolumes)))))"

definition share_hop :: "Params \<Rightarrow> string \<Rightarrow> int \<Rightarrow> fee_hop \<Rightarrow> fee_hop go" where
  "share_hop params tokenID reward h =
     go_bind (share_reward params (fh_pairID h) tokenID reward (fh_pairChange h) (change_entries (pp_orderbook (fh_pair h)) (fh_orderChanges h)) (fh_pair h))
       (\<lambda>(pair, orderRewards, makingToken, orderMakingVolumes).
         Inr (h\<lparr>fh_pair := pair, fh_rewardEarned := al_put tokenID (to_uint64 reward) (fh_rewardEarned h),
           fh_orderRewards := map (\<lambda>(nftID, r). (nftID, [(tokenID, r)])) orderRewards, fh_making := [(makingToken, orderMakingVolumes)]\<rparr>))"

text \<open>A fee in PRV is divided among the pools by their fee rates.\<close>

fun track_prv :: "Params \<Rightarrow> int \<Rightarrow> int \<Rightarrow> fee_hop list \<Rightarrow> fee_hop list go" where
  "track_prv params sumPoolFees feeRemain [] = Inr []"
| "track_prv params sumPoolFees feeRemain (h # hops) =
     go_bind (big_div (feeRemain * fh_poolFee h) sumPoolFees) (\<lambda>reward.
     go_bind (share_hop params PRVCoinID reward h) (\<lambda>h'.
     go_bind (track_prv params (to_uint64 (sumPoolFees - fh_poolFee h)) (to_uint64 (feeRemain - to_uint64 reward)) hops) (\<lambda>hops'.
       Inr (h' # hops'))))"

text \<open>Any other fee is paid in the sold token: each pool keeps its part, and the rest is swapped along the path.\<close>

definition fee_swap :: "int \<Rightarrow> fee_hop \<Rightarrow> (fee_hop \<times> int) go option" where
  "fee_swap sell h =
     run_bind (hop_loop add_change Orderbook_iterator (fh_direction h)
       \<lparr>sellAmountRemain = sell, totalBuyAmount = 0, accumulatedToken0Change = 0, accumulatedToken1Change = 0,
        reserve = pp_state (fh_pair h), book = pp_orderbook (fh_pair h), OrderChanges = fh_orderChanges h\<rparr>) (\<lambda>r.
       Some (Inr (h\<lparr>fh_pair := (fh_pair h)\<lparr>pp_state := reserve r, pp_orderbook := book r\<rparr>,
         fh_pairChange := (fst (fh_pairChange h) + accumulatedToken0Change r, snd (fh_pairChange h) + accumulatedToken1Change r),
         fh_orderChanges := OrderChanges r\<rparr>, totalBuyAmount r)))"

fun track_token :: "Params \<Rightarrow> int \<Rightarrow> int \<Rightarrow> fee_hop list \<Rightarrow> fee_hop list go option" where
  "track_token params sumPoolFees amountRemain [] = Some (Inr [])"
| "track_token params sumPoolFees amountRemain (h # hops) =
     run_bind (Some (big_div (amountRemain * fh_poolFee h) sumPoolFees)) (\<lambda>reward.
     let rewardToken = (if fh_direction h = TradeDirectionSell1 then Token1ID (pp_state (fh_pair h)) else Token0ID (pp_state (fh_pair h))) in
     run_bind (Some (share_hop params rewardToken reward h)) (\<lambda>h'.
     if hops = [] then Some (Inr [h'])
     else run_bind (fee_swap (to_uint64 (amountRemain - to_uint64 reward)) h') (\<lambda>(h2, buy).
       run_bind (track_token params (to_uint64 (sumPoolFees - fh_poolFee h)) buy hops) (\<lambda>hops'. Some (Inr (h2 # hops'))))))"

definition TrackFee :: "Params \<Rightarrow> int \<Rightarrow> bool \<Rightarrow> string \<Rightarrow> int \<Rightarrow> fee_hop list \<Rightarrow> fee_hop list go option" where
  "TrackFee params fee feeInPRV sellingTokenID feeRateBPS hops =
     (if feeInPRV \<or> sellingTokenID = PRVCoinID then Some (track_prv params feeRateBPS fee hops)
      else track_token params feeRateBPS fee hops)"

section \<open>The producer\<close>

definition getRefundedTradeInstructions :: "'r TradeRequest \<Rightarrow> bool \<Rightarrow> string \<Rightarrow> nat \<Rightarrow> 'r trade_inst list go" where
  "getRefundedTradeInstructions md feeInPRV txID shardID =
     (case td_Receiver md (td_TokenToSell md) of None \<Rightarrow> Inl (GoErr ''Refund receiver not found in Trade Request'')
      | Some refundReceiver \<Rightarrow>
        let selling = RefundedTradeInst \<lparr>rt_Receiver = refundReceiver, rt_TokenID = td_TokenToSell md,
              rt_Amount = (if feeInPRV then td_SellAmount md else to_uint64 (td_SellAmount md + td_TradingFee md))\<rparr> txID shardID in
        if feeInPRV
        then (case td_Receiver md PRVCoinID of None \<Rightarrow> Inl (GoErr ''Fee (PRV) Refund receiver not found in Trade Request'')
          | Some prvReceiver \<Rightarrow> Inr [selling, RefundedTradeInst \<lparr>rt_Receiver = prvReceiver, rt_TokenID = PRVCoinID, rt_Amount = td_TradingFee md\<rparr> txID shardID])
        else Inr [selling])"

text \<open>The clones after \<^verbatim>\<open>MaybeAcceptTrade\<close>, and writing them back.\<close>

definition start_hops :: "Params \<Rightarrow> (string \<times> PoolPairState \<times> nat) list \<Rightarrow> Orderbook AcceptedTrade \<Rightarrow> fee_hop list" where
  "start_hops params hops acc = map (\<lambda>((pairID, pair, d), tp, orders, c, cs).
     \<lparr>fh_pairID = pairID, fh_pair = pair\<lparr>pp_state := tp, pp_orderbook := orders\<rparr>, fh_direction = d, fh_poolFee = pool_fee params pairID,
      fh_pairChange = c, fh_orderChanges = cs, fh_rewardEarned = [], fh_orderRewards = [], fh_making = []\<rparr>)
     (zip hops (zip (acc_reserves acc) (zip (acc_books acc) (zip (acc_PairChanges acc) (acc_OrderChanges acc)))))"

definition mined_pool :: "Params \<Rightarrow> string \<Rightarrow> bool" where
  "mined_pool params pairID \<longleftrightarrow> map_of (PDEXRewardPoolPairsShare params) pairID \<noteq> None \<and> DAOContributingPercent params > 0"

definition write_hop :: "Params \<Rightarrow> pairs \<Rightarrow> fee_hop \<Rightarrow> pairs go" where
  "write_hop params pairs h = (case map_of pairs (fh_pairID h) of None \<Rightarrow> Inl GoPanic
     | Some changed \<Rightarrow> Inr (al_put (fh_pairID h) (changed\<lparr>pp_state := pp_state (fh_pair h),
         pp_orderRewards := addOrderReward (pp_orderRewards changed) (fh_orderRewards h),
         pp_makingVolume := (if mined_pool params (fh_pairID h) then addMakingVolume (pp_makingVolume changed) (fh_making h) else pp_makingVolume changed),
         pp_lpFeesPerShare := pp_lpFeesPerShare (fh_pair h), pp_protocolFees := pp_protocolFees (fh_pair h),
         pp_stakingPoolFees := pp_stakingPoolFees (fh_pair h), pp_orderbook := pp_orderbook (fh_pair h)\<rparr>) pairs))"

definition accepted_trade :: "'r \<Rightarrow> int \<Rightarrow> string list \<Rightarrow> string \<Rightarrow> fee_hop list \<Rightarrow> 'r AcceptedTradeContent" where
  "accepted_trade receiver amount tradePath tokenToBuy hops = \<lparr>at_Receiver = receiver, at_Amount = amount, at_TradePath = tradePath,
     at_TokenToBuy = tokenToBuy, at_PairChanges = map fh_pairChange hops, at_RewardEarned = map fh_rewardEarned hops,
     at_OrderChanges = map (\<lambda>h. change_entries (pp_orderbook (fh_pair h)) (fh_orderChanges h)) hops\<rparr>"

definition accept_trade :: "Params \<Rightarrow> bool \<Rightarrow> 'r trade_tx \<Rightarrow> pairs \<Rightarrow> (pairs \<times> 'r trade_inst) go option" where
  "accept_trade params feeInPRV tx pairs = (let md = tx_Metadata tx in
     run_bind (Some (TradePathFromState (td_TokenToSell md) (td_TradePath md) pairs)) (\<lambda>(hops, tokenToBuy).
     case td_Receiver md tokenToBuy of None \<Rightarrow> Some (Inl (GoErr ''no receiver''))
     | Some receiver \<Rightarrow>
       run_bind (MaybeAcceptTrade Orderbook_iterator (td_SellAmount md) 0 (map (\<lambda>(_, p, _). pp_state p) hops) (map (\<lambda>(_, _, d). d) hops)
           (td_MinAcceptableAmount md) (map (\<lambda>(_, p, _). pp_orderbook p) hops)) (\<lambda>acc.
       run_bind (TrackFee params (td_TradingFee md) feeInPRV (td_TokenToSell md) (to_uint64 (sum_list (map (pool_fee params) (td_TradePath md))))
           (start_hops params hops acc)) (\<lambda>hops'.
       run_bind (Some (go_foldl (write_hop params) pairs hops')) (\<lambda>pairs'.
         Some (Inr (pairs', AcceptedTradeInst (accepted_trade receiver (acc_Amount acc) (td_TradePath md) tokenToBuy hops') (tx_Hash tx) (tx_ShardID tx))))))))"

definition trade_tx_step :: "Params \<Rightarrow> pairs \<times> 'r trade_inst list \<Rightarrow> 'r trade_tx \<times> bool \<times> int \<Rightarrow> (pairs \<times> 'r trade_inst list) go option" where
  "trade_tx_step params = (\<lambda>(pairs, result) (tx, feeInPRV, fee). let md = tx_Metadata tx in
     run_bind (Some (getRefundedTradeInstructions md feeInPRV (tx_Hash tx) (tx_ShardID tx))) (\<lambda>refundInstructions.
     let refund = Some (Inr (pairs, result @ refundInstructions)) in
     if td_TradePath md = [] then refund
     else if fee * BPS < td_SellAmount md * to_uint64 (sum_list (map (pool_fee params) (td_TradePath md))) then refund
     else run_catch (accept_trade params feeInPRV tx pairs) refund (\<lambda>(pairs', inst). Some (Inr (pairs', result @ [inst])))))"

fun run_foldl :: "('s \<Rightarrow> 'a \<Rightarrow> 's go option) \<Rightarrow> 's \<Rightarrow> 'a list \<Rightarrow> 's go option" where
  "run_foldl f s [] = Some (Inr s)"
| "run_foldl f s (x # xs) = run_bind (f s x) (\<lambda>s'. run_foldl f s' xs)"

definition trade :: "('r trade_tx \<Rightarrow> bool) \<Rightarrow> Params \<Rightarrow> 'r trade_tx list \<Rightarrow> pairs \<Rightarrow> (pairs \<times> 'r trade_inst list) go option" where
  "trade burnsPRV params txs pairs =
     run_bind (Some (getWeightedFee burnsPRV txs pairs params)) (\<lambda>(valid, invalid).
     run_bind (run_foldl (trade_tx_step params) (pairs, []) (sort_stable higher_fee valid)) (\<lambda>(pairs', result).
       Some (go_foldl (\<lambda>(pairs, result) (tx, feeInPRV).
         go_bind (getRefundedTradeInstructions (tx_Metadata tx) feeInPRV (tx_Hash tx) (tx_ShardID tx)) (\<lambda>refund. Inr (pairs, result @ refund)))
         (pairs', result) invalid)))"

section \<open>The processor\<close>

definition process_reward :: "Params \<Rightarrow> string \<Rightarrow> int \<times> int \<Rightarrow> (string \<times> int \<times> int) list \<Rightarrow> PoolPairState \<Rightarrow> string \<times> int \<Rightarrow> PoolPairState go" where
  "process_reward params pairID pairChange orderChange pair = (\<lambda>(tokenID, amount).
     go_bind (share_reward params pairID tokenID amount pairChange orderChange pair) (\<lambda>(pair1, orderRewards, makingToken, orderMakingVolumes).
       Inr (pair1\<lparr>pp_makingVolume := (if mined_pool params pairID
           then let base = (if map_of (pp_makingVolume pair1) makingToken = None then al_put makingToken \<lparr>volume = []\<rparr> (pp_makingVolume pair1) else pp_makingVolume pair1) in
             foldl (\<lambda>b (nftID, amt). al_put makingToken (AddVolume nftID amt (the (map_of b makingToken))) b) base orderMakingVolumes
           else pp_makingVolume pair1),
         pp_orderRewards := credit_orders tokenID orderRewards (pp_orderRewards pair1)\<rparr>)))"

text \<open>\<^verbatim>\<open>ordersById\<close> keeps the last order of an identifier.\<close>

definition process_order_change :: "Orderbook \<Rightarrow> string \<times> int \<times> int \<Rightarrow> Orderbook go" where
  "process_order_change orders = (\<lambda>(orderID, c0, c1).
     case find (\<lambda>i. Id (orders ! i) = orderID) (rev [0..<length orders]) of None \<Rightarrow> Inl (GoErr ''Cannot find order ID for trade'')
     | Some i \<Rightarrow> go_bind (ApplyBalanceChanges c0 c1 (orders ! i)) (\<lambda>ord'. Inr (orders[i := ord'])))"

definition process_hop :: "Params \<Rightarrow> pairs \<Rightarrow> string \<times> (int \<times> int) \<times> amounts \<times> (string \<times> int \<times> int) list \<Rightarrow> pairs go" where
  "process_hop params pairs = (\<lambda>(pairID, pairChange, rewardEarned, orderChange).
     case map_of pairs pairID of None \<Rightarrow> Inl (GoErr ''Cannot find pair for trade'')
     | Some pair \<Rightarrow>
       go_bind (ApplyReserveChanges (fst pairChange) (snd pairChange) (pp_state pair)) (\<lambda>tp.
       go_bind (go_foldl (process_reward params pairID pairChange orderChange) (pair\<lparr>pp_state := tp\<rparr>) rewardEarned) (\<lambda>pair1.
       go_bind (go_foldl process_order_change (pp_orderbook pair1) orderChange) (\<lambda>orders.
         Inr (al_put pairID (pair1\<lparr>pp_orderbook := orders\<rparr>) pairs)))))"

text \<open>The lists of an instruction are indexed by the path; a list that is too short makes the index panic.\<close>

definition process_trade :: "Params \<Rightarrow> pairs \<Rightarrow> 'r AcceptedTradeContent \<Rightarrow> pairs go" where
  "process_trade params pairs md =
     (if length (at_PairChanges md) < length (at_TradePath md) \<or> length (at_RewardEarned md) < length (at_TradePath md) \<or>
         length (at_OrderChanges md) < length (at_TradePath md) then Inl GoPanic
      else go_foldl (process_hop params) pairs (zip (at_TradePath md) (zip (at_PairChanges md) (zip (at_RewardEarned md) (at_OrderChanges md)))))"

record trade_node =
  tn_pairs :: pairs
  tn_tracked :: "(string \<times> nat \<times> int \<times> string) list"

definition process_trade_inst :: "Params \<Rightarrow> trade_node \<Rightarrow> 'r trade_inst \<Rightarrow> trade_node go" where
  "process_trade_inst params n i = (case i of
       AcceptedTradeInst md txID _ \<Rightarrow> go_bind (process_trade params (tn_pairs n) md) (\<lambda>pairs.
         Inr (n\<lparr>tn_pairs := pairs, tn_tracked := tn_tracked n @ [(txID, 1, at_Amount md, at_TokenToBuy md)]\<rparr>))
     | RefundedTradeInst _ txID _ \<Rightarrow> Inr (n\<lparr>tn_tracked := tn_tracked n @ [(txID, 0, 0, replicate 64 CHR ''0'')]\<rparr>))"

end
