(* ===== verification/Pdex_Trade_Replay.thy ===== *)
theory Pdex_Trade_Replay
  imports Pdex_Trade_Handlers
begin

text \<open>
  Producer and processor of trades: the changes that an accepted trade records are those of its pools and orders, a fee in PRV is shared
  out exactly, and a node that processes the instruction of a trade gets the pools of the producer.
\<close>

section \<open>The recorded changes\<close>

text \<open>Changes of a trade in one direction: both tokens change, in opposite directions, or none.\<close>

definition dir_change :: "nat \<Rightarrow> int \<times> int \<Rightarrow> bool" where
  "dir_change d = (\<lambda>(a, b). if d = TradeDirectionSell0 then a = 0 \<and> b = 0 \<or> 0 < a \<and> b < 0 else a = 0 \<and> b = 0 \<or> a < 0 \<and> 0 < b)"

lemma dir_change_add: "dir_change d (a, b) \<Longrightarrow> dir_change d (a', b') \<Longrightarrow> dir_change d (a + a', b + b')"
  by (auto simp: dir_change_def split: if_splits)

lemma dir_change_opposite: "dir_change d (a, b) \<Longrightarrow> opposite_signs a b"
  by (auto simp: dir_change_def opposite_signs_iff split: if_splits)

lemma changes_dir: "0 \<le> s \<Longrightarrow> 0 \<le> b \<Longrightarrow> (c0, c1) = changes_for d s b \<Longrightarrow> opposite_signs c0 c1 \<Longrightarrow> dir_change d (c0, c1)"
  by (auto simp: dir_change_def changes_for_def opposite_signs_iff split: if_splits)

text \<open>The book after a trade: every order is the old one with its recorded change.\<close>

definition changed :: "(int \<times> int) option \<Rightarrow> Pdexv3Order \<Rightarrow> Pdexv3Order" where
  "changed c ord = (case c of None \<Rightarrow> ord | Some (a, b) \<Rightarrow> filled ord a b)"

definition tracks :: "nat \<Rightarrow> Orderbook \<Rightarrow> (string \<rightharpoonup> int \<times> int) \<Rightarrow> Orderbook \<Rightarrow> bool" where
  "tracks d os0 cs os \<longleftrightarrow> os = map (\<lambda>ord. changed (cs (Id ord)) ord) os0 \<and> (\<forall>c \<in> ran cs. dir_change d c) \<and> distinct (map Id os0)"

lemma changed_simps [simp]: "Id (changed c ord) = Id ord" "NftID (changed c ord) = NftID ord"
  by (auto simp: changed_def split: option.splits)

lemma tracks_ids: "tracks d os0 cs os \<Longrightarrow> map Id os = map Id os0"
  by (auto simp: tracks_def)

lemma tracks_start: "distinct (map Id os) \<Longrightarrow> tracks d os Map.empty os"
  by (simp add: tracks_def changed_def)

lemma tracks_match:
  assumes "tracks d os0 cs os" and "k < length os" and "cs (Id (os ! k)) = None" and "dir_change d c"
  shows "tracks d os0 (cs(Id (os ! k) \<mapsto> c)) (os[k := filled (os ! k) (fst c) (snd c)])"
proof -
  have len: "length os = length os0" and nth: "\<And>j. j < length os0 \<Longrightarrow> os ! j = changed (cs (Id (os0 ! j))) (os0 ! j)" using assms(1) by (auto simp: tracks_def)
  have k: "k < length os0" using len assms(2) by simp
  have idk: "Id (os ! k) = Id (os0 ! k)" using nth [OF k] by simp
  then have "os ! k = os0 ! k" using nth [OF k] assms(3) by (simp add: changed_def)
  have "os[k := filled (os ! k) (fst c) (snd c)] = map (\<lambda>ord. changed ((cs(Id (os ! k) \<mapsto> c)) (Id ord)) ord) os0"
  proof (rule nth_equalityI)
    fix j assume "j < length (os[k := filled (os ! k) (fst c) (snd c)])"
    then have j: "j < length os0" using len by simp
    have "Id (os0 ! j) = Id (os0 ! k) \<longleftrightarrow> j = k"
      using assms(1) j k nth_eq_iff_index_eq [of "map Id os0" j k] by (auto simp: tracks_def)
    then show "os[k := filled (os ! k) (fst c) (snd c)] ! j = map (\<lambda>ord. changed ((cs(Id (os ! k) \<mapsto> c)) (Id ord)) ord) os0 ! j"
      using j k len nth [OF j] idk \<open>os ! k = os0 ! k\<close> by (auto simp: nth_list_update changed_def split: prod.splits)
  qed (simp add: len)
  moreover have "ran (cs(Id (os ! k) \<mapsto> c)) \<subseteq> insert c (ran cs)" by (auto simp: ran_def split: if_splits)
  ultimately show ?thesis using assms(1,4) by (auto simp: tracks_def)
qed

lemma Match_opposite:
  assumes "Match m d ord = Inr (b, r, c0, c1, ord')"
  shows "opposite_signs c0 c1"
proof -
  have "finish_match ord d x y z = Inr (b, r, c0, c1, ord') \<Longrightarrow> opposite_signs c0 c1" for x y z
    by (auto simp: finish_match_def ApplyBalanceChanges_def Let_def split: prod.splits if_splits)
  then show ?thesis using assms by (auto simp: Match_def match_with_def Let_def split: if_splits)
qed

lemma hop_swap_dir:
  assumes "hop_swap d ord h = Inr h'" and "hop_ok orders h" and "dir_change d (accumulatedToken0Change h, accumulatedToken1Change h)"
  shows "dir_change d (accumulatedToken0Change h', accumulatedToken1Change h')" and "OrderChanges h' = OrderChanges h" and "book h' = book h"
proof -
  from assms(1) obtain b r c0 c1 tp' t where s: "SwapToReachOrderRate (sellAmountRemain h) d ord (reserve h) = Inr (b, r, c0, c1, tp')" and
    h': "h' = h\<lparr>sellAmountRemain := r, totalBuyAmount := t, accumulatedToken0Change := accumulatedToken0Change h + c0,
              accumulatedToken1Change := accumulatedToken1Change h + c1, reserve := tp'\<rparr>"
    by (auto simp: hop_swap_def go_bind_def split: sum.splits)
  from s have "dir_change d (c0, c1)"
  proof (cases rule: swap_cases)
    case (sell sold)
    then show ?thesis by (auto simp: pool_swap_def dir_change_def changes_for_def split: if_splits)
  qed (simp add: dir_change_def)
  from dir_change_add [OF assms(3) this] h' show "dir_change d (accumulatedToken0Change h', accumulatedToken1Change h')"
    "OrderChanges h' = OrderChanges h" "book h' = book h" by simp_all
qed

text \<open>While the loop runs, orders with a recorded change cannot be matched again.\<close>

definition loop_inv :: "nat \<Rightarrow> Orderbook \<Rightarrow> Orderbook hop \<Rightarrow> bool" where
  "loop_inv d os0 h \<longleftrightarrow> hop_ok (\<lambda>os. os) h \<and> tracks d os0 (OrderChanges h) (book h) \<and>
     dir_change d (accumulatedToken0Change h, accumulatedToken1Change h) \<and>
     (\<forall>ord \<in> set (book h). OrderChanges h (Id ord) \<noteq> None \<longrightarrow> CanMatch ord d \<noteq> Inr True)"

definition loop_done :: "nat \<Rightarrow> Orderbook \<Rightarrow> Orderbook hop \<Rightarrow> bool" where
  "loop_done d os0 h \<longleftrightarrow> tracks d os0 (OrderChanges h) (book h) \<and> dir_change d (accumulatedToken0Change h, accumulatedToken1Change h)"

lemma loop_inv_swap:
  assumes "loop_inv d os0 h" and "hop_swap d ord h = Inr h1"
  shows "loop_inv d os0 h1"
  using assms hop_swap_ok(1) [OF assms(2)] hop_swap_dir [OF assms(2)] by (auto simp: loop_inv_def)

lemma loop_inv_match:
  assumes inv: "loop_inv d os0 h" and m: "hop_match set_change d ord i put h = Inr h2"
    and k: "k < length (book h)" "ord = book h ! k" "i = Id ord" "\<And>o'. put o' = (book h)[k := o']" "CanMatch ord d = Inr True"
  shows "loop_done d os0 h2 \<and> (sellAmountRemain h2 \<noteq> 0 \<longrightarrow> loop_inv d os0 h2)"
proof -
  from m obtain b r c0 c1 ord' t where
    mt: "Match (sellAmountRemain h) d ord = Inr (b, r, c0, c1, ord')" and
    h2: "h2 = h\<lparr>sellAmountRemain := r, totalBuyAmount := t, book := put ord', OrderChanges := (OrderChanges h)(i \<mapsto> (c0, c1))\<rparr>"
    by (auto simp: hop_match_def set_change_def go_bind_def split: sum.splits)
  have ok: "hop_ok (\<lambda>os. os) h" "tracks d os0 (OrderChanges h) (book h)" using inv by (auto simp: loop_inv_def)
  have "order_ok ord" "0 \<le> sellAmountRemain h" using ok(1) k(1,2) by (auto simp: hop_ok_def IsUint64_def)
  note st = match_step [OF this mt]
  have c: "dir_change d (c0, c1)" using changes_dir [OF _ _ st(5) Match_opposite [OF mt]] st(3,4) by (simp add: IsUint64_def)
  have none: "OrderChanges h (Id (book h ! k)) = None"
  proof (rule ccontr)
    assume "OrderChanges h (Id (book h ! k)) \<noteq> None"
    then have "CanMatch (book h ! k) d \<noteq> Inr True" using inv nth_mem [OF k(1)] unfolding loop_inv_def by blast
    then show False using k(2,5) by simp
  qed
  have tr: "tracks d os0 (OrderChanges h2) (book h2)" using tracks_match [OF ok(2) k(1) none c] k h2 st(6) by simp
  have dn: "loop_done d os0 h2" using inv tr h2 by (simp add: loop_inv_def loop_done_def)
  have ids: "distinct (map Id (book h))" using ok(2) unfolding tracks_ids [OF ok(2)] by (simp add: tracks_def)
  have "loop_inv d os0 h2" if "r \<noteq> 0"
  proof -
    have nm: "CanMatch ord' d \<noteq> Inr True" using st(2,7) that by simp
    have "CanMatch x d \<noteq> Inr True" if x: "x \<in> set (book h2)" "OrderChanges h2 (Id x) \<noteq> None" for x
    proof (cases "x = ord'")
      case False
      from x(1) h2 k(4) obtain j where j: "j < length (book h)" "x = (book h)[k := ord'] ! j" by (auto simp: in_set_conv_nth)
      with False have jk: "j \<noteq> k" "x = book h ! j" using k(1) by (auto simp: nth_list_update)
      then have "Id x \<noteq> Id ord" using ids j(1) k(1,2) nth_eq_iff_index_eq [of "map Id (book h)" j k] by auto
      then have "OrderChanges h (Id x) \<noteq> None" using x(2) h2 k(3) by simp
      then show ?thesis using inv j(1) jk(2) by (auto simp: loop_inv_def)
    qed (use nm in simp)
    moreover have "hop_ok (\<lambda>os. os) h2" using hop_match_ok(1) [OF m ok(1) k(1,2)] k(4) by simp
    ultimately show ?thesis using tr dn by (auto simp: loop_inv_def loop_done_def)
  qed
  then show ?thesis using dn h2 by simp
qed

lemma hop_loop_tracks:
  assumes "hop_loop set_change Orderbook_iterator d h = Some (Inr h')" and "loop_inv d os0 h"
  shows "loop_done d os0 h'"
proof -
  define P where "P = (\<lambda>(upd :: change_rule) (nxt :: Orderbook order_iterator) d h (r :: Orderbook hop go). upd = set_change \<longrightarrow> nxt = Orderbook_iterator \<longrightarrow> r = Inr h' \<longrightarrow> loop_inv d os0 h \<longrightarrow> loop_done d os0 h')"
  have "P set_change Orderbook_iterator d h (Inr h')"
  proof (rule hop_loop.raw_induct [where P = P, OF _ assms(1)], goal_cases)
    case (1 loop upd nxt d h r)
    show ?case unfolding P_def
    proof (intro impI)
      assume a: "upd = set_change" "nxt = Orderbook_iterator" "r = Inr h'" and inv: "loop_inv d os0 h"
      have ok: "\<forall>ord \<in> set (book h). order_ok ord" using inv by (simp add: loop_inv_def hop_ok_def)
      note step = 1(2) [unfolded a]
      show "loop_done d os0 h'"
      proof (cases "Orderbook_iterator (book h) d")
        case (Inl e)
        then show ?thesis using step inv by (cases e) (auto simp: loop_inv_def loop_done_def)
      next
        case ptr: (Inr ptr)
        note step1 = step [unfolded ptr sum.case]
        then obtain h1 where h1: "hop_swap d (map_option fst ptr) h = Inr h1" by (cases "hop_swap d (map_option fst ptr) h") auto
        note inv1 = loop_inv_swap [OF inv h1]
        note step2 = step1 [unfolded h1 sum.case]
        show ?thesis
        proof (cases "sellAmountRemain h1 = 0")
          case True
          then show ?thesis using step2 inv1 by (auto simp: loop_inv_def loop_done_def)
        next
          case False
          show ?thesis
          proof (cases ptr)
            case None
            then show ?thesis using step2 False 1(1) [of set_change Orderbook_iterator d h1 "Inr h'", unfolded P_def] inv1 by simp
          next
            case (Some p)
            obtain ord i put where p: "p = (ord, i, put)" by (cases p)
            from orderbook.next_in_book [OF ok, of d ord i put] ptr Some p obtain k where k: "CanMatch ord d = Inr True" "i = Id ord" "k < length (book h)"
              "ord = book h ! k" "\<And>o'. put o' = (book h)[k := o']" by blast
            have b1: "book h1 = book h" using hop_swap_dir(3) [OF h1] inv by (auto simp: loop_inv_def)
            note step3 = step2 [unfolded Some option.case if_not_P [OF False] p fst_conv snd_conv]
            then obtain h2 where h2: "hop_match set_change d ord i put h1 = Inr h2" by (cases "hop_match set_change d ord i put h1") auto
            note mt = loop_inv_match [OF inv1 h2, of k, unfolded b1, OF k(3,4,2) _ k(1)]
            show ?thesis using step3 h2 mt k(5) 1(1) [of set_change Orderbook_iterator d h2 "Inr h'", unfolded P_def] by (cases "sellAmountRemain h2 = 0") auto
          qed
        qed
      qed
    qed
  qed
  then show ?thesis using assms(2) by (simp add: P_def)
qed

section \<open>The pools of a path\<close>

definition hop_done :: "Pdexv3PoolPair \<times> nat \<times> Orderbook \<Rightarrow> Pdexv3PoolPair \<times> Orderbook \<times> (int \<times> int) \<times> (string \<rightharpoonup> int \<times> int) \<Rightarrow> bool" where
  "hop_done = (\<lambda>(tp, d, os) (tp', os', c, cs). tp' = swapped tp (fst c) (snd c) \<and> pool_ok tp' \<and> dir_change d c \<and> tracks d os cs os' \<and>
     (\<forall>ord \<in> set os'. order_ok ord))"

definition acc_added :: "Orderbook AcceptedTrade \<Rightarrow> (Pdexv3PoolPair \<times> Orderbook \<times> (int \<times> int) \<times> (string \<rightharpoonup> int \<times> int)) list \<Rightarrow> Orderbook AcceptedTrade \<Rightarrow> bool" where
  "acc_added acc new acc' \<longleftrightarrow> acc_reserves acc' = acc_reserves acc @ map fst new \<and> acc_books acc' = acc_books acc @ map (\<lambda>r. fst (snd r)) new \<and>
     acc_PairChanges acc' = acc_PairChanges acc @ map (\<lambda>r. fst (snd (snd r))) new \<and> acc_OrderChanges acc' = acc_OrderChanges acc @ map (\<lambda>r. snd (snd (snd r))) new"

lemma trade_path_done:
  assumes "path_ok (\<lambda>os. os) path" and "\<forall>(tp, d, os) \<in> set path. distinct (map Id os)" and "IsUint64 sell"
    and "trade_path Orderbook_iterator sell acc path = Some (Inr acc')"
  shows "\<exists>new. list_all2 hop_done path new \<and> acc_added acc new acc'"
  using assms
proof (induction path arbitrary: sell acc)
  case Nil
  then show ?case by (auto simp: acc_added_def)
next
  case (Cons hop path)
  obtain tp d os where hop: "hop = (tp, d, os)" by (cases hop)
  have d: "d \<in> {TradeDirectionSell0, TradeDirectionSell1}" and ids: "distinct (map Id os)" and path: "path_ok (\<lambda>os. os) path"
    using Cons.prems(1,2) hop by (auto simp: path_ok_def)
  have ok: "hop_ok (\<lambda>os. os) (start_hop sell tp os)" using orderbook.start_hop_ok Cons.prems(1,3) hop by simp
  from orderbook.hop_loop_ends [OF ok d] obtain r where r: "hop_loop set_change Orderbook_iterator d (start_hop sell tp os) = Some r" and
    e: "\<forall>h'. r = Inr h' \<longrightarrow> hop_ok (\<lambda>os. os) h' \<and> hop_keeps d (\<lambda>os. os) (start_hop sell tp os) h' \<and> sellAmountRemain h' = 0" by blast
  from Cons.prems(4) hop r obtain h where h: "r = Inr h" "trade_path Orderbook_iterator (totalBuyAmount h) (add_hop h acc) path = Some (Inr acc')"
    by (cases r) auto
  from e h(1) have hk: "hop_ok (\<lambda>os. os) h" "hop_keeps d (\<lambda>os. os) (start_hop sell tp os) h" by auto
  have "loop_inv d os (start_hop sell tp os)" using ok ids tracks_start [OF ids, of d] by (simp add: loop_inv_def start_hop_def dir_change_def)
  from hop_loop_tracks [OF r [unfolded h(1)] this] have dn: "loop_done d os h" .
  have "reserve h = swapped tp (accumulatedToken0Change h) (accumulatedToken1Change h)" using hk(2) by (auto simp: hop_keeps_def start_hop_def)
  then have "hop_done hop (reserve h, book h, (accumulatedToken0Change h, accumulatedToken1Change h), OrderChanges h)"
    using hk(1) dn hop by (simp add: hop_done_def loop_done_def hop_ok_def)
  moreover have "\<forall>(tp, d, os) \<in> set path. distinct (map Id os)" "IsUint64 (totalBuyAmount h)" using Cons.prems(2) hk(1) by (auto simp: hop_ok_def)
  from Cons.IH [OF path this h(2)] obtain new where "list_all2 hop_done path new" "acc_added (add_hop h acc) new acc'" by blast
  ultimately show ?case
    by (intro exI [of _ "(reserve h, book h, (accumulatedToken0Change h, accumulatedToken1Change h), OrderChanges h) # new"]) (simp add: acc_added_def add_hop_def)
qed

text \<open>The clones of the path after the trade.\<close>

definition hop_start :: "Params \<Rightarrow> string \<times> PoolPairState \<times> nat \<Rightarrow> fee_hop \<Rightarrow> bool" where
  "hop_start params = (\<lambda>(pairID, pair, d) h. fh_pairID h = pairID \<and> fh_direction h = d \<and> fh_poolFee h = pool_fee params pairID \<and>
     fh_rewardEarned h = [] \<and> fh_orderRewards h = [] \<and> fh_making h = [] \<and>
     fh_pair h = pair\<lparr>pp_state := pp_state (fh_pair h), pp_orderbook := pp_orderbook (fh_pair h)\<rparr> \<and>
     hop_done (pp_state pair, d, pp_orderbook pair) (pp_state (fh_pair h), pp_orderbook (fh_pair h), fh_pairChange h, fh_orderChanges h))"

definition clone_ok :: "string \<times> PoolPairState \<times> nat \<Rightarrow> bool" where
  "clone_ok = (\<lambda>(pairID, pair, d). pool_ok (pp_state pair) \<and> (\<forall>ord \<in> set (pp_orderbook pair). order_ok ord) \<and> distinct (map Id (pp_orderbook pair)) \<and>
     d \<in> {TradeDirectionSell0, TradeDirectionSell1})"

lemma start_hops_done:
  assumes "\<forall>x \<in> set hops. clone_ok x" and "IsUint64 sell"
    and "MaybeAcceptTrade Orderbook_iterator sell 0 (map (\<lambda>(_, p, _). pp_state p) hops) (map (\<lambda>(_, _, d). d) hops) mn (map (\<lambda>(_, p, _). pp_orderbook p) hops) = Some (Inr acc)"
  shows "list_all2 (hop_start params) hops (start_hops params hops acc)"
proof -
  let ?path = "map (\<lambda>(_, p, d). (pp_state p, d, pp_orderbook p)) hops"
  have z: "zip (map (\<lambda>(_, p, _). pp_state p) hops) (zip (map (\<lambda>(_, _, d). d) hops) (map (\<lambda>(_, p, _). pp_orderbook p) hops)) = ?path"
    by (induction hops) auto
  have t: "trade_path Orderbook_iterator sell empty_trade ?path = Some (Inr acc)"
    using assms(3) by (auto simp: MaybeAcceptTrade_def z split: option.splits sum.splits if_splits)
  have "path_ok (\<lambda>os. os) ?path" "\<forall>(tp, d, os) \<in> set ?path. distinct (map Id os)" using assms(1) by (auto simp: path_ok_def clone_ok_def)
  from trade_path_done [OF this assms(2) t] obtain new where new: "list_all2 hop_done ?path new" "acc_added empty_trade new acc" by blast
  have zn: "zip (acc_reserves acc) (zip (acc_books acc) (zip (acc_PairChanges acc) (acc_OrderChanges acc))) = new"
  proof -
    have "zip (map fst xs) (zip (map (\<lambda>r. fst (snd r)) xs) (zip (map (\<lambda>r. fst (snd (snd r))) xs) (map (\<lambda>r. snd (snd (snd r))) xs))) = xs"
      for xs :: "(Pdexv3PoolPair \<times> Orderbook \<times> (int \<times> int) \<times> (string \<rightharpoonup> int \<times> int)) list" by (induction xs) auto
    then show ?thesis using new(2) by (simp add: acc_added_def empty_trade_def)
  qed
  from new(1) have "list_all2 (\<lambda>(_, p, d) r. hop_done (pp_state p, d, pp_orderbook p) r) hops new"
    by (simp add: list_all2_map1 case_prod_beta')
  then show ?thesis unfolding start_hops_def zn
    by (induction rule: list_all2_induct) (auto simp: hop_start_def split: prod.splits)
qed

section \<open>The reward of a pool\<close>

lemma NftIDs_fold:
  assumes "map Id os = map Id os'" and "map NftID os = map NftID os'"
  shows "foldl (\<lambda>m ord. m(Id ord \<mapsto> NftID ord)) m os = foldl (\<lambda>m ord. m(Id ord \<mapsto> NftID ord)) m os'"
  using assms
proof (induction os arbitrary: os' m)
  case (Cons ord os)
  then obtain ord' os2 where os': "os' = ord' # os2" by (cases os') auto
  then have "Id ord = Id ord'" "NftID ord = NftID ord'" "map Id os = map Id os2" "map NftID os = map NftID os2" using Cons.prems by simp_all
  then show ?case using Cons.IH [of os2 "m(Id ord \<mapsto> NftID ord)"] by (simp only: os' foldl_Cons)
qed simp

lemma tracks_nfts: "tracks d os0 cs os \<Longrightarrow> Orderbook_NftIDs os = Orderbook_NftIDs os0"
  unfolding Orderbook_NftIDs_def by (rule NftIDs_fold) (auto simp: tracks_def)

text \<open>The reward depends on the pool through its state, its fees and the owners of its orders only.\<close>

definition share_core :: "Params \<Rightarrow> string \<Rightarrow> string \<Rightarrow> int \<Rightarrow> int \<times> int \<Rightarrow> (string \<times> int \<times> int) list \<Rightarrow> (string \<rightharpoonup> string) \<Rightarrow> Pdexv3PoolPair \<Rightarrow> amounts \<Rightarrow> amounts \<Rightarrow> amounts \<Rightarrow>
    (amounts \<times> amounts \<times> amounts \<times> amounts \<times> string \<times> amounts) go" where
  "share_core params k t r c es nfts st P S L =
     (case AddStakingAndProtocolFee st t r P S (TradingProtocolFeePercent params) (TradingStakingPoolRewardPercent params) (StakingRewardTokens params) of (P', S', rem) \<Rightarrow>
      case GetMakingVolumes c es nfts of (amm, vs, dd) \<Rightarrow>
      go_bind (SplitTradingReward rem (trading_ratio params k) BPS amm vs) (\<lambda>(a, rs).
      go_bind (AddLPFee st t a BaseLPFeesPerShare L) (\<lambda>L'. Inr (P', S', L', rs, if dd = TradeDirectionSell0 then Token1ID st else Token0ID st, vs))))"

lemma share_reward_core:
  "share_reward params k t r c es pair =
     go_bind (share_core params k t r c es (Orderbook_NftIDs (pp_orderbook pair)) (pp_state pair) (pp_protocolFees pair) (pp_stakingPoolFees pair) (pp_lpFeesPerShare pair))
       (\<lambda>(P, S, L, rs, mt, vs). Inr (pair\<lparr>pp_protocolFees := P, pp_stakingPoolFees := S, pp_lpFeesPerShare := L\<rparr>, rs, mt, vs))"
proof -
  obtain P S rem where f: "AddStakingAndProtocolFee (pp_state pair) t r (pp_protocolFees pair) (pp_stakingPoolFees pair)
        (TradingProtocolFeePercent params) (TradingStakingPoolRewardPercent params) (StakingRewardTokens params) = (P, S, rem)" by (metis prod_cases3)
  obtain amm vs dd where v: "GetMakingVolumes c es (Orderbook_NftIDs (pp_orderbook pair)) = (amm, vs, dd)" by (metis prod_cases3)
  show ?thesis
  proof (cases "SplitTradingReward rem (trading_ratio params k) BPS amm vs")
    case (Inr x)
    obtain a rs where x: "x = (a, rs)" by force
    show ?thesis using f v Inr x by (cases "AddLPFee (pp_state pair) t a BaseLPFeesPerShare (pp_lpFeesPerShare pair)") (simp_all add: share_reward_def share_core_def)
  qed (use f v in \<open>simp add: share_reward_def share_core_def\<close>)
qed

lemma share_reward_fields:
  assumes "share_reward params k t r c es pair = Inr (p', rs, mt, vs)"
  obtains P S L where "share_core params k t r c es (Orderbook_NftIDs (pp_orderbook pair)) (pp_state pair) (pp_protocolFees pair) (pp_stakingPoolFees pair) (pp_lpFeesPerShare pair) =
      Inr (P, S, L, rs, mt, vs)" "p' = pair\<lparr>pp_protocolFees := P, pp_stakingPoolFees := S, pp_lpFeesPerShare := L\<rparr>"
  using assms by (auto simp: share_reward_core)

lemma split_loop_returns:
  assumes "\<forall>v \<in> snd ` set vs. 0 \<le> v"
  shows "\<exists>out. split_loop r (sum_list (map snd vs)) vs = Inr out"
  using assms
proof (induction vs arbitrary: r)
  case (Cons kv vs)
  obtain k v where kv: "kv = (k, v)" by force
  have v: "0 \<le> v" and w: "0 \<le> sum_list (map snd vs)" using Cons.prems kv by (auto intro!: sum_list_nonneg)
  define x where "x = (if v > 0 then r * v div (v + sum_list (map snd vs)) else 0)"
  have "(if v > 0 then big_div (r * v) (v + sum_list (map snd vs)) else Inr 0) = Inr x" using w by (simp add: x_def)
  moreover obtain out where "split_loop (r - x) (sum_list (map snd vs)) vs = Inr out" using Cons by auto
  ultimately show ?case using kv by simp
qed simp

lemma SplitTradingReward_returns:
  assumes "0 \<le> ratio" and "0 \<le> amm" and "\<forall>v \<in> snd ` set vs. 0 \<le> v"
  shows "\<exists>a rs. SplitTradingReward r ratio BPS amm vs = Inr (a, rs)"
proof (cases "ratio = 0")
  case False
  let ?ws = "map (\<lambda>(n, a). (n, a * ratio)) vs"
  have nn: "\<forall>v \<in> snd ` set (by_key ?ws). 0 \<le> v" using assms by (auto simp: by_key_props)
  have "0 \<le> sum_list (map snd ?ws)" using assms by (intro sum_list_nonneg) auto
  then have "\<exists>x. (if amm * BPS > 0 then big_div (r * (amm * BPS)) (amm * BPS + sum_list (map snd ?ws)) else Inr 0) = Inr x" by (simp add: big_div_def)
  then obtain x where x: "(if amm * BPS > 0 then big_div (r * (amm * BPS)) (amm * BPS + sum_list (map snd ?ws)) else Inr 0) = Inr x" by blast
  obtain out where out: "split_loop (r - x) (sum_list (map snd ?ws)) (by_key ?ws) = Inr out" using split_loop_returns [OF nn] by (auto simp: by_key_props(3))
  show ?thesis unfolding SplitTradingReward_def if_not_P [OF False] Let_def x go_bind_simps add_diff_cancel_left' out by simp
qed (simp add: SplitTradingReward_def)

lemma add_volume_nonneg: "\<forall>v \<in> snd ` set vs. 0 \<le> v \<Longrightarrow> 0 \<le> a \<Longrightarrow> \<forall>v \<in> snd ` set (add_volume n a vs). 0 \<le> v"
  by (induction vs) (auto split: if_splits, fastforce+)

lemma volumes_nonneg:
  assumes "\<forall>v \<in> snd ` set vs. 0 \<le> v" and "\<forall>(i, c) \<in> set es. 0 \<le> getMakingAmountFromChange c"
  shows "\<forall>v \<in> snd ` set (foldl (\<lambda>vs (i, c). add_volume (f i) (getMakingAmountFromChange c) vs) vs es). 0 \<le> v"
  using assms
proof (induction es arbitrary: vs)
  case (Cons e es)
  obtain i c where e: "e = (i, c)" by (cases e)
  have "\<forall>v \<in> snd ` set (add_volume (f i) (getMakingAmountFromChange c) vs). 0 \<le> v" using Cons.prems e by (intro add_volume_nonneg) auto
  from Cons.IH [OF this] Cons.prems show ?case by (simp add: e)
qed simp

lemma dir_change_making: "dir_change d c \<Longrightarrow> 0 \<le> getMakingAmountFromChange c"
  by (auto simp: dir_change_def getMakingAmountFromChange_def split: if_splits prod.splits)

lemma share_reward_returns:
  assumes "0 \<le> trading_ratio params k" and "dir_change d c" and "\<forall>(i, x) \<in> set es. dir_change d x"
  obtains P S L rs mt vs where "share_reward params k t r c es pair = Inr (pair\<lparr>pp_protocolFees := P, pp_stakingPoolFees := S, pp_lpFeesPerShare := L\<rparr>, rs, mt, vs)"
proof -
  obtain P S rem where f: "AddStakingAndProtocolFee (pp_state pair) t r (pp_protocolFees pair) (pp_stakingPoolFees pair)
        (TradingProtocolFeePercent params) (TradingStakingPoolRewardPercent params) (StakingRewardTokens params) = (P, S, rem)" by (metis prod_cases3)
  obtain amm vs dd where v: "GetMakingVolumes c es (Orderbook_NftIDs (pp_orderbook pair)) = (amm, vs, dd)" by (metis prod_cases3)
  have "\<forall>(i, x) \<in> set es. 0 \<le> getMakingAmountFromChange x" using assms(3) dir_change_making by fastforce
  note nn = volumes_nonneg [OF _ this, of "[]" "\<lambda>i. case Orderbook_NftIDs (pp_orderbook pair) i of None \<Rightarrow> [] | Some n \<Rightarrow> n"]
  have "amm = getMakingAmountFromChange c"
    "vs = foldl (\<lambda>vs (i, c). add_volume (case Orderbook_NftIDs (pp_orderbook pair) i of None \<Rightarrow> [] | Some n \<Rightarrow> n) (getMakingAmountFromChange c) vs) [] es"
    using v by (simp_all add: GetMakingVolumes_def)
  then have "0 \<le> amm" "\<forall>v \<in> snd ` set vs. 0 \<le> v" using nn dir_change_making [OF assms(2)] by simp_all
  from SplitTradingReward_returns [OF assms(1) this] obtain a rs where s: "SplitTradingReward rem (trading_ratio params k) BPS amm vs = Inr (a, rs)" by blast
  have "\<exists>L. AddLPFee (pp_state pair) t a BaseLPFeesPerShare (pp_lpFeesPerShare pair) = Inr L" by (auto simp: AddLPFee_def big_div_def)
  then obtain L where "AddLPFee (pp_state pair) t a BaseLPFeesPerShare (pp_lpFeesPerShare pair) = Inr L" by blast
  then show thesis using f v s by (intro that) (simp add: share_reward_def)
qed

section \<open>Applying the changes of an instruction\<close>

lemma find_unique:
  assumes "x \<in> set xs" and "P x" and "\<And>y. y \<in> set xs \<Longrightarrow> P y \<Longrightarrow> y = x"
  shows "find P xs = Some x"
  using assms(1,3)
proof (induction xs)
  case (Cons a xs)
  show ?case
  proof (cases "P a")
    case True
    then show ?thesis using Cons.prems(2) [of a] by simp
  next
    case False
    then have "x \<in> set xs" using Cons.prems(1) assms(2) by auto
    then show ?thesis using Cons.IH Cons.prems(2) False by simp
  qed
qed simp

lemma find_order:
  assumes "distinct (map Id os)" and "k < length os"
  shows "find (\<lambda>i. Id (os ! i) = Id (os ! k)) (rev [0..<length os]) = Some k"
proof (rule find_unique)
  fix i assume "i \<in> set (rev [0..<length os])" "Id (os ! i) = Id (os ! k)"
  then show "i = k" using assms nth_eq_iff_index_eq [OF assms(1), of i k] by simp
qed (use assms in simp_all)

lemma ApplyBalanceChanges_filled:
  assumes "opposite_signs a b" and "order_ok (filled ord a b)"
  shows "ApplyBalanceChanges a b ord = Inr (filled ord a b)"
  using assms by (auto simp: ApplyBalanceChanges_def filled_def order_ok_def IsUint64_def Let_def)

lemma ApplyReserveChanges_swapped:
  assumes "opposite_signs a b" and "pool_ok (swapped tp a b)"
  shows "ApplyReserveChanges a b tp = Inr (swapped tp a b)"
  using assms by (auto simp: ApplyReserveChanges_def swapped_def pool_ok_def IsUint64_def Let_def)

lemma process_changes_rest:
  assumes "distinct (map Id (pre @ os))" and "\<forall>c \<in> ran cs. dir_change d c" and "\<forall>ord \<in> set os. order_ok (changed (cs (Id ord)) ord)"
  shows "go_foldl process_order_change (pre @ os) (change_entries os cs) = Inr (pre @ map (\<lambda>ord. changed (cs (Id ord)) ord) os)"
  using assms(1,3)
proof (induction os arbitrary: pre)
  case Nil
  then show ?case by (simp add: change_entries_def List.map_filter_def)
next
  case (Cons ord os)
  let ?ord' = "changed (cs (Id ord)) ord"
  have IH: "go_foldl process_order_change ((pre @ [?ord']) @ os) (change_entries os cs) = Inr ((pre @ [?ord']) @ map (\<lambda>ord. changed (cs (Id ord)) ord) os)"
    using Cons.prems by (intro Cons.IH) auto
  show ?case
  proof (cases "cs (Id ord)")
    case None
    then show ?thesis using IH by (simp add: change_entries_def map_filter_simps changed_def)
  next
    case (Some c)
    obtain a b where c: "c = (a, b)" by force
    have f: "find (\<lambda>i. Id ((pre @ ord # os) ! i) = Id ord) (rev [0..<length (pre @ ord # os)]) = Some (length pre)"
      using find_order [OF Cons.prems(1), of "length pre"] by (simp del: upt_Suc)
    have "(a, b) \<in> ran cs" using Some c by (auto simp: ran_def)
    then have "opposite_signs a b" using assms(2) dir_change_opposite by fastforce
    moreover have "order_ok (filled ord a b)" using Cons.prems(2) Some c by (simp add: changed_def)
    ultimately have "process_order_change (pre @ ord # os) (Id ord, a, b) = Inr ((pre @ [?ord']) @ os)"
      unfolding process_order_change_def prod.case f option.case using Some c by (simp add: ApplyBalanceChanges_filled changed_def)
    then show ?thesis using IH Some c by (simp add: change_entries_def map_filter_simps)
  qed
qed

lemma change_entries_ids: "map Id os = map Id os' \<Longrightarrow> change_entries os cs = change_entries os' cs"
  by (induction os os' rule: list_induct2') (auto simp: change_entries_def map_filter_simps split: option.splits)

lemma process_changes:
  assumes "tracks d os0 cs os" and "\<forall>ord \<in> set os. order_ok ord"
  shows "go_foldl process_order_change os0 (change_entries os cs) = Inr os"
  using process_changes_rest [of "[]" os0 cs d] assms change_entries_ids [OF tracks_ids [OF assms(1)]] by (auto simp: tracks_def)

lemma change_entries_dir: "tracks d os0 cs os \<Longrightarrow> \<forall>(i, x) \<in> set (change_entries os cs). dir_change d x"
  by (auto simp: change_entries_def tracks_def ran_def List.map_filter_def) blast

section \<open>Agreement of pools\<close>

text \<open>A node may hold empty volumes that the producer does not have.\<close>

definition vol :: "(string \<times> MakingVolume) list \<Rightarrow> string \<Rightarrow> amounts" where
  "vol m t = (case map_of m t of None \<Rightarrow> [] | Some v \<Rightarrow> volume v)"

definition pool_agrees :: "PoolPairState \<Rightarrow> PoolPairState \<Rightarrow> bool" where
  "pool_agrees p q \<longleftrightarrow> p\<lparr>pp_makingVolume := []\<rparr> = q\<lparr>pp_makingVolume := []\<rparr> \<and> (\<forall>t. vol (pp_makingVolume p) t = vol (pp_makingVolume q) t)"

definition pairs_agree :: "pairs \<Rightarrow> pairs \<Rightarrow> bool" where
  "pairs_agree pairs qairs \<longleftrightarrow> map fst qairs = map fst pairs \<and> (\<forall>k p. map_of pairs k = Some p \<longrightarrow> (\<exists>q. map_of qairs k = Some q \<and> pool_agrees p q))"

definition add_vols :: "amounts \<Rightarrow> amounts \<Rightarrow> amounts" where
  "add_vols v vs = foldl (\<lambda>v (n, a). al_put n (map_uint v n + a) v) v vs"

lemma vol_put [simp]: "vol (al_put t x m) u = (if u = t then volume x else vol m u)"
  by (simp add: vol_def)

lemma vol_producer: "vol (addMakingVolume m [(t, vs)]) u = (if u = t then add_vols (vol m t) vs else vol m u)"
proof -
  have "vol (foldl (\<lambda>b (n, a). al_put t (AddVolume n a (case map_of b t of None \<Rightarrow> \<lparr>volume = []\<rparr> | Some x \<Rightarrow> x)) b) m vs) u = (if u = t then add_vols (vol m t) vs else vol m u)"
  proof (induction vs arbitrary: m)
    case (Cons x vs)
    obtain n a where x: "x = (n, a)" by force
    have "volume (AddVolume n a (case map_of m t of None \<Rightarrow> \<lparr>volume = []\<rparr> | Some x \<Rightarrow> x)) = al_put n (map_uint (vol m t) n + a) (vol m t)"
      by (auto simp: AddVolume_def vol_def split: option.splits)
    then show ?case using Cons by (simp add: x add_vols_def)
  qed (simp add: add_vols_def)
  then show ?thesis by (simp add: addMakingVolume_def)
qed

lemma vol_node:
  assumes "map_of m t \<noteq> None"
  shows "vol (foldl (\<lambda>b (n, a). al_put t (AddVolume n a (the (map_of b t))) b) m vs) u = (if u = t then add_vols (vol m t) vs else vol m u)"
  using assms
proof (induction vs arbitrary: m)
  case (Cons x vs)
  obtain n a where x: "x = (n, a)" by force
  have "volume (AddVolume n a (the (map_of m t))) = al_put n (map_uint (vol m t) n + a) (vol m t)"
    using Cons.prems by (auto simp: AddVolume_def vol_def)
  then show ?case using Cons.IH [of "al_put t (AddVolume n a (the (map_of m t))) m"] by (simp add: x add_vols_def)
qed (simp add: add_vols_def)

lemma credit_orders_producer: "addOrderReward base (map (\<lambda>(n, r). (n, [(t, r)])) rs) = credit_orders t rs base"
  by (induction rs arbitrary: base) (auto simp: addOrderReward_def credit_orders_def)

section \<open>One pool of the path\<close>

text \<open>A pool after \<^verbatim>\<open>TrackFee\<close>: one reward in one token, shared out on the clone.\<close>

definition hop_paid :: "Params \<Rightarrow> string \<times> PoolPairState \<times> nat \<Rightarrow> fee_hop \<Rightarrow> bool" where
  "hop_paid params = (\<lambda>(pairID, pair, d) h. fh_pairID h = pairID \<and>
     hop_done (pp_state pair, d, pp_orderbook pair) (pp_state (fh_pair h), pp_orderbook (fh_pair h), fh_pairChange h, fh_orderChanges h) \<and>
     (\<exists>t r rs mt vs. fh_rewardEarned h = [(t, r)] \<and> fh_orderRewards h = map (\<lambda>(n, x). (n, [(t, x)])) rs \<and> fh_making h = [(mt, vs)] \<and>
       share_reward params pairID t r (fh_pairChange h) (change_entries (pp_orderbook (fh_pair h)) (fh_orderChanges h))
         (pair\<lparr>pp_state := pp_state (fh_pair h), pp_orderbook := pp_orderbook (fh_pair h)\<rparr>) = Inr (fh_pair h, rs, mt, vs)))"

lemma share_hop_paid:
  assumes "hop_start params x h" and "clone_ok x" and "0 \<le> trading_ratio params (fst x)" and "IsUint64 reward"
  obtains h' where "share_hop params t reward h = Inr h'" "hop_paid params x h'" "fh_rewardEarned h' = [(t, reward)]"
proof -
  obtain k pair d where x: "x = (k, pair, d)" by (cases x)
  have hs: "fh_pairID h = k" "fh_rewardEarned h = []" "fh_pair h = pair\<lparr>pp_state := pp_state (fh_pair h), pp_orderbook := pp_orderbook (fh_pair h)\<rparr>"
    and dn: "hop_done (pp_state pair, d, pp_orderbook pair) (pp_state (fh_pair h), pp_orderbook (fh_pair h), fh_pairChange h, fh_orderChanges h)"
    using assms(1) x by (auto simp: hop_start_def)
  let ?es = "change_entries (pp_orderbook (fh_pair h)) (fh_orderChanges h)"
  have c: "dir_change d (fh_pairChange h)" "\<forall>(i, x) \<in> set ?es. dir_change d x" using dn change_entries_dir [of d "pp_orderbook pair" "fh_orderChanges h" "pp_orderbook (fh_pair h)"] unfolding hop_done_def by simp_all
  have ratio: "0 \<le> trading_ratio params k" using assms(3) x by simp
  obtain P S L rs mt vs where s: "share_reward params k t reward (fh_pairChange h) ?es (fh_pair h) =
      Inr ((fh_pair h)\<lparr>pp_protocolFees := P, pp_stakingPoolFees := S, pp_lpFeesPerShare := L\<rparr>, rs, mt, vs)"
    by (rule share_reward_returns [OF ratio c, of t reward "fh_pair h"])
  let ?p = "(fh_pair h)\<lparr>pp_protocolFees := P, pp_stakingPoolFees := S, pp_lpFeesPerShare := L\<rparr>"
  let ?h' = "h\<lparr>fh_pair := ?p, fh_rewardEarned := [(t, reward)], fh_orderRewards := map (\<lambda>(n, r). (n, [(t, r)])) rs, fh_making := [(mt, vs)]\<rparr>"
  have u: "to_uint64 reward = reward" using assms(4) by simp
  have "share_hop params t reward h = Inr ?h'" unfolding share_hop_def hs(1) s by (simp add: hs(2) u al_put_def)
  moreover have "hop_paid params x ?h'" unfolding hop_paid_def x prod.case
    using hs(1) dn s hs(3) [symmetric] by simp
  ultimately show thesis by (intro that [of ?h']) simp_all
qed

lemma process_reward_agrees:
  assumes a: "pool_agrees p q" and s: "share_reward params k t r c es p = Inr (p', rs, mt, vs)"
  obtains q' where "process_reward params k c es q (t, r) = Inr q'"
    "pool_agrees (p'\<lparr>pp_orderRewards := credit_orders t rs (pp_orderRewards p'),
       pp_makingVolume := (if mined_pool params k then addMakingVolume (pp_makingVolume p) [(mt, vs)] else pp_makingVolume p)\<rparr>) q'"
proof -
  have eq: "q = p\<lparr>pp_makingVolume := pp_makingVolume q\<rparr>" and v: "\<And>t. vol (pp_makingVolume p) t = vol (pp_makingVolume q) t"
  proof -
    have e: "p\<lparr>pp_makingVolume := []\<rparr> = q\<lparr>pp_makingVolume := []\<rparr>" using a by (simp add: pool_agrees_def)
    have "(q\<lparr>pp_makingVolume := []\<rparr>)\<lparr>pp_makingVolume := pp_makingVolume q\<rparr> = q" by simp
    then show "q = p\<lparr>pp_makingVolume := pp_makingVolume q\<rparr>" unfolding e [symmetric] by simp
  qed (use a in \<open>simp add: pool_agrees_def\<close>)
  obtain P S L where core: "share_core params k t r c es (Orderbook_NftIDs (pp_orderbook p)) (pp_state p) (pp_protocolFees p) (pp_stakingPoolFees p) (pp_lpFeesPerShare p) =
      Inr (P, S, L, rs, mt, vs)" and p': "p' = p\<lparr>pp_protocolFees := P, pp_stakingPoolFees := S, pp_lpFeesPerShare := L\<rparr>"
    by (rule share_reward_fields [OF s])
  have sq: "share_reward params k t r c es q = Inr (p'\<lparr>pp_makingVolume := pp_makingVolume q\<rparr>, rs, mt, vs)"
    unfolding share_reward_core p' by (subst (1 2 3 4 5 6) eq) (simp add: core)
  let ?base = "if map_of (pp_makingVolume q) mt = None then al_put mt \<lparr>volume = []\<rparr> (pp_makingVolume q) else pp_makingVolume q"
  let ?m = "if mined_pool params k then foldl (\<lambda>b (nftID, amt). al_put mt (AddVolume nftID amt (the (map_of b mt))) b) ?base vs else pp_makingVolume q"
  let ?q' = "p'\<lparr>pp_makingVolume := ?m, pp_orderRewards := credit_orders t rs (pp_orderRewards p')\<rparr>"
  have base: "map_of ?base mt \<noteq> None" "vol ?base u = vol (pp_makingVolume q) u" for u by (auto simp: vol_def)
  have "process_reward params k c es q (t, r) = Inr ?q'" by (simp add: process_reward_def sq Let_def)
  moreover have "vol (if mined_pool params k then addMakingVolume (pp_makingVolume p) [(mt, vs)] else pp_makingVolume p) u = vol ?m u" for u
    using vol_node [OF base(1), of vs u] base(2) v by (simp add: vol_producer)
  ultimately show thesis by (intro that [of ?q']) (simp_all add: pool_agrees_def)
qed

lemma pool_agrees_fields:
  assumes "pool_agrees p q"
  shows "pp_state q = pp_state p" "pp_orderbook q = pp_orderbook p" and "pool_agrees (p\<lparr>pp_state := tp\<rparr>) (q\<lparr>pp_state := tp\<rparr>)"
    and "pool_agrees (p\<lparr>pp_orderbook := os\<rparr>) (q\<lparr>pp_orderbook := os\<rparr>)"
  using assms by (cases p; cases q; simp add: pool_agrees_def)+

lemma hop_replay:
  assumes paid: "hop_paid params (k, pair, d) h" and ok: "clone_ok (k, pair, d)" and p: "map_of pairs k = Some pair" "map_of qairs k = Some q" "pool_agrees pair q"
  obtains p' q' where "write_hop params pairs h = Inr (al_put k p' pairs)" "pool_agrees p' q'" "clone_ok (k, p', d)"
    "process_hop params qairs (k, fh_pairChange h, fh_rewardEarned h, change_entries (pp_orderbook (fh_pair h)) (fh_orderChanges h)) = Inr (al_put k q' qairs)"
    "Token0ID (pp_state p') = Token0ID (pp_state pair)" "Token1ID (pp_state p') = Token1ID (pp_state pair)"
proof -
  let ?tp = "pp_state (fh_pair h)" and ?os = "pp_orderbook (fh_pair h)" and ?c = "fh_pairChange h" and ?es = "change_entries (pp_orderbook (fh_pair h)) (fh_orderChanges h)"
  from paid obtain t r rs mt vs where h: "fh_pairID h = k" "fh_rewardEarned h = [(t, r)]" "fh_orderRewards h = map (\<lambda>(n, x). (n, [(t, x)])) rs" "fh_making h = [(mt, vs)]"
    "share_reward params k t r ?c ?es (pair\<lparr>pp_state := ?tp, pp_orderbook := ?os\<rparr>) = Inr (fh_pair h, rs, mt, vs)"
    and dn: "hop_done (pp_state pair, d, pp_orderbook pair) (?tp, ?os, ?c, fh_orderChanges h)" unfolding hop_paid_def prod.case by blast
  have tp: "?tp = swapped (pp_state pair) (fst ?c) (snd ?c)" "pool_ok ?tp" "dir_change d ?c" and tr: "tracks d (pp_orderbook pair) (fh_orderChanges h) ?os"
    and oo: "\<forall>ord \<in> set ?os. order_ok ord" using dn unfolding hop_done_def prod.case by blast+
  note nfts = tracks_nfts [OF tr] and ag = pool_agrees_fields [OF p(3)]
  obtain P S L where core: "share_core params k t r ?c ?es (Orderbook_NftIDs (pp_orderbook pair)) ?tp (pp_protocolFees pair) (pp_stakingPoolFees pair) (pp_lpFeesPerShare pair) =
      Inr (P, S, L, rs, mt, vs)" and fp: "fh_pair h = pair\<lparr>pp_state := ?tp, pp_orderbook := ?os, pp_protocolFees := P, pp_stakingPoolFees := S, pp_lpFeesPerShare := L\<rparr>"
    by (rule share_reward_fields [OF h(5)]) (simp add: nfts)
  let ?p1 = "pair\<lparr>pp_state := ?tp\<rparr>" and ?p2 = "pair\<lparr>pp_state := ?tp, pp_protocolFees := P, pp_stakingPoolFees := S, pp_lpFeesPerShare := L\<rparr>"
  let ?mv = "if mined_pool params k then addMakingVolume (pp_makingVolume pair) [(mt, vs)] else pp_makingVolume pair"
  have s1: "share_reward params k t r ?c ?es ?p1 = Inr (?p2, rs, mt, vs)" by (simp add: share_reward_core core)
  obtain q2 where q2: "process_reward params k ?c ?es (q\<lparr>pp_state := ?tp\<rparr>) (t, r) = Inr q2"
    "pool_agrees (?p2\<lparr>pp_orderRewards := credit_orders t rs (pp_orderRewards pair), pp_makingVolume := ?mv\<rparr>) q2"
    by (rule process_reward_agrees [OF ag(3) s1]) (simp cong del: if_weak_cong)
  have "ApplyReserveChanges (fst ?c) (snd ?c) (pp_state q) = Inr ?tp"
    unfolding ag(1) tp(1) by (rule ApplyReserveChanges_swapped) (use tp dir_change_opposite [of d "fst ?c" "snd ?c"] in simp_all)
  moreover have "pp_orderbook q2 = pp_orderbook pair" using pool_agrees_fields(2) [OF q2(2)] by simp
  ultimately have proc: "process_hop params qairs (k, ?c, fh_rewardEarned h, ?es) = Inr (al_put k (q2\<lparr>pp_orderbook := ?os\<rparr>) qairs)"
    using p(2) q2(1) process_changes [OF tr oo] by (simp add: process_hop_def h(2))
  let ?p' = "?p2\<lparr>pp_orderRewards := credit_orders t rs (pp_orderRewards pair), pp_makingVolume := ?mv, pp_orderbook := ?os\<rparr>"
  have f: "pp_lpFeesPerShare (fh_pair h) = L" "pp_protocolFees (fh_pair h) = P" "pp_stakingPoolFees (fh_pair h) = S"
    using arg_cong [OF fp, of pp_lpFeesPerShare] arg_cong [OF fp, of pp_protocolFees] arg_cong [OF fp, of pp_stakingPoolFees] by simp_all
  have "write_hop params pairs h = Inr (al_put k ?p' pairs)"
  proof -
    have "pair\<lparr>pp_state := ?tp, pp_orderRewards := credit_orders t rs (pp_orderRewards pair), pp_makingVolume := ?mv, pp_lpFeesPerShare := L, pp_protocolFees := P,
        pp_stakingPoolFees := S, pp_orderbook := ?os\<rparr> = ?p'" by (cases pair) simp
    then show ?thesis using p(1) h(1) by (simp only: write_hop_def h(3,4) credit_orders_producer f option.case)
  qed
  moreover have "clone_ok (k, ?p', d)" using ok tp(2) oo tracks_ids [OF tr] by (simp add: clone_ok_def)
  moreover have "pool_agrees ?p' (q2\<lparr>pp_orderbook := ?os\<rparr>)" using pool_agrees_fields(4) [OF q2(2), of ?os] by simp
  ultimately show thesis using proc tp(1) by (intro that [of ?p' "q2\<lparr>pp_orderbook := ?os\<rparr>"]) (simp_all add: swapped_def)
qed

section \<open>The path of a trade\<close>

definition tradable :: "pairs \<Rightarrow> bool" where
  "tradable pairs \<longleftrightarrow> (\<forall>k p. map_of pairs k = Some p \<longrightarrow> clone_ok (k, p, TradeDirectionSell0))"

lemma clone_ok_dir: "clone_ok (k, p, TradeDirectionSell0) \<Longrightarrow> d \<in> {TradeDirectionSell0, TradeDirectionSell1} \<Longrightarrow> clone_ok (k, p, d)"
  by (auto simp: clone_ok_def)

definition hop_data :: "fee_hop \<Rightarrow> string \<times> (int \<times> int) \<times> amounts \<times> (string \<times> int \<times> int) list" where
  "hop_data h = (fh_pairID h, fh_pairChange h, fh_rewardEarned h, change_entries (pp_orderbook (fh_pair h)) (fh_orderChanges h))"

lemma pairs_agree_put:
  assumes "pairs_agree pairs qairs" and "map_of pairs k \<noteq> None" and "pool_agrees p q"
  shows "pairs_agree (al_put k p pairs) (al_put k q qairs)"
proof -
  have "set (map fst qairs) = set (map fst pairs)" using assms(1) by (simp add: pairs_agree_def)
  then have "k \<in> fst ` set pairs" "k \<in> fst ` set qairs" using assms(2) by (simp_all add: map_of_eq_None_iff)
  then show ?thesis using assms(1,3) by (auto simp: pairs_agree_def keys_al_put)
qed

lemma path_replay:
  assumes "list_all2 (hop_paid params) hops hs" and "distinct (map fst hops)" and "\<forall>(k, p, d) \<in> set hops. map_of pairs k = Some p \<and> d \<in> {TradeDirectionSell0, TradeDirectionSell1}"
    and "tradable pairs" and "pairs_agree pairs qairs"
  shows "\<exists>pairs' qairs'. go_foldl (write_hop params) pairs hs = Inr pairs' \<and> go_foldl (process_hop params) qairs (map hop_data hs) = Inr qairs' \<and>
    tradable pairs' \<and> pairs_agree pairs' qairs'"
  using assms
proof (induction arbitrary: pairs qairs rule: list_all2_induct)
  case (Cons x hops h hs)
  obtain k p d where x: "x = (k, p, d)" by (cases x)
  have k: "map_of pairs k = Some p" and d: "d \<in> {TradeDirectionSell0, TradeDirectionSell1}" using Cons.prems(2) x by auto
  have "clone_ok (k, p, TradeDirectionSell0)" using Cons.prems(3) k by (simp add: tradable_def)
  note c = clone_ok_dir [OF this d]
  from Cons.prems(4) k obtain q where q: "map_of qairs k = Some q" "pool_agrees p q" by (auto simp: pairs_agree_def)
  obtain p' q' where r: "write_hop params pairs h = Inr (al_put k p' pairs)" "pool_agrees p' q'" "clone_ok (k, p', d)"
    "process_hop params qairs (k, fh_pairChange h, fh_rewardEarned h, change_entries (pp_orderbook (fh_pair h)) (fh_orderChanges h)) = Inr (al_put k q' qairs)"
    by (rule hop_replay [OF Cons.hyps(1) [unfolded x] c k q])
  have id: "fh_pairID h = k" using Cons.hyps(1) x by (simp add: hop_paid_def)
  have "\<exists>pairs' qairs'. go_foldl (write_hop params) (al_put k p' pairs) hs = Inr pairs' \<and> go_foldl (process_hop params) (al_put k q' qairs) (map hop_data hs) = Inr qairs' \<and>
      tradable pairs' \<and> pairs_agree pairs' qairs'"
  proof (rule Cons.IH)
    show "distinct (map fst hops)" using Cons.prems(1) x by simp
    show "\<forall>(k', p, d) \<in> set hops. map_of (al_put k p' pairs) k' = Some p \<and> d \<in> {TradeDirectionSell0, TradeDirectionSell1}"
    proof (intro ballI)
      fix y assume y: "y \<in> set hops"
      obtain k' p2 d2 where y2: "y = (k', p2, d2)" by (cases y)
      have "k \<notin> fst ` set hops" using Cons.prems(1) x by simp
      then have "k' \<noteq> k" using y y2 by force
      moreover have "map_of pairs k' = Some p2 \<and> d2 \<in> {TradeDirectionSell0, TradeDirectionSell1}" using Cons.prems(2) y y2 by auto
      ultimately show "case y of (k', p, d) \<Rightarrow> map_of (al_put k p' pairs) k' = Some p \<and> d \<in> {TradeDirectionSell0, TradeDirectionSell1}" using y2 by simp
    qed
    show "tradable (al_put k p' pairs)" using Cons.prems(3) r(3) by (auto simp: tradable_def clone_ok_def)
    show "pairs_agree (al_put k p' pairs) (al_put k q' qairs)" using Cons.prems(4) k r(2) by (intro pairs_agree_put) simp_all
  qed
  then show ?case using r(1,4) id by (simp add: hop_data_def [of h])
qed auto

lemma path_from_state_hops:
  assumes "path_from_state pairs seen t path = Inr (hops, buy)"
  shows "map fst hops = path" and "distinct path" and "set path \<inter> set seen = {}"
    and "\<forall>(k, p, d) \<in> set hops. map_of pairs k = Some p \<and> d \<in> {TradeDirectionSell0, TradeDirectionSell1}"
proof -
  have "map fst hops = path \<and> distinct path \<and> set path \<inter> set seen = {} \<and>
      (\<forall>(k, p, d) \<in> set hops. map_of pairs k = Some p \<and> d \<in> {TradeDirectionSell0, TradeDirectionSell1})" using assms
  proof (induction pairs seen t path arbitrary: hops buy rule: path_from_state.induct)
    case (2 pairs seen t k path)
    then obtain p where p: "map_of pairs k = Some p" "k \<notin> set seen" by (auto split: if_splits option.splits)
    note IH = 2(1,2) [OF p(2,1)] and run = 2(3) [unfolded path_from_state.simps if_not_P [OF p(2)] p(1) option.case]
    consider "t = Token0ID (pp_state p)" | "t \<noteq> Token0ID (pp_state p)" "t = Token1ID (pp_state p)" using run by (auto split: if_splits)
    then show ?case
    proof cases
      case 1
      with run obtain hs where "path_from_state pairs (k # seen) (Token1ID (pp_state p)) path = Inr (hs, buy)" "hops = (k, p, TradeDirectionSell0) # hs"
        by (auto simp: go_bind_def split: sum.splits)
      then show ?thesis using IH(1) [OF 1, of hs buy] p by auto
    next
      case 2
      with run obtain hs where "path_from_state pairs (k # seen) (Token0ID (pp_state p)) path = Inr (hs, buy)" "hops = (k, p, TradeDirectionSell1) # hs"
        by (auto simp: go_bind_def split: sum.splits)
      then show ?thesis using IH(2) [OF 2, of hs buy] p by auto
    qed
  qed simp
  then show "map fst hops = path" "distinct path" "set path \<inter> set seen = {}"
    "\<forall>(k, p, d) \<in> set hops. map_of pairs k = Some p \<and> d \<in> {TradeDirectionSell0, TradeDirectionSell1}" by blast+
qed

section \<open>The fee in PRV\<close>

text \<open>What a pool of the path is paid.\<close>

definition earned :: "fee_hop \<Rightarrow> int" where
  "earned h = sum_list (map snd (fh_rewardEarned h))"

text \<open>The part of a pool: at most what is left, and all of it for the last pool.\<close>

lemma fee_part:
  fixes fee w rest :: int
  assumes "IsUint64 fee" and "0 < w" and "0 \<le> rest"
  defines "r \<equiv> fee * w div (w + rest)"
  shows "big_div (fee * w) (w + rest) = Inr r" and "IsUint64 r" and "IsUint64 (fee - r)" and "rest = 0 \<Longrightarrow> r = fee"
proof -
  have f: "0 \<le> fee" "fee < 2 ^ 64" using assms(1) by (auto simp: IsUint64_def)
  have "0 \<le> r" using f assms(2,3) by (simp add: r_def pos_imp_zdiv_nonneg_iff)
  moreover have "r \<le> fee"
  proof -
    have "fee * w \<le> fee * (w + rest)" using f assms(3) by (intro mult_left_mono) auto
    then show ?thesis using assms(2,3) zdiv_mono1 [of "fee * w" "fee * (w + rest)" "w + rest"] by (simp add: r_def)
  qed
  ultimately show "IsUint64 r" "IsUint64 (fee - r)" using f by (auto simp: IsUint64_def)
  show "big_div (fee * w) (w + rest) = Inr r" "rest = 0 \<Longrightarrow> r = fee" using assms(2,3) by (simp_all add: r_def)
qed

lemma track_prv_paid:
  assumes "list_all2 (hop_start params) hops hs" and "\<forall>x \<in> set hops. clone_ok x \<and> 0 \<le> trading_ratio params (fst x) \<and> 0 < pool_fee params (fst x)"
    and "IsUint64 fee" and "sumFees = sum_list (map (\<lambda>x. pool_fee params (fst x)) hops)" and "IsUint64 sumFees"
  shows "\<exists>hs'. track_prv params sumFees fee hs = Inr hs' \<and> list_all2 (hop_paid params) hops hs' \<and>
    (\<forall>h \<in> set hs'. fst ` set (fh_rewardEarned h) = {PRVCoinID}) \<and> (hops \<noteq> [] \<longrightarrow> sum_list (map earned hs') = fee)"
  using assms
proof (induction arbitrary: fee sumFees rule: list_all2_induct)
  case (Cons x hops h hs)
  let ?w = "pool_fee params (fst x)" and ?rest = "sum_list (map (\<lambda>x. pool_fee params (fst x)) hops)"
  have w: "fh_poolFee h = ?w" using Cons.hyps(1) by (auto simp: hop_start_def)
  have nn: "0 \<le> y" if "y \<in> set (map (\<lambda>x. pool_fee params (fst x)) hops)" for y using that Cons.prems(1) by fastforce
  have "0 \<le> ?rest" by (rule sum_list_nonneg) (rule nn)
  then have pos: "0 < ?w" "0 \<le> ?rest" "sumFees = ?w + ?rest" using Cons.prems by auto
  have rest: "IsUint64 ?rest" "to_uint64 (sumFees - ?w) = ?rest" using pos Cons.prems(4) by (auto simp: IsUint64_def)
  define r where "r = fee * ?w div (?w + ?rest)"
  note part = fee_part [OF Cons.prems(2) pos(1,2), folded r_def pos(3)]
  note u = part(2,3) to_uint64_id [OF part(2)] to_uint64_id [OF part(3)]
  have co: "clone_ok x" "0 \<le> trading_ratio params (fst x)" using Cons.prems(1) by auto
  obtain h' where h': "share_hop params PRVCoinID r h = Inr h'" "hop_paid params x h'" "fh_rewardEarned h' = [(PRVCoinID, r)]"
    by (rule share_hop_paid [OF Cons.hyps(1) co u(1)])
  from Cons.IH [OF _ u(2) refl rest(1)] Cons.prems(1) obtain hs' where hs': "track_prv params ?rest (fee - r) hs = Inr hs'" "list_all2 (hop_paid params) hops hs'"
    "\<forall>h \<in> set hs'. fst ` set (fh_rewardEarned h) = {PRVCoinID}" "hops \<noteq> [] \<longrightarrow> sum_list (map earned hs') = fee - r" by auto
  have "track_prv params sumFees fee (h # hs) = Inr (h' # hs')"
  proof -
    show ?thesis by (simp only: track_prv.simps w part(1) go_bind_simps h'(1) rest(2) u(3,4) hs'(1))
  qed
  moreover have "sum_list (map earned (h' # hs')) = fee"
  proof (cases "hops = []")
    case True
    then have "r = fee" using part(4) by simp
    then show ?thesis using True hs'(2) h'(3) by (simp add: earned_def)
  qed (use hs'(4) h'(3) in \<open>simp add: earned_def\<close>)
  ultimately show ?case using h'(2,3) hs'(2,3) by auto
qed auto

end
