(* ===== verification/Pdex_Pair_Safety.thy ===== *)
theory Pdex_Pair_Safety
  imports Pdex_Shares
begin

text \<open>
  Runs of the operations of one pool pair: providers add and deduct shares, locked shares are unlocked, trading fees and mining rewards come
  in, and providers take their fees. What is paid to the providers never exceeds what came in for them.
\<close>

section \<open>Unlocking\<close>

definition locks_ok :: "PoolPairState \<Rightarrow> bool" where
  "locks_ok p \<longleftrightarrow> (\<forall>(_, rec) \<in> set (pp_lmLockedShare p). \<forall>(_, a) \<in> set rec. IsUint64 a)"

definition pair_ok :: "PoolPairState \<Rightarrow> bool" where
  "pair_ok p \<longleftrightarrow> shares_ok p \<and> locks_ok p"

lemma IsUint64_to_uint64 [simp]: "IsUint64 (to_uint64 x)"
  by (simp add: IsUint64_def to_uint64_def)

lemma set_al_put_subset: "set (al_put k v m) \<subseteq> insert (k, v) (set m)"
  by (auto simp: al_put_def split: if_splits prod.splits)

lemma locks_ok_add:
  assumes "locks_ok p" and "IsUint64 amount"
  shows "locks_ok (addLmLockedShare k height amount p)"
proof -
  let ?rec = "case map_of (pp_lmLockedShare p) k of None \<Rightarrow> [] | Some r \<Rightarrow> r"
  have r: "\<forall>(_, a) \<in> set ?rec. IsUint64 a" 
    using assms(1) map_of_SomeD [of "pp_lmLockedShare p" k] by (cases "map_of (pp_lmLockedShare p) k") (auto simp: locks_ok_def)
  have v: "IsUint64 (case map_of ?rec height of None \<Rightarrow> amount | Some a \<Rightarrow> to_uint64 (a + amount))" using assms(2) by (auto split: option.splits)
  have "\<forall>(_, a) \<in> set (al_put height (case map_of ?rec height of None \<Rightarrow> amount | Some a \<Rightarrow> to_uint64 (a + amount)) ?rec). IsUint64 a"
    using r v set_al_put_subset [of height _ ?rec] by fastforce
  then show ?thesis using assms(1) set_al_put_subset [of k _ "pp_lmLockedShare p"]
    unfolding locks_ok_def addLmLockedShare_def Let_def by fastforce
qed

lemma unlock_height_ok:
  assumes ok: "shares_ok p" and l: "locks_ok p" and r: "unlock_height_step pending height k p (h, a) = Inr p'" and a: "IsUint64 a"
  shows "shares_ok p' \<and> locks_ok p' \<and> (\<forall>t. pair_owed t p' \<le> pair_owed t p) \<and> fst ` set (pp_shares p') = fst ` set (pp_shares p)"
proof (cases "to_uint64 (h + pending) < height")
  case False
  then show ?thesis using r ok l by (simp add: unlock_height_step_def)
next
  case True
  obtain sh where sh: "map_of (pp_shares p) k = Some sh" using r True by (auto simp: unlock_height_step_def split: option.splits)
  have sok: "share_ok (pp_lpFeesPerShare p) (pp_lmRewardsPerShare p) (k, sh)" using ok sh by (rule shares_ok_share)
  then have k: "HashFromStr k = Some k" by (simp add: share_ok_def)
  let ?rel = "if a > sh_lmLockedAmount sh then sh_lmLockedAmount sh else a"
  let ?p0 = "p\<lparr>pp_lmLockedShare := al_upd k (al_del h) (pp_lmLockedShare p)\<rparr>"
  have lb: "0 \<le> sh_lmLockedAmount sh" "IsUint64 (sh_lmLockedAmount sh)" "IsUint64 ?rel" "?rel \<le> sh_lmLockedAmount sh"
    using sok a by (auto simp: share_ok_def IsUint64_def)
  have rec: "RecomputeLPRewards k ?p0 = RecomputeLPRewards k p" by (simp add: RecomputeLPRewards_def split: option.split)
  obtain fees where f: "RecomputeLPRewards k p = Inr fees" and p': "p' = ?p0\<lparr>pp_state := (pp_state p)\<lparr>LmLockedShareAmount := LmLockedShareAmount (pp_state p) - ?rel\<rparr>,
      pp_shares := al_put k (sh\<lparr>sh_tradingFees := fees, sh_lastLPFeesPerShare := pp_lpFeesPerShare p,
        sh_lastLmRewardsPerShare := pp_lmRewardsPerShare p, sh_lmLockedAmount := sh_lmLockedAmount sh - ?rel\<rparr>) (pp_shares p)\<rparr>"
    using r True sh k lb(2-4) locked_bounds(3) [OF ok] unfolding unlock_height_step_def by (auto simp: Let_def rec split: if_splits)
  let ?sh = "sh\<lparr>sh_tradingFees := fees, sh_lastLPFeesPerShare := pp_lpFeesPerShare p, sh_lastLmRewardsPerShare := pp_lmRewardsPerShare p,
    sh_lmLockedAmount := sh_lmLockedAmount sh - ?rel\<rparr>"
  have fs: "fresh_share p ?sh" using sok a recompute_lp(2,3) [OF f ok sh] by (auto simp: fresh_share_def share_ok_def IsUint64_def)
  have "shares_ok p' \<and> (\<forall>t. pair_owed t p' + 0 \<le> pair_owed t p)"
    using recompute_lp_owed [OF f ok sh] sh ok by (intro put_share [OF ok k fs]) (auto simp: p' old_amounts_def shares_ok_def)
  moreover have "pp_lmLockedShare p' = al_upd k (al_del h) (pp_lmLockedShare p)" by (simp add: p')
  then have "locks_ok p'" using l unfolding locks_ok_def by (fastforce simp: al_upd_def al_del_def split: if_splits)
  moreover have "fst ` set (pp_shares p') = fst ` set (pp_shares p)" using sh map_of_SomeD [OF sh] by (force simp: p' keys_al_put_set)
  ultimately show ?thesis by auto
qed

lemma unlock_heights_ok:
  assumes "go_foldl (unlock_height_step pending height k) p xs = Inr p'" and "shares_ok p" and "locks_ok p" and "\<forall>(_, a) \<in> set xs. IsUint64 a"
  shows "shares_ok p' \<and> locks_ok p' \<and> (\<forall>t. pair_owed t p' \<le> pair_owed t p) \<and> fst ` set (pp_shares p') = fst ` set (pp_shares p)"
  using assms
proof (induction xs arbitrary: p)
  case (Cons x xs)
  obtain h a where x: "x = (h, a)" by fastforce
  obtain p1 where p1: "unlock_height_step pending height k p (h, a) = Inr p1" "go_foldl (unlock_height_step pending height k) p1 xs = Inr p'"
    using Cons.prems(1) by (auto simp: x)
  have s: "shares_ok p1" "locks_ok p1" "\<And>t. pair_owed t p1 \<le> pair_owed t p" "fst ` set (pp_shares p1) = fst ` set (pp_shares p)"
    using unlock_height_ok [OF Cons.prems(2,3) p1(1)] Cons.prems(4) by (auto simp: x)
  have "\<forall>(_, a) \<in> set xs. IsUint64 a" using Cons.prems(4) by simp
  from Cons.IH [OF p1(2) s(1,2) this] show ?case using s(3,4) by (metis order_trans)
qed auto

lemma unlock_pool_ok:
  assumes r: "unlock_pool pending height p = Inr p'" and p: "pair_ok p"
  shows "pair_ok p' \<and> (\<forall>t. pair_owed t p' \<le> pair_owed t p)"
proof -
  have e: "\<forall>(_, rec) \<in> set (pp_lmLockedShare p). \<forall>(_, a) \<in> set rec. IsUint64 a" using p by (simp add: pair_ok_def locks_ok_def)
  show ?thesis using r unfolding unlock_pool_def
  proof (rule go_foldl_invariant [where P = "\<lambda>q. pair_ok q \<and> (\<forall>t. pair_owed t q \<le> pair_owed t p)"])
    fix q x q' assume x: "x \<in> set (pp_lmLockedShare p)" and q: "pair_ok q \<and> (\<forall>t. pair_owed t q \<le> pair_owed t p)"
      and s: "unlock_share_step pending height q x = Inr q'"
    obtain k rec where kr: "x = (k, rec)" by fastforce
    show "pair_ok q' \<and> (\<forall>t. pair_owed t q' \<le> pair_owed t p)"
    proof (cases "map_of (pp_shares q) k = None")
      case True
      have "set (al_del k (pp_lmLockedShare q)) \<subseteq> set (pp_lmLockedShare q)" by (auto simp: al_del_def)
      then have "locks_ok (q\<lparr>pp_lmLockedShare := al_del k (pp_lmLockedShare q)\<rparr>)" using q unfolding pair_ok_def locks_ok_def by fastforce
      then show ?thesis using s q True by (auto simp: unlock_share_step_def kr pair_ok_def shares_ok_def pair_owed_def)
    next
      case False
      then have "go_foldl (unlock_height_step pending height k) q rec = Inr q'" using s by (auto simp: unlock_share_step_def kr split: if_splits)
      from unlock_heights_ok [OF this] q e x kr show ?thesis by (fastforce simp: pair_ok_def intro: order_trans)
    qed
  qed (use p in auto)
qed

section \<open>Runs of a pool\<close>

text \<open>The operations of a pool that touch the accounts of its providers, with the reserves updated as the producers do it. The
  amounts of fees and rewards are unsigned.\<close>

datatype pair_op =
    AddShareOp string int int int
  | DeductShareOp string int
  | UnlockOp int int
  | TradingFeeOp string int
  | MiningRewardOp string int
  | TakeFeesOp string

definition pair_step :: "pair_op \<Rightarrow> PoolPairState \<Rightarrow> PoolPairState" where
  "pair_step op p = (case op of
      AddShareOp nftID amount height lmLockedBlocks \<Rightarrow> (case addShare nftID amount height lmLockedBlocks p of Inl _ \<Rightarrow> p | Inr p' \<Rightarrow> p')
    | DeductShareOp nftID amount \<Rightarrow> (case deductShare nftID amount p of Inl _ \<Rightarrow> p | Inr (_, _, _, p') \<Rightarrow> p')
    | UnlockOp pendingBlocks height \<Rightarrow> (case unlock_pool pendingBlocks height p of Inl _ \<Rightarrow> p | Inr p' \<Rightarrow> p')
    | TradingFeeOp tokenID amount \<Rightarrow> (case AddLPFee (pp_state p) tokenID amount BaseLPFeesPerShare (pp_lpFeesPerShare p) of
        Inl _ \<Rightarrow> p | Inr m \<Rightarrow> p\<lparr>pp_lpFeesPerShare := m\<rparr>)
    | MiningRewardOp tokenID amount \<Rightarrow> (case AddLMRewards (pp_state p) tokenID amount BaseLPFeesPerShare (pp_lmRewardsPerShare p) of
        Inl _ \<Rightarrow> p | Inr m \<Rightarrow> p\<lparr>pp_lmRewardsPerShare := m\<rparr>)
    | TakeFeesOp nftID \<Rightarrow> (case RecomputeLPRewards nftID p of Inl _ \<Rightarrow> p | Inr _ \<Rightarrow> reset_share nftID p))"

definition pair_op_ok :: "pair_op \<Rightarrow> bool" where
  "pair_op_ok op = (case op of
      AddShareOp nftID amount _ _ \<Rightarrow> HashFromStr nftID = Some nftID \<and> IsUint64 amount
    | DeductShareOp nftID amount \<Rightarrow> IsUint64 amount
    | UnlockOp _ _ \<Rightarrow> True
    | TradingFeeOp _ amount \<Rightarrow> IsUint64 amount
    | MiningRewardOp _ amount \<Rightarrow> IsUint64 amount
    | TakeFeesOp _ \<Rightarrow> True)"

definition fee_received :: "string \<Rightarrow> pair_op \<Rightarrow> PoolPairState \<Rightarrow> int" where
  "fee_received t op p = (case op of TradingFeeOp u amount \<Rightarrow> if u = t then amount else 0 | MiningRewardOp u amount \<Rightarrow> if u = t then amount else 0 | _ \<Rightarrow> 0)"

definition fee_paid :: "string \<Rightarrow> pair_op \<Rightarrow> PoolPairState \<Rightarrow> int" where
  "fee_paid t op p = (case op of TakeFeesOp nftID \<Rightarrow> (case RecomputeLPRewards nftID p of Inl _ \<Rightarrow> 0 | Inr fees \<Rightarrow> map_uint fees t) | _ \<Rightarrow> 0)"

lemma locks_ok_upd [simp]:
  "locks_ok (p\<lparr>pp_shares := x\<rparr>) = locks_ok p" "locks_ok (p\<lparr>pp_state := tp\<rparr>) = locks_ok p"
  "locks_ok (p\<lparr>pp_lpFeesPerShare := m\<rparr>) = locks_ok p" "locks_ok (p\<lparr>pp_lmRewardsPerShare := m\<rparr>) = locks_ok p"
  by (simp_all add: locks_ok_def)

lemma updateShareValue_locks:
  assumes r: "updateShareValue amount k op height lb p = Inr p'" and l: "locks_ok p" and a: "IsUint64 amount"
  shows "locks_ok p'"
proof -
  have add: "locks_ok (addLmLockedShare k height amount q)" if "locks_ok q" for q using that a by (rule locks_ok_add)
  show ?thesis
  proof (cases "op = addOperator \<and> 0 < lb")
    case True
    then show ?thesis using r l add unfolding updateShareValue_def Let_def by (simp only: True simp_thms if_True) (clarsimp simp: add)
  next
    case False
    then show ?thesis using r l unfolding updateShareValue_def Let_def
      by (cases "op = subOperator"; simp only: False if_False if_True simp_thms; clarsimp)
  qed
qed

lemma updateReserveData_shares:
  assumes "updateReserveData a0 a1 s op tp = Inr tp'"
  shows "ShareAmount tp' = ShareAmount tp \<and> LmLockedShareAmount tp' = LmLockedShareAmount tp"
  using assms by (auto simp: updateReserveData_def updateSingleTokenAmount_def split: if_splits)

lemma deductShare_ok:
  assumes r: "deductShare k amount p = Inr (a0, a1, taken, p')" and p: "pair_ok p" and a: "IsUint64 amount"
  shows "pair_ok p' \<and> (\<forall>t. pair_owed t p' \<le> pair_owed t p)"
proof -
  obtain sh where sh: "map_of (pp_shares p) k = Some sh" using r by (auto simp: deductShare_def split: option.splits if_splits)
  have sok: "share_ok (pp_lpFeesPerShare p) (pp_lmRewardsPerShare p) (k, sh)" using p sh by (auto simp: pair_ok_def intro: shares_ok_share)
  obtain tp where tp: "ShareAmount tp = ShareAmount (pp_state p)" "LmLockedShareAmount tp = LmLockedShareAmount (pp_state p)"
    "updateShareValue taken k subOperator 0 0 (p\<lparr>pp_state := tp\<rparr>) = Inr p'" "taken = (if sh_amount sh < amount then sh_amount sh else amount)"
    using r sh by (auto simp: deductShare_def Let_def dest!: updateReserveData_shares split: if_splits)
  have t: "IsUint64 taken" "HashFromStr k = Some k" using tp(4) sok a by (auto simp: share_ok_def)
  have "shares_ok (p\<lparr>pp_state := tp\<rparr>)" "locks_ok (p\<lparr>pp_state := tp\<rparr>)" using p shares_ok_state(1) [OF tp(1,2)] by (simp_all add: pair_ok_def)
  from updateShareValue_ok [OF this(1) t _ tp(3)] updateShareValue_locks [OF tp(3) this(2) t(1)] show ?thesis
    using shares_ok_state(2) [OF tp(1,2)] by (auto simp: pair_ok_def)
qed

lemma reset_share_locks [simp]: "locks_ok (reset_share k p) = locks_ok p"
  by (simp add: locks_ok_def reset_share_def)

lemma pair_step_ok:
  assumes p: "pair_ok p" and op: "pair_op_ok op"
  shows "pair_ok (pair_step op p) \<and> (\<forall>t. pair_owed t (pair_step op p) + BaseLPFeesPerShare * fee_paid t op p \<le> pair_owed t p + BaseLPFeesPerShare * fee_received t op p)"
proof (cases op)
  case (AddShareOp k a h lb)
  then show ?thesis using p op updateShareValue_ok [of p a k addOperator h lb] updateShareValue_locks [of a k addOperator h lb p]
    by (auto simp: pair_step_def fee_paid_def fee_received_def pair_op_ok_def addShare_def pair_ok_def split: sum.splits)
next
  case (DeductShareOp k a)
  then show ?thesis using p op deductShare_ok [of k a p]
    by (auto simp: pair_step_def fee_paid_def fee_received_def pair_op_ok_def split: sum.splits)
next
  case (UnlockOp pb h)
  then show ?thesis using p unlock_pool_ok [of pb h p] by (auto simp: pair_step_def fee_paid_def fee_received_def split: sum.splits)
next
  case (TradingFeeOp u a)
  have a: "0 \<le> a" "0 \<le> BaseLPFeesPerShare * a" using op TradingFeeOp by (auto simp: pair_op_ok_def IsUint64_def BaseLPFeesPerShare_def)
  show ?thesis
  proof (cases "AddLPFee (pp_state p) u a BaseLPFeesPerShare (pp_lpFeesPerShare p)")
    case (Inl e)
    then show ?thesis using p a TradingFeeOp by (simp add: pair_step_def fee_paid_def fee_received_def)
  next
    case (Inr m)
    have "BaseLPFeesPerShare * fee_received t op p = (if t = u then BaseLPFeesPerShare * a else 0)" for t by (simp add: TradingFeeOp fee_received_def)
    then show ?thesis using p Inr TradingFeeOp AddLPFee_ok [OF _ a(1) Inr] by (simp add: pair_step_def fee_paid_def pair_ok_def)
  qed
next
  case (MiningRewardOp u a)
  have a: "0 \<le> a" "0 \<le> BaseLPFeesPerShare * a" using op MiningRewardOp by (auto simp: pair_op_ok_def IsUint64_def BaseLPFeesPerShare_def)
  show ?thesis
  proof (cases "AddLMRewards (pp_state p) u a BaseLPFeesPerShare (pp_lmRewardsPerShare p)")
    case (Inl e)
    then show ?thesis using p a MiningRewardOp by (simp add: pair_step_def fee_paid_def fee_received_def)
  next
    case (Inr m)
    have "BaseLPFeesPerShare * fee_received t op p = (if t = u then BaseLPFeesPerShare * a else 0)" for t by (simp add: MiningRewardOp fee_received_def)
    then show ?thesis using p Inr MiningRewardOp AddLMRewards_ok [OF _ a(1) Inr] by (simp add: pair_step_def fee_paid_def pair_ok_def)
  qed
next
  case (TakeFeesOp k)
  have "RecomputeLPRewards k p = Inr fees \<Longrightarrow> map_of (pp_shares p) k \<noteq> None" for fees
    by (auto simp: RecomputeLPRewards_def split: option.splits)
  then show ?thesis using p TakeFeesOp reset_share_ok [of p k]
    by (fastforce simp: pair_step_def fee_paid_def fee_received_def pair_ok_def split: sum.splits)
qed

interpretation lp: solvent_runs pair_step pair_ok pair_op_ok pair_owed fee_received fee_paid BaseLPFeesPerShare
  by unfold_locales (use pair_step_ok pair_owed_nonneg in \<open>auto simp: pair_ok_def\<close>)

lemma init_pair_ok: "pair_ok (initPoolPairState c0 c1)" and init_pair_owed: "pair_owed t (initPoolPairState c0 c1) = 0"
  by (auto simp: pair_ok_def shares_ok_def locks_ok_def pair_owed_def initPoolPairState_def Let_def IsUint64_def split: prod.splits)

text \<open>C5. The providers of a pool are covered: whatever sequence of contributions, withdrawals, unlockings, trading fees, mining rewards
  and fee withdrawals a new pool goes through, the providers together never receive more of a token than came in as fees and rewards, the
  shares of the pool are the sum of the shares of the providers, and so are the locked shares.\<close>

theorem lp_fees_solvent:
  assumes "\<forall>op \<in> set ops. pair_op_ok op" and "p = initPoolPairState c0 c1" and "p' = run_ops pair_step ops p"
  shows "run_sum pair_step (fee_paid t) ops p \<le> run_sum pair_step (fee_received t) ops p \<and>
    ShareAmount (pp_state p') = al_sum (\<lambda>(_, sh). sh_amount sh) (pp_shares p') \<and>
    LmLockedShareAmount (pp_state p') = al_sum (\<lambda>(_, sh). sh_lmLockedAmount sh) (pp_shares p')"
proof -
  have "pair_ok p'" using lp.run_owed [OF init_pair_ok assms(1)] assms(2,3) by blast
  then show ?thesis using lp.run_solvent [OF init_pair_ok assms(1) init_pair_owed] assms(2) by (simp add: pair_ok_def shares_ok_def)
qed

definition demo_contribution :: "string \<Rightarrow> int \<Rightarrow> Pdexv3Contribution" where
  "demo_contribution t a = \<lparr>co_poolPairID = ''p'', co_otaReceiver = ''r'', co_tokenID = t, co_amount = a, co_amplifier = 1, co_txReqID = ''h'', co_nftID = demo_nft CHR ''1'', co_shardID = 0\<rparr>"

definition demo_pair_ops :: "pair_op list" where
  "demo_pair_ops = [AddShareOp (demo_nft CHR ''1'') 100 5 0, AddShareOp (demo_nft CHR ''2'') 50 6 10, TradingFeeOp ''A'' 9, MiningRewardOp ''A'' 4,
     UnlockOp 10 20, TakeFeesOp (demo_nft CHR ''1''), TakeFeesOp (demo_nft CHR ''2'')]"

text \<open>A pool whose providers take all of the 13 units that came in: the trading fee is shared 6 to 3, the mining reward goes to the provider
  whose share was not locked.\<close>

theorem lp_fees_solvent_witness:
  "run_sum pair_step (fee_paid ''A'') demo_pair_ops (initPoolPairState (demo_contribution ''A'' 10) (demo_contribution ''B'' 20)) = 13 \<and>
   run_sum pair_step (fee_paid ''A'') demo_pair_ops (initPoolPairState (demo_contribution ''A'' 10) (demo_contribution ''B'' 20)) \<le>
   run_sum pair_step (fee_received ''A'') demo_pair_ops (initPoolPairState (demo_contribution ''A'' 10) (demo_contribution ''B'' 20))"
proof
  show "run_sum pair_step (fee_paid ''A'') demo_pair_ops (initPoolPairState (demo_contribution ''A'' 10) (demo_contribution ''B'' 20)) = 13" by code_simp
  have "\<forall>op \<in> set demo_pair_ops. pair_op_ok op" by code_simp
  then show "run_sum pair_step (fee_paid ''A'') demo_pair_ops (initPoolPairState (demo_contribution ''A'' 10) (demo_contribution ''B'' 20)) \<le>
    run_sum pair_step (fee_received ''A'') demo_pair_ops (initPoolPairState (demo_contribution ''A'' 10) (demo_contribution ''B'' 20))"
    by (rule lp_fees_solvent [OF _ refl refl, THEN conjunct1])
qed

end
