(* ===== verification/Pdex_Liquidity_Safety.thy ===== *)
theory Pdex_Liquidity_Safety
  imports Pdex_Pair_Safety
begin

text \<open>
  The tokens of the liquidity providers: contributions wait for their partner, enter a pool or are returned, withdrawals are paid
  from the reserves, and nothing is lost or created. A share never becomes worth less by the contributions and
  withdrawals of others.
\<close>

section \<open>Reserves\<close>

definition reserves_ok :: "Pdexv3PoolPair \<Rightarrow> bool" where
  "reserves_ok tp \<longleftrightarrow> Token0ID tp < Token1ID tp \<and> IsUint64 (Token0RealAmount tp) \<and> IsUint64 (Token1RealAmount tp)"

definition tok_reserve :: "string \<Rightarrow> Pdexv3PoolPair \<Rightarrow> int" where
  "tok_reserve t tp = (if t = Token0ID tp then Token0RealAmount tp else 0) + (if t = Token1ID tp then Token1RealAmount tp else 0)"

definition signed :: "nat \<Rightarrow> int \<Rightarrow> int" where
  "signed op a = (if op = addOperator then a else - a)"

lemma execute_signed:
  assumes "IsUint64 a" and "IsUint64 b" and "op = addOperator \<or> op = subOperator" and "executeOperationUint64 a b op = Inr r"
  shows "r = a + signed op b \<and> IsUint64 r"
  using assms by (auto simp: signed_def IsUint64_def split: if_splits)

lemma new_reserves_real:
  assumes "new_reserves tp real virt amount share op = Inr (r, v)" and "IsUint64 real" and "IsUint64 amount" and "op = addOperator \<or> op = subOperator"
  shows "r = real + signed op amount \<and> IsUint64 r"
  using assms(1) execute_signed [OF assms(2,3,4)] by (auto simp: new_reserves_def Let_def split: if_splits)

lemma updateReserveData_result:
  assumes r: "updateReserveData a0 a1 s op tp = Inr tp'" and tp: "reserves_ok tp" and a: "IsUint64 a0" "IsUint64 a1" and op: "op = addOperator \<or> op = subOperator"
  shows "\<exists>v0 v1. tp' = tp\<lparr>Token0RealAmount := Token0RealAmount tp + signed op a0, Token0VirtualAmount := v0,
     Token1RealAmount := Token1RealAmount tp + signed op a1, Token1VirtualAmount := v1\<rparr> \<and> reserves_ok tp'"
proof -
  have u: "IsUint64 (Token0RealAmount tp)" "IsUint64 (Token1RealAmount tp)" "Token1ID tp \<noteq> Token0ID tp" using tp by (auto simp: reserves_ok_def)
  obtain r0 v0 r1 v1 where n: "new_reserves tp (Token0RealAmount tp) (Token0VirtualAmount tp) a0 s op = Inr (r0, v0)"
    "new_reserves (tp\<lparr>Token0RealAmount := r0, Token0VirtualAmount := v0\<rparr>) (Token1RealAmount tp) (Token1VirtualAmount tp) a1 s op = Inr (r1, v1)"
    and tp': "tp' = tp\<lparr>Token0RealAmount := r0, Token0VirtualAmount := v0, Token1RealAmount := r1, Token1VirtualAmount := v1\<rparr>"
    using r u(3) by (auto simp: updateReserveData_def updateSingleTokenAmount_def)
  from new_reserves_real [OF n(1) u(1) a(1) op] new_reserves_real [OF n(2) u(2) a(2) op] show ?thesis
    using tp by (auto simp: tp' reserves_ok_def)
qed

lemma tok_reserve_update:
  assumes "reserves_ok tp"
  shows "tok_reserve t (tp\<lparr>Token0RealAmount := Token0RealAmount tp + d0, Token0VirtualAmount := v0, Token1RealAmount := Token1RealAmount tp + d1, Token1VirtualAmount := v1\<rparr>) =
    tok_reserve t tp + (if t = Token0ID tp then d0 else 0) + (if t = Token1ID tp then d1 else 0)"
  using assms by (auto simp: tok_reserve_def reserves_ok_def)

lemma execute_uint: "executeOperationUint64 a b op = Inr r \<Longrightarrow> IsUint64 r"
  by (auto simp: executeOperationUint64_def Let_def split: if_splits)

lemma updateShareValue_state:
  "updateShareValue a k op h lb p = Inr p' \<Longrightarrow> \<exists>s l. pp_state p' = (pp_state p)\<lparr>ShareAmount := s, LmLockedShareAmount := l\<rparr> \<and> IsUint64 s"
proof -
  have id2: "(tp\<lparr>ShareAmount := s\<rparr>) = tp\<lparr>ShareAmount := s, LmLockedShareAmount := LmLockedShareAmount tp\<rparr>" for tp :: Pdexv3PoolPair and s by simp
  assume r: "updateShareValue a k op h lb p = Inr p'"
  show ?thesis
  proof (cases "op = addOperator \<and> 0 < lb")
    case True
    then show ?thesis using r unfolding updateShareValue_def Let_def
      by (simp only: True simp_thms if_True) (clarsimp simp: addLmLockedShare_def Let_def, blast dest: execute_uint)
  next
    case False
    then show ?thesis using r unfolding updateShareValue_def Let_def
      by (cases "op = subOperator"; simp only: False if_False if_True simp_thms; clarsimp) (blast dest: execute_uint, metis id2 execute_uint)
  qed
qed

section \<open>Contributed amounts and shares\<close>

lemma isEmptyD: "\<not> isEmpty p \<Longrightarrow> Token0RealAmount (pp_state p) \<noteq> 0 \<and> Token1RealAmount (pp_state p) \<noteq> 0 \<and> ShareAmount (pp_state p) \<noteq> 0"
  by (auto simp: isEmpty_def)

lemma div_le_of_le_mult: "(a::int) \<le> b * c \<Longrightarrow> 0 < c \<Longrightarrow> a div c \<le> b"
  using zdiv_mono1 [of a "b * c" c] by simp

lemma actual_amounts:
  assumes r: "computeActualContributedAmounts p c0 c1 = Inr (a0, ret0, a1, ret1)" and p: "reserves_ok (pp_state p)"
    and c: "IsUint64 (co_amount c0)" "IsUint64 (co_amount c1)"
  shows "a0 + ret0 = co_amount c0 \<and> a1 + ret1 = co_amount c1 \<and> IsUint64 a0 \<and> IsUint64 a1 \<and> 0 \<le> ret0 \<and> 0 \<le> ret1"
proof -
  let ?r0 = "Token0RealAmount (pp_state p)" and ?r1 = "Token1RealAmount (pp_state p)"
  have ne: "\<not> isEmpty p" using r by (auto simp: computeActualContributedAmounts_def)
  then have r0: "0 < ?r0" "0 < ?r1" using isEmptyD [OF ne] p by (auto simp: reserves_ok_def IsUint64_def)
  define tmp where "tmp = co_amount c1 * ?r0 div ?r1"
  have a: "a0 = (if tmp > co_amount c0 then co_amount c0 else tmp)" "a1 = a0 * ?r1 div ?r0" "IsUint64 a0" "IsUint64 a1"
    "ret0 = to_uint64 (co_amount c0 - a0)" "ret1 = to_uint64 (co_amount c1 - a1)"
    using r ne r0 by (auto simp: computeActualContributedAmounts_def tmp_def Let_def split: if_splits)
  have "a0 \<le> co_amount c0" "a0 \<le> tmp" using a(1) by auto
  have "a0 * ?r1 \<le> tmp * ?r1" using \<open>a0 \<le> tmp\<close> r0 by simp
  also have "\<dots> \<le> co_amount c1 * ?r0" unfolding tmp_def using scaled_div_le [OF r0(2), of "co_amount c1 * ?r0"] by (simp add: mult.commute)
  finally have "a1 \<le> co_amount c1" unfolding a(2) using r0 by (intro div_le_of_le_mult)
  then show ?thesis using a(3-6) c \<open>a0 \<le> co_amount c0\<close> by (simp add: IsUint64_def to_uint64_def)
qed

text \<open>A new share is at most proportional to both amounts, a paid amount at most proportional to the share.\<close>

lemma share_proportional:
  assumes r: "calculateShareAmount p a0 a1 = Inr s" and p: "\<not> isEmpty p" "reserves_ok (pp_state p)" and a: "0 \<le> a0" "0 \<le> a1" "0 \<le> ShareAmount (pp_state p)"
  shows "IsUint64 s" and "s * Token0RealAmount (pp_state p) \<le> a0 * ShareAmount (pp_state p)" and "s * Token1RealAmount (pp_state p) \<le> a1 * ShareAmount (pp_state p)"
proof -
  let ?r0 = "Token0RealAmount (pp_state p)" and ?r1 = "Token1RealAmount (pp_state p)" and ?S = "ShareAmount (pp_state p)"
  have r0: "0 < ?r0" "0 < ?r1" using isEmptyD [OF p(1)] p(2) by (auto simp: reserves_ok_def IsUint64_def)
  have s: "s = min (to_uint64 (a0 * ?S div ?r0)) (to_uint64 (a1 * ?S div ?r1))"
    using r r0 by (auto simp: calculateShareAmount_def CalculateShareAmount_def)
  then show "IsUint64 s" by (auto simp: min_def)
  have wrap: "to_uint64 x \<le> x" if "0 \<le> x" for x :: int using that zmod_le_nonneg_dividend [of x "2 ^ 64"] by (simp add: to_uint64_def)
  have "to_uint64 (a0 * ?S div ?r0) \<le> a0 * ?S div ?r0" "to_uint64 (a1 * ?S div ?r1) \<le> a1 * ?S div ?r1"
    using r0 a by (auto intro!: wrap simp: pos_imp_zdiv_nonneg_iff)
  then have le: "s \<le> a0 * ?S div ?r0" "s \<le> a1 * ?S div ?r1" using s by linarith+
  then have "s * ?r0 \<le> a0 * ?S div ?r0 * ?r0" "s * ?r1 \<le> a1 * ?S div ?r1 * ?r1" using r0 by (auto intro!: mult_right_mono)
  then show "s * ?r0 \<le> a0 * ?S" "s * ?r1 \<le> a1 * ?S"
    using scaled_div_le [OF r0(1), of "a0 * ?S"] scaled_div_le [OF r0(2), of "a1 * ?S"] by (simp_all add: mult.commute)
qed

lemma addReserve_result:
  assumes r: "addReserveDataAndCalculateShare t0 t1 a0 a1 p = Inr (s, p')" and t: "t0 < t1" and p: "\<not> isEmpty p" "reserves_ok (pp_state p)"
    and a: "IsUint64 a0" "IsUint64 a1"
  shows "\<exists>v0 v1. p' = p\<lparr>pp_state := (pp_state p)\<lparr>Token0RealAmount := Token0RealAmount (pp_state p) + a0, Token0VirtualAmount := v0,
     Token1RealAmount := Token1RealAmount (pp_state p) + a1, Token1VirtualAmount := v1\<rparr>\<rparr> \<and> reserves_ok (pp_state p') \<and> calculateShareAmount p a0 a1 = Inr s"
proof -
  obtain tp where "calculateShareAmount p a0 a1 = Inr s" and tp: "updateReserveData a0 a1 s addOperator (pp_state p) = Inr tp" "p' = p\<lparr>pp_state := tp\<rparr>"
    using r t by (auto simp: addReserveDataAndCalculateShare_def)
  then show ?thesis using updateReserveData_result [OF tp(1) p(2) a] by (auto simp: signed_def)
qed

lemma deductShare_result:
  assumes r: "deductShare k amount p = Inr (x0, x1, taken, p')" and p: "reserves_ok (pp_state p)" and S: "0 < ShareAmount (pp_state p)"
  shows "\<exists>sh v0 v1. map_of (pp_shares p) k = Some sh \<and> amount \<noteq> 0 \<and> sh_amount sh \<noteq> 0 \<and> taken = min (sh_amount sh) amount \<and>
    x0 = to_uint64 (Token0RealAmount (pp_state p) * taken div ShareAmount (pp_state p)) \<and>
    x1 = to_uint64 (Token1RealAmount (pp_state p) * taken div ShareAmount (pp_state p)) \<and>
    updateShareValue taken k subOperator 0 0 (p\<lparr>pp_state := (pp_state p)\<lparr>Token0RealAmount := Token0RealAmount (pp_state p) - x0, Token0VirtualAmount := v0,
      Token1RealAmount := Token1RealAmount (pp_state p) - x1, Token1VirtualAmount := v1\<rparr>\<rparr>) = Inr p' \<and>
    x0 \<le> Token0RealAmount (pp_state p) \<and> x1 \<le> Token1RealAmount (pp_state p)"
proof -
  obtain sh where sh: "map_of (pp_shares p) k = Some sh" using r by (auto simp: deductShare_def split: option.splits if_splits)
  have m: "(if sh_amount sh < amount then sh_amount sh else amount) = min (sh_amount sh) amount" by simp
  obtain tp where tp: "updateReserveData x0 x1 taken subOperator (pp_state p) = Inr tp" "updateShareValue taken k subOperator 0 0 (p\<lparr>pp_state := tp\<rparr>) = Inr p'"
    and x: "x0 = to_uint64 (Token0RealAmount (pp_state p) * taken div ShareAmount (pp_state p))" "x1 = to_uint64 (Token1RealAmount (pp_state p) * taken div ShareAmount (pp_state p))"
    and t: "amount \<noteq> 0" "sh_amount sh \<noteq> 0" "taken = min (sh_amount sh) amount"
    using r S sh by (auto simp: deductShare_def Let_def m split: if_splits)
  have u: "IsUint64 x0" "IsUint64 x1" by (simp_all add: x)
  from updateReserveData_result [OF tp(1) p u] obtain v0 v1 where
    tp': "tp = (pp_state p)\<lparr>Token0RealAmount := Token0RealAmount (pp_state p) - x0, Token0VirtualAmount := v0,
      Token1RealAmount := Token1RealAmount (pp_state p) - x1, Token1VirtualAmount := v1\<rparr>" "reserves_ok tp" by (auto simp: signed_def)
  then have "x0 \<le> Token0RealAmount (pp_state p)" "x1 \<le> Token1RealAmount (pp_state p)" by (auto simp: reserves_ok_def IsUint64_def)
  then show ?thesis using sh t x tp(2) tp'(1) by blast
qed

section \<open>The value of a share\<close>

lemma share_le_total: "shares_ok p \<Longrightarrow> map_of (pp_shares p) k = Some sh \<Longrightarrow> 0 \<le> sh_amount sh \<and> sh_amount sh \<le> ShareAmount (pp_state p)"
proof -
  assume ok: "shares_ok p" and k: "map_of (pp_shares p) k = Some sh"
  have "(\<lambda>(_, sh). sh_amount sh) (k, sh) \<le> al_sum (\<lambda>(_, sh). sh_amount sh) (pp_shares p)"
    using ok by (intro al_sum_member) (auto simp: shares_ok_def share_ok_def IsUint64_def map_of_SomeD [OF k])
  then show ?thesis using ok shares_ok_share [OF ok k] by (simp add: shares_ok_def share_ok_def IsUint64_def)
qed

lemma ShareAmount_after:
  assumes "updateShareValue a k op h lb p = Inr p'" and "shares_ok p" and "IsUint64 a" and "HashFromStr k = Some k" and "op = addOperator \<or> op = subOperator"
  shows "ShareAmount (pp_state p') = ShareAmount (pp_state p) + signed op a"
    and "Token0RealAmount (pp_state p') = Token0RealAmount (pp_state p)" and "Token1RealAmount (pp_state p') = Token1RealAmount (pp_state p)"
  using updateShareValue_result [OF assms(2,3,4,5,1)] by (auto simp: signed_def)

lemma paid_proportional:
  fixes r S t :: int
  assumes "IsUint64 r" and "0 \<le> t" and "t \<le> S" and "0 < S"
  shows "to_uint64 (r * t div S) = r * t div S" and "(r * t div S) * S \<le> r * t" and "0 \<le> r * t div S" and "r * t div S \<le> r"
proof -
  have "0 \<le> r" using assms(1) by (simp add: IsUint64_def)
  then have "r * t \<le> r * S" using assms(3) by (simp add: mult_left_mono)
  then show le: "r * t div S \<le> r" using assms(4) by (intro div_le_of_le_mult)
  show ge: "0 \<le> r * t div S" using \<open>0 \<le> r\<close> assms(2,4) by (simp add: pos_imp_zdiv_nonneg_iff)
  show "to_uint64 (r * t div S) = r * t div S" using le ge assms(1) by (intro to_uint64_id) (simp add: IsUint64_def)
  show "(r * t div S) * S \<le> r * t" using scaled_div_le [OF assms(4), of "r * t"] by (simp add: mult.commute)
qed

lemma value_after_payment: "x * S \<le> r * t \<Longrightarrow> r * (S - t) \<le> (r - x) * (S::int)"
  by (simp add: algebra_simps)

lemma share_value_parts:
  assumes p: "pair_ok p" "reserves_ok (pp_state p)" "\<not> isEmpty p" and S: "S = ShareAmount (pp_state p)"
    and r: "r0 = Token0RealAmount (pp_state p)" "r1 = Token1RealAmount (pp_state p)"
  shows "\<lbrakk>addReserveDataAndCalculateShare t0 t1 a0 a1 p = Inr (s, q); addShare k s h lb q = Inr p'; t0 < t1; IsUint64 a0; IsUint64 a1; HashFromStr k = Some k\<rbrakk>
      \<Longrightarrow> r0 * ShareAmount (pp_state p') \<le> Token0RealAmount (pp_state p') * S \<and> r1 * ShareAmount (pp_state p') \<le> Token1RealAmount (pp_state p') * S"
    and "\<lbrakk>deductShare k amount p = Inr (x0, x1, taken, p'); IsUint64 amount\<rbrakk>
      \<Longrightarrow> x0 = r0 * taken div S \<and> x1 = r1 * taken div S \<and> Token0RealAmount (pp_state p') = r0 - x0 \<and> Token1RealAmount (pp_state p') = r1 - x1 \<and>
        r0 * ShareAmount (pp_state p') \<le> Token0RealAmount (pp_state p') * S \<and> r1 * ShareAmount (pp_state p') \<le> Token1RealAmount (pp_state p') * S"
proof -
  have ok: "shares_ok p" and S0: "0 < S" using p isEmptyD [OF p(3)] unfolding S by (auto simp: pair_ok_def shares_ok_def IsUint64_def)
  {
    assume a: "addReserveDataAndCalculateShare t0 t1 a0 a1 p = Inr (s, q)" "addShare k s h lb q = Inr p'" "t0 < t1" "IsUint64 a0" "IsUint64 a1" "HashFromStr k = Some k"
    from addReserve_result [OF a(1,3) p(3,2) a(4,5)] obtain v0 v1 where q: "q = p\<lparr>pp_state := (pp_state p)\<lparr>Token0RealAmount := r0 + a0, Token0VirtualAmount := v0,
      Token1RealAmount := r1 + a1, Token1VirtualAmount := v1\<rparr>\<rparr>" and s: "calculateShareAmount p a0 a1 = Inr s" unfolding r by blast
    note sp = share_proportional [OF s p(3,2)]
    have u: "IsUint64 s" "s * r0 \<le> a0 * S" "s * r1 \<le> a1 * S" using sp a(4,5) S0 unfolding S r by (auto simp: IsUint64_def)
    have "shares_ok q" using ok by (simp add: q shares_ok_state(1))
    from ShareAmount_after [OF a(2) [unfolded addShare_def] this u(1) a(6)] have
      "ShareAmount (pp_state p') = S + s" "Token0RealAmount (pp_state p') = r0 + a0" "Token1RealAmount (pp_state p') = r1 + a1"
      by (simp_all add: q signed_def S)
    then show "r0 * ShareAmount (pp_state p') \<le> Token0RealAmount (pp_state p') * S \<and> r1 * ShareAmount (pp_state p') \<le> Token1RealAmount (pp_state p') * S"
      using u(2,3) by (simp add: algebra_simps)
  }
  {
    assume a: "deductShare k amount p = Inr (x0, x1, taken, p')" "IsUint64 amount"
    from deductShare_result [OF a(1) p(2)] S0 obtain sh v0 v1 where d: "map_of (pp_shares p) k = Some sh" "taken = min (sh_amount sh) amount"
      "x0 = to_uint64 (r0 * taken div S)" "x1 = to_uint64 (r1 * taken div S)"
      "updateShareValue taken k subOperator 0 0 (p\<lparr>pp_state := (pp_state p)\<lparr>Token0RealAmount := r0 - x0, Token0VirtualAmount := v0,
        Token1RealAmount := r1 - x1, Token1VirtualAmount := v1\<rparr>\<rparr>) = Inr p'" unfolding S r by blast
    have t: "0 \<le> taken" "taken \<le> S" "IsUint64 taken" "HashFromStr k = Some k"
      using share_le_total [OF ok d(1)] d(2) a(2) shares_ok_share [OF ok d(1)] unfolding S by (auto simp: share_ok_def IsUint64_def)
    have u: "IsUint64 r0" "IsUint64 r1" using p(2) by (auto simp: reserves_ok_def r)
    note p0 = paid_proportional [OF u(1) t(1,2) S0] and p1 = paid_proportional [OF u(2) t(1,2) S0]
    let ?q = "p\<lparr>pp_state := (pp_state p)\<lparr>Token0RealAmount := r0 - x0, Token0VirtualAmount := v0, Token1RealAmount := r1 - x1, Token1VirtualAmount := v1\<rparr>\<rparr>"
    have "shares_ok ?q" using ok by (simp add: shares_ok_state(1))
    from ShareAmount_after [OF d(5) this t(3,4)] have "ShareAmount (pp_state p') = S - taken" "Token0RealAmount (pp_state p') = r0 - x0" "Token1RealAmount (pp_state p') = r1 - x1"
      by (simp_all add: signed_def S)
    then show "x0 = r0 * taken div S \<and> x1 = r1 * taken div S \<and> Token0RealAmount (pp_state p') = r0 - x0 \<and> Token1RealAmount (pp_state p') = r1 - x1 \<and>
        r0 * ShareAmount (pp_state p') \<le> Token0RealAmount (pp_state p') * S \<and> r1 * ShareAmount (pp_state p') \<le> Token1RealAmount (pp_state p') * S"
      using p0(1) p1(1) d(3,4) value_after_payment [OF p0(2)] value_after_payment [OF p1(2)] by simp
  }
qed

text \<open>C22. A share never loses value through the liquidity of others: after a contribution to a pool, and after a withdrawal from it, the
  reserves of both tokens per share of the pool are at least what they were (compared by cross multiplication), and a withdrawal pays for the
  deducted share exactly its part of both reserves, rounded down.\<close>

theorem share_value_kept:
  assumes "pair_ok p" "reserves_ok (pp_state p)" "\<not> isEmpty p" and "S = ShareAmount (pp_state p)"
    and "r0 = Token0RealAmount (pp_state p)" "r1 = Token1RealAmount (pp_state p)"
  shows "(\<forall>t0 t1 a0 a1 s q k h lb p'. addReserveDataAndCalculateShare t0 t1 a0 a1 p = Inr (s, q) \<and> addShare k s h lb q = Inr p' \<and> t0 < t1 \<and>
        IsUint64 a0 \<and> IsUint64 a1 \<and> HashFromStr k = Some k \<longrightarrow>
        r0 * ShareAmount (pp_state p') \<le> Token0RealAmount (pp_state p') * S \<and> r1 * ShareAmount (pp_state p') \<le> Token1RealAmount (pp_state p') * S) \<and>
    (\<forall>k amount x0 x1 taken p'. deductShare k amount p = Inr (x0, x1, taken, p') \<and> IsUint64 amount \<longrightarrow>
        x0 = r0 * taken div S \<and> x1 = r1 * taken div S \<and> Token0RealAmount (pp_state p') = r0 - x0 \<and> Token1RealAmount (pp_state p') = r1 - x1 \<and>
        r0 * ShareAmount (pp_state p') \<le> Token0RealAmount (pp_state p') * S \<and> r1 * ShareAmount (pp_state p') \<le> Token1RealAmount (pp_state p') * S)"
  using share_value_parts [OF assms] by blast

definition demo_pool_pair :: PoolPairState where
  "demo_pool_pair = \<lparr>pp_makingVolume = [], pp_state = \<lparr>Token0ID = ''A'', Token1ID = ''B'', ShareAmount = 40, LmLockedShareAmount = 0,
     Token0RealAmount = 20, Token1RealAmount = 80, Token0VirtualAmount = 20, Token1VirtualAmount = 80, Amplifier = 1\<rparr>,
     pp_shares = [(demo_nft CHR ''1'', \<lparr>sh_amount = 40, sh_lmLockedAmount = 0, sh_tradingFees = [], sh_lastLPFeesPerShare = [], sh_lastLmRewardsPerShare = []\<rparr>)],
     pp_orderRewards = [], pp_orderbook = [], pp_lpFeesPerShare = [], pp_lmRewardsPerShare = [], pp_protocolFees = [], pp_stakingPoolFees = [],
     pp_lmLockedShare = []\<rparr>"

lemma demo_pool_pair_ok: "pair_ok demo_pool_pair" "reserves_ok (pp_state demo_pool_pair)" "\<not> isEmpty demo_pool_pair"
proof -
  have "HashFromStr (demo_nft CHR ''1'') = Some (demo_nft CHR ''1'')" by code_simp
  then show "pair_ok demo_pool_pair"
    by (simp add: pair_ok_def shares_ok_def locks_ok_def demo_pool_pair_def share_ok_def below_def IsUint64_def al_sum_def)
  show "reserves_ok (pp_state demo_pool_pair)" by code_simp
  show "\<not> isEmpty demo_pool_pair" by code_simp
qed

theorem share_value_kept_witness:
  "\<exists>p'. deductShare (demo_nft CHR ''1'') 13 demo_pool_pair = Inr (6, 26, 13, p') \<and> 20 * ShareAmount (pp_state p') \<le> Token0RealAmount (pp_state p') * 40"
proof -
  have "map_sum id (\<lambda>(x0, x1, t, _). (x0, x1, t)) (deductShare (demo_nft CHR ''1'') 13 demo_pool_pair) = Inr (6, 26, 13)" by code_simp
  then obtain p' where p': "deductShare (demo_nft CHR ''1'') 13 demo_pool_pair = Inr (6, 26, 13, p')"
    by (cases "deductShare (demo_nft CHR ''1'') 13 demo_pool_pair") auto
  have "IsUint64 13" by (simp add: IsUint64_def)
  with share_value_kept [OF demo_pool_pair_ok refl refl refl, THEN conjunct2] p' have
    "Token0RealAmount (pp_state demo_pool_pair) * ShareAmount (pp_state p') \<le> Token0RealAmount (pp_state p') * ShareAmount (pp_state demo_pool_pair)" by blast
  then have "20 * ShareAmount (pp_state p') \<le> Token0RealAmount (pp_state p') * 40" by (simp add: demo_pool_pair_def)
  then show ?thesis using p' by blast
qed

end
