(* ===== verification/Pdex_Liquidity_Books.thy ===== *)
theory Pdex_Liquidity_Books
  imports Pdex_Liquidity_Safety
begin

text \<open>
  The books of the liquidity requests: over any run of the producers \<^verbatim>\<open>addLiquidity\<close> and \<^verbatim>\<open>withdrawLiquidity\<close>, what was contributed of a token
  is in the reserves, waiting, or returned by an instruction.
\<close>

section \<open>What the exchange holds\<close>

definition token_part :: "string \<Rightarrow> Pdexv3Contribution \<Rightarrow> int" where
  "token_part t c = (if co_tokenID c = t then co_amount c else 0)"

definition reserves_of :: "string \<Rightarrow> pairs \<Rightarrow> int" where
  "reserves_of t pairs = al_sum (\<lambda>(_, p). tok_reserve t (pp_state p)) pairs"

definition waiting_of :: "string \<Rightarrow> contributions \<Rightarrow> int" where
  "waiting_of t waitings = al_sum (\<lambda>(_, c). token_part t c) waitings"

text \<open>What an instruction gives back to a user.\<close>

definition inst_returned :: "string \<Rightarrow> 'r liquidity_inst \<Rightarrow> int" where
  "inst_returned t inst = (case inst of
      RefundAddLiquidity c \<Rightarrow> token_part t (cs_value c)
    | MatchAndReturnInst m \<Rightarrow> if co_tokenID (cs_value (mr_contribution m)) = t then mr_returnAmount m else 0
    | AcceptWithdrawInst a \<Rightarrow> if aw_tokenID a = t then aw_tokenAmount a else 0
    | _ \<Rightarrow> 0)"

definition returned :: "string \<Rightarrow> 'r liquidity_inst list \<Rightarrow> int" where
  "returned t insts = sum_list (map (inst_returned t) insts)"

lemma returned_simps [simp]: "returned t [] = 0" "returned t (i # insts) = inst_returned t i + returned t insts" "returned t (xs @ ys) = returned t xs + returned t ys"
  by (simp_all add: returned_def)

lemma inst_returned_simps [simp]:
  "inst_returned t (WaitingAddLiquidity c) = 0" "inst_returned t (RefundAddLiquidity c) = token_part t (cs_value c)" "inst_returned t (MatchAddLiquidity c pid) = 0"
  "inst_returned t (MatchAndReturnInst m) = (if co_tokenID (cs_value (mr_contribution m)) = t then mr_returnAmount m else 0)"
  "inst_returned t (AcceptWithdrawInst a) = (if aw_tokenID a = t then aw_tokenAmount a else 0)" "inst_returned t (RejectWithdrawInst x n) = 0"
  "inst_returned t (LiquidityNftInst x nft) = 0"
  by (simp_all add: inst_returned_def)

text \<open>A pool is filed under the key of its two tokens; contributions name tokens by printed hashes.\<close>

definition filed :: "string \<times> PoolPairState \<Rightarrow> bool" where
  "filed = (\<lambda>(pid, p). reserves_ok (pp_state p) \<and> 0 \<le> ShareAmount (pp_state p) \<and>
     take 2 (go_split CHR ''-'' pid) = [Token0ID (pp_state p), Token1ID (pp_state p)])"

definition contribution_ok :: "Pdexv3Contribution \<Rightarrow> bool" where
  "contribution_ok c \<longleftrightarrow> IsUint64 (co_amount c) \<and> CHR ''-'' \<notin> set (co_tokenID c) \<and> CHR ''-'' \<notin> set (co_txReqID c)"

definition pairs_ok :: "pairs \<Rightarrow> bool" where
  "pairs_ok pairs \<longleftrightarrow> distinct (map fst pairs) \<and> (\<forall>x \<in> set pairs. filed x)"

definition dex_ok :: "pairs \<times> contributions \<Rightarrow> bool" where
  "dex_ok = (\<lambda>(pairs, waitings). pairs_ok pairs \<and> distinct (map fst waitings) \<and> (\<forall>c \<in> snd ` set waitings. contribution_ok c))"

lemma al_sum_del: "distinct (map fst m) \<Longrightarrow> al_sum f (al_del k m) = al_sum f m - (case map_of m k of None \<Rightarrow> 0 | Some v \<Rightarrow> f (k, v))"
proof (induction m)
  case (Cons x m)
  obtain a b where x: "x = (a, b)" by fastforce
  have "al_del a m = m" if "a \<notin> fst ` set m" using that by (force simp: al_del_def filter_id_conv)
  then show ?case using Cons by (auto simp: x al_del_def al_sum_def split: option.splits)
qed (simp add: al_del_def)

lemma pairs_ok_pair: "pairs_ok pairs \<Longrightarrow> map_of pairs pid = Some p \<Longrightarrow> filed (pid, p)"
  by (auto simp: pairs_ok_def dest: map_of_SomeD)

lemma pairs_ok_put: "pairs_ok pairs \<Longrightarrow> filed (pid, p) \<Longrightarrow> pairs_ok (al_put pid p pairs)"
  by (auto simp: pairs_ok_def set_al_put)

lemma reserves_put:
  "pairs_ok pairs \<Longrightarrow> reserves_of t (al_put pid p pairs) = reserves_of t pairs + tok_reserve t (pp_state p) -
     (case map_of pairs pid of None \<Rightarrow> 0 | Some q \<Rightarrow> tok_reserve t (pp_state q))"
  unfolding reserves_of_def pairs_ok_def by (simp add: al_sum_put cong: option.case_cong)

lemma hex_no_hyphen: "HashFromStr s = Some h \<Longrightarrow> CHR ''-'' \<notin> set h"
proof -
  have "is_hex c \<Longrightarrow> hex_lower c \<noteq> CHR ''-''" for c by (auto simp: is_hex_def hex_lower_def)
  then show "HashFromStr s = Some h \<Longrightarrow> CHR ''-'' \<notin> set h"
    by (fastforce simp: HashFromStr_def list_all_iff split: if_splits)
qed

lemma split_key: "CHR ''-'' \<notin> set a \<Longrightarrow> CHR ''-'' \<notin> set b \<Longrightarrow> CHR ''-'' \<notin> set c \<Longrightarrow> go_split CHR ''-'' (go_join CHR ''-'' [a, b, c]) = [a, b, c]"
  by (intro go_split_join) auto

section \<open>Contributions\<close>

lemma addShare_state:
  assumes "addShare k a h lb p = Inr p'"
  shows "tok_reserve t (pp_state p') = tok_reserve t (pp_state p)" and "reserves_ok (pp_state p') = reserves_ok (pp_state p)"
    and "Token0ID (pp_state p') = Token0ID (pp_state p)" and "Token1ID (pp_state p') = Token1ID (pp_state p)" and "0 \<le> ShareAmount (pp_state p')"
proof -
  obtain s l where s: "pp_state p' = (pp_state p)\<lparr>ShareAmount := s, LmLockedShareAmount := l\<rparr>" "IsUint64 s"
    using assms updateShareValue_state unfolding addShare_def by blast
  show "tok_reserve t (pp_state p') = tok_reserve t (pp_state p)" "reserves_ok (pp_state p') = reserves_ok (pp_state p)"
    "Token0ID (pp_state p') = Token0ID (pp_state p)" "Token1ID (pp_state p') = Token1ID (pp_state p)"
    by (simp_all add: s tok_reserve_def reserves_ok_def)
  show "0 \<le> ShareAmount (pp_state p')" using s by (simp add: IsUint64_def)
qed

lemma init_fields:
  "Token0ID (pp_state (initPoolPairState w i)) = (if co_tokenID i < co_tokenID w then co_tokenID i else co_tokenID w)"
  "Token1ID (pp_state (initPoolPairState w i)) = (if co_tokenID i < co_tokenID w then co_tokenID w else co_tokenID i)"
  "Token0RealAmount (pp_state (initPoolPairState w i)) = (if co_tokenID i < co_tokenID w then co_amount i else co_amount w)"
  "Token1RealAmount (pp_state (initPoolPairState w i)) = (if co_tokenID i < co_tokenID w then co_amount w else co_amount i)"
  by (simp_all add: initPoolPairState_def Let_def case_prod_unfold)

text \<open>The first contributions make a new pool under a key that was free.\<close>

lemma contribute_new_books:
  assumes r: "contribute_new h pairHash nft pid w i pairs = Inr (pairs', insts)" and pairs: "pairs_ok pairs" "map_of pairs pid = None"
    and c: "contribution_ok w" "contribution_ok i" "co_tokenID w \<noteq> co_tokenID i" and pid: "pid = generatePoolPairKey (co_tokenID w) (co_tokenID i) (co_txReqID w)"
  shows "pairs_ok pairs' \<and> (\<forall>t. reserves_of t pairs' + returned t insts = reserves_of t pairs + token_part t w + token_part t i)"
proof -
  let ?q = "initPoolPairState w i"
  have q: "tok_reserve t (pp_state ?q) = token_part t w + token_part t i" for t
    using c(3) by (cases "co_tokenID i < co_tokenID w") (auto simp: init_fields tok_reserve_def token_part_def)
  have qo: "reserves_ok (pp_state ?q)" using c by (auto simp: init_fields reserves_ok_def contribution_ok_def)
  have "CHR ''-'' \<notin> set (co_tokenID w)" "CHR ''-'' \<notin> set (co_tokenID i)" "CHR ''-'' \<notin> set (co_txReqID w)" using c by (auto simp: contribution_ok_def)
  then have "go_split CHR ''-'' pid = (if co_tokenID w \<le> co_tokenID i then [co_tokenID w, co_tokenID i, co_txReqID w] else [co_tokenID i, co_tokenID w, co_txReqID w])"
    unfolding pid generatePoolPairKey_def by (cases "co_tokenID w \<le> co_tokenID i") (simp_all add: split_key del: go_join.simps)
  then have k: "take 2 (go_split CHR ''-'' pid) = [Token0ID (pp_state ?q), Token1ID (pp_state ?q)]"
    using c(3) by (cases "co_tokenID w \<le> co_tokenID i") (auto simp: init_fields)
  from r obtain p where "(pairs', insts) = (al_put pid p pairs, [MatchAddLiquidity \<lparr>cs_value = i, cs_pairHash = pairHash\<rparr> pid]) \<and> (\<exists>s. addShare nft s h 0 ?q = Inr p)
      \<or> (pairs', insts) = (pairs, BuildRefundAddLiquidityInstructions \<lparr>cs_value = w, cs_pairHash = pairHash\<rparr> \<lparr>cs_value = i, cs_pairHash = pairHash\<rparr>)"
    by (auto simp: contribute_new_def Let_def go_catch_eq_Inr)
  then show ?thesis
  proof
    assume "(pairs', insts) = (al_put pid p pairs, [MatchAddLiquidity \<lparr>cs_value = i, cs_pairHash = pairHash\<rparr> pid]) \<and> (\<exists>s. addShare nft s h 0 ?q = Inr p)"
    then obtain s where s: "addShare nft s h 0 ?q = Inr p" "pairs' = al_put pid p pairs" "insts = [MatchAddLiquidity \<lparr>cs_value = i, cs_pairHash = pairHash\<rparr> pid]" by auto
    have "filed (pid, p)" using addShare_state [OF s(1)] qo k by (simp add: filed_def)
    then show ?thesis using pairs s(2,3) q addShare_state(1) [OF s(1)] by (simp add: pairs_ok_put reserves_put)
  next
    assume "(pairs', insts) = (pairs, BuildRefundAddLiquidityInstructions \<lparr>cs_value = w, cs_pairHash = pairHash\<rparr> \<lparr>cs_value = i, cs_pairHash = pairHash\<rparr>)"
    then show ?thesis using pairs by (simp add: BuildRefundAddLiquidityInstructions_def)
  qed
qed

lemma contribute_existing_books:
  assumes r: "contribute_existing h params pairHash nft pid w i root pairs = Inr (pairs', insts)" and pairs: "pairs_ok pairs" "map_of pairs pid = Some root"
    and c: "contribution_ok w" "contribution_ok i" "co_tokenID w \<noteq> co_tokenID i" and v: "validateTokenIDsByPoolPairID [co_tokenID w, co_tokenID i] pid"
  shows "pairs_ok pairs' \<and> (\<forall>t. reserves_of t pairs' + returned t insts = reserves_of t pairs + token_part t w + token_part t i)"
proof -
  have f: "filed (pid, root)" using pairs by (rule pairs_ok_pair)
  then have ro: "reserves_ok (pp_state root)" and k: "take 2 (go_split CHR ''-'' pid) = [Token0ID (pp_state root), Token1ID (pp_state root)]" by (auto simp: filed_def)
  have tt: "{co_tokenID w, co_tokenID i} = {Token0ID (pp_state root), Token1ID (pp_state root)}"
    using v k c(3) by (auto simp: validateTokenIDsByPoolPairID_def split: list.splits)
  obtain c0 c1 where cc: "getContributionsByOrder root w i = (c0, c1)" by fastforce
  have c01: "co_tokenID c0 = Token0ID (pp_state root)" "co_tokenID c1 = Token1ID (pp_state root)" "IsUint64 (co_amount c0)" "IsUint64 (co_amount c1)"
    and sum: "\<And>t. token_part t c0 + token_part t c1 = token_part t w + token_part t i"
    using cc tt c by (auto simp: getContributionsByOrder_def contribution_ok_def doubleton_eq_iff split: if_splits)
  have lt: "co_tokenID c0 < co_tokenID c1" using ro c01 by (simp add: reserves_ok_def)
  let ?s0 = "\<lparr>cs_value = c0, cs_pairHash = pairHash\<rparr>" and ?s1 = "\<lparr>cs_value = c1, cs_pairHash = pairHash\<rparr>"
  consider (refund) "pairs' = pairs" "insts = BuildRefundAddLiquidityInstructions ?s0 ?s1"
    | (accept) a0 ret0 a1 ret1 s q p where "computeActualContributedAmounts root c0 c1 = Inr (a0, ret0, a1, ret1)"
      "addReserveDataAndCalculateShare (co_tokenID c0) (co_tokenID c1) a0 a1 root = Inr (s, q)" "addShare nft s h (locked_blocks params pid) q = Inr p"
      "pairs' = al_put pid p pairs" "insts = BuildMatchAndReturnAddLiquidityInstructions ?s0 ?s1 s ret0 a0 ret1 a1"
    using r by (auto simp: contribute_existing_def cc Let_def go_catch_eq_Inr split: if_splits)
  then show ?thesis
  proof cases
    case refund
    then show ?thesis using pairs(1) sum by (simp add: BuildRefundAddLiquidityInstructions_def)
  next
    case accept
    note a = actual_amounts [OF accept(1) ro c01(3,4)]
    have ne: "\<not> isEmpty root" using accept(1) by (auto simp: computeActualContributedAmounts_def)
    from addReserve_result [OF accept(2) lt ne ro] a obtain v0 v1 where q: "pp_state q = (pp_state root)\<lparr>Token0RealAmount := Token0RealAmount (pp_state root) + a0, Token0VirtualAmount := v0,
      Token1RealAmount := Token1RealAmount (pp_state root) + a1, Token1VirtualAmount := v1\<rparr>" "reserves_ok (pp_state q)" by auto
    note st = addShare_state [OF accept(3)]
    have "filed (pid, p)" using st q k by (simp add: filed_def)
    moreover have "tok_reserve t (pp_state p) = tok_reserve t (pp_state root) + (if t = Token0ID (pp_state root) then a0 else 0) + (if t = Token1ID (pp_state root) then a1 else 0)" for t
      unfolding st(1) q(1) using ro by (rule tok_reserve_update)
    moreover have "returned t insts + (if t = Token0ID (pp_state root) then a0 else 0) + (if t = Token1ID (pp_state root) then a1 else 0) = token_part t w + token_part t i" for t
      using a c01(1,2) lt unfolding sum [symmetric] by (auto simp: accept(5) BuildMatchAndReturnAddLiquidityInstructions_def token_part_def)
    ultimately show ?thesis using pairs accept(4) by (auto simp: pairs_ok_put reserves_put algebra_simps)
  qed
qed

lemma contribute_pair_books:
  fixes insts :: "'a liquidity_inst list"
  assumes r: "contribute_pair h params md w i pairs = Inr (pairs', insts)" and pairs: "pairs_ok pairs"
    and c: "contribution_ok w" "contribution_ok i" and i: "co_tokenID i = lr_tokenID md"
  shows "pairs_ok pairs' \<and> (\<forall>t. reserves_of t pairs' + returned t insts = reserves_of t pairs + token_part t w + token_part t i)"
proof -
  let ?refund = "BuildRefundAddLiquidityInstructions \<lparr>cs_value = w, cs_pairHash = lr_pairHash md\<rparr> \<lparr>cs_value = i, cs_pairHash = lr_pairHash md\<rparr>"
  define pid where "pid = (if co_poolPairID w = [] then generatePoolPairKey (co_tokenID w) (lr_tokenID md) (co_txReqID w) else co_poolPairID w)"
  have r': "(if contribution_mismatch w i then Inr (pairs, ?refund)
     else case HashFromStr (lr_nftID md) of None \<Rightarrow> Inl (GoErr ''NewHashFromStr'')
       | Some nft \<Rightarrow> (case map_of pairs pid of
            None \<Rightarrow> if co_poolPairID w = [] then contribute_new h (lr_pairHash md) nft pid w i pairs else Inr (pairs, ?refund)
          | Some root \<Rightarrow> if \<not> validateTokenIDsByPoolPairID [co_tokenID w, co_tokenID i] pid then Inr (pairs, ?refund)
              else contribute_existing h params (lr_pairHash md) nft pid w i root pairs)) = Inr (pairs', insts)"
    using r unfolding contribute_pair_def Let_def pid_def .
  have refund: ?thesis if "Inr (pairs, ?refund) = (Inr (pairs', insts) :: (pairs \<times> 'a liquidity_inst list) go)"
    using that pairs by (auto simp: BuildRefundAddLiquidityInstructions_def)
  show ?thesis
  proof (cases "contribution_mismatch w i")
    case True
    then show ?thesis using r' refund by simp
  next
    case False
    then have tok: "co_tokenID w \<noteq> co_tokenID i" by (auto simp: contribution_mismatch_def)
    obtain nft where nft: "HashFromStr (lr_nftID md) = Some nft" using r' False by (cases "HashFromStr (lr_nftID md)") simp_all
    show ?thesis
    proof (cases "map_of pairs pid")
      case None
      show ?thesis
      proof (cases "co_poolPairID w = []")
        case True
        have "pid = generatePoolPairKey (co_tokenID w) (co_tokenID i) (co_txReqID w)" using True i by (simp add: pid_def)
        moreover have "contribute_new h (lr_pairHash md) nft pid w i pairs = Inr (pairs', insts)" using r' False nft None True by simp
        ultimately show ?thesis using contribute_new_books pairs None c tok by blast
      next
        case np: False
        then show ?thesis using r' False nft None refund by simp
      qed
    next
      case (Some root)
      show ?thesis
      proof (cases "validateTokenIDsByPoolPairID [co_tokenID w, co_tokenID i] pid")
        case True
        have "contribute_existing h params (lr_pairHash md) nft pid w i root pairs = Inr (pairs', insts)" using r' False nft Some True by simp
        then show ?thesis using contribute_existing_books pairs Some c tok True by blast
      next
        case nv: False
        then show ?thesis using r' False nft Some refund by simp
      qed
    qed
  qed
qed

section \<open>Requests\<close>

text \<open>A state with the instructions built since a start whose balance, with what came in, was \<open>total_in\<close>.\<close>

definition balanced :: "(string \<Rightarrow> int) \<Rightarrow> pairs \<times> contributions \<times> 'r liquidity_inst list \<Rightarrow> bool" where
  "balanced total_in = (\<lambda>(pairs, waitings, insts). dex_ok (pairs, waitings) \<and>
     (\<forall>t. reserves_of t pairs + waiting_of t waitings + returned t insts = total_in t))"

definition add_request_ok :: "AddLiquidityRequest Transaction \<Rightarrow> bool" where
  "add_request_ok tx \<longleftrightarrow> HashFromStr (lr_tokenID (tx_Metadata tx)) = Some (lr_tokenID (tx_Metadata tx)) \<and> IsUint64 (lr_tokenAmount (tx_Metadata tx)) \<and>
     CHR ''-'' \<notin> set (tx_Hash tx)"

definition contributed :: "string \<Rightarrow> AddLiquidityRequest Transaction \<Rightarrow> int" where
  "contributed t tx = (if lr_tokenID (tx_Metadata tx) = t then lr_tokenAmount (tx_Metadata tx) else 0)"

lemma NewContribution_ok:
  assumes "NewContributionWithMetaData (tx_Metadata tx) (tx_Hash tx) (tx_ShardID tx) = Inr c" and "add_request_ok tx"
  shows "contribution_ok c" and "co_tokenID c = lr_tokenID (tx_Metadata tx)" and "token_part t c = contributed t tx"
  using assms hex_no_hyphen by (auto simp: NewContributionWithMetaData_def hash_of_def add_request_ok_def contribution_ok_def token_part_def contributed_def split: if_splits option.splits)

lemma addLiquidity_tx_balanced:
  assumes b: "balanced f (pairs, waitings, insts)" and r: "addLiquidity_tx h nftIDs params (pairs, waitings, insts) tx = Inr res" and tx: "add_request_ok tx"
  shows "balanced (\<lambda>t. f t + contributed t tx) res"
proof -
  let ?md = "tx_Metadata tx"
  obtain c where c: "NewContributionWithMetaData ?md (tx_Hash tx) (tx_ShardID tx) = Inr c" using r by (auto simp: addLiquidity_tx_def Let_def)
  note n = NewContribution_ok [OF c tx]
  have d: "pairs_ok pairs" "distinct (map fst waitings)" "\<And>c. c \<in> snd ` set waitings \<Longrightarrow> contribution_ok c"
    and sum: "\<And>t. reserves_of t pairs + waiting_of t waitings + returned t insts = f t" using b by (auto simp: balanced_def dex_ok_def)
  consider (refund) "res = (pairs, waitings, insts @ [RefundAddLiquidity \<lparr>cs_value = c, cs_pairHash = lr_pairHash ?md\<rparr>])"
    | (wait) "map_of waitings (lr_pairHash ?md) = None" "res = (pairs, al_put (lr_pairHash ?md) c waitings, insts @ [WaitingAddLiquidity \<lparr>cs_value = c, cs_pairHash = lr_pairHash ?md\<rparr>])"
    | (pair) w pairs' new where "map_of waitings (lr_pairHash ?md) = Some w" "contribute_pair h params ?md w c pairs = Inr (pairs', new)"
      "res = (pairs', al_del (lr_pairHash ?md) waitings, insts @ new)"
    using r by (auto simp: addLiquidity_tx_def Let_def c split: if_splits option.splits)
  then show ?thesis
  proof cases
    case refund
    have "reserves_of t pairs + waiting_of t waitings + returned t (insts @ [RefundAddLiquidity \<lparr>cs_value = c, cs_pairHash = lr_pairHash ?md\<rparr>]) = f t + contributed t tx" for t
      using sum [of t] n(3) [of t] by simp
    then show ?thesis using d by (simp add: refund balanced_def dex_ok_def)
  next
    case wait
    have "reserves_of t pairs + waiting_of t (al_put (lr_pairHash ?md) c waitings) + returned t insts = f t + contributed t tx" for t
      using wait(1) d(2) n(3) [of t] sum [of t] by (simp add: waiting_of_def al_sum_put)
    then show ?thesis using d n(1) by (auto simp: wait(2) balanced_def dex_ok_def set_al_put)
  next
    case pair
    have w: "contribution_ok w" using d(3) map_of_SomeD [OF pair(1)] by force
    note cp = contribute_pair_books [OF pair(2) d(1) w n(1,2)]
    have "reserves_of t pairs' + waiting_of t (al_del (lr_pairHash ?md) waitings) + returned t (insts @ new) = f t + contributed t tx" for t
    proof -
      have "waiting_of t (al_del (lr_pairHash ?md) waitings) = waiting_of t waitings - token_part t w"
        using pair(1) d(2) by (simp add: waiting_of_def al_sum_del)
      moreover have "reserves_of t pairs' + returned t new = reserves_of t pairs + token_part t w + token_part t c" using cp by blast
      ultimately show ?thesis using sum [of t] n(3) [of t] by simp
    qed
    moreover have "set (al_del (lr_pairHash ?md) waitings) \<subseteq> set waitings" by (auto simp: al_del_def)
    ultimately show ?thesis using cp d unfolding pair(3) balanced_def dex_ok_def by auto
  qed
qed

lemma withdrawLiquidity_tx_balanced:
  fixes insts :: "'a liquidity_inst list"
  assumes b: "balanced f (pairs, waitings, insts)" and r: "withdrawLiquidity_tx nftIDs (pairs, insts) tx = Inr (pairs', insts')"
  shows "balanced f (pairs', waitings, insts')"
proof -
  let ?md = "tx_Metadata tx"
  have d: "pairs_ok pairs" "dex_ok (pairs, waitings)" and sum: "\<And>t. reserves_of t pairs + waiting_of t waitings + returned t insts = f t" using b by (auto simp: balanced_def dex_ok_def)
  obtain rej where rej: "(BuildRejectWithdrawLiquidityInstructions ?md (tx_Hash tx) (tx_ShardID tx) :: 'a liquidity_inst list go) = Inr rej"
    using r by (auto simp: withdrawLiquidity_tx_def Let_def)
  then have rr: "returned t rej = 0" for t by (auto simp: BuildRejectWithdrawLiquidityInstructions_def liquidity_nft_def)
  consider (reject) "pairs' = pairs" "insts' = insts @ rej"
    | (accept) root x0 x1 taken p new where "map_of pairs (wl_poolPairID ?md) = Some root" "\<not> isEmpty root" "deductShare (wl_nftID ?md) (wl_shareAmount ?md) root = Inr (x0, x1, taken, p)"
      "BuildAcceptWithdrawLiquidityInstructions ?md (Token0ID (pp_state p)) (Token1ID (pp_state p)) x0 x1 taken (tx_Hash tx) (tx_ShardID tx) = Inr new"
      "pairs' = al_put (wl_poolPairID ?md) p pairs" "insts' = insts @ new"
    using r by (auto simp: withdrawLiquidity_tx_def Let_def rej go_catch_eq_Inr split: option.splits if_splits)
  then show ?thesis
  proof cases
    case reject
    then show ?thesis using d sum rr by (simp add: balanced_def)
  next
    case accept
    have f: "filed (wl_poolPairID ?md, root)" using d(1) accept(1) by (rule pairs_ok_pair)
    then have ro: "reserves_ok (pp_state root)" and S: "0 < ShareAmount (pp_state root)" using isEmptyD [OF accept(2)] by (auto simp: filed_def)
    from deductShare_result [OF accept(3) ro S] obtain v0 v1 where u: "updateShareValue taken (wl_nftID ?md) subOperator 0 0
      (root\<lparr>pp_state := (pp_state root)\<lparr>Token0RealAmount := Token0RealAmount (pp_state root) - x0, Token0VirtualAmount := v0,
        Token1RealAmount := Token1RealAmount (pp_state root) - x1, Token1VirtualAmount := v1\<rparr>\<rparr>) = Inr p"
      and x: "x0 \<le> Token0RealAmount (pp_state root)" "x1 \<le> Token1RealAmount (pp_state root)" "IsUint64 x0" "IsUint64 x1" by auto
    from updateShareValue_state [OF u] obtain s l where st: "pp_state p = (pp_state root)\<lparr>Token0RealAmount := Token0RealAmount (pp_state root) - x0, Token0VirtualAmount := v0,
        Token1RealAmount := Token1RealAmount (pp_state root) - x1, Token1VirtualAmount := v1, ShareAmount := s, LmLockedShareAmount := l\<rparr>" "IsUint64 s" by auto
    have "reserves_ok (pp_state p)" using ro x by (auto simp: st reserves_ok_def IsUint64_def)
    then have fp: "filed (wl_poolPairID ?md, p)" using f st by (simp add: filed_def IsUint64_def)
    have tok: "tok_reserve t (pp_state p) + returned t new = tok_reserve t (pp_state root)" for t
      using accept(4) ro by (auto simp: st tok_reserve_def reserves_ok_def BuildAcceptWithdrawLiquidityInstructions_def liquidity_nft_def split: option.splits if_splits)
    have "reserves_of t pairs' + waiting_of t waitings + returned t insts' = f t" for t
      using d(1) accept(1) sum [of t] tok [of t] by (simp add: accept(5,6) reserves_put)
    then show ?thesis using d fp by (simp add: balanced_def dex_ok_def accept(5) pairs_ok_put)
  qed
qed

section \<open>Runs\<close>

datatype liquidity_op =
    AddLiquidityOp int "(string \<times> int) list" Params "AddLiquidityRequest Transaction list"
  | WithdrawLiquidityOp "(string \<times> int) list" "WithdrawLiquidityRequest Transaction list"

text \<open>One call of a producer, its instructions appended to those already built.\<close>

definition liquidity_step :: "pairs \<times> contributions \<times> 'r liquidity_inst list \<Rightarrow> liquidity_op \<Rightarrow> (pairs \<times> contributions \<times> 'r liquidity_inst list) go" where
  "liquidity_step = (\<lambda>(pairs, waitings, insts) op. case op of
      AddLiquidityOp beaconHeight nftIDs params txs \<Rightarrow>
        go_bind (addLiquidity beaconHeight nftIDs params txs pairs waitings) (\<lambda>(pairs', waitings', new). Inr (pairs', waitings', insts @ new))
    | WithdrawLiquidityOp nftIDs txs \<Rightarrow>
        go_bind (withdrawLiquidity nftIDs txs pairs) (\<lambda>(pairs', new). Inr (pairs', waitings, insts @ new)))"

definition liquidity_op_ok :: "liquidity_op \<Rightarrow> bool" where
  "liquidity_op_ok op = (case op of
      AddLiquidityOp _ _ _ txs \<Rightarrow> \<forall>tx \<in> set txs. add_request_ok tx \<and> HashFromStr (lr_nftID (tx_Metadata tx)) = Some (lr_nftID (tx_Metadata tx))
    | WithdrawLiquidityOp _ txs \<Rightarrow> \<forall>tx \<in> set txs. HashFromStr (wl_nftID (tx_Metadata tx)) = Some (wl_nftID (tx_Metadata tx)))"

definition op_contributed :: "string \<Rightarrow> liquidity_op \<Rightarrow> int" where
  "op_contributed t op = (case op of AddLiquidityOp _ _ _ txs \<Rightarrow> sum_list (map (contributed t) txs) | WithdrawLiquidityOp _ _ \<Rightarrow> 0)"

lemma addLiquidity_balanced:
  assumes "go_foldl (addLiquidity_tx h nftIDs params) (pairs, waitings, insts) txs = Inr res" and "balanced f (pairs, waitings, insts)" and "\<forall>tx \<in> set txs. add_request_ok tx"
  shows "balanced (\<lambda>t. f t + sum_list (map (contributed t) txs)) res"
  using assms
proof (induction txs arbitrary: pairs waitings insts f)
  case (Cons tx txs)
  obtain p1 w1 i1 where s: "addLiquidity_tx h nftIDs params (pairs, waitings, insts) tx = Inr (p1, w1, i1)" "go_foldl (addLiquidity_tx h nftIDs params) (p1, w1, i1) txs = Inr res"
    using Cons.prems(1) by auto
  have "balanced (\<lambda>t. f t + contributed t tx) (p1, w1, i1)" using addLiquidity_tx_balanced [OF Cons.prems(2) s(1)] Cons.prems(3) by simp
  from Cons.IH [OF s(2) this] Cons.prems(3) show ?case by (simp add: add.assoc)
qed simp

lemma withdrawLiquidity_balanced:
  assumes "go_foldl (withdrawLiquidity_tx nftIDs) (pairs, insts) txs = Inr (pairs', insts')" and "balanced f (pairs, waitings, insts)"
  shows "balanced f (pairs', waitings, insts')"
  using assms
proof (induction txs arbitrary: pairs insts)
  case (Cons tx txs)
  obtain p1 i1 where s: "withdrawLiquidity_tx nftIDs (pairs, insts) tx = Inr (p1, i1)" "go_foldl (withdrawLiquidity_tx nftIDs) (p1, i1) txs = Inr (pairs', insts')"
    using Cons.prems(1) by auto
  from Cons.IH [OF s(2) withdrawLiquidity_tx_balanced [OF Cons.prems(2) s(1)]] show ?case .
qed simp

lemma balanced_append: "balanced f (pairs, waitings, insts @ (new :: 'r liquidity_inst list)) = balanced (\<lambda>t. f t - returned t insts) (pairs, waitings, new)"
  by (auto simp: balanced_def algebra_simps)

lemma liquidity_step_balanced:
  fixes s :: "pairs \<times> contributions \<times> 'r liquidity_inst list"
  assumes "balanced f s" and "liquidity_op_ok op" and "liquidity_step s op = Inr s'"
  shows "balanced (\<lambda>t. f t + op_contributed t op) s'"
proof -
  obtain pairs waitings insts where s: "s = (pairs, waitings, insts)" by (metis surj_pair)
  have b: "balanced (\<lambda>t. f t - returned t insts) (pairs, waitings, [] :: 'r liquidity_inst list)" using assms(1) balanced_append [of f pairs waitings insts "[]"] by (simp add: s)
  show ?thesis
  proof (cases op)
    case (AddLiquidityOp h nftIDs params txs)
    then obtain p w new where r: "addLiquidity h nftIDs params txs pairs waitings = Inr (p, w, new)" "s' = (p, w, insts @ new)"
      using assms(3) by (auto simp: s liquidity_step_def)
    from addLiquidity_balanced [OF r(1) [unfolded addLiquidity_def] b] assms(2) AddLiquidityOp show ?thesis
      by (simp add: r(2) balanced_append liquidity_op_ok_def op_contributed_def algebra_simps)
  next
    case (WithdrawLiquidityOp nftIDs txs)
    then obtain p new where r: "withdrawLiquidity nftIDs txs pairs = Inr (p, new)" "s' = (p, waitings, insts @ new)"
      using assms(3) by (auto simp: s liquidity_step_def)
    from withdrawLiquidity_balanced [OF r(1) [unfolded withdrawLiquidity_def] b] WithdrawLiquidityOp show ?thesis
      by (simp add: r(2) balanced_append op_contributed_def)
  qed
qed

lemma liquidity_run_balanced:
  "go_foldl liquidity_step s ops = Inr s' \<Longrightarrow> balanced f s \<Longrightarrow> \<forall>op \<in> set ops. liquidity_op_ok op \<Longrightarrow> balanced (\<lambda>t. f t + sum_list (map (op_contributed t) ops)) s'"
proof (induction ops arbitrary: s f)
  case (Cons op ops)
  obtain s1 where s1: "liquidity_step s op = Inr s1" "go_foldl liquidity_step s1 ops = Inr s'" using Cons.prems(1) by auto
  have "balanced (\<lambda>t. f t + op_contributed t op) s1" using liquidity_step_balanced [OF Cons.prems(2) _ s1(1)] Cons.prems(3) by simp
  from Cons.IH [OF s1(2) this] Cons.prems(3) show ?case by (simp add: add.assoc)
qed simp

section \<open>The producers return\<close>

definition no_panic :: "'a go \<Rightarrow> bool" where
  "no_panic m \<longleftrightarrow> m \<noteq> Inl GoPanic"

lemma no_panic_simps [simp]: "no_panic (Inr x)" "no_panic (Inl (GoErr msg))" "\<not> no_panic (Inl GoPanic)"
  by (simp_all add: no_panic_def)

lemma no_panic_bind: "no_panic m \<Longrightarrow> (\<And>x. m = Inr x \<Longrightarrow> no_panic (f x)) \<Longrightarrow> no_panic (go_bind m f)"
  by (cases m) (auto simp: no_panic_def)

lemma no_panic_foldl: "(\<And>s x. no_panic (f s x)) \<Longrightarrow> no_panic (go_foldl f s xs)"
  by (induction xs arbitrary: s) (auto intro: no_panic_bind)

lemma go_ok_catch: "no_panic m \<Longrightarrow> go_ok e \<Longrightarrow> (\<And>x. m = Inr x \<Longrightarrow> go_ok (f x)) \<Longrightarrow> go_ok (go_catch m e f)"
  by (cases m) (auto simp: go_catch_def no_panic_def split: go_err.splits)

lemma no_panic_execute [simp]: "no_panic (executeOperationUint64 a b op)" "no_panic (executeOperationBigInt a b op)"
  by (auto simp: executeOperationUint64_def executeOperationBigInt_def Let_def)

lemma no_panic_div: "b \<noteq> 0 \<Longrightarrow> no_panic (big_div a b)"
  by (simp add: big_div_def)

lemma no_panic_recompute [simp]: "no_panic (RecomputeLPRewards k p)"
proof -
  have "no_panic (lp_reward_step old amt acc x)" for old amt acc x
    by (cases x) (auto simp: lp_reward_step_eq Let_def)
  then show ?thesis by (auto simp: RecomputeLPRewards_def split: option.split intro!: no_panic_bind no_panic_foldl)
qed

lemma no_panic_updateShareValue [simp]: "no_panic (updateShareValue a k op h lb p)"
proof -
  have "no_panic (current_share k op p)" by (auto simp: current_share_def split: option.split intro!: no_panic_bind)
  then show ?thesis unfolding updateShareValue_def Let_def by (intro no_panic_bind) (auto intro!: no_panic_bind)
qed

lemma no_panic_updateReserveData: "ShareAmount tp \<noteq> 0 \<Longrightarrow> no_panic (updateReserveData a0 a1 s op tp)"
proof -
  have n: "no_panic (new_reserves tp r v a s op)" if "ShareAmount tp \<noteq> 0" for tp r v a
    unfolding new_reserves_def by (intro no_panic_bind) (auto intro!: no_panic_bind no_panic_div that)
  have u: "no_panic (updateSingleTokenAmount t a s op tp)" if "ShareAmount tp \<noteq> 0" for t a tp
    using n [OF that] by (auto simp: updateSingleTokenAmount_def intro!: no_panic_bind split: prod.split)
  assume S: "ShareAmount tp \<noteq> 0"
  have "ShareAmount tp1 = ShareAmount tp" if "updateSingleTokenAmount t a s op tp = Inr tp1" for t a tp1
    using that by (auto simp: updateSingleTokenAmount_def split: if_splits)
  then show ?thesis unfolding updateReserveData_def using S by (intro no_panic_bind) (auto intro: u)
qed

lemma contribute_existing_total: "go_ok (contribute_existing h params ph nft pid w i root pairs)"
proof -
  obtain c0 c1 where cc: "getContributionsByOrder root w i = (c0, c1)" by fastforce
  have 1: "no_panic (computeActualContributedAmounts root c0 c1)"
    using isEmptyD [of root] by (auto simp: computeActualContributedAmounts_def Let_def intro!: no_panic_bind no_panic_div)
  have 2: "no_panic (addReserveDataAndCalculateShare t0 t1 a0 a1 root)" if "\<not> isEmpty root" for t0 t1 a0 a1
    using isEmptyD [OF that] unfolding addReserveDataAndCalculateShare_def calculateShareAmount_def CalculateShareAmount_def
    by (auto simp: Let_def split: prod.split intro!: no_panic_bind no_panic_div no_panic_updateReserveData)
  have "\<not> isEmpty root" if "computeActualContributedAmounts root c0 c1 = Inr x" for x using that by (auto simp: computeActualContributedAmounts_def)
  then show ?thesis unfolding contribute_existing_def cc Let_def
    by (auto intro!: go_ok_catch 1 2 simp: addShare_def split: prod.split)
qed

lemma contribute_pair_total:
  assumes "HashFromStr (lr_nftID md) = Some nft" and "0 \<le> co_amount w" and "0 \<le> co_amount i"
  shows "go_ok (contribute_pair h params md w i pairs)"
proof -
  have "\<not> co_amount w * co_amount i < 0" using mult_nonneg_nonneg [OF assms(2,3)] by simp
  then have "go_ok (contribute_new h ph nft pid w i pairs)" for ph nft pid
    by (auto simp: contribute_new_def Let_def big_sqrt_def addShare_def intro!: go_ok_catch)
  then show ?thesis using assms(1) contribute_existing_total by (auto simp: contribute_pair_def Let_def split: option.split)
qed

lemma addLiquidity_tx_total:
  assumes "balanced f (pairs, waitings, insts)" and "add_request_ok tx" and "HashFromStr (lr_nftID (tx_Metadata tx)) = Some nft"
  shows "go_ok (addLiquidity_tx h nftIDs params (pairs, waitings, insts) tx)"
proof -
  obtain c where c: "NewContributionWithMetaData (tx_Metadata tx) (tx_Hash tx) (tx_ShardID tx) = Inr c"
    using assms(2,3) by (cases "lr_nftID (tx_Metadata tx) = []") (auto simp: NewContributionWithMetaData_def add_request_ok_def hash_of_def)
  note n = NewContribution_ok(1) [OF c assms(2)]
  have "contribution_ok w" if "map_of waitings k = Some w" for k w
    using assms(1) map_of_SomeD [OF that] by (force simp: balanced_def dex_ok_def)
  then have "go_ok (contribute_pair h params (tx_Metadata tx) w c pairs)" if "map_of waitings k = Some w" for k w
    using that n by (intro contribute_pair_total [OF assms(3)]) (auto simp: contribution_ok_def IsUint64_def)
  then show ?thesis by (auto simp: addLiquidity_tx_def Let_def c go_ok_iff split: option.split)
qed

lemma no_panic_deductShare:
  assumes "ShareAmount (pp_state p) \<noteq> 0" and "map_of (pp_shares p) k \<noteq> None"
  shows "no_panic (deductShare k a p)"
  using assms by (auto simp: deductShare_def Let_def intro!: no_panic_bind no_panic_div no_panic_updateReserveData split: option.split)

lemma withdrawLiquidity_tx_total:
  fixes insts :: "'a liquidity_inst list"
  assumes "HashFromStr (wl_nftID (tx_Metadata tx)) = Some (wl_nftID (tx_Metadata tx))"
  shows "go_ok (withdrawLiquidity_tx nftIDs (pairs, insts) tx)"
proof -
  let ?md = "tx_Metadata tx"
  obtain rej where rej: "(BuildRejectWithdrawLiquidityInstructions ?md (tx_Hash tx) (tx_ShardID tx) :: 'a liquidity_inst list go) = Inr rej"
    using assms by (simp add: BuildRejectWithdrawLiquidityInstructions_def hash_of_def)
  have acc: "no_panic (BuildAcceptWithdrawLiquidityInstructions ?md t0 t1 x0 x1 s h n :: 'a liquidity_inst list go)" for t0 t1 x0 x1 s h n
    by (auto simp: BuildAcceptWithdrawLiquidityInstructions_def Let_def split: option.split)
  have ded: "no_panic (deductShare (wl_nftID ?md) (wl_shareAmount ?md) root)" if "\<not> isEmpty root" "map_of (pp_shares root) (wl_nftID ?md) = Some sh" for root sh
    using that isEmptyD by (auto intro!: no_panic_deductShare)
  have body: "go_ok (go_catch (deductShare (wl_nftID ?md) (wl_shareAmount ?md) root) (Inr x) (\<lambda>(a0, a1, s, p). go_catch (BuildAcceptWithdrawLiquidityInstructions ?md (f p) (g p) a0 a1 s (tx_Hash tx) (tx_ShardID tx)) (Inr x) (\<lambda>i :: 'a liquidity_inst list. Inr (h p i))))"
    if "\<not> isEmpty root" "map_of (pp_shares root) (wl_nftID ?md) = Some sh" for root sh x f g h
    using ded [OF that] by (auto intro!: go_ok_catch acc split: prod.split)
  show ?thesis unfolding withdrawLiquidity_tx_def Let_def rej prod.case
    by (auto simp: rej split: option.split intro!: body)
qed

lemma addLiquidity_total:
  assumes "balanced f (pairs, waitings, insts)" and "\<forall>tx \<in> set txs. add_request_ok tx \<and> HashFromStr (lr_nftID (tx_Metadata tx)) = Some (lr_nftID (tx_Metadata tx))"
  shows "go_ok (go_foldl (addLiquidity_tx h nftIDs params) (pairs, waitings, insts) txs)"
  using assms
proof (induction txs arbitrary: pairs waitings insts f)
  case (Cons tx txs)
  have tx: "add_request_ok tx" "HashFromStr (lr_nftID (tx_Metadata tx)) = Some (lr_nftID (tx_Metadata tx))" using Cons.prems(2) by auto
  obtain p1 w1 i1 where s: "addLiquidity_tx h nftIDs params (pairs, waitings, insts) tx = Inr (p1, w1, i1)"
    using addLiquidity_tx_total [OF Cons.prems(1) tx, of h nftIDs params] by (auto simp: go_ok_iff)
  from Cons.IH [OF addLiquidity_tx_balanced [OF Cons.prems(1) s tx(1)]] Cons.prems(2) s show ?case by simp
qed simp

lemma liquidity_step_total:
  fixes s :: "pairs \<times> contributions \<times> 'r liquidity_inst list"
  assumes "balanced f s" and "liquidity_op_ok op"
  shows "go_ok (liquidity_step s op)"
proof -
  obtain pairs waitings insts where s: "s = (pairs, waitings, insts)" by (metis surj_pair)
  have b: "balanced (\<lambda>t. f t - returned t insts) (pairs, waitings, [] :: 'r liquidity_inst list)" using assms(1) balanced_append [of f pairs waitings insts "[]"] by (simp add: s)
  show ?thesis
  proof (cases op)
    case (AddLiquidityOp h nftIDs params txs)
    then show ?thesis using addLiquidity_total [OF b, of txs h nftIDs params] assms(2)
      by (auto simp: s liquidity_step_def liquidity_op_ok_def addLiquidity_def go_ok_iff)
  next
    case (WithdrawLiquidityOp nftIDs txs)
    have "go_ok (go_foldl (withdrawLiquidity_tx nftIDs) (pairs, [] :: 'r liquidity_inst list) txs)"
      using assms(2) WithdrawLiquidityOp by (intro go_foldl_total) (auto simp: liquidity_op_ok_def intro: withdrawLiquidity_tx_total)
    then show ?thesis using WithdrawLiquidityOp by (auto simp: s liquidity_step_def withdrawLiquidity_def go_ok_iff)
  qed
qed

text \<open>C3. Liquidity is conserved: from a well-formed exchange, any run of \<^verbatim>\<open>addLiquidity\<close> and \<^verbatim>\<open>withdrawLiquidity\<close> with well-formed requests
  returns, and afterwards, for every token, the reserves of all pools, the waiting contributions and what the instructions return
  to the users add up to exactly what was there before plus what the requests contributed.\<close>

theorem liquidity_conserves_tokens:
  assumes dex: "dex_ok (pairs, waitings)" and ops: "\<forall>op \<in> set ops. liquidity_op_ok op"
  shows "\<exists>pairs' waitings' (insts :: 'r liquidity_inst list). go_foldl liquidity_step (pairs, waitings, []) ops = Inr (pairs', waitings', insts) \<and>
    dex_ok (pairs', waitings') \<and> (\<forall>t. reserves_of t pairs' + waiting_of t waitings' + returned t insts =
      reserves_of t pairs + waiting_of t waitings + sum_list (map (op_contributed t) ops))"
proof -
  have b: "balanced (\<lambda>t. reserves_of t pairs + waiting_of t waitings) (pairs, waitings, [] :: 'r liquidity_inst list)" using dex by (simp add: balanced_def)
  have "\<exists>s'. go_foldl liquidity_step s ops = Inr s'" if "balanced f s" "\<forall>op \<in> set ops. liquidity_op_ok op" for f and s :: "pairs \<times> contributions \<times> 'r liquidity_inst list" and ops
    using that
  proof (induction ops arbitrary: s f)
    case (Cons op ops)
    obtain s1 where s1: "liquidity_step s op = Inr s1" using liquidity_step_total [OF Cons.prems(1), of op] Cons.prems(2) by (auto simp: go_ok_iff)
    have "balanced (\<lambda>t. f t + op_contributed t op) s1" using liquidity_step_balanced [OF Cons.prems(1) _ s1] Cons.prems(2) by simp
    from Cons.IH [OF this] Cons.prems(2) s1 show ?case by simp
  qed (simp only: go_foldl.simps sum.inject, blast)
  from this [OF b ops] obtain s' where s': "go_foldl liquidity_step (pairs, waitings, [] :: 'r liquidity_inst list) ops = Inr s'" by blast
  obtain p w i where i: "s' = (p, w, i)" by (metis surj_pair)
  from liquidity_run_balanced [OF s' b ops] show ?thesis using s' unfolding i balanced_def by auto
qed

definition demo_add :: "string \<Rightarrow> string \<Rightarrow> int \<Rightarrow> AddLiquidityRequest Transaction" where
  "demo_add txid t a = \<lparr>tx_Hash = txid, tx_ShardID = 0, tx_Metadata = \<lparr>lr_poolPairID = [], lr_pairHash = ''ph'', lr_otaReceiver = ''r'', lr_tokenID = t,
     lr_nftID = demo_nft CHR ''1'', lr_tokenAmount = a, lr_amplifier = 1\<rparr>\<rparr>"

definition demo_params :: Params where
  "demo_params = NewParams"

definition demo_liquidity_ops :: "liquidity_op list" where
  "demo_liquidity_ops = [AddLiquidityOp 1 [(demo_nft CHR ''1'', 0)] demo_params
     [demo_add ''t1'' (demo_nft CHR ''a'') 20, demo_add ''t2'' (demo_nft CHR ''b'') 80, demo_add ''t3'' (demo_nft CHR ''a'') 5]]"

text \<open>Two contributions make a pool, a third one waits.\<close>

theorem liquidity_conserves_tokens_witness:
  "\<exists>pairs' waitings' (insts :: string liquidity_inst list). go_foldl liquidity_step ([], [], []) demo_liquidity_ops = Inr (pairs', waitings', insts) \<and>
     reserves_of (demo_nft CHR ''a'') pairs' + waiting_of (demo_nft CHR ''a'') waitings' + returned (demo_nft CHR ''a'') insts = 25"
proof -
  have d: "dex_ok ([], [])" by (simp add: dex_ok_def pairs_ok_def)
  have o: "\<forall>op \<in> set demo_liquidity_ops. liquidity_op_ok op" by code_simp
  have s: "sum_list (map (op_contributed (demo_nft CHR ''a'')) demo_liquidity_ops) = 25" by code_simp
  from liquidity_conserves_tokens [OF d o, where 'r = string] show ?thesis by (auto simp: reserves_of_def waiting_of_def s)
qed

end
