(* ===== verification/Pdex_Trade_Block.thy ===== *)
theory Pdex_Trade_Block
  imports Pdex_Trade_Replay Pdex_Liquidity_Books
begin

text \<open>
  The trades of a block: on well-formed pools and with accepted parameters the handler of trades always returns, and every node that
  processes its instructions gets the pools of the producer.
\<close>

section \<open>A trade does not panic\<close>

lemma no_panic_BuyAmount: "pool_ok tp \<Longrightarrow> no_panic (BuyAmount tp sell d)"
  by (auto simp: BuyAmount_def calculateBuyAmount_def pool_ok_def)

lemma no_panic_target:
  assumes "pool_ok tp" and "order_ok ord" and "d \<in> {TradeDirectionSell0, TradeDirectionSell1}"
  shows "no_panic (targetDeltaX tp d ord)"
  using assms by (auto simp: targetDeltaX_def reserves_for_def pool_ok_def order_ok_def big_sqrt_def pos_imp_zdiv_neg_iff mult_less_0_iff directions)

lemma no_panic_apply: "no_panic (ApplyReserveChanges a b tp)" "no_panic (ApplyBalanceChanges a b ord)" "no_panic (add_uint64 e x y)"
  by (simp_all add: ApplyReserveChanges_def ApplyBalanceChanges_def add_uint64_def Let_def)

lemma no_panic_finish: "no_panic (finish_swap tp d s r b)" "no_panic (finish_match ord d s r b)"
  by (auto simp: finish_swap_def finish_match_def intro!: no_panic_bind no_panic_apply split: prod.splits)

lemma no_panic_swap:
  assumes "pool_ok tp" and "\<And>x. ord = Some x \<Longrightarrow> order_ok x" and "d \<in> {TradeDirectionSell0, TradeDirectionSell1}"
  shows "no_panic (SwapToReachOrderRate m d ord tp)"
proof -
  have f: "no_panic (go_bind (BuyAmount tp s d) (finish_swap tp d s r))" for s r
    by (intro no_panic_bind no_panic_BuyAmount assms(1) no_panic_finish)
  show ?thesis
  proof (cases ord)
    case (Some x)
    have "no_panic (targetDeltaX tp d x)" by (rule no_panic_target [OF assms(1) assms(2) [OF Some] assms(3)])
    then show ?thesis unfolding SwapToReachOrderRate_def Let_def Some option.case
      by (auto intro!: no_panic_bind f no_panic_BuyAmount [OF assms(1)] no_panic_finish)
  qed (simp add: SwapToReachOrderRate_def f)
qed

lemma no_panic_Match: "order_ok ord \<Longrightarrow> no_panic (Match m d ord)"
  unfolding Match_def match_with_def Let_def BuyAmountFromOrder_def SellAmountToOrder_def order_rates_def
  by (auto simp: order_ok_def intro!: no_panic_bind no_panic_finish no_panic_div split: prod.splits)

lemma no_panic_hop_swap:
  "hop_ok orders h \<Longrightarrow> (\<And>x. ord = Some x \<Longrightarrow> order_ok x) \<Longrightarrow> d \<in> {TradeDirectionSell0, TradeDirectionSell1} \<Longrightarrow> no_panic (hop_swap d ord h)"
  unfolding hop_swap_def by (auto simp: hop_ok_def intro!: no_panic_bind no_panic_swap no_panic_apply split: prod.splits)

lemma no_panic_hop_match: "order_ok ord \<Longrightarrow> no_panic (hop_match upd d ord i put h)"
  unfolding hop_match_def by (auto intro!: no_panic_bind no_panic_Match no_panic_apply split: prod.splits)

lemma hop_loop_no_panic:
  assumes "hop_loop upd Orderbook_iterator d h = Some r" and "hop_ok (\<lambda>os. os) h" and "d \<in> {TradeDirectionSell0, TradeDirectionSell1}"
  shows "no_panic r"
proof -
  define P where "P = (\<lambda>(upd :: change_rule) (nxt :: Orderbook order_iterator) d h (r :: Orderbook hop go). nxt = Orderbook_iterator \<longrightarrow> hop_ok (\<lambda>os. os) h \<longrightarrow>
    d \<in> {TradeDirectionSell0, TradeDirectionSell1} \<longrightarrow> no_panic r)"
  have "P upd Orderbook_iterator d h r"
  proof (rule hop_loop.raw_induct [where P = P, OF _ assms(1)], goal_cases)
    case (1 loop upd nxt d h r)
    show ?case unfolding P_def
    proof (intro impI)
      assume a: "nxt = Orderbook_iterator" and inv: "hop_ok (\<lambda>os. os) h" and d: "d \<in> {TradeDirectionSell0, TradeDirectionSell1}"
      have ok: "\<forall>ord \<in> set (book h). order_ok ord" using inv by (simp add: hop_ok_def)
      obtain ptr where ptr: "Orderbook_iterator (book h) d = Inr ptr" using orderbook.next_total [OF ok d] by (auto simp: go_ok_def split: sum.splits)
      note step = 1(2) [unfolded a ptr sum.case]
      have po: "order_ok x" if "map_option fst ptr = Some x" for x
      proof -
        from that obtain i put where "ptr = Some (x, i, put)" by (cases ptr) auto
        with ptr orderbook.next_in_book [OF ok, of d x i put] ok show ?thesis by (metis nth_mem)
      qed
      have sw: "no_panic (hop_swap d (map_option fst ptr) h)" by (rule no_panic_hop_swap [OF inv po d])
      show "no_panic r"
      proof (cases "hop_swap d (map_option fst ptr) h")
        case (Inl e)
        then show ?thesis using step sw by auto
      next
        case h1: (Inr h1)
        note ok1 = hop_swap_ok(1,3) [OF h1 inv]
        note step1 = step [unfolded h1 sum.case]
        show ?thesis
        proof (cases "sellAmountRemain h1 = 0")
          case True
          then show ?thesis using step1 by auto
        next
          case False
          note step2 = step1 [unfolded if_not_P [OF False]]
          show ?thesis
          proof (cases ptr)
            case None
            then show ?thesis using step2 1(1) [of upd Orderbook_iterator d h1 r, unfolded P_def] ok1(1) d by auto
          next
            case (Some p)
            obtain ord i put where p: "p = (ord, i, put)" by (cases p)
            from orderbook.next_in_book [OF ok, of d ord i put] ptr Some p obtain k where k: "k < length (book h)" "ord = book h ! k" "\<And>o'. put o' = (book h)[k := o']" by blast
            have m: "no_panic (hop_match upd d ord i put h1)" by (rule no_panic_hop_match) (use ok k in simp)
            note step3 = step2 [unfolded Some option.case p fst_conv snd_conv]
            show ?thesis
            proof (cases "hop_match upd d ord i put h1")
              case (Inl e)
              then show ?thesis using step3 m by auto
            next
              case h2: (Inr h2)
              have "hop_ok (\<lambda>os. os) h2" using hop_match_ok(1) [OF h2 ok1(1), of k] ok1(2) k by simp
              then show ?thesis using step3 h2 d 1(1) [of upd Orderbook_iterator d h2 r, unfolded P_def] by (cases "sellAmountRemain h2 = 0") auto
            qed
          qed
        qed
      qed
    qed
  qed
  then show ?thesis using assms by (auto simp: P_def)
qed

text \<open>What a handler that may not end is allowed to do.\<close>

definition returns :: "'a go option \<Rightarrow> ('a \<Rightarrow> bool) \<Rightarrow> bool" where
  "returns m Q \<longleftrightarrow> (\<exists>r. m = Some r \<and> no_panic r \<and> (\<forall>x. r = Inr x \<longrightarrow> Q x))"

lemma returns_simps [simp]: "returns (Some (Inr x)) Q \<longleftrightarrow> Q x" "returns (Some (Inl (GoErr e))) Q"
  by (simp_all add: returns_def)

lemma returns_bind: "returns m R \<Longrightarrow> (\<And>x. R x \<Longrightarrow> returns (f x) Q) \<Longrightarrow> returns (run_bind m f) Q"
  by (auto simp: returns_def run_bind_def no_panic_def split: sum.splits)

lemma run_bind_Inr [simp]: "run_bind (Some (Inr x)) f = f x"
  by (simp add: run_bind_def)

lemma returns_go: "no_panic m \<Longrightarrow> (\<And>x. m = Inr x \<Longrightarrow> Q x) \<Longrightarrow> returns (Some m) Q"
  by (simp add: returns_def)

lemma returns_mono: "returns m R \<Longrightarrow> (\<And>x. R x \<Longrightarrow> Q x) \<Longrightarrow> returns m Q"
  by (auto simp: returns_def)

lemma hop_loop_returns:
  assumes "hop_ok (\<lambda>os. os) h" and "d \<in> {TradeDirectionSell0, TradeDirectionSell1}"
  shows "returns (hop_loop upd Orderbook_iterator d h) (\<lambda>h'. hop_ok (\<lambda>os. os) h' \<and> map Id (book h') = map Id (book h))"
proof -
  from orderbook.hop_loop_ends [OF assms, of upd] obtain r where r: "hop_loop upd Orderbook_iterator d h = Some r"
    "\<forall>h'. r = Inr h' \<longrightarrow> hop_ok (\<lambda>os. os) h' \<and> hop_keeps d (\<lambda>os. os) h h'" by blast
  have "map Id os' = map Id os" if "refilled os os'" for os os'
    using that unfolding refilled_def by (induction rule: list_all2_induct) auto
  then show ?thesis using r hop_loop_no_panic [OF r(1) assms] by (auto simp: returns_def hop_keeps_def)
qed

lemma trade_path_returns:
  assumes "path_ok (\<lambda>os. os) path" and "IsUint64 sell"
  shows "returns (trade_path Orderbook_iterator sell acc path) (\<lambda>_. True)"
  using assms
proof (induction path arbitrary: sell acc)
  case (Cons hop path)
  obtain tp d os where hop: "hop = (tp, d, os)" by (cases hop)
  have d: "d \<in> {TradeDirectionSell0, TradeDirectionSell1}" and path: "path_ok (\<lambda>os. os) path" using Cons.prems(1) hop by (auto simp: path_ok_def)
  have "hop_ok (\<lambda>os. os) (start_hop sell tp os)" using orderbook.start_hop_ok Cons.prems hop by simp
  from hop_loop_returns [OF this d, of set_change] obtain r where r: "hop_loop set_change Orderbook_iterator d (start_hop sell tp os) = Some r" "no_panic r"
    "\<And>h. r = Inr h \<Longrightarrow> hop_ok (\<lambda>os. os) h" by (auto simp: returns_def)
  show ?case
  proof (cases r)
    case (Inl e)
    then show ?thesis using hop r by (simp add: returns_def no_panic_def)
  next
    case (Inr h)
    then show ?thesis using hop r(1) Cons.IH [OF path, of "totalBuyAmount h" "add_hop h acc"] r(3) [OF Inr] by (simp add: hop_ok_def)
  qed
qed simp

lemma MaybeAcceptTrade_returns:
  assumes "path_ok (\<lambda>os. os) (zip reserves (zip ds obs))" and "IsUint64 sell"
  shows "returns (MaybeAcceptTrade Orderbook_iterator sell 0 reserves ds mn obs)
    (\<lambda>acc. MaybeAcceptTrade Orderbook_iterator sell 0 reserves ds mn obs = Some (Inr acc))"
proof -
  from trade_path_returns [OF assms, of empty_trade] obtain r where r: "trade_path Orderbook_iterator sell empty_trade (zip reserves (zip ds obs)) = Some r" "no_panic r"
    by (auto simp: returns_def)
  have "0 \<le> sell" using assms(2) by (simp add: IsUint64_def)
  then show ?thesis using r by (cases r) (auto simp: MaybeAcceptTrade_def returns_def)
qed

text \<open>C28. A trade always comes to an end: on well-formed pools and order books with valid directions, whatever the amounts,
  \<^verbatim>\<open>MaybeAcceptTrade\<close> returns an accepted trade or an error and does not panic; and at every hop of the path, whatever \<^verbatim>\<open>uint64\<close> amount arrives there, the loop over the
  order book ends within one round for each order that can be matched and one more.\<close>

theorem trade_always_ends:
  assumes "path_ok (\<lambda>os. os) (zip reserves (zip tradeDirections orderbooks))" and "IsUint64 amountIn" and "0 \<le> fee"
  shows "(\<exists>r. MaybeAcceptTrade Orderbook_iterator amountIn fee reserves tradeDirections minAmount orderbooks = Some r \<and> r \<noteq> Inl GoPanic) \<and>
    (\<forall>(tp, d, os) \<in> set (zip reserves (zip tradeDirections orderbooks)). \<forall>sell. IsUint64 sell \<longrightarrow>
      (\<exists>r. hop_rounds (matchable d os + 1) set_change Orderbook_iterator d (start_hop sell tp os) = Some r \<and>
        hop_loop set_change Orderbook_iterator d (start_hop sell tp os) = Some r))"
proof (rule conjI)
  show "\<exists>r. MaybeAcceptTrade Orderbook_iterator amountIn fee reserves tradeDirections minAmount orderbooks = Some r \<and> r \<noteq> Inl GoPanic"
  proof (cases "fee \<le> amountIn")
    case True
    from trade_path_returns [OF assms(1) trade_sell_uint64 [OF assms(2,3) True], of empty_trade] show ?thesis
      by (auto simp: MaybeAcceptTrade_def returns_def no_panic_def split: sum.splits)
  qed (simp add: MaybeAcceptTrade_def)
  have "\<exists>r. hop_rounds (matchable d os + 1) set_change Orderbook_iterator d (start_hop sell tp os) = Some r \<and>
      hop_loop set_change Orderbook_iterator d (start_hop sell tp os) = Some r"
    if "(tp, d, os) \<in> set (zip reserves (zip tradeDirections orderbooks))" "IsUint64 sell" for tp d os sell
  proof -
    have p: "path_ok (\<lambda>os. os) [(tp, d, os)]" "d \<in> {TradeDirectionSell0, TradeDirectionSell1}" using assms(1) that(1) by (auto simp: path_ok_def)
    from orderbook.hop_rounds_end [OF orderbook.start_hop_ok [OF p(1) that(2)] p(2), of set_change] show ?thesis
      using hop_rounds_loop by (fastforce simp: start_hop_def)
  qed
  then show "\<forall>(tp, d, os) \<in> set (zip reserves (zip tradeDirections orderbooks)). \<forall>sell. IsUint64 sell \<longrightarrow>
      (\<exists>r. hop_rounds (matchable d os + 1) set_change Orderbook_iterator d (start_hop sell tp os) = Some r \<and>
        hop_loop set_change Orderbook_iterator d (start_hop sell tp os) = Some r)" by blast
qed

theorem trade_always_ends_witness:
  "(\<exists>r. toy_trade = Some r \<and> r \<noteq> Inl GoPanic) \<and>
   (\<exists>r. hop_rounds (matchable TradeDirectionSell0 [toy_order] + 1) set_change Orderbook_iterator TradeDirectionSell0 (start_hop 25 toy_pool [toy_order]) = Some r)"
proof -
  have u: "IsUint64 30" "IsUint64 25" by (simp_all add: IsUint64_def)
  from trade_always_ends [OF toy_path_ok u(1), of 5 20]
  have t: "\<exists>r. toy_trade = Some r \<and> r \<noteq> Inl GoPanic"
    "\<forall>(tp, d, os) \<in> set (zip [toy_pool] (zip [TradeDirectionSell0] [[toy_order]])). \<forall>sell. IsUint64 sell \<longrightarrow>
      (\<exists>r. hop_rounds (matchable d os + 1) set_change Orderbook_iterator d (start_hop sell tp os) = Some r \<and>
        hop_loop set_change Orderbook_iterator d (start_hop sell tp os) = Some r)" by (simp_all only: toy_trade_def) simp_all
  have "(toy_pool, TradeDirectionSell0, [toy_order]) \<in> set (zip [toy_pool] (zip [TradeDirectionSell0] [[toy_order]]))" by simp
  from bspec [OF t(2) this] u(2) t(1) show ?thesis by blast
qed

section \<open>The fee of a trade\<close>

text \<open>A pool that can be written back.\<close>

definition hop_sound :: "string \<times> PoolPairState \<times> nat \<Rightarrow> fee_hop \<Rightarrow> bool" where
  "hop_sound x h \<longleftrightarrow> fh_pairID h = fst x \<and> clone_ok (fst x, fh_pair h, TradeDirectionSell0)"

lemma hop_paid_sound:
  assumes "hop_paid params x h" and "clone_ok x"
  shows "hop_sound x h"
proof -
  obtain k p d where x: "x = (k, p, d)" by (cases x)
  have "fh_pairID h = k" and "hop_done (pp_state p, d, pp_orderbook p) (pp_state (fh_pair h), pp_orderbook (fh_pair h), fh_pairChange h, fh_orderChanges h)"
    using assms(1) x by (auto simp: hop_paid_def)
  then have "pool_ok (pp_state (fh_pair h))" "\<forall>ord \<in> set (pp_orderbook (fh_pair h)). order_ok ord" "map Id (pp_orderbook (fh_pair h)) = map Id (pp_orderbook p)" "fh_pairID h = k"
    unfolding hop_done_def prod.case using tracks_ids by blast+
  then show ?thesis using assms(2) x by (simp add: hop_sound_def clone_ok_def)
qed

lemma fee_swap_returns:
  assumes "hop_sound x h" and "IsUint64 sell" and "fh_direction h \<in> {TradeDirectionSell0, TradeDirectionSell1}"
  shows "returns (fee_swap sell h) (\<lambda>(h', buy). hop_sound x h' \<and> IsUint64 buy)"
  unfolding fee_swap_def
proof (rule returns_bind [OF hop_loop_returns [OF _ assms(3)]])
  have "\<forall>ord \<in> set (pp_orderbook (fh_pair h)). order_ok ord" "pool_ok (pp_state (fh_pair h))" using assms(1) by (auto simp: hop_sound_def clone_ok_def)
  then show "hop_ok (\<lambda>os. os) \<lparr>sellAmountRemain = sell, totalBuyAmount = 0, accumulatedToken0Change = 0, accumulatedToken1Change = 0,
      reserve = pp_state (fh_pair h), book = pp_orderbook (fh_pair h), OrderChanges = fh_orderChanges h\<rparr>" using assms(2) by (simp add: hop_ok_def IsUint64_def)
qed (use assms(1) in \<open>auto simp: hop_sound_def clone_ok_def hop_ok_def\<close>)

definition fee_path :: "Params \<Rightarrow> (string \<times> PoolPairState \<times> nat) list \<Rightarrow> bool" where
  "fee_path params hops \<longleftrightarrow> (\<forall>x \<in> set hops. clone_ok x \<and> 0 \<le> trading_ratio params (fst x) \<and> 0 < pool_fee params (fst x))"

lemma fee_path_rest:
  assumes "fee_path params (x # hops)" and "sumFees = sum_list (map (\<lambda>x. pool_fee params (fst x)) (x # hops))" and "IsUint64 sumFees"
  defines "rest \<equiv> sum_list (map (\<lambda>x. pool_fee params (fst x)) hops)"
  shows "0 < pool_fee params (fst x)" and "0 \<le> rest" and "sumFees = pool_fee params (fst x) + rest" and "IsUint64 rest" and "to_uint64 (sumFees - pool_fee params (fst x)) = rest"
proof -
  have nn: "0 \<le> y" if "y \<in> set (map (\<lambda>x. pool_fee params (fst x)) hops)" for y using that assms(1) by (fastforce simp: fee_path_def)
  have "0 \<le> rest" unfolding rest_def by (rule sum_list_nonneg) (rule nn)
  then show "0 < pool_fee params (fst x)" "0 \<le> rest" "sumFees = pool_fee params (fst x) + rest" "IsUint64 rest" "to_uint64 (sumFees - pool_fee params (fst x)) = rest"
    using assms(1-3) by (auto simp: rest_def fee_path_def IsUint64_def)
qed

lemma track_token_returns:
  assumes "list_all2 (hop_start params) hops hs" and "fee_path params hops" and "IsUint64 fee" and "sumFees = sum_list (map (\<lambda>x. pool_fee params (fst x)) hops)" and "IsUint64 sumFees"
  shows "returns (track_token params sumFees fee hs)
    (\<lambda>hs'. list_all2 hop_sound hops hs' \<and> (length hops = 1 \<longrightarrow> list_all2 (hop_paid params) hops hs' \<and> sum_list (map earned hs') = fee))"
  using assms
proof (induction arbitrary: fee sumFees rule: list_all2_induct)
  case (Cons x hops h hs)
  note rest = fee_path_rest [OF Cons.prems(1,3,4)] and part = fee_part [OF Cons.prems(2) fee_path_rest(1,2) [OF Cons.prems(1,3,4)], folded fee_path_rest(3) [OF Cons.prems(1,3,4)]]
  have w: "fh_poolFee h = pool_fee params (fst x)" "fh_direction h \<in> {TradeDirectionSell0, TradeDirectionSell1}"
    using Cons.hyps(1) Cons.prems(1) by (auto simp: hop_start_def fee_path_def clone_ok_def)
  let ?r = "fee * pool_fee params (fst x) div sumFees" and ?t = "if fh_direction h = TradeDirectionSell1 then Token1ID (pp_state (fh_pair h)) else Token0ID (pp_state (fh_pair h))"
  have co: "clone_ok x" "0 \<le> trading_ratio params (fst x)" using Cons.prems(1) by (auto simp: fee_path_def)
  obtain h' where h': "share_hop params ?t ?r h = Inr h'" "hop_paid params x h'" "fh_rewardEarned h' = [(?t, ?r)]"
    by (rule share_hop_paid [OF Cons.hyps(1) co part(2)])
  have d': "fh_direction h' = fh_direction h" using h'(1) by (auto simp: share_hop_def go_bind_def split: sum.splits prod.splits)
  note sound = hop_paid_sound [OF h'(2) co(1)]
  have unf: "track_token params sumFees fee (h # hs) = (if hs = [] then Some (Inr [h']) else run_bind (fee_swap (fee - ?r) h')
      (\<lambda>(h2, buy). run_bind (track_token params (to_uint64 (sumFees - pool_fee params (fst x))) buy hs) (\<lambda>hops'. Some (Inr (h2 # hops')))))"
    by (simp only: track_token.simps(2) w(1) part(1) run_bind_Inr Let_def h'(1) to_uint64_id [OF part(2)] to_uint64_id [OF part(3)])
  show ?case
  proof (cases "hs = []")
    case True
    then have "hops = []" using Cons.hyps(2) by simp
    moreover from this have "?r = fee" using part(4) by simp
    ultimately show ?thesis unfolding unf if_P [OF True] using h'(2,3) sound by (simp add: earned_def)
  next
    case False
    then have "hops \<noteq> []" using Cons.hyps(2) by auto
    have "returns (run_bind (fee_swap (fee - ?r) h') (\<lambda>(h2, buy). run_bind (track_token params (to_uint64 (sumFees - pool_fee params (fst x))) buy hs) (\<lambda>hops'. Some (Inr (h2 # hops')))))
      (\<lambda>hs'. list_all2 hop_sound (x # hops) hs')"
    proof (rule returns_bind [OF fee_swap_returns [OF sound part(3)]])
      fix hb assume "case hb of (h2, buy) \<Rightarrow> hop_sound x h2 \<and> IsUint64 buy"
      then obtain h2 buy where hb: "hb = (h2, buy)" "hop_sound x h2" "IsUint64 buy" by (cases hb) auto
      have "fee_path params hops" using Cons.prems(1) by (simp add: fee_path_def)
      from Cons.IH [OF this hb(3) refl rest(4)] show "returns (case hb of (h2, buy) \<Rightarrow> run_bind (track_token params (to_uint64 (sumFees - pool_fee params (fst x))) buy hs) (\<lambda>hops'. Some (Inr (h2 # hops'))))
        (\<lambda>hs'. list_all2 hop_sound (x # hops) hs')" unfolding hb(1) prod.case rest(5) by (rule returns_bind) (use hb(2) in simp)
    qed (use w d' in simp)
    then show ?thesis unfolding unf if_not_P [OF False] by (rule returns_mono) (use \<open>hops \<noteq> []\<close> in simp)
  qed
qed simp

text \<open>A fee that producer and processor share out alike: in PRV, or of a trade through one pool.\<close>

definition plain_fee :: "bool \<Rightarrow> string \<Rightarrow> 'a list \<Rightarrow> bool" where
  "plain_fee feeInPRV sellingTokenID path \<longleftrightarrow> feeInPRV \<or> sellingTokenID = PRVCoinID \<or> length path = 1"

lemma TrackFee_returns:
  assumes "list_all2 (hop_start params) hops hs" and "fee_path params hops" and "IsUint64 fee" and "sumFees = sum_list (map (\<lambda>x. pool_fee params (fst x)) hops)" and "IsUint64 sumFees"
    and "hops \<noteq> []"
  shows "returns (TrackFee params fee feeInPRV t sumFees hs)
    (\<lambda>hs'. list_all2 hop_sound hops hs' \<and> (plain_fee feeInPRV t hops \<longrightarrow> list_all2 (hop_paid params) hops hs' \<and> sum_list (map earned hs') = fee))"
proof (cases "feeInPRV \<or> t = PRVCoinID")
  case True
  have ok: "\<forall>x \<in> set hops. clone_ok x \<and> 0 \<le> trading_ratio params (fst x) \<and> 0 < pool_fee params (fst x)" using assms(2) by (simp add: fee_path_def)
  from track_prv_paid [OF assms(1) ok assms(3,4,5)] obtain hs' where hs': "track_prv params sumFees fee hs = Inr hs'" "list_all2 (hop_paid params) hops hs'"
    "sum_list (map earned hs') = fee" using assms(6) by blast
  from hs'(2) ok have "list_all2 hop_sound hops hs'" by (induction rule: list_all2_induct) (auto intro: hop_paid_sound)
  then show ?thesis using True hs' by (simp add: TrackFee_def)
next
  case False
  then show ?thesis using track_token_returns [OF assms(1-5)] by (simp add: TrackFee_def plain_fee_def)
qed

lemma path_writes:
  assumes "list_all2 hop_sound hops hs" and "\<forall>x \<in> set hops. map_of pairs (fst x) \<noteq> None" and "tradable pairs"
  shows "\<exists>pairs'. go_foldl (write_hop params) pairs hs = Inr pairs' \<and> tradable pairs' \<and> map fst pairs' = map fst pairs"
  using assms
proof (induction arbitrary: pairs rule: list_all2_induct)
  case (Cons x hops h hs)
  obtain p where p: "map_of pairs (fst x) = Some p" using Cons.prems(1) by auto
  have s: "fh_pairID h = fst x" "clone_ok (fst x, fh_pair h, TradeDirectionSell0)" using Cons.hyps(1) by (auto simp: hop_sound_def)
  obtain p' where w: "write_hop params pairs h = Inr (al_put (fst x) p' pairs)" "pp_state p' = pp_state (fh_pair h)" "pp_orderbook p' = pp_orderbook (fh_pair h)"
    by (simp add: write_hop_def s(1) p)
  have ok: "tradable (al_put (fst x) p' pairs)" using Cons.prems(2) s(2) w(2,3) by (auto simp: tradable_def clone_ok_def)
  have keys: "map fst (al_put (fst x) p' pairs) = map fst pairs" using p by (auto simp: keys_al_put dest: map_of_SomeD intro: rev_image_eqI)
  have ex: "\<forall>y \<in> set hops. map_of (al_put (fst x) p' pairs) (fst y) \<noteq> None" using Cons.prems(1) by simp
  from Cons.IH [OF ex ok] obtain pairs' where "go_foldl (write_hop params) (al_put (fst x) p' pairs) hs = Inr pairs'" "tradable pairs'"
    "map fst pairs' = map fst (al_put (fst x) p' pairs)" by auto
  then show ?case using w(1) keys by simp
qed simp

section \<open>One trade\<close>

definition rates_ok :: "Params \<Rightarrow> bool" where
  "rates_ok params \<longleftrightarrow> fees_typed params \<and> 0 \<le> DefaultOrderTradingRewardRatioBPS params \<and> (\<forall>(_, r) \<in> set (OrderTradingRewardRatioBPS params). 0 \<le> r)"

text \<open>The amounts of a request are \<^verbatim>\<open>uint64\<close> values, and it names a receiver for whatever is refunded.\<close>

definition trade_request_ok :: "bool \<Rightarrow> 'r TradeRequest \<Rightarrow> bool" where
  "trade_request_ok burnedPRV md \<longleftrightarrow> IsUint64 (td_SellAmount md) \<and> IsUint64 (td_TradingFee md) \<and> length (td_TradePath md) < 2 ^ 50 \<and>
     td_Receiver md (td_TokenToSell md) \<noteq> None \<and> (burnedPRV \<longrightarrow> td_Receiver md PRVCoinID \<noteq> None)"

lemma ratio_nonneg: "rates_ok params \<Longrightarrow> 0 \<le> trading_ratio params k"
  by (auto simp: rates_ok_def trading_ratio_def split: option.splits dest!: map_of_SomeD)

lemma path_fees_bounded:
  assumes "params_ok prs params" and "fees_typed params" and "length path < 2 ^ 50"
  shows "IsUint64 (sum_list (map (pool_fee params) path))"
proof -
  have "0 \<le> sum_list (map (pool_fee params) path) \<and> sum_list (map (pool_fee params) path) \<le> int (length path) * MaxFeeRateBPS"
    by (induction path) (use pool_fee_bounds [OF assms(1,2)] in \<open>auto simp: algebra_simps intro: add_mono add_nonneg_nonneg less_imp_le\<close>)
  moreover have "int (length path) < 2 ^ 50" using assms(3) by (simp add: of_nat_less_numeral_power_cancel_iff)
  ultimately show ?thesis by (simp add: IsUint64_def MaxFeeRateBPS_def)
qed

text \<open>What a producer does with an accepted trade, and what a node makes of its instruction.\<close>

definition trade_replays :: "Params \<Rightarrow> pairs \<Rightarrow> pairs \<Rightarrow> 'r trade_inst list \<Rightarrow> bool" where
  "trade_replays params pairs pairs' insts \<longleftrightarrow> (\<forall>n. pairs_agree pairs (tn_pairs n) \<longrightarrow>
     (\<exists>n'. go_foldl (process_trade_inst params) n insts = Inr n' \<and> pairs_agree pairs' (tn_pairs n')))"

lemma process_accepted:
  assumes "map fh_pairID hs = path"
  shows "process_trade params pairs (accepted_trade receiver amount path buy hs) = go_foldl (process_hop params) pairs (map hop_data hs)"
proof -
  have "zip (map fh_pairID hs) (zip (map fh_pairChange hs) (zip (map fh_rewardEarned hs) (map (\<lambda>h. change_entries (pp_orderbook (fh_pair h)) (fh_orderChanges h)) hs))) = map hop_data hs"
    by (induction hs) (simp_all add: hop_data_def)
  moreover have "length path = length hs" using assms by auto
  ultimately show ?thesis using assms by (simp add: process_trade_def accepted_trade_def)
qed

lemma no_panic_path: "no_panic (path_from_state pairs seen t path)"
  by (induction pairs seen t path rule: path_from_state.induct) (auto intro!: no_panic_bind split: option.splits)

text \<open>An accepted trade: at least the requested amount goes to the receiver that the request names for the bought token; a plain fee is
  shared out exactly.\<close>

definition accepted_ok :: "bool \<Rightarrow> 'r trade_tx \<Rightarrow> 'r AcceptedTradeContent \<Rightarrow> bool" where
  "accepted_ok feeInPRV tx content \<longleftrightarrow> (let md = tx_Metadata tx in
     at_TradePath content = td_TradePath md \<and> td_MinAcceptableAmount md \<le> at_Amount content \<and> td_Receiver md (at_TokenToBuy content) = Some (at_Receiver content) \<and>
     (plain_fee feeInPRV (td_TokenToSell md) (td_TradePath md) \<longrightarrow> sum_list (map (\<lambda>r. sum_list (map snd r)) (at_RewardEarned content)) = td_TradingFee md))"

definition accept_post :: "Params \<Rightarrow> bool \<Rightarrow> 'r trade_tx \<Rightarrow> pairs \<Rightarrow> pairs \<times> 'r trade_inst \<Rightarrow> bool" where
  "accept_post params feeInPRV tx pairs = (\<lambda>(pairs', inst). tradable pairs' \<and> map fst pairs' = map fst pairs \<and>
     (\<exists>content. inst = AcceptedTradeInst content (tx_Hash tx) (tx_ShardID tx) \<and> accepted_ok feeInPRV tx content) \<and>
     (plain_fee feeInPRV (td_TokenToSell (tx_Metadata tx)) (td_TradePath (tx_Metadata tx)) \<longrightarrow> trade_replays params pairs pairs' [inst]))"

text \<open>The end of an accepted trade: the clones are written back, and a node that processes the instruction does the same.\<close>

lemma accept_writes:
  assumes "list_all2 hop_sound hops hs" and "plain \<longrightarrow> list_all2 (hop_paid params) hops hs" and "distinct (map fst hops)"
    and "\<forall>(k, p, d) \<in> set hops. map_of pairs k = Some p \<and> d \<in> {TradeDirectionSell0, TradeDirectionSell1}" and "tradable pairs"
  shows "\<exists>pairs'. go_foldl (write_hop params) pairs hs = Inr pairs' \<and> tradable pairs' \<and> map fst pairs' = map fst pairs \<and>
    (plain \<longrightarrow> trade_replays params pairs pairs' [AcceptedTradeInst (accepted_trade receiver amount (map fst hops) buy hs) txID shardID])"
proof -
  have "\<forall>x \<in> set hops. map_of pairs (fst x) \<noteq> None" using assms(4) by fastforce
  from path_writes [OF assms(1) this assms(5)] obtain pairs' where w: "go_foldl (write_hop params) pairs hs = Inr pairs'" "tradable pairs'" "map fst pairs' = map fst pairs" by blast
  have ids: "map fh_pairID hs = map fst hops" using assms(1) by (induction rule: list_all2_induct) (auto simp: hop_sound_def)
  have "trade_replays params pairs pairs' [AcceptedTradeInst (accepted_trade receiver amount (map fst hops) buy hs) txID shardID]" if plain
    unfolding trade_replays_def
  proof (intro allI impI)
    fix n :: trade_node assume n: "pairs_agree pairs (tn_pairs n)"
    from path_replay [OF assms(2) [rule_format, OF that] assms(3,4,5) n] w(1) obtain qairs where
      "go_foldl (process_hop params) (tn_pairs n) (map hop_data hs) = Inr qairs" "pairs_agree pairs' qairs" by auto
    then show "\<exists>n'. go_foldl (process_trade_inst params) n [AcceptedTradeInst (accepted_trade receiver amount (map fst hops) buy hs) txID shardID] = Inr n' \<and>
        pairs_agree pairs' (tn_pairs n')" by (simp add: process_trade_inst_def process_accepted [OF ids])
  qed
  then show ?thesis using w by blast
qed

text \<open>The trade along a path that was found in the state.\<close>

definition trade_along :: "Params \<Rightarrow> bool \<Rightarrow> 'r trade_tx \<Rightarrow> pairs \<Rightarrow> (string \<times> PoolPairState \<times> nat) list \<Rightarrow> string \<Rightarrow> 'r \<Rightarrow> (pairs \<times> 'r trade_inst) go option" where
  "trade_along params feeInPRV tx pairs hops buy receiver = (let md = tx_Metadata tx in
     run_bind (MaybeAcceptTrade Orderbook_iterator (td_SellAmount md) 0 (map (\<lambda>(_, p, _). pp_state p) hops) (map (\<lambda>(_, _, d). d) hops)
         (td_MinAcceptableAmount md) (map (\<lambda>(_, p, _). pp_orderbook p) hops)) (\<lambda>acc.
     run_bind (TrackFee params (td_TradingFee md) feeInPRV (td_TokenToSell md) (to_uint64 (sum_list (map (pool_fee params) (td_TradePath md)))) (start_hops params hops acc)) (\<lambda>hs.
     run_bind (Some (go_foldl (write_hop params) pairs hs)) (\<lambda>pairs'.
       Some (Inr (pairs', AcceptedTradeInst (accepted_trade receiver (acc_Amount acc) (td_TradePath md) buy hs) (tx_Hash tx) (tx_ShardID tx)))))))"

lemma accept_trade_along:
  "accept_trade params feeInPRV tx pairs = run_bind (Some (TradePathFromState (td_TokenToSell (tx_Metadata tx)) (td_TradePath (tx_Metadata tx)) pairs)) (\<lambda>(hops, buy).
     case td_Receiver (tx_Metadata tx) buy of None \<Rightarrow> Some (Inl (GoErr ''no receiver'')) | Some receiver \<Rightarrow> trade_along params feeInPRV tx pairs hops buy receiver)"
  unfolding accept_trade_def trade_along_def Let_def by (rule refl)

lemma trade_along_returns:
  assumes hops: "map fst hops = td_TradePath (tx_Metadata tx)" "distinct (map fst hops)" "hops \<noteq> []"
      "\<forall>(k, p, d) \<in> set hops. map_of pairs k = Some p \<and> d \<in> {TradeDirectionSell0, TradeDirectionSell1}"
    and ok: "tradable pairs" "fee_path params hops" "trade_request_ok b (tx_Metadata tx)"
    and fees: "IsUint64 (sum_list (map (pool_fee params) (td_TradePath (tx_Metadata tx))))"
    and rec: "td_Receiver (tx_Metadata tx) buy = Some receiver"
  shows "returns (trade_along params feeInPRV tx pairs hops buy receiver) (accept_post params feeInPRV tx pairs)"
proof -
  define md where "md = tx_Metadata tx"
  let ?tps = "map (\<lambda>(_, p, _). pp_state p) hops" and ?ds = "map (\<lambda>(_, _, d). d) hops" and ?obs = "map (\<lambda>(_, p, _). pp_orderbook p) hops"
  have req: "IsUint64 (td_SellAmount md)" "IsUint64 (td_TradingFee md)" using ok(3) by (auto simp: trade_request_ok_def md_def)
  have sum: "to_uint64 (sum_list (map (pool_fee params) (td_TradePath md))) = sum_list (map (\<lambda>x. pool_fee params (fst x)) hops)"
    "IsUint64 (to_uint64 (sum_list (map (pool_fee params) (td_TradePath md))))"
    using fees by (simp_all add: md_def hops(1) [symmetric] comp_def)
  have z: "zip ?tps (zip ?ds ?obs) = map (\<lambda>(_, p, d). (pp_state p, d, pp_orderbook p)) hops" by (induction hops) auto
  have cl: "\<forall>x \<in> set hops. clone_ok x" and po: "path_ok (\<lambda>os. os) (zip ?tps (zip ?ds ?obs))" using ok(2) unfolding z by (auto simp: path_ok_def clone_ok_def fee_path_def)
  show ?thesis unfolding trade_along_def Let_def md_def [symmetric]
  proof (intro returns_bind [OF MaybeAcceptTrade_returns [OF po req(1), of "td_MinAcceptableAmount md"]])
    fix acc assume acc: "MaybeAcceptTrade Orderbook_iterator (td_SellAmount md) 0 ?tps ?ds (td_MinAcceptableAmount md) ?obs = Some (Inr acc)"
    note sh = start_hops_done [OF cl req(1) acc, of params]
    have mn: "td_MinAcceptableAmount md \<le> acc_Amount acc" using acc by (auto simp: MaybeAcceptTrade_def split: if_splits option.splits sum.splits)
    show "returns (run_bind (TrackFee params (td_TradingFee md) feeInPRV (td_TokenToSell md) (to_uint64 (sum_list (map (pool_fee params) (td_TradePath md)))) (start_hops params hops acc)) (\<lambda>hs.
        run_bind (Some (go_foldl (write_hop params) pairs hs)) (\<lambda>pairs'.
          Some (Inr (pairs', AcceptedTradeInst (accepted_trade receiver (acc_Amount acc) (td_TradePath md) buy hs) (tx_Hash tx) (tx_ShardID tx))))))
      (accept_post params feeInPRV tx pairs)"
    proof (rule returns_bind [OF TrackFee_returns [OF sh ok(2) req(2) sum hops(3)]], elim conjE)
      fix hs assume hs: "list_all2 hop_sound hops hs"
        "plain_fee feeInPRV (td_TokenToSell md) hops \<longrightarrow> list_all2 (hop_paid params) hops hs \<and> sum_list (map earned hs) = td_TradingFee md"
      have "length (td_TradePath md) = length hops" using arg_cong [OF hops(1), of length] by (simp add: md_def)
      then have pl: "plain_fee feeInPRV (td_TokenToSell md) (td_TradePath md) \<longrightarrow> list_all2 (hop_paid params) hops hs \<and> sum_list (map earned hs) = td_TradingFee md"
        using hs(2) by (simp add: plain_fee_def)
      then have pl1: "plain_fee feeInPRV (td_TokenToSell md) (td_TradePath md) \<longrightarrow> list_all2 (hop_paid params) hops hs" by blast
      have "earned = (\<lambda>h. sum_list (map snd (fh_rewardEarned h)))" by (simp add: earned_def fun_eq_iff)
      then have content: "accepted_ok feeInPRV tx (accepted_trade receiver (acc_Amount acc) (td_TradePath md) buy hs)"
        using pl mn rec by (simp add: accepted_ok_def accepted_trade_def md_def [symmetric] comp_def)
      from accept_writes [OF hs(1) pl1 hops(2,4) ok(1), of receiver "acc_Amount acc" buy "tx_Hash tx" "tx_ShardID tx"] content
      show "returns (run_bind (Some (go_foldl (write_hop params) pairs hs)) (\<lambda>pairs'.
          Some (Inr (pairs', AcceptedTradeInst (accepted_trade receiver (acc_Amount acc) (td_TradePath md) buy hs) (tx_Hash tx) (tx_ShardID tx)))))
        (accept_post params feeInPRV tx pairs)" by (auto simp: accept_post_def hops(1) md_def [symmetric])
    qed
  qed
qed

lemma accept_trade_returns:
  assumes "params_ok prs params" and "rates_ok params" and "tradable pairs" and "trade_request_ok b (tx_Metadata tx)" and "td_TradePath (tx_Metadata tx) \<noteq> []"
  shows "returns (accept_trade params feeInPRV tx pairs) (accept_post params feeInPRV tx pairs)"
proof -
  have ft: "fees_typed params" and len: "length (td_TradePath (tx_Metadata tx)) < 2 ^ 50" using assms(2,4) by (auto simp: rates_ok_def trade_request_ok_def)
  show ?thesis unfolding accept_trade_along
  proof (rule returns_bind [OF returns_go])
    show "no_panic (TradePathFromState (td_TokenToSell (tx_Metadata tx)) (td_TradePath (tx_Metadata tx)) pairs)"
      unfolding TradePathFromState_def by (rule no_panic_path)
  next
    fix hb assume hb: "TradePathFromState (td_TokenToSell (tx_Metadata tx)) (td_TradePath (tx_Metadata tx)) pairs = Inr hb"
    obtain hops buy where h: "hb = (hops, buy)" by force
    note pf = path_from_state_hops [OF hb [unfolded h TradePathFromState_def]]
    have "fee_path params hops"
      using pf(4) assms(3) pool_fee_bounds [OF assms(1) ft] ratio_nonneg [OF assms(2)] clone_ok_dir by (fastforce simp: fee_path_def tradable_def)
    note along = trade_along_returns [OF pf(1) _ _ pf(4) assms(3) this assms(4) path_fees_bounded [OF assms(1) ft len], of buy]
    show "returns (case hb of (hops, buy) \<Rightarrow> case td_Receiver (tx_Metadata tx) buy of None \<Rightarrow> Some (Inl (GoErr ''no receiver''))
        | Some receiver \<Rightarrow> trade_along params feeInPRV tx pairs hops buy receiver) (accept_post params feeInPRV tx pairs)"
    proof (cases "td_Receiver (tx_Metadata tx) buy")
      case (Some receiver)
      have "distinct (map fst hops)" "hops \<noteq> []" using pf(1,2) assms(5) by auto
      from along [OF this Some] show ?thesis using h Some by simp
    qed (simp add: h)
  qed
qed

section \<open>The trades of a block\<close>

lemma trade_replays_refl: "\<forall>i \<in> set insts. \<exists>c x s. i = RefundedTradeInst c x s \<Longrightarrow> trade_replays params pairs pairs insts"
proof -
  assume r: "\<forall>i \<in> set insts. \<exists>c x s. i = RefundedTradeInst c x s"
  have "\<exists>n'. go_foldl (process_trade_inst params) n insts = Inr n' \<and> tn_pairs n' = tn_pairs n" for n using r
  proof (induction insts arbitrary: n)
    case (Cons i insts)
    then obtain c x s where i: "i = RefundedTradeInst c x s" by auto
    obtain n1 where "process_trade_inst params n i = Inr n1" "tn_pairs n1 = tn_pairs n" by (simp add: i process_trade_inst_def)
    then show ?case using Cons.IH [of n1] Cons.prems by simp
  qed simp
  then show ?thesis by (fastforce simp: trade_replays_def)
qed

lemma trade_replays_append:
  assumes "trade_replays params pairs pairs1 is" and "trade_replays params pairs1 pairs2 js"
  shows "trade_replays params pairs pairs2 (is @ js)"
  unfolding trade_replays_def
proof (intro allI impI)
  fix n :: trade_node assume "pairs_agree pairs (tn_pairs n)"
  with assms(1) obtain n1 where n1: "go_foldl (process_trade_inst params) n is = Inr n1" "pairs_agree pairs1 (tn_pairs n1)" by (auto simp: trade_replays_def)
  with assms(2) obtain n2 where "go_foldl (process_trade_inst params) n1 js = Inr n2" "pairs_agree pairs2 (tn_pairs n2)" by (auto simp: trade_replays_def)
  then show "\<exists>n'. go_foldl (process_trade_inst params) n (is @ js) = Inr n' \<and> pairs_agree pairs2 (tn_pairs n')" using n1 by (simp add: go_foldl_append)
qed

text \<open>What a list of instructions gives back of a token, and the two answers to a trade.\<close>

definition given_back :: "string \<Rightarrow> 'r trade_inst list \<Rightarrow> int" where
  "given_back t insts = sum_list (map (\<lambda>i. case i of RefundedTradeInst c _ _ \<Rightarrow> if rt_TokenID c = t then rt_Amount c else 0 | _ \<Rightarrow> 0) insts)"

definition refunded_ok :: "bool \<Rightarrow> 'r trade_tx \<Rightarrow> 'r trade_inst list \<Rightarrow> bool" where
  "refunded_ok feeInPRV tx insts \<longleftrightarrow> (let md = tx_Metadata tx in
     (\<forall>i \<in> set insts. \<exists>c. i = RefundedTradeInst c (tx_Hash tx) (tx_ShardID tx) \<and> td_Receiver md (rt_TokenID c) = Some (rt_Receiver c)) \<and>
     (\<forall>t. given_back t insts = (if t = td_TokenToSell md then td_SellAmount md else 0) +
        (if t = (if feeInPRV then PRVCoinID else td_TokenToSell md) then td_TradingFee md else 0)))"

definition trade_answer :: "'r trade_tx \<times> bool \<Rightarrow> 'r trade_inst list \<Rightarrow> bool" where
  "trade_answer = (\<lambda>(tx, feeInPRV) insts.
     (\<exists>content. insts = [AcceptedTradeInst content (tx_Hash tx) (tx_ShardID tx)] \<and> accepted_ok feeInPRV tx content) \<or> refunded_ok feeInPRV tx insts)"

text \<open>A request whose refund fits into \<^verbatim>\<open>uint64\<close>.\<close>

definition trade_ok :: "'r trade_tx \<times> bool \<Rightarrow> bool" where
  "trade_ok = (\<lambda>(tx, feeInPRV). trade_request_ok feeInPRV (tx_Metadata tx) \<and>
     (feeInPRV \<or> IsUint64 (td_SellAmount (tx_Metadata tx) + td_TradingFee (tx_Metadata tx))))"

lemma refund_returns:
  assumes "trade_ok (tx, feeInPRV)"
  obtains insts where "getRefundedTradeInstructions (tx_Metadata tx) feeInPRV (tx_Hash tx) (tx_ShardID tx) = Inr insts" "refunded_ok feeInPRV tx insts"
proof -
  define md where "md = tx_Metadata tx"
  obtain r where r: "td_Receiver md (td_TokenToSell md) = Some r" using assms by (auto simp: trade_ok_def trade_request_ok_def md_def)
  show thesis
  proof (cases feeInPRV)
    case True
    then obtain q where "td_Receiver md PRVCoinID = Some q" using assms by (auto simp: trade_ok_def trade_request_ok_def md_def)
    then show thesis using True r by (intro that) (auto simp: getRefundedTradeInstructions_def refunded_ok_def given_back_def md_def [symmetric] Let_def)
  next
    case False
    then have "IsUint64 (td_SellAmount md + td_TradingFee md)" using assms by (simp add: trade_ok_def md_def)
    then show thesis using False r by (intro that) (auto simp: getRefundedTradeInstructions_def refunded_ok_def given_back_def md_def [symmetric] Let_def)
  qed
qed

lemma refunds_replay: "refunded_ok feeInPRV tx insts \<Longrightarrow> trade_replays params pairs pairs insts"
  by (rule trade_replays_refl) (auto simp: refunded_ok_def Let_def)

definition tx_plain :: "'r trade_tx \<times> bool \<Rightarrow> bool" where
  "tx_plain = (\<lambda>(tx, feeInPRV). plain_fee feeInPRV (td_TokenToSell (tx_Metadata tx)) (td_TradePath (tx_Metadata tx)))"

lemma trade_tx_returns:
  assumes "params_ok prs params" and "rates_ok params" and "tradable pairs" and "trade_ok (tx, feeInPRV)"
  obtains pairs' insts where "trade_tx_step params (pairs, result) (tx, feeInPRV, fee) = Some (Inr (pairs', result @ insts))" "tradable pairs'"
    "map fst pairs' = map fst pairs" "trade_answer (tx, feeInPRV) insts" "tx_plain (tx, feeInPRV) \<longrightarrow> trade_replays params pairs pairs' insts"
proof -
  obtain rf where b: "getRefundedTradeInstructions (tx_Metadata tx) feeInPRV (tx_Hash tx) (tx_ShardID tx) = Inr rf" "refunded_ok feeInPRV tx rf"
    by (rule refund_returns [OF assms(4)])
  note refund = that [of pairs rf] assms(3) b(2) refunds_replay [OF b(2), of params pairs]
  have req: "trade_request_ok feeInPRV (tx_Metadata tx)" using assms(4) by (simp add: trade_ok_def)
  show thesis
  proof (cases "td_TradePath (tx_Metadata tx) = [] \<or> fee * BPS < td_SellAmount (tx_Metadata tx) * to_uint64 (sum_list (map (pool_fee params) (td_TradePath (tx_Metadata tx))))")
    case True
    then show thesis using refund b(1) by (auto simp: trade_tx_step_def Let_def trade_answer_def)
  next
    case False
    then have ne: "td_TradePath (tx_Metadata tx) \<noteq> []" by simp
    from accept_trade_returns [OF assms(1,2,3) req ne, of feeInPRV] obtain r where r: "accept_trade params feeInPRV tx pairs = Some r" "no_panic r"
      "\<And>x. r = Inr x \<Longrightarrow> accept_post params feeInPRV tx pairs x" by (auto simp: returns_def)
    have step: "trade_tx_step params (pairs, result) (tx, feeInPRV, fee) = run_catch (Some r) (Some (Inr (pairs, result @ rf))) (\<lambda>(pairs', inst). Some (Inr (pairs', result @ [inst])))"
      using False b(1) r(1) by (simp add: trade_tx_step_def Let_def)
    show thesis
    proof (cases r)
      case (Inl e)
      then obtain msg where "r = Inl (GoErr msg)" using r(2) by (cases e) auto
      then show thesis using refund step by (auto simp: run_catch_def trade_answer_def)
    next
      case (Inr x)
      then obtain pairs' inst where x: "r = Inr (pairs', inst)" by (cases x) auto
      have "accept_post params feeInPRV tx pairs (pairs', inst)" by (rule r(3) [OF x])
      then show thesis using step x by (intro that [of pairs' "[inst]"]) (auto simp: run_catch_def accept_post_def trade_answer_def tx_plain_def)
    qed
  qed
qed

lemma trades_return:
  assumes "params_ok prs params" and "rates_ok params" and "tradable pairs" and "\<forall>(tx, feeInPRV, fee) \<in> set reqs. trade_ok (tx, feeInPRV)"
  shows "\<exists>pairs' answers. run_foldl (trade_tx_step params) (pairs, result) reqs = Some (Inr (pairs', result @ concat answers)) \<and> tradable pairs' \<and> map fst pairs' = map fst pairs \<and>
    list_all2 trade_answer (map (\<lambda>(tx, feeInPRV, fee). (tx, feeInPRV)) reqs) answers \<and>
    ((\<forall>(tx, feeInPRV, fee) \<in> set reqs. tx_plain (tx, feeInPRV)) \<longrightarrow> trade_replays params pairs pairs' (concat answers))"
  using assms(3,4)
proof (induction reqs arbitrary: pairs result)
  case Nil
  then show ?case by (auto intro!: exI [of _ "[]"] trade_replays_refl)
next
  case (Cons req reqs)
  obtain tx feeInPRV fee where req: "req = (tx, feeInPRV, fee)" by (cases req)
  have ok: "trade_ok (tx, feeInPRV)" using Cons.prems(2) req by simp
  obtain pairs1 insts where s: "trade_tx_step params (pairs, result) req = Some (Inr (pairs1, result @ insts))" "tradable pairs1"
    "map fst pairs1 = map fst pairs" "trade_answer (tx, feeInPRV) insts" "tx_plain (tx, feeInPRV) \<longrightarrow> trade_replays params pairs pairs1 insts"
    unfolding req by (rule trade_tx_returns [OF assms(1,2) Cons.prems(1) ok])
  have rest: "\<forall>(tx, feeInPRV, fee) \<in> set reqs. trade_ok (tx, feeInPRV)" using Cons.prems(2) by simp
  from Cons.IH [OF s(2) rest, of "result @ insts"] obtain pairs' answers where
    t: "run_foldl (trade_tx_step params) (pairs1, result @ insts) reqs = Some (Inr (pairs', (result @ insts) @ concat answers))" "tradable pairs'" "map fst pairs' = map fst pairs1"
    "list_all2 trade_answer (map (\<lambda>(tx, feeInPRV, fee). (tx, feeInPRV)) reqs) answers"
    "(\<forall>(tx, feeInPRV, fee) \<in> set reqs. tx_plain (tx, feeInPRV)) \<longrightarrow> trade_replays params pairs1 pairs' (concat answers)" by blast
  have "(\<forall>(tx, feeInPRV, fee) \<in> set (req # reqs). tx_plain (tx, feeInPRV)) \<longrightarrow> trade_replays params pairs pairs' (insts @ concat answers)"
    using s(5) t(5) req by (auto intro: trade_replays_append)
  then show ?case using s(1,3,4) t(1-4) req by (intro exI [of _ pairs'] exI [of _ "insts # answers"]) simp
qed

section \<open>The weights of the requests\<close>

definition weights_ok :: "Params \<Rightarrow> pairs \<Rightarrow> bool" where
  "weights_ok params pairs \<longleftrightarrow> 0 \<le> PRVDiscountPercent params \<and> 0 < MinPRVReserveTradingRate params \<and> (\<forall>(k, p) \<in> set pairs. 0 < Amplifier (pp_state p))"

lemma prices_return:
  assumes "weights_ok params pairs"
  obtains rates where "getTokenPricesAgainstPRV pairs (MinPRVReserveTradingRate params) = Inr rates" "\<forall>(t, tok, prv, liq) \<in> set rates. 0 < prv"
proof -
  let ?ok = "\<lambda>rates :: (string \<times> int \<times> int \<times> int) list. distinct (map fst rates) \<and> (\<forall>(t, tok, prv, liq) \<in> set rates. 0 < prv)"
  have step: "\<exists>rates'. price_step (MinPRVReserveTradingRate params) rates x = Inr rates' \<and> ?ok rates'" if x: "x \<in> set pairs" and r: "?ok rates" for x rates
  proof -
    obtain k p where xp: "x = (k, p)" by force
    obtain t tok prv where pr: "prv_reserves (pp_state p) = (t, tok, prv)" by (metis prod_cases3)
    have amp: "0 < int (Amplifier (pp_state p))" using assms x xp by (auto simp: weights_ok_def)
    show ?thesis
    proof (cases "prv * int BaseAmplifier < MinPRVReserveTradingRate params * int (Amplifier (pp_state p))")
      case False
      have "0 < MinPRVReserveTradingRate params * int (Amplifier (pp_state p))" using assms amp by (simp add: weights_ok_def)
      then have "0 < prv * int BaseAmplifier" using False by linarith
      then have prv: "0 < prv" by (simp add: zero_less_mult_iff BaseAmplifier_def)
      obtain liq where "normalized_liquidity tok prv (Amplifier (pp_state p)) = Inr liq" using amp by (simp add: normalized_liquidity_def)
      moreover have "?ok (al_put t (tok, prv, liq) rates)" for liq using r prv by (auto simp: set_al_put)
      ultimately show ?thesis using False r by (auto simp: price_step_def xp pr split: option.splits)
    qed (use r in \<open>auto simp: price_step_def xp pr\<close>)
  qed
  have "\<exists>rates'. go_foldl (price_step (MinPRVReserveTradingRate params)) rates xs = Inr rates' \<and> ?ok rates'" if "set xs \<subseteq> set pairs" "?ok rates" for xs rates
    using that
  proof (induction xs arbitrary: rates)
    case (Cons x xs)
    then obtain r1 where "price_step (MinPRVReserveTradingRate params) rates x = Inr r1" "?ok r1" using step by (meson list.set_intros(1) subsetD)
    then show ?case using Cons.IH [of r1] Cons.prems(1) by simp
  qed simp
  from this [of pairs "[]"] show thesis using that by (auto simp: getTokenPricesAgainstPRV_def)
qed

text \<open>The flag of a request: the fee is paid in PRV and another token is sold.\<close>

definition fee_flag :: "('r trade_tx \<Rightarrow> bool) \<Rightarrow> 'r trade_tx \<Rightarrow> 'r trade_tx \<times> bool" where
  "fee_flag burnsPRV tx = (tx, td_TokenToSell (tx_Metadata tx) \<noteq> PRVCoinID \<and> burnsPRV tx)"

lemma weighted_fee_returns:
  assumes "0 < disc" and "\<forall>(t, tok, prv, liq) \<in> set rates. 0 < prv"
  shows "\<exists>fee. weighted_fee rates disc (burnsPRV tx) (tx_Metadata tx) = Inr (snd (fee_flag burnsPRV tx), fee)"
proof -
  have "0 < prv" if "map_of rates t = Some (tok, prv, liq)" for t tok prv liq using map_of_SomeD [OF that] assms(2) by auto
  then show ?thesis using assms(1)
    by (cases "td_TokenToSell (tx_Metadata tx) = PRVCoinID"; cases "burnsPRV tx") (auto simp: weighted_fee_def fee_flag_def discounted_def split: option.splits)
qed

lemma getWeightedFee_returns:
  assumes "params_ok prs params" and "weights_ok params pairs"
  obtains valid invalid where "getWeightedFee burnsPRV txs pairs params = Inr (valid, invalid)"
    "mset (map (\<lambda>(tx, feeInPRV, fee). (tx, feeInPRV)) valid) + mset invalid = mset (map (fee_flag burnsPRV) txs)"
proof -
  define disc where "disc = to_uint64 (100 - PRVDiscountPercent params)"
  have d: "0 < disc" "disc \<le> 100" using assms by (auto simp: disc_def to_uint64_def params_ok_def weights_ok_def MaxPRVDiscountPercent_def)
  obtain rates where rates: "getTokenPricesAgainstPRV pairs (MinPRVReserveTradingRate params) = Inr rates" "\<forall>(t, tok, prv, liq) \<in> set rates. 0 < prv"
    by (rule prices_return [OF assms(2)])
  let ?step = "\<lambda>(valid, invalid) tx. go_bind (weighted_fee rates disc (burnsPRV tx) (tx_Metadata tx)) (\<lambda>(feeInPRV, fee).
          Inr (case fee of None \<Rightarrow> (valid, invalid @ [(tx, feeInPRV)]) | Some f \<Rightarrow> (valid @ [(tx, feeInPRV, f)], invalid)))"
  let ?all = "\<lambda>(valid, invalid). mset (map (\<lambda>(tx, feeInPRV, fee). (tx, feeInPRV)) valid) + mset invalid"
  have "\<exists>valid' invalid'. go_foldl ?step (valid, invalid) txs = Inr (valid', invalid') \<and> ?all (valid', invalid') = ?all (valid, invalid) + mset (map (fee_flag burnsPRV) txs)" for valid invalid
  proof (induction txs arbitrary: valid invalid)
    case (Cons tx txs)
    from weighted_fee_returns [OF d(1) rates(2)] obtain fee where fee: "weighted_fee rates disc (burnsPRV tx) (tx_Metadata tx) = Inr (snd (fee_flag burnsPRV tx), fee)" by blast
    have tx: "(tx, snd (fee_flag burnsPRV tx)) = fee_flag burnsPRV tx" by (simp add: fee_flag_def)
    show ?case
    proof (cases fee)
      case None
      then show ?thesis using fee Cons.IH [of valid "invalid @ [fee_flag burnsPRV tx]"] by (simp add: tx)
    next
      case (Some f)
      then show ?thesis using fee tx Cons.IH [of "valid @ [(tx, snd (fee_flag burnsPRV tx), f)]" invalid] by simp
    qed
  qed simp
  from this [of "[]" "[]"] show thesis using that d(2) rates(1) by (auto simp: getWeightedFee_def disc_def [symmetric] Let_def)
qed

lemma mset_sort_stable [simp]: "mset (sort_stable before xs) = mset xs"
proof -
  have "mset (insert_stable before x ys) = add_mset x (mset ys)" for x ys by (induction ys) auto
  then show ?thesis unfolding sort_stable_def by (induction xs) auto
qed

lemma refunds_return:
  assumes "\<forall>req \<in> set reqs. trade_ok req"
  shows "\<exists>answers. go_foldl (\<lambda>(pairs, result) (tx, feeInPRV).
         go_bind (getRefundedTradeInstructions (tx_Metadata tx) feeInPRV (tx_Hash tx) (tx_ShardID tx)) (\<lambda>refund. Inr (pairs, result @ refund)))
         (pairs, result) reqs = Inr (pairs, result @ concat answers) \<and> list_all2 trade_answer reqs answers \<and> trade_replays params pairs pairs (concat answers)"
  using assms
proof (induction reqs arbitrary: result)
  case Nil
  then show ?case by (auto intro!: exI [of _ "[]"] trade_replays_refl)
next
  case (Cons req reqs)
  obtain tx feeInPRV where req: "req = (tx, feeInPRV)" by force
  obtain rf where rf: "getRefundedTradeInstructions (tx_Metadata tx) feeInPRV (tx_Hash tx) (tx_ShardID tx) = Inr rf" "refunded_ok feeInPRV tx rf"
    by (rule refund_returns [of tx feeInPRV]) (use Cons.prems req in auto)
  from Cons.IH [of "result @ rf"] Cons.prems obtain answers where a: "go_foldl (\<lambda>(pairs, result) (tx, feeInPRV).
         go_bind (getRefundedTradeInstructions (tx_Metadata tx) feeInPRV (tx_Hash tx) (tx_ShardID tx)) (\<lambda>refund. Inr (pairs, result @ refund)))
         (pairs, result @ rf) reqs = Inr (pairs, (result @ rf) @ concat answers)" "list_all2 trade_answer reqs answers" "trade_replays params pairs pairs (concat answers)" by auto
  have "trade_replays params pairs pairs (rf @ concat answers)" using refunds_replay [OF rf(2)] a(3) by (rule trade_replays_append)
  then show ?case using rf a by (intro exI [of _ "rf # answers"]) (simp add: req trade_answer_def)
qed

lemma trade_returns:
  assumes "params_ok prs params" and "rates_ok params" and "weights_ok params pairs" and "tradable pairs" and "\<forall>tx \<in> set txs. trade_ok (fee_flag burnsPRV tx)"
  obtains pairs' reqs answers where "trade burnsPRV params txs pairs = Some (Inr (pairs', concat answers))" "tradable pairs'" "map fst pairs' = map fst pairs"
    "mset reqs = mset (map (fee_flag burnsPRV) txs)" "list_all2 trade_answer reqs answers" "(\<forall>tx \<in> set txs. tx_plain (fee_flag burnsPRV tx)) \<longrightarrow> trade_replays params pairs pairs' (concat answers)"
proof -
  let ?req = "\<lambda>(tx, feeInPRV, fee). (tx, feeInPRV)"
  obtain valid invalid where w: "getWeightedFee burnsPRV txs pairs params = Inr (valid, invalid)" "mset (map ?req valid) + mset invalid = mset (map (fee_flag burnsPRV) txs)"
    by (rule getWeightedFee_returns [OF assms(1,3)])
  let ?sorted = "sort_stable higher_fee valid"
  have set: "set (map ?req ?sorted) \<union> set invalid = fee_flag burnsPRV ` set txs"
    using arg_cong [OF w(2), of set_mset] mset_eq_setD [OF mset_sort_stable, of higher_fee valid] by simp
  have all: "Q x" if "\<forall>tx \<in> set txs. Q (fee_flag burnsPRV tx)" "x \<in> set (map ?req ?sorted) \<union> set invalid" for Q x using that unfolding set by blast
  have ok: "\<forall>(tx, feeInPRV, fee) \<in> set ?sorted. trade_ok (tx, feeInPRV)" "\<forall>req \<in> set invalid. trade_ok req"
    using all [OF assms(5)] by (auto simp: case_prod_beta)
  from trades_return [OF assms(1,2,4) ok(1), of "[]"] obtain pairs' as where a: "run_foldl (trade_tx_step params) (pairs, []) ?sorted = Some (Inr (pairs', concat as))"
    "tradable pairs'" "map fst pairs' = map fst pairs" "list_all2 trade_answer (map ?req ?sorted) as"
    "(\<forall>(tx, feeInPRV, fee) \<in> set ?sorted. tx_plain (tx, feeInPRV)) \<longrightarrow> trade_replays params pairs pairs' (concat as)" unfolding append_Nil by blast
  from refunds_return [OF ok(2), of pairs' "concat as" params] obtain bs where b: "trade burnsPRV params txs pairs = Some (Inr (pairs', concat as @ concat bs))"
    "list_all2 trade_answer invalid bs" "trade_replays params pairs' pairs' (concat bs)" by (auto simp: trade_def w(1) a(1))
  show thesis
  proof (rule that [of pairs' "as @ bs" "map ?req ?sorted @ invalid"])
    have "mset (map ?req ?sorted) = mset (map ?req valid)" by simp
    then show "mset (map ?req ?sorted @ invalid) = mset (map (fee_flag burnsPRV) txs)" using w(2) by simp
    have "(\<forall>tx \<in> set txs. tx_plain (fee_flag burnsPRV tx)) \<longrightarrow> (\<forall>(tx, feeInPRV, fee) \<in> set ?sorted. tx_plain (tx, feeInPRV))"
      using all [of tx_plain] by (auto simp: case_prod_beta)
    then show "(\<forall>tx \<in> set txs. tx_plain (fee_flag burnsPRV tx)) \<longrightarrow> trade_replays params pairs pairs' (concat (as @ bs))"
      using a(5) b(3) trade_replays_append [of params pairs pairs' "concat as" pairs' "concat bs"] by simp
  qed (use a b in \<open>simp_all add: list_all2_appendI\<close>)
qed

section \<open>Correctness of the trades of a block\<close>

definition trade_pool :: PoolPairState where
  "trade_pool = \<lparr>pp_makingVolume = [], pp_state = toy_pool, pp_shares = [], pp_orderRewards = [], pp_orderbook = [toy_order], pp_lpFeesPerShare = [], pp_lmRewardsPerShare = [],
     pp_protocolFees = [], pp_stakingPoolFees = [], pp_lmLockedShare = []\<rparr>"

definition trade_demo_tx :: "string trade_tx" where
  "trade_demo_tx = \<lparr>tx_Hash = ''tx'', tx_ShardID = 0, tx_Metadata = \<lparr>td_TradePath = [''AB''], td_TokenToSell = ''a'', td_SellAmount = 25, td_MinAcceptableAmount = 20,
     td_TradingFee = 5, td_Receiver = [''a'' \<mapsto> ''ra'', ''b'' \<mapsto> ''rb'']\<rparr>\<rparr>"

definition trade_demo_params :: Params where
  "trade_demo_params = demo_valid_params\<lparr>MinPRVReserveTradingRate := 1\<rparr>"

lemma trade_demo:
  "params_ok [] trade_demo_params" "rates_ok trade_demo_params" "weights_ok trade_demo_params [(''AB'', trade_pool)]" "tradable [(''AB'', trade_pool)]"
  "trade_ok (fee_flag (\<lambda>_. False) trade_demo_tx)" "tx_plain (fee_flag (\<lambda>_. False) trade_demo_tx)"
  using demo_valid_params_ok toy_path_ok
  by (simp_all add: trade_demo_params_def params_ok_def rates_ok_def fees_typed_def demo_valid_params_def NewParams_def weights_ok_def trade_pool_def toy_pool_def
      tradable_def clone_ok_def path_ok_def trade_ok_def trade_request_ok_def fee_flag_def trade_demo_tx_def IsUint64_def tx_plain_def plain_fee_def BPS_def)

text \<open>C15. The trades of a block are answered: the handler of trades always returns, and every request gets one answer. Either the trade is
  accepted, with at least the requested amount for the receiver that the request names and a fee in PRV or of a single pool shared out
  exactly among the pools of the path, or the sold amount and the fee are refunded in full. The pools stay well formed.\<close>

theorem trades_answered:
  assumes "params_ok prs params" and "rates_ok params" and "weights_ok params pairs" and "tradable pairs" and "\<forall>tx \<in> set txs. trade_ok (fee_flag burnsPRV tx)"
  shows "\<exists>pairs' reqs answers. trade burnsPRV params txs pairs = Some (Inr (pairs', concat answers)) \<and> tradable pairs' \<and> map fst pairs' = map fst pairs \<and>
    mset reqs = mset (map (fee_flag burnsPRV) txs) \<and> list_all2 trade_answer reqs answers"
  by (rule trade_returns [OF assms]) blast

theorem trades_answered_witness:
  "\<exists>pairs' reqs answers. trade (\<lambda>_. False) trade_demo_params [trade_demo_tx] [(''AB'', trade_pool)] = Some (Inr (pairs', concat answers)) \<and> tradable pairs' \<and>
     mset reqs = {#fee_flag (\<lambda>_. False) trade_demo_tx#} \<and> list_all2 trade_answer reqs answers"
  using trades_answered [OF trade_demo(1-4), of "[trade_demo_tx]" "\<lambda>_. False"] trade_demo(5) by auto

text \<open>C16. Producer and processor of trades agree: when every fee of the block is in PRV or of a trade through a single pool, a node
  whose pools agree with the producer's can process the instructions of the block, and its pools then agree with the pools that the producer
  has (reserves, order books, fees, rewards of order owners and volumes).\<close>

theorem trades_replay_agree:
  assumes "params_ok prs params" and "rates_ok params" and "weights_ok params pairs" and "tradable pairs" and "\<forall>tx \<in> set txs. trade_ok (fee_flag burnsPRV tx) \<and> tx_plain (fee_flag burnsPRV tx)"
    and "pairs_agree pairs (tn_pairs n)"
  shows "\<exists>pairs' insts n'. trade burnsPRV params txs pairs = Some (Inr (pairs', insts)) \<and> go_foldl (process_trade_inst params) n insts = Inr n' \<and> pairs_agree pairs' (tn_pairs n')"
proof -
  have txs: "\<forall>tx \<in> set txs. trade_ok (fee_flag burnsPRV tx)" "\<forall>tx \<in> set txs. tx_plain (fee_flag burnsPRV tx)" using assms(5) by auto
  show ?thesis by (rule trade_returns [OF assms(1-4) txs(1)]) (use txs(2) assms(6) in \<open>auto simp: trade_replays_def\<close>)
qed

theorem trades_replay_agree_witness:
  "\<exists>pairs' insts n'. trade (\<lambda>_. False) trade_demo_params [trade_demo_tx] [(''AB'', trade_pool)] = Some (Inr (pairs', insts)) \<and>
     go_foldl (process_trade_inst trade_demo_params) \<lparr>tn_pairs = [(''AB'', trade_pool)], tn_tracked = []\<rparr> insts = Inr n' \<and> pairs_agree pairs' (tn_pairs n')"
proof -
  have "pairs_agree [(''AB'', trade_pool)] (tn_pairs \<lparr>tn_pairs = [(''AB'', trade_pool)], tn_tracked = []\<rparr>)" by (simp add: pairs_agree_def pool_agrees_def)
  from trades_replay_agree [OF trade_demo(1-4) _ this, of "[trade_demo_tx]" "\<lambda>_. False"] trade_demo(5,6) show ?thesis by simp
qed

end
