(* ===== verification/Pdex_Fee_Weights.thy ===== *)
theory Pdex_Fee_Weights
  imports Pdex_Trade_Block Complex_Main
begin

text \<open>
  The weights of the fees: \<^verbatim>\<open>getTokenPricesAgainstPRV\<close> walks through the map of pools in the order in which the Go runtime delivers it. The
  lemmas show that the weights of the requests, and so the order of the trades of a block, do not depend on that order.
\<close>

section \<open>The best pool of a token\<close>

text \<open>The price of one pool, unless its reserve of PRV is too low.\<close>

definition price_item :: "int \<Rightarrow> PoolPairState \<Rightarrow> (string \<times> int \<times> int \<times> int) option" where
  "price_item minPRVReserve pair = (case prv_reserves (pp_state pair) of (t, tok, prv) \<Rightarrow>
     let amp = int (Amplifier (pp_state pair)) in
     if prv * int BaseAmplifier < minPRVReserve * amp then None
     else Some (t, tok, prv, tok * prv * int BaseAmplifier div amp * int BaseAmplifier div amp))"

definition items :: "int \<Rightarrow> pairs \<Rightarrow> string \<Rightarrow> (int \<times> int \<times> int) set" where
  "items minPRVReserve pairs t = {it. \<exists>p \<in> snd ` set pairs. price_item minPRVReserve p = Some (t, it)}"

lemma price_step_item:
  assumes "0 < Amplifier (pp_state p)"
  shows "price_step m rates (k, p) = Inr (case price_item m p of None \<Rightarrow> rates
    | Some (t, it) \<Rightarrow> if \<exists>old. map_of rates t = Some old \<and> \<not> better_pool it old then rates else al_put t it rates)"
proof -
  obtain t tok prv where "prv_reserves (pp_state p) = (t, tok, prv)" by (metis prod_cases3)
  then show ?thesis using assms
    by (auto simp: price_step_def price_item_def normalized_liquidity_def Let_def split: option.splits)
qed

text \<open>The comparison of pools is one of liquidity, then of rates.\<close>

definition rate :: "int \<times> int \<times> int \<Rightarrow> rat" where
  "rate = (\<lambda>(tok, prv, liq). of_int tok / of_int prv)"

definition priced :: "int \<times> int \<times> int \<Rightarrow> bool" where
  "priced = (\<lambda>(tok, prv, liq). 0 < prv)"

lemma better_pool_rate:
  assumes "priced a" and "priced b"
  shows "better_pool a b \<longleftrightarrow> snd (snd b) < snd (snd a) \<or> snd (snd a) = snd (snd b) \<and> rate b < rate a"
proof -
  obtain tok prv liq tok' prv' liq' where ab: "a = (tok, prv, liq)" "b = (tok', prv', liq')" by (metis prod_cases3)
  have pos: "0 < (of_int prv :: rat)" "0 < (of_int prv' :: rat)" using assms ab by (auto simp: priced_def)
  have "tok' * prv < tok * prv' \<longleftrightarrow> of_int tok' * (of_int prv :: rat) < of_int tok * of_int prv'"
    unfolding of_int_mult [symmetric] of_int_less_iff ..
  also have "\<dots> \<longleftrightarrow> rate b < rate a" using pos by (simp add: rate_def ab divide_less_eq less_divide_eq mult.commute)
  finally show ?thesis by (auto simp: better_pool_def ab)
qed

lemma price_item_priced:
  assumes "price_item m p = Some (t, it)" and "0 < m" and "0 < Amplifier (pp_state p)"
  shows "priced it"
proof -
  obtain t' tok prv where pr: "prv_reserves (pp_state p) = (t', tok, prv)" by (metis prod_cases3)
  have "m * int (Amplifier (pp_state p)) \<le> prv * int BaseAmplifier" using assms(1) by (auto simp: price_item_def pr Let_def split: if_splits)
  moreover have "0 < m * int (Amplifier (pp_state p))" using assms(2,3) by simp
  ultimately have "0 < prv * int BaseAmplifier" by linarith
  then have "0 < prv" by (simp add: zero_less_mult_iff BaseAmplifier_def)
  then show ?thesis using assms(1) by (auto simp: price_item_def pr Let_def priced_def split: if_splits)
qed

definition best_rates :: "int \<Rightarrow> pairs \<Rightarrow> (string \<times> int \<times> int \<times> int) list \<Rightarrow> bool" where
  "best_rates m pairs rates \<longleftrightarrow> (\<forall>t. case map_of rates t of None \<Rightarrow> items m pairs t = {}
     | Some it \<Rightarrow> it \<in> items m pairs t \<and> (\<forall>c \<in> items m pairs t. \<not> better_pool c it))"

lemma best_rates_item:
  assumes "best_rates m pairs rates"
  shows "map_of rates t = None \<Longrightarrow> items m pairs t = {}"
    and "map_of rates t = Some it \<Longrightarrow> it \<in> items m pairs t \<and> (\<forall>c \<in> items m pairs t. \<not> better_pool c it)"
  using assms [unfolded best_rates_def, rule_format, of t] by simp_all

lemma items_priced:
  assumes "it \<in> items m pairs t" and "0 < m" and "\<forall>(k, p) \<in> set pairs. 0 < Amplifier (pp_state p)"
  shows "priced it"
proof -
  from assms(1) obtain k p where "(k, p) \<in> set pairs" "price_item m p = Some (t, it)" by (auto simp: items_def)
  then show ?thesis using price_item_priced [of m p t it] assms(2,3) by auto
qed

lemma best_step:
  assumes "best_rates m pairs rates" and "0 < m" and "\<forall>(k, p) \<in> set (pairs @ [(k, p)]). 0 < Amplifier (pp_state p)"
  shows "\<exists>rates'. price_step m rates (k, p) = Inr rates' \<and> best_rates m (pairs @ [(k, p)]) rates'"
proof -
  have amp: "0 < Amplifier (pp_state p)" using assms(3) by simp
  have priced: "priced it" if "it \<in> items m (pairs @ [(k, p)]) t" for it t
    using items_priced [OF that assms(2,3)] .
  note step = price_step_item [OF amp, of m rates k]
  show ?thesis
  proof (cases "price_item m p")
    case None
    then have same: "items m (pairs @ [(k, p)]) = items m pairs" by (auto simp: items_def fun_eq_iff)
    have "best_rates m (pairs @ [(k, p)]) rates" using assms(1) unfolding best_rates_def same .
    then show ?thesis using None step by simp
  next
    case (Some ti)
    obtain t it where ti: "ti = (t, it)" by (rule prod.exhaust)
    have its: "items m (pairs @ [(k, p)]) u = (if u = t then insert it (items m pairs t) else items m pairs u)" for u
      using Some ti by (auto simp: items_def)
    let ?keep = "\<exists>old. map_of rates t = Some old \<and> \<not> better_pool it old"
    have "best_rates m (pairs @ [(k, p)]) (if ?keep then rates else al_put t it rates)"
      unfolding best_rates_def
    proof (intro allI)
      fix u
      note old = assms(1) [unfolded best_rates_def, rule_format, of u]
      have pr: "priced it" using priced [of it t] its by simp
      show "case map_of (if ?keep then rates else al_put t it rates) u of None \<Rightarrow> items m (pairs @ [(k, p)]) u = {}
        | Some x \<Rightarrow> x \<in> items m (pairs @ [(k, p)]) u \<and> (\<forall>c \<in> items m (pairs @ [(k, p)]) u. \<not> better_pool c x)"
      proof (cases "u = t \<and> \<not> ?keep")
        case False
        then show ?thesis using old its by (cases "u = t") (auto split: option.splits)
      next
        case True
        have "\<not> better_pool c it" if c: "c \<in> items m pairs t" for c
        proof -
          from c old True obtain x where x: "map_of rates t = Some x" "x \<in> items m pairs t" "\<not> better_pool c x" by (auto split: option.splits)
          then have "better_pool it x" using True by simp
          moreover have "priced c" "priced x" using priced [of c t] priced [of x t] c x(2) its by auto
          ultimately show ?thesis using x(3) pr by (auto simp: better_pool_rate)
        qed
        moreover have "\<not> better_pool it it" using pr by (simp add: better_pool_rate)
        moreover have "map_of (if ?keep then rates else al_put t it rates) u = Some it" using True by (simp only: if_False map_of_al_put fun_upd_same)
        ultimately show ?thesis using True its by (simp only: option.case) auto
      qed
    qed
    then show ?thesis using step Some ti by simp
  qed
qed

lemma best_prices:
  assumes "0 < m" and "\<forall>(k, p) \<in> set pairs. 0 < Amplifier (pp_state p)"
  shows "\<exists>rates. getTokenPricesAgainstPRV pairs m = Inr rates \<and> best_rates m pairs rates"
  using assms(2)
proof (induction pairs rule: rev_induct)
  case Nil
  then show ?case by (simp add: getTokenPricesAgainstPRV_def best_rates_def items_def)
next
  case (snoc x pairs)
  obtain k p where x: "x = (k, p)" by force
  from snoc obtain rates where "getTokenPricesAgainstPRV pairs m = Inr rates" "best_rates m pairs rates" by auto
  with best_step [OF this(2) assms(1), of k p] snoc.prems x show ?case by (auto simp: getTokenPricesAgainstPRV_def go_foldl_append)
qed

section \<open>The weights\<close>

lemma same_ratio_div:
  fixes a a' p p' d :: int
  assumes "0 < p" and "0 < p'" and "0 < d" and "a * p' = a' * p"
  shows "a div d div p = a' div d div p'"
proof -
  have "a div (d * p) = (a * p') div (d * p * p')" using assms(2) by simp
  also have "\<dots> = (a' * p) div (d * p' * p)" using assms(4) by (simp add: algebra_simps)
  also have "\<dots> = a' div (d * p')" using assms(1) by simp
  finally show ?thesis using assms(1,2) by (simp add: zdiv_zmult2_eq)
qed

lemma weighted_fee_best:
  assumes "best_rates m pairs rates" and "best_rates m pairs rates'" and "0 < m" and "\<forall>(k, p) \<in> set pairs. 0 < Amplifier (pp_state p)" and "0 \<le> disc"
  shows "weighted_fee rates disc burned md = weighted_fee rates' disc burned md"
proof (cases "map_of rates (td_TokenToSell md)")
  case None
  then have "items m pairs (td_TokenToSell md) = {}" by (rule best_rates_item(1) [OF assms(1)])
  then have "map_of rates' (td_TokenToSell md) = None" using best_rates_item(2) [OF assms(2), of "td_TokenToSell md"] by (cases "map_of rates' (td_TokenToSell md)") blast+
  then show ?thesis using None by (simp add: weighted_fee_def)
next
  case (Some it)
  let ?t = "td_TokenToSell md"
  have it: "it \<in> items m pairs ?t" "\<forall>c \<in> items m pairs ?t. \<not> better_pool c it" using best_rates_item(2) [OF assms(1) Some] by blast+
  then obtain it' where it': "map_of rates' ?t = Some it'" "it' \<in> items m pairs ?t" "\<forall>c \<in> items m pairs ?t. \<not> better_pool c it'"
    using best_rates_item [OF assms(2), of ?t] by (cases "map_of rates' ?t") blast+
  have pr: "priced c" if "c \<in> items m pairs ?t" for c using items_priced [OF that assms(3,4)] .
  have "rate it = rate it'" using it it' pr [OF it(1)] pr [OF it'(2)] by (force simp: better_pool_rate)
  obtain tok prv liq tok' prv' liq' where e: "it = (tok, prv, liq)" "it' = (tok', prv', liq')" by (metis prod_cases3)
  have pos: "0 < prv" "0 < prv'" using pr [OF it(1)] pr [OF it'(2)] e by (auto simp: priced_def)
  from \<open>rate it = rate it'\<close> have "of_int (tok * prv') = (of_int (tok' * prv) :: rat)" using pos by (simp add: rate_def e frac_eq_eq)
  then have eq: "tok * prv' = tok' * prv" unfolding of_int_eq_iff .
  have "td_TradingFee md * tok * 100 * prv' = td_TradingFee md * tok' * 100 * prv" using eq by (simp add: algebra_simps)
  from same_ratio_div [OF pos _ this, of disc] show ?thesis using Some it'(1) e pos assms(5)
    by (cases "disc = 0") (auto simp: weighted_fee_def discounted_def big_div_def)
qed

text \<open>C18. The weights of trades do not depend on the order in which the map of pools is traversed: two nodes that see the same pools in
  different orders compute the same valid and invalid requests with the same weights, although they may choose different pools.\<close>

theorem weights_order_free:
  fixes burnsPRV :: "'r trade_tx \<Rightarrow> bool"
  assumes "weights_ok params pairs" and "mset pairs' = mset pairs"
  shows "getWeightedFee burnsPRV txs pairs' params = getWeightedFee burnsPRV txs pairs params"
proof -
  have w: "0 < MinPRVReserveTradingRate params" "\<forall>(k, p) \<in> set pairs. 0 < Amplifier (pp_state p)" using assms(1) by (auto simp: weights_ok_def)
  have set: "set pairs' = set pairs" using assms(2) by (rule mset_eq_setD)
  obtain rates where r: "getTokenPricesAgainstPRV pairs (MinPRVReserveTradingRate params) = Inr rates" "best_rates (MinPRVReserveTradingRate params) pairs rates"
    using best_prices [OF w] by blast
  obtain rates' where r': "getTokenPricesAgainstPRV pairs' (MinPRVReserveTradingRate params) = Inr rates'" "best_rates (MinPRVReserveTradingRate params) pairs' rates'"
    using best_prices [OF w(1), of pairs'] w(2) set by auto
  have "best_rates (MinPRVReserveTradingRate params) pairs rates'" using r'(2) unfolding best_rates_def items_def set .
  then have "(weighted_fee rates' (to_uint64 (100 - PRVDiscountPercent params)) :: bool \<Rightarrow> 'r TradeRequest \<Rightarrow> _) = weighted_fee rates (to_uint64 (100 - PRVDiscountPercent params))"
    by (intro ext weighted_fee_best [OF _ r(2) w]) (simp_all add: to_uint64_def)
  then show ?thesis unfolding getWeightedFee_def Let_def r(1) r'(1) go_bind_simps by simp
qed

text \<open>Two pools with PRV in either order.\<close>

definition prv_pool :: "string \<Rightarrow> int \<Rightarrow> PoolPairState" where
  "prv_pool t x = trade_pool\<lparr>pp_state := toy_pool\<lparr>Token0ID := t, Token1ID := PRVCoinID, Token1VirtualAmount := x\<rparr>\<rparr>"

theorem weights_order_free_witness:
  "getWeightedFee (\<lambda>_. True) [trade_demo_tx] [(''p'', prv_pool ''a'' 30), (''q'', prv_pool ''a'' 40)] trade_demo_params =
   getWeightedFee (\<lambda>_. True) [trade_demo_tx] [(''q'', prv_pool ''a'' 40), (''p'', prv_pool ''a'' 30)] trade_demo_params"
proof (rule weights_order_free)
  show "weights_ok trade_demo_params [(''q'', prv_pool ''a'' 40), (''p'', prv_pool ''a'' 30)]"
    by (simp add: weights_ok_def trade_demo_params_def demo_valid_params_def NewParams_def prv_pool_def toy_pool_def)
qed simp

end
