(* ===== verification/Pdex_Staking_Replay.thy ===== *)
theory Pdex_Staking_Replay
  imports Pdex_Staking_Safety
begin

text \<open>
  The beacon producer changes its own staking pools while it builds the instructions of a block; every other node only sees the
  instructions. The lemmas show that replaying them gives the pools of the producer.
\<close>

definition canonical_pools :: "pools \<Rightarrow> bool" where
  "canonical_pools pools \<longleftrightarrow> distinct (map fst pools) \<and> (\<forall>pid \<in> fst ` set pools. HashFromStr pid = Some pid)"

text \<open>The instructions replay to the pools.\<close>

definition replays :: "'r staking_node \<Rightarrow> pools \<times> 'r staking_inst list \<Rightarrow> bool" where
  "replays n = (\<lambda>(pools, insts). canonical_pools pools \<and> (\<exists>n'. process_insts insts n = Inr n' \<and> sn_pools n' = pools))"

lemma replays_start: "canonical_pools (sn_pools n) \<Longrightarrow> replays n (sn_pools n, [])"
  by (simp add: replays_def process_insts_def)

lemma canonical_pools_put:
  "canonical_pools pools \<Longrightarrow> map_of pools pid = Some s \<Longrightarrow> canonical_pools (al_put pid s' pools) \<and> HashFromStr pid = Some pid"
  unfolding canonical_pools_def keys_al_put_set by (force dest: map_of_SomeD)

text \<open>New instructions that lead from the old pools to the new ones.\<close>

lemma replays_append:
  assumes r: "replays n (pools, insts)" and c: "canonical_pools pools'"
    and new: "\<And>n'. sn_pools n' = pools \<Longrightarrow> \<exists>n''. process_insts new n' = Inr n'' \<and> sn_pools n'' = pools'"
  shows "replays n (pools', insts @ new)"
proof -
  obtain n' where "process_insts insts n = Inr n'" "sn_pools n' = pools" using r by (auto simp: replays_def)
  then show ?thesis using new [of n'] c by (auto simp: replays_def process_insts_def go_foldl_append)
qed

lemma staking_tx_replays:
  assumes r: "replays n (pools, insts)" and t: "staking_tx nftIDs (pools, insts) tx = Inr res" and k: "canonical_nfts nftIDs"
  shows "replays n res"
proof -
  have c: "canonical_pools pools" using r by (simp add: replays_def)
  let ?md = "tx_Metadata tx"
  consider (reject) i where "res = (pools, insts @ [RejectStakingInst i])"
    | (accept) s s' i where "map_of pools (sr_tokenID ?md) = Some s"
      "updateLiquidity (sr_nftID ?md) (sr_tokenAmount ?md) addOperator s = Inr s'"
      "res = (al_put (sr_tokenID ?md) s' pools, insts @ [AcceptStakingInst i])"
      "as_stakingPoolID i = sr_tokenID ?md" "as_nftID i = sr_nftID ?md" "as_liquidity i = sr_tokenAmount ?md"
    using t canonical_pools_put [OF c] known_nft_canonical [OF _ k]
    by (fastforce simp: staking_tx_def Let_def go_catch_eq_Inr split: option.splits if_splits)
  then show ?thesis
  proof cases
    case reject
    then show ?thesis using replays_append [OF r c] by (simp add: process_insts_def process_inst_def process_staking_def)
  next
    case accept
    then show ?thesis using replays_append [OF r] canonical_pools_put [OF c accept(1)]
      by (simp add: process_insts_def process_inst_def process_staking_def)
  qed
qed

lemma unstaking_tx_replays:
  fixes insts :: "'a staking_inst list"
  assumes r: "replays n (pools, insts)" and t: "unstaking_tx nftIDs (pools, insts) tx = Inr res" and k: "canonical_nfts nftIDs"
  shows "replays n res"
proof -
  have c: "canonical_pools pools" using r by (simp add: replays_def)
  let ?md = "tx_Metadata tx"
  obtain rej where rej: "(BuildRejectUnstakingInstructions ?md (tx_Hash tx) (tx_ShardID tx) :: 'a staking_inst list go) = Inr rej"
    using t by (auto simp: unstaking_tx_def Let_def)
  consider (reject) "res = (pools, insts @ rej)"
    | (accept) s s' i m where "map_of pools (ur_stakingPoolID ?md) = Some s"
      "updateLiquidity (ur_nftID ?md) (ur_unstakingAmount ?md) subOperator s = Inr s'"
      "res = (al_put (ur_stakingPoolID ?md) s' pools, insts @ [AcceptUnstakingInst i, MintNftInst ''297'' m])"
      "au_stakingPoolID i = ur_stakingPoolID ?md" "au_nftID i = ur_nftID ?md" "au_amount i = ur_unstakingAmount ?md"
    using t canonical_pools_put [OF c] known_nft_canonical [OF _ k]
    by (fastforce simp: unstaking_tx_def Let_def rej go_catch_eq_Inr BuildAcceptUnstakingInstructions_def mint_nft_inst_def hash_of_def split: option.splits if_splits)
  then show ?thesis
  proof cases
    case reject
    obtain i m where "rej = [RejectUnstakingInst i, MintNftInst ''297'' m]"
      using rej by (auto simp: BuildRejectUnstakingInstructions_def mint_nft_inst_def)
    then show ?thesis using replays_append [OF r c] reject by (simp add: process_insts_def process_inst_def process_unstaking_def)
  next
    case accept
    then show ?thesis using replays_append [OF r] canonical_pools_put [OF c accept(1)]
      by (simp add: process_insts_def process_inst_def process_unstaking_def)
  qed
qed

lemma al_upd_upd: "al_upd k f (al_upd k g m) = al_upd k (\<lambda>x. f (g x)) m"
  by (auto simp: al_upd_def)

lemma reset_staker_idem [simp]: "reset_staker k (reset_staker k s) = reset_staker k s"
  by (simp add: reset_staker_def al_upd_upd) (simp add: resetKeyValueToZero_def comp_def case_prod_unfold)

lemma reset_staker_known [simp]: "map_of (sp_stakers (reset_staker k s)) k = None \<longleftrightarrow> map_of (sp_stakers s) k = None"
  by (simp add: reset_staker_def)

lemma process_withdrawals:
  assumes "map_of (sn_pools n) pid = Some s" and "map_of (sp_stakers s) nft \<noteq> None" and "cs \<noteq> []"
    and "\<forall>c \<in> set cs. wc_StakingPoolID c = pid \<and> wc_NftID c = nft"
  shows "\<exists>n'. process_insts (map (WithdrawStakingRewardInst True) cs) n = Inr n' \<and> sn_pools n' = al_put pid (reset_staker nft s) (sn_pools n)"
  using assms
proof (induction cs arbitrary: n s)
  case (Cons c cs)
  let ?n = "\<lambda>n'. process_inst n (WithdrawStakingRewardInst True c) = Inr n' \<and> sn_pools n' = al_put pid (reset_staker nft s) (sn_pools n)"
  obtain n' where n': "?n n'" using Cons.prems by (auto simp: process_inst_def process_withdrawStakingReward_def Let_def)
  show ?case
  proof (cases "cs = []")
    case True
    then show ?thesis using n' by (simp add: process_insts_def)
  next
    case False
    have "map_of (sn_pools n') pid = Some (reset_staker nft s)" "map_of (sp_stakers (reset_staker nft s)) nft \<noteq> None"
      "\<forall>c \<in> set cs. wc_StakingPoolID c = pid \<and> wc_NftID c = nft" using n' Cons.prems by auto
    from Cons.IH [OF this(1,2) False this(3)] show ?thesis using n' by (auto simp: process_insts_def)
  qed
qed simp

lemma no_withdrawals [simp]: "BuildWithdrawStakingRewardInsts pid nft [] shard tx = []"
  by (simp add: BuildWithdrawStakingRewardInsts_def)

lemma withdraw_staking_tx_replays:
  assumes r: "replays n (pools, insts)" and t: "withdraw_staking_tx otaString (pools, insts) tx = Inr res"
  shows "replays n res"
proof -
  have c: "canonical_pools pools" using r by (simp add: replays_def)
  let ?md = "tx_Metadata tx"
  consider (reject) m c where "res = (pools, insts @ [MintNftInst ''306'' m, WithdrawStakingRewardInst False c])"
    | (accept) s reward m where "map_of pools (wr_StakingPoolID ?md) = Some s" "map_of (sp_stakers s) (wr_NftID ?md) \<noteq> None" "reward \<noteq> []"
      "RecomputeStakingRewards (wr_NftID ?md) s = Inr reward"
      "res = (al_put (wr_StakingPoolID ?md) (reset_staker (wr_NftID ?md) s) pools, insts @ MintNftInst ''306'' m #
         BuildWithdrawStakingRewardInsts (wr_StakingPoolID ?md) (wr_NftID ?md)
           (map (\<lambda>(u, a). (u, the (wr_Receivers ?md u), a)) reward) (tx_ShardID tx) (tx_Hash tx))"
    using t by (auto simp: withdraw_staking_tx_def Let_def BuildRejectWithdrawStakingRewardInsts_def mint_nft_inst_def split: option.splits if_splits)
  then show ?thesis
  proof cases
    case reject
    then show ?thesis using replays_append [OF r c] by (simp add: process_insts_def process_inst_def process_withdrawStakingReward_def Let_def)
  next
    case accept
    let ?recs = "map (\<lambda>(u, a). (u, the (wr_Receivers ?md u), a)) reward"
    obtain cs where cs: "BuildWithdrawStakingRewardInsts (wr_StakingPoolID ?md) (wr_NftID ?md) ?recs (tx_ShardID tx) (tx_Hash tx) = map (WithdrawStakingRewardInst True) cs"
      "cs \<noteq> []" "\<forall>c \<in> set cs. wc_StakingPoolID c = wr_StakingPoolID ?md \<and> wc_NftID c = wr_NftID ?md"
    proof
      let ?cs = "map (\<lambda>(i, tokenID, receiver). \<lparr>wc_StakingPoolID = wr_StakingPoolID ?md, wc_NftID = wr_NftID ?md, wc_TokenID = tokenID,
        wc_Receiver = Some receiver, wc_IsLastInst = (i = length (sort_key fst ?recs) - 1), wc_TxReqID = tx_Hash tx, wc_ShardID = tx_ShardID tx\<rparr>)
        (zip [0..<length (sort_key fst ?recs)] (sort_key fst ?recs))"
      show "BuildWithdrawStakingRewardInsts (wr_StakingPoolID ?md) (wr_NftID ?md) ?recs (tx_ShardID tx) (tx_Hash tx) = map (WithdrawStakingRewardInst True) ?cs"
        by (simp add: BuildWithdrawStakingRewardInsts_def case_prod_unfold comp_def Let_def)
      have "length ?cs = length reward" by simp
      then show "?cs \<noteq> []" using accept(3) by (metis length_0_conv)
      show "\<forall>c \<in> set ?cs. wc_StakingPoolID c = wr_StakingPoolID ?md \<and> wc_NftID c = wr_NftID ?md" by auto
    qed
    show ?thesis unfolding accept(5) cs(1)
      using process_withdrawals [OF _ accept(2) cs(2,3)] accept(1) canonical_pools_put [OF c accept(1)]
      by (intro replays_append [OF r]) (auto simp: process_insts_def process_inst_def)
  qed
qed


lemma distribute_pool_replays:
  assumes r: "replays n (pools, insts)" and t: "distribute_pool shares rewards share (pools, insts) pid = Inr res"
  shows "replays n res"
proof -
  have c: "canonical_pools pools" using r by (simp add: replays_def)
  from distribute_pool_result [OF t] obtain s out where s: "map_of pools pid = Some s"
    and res: "res = (al_put pid (foldl (\<lambda>p (t, a). StakingPool_AddReward t a p) s out) pools,
      insts @ (if out \<noteq> [] then [DistributeStakingRewardInst \<lparr>dc_StakingPoolID = pid, dc_Rewards = out\<rparr>] else []))" by blast
  show ?thesis
  proof (cases "out = []")
    case True
    then show ?thesis using r s c by (simp add: res al_put_same canonical_pools_def)
  next
    case False
    then show ?thesis using replays_append [OF r] canonical_pools_put [OF c s] s
      by (simp add: res process_insts_def process_inst_def process_distributeStakingReward_def)
  qed
qed

text \<open>One call of a producer, and the instructions of a run.\<close>

lemma go_foldl_replays:
  assumes "go_foldl f (sn_pools n, []) xs = Inr res" and "canonical_pools (sn_pools n)"
    and "\<And>p i x res. x \<in> set xs \<Longrightarrow> replays n (p, i) \<Longrightarrow> f (p, i) x = Inr res \<Longrightarrow> replays n res"
  shows "replays n res"
  using assms(1) by (rule go_foldl_invariant [where P = "replays n"]) (use assms(2,3) replays_start in auto)

lemma produced_replays:
  assumes "canonical_pools (sn_pools n)" and "op_allowed op"
  shows "replays n (produced op (sn_pools n))"
proof (cases "produce op (sn_pools n)")
  case (Inl e)
  then show ?thesis using replays_start [OF assms(1)] by (simp add: produced_def)
next
  case (Inr res)
  have "replays n res"
  proof (cases op)
    case (Staking nftIDs txs)
    then show ?thesis using Inr assms unfolding produce_def op_allowed_def
      by (auto simp: staking_def intro: staking_tx_replays elim!: go_foldl_replays)
  next
    case (Unstaking nftIDs txs)
    then show ?thesis using Inr assms unfolding produce_def op_allowed_def
      by (auto simp: unstaking_def intro: unstaking_tx_replays elim!: go_foldl_replays)
  next
    case (DistributeReward poolPairs shares)
    then show ?thesis using Inr assms unfolding produce_def
      by (auto simp: distributeStakingReward_def Let_def replays_start intro: distribute_pool_replays elim!: go_foldl_replays split: if_splits)
  next
    case (WithdrawReward otaString txs)
    then show ?thesis using Inr assms unfolding produce_def
      by (auto simp: withdrawStakingReward_def intro: withdraw_staking_tx_replays elim!: go_foldl_replays)
  qed
  then show ?thesis using Inr by (simp add: produced_def)
qed

fun run_insts :: "'r staking_op list \<Rightarrow> pools \<Rightarrow> 'r staking_inst list" where
  "run_insts [] pools = []"
| "run_insts (op # ops) pools = snd (produced op pools) @ run_insts ops (fst (produced op pools))"

text \<open>C11. Every node reaches the producer's staking pools: replaying the instructions built by any sequence of producer calls, on a node
  with the same pools, succeeds and gives exactly the pools the producer ended with.\<close>

theorem staking_replay_agrees:
  assumes "\<forall>op \<in> set ops. op_allowed op" and "canonical_pools (sn_pools n)"
  shows "\<exists>n'. process_insts (run_insts ops (sn_pools n)) n = Inr n' \<and> sn_pools n' = run_producers ops (sn_pools n)"
  using assms
proof (induction ops arbitrary: n)
  case (Cons op ops)
  have "replays n (produced op (sn_pools n))" by (intro produced_replays) (use Cons.prems in auto)
  then obtain n' where n': "process_insts (snd (produced op (sn_pools n))) n = Inr n'" "sn_pools n' = fst (produced op (sn_pools n))"
    "canonical_pools (sn_pools n')" by (auto simp: replays_def)
  from Cons.IH [OF _ n'(3)] Cons.prems(1) obtain n'' where n'': "process_insts (run_insts ops (sn_pools n')) n' = Inr n''"
    "sn_pools n'' = run_producers ops (sn_pools n')" by auto
  then show ?case using n'(1,2) by (auto simp: process_insts_def go_foldl_append run_producers_def)
qed (simp add: process_insts_def run_producers_def)

theorem staking_replay_agrees_witness:
  "length (run_insts demo_ops (new_pools [demo_pool])) = 5 \<and>
   (\<exists>n'. process_insts (run_insts demo_ops (new_pools [demo_pool])) \<lparr>sn_pools = new_pools [demo_pool], sn_receiverCache = [], sn_tracked = []\<rparr> = Inr n' \<and>
     sn_pools n' = run_producers demo_ops (new_pools [demo_pool]))"
proof
  show "length (run_insts demo_ops (new_pools [demo_pool])) = 5" by code_simp
  have "canonical_pools (new_pools [demo_pool])" by code_simp
  then show "\<exists>n'. process_insts (run_insts demo_ops (new_pools [demo_pool])) \<lparr>sn_pools = new_pools [demo_pool], sn_receiverCache = [], sn_tracked = []\<rparr> = Inr n' \<and>
     sn_pools n' = run_producers demo_ops (new_pools [demo_pool])"
    using staking_replay_agrees [OF demo_ops_allowed, of "\<lparr>sn_pools = new_pools [demo_pool], sn_receiverCache = [], sn_tracked = []\<rparr>"] by simp
qed

end
