(* ===== verification/Pdex_Liquidity_Replay.thy ===== *)
theory Pdex_Liquidity_Replay
  imports Pdex_Liquidity_Books Pdex_Staking_Replay
begin

text \<open>
  Replaying the instructions of a liquidity request. The lemmas follow the producers branch by branch; what they need is that
  the access token is known, that token identifiers are printed hashes, and that the key of a new pool is free.
\<close>

definition replayed :: "int \<Rightarrow> Params \<Rightarrow> 'r liquidity_node \<Rightarrow> 'r liquidity_inst list \<Rightarrow> pairs \<Rightarrow> contributions \<Rightarrow> bool" where
  "replayed h params n insts pairs waitings \<longleftrightarrow> (\<exists>n'. process_liquidities h params insts n = Inr n' \<and> ln_pairs n' = pairs \<and> ln_waiting n' = waitings)"

lemma replayed_Nil: "replayed h params n [] pairs waitings \<longleftrightarrow> ln_pairs n = pairs \<and> ln_waiting n = waitings"
  by (auto simp: replayed_def process_liquidities_def)

lemma replayed_Cons: "process_liquidity h params n i = Inr n' \<Longrightarrow> replayed h params n (i # insts) pairs waitings = replayed h params n' insts pairs waitings"
  by (simp add: replayed_def process_liquidities_def)

lemma track_fields [simp]: "ln_pairs (track x n) = ln_pairs n" "ln_waiting (track x n) = ln_waiting n"
  by (simp_all add: track_def)

lemma drop_waiting_fields [simp]:
  "ln_pairs (drop_waiting ph n) = ln_pairs n"
  "distinct (map fst (ln_waiting n)) \<Longrightarrow> ln_waiting (drop_waiting ph n) = al_del ph (ln_waiting n)"
proof -
  show "ln_pairs (drop_waiting ph n) = ln_pairs n" by (simp add: drop_waiting_def split: option.split)
  have "al_del ph m = m" if "map_of m ph = None" for m :: contributions
    using that by (auto simp: al_del_def filter_id_conv map_of_eq_None_iff) force
  then show "distinct (map fst (ln_waiting n)) \<Longrightarrow> ln_waiting (drop_waiting ph n) = al_del ph (ln_waiting n)"
    by (simp add: drop_waiting_def split: option.split)
qed

lemma al_del_twice [simp]: "al_del k (al_del k m) = al_del k m"
  by (simp add: al_del_def)

lemma refunds_replayed:
  assumes "distinct (map fst (ln_waiting n))"
  shows "replayed h params n (BuildRefundAddLiquidityInstructions c0 c1) (ln_pairs n) (al_del (cs_pairHash c0) (al_del (cs_pairHash c1) (ln_waiting n)))"
proof -
  have c: "al_del a (al_del b m) = al_del b (al_del a m)" for a b and m :: contributions by (simp add: al_del_def conj_commute)
  show ?thesis using assms
    by (simp add: replayed_def process_liquidities_def BuildRefundAddLiquidityInstructions_def process_liquidity_def refundContribution_def c)
qed

section \<open>Contributions\<close>

lemma contribute_new_replayed:
  fixes insts :: "'r liquidity_inst list"
  assumes r: "contribute_new h ph nft pid w i pairs = Inr (pairs', insts)" and n: "ln_pairs n = pairs" "map_of (ln_waiting n) ph = Some w" "distinct (map fst (ln_waiting n))"
    and pid: "pid = generatePoolPairKey (co_tokenID w) (co_tokenID i) (co_txReqID w)" "locked_blocks params pid = 0" and nft: "co_nftID w = nft"
  shows "replayed h params n insts pairs' (al_del ph (ln_waiting n))"
proof -
  consider (refund) "pairs' = pairs" "insts = BuildRefundAddLiquidityInstructions \<lparr>cs_value = w, cs_pairHash = ph\<rparr> \<lparr>cs_value = i, cs_pairHash = ph\<rparr>"
    | (accept) s p where "big_sqrt (co_amount w * co_amount i) = Inr s" "addShare nft (to_uint64 s) h 0 (initPoolPairState w i) = Inr p" "pairs' = al_put pid p pairs"
      "insts = [MatchAddLiquidity \<lparr>cs_value = i, cs_pairHash = ph\<rparr> pid]"
    using r by (auto simp: contribute_new_def Let_def go_catch_eq_Inr)
  then show ?thesis
  proof cases
    case refund
    then show ?thesis using refunds_replayed [OF n(3), of h params "\<lparr>cs_value = w, cs_pairHash = ph\<rparr>" "\<lparr>cs_value = i, cs_pairHash = ph\<rparr>"] n(1) by simp
  next
    case accept
    then show ?thesis using n pid nft
      by (simp add: replayed_def process_liquidities_def process_liquidity_def matchContribution_def Let_def drop_waiting_def track_def)
  qed
qed

lemma contribute_existing_replayed:
  fixes insts :: "'r liquidity_inst list"
  assumes r: "contribute_existing h params ph nft pid w i root pairs = Inr (pairs', insts)" and pairs: "pairs_ok pairs" "map_of pairs pid = Some root"
    and n: "ln_pairs n = pairs" "map_of (ln_waiting n) ph = Some w" "distinct (map fst (ln_waiting n))"
    and c: "contribution_ok w" "contribution_ok i" "\<not> contribution_mismatch w i" and v: "validateTokenIDsByPoolPairID [co_tokenID w, co_tokenID i] pid"
    and pid: "co_poolPairID w = pid" and nft: "co_nftID w = nft"
  shows "replayed h params n insts pairs' (al_del ph (ln_waiting n))"
proof -
  have f: "filed (pid, root)" using pairs by (rule pairs_ok_pair)
  then have ro: "reserves_ok (pp_state root)" and k: "take 2 (go_split CHR ''-'' pid) = [Token0ID (pp_state root), Token1ID (pp_state root)]" by (auto simp: filed_def)
  have cn: "co_tokenID w \<noteq> co_tokenID i" "co_poolPairID i = pid" using c(3) pid by (auto simp: contribution_mismatch_def)
  have tt: "{co_tokenID w, co_tokenID i} = {Token0ID (pp_state root), Token1ID (pp_state root)}"
    using v k cn by (auto simp: validateTokenIDsByPoolPairID_def split: list.splits)
  obtain c0 c1 where cc: "getContributionsByOrder root w i = (c0, c1)" by fastforce
  have c01: "co_tokenID c0 = Token0ID (pp_state root)" "co_tokenID c1 = Token1ID (pp_state root)" "IsUint64 (co_amount c0)" "IsUint64 (co_amount c1)"
    "co_poolPairID c0 = pid" "co_poolPairID c1 = pid"
    using cc tt c cn pid by (auto simp: getContributionsByOrder_def contribution_ok_def doubleton_eq_iff split: if_splits)
  have lt: "co_tokenID c0 < co_tokenID c1" using ro c01 by (simp add: reserves_ok_def)
  let ?s0 = "\<lparr>cs_value = c0, cs_pairHash = ph\<rparr>" and ?s1 = "\<lparr>cs_value = c1, cs_pairHash = ph\<rparr>"
  consider (refund) "pairs' = pairs" "insts = BuildRefundAddLiquidityInstructions ?s0 ?s1"
    | (accept) a0 ret0 a1 ret1 s q p where "computeActualContributedAmounts root c0 c1 = Inr (a0, ret0, a1, ret1)"
      "addReserveDataAndCalculateShare (co_tokenID c0) (co_tokenID c1) a0 a1 root = Inr (s, q)" "addShare nft s h (locked_blocks params pid) q = Inr p"
      "pairs' = al_put pid p pairs" "insts = BuildMatchAndReturnAddLiquidityInstructions ?s0 ?s1 s ret0 a0 ret1 a1"
    using r by (auto simp: contribute_existing_def cc Let_def go_catch_eq_Inr split: if_splits)
  then show ?thesis
  proof cases
    case refund
    then show ?thesis using refunds_replayed [OF n(3), of h params ?s0 ?s1] n(1) by simp
  next
    case accept
    note a = actual_amounts [OF accept(1) ro c01(3,4)]
    then have rest: "to_uint64 (co_amount c0 - ret0) = a0" by (metis add_diff_cancel_right' to_uint64_id)
    obtain tp where tp: "updateReserveData a0 a1 s addOperator (pp_state root) = Inr tp" "q = root\<lparr>pp_state := tp\<rparr>"
      using accept(2) lt by (auto simp: addReserveDataAndCalculateShare_def)
    let ?m = "\<lparr>mr_shareAmount = s, mr_contribution = ?s0, mr_returnAmount = ret0, mr_existedTokenActualAmount = a1, mr_existedTokenReturnAmount = ret1, mr_existedTokenID = co_tokenID c1\<rparr>"
    let ?n1 = "drop_waiting ph (n\<lparr>ln_pairs := al_put pid p pairs, ln_pairHashCache := al_put ph (co_txReqID c0) (ln_pairHashCache n)\<rparr>)"
    have "matchAndReturnContribution h params ?m n = Inr ?n1"
      using n pairs(2) pid c01 lt rest tp accept(3) nft unfolding matchAndReturnContribution_def by (auto simp: Let_def)
    then have 1: "process_liquidity h params n (MatchAndReturnInst ?m) = Inr ?n1" by (simp add: process_liquidity_def)
    have w1: "map_of (ln_waiting ?n1) ph = None" using n(3) by simp
    show ?thesis unfolding accept(5) BuildMatchAndReturnAddLiquidityInstructions_def accept(4)
      using 1 w1 n(3) by (simp add: replayed_Cons) (simp add: replayed_def process_liquidities_def process_liquidity_def matchAndReturnContribution_def Let_def)
  qed
qed

lemma contribute_pair_replayed:
  fixes insts :: "'r liquidity_inst list"
  assumes r: "contribute_pair h params md w i pairs = Inr (pairs', insts)" and pairs: "pairs_ok pairs"
    and n: "ln_pairs n = pairs" "map_of (ln_waiting n) (lr_pairHash md) = Some w" "distinct (map fst (ln_waiting n))"
    and c: "contribution_ok w" "contribution_ok i" and i: "co_tokenID i = lr_tokenID md" "HashFromStr (lr_nftID md) = Some (co_nftID i)"
    and fresh: "co_poolPairID w = [] \<Longrightarrow> map_of pairs (generatePoolPairKey (co_tokenID w) (co_tokenID i) (co_txReqID w)) = None"
    and params: "\<And>k. map_of pairs k = None \<Longrightarrow> locked_blocks params k = 0"
  shows "replayed h params n insts pairs' (al_del (lr_pairHash md) (ln_waiting n))"
proof -
  let ?refund = "BuildRefundAddLiquidityInstructions \<lparr>cs_value = w, cs_pairHash = lr_pairHash md\<rparr> \<lparr>cs_value = i, cs_pairHash = lr_pairHash md\<rparr> :: 'r liquidity_inst list"
  define pid where "pid = (if co_poolPairID w = [] then generatePoolPairKey (co_tokenID w) (lr_tokenID md) (co_txReqID w) else co_poolPairID w)"
  have r': "(if contribution_mismatch w i then Inr (pairs, ?refund)
     else case HashFromStr (lr_nftID md) of None \<Rightarrow> Inl (GoErr ''NewHashFromStr'')
       | Some nft \<Rightarrow> (case map_of pairs pid of
            None \<Rightarrow> if co_poolPairID w = [] then contribute_new h (lr_pairHash md) nft pid w i pairs else Inr (pairs, ?refund)
          | Some root \<Rightarrow> if \<not> validateTokenIDsByPoolPairID [co_tokenID w, co_tokenID i] pid then Inr (pairs, ?refund)
              else contribute_existing h params (lr_pairHash md) nft pid w i root pairs)) = Inr (pairs', insts)"
    using r unfolding contribute_pair_def Let_def pid_def .
  have refund: ?thesis if "Inr (pairs, ?refund) = (Inr (pairs', insts) :: (pairs \<times> 'r liquidity_inst list) go)"
    using that refunds_replayed [OF n(3), of h params "\<lparr>cs_value = w, cs_pairHash = lr_pairHash md\<rparr>" "\<lparr>cs_value = i, cs_pairHash = lr_pairHash md\<rparr>"] n(1) by auto
  show ?thesis
  proof (cases "contribution_mismatch w i")
    case True
    then show ?thesis using r' refund by simp
  next
    case False
    then have nft: "co_nftID w = co_nftID i" by (auto simp: contribution_mismatch_def)
    show ?thesis
    proof (cases "map_of pairs pid")
      case None
      show ?thesis
      proof (cases "co_poolPairID w = []")
        case True
        have "pid = generatePoolPairKey (co_tokenID w) (co_tokenID i) (co_txReqID w)" using True i by (simp add: pid_def)
        moreover have "contribute_new h (lr_pairHash md) (co_nftID i) pid w i pairs = Inr (pairs', insts)" using r' False i(2) None True by simp
        ultimately show ?thesis using contribute_new_replayed n params [OF None] nft by blast
      next
        case np: False
        then show ?thesis using r' False i(2) None refund by simp
      qed
    next
      case (Some root)
      then have pid: "co_poolPairID w = pid" using fresh i(1) by (auto simp: pid_def split: if_splits)
      show ?thesis
      proof (cases "validateTokenIDsByPoolPairID [co_tokenID w, co_tokenID i] pid")
        case True
        have "contribute_existing h params (lr_pairHash md) (co_nftID i) pid w i root pairs = Inr (pairs', insts)" using r' False i(2) Some True by simp
        from contribute_existing_replayed [OF this pairs Some n c False True pid nft] show ?thesis .
      next
        case nv: False
        then show ?thesis using r' False i(2) Some refund by simp
      qed
    qed
  qed
qed

text \<open>What the environment guarantees of a request: identifiers are printed hashes, its access token is known, and transaction hashes are
  unique, so that the pool it may create with a waiting contribution has a new key, which no parameter mentions yet.\<close>

definition add_context :: "(string \<times> int) list \<Rightarrow> Params \<Rightarrow> pairs \<Rightarrow> contributions \<Rightarrow> AddLiquidityRequest Transaction \<Rightarrow> bool" where
  "add_context nftIDs params pairs waitings tx \<longleftrightarrow> add_request_ok tx \<and> HashFromStr (lr_nftID (tx_Metadata tx)) = Some (lr_nftID (tx_Metadata tx)) \<and>
     known_nft nftIDs (lr_nftID (tx_Metadata tx)) \<and>
     (\<forall>w. map_of waitings (lr_pairHash (tx_Metadata tx)) = Some w \<and> co_poolPairID w = [] \<longrightarrow>
       map_of pairs (generatePoolPairKey (co_tokenID w) (lr_tokenID (tx_Metadata tx)) (co_txReqID w)) = None) \<and>
     (\<forall>k \<in> fst ` set (PDEXRewardPoolPairsShare params). map_of pairs k \<noteq> None)"

lemma addLiquidity_tx_replayed:
  fixes insts :: "'r liquidity_inst list"
  assumes r: "addLiquidity_tx h nftIDs params (ln_pairs n, ln_waiting n, []) tx = Inr (pairs', waitings', insts)"
    and d: "dex_ok (ln_pairs n, ln_waiting n)" and tx: "add_context nftIDs params (ln_pairs n) (ln_waiting n) tx"
  shows "replayed h params n insts pairs' waitings'"
proof -
  let ?md = "tx_Metadata tx"
  obtain c where c: "NewContributionWithMetaData ?md (tx_Hash tx) (tx_ShardID tx) = Inr c" using r by (auto simp: addLiquidity_tx_def Let_def)
  have ok: "add_request_ok tx" and known: "known_nft nftIDs (lr_nftID ?md)" using tx by (auto simp: add_context_def)
  note nc = NewContribution_ok [OF c ok]
  have nft: "HashFromStr (lr_nftID ?md) = Some (co_nftID c)"
    using c known tx by (auto simp: NewContributionWithMetaData_def hash_of_def known_nft_def add_context_def split: if_splits option.splits)
  have dd: "pairs_ok (ln_pairs n)" "distinct (map fst (ln_waiting n))" using d by (auto simp: dex_ok_def)
  show ?thesis
  proof (cases "map_of (ln_waiting n) (lr_pairHash ?md)")
    case None
    then show ?thesis using r known
      by (auto simp: addLiquidity_tx_def Let_def c replayed_def process_liquidities_def process_liquidity_def waitingContribution_def)
  next
    case (Some w)
    then have r': "contribute_pair h params ?md w c (ln_pairs n) = Inr (pairs', insts)" "waitings' = al_del (lr_pairHash ?md) (ln_waiting n)"
      using r known by (auto simp: addLiquidity_tx_def Let_def c)
    have w: "contribution_ok w" using d map_of_SomeD [OF Some] by (force simp: dex_ok_def)
    have "locked_blocks params k = 0" if "map_of (ln_pairs n) k = None" for k
      using tx that map_of_SomeD [of "PDEXRewardPoolPairsShare params" k] by (force simp: locked_blocks_def add_context_def)
    moreover have "map_of (ln_pairs n) (generatePoolPairKey (co_tokenID w) (co_tokenID c) (co_txReqID w)) = None" if "co_poolPairID w = []"
      using tx Some that nc(2) by (simp add: add_context_def)
    ultimately show ?thesis using contribute_pair_replayed [OF r'(1) dd(1) refl Some dd(2) w nc(1,2) nft] r'(2) by blast
  qed
qed

section \<open>Withdrawals\<close>

lemma withdrawLiquidity_tx_replayed:
  fixes insts :: "'r liquidity_inst list"
  assumes r: "withdrawLiquidity_tx nftIDs (ln_pairs n, []) tx = Inr (pairs', insts)" and d: "pairs_ok (ln_pairs n)"
    and k: "HashFromStr (wl_nftID (tx_Metadata tx)) = Some (wl_nftID (tx_Metadata tx))"
  shows "replayed h params n insts pairs' (ln_waiting n)"
proof -
  let ?md = "tx_Metadata tx"
  obtain rej where rej: "(BuildRejectWithdrawLiquidityInstructions ?md (tx_Hash tx) (tx_ShardID tx) :: 'r liquidity_inst list go) = Inr rej"
    using r by (auto simp: withdrawLiquidity_tx_def Let_def)
  consider (reject) "pairs' = ln_pairs n" "insts = rej"
    | (accept) root sh x0 x1 taken p where "map_of (ln_pairs n) (wl_poolPairID ?md) = Some root" "map_of (pp_shares root) (wl_nftID ?md) = Some sh"
      "deductShare (wl_nftID ?md) (wl_shareAmount ?md) root = Inr (x0, x1, taken, p)"
      "BuildAcceptWithdrawLiquidityInstructions ?md (Token0ID (pp_state p)) (Token1ID (pp_state p)) x0 x1 taken (tx_Hash tx) (tx_ShardID tx) = Inr insts"
      "pairs' = al_put (wl_poolPairID ?md) p (ln_pairs n)"
    using r by (auto simp: withdrawLiquidity_tx_def Let_def rej go_catch_eq_Inr split: option.splits if_splits)
  then show ?thesis
  proof cases
    case reject
    then show ?thesis using rej k
      by (auto simp: BuildRejectWithdrawLiquidityInstructions_def liquidity_nft_def hash_of_def replayed_def process_liquidities_def process_liquidity_def rejectWithdrawLiquidity_def)
  next
    case accept
    have f: "filed (wl_poolPairID ?md, root)" using d accept(1) by (rule pairs_ok_pair)
    then have ne: "Token0ID (pp_state root) \<noteq> Token1ID (pp_state root)" by (auto simp: filed_def reserves_ok_def)
    obtain tp1 tp where u: "updateSingleTokenAmount (Token0ID (pp_state root)) x0 taken subOperator (pp_state root) = Inr tp1"
      "updateSingleTokenAmount (Token1ID tp1) x1 taken subOperator tp1 = Inr tp" "updateShareValue taken (wl_nftID ?md) subOperator 0 0 (root\<lparr>pp_state := tp\<rparr>) = Inr p"
      using accept(3) accept(2) by (auto simp: deductShare_def updateReserveData_def Let_def split: if_splits)
    have ids: "Token0ID tp1 = Token0ID (pp_state root)" "Token1ID tp1 = Token1ID (pp_state root)" "Token0ID tp = Token0ID (pp_state root)" "Token1ID tp = Token1ID (pp_state root)"
      using u(1,2) by (auto simp: updateSingleTokenAmount_def split: if_splits)
    have pid: "Token0ID (pp_state p) = Token0ID (pp_state root)" "Token1ID (pp_state p) = Token1ID (pp_state root)"
      using updateShareValue_state [OF u(3)] ids by auto
    show ?thesis using accept(1,2,4,5) k u ids pid ne
      by (auto simp: BuildAcceptWithdrawLiquidityInstructions_def liquidity_nft_def replayed_def process_liquidities_def process_liquidity_def
          acceptWithdrawLiquidity_def Let_def split: if_splits)
  qed
qed

section \<open>Fees\<close>

text \<open>The instructions of one fee withdrawal, one per token, each applied to the same pool: applying a change twice is applying it once.\<close>

lemma process_repeated:
  assumes step: "\<And>i n p. i \<in> set insts \<Longrightarrow> map_of (ln_pairs n) pid = Some p \<Longrightarrow>
      \<exists>n'. process_liquidity h params n i = Inr n' \<and> ln_pairs n' = al_put pid (f p) (ln_pairs n) \<and> ln_waiting n' = ln_waiting n"
    and idem: "\<And>p. f (f p) = f p" and p: "map_of (ln_pairs n) pid = Some p" and ne: "insts \<noteq> []"
  shows "replayed h params n insts (al_put pid (f p) (ln_pairs n)) (ln_waiting n)"
  using step p ne
proof (induction insts arbitrary: n p)
  case (Cons i insts)
  obtain n' where n': "process_liquidity h params n i = Inr n'" "ln_pairs n' = al_put pid (f p) (ln_pairs n)" "ln_waiting n' = ln_waiting n"
    using Cons.prems(1) [of i n p] Cons.prems(2) by auto
  show ?case
  proof (cases "insts = []")
    case True
    then show ?thesis using n' by (simp add: replayed_Cons replayed_Nil)
  next
    case False
    have "map_of (ln_pairs n') pid = Some (f p)" using n'(2) by simp
    from Cons.IH [OF Cons.prems(1) this False] show ?thesis using n' idem by (simp add: replayed_Cons)
  qed
qed simp

lemma resetKeyValueToZero_idem [simp]: "resetKeyValueToZero (resetKeyValueToZero m) = resetKeyValueToZero m"
  by (auto simp: resetKeyValueToZero_def)

lemma reset_share_idem [simp]: "reset_share k (reset_share k p) = reset_share k p"
  by (simp add: reset_share_def al_upd_upd)

lemma lp_fee_insts:
  assumes "i \<in> set (BuildWithdrawLPFeeInsts True pid nft recs shard tx)" and "map_of (ln_pairs n) pid = Some p"
  shows "\<exists>n'. process_liquidity h params n i = Inr n' \<and> ln_pairs n' = al_put pid (reset_share nft p) (ln_pairs n) \<and> ln_waiting n' = ln_waiting n"
  using assms by (auto simp: BuildWithdrawLPFeeInsts_def Let_def process_liquidity_def process_withdrawLPFee_def)

lemma protocol_fee_insts:
  assumes "i \<in> set (BuildWithdrawProtocolFeeInsts True pid address recs shard tx)" and "map_of (ln_pairs n) pid = Some p"
  shows "\<exists>n'. process_liquidity h params n i = Inr n' \<and> ln_pairs n' = al_put pid (p\<lparr>pp_protocolFees := resetKeyValueToZero (pp_protocolFees p)\<rparr>) (ln_pairs n) \<and> ln_waiting n' = ln_waiting n"
  using assms by (auto simp: BuildWithdrawProtocolFeeInsts_def Let_def process_liquidity_def process_withdrawProtocolFee_def)

lemma fee_insts_nonempty:
  "recs \<noteq> [] \<Longrightarrow> BuildWithdrawLPFeeInsts True pid nft recs shard tx \<noteq> []"
  "amts \<noteq> [] \<Longrightarrow> BuildWithdrawProtocolFeeInsts True pid address amts shard tx \<noteq> []"
proof -
  have "length (BuildWithdrawLPFeeInsts True pid nft recs shard tx) = length recs" "length (BuildWithdrawProtocolFeeInsts True pid address amts shard tx) = length amts"
    by (simp_all add: BuildWithdrawLPFeeInsts_def BuildWithdrawProtocolFeeInsts_def Let_def)
  then show "recs \<noteq> [] \<Longrightarrow> BuildWithdrawLPFeeInsts True pid nft recs shard tx \<noteq> []"
    "amts \<noteq> [] \<Longrightarrow> BuildWithdrawProtocolFeeInsts True pid address amts shard tx \<noteq> []" by (metis length_0_conv)+
qed

lemma withdrawLPFee_tx_replayed:
  assumes r: "withdrawLPFee_tx otaString (ln_pairs n, []) tx = Inr (pairs', insts)"
  shows "replayed h params n insts pairs' (ln_waiting n)"
proof -
  let ?md = "tx_Metadata tx"
  consider (reject) m where "pairs' = ln_pairs n" "insts = LiquidityNftInst ''299'' m # BuildWithdrawLPFeeInsts False (lf_PoolPairID ?md) (lf_NftID ?md) [] (tx_ShardID tx) (tx_Hash tx)"
    | (accept) p reward m where "map_of (ln_pairs n) (lf_PoolPairID ?md) = Some p" "withdrawable (lf_NftID ?md) p = Inr reward" "reward \<noteq> []"
      "pairs' = al_put (lf_PoolPairID ?md) (reset_share (lf_NftID ?md) p) (ln_pairs n)"
      "insts = LiquidityNftInst ''299'' m # BuildWithdrawLPFeeInsts True (lf_PoolPairID ?md) (lf_NftID ?md)
         (map (\<lambda>(tokenID, amt). (tokenID, the (lf_Receivers ?md tokenID), amt)) reward) (tx_ShardID tx) (tx_Hash tx)"
    using r unfolding withdrawLPFee_tx_def Let_def liquidity_nft_def prod.case by (auto split: option.splits if_split_asm)
  then show ?thesis
  proof cases
    case reject
    then show ?thesis by (simp add: replayed_def process_liquidities_def process_liquidity_def BuildWithdrawLPFeeInsts_def process_withdrawLPFee_def Let_def)
  next
    case accept
    have "process_liquidity h params n (LiquidityNftInst ''299'' m) = Inr n" by (simp add: process_liquidity_def)
    moreover have "replayed h params n (BuildWithdrawLPFeeInsts True (lf_PoolPairID ?md) (lf_NftID ?md)
         (map (\<lambda>(tokenID, amt). (tokenID, the (lf_Receivers ?md tokenID), amt)) reward) (tx_ShardID tx) (tx_Hash tx)) pairs' (ln_waiting n)"
      unfolding accept(4) using accept(1,3) by (intro process_repeated lp_fee_insts fee_insts_nonempty) auto
    ultimately show ?thesis by (simp add: accept(5) replayed_Cons)
  qed
qed

lemma withdrawProtocolFee_tx_replayed:
  assumes r: "withdrawProtocolFee_tx fund (ln_pairs n, []) tx = (pairs', insts)"
  shows "replayed h params n insts pairs' (ln_waiting n)"
proof -
  let ?md = "tx_Metadata tx"
  consider (reject) "pairs' = ln_pairs n" "insts = BuildWithdrawProtocolFeeInsts False (pf_PoolPairID ?md) (fst fund) [] (snd fund) (tx_Hash tx)"
    | (accept) p where "map_of (ln_pairs n) (pf_PoolPairID ?md) = Some p" "getMapWithoutZeroValue (pp_protocolFees p) \<noteq> []"
      "pairs' = al_put (pf_PoolPairID ?md) (p\<lparr>pp_protocolFees := resetKeyValueToZero (pp_protocolFees p)\<rparr>) (ln_pairs n)"
      "insts = BuildWithdrawProtocolFeeInsts True (pf_PoolPairID ?md) (fst fund) (getMapWithoutZeroValue (pp_protocolFees p)) (snd fund) (tx_Hash tx)"
    using r by (auto simp: withdrawProtocolFee_tx_def Let_def split: option.splits if_splits)
  then show ?thesis
  proof cases
    case reject
    then show ?thesis by (simp add: replayed_def process_liquidities_def process_liquidity_def BuildWithdrawProtocolFeeInsts_def process_withdrawProtocolFee_def Let_def)
  next
    case accept
    show ?thesis unfolding accept(3,4)
      by (rule process_repeated [where f = "\<lambda>p. p\<lparr>pp_protocolFees := resetKeyValueToZero (pp_protocolFees p)\<rparr>", OF protocol_fee_insts _ accept(1) fee_insts_nonempty(2) [OF accept(2)]]) auto
  qed
qed

datatype 'r liquidity_request =
    AddRequest "AddLiquidityRequest Transaction"
  | WithdrawRequest "WithdrawLiquidityRequest Transaction"
  | LPFeeRequest "'r WithdrawalLPFeeRequest Transaction"
  | ProtocolFeeRequest "WithdrawalProtocolFeeRequest Transaction"

text \<open>What the producer makes of one request, and what is known of a request that reaches it.\<close>

definition produce_request :: "int \<Rightarrow> (string \<times> int) list \<Rightarrow> Params \<Rightarrow> ('r \<Rightarrow> string option) \<Rightarrow> string \<times> nat \<Rightarrow> pairs \<times> contributions \<Rightarrow>
    'r liquidity_request \<Rightarrow> (pairs \<times> contributions \<times> 'r liquidity_inst list) go" where
  "produce_request h nftIDs params otaString fund = (\<lambda>(pairs, waitings) req.
     case req of
       AddRequest tx \<Rightarrow> addLiquidity_tx h nftIDs params (pairs, waitings, []) tx
     | WithdrawRequest tx \<Rightarrow> go_bind (withdrawLiquidity_tx nftIDs (pairs, []) tx) (\<lambda>(pairs', insts). Inr (pairs', waitings, insts))
     | LPFeeRequest tx \<Rightarrow> go_bind (withdrawLPFee_tx otaString (pairs, []) tx) (\<lambda>(pairs', insts). Inr (pairs', waitings, insts))
     | ProtocolFeeRequest tx \<Rightarrow> (let (pairs', insts) = withdrawProtocolFee_tx fund (pairs, []) tx in Inr (pairs', waitings, insts)))"

definition request_context :: "(string \<times> int) list \<Rightarrow> Params \<Rightarrow> pairs \<times> contributions \<Rightarrow> 'r liquidity_request \<Rightarrow> bool" where
  "request_context nftIDs params = (\<lambda>(pairs, waitings) req.
     case req of
       AddRequest tx \<Rightarrow> add_context nftIDs params pairs waitings tx
     | WithdrawRequest tx \<Rightarrow> HashFromStr (wl_nftID (tx_Metadata tx)) = Some (wl_nftID (tx_Metadata tx))
     | _ \<Rightarrow> True)"

text \<open>C10. Every node follows the producer on liquidity: for a request to add liquidity, to withdraw liquidity, to take provider fees or to
  take protocol fees, replaying the instructions the producer built from it, on a node with the same pools and waiting contributions,
  succeeds and gives exactly the producer's pools and waiting contributions. A request to add liquidity is well typed, its access token
  is known and a printed hash, the key of a pool it would create is not in use, and the reward parameters name existing pools only; the
  access token of a withdrawal is a printed hash. A request with an unknown token is the case of the theorem that follows.\<close>

theorem liquidity_replay_agrees:
  fixes n :: "'r liquidity_node"
  assumes "dex_ok (ln_pairs n, ln_waiting n)" and "request_context nftIDs params (ln_pairs n, ln_waiting n) req"
    and "produce_request h nftIDs params otaString fund (ln_pairs n, ln_waiting n) req = Inr (pairs', waitings', insts)"
  shows "\<exists>n'. process_liquidities h params insts n = Inr n' \<and> ln_pairs n' = pairs' \<and> ln_waiting n' = waitings'"
proof -
  have d: "pairs_ok (ln_pairs n)" using assms by (simp add: dex_ok_def)
  have "replayed h params n insts pairs' waitings'"
  proof (cases req)
    case (AddRequest tx)
    then show ?thesis using addLiquidity_tx_replayed [OF _ assms(1)] assms by (simp add: produce_request_def request_context_def)
  next
    case (WithdrawRequest tx)
    then show ?thesis using withdrawLiquidity_tx_replayed [OF _ d] assms by (auto simp: produce_request_def request_context_def go_bind_def split: sum.splits)
  next
    case (LPFeeRequest tx)
    then show ?thesis using withdrawLPFee_tx_replayed assms by (auto simp: produce_request_def go_bind_def split: sum.splits)
  next
    case (ProtocolFeeRequest tx)
    then show ?thesis using assms by (auto simp: produce_request_def split: prod.splits intro: withdrawProtocolFee_tx_replayed)
  qed
  then show ?thesis unfolding replayed_def by blast
qed

definition demo_liquidity_node :: "pairs \<Rightarrow> contributions \<Rightarrow> string liquidity_node" where
  "demo_liquidity_node pairs waitings = \<lparr>ln_pairs = pairs, ln_waiting = waitings, ln_deletedWaiting = [], ln_pairHashCache = [], ln_withdrawTxCache = [],
     ln_rewardCache = [], ln_receiverCache = [], ln_tracked = []\<rparr>"

definition demo_waiting :: Pdexv3Contribution where
  "demo_waiting = \<lparr>co_poolPairID = [], co_otaReceiver = ''r'', co_tokenID = demo_nft CHR ''a'', co_amount = 20, co_amplifier = 1, co_txReqID = ''t1'',
     co_nftID = demo_nft CHR ''1'', co_shardID = 0\<rparr>"

theorem liquidity_replay_agrees_witness:
  "\<exists>pairs' insts n'. addLiquidity_tx 1 [(demo_nft CHR ''1'', 0)] demo_params ([], [(''ph'', demo_waiting)], []) (demo_add ''t2'' (demo_nft CHR ''b'') 80) = Inr (pairs', [], insts) \<and>
     process_liquidities 1 demo_params insts (demo_liquidity_node [] [(''ph'', demo_waiting)]) = Inr n' \<and> ln_pairs n' = pairs'"
proof -
  let ?n = "demo_liquidity_node [] [(''ph'', demo_waiting)]" and ?tx = "demo_add ''t2'' (demo_nft CHR ''b'') 80" and ?nfts = "[(demo_nft CHR ''1'', 0)]"
  have "map_sum id (\<lambda>(p, w, i). w) (addLiquidity_tx 1 ?nfts demo_params ([], [(''ph'', demo_waiting)], [] :: string liquidity_inst list) ?tx) = Inr []" by code_simp
  then obtain pairs' insts where r: "addLiquidity_tx 1 ?nfts demo_params (ln_pairs ?n, ln_waiting ?n, [] :: string liquidity_inst list) ?tx = Inr (pairs', [], insts)"
    by (cases "addLiquidity_tx 1 ?nfts demo_params ([], [(''ph'', demo_waiting)], [] :: string liquidity_inst list) ?tx") (auto simp: demo_liquidity_node_def)
  have d: "dex_ok (ln_pairs ?n, ln_waiting ?n)"
    by (simp add: demo_liquidity_node_def dex_ok_def pairs_ok_def contribution_ok_def demo_waiting_def IsUint64_def demo_nft_def)
  have h: "HashFromStr (demo_nft CHR ''1'') = Some (demo_nft CHR ''1'')" "HashFromStr (demo_nft CHR ''b'') = Some (demo_nft CHR ''b'')"
    "known_nft ?nfts (demo_nft CHR ''1'')" by code_simp+
  then have "add_context ?nfts demo_params (ln_pairs ?n) (ln_waiting ?n) ?tx"
    by (simp add: add_context_def add_request_ok_def demo_add_def demo_liquidity_node_def demo_params_def NewParams_def IsUint64_def)
  then have c: "request_context ?nfts demo_params (ln_pairs ?n, ln_waiting ?n) (AddRequest ?tx :: string liquidity_request)" by (simp add: request_context_def)
  have "produce_request 1 ?nfts demo_params Some ([], 0) (ln_pairs ?n, ln_waiting ?n) (AddRequest ?tx) = Inr (pairs', [], insts)" using r by (simp add: produce_request_def)
  from liquidity_replay_agrees [OF d c this] show ?thesis using r by (auto simp: demo_liquidity_node_def)
qed

text \<open>C40. A refund can drop somebody else's contribution: when a request with an unknown access token carries the pair hash of a waiting
  contribution, the producer refunds only the request and keeps the contribution waiting, but every node that replays the instruction
  removes the waiting contribution, which no instruction refunds.\<close>

theorem refund_drops_waiting:
  fixes n :: "'r liquidity_node"
  assumes "\<not> known_nft nftIDs (lr_nftID (tx_Metadata tx))" and "map_of (ln_waiting n) (lr_pairHash (tx_Metadata tx)) = Some w"
    and "NewContributionWithMetaData (tx_Metadata tx) (tx_Hash tx) (tx_ShardID tx) = Inr c" and "distinct (map fst (ln_waiting n))"
  shows "\<exists>i n'. addLiquidity_tx h nftIDs params (ln_pairs n, ln_waiting n, []) tx = Inr (ln_pairs n, ln_waiting n, [RefundAddLiquidity i]) \<and> cs_value i = c \<and>
    process_liquidities h params [RefundAddLiquidity i] n = Inr n' \<and> ln_pairs n' = ln_pairs n \<and> map_of (ln_waiting n') (lr_pairHash (tx_Metadata tx)) = None"
  using assms
  by (auto simp: addLiquidity_tx_def Let_def process_liquidities_def process_liquidity_def refundContribution_def)

theorem refund_drops_waiting_witness:
  "\<exists>i n'. process_liquidities 1 demo_params [RefundAddLiquidity i] (demo_liquidity_node [] [(''ph'', demo_waiting)]) = Inr n' \<and> map_of (ln_waiting n') ''ph'' = None \<and> co_amount (cs_value i) = 80"
proof -
  let ?n = "demo_liquidity_node [] [(''ph'', demo_waiting)]" and ?tx = "demo_add ''t2'' (demo_nft CHR ''b'') 80"
  have k: "\<not> known_nft [] (lr_nftID (tx_Metadata ?tx))" by (simp add: known_nft_def)
  have w: "map_of (ln_waiting ?n) (lr_pairHash (tx_Metadata ?tx)) = Some demo_waiting" "distinct (map fst (ln_waiting ?n))" by (simp_all add: demo_liquidity_node_def demo_add_def)
  have "map_sum id co_amount (NewContributionWithMetaData (tx_Metadata ?tx) (tx_Hash ?tx) (tx_ShardID ?tx)) = Inr 80" by code_simp
  then obtain c where c: "NewContributionWithMetaData (tx_Metadata ?tx) (tx_Hash ?tx) (tx_ShardID ?tx) = Inr c" "co_amount c = 80"
    by (cases "NewContributionWithMetaData (tx_Metadata ?tx) (tx_Hash ?tx) (tx_ShardID ?tx)") auto
  from refund_drops_waiting [OF k w(1) c(1) w(2), of 1 demo_params] c(2) show ?thesis by (auto simp: demo_add_def)
qed

end
