(* ===== verification/Spec2Isabelle.thy ===== *)
theory Spec2Isabelle
  imports Shard_Committee Assign_Mean Salary Multi_View Beacon_Restore Pdex_Order_Block Pdex_Fee_Weights Pdex_Liquidity_Replay
begin

text \<open>
  A verification development for the Incognito chain: the committee machinery of the beacon chain with
  beacon staking, the fork choice, and the trading core of the pDEX.

  \<^bold>\<open>The program.\<close> Incognito is a sharded proof-of-stake chain written in Go. A beacon chain coordinates
  the shards: beacon blocks carry \<^emph>\<open>instructions\<close>, lists of strings that stake, unstake, assign, swap and
  return validators (\<^verbatim>\<open>src/instruction\<close>). Every node replays them on its committee state
  (\<^verbatim>\<open>src/blockchain/committeestate\<close>), which keeps the shard committees, the substitutes, the common pool and,
  in the newer engine, the sync pools. Swaps depend on a counter of missed signatures
  (\<^verbatim>\<open>src/blockchain/signaturecounter\<close>). The fourth engine adds staking for the beacon committee: stakers wait,
  become substitutes and members, are delegated to, slashed, locked and paid back, with their records in a state
  database beside the pools in memory. A node holds the blocks above the finalized one as a tree of views
  (\<^verbatim>\<open>src/multiview\<close>) and chooses the best and the final view of it. The pDEX (\<^verbatim>\<open>src/blockchain/pdex\<close>) is an exchange run by the beacon
  chain: pools with amplified constant-product pricing, limit orders, and fees shared by
  providers and by the stakers of staking pools. A producer turns the requests of a block into instructions, and all nodes process these.

  \<^bold>\<open>Layout.\<close>
  \<^item> \<open>Inc_Prelude\<close>: the result type \<open>'a go\<close> (a value, an error, a panic) with its bind, folds and maps,
    slices with Go's bound checks, truncating division, \<^verbatim>\<open>IndexOfStr\<close> (\<^verbatim>\<open>src/common/common.go\<close>), and the
    locales \<open>budgeted_runs\<close> for bounds along sequences of operations and \<open>solvent_runs\<close> for accounts that never pay out more
    than they received.
  \<^item> \<open>Go_Strings\<close>: what the sources use of \<^verbatim>\<open>strings\<close> and \<^verbatim>\<open>strconv\<close> (split, join, decimal numbers with
    their range errors), with the round trips.
  \<^item> \<open>Instructions\<close>, \<open>Staking_Instructions\<close>: one record per instruction of \<^verbatim>\<open>src/instruction/*.go\<close> with
    its printing, sanity check and import, and the dispatcher of \<^verbatim>\<open>instruction.go\<close>.
  \<^item> \<open>Instruction_Codec\<close>: the locales \<open>instruction_codec\<close> (printing then importing is the identity) and
    \<open>canonical_codec\<close>, interpreted for every instruction; the round trips of the dispatcher, and the
    inputs on which the code loses data or panics.
  \<^item> \<open>Signature_Counter\<close>: \<^verbatim>\<open>missingsignaturecounter.go\<close> with 64-bit counters; \<open>budgeted_runs\<close> is interpreted
    on its operations; who is slashed, and that late votes are credited exactly.
  \<^item> \<open>Swap_Rules\<close>: \<^verbatim>\<open>consensus_swap_rule.go\<close>, \<^verbatim>\<open>_v2.go\<close>, \<^verbatim>\<open>_v3.go\<close> and \<^verbatim>\<open>utils.go\<close>; the locale \<open>swap_rule\<close> is the
    contract of the interface \<^verbatim>\<open>SwapRuleProcessor\<close>, interpreted for both rules and for the dispatch on it.
  \<^item> \<open>Assign_Rules\<close>: \<^verbatim>\<open>consensus_assign_rule.go\<close> and the assignment of \<^verbatim>\<open>consensus_swap_rule_v1.go\<close>; the locale
    \<open>assign_rule\<close> is the contract of \<^verbatim>\<open>AssignRuleProcessor\<close>; \<open>Assign_Mean\<close>: its mean, computed in floating point, is exact. \<open>Swap_V1\<close>: the swap of the first version.
  \<^item> \<open>Committee_Change\<close>, \<open>Committee_State\<close>: the record of changes, the environment, the committee states and
    every handler of the slashing engine (version 2) and of the dynamic engine (version 3), composed to
    \<^verbatim>\<open>UpdateCommitteeState\<close>.
  \<^item> \<open>Shard_Committee\<close>: \<^verbatim>\<open>shard_committee_state_v1.go\<close> to \<^verbatim>\<open>_v3.go\<close>: the committee of a shard, which first swaps its own
    validators and later follows the beacon; a swap that a producer proposes is accepted by all nodes.
  \<^item> \<open>Go_Float\<close>, \<open>Reward_Rules\<close>, \<open>Salary\<close>: floating point with its rounding error; the rules that split rewards
    (\<^verbatim>\<open>consensus_reward_rule.go\<close>), with the locale \<open>reward_rule\<close> as the contract of \<^verbatim>\<open>SplitRewardRuleProcessor\<close>; and \<^verbatim>\<open>salary.go\<close>: the reward of a
    block and its cap, the instructions of an epoch and the payment of a committee.
  \<^item> \<open>Committee_Conservation\<close>: the abstract view of a state is the multiset of keys that hold a role; every
    handler, every instruction and whole blocks refine addition and removal on it.
  \<^item> \<open>Multi_View\<close>: \<^verbatim>\<open>multiview.go\<close>, \<^verbatim>\<open>beaconmultiview.go\<close>, \<^verbatim>\<open>shardmultiview.go\<close>: views, fork choice before and after
    instant finality, finalizing, cleaning and replacing; the reachable states of the beacon multiview are the inductive
    \<open>beacon_run\<close>, and \<open>anc\<close> is the order along previous hashes.
  \<^item> \<open>Beacon_Swap\<close>: \<^verbatim>\<open>beacon_swap_v1.go\<close>. \<open>Beacon_Instructions\<close>: the instructions of beacon staking and delegation
    (\<^verbatim>\<open>instruction_beaconstake.go\<close>, \<^verbatim>\<open>_share_price.go\<close>, \<^verbatim>\<open>_mint_delegationreward.go\<close>, \<^verbatim>\<open>_requestreward.go\<close>), two of them
    interpretations of \<open>instruction_codec\<close>.
  \<^item> \<open>Beacon_Staking\<close>: the state of \<^verbatim>\<open>beacon_committee_state_v4.go\<close>, its pools, setters and lists, and the records of
    \<^verbatim>\<open>statedb\<close> it stores. \<open>Beacon_Process\<close>: every function \<^verbatim>\<open>Process...\<close> of it and of \<^verbatim>\<open>beacon_delegation.go\<close>, the
    hashes, \<^verbatim>\<open>UpdateCommitteeState\<close>, \<^verbatim>\<open>RestoreBeaconCommitteeFromDB\<close> and \<^verbatim>\<open>UpgradeFromV3\<close>.
  \<^item> \<open>Beacon_Roles\<close>: the abstract view of that state gives every key at most one role (active in one pool, or
    locked) with one record; \<open>represents\<close> says that memory and database agree on it, \<open>follows\<close> that roles only evolve.
    \<open>Beacon_Epoch\<close>: slashing, unstaking and swap at the end of an epoch. \<open>Beacon_Block\<close>: the other functions of a block;
    the locale \<open>role_keeping\<close> is the contract they share, interpreted on eleven of them. \<open>Beacon_Consistency\<close>: unlocking, whole
    blocks, and what depends on the order of a Go map. \<open>Beacon_Restore\<close>: restoring and the upgrade.
  \<^item> \<open>Pdex_Pool\<close>: \<^verbatim>\<open>v2utils/swap.go\<close> and the pool part of \<^verbatim>\<open>reserve.go\<close>. \<open>Pdex_Orders\<close>: \<^verbatim>\<open>v2utils/order.go\<close> and
    \<^verbatim>\<open>order_book.go\<close>; the locale \<open>pricing\<close> shares the lemmas of the two matching procedures. \<open>Pdex_Trade\<close>:
    \<^verbatim>\<open>MaybeAcceptTrade\<close> over the interface \<^verbatim>\<open>OrderBookIterator\<close>, whose contract is the locale
    \<open>order_iterator_contract\<close>, interpreted on the order book. \<open>Pdex_Rewards\<close>: the splitting of fees and rewards.
  \<^item> \<open>Pdex_State\<close>: pool pairs with the shares of their providers (\<^verbatim>\<open>pool_pair_state.go\<close>, \<^verbatim>\<open>state_v2_utils.go\<close>), staking
    pools (\<^verbatim>\<open>staking_pool_state.go\<close>) and the arithmetic of \<^verbatim>\<open>pdex/utils.go\<close>. \<open>Pdex_Staking\<close> and \<open>Pdex_Liquidity\<close>: the
    producers of staking, of liquidity and of fee withdrawals (\<^verbatim>\<open>state_producer_v2.go\<close>), which turn the requests of a block into
    instructions, and the processors (\<^verbatim>\<open>state_processor_v2.go\<close>), with which every node replays the instructions.
  \<^item> \<open>Pdex_Staking_Safety\<close>, \<open>Pdex_Shares\<close>, \<open>Pdex_Pair_Safety\<close>: what a staking pool or a pool pair owes for each token, and the
    interpretations of \<open>solvent_runs\<close> on their operations. \<open>Pdex_Liquidity_Safety\<close>: the value of a share.
    \<open>Pdex_Liquidity_Books\<close>: the books of the whole exchange balance. \<open>Pdex_Staking_Replay\<close>, \<open>Pdex_Liquidity_Replay\<close>: the
    processors refine the producers.
  \<^item> \<open>Pdex_Params\<close>: the parameters of the exchange (\<^verbatim>\<open>params.go\<close>), their check and the handlers that change them.
    \<open>Pdex_Order_Handlers\<close>: the producers and processors of limit orders, with the in-place removal of \<^verbatim>\<open>order_book.go\<close>.
    \<open>Pdex_Order_Safety\<close>: every withdrawal and every new order keeps the books of producer and node in step. \<open>Pdex_Order_Block\<close>:
    the order handlers of one block in the order of \<^verbatim>\<open>BuildInstructions\<close>.
  \<^item> \<open>Pdex_Mint\<close>: block rewards for providers and order owners, and the access tokens of users. \<open>Pdex_Trade_Handlers\<close>: the trade
    handlers of producer and processor around \<open>Pdex_Trade\<close>, with the conversion of fees and paths of \<^verbatim>\<open>pdex/utils.go\<close> and \<^verbatim>\<open>TrackFee\<close>.
    \<open>Pdex_Trade_Replay\<close>: the changes an accepted trade records are those of its pools and orders, and a node that applies them
    gets the pools of the producer. \<open>Pdex_Trade_Block\<close>: the trades of a block are all answered. \<open>Pdex_Fee_Weights\<close>: the weights of
    trades do not depend on the traversal order of a Go map.

  \<^bold>\<open>State, effects and numbers.\<close> Mutated objects are records passed through the handlers. A function that
  returns an error returns no state: the callers drop or have cloned what it changed. Slices of validators
  are lists, shard identifiers natural numbers (\<^verbatim>\<open>byte()\<close> is written \<open>mod 256\<close>), Go maps partial functions
  or association lists where the code ranges over them in sorted order. The signature counters are 64-bit
  words; sizes are integers; amounts of tokens are integers with the range checks and the wrap-around
  of \<^verbatim>\<open>uint64\<close> written out; \<^verbatim>\<open>big.Int\<close> is \<open>int\<close>.

  \<^bold>\<open>Parameters.\<close> Code outside the repository and code that is not modelled enters as arguments: the decoding
  of keys, hashes and receivers (record \<open>codec\<close>), hashing, the random generator, \<^verbatim>\<open>sort.Slice\<close> and
  \<^verbatim>\<open>sort.Strings\<close>, the staker database of versions 2 and 3, the hash roots, and for version 4 the record \<open>v4_calls\<close> (keys,
  hashes, number parsing, validation data, the clock, sorting, configuration) and the JSON hashes. What a theorem needs of them is a named
  hypothesis (for instance \<open>sort_slice_contract\<close> and \<open>sorts\<close>: sorting permutes and sorts; \<open>calls_ok\<close>: keys decode to what
  was encoded).

  \<^bold>\<open>Loops.\<close> Loops over slices are structural recursions or folds. The loop of the slashing offset
  (\<open>shrink_loop\<close>), the binary search of \<^verbatim>\<open>sort.Search\<close> (\<open>go_search\<close>) and the integer square root come with
  termination proofs. The walks of the fork choice along previous hashes and of the
  breadth-first search are \<^theory_text>\<open>partial_function (option)\<close>, and that they return is part of the theorems. The loop of a
  trade over an order book is a \<^theory_text>\<open>partial_function (option)\<close>; that it ends is
  proved: each round ends the loop or sells out an order.

  \<^bold>\<open>What is shown.\<close> Instructions survive the wire; the counters never miss more than they count and slash at
  the half; swaps conserve validators, keep committees within their sizes and fixed validators in place;
  assignment gives every candidate one shard; whole blocks of the slashing engine and single
  instructions of the dynamic engine conserve roles; a shard accepts the swap its producer proposed and later follows
  the beacon; block rewards stay below their maximum and the instructions of an epoch pay what was collected. Blocks of the fourth engine keep memory and database in
  agreement, nobody leaves without its stake, the end of an epoch never fails, and restoring and the upgrade
  give consistent states. While the blocks use instant finality and extend the finalized view,
  the best view extends it too, and the finalized view only moves up its branch. A pool never loses its product and respects the rate of
  the order it stops at; the book stays sorted and gives its best order; matching follows the order's rate;
  a trade ends, after at most one round for each matchable order of a hop and one more, and conserves both tokens at every hop; fees and rewards are split without loss. Providers and stakers are never paid
  more than came in for them and can always leave with their stake; a share never loses value by the liquidity of others;
  contributions and withdrawals conserve every token, and so do orders, of which no access token gets more than the parameters
  allow; every trade of a block is accepted with at least what it asked for or refunded in full; block rewards are minted without
  excess; parameters stay valid whatever changes are requested; and replaying the instructions of a producer gives its state, but for the
  refund case that \<open>refund_drops_waiting\<close> exhibits, for a new pool whose key is in use or reward parameters that name no pool, and for fees that a trade through several pools pays in the sold token, where producer
  and processor split the rewards by different volumes.

  \<^bold>\<open>Not modelled.\<close> Networking, storage and the virtual machine bridges; cryptography (keys, signatures,
  zero-knowledge proofs); the consensus rounds (\<^verbatim>\<open>src/consensus_v2\<close>); the transaction pool and the shard
  block store; the dispatch of salary instructions and delegation rewards in \<^verbatim>\<open>salary.go\<close>; the older engine's \<^verbatim>\<open>UpdateCommitteeState\<close> of version 1; of the pDEX the inscriptions, the genesis mint, the first version and
  the change tracking of the database; portal and bridge. Logging, locks and metrics are left out of the modelled functions. The next
  part to model is the voting of \<^verbatim>\<open>blsbft\<close>.
\<close>

end
